(* ===== verification/VxPrelude.thy ===== *)
theory VxPrelude
  imports Main "HOL-Library.Word"
begin

text \<open>
  Shared vocabulary of the development: the machine integer types of the C code, the
  collections of simplification rules the component theories fill and use, and the generic
  facts on carries, divisions and lists that several components need.
\<close>

unbundle bit_operations_syntax

subsection \<open>Types of the source\<close>

type_synonym u8 = "8 word"
type_synonym u16 = "16 word"
type_synonym u32 = "32 word"
type_synonym u64 = "64 word"

text \<open>\<open>target_ulong\<close> in the x86-64 configuration.\<close>

type_synonym target_ulong = "64 word"

subsection \<open>Collections\<close>

named_theorems vx_frame \<open>fields an operation leaves alone\<close>
named_theorems vx_inv \<open>preservation of a component's invariant\<close>
named_theorems vx_bits \<open>reading single bits of the words the code builds\<close>

lemmas bit_reading [vx_bits] =
  bit_and_iff bit_or_iff bit_xor_iff bit_not_iff bit_push_bit_iff bit_drop_bit_eq
  bit_take_bit_iff bit_numeral_word_iff bit_unsigned_iff bit_simps

subsection \<open>Sums below twice the modulus\<close>

lemma int_mod_once:
  fixes s m :: int
  assumes "0 \<le> s" "s < 2 * m"
  shows "s mod m = (if m \<le> s then s - m else s)"
proof (cases "m \<le> s")
  case True
  then have "s mod m = (s - m) mod m" by (metis minus_mod_self2)
  also have "\<dots> = s - m" using True assms by (intro mod_pos_pos_trivial) auto
  finally show ?thesis using True by simp
next
  case False
  with assms show ?thesis by (simp add: mod_pos_pos_trivial)
qed

lemma int_div_once:
  fixes s m :: int
  assumes "0 \<le> s" "s < 2 * m"
  shows "s div m = (if m \<le> s then 1 else 0)"
proof (cases "m \<le> s")
  case True
  with assms have "s div m = 1"
    by (intro int_div_pos_eq [where r = "s - m"]) auto
  with True show ?thesis by simp
next
  case False
  with assms show ?thesis by (simp add: div_pos_pos_trivial)
qed

subsection \<open>Carries of an addition\<close>

text \<open>
  Bit \<open>k\<close> of a sum with carry-in is the exclusive or of the operands' bits and of the
  carry out of the lower \<open>k\<close> bits. The flag computations of the x86 helpers rest on this.
\<close>

lemma int_add_carry_bit:
  fixes a b c :: int
  assumes "0 \<le> c" "c \<le> 1"
  shows "bit (a + b + c) k \<longleftrightarrow>
    (bit a k \<noteq> (bit b k \<noteq> (2 ^ k \<le> take_bit k a + take_bit k b + c)))"
proof -
  define d where "d = (take_bit k a + take_bit k b + c) div 2 ^ k"
  have lt: "take_bit k a < 2 ^ k" "take_bit k b < 2 ^ k"
    by simp_all
  have ge: "0 \<le> take_bit k a" "0 \<le> take_bit k b"
    by simp_all
  have d: "d = (if 2 ^ k \<le> take_bit k a + take_bit k b + c then 1 else 0)"
    unfolding d_def using lt ge assms by (intro int_div_once) linarith+
  have "a + b + c = 2 ^ k * (a div 2 ^ k + b div 2 ^ k)
      + (take_bit k a + take_bit k b + c)"
    by (simp add: take_bit_eq_mod algebra_simps mult_div_mod_eq
        flip: minus_mod_eq_mult_div)
  then have "(a + b + c) div 2 ^ k = a div 2 ^ k + b div 2 ^ k + d"
    unfolding d_def by (metis add.commute div_mult_self2 zero_neq_numeral power_not_zero)
  then have "bit (a + b + c) k = odd (a div 2 ^ k + b div 2 ^ k + d)"
    by (simp only: bit_iff_odd)
  also have "\<dots> = (odd (a div 2 ^ k) \<noteq> (odd (b div 2 ^ k) \<noteq> odd d))"
    by (auto simp only: even_add)
  also have "odd d = (2 ^ k \<le> take_bit k a + take_bit k b + c)"
    by (simp only: d split: if_split) simp
  finally show ?thesis
    by (simp only: bit_iff_odd)
qed

lemma uint_of_bool_word [simp]: "uint (of_bool c :: 'a::len word) = of_bool c"
  by (cases c) simp_all

lemma of_bool_int_bounds: "(0 :: int) \<le> of_bool c" "(of_bool c :: int) \<le> 1"
  by simp_all

lemma bit_uint: "m < LENGTH('a) \<Longrightarrow> bit (uint (x :: 'a::len word)) m = bit x m"
  by (simp add: bit_uint_iff)

lemma uint_take_bit_word: "uint (take_bit n (x :: 'a::len word)) = take_bit n (uint x)"
  by (simp add: unsigned_take_bit_eq)

lemma take_bit_uint_add3:
  fixes x y z :: "'a::len word"
  assumes "n \<le> LENGTH('a)"
  shows "take_bit n (uint (x + y + z)) = take_bit n (uint x + uint y + uint z)"
proof -
  have "uint (x + y + z) = take_bit LENGTH('a) (uint x + uint y + uint z)"
    by (metis of_int_add uint_word_of_int_eq word_of_int_uint)
  then show ?thesis
    using assms by (simp add: min_def)
qed

lemma word_add_carry_bit:
  fixes x y :: "'a::len word"
  assumes "k < LENGTH('a)"
  shows "bit (x + y + of_bool c) k \<longleftrightarrow>
    (bit x k \<noteq> (bit y k \<noteq> (2 ^ k \<le> take_bit k (uint x) + take_bit k (uint y) + of_bool c)))"
proof -
  have "bit (x + y + of_bool c) k = bit (take_bit (Suc k) (uint (x + y + of_bool c))) k"
    using assms by (simp add: bit_uint_iff bit_take_bit_iff)
  also have "\<dots> = bit (take_bit (Suc k) (uint x + uint y + of_bool c)) k"
    using assms by (subst take_bit_uint_add3) simp_all
  also have "\<dots> = bit (uint x + uint y + of_bool c) k"
    by (simp add: bit_take_bit_iff)
  finally show ?thesis
    using assms int_add_carry_bit [of "of_bool c" "uint x" "uint y" k]
    by (simp add: bit_uint_iff)
qed

lemma uint_take_bit_add:
  fixes x y :: "'a::len word"
  assumes "n \<le> LENGTH('a)"
  shows "take_bit n (uint (x + y + of_bool c)) =
    (let s = take_bit n (uint x) + take_bit n (uint y) + of_bool c
     in if 2 ^ n \<le> s then s - 2 ^ n else s)"
proof -
  let ?a = "take_bit n (uint x)" and ?b = "take_bit n (uint y)"
  have lt: "?a < 2 ^ n" "?b < 2 ^ n" and ge: "0 \<le> ?a" "0 \<le> ?b"
    by simp_all
  have "take_bit n (uint (x + y + of_bool c)) = take_bit n (uint x + uint y + of_bool c)"
    using assms by (subst take_bit_uint_add3) simp_all
  also have "\<dots> = (?a + ?b + of_bool c) mod 2 ^ n"
    unfolding take_bit_eq_mod by (metis mod_add_eq mod_add_left_eq)
  also have "\<dots> = (if 2 ^ n \<le> ?a + ?b + of_bool c then ?a + ?b + of_bool c - 2 ^ n
      else ?a + ?b + of_bool c)"
    using lt ge of_bool_int_bounds [of c] by (intro int_mod_once) linarith+
  finally show ?thesis by (simp add: Let_def)
qed

text \<open>The two's complement reading of the low \<open>Suc m\<close> bits.\<close>

lemma signed_take_bit_split:
  "signed_take_bit m (k :: int) = take_bit m k - 2 ^ m * of_bool (bit k m)"
  by (simp add: signed_take_bit_eq_take_bit_minus take_bit_Suc_from_most algebra_simps)

text \<open>
  An addition overflows as a signed operation iff the operands agree in sign and the result
  does not.
\<close>

lemma signed_add_arith:
  fixes tx ty M :: int
  assumes "tx < M" "ty < M" "0 \<le> tx" "0 \<le> ty"
  shows "(bx = b2 \<and> (bx \<noteq> (b2 \<noteq> (M \<le> tx + ty + of_bool c))) \<noteq> bx) \<longleftrightarrow>
    \<not> (- M \<le> (tx - M * of_bool bx) + (ty - M * of_bool b2) + of_bool c \<and>
       (tx - M * of_bool bx) + (ty - M * of_bool b2) + of_bool c < M)"
  using assms by (cases bx; cases b2; cases c) auto

lemma signed_sub_arith:
  fixes tr ty M :: int
  assumes "tr < M" "ty < M" "0 \<le> tr" "0 \<le> ty"
    and "s = tr + ty + of_bool c" "bx = (br \<noteq> (b2 \<noteq> (M \<le> s)))"
    and "tx = (if M \<le> s then s - M else s)"
  shows "(bx \<noteq> b2 \<and> br \<noteq> bx) \<longleftrightarrow>
    \<not> (- M \<le> (tx - M * of_bool bx) - (ty - M * of_bool b2) - of_bool c \<and>
       (tx - M * of_bool bx) - (ty - M * of_bool b2) - of_bool c < M)"
  using assms by (cases br; cases b2; cases c; cases "M \<le> s") auto

lemma signed_add_overflow:
  fixes x y :: "'a::len word"
  assumes "m < LENGTH('a)"
  shows "(bit x m = bit y m \<and> bit (x + y + of_bool c) m \<noteq> bit x m) \<longleftrightarrow>
    \<not> (- (2 ^ m) \<le> signed_take_bit m (uint x) + signed_take_bit m (uint y) + of_bool c \<and>
       signed_take_bit m (uint x) + signed_take_bit m (uint y) + of_bool c < 2 ^ m)"
  unfolding word_add_carry_bit [OF assms, of x y c] signed_take_bit_split bit_uint [OF assms]
  by (rule signed_add_arith; simp)

text \<open>The same for a subtraction, with \<open>x\<close> given as difference plus subtrahend plus borrow.\<close>

lemma signed_sub_overflow:
  fixes r y :: "'a::len word"
  assumes m: "m < LENGTH('a)" and x: "x = r + y + of_bool c"
  shows "(bit x m \<noteq> bit y m \<and> bit r m \<noteq> bit x m) \<longleftrightarrow>
    \<not> (- (2 ^ m) \<le> signed_take_bit m (uint x) - signed_take_bit m (uint y) - of_bool c \<and>
       signed_take_bit m (uint x) - signed_take_bit m (uint y) - of_bool c < 2 ^ m)"
proof -
  let ?s = "take_bit m (uint r) + take_bit m (uint y) + of_bool c"
  have tx: "take_bit m (uint x) = (if 2 ^ m \<le> ?s then ?s - 2 ^ m else ?s)"
    using uint_take_bit_add [of m r y c] m by (simp add: x Let_def)
  have bx: "bit x m = (bit r m \<noteq> (bit y m \<noteq> (2 ^ m \<le> ?s)))"
    unfolding x by (rule word_add_carry_bit [OF m])
  show ?thesis
    unfolding signed_take_bit_split bit_uint [OF m]
    by (rule signed_sub_arith [OF _ _ _ _ refl bx tx]; simp)
qed

subsection \<open>Page addresses\<close>

lemma neg_page: "(- 4096 :: 'a::len word) = NOT (mask 12)"
  by (simp add: mask_eq_exp_minus_1 not_eq_complement)

lemma bit_page_mask [vx_bits]: "bit (- 4096 :: 'a::len word) n \<longleftrightarrow> 12 \<le> n \<and> n < LENGTH('a)"
  unfolding neg_page by (auto simp: bit_not_iff bit_mask_iff not_less)

lemma drop_page_mask: "drop_bit 12 ((a :: 'a::len word) AND - 4096) = drop_bit 12 a"
  by (rule bit_word_eqI)
    (simp only: bit_drop_bit_eq comp_apply bit_and_iff bit_page_mask, auto dest: bit_imp_le_length)

lemma page_aligned_iff: "(v :: 'a::len word) AND 0xFFF = 0 \<longleftrightarrow> (\<forall>n < 12. \<not> bit v n)"
proof -
  have m: "(0xFFF :: 'a word) = mask 12" by (simp add: mask_eq_exp_minus_1)
  show ?thesis unfolding m by (auto simp: bit_eq_iff bit_and_iff bit_mask_iff dest: bit_imp_le_length)
qed

lemma page_mask_idem: "(a AND - 4096) AND - 4096 = (a AND - 4096 :: 'a::len word)"
  by (simp add: and.assoc)

end
