(* ===== verification/HostUtils.thy ===== *)
theory HostUtils
  imports VxPrelude
begin

text \<open>
  \<open>vx64/qemu/util/host-utils.c\<close>: the portable 64 by 64 bit multiplications. The union
  \<open>LL\<close> of the source (a 64-bit value seen as two 32-bit halves) is the pair of functions
  \<open>l_low\<close>, \<open>l_high\<close> and the constructor \<open>make_ll\<close>.
\<close>

definition l_low :: "u64 \<Rightarrow> u32" where
  "l_low x = ucast x"

definition l_high :: "u64 \<Rightarrow> u32" where
  "l_high x = ucast (drop_bit 32 x)"

definition make_ll :: "u32 \<Rightarrow> u32 \<Rightarrow> u64" where
  "make_ll low high = ucast low OR push_bit 32 (ucast high)"

definition mul64 :: "u64 \<Rightarrow> u64 \<Rightarrow> u64 \<times> u64" where
  "mul64 a b =
    (let rl = ucast (l_low a) * ucast (l_low b);
         rm = ucast (l_low a) * ucast (l_high b);
         rn = ucast (l_high a) * ucast (l_low b);
         rh = ucast (l_high a) * ucast (l_high b);
         c = ucast (l_high rl) + ucast (l_low rm) + ucast (l_low rn) :: u64;
         rl' = make_ll (l_low rl) (ucast c);
         c = drop_bit 32 c;
         c = c + ucast (l_high rm) + ucast (l_high rn) + ucast (l_low rh);
         rh' = make_ll (ucast c) (l_high rh + ucast (drop_bit 32 c))
     in (rl', rh'))"

definition mulu64 :: "u64 \<Rightarrow> u64 \<Rightarrow> u64 \<times> u64" where
  "mulu64 a b = mul64 a b"

definition muls64 :: "u64 \<Rightarrow> u64 \<Rightarrow> u64 \<times> u64" where
  "muls64 a b =
    (let (low, rh) = mul64 a b;
         rh = (if b <s 0 then rh - a else rh);
         rh = (if a <s 0 then rh - b else rh)
     in (low, rh))"

subsection \<open>Halves of a word\<close>

lemma uint_l_low: "uint (l_low x) = uint x mod 2 ^ 32"
  by (simp add: l_low_def uint_up_ucast unsigned_ucast_eq take_bit_eq_mod)

lemma u32_bounds: "0 \<le> uint (x :: u32)" "uint x < 4294967296"
  using uint_lt2p [of x] by simp_all

lemma u64_bounds: "0 \<le> uint (x :: u64)" "uint x < 18446744073709551616"
  using uint_lt2p [of x] by simp_all

lemma uint_ucast_u32 [simp]: "uint (ucast (x :: u32) :: u64) = uint x"
  using u32_bounds [of x] by (simp add: unsigned_ucast_eq take_bit_int_eq_self_iff)

lemma uint_drop_bit_word: "uint (drop_bit n (x :: 'a::len word)) = uint x div 2 ^ n"
proof -
  have "uint (drop_bit n x) = drop_bit n (uint x)"
    by (simp add: unsigned_drop_bit_eq bintr_uint)
  then show ?thesis by (simp only: drop_bit_eq_div)
qed

lemma uint_l_high: "uint (l_high x) = uint x div 2 ^ 32"
proof -
  have "uint (l_high x) = take_bit 32 (uint (drop_bit 32 x))"
    by (simp only: l_high_def unsigned_ucast_eq) simp
  also have "\<dots> = take_bit 32 (uint x div 2 ^ 32)"
    by (simp only: uint_drop_bit_word)
  also have "\<dots> = uint x div 2 ^ 32"
    using u64_bounds [of x] by (intro take_bit_int_eq_self) (auto simp: pos_imp_zdiv_nonneg_iff)
  finally show ?thesis .
qed

lemma uint_make_ll: "uint (make_ll l h) = uint l + 2 ^ 32 * uint h"
proof -
  have "make_ll l h = ucast l + push_bit 32 (ucast h)"
    unfolding make_ll_def
    by (subst disjunctive_add) (auto simp: vx_bits dest: bit_imp_le_length)
  moreover have "uint (push_bit 32 (ucast h :: u64)) = 2 ^ 32 * uint h"
    using u32_bounds [of h]
    by (simp add: push_bit_eq_mult uint_word_ariths mod_pos_pos_trivial)
  ultimately show ?thesis
    using u32_bounds [of h] u32_bounds [of l]
    by (simp add: uint_word_ariths mod_pos_pos_trivial)
qed

lemma halves: "uint x = uint (l_low x) + 2 ^ 32 * uint (l_high x)"
  by (simp add: uint_l_low uint_l_high)

lemma uint_mult_u32: "uint (ucast (p :: u32) * ucast (q :: u32) :: u64) = uint p * uint q"
proof -
  have "uint p * uint q \<le> 4294967295 * 4294967295"
    using u32_bounds [of p] u32_bounds [of q] by (intro mult_mono) auto
  then show ?thesis
    using u32_bounds [of p] u32_bounds [of q]
    by (simp add: uint_word_ariths mod_pos_pos_trivial)
qed

subsection \<open>The product is exact\<close>

lemma limbs_recombine:
  fixes B :: int
  assumes "rl = rl0 + B * rl1" "rm = rm0 + B * rm1" "rn = rn0 + B * rn1" "rh = rh0 + B * rh1"
    and "c = rl1 + rm0 + rn0" "d = cq + rm1 + rn1 + rh0"
    and "B * cq + cm = c" "B * dq + dm = d" "BB = B * B"
  shows "rl0 + B * cm + BB * (dm + B * (rh1 + dq)) = rl + B * (rm + rn) + BB * rh"
proof -
  have cm: "cm = c - B * cq" and dm: "dm = d - B * dq"
    using assms by simp_all
  show ?thesis
    unfolding cm dm using assms(1-6,9) by (simp add: algebra_simps)
qed

lemma top_limb_small:
  fixes x0 cm dm t :: int
  assumes "x0 + 2 ^ 32 * cm + 2 ^ 64 * (dm + 2 ^ 32 * t)
      \<le> 18446744073709551615 * 18446744073709551615"
    and "0 \<le> x0" "0 \<le> cm" "0 \<le> dm"
  shows "t < 2 ^ 32"
  using assms by simp

lemma mul64_exact:
  assumes "mul64 a b = (lo, hi)"
  shows "uint lo + 2 ^ 64 * uint hi = uint a * uint b"
proof -
  define al ah bl bh where "al = uint (l_low a)" and "ah = uint (l_high a)"
    and "bl = uint (l_low b)" and "bh = uint (l_high b)"
  define rl rm rn rh where
    "rl = (ucast (l_low a) * ucast (l_low b) :: u64)"
    and "rm = (ucast (l_low a) * ucast (l_high b) :: u64)"
    and "rn = (ucast (l_high a) * ucast (l_low b) :: u64)"
    and "rh = (ucast (l_high a) * ucast (l_high b) :: u64)"
  have r: "uint rl = al * bl" "uint rm = al * bh" "uint rn = ah * bl" "uint rh = ah * bh"
    by (simp_all add: rl_def rm_def rn_def rh_def uint_mult_u32 al_def ah_def bl_def bh_def)
  define c where "c = (ucast (l_high rl) + ucast (l_low rm) + ucast (l_low rn) :: u64)"
  define d where "d = drop_bit 32 c + ucast (l_high rm) + ucast (l_high rn) + ucast (l_low rh)"
  have lo: "lo = make_ll (l_low rl) (ucast c)"
    and hi: "hi = make_ll (ucast d) (l_high rh + ucast (drop_bit 32 d))"
    using assms
    by (simp_all add: mul64_def Let_def c_def d_def rl_def rm_def rn_def rh_def)
  have uc: "uint c = uint (l_high rl) + uint (l_low rm) + uint (l_low rn)"
    using u32_bounds [of "l_high rl"] u32_bounds [of "l_low rm"] u32_bounds [of "l_low rn"]
    by (simp add: c_def uint_word_ariths mod_pos_pos_trivial)
  have cdiv: "uint (drop_bit 32 c) = uint c div 2 ^ 32"
    by (rule uint_drop_bit_word)
  have cd0: "0 \<le> uint c div 2 ^ 32"
    using u64_bounds [of c] by (simp add: pos_imp_zdiv_nonneg_iff)
  have cd3: "uint c div 2 ^ 32 \<le> 2"
    using uc u32_bounds [of "l_high rl"] u32_bounds [of "l_low rm"] u32_bounds [of "l_low rn"]
    by simp
  have ud: "uint d = uint c div 2 ^ 32 + uint (l_high rm) + uint (l_high rn) + uint (l_low rh)"
    using u32_bounds [of "l_high rm"] u32_bounds [of "l_high rn"] u32_bounds [of "l_low rh"]
      cd0 cd3 cdiv
    by (simp add: d_def uint_word_ariths mod_pos_pos_trivial)
  have l32: "uint (ucast w :: u32) = uint w mod 2 ^ 32" for w :: u64
    using uint_l_low [of w] by (simp add: l_low_def)
  have h32: "uint (ucast (drop_bit 32 w) :: u32) = uint w div 2 ^ 32" for w :: u64
    using uint_l_high [of w] by (simp add: l_high_def)
  have sum: "uint rl + 2 ^ 32 * (uint rm + uint rn) + 2 ^ 64 * uint rh = uint a * uint b"
    unfolding r using halves [of a] halves [of b]
    by (simp add: al_def ah_def bl_def bh_def algebra_simps)
  have total: "uint (l_low rl) + 2 ^ 32 * (uint c mod 2 ^ 32)
      + 2 ^ 64 * (uint d mod 2 ^ 32 + 2 ^ 32 * (uint (l_high rh) + uint d div 2 ^ 32))
      = uint a * uint b"
    unfolding sum [symmetric]
    using halves [of rl] halves [of rm] halves [of rn] halves [of rh] uc ud
      mult_div_mod_eq [of "2 ^ 32" "uint c"] mult_div_mod_eq [of "2 ^ 32" "uint d"]
    by (rule limbs_recombine) simp
  have "uint a * uint b \<le> 18446744073709551615 * 18446744073709551615"
    using u64_bounds [of a] u64_bounds [of b] by (intro mult_mono) auto
  with total have "uint (l_low rl) + 2 ^ 32 * (uint c mod 2 ^ 32)
      + 2 ^ 64 * (uint d mod 2 ^ 32 + 2 ^ 32 * (uint (l_high rh) + uint d div 2 ^ 32))
      \<le> 18446744073709551615 * 18446744073709551615"
    by (simp only:)
  then have top: "uint (l_high rh) + uint d div 2 ^ 32 < 2 ^ 32"
    by (rule top_limb_small) (simp_all add: u32_bounds)
  have "uint (l_high rh + ucast (drop_bit 32 d)) = uint (l_high rh) + uint d div 2 ^ 32"
    using top h32 [of d] u32_bounds(1) [of "l_high rh"] u64_bounds(1) [of d]
    by (simp add: uint_word_ariths mod_pos_pos_trivial pos_imp_zdiv_nonneg_iff)
  then show ?thesis
    using total by (simp add: lo hi uint_make_ll l32)
qed

lemma sint_uint_u64: "sint (a :: u64) = uint a - (if a <s 0 then 2 ^ 64 else 0)"
proof -
  have s: "sint a = signed_take_bit 63 (uint a)"
    by (simp add: sint_uint)
  have b: "bit (uint a) 63 \<longleftrightarrow> 2 ^ 63 \<le> uint a"
    using u64_bounds [of a] int_div_once [of "uint a" "2 ^ 63"] by (simp add: bit_iff_odd)
  have "sint a = (if bit (uint a) 63 then uint a - 2 ^ 64 else uint a)"
    unfolding s using b u64_bounds [of a]
    by (simp add: signed_take_bit_eq_if_positive signed_take_bit_eq_if_negative
        take_bit_int_eq_self take_bit_eq_mod minus_mod_int_eq
        signed_take_bit_eq_take_bit_minus)
  then show ?thesis
    using b u64_bounds [of a] by (auto simp: word_sless_alt)
qed

lemma sint_bounds_u64: "- (2 ^ 63) \<le> sint (a :: u64)" "sint a < 2 ^ 63"
  using sint_range_size [of a] by (simp_all add: word_size)

lemma high_limb_range:
  fixes l H P :: int
  assumes "l + 2 ^ 64 * H = P" "\<bar>P\<bar> \<le> 2 ^ 63 * 2 ^ 63" "0 \<le> l" "l < 2 ^ 64"
  shows "- (2 ^ 63) \<le> H" "H < 2 ^ 63"
  using assms by simp_all

lemma muls64_exact:
  assumes "muls64 a b = (lo, hi)"
  shows "uint lo + 2 ^ 64 * sint hi = sint a * sint b"
proof -
  obtain rh where m: "mul64 a b = (lo, rh)"
    using assms by (auto simp: muls64_def Let_def split: prod.splits)
  define H where "H = uint rh - (if b <s 0 then uint a else 0) - (if a <s 0 then uint b else 0)
      + (if a <s 0 \<and> b <s 0 then 2 ^ 64 else 0)"
  have hi: "hi = word_of_int H"
    using assms m by (auto simp: muls64_def H_def)
  have prod: "uint lo + 2 ^ 64 * H = sint a * sint b"
    using mul64_exact [OF m] by (auto simp: H_def sint_uint_u64 algebra_simps)
  have bound: "\<bar>sint a * sint b\<bar> \<le> 2 ^ 63 * 2 ^ 63"
    unfolding abs_mult using sint_bounds_u64 [of a] sint_bounds_u64 [of b]
    by (intro mult_mono) auto
  have "- (2 ^ 63) \<le> H" "H < 2 ^ 63"
    using high_limb_range [OF prod bound] u64_bounds [of lo] by simp_all
  then have "signed_take_bit 63 H = H"
    by (intro signed_take_bit_int_eq_self)
  then show ?thesis
    using prod by (simp add: hi signed_of_int)
qed

end
