(* ===== verification/Int128.thy ===== *)
theory Int128
  imports VxPrelude
begin

text \<open>
  The 128-bit integers of \<open>include/qemu/int128.h\<close>, two words each, that \<open>memory.c\<close> computes with. They are the
  integers modulo 2 ^ 128 (\<open>i128_word\<close>), so that the comparisons and the sums are those of integers as long
  as nothing leaves the range of 127 bits (\<open>i128_val\<close>). The model of \<open>memory.c\<close> therefore uses integers.
\<close>

record int128 =
  i128_lo :: u64
  i128_hi :: u64

definition int128_make64 :: "u64 \<Rightarrow> int128" where
  "int128_make64 a = \<lparr>i128_lo = a, i128_hi = 0\<rparr>"

text \<open>It asserts that the high word is zero.\<close>

definition int128_get64 :: "int128 \<Rightarrow> u64 option" where
  "int128_get64 a = (if i128_hi a \<noteq> 0 then None else Some (i128_lo a))"

definition int128_2_64 :: int128 where
  "int128_2_64 = \<lparr>i128_lo = 0, i128_hi = 1\<rparr>"

definition int128_add :: "int128 \<Rightarrow> int128 \<Rightarrow> int128" where
  "int128_add a b =
    (let lo = i128_lo a + i128_lo b; hi = i128_hi a + i128_hi b
     in \<lparr>i128_lo = lo, i128_hi = hi + of_bool (lo < i128_lo a \<or> lo < i128_lo b)\<rparr>)"

definition int128_neg :: "int128 \<Rightarrow> int128" where
  "int128_neg a = int128_add \<lparr>i128_lo = NOT (i128_lo a), i128_hi = NOT (i128_hi a)\<rparr> (int128_make64 1)"

definition int128_sub :: "int128 \<Rightarrow> int128 \<Rightarrow> int128" where
  "int128_sub a b = int128_add a (int128_neg b)"

definition int128_nonneg :: "int128 \<Rightarrow> bool" where
  "int128_nonneg a \<longleftrightarrow> 0 \<le> sint (i128_hi a)"

definition int128_eq :: "int128 \<Rightarrow> int128 \<Rightarrow> bool" where
  "int128_eq a b \<longleftrightarrow> i128_lo a = i128_lo b \<and> i128_hi a = i128_hi b"

definition int128_ge :: "int128 \<Rightarrow> int128 \<Rightarrow> bool" where "int128_ge a b = int128_nonneg (int128_sub a b)"
definition int128_lt :: "int128 \<Rightarrow> int128 \<Rightarrow> bool" where "int128_lt a b = (\<not> int128_ge a b)"
definition int128_le :: "int128 \<Rightarrow> int128 \<Rightarrow> bool" where "int128_le a b = int128_ge b a"
definition int128_gt :: "int128 \<Rightarrow> int128 \<Rightarrow> bool" where "int128_gt a b = (\<not> int128_le a b)"
definition int128_nz :: "int128 \<Rightarrow> bool" where "int128_nz a \<longleftrightarrow> i128_lo a \<noteq> 0 \<or> i128_hi a \<noteq> 0"
definition int128_min :: "int128 \<Rightarrow> int128 \<Rightarrow> int128" where "int128_min a b = (if int128_le a b then a else b)"
definition int128_max :: "int128 \<Rightarrow> int128 \<Rightarrow> int128" where "int128_max a b = (if int128_ge a b then a else b)"

subsection \<open>Meaning\<close>

definition i128_val :: "int128 \<Rightarrow> int" where
  "i128_val a = sint (i128_hi a) * 2 ^ 64 + uint (i128_lo a)"

abbreviation (input) in_range :: "int \<Rightarrow> bool" where
  "in_range v \<equiv> - (2 ^ 127) \<le> v \<and> v < 2 ^ 127"

lemma uint_64: "0 \<le> uint (x :: u64)" "uint (x :: u64) < 2 ^ 64"
  using uint_bounded [of x] by simp_all

lemma val_range: "in_range (i128_val a)"
proof -
  define h l where "h = sint (i128_hi a)" and "l = uint (i128_lo a)"
  have h: "- 9223372036854775808 \<le> h" "h \<le> 9223372036854775807"
    using sint_greater_eq [of "i128_hi a"] sint_less [of "i128_hi a"] by (simp_all add: h_def)
  have l: "0 \<le> l" "l < 18446744073709551616" using uint_64 [of "i128_lo a"] by (simp_all add: l_def)
  have v: "i128_val a = h * 18446744073709551616 + l" by (simp add: i128_val_def h_def l_def)
  show ?thesis using h l unfolding v by simp
qed

text \<open>Two integers of the range that differ by a multiple of 2 ^ 128 are equal.\<close>

lemma range_unique: "in_range x \<Longrightarrow> in_range y \<Longrightarrow> x = y + k * 2 ^ 128 \<Longrightarrow> x = y"
proof -
  assume "in_range x" "in_range y" and e: "x = y + k * 2 ^ 128"
  then have "- (2 ^ 128) < k * 2 ^ 128" "k * 2 ^ 128 < (2 ^ 128 :: int)" by simp_all
  then have "- 1 < k" "k < 1" by simp_all
  with e show ?thesis by simp
qed

lemma sint_mod: "\<exists>k. sint (x :: u64) = uint x + k * 2 ^ 64"
proof -
  have "uint x = sint x mod 2 ^ 64" by (simp add: uint_sint take_bit_eq_mod)
  then show ?thesis using div_mult_mod_eq [of "sint x" "2 ^ 64"] by (intro exI [of _ "sint x div 2 ^ 64"]) simp
qed

lemma val_mod: "\<exists>k. i128_val a = uint (i128_hi a) * 2 ^ 64 + uint (i128_lo a) + k * 2 ^ 128"
proof -
  obtain k where "sint (i128_hi a) = uint (i128_hi a) + k * 2 ^ 64" using sint_mod by blast
  then show ?thesis by (intro exI [of _ k]) (simp add: i128_val_def algebra_simps)
qed

lemma carry_64: "uint (a + b :: u64) = uint a + uint b - 2 ^ 64 * of_bool (a + b < a \<or> a + b < b)"
proof -
  have s: "uint (a + b) = (if 2 ^ 64 \<le> uint a + uint b then uint a + uint b - 2 ^ 64 else uint a + uint b)"
    using int_mod_once [of "uint a + uint b" "2 ^ 64"] uint_64 [of a] uint_64 [of b] by (simp add: uint_word_ariths)
  show ?thesis
  proof (cases "2 ^ 64 \<le> uint a + uint b")
    case True
    then have "a + b < a" using s uint_64 [of b] by (simp add: word_less_def)
    with True s show ?thesis by simp
  next
    case False
    then have "\<not> a + b < a" "\<not> a + b < b" using s uint_ge_0 [of a] uint_ge_0 [of b] by (simp_all add: word_less_def)
    with False s show ?thesis by simp
  qed
qed

text \<open>Every operation is right modulo 2 ^ 128, and right where the result is in range.\<close>

lemma int128_add_mod: "\<exists>k. i128_val (int128_add a b) = i128_val a + i128_val b + k * 2 ^ 128"
proof -
  define c :: int where "c = of_bool (i128_lo a + i128_lo b < i128_lo a \<or> i128_lo a + i128_lo b < i128_lo b)"
  define h where "h = i128_hi a + i128_hi b + of_bool (i128_lo a + i128_lo b < i128_lo a \<or> i128_lo a + i128_lo b < i128_lo b)"
  obtain ka where ka: "i128_val a = uint (i128_hi a) * 2 ^ 64 + uint (i128_lo a) + ka * 2 ^ 128" using val_mod by blast
  obtain kb where kb: "i128_val b = uint (i128_hi b) * 2 ^ 64 + uint (i128_lo b) + kb * 2 ^ 128" using val_mod by blast
  obtain kr where kr: "i128_val (int128_add a b) = uint h * 2 ^ 64 + uint (i128_lo a + i128_lo b) + kr * 2 ^ 128"
    using val_mod [of "int128_add a b"] by (auto simp: int128_add_def Let_def h_def)
  have "uint h = (uint (i128_hi a) + uint (i128_hi b) + c) mod 2 ^ 64"
    by (simp add: h_def c_def uint_word_ariths mod_simps)
  then obtain kh where kh: "uint h = uint (i128_hi a) + uint (i128_hi b) + c - kh * 2 ^ 64"
    by (metis minus_div_mult_eq_mod)
  have lo: "uint (i128_lo a + i128_lo b) = uint (i128_lo a) + uint (i128_lo b) - 2 ^ 64 * c"
    unfolding c_def by (rule carry_64)
  show ?thesis
    by (rule exI [of _ "kr - kh - ka - kb"]) (simp add: kr ka kb kh lo algebra_simps)
qed

lemma int128_add_val: "in_range (i128_val a + i128_val b) \<Longrightarrow> i128_val (int128_add a b) = i128_val a + i128_val b"
  using int128_add_mod [of a b] val_range [of "int128_add a b"] range_unique by blast

lemma uint_not_64: "uint (NOT l :: u64) = 2 ^ 64 - 1 - uint l"
proof -
  have "uint (NOT l) = (NOT (uint l)) mod 2 ^ 64" by (simp add: unsigned_not_eq take_bit_eq_mod)
  also have "NOT (uint l) = 2 ^ 64 - 1 - uint l + (- 1) * 2 ^ 64" by (simp add: not_int_def)
  also have "\<dots> mod 2 ^ 64 = (2 ^ 64 - 1 - uint l) mod 2 ^ 64" by (simp only: mod_mult_self1)
  also have "\<dots> = 2 ^ 64 - 1 - uint l" using uint_64 [of l] by (intro mod_pos_pos_trivial) linarith+
  finally show ?thesis .
qed

lemma val_not: "i128_val \<lparr>i128_lo = NOT l, i128_hi = NOT h\<rparr> = - i128_val \<lparr>i128_lo = l, i128_hi = h\<rparr> - 1"
proof -
  have "sint (NOT h) = NOT (sint h)"
    by (rule bit_eqI) (auto simp: bit_simps min_def)
  then have "sint (NOT h) = - sint h - 1" by (simp add: not_int_def)
  then show ?thesis by (simp add: i128_val_def uint_not_64 algebra_simps)
qed

lemma val_make64: "i128_val (int128_make64 a) = uint a"
  by (simp add: i128_val_def int128_make64_def)

lemma int128_neg_mod: "\<exists>k. i128_val (int128_neg a) = - i128_val a + k * 2 ^ 128"
proof -
  obtain k where "i128_val (int128_neg a) = (- i128_val a - 1) + i128_val (int128_make64 1) + k * 2 ^ 128"
    using int128_add_mod [of "\<lparr>i128_lo = NOT (i128_lo a), i128_hi = NOT (i128_hi a)\<rparr>" "int128_make64 1"]
    by (cases a) (auto simp: int128_neg_def val_not)
  then show ?thesis by (intro exI [of _ k]) (simp add: val_make64)
qed

lemma int128_sub_val: "in_range (i128_val a - i128_val b) \<Longrightarrow> i128_val (int128_sub a b) = i128_val a - i128_val b"
proof -
  assume r: "in_range (i128_val a - i128_val b)"
  obtain k where k: "i128_val (int128_neg b) = - i128_val b + k * 2 ^ 128" using int128_neg_mod by blast
  obtain j where "i128_val (int128_sub a b) = i128_val a + i128_val (int128_neg b) + j * 2 ^ 128"
    using int128_add_mod [of a "int128_neg b"] by (auto simp: int128_sub_def)
  with k have "i128_val (int128_sub a b) = i128_val a - i128_val b + (k + j) * 2 ^ 128" by (simp add: algebra_simps)
  then show ?thesis by (rule range_unique [OF val_range r])
qed

lemma nonneg_val: "int128_nonneg a \<longleftrightarrow> 0 \<le> i128_val a"
proof -
  have "sint (i128_hi a) * 2 ^ 64 + uint (i128_lo a) \<ge> 0" if "0 \<le> sint (i128_hi a)" using that by simp
  moreover have "sint (i128_hi a) * 2 ^ 64 + uint (i128_lo a) < 0" if "sint (i128_hi a) < 0"
    using that uint_64 [of "i128_lo a"] by simp
  ultimately show ?thesis by (auto simp: int128_nonneg_def i128_val_def not_le [symmetric])
qed

lemma int128_ge_val: "in_range (i128_val a - i128_val b) \<Longrightarrow> int128_ge a b \<longleftrightarrow> i128_val a \<ge> i128_val b"
  by (simp add: int128_ge_def nonneg_val int128_sub_val)

lemma val_parts: "uint (i128_lo a) = i128_val a mod 2 ^ 64" "sint (i128_hi a) = i128_val a div 2 ^ 64"
  using uint_64 [of "i128_lo a"] by (simp_all add: i128_val_def)

lemma int128_eq_val: "int128_eq a b \<longleftrightarrow> i128_val a = i128_val b"
proof
  assume "i128_val a = i128_val b"
  then have l: "uint (i128_lo a) = uint (i128_lo b)" and h: "sint (i128_hi a) = sint (i128_hi b)"
    by (simp_all only: val_parts)
  show "int128_eq a b"
    unfolding int128_eq_def using unsigned_word_eqI [OF l] signed_word_eqI [OF h] by (rule conjI)
qed (simp add: int128_eq_def i128_val_def)

lemma int128_get64_val: "int128_get64 a = (if 0 \<le> i128_val a \<and> i128_val a < 2 ^ 64 then Some (word_of_int (i128_val a)) else None)"
proof (cases "i128_hi a = 0")
  case True
  then have v: "i128_val a = uint (i128_lo a)" by (simp add: i128_val_def)
  show ?thesis using True uint_64 [of "i128_lo a"] by (simp only: int128_get64_def v word_of_int_uint simp_thms if_True if_False)
next
  case False
  then have "sint (i128_hi a) \<noteq> 0" by (metis signed_0 signed_word_eqI)
  then have "i128_val a div 2 ^ 64 \<noteq> 0" unfolding val_parts .
  then have "\<not> (0 \<le> i128_val a \<and> i128_val a < 2 ^ 64)" by (auto simp: zdiv_eq_0_iff)
  then show ?thesis using False by (simp only: int128_get64_def simp_thms if_True if_False not_False_eq_True)
qed

end
