(* ===== verification/CpuState.thy ===== *)
theory CpuState
  imports VxPrelude
begin

text \<open>
  The processor state shared by the x86 helpers: \<open>struct CPUX86State\<close> and its parts
  (\<open>target-i386/cpu.h\<close>, \<open>include/exec/cpu-defs.h\<close>) in the \<open>TARGET_X86_64\<close>
  configuration, the bit masks of \<open>cpu.h\<close>, and the inline operations of that header
  on the segment cache, the flags and EFER.

  Arrays of the structure are functions from the index; code that indexes them with a value
  it does not control checks the bound in the model. Pointers to break- and watchpoints are
  identifiers of list entries. Three fields have no counterpart in the structure:
  \<open>phys_mem\<close> is the guest-physical memory the \<open>ld*_phys\<close>/\<open>st*_phys\<close> functions
  read and write (RAM), and \<open>tb_log\<close> records, in order, the calls into the code
  translator (\<open>translate-all.c\<close>), which is not modelled; \<open>phys_dirty\<close> is the array \<open>ram_list.phys_dirty\<close> of \<open>exec.c\<close>, one byte of
  flags for each page of RAM.
\<close>

subsection \<open>Constants of cpu.h\<close>

abbreviation (input) R_EAX :: nat where "R_EAX \<equiv> 0"
abbreviation (input) R_ECX :: nat where "R_ECX \<equiv> 1"
abbreviation (input) R_EDX :: nat where "R_EDX \<equiv> 2"
abbreviation (input) R_EBX :: nat where "R_EBX \<equiv> 3"
abbreviation (input) R_ESP :: nat where "R_ESP \<equiv> 4"
abbreviation (input) R_EBP :: nat where "R_EBP \<equiv> 5"
abbreviation (input) R_ESI :: nat where "R_ESI \<equiv> 6"
abbreviation (input) R_EDI :: nat where "R_EDI \<equiv> 7"

abbreviation (input) R_ES :: nat where "R_ES \<equiv> 0"
abbreviation (input) R_CS :: nat where "R_CS \<equiv> 1"
abbreviation (input) R_SS :: nat where "R_SS \<equiv> 2"
abbreviation (input) R_DS :: nat where "R_DS \<equiv> 3"
abbreviation (input) R_FS :: nat where "R_FS \<equiv> 4"
abbreviation (input) R_GS :: nat where "R_GS \<equiv> 5"

abbreviation (input) DESC_G_MASK :: "'a::len word" where "DESC_G_MASK \<equiv> 0x800000"
abbreviation (input) DESC_B_MASK :: "'a::len word" where "DESC_B_MASK \<equiv> 0x400000"
abbreviation (input) DESC_L_MASK :: "'a::len word" where "DESC_L_MASK \<equiv> 0x200000"
abbreviation (input) DESC_P_MASK :: "'a::len word" where "DESC_P_MASK \<equiv> 0x8000"

abbreviation (input) CC_C :: "'a::len word" where "CC_C \<equiv> 0x0001"
abbreviation (input) CC_P :: "'a::len word" where "CC_P \<equiv> 0x0004"
abbreviation (input) CC_A :: "'a::len word" where "CC_A \<equiv> 0x0010"
abbreviation (input) CC_Z :: "'a::len word" where "CC_Z \<equiv> 0x0040"
abbreviation (input) CC_S :: "'a::len word" where "CC_S \<equiv> 0x0080"
abbreviation (input) CC_O :: "'a::len word" where "CC_O \<equiv> 0x0800"

text \<open>\<open>CC_O | CC_S | CC_Z | CC_A | CC_P | CC_C\<close>\<close>

abbreviation (input) CC_ALL :: "'a::len word" where "CC_ALL \<equiv> 0x08D5"

abbreviation (input) TF_MASK :: "'a::len word" where "TF_MASK \<equiv> 0x00000100"
abbreviation (input) IF_MASK :: "'a::len word" where "IF_MASK \<equiv> 0x00000200"
abbreviation (input) DF_MASK :: "'a::len word" where "DF_MASK \<equiv> 0x00000400"
abbreviation (input) RF_MASK :: "'a::len word" where "RF_MASK \<equiv> 0x00010000"
abbreviation (input) VM_MASK :: "'a::len word" where "VM_MASK \<equiv> 0x00020000"
abbreviation (input) AC_MASK :: "'a::len word" where "AC_MASK \<equiv> 0x00040000"

abbreviation (input) HF_CPL_MASK :: "'a::len word" where "HF_CPL_MASK \<equiv> 0x3"
abbreviation (input) HF_INHIBIT_IRQ_MASK :: "'a::len word" where "HF_INHIBIT_IRQ_MASK \<equiv> 0x8"
abbreviation (input) HF_CS32_MASK :: "'a::len word" where "HF_CS32_MASK \<equiv> 0x10"
abbreviation (input) HF_SS32_MASK :: "'a::len word" where "HF_SS32_MASK \<equiv> 0x20"
abbreviation (input) HF_ADDSEG_MASK :: "'a::len word" where "HF_ADDSEG_MASK \<equiv> 0x40"
abbreviation (input) HF_PE_MASK :: "'a::len word" where "HF_PE_MASK \<equiv> 0x80"
abbreviation (input) HF_MP_EM_TS_MASK :: "'a::len word" where "HF_MP_EM_TS_MASK \<equiv> 0xE00"
abbreviation (input) HF_TS_MASK :: "'a::len word" where "HF_TS_MASK \<equiv> 0x800"
abbreviation (input) HF_LMA_MASK :: "'a::len word" where "HF_LMA_MASK \<equiv> 0x4000"
abbreviation (input) HF_CS64_MASK :: "'a::len word" where "HF_CS64_MASK \<equiv> 0x8000"
abbreviation (input) HF_SVME_MASK :: "'a::len word" where "HF_SVME_MASK \<equiv> 0x100000"
abbreviation (input) HF_SVMI_MASK :: "'a::len word" where "HF_SVMI_MASK \<equiv> 0x200000"
abbreviation (input) HF_OSFXSR_MASK :: "'a::len word" where "HF_OSFXSR_MASK \<equiv> 0x400000"
abbreviation (input) HF_SMAP_MASK :: "'a::len word" where "HF_SMAP_MASK \<equiv> 0x800000"

abbreviation (input) CR0_PE_MASK :: "'a::len word" where "CR0_PE_MASK \<equiv> 0x1"
abbreviation (input) CR0_TS_MASK :: "'a::len word" where "CR0_TS_MASK \<equiv> 0x8"
abbreviation (input) CR0_ET_MASK :: "'a::len word" where "CR0_ET_MASK \<equiv> 0x10"
abbreviation (input) CR0_WP_MASK :: "'a::len word" where "CR0_WP_MASK \<equiv> 0x10000"
abbreviation (input) CR0_PG_MASK :: "'a::len word" where "CR0_PG_MASK \<equiv> 0x80000000"

abbreviation (input) CR4_TSD_MASK :: "'a::len word" where "CR4_TSD_MASK \<equiv> 0x4"
abbreviation (input) CR4_PSE_MASK :: "'a::len word" where "CR4_PSE_MASK \<equiv> 0x10"
abbreviation (input) CR4_PAE_MASK :: "'a::len word" where "CR4_PAE_MASK \<equiv> 0x20"
abbreviation (input) CR4_PGE_MASK :: "'a::len word" where "CR4_PGE_MASK \<equiv> 0x80"
abbreviation (input) CR4_PCE_MASK :: "'a::len word" where "CR4_PCE_MASK \<equiv> 0x100"
abbreviation (input) CR4_OSFXSR_MASK :: "'a::len word" where "CR4_OSFXSR_MASK \<equiv> 0x200"
abbreviation (input) CR4_SMEP_MASK :: "'a::len word" where "CR4_SMEP_MASK \<equiv> 0x100000"
abbreviation (input) CR4_SMAP_MASK :: "'a::len word" where "CR4_SMAP_MASK \<equiv> 0x200000"

abbreviation (input) MSR_EFER_SCE :: "'a::len word" where "MSR_EFER_SCE \<equiv> 0x1"
abbreviation (input) MSR_EFER_LME :: "'a::len word" where "MSR_EFER_LME \<equiv> 0x100"
abbreviation (input) MSR_EFER_LMA :: "'a::len word" where "MSR_EFER_LMA \<equiv> 0x400"
abbreviation (input) MSR_EFER_NXE :: "'a::len word" where "MSR_EFER_NXE \<equiv> 0x800"
abbreviation (input) MSR_EFER_SVME :: "'a::len word" where "MSR_EFER_SVME \<equiv> 0x1000"
abbreviation (input) MSR_EFER_FFXSR :: "'a::len word" where "MSR_EFER_FFXSR \<equiv> 0x4000"

abbreviation (input) TARGET_PAGE_BITS :: nat where "TARGET_PAGE_BITS \<equiv> 12"
abbreviation (input) TARGET_PAGE_SIZE :: "'a::len word" where "TARGET_PAGE_SIZE \<equiv> 0x1000"
abbreviation (input) TARGET_PAGE_MASK :: "'a::len word" where "TARGET_PAGE_MASK \<equiv> NOT 0xFFF"

abbreviation (input) EXCP_INTERRUPT :: int where "EXCP_INTERRUPT \<equiv> 0x10000"
abbreviation (input) EXCP_HLT :: int where "EXCP_HLT \<equiv> 0x10001"
abbreviation (input) EXCP_DEBUG :: int where "EXCP_DEBUG \<equiv> 0x10002"
abbreviation (input) EXCP_HALTED :: int where "EXCP_HALTED \<equiv> 0x10003"

abbreviation (input) EXCP00_DIVZ :: int where "EXCP00_DIVZ \<equiv> 0"
abbreviation (input) EXCP01_DB :: int where "EXCP01_DB \<equiv> 1"
abbreviation (input) EXCP04_INTO :: int where "EXCP04_INTO \<equiv> 4"
abbreviation (input) EXCP06_ILLOP :: int where "EXCP06_ILLOP \<equiv> 6"
abbreviation (input) EXCP08_DBLE :: int where "EXCP08_DBLE \<equiv> 8"
abbreviation (input) EXCP0D_GPF :: int where "EXCP0D_GPF \<equiv> 13"
abbreviation (input) EXCP0E_PAGE :: int where "EXCP0E_PAGE \<equiv> 14"

subsection \<open>Data\<close>

text \<open>The enumeration of lazily computed condition codes.\<close>

datatype cc_op_t =
    CC_OP_DYNAMIC | CC_OP_EFLAGS
  | CC_OP_MULB | CC_OP_MULW | CC_OP_MULL | CC_OP_MULQ
  | CC_OP_ADDB | CC_OP_ADDW | CC_OP_ADDL | CC_OP_ADDQ
  | CC_OP_ADCB | CC_OP_ADCW | CC_OP_ADCL | CC_OP_ADCQ
  | CC_OP_SUBB | CC_OP_SUBW | CC_OP_SUBL | CC_OP_SUBQ
  | CC_OP_SBBB | CC_OP_SBBW | CC_OP_SBBL | CC_OP_SBBQ
  | CC_OP_LOGICB | CC_OP_LOGICW | CC_OP_LOGICL | CC_OP_LOGICQ
  | CC_OP_INCB | CC_OP_INCW | CC_OP_INCL | CC_OP_INCQ
  | CC_OP_DECB | CC_OP_DECW | CC_OP_DECL | CC_OP_DECQ
  | CC_OP_SHLB | CC_OP_SHLW | CC_OP_SHLL | CC_OP_SHLQ
  | CC_OP_SARB | CC_OP_SARW | CC_OP_SARL | CC_OP_SARQ
  | CC_OP_NB

record segment_cache =
  sc_selector :: u32
  sc_base :: target_ulong
  sc_limit :: u32
  sc_flags :: u32

record tlb_entry =
  addr_read :: target_ulong
  addr_write :: target_ulong
  addr_code :: target_ulong
  addend :: u64

record breakpoint =
  bp_id :: nat
  bp_pc :: target_ulong
  bp_flags :: u32

record watchpoint =
  wp_id :: nat
  wp_vaddr :: target_ulong
  wp_len_mask :: target_ulong
  wp_flags :: u32

datatype tb_call = Tb_flush | Tb_invalidate_phys_addr u64

text \<open>\<open>CPU_COMMON\<close>; \<open>next_ref\<close> supplies fresh identifiers (the addresses \<open>malloc\<close> returns), \<open>can_do_io_flag\<close> is the
  field \<open>can_do_io\<close>.\<close>

record cpu_common =
  current_tb :: "nat option"
  mem_io_pc :: u64
  mem_io_vaddr :: target_ulong
  halted :: u32
  interrupt_request :: u32
  exit_request :: u32
  tlb_table :: "nat \<Rightarrow> nat \<Rightarrow> tlb_entry"
  iotlb :: "nat \<Rightarrow> nat \<Rightarrow> u64"
  tlb_flush_addr :: target_ulong
  tlb_flush_mask :: target_ulong
  tb_jmp_cache :: "nat \<Rightarrow> nat option"
  icount_extra :: u64
  can_do_io_flag :: u32
  breakpoints :: "breakpoint list"
  singlestep_enabled :: int
  watchpoints :: "watchpoint list"
  watchpoint_hit :: "nat option"
  exception_index :: int
  next_ref :: nat
  phys_mem :: "u64 \<Rightarrow> u8"
  tb_log :: "tb_call list"
  phys_dirty :: "u64 \<Rightarrow> u8"

record cpu_state = cpu_common +
  regs :: "nat \<Rightarrow> target_ulong"
  eip :: target_ulong
  eflags :: target_ulong
  cc_src :: target_ulong
  cc_dst :: target_ulong
  cc_op :: cc_op_t
  df :: u32
  hflags :: u32
  hflags2 :: u32
  segs :: "nat \<Rightarrow> segment_cache"
  ldt :: segment_cache
  tr :: segment_cache
  gdt :: segment_cache
  idt :: segment_cache
  cr :: "nat \<Rightarrow> target_ulong"
  a20_mask :: u32
  cc_tmp :: target_ulong
  sysenter_cs :: u32
  sysenter_esp :: target_ulong
  sysenter_eip :: target_ulong
  efer :: u64
  star :: u64
  vm_hsave :: u64
  vm_vmcb :: u64
  tsc_offset :: u64
  intercept :: u64
  intercept_cr_read :: u16
  intercept_cr_write :: u16
  intercept_dr_read :: u16
  intercept_dr_write :: u16
  intercept_exceptions :: u32
  lstar :: target_ulong
  cstar :: target_ulong
  fmask :: target_ulong
  kernelgsbase :: target_ulong
  mcg_status :: u64
  msr_ia32_misc_enable :: u64
  error_code :: u32
  exception_is_int :: u32
  exception_next_eip :: target_ulong
  dr :: "nat \<Rightarrow> target_ulong"
  cpu_breakpoint :: "nat \<Rightarrow> nat option"
  old_exception :: int
  pat :: u64
  cpuid_features :: u32
  cpuid_ext2_features :: u32
  cpuid_ext3_features :: u32
  cpuid_7_0_ebx_features :: u32
  mtrr_fixed :: "nat \<Rightarrow> u64"
  mtrr_deftype :: u64
  mtrr_var_base :: "nat \<Rightarrow> u64"
  mtrr_var_mask :: "nat \<Rightarrow> u64"
  mcg_cap :: u64
  mcg_ctl :: u64
  mce_banks :: "nat \<Rightarrow> u64"
  tsc_aux :: u64

text \<open>The state as the allocator hands it over: every byte zero.\<close>

definition zero_seg :: segment_cache where
  "zero_seg = \<lparr>sc_selector = 0, sc_base = 0, sc_limit = 0, sc_flags = 0\<rparr>"

definition zero_tlb :: tlb_entry where
  "zero_tlb = \<lparr>addr_read = 0, addr_write = 0, addr_code = 0, addend = 0\<rparr>"

definition zero_env :: cpu_state where
  "zero_env = \<lparr>
    current_tb = None, mem_io_pc = 0, mem_io_vaddr = 0, halted = 0, interrupt_request = 0, exit_request = 0,
    tlb_table = \<lambda>_ _. zero_tlb, iotlb = \<lambda>_ _. 0, tlb_flush_addr = 0,
    tlb_flush_mask = 0, tb_jmp_cache = \<lambda>_. None, icount_extra = 0, can_do_io_flag = 0, breakpoints = [],
    singlestep_enabled = 0, watchpoints = [], watchpoint_hit = None, exception_index = 0,
    next_ref = 0, phys_mem = \<lambda>_. 0, tb_log = [], phys_dirty = \<lambda>_. 0, regs = \<lambda>_. 0, eip = 0, eflags =
    0, cc_src = 0, cc_dst = 0, cc_op = CC_OP_DYNAMIC, df = 0, hflags = 0, hflags2 = 0, segs = \<lambda>_.
    zero_seg, ldt = zero_seg, tr = zero_seg, gdt = zero_seg, idt = zero_seg, cr = \<lambda>_. 0, a20_mask = 0,
    cc_tmp = 0, sysenter_cs = 0, sysenter_esp = 0, sysenter_eip = 0, efer = 0, star = 0,
    vm_hsave = 0, vm_vmcb = 0, tsc_offset = 0, intercept = 0, intercept_cr_read = 0,
    intercept_cr_write = 0, intercept_dr_read = 0, intercept_dr_write = 0, intercept_exceptions
    = 0, lstar = 0, cstar = 0, fmask = 0, kernelgsbase = 0, mcg_status = 0, msr_ia32_misc_enable
    = 0, error_code = 0, exception_is_int = 0, exception_next_eip = 0, dr = \<lambda>_. 0,
    cpu_breakpoint = \<lambda>_. None, old_exception = 0, pat = 0, cpuid_features = 0,
    cpuid_ext2_features = 0, cpuid_ext3_features = 0, cpuid_7_0_ebx_features = 0, mtrr_fixed =
    \<lambda>_. 0, mtrr_deftype = 0, mtrr_var_base = \<lambda>_. 0, mtrr_var_mask = \<lambda>_.
    0, mcg_cap = 0, mcg_ctl = 0, mce_banks = \<lambda>_. 0, tsc_aux = 0\<rparr>"

end
