(* ===== verification/CpuInline.thy ===== *)
theory CpuInline
  imports CpuState
begin

text \<open>
  The inline operations of \<open>target-i386/cpu.h\<close>: loading a segment cache with the hidden
  flags that go with it, the privilege level, EFLAGS, EFER, and the key a translation block
  is looked up with; and the outcome of a helper that may leave through \<open>cpu_loop_exit\<close>.
\<close>

text \<open>
  A helper returns, or leaves the CPU loop (\<open>longjmp\<close>), or hands over to
  \<open>helper_vmexit\<close> with an exit code and its parameter, or aborts the process
  (\<open>abort\<close>, a failed \<open>assert\<close>, or an operation the C standard leaves undefined and
  the host traps, such as a division by zero).
\<close>

datatype 'a outcome = Done 'a | LoopExit cpu_state | VmExit u32 u64 cpu_state | Abort

text \<open>Assignment to a general register (\<open>EAX = v\<close> and the like).\<close>

definition set_reg :: "nat \<Rightarrow> target_ulong \<Rightarrow> cpu_state \<Rightarrow> cpu_state" where
  "set_reg r v env = env\<lparr>regs := (regs env)(r := v)\<rparr>"

definition lshift :: "target_ulong \<Rightarrow> int \<Rightarrow> target_ulong" where
  "lshift x n = (if n \<ge> 0 then push_bit (nat n) x else signed_drop_bit (nat (- n)) x)"

definition set_seg :: "nat \<Rightarrow> u32 \<Rightarrow> target_ulong \<Rightarrow> u32 \<Rightarrow> u32 \<Rightarrow> cpu_state \<Rightarrow> cpu_state" where
  "set_seg seg_reg selector base limit flags env =
    env\<lparr>segs := (segs env)(seg_reg :=
      \<lparr>sc_selector = selector, sc_base = base, sc_limit = limit, sc_flags = flags\<rparr>)\<rparr>"

definition update_cs_hflags :: "nat \<Rightarrow> u32 \<Rightarrow> cpu_state \<Rightarrow> cpu_state" where
  "update_cs_hflags seg_reg flags env =
    (if seg_reg = R_CS then
       if hflags env AND HF_LMA_MASK \<noteq> 0 \<and> flags AND DESC_L_MASK \<noteq> 0 then
         (let env = env\<lparr>hflags := hflags env OR (HF_CS32_MASK OR HF_SS32_MASK OR HF_CS64_MASK)\<rparr>
          in env\<lparr>hflags := hflags env AND NOT HF_ADDSEG_MASK\<rparr>)
       else
         (let new_hflags = drop_bit (22 - 4) (sc_flags (segs env R_CS) AND DESC_B_MASK)
          in env\<lparr>hflags := (hflags env AND NOT (HF_CS32_MASK OR HF_CS64_MASK)) OR new_hflags\<rparr>)
     else env)"

definition seg_hflags :: "cpu_state \<Rightarrow> u32" where
  "seg_hflags env =
    (let new_hflags = drop_bit (22 - 5) (sc_flags (segs env R_SS) AND DESC_B_MASK)
     in if hflags env AND HF_CS64_MASK \<noteq> 0 then new_hflags
        else if cr env 0 AND CR0_PE_MASK = 0 \<or> eflags env AND VM_MASK \<noteq> 0
             \<or> hflags env AND HF_CS32_MASK = 0 then new_hflags OR HF_ADDSEG_MASK
        else new_hflags OR push_bit 6 (of_bool
               (sc_base (segs env R_DS) OR sc_base (segs env R_ES) OR sc_base (segs env R_SS) \<noteq> 0)))"

definition cpu_x86_load_seg_cache ::
  "cpu_state \<Rightarrow> nat \<Rightarrow> u32 \<Rightarrow> target_ulong \<Rightarrow> u32 \<Rightarrow> u32 \<Rightarrow> cpu_state" where
  "cpu_x86_load_seg_cache env seg_reg selector base limit flags =
    (let env = set_seg seg_reg selector base limit flags env;
         env = update_cs_hflags seg_reg flags env
     in env\<lparr>hflags := (hflags env AND NOT (HF_SS32_MASK OR HF_ADDSEG_MASK)) OR seg_hflags env\<rparr>)"

definition cpu_x86_set_cpl :: "cpu_state \<Rightarrow> u32 \<Rightarrow> cpu_state" where
  "cpu_x86_set_cpl s cpl = s\<lparr>hflags := (hflags s AND NOT HF_CPL_MASK) OR cpl\<rparr>"

definition cpu_mmu_index :: "cpu_state \<Rightarrow> nat" where
  "cpu_mmu_index env =
    (if hflags env AND HF_CPL_MASK = 3 then 1
     else if hflags env AND HF_SMAP_MASK \<noteq> 0 \<and> eflags env AND AC_MASK \<noteq> 0 then 2 else 0)"

definition cpu_get_tb_cpu_state :: "cpu_state \<Rightarrow> target_ulong \<times> target_ulong \<times> u32" where
  "cpu_get_tb_cpu_state env =
    (let cs_base = sc_base (segs env R_CS)
     in (cs_base + eip env, cs_base,
         hflags env OR ucast (eflags env AND (0x3000 OR TF_MASK OR RF_MASK OR VM_MASK OR AC_MASK))))"

definition cpu_load_eflags :: "cpu_state \<Rightarrow> u32 \<Rightarrow> u32 \<Rightarrow> cpu_state" where
  "cpu_load_eflags env fl update_mask =
    (let env = env\<lparr>cc_src := scast (fl AND CC_ALL)\<rparr>;
         env = env\<lparr>df := 1 - (2 * (signed_drop_bit 10 fl AND 1))\<rparr>
     in env\<lparr>eflags := (eflags env AND scast (NOT update_mask)) OR scast (fl AND update_mask) OR 0x2\<rparr>)"

definition cpu_load_efer :: "cpu_state \<Rightarrow> u64 \<Rightarrow> cpu_state" where
  "cpu_load_efer env val =
    (let env = env\<lparr>efer := val\<rparr>;
         env = env\<lparr>hflags := hflags env AND NOT (HF_LMA_MASK OR HF_SVME_MASK)\<rparr>;
         env = (if efer env AND MSR_EFER_LMA \<noteq> 0
                then env\<lparr>hflags := hflags env OR HF_LMA_MASK\<rparr> else env)
     in if efer env AND MSR_EFER_SVME \<noteq> 0
        then env\<lparr>hflags := hflags env OR HF_SVME_MASK\<rparr> else env)"

end
