(* ===== verification/CondCodes.thy ===== *)
theory CondCodes
  imports CpuInline
begin

text \<open>
  \<open>target-i386/cc_helper.c\<close> and \<open>cc_helper_template.h\<close>: the lazily computed condition
  codes. The template the source instantiates for 8, 16, 32 and 64 bits by the macro
  \<open>SHIFT\<close> takes the operand size \<open>bits\<close> (\<open>DATA_BITS\<close>) as its argument here;
  \<open>(DATA_TYPE)x\<close> is \<open>take_bit bits x\<close>. The \<open>int\<close> locals are 32-bit words.
\<close>

subsection \<open>The parity table\<close>

definition parity_table :: "u32 list" where
  "parity_table =
    [CC_P, 0, 0, CC_P, 0, CC_P, CC_P, 0,
     0, CC_P, CC_P, 0, CC_P, 0, 0, CC_P,
     0, CC_P, CC_P, 0, CC_P, 0, 0, CC_P,
     CC_P, 0, 0, CC_P, 0, CC_P, CC_P, 0,
     0, CC_P, CC_P, 0, CC_P, 0, 0, CC_P,
     CC_P, 0, 0, CC_P, 0, CC_P, CC_P, 0,
     CC_P, 0, 0, CC_P, 0, CC_P, CC_P, 0,
     0, CC_P, CC_P, 0, CC_P, 0, 0, CC_P,
     0, CC_P, CC_P, 0, CC_P, 0, 0, CC_P,
     CC_P, 0, 0, CC_P, 0, CC_P, CC_P, 0,
     CC_P, 0, 0, CC_P, 0, CC_P, CC_P, 0,
     0, CC_P, CC_P, 0, CC_P, 0, 0, CC_P,
     CC_P, 0, 0, CC_P, 0, CC_P, CC_P, 0,
     0, CC_P, CC_P, 0, CC_P, 0, 0, CC_P,
     0, CC_P, CC_P, 0, CC_P, 0, 0, CC_P,
     CC_P, 0, 0, CC_P, 0, CC_P, CC_P, 0,
     0, CC_P, CC_P, 0, CC_P, 0, 0, CC_P,
     CC_P, 0, 0, CC_P, 0, CC_P, CC_P, 0,
     CC_P, 0, 0, CC_P, 0, CC_P, CC_P, 0,
     0, CC_P, CC_P, 0, CC_P, 0, 0, CC_P,
     CC_P, 0, 0, CC_P, 0, CC_P, CC_P, 0,
     0, CC_P, CC_P, 0, CC_P, 0, 0, CC_P,
     0, CC_P, CC_P, 0, CC_P, 0, 0, CC_P,
     CC_P, 0, 0, CC_P, 0, CC_P, CC_P, 0,
     CC_P, 0, 0, CC_P, 0, CC_P, CC_P, 0,
     0, CC_P, CC_P, 0, CC_P, 0, 0, CC_P,
     0, CC_P, CC_P, 0, CC_P, 0, 0, CC_P,
     CC_P, 0, 0, CC_P, 0, CC_P, CC_P, 0,
     0, CC_P, CC_P, 0, CC_P, 0, 0, CC_P,
     CC_P, 0, 0, CC_P, 0, CC_P, CC_P, 0,
     CC_P, 0, 0, CC_P, 0, CC_P, CC_P, 0,
     0, CC_P, CC_P, 0, CC_P, 0, 0, CC_P]"

definition parity_of :: "target_ulong \<Rightarrow> u32" where
  "parity_of x = parity_table ! unat (ucast x :: u8)"

subsection \<open>The template\<close>

abbreviation (input) c_bool :: "bool \<Rightarrow> 'a::len word" where
  "c_bool b \<equiv> of_bool b"

definition zf_of :: "nat \<Rightarrow> target_ulong \<Rightarrow> u32" where
  "zf_of bits dst = push_bit 6 (c_bool (take_bit bits dst = 0))"

definition sf_of :: "nat \<Rightarrow> target_ulong \<Rightarrow> u32" where
  "sf_of bits dst = ucast (lshift dst (8 - int bits) AND 0x80)"

definition compute_all_add :: "nat \<Rightarrow> cpu_state \<Rightarrow> u32" where
  "compute_all_add bits env =
    (let src1 = cc_src env;
         src2 = cc_dst env - cc_src env;
         cf = c_bool (take_bit bits (cc_dst env) < take_bit bits src1);
         pf = parity_of (cc_dst env);
         af = ucast ((cc_dst env XOR src1 XOR src2) AND 0x10);
         zf = zf_of bits (cc_dst env);
         sf = sf_of bits (cc_dst env);
         ovf = ucast (lshift ((src1 XOR src2 XOR -1) AND (src1 XOR cc_dst env)) (12 - int bits) AND CC_O)
     in cf OR pf OR af OR zf OR sf OR ovf)"

definition compute_c_add :: "nat \<Rightarrow> cpu_state \<Rightarrow> u32" where
  "compute_c_add bits env =
    (let src1 = cc_src env in c_bool (take_bit bits (cc_dst env) < take_bit bits src1))"

definition compute_all_adc :: "nat \<Rightarrow> cpu_state \<Rightarrow> u32" where
  "compute_all_adc bits env =
    (let src1 = cc_src env;
         src2 = cc_dst env - cc_src env - 1;
         cf = c_bool (take_bit bits (cc_dst env) \<le> take_bit bits src1);
         pf = parity_of (cc_dst env);
         af = ucast ((cc_dst env XOR src1 XOR src2) AND 0x10);
         zf = zf_of bits (cc_dst env);
         sf = sf_of bits (cc_dst env);
         ovf = ucast (lshift ((src1 XOR src2 XOR -1) AND (src1 XOR cc_dst env)) (12 - int bits) AND CC_O)
     in cf OR pf OR af OR zf OR sf OR ovf)"

definition compute_c_adc :: "nat \<Rightarrow> cpu_state \<Rightarrow> u32" where
  "compute_c_adc bits env =
    (let src1 = cc_src env in c_bool (take_bit bits (cc_dst env) \<le> take_bit bits src1))"

definition compute_all_sub :: "nat \<Rightarrow> cpu_state \<Rightarrow> u32" where
  "compute_all_sub bits env =
    (let src1 = cc_dst env + cc_src env;
         src2 = cc_src env;
         cf = c_bool (take_bit bits src1 < take_bit bits src2);
         pf = parity_of (cc_dst env);
         af = ucast ((cc_dst env XOR src1 XOR src2) AND 0x10);
         zf = zf_of bits (cc_dst env);
         sf = sf_of bits (cc_dst env);
         ovf = ucast (lshift ((src1 XOR src2) AND (src1 XOR cc_dst env)) (12 - int bits) AND CC_O)
     in cf OR pf OR af OR zf OR sf OR ovf)"

definition compute_c_sub :: "nat \<Rightarrow> cpu_state \<Rightarrow> u32" where
  "compute_c_sub bits env =
    (let src1 = cc_dst env + cc_src env; src2 = cc_src env
     in c_bool (take_bit bits src1 < take_bit bits src2))"

definition compute_all_sbb :: "nat \<Rightarrow> cpu_state \<Rightarrow> u32" where
  "compute_all_sbb bits env =
    (let src1 = cc_dst env + cc_src env + 1;
         src2 = cc_src env;
         cf = c_bool (take_bit bits src1 \<le> take_bit bits src2);
         pf = parity_of (cc_dst env);
         af = ucast ((cc_dst env XOR src1 XOR src2) AND 0x10);
         zf = zf_of bits (cc_dst env);
         sf = sf_of bits (cc_dst env);
         ovf = ucast (lshift ((src1 XOR src2) AND (src1 XOR cc_dst env)) (12 - int bits) AND CC_O)
     in cf OR pf OR af OR zf OR sf OR ovf)"

definition compute_c_sbb :: "nat \<Rightarrow> cpu_state \<Rightarrow> u32" where
  "compute_c_sbb bits env =
    (let src1 = cc_dst env + cc_src env + 1; src2 = cc_src env
     in c_bool (take_bit bits src1 \<le> take_bit bits src2))"

definition compute_all_logic :: "nat \<Rightarrow> cpu_state \<Rightarrow> u32" where
  "compute_all_logic bits env =
    (let cf = 0; pf = parity_of (cc_dst env); af = 0;
         zf = zf_of bits (cc_dst env); sf = sf_of bits (cc_dst env); ovf = 0
     in cf OR pf OR af OR zf OR sf OR ovf)"

definition compute_c_logic :: "u32" where
  "compute_c_logic = 0"

definition compute_all_inc :: "nat \<Rightarrow> cpu_state \<Rightarrow> u32" where
  "compute_all_inc bits env =
    (let src1 = cc_dst env - 1; src2 = 1;
         cf = ucast (cc_src env);
         pf = parity_of (cc_dst env);
         af = ucast ((cc_dst env XOR src1 XOR src2) AND 0x10);
         zf = zf_of bits (cc_dst env);
         sf = sf_of bits (cc_dst env);
         ovf = push_bit 11 (c_bool (cc_dst env AND mask bits = push_bit (bits - 1) 1))
     in cf OR pf OR af OR zf OR sf OR ovf)"

definition compute_c_inc :: "cpu_state \<Rightarrow> u32" where
  "compute_c_inc env = ucast (cc_src env)"

definition compute_all_dec :: "nat \<Rightarrow> cpu_state \<Rightarrow> u32" where
  "compute_all_dec bits env =
    (let src1 = cc_dst env + 1; src2 = 1;
         cf = ucast (cc_src env);
         pf = parity_of (cc_dst env);
         af = ucast ((cc_dst env XOR src1 XOR src2) AND 0x10);
         zf = zf_of bits (cc_dst env);
         sf = sf_of bits (cc_dst env);
         ovf = push_bit 11 (c_bool (cc_dst env AND mask bits = push_bit (bits - 1) 1 - 1))
     in cf OR pf OR af OR zf OR sf OR ovf)"

definition compute_all_shl :: "nat \<Rightarrow> cpu_state \<Rightarrow> u32" where
  "compute_all_shl bits env =
    (let cf = ucast (drop_bit (bits - 1) (cc_src env) AND CC_C);
         pf = parity_of (cc_dst env); af = 0;
         zf = zf_of bits (cc_dst env);
         sf = sf_of bits (cc_dst env);
         ovf = ucast (lshift (cc_src env XOR cc_dst env) (12 - int bits) AND CC_O)
     in cf OR pf OR af OR zf OR sf OR ovf)"

definition compute_c_shl :: "nat \<Rightarrow> cpu_state \<Rightarrow> u32" where
  "compute_c_shl bits env = ucast (drop_bit (bits - 1) (cc_src env) AND CC_C)"

definition compute_c_sar :: "cpu_state \<Rightarrow> u32" where
  "compute_c_sar env = ucast (cc_src env AND 1)"

definition compute_all_sar :: "nat \<Rightarrow> cpu_state \<Rightarrow> u32" where
  "compute_all_sar bits env =
    (let cf = ucast (cc_src env AND 1);
         pf = parity_of (cc_dst env); af = 0;
         zf = zf_of bits (cc_dst env);
         sf = sf_of bits (cc_dst env);
         ovf = ucast (lshift (cc_src env XOR cc_dst env) (12 - int bits) AND CC_O)
     in cf OR pf OR af OR zf OR sf OR ovf)"

definition compute_c_mul :: "cpu_state \<Rightarrow> u32" where
  "compute_c_mul env = c_bool (cc_src env \<noteq> 0)"

definition compute_all_mul :: "nat \<Rightarrow> cpu_state \<Rightarrow> u32" where
  "compute_all_mul bits env =
    (let cf = c_bool (cc_src env \<noteq> 0);
         pf = parity_of (cc_dst env); af = 0;
         zf = zf_of bits (cc_dst env);
         sf = sf_of bits (cc_dst env);
         ovf = push_bit 11 cf
     in cf OR pf OR af OR zf OR sf OR ovf)"

subsection \<open>Dispatch on the condition code operation\<close>

definition compute_all_eflags :: "cpu_state \<Rightarrow> u32" where
  "compute_all_eflags env = ucast (cc_src env)"

definition compute_c_eflags :: "cpu_state \<Rightarrow> u32" where
  "compute_c_eflags env = ucast (cc_src env AND CC_C)"

definition helper_cc_compute_all :: "cpu_state \<Rightarrow> cc_op_t \<Rightarrow> u32" where
  "helper_cc_compute_all env op = (case op of
      CC_OP_EFLAGS \<Rightarrow> compute_all_eflags env
    | CC_OP_MULB \<Rightarrow> compute_all_mul 8 env
    | CC_OP_MULW \<Rightarrow> compute_all_mul 16 env
    | CC_OP_MULL \<Rightarrow> compute_all_mul 32 env
    | CC_OP_MULQ \<Rightarrow> compute_all_mul 64 env
    | CC_OP_ADDB \<Rightarrow> compute_all_add 8 env
    | CC_OP_ADDW \<Rightarrow> compute_all_add 16 env
    | CC_OP_ADDL \<Rightarrow> compute_all_add 32 env
    | CC_OP_ADDQ \<Rightarrow> compute_all_add 64 env
    | CC_OP_ADCB \<Rightarrow> compute_all_adc 8 env
    | CC_OP_ADCW \<Rightarrow> compute_all_adc 16 env
    | CC_OP_ADCL \<Rightarrow> compute_all_adc 32 env
    | CC_OP_ADCQ \<Rightarrow> compute_all_adc 64 env
    | CC_OP_SUBB \<Rightarrow> compute_all_sub 8 env
    | CC_OP_SUBW \<Rightarrow> compute_all_sub 16 env
    | CC_OP_SUBL \<Rightarrow> compute_all_sub 32 env
    | CC_OP_SUBQ \<Rightarrow> compute_all_sub 64 env
    | CC_OP_SBBB \<Rightarrow> compute_all_sbb 8 env
    | CC_OP_SBBW \<Rightarrow> compute_all_sbb 16 env
    | CC_OP_SBBL \<Rightarrow> compute_all_sbb 32 env
    | CC_OP_SBBQ \<Rightarrow> compute_all_sbb 64 env
    | CC_OP_LOGICB \<Rightarrow> compute_all_logic 8 env
    | CC_OP_LOGICW \<Rightarrow> compute_all_logic 16 env
    | CC_OP_LOGICL \<Rightarrow> compute_all_logic 32 env
    | CC_OP_LOGICQ \<Rightarrow> compute_all_logic 64 env
    | CC_OP_INCB \<Rightarrow> compute_all_inc 8 env
    | CC_OP_INCW \<Rightarrow> compute_all_inc 16 env
    | CC_OP_INCL \<Rightarrow> compute_all_inc 32 env
    | CC_OP_INCQ \<Rightarrow> compute_all_inc 64 env
    | CC_OP_DECB \<Rightarrow> compute_all_dec 8 env
    | CC_OP_DECW \<Rightarrow> compute_all_dec 16 env
    | CC_OP_DECL \<Rightarrow> compute_all_dec 32 env
    | CC_OP_DECQ \<Rightarrow> compute_all_dec 64 env
    | CC_OP_SHLB \<Rightarrow> compute_all_shl 8 env
    | CC_OP_SHLW \<Rightarrow> compute_all_shl 16 env
    | CC_OP_SHLL \<Rightarrow> compute_all_shl 32 env
    | CC_OP_SHLQ \<Rightarrow> compute_all_shl 64 env
    | CC_OP_SARB \<Rightarrow> compute_all_sar 8 env
    | CC_OP_SARW \<Rightarrow> compute_all_sar 16 env
    | CC_OP_SARL \<Rightarrow> compute_all_sar 32 env
    | CC_OP_SARQ \<Rightarrow> compute_all_sar 64 env
    | _ \<Rightarrow> 0)"

definition cpu_cc_compute_all :: "cpu_state \<Rightarrow> cc_op_t \<Rightarrow> u32" where
  "cpu_cc_compute_all env op = helper_cc_compute_all env op"

definition helper_cc_compute_c :: "cpu_state \<Rightarrow> cc_op_t \<Rightarrow> u32" where
  "helper_cc_compute_c env op = (case op of
      CC_OP_EFLAGS \<Rightarrow> compute_c_eflags env
    | CC_OP_MULB \<Rightarrow> compute_c_mul env
    | CC_OP_MULW \<Rightarrow> compute_c_mul env
    | CC_OP_MULL \<Rightarrow> compute_c_mul env
    | CC_OP_MULQ \<Rightarrow> compute_c_mul env
    | CC_OP_ADDB \<Rightarrow> compute_c_add 8 env
    | CC_OP_ADDW \<Rightarrow> compute_c_add 16 env
    | CC_OP_ADDL \<Rightarrow> compute_c_add 32 env
    | CC_OP_ADDQ \<Rightarrow> compute_c_add 64 env
    | CC_OP_ADCB \<Rightarrow> compute_c_adc 8 env
    | CC_OP_ADCW \<Rightarrow> compute_c_adc 16 env
    | CC_OP_ADCL \<Rightarrow> compute_c_adc 32 env
    | CC_OP_ADCQ \<Rightarrow> compute_c_adc 64 env
    | CC_OP_SUBB \<Rightarrow> compute_c_sub 8 env
    | CC_OP_SUBW \<Rightarrow> compute_c_sub 16 env
    | CC_OP_SUBL \<Rightarrow> compute_c_sub 32 env
    | CC_OP_SUBQ \<Rightarrow> compute_c_sub 64 env
    | CC_OP_SBBB \<Rightarrow> compute_c_sbb 8 env
    | CC_OP_SBBW \<Rightarrow> compute_c_sbb 16 env
    | CC_OP_SBBL \<Rightarrow> compute_c_sbb 32 env
    | CC_OP_SBBQ \<Rightarrow> compute_c_sbb 64 env
    | CC_OP_LOGICB \<Rightarrow> compute_c_logic
    | CC_OP_LOGICW \<Rightarrow> compute_c_logic
    | CC_OP_LOGICL \<Rightarrow> compute_c_logic
    | CC_OP_LOGICQ \<Rightarrow> compute_c_logic
    | CC_OP_INCB \<Rightarrow> compute_c_inc env
    | CC_OP_INCW \<Rightarrow> compute_c_inc env
    | CC_OP_INCL \<Rightarrow> compute_c_inc env
    | CC_OP_INCQ \<Rightarrow> compute_c_inc env
    | CC_OP_DECB \<Rightarrow> compute_c_inc env
    | CC_OP_DECW \<Rightarrow> compute_c_inc env
    | CC_OP_DECL \<Rightarrow> compute_c_inc env
    | CC_OP_DECQ \<Rightarrow> compute_c_inc env
    | CC_OP_SHLB \<Rightarrow> compute_c_shl 8 env
    | CC_OP_SHLW \<Rightarrow> compute_c_shl 16 env
    | CC_OP_SHLL \<Rightarrow> compute_c_shl 32 env
    | CC_OP_SHLQ \<Rightarrow> compute_c_shl 64 env
    | CC_OP_SARB \<Rightarrow> compute_c_sar env
    | CC_OP_SARW \<Rightarrow> compute_c_sar env
    | CC_OP_SARL \<Rightarrow> compute_c_sar env
    | CC_OP_SARQ \<Rightarrow> compute_c_sar env
    | _ \<Rightarrow> 0)"

subsection \<open>EFLAGS access\<close>

definition helper_write_eflags :: "cpu_state \<Rightarrow> target_ulong \<Rightarrow> u32 \<Rightarrow> cpu_state" where
  "helper_write_eflags env t0 update_mask = cpu_load_eflags env (ucast t0) update_mask"

definition helper_read_eflags :: "cpu_state \<Rightarrow> target_ulong" where
  "helper_read_eflags env =
    (let fl = helper_cc_compute_all env (cc_op env);
         fl = fl OR (df env AND DF_MASK);
         fl = fl OR ucast (eflags env AND NOT (VM_MASK OR RF_MASK))
     in ucast fl)"

definition helper_clts :: "cpu_state \<Rightarrow> cpu_state" where
  "helper_clts env = env\<lparr>cr := (cr env)(0 := cr env 0 AND NOT CR0_TS_MASK),
     hflags := hflags env AND NOT HF_TS_MASK\<rparr>"

definition helper_reset_rf :: "cpu_state \<Rightarrow> cpu_state" where
  "helper_reset_rf env = env\<lparr>eflags := eflags env AND NOT RF_MASK\<rparr>"

definition helper_cli :: "cpu_state \<Rightarrow> cpu_state" where
  "helper_cli env = env\<lparr>eflags := eflags env AND NOT IF_MASK\<rparr>"

definition helper_sti :: "cpu_state \<Rightarrow> cpu_state" where
  "helper_sti env = env\<lparr>eflags := eflags env OR IF_MASK\<rparr>"

definition helper_clac :: "cpu_state \<Rightarrow> cpu_state" where
  "helper_clac env = env\<lparr>eflags := eflags env AND NOT AC_MASK\<rparr>"

definition helper_stac :: "cpu_state \<Rightarrow> cpu_state" where
  "helper_stac env = env\<lparr>eflags := eflags env OR AC_MASK\<rparr>"

definition helper_set_inhibit_irq :: "cpu_state \<Rightarrow> cpu_state" where
  "helper_set_inhibit_irq env = env\<lparr>hflags := hflags env OR HF_INHIBIT_IRQ_MASK\<rparr>"

definition helper_reset_inhibit_irq :: "cpu_state \<Rightarrow> cpu_state" where
  "helper_reset_inhibit_irq env = env\<lparr>hflags := hflags env AND NOT HF_INHIBIT_IRQ_MASK\<rparr>"

subsection \<open>Reading the flag words\<close>

definition pack_flags :: "bool \<Rightarrow> bool \<Rightarrow> bool \<Rightarrow> bool \<Rightarrow> bool \<Rightarrow> bool \<Rightarrow> u32" where
  "pack_flags c p a z s v =
    of_bool c OR push_bit 2 (of_bool p) OR push_bit 4 (of_bool a) OR push_bit 6 (of_bool z)
      OR push_bit 7 (of_bool s) OR push_bit 11 (of_bool v)"

definition parity8 :: "target_ulong \<Rightarrow> bool" where
  "parity8 x = even (length (filter (bit x) [0..<8]))"

abbreviation (input) uval :: "nat \<Rightarrow> target_ulong \<Rightarrow> int" where
  "uval n x \<equiv> take_bit n (uint x)"

abbreviation (input) sval :: "nat \<Rightarrow> target_ulong \<Rightarrow> int" where
  "sval n x \<equiv> signed_take_bit (n - 1) (uint x)"

text \<open>The table doubles: its second half is the first with every entry flipped.\<close>

definition parity_double :: "u32 list \<Rightarrow> u32 list" where
  "parity_double xs = xs @ map (\<lambda>w. CC_P - w) xs"

definition parity_upto :: "nat \<Rightarrow> nat \<Rightarrow> u32" where
  "parity_upto k i = push_bit 2 (of_bool (even (length (filter (bit i) [0..<k]))))"

lemma parity_double_step:
  assumes "xs = map (parity_upto k) [0..<2 ^ k]"
  shows "parity_double xs = map (parity_upto (Suc k)) [0..<2 ^ Suc k]"
proof (rule nth_equalityI)
  have len: "length xs = 2 ^ k" using assms by simp
  show "length (parity_double xs) = length (map (parity_upto (Suc k)) [0..<2 ^ Suc k])"
    using len by (simp add: parity_double_def)
  fix i
  assume "i < length (parity_double xs)"
  then have i: "i < 2 ^ Suc k" using len by (simp add: parity_double_def)
  show "parity_double xs ! i = map (parity_upto (Suc k)) [0..<2 ^ Suc k] ! i"
  proof (cases "i < 2 ^ k")
    case True
    then have "\<not> bit i k" by (simp add: bit_iff_odd)
    with True show ?thesis
      by (simp add: parity_double_def parity_upto_def nth_append assms)
  next
    case False
    define j where "j = i - 2 ^ k"
    have ij: "i = j + 2 ^ k" "j < 2 ^ k" using False i by (simp_all add: j_def)
    have "i div 2 ^ k = 1"
      using ij by (simp add: div_nat_eqI)
    then have bk: "bit i k" by (simp only: bit_iff_odd) simp
    have "bit i m \<longleftrightarrow> bit j m" if "m < k" for m
    proof -
      have "(2 :: nat) ^ k = 2 ^ Suc m * 2 ^ (k - Suc m)"
        using that by (metis Suc_leI le_add_diff_inverse power_add)
      then have "take_bit (Suc m) i = take_bit (Suc m) j"
        unfolding ij take_bit_eq_mod by simp
      then show ?thesis
        by (metis bit_take_bit_iff lessI)
    qed
    then have "filter (bit i) [0..<k] = filter (bit j) [0..<k]"
      by (intro filter_cong) auto
    with bk ij show ?thesis
      by (simp add: parity_double_def parity_upto_def nth_append assms)
  qed
qed

lemma parity_table_doubled:
  "parity_table = (parity_double ^^ 8) [CC_P]"
  by (simp add: parity_table_def parity_double_def eval_nat_numeral)

lemma parity_table_eq: "parity_table = map (parity_upto 8) [0..<2 ^ 8]"
proof -
  have "(parity_double ^^ k) [CC_P] = map (parity_upto k) [0..<2 ^ k]" for k
  proof (induction k)
    case (Suc k)
    then show ?case by (simp only: funpow.simps comp_apply parity_double_step)
  qed (simp add: parity_upto_def)
  then show ?thesis unfolding parity_table_doubled .
qed

lemma parity_table_nth:
  "i < 256 \<Longrightarrow> parity_table ! i = push_bit 2 (of_bool (even (length (filter (bit i) [0..<8]))))"
  unfolding parity_table_eq by (simp add: parity_upto_def)

lemma parity_of_eq: "parity_of x = push_bit 2 (of_bool (parity8 x))"
proof -
  have lt: "unat (ucast x :: u8) < 256"
    using unsigned_less [of "ucast x :: u8"] by simp
  have "filter (bit (unat (ucast x :: u8))) [0..<8] = filter (bit x) [0..<8]"
    by (rule filter_cong) (auto simp: vx_bits)
  then show ?thesis
    unfolding parity_of_def parity8_def parity_table_nth [OF lt] by simp
qed

lemma and_bit_mask: "(x :: 'a::len word) AND push_bit k 1 = push_bit k (of_bool (bit x k))"
  by (rule bit_word_eqI) (auto simp: vx_bits)

lemma ucast_push_bool: "k < 32 \<Longrightarrow> ucast (push_bit k (of_bool b) :: u64) = (push_bit k (of_bool b) :: u32)"
  by (rule bit_word_eqI) (auto simp: vx_bits)

lemma mask_numerals:
  "(0x10 :: 'a::len word) = push_bit 4 1" "(0x80 :: 'a::len word) = push_bit 7 1"
  "(0x800 :: 'a::len word) = push_bit 11 1"
  by (simp_all add: push_bit_eq_mult)

definition data_bits :: "nat \<Rightarrow> bool" where
  "data_bits n \<longleftrightarrow> n \<in> {8, 16, 32, 64}"

lemma bit_lshift:
  assumes "data_bits n" "k \<in> {8, 12}"
  shows "bit (lshift x (int k - int n)) (k - 1) = bit x (n - 1)"
  using assms by (auto simp: data_bits_def lshift_def vx_bits)

lemma sf_of_eq: "data_bits n \<Longrightarrow> sf_of n x = push_bit 7 (of_bool (bit x (n - 1)))"
  unfolding sf_of_def mask_numerals and_bit_mask
  using bit_lshift [of n 8 x] by (simp add: ucast_push_bool)

lemma ov_of_eq: "data_bits n \<Longrightarrow>
  ucast (lshift x (12 - int n) AND 0x800) = (push_bit 11 (of_bool (bit x (n - 1))) :: u32)"
  unfolding mask_numerals and_bit_mask
  using bit_lshift [of n 12 x] by (simp add: ucast_push_bool)

lemma af_of_eq: "ucast ((x :: u64) AND 0x10) = (push_bit 4 (of_bool (bit x 4)) :: u32)"
  unfolding mask_numerals and_bit_mask by (simp add: ucast_push_bool)

lemma sval_neg: "data_bits n \<Longrightarrow> bit x (n - 1) \<longleftrightarrow> sval n x < 0"
  by (auto simp: data_bits_def signed_take_bit_negative_iff bit_uint_iff)

lemma take_bit_word_le: "n \<le> 64 \<Longrightarrow> take_bit n (x :: u64) \<le> take_bit n y \<longleftrightarrow> uval n x \<le> uval n y"
  by (simp add: word_le_def uint_take_bit_word)

lemma take_bit_word_less: "n \<le> 64 \<Longrightarrow> take_bit n (x :: u64) < take_bit n y \<longleftrightarrow> uval n x < uval n y"
  by (simp add: word_less_def uint_take_bit_word)

lemma data_bits_facts: "data_bits n \<Longrightarrow> n \<le> 64 \<and> n - 1 < 64 \<and> 0 < n \<and> Suc (n - 1) = n"
  by (auto simp: data_bits_def)

lemma uval_bounds: "0 \<le> uval n x" "uval n x < 2 ^ n"
  by simp_all

lemma carry_out_arith:
  fixes t x y m :: int
  assumes "t = (if m \<le> x + y + of_bool c then x + y + of_bool c - m else x + y + of_bool c)"
    and "0 \<le> x" "x < m" "0 \<le> y" "y < m"
  shows "(if c then t \<le> x else t < x) \<longleftrightarrow> m \<le> x + y + of_bool c"
  using assms by (cases c) auto

lemma carry_out:
  assumes "n \<le> 64"
  shows "(if c then uval n (x + y + of_bool c) \<le> uval n x else uval n (x + y + of_bool c) < uval n x)
    \<longleftrightarrow> 2 ^ n \<le> uval n x + uval n y + of_bool c"
  using uint_take_bit_add [of n x y c] assms
  by (intro carry_out_arith) (simp_all add: Let_def)


lemma len64_word: "LENGTH(64) = 64" by simp

subsection \<open>The flags the instructions define\<close>

definition add_flags :: "nat \<Rightarrow> target_ulong \<Rightarrow> target_ulong \<Rightarrow> bool \<Rightarrow> u32" where
  "add_flags n x y c =
    (let r = x + y + of_bool c in
     pack_flags (2 ^ n \<le> uval n x + uval n y + of_bool c) (parity8 r)
       (16 \<le> uval 4 x + uval 4 y + of_bool c) (uval n r = 0) (sval n r < 0)
       (\<not> (- (2 ^ (n - 1)) \<le> sval n x + sval n y + of_bool c \<and>
           sval n x + sval n y + of_bool c < 2 ^ (n - 1))))"

definition sub_flags :: "nat \<Rightarrow> target_ulong \<Rightarrow> target_ulong \<Rightarrow> bool \<Rightarrow> u32" where
  "sub_flags n x y c =
    (let r = x - y - of_bool c in
     pack_flags (uval n x < uval n y + of_bool c) (parity8 r)
       (uval 4 x < uval 4 y + of_bool c) (uval n r = 0) (sval n r < 0)
       (\<not> (- (2 ^ (n - 1)) \<le> sval n x - sval n y - of_bool c \<and>
           sval n x - sval n y - of_bool c < 2 ^ (n - 1))))"

definition logic_flags :: "nat \<Rightarrow> target_ulong \<Rightarrow> u32" where
  "logic_flags n r = pack_flags False (parity8 r) False (uval n r = 0) (sval n r < 0) False"

lemma zf_of_eq: "data_bits n \<Longrightarrow> zf_of n x = push_bit 6 (of_bool (uval n x = 0))"
proof -
  assume "data_bits n"
  then have "take_bit n x = 0 \<longleftrightarrow> uval n x = 0"
    using uint_take_bit_word [of n x] unsigned_eq_0_iff [of "take_bit n x"] by metis
  then show ?thesis unfolding zf_of_def by simp
qed

lemma borrow_out_arith:
  fixes tx tr ty m :: int
  assumes "tx = (if m \<le> tr + ty + of_bool c then tr + ty + of_bool c - m else tr + ty + of_bool c)"
    and "0 \<le> tr" "tr < m" "0 \<le> ty" "ty < m"
  shows "m \<le> tr + ty + of_bool c \<longleftrightarrow> tx < ty + of_bool c"
  using assms by (cases c) auto

lemma borrow_out:
  assumes "n \<le> 64" "x = r + y + of_bool c"
  shows "2 ^ n \<le> uval n r + uval n y + of_bool c \<longleftrightarrow> uval n x < uval n y + of_bool c"
  using uint_take_bit_add [of n r y c] assms
  by (intro borrow_out_arith) (simp_all add: Let_def)

lemma borrow_cmp:
  assumes "n \<le> 64"
  shows "uval n x < uval n y + of_bool c \<longleftrightarrow>
    (if c then take_bit n x \<le> take_bit n y else take_bit n x < take_bit n y)"
  using assms by (simp add: take_bit_word_le take_bit_word_less)

lemma add_core:
  assumes n: "data_bits n" and d: "d = x + y + of_bool c"
  shows "of_bool (if c then take_bit n d \<le> take_bit n x else take_bit n d < take_bit n x)
      OR parity_of d OR ucast ((d XOR x XOR y) AND 0x10) OR zf_of n d OR sf_of n d
      OR ucast (lshift ((x XOR y XOR -1) AND (x XOR d)) (12 - int n) AND CC_O)
    = add_flags n x y c"
proof -
  have n64: "n \<le> 64" "n - 1 < 64" using data_bits_facts [OF n] by simp_all
  have cf: "(if c then take_bit n d \<le> take_bit n x else take_bit n d < take_bit n x)
      \<longleftrightarrow> 2 ^ n \<le> uval n x + uval n y + of_bool c"
    unfolding take_bit_word_le [OF n64(1)] take_bit_word_less [OF n64(1)] d
    by (rule carry_out [OF n64(1)])
  have af: "bit (d XOR x XOR y) 4 \<longleftrightarrow> 16 \<le> uval 4 x + uval 4 y + of_bool c"
    using word_add_carry_bit [of 4 x y c] by (auto simp: bit_xor_iff d)
  have ov: "bit ((x XOR y XOR -1) AND (x XOR d)) (n - 1) \<longleftrightarrow>
      \<not> (- (2 ^ (n - 1)) \<le> sval n x + sval n y + of_bool c \<and>
           sval n x + sval n y + of_bool c < 2 ^ (n - 1))"
    unfolding signed_add_overflow [OF n64(2)[folded len64_word], symmetric] d
    using n64(2) by (auto simp: bit_simps)
  show ?thesis
    unfolding add_flags_def Let_def pack_flags_def d [symmetric] cf [symmetric] af [symmetric] ov [symmetric]
      parity_of_eq zf_of_eq [OF n] sf_of_eq [OF n] af_of_eq ov_of_eq [OF n] sval_neg [OF n, symmetric] ..
qed

lemma sub_core:
  assumes n: "data_bits n" and d: "d = x - y - of_bool c"
  shows "of_bool (if c then take_bit n x \<le> take_bit n y else take_bit n x < take_bit n y)
      OR parity_of d OR ucast ((d XOR x XOR y) AND 0x10) OR zf_of n d OR sf_of n d
      OR ucast (lshift ((x XOR y) AND (x XOR d)) (12 - int n) AND CC_O)
    = sub_flags n x y c"
proof -
  have n64: "n \<le> 64" "n - 1 < 64" using data_bits_facts [OF n] by simp_all
  have x: "x = d + y + of_bool c" using d by simp
  have cf: "(if c then take_bit n x \<le> take_bit n y else take_bit n x < take_bit n y)
      \<longleftrightarrow> uval n x < uval n y + of_bool c"
    by (rule borrow_cmp [OF n64(1), symmetric])
  have "bit (d XOR x XOR y) 4 \<longleftrightarrow> 16 \<le> uval 4 d + uval 4 y + of_bool c"
    using word_add_carry_bit [of 4 d y c] by (auto simp: bit_xor_iff x)
  then have af: "bit (d XOR x XOR y) 4 \<longleftrightarrow> uval 4 x < uval 4 y + of_bool c"
    using borrow_out [of 4 x d y c] x by simp
  have ov: "bit ((x XOR y) AND (x XOR d)) (n - 1) \<longleftrightarrow>
      \<not> (- (2 ^ (n - 1)) \<le> sval n x - sval n y - of_bool c \<and>
           sval n x - sval n y - of_bool c < 2 ^ (n - 1))"
    unfolding signed_sub_overflow [OF n64(2)[folded len64_word] x, symmetric]
    using n64(2) by (auto simp: bit_simps)
  show ?thesis
    unfolding sub_flags_def Let_def pack_flags_def d [symmetric] cf [symmetric] af [symmetric] ov [symmetric]
      parity_of_eq zf_of_eq [OF n] sf_of_eq [OF n] af_of_eq ov_of_eq [OF n] sval_neg [OF n, symmetric] ..
qed


definition inc_flags :: "nat \<Rightarrow> target_ulong \<Rightarrow> bool \<Rightarrow> u32" where
  "inc_flags n x c =
    (let r = x + 1 in
     pack_flags c (parity8 r) (uval 4 x = 15) (uval n r = 0) (sval n r < 0)
       (sval n x + 1 = 2 ^ (n - 1)))"

definition dec_flags :: "nat \<Rightarrow> target_ulong \<Rightarrow> bool \<Rightarrow> u32" where
  "dec_flags n x c =
    (let r = x - 1 in
     pack_flags c (parity8 r) (uval 4 x = 0) (uval n r = 0) (sval n r < 0)
       (sval n x = - (2 ^ (n - 1))))"

definition shift_flags :: "nat \<Rightarrow> target_ulong \<Rightarrow> bool \<Rightarrow> bool \<Rightarrow> u32" where
  "shift_flags n r c v = pack_flags c (parity8 r) False (uval n r = 0) (sval n r < 0) v"

lemma sval_arith:
  fixes t M :: int
  assumes "0 \<le> t" "t < M"
  shows "t - M * of_bool b = (if M \<le> M * of_bool b + t then M * of_bool b + t - 2 * M
    else M * of_bool b + t)"
  using assms by (cases b) auto

lemma sval_uval:
  assumes "data_bits n"
  shows "sval n x = (if 2 ^ (n - 1) \<le> uval n x then uval n x - 2 ^ n else uval n x)"
proof -
  have n: "n = Suc (n - 1)" using data_bits_facts [OF assms] by simp
  have u: "uval n x = 2 ^ (n - 1) * of_bool (bit (uint x) (n - 1)) + uval (n - 1) x"
    by (subst n) (simp only: take_bit_Suc_from_most)
  have p: "(2 :: int) ^ n = 2 * 2 ^ (n - 1)" by (subst n) simp
  have b: "0 \<le> uval (n - 1) x" "uval (n - 1) x < 2 ^ (n - 1)" by simp_all
  show ?thesis
    unfolding signed_take_bit_split p u by (rule sval_arith [OF b])
qed

lemma add1_arith:
  fixes r u M :: int
  assumes "r = (if M \<le> u + 1 then u + 1 - M else u + 1)" "u < M"
  shows "r = (if u + 1 = M then 0 else u + 1)"
  using assms by auto

lemma uval_add1: "n \<le> 64 \<Longrightarrow> uval n (x + 1) = (if uval n x + 1 = 2 ^ n then 0 else uval n x + 1)"
proof (cases "n = 0")
  case False
  assume n: "n \<le> 64"
  have one: "take_bit n (1 :: int) = 1" using False by simp
  have b: "uval n x < 2 ^ n" by simp
  have "uval n (x + 1) = (if 2 ^ n \<le> uval n x + 1 then uval n x + 1 - 2 ^ n else uval n x + 1)"
    using uint_take_bit_add [of n x 1 False] n one by (simp add: Let_def)
  then show ?thesis by (rule add1_arith [OF _ b])
qed simp

lemma inc_overflow:
  assumes "data_bits n"
  shows "uval n (x + 1) = 2 ^ (n - 1) \<longleftrightarrow> sval n x + 1 = 2 ^ (n - 1)"
proof -
  have n: "n = Suc (n - 1)" "n \<le> 64" using data_bits_facts [OF assms] by simp_all
  have p: "(2 :: int) ^ n = 2 * 2 ^ (n - 1)" by (subst n) simp
  have b: "0 \<le> uval n x" "uval n x < 2 * 2 ^ (n - 1)" "(0 :: int) < 2 ^ (n - 1)"
    unfolding p [symmetric] by simp_all
  show ?thesis
    unfolding sval_uval [OF assms] uval_add1 [OF n(2)] p using b by (auto split: if_splits)
qed

lemma dec_arith:
  fixes d u M :: int
  assumes "0 \<le> d" "d < 2 * M" "0 < M" "u = (if d + 1 = 2 * M then 0 else d + 1)"
  shows "d = M - 1 \<longleftrightarrow> (if M \<le> u then u - 2 * M else u) = - M"
  using assms by auto

lemma dec_overflow:
  assumes "data_bits n"
  shows "uval n (x - 1) = 2 ^ (n - 1) - 1 \<longleftrightarrow> sval n x = - (2 ^ (n - 1))"
proof -
  have n: "n = Suc (n - 1)" "n \<le> 64" using data_bits_facts [OF assms] by simp_all
  have p: "(2 :: int) ^ n = 2 * 2 ^ (n - 1)" by (subst n) simp
  have b: "0 \<le> uval n (x - 1)" "uval n (x - 1) < 2 * 2 ^ (n - 1)" "(0 :: int) < 2 ^ (n - 1)"
    unfolding p [symmetric] by simp_all
  have "uval n x = (if uval n (x - 1) + 1 = 2 ^ n then 0 else uval n (x - 1) + 1)"
    using uval_add1 [OF n(2), of "x - 1"] by simp
  then show ?thesis
    unfolding sval_uval [OF assms] p by (rule dec_arith [OF b])
qed

lemma masked_eq:
  assumes "n \<le> 64" "v < 2 ^ n" "0 \<le> v"
  shows "(d :: target_ulong) AND mask n = word_of_int v \<longleftrightarrow> uval n d = v"
proof -
  have v: "uint (word_of_int v :: target_ulong) = v"
  proof -
    have "(2 :: int) ^ n \<le> 2 ^ 64" using assms by (intro power_increasing) auto
    then have "v < 2 ^ 64" using assms(2) by linarith
    then show ?thesis using assms(3) by (simp add: uint_word_of_int mod_pos_pos_trivial)
  qed
  have "d AND mask n = word_of_int v \<longleftrightarrow> uint (take_bit n d) = uint (word_of_int v :: target_ulong)"
    by (simp only: take_bit_eq_mask word_uint_eq_iff)
  then show ?thesis unfolding v uint_take_bit_word .
qed

lemma top_mask_int: "data_bits n \<Longrightarrow>
  (push_bit (n - 1) 1 :: target_ulong) = word_of_int (2 ^ (n - 1)) \<and>
  (push_bit (n - 1) 1 - 1 :: target_ulong) = word_of_int (2 ^ (n - 1) - 1)"
  by (auto simp: data_bits_def push_bit_eq_mult)


definition cc_size :: "nat \<Rightarrow> 'a \<Rightarrow> 'a \<Rightarrow> 'a \<Rightarrow> 'a \<Rightarrow> 'a" where
  "cc_size n b w l q = (if n = 8 then b else if n = 16 then w else if n = 32 then l else q)"

definition add_op :: "bool \<Rightarrow> nat \<Rightarrow> cc_op_t" where
  "add_op c n = (if c then cc_size n CC_OP_ADCB CC_OP_ADCW CC_OP_ADCL CC_OP_ADCQ
                 else cc_size n CC_OP_ADDB CC_OP_ADDW CC_OP_ADDL CC_OP_ADDQ)"

definition sub_op :: "bool \<Rightarrow> nat \<Rightarrow> cc_op_t" where
  "sub_op c n = (if c then cc_size n CC_OP_SBBB CC_OP_SBBW CC_OP_SBBL CC_OP_SBBQ
                 else cc_size n CC_OP_SUBB CC_OP_SUBW CC_OP_SUBL CC_OP_SUBQ)"

lemma upto_8: "[0..<8] = [0, 1, 2, 3, 4, 5, 6, 7 :: nat]"
  by (simp add: upt_rec)

lemmas flag_evaluation = data_bits_def cc_size_def pack_flags_def parity8_def Let_def upto_8

lemma helper_cc_add: "data_bits n \<Longrightarrow> helper_cc_compute_all env (add_op c n) =
    (if c then compute_all_adc n env else compute_all_add n env)"
  by (auto simp: data_bits_def add_op_def cc_size_def helper_cc_compute_all_def)

lemma helper_cc_sub: "data_bits n \<Longrightarrow> helper_cc_compute_all env (sub_op c n) =
    (if c then compute_all_sbb n env else compute_all_sub n env)"
  by (auto simp: data_bits_def sub_op_def cc_size_def helper_cc_compute_all_def)

lemma cc_add_flags:
  assumes "data_bits n" "cc_src env = x" "cc_dst env = x + y + of_bool c"
  shows "helper_cc_compute_all env (add_op c n) = add_flags n x y c"
  using add_core [OF assms(1) refl, where x = x and y = y and c = c] assms(2,3)
  by (cases c) (simp_all add: helper_cc_add [OF assms(1)] compute_all_add_def compute_all_adc_def Let_def)

text \<open>C1. After ADD or ADC of any operand size the condition codes the emulator derives from the
  saved operand and result are the architectural flags of the addition: the carry out of the operand
  size, the parity of the low byte, the carry out of bit 3, zero, sign and signed overflow.\<close>

theorem cc_add_correct:
  assumes "data_bits n"
  shows "helper_cc_compute_all (env\<lparr>cc_src := x, cc_dst := x + y + of_bool c\<rparr>) (add_op c n) =
    add_flags n x y c"
  using assms by (rule cc_add_flags) simp_all

lemma cc_add_witness:
  "helper_cc_compute_all (zero_env\<lparr>cc_src := 0xFF, cc_dst := 0xFF + 1 + of_bool False\<rparr>) CC_OP_ADDB = 0x55"
  using cc_add_correct [where n = 8 and env = zero_env and x = "0xFF" and y = 1 and c = False]
  by (simp add: flag_evaluation add_op_def add_flags_def)

lemma cc_sub_flags:
  assumes "data_bits n" "cc_src env = y" "cc_dst env = x - y - of_bool c"
  shows "helper_cc_compute_all env (sub_op c n) = sub_flags n x y c"
  using sub_core [OF assms(1) refl, where x = x and y = y and c = c] assms(2,3)
  by (cases c) (simp_all add: helper_cc_sub [OF assms(1)] compute_all_sub_def compute_all_sbb_def Let_def)

text \<open>C2. After SUB, CMP or SBB the derived condition codes are the architectural flags of the
  subtraction: the borrow, parity, the borrow into bit 4, zero, sign and signed overflow.\<close>

theorem cc_sub_correct:
  assumes "data_bits n"
  shows "helper_cc_compute_all (env\<lparr>cc_src := y, cc_dst := x - y - of_bool c\<rparr>) (sub_op c n) =
    sub_flags n x y c"
  using assms by (rule cc_sub_flags) simp_all

lemma cc_sub_witness:
  "helper_cc_compute_all (zero_env\<lparr>cc_src := 1, cc_dst := 0x80 - 1 - of_bool False\<rparr>) CC_OP_SUBB = 0x810"
  using cc_sub_correct [where n = 8 and env = zero_env and x = "0x80" and y = 1 and c = False]
  by (simp add: flag_evaluation sub_op_def sub_flags_def)

lemma ucast_bool: "ucast (of_bool c :: u64) = (of_bool c :: u32)"
  by (cases c) simp_all

lemma inc_af: "bit ((x + 1) XOR x XOR (1 :: target_ulong)) 4 \<longleftrightarrow> uval 4 x = 15"
proof -
  have t: "take_bit 4 (1 :: int) = 1" by simp
  have "uval 4 x < 16" using take_bit_int_less_exp [of 4 "uint x"] by simp
  then show ?thesis
    using word_add_carry_bit [of 4 x 1 False] t by (auto simp: bit_xor_iff bit_1_iff)
qed

lemma add1_zero_arith:
  "(t :: int) = (if u + 1 = 16 then 0 else u + 1) \<Longrightarrow> 0 \<le> u \<Longrightarrow> u = 15 \<longleftrightarrow> t = 0"
  by (auto split: if_splits)

lemma dec_af: "bit ((x - 1) XOR x XOR (1 :: target_ulong)) 4 \<longleftrightarrow> uval 4 x = 0"
proof -
  have "bit ((x - 1) XOR x XOR (1 :: target_ulong)) 4 \<longleftrightarrow> uval 4 (x - 1) = 15"
    using inc_af [of "x - 1"] by (auto simp: bit_xor_iff)
  also have "\<dots> \<longleftrightarrow> uval 4 x = 0"
  proof (rule add1_zero_arith)
    show "uval 4 x = (if uval 4 (x - 1) + 1 = 16 then 0 else uval 4 (x - 1) + 1)"
      using uval_add1 [of 4 "x - 1"] by simp
  qed (rule take_bit_nonnegative)
  finally show ?thesis .
qed

lemma masked_top:
  assumes "data_bits n"
  shows "(d :: target_ulong) AND mask n = push_bit (n - 1) 1 \<longleftrightarrow> uval n d = 2 ^ (n - 1)"
    and "(d :: target_ulong) AND mask n = push_bit (n - 1) 1 - 1 \<longleftrightarrow> uval n d = 2 ^ (n - 1) - 1"
proof -
  have n: "n \<le> 64" "0 < n" using data_bits_facts [OF assms] by simp_all
  have p: "(2 :: int) ^ (n - 1) < 2 ^ n" using n by (intro power_strict_increasing) auto
  have p': "(2 :: int) ^ (n - 1) - 1 < 2 ^ n" using p by linarith
  show "d AND mask n = push_bit (n - 1) 1 \<longleftrightarrow> uval n d = 2 ^ (n - 1)"
    using top_mask_int [OF assms] masked_eq [OF n(1) p, of d] by simp
  show "d AND mask n = push_bit (n - 1) 1 - 1 \<longleftrightarrow> uval n d = 2 ^ (n - 1) - 1"
    using top_mask_int [OF assms] masked_eq [OF n(1) p', of d] by simp
qed

text \<open>C15. After INC and DEC the flags are the architectural ones, the carry being the saved one.\<close>

theorem cc_inc_dec_correct:
  assumes "data_bits n"
  shows "compute_all_inc n (env\<lparr>cc_src := of_bool c, cc_dst := x + 1\<rparr>) = inc_flags n x c \<and>
    compute_all_dec n (env\<lparr>cc_src := of_bool c, cc_dst := x - 1\<rparr>) = dec_flags n x c"
proof
  show "compute_all_inc n (env\<lparr>cc_src := of_bool c, cc_dst := x + 1\<rparr>) = inc_flags n x c"
    using masked_top(1) [OF assms, of "x + 1"] inc_overflow [OF assms, of x] inc_af [of x]
    by (simp add: compute_all_inc_def inc_flags_def Let_def pack_flags_def ucast_bool parity_of_eq
        zf_of_eq [OF assms] sf_of_eq [OF assms] af_of_eq sval_neg [OF assms, simplified])
  show "compute_all_dec n (env\<lparr>cc_src := of_bool c, cc_dst := x - 1\<rparr>) = dec_flags n x c"
    using masked_top(2) [OF assms, of "x - 1"] dec_overflow [OF assms, of x] dec_af [of x]
    by (simp add: compute_all_dec_def dec_flags_def Let_def pack_flags_def ucast_bool parity_of_eq
        zf_of_eq [OF assms] sf_of_eq [OF assms] af_of_eq sval_neg [OF assms, simplified])
qed

lemma cc_inc_dec_witness:
  "compute_all_inc 8 (zero_env\<lparr>cc_src := of_bool True, cc_dst := 0x7F + 1\<rparr>) = 0x891"
  using cc_inc_dec_correct [where n = 8 and env = zero_env and x = "0x7F" and c = True]
  by (simp add: flag_evaluation inc_flags_def)

lemma and_one_bit: "(w :: 'a::len word) AND 1 = of_bool (bit w 0)"
  by (rule bit_word_eqI) (auto simp: vx_bits)

lemma compute_all_shl_eq:
  assumes n: "data_bits n"
  shows "compute_all_shl n env = shift_flags n (cc_dst env) (bit (cc_src env) (n - 1))
    (bit (cc_src env) (n - 1) \<noteq> bit (cc_dst env) (n - 1))"
proof -
  have c: "ucast (drop_bit (n - 1) (cc_src env) AND 1) = (of_bool (bit (cc_src env) (n - 1)) :: u32)"
    unfolding and_one_bit ucast_bool by (simp add: bit_drop_bit_eq)
  show ?thesis
    unfolding compute_all_shl_def shift_flags_def Let_def pack_flags_def c ov_of_eq [OF n] bit_xor_iff
      parity_of_eq zf_of_eq [OF n] sf_of_eq [OF n] sval_neg [OF n, symmetric]
    by (simp del: of_bool_eq_iff)
qed

lemma compute_all_sar_eq:
  assumes n: "data_bits n"
  shows "compute_all_sar n env = shift_flags n (cc_dst env) (bit (cc_src env) 0)
    (bit (cc_src env) (n - 1) \<noteq> bit (cc_dst env) (n - 1))"
  unfolding compute_all_sar_def shift_flags_def Let_def pack_flags_def and_one_bit ucast_bool
    ov_of_eq [OF n] bit_xor_iff
    parity_of_eq zf_of_eq [OF n] sf_of_eq [OF n] sval_neg [OF n, symmetric]
  by simp

text \<open>C16. After a left shift by a count within the operand size, from the value shifted one place
  less and the result, the carry is the last bit shifted out and the overflow flag tells whether the
  last step changed the sign.\<close>

theorem cc_shl_correct:
  assumes n: "data_bits n" and k: "0 < k" "k \<le> n"
    and env: "cc_src env = push_bit (k - 1) x" "cc_dst env = push_bit k x"
  shows "compute_all_shl n env =
    shift_flags n (push_bit k x) (bit x (n - k)) (bit x (n - k) \<noteq> (k < n \<and> bit x (n - k - 1)))"
proof -
  have n64: "n - 1 < 64" using data_bits_facts [OF n] by simp
  have s: "bit (push_bit (k - 1) x) (n - 1) \<longleftrightarrow> bit x (n - k)"
    using k n64 by (auto simp: bit_push_bit_iff)
  have d: "bit (push_bit k x) (n - 1) \<longleftrightarrow> k < n \<and> bit x (n - k - 1)"
    using k n64 by (auto simp: bit_push_bit_iff)
  show ?thesis
    unfolding compute_all_shl_eq [OF n] env s d ..
qed

lemma cc_shl_witness:
  "compute_all_shl 8 (zero_env\<lparr>cc_src := push_bit 1 0x41, cc_dst := push_bit 2 0x41\<rparr>) = 0x801"
  using cc_shl_correct [of 8 2 "zero_env\<lparr>cc_src := push_bit 1 0x41, cc_dst := push_bit 2 0x41\<rparr>" "0x41"]
  by (simp add: flag_evaluation shift_flags_def)

lemma cc_sar_correct:
  assumes n: "data_bits n" and k: "0 < k" "k \<le> 64"
    and env: "cc_src env = signed_drop_bit (k - 1) x" "cc_dst env = signed_drop_bit k x"
  shows "compute_all_sar n env =
    shift_flags n (signed_drop_bit k x) (bit x (k - 1))
      (bit (signed_drop_bit (k - 1) x) (n - 1) \<noteq> bit (signed_drop_bit k x) (n - 1))"
proof -
  have s: "bit (signed_drop_bit (k - 1) x) 0 \<longleftrightarrow> bit x (k - 1)"
    using k by (auto simp: bit_signed_drop_bit_iff)
  show ?thesis
    unfolding compute_all_sar_eq [OF n] env s ..
qed

subsection \<open>The carry alone agrees with bit 0 of all the flags\<close>

definition carry_saved :: "cpu_state \<Rightarrow> cc_op_t \<Rightarrow> bool" where
  "carry_saved env op \<longleftrightarrow>
    (op \<in> {CC_OP_INCB, CC_OP_INCW, CC_OP_INCL, CC_OP_INCQ, CC_OP_DECB, CC_OP_DECW, CC_OP_DECL, CC_OP_DECQ}
      \<longrightarrow> cc_src env \<in> {0, 1})"

lemma no_carry [simp]:
  "parity_of x AND 1 = 0" "zf_of n x AND 1 = 0" "sf_of n x AND 1 = 0"
  "(ucast ((y :: u64) AND 0x10) :: u32) AND 1 = 0" "(ucast ((y :: u64) AND 0x800) :: u32) AND 1 = 0"
  "(push_bit 11 (w :: u32)) AND 1 = 0" 
  by (simp_all add: parity_of_eq zf_of_def sf_of_def and_one_bit vx_bits)

lemma carry_bit [simp]:
  "(of_bool c :: u32) AND 1 = of_bool c"
  "(ucast ((y :: u64) AND 1) :: u32) AND 1 = ucast (y AND 1)"
  by (cases c) (simp_all add: and_one_bit vx_bits ucast_bool)

lemmas compute_all_defs = compute_all_eflags_def compute_all_mul_def compute_all_add_def
  compute_all_adc_def compute_all_sub_def compute_all_sbb_def compute_all_logic_def
  compute_all_inc_def compute_all_dec_def compute_all_shl_def compute_all_sar_def

lemmas compute_c_defs = compute_c_eflags_def compute_c_mul_def compute_c_add_def
  compute_c_adc_def compute_c_sub_def compute_c_sbb_def compute_c_logic_def
  compute_c_inc_def compute_c_shl_def compute_c_sar_def

lemma compute_c_bit:
  "compute_c_eflags env = compute_all_eflags env AND 1"
  "compute_c_mul env = compute_all_mul n env AND 1"
  "compute_c_add n env = compute_all_add n env AND 1"
  "compute_c_adc n env = compute_all_adc n env AND 1"
  "compute_c_sub n env = compute_all_sub n env AND 1"
  "compute_c_sbb n env = compute_all_sbb n env AND 1"
  "compute_c_logic = compute_all_logic n env AND 1"
  "compute_c_shl n env = compute_all_shl n env AND 1"
  "compute_c_sar env = compute_all_sar n env AND 1"
  by (simp_all add: compute_c_defs compute_all_defs Let_def bit.conj_disj_distrib2)
    (simp add: and_one_bit vx_bits ucast_bool)

lemma compute_c_inc_bit:
  assumes "cc_src env \<in> {0, 1}"
  shows "compute_c_inc env = compute_all_inc n env AND 1"
    and "compute_c_inc env = compute_all_dec n env AND 1"
  using assms by (auto simp: compute_c_defs compute_all_defs Let_def bit.conj_disj_distrib2)

text \<open>C14. For every condition code operation, the carry computed alone is bit 0 of the flags
  computed together, provided the carry saved by INC and DEC is a bit.\<close>

theorem cc_compute_c_correct:
  assumes "carry_saved env op"
  shows "helper_cc_compute_c env op = helper_cc_compute_all env op AND CC_C"
  using assms
  by (cases op) (simp_all only: helper_cc_compute_c_def helper_cc_compute_all_def cc_op_t.case
      compute_c_bit compute_c_inc_bit carry_saved_def insert_iff simp_thms, simp_all add: compute_c_inc_bit)


lemma cc_compute_c_witness:
  "helper_cc_compute_c zero_env CC_OP_INCL = helper_cc_compute_all zero_env CC_OP_INCL AND CC_C"
  using cc_compute_c_correct [of zero_env CC_OP_INCL]
  by (simp add: carry_saved_def zero_env_def)

subsection \<open>EFLAGS\<close>

text \<open>\<open>eflags\<close> holds neither the arithmetic flags nor DF: they live in \<open>cc_src\<close> and \<open>df\<close>.\<close>

definition eflags_split :: "cpu_state \<Rightarrow> bool" where
  "eflags_split env \<longleftrightarrow> eflags env AND (CC_ALL OR DF_MASK) = 0"

lemma df_mask_bit: "((1 :: u32) - 2 * (signed_drop_bit 10 w AND 1)) AND DF_MASK = w AND DF_MASK"
proof -
  have "(0x400 :: u32) = push_bit 10 1" by (simp add: push_bit_eq_mult)
  then have m: "w AND 0x400 = push_bit 10 (of_bool (bit w 10))"
    using and_bit_mask [of w 10] by simp
  have "signed_drop_bit 10 w AND 1 = of_bool (bit w 10)"
    unfolding and_one_bit by (simp add: bit_signed_drop_bit_iff)
  then show ?thesis unfolding m by simp
qed

lemma ucast_scast32: "(ucast (scast (w :: u32) :: u64) :: u32) = w"
  by (rule bit_word_eqI) (auto simp: bit_signed_iff vx_bits)

lemma ucast32_bitwise:
  "(ucast ((a :: u64) AND b) :: u32) = ucast a AND ucast b"
  "(ucast ((a :: u64) OR b) :: u32) = ucast a OR ucast b"
  by (rule bit_word_eqI; simp add: vx_bits)+

lemma flags_join: "((t :: u32) AND CC_ALL) OR (t AND DF_MASK) = t AND (CC_ALL OR DF_MASK)"
  by (simp add: bit.conj_disj_distrib [symmetric])

lemma not_vm_rf32: "(18446744073709355007 :: u32) = - 196609"
  by simp

lemma masked_split:
  fixes e t' m' n' k :: u64
  assumes "e AND k = 0" "m' AND k = 0" "t' = t'' AND m'"
  shows "((e AND n') OR t' OR z) AND k = z AND k"
proof -
  have "(e AND n') AND k = (e AND k) AND n'" "t' AND k = (m' AND k) AND t''"
    unfolding assms(3) by (simp_all only: and.assoc and.commute and.left_commute)
  then have "(e AND n') AND k = 0" "t' AND k = 0"
    unfolding assms(1,2) by simp_all
  then show ?thesis by (simp add: bit.conj_disj_distrib2)
qed

lemma scast32_and: "(scast ((a :: u32) AND b) :: u64) = scast a AND scast b"
  by (rule bit_word_eqI) (auto simp: bit_signed_iff vx_bits)

lemma scast_flags: "(m :: u32) AND (CC_ALL OR DF_MASK) = 0 \<Longrightarrow> (scast m :: u64) AND (CC_ALL OR DF_MASK) = 0"
  using scast32_and [of m "CC_ALL OR DF_MASK"] by simp

text \<open>C17. Writing EFLAGS and reading it back gives the arithmetic flags and DF of the written value
  whatever the mask, the other bits of the written value where the mask allows, the old ones elsewhere,
  bit 1 set, VM and RF cleared; and the split of EFLAGS over the three fields is kept.\<close>

theorem eflags_write_read:
  fixes env :: cpu_state and t0 :: target_ulong and m :: u32
  defines "env' \<equiv> (helper_write_eflags env t0 m)\<lparr>cc_op := CC_OP_EFLAGS\<rparr>"
  assumes "eflags_split env" "m AND (CC_ALL OR DF_MASK) = 0"
  shows "helper_read_eflags env' =
      ucast (((ucast t0 :: u32) AND (CC_ALL OR DF_MASK)) OR
        (((ucast (eflags env) AND NOT m) OR (ucast t0 AND m) OR 2) AND NOT (VM_MASK OR RF_MASK)))
    \<and> eflags_split env'"
  using masked_split [OF assms(2)[unfolded eflags_split_def] scast_flags [OF assms(3)] scast32_and,
      of "scast (NOT m)" "ucast t0" 2]
  unfolding env'_def
  by (simp add: helper_read_eflags_def helper_write_eflags_def cpu_load_eflags_def eflags_split_def
    helper_cc_compute_all_def compute_all_eflags_def ucast_scast32 df_mask_bit flags_join
    ucast32_bitwise not_vm_rf32 Let_def)


lemma eflags_write_read_witness:
  "helper_read_eflags ((helper_write_eflags zero_env 0x10ED5 0x200)\<lparr>cc_op := CC_OP_EFLAGS\<rparr>) = 0xED7"
  using eflags_write_read [of zero_env "0x200" "0x10ED5"]
  by (simp add: eflags_split_def zero_env_def)

end
