(* ===== verification/GuestMem.thy ===== *)
theory GuestMem
  imports CpuInline
begin

text \<open>
  The little-endian accessors of guest-physical memory the CPU helpers call (\<open>ldub_phys\<close>,
  \<open>ldl_phys\<close>, \<open>ldq_phys\<close>, \<open>stl_phys_notdirty\<close> of \<open>exec.c\<close>), over RAM: what lies
  behind an address that is not RAM (an I/O callback) is outside the model.
\<close>

definition ldub_phys :: "cpu_state \<Rightarrow> u64 \<Rightarrow> u8" where
  "ldub_phys env a = phys_mem env a"

definition ldl_phys :: "cpu_state \<Rightarrow> u64 \<Rightarrow> u32" where
  "ldl_phys env a =
    ucast (phys_mem env a) OR push_bit 8 (ucast (phys_mem env (a + 1)))
    OR push_bit 16 (ucast (phys_mem env (a + 2))) OR push_bit 24 (ucast (phys_mem env (a + 3)))"

definition ldq_phys :: "cpu_state \<Rightarrow> u64 \<Rightarrow> u64" where
  "ldq_phys env a = ucast (ldl_phys env a) OR push_bit 32 (ucast (ldl_phys env (a + 4)))"

definition stl_phys_notdirty :: "cpu_state \<Rightarrow> u64 \<Rightarrow> u32 \<Rightarrow> cpu_state" where
  "stl_phys_notdirty env a v =
    env\<lparr>phys_mem := (phys_mem env)(a := ucast v, a + 1 := ucast (drop_bit 8 v),
      a + 2 := ucast (drop_bit 16 v), a + 3 := ucast (drop_bit 24 v))\<rparr>"

definition stq_phys :: "cpu_state \<Rightarrow> u64 \<Rightarrow> u64 \<Rightarrow> cpu_state" where
  "stq_phys env a v =
    stl_phys_notdirty (stl_phys_notdirty env a (ucast v)) (a + 4) (ucast (drop_bit 32 v))"

lemma word_join32:
  "ucast (ucast (v :: u32) :: u8) OR push_bit 8 (ucast (ucast (drop_bit 8 v) :: u8))
    OR push_bit 16 (ucast (ucast (drop_bit 16 v) :: u8))
    OR push_bit 24 (ucast (ucast (drop_bit 24 v) :: u8)) = v"
proof (rule bit_word_eqI)
  fix n
  assume "n < LENGTH(32)"
  then consider "n < 8" | "8 \<le> n" "n < 16" | "16 \<le> n" "n < 24" | "24 \<le> n" "n < 32"
    by fastforce
  then show "bit (ucast (ucast v :: u8) OR push_bit 8 (ucast (ucast (drop_bit 8 v) :: u8))
      OR push_bit 16 (ucast (ucast (drop_bit 16 v) :: u8))
      OR push_bit 24 (ucast (ucast (drop_bit 24 v) :: u8)) :: u32) n = bit v n"
    by cases (auto simp: vx_bits)
qed

lemma ldl_stl_same [simp]: "ldl_phys (stl_phys_notdirty env a v) a = v"
  using word_join32 [of v] by (simp add: ldl_phys_def stl_phys_notdirty_def)

lemma stl_other [simp]:
  "b \<noteq> a \<Longrightarrow> b \<noteq> a + 1 \<Longrightarrow> b \<noteq> a + 2 \<Longrightarrow> b \<noteq> a + 3 \<Longrightarrow>
    phys_mem (stl_phys_notdirty env a v) b = phys_mem env b"
  by (simp add: stl_phys_notdirty_def)

end
