(* ===== verification/ExcpHelper.thy ===== *)
theory ExcpHelper
  imports GuestMem
begin

text \<open>
  \<open>target-i386/excp_helper.c\<close>: turning nested faults into double and triple faults and
  leaving the CPU loop with the exception recorded; with the SVM intercept check of
  \<open>svm_helper.c\<close> every exception passes first. \<open>helper_vmexit\<close> does not return and is
  not modelled: its call is the outcome \<open>VmExit\<close>.
\<close>

abbreviation (input) SVM_EXIT_READ_CR0 :: u32 where "SVM_EXIT_READ_CR0 \<equiv> 0x000"
abbreviation (input) SVM_EXIT_WRITE_CR0 :: u32 where "SVM_EXIT_WRITE_CR0 \<equiv> 0x010"
abbreviation (input) SVM_EXIT_READ_DR0 :: u32 where "SVM_EXIT_READ_DR0 \<equiv> 0x020"
abbreviation (input) SVM_EXIT_WRITE_DR0 :: u32 where "SVM_EXIT_WRITE_DR0 \<equiv> 0x030"
abbreviation (input) SVM_EXIT_EXCP_BASE :: u32 where "SVM_EXIT_EXCP_BASE \<equiv> 0x040"
abbreviation (input) SVM_EXIT_INTR :: u32 where "SVM_EXIT_INTR \<equiv> 0x060"
abbreviation (input) SVM_EXIT_RDTSC :: u32 where "SVM_EXIT_RDTSC \<equiv> 0x06e"
abbreviation (input) SVM_EXIT_RDPMC :: u32 where "SVM_EXIT_RDPMC \<equiv> 0x06f"
abbreviation (input) SVM_EXIT_CPUID :: u32 where "SVM_EXIT_CPUID \<equiv> 0x072"
abbreviation (input) SVM_EXIT_SWINT :: u32 where "SVM_EXIT_SWINT \<equiv> 0x075"
abbreviation (input) SVM_EXIT_HLT :: u32 where "SVM_EXIT_HLT \<equiv> 0x078"
abbreviation (input) SVM_EXIT_INVLPG :: u32 where "SVM_EXIT_INVLPG \<equiv> 0x079"
abbreviation (input) SVM_EXIT_MSR :: u32 where "SVM_EXIT_MSR \<equiv> 0x07c"
abbreviation (input) SVM_EXIT_SHUTDOWN :: u32 where "SVM_EXIT_SHUTDOWN \<equiv> 0x07f"
abbreviation (input) SVM_EXIT_MONITOR :: u32 where "SVM_EXIT_MONITOR \<equiv> 0x08a"
abbreviation (input) SVM_EXIT_MWAIT :: u32 where "SVM_EXIT_MWAIT \<equiv> 0x08b"

text \<open>\<open>offsetof(struct vmcb, control.msrpm_base_pa)\<close> of the packed structure.\<close>

abbreviation (input) MSRPM_BASE_PA_OFFSET :: u64 where "MSRPM_BASE_PA_OFFSET \<equiv> 0x48"

subsection \<open>The SVM intercept check\<close>

definition svm_bit :: "u32 \<Rightarrow> 'a::len word" where
  "svm_bit n = push_bit (unat n) 1"

text \<open>The position of an MSR in the permission map: byte \<open>t1\<close>, bit \<open>t0\<close>.\<close>

definition msrpm_position :: "u64 \<Rightarrow> (u32 \<times> u32) option" where
  "msrpm_position ecx =
    (let n = (ucast ecx :: u32) in
     if n \<le> 0x1fff then Some (ucast ((ecx * 2) mod 8), ucast ((ecx * 2) div 8))
     else if 0xc0000000 \<le> n \<and> n \<le> 0xc0001fff then
       (let t0 = ucast ((8192 + ecx - 0xc0000000) * 2) in Some (t0 mod 8, t0 div 8))
     else if 0xc0010000 \<le> n \<and> n \<le> 0xc0011fff then
       (let t0 = ucast ((16384 + ecx - 0xc0010000) * 2) in Some (t0 mod 8, t0 div 8))
     else None)"

definition msr_intercepted :: "cpu_state \<Rightarrow> u64 \<Rightarrow> bool" where
  "msr_intercepted env param =
    (let addr = ldq_phys env (vm_vmcb env + MSRPM_BASE_PA_OFFSET) in
     case msrpm_position (regs env R_ECX) of
       None \<Rightarrow> True
     | Some (t0, t1) \<Rightarrow>
         (ucast (ldub_phys env (addr + ucast t1)) :: u32)
           AND push_bit (unat t0) (push_bit (unat param) 1) \<noteq> 0)"

definition svm_intercepted :: "cpu_state \<Rightarrow> u32 \<Rightarrow> u64 \<Rightarrow> bool" where
  "svm_intercepted env type param =
    (if type \<le> SVM_EXIT_READ_CR0 + 8
     then intercept_cr_read env AND svm_bit (type - SVM_EXIT_READ_CR0) \<noteq> 0
     else if SVM_EXIT_WRITE_CR0 \<le> type \<and> type \<le> SVM_EXIT_WRITE_CR0 + 8
     then intercept_cr_write env AND svm_bit (type - SVM_EXIT_WRITE_CR0) \<noteq> 0
     else if SVM_EXIT_READ_DR0 \<le> type \<and> type \<le> SVM_EXIT_READ_DR0 + 7
     then intercept_dr_read env AND svm_bit (type - SVM_EXIT_READ_DR0) \<noteq> 0
     else if SVM_EXIT_WRITE_DR0 \<le> type \<and> type \<le> SVM_EXIT_WRITE_DR0 + 7
     then intercept_dr_write env AND svm_bit (type - SVM_EXIT_WRITE_DR0) \<noteq> 0
     else if SVM_EXIT_EXCP_BASE \<le> type \<and> type \<le> SVM_EXIT_EXCP_BASE + 31
     then intercept_exceptions env AND svm_bit (type - SVM_EXIT_EXCP_BASE) \<noteq> 0
     else if type = SVM_EXIT_MSR
     then intercept env AND svm_bit (SVM_EXIT_MSR - SVM_EXIT_INTR) \<noteq> 0
       \<and> msr_intercepted env param
     else intercept env AND svm_bit (type - SVM_EXIT_INTR) \<noteq> 0)"

definition helper_svm_check_intercept_param :: "cpu_state \<Rightarrow> u32 \<Rightarrow> u64 \<Rightarrow> cpu_state outcome" where
  "helper_svm_check_intercept_param env type param =
    (if hflags env AND HF_SVMI_MASK = 0 then Done env
     else if svm_intercepted env type param then VmExit type param env
     else Done env)"

definition cpu_svm_check_intercept_param :: "cpu_state \<Rightarrow> u32 \<Rightarrow> u64 \<Rightarrow> cpu_state outcome" where
  "cpu_svm_check_intercept_param env type param = helper_svm_check_intercept_param env type param"

subsection \<open>Raising\<close>

definition cpu_loop_exit :: "cpu_state \<Rightarrow> 'a outcome" where
  "cpu_loop_exit env = LoopExit (env\<lparr>current_tb := None\<rparr>)"

definition check_exception :: "cpu_state \<Rightarrow> int \<Rightarrow> u32 \<Rightarrow> (cpu_state \<times> int \<times> u32) outcome" where
  "check_exception env intno err =
    (let first_contributory = (old_exception env = 0 \<or> (old_exception env \<ge> 10 \<and> old_exception env \<le> 13));
         second_contributory = (intno = 0 \<or> (intno \<ge> 10 \<and> intno \<le> 13))
     in if old_exception env = EXCP08_DBLE then
          if hflags env AND HF_SVMI_MASK \<noteq> 0 then VmExit SVM_EXIT_SHUTDOWN 0 env
          else Done (env, EXCP_HLT, err)
        else
          (let (intno, err) =
             (if (first_contributory \<and> second_contributory)
                \<or> (old_exception env = EXCP0E_PAGE \<and> (second_contributory \<or> intno = EXCP0E_PAGE))
              then (EXCP08_DBLE, 0) else (intno, err));
               env = (if second_contributory \<or> intno = EXCP0E_PAGE \<or> intno = EXCP08_DBLE
                 then env\<lparr>old_exception := intno\<rparr> else env)
           in Done (env, intno, err)))"

definition bind_out :: "'a outcome \<Rightarrow> ('a \<Rightarrow> 'b outcome) \<Rightarrow> 'b outcome" where
  "bind_out r f = (case r of Done x \<Rightarrow> f x | LoopExit e \<Rightarrow> LoopExit e
    | VmExit c p e \<Rightarrow> VmExit c p e | Abort \<Rightarrow> Abort)"

definition raise_interrupt2 :: "cpu_state \<Rightarrow> int \<Rightarrow> bool \<Rightarrow> u32 \<Rightarrow> u32 \<Rightarrow> 'a outcome" where
  "raise_interrupt2 env intno is_int err next_eip_addend =
    bind_out
      (if \<not> is_int then
         bind_out (cpu_svm_check_intercept_param env (SVM_EXIT_EXCP_BASE + word_of_int intno) (scast err))
           (\<lambda>env. check_exception env intno err)
       else
         bind_out (cpu_svm_check_intercept_param env SVM_EXIT_SWINT 0)
           (\<lambda>env. Done (env, intno, err)))
      (\<lambda>(env, intno, err).
         cpu_loop_exit (env\<lparr>exception_index := intno, error_code := err,
           exception_is_int := of_bool is_int,
           exception_next_eip := eip env + scast next_eip_addend\<rparr>))"

definition raise_interrupt :: "cpu_state \<Rightarrow> int \<Rightarrow> bool \<Rightarrow> u32 \<Rightarrow> u32 \<Rightarrow> 'a outcome" where
  "raise_interrupt env intno is_int err next_eip_addend =
    raise_interrupt2 env intno is_int err next_eip_addend"

definition raise_exception_err :: "cpu_state \<Rightarrow> int \<Rightarrow> u32 \<Rightarrow> 'a outcome" where
  "raise_exception_err env excp err = raise_interrupt2 env excp False err 0"

definition raise_exception :: "cpu_state \<Rightarrow> int \<Rightarrow> 'a outcome" where
  "raise_exception env excp = raise_interrupt2 env excp False 0 0"

definition helper_raise_interrupt :: "cpu_state \<Rightarrow> int \<Rightarrow> u32 \<Rightarrow> 'a outcome" where
  "helper_raise_interrupt env intno next_eip_addend = raise_interrupt env intno True 0 next_eip_addend"

definition helper_raise_exception :: "cpu_state \<Rightarrow> int \<Rightarrow> 'a outcome" where
  "helper_raise_exception env excp = raise_exception env excp"

subsection \<open>The fault classes of the architecture\<close>

datatype fault_class = Benign | Contributory | Page_fault | Double_fault

definition contributory :: "int \<Rightarrow> bool" where
  "contributory i \<longleftrightarrow> i = 0 \<or> (i \<ge> 10 \<and> i \<le> 13)"

definition class_of :: "int \<Rightarrow> fault_class" where
  "class_of i = (if i = EXCP08_DBLE then Double_fault else if i = EXCP0E_PAGE then Page_fault
    else if contributory i then Contributory else Benign)"

text \<open>What the second of two faults becomes; \<open>None\<close> is shutdown.\<close>

fun combine :: "fault_class \<Rightarrow> fault_class \<Rightarrow> fault_class option" where
  "combine Double_fault _ = None"
| "combine Contributory Contributory = Some Double_fault"
| "combine Page_fault Contributory = Some Double_fault"
| "combine Page_fault Page_fault = Some Double_fault"
| "combine _ c = Some c"

lemma bind_out_simps [simp]:
  "bind_out (Done x) f = f x"
  "bind_out (LoopExit e) f = LoopExit e"
  "bind_out (VmExit c p e) f = VmExit c p e"
  "bind_out Abort f = Abort"
  by (simp_all add: bind_out_def)

lemma svm_off [simp]:
  "hflags env AND HF_SVMI_MASK = 0 \<Longrightarrow> cpu_svm_check_intercept_param env t p = Done env"
  by (simp add: cpu_svm_check_intercept_param_def helper_svm_check_intercept_param_def)

definition recorded :: "cpu_state \<Rightarrow> int \<Rightarrow> u32 \<Rightarrow> cpu_state" where
  "recorded env i err = env\<lparr>exception_index := i, error_code := err, exception_is_int := 0,
     exception_next_eip := eip env, current_tb := None\<rparr>"

definition after_fault :: "cpu_state \<Rightarrow> int \<Rightarrow> u32 \<Rightarrow> cpu_state \<times> int \<times> u32" where
  "after_fault env i err =
    (case combine (class_of (old_exception env)) (class_of i) of
       None \<Rightarrow> (env, EXCP_HLT, err)
     | Some Double_fault \<Rightarrow>
         (env\<lparr>old_exception := EXCP08_DBLE\<rparr>, EXCP08_DBLE, if i = EXCP08_DBLE then err else 0)
     | Some Benign \<Rightarrow> (env, i, err)
     | Some _ \<Rightarrow> (env\<lparr>old_exception := i\<rparr>, i, err))"

lemma contributory_literals [simp]: "contributory 0" "\<not> contributory 8" "\<not> contributory 14"
  by (simp_all add: contributory_def)

lemma check_exception_classes:
  assumes "hflags env AND HF_SVMI_MASK = 0"
  shows "check_exception env i err = Done (after_fault env i err)"
  unfolding check_exception_def after_fault_def class_of_def contributory_def [symmetric] Let_def
  using assms
  by (cases "old_exception env = 8"; cases "old_exception env = 14";
      cases "contributory (old_exception env)"; cases "contributory i"; cases "i = 14"; cases "i = 8")
    simp_all

lemma raise_exception_err_after:
  assumes "hflags env AND HF_SVMI_MASK = 0"
  shows "(raise_exception_err env i err :: 'a outcome) =
    (case after_fault env i err of (env', i', err') \<Rightarrow> LoopExit (recorded env' i' err'))"
  using assms
  by (simp add: raise_exception_err_def raise_interrupt2_def check_exception_classes
      cpu_loop_exit_def recorded_def split: prod.splits)

text \<open>C8. Without a guest hypervisor, raising a fault leaves the CPU loop with what the architecture's
  double-fault table prescribes for the previous and the new fault: shutdown (\<open>EXCP_HLT\<close>) after a
  double fault, a double fault with error code 0 where the classes combine, else the fault itself;
  and the previous-fault register follows, benign faults leaving it alone.\<close>

theorem raise_exception_classes:
  assumes "hflags env AND HF_SVMI_MASK = 0"
  shows "(raise_exception_err env i err :: 'a outcome) =
    (let (env', i', err') = after_fault env i err in LoopExit (recorded env' i' err'))"
  by (simp add: raise_exception_err_after [OF assms] Let_def)

lemma raise_exception_classes_witness:
  "(raise_exception_err (zero_env\<lparr>old_exception := 13\<rparr>) 11 7 :: unit outcome) =
    LoopExit (recorded (zero_env\<lparr>old_exception := 8\<rparr>) 8 0)"
  using raise_exception_classes [of "zero_env\<lparr>old_exception := 13\<rparr>" 11 7, where 'a = unit]
  by (simp add: after_fault_def class_of_def contributory_def zero_env_def)

text \<open>
  Faults one after another, none of them delivered in between: each is raised in the state in which the one before it
  left for the CPU loop. The result is that state after the last one.
\<close>

fun raise_all :: "(int \<times> u32) list \<Rightarrow> cpu_state \<Rightarrow> cpu_state option" where
  "raise_all [] env = Some env"
| "raise_all ((i, err) # fs) env =
    (case (raise_exception_err env i err :: unit outcome) of LoopExit env' \<Rightarrow> raise_all fs env' | _ \<Rightarrow> None)"

text \<open>
  Among the faults that count, the benign ones left out, one is a double fault, or two that follow each other combine
  to one.
\<close>

definition serious :: "(int \<times> u32) list \<Rightarrow> fault_class list" where
  "serious fs = filter (\<lambda>c. c \<noteq> Benign) (map (\<lambda>(i, err). class_of i) fs)"

definition escalates :: "fault_class list \<Rightarrow> bool" where
  "escalates cs \<longleftrightarrow> Double_fault \<in> set cs \<or> \<not> successively (\<lambda>c d. combine c d \<noteq> Some Double_fault) cs"

lemma escalates_simps:
  "\<not> escalates []" "escalates [c] \<longleftrightarrow> c = Double_fault"
  "escalates (c # d # cs) \<longleftrightarrow> c = Double_fault \<or> combine c d = Some Double_fault \<or> escalates (d # cs)"
  by (auto simp: escalates_def)

lemma class_of_simps [simp]: "class_of EXCP08_DBLE = Double_fault"
  by (simp add: class_of_def)

lemma combine_double: "combine c d = Some Double_fault \<Longrightarrow> c \<noteq> Double_fault \<and> d \<noteq> Benign"
  by (cases c; cases d) simp_all

text \<open>One more fault: what is reported, and what the previous fault then counts as.\<close>

lemma raise_class:
  assumes "hflags env AND HF_SVMI_MASK = 0"
  obtains env' where "(raise_exception_err env i err :: unit outcome) = LoopExit env'"
    "hflags env' AND HF_SVMI_MASK = 0"
    "exception_index env' = (case combine (class_of (old_exception env)) (class_of i) of
       None \<Rightarrow> EXCP_HLT | Some Double_fault \<Rightarrow> EXCP08_DBLE | Some _ \<Rightarrow> i)"
    "class_of (old_exception env') = (case combine (class_of (old_exception env)) (class_of i) of
       None \<Rightarrow> Double_fault | Some Benign \<Rightarrow> class_of (old_exception env) | Some c \<Rightarrow> c)"
proof -
  obtain env1 i' err' where a: "after_fault env i err = (env1, i', err')" by (metis prod_cases3)
  have k: "combine c d = Some x \<Longrightarrow> x \<noteq> Double_fault \<Longrightarrow> d = x" "combine c d = None \<Longrightarrow> c = Double_fault" for c d x
    by (cases c; cases d; simp)+
  show ?thesis
  proof (rule that [of "recorded env1 i' err'"])
    show "(raise_exception_err env i err :: unit outcome) = LoopExit (recorded env1 i' err')"
      by (simp add: raise_exception_err_after [OF assms] a)
    show "hflags (recorded env1 i' err') AND HF_SVMI_MASK = 0"
      using a assms by (auto simp: after_fault_def recorded_def split: option.splits fault_class.splits)
    show "exception_index (recorded env1 i' err') = (case combine (class_of (old_exception env)) (class_of i) of
       None \<Rightarrow> EXCP_HLT | Some Double_fault \<Rightarrow> EXCP08_DBLE | Some _ \<Rightarrow> i)"
      using a by (auto simp: after_fault_def recorded_def split: option.splits fault_class.splits)
    show "class_of (old_exception (recorded env1 i' err')) = (case combine (class_of (old_exception env)) (class_of i) of
       None \<Rightarrow> Double_fault | Some Benign \<Rightarrow> class_of (old_exception env) | Some c \<Rightarrow> c)"
      using a by (auto simp: after_fault_def recorded_def split: option.splits fault_class.splits dest: k)
  qed
qed

lemma raise_all_class:
  assumes "hflags env AND HF_SVMI_MASK = 0"
  shows "\<exists>env'. raise_all fs env = Some env' \<and> hflags env' AND HF_SVMI_MASK = 0 \<and>
    (class_of (old_exception env') = Double_fault \<longleftrightarrow>
      escalates ((if class_of (old_exception env) = Benign then [] else [class_of (old_exception env)]) @ serious fs))"
  using assms
proof (induction fs arbitrary: env)
  case Nil
  then show ?case by (simp add: serious_def escalates_simps)
next
  case (Cons f fs)
  obtain i err where f: "f = (i, err)" by (cases f)
  let ?c = "class_of (old_exception env)" and ?d = "class_of i"
  obtain env1 where e: "(raise_exception_err env i err :: unit outcome) = LoopExit env1"
    "hflags env1 AND HF_SVMI_MASK = 0"
    "class_of (old_exception env1) = (case combine ?c ?d of None \<Rightarrow> Double_fault | Some Benign \<Rightarrow> ?c | Some c \<Rightarrow> c)"
    by (rule raise_class [OF Cons.prems])
  obtain env' where e': "raise_all fs env1 = Some env'" "hflags env' AND HF_SVMI_MASK = 0"
    "class_of (old_exception env') = Double_fault \<longleftrightarrow>
      escalates ((if class_of (old_exception env1) = Benign then [] else [class_of (old_exception env1)]) @ serious fs)"
    using Cons.IH [OF e(2)] by blast
  have dbl: "escalates (Double_fault # cs)" for cs by (simp add: escalates_def)
  have "escalates ((if class_of (old_exception env1) = Benign then [] else [class_of (old_exception env1)]) @ serious fs) \<longleftrightarrow>
      escalates ((if ?c = Benign then [] else [?c]) @ serious (f # fs))"
    unfolding e(3) f by (cases ?c; cases ?d) (simp_all add: serious_def escalates_simps dbl)
  with e e' show ?case by (auto simp: f)
qed

text \<open>C9. The triple fault. Take any number of faults, none delivered before the next, with nothing serious pending
  at first and no guest hypervisor: every one of them leaves for the CPU loop, and the last is reported as shutdown
  (\<open>EXCP_HLT\<close>) exactly when the faults before it, whatever benign ones lie between, contain a double fault or two
  serious ones in succession that combine to one by the architecture's table.\<close>

theorem triple_fault_halts:
  assumes "hflags env AND HF_SVMI_MASK = 0" "class_of (old_exception env) = Benign" "k \<noteq> EXCP_HLT"
  shows "\<exists>env'. raise_all (fs @ [(k, err)]) env = Some env' \<and>
    (exception_index env' = EXCP_HLT \<longleftrightarrow> escalates (serious fs))"
proof -
  obtain env1 where e: "raise_all fs env = Some env1" "hflags env1 AND HF_SVMI_MASK = 0"
    "class_of (old_exception env1) = Double_fault \<longleftrightarrow> escalates (serious fs)"
    using raise_all_class [OF assms(1), of fs] assms(2) by auto
  obtain env' where e': "(raise_exception_err env1 k err :: unit outcome) = LoopExit env'"
    "exception_index env' = (case combine (class_of (old_exception env1)) (class_of k) of
       None \<Rightarrow> EXCP_HLT | Some Double_fault \<Rightarrow> EXCP08_DBLE | Some _ \<Rightarrow> k)"
    by (rule raise_class [OF e(2)])
  have "raise_all (fs @ [(k, err)]) env = Some env'"
    using e(1) e'(1) by (induction fs arbitrary: env) (auto split: outcome.splits)
  moreover have "combine c d = None \<longleftrightarrow> c = Double_fault" for c d by (cases c; cases d) simp_all
  then have "exception_index env' = EXCP_HLT \<longleftrightarrow> class_of (old_exception env1) = Double_fault"
    unfolding e'(2) using assms(3) by (auto split: option.splits fault_class.splits)
  ultimately show ?thesis using e(3) by blast
qed

text \<open>A page fault, an invalid opcode, a general protection fault while the page fault is handled, and a divide error.\<close>

lemma triple_fault_halts_witness:
  "\<exists>env'. raise_all [(14, 2), (6, 0), (13, 8), (0, 0)] (zero_env\<lparr>old_exception := - 1\<rparr>) = Some env' \<and>
    exception_index env' = EXCP_HLT"
  using triple_fault_halts [of "zero_env\<lparr>old_exception := - 1\<rparr>" 0 "[(14, 2), (6, 0), (13, 8)]" 0]
  by (simp add: escalates_def serious_def class_of_def contributory_def zero_env_def)

end
