(* ===== verification/IntHelper.thy ===== *)
theory IntHelper
  imports ExcpHelper CondCodes HostUtils "HOL-Library.Signed_Division"
begin

text \<open>
  \<open>target-i386/int_helper.c\<close> and \<open>shift_helper_template.h\<close>: division, decimal
  adjustment, 64-bit multiplication, bit scans and the rotates through carry. A C division the
  host traps (by zero in \<open>helper_aam\<close>, or of the least integer by \<open>-1\<close>) is the outcome
  \<open>Abort\<close>; the scans loop until they find a bit and are partial functions.
\<close>

abbreviation (input) low16_off :: "target_ulong \<Rightarrow> target_ulong" where
  "low16_off x \<equiv> x AND NOT 0xFFFF"

subsection \<open>Division of 8, 16 and 32 bit operands\<close>

definition helper_divb_AL :: "cpu_state \<Rightarrow> target_ulong \<Rightarrow> cpu_state outcome" where
  "helper_divb_AL env t0 =
    (let num = (ucast (regs env R_EAX AND 0xffff) :: u32); den = (ucast (t0 AND 0xff) :: u32)
     in if den = 0 then raise_exception env EXCP00_DIVZ
        else let q = num div den
             in if q > 0xff then raise_exception env EXCP00_DIVZ
                else let q = q AND 0xff; r = (num mod den) AND 0xff
                     in Done (set_reg R_EAX (low16_off (regs env R_EAX) OR ucast (push_bit 8 r) OR ucast q) env))"

definition helper_idivb_AL :: "cpu_state \<Rightarrow> target_ulong \<Rightarrow> cpu_state outcome" where
  "helper_idivb_AL env t0 =
    (let num = sint (ucast (regs env R_EAX) :: u16); den = sint (ucast t0 :: u8)
     in if den = 0 then raise_exception env EXCP00_DIVZ
        else let q = num sdiv den
             in if q \<noteq> signed_take_bit 7 q then raise_exception env EXCP00_DIVZ
                else let q = (word_of_int q :: u32) AND 0xff; r = (word_of_int (num smod den) :: u32) AND 0xff
                     in Done (set_reg R_EAX (low16_off (regs env R_EAX) OR ucast (push_bit 8 r) OR ucast q) env))"

definition dx_ax :: "cpu_state \<Rightarrow> u32" where
  "dx_ax env = ucast ((regs env R_EAX AND 0xffff) OR push_bit 16 (regs env R_EDX AND 0xffff))"

definition helper_divw_AX :: "cpu_state \<Rightarrow> target_ulong \<Rightarrow> cpu_state outcome" where
  "helper_divw_AX env t0 =
    (let num = dx_ax env; den = (ucast (t0 AND 0xffff) :: u32)
     in if den = 0 then raise_exception env EXCP00_DIVZ
        else let q = num div den
             in if q > 0xffff then raise_exception env EXCP00_DIVZ
                else let q = q AND 0xffff; r = (num mod den) AND 0xffff;
                         env = set_reg R_EAX (low16_off (regs env R_EAX) OR ucast q) env
                     in Done (set_reg R_EDX (low16_off (regs env R_EDX) OR ucast r) env))"

definition helper_idivw_AX :: "cpu_state \<Rightarrow> target_ulong \<Rightarrow> cpu_state outcome" where
  "helper_idivw_AX env t0 =
    (let num = sint (dx_ax env); den = sint (ucast t0 :: u16)
     in if den = 0 then raise_exception env EXCP00_DIVZ
        else if num = - (2 ^ 31) \<and> den = - 1 then Abort
        else let q = num sdiv den
             in if q \<noteq> signed_take_bit 15 q then raise_exception env EXCP00_DIVZ
                else let q = (word_of_int q :: u32) AND 0xffff; r = (word_of_int (num smod den) :: u32) AND 0xffff;
                         env = set_reg R_EAX (low16_off (regs env R_EAX) OR ucast q) env
                     in Done (set_reg R_EDX (low16_off (regs env R_EDX) OR ucast r) env))"

definition edx_eax :: "cpu_state \<Rightarrow> u64" where
  "edx_eax env = ucast (ucast (regs env R_EAX) :: u32) OR push_bit 32 (ucast (ucast (regs env R_EDX) :: u32))"

definition helper_divl_EAX :: "cpu_state \<Rightarrow> target_ulong \<Rightarrow> cpu_state outcome" where
  "helper_divl_EAX env t0 =
    (let num = edx_eax env; den = (ucast t0 :: u32)
     in if den = 0 then raise_exception env EXCP00_DIVZ
        else let q = num div ucast den; r = (ucast (num mod ucast den) :: u32)
             in if q > 0xffffffff then raise_exception env EXCP00_DIVZ
                else let env = set_reg R_EAX (ucast (ucast q :: u32)) env
                     in Done (set_reg R_EDX (ucast r) env))"

definition helper_idivl_EAX :: "cpu_state \<Rightarrow> target_ulong \<Rightarrow> cpu_state outcome" where
  "helper_idivl_EAX env t0 =
    (let num = sint (edx_eax env); den = sint (ucast t0 :: u32)
     in if den = 0 then raise_exception env EXCP00_DIVZ
        else if num = - (2 ^ 63) \<and> den = - 1 then Abort
        else let q = num sdiv den; r = (word_of_int (num smod den) :: u32)
             in if q \<noteq> signed_take_bit 31 q then raise_exception env EXCP00_DIVZ
                else let env = set_reg R_EAX (ucast (word_of_int q :: u32)) env
                     in Done (set_reg R_EDX (ucast r) env))"

subsection \<open>Decimal adjustment\<close>

text \<open>Byte-sized values held in C \<open>int\<close> variables are 32-bit words.\<close>

definition al_of :: "cpu_state \<Rightarrow> u32" where
  "al_of env = ucast (regs env R_EAX AND 0xff)"

definition ah_of :: "cpu_state \<Rightarrow> u32" where
  "ah_of env = ucast (drop_bit 8 (regs env R_EAX) AND 0xff)"

definition helper_aam :: "cpu_state \<Rightarrow> u32 \<Rightarrow> cpu_state outcome" where
  "helper_aam env base =
    (if base = 0 then Abort
     else let al = sint (al_of env); ah = (word_of_int (al sdiv sint base) :: u32);
              al = (word_of_int (al smod sint base) :: u32);
              env = set_reg R_EAX (low16_off (regs env R_EAX) OR scast al OR scast (push_bit 8 ah)) env
          in Done (env\<lparr>cc_dst := scast al\<rparr>))"

definition helper_aad :: "cpu_state \<Rightarrow> u32 \<Rightarrow> cpu_state" where
  "helper_aad env base =
    (let al = ((ah_of env * base) + al_of env) AND 0xff;
         env = set_reg R_EAX (low16_off (regs env R_EAX) OR scast al) env
     in env\<lparr>cc_dst := scast al\<rparr>)"

definition helper_aaa :: "cpu_state \<Rightarrow> cpu_state" where
  "helper_aaa env =
    (let fl = cpu_cc_compute_all env (cc_op env);
         af = fl AND CC_A; al = al_of env; ah = ah_of env;
         icarry = (of_bool (al > 0xf9) :: u32);
         (al, ah, fl) =
           (if al AND 0x0f > 9 \<or> af \<noteq> 0
            then ((al + 6) AND 0x0f, (ah + 1 + icarry) AND 0xff, fl OR (CC_C OR CC_A))
            else (al AND 0x0f, ah, fl AND NOT (CC_C OR CC_A)));
         env = set_reg R_EAX (low16_off (regs env R_EAX) OR scast al OR scast (push_bit 8 ah)) env
     in env\<lparr>cc_src := scast fl\<rparr>)"

definition helper_aas :: "cpu_state \<Rightarrow> cpu_state" where
  "helper_aas env =
    (let fl = cpu_cc_compute_all env (cc_op env);
         af = fl AND CC_A; al = al_of env; ah = ah_of env;
         icarry = (of_bool (al < 6) :: u32);
         (al, ah, fl) =
           (if al AND 0x0f > 9 \<or> af \<noteq> 0
            then ((al - 6) AND 0x0f, (ah - 1 - icarry) AND 0xff, fl OR (CC_C OR CC_A))
            else (al AND 0x0f, ah, fl AND NOT (CC_C OR CC_A)));
         env = set_reg R_EAX (low16_off (regs env R_EAX) OR scast al OR scast (push_bit 8 ah)) env
     in env\<lparr>cc_src := scast fl\<rparr>)"

definition szp_flags :: "u32 \<Rightarrow> u32" where
  "szp_flags al = push_bit 6 (of_bool (al = 0)) OR parity_table ! unat al OR (al AND 0x80)"

text \<open>The two adjustments: the new AL and the flags AF and CF.\<close>

definition daa_adjust :: "u32 \<Rightarrow> bool \<Rightarrow> bool \<Rightarrow> u32 \<times> u32" where
  "daa_adjust old_al af cf =
    (let al = old_al; fl = 0;
         (al, fl) = (if al AND 0x0f > 9 \<or> af then ((al + 6) AND 0xff, fl OR CC_A) else (al, fl))
     in if old_al > 0x99 \<or> cf then ((al + 0x60) AND 0xff, fl OR CC_C) else (al, fl))"

definition helper_daa :: "cpu_state \<Rightarrow> cpu_state" where
  "helper_daa env =
    (let fl = cpu_cc_compute_all env (cc_op env);
         cf = fl AND CC_C; af = fl AND CC_A;
         (al, fl) = daa_adjust (al_of env) (af \<noteq> 0) (cf \<noteq> 0);
         env = set_reg R_EAX ((regs env R_EAX AND NOT 0xff) OR scast al) env
     in env\<lparr>cc_src := scast (fl OR szp_flags al)\<rparr>)"

definition helper_das :: "cpu_state \<Rightarrow> cpu_state" where
  "helper_das env =
    (let fl = cpu_cc_compute_all env (cc_op env);
         cf = fl AND CC_C; af = fl AND CC_A; al = al_of env; fl = 0; al1 = al;
         (al, fl) =
           (if al AND 0x0f > 9 \<or> af \<noteq> 0
            then let fl = fl OR CC_A; fl = (if al < 6 \<or> cf \<noteq> 0 then fl OR CC_C else fl)
                 in ((al - 6) AND 0xff, fl)
            else (al, fl));
         (al, fl) = (if al1 > 0x99 \<or> cf \<noteq> 0 then ((al - 0x60) AND 0xff, fl OR CC_C) else (al, fl));
         env = set_reg R_EAX ((regs env R_EAX AND NOT 0xff) OR scast al) env
     in env\<lparr>cc_src := scast (fl OR szp_flags al)\<rparr>)"

subsection \<open>Division of 128 bit operands\<close>

text \<open>The pair \<open>(low, high)\<close> is what \<open>*plow\<close> and \<open>*phigh\<close> hold.\<close>

definition add128 :: "u64 \<times> u64 \<Rightarrow> u64 \<Rightarrow> u64 \<Rightarrow> u64 \<times> u64" where
  "add128 lh a b =
    (let (low, high) = lh; low = low + a; high = (if low < a then high + 1 else high)
     in (low, high + b))"

definition neg128 :: "u64 \<times> u64 \<Rightarrow> u64 \<times> u64" where
  "neg128 lh = (let (low, high) = lh in add128 (NOT low, NOT high) 1 0)"

definition div64_step :: "u64 \<Rightarrow> u64 \<times> u64 \<Rightarrow> u64 \<times> u64" where
  "div64_step b s =
    (let (a0, a1) = s;
         ab = drop_bit 63 a1;
         a1 = push_bit 1 a1 OR drop_bit 63 a0;
         (a1, qb) = (if ab \<noteq> 0 \<or> a1 \<ge> b then (a1 - b, 1) else (a1, 0))
     in (push_bit 1 a0 OR qb, a1))"

text \<open>\<open>i\<close> rounds of the loop.\<close>

primrec div64_loop :: "u64 \<Rightarrow> nat \<Rightarrow> u64 \<times> u64 \<Rightarrow> u64 \<times> u64" where
  "div64_loop b 0 s = s"
| "div64_loop b (Suc i) s = div64_step b (div64_loop b i s)"

definition div64 :: "u64 \<times> u64 \<Rightarrow> u64 \<Rightarrow> (u64 \<times> u64) option" where
  "div64 lh b =
    (let (a0, a1) = lh
     in if a1 = 0 then Some (a0 div b, a0 mod b)
        else if a1 \<ge> b then None
        else Some (div64_loop b 64 (a0, a1)))"

definition idiv64 :: "u64 \<times> u64 \<Rightarrow> u64 \<Rightarrow> (u64 \<times> u64) option" where
  "idiv64 lh b =
    (let sa = (snd lh <s 0);
         lh = (if sa then neg128 lh else lh);
         sb = (b <s 0);
         b = (if sb then - b else b)
     in case div64 lh b of
          None \<Rightarrow> None
        | Some (low, high) \<Rightarrow>
            if sa \<noteq> sb then
              if low > push_bit 63 1 then None
              else Some (- low, if sa then - high else high)
            else
              if low \<ge> push_bit 63 1 then None
              else Some (low, if sa then - high else high))"

definition helper_mulq_EAX_T0 :: "cpu_state \<Rightarrow> target_ulong \<Rightarrow> cpu_state" where
  "helper_mulq_EAX_T0 env t0 =
    (let (r0, r1) = mulu64 (regs env R_EAX) t0
     in (set_reg R_EDX r1 (set_reg R_EAX r0 env))\<lparr>cc_dst := r0, cc_src := r1\<rparr>)"

definition helper_imulq_EAX_T0 :: "cpu_state \<Rightarrow> target_ulong \<Rightarrow> cpu_state" where
  "helper_imulq_EAX_T0 env t0 =
    (let (r0, r1) = muls64 (regs env R_EAX) t0
     in (set_reg R_EDX r1 (set_reg R_EAX r0 env))
          \<lparr>cc_dst := r0, cc_src := of_bool (r1 \<noteq> signed_drop_bit 63 r0)\<rparr>)"

definition helper_imulq_T0_T1 :: "cpu_state \<Rightarrow> target_ulong \<Rightarrow> target_ulong \<Rightarrow> target_ulong \<times> cpu_state" where
  "helper_imulq_T0_T1 env t0 t1 =
    (let (r0, r1) = muls64 t0 t1
     in (r0, env\<lparr>cc_dst := r0, cc_src := of_bool (r1 \<noteq> signed_drop_bit 63 r0)\<rparr>))"

definition helper_divq_EAX :: "cpu_state \<Rightarrow> target_ulong \<Rightarrow> cpu_state outcome" where
  "helper_divq_EAX env t0 =
    (if t0 = 0 then raise_exception env EXCP00_DIVZ
     else case div64 (regs env R_EAX, regs env R_EDX) t0 of
       None \<Rightarrow> raise_exception env EXCP00_DIVZ
     | Some (r0, r1) \<Rightarrow> Done (set_reg R_EDX r1 (set_reg R_EAX r0 env)))"

definition helper_idivq_EAX :: "cpu_state \<Rightarrow> target_ulong \<Rightarrow> cpu_state outcome" where
  "helper_idivq_EAX env t0 =
    (if t0 = 0 then raise_exception env EXCP00_DIVZ
     else case idiv64 (regs env R_EAX, regs env R_EDX) t0 of
       None \<Rightarrow> raise_exception env EXCP00_DIVZ
     | Some (r0, r1) \<Rightarrow> Done (set_reg R_EDX r1 (set_reg R_EAX r0 env)))"

subsection \<open>Bit scans\<close>

partial_function (option) bsf_loop :: "target_ulong \<Rightarrow> int \<Rightarrow> int option" where
  "bsf_loop res count =
    (if res AND 1 = 0 then bsf_loop (drop_bit 1 res) (count + 1) else Some count)"

definition helper_bsf :: "target_ulong \<Rightarrow> target_ulong option" where
  "helper_bsf t0 = map_option word_of_int (bsf_loop t0 0)"

partial_function (option) lzcnt_loop :: "target_ulong \<Rightarrow> int \<Rightarrow> int option" where
  "lzcnt_loop res count =
    (if res AND push_bit 63 1 = 0 then lzcnt_loop (push_bit 1 res) (count - 1) else Some count)"

definition helper_lzcnt :: "target_ulong \<Rightarrow> int \<Rightarrow> target_ulong option" where
  "helper_lzcnt t0 wordsize =
    (if wordsize > 0 \<and> t0 = 0 then Some (word_of_int wordsize)
     else map_option (\<lambda>count. word_of_int (if wordsize > 0 then wordsize - 1 - count else count))
            (lzcnt_loop t0 63))"

definition helper_bsr :: "target_ulong \<Rightarrow> target_ulong option" where
  "helper_bsr t0 = helper_lzcnt t0 0"

subsection \<open>Rotates through carry\<close>

definition rclb_table :: "nat list" where
  "rclb_table =
    [0, 1, 2, 3, 4, 5, 6, 7,
     8, 0, 1, 2, 3, 4, 5, 6,
     7, 8, 0, 1, 2, 3, 4, 5,
     6, 7, 8, 0, 1, 2, 3, 4]"

definition rclw_table :: "nat list" where
  "rclw_table =
    [0, 1, 2, 3, 4, 5, 6, 7,
     8, 9, 10, 11, 12, 13, 14, 15,
     16, 0, 1, 2, 3, 4, 5, 6,
     7, 8, 9, 10, 11, 12, 13, 14]"

definition rotate_count :: "nat \<Rightarrow> target_ulong \<Rightarrow> nat" where
  "rotate_count bits t1 =
    (let count = unat (t1 AND (if bits \<le> 32 then 0x1f else 0x3f))
     in if bits = 16 then rclw_table ! count
        else if bits = 8 then rclb_table ! count else count)"

definition rotate_flags :: "nat \<Rightarrow> u32 \<Rightarrow> target_ulong \<Rightarrow> target_ulong \<Rightarrow> target_ulong \<Rightarrow> target_ulong" where
  "rotate_flags bits fl src t0 out =
    scast (fl AND NOT (CC_C OR CC_O)) OR (lshift (src XOR t0) (11 - (int bits - 1)) AND CC_O) OR (out AND CC_C)"

definition rcl_value :: "nat \<Rightarrow> nat \<Rightarrow> target_ulong \<Rightarrow> target_ulong \<Rightarrow> target_ulong" where
  "rcl_value bits count cf t0 =
    (let res = push_bit count t0 OR push_bit (count - 1) cf
     in if count > 1 then res OR drop_bit (bits + 1 - count) t0 else res)"

definition helper_rcl :: "nat \<Rightarrow> cpu_state \<Rightarrow> target_ulong \<Rightarrow> target_ulong \<Rightarrow> target_ulong \<times> cpu_state" where
  "helper_rcl bits env t0 t1 =
    (let count = rotate_count bits t1
     in if count \<noteq> 0 then
          let fl = helper_cc_compute_all env (cc_op env);
              src = t0 AND mask bits;
              t0 = rcl_value bits count (scast (fl AND CC_C)) src
          in (t0, env\<lparr>cc_tmp := rotate_flags bits fl src t0 (drop_bit (bits - count) src)\<rparr>)
        else (t0, env\<lparr>cc_tmp := -1\<rparr>))"

definition rcr_value :: "nat \<Rightarrow> nat \<Rightarrow> target_ulong \<Rightarrow> target_ulong \<Rightarrow> target_ulong" where
  "rcr_value bits count cf t0 =
    (let res = drop_bit count t0 OR push_bit (bits - count) cf
     in if count > 1 then res OR push_bit (bits + 1 - count) t0 else res)"

definition helper_rcr :: "nat \<Rightarrow> cpu_state \<Rightarrow> target_ulong \<Rightarrow> target_ulong \<Rightarrow> target_ulong \<times> cpu_state" where
  "helper_rcr bits env t0 t1 =
    (let count = rotate_count bits t1
     in if count \<noteq> 0 then
          let fl = helper_cc_compute_all env (cc_op env);
              src = t0 AND mask bits;
              t0 = rcr_value bits count (scast (fl AND CC_C)) src
          in (t0, env\<lparr>cc_tmp := rotate_flags bits fl src t0 (drop_bit (count - 1) src)\<rparr>)
        else (t0, env\<lparr>cc_tmp := -1\<rparr>))"

subsection \<open>The 128 by 64 bit division\<close>

definition join128 :: "u64 \<times> u64 \<Rightarrow> int" where
  "join128 lh = uint (snd lh) * 2 ^ 64 + uint (fst lh)"

lemma uint_double_or: "uint (push_bit 1 (x :: u64) OR of_bool t) = (2 * uint x + of_bool t) mod 2 ^ 64"
proof -
  have "push_bit 1 x OR of_bool t = push_bit 1 x + of_bool t"
  proof (rule disjunctive_add [symmetric])
    fix n
    have "\<not> bit (push_bit 1 x) n \<or> 0 < n" by (simp only: bit_push_bit_iff) auto
    moreover have "\<not> bit (of_bool t :: u64) n \<or> n = 0" by (auto simp: bit_1_iff)
    ultimately show "\<not> bit (push_bit 1 x) n \<or> \<not> bit (of_bool t :: u64) n" by blast
  qed
  also have "\<dots> = word_of_int (2 * uint x + of_bool t)"
    by (cases t) (simp_all add: push_bit_eq_mult)
  finally have e: "push_bit 1 x OR of_bool t = word_of_int (2 * uint x + of_bool t)" .
  show ?thesis unfolding e uint_word_of_int by simp
qed

lemma top_bit_uint: "(drop_bit 63 (x :: u64)) = of_bool (2 ^ 63 \<le> uint x)"
proof (rule word_uint_eqI)
  show "uint (drop_bit 63 x) = uint (of_bool (2 ^ 63 \<le> uint x) :: u64)"
    using int_div_once [of "uint x" "2 ^ 63"] u64_bounds [of x]
    by (simp add: uint_drop_bit_word)
qed

lemma double_mod:
  fixes x :: int
  assumes "0 \<le> x" "x < 2 ^ 64"
  shows "(2 * x + of_bool t) mod 2 ^ 64 = 2 * x + of_bool t - 2 ^ 64 * of_bool (2 ^ 63 \<le> x)"
  using int_mod_once [of "2 * x + of_bool t" "2 ^ 64"] assms by (cases t) auto

lemma div64_step_arith:
  fixes h b l :: int
  assumes h: "0 \<le> h" "h < b" "b < 2 ^ 64" and l: "0 \<le> l" "l < 2 ^ 64"
  defines "t \<equiv> of_bool (2 ^ 63 \<le> l)"
  defines "d \<equiv> (2 * h + t) mod 2 ^ 64"
  defines "g \<equiv> 2 ^ 63 \<le> h \<or> b \<le> d"
  defines "h' \<equiv> (if g then (d - b) mod 2 ^ 64 else d)"
  defines "l' \<equiv> (2 * l + of_bool g) mod 2 ^ 64"
  shows "h' < b \<and> h' * 2 ^ 64 + l' = 2 * (h * 2 ^ 64 + l) - of_bool g * (b * 2 ^ 64) + of_bool g"
proof -
  have d: "d = 2 * h + t - 2 ^ 64 * of_bool (2 ^ 63 \<le> h)"
    unfolding d_def t_def using h by (intro double_mod) auto
  have l': "l' = 2 * l + of_bool g - 2 ^ 64 * t"
    unfolding l'_def t_def using l by (intro double_mod) auto
  have t: "0 \<le> t" "t \<le> 1" by (simp_all add: t_def)
  have h': "h' = 2 * h + t - of_bool g * b"
  proof (cases g)
    case True
    have "d - b = (2 * h + t - b) + (- of_bool (2 ^ 63 \<le> h)) * 2 ^ 64"
      unfolding d by (simp add: algebra_simps)
    then have "(d - b) mod 2 ^ 64 = (2 * h + t - b) mod 2 ^ 64"
      by (simp only: mod_mult_self1)
    also have "\<dots> = 2 * h + t - b"
      using True h t d unfolding g_def
      by (cases "2 ^ 63 \<le> h"; intro mod_pos_pos_trivial) auto
    finally show ?thesis using True by (simp add: h'_def)
  next
    case False
    then have "h' = d" "\<not> 2 ^ 63 \<le> h" by (simp_all add: h'_def g_def)
    with d False show ?thesis by simp
  qed
  have "h' < b"
    using h t d unfolding h' by (cases "2 ^ 63 \<le> h"; cases g) (auto simp: g_def)
  then show ?thesis
    unfolding h' l' by (simp add: algebra_simps)
qed

lemma div64_step_value:
  assumes "uint h < uint b" "div64_step b (l, h) = (l', h')"
  shows "uint h' < uint b \<and> (\<exists>q \<in> {0, 1}. join128 (l', h') = 2 * join128 (l, h) - q * (uint b * 2 ^ 64) + q)"
proof -
  define t where "t = (2 ^ 63 \<le> uint l)"
  define a1 where "a1 = push_bit 1 h OR of_bool t"
  define g where "g = (2 ^ 63 \<le> uint h \<or> b \<le> a1)"
  have ua1: "uint a1 = (2 * uint h + of_bool t) mod 2 ^ 64"
    unfolding a1_def by (rule uint_double_or)
  have s: "l' = push_bit 1 l OR of_bool g" "h' = (if g then a1 - b else a1)"
    using assms(2) by (auto simp: div64_step_def top_bit_uint Let_def g_def a1_def t_def split: if_splits)
  have g: "g = (2 ^ 63 \<le> uint h \<or> uint b \<le> (2 * uint h + of_bool t) mod 2 ^ 64)"
    by (simp only: g_def word_le_def ua1)
  have h': "uint h' = (if g then (uint a1 - uint b) mod 2 ^ 64 else uint a1)"
    unfolding s by (simp add: uint_word_ariths)
  have l': "uint l' = (2 * uint l + of_bool g) mod 2 ^ 64"
    unfolding s by (rule uint_double_or)
  have "uint h' < uint b \<and> uint h' * 2 ^ 64 + uint l' =
      2 * (uint h * 2 ^ 64 + uint l) - of_bool g * (uint b * 2 ^ 64) + of_bool g"
    unfolding h' l' ua1 g t_def
    by (rule div64_step_arith) (use assms(1) u64_bounds [of h] u64_bounds [of l] u64_bounds [of b] in simp_all)
  then show ?thesis
    unfolding join128_def fst_conv snd_conv by (intro conjI bexI [of _ "of_bool g"]) auto
qed

text \<open>After \<open>k\<close> steps the pair holds \<open>2^k\<close> times the dividend less the subtracted multiples.\<close>

lemma div64_steps:
  assumes "uint h < uint b"
  shows "\<exists>q. 0 \<le> q \<and> q < 2 ^ k \<and> uint (snd (div64_loop b k (l, h))) < uint b \<and>
    join128 (div64_loop b k (l, h)) = 2 ^ k * join128 (l, h) - q * (uint b * 2 ^ 64 - 1)"
proof (induction k)
  case 0
  with assms show ?case by (intro exI [of _ 0]) simp
next
  case (Suc k)
  obtain l1 h1 where s: "div64_loop b k (l, h) = (l1, h1)" by fastforce
  obtain l2 h2 where s2: "div64_step b (l1, h1) = (l2, h2)" by fastforce
  from Suc obtain q where q: "0 \<le> q" "q < 2 ^ k" "uint h1 < uint b"
      "join128 (l1, h1) = 2 ^ k * join128 (l, h) - q * (uint b * 2 ^ 64 - 1)"
    by (auto simp: s)
  from div64_step_value [OF q(3) s2] obtain p where p: "p \<in> {0, 1}" "uint h2 < uint b"
      "join128 (l2, h2) = 2 * join128 (l1, h1) - p * (uint b * 2 ^ 64) + p"
    by blast
  have "join128 (l2, h2) = 2 ^ Suc k * join128 (l, h) - (2 * q + p) * (uint b * 2 ^ 64 - 1)"
    unfolding p(3) q(4) by (simp add: algebra_simps)
  moreover have "0 \<le> 2 * q + p" "2 * q + p < 2 ^ Suc k"
    using q p(1) by auto
  ultimately show ?case
    using p(2) by (intro exI [of _ "2 * q + p"]) (simp add: s s2)
qed

lemma split_digits:
  fixes x q V b :: int
  assumes "h * 2 ^ 64 + l = 2 ^ 64 * V - q * (b * 2 ^ 64 - 1)"
    and "0 \<le> l" "l < 2 ^ 64" "0 \<le> q" "q < 2 ^ 64"
  shows "l = q \<and> h = V - q * b"
proof -
  have e: "l - q = 2 ^ 64 * (V - q * b - h)"
    using assms(1) by (simp add: algebra_simps)
  have "\<bar>l - q\<bar> < 2 ^ 64" using assms by auto
  then have "V - q * b - h = 0"
    unfolding e by (simp add: abs_mult)
  then show ?thesis using e by simp
qed

lemma int_le_div:
  fixes a b x :: int
  assumes "0 < b"
  shows "a \<le> x div b \<longleftrightarrow> a * b \<le> x"
proof
  assume "a \<le> x div b"
  then have "a * b \<le> x div b * b" using assms by (intro mult_right_mono) auto
  also have "\<dots> \<le> x" using assms pos_mod_sign [of b x] div_mult_mod_eq [of x b] by linarith
  finally show "a * b \<le> x" .
next
  assume "a * b \<le> x"
  then have "(a * b) div b \<le> x div b" using assms by (intro zdiv_mono1) auto
  then show "a \<le> x div b" using assms by simp
qed

lemma div64_loop_correct:
  assumes lt: "uint h < uint b" and res: "div64_loop b 64 (l, h) = (q, r)"
  shows "uint q = join128 (l, h) div uint b \<and> uint r = join128 (l, h) mod uint b"
proof -
  obtain k where k: "0 \<le> k" "k < 2 ^ 64" "uint r < uint b"
      "join128 (q, r) = 2 ^ 64 * join128 (l, h) - k * (uint b * 2 ^ 64 - 1)"
    using div64_steps [OF lt, of 64 l] unfolding res by (simp only: snd_conv) blast
  have "uint r * 2 ^ 64 + uint q = 2 ^ 64 * join128 (l, h) - k * (uint b * 2 ^ 64 - 1)"
    using k(4) by (simp only: join128_def fst_conv snd_conv)
  from split_digits [OF this] k(1,2) u64_bounds [of q]
  have d: "uint q = k \<and> uint r = join128 (l, h) - k * uint b" by simp
  then have e: "join128 (l, h) = uint b * uint q + uint r" by (simp add: algebra_simps)
  show ?thesis
    using int_div_pos_eq [OF e _ k(3)] int_mod_pos_eq [OF e _ k(3)] u64_bounds(1) [of r] by simp
qed

text \<open>The quotient and remainder of the 128-bit dividend.\<close>

lemma div64_correct:
  assumes "b \<noteq> 0" "div64 (l, h) b = Some (q, r)"
  shows "uint q = join128 (l, h) div uint b \<and> uint r = join128 (l, h) mod uint b"
proof (cases "h = 0")
  case True
  then have "q = l div b" "r = l mod b" using assms(2) by (simp_all add: div64_def)
  then show ?thesis using True by (simp add: join128_def uint_div uint_mod)
next
  case False
  then have lt: "uint h < uint b" and l: "div64_loop b 64 (l, h) = (q, r)"
    using assms(2) by (auto simp: div64_def word_le_def split: if_splits)
  show ?thesis by (rule div64_loop_correct [OF lt l])
qed

lemma high_limb_le:
  "(0 :: int) \<le> l \<Longrightarrow> l < 18446744073709551616 \<Longrightarrow> 2 ^ 64 * b \<le> h * 2 ^ 64 + l \<longleftrightarrow> b \<le> h"
  by (rule iffI) simp_all

lemma div64_overflow:
  assumes "b \<noteq> 0"
  shows "div64 (l, h) b = None \<longleftrightarrow> 2 ^ 64 \<le> join128 (l, h) div uint b"
proof -
  have b0: "0 < uint b" using assms by (simp add: word_neq_0_conv word_less_def)
  have "2 ^ 64 \<le> join128 (l, h) div uint b \<longleftrightarrow> 2 ^ 64 * uint b \<le> join128 (l, h)"
    by (rule int_le_div [OF b0])
  also have "\<dots> \<longleftrightarrow> uint b \<le> uint h"
    unfolding join128_def fst_conv snd_conv by (rule high_limb_le) (rule u64_bounds)+
  also have "\<dots> \<longleftrightarrow> div64 (l, h) b = None"
    using b0 by (auto simp: div64_def word_le_def)
  finally show ?thesis by simp
qed


definition sjoin128 :: "u64 \<times> u64 \<Rightarrow> int" where
  "sjoin128 lh = sint (snd lh) * 2 ^ 64 + uint (fst lh)"

lemma sjoin128_join: "sjoin128 (l, h) = join128 (l, h) - (if h <s 0 then 2 ^ 128 else 0)"
  by (simp add: sjoin128_def join128_def sint_uint_u64 algebra_simps)

lemma uint_neg: "(x :: u64) \<noteq> 0 \<Longrightarrow> uint (- x) = 2 ^ 64 - uint x"
proof -
  assume "x \<noteq> 0"
  then have "0 < uint x" by (simp add: word_neq_0_conv word_less_def)
  then have "(2 ^ 64 - uint x) mod 2 ^ 64 = 2 ^ 64 - uint x"
    using u64_bounds [of x] by (intro mod_pos_pos_trivial) auto
  moreover have "uint (- x) = (2 ^ 64 - uint x) mod 2 ^ 64"
    by (simp add: uint_word_ariths)
  ultimately show ?thesis by simp
qed

lemma uint_not_u64: "uint (NOT (x :: u64)) = 2 ^ 64 - 1 - uint x"
proof -
  have "uint (NOT x) = (- 1 - uint x) mod 2 ^ 64"
    by (simp add: unsigned_not_eq take_bit_eq_mod not_int_def diff_right_commute minus_diff_commute)
  also have "\<dots> = (2 ^ 64 - 1 - uint x) mod 2 ^ 64"
    using mod_add_self2 [of "- 1 - uint x" "2 ^ 64"] by (simp add: algebra_simps)
  also have "\<dots> = 2 ^ 64 - 1 - uint x"
  proof (rule mod_pos_pos_trivial)
    have "(2 :: int) ^ 64 = 18446744073709551616" by simp
    then show "0 \<le> 2 ^ 64 - 1 - uint x" "2 ^ 64 - 1 - uint x < 2 ^ 64"
      using u64_bounds [of x] by linarith+
  qed
  finally show ?thesis .
qed

lemma neg128_value:
  assumes "h <s 0"
  shows "join128 (neg128 (l, h)) = - sjoin128 (l, h)"
proof -
  have h0: "h \<noteq> 0" using assms by auto
  show ?thesis
  proof (cases "l = 0")
    case True
    then have "neg128 (l, h) = (0, - h)"
      by (simp add: neg128_def add128_def not_eq_complement)
    then show ?thesis
      using True h0 assms by (simp add: sjoin128_join) (simp add: join128_def uint_neg)
  next
    case False
    have lo: "NOT l + 1 = - l" by (simp add: not_eq_complement)
    have "\<not> - l < 1" using False by (simp add: word_less_1)
    then have "neg128 (l, h) = (- l, NOT h)"
      by (simp add: neg128_def add128_def lo)
    then show ?thesis
      using False assms by (simp add: sjoin128_join) (simp add: join128_def uint_neg uint_not_u64)
  qed
qed

lemma uint_abs: "uint (if b <s 0 then - b else b :: u64) = \<bar>sint b\<bar>"
proof (cases "b <s 0")
  case True
  then have "b \<noteq> 0" by auto
  with True show ?thesis using u64_bounds [of b] by (simp add: uint_neg sint_uint_u64)
next
  case False
  then show ?thesis using u64_bounds [of b] by (simp add: sint_uint_u64)
qed

lemma magnitude_value:
  "join128 (if h <s 0 then neg128 (l, h) else (l, h)) = \<bar>sjoin128 (l, h)\<bar> \<and>
   (h <s 0 \<longleftrightarrow> sjoin128 (l, h) < 0)"
proof (cases "h <s 0")
  case True
  then have "sint h < 0" by (simp add: word_sless_alt)
  then have "sjoin128 (l, h) < 0"
    using u64_bounds [of l] by (simp add: sjoin128_def)
  then show ?thesis using True neg128_value [OF True, of l] by simp
next
  case False
  then have "0 \<le> sint h" by (simp add: word_sless_alt)
  then have "0 \<le> sjoin128 (l, h)"
    using u64_bounds [of l] by (simp add: sjoin128_def)
  then show ?thesis using False by (simp add: sjoin128_join)
qed


lemma sint_of_uint_small: "uint (x :: u64) < 2 ^ 63 \<Longrightarrow> sint x = uint x"
  and sint_of_uint_big: "2 ^ 63 \<le> uint (x :: u64) \<Longrightarrow> sint x = uint x - 2 ^ 64"
proof -
  have s: "sint x < 0 \<longleftrightarrow> x <s 0" by (simp add: word_sless_alt)
  show "uint x < 2 ^ 63 \<Longrightarrow> sint x = uint x"
    using sint_uint_u64 [of x] sint_bounds_u64 [of x] s by (auto split: if_splits)
  show "2 ^ 63 \<le> uint x \<Longrightarrow> sint x = uint x - 2 ^ 64"
    using sint_uint_u64 [of x] sint_bounds_u64 [of x] s by (auto split: if_splits)
qed

lemma sint_neg_u64: "uint (x :: u64) \<le> 2 ^ 63 \<Longrightarrow> sint (- x) = - uint x"
proof (cases "x = 0")
  case False
  assume "uint x \<le> 2 ^ 63"
  with False show ?thesis
    using sint_of_uint_big [of "- x"] uint_neg [OF False] by simp
qed simp

lemma sdiv_by_signs:
  fixes N d :: int
  assumes "d \<noteq> 0"
  shows "N sdiv d = (if (N < 0) = (d < 0) then \<bar>N\<bar> div \<bar>d\<bar> else - (\<bar>N\<bar> div \<bar>d\<bar>))"
    and "N smod d = (if N < 0 then - (\<bar>N\<bar> mod \<bar>d\<bar>) else \<bar>N\<bar> mod \<bar>d\<bar>)"
proof -
  show q: "N sdiv d = (if (N < 0) = (d < 0) then \<bar>N\<bar> div \<bar>d\<bar> else - (\<bar>N\<bar> div \<bar>d\<bar>))"
    using assms by (cases N "0 :: int" rule: linorder_cases; cases d "0 :: int" rule: linorder_cases)
      (simp_all add: signed_divide_int_def sgn_if)
  show "N smod d = (if N < 0 then - (\<bar>N\<bar> mod \<bar>d\<bar>) else \<bar>N\<bar> mod \<bar>d\<bar>)"
    by (simp add: signed_modulo_int_def sgn_if)
qed

definition fits64 :: "int \<Rightarrow> bool" where
  "fits64 q \<longleftrightarrow> - (2 ^ 63) \<le> q \<and> q < 2 ^ 63"

lemma fits64_nonneg: "0 \<le> q \<Longrightarrow> fits64 q \<longleftrightarrow> q < 2 ^ 63"
  by (auto simp: fits64_def)

lemma fits64_neg: "0 \<le> q \<Longrightarrow> fits64 (- q) \<longleftrightarrow> q \<le> 2 ^ 63"
  by (auto simp: fits64_def)

lemma idiv64_correct:
  fixes b l h :: u64
  assumes b: "b \<noteq> 0"
  defines "N \<equiv> sjoin128 (l, h)"
  shows "case idiv64 (l, h) b of
      None \<Rightarrow> \<not> fits64 (N sdiv sint b)
    | Some (q, r) \<Rightarrow> fits64 (N sdiv sint b) \<and> sint q = N sdiv sint b \<and> sint r = N smod sint b"
proof -
  define lh where "lh = (if h <s 0 then neg128 (l, h) else (l, h))"
  define b' where "b' = (if b <s 0 then - b else b)"
  have ub: "uint b' = \<bar>sint b\<bar>" unfolding b'_def by (rule uint_abs)
  have s0: "sint b \<noteq> 0" using b by (metis signed_0 signed_word_eqI)
  have b'0: "b' \<noteq> 0" using b by (simp add: b'_def)
  have mag: "join128 lh = \<bar>N\<bar>" "(h <s 0) = (N < 0)"
    unfolding lh_def N_def using magnitude_value [of h l] by auto
  have sb: "(b <s 0) = (sint b < 0)" by (simp add: word_sless_alt)
  have def: "idiv64 (l, h) b = (case div64 lh b' of None \<Rightarrow> None
      | Some (low, high) \<Rightarrow>
          if (N < 0) \<noteq> (sint b < 0) then
            if low > push_bit 63 1 then None else Some (- low, if N < 0 then - high else high)
          else
            if low \<ge> push_bit 63 1 then None else Some (low, if N < 0 then - high else high))"
    by (simp add: idiv64_def Let_def lh_def b'_def mag(2) sb)
  obtain l' h' where lh: "lh = (l', h')" by fastforce
  show ?thesis
  proof (cases "div64 lh b'")
    case None
    then have "2 ^ 64 \<le> \<bar>N\<bar> div \<bar>sint b\<bar>"
      using div64_overflow [OF b'0, of l' h'] mag(1) ub by (simp add: lh)
    then have "\<not> fits64 (N sdiv sint b)"
      unfolding sdiv_by_signs [OF s0] fits64_def by (auto split: if_splits)
    then show ?thesis by (simp add: def None)
  next
    case (Some p)
    obtain q r where p: "p = (q, r)" by fastforce
    have qr: "uint q = \<bar>N\<bar> div \<bar>sint b\<bar>" "uint r = \<bar>N\<bar> mod \<bar>sint b\<bar>"
      using div64_correct [OF b'0, of l' h' q r] Some mag(1) ub by (simp_all add: lh p)
    have fits: "fits64 (uint q) \<longleftrightarrow> uint q < 2 ^ 63" by (rule fits64_nonneg) (rule u64_bounds)
    have "\<bar>sint b\<bar> \<le> 2 ^ 63" using sint_bounds_u64 [of b] by simp
    moreover have "\<bar>N\<bar> mod \<bar>sint b\<bar> < \<bar>sint b\<bar>" using s0 by (intro pos_mod_bound) simp
    ultimately have r63: "uint r < 2 ^ 63" using qr(2) by simp
    have sr: "sint (if N < 0 then - r else r) = N smod sint b"
      unfolding sdiv_by_signs [OF s0] qr(2) [symmetric]
      using r63 sint_of_uint_small [of r] sint_neg_u64 [of r] by simp
    have fitsn: "fits64 (- uint q) \<longleftrightarrow> uint q \<le> 2 ^ 63" by (rule fits64_neg) (rule u64_bounds)
    show ?thesis
    proof (cases "(N < 0) = (sint b < 0)")
      case True
      then have "N sdiv sint b = uint q" by (simp add: sdiv_by_signs [OF s0] qr(1))
      then show ?thesis
        using True sr fits sint_of_uint_small [of q]
        by (simp add: def Some p word_le_def)
    next
      case False
      then have "N sdiv sint b = - uint q" by (simp add: sdiv_by_signs [OF s0] qr(1))
      then show ?thesis
        using False sr fitsn sint_neg_u64 [of q]
        by (simp add: def Some p word_less_def)
    qed
  qed
qed


text \<open>C7. DIV with a 64-bit divisor: without a guest hypervisor it raises the divide error exactly
  when the divisor is zero or the quotient of the 128-bit dividend does not fit 64 bits; otherwise RAX
  holds the quotient, RDX the remainder and no other register changes.\<close>

theorem helper_divq_correct:
  fixes env :: cpu_state and t0 :: target_ulong
  shows "helper_divq_EAX env t0 =
    (let N = join128 (regs env R_EAX, regs env R_EDX) in
     if t0 = 0 \<or> 2 ^ 64 \<le> N div uint t0 then raise_exception env EXCP00_DIVZ
     else Done (set_reg R_EDX (word_of_int (N mod uint t0)) (set_reg R_EAX (word_of_int (N div uint t0)) env)))"
proof (cases "t0 = 0")
  case False
  show ?thesis
  proof (cases "div64 (regs env R_EAX, regs env R_EDX) t0")
    case None
    then have "2 ^ 64 \<le> join128 (regs env R_EAX, regs env R_EDX) div uint t0" by (simp only: div64_overflow [OF False])
    with None show ?thesis by (simp add: helper_divq_EAX_def Let_def)
  next
    case (Some p)
    then show ?thesis
      using div64_overflow [OF False, of "regs env R_EAX" "regs env R_EDX"] False
        div64_correct [OF False, of "regs env R_EAX" "regs env R_EDX" "fst p" "snd p"]
      by (auto simp: helper_divq_EAX_def Let_def split: prod.split) (metis word_of_int_uint)+
  qed
qed (simp add: helper_divq_EAX_def Let_def)

text \<open>C6. IDIV with a 64-bit divisor: the divide error is raised exactly when the divisor is zero or
  the truncated quotient of the signed 128-bit dividend is not a signed 64-bit number, the most negative
  dividends included; otherwise RAX holds that quotient and RDX the remainder with the dividend's sign.\<close>

theorem helper_idivq_correct:
  fixes env :: cpu_state and t0 :: target_ulong
  shows "helper_idivq_EAX env t0 =
    (let N = sjoin128 (regs env R_EAX, regs env R_EDX) in
     if t0 \<noteq> 0 \<and> fits64 (N sdiv sint t0)
     then Done (set_reg R_EDX (word_of_int (N smod sint t0)) (set_reg R_EAX (word_of_int (N sdiv sint t0)) env))
     else raise_exception env EXCP00_DIVZ)"
proof (cases "t0 = 0")
  case False
  show ?thesis
    using idiv64_correct [OF False, of "regs env R_EAX" "regs env R_EDX"] False
    by (auto simp: helper_idivq_EAX_def Let_def split: option.splits prod.splits)
      (metis of_int_sint scast_id)+
qed (simp add: helper_idivq_EAX_def Let_def)

subsection \<open>Bit scans\<close>

lemma bsf_loop_some:
  "bit t k \<Longrightarrow> (\<And>j. j < k \<Longrightarrow> \<not> bit t j) \<Longrightarrow> bsf_loop t c = Some (c + int k)"
proof (induction k arbitrary: t c)
  case 0
  then show ?case by (subst bsf_loop.simps) (simp add: and_one_bit)
next
  case (Suc k)
  have "bsf_loop (drop_bit 1 t) (c + 1) = Some (c + 1 + int k)"
    using Suc.prems by (intro Suc.IH) (auto simp: bit_drop_bit_eq)
  moreover have "t AND 1 = 0" using Suc.prems(2) [of 0] by (simp add: and_one_bit)
  ultimately show ?case by (subst bsf_loop.simps) simp
qed

lemma bsf_loop_zero: "bsf_loop 0 c = None"
proof -
  have "bsf_loop t c = Some y \<Longrightarrow> t \<noteq> 0" for t y
    by (rule bsf_loop.raw_induct [where P = "\<lambda>t c y. t \<noteq> 0"]) (auto split: if_splits, blast)
  then show ?thesis by (cases "bsf_loop 0 c") auto
qed

lemma lzcnt_loop_some:
  "k < 64 \<Longrightarrow> bit t (63 - k) \<Longrightarrow> (\<And>j. 63 - k < j \<Longrightarrow> \<not> bit t j) \<Longrightarrow> lzcnt_loop t c = Some (c - int k)"
proof (induction k arbitrary: t c)
  case 0
  have "t AND push_bit 63 1 = push_bit 63 1"
    using 0 by (simp only: and_bit_mask) simp
  then show ?case by (subst lzcnt_loop.simps) simp
next
  case (Suc k)
  have "\<not> bit t 63" using Suc.prems by simp
  then have z: "t AND push_bit 63 1 = 0" by (simp only: and_bit_mask) simp
  have "lzcnt_loop (push_bit 1 t) (c - 1) = Some (c - 1 - int k)"
  proof (rule Suc.IH)
    have "63 - k - 1 = 63 - Suc k" by simp
    then show "bit (push_bit 1 t) (63 - k)"
      using Suc.prems(1,2) by (simp only: bit_push_bit_iff) auto
    show "\<not> bit (push_bit 1 t) j" if "63 - k < j" for j
      using Suc.prems(3) [of "j - 1"] that Suc.prems(1) by (simp only: bit_push_bit_iff) auto
  qed (use Suc.prems in simp)
  with z show ?case by (subst lzcnt_loop.simps) simp
qed

lemma lzcnt_loop_zero: "lzcnt_loop 0 c = None"
proof -
  have "lzcnt_loop t c = Some y \<Longrightarrow> t \<noteq> 0" for t y
    by (rule lzcnt_loop.raw_induct [where P = "\<lambda>t c y. t \<noteq> 0"]) (auto split: if_splits, blast)
  then show ?thesis by (cases "lzcnt_loop 0 c") auto
qed

definition lowest_bit :: "target_ulong \<Rightarrow> nat" where
  "lowest_bit t = (LEAST k. bit t k)"

definition highest_bit :: "target_ulong \<Rightarrow> nat" where
  "highest_bit t = (GREATEST k. bit t k)"

lemma lowest_bit:
  assumes "t \<noteq> 0"
  shows "bit t (lowest_bit t)" "j < lowest_bit t \<Longrightarrow> \<not> bit t j"
proof -
  obtain k where "bit t k" using assms by (auto simp: bit_eq_iff)
  then show "bit t (lowest_bit t)" unfolding lowest_bit_def by (rule LeastI)
  show "j < lowest_bit t \<Longrightarrow> \<not> bit t j" unfolding lowest_bit_def by (rule not_less_Least)
qed

lemma highest_bit:
  assumes "t \<noteq> 0"
  shows "bit t (highest_bit t)" "highest_bit t < j \<Longrightarrow> \<not> bit t j" "highest_bit t < 64"
proof -
  obtain k where k: "bit t k" using assms by (auto simp: bit_eq_iff)
  have b: "bit t y \<Longrightarrow> y \<le> 64" for y using bit_imp_le_length [of t y] by simp
  show h: "bit t (highest_bit t)" unfolding highest_bit_def by (rule GreatestI_nat [where P = "bit t", OF k b])
  show "highest_bit t < j \<Longrightarrow> \<not> bit t j"
    using Greatest_le_nat [of "bit t" j 64] b unfolding highest_bit_def by force
  show "highest_bit t < 64" using bit_imp_le_length [OF h] by simp
qed

text \<open>C12. BSF returns the index of the lowest set bit and BSR that of the highest for every nonzero
  operand; on zero their loops never end, which is why the translator branches around them. LZCNT
  returns the operand size on zero and else the size less one less the index of the highest bit.\<close>

theorem bit_scan_correct:
  "helper_bsf t = (if t = 0 then None else Some (of_nat (lowest_bit t))) \<and>
   helper_bsr t = (if t = 0 then None else Some (of_nat (highest_bit t))) \<and>
   helper_lzcnt t (int (Suc w)) =
     Some (if t = 0 then of_nat (Suc w) else of_nat w - of_nat (highest_bit t))"
proof (intro conjI)
  show "helper_bsf t = (if t = 0 then None else Some (of_nat (lowest_bit t)))"
    using bsf_loop_some [OF lowest_bit, of t 0] by (simp add: helper_bsf_def bsf_loop_zero)
  have l: "t \<noteq> 0 \<Longrightarrow> lzcnt_loop t 63 = Some (int (highest_bit t))"
  proof -
    assume t: "t \<noteq> 0"
    note h = highest_bit [OF t]
    have "lzcnt_loop t 63 = Some (63 - int (63 - highest_bit t))"
      using h by (intro lzcnt_loop_some) auto
    then show ?thesis using h(3) by simp
  qed
  show "helper_bsr t = (if t = 0 then None else Some (of_nat (highest_bit t)))"
    using l by (simp add: helper_bsr_def helper_lzcnt_def lzcnt_loop_zero)
  show "helper_lzcnt t (int (Suc w)) =
      Some (if t = 0 then of_nat (Suc w) else of_nat w - of_nat (highest_bit t))"
    using l by (simp add: helper_lzcnt_def)
qed

subsection \<open>Multiplication\<close>

lemma sign_word: "signed_drop_bit 63 (lo :: u64) = (if 2 ^ 63 \<le> uint lo then -1 else 0)"
proof -
  have "bit lo 63 \<longleftrightarrow> bit (drop_bit 63 lo) 0" by (simp add: bit_drop_bit_eq del: bit_0)
  then have b: "bit lo 63 \<longleftrightarrow> 2 ^ 63 \<le> uint lo" unfolding top_bit_uint by simp
  show ?thesis
    using b by (intro bit_word_eqI) (auto simp: bit_signed_drop_bit_iff not_le)
qed

lemma fits64_arith:
  fixes l H :: int
  assumes "0 \<le> l" "l < 18446744073709551616"
  shows "fits64 (l + 2 ^ 64 * H) \<longleftrightarrow> (if 2 ^ 63 \<le> l then H = - 1 else H = 0)"
  using assms by (auto simp: fits64_def)

lemma high_limb_pos:
  fixes l H :: int
  assumes "0 \<le> l" "l < 18446744073709551616"
  shows "2 ^ 64 \<le> l + 2 ^ 64 * H \<longleftrightarrow> 0 < H"
  using assms by (auto intro: ccontr)

lemma fits64_limbs:
  fixes lo hi :: u64
  shows "fits64 (uint lo + 2 ^ 64 * sint hi) \<longleftrightarrow> hi = signed_drop_bit 63 lo"
proof -
  have h: "sint hi = - 1 \<longleftrightarrow> hi = -1" "sint hi = 0 \<longleftrightarrow> hi = 0"
    by (metis signed_word_eqI signed_minus_1, metis signed_word_eqI signed_0)
  show ?thesis
    using fits64_arith [OF u64_bounds, of lo "sint hi"] unfolding sign_word h by (simp split: if_splits)
qed

text \<open>C10. The 64-bit MUL and IMUL leave the exact 128-bit product in RDX:RAX, unsigned and signed; the
  saved carry tells that the upper half matters: it is nonzero for MUL, and for IMUL the product is not a
  signed 64-bit number.\<close>

theorem mul64_helpers_correct:
  "(let env' = helper_mulq_EAX_T0 env t0
    in join128 (regs env' R_EAX, regs env' R_EDX) = uint (regs env R_EAX) * uint t0 \<and>
       (cc_src env' \<noteq> 0 \<longleftrightarrow> 2 ^ 64 \<le> uint (regs env R_EAX) * uint t0)) \<and>
   (let env' = helper_imulq_EAX_T0 env t0
    in sjoin128 (regs env' R_EAX, regs env' R_EDX) = sint (regs env R_EAX) * sint t0 \<and>
       cc_src env' = of_bool (\<not> fits64 (sint (regs env R_EAX) * sint t0)))"
proof
  obtain lo hi where m: "mul64 (regs env R_EAX) t0 = (lo, hi)" by fastforce
  have p: "uint (regs env R_EAX) * uint t0 = uint lo + 2 ^ 64 * uint hi"
    using mul64_exact [OF m] by simp
  have "hi \<noteq> 0 \<longleftrightarrow> 0 < uint hi" by (simp add: word_neq_0_conv word_less_def)
  then have "hi \<noteq> 0 \<longleftrightarrow> 2 ^ 64 \<le> uint lo + 2 ^ 64 * uint hi"
    unfolding high_limb_pos [OF u64_bounds] .
  then show "let env' = helper_mulq_EAX_T0 env t0
    in join128 (regs env' R_EAX, regs env' R_EDX) = uint (regs env R_EAX) * uint t0 \<and>
       (cc_src env' \<noteq> 0 \<longleftrightarrow> 2 ^ 64 \<le> uint (regs env R_EAX) * uint t0)"
    unfolding p by (simp add: helper_mulq_EAX_T0_def mulu64_def m set_reg_def join128_def)
next
  obtain lo hi where m: "muls64 (regs env R_EAX) t0 = (lo, hi)" by fastforce
  have p: "sint (regs env R_EAX) * sint t0 = uint lo + 2 ^ 64 * sint hi"
    using muls64_exact [OF m] by simp
  show "let env' = helper_imulq_EAX_T0 env t0
    in sjoin128 (regs env' R_EAX, regs env' R_EDX) = sint (regs env R_EAX) * sint t0 \<and>
       cc_src env' = of_bool (\<not> fits64 (sint (regs env R_EAX) * sint t0))"
    unfolding p fits64_limbs by (simp add: helper_imulq_EAX_T0_def m set_reg_def sjoin128_def)
qed

subsection \<open>Rotates\<close>

lemma rotate_count_le: "data_bits n \<Longrightarrow> rotate_count n t1 \<le> n"
proof -
  assume n: "data_bits n"
  have m: "unat (t1 AND 0x1f) < 32" "unat (t1 AND 0x3f) < 64"
    using word_and_le1 [of t1 "0x1f"] word_and_le1 [of t1 "0x3f"]
    by (simp_all add: word_le_nat_alt)
  have "k < 32 \<Longrightarrow> rclb_table ! k \<le> 8" for k
    using nth_mem [of k rclb_table] by (auto simp: rclb_table_def)
  moreover have "k < 32 \<Longrightarrow> rclw_table ! k \<le> 16" for k
    using nth_mem [of k rclw_table] by (auto simp: rclw_table_def)
  ultimately show ?thesis
    using n m by (auto simp: data_bits_def rotate_count_def less_imp_le)
qed

definition carry_in :: "cpu_state \<Rightarrow> bool" where
  "carry_in env = bit (helper_cc_compute_all env (cc_op env)) 0"

lemma scast_carry: "(scast ((fl :: u32) AND 1) :: u64) = of_bool (bit fl 0)"
  by (simp add: and_one_bit) 

lemma rotate_flags_carry: "bit (rotate_flags n fl src t0 out) 0 = bit out 0"
proof -
  have "\<not> bit (scast ((fl :: u32) AND NOT (CC_C OR CC_O)) :: u64) 0"
    by (simp add: bit_signed_iff vx_bits)
  then show ?thesis by (simp add: rotate_flags_def vx_bits)
qed

lemma bit_of_bool_word: "bit (of_bool c :: 'a::len word) m \<longleftrightarrow> c \<and> m = 0"
  by (cases c) (auto simp: bit_1_iff)

lemma bit_masked: "n \<le> 64 \<Longrightarrow> bit ((t0 :: u64) AND mask n) m \<longleftrightarrow> bit t0 m \<and> m < n"
  by (auto simp: bit_and_iff bit_mask_iff)

lemma bit_drop_masked: "n \<le> 64 \<Longrightarrow>
    bit (drop_bit m (t0 :: u64) AND drop_bit m (mask n)) 0 \<longleftrightarrow> bit t0 m \<and> m < n"
  by (auto simp: bit_and_iff bit_drop_bit_eq bit_mask_iff)

lemma rcl_value_bit:
  assumes "0 < k" "k \<le> n" "n \<le> 64" "i < n"
  shows "bit (rcl_value n k (of_bool c) (t0 AND mask n)) i =
    (if k \<le> i then bit t0 (i - k) else if i = k - 1 then c else bit t0 (n + 1 - k + i))"
proof -
  have "bit (rcl_value n k (of_bool c) (t0 AND mask n)) i \<longleftrightarrow>
      (k \<le> i \<and> bit t0 (i - k) \<and> i - k < n) \<or> (k - 1 \<le> i \<and> c \<and> i - (k - 1) = 0) \<or>
      (1 < k \<and> bit t0 (n + 1 - k + i) \<and> n + 1 - k + i < n)"
    using assms(3,4) unfolding rcl_value_def Let_def
    by (simp only: bit_or_iff bit_push_bit_iff bit_drop_bit_eq comp_apply bit_of_bool_word
      bit_masked split: if_split) auto
  then show ?thesis
    using assms by auto
qed

lemma rcr_value_bit:
  assumes "0 < k" "k \<le> n" "n \<le> 64" "i < n"
  shows "bit (rcr_value n k (of_bool c) (t0 AND mask n)) i =
    (if k + i < n then bit t0 (k + i) else if i = n - k then c else bit t0 (i - (n + 1 - k)))"
proof -
  have "bit (rcr_value n k (of_bool c) (t0 AND mask n)) i \<longleftrightarrow>
      (bit t0 (k + i) \<and> k + i < n) \<or> (n - k \<le> i \<and> c \<and> i - (n - k) = 0) \<or>
      (1 < k \<and> n + 1 - k \<le> i \<and> bit t0 (i - (n + 1 - k)) \<and> i - (n + 1 - k) < n)"
    using assms(3,4) unfolding rcr_value_def Let_def
    by (simp only: bit_or_iff bit_push_bit_iff bit_drop_bit_eq comp_apply bit_of_bool_word
      bit_masked split: if_split) auto
  then show ?thesis
    using assms by auto
qed

text \<open>C11. RCL followed by RCR with the same count and operand size, the carry handed over in between,
  gives back the operand and the carry it started from, for every size and every effective count.\<close>

theorem rcl_rcr_inverse:
  assumes n: "data_bits n" and c: "rotate_count n t1 \<noteq> 0"
    and rcl: "helper_rcl n env t0 t1 = (r, env1)"
    and rcr: "helper_rcr n (env1\<lparr>cc_src := cc_tmp env1, cc_op := CC_OP_EFLAGS\<rparr>) r t1 = (r', env2)"
  shows "take_bit n r' = take_bit n t0 \<and> bit (cc_tmp env2) 0 = carry_in env"
proof -
  define k where "k = rotate_count n t1"
  have k: "0 < k" "k \<le> n" using rotate_count_le [OF n, of t1] c by (simp_all add: k_def)
  have n64: "n \<le> 64" using data_bits_facts [OF n] by simp
  have r: "r = rcl_value n k (of_bool (carry_in env)) (t0 AND mask n)"
    and c1: "bit (cc_tmp env1) 0 = bit t0 (n - k)"
    using rcl c k n64
    by (auto simp: helper_rcl_def k_def [symmetric] Let_def scast_carry carry_in_def
      rotate_flags_carry bit_drop_masked)
  define env' where "env' = env1\<lparr>cc_src := cc_tmp env1, cc_op := CC_OP_EFLAGS\<rparr>"
  have ci: "carry_in env' = bit (cc_tmp env1) 0"
    by (simp add: carry_in_def env'_def helper_cc_compute_all_def compute_all_eflags_def vx_bits)
  have r': "r' = rcr_value n k (of_bool (bit t0 (n - k))) (r AND mask n)"
    and c2: "bit (cc_tmp env2) 0 = bit r (k - 1)"
    using rcr c k n64
    unfolding env'_def [symmetric] c1 [symmetric] ci [symmetric]
    by (auto simp: helper_rcr_def k_def [symmetric] Let_def scast_carry carry_in_def
      rotate_flags_carry bit_drop_masked)
  have "bit r' i = bit t0 i" if i: "i < n" for i
  proof -
    consider "k + i < n" | "i = n - k" | "n - k < i" using i k by linarith
    then show ?thesis
    proof cases
      case 1
      then show ?thesis
        unfolding r' using k n64 i by (simp add: rcr_value_bit) (simp add: r rcl_value_bit)
    next
      case 2
      then show ?thesis
        unfolding r' using k n64 i by (simp add: rcr_value_bit)
    next
      case 3
      then have "n + 1 - k + (i - (n + 1 - k)) = i" "i - (n + 1 - k) < n" "\<not> k \<le> i - (n + 1 - k)"
          "i - (n + 1 - k) \<noteq> k - 1" "\<not> k + i < n" "i \<noteq> n - k"
        using i k by linarith+
      then show ?thesis
        unfolding r' using k n64 i by (simp add: rcr_value_bit del: One_nat_def)
         (simp add: r rcl_value_bit del: One_nat_def)
    qed
  qed
  then have "take_bit n r' = take_bit n t0"
    by (intro bit_word_eqI) (auto simp: bit_take_bit_iff)
  moreover have "bit r (k - 1) = carry_in env"
    unfolding r using k n64 by (auto simp: rcl_value_bit)
  ultimately show ?thesis using c2 by simp
qed

subsection \<open>Decimal adjustment after addition\<close>

lemma byte_word:
  assumes "s < 256"
  shows "(of_nat s :: u32) AND 0xf > 9 \<longleftrightarrow> 9 < s mod 16"
    and "(of_nat s :: u32) > 0x99 \<longleftrightarrow> 0x99 < s"
    and "((of_nat s :: u32) + 6) AND 0xff = of_nat ((s + 6) mod 256)"
    and "((of_nat s :: u32) + 0x60) AND 0xff = of_nat ((s + 0x60) mod 256)"
proof -
  have k: "(0xff :: u32) = mask 8" "(0xf :: u32) = mask 4"
    by (simp_all add: mask_eq_exp_minus_1)
  have m: "(of_nat k :: u32) AND 0xff = of_nat (k mod 256)" "(of_nat k :: u32) AND 0xf = of_nat (k mod 16)" for k
    unfolding k take_bit_eq_mask [symmetric] take_bit_of_nat by (simp_all add: take_bit_eq_mod)
  show "(of_nat s :: u32) AND 0xf > 9 \<longleftrightarrow> 9 < s mod 16"
    unfolding m by (simp add: word_less_nat_alt unsigned_of_nat take_bit_nat_eq_self)
  show "(of_nat s :: u32) > 0x99 \<longleftrightarrow> 0x99 < s"
    using assms by (simp add: word_less_nat_alt unsigned_of_nat take_bit_nat_eq_self)
  show "((of_nat s :: u32) + 6) AND 0xff = of_nat ((s + 6) mod 256)"
    using m(1) [of "s + 6"] by simp
  show "((of_nat s :: u32) + 0x60) AND 0xff = of_nat ((s + 0x60) mod 256)"
    using m(1) [of "s + 0x60"] by simp
qed

lemma daa_digits:
  fixes s0 s1 :: nat
  assumes "s0 \<le> 18" "s1 \<le> 18"
  defines "s \<equiv> (16 * s1 + s0) mod 256"
  defines "t \<equiv> (if 9 < s mod 16 \<or> 16 \<le> s0 then (s + 6) mod 256 else s)"
  obtains e0 e1 where "e0 \<le> 9" "e1 \<le> 19" "10 * s1 + s0 = 10 * e1 + e0" "t = (16 * e1 + e0) mod 256"
    "0x99 < s \<or> 256 \<le> 16 * s1 + s0 \<longleftrightarrow> 10 \<le> e1"
proof (cases "s0 \<le> 9")
  case True
  have "s mod 16 = s0" using True by (simp add: s_def mod_mod_cancel)
  then have "t = s" using True by (simp add: t_def)
  moreover have "0x99 < s \<or> 256 \<le> 16 * s1 + s0 \<longleftrightarrow> 10 \<le> s1"
    using True assms(2) by (cases "16 * s1 + s0 < 256") (auto simp: s_def)
  ultimately show ?thesis using True assms(2) that [of s0 s1] by (simp add: s_def)
next
  case False
  have "9 < s mod 16 \<or> 16 \<le> s0" using False by (cases "s0 < 16") (simp_all add: s_def mod_mod_cancel)
  then have "t = (s + 6) mod 256" by (simp add: t_def)
  also have "\<dots> = (16 * Suc s1 + (s0 - 10)) mod 256"
    using False by (simp add: s_def mod_add_left_eq mod_add_right_eq algebra_simps)
  finally have "t = (16 * Suc s1 + (s0 - 10)) mod 256" .
  moreover have "0x99 < s \<or> 256 \<le> 16 * s1 + s0 \<longleftrightarrow> 10 \<le> Suc s1"
    using False assms(1,2) by (cases "16 * s1 + s0 < 256") (auto simp: s_def)
  ultimately show ?thesis using False assms(1,2) that [of "s0 - 10" "Suc s1"] by simp
qed

lemma daa_nat:
  fixes s0 s1 :: nat
  assumes "s0 \<le> 18" "s1 \<le> 18"
  defines "s \<equiv> (16 * s1 + s0) mod 256"
  defines "t \<equiv> (if 9 < s mod 16 \<or> 16 \<le> s0 then (s + 6) mod 256 else s)"
  defines "c \<equiv> 0x99 < s \<or> 256 \<le> 16 * s1 + s0"
  defines "v \<equiv> 10 * s1 + s0"
  shows "(if c then (t + 0x60) mod 256 else t) = 16 * (v mod 100 div 10) + v mod 10 \<and> (c \<longleftrightarrow> 100 \<le> v)"
proof -
  obtain e0 e1 where e: "e0 \<le> 9" "e1 \<le> 19" "v = 10 * e1 + e0" "t = (16 * e1 + e0) mod 256"
      "c \<longleftrightarrow> 10 \<le> e1"
    unfolding v_def t_def c_def s_def using daa_digits [OF assms(1,2)] by metis
  show ?thesis
  proof (cases "10 \<le> e1")
    case True
    then obtain d where d: "e1 = d + 10" by (metis le_add_diff_inverse2)
    have "(t + 0x60) mod 256 = 16 * d + e0"
      unfolding e(4) d using e(1,2) d by (simp add: mod_add_left_eq)
    moreover have "v mod 100 = 10 * d + e0"
    proof -
      have "v = (10 * d + e0) + 100" unfolding e(3) d by simp
      moreover have "10 * d + e0 < 100" using e(1,2) d by linarith
      ultimately show ?thesis by (simp only: mod_add_self2 mod_less)
    qed
    ultimately show ?thesis using True e(1) by (simp add: e(3,5))
  next
    case False
    then show ?thesis using e by simp
  qed
qed

text \<open>The sum of two packed decimal bytes, as the binary sum of their digits' positions.\<close>

definition packed :: "nat \<Rightarrow> nat \<Rightarrow> nat" where
  "packed d1 d0 = 16 * d1 + d0"

lemma add_flags_af_cf:
  "bit (add_flags 8 x y False) 4 \<longleftrightarrow> 16 \<le> uval 4 x + uval 4 y"
  "bit (add_flags 8 x y False) 0 \<longleftrightarrow> 256 \<le> uval 8 x + uval 8 y"
  by (simp_all add: add_flags_def pack_flags_def Let_def vx_bits bit_1_iff)

lemma and_pow2: "((w :: u32) AND 0x10 \<noteq> 0) = bit w 4" "(w AND 1 \<noteq> 0) = bit w 0"
  unfolding mask_numerals and_bit_mask and_one_bit by simp_all

lemma daa_adjust_sum:
  assumes "s0 \<le> 18" "s1 \<le> 18"
  defines "v \<equiv> 10 * s1 + s0"
  shows "daa_adjust (of_nat ((16 * s1 + s0) mod 256)) (16 \<le> s0) (256 \<le> 16 * s1 + s0) =
    (of_nat (16 * (v mod 100 div 10) + v mod 10),
     of_bool (100 \<le> v) OR push_bit 4 (of_bool (10 \<le> s0)))"
proof -
  define s where "s = (16 * s1 + s0) mod 256"
  have s: "s < 256" by (simp add: s_def)
  have af: "9 < s mod 16 \<or> 16 \<le> s0 \<longleftrightarrow> 10 \<le> s0"
    by (cases "s0 < 16") (auto simp: s_def mod_mod_cancel)
  have t: "(if 9 < s mod 16 \<or> 16 \<le> s0 then (s + 6) mod 256 else s) < 256"
    using s by simp
  define t where "t = (if 9 < s mod 16 \<or> 16 \<le> s0 then (s + 6) mod 256 else s)"
  have tlt: "t < 256" using s by (simp add: t_def)
  have one: "(if (of_nat s :: u32) AND 0xf > 9 \<or> 16 \<le> s0 then (((of_nat s :: u32) + 6) AND 0xff, 0 OR CC_A)
      else (of_nat s, 0)) = (of_nat t, push_bit 4 (of_bool (10 \<le> s0)))"
    unfolding byte_word(1,3) [OF s] t_def af [symmetric]
    by (cases "9 < s mod 16 \<or> 16 \<le> s0") simp_all
  note r = daa_nat [OF assms(1,2), folded s_def, folded t_def v_def]
  have c: "(0x99 < s \<or> 256 \<le> 16 * s1 + s0) = (100 \<le> v)"
    and w: "(if 100 \<le> v then (t + 0x60) mod 256 else t) = 16 * (v mod 100 div 10) + v mod 10"
    using r by auto
  show ?thesis
    unfolding daa_adjust_def s_def [symmetric] Let_def one prod.case byte_word(2) [OF s]
      byte_word(4) [OF tlt] c w [symmetric]
    by (cases "100 \<le> v") (simp_all only: if_True if_False of_bool_eq prod.inject simp_thms, simp_all add: or.commute)
qed

lemma of_nat_small:
  assumes "k < 256"
  shows "(ucast (of_nat k :: u64) :: u32) = of_nat k" "(scast (of_nat k :: u32) :: u64) = of_nat k"
    "unat (of_nat k :: u32) = k" "(of_nat k :: u64) AND 0xff = of_nat k"
proof -
  have m: "(0xff :: u64) = mask 8" by (simp add: mask_eq_exp_minus_1)
  have "take_bit 64 k = k" "take_bit 32 k = k" "take_bit 8 k = k"
    using assms by (simp_all add: take_bit_nat_eq_self)
  moreover have "signed_take_bit 31 (int k) = int k"
    using assms by (intro signed_take_bit_int_eq_self) simp_all
  ultimately show "(ucast (of_nat k :: u64) :: u32) = of_nat k" "(scast (of_nat k :: u32) :: u64) = of_nat k"
      "unat (of_nat k :: u32) = k" "(of_nat k :: u64) AND 0xff = of_nat k"
    unfolding m take_bit_eq_mask [symmetric] take_bit_of_nat
    by (simp_all add: unsigned_of_nat signed_of_nat)
qed

lemma uval_of_nat: "k < 256 \<Longrightarrow> uval 4 (of_nat k) = int (k mod 16) \<and> uval 8 (of_nat k) = int k"
  by (simp add: unsigned_of_nat take_bit_nat_eq_self take_bit_eq_mod zmod_int)

lemma szp_no_carry: "k < 256 \<Longrightarrow> \<not> bit (szp_flags (of_nat k)) 0"
  by (simp add: szp_flags_def of_nat_small parity_table_nth vx_bits)

lemma low_byte_set: "((x AND NOT 0xff) OR y) AND 0xff = (y :: u64) AND 0xff"
proof -
  have "(x AND NOT 0xff) AND 0xff = (0 :: u64)"
    by (metis and.assoc and.commute bit.conj_cancel_right and_zero_eq)
  then show ?thesis by (simp add: bit.conj_disj_distrib2)
qed

text \<open>C13. DAA after an ADD of two packed decimal bytes leaves the packed decimal sum modulo 100 in AL
  and sets the carry exactly when the sum reached 100.\<close>

theorem daa_after_add:
  assumes "a0 \<le> 9" "a1 \<le> 9" "b0 \<le> 9" "b1 \<le> 9"
    and env: "cc_op env = CC_OP_ADDB" "cc_src env = of_nat (packed a1 a0)"
      "cc_dst env = of_nat (packed a1 a0 + packed b1 b0)"
      "regs env R_EAX AND 0xff = of_nat ((packed a1 a0 + packed b1 b0) mod 256)"
  defines "v \<equiv> (10 * a1 + a0) + (10 * b1 + b0)"
  shows "regs (helper_daa env) R_EAX AND 0xff = of_nat (packed (v mod 100 div 10) (v mod 10)) \<and>
    (cc_src (helper_daa env) AND CC_C = of_bool (100 \<le> v))"
proof -
  let ?x = "of_nat (packed a1 a0) :: target_ulong" and ?y = "of_nat (packed b1 b0) :: target_ulong"
  have fl: "cpu_cc_compute_all env CC_OP_ADDB = add_flags 8 ?x ?y False"
    using cc_add_flags [where n = 8 and env = env and x = ?x and y = ?y and c = False] env
    by (simp add: cpu_cc_compute_all_def add_op_def cc_size_def data_bits_def)
  have al: "al_of env = of_nat ((packed a1 a0 + packed b1 b0) mod 256)"
    unfolding al_of_def env(4) by (rule of_nat_small) simp
  have p: "packed a1 a0 + packed b1 b0 = 16 * (a1 + b1) + (a0 + b0)" by (simp add: packed_def)
  have lt: "packed a1 a0 < 256" "packed b1 b0 < 256" using assms(1-4) by (simp_all add: packed_def)
  have digits: "packed a1 a0 mod 16 = a0" "packed b1 b0 mod 16 = b0"
    using assms(1-4) by (simp_all add: packed_def)
  have af: "(add_flags 8 ?x ?y False AND CC_A \<noteq> 0) = (16 \<le> a0 + b0)"
    and cf: "(add_flags 8 ?x ?y False AND CC_C \<noteq> 0) = (256 \<le> 16 * (a1 + b1) + (a0 + b0))"
    unfolding and_pow2 add_flags_af_cf p [symmetric] using uval_of_nat [OF lt(1)] uval_of_nat [OF lt(2)] digits
    by (simp_all flip: of_nat_add)
  define X where "X = packed (v mod 100 div 10) (v mod 10)"
  have X: "X < 256"
  proof -
    have "v mod 100 div 10 \<le> 9" "v mod 10 \<le> 9" by simp_all
    then show ?thesis unfolding X_def packed_def by linarith
  qed
  have v': "10 * (a1 + b1) + (a0 + b0) = v" by (simp add: v_def)
  have X': "16 * (v mod 100 div 10) + v mod 10 = X" by (simp add: X_def packed_def)
  have adj: "daa_adjust (al_of env) (16 \<le> a0 + b0) (256 \<le> 16 * (a1 + b1) + (a0 + b0)) =
      (of_nat X, of_bool (100 \<le> v) OR push_bit 4 (of_bool (10 \<le> a0 + b0)))"
    unfolding al p v' [symmetric] X' [symmetric] by (rule daa_adjust_sum) (use assms(1-4) in simp_all)
  have res: "helper_daa env =
      (set_reg R_EAX ((regs env R_EAX AND NOT 0xff) OR of_nat X) env)
        \<lparr>cc_src := scast ((of_bool (100 \<le> v) OR push_bit 4 (of_bool (10 \<le> a0 + b0))) OR szp_flags (of_nat X))\<rparr>"
    unfolding helper_daa_def env(1) fl Let_def af cf adj prod.case of_nat_small(2) [OF X] by simp
  show ?thesis
    unfolding res X_def [symmetric] using of_nat_small(4) [OF X] szp_no_carry [OF X]
    by (simp add: set_reg_def low_byte_set [simplified] and_one_bit vx_bits bit_signed_iff)
qed

lemma rcl_rcr_inverse_witness:
  "let env = zero_env\<lparr>cc_op := CC_OP_EFLAGS, cc_src := 1\<rparr>;
       (r, env1) = helper_rcl 8 env 0x81 2;
       (r', env2) = helper_rcr 8 (env1\<lparr>cc_src := cc_tmp env1, cc_op := CC_OP_EFLAGS\<rparr>) r 2
   in take_bit 8 r' = 0x81 \<and> bit (cc_tmp env2) 0"
  using rcl_rcr_inverse [of 8 2 "zero_env\<lparr>cc_op := CC_OP_EFLAGS, cc_src := 1\<rparr>" "0x81",
      OF _ _ surjective_pairing surjective_pairing]
  by (simp add: data_bits_def rotate_count_def rclb_table_def carry_in_def Let_def case_prod_beta
      helper_cc_compute_all_def compute_all_eflags_def)

lemma daa_after_add_witness:
  "regs (helper_daa (zero_env\<lparr>cc_op := CC_OP_ADDB, cc_src := 0x58, cc_dst := 0xBF, regs := \<lambda>_. 0xBF\<rparr>)) R_EAX
    AND 0xff = 0x25"
  using daa_after_add [of 8 5 7 6 "zero_env\<lparr>cc_op := CC_OP_ADDB, cc_src := 0x58, cc_dst := 0xBF, regs := \<lambda>_. 0xBF\<rparr>"]
  by (simp add: packed_def)

end
