(* ===== verification/Tlb.thy ===== *)
theory Tlb
  imports CondCodes
begin

text \<open>
  \<open>vx64/qemu/cputlb.c\<close>: the software TLB, with the jump-cache flush of
  \<open>translate-all.c\<close> it calls and the IOTLB value \<open>memory_region_section_get_iotlb\<close> of
  \<open>exec.c\<close>. The physical section behind a page and the dirty bits of RAM come from the memory
  system; they are the arguments \<open>section\<close> and \<open>dirty\<close> of \<open>tlb_set_page\<close>.
\<close>

abbreviation (input) CPU_TLB_SIZE :: nat where "CPU_TLB_SIZE \<equiv> 256"
abbreviation (input) NB_MMU_MODES :: nat where "NB_MMU_MODES \<equiv> 3"
abbreviation (input) TLB_INVALID_MASK :: "'a::len word" where "TLB_INVALID_MASK \<equiv> 0x8"
abbreviation (input) TLB_NOTDIRTY :: "'a::len word" where "TLB_NOTDIRTY \<equiv> 0x10"
abbreviation (input) TLB_MMIO :: "'a::len word" where "TLB_MMIO \<equiv> 0x20"
abbreviation (input) PAGE_READ :: u32 where "PAGE_READ \<equiv> 1"
abbreviation (input) PAGE_WRITE :: u32 where "PAGE_WRITE \<equiv> 2"
abbreviation (input) PAGE_EXEC :: u32 where "PAGE_EXEC \<equiv> 4"
abbreviation (input) BP_MEM_READ :: u32 where "BP_MEM_READ \<equiv> 1"

text \<open>What the code reads of a \<open>MemoryRegionSection\<close>; \<open>ts_addr\<close> is
  \<open>memory_region_section_addr\<close>, \<open>ts_index\<close> the position in \<open>phys_sections\<close>.\<close>

record tlb_section =
  ts_ram :: bool
  ts_romd :: bool
  ts_readonly :: bool
  ts_ram_ptr :: u64
  ts_ram_addr :: u64
  ts_addr :: "u64 \<Rightarrow> u64"
  ts_index :: u64

text \<open>The section numbers \<open>core_begin\<close> registers first.\<close>

abbreviation (input) phys_section_notdirty :: u64 where "phys_section_notdirty \<equiv> 1"
abbreviation (input) phys_section_rom :: u64 where "phys_section_rom \<equiv> 2"
abbreviation (input) phys_section_watch :: u64 where "phys_section_watch \<equiv> 3"

subsection \<open>The jump cache\<close>

definition tb_jmp_cache_hash_page :: "target_ulong \<Rightarrow> nat" where
  "tb_jmp_cache_hash_page pc =
    (let tmp = pc XOR drop_bit (12 - 6) pc in unat (drop_bit (12 - 6) tmp AND 0xFC0))"

definition tb_jmp_cache_hash_func :: "target_ulong \<Rightarrow> nat" where
  "tb_jmp_cache_hash_func pc =
    (let tmp = pc XOR drop_bit (12 - 6) pc
     in unat ((drop_bit (12 - 6) tmp AND 0xFC0) OR (tmp AND 0x3F)))"

definition tb_flush_jmp_cache :: "cpu_state \<Rightarrow> target_ulong \<Rightarrow> cpu_state" where
  "tb_flush_jmp_cache env addr =
    (let i = tb_jmp_cache_hash_page (addr - TARGET_PAGE_SIZE);
         env = env\<lparr>tb_jmp_cache := (\<lambda>k. if i \<le> k \<and> k < i + 64 then None else tb_jmp_cache env k)\<rparr>;
         i = tb_jmp_cache_hash_page addr
     in env\<lparr>tb_jmp_cache := (\<lambda>k. if i \<le> k \<and> k < i + 64 then None else tb_jmp_cache env k)\<rparr>)"

subsection \<open>Flushing\<close>

definition s_cputlb_empty_entry :: tlb_entry where
  "s_cputlb_empty_entry = \<lparr>addr_read = -1, addr_write = -1, addr_code = -1, addend = -1\<rparr>"

definition tlb_flush :: "cpu_state \<Rightarrow> cpu_state" where
  "tlb_flush env =
    env\<lparr>current_tb := None,
      tlb_table := (\<lambda>m i. if m < NB_MMU_MODES \<and> i < CPU_TLB_SIZE then s_cputlb_empty_entry
        else tlb_table env m i),
      tb_jmp_cache := (\<lambda>k. if k < 4096 then None else tb_jmp_cache env k),
      tlb_flush_addr := -1, tlb_flush_mask := 0\<rparr>"

definition tlb_flush_entry :: "target_ulong \<Rightarrow> tlb_entry \<Rightarrow> tlb_entry" where
  "tlb_flush_entry addr e =
    (if addr = addr_read e AND (TARGET_PAGE_MASK OR TLB_INVALID_MASK)
        \<or> addr = addr_write e AND (TARGET_PAGE_MASK OR TLB_INVALID_MASK)
        \<or> addr = addr_code e AND (TARGET_PAGE_MASK OR TLB_INVALID_MASK)
     then s_cputlb_empty_entry else e)"

definition tlb_index :: "target_ulong \<Rightarrow> nat" where
  "tlb_index addr = unat (drop_bit TARGET_PAGE_BITS addr AND 0xFF)"

text \<open>The loop over the MMU modes, applying \<open>f\<close> to the entry at \<open>i\<close>.\<close>

definition tlb_modify :: "nat \<Rightarrow> (tlb_entry \<Rightarrow> tlb_entry) \<Rightarrow> cpu_state \<Rightarrow> cpu_state" where
  "tlb_modify i f env =
    env\<lparr>tlb_table := (\<lambda>m k. if m < NB_MMU_MODES \<and> k = i then f (tlb_table env m k) else tlb_table env m k)\<rparr>"

definition tlb_flush_page :: "cpu_state \<Rightarrow> target_ulong \<Rightarrow> cpu_state" where
  "tlb_flush_page env addr =
    (if addr AND tlb_flush_mask env = tlb_flush_addr env then tlb_flush env
     else let env = env\<lparr>current_tb := None\<rparr>;
              addr = addr AND TARGET_PAGE_MASK;
              env = tlb_modify (tlb_index addr) (tlb_flush_entry addr) env
          in tb_flush_jmp_cache env addr)"

subsection \<open>Dirty tracking\<close>

definition tlb_is_dirty_ram :: "tlb_entry \<Rightarrow> bool" where
  "tlb_is_dirty_ram e \<longleftrightarrow> addr_write e AND (TLB_INVALID_MASK OR TLB_MMIO OR TLB_NOTDIRTY) = 0"

definition tlb_reset_dirty_range :: "u64 \<Rightarrow> u64 \<Rightarrow> tlb_entry \<Rightarrow> tlb_entry" where
  "tlb_reset_dirty_range start length' e =
    (if tlb_is_dirty_ram e then
       let addr = (addr_write e AND TARGET_PAGE_MASK) + addend e
       in if addr - start < length' then e\<lparr>addr_write := addr_write e OR TLB_NOTDIRTY\<rparr> else e
     else e)"

definition cpu_tlb_reset_dirty_all :: "u64 \<Rightarrow> u64 \<Rightarrow> cpu_state list \<Rightarrow> cpu_state list" where
  "cpu_tlb_reset_dirty_all start1 length' cpus =
    map (\<lambda>env. env\<lparr>tlb_table := (\<lambda>m i.
           if m < NB_MMU_MODES \<and> i < CPU_TLB_SIZE
           then tlb_reset_dirty_range start1 length' (tlb_table env m i) else tlb_table env m i)\<rparr>) cpus"

definition tlb_set_dirty1 :: "target_ulong \<Rightarrow> tlb_entry \<Rightarrow> tlb_entry" where
  "tlb_set_dirty1 vaddr e =
    (if addr_write e = vaddr OR TLB_NOTDIRTY then e\<lparr>addr_write := vaddr\<rparr> else e)"

definition tlb_set_dirty :: "cpu_state \<Rightarrow> target_ulong \<Rightarrow> cpu_state" where
  "tlb_set_dirty env vaddr =
    (let vaddr = vaddr AND TARGET_PAGE_MASK in tlb_modify (tlb_index vaddr) (tlb_set_dirty1 vaddr) env)"

subsection \<open>Large pages\<close>

text \<open>The index of the lowest set bit; it grows with every round of the loop below.\<close>

definition trailing :: "target_ulong \<Rightarrow> nat" where
  "trailing m = (if m = 0 then 64 else (LEAST k. bit m k))"

lemma trailing_bit: "m \<noteq> 0 \<Longrightarrow> bit m (trailing m) \<and> (\<forall>j < trailing m. \<not> bit m j) \<and> trailing m < 64"
proof -
  assume "m \<noteq> 0"
  then obtain k where k: "bit m k" by (auto simp: bit_eq_iff)
  then have b: "bit m (LEAST k. bit m k)" by (rule LeastI)
  then show ?thesis
    using \<open>m \<noteq> 0\<close> bit_imp_le_length [OF b] not_less_Least by (auto simp: trailing_def)
qed

lemma trailing_shift: "m \<noteq> 0 \<Longrightarrow> trailing m < trailing (push_bit 1 m)"
proof (cases "push_bit 1 m = 0")
  case True
  assume "m \<noteq> 0"
  with True show ?thesis using trailing_bit [of m] by (simp add: trailing_def)
next
  case False
  assume m: "m \<noteq> 0"
  note b = trailing_bit [OF m] and p = trailing_bit [OF False]
  have "1 \<le> trailing (push_bit 1 m)" "bit m (trailing (push_bit 1 m) - 1)"
    using p by (auto simp only: bit_push_bit_iff)
  then have "\<not> trailing (push_bit 1 m) - 1 < trailing m" using b by blast
  then show ?thesis using \<open>1 \<le> trailing (push_bit 1 m)\<close> by linarith
qed

function widen_mask :: "target_ulong \<Rightarrow> target_ulong \<Rightarrow> target_ulong" where
  "widen_mask d m = (if d AND m \<noteq> 0 then widen_mask d (push_bit 1 m) else m)"
  by auto

termination
proof (relation "measure (\<lambda>(d, m). 64 - trailing m)")
  fix d m :: target_ulong
  assume "d AND m \<noteq> 0"
  then have "m \<noteq> 0" by auto
  then show "((d, push_bit 1 m), d, m) \<in> measure (\<lambda>(d, m). 64 - trailing m)"
    using trailing_shift [of m] trailing_bit [of m] by auto
qed simp

declare widen_mask.simps [simp del]

definition tlb_add_large_page :: "cpu_state \<Rightarrow> target_ulong \<Rightarrow> target_ulong \<Rightarrow> cpu_state" where
  "tlb_add_large_page env vaddr size' =
    (let mask' = NOT (size' - 1)
     in if tlb_flush_addr env = -1 then
          env\<lparr>tlb_flush_addr := vaddr AND mask', tlb_flush_mask := mask'\<rparr>
        else
          let mask' = mask' AND tlb_flush_mask env;
              mask' = widen_mask (tlb_flush_addr env XOR vaddr) mask'
          in env\<lparr>tlb_flush_addr := tlb_flush_addr env AND mask', tlb_flush_mask := mask'\<rparr>)"

subsection \<open>Adding an entry\<close>

definition watched_page :: "cpu_state \<Rightarrow> target_ulong \<Rightarrow> u32 \<Rightarrow> bool" where
  "watched_page env vaddr prot \<longleftrightarrow>
    (\<exists>wp \<in> set (watchpoints env). vaddr = wp_vaddr wp AND TARGET_PAGE_MASK
       \<and> (prot AND PAGE_WRITE \<noteq> 0 \<or> wp_flags wp AND BP_MEM_READ \<noteq> 0))"

definition memory_region_section_get_iotlb ::
  "cpu_state \<Rightarrow> tlb_section \<Rightarrow> target_ulong \<Rightarrow> u64 \<Rightarrow> u32 \<Rightarrow> target_ulong \<Rightarrow> u64 \<times> target_ulong" where
  "memory_region_section_get_iotlb env s vaddr paddr prot address =
    (let iotlb' = (if ts_ram s then
           ((ts_ram_addr s AND TARGET_PAGE_MASK) + ts_addr s paddr)
             OR (if \<not> ts_readonly s then phys_section_notdirty else phys_section_rom)
         else ts_index s + ts_addr s paddr)
     in if watched_page env vaddr prot then (phys_section_watch + paddr, address OR TLB_MMIO)
        else (iotlb', address))"

definition tlb_set_page ::
  "(u64 \<Rightarrow> tlb_section) \<Rightarrow> (u64 \<Rightarrow> bool) \<Rightarrow> cpu_state \<Rightarrow> target_ulong \<Rightarrow> u64 \<Rightarrow> u32 \<Rightarrow> nat
    \<Rightarrow> target_ulong \<Rightarrow> cpu_state outcome" where
  "tlb_set_page sect dirty env vaddr paddr prot mmu_idx size' =
    (if size' < TARGET_PAGE_SIZE then Abort
     else
       let env = (if size' \<noteq> TARGET_PAGE_SIZE then tlb_add_large_page env vaddr size' else env);
           s = sect (drop_bit TARGET_PAGE_BITS paddr);
           address = (if \<not> (ts_ram s \<or> ts_romd s) then vaddr OR TLB_MMIO else vaddr);
           host = (if ts_ram s \<or> ts_romd s then ts_ram_ptr s + ts_addr s paddr else 0);
           code_address = address;
           (io, address) = memory_region_section_get_iotlb env s vaddr paddr prot address;
           index = tlb_index vaddr;
           te = \<lparr>addr_read = (if prot AND PAGE_READ \<noteq> 0 then address else -1),
                 addr_write =
                   (if prot AND PAGE_WRITE \<noteq> 0 then
                      if (ts_ram s \<and> ts_readonly s) \<or> ts_romd s then address OR TLB_MMIO
                      else if ts_ram s \<and> \<not> dirty (ts_ram_addr s + ts_addr s paddr)
                      then address OR TLB_NOTDIRTY
                      else address
                    else -1),
                 addr_code = (if prot AND PAGE_EXEC \<noteq> 0 then code_address else -1),
                 addend = host - vaddr\<rparr>
       in Done (env\<lparr>iotlb := (iotlb env)(mmu_idx := (iotlb env mmu_idx)(index := io - vaddr)),
            tlb_table := (tlb_table env)(mmu_idx := (tlb_table env mmu_idx)(index := te))\<rparr>))"

subsection \<open>Runs of TLB operations\<close>

text \<open>
  A run of the TLB from a flush, with the large pages mapped since the last full flush. The last rule
  stands for everything the CPU does that leaves the TLB alone.
\<close>

inductive tlb_run :: "cpu_state \<Rightarrow> (target_ulong \<times> target_ulong) list \<Rightarrow> bool" where
  run_start: "tlb_run (tlb_flush env) []"
| run_flush: "tlb_run env L \<Longrightarrow> tlb_run (tlb_flush env) []"
| run_flush_page: "tlb_run env L \<Longrightarrow>
    tlb_run (tlb_flush_page env a) (if a AND tlb_flush_mask env = tlb_flush_addr env then [] else L)"
| run_set_page: "tlb_run env L \<Longrightarrow> tlb_set_page sect dirty env v p prot m (push_bit k 1) = Done env' \<Longrightarrow>
    12 \<le> k \<Longrightarrow> k < 64 \<Longrightarrow> v AND 0xFFF = 0 \<Longrightarrow>
    tlb_run env' (if k = 12 then L else (v, push_bit k 1) # L)"
| run_set_dirty: "tlb_run env L \<Longrightarrow> tlb_run (tlb_set_dirty env a) L"
| run_reset_dirty: "tlb_run env L \<Longrightarrow> cpu_tlb_reset_dirty_all s l [env] = [env'] \<Longrightarrow> tlb_run env' L"
| run_other: "tlb_run env L \<Longrightarrow> tlb_table env' = tlb_table env \<Longrightarrow> tlb_flush_addr env' = tlb_flush_addr env \<Longrightarrow>
    tlb_flush_mask env' = tlb_flush_mask env \<Longrightarrow> tlb_run env' L"

inductive_cases tlb_run_elim: "tlb_run env L"

definition addr_ok :: "nat \<Rightarrow> target_ulong \<Rightarrow> bool" where
  "addr_ok i x \<longleftrightarrow> x = -1 \<or> (\<not> bit x 3 \<and> tlb_index x = i)"

definition entry_ok :: "nat \<Rightarrow> tlb_entry \<Rightarrow> bool" where
  "entry_ok i e \<longleftrightarrow> addr_ok i (addr_read e) \<and> addr_ok i (addr_write e) \<and> addr_ok i (addr_code e)"

definition table_ok :: "cpu_state \<Rightarrow> bool" where
  "table_ok env \<longleftrightarrow> (\<forall>m < NB_MMU_MODES. \<forall>i < CPU_TLB_SIZE. entry_ok i (tlb_table env m i))"

lemma empty_ok [simp]: "entry_ok i s_cputlb_empty_entry"
  by (simp add: entry_ok_def addr_ok_def s_cputlb_empty_entry_def)

lemma tlb_index_less [simp]: "tlb_index a < 256"
proof -
  have "drop_bit 12 a AND 0xFF \<le> 0xFF" by (rule word_and_le1)
  then show ?thesis by (simp add: tlb_index_def word_le_nat_alt)
qed

lemma tlb_index_or: "tlb_index (a OR 0x10) = tlb_index a" "tlb_index (a OR 0x20) = tlb_index a"
  by (simp_all add: tlb_index_def drop_bit_or)

lemma tlb_index_page: "tlb_index (a AND - 4096) = tlb_index a"
  unfolding tlb_index_def drop_page_mask ..

lemmas tlb_index_low = tlb_index_or tlb_index_page

lemma bit3_flags: "bit ((a :: u64) OR 0x10) 3 = bit a 3" "bit ((a :: u64) OR 0x20) 3 = bit a 3"
  by (simp_all add: vx_bits)

lemma addr_ok_or: "\<not> bit a 3 \<Longrightarrow> tlb_index a = i \<Longrightarrow> addr_ok i (a OR 0x10) \<and> addr_ok i (a OR 0x20)"
  by (simp add: addr_ok_def tlb_index_low bit3_flags)

lemma flush_entry_ok: "entry_ok i e \<Longrightarrow> entry_ok i (tlb_flush_entry a e)"
  by (simp add: tlb_flush_entry_def)

lemma reset_dirty_ok: "entry_ok i e \<Longrightarrow> entry_ok i (tlb_reset_dirty_range s l e)"
  by (auto simp: entry_ok_def addr_ok_def tlb_reset_dirty_range_def tlb_is_dirty_ram_def Let_def
      tlb_index_low bit3_flags)

lemma set_dirty1_ok: "entry_ok i e \<Longrightarrow> entry_ok i (tlb_set_dirty1 (a AND - 4096) e)"
proof -
  have "addr_ok i ((a AND - 4096) OR 0x10) \<Longrightarrow> addr_ok i (a AND - 4096)"
  proof -
    have "bit (-1 :: u64) 0" "\<not> bit ((a AND - 4096) OR 0x10) 0" by (simp_all add: vx_bits)
    then have "(a AND - 4096) OR 0x10 \<noteq> -1" by metis
    then show "addr_ok i ((a AND - 4096) OR 0x10) \<Longrightarrow> addr_ok i (a AND - 4096)"
      by (simp add: addr_ok_def tlb_index_low bit3_flags)
  qed
  then show "entry_ok i e \<Longrightarrow> ?thesis"
    by (auto simp: entry_ok_def tlb_set_dirty1_def)
qed

lemma table_ok_flush [vx_inv]: "table_ok (tlb_flush env)"
  by (simp add: table_ok_def tlb_flush_def)

lemma table_ok_modify:
  "table_ok env \<Longrightarrow> (\<And>e. entry_ok i e \<Longrightarrow> entry_ok i (f e)) \<Longrightarrow> table_ok (tlb_modify i f env)"
  by (simp add: table_ok_def tlb_modify_def)

lemma table_ok_cong: "tlb_table env' = tlb_table env \<Longrightarrow> table_ok env' = table_ok env"
  by (simp add: table_ok_def)

lemma jmp_cache_frame [vx_frame]:
  "tlb_table (tb_flush_jmp_cache env a) = tlb_table env"
  "tlb_flush_addr (tb_flush_jmp_cache env a) = tlb_flush_addr env"
  "tlb_flush_mask (tb_flush_jmp_cache env a) = tlb_flush_mask env"
  by (simp_all add: tb_flush_jmp_cache_def Let_def)

lemma large_page_frame [vx_frame]: "tlb_table (tlb_add_large_page env v s) = tlb_table env"
  by (simp add: tlb_add_large_page_def Let_def)

lemma table_ok_flush_page [vx_inv]: "table_ok env \<Longrightarrow> table_ok (tlb_flush_page env a)"
proof -
  assume "table_ok env"
  then have "table_ok (tlb_modify (tlb_index (a AND - 4096)) (tlb_flush_entry (a AND - 4096)) (env\<lparr>current_tb := None\<rparr>))"
    by (intro table_ok_modify flush_entry_ok) (simp_all add: table_ok_def)
  then show ?thesis
    by (simp add: tlb_flush_page_def table_ok_flush Let_def table_ok_cong [OF jmp_cache_frame(1)])
qed

definition plain_ok :: "nat \<Rightarrow> target_ulong \<Rightarrow> bool" where
  "plain_ok i x \<longleftrightarrow> \<not> bit x 3 \<and> tlb_index x = i"

lemma plain_ok_or [simp]: "plain_ok i x \<Longrightarrow> plain_ok i (x OR 0x10)" "plain_ok i x \<Longrightarrow> plain_ok i (x OR 0x20)"
  by (simp_all add: plain_ok_def tlb_index_low bit3_flags)

lemma plain_addr_ok [simp]: "plain_ok i x \<Longrightarrow> addr_ok i x" "addr_ok i (-1)"
  by (simp_all add: plain_ok_def addr_ok_def)

lemma set_page_entry:
  assumes "tlb_set_page sect dirty env v p prot m s = Done env'" "v AND 0xFFF = 0"
  obtains te x where "entry_ok (tlb_index v) te"
    "env' = (if s \<noteq> 0x1000 then tlb_add_large_page env v s else env)
       \<lparr>iotlb := x, tlb_table := (tlb_table env)(m := (tlb_table env m)(tlb_index v := te))\<rparr>"
proof -
  have v: "plain_ok (tlb_index v) v"
    using assms(2) unfolding page_aligned_iff plain_ok_def by simp
  obtain io a where io: "memory_region_section_get_iotlb
      (if s \<noteq> 0x1000 then tlb_add_large_page env v s else env) (sect (drop_bit 12 p)) v p prot
      (if \<not> (ts_ram (sect (drop_bit 12 p)) \<or> ts_romd (sect (drop_bit 12 p))) then v OR 0x20 else v) = (io, a)"
    by fastforce
  then have a: "plain_ok (tlb_index v) a"
    using v by (auto simp: memory_region_section_get_iotlb_def Let_def split: if_splits)
  define S where "S = sect (drop_bit 12 p)"
  define c where "c = (if \<not> (ts_ram S \<or> ts_romd S) then v OR 0x20 else v)"
  define te where "te = \<lparr>addr_read = (if prot AND 1 \<noteq> 0 then a else -1),
      addr_write = (if prot AND 2 \<noteq> 0 then
          if (ts_ram S \<and> ts_readonly S) \<or> ts_romd S then a OR 0x20
          else if ts_ram S \<and> \<not> dirty (ts_ram_addr S + ts_addr S p) then a OR 0x10 else a
        else -1),
      addr_code = (if prot AND 4 \<noteq> 0 then c else -1),
      addend = (if ts_ram S \<or> ts_romd S then ts_ram_ptr S + ts_addr S p else 0) - v\<rparr>"
  have s: "\<not> s < 0x1000" using assms(1) by (auto simp: tlb_set_page_def)
  define e1 where "e1 = (if s \<noteq> 0x1000 then tlb_add_large_page env v s else env)"
  have e1: "tlb_table e1 = tlb_table env" by (simp add: e1_def vx_frame)
  have "env' = e1\<lparr>iotlb := (iotlb e1)(m := (iotlb e1 m)(tlb_index v := io - v)),
      tlb_table := (tlb_table env)(m := (tlb_table env m)(tlb_index v := te))\<rparr>"
    using assms(1) s io unfolding tlb_set_page_def Let_def te_def c_def S_def e1_def [symmetric]
    by (simp only: if_False prod.case outcome.inject e1)
  moreover have "entry_ok (tlb_index v) te"
    unfolding entry_ok_def te_def using a v by (simp add: c_def)
  ultimately show ?thesis using that unfolding e1_def by blast
qed

lemma table_ok_set_page:
  assumes "table_ok env" "tlb_set_page sect dirty env v p prot m s = Done env'" "v AND 0xFFF = 0"
  shows "table_ok env'"
proof -
  obtain te x where "entry_ok (tlb_index v) te"
      "env' = (if s \<noteq> 0x1000 then tlb_add_large_page env v s else env)
         \<lparr>iotlb := x, tlb_table := (tlb_table env)(m := (tlb_table env m)(tlb_index v := te))\<rparr>"
    using assms(2,3) by (rule set_page_entry)
  with assms(1) show ?thesis by (simp add: table_ok_def)
qed

subsection \<open>The region of large pages\<close>

lemma shift_high_mask: "push_bit 1 (NOT (mask k) :: u64) = NOT (mask (Suc k))"
  by (rule bit_word_eqI) (simp only: bit_push_bit_iff bit_not_iff bit_mask_iff, auto)

lemma widen_high_mask:
  "k \<le> 64 \<Longrightarrow> \<exists>j. k \<le> j \<and> j \<le> 64 \<and> widen_mask d (NOT (mask k)) = NOT (mask j) \<and> d AND NOT (mask j) = 0"
proof (induction "64 - k" arbitrary: k)
  case 0
  then have "k = 64" by simp
  then have "(NOT (mask k) :: u64) = 0" by (intro bit_word_eqI) (simp add: bit_not_iff bit_mask_iff)
  then show ?case using 0 by (intro exI [of _ k]) (simp add: widen_mask.simps)
next
  case (Suc n)
  show ?case
  proof (cases "d AND NOT (mask k) = 0")
    case True
    then show ?thesis using Suc.prems by (intro exI [of _ k]) (simp add: widen_mask.simps)
  next
    case False
    have "\<exists>j. Suc k \<le> j \<and> j \<le> 64 \<and> widen_mask d (NOT (mask (Suc k))) = NOT (mask j) \<and> d AND NOT (mask j) = 0"
      using Suc.hyps by (intro Suc.hyps(1)) auto
    moreover have "widen_mask d (NOT (mask k)) = widen_mask d (NOT (mask (Suc k)))"
      using False by (subst widen_mask.simps) (simp only: shift_high_mask if_True simp_thms)
    ultimately show ?thesis by (auto intro: Suc_leD)
  qed
qed

lemma high_mask_and: "(NOT (mask j) :: u64) AND NOT (mask k) = NOT (mask (max j k))"
  by (rule bit_word_eqI) (auto simp: bit_and_iff bit_not_iff bit_mask_iff)

lemma size_mask: "k < 64 \<Longrightarrow> (NOT (push_bit k 1 - 1) :: u64) = NOT (mask k)"
  by (simp add: mask_eq_exp_minus_1 push_bit_eq_mult)

lemma size_mask_pow: "(NOT (2 ^ k - 1) :: u64) = NOT (mask k)"
  by (simp add: mask_eq_exp_minus_1)

definition in_region :: "cpu_state \<Rightarrow> nat \<Rightarrow> target_ulong \<times> target_ulong \<Rightarrow> bool" where
  "in_region env k p \<longleftrightarrow> fst p AND tlb_flush_mask env = tlb_flush_addr env \<and> (\<exists>j \<le> k. j < 64 \<and> snd p = push_bit j 1)"

definition region_ok :: "cpu_state \<Rightarrow> (target_ulong \<times> target_ulong) list \<Rightarrow> bool" where
  "region_ok env L \<longleftrightarrow>
    (tlb_flush_addr env = -1 \<and> tlb_flush_mask env = 0 \<and> L = []) \<or>
    (\<exists>k. 1 \<le> k \<and> k \<le> 64 \<and> tlb_flush_mask env = NOT (mask k) \<and>
      tlb_flush_addr env AND tlb_flush_mask env = tlb_flush_addr env \<and>
      (\<forall>p \<in> set L. in_region env k p))"

lemma region_ok_flush [vx_inv]: "region_ok (tlb_flush env) []"
  by (simp add: region_ok_def tlb_flush_def)

lemma region_ok_cong:
  "tlb_flush_addr env' = tlb_flush_addr env \<Longrightarrow> tlb_flush_mask env' = tlb_flush_mask env \<Longrightarrow>
    region_ok env' L = region_ok env L"
  by (simp add: region_ok_def in_region_def)

lemma high_mask_not_ones: "1 \<le> k \<Longrightarrow> (x :: u64) AND NOT (mask k) = x \<Longrightarrow> x \<noteq> -1"
proof
  assume "1 \<le> k" "x AND NOT (mask k) = x" "x = -1"
  then have "bit (NOT (mask k) :: u64) 0" by (metis and.commute and_one_eq bit_minus_1_iff bit_and_iff possible_bit_word len_gt_0)
  with \<open>1 \<le> k\<close> show False by (simp add: bit_not_iff bit_mask_iff)
qed

lemma xor_and_zero: "((x :: u64) XOR y) AND m = 0 \<Longrightarrow> x AND m = y AND m"
  by (simp add: bit_eq_iff bit_and_iff bit_xor_iff) metis

lemma region_ok_large:
  assumes "region_ok env L" "12 \<le> k" "k < 64"
  shows "region_ok (tlb_add_large_page env v (push_bit k 1)) ((v, push_bit k 1) # L)"
proof (cases "tlb_flush_addr env = -1")
  case True
  have "L = []"
    using assms(1) True high_mask_not_ones unfolding region_ok_def by metis
  then show ?thesis
    using True assms(2,3)
    by (auto simp: region_ok_def in_region_def tlb_add_large_page_def size_mask_pow Let_def and.assoc
        intro!: exI [of _ k])
next
  case False
  then obtain r where r: "1 \<le> r" "r \<le> 64" "tlb_flush_mask env = NOT (mask r)"
      "tlb_flush_addr env AND tlb_flush_mask env = tlb_flush_addr env" "\<forall>p \<in> set L. in_region env r p"
    using assms(1) by (auto simp: region_ok_def)
  obtain j where j: "max k r \<le> j" "j \<le> 64"
      "widen_mask (tlb_flush_addr env XOR v) (NOT (mask (max k r))) = NOT (mask j)"
      "(tlb_flush_addr env XOR v) AND NOT (mask j) = 0"
    using widen_high_mask [of "max k r" "tlb_flush_addr env XOR v"] assms(3) r(2) by auto
  let ?e = "tlb_add_large_page env v (push_bit k 1)"
  have e: "tlb_flush_mask ?e = NOT (mask j)" "tlb_flush_addr ?e = tlb_flush_addr env AND NOT (mask j)"
    using False by (simp_all add: tlb_add_large_page_def Let_def size_mask_pow assms(3) r(3) high_mask_and j(3))
  have "in_region ?e j (v, push_bit k 1)"
    unfolding in_region_def e fst_conv snd_conv using xor_and_zero [OF j(4)] j(1) assms(3)
    by (auto intro: exI [of _ k])
  moreover have "in_region ?e j p" if "p \<in> set L" for p
  proof -
    have p: "fst p AND NOT (mask r) = tlb_flush_addr env" "\<exists>i \<le> r. i < 64 \<and> snd p = push_bit i 1"
      using r(3,5) that by (auto simp: in_region_def)
    have "fst p AND NOT (mask j) = (fst p AND NOT (mask r)) AND NOT (mask j)"
      using j(1) by (simp add: and.assoc high_mask_and max_absorb2)
    then show ?thesis
      unfolding in_region_def e using p j(1) by (auto intro: order_trans)
  qed
  ultimately show ?thesis
    unfolding region_ok_def e using j r(1) by (intro disjI2 exI [of _ j]) (auto simp: and.assoc)
qed

lemma region_ok_set_page:
  assumes "tlb_set_page sect dirty env v p prot m (push_bit k 1) = Done env'" "v AND 0xFFF = 0"
    "region_ok env L" "12 \<le> k" "k < 64"
  shows "region_ok env' (if k = 12 then L else (v, push_bit k 1) # L)"
proof -
  obtain te x where e: "env' = (if (push_bit k 1 :: target_ulong) \<noteq> 0x1000 then tlb_add_large_page env v (push_bit k 1) else env)
      \<lparr>iotlb := x, tlb_table := (tlb_table env)(m := (tlb_table env m)(tlb_index v := te))\<rparr>"
    using assms(1,2) by (rule set_page_entry)
  have k: "(push_bit k 1 :: target_ulong) = 0x1000 \<longleftrightarrow> k = 12"
  proof
    assume "(push_bit k 1 :: target_ulong) = 0x1000"
    then have "bit (push_bit k 1 :: target_ulong) 12" by (simp add: vx_bits)
    then show "k = 12" by (simp only: bit_push_bit_iff bit_1_iff, simp)
  qed (simp add: push_bit_eq_mult)
  have "region_ok env' M = region_ok (if k = 12 then env else tlb_add_large_page env v (push_bit k 1)) M" for M
    unfolding e k by (rule region_ok_cong) simp_all
  then show ?thesis using assms(3-5) region_ok_large [of env L k v] by simp
qed

lemma region_ok_flush_page [vx_inv]:
  "region_ok env L \<Longrightarrow>
    region_ok (tlb_flush_page env a) (if a AND tlb_flush_mask env = tlb_flush_addr env then [] else L)"
proof -
  assume r: "region_ok env L"
  show ?thesis
  proof (cases "a AND tlb_flush_mask env = tlb_flush_addr env")
    case True
    then show ?thesis by (simp add: tlb_flush_page_def region_ok_flush)
  next
    case False
    then have "tlb_flush_addr (tlb_flush_page env a) = tlb_flush_addr env"
      "tlb_flush_mask (tlb_flush_page env a) = tlb_flush_mask env"
      by (simp_all add: tlb_flush_page_def Let_def vx_frame tlb_modify_def)
    then show ?thesis using False r region_ok_cong [of "tlb_flush_page env a" env L] by simp
  qed
qed

lemma table_ok_set_dirty [vx_inv]: "table_ok env \<Longrightarrow> table_ok (tlb_set_dirty env a)"
  unfolding tlb_set_dirty_def Let_def
  by (rule table_ok_modify) (simp_all add: set_dirty1_ok)

lemma region_ok_set_dirty [vx_inv]: "region_ok env L \<Longrightarrow> region_ok (tlb_set_dirty env a) L"
  by (erule iffD2 [OF region_ok_cong, rotated -1]) (simp_all add: tlb_set_dirty_def tlb_modify_def Let_def)

lemma run_invariant: "tlb_run env L \<Longrightarrow> table_ok env \<and> region_ok env L"
proof (induction rule: tlb_run.induct)
  case (run_set_page env L sect dirty v p prot m k env')
  then show ?case using table_ok_set_page region_ok_set_page by blast
next
  case (run_set_dirty env L a)
  then show ?case using table_ok_set_dirty region_ok_set_dirty by blast
next
  case (run_reset_dirty env L s l env')
  then have e: "env' = env\<lparr>tlb_table := (\<lambda>m i. if m < 3 \<and> i < 256
      then tlb_reset_dirty_range s l (tlb_table env m i) else tlb_table env m i)\<rparr>"
    by (simp add: cpu_tlb_reset_dirty_all_def)
  have "table_ok env'"
    using run_reset_dirty.IH by (simp add: e table_ok_def reset_dirty_ok)
  moreover have "region_ok env' L = region_ok env L" unfolding e by (rule region_ok_cong) simp_all
  then have "region_ok env' L" using run_reset_dirty.IH by simp
  ultimately show ?case ..
next
  case (run_other env L env')
  then show ?case using table_ok_cong [of env' env] region_ok_cong [of env' env L] by simp
next
  case (run_flush_page env L a)
  then show ?case using table_ok_flush_page region_ok_flush_page by blast
qed (simp_all add: table_ok_flush region_ok_flush)

definition entry_matches :: "target_ulong \<Rightarrow> tlb_entry \<Rightarrow> bool" where
  "entry_matches a e \<longleftrightarrow> (a AND TARGET_PAGE_MASK) \<in>
    {addr_read e AND (TARGET_PAGE_MASK OR TLB_INVALID_MASK),
     addr_write e AND (TARGET_PAGE_MASK OR TLB_INVALID_MASK),
     addr_code e AND (TARGET_PAGE_MASK OR TLB_INVALID_MASK)}"

lemma page_and_index:
  assumes "addr_ok i x" "a AND - 4096 = x AND (- 4096 OR 8)"
  shows "i = tlb_index a"
proof -
  have b: "\<not> bit (a AND - 4096) 3" by (simp add: vx_bits)
  have "x \<noteq> -1"
  proof
    assume "x = -1"
    then have "bit (x AND (- 4096 OR 8)) 3" by (simp add: vx_bits)
    with assms(2) b show False by simp
  qed
  then have x: "\<not> bit x 3" "tlb_index x = i" using assms(1) by (simp_all add: addr_ok_def)
  have "x AND (- 4096 OR 8) = (x AND - 4096) OR (x AND 8)"
    by (simp only: bit.conj_disj_distrib)
  moreover have "x AND 8 = 0"
    using x(1) and_bit_mask [of x 3] by simp
  ultimately have "a AND - 4096 = x AND - 4096" using assms(2) by simp
  then show ?thesis using x(2) tlb_index_page by metis
qed

lemma matches_index: "entry_ok i e \<Longrightarrow> entry_matches a e \<Longrightarrow> i = tlb_index a"
  using page_and_index unfolding entry_matches_def entry_ok_def by (auto simp: )

lemma empty_no_match: "\<not> entry_matches a s_cputlb_empty_entry"
proof
  assume "entry_matches a s_cputlb_empty_entry"
  then have "bit (a AND - 4096) 3"
    by (auto simp: entry_matches_def s_cputlb_empty_entry_def vx_bits)
  then show False by (simp add: vx_bits)
qed

text \<open>C3. After any run of TLB operations, \<open>tlb_flush_page\<close> leaves no entry, in any MMU mode and for
  any access kind, that would translate an address of the flushed page.\<close>

theorem flush_page_drops_page:
  assumes "tlb_run env L" "m < NB_MMU_MODES" "i < CPU_TLB_SIZE"
  shows "\<not> entry_matches a (tlb_table (tlb_flush_page env a) m i)"
proof
  assume match: "entry_matches a (tlb_table (tlb_flush_page env a) m i)"
  have ok: "entry_ok i (tlb_table (tlb_flush_page env a) m i)"
    using run_invariant [OF run_flush_page [OF assms(1), of a]] assms(2,3) by (simp add: table_ok_def)
  have i: "i = tlb_index a" by (rule matches_index [OF ok match])
  show False
  proof (cases "a AND tlb_flush_mask env = tlb_flush_addr env")
    case True
    then show False
      using match assms(2,3) by (simp add: tlb_flush_page_def tlb_flush_def empty_no_match)
  next
    case False
    then have "tlb_table (tlb_flush_page env a) m i =
        tlb_flush_entry (a AND - 4096) (tlb_table env m i)"
      using assms(2) i by (simp add: tlb_flush_page_def Let_def vx_frame tlb_modify_def tlb_index_page)
    then show False
      using match empty_no_match
      by (auto simp: tlb_flush_entry_def entry_matches_def split: if_splits)
  qed
qed

definition ram_section :: "u64 \<Rightarrow> tlb_section" where
  "ram_section _ = \<lparr>ts_ram = True, ts_romd = False, ts_readonly = False, ts_ram_ptr = 0x7F0000000000,
     ts_ram_addr = 0, ts_addr = \<lambda>a. a, ts_index = 4\<rparr>"

lemma flush_page_drops_page_witness:
  "\<exists>env'. tlb_set_page ram_section (\<lambda>_. True) (tlb_flush zero_env) 0x5000 0x9000 7 1 0x1000 = Done env' \<and>
    \<not> entry_matches 0x5004 (tlb_table (tlb_flush_page env' 0x5004) 1 5)"
proof -
  obtain env' where e: "tlb_set_page ram_section (\<lambda>_. True) (tlb_flush zero_env) 0x5000 0x9000 7 1 0x1000
      = Done env'"
    by (simp add: tlb_set_page_def Let_def case_prod_beta)
  then have "tlb_run env' []"
    using run_set_page [OF run_start, of ram_section "\<lambda>_. True" zero_env "0x5000" "0x9000" 7 1 12 env']
    by simp
  from flush_page_drops_page [OF this, of 1 5 "0x5004"] e show ?thesis by simp
qed

text \<open>C4. Pages larger than the TLB's granule are flushed as a whole: after any run, flushing any address
  inside a large page mapped since the last full flush empties the TLB, however many large pages were
  merged into the tracked region.\<close>

theorem flush_inside_large_page:
  assumes "tlb_run env L" "(v, s) \<in> set L" "a AND NOT (s - 1) = v AND NOT (s - 1)"
  shows "tlb_flush_page env a = tlb_flush env"
proof -
  from run_invariant [OF assms(1)] assms(2) obtain k where k: "1 \<le> k" "k \<le> 64"
      "tlb_flush_mask env = NOT (mask k)" "in_region env k (v, s)"
    by (auto simp: region_ok_def)
  then obtain j where j: "j \<le> k" "j < 64" "s = push_bit j 1" "v AND NOT (mask k) = tlb_flush_addr env"
    by (auto simp: in_region_def)
  have "a AND NOT (mask k) = (a AND NOT (mask j)) AND NOT (mask k)"
    using j(1) by (simp add: and.assoc high_mask_and max_absorb2)
  also have "\<dots> = (v AND NOT (mask j)) AND NOT (mask k)"
    using assms(3) by (simp only: j(3) size_mask [OF j(2)])
  also have "\<dots> = tlb_flush_addr env"
    using j(1,4) by (simp add: and.assoc high_mask_and max_absorb2)
  finally show ?thesis
    using k(3) by (simp add: tlb_flush_page_def)
qed

lemma flush_inside_large_page_witness:
  "\<exists>env'. tlb_set_page ram_section (\<lambda>_. True) (tlb_flush zero_env) 0x200000 0x600000 7 1 0x200000 = Done env' \<and>
    tlb_flush_page env' 0x3FF000 = tlb_flush env'"
proof -
  obtain env' where e: "tlb_set_page ram_section (\<lambda>_. True) (tlb_flush zero_env) 0x200000 0x600000 7 1 0x200000
      = Done env'"
    by (simp add: tlb_set_page_def Let_def case_prod_beta)
  then have "tlb_run env' [(0x200000, push_bit 21 1)]"
    using run_set_page [OF run_start, of ram_section "\<lambda>_. True" zero_env "0x200000" "0x600000" 7 1 21 env']
    by simp
  from flush_inside_large_page [OF this, of "0x200000" "push_bit 21 1" "0x3FF000"] e show ?thesis
    by simp
qed

subsection \<open>The jump cache of a flushed page\<close>

lemma hash_func_split:
  "tb_jmp_cache_hash_func pc = tb_jmp_cache_hash_page pc + unat ((pc XOR drop_bit 6 pc) AND 0x3F)"
proof -
  have m: "(0x3F :: u64) = mask 6" "(0xFC0 :: u64) = push_bit 6 (mask 6)"
    by (simp_all add: mask_eq_exp_minus_1 push_bit_eq_mult)
  let ?x = "drop_bit 6 (pc XOR drop_bit 6 pc) AND 0xFC0" and ?y = "(pc XOR drop_bit 6 pc) AND 0x3F"
  have disj: "\<not> bit ?x n \<or> \<not> bit ?y n" for n
    unfolding m by (auto simp: bit_and_iff bit_push_bit_iff bit_mask_iff)
  then have "?x OR ?y = ?x + ?y" by (rule disjunctive_add [symmetric])
  moreover have "?x \<le> 0xFC0" "?y \<le> 0x3F" by (rule word_and_le1)+
  then have "unat ?x \<le> 0xFC0" "unat ?y \<le> 0x3F" by (simp_all add: word_le_nat_alt)
  then have "unat (?x + ?y) = unat ?x + unat ?y"
    by (intro unat_add_lem [THEN iffD1]) simp
  ultimately show ?thesis
    by (simp add: tb_jmp_cache_hash_func_def tb_jmp_cache_hash_page_def Let_def)
qed

lemma hash_func_range:
  "tb_jmp_cache_hash_page pc \<le> tb_jmp_cache_hash_func pc"
  "tb_jmp_cache_hash_func pc < tb_jmp_cache_hash_page pc + 64" "tb_jmp_cache_hash_func pc < 4096"
proof -
  have "(pc XOR drop_bit 6 pc) AND 0x3F \<le> 0x3F" by (rule word_and_le1)
  then have y: "unat ((pc XOR drop_bit 6 pc) AND 0x3F) \<le> 0x3F" by (simp only: word_le_nat_alt) simp
  have "drop_bit 6 (pc XOR drop_bit 6 pc) AND 0xFC0 \<le> 0xFC0" by (rule word_and_le1)
  then have "tb_jmp_cache_hash_page pc \<le> 0xFC0"
    by (simp add: tb_jmp_cache_hash_page_def Let_def word_le_nat_alt)
  with y show "tb_jmp_cache_hash_page pc \<le> tb_jmp_cache_hash_func pc"
    "tb_jmp_cache_hash_func pc < tb_jmp_cache_hash_page pc + 64" "tb_jmp_cache_hash_func pc < 4096"
    unfolding hash_func_split by simp_all
qed

lemma hash_page_of_page: "tb_jmp_cache_hash_page (pc AND - 4096) = tb_jmp_cache_hash_page pc"
proof -
  have m: "(0xFC0 :: u64) = push_bit 6 (mask 6)" by (simp add: mask_eq_exp_minus_1 push_bit_eq_mult)
  have "drop_bit 6 ((pc AND - 4096) XOR drop_bit 6 (pc AND - 4096)) AND 0xFC0
      = drop_bit 6 (pc XOR drop_bit 6 pc) AND 0xFC0"
    unfolding m
    by (rule bit_word_eqI)
      (simp only: bit_and_iff bit_drop_bit_eq comp_apply bit_xor_iff bit_page_mask bit_push_bit_iff, auto dest: bit_imp_le_length)
  then show ?thesis by (simp only: tb_jmp_cache_hash_page_def Let_def) simp
qed

text \<open>C5. Flushing a page also forgets, in the jump cache, every translated block starting in that page or
  in the page before it (a block may straddle the boundary).\<close>

theorem flush_page_drops_blocks:
  assumes "pc AND TARGET_PAGE_MASK \<in> {a AND TARGET_PAGE_MASK, (a AND TARGET_PAGE_MASK) - TARGET_PAGE_SIZE}"
  shows "tb_jmp_cache (tlb_flush_page env a) (tb_jmp_cache_hash_func pc) = None"
proof -
  have "tb_jmp_cache_hash_page pc \<in>
      {tb_jmp_cache_hash_page (a AND - 4096), tb_jmp_cache_hash_page ((a AND - 4096) - 0x1000)}"
    using assms hash_page_of_page [of pc] by auto
  then show ?thesis
    using hash_func_range [of pc]
    by (auto simp: tlb_flush_page_def tlb_flush_def tb_flush_jmp_cache_def Let_def)
qed

lemma flush_page_drops_blocks_witness:
  "tb_jmp_cache (tlb_flush_page (zero_env\<lparr>tb_jmp_cache := \<lambda>_. Some 1\<rparr>) 0x5000) (tb_jmp_cache_hash_func 0x4010) = None"
  using flush_page_drops_blocks [of "0x4010" "0x5000" "zero_env\<lparr>tb_jmp_cache := \<lambda>_. Some 1\<rparr>"] by simp

end
