(* ===== verification/Mmu.thy ===== *)
theory Mmu
  imports ExcpHelper Tlb
begin

text \<open>
  The x86 page table walk of \<open>target-i386/helper.c\<close>: \<open>cpu_x86_handle_mmu_fault\<close>, which
  checks the access, sets accessed and dirty bits in the tables and enters the translation into the TLB,
  and \<open>cpu_get_phys_page_debug\<close>, the walk of the debugger. The \<open>goto\<close>s of the handler to
  \<open>do_fault\<close> are the left summand of a walk's result, the fall-through is the right one.
\<close>

abbreviation (input) PG_PRESENT_MASK :: u64 where "PG_PRESENT_MASK \<equiv> 0x1"
abbreviation (input) PG_RW_MASK :: u64 where "PG_RW_MASK \<equiv> 0x2"
abbreviation (input) PG_USER_MASK :: u64 where "PG_USER_MASK \<equiv> 0x4"
abbreviation (input) PG_ACCESSED_MASK :: u64 where "PG_ACCESSED_MASK \<equiv> 0x20"
abbreviation (input) PG_DIRTY_MASK :: u64 where "PG_DIRTY_MASK \<equiv> 0x40"
abbreviation (input) PG_PSE_MASK :: u64 where "PG_PSE_MASK \<equiv> 0x80"
abbreviation (input) PG_HI_USER_MASK :: u64 where "PG_HI_USER_MASK \<equiv> 0x7ff0000000000000"
abbreviation (input) PG_NX_MASK :: u64 where "PG_NX_MASK \<equiv> 0x8000000000000000"
abbreviation (input) PHYS_ADDR_MASK :: u64 where "PHYS_ADDR_MASK \<equiv> 0xfffffff000"

abbreviation (input) PG_ERROR_P_MASK :: u32 where "PG_ERROR_P_MASK \<equiv> 0x01"
abbreviation (input) PG_ERROR_W_MASK :: u32 where "PG_ERROR_W_MASK \<equiv> 0x02"
abbreviation (input) PG_ERROR_U_MASK :: u32 where "PG_ERROR_U_MASK \<equiv> 0x04"
abbreviation (input) PG_ERROR_RSVD_MASK :: u32 where "PG_ERROR_RSVD_MASK \<equiv> 0x08"
abbreviation (input) PG_ERROR_I_D_MASK :: u32 where "PG_ERROR_I_D_MASK \<equiv> 0x10"

abbreviation (input) MMU_KERNEL_IDX :: nat where "MMU_KERNEL_IDX \<equiv> 0"
abbreviation (input) MMU_USER_IDX :: nat where "MMU_USER_IDX \<equiv> 1"
abbreviation (input) MMU_KSMAP_IDX :: nat where "MMU_KSMAP_IDX \<equiv> 2"

text \<open>\<open>1 << 31\<close> is a negative \<open>int\<close>; beside a 64-bit operand it is sign-extended.\<close>

abbreviation (input) CR0_PG_MASK_64 :: u64 where "CR0_PG_MASK_64 \<equiv> 0xFFFFFFFF80000000"

text \<open>\<open>offsetof(struct vmcb, control.exit_info_2)\<close>\<close>

abbreviation (input) EXIT_INFO_2_OFFSET :: u64 where "EXIT_INFO_2_OFFSET \<equiv> 0x80"

definition a20 :: "cpu_state \<Rightarrow> u64" where
  "a20 env = scast (a20_mask env)"

subsection \<open>Parts of the walk the code repeats at every level\<close>

datatype walk_stop = Stop_fault u32 | Stop_gp

text \<open>A page found: \<open>pte\<close>, \<open>ptep\<close>, \<open>page_size\<close>, \<open>virt_addr\<close>.\<close>

record walk_page =
  w_pte :: u64
  w_ptep :: u64
  w_size :: u64
  w_virt :: u64

definition entry_stop :: "cpu_state \<Rightarrow> u64 \<Rightarrow> walk_stop option" where
  "entry_stop env e =
    (if e AND PG_PRESENT_MASK = 0 then Some (Stop_fault 0)
     else if efer env AND MSR_EFER_NXE = 0 \<and> e AND PG_NX_MASK \<noteq> 0 then Some (Stop_fault PG_ERROR_RSVD_MASK)
     else None)"

definition set_accessed :: "cpu_state \<Rightarrow> u64 \<Rightarrow> u64 \<Rightarrow> cpu_state \<times> u64" where
  "set_accessed env a e =
    (if e AND PG_ACCESSED_MASK = 0
     then let e = e OR PG_ACCESSED_MASK in (stl_phys_notdirty env a (ucast e), e)
     else (env, e))"

definition set_accessed_dirty :: "cpu_state \<Rightarrow> u64 \<Rightarrow> u64 \<Rightarrow> u32 \<Rightarrow> cpu_state \<times> u64" where
  "set_accessed_dirty env a e is_write =
    (let is_dirty = (is_write \<noteq> 0 \<and> e AND PG_DIRTY_MASK = 0)
     in if e AND PG_ACCESSED_MASK = 0 \<or> is_dirty then
          let e = e OR PG_ACCESSED_MASK; e = (if is_dirty then e OR PG_DIRTY_MASK else e)
          in (stl_phys_notdirty env a (ucast e), e)
        else (env, e))"

text \<open>The \<open>switch (mmu_idx)\<close>: whether it jumps to \<open>do_fault_protect\<close>.\<close>

definition protect_fault :: "cpu_state \<Rightarrow> nat \<Rightarrow> u32 \<Rightarrow> u64 \<Rightarrow> bool" where
  "protect_fault env mmu_idx is_write1 ptep =
    (let is_write = is_write1 AND 1
     in if mmu_idx = MMU_USER_IDX then
          ptep AND PG_USER_MASK = 0 \<or> (is_write \<noteq> 0 \<and> ptep AND PG_RW_MASK = 0)
        else if mmu_idx = MMU_KERNEL_IDX \<and> is_write1 \<noteq> 2 \<and> cr env 4 AND CR4_SMAP_MASK \<noteq> 0
          \<and> ptep AND PG_USER_MASK \<noteq> 0 then True
        else if mmu_idx = MMU_KERNEL_IDX \<or> mmu_idx = MMU_KSMAP_IDX then
          (is_write1 = 2 \<and> cr env 4 AND CR4_SMEP_MASK \<noteq> 0 \<and> ptep AND PG_USER_MASK \<noteq> 0)
          \<or> (cr env 0 AND CR0_WP_MASK \<noteq> 0 \<and> is_write \<noteq> 0 \<and> ptep AND PG_RW_MASK = 0)
        else False)"

subsection \<open>The upper levels in PAE and long mode\<close>

definition walk_long :: "cpu_state \<Rightarrow> target_ulong \<Rightarrow> cpu_state \<times> (walk_stop + u64 \<times> u64)" where
  "walk_long env addr =
    (let sext = sint (signed_drop_bit 47 addr)
     in if sext \<noteq> 0 \<and> sext \<noteq> -1 then (env, Inl Stop_gp)
        else
          let pml4e_addr = ((cr env 3 AND NOT 0xfff) + push_bit 3 (drop_bit 39 addr AND 0x1ff)) AND a20 env;
              pml4e = ldq_phys env pml4e_addr
          in case entry_stop env pml4e of Some f \<Rightarrow> (env, Inl f)
          | None \<Rightarrow>
            let (env, pml4e) = set_accessed env pml4e_addr pml4e;
                ptep = pml4e XOR PG_NX_MASK;
                pdpe_addr = ((pml4e AND PHYS_ADDR_MASK) + push_bit 3 (drop_bit 30 addr AND 0x1ff)) AND a20 env;
                pdpe = ldq_phys env pdpe_addr
            in case entry_stop env pdpe of Some f \<Rightarrow> (env, Inl f)
            | None \<Rightarrow>
              let ptep = ptep AND (pdpe XOR PG_NX_MASK);
                  (env, pdpe) = set_accessed env pdpe_addr pdpe
              in (env, Inr (pdpe, ptep)))"

definition walk_pdpt :: "cpu_state \<Rightarrow> target_ulong \<Rightarrow> cpu_state \<times> (walk_stop + u64 \<times> u64)" where
  "walk_pdpt env addr =
    (let pdpe_addr = ((cr env 3 AND NOT 0x1f) + (drop_bit 27 addr AND 0x18)) AND a20 env;
         pdpe = ldq_phys env pdpe_addr
     in if pdpe AND PG_PRESENT_MASK = 0 then (env, Inl (Stop_fault 0))
        else (env, Inr (pdpe, PG_NX_MASK OR PG_USER_MASK OR PG_RW_MASK)))"

subsection \<open>The lower levels\<close>

definition walk_pae :: "cpu_state \<Rightarrow> target_ulong \<Rightarrow> u32 \<Rightarrow> nat \<Rightarrow> cpu_state \<times> (walk_stop + walk_page)" where
  "walk_pae env addr is_write1 mmu_idx =
    (case (if hflags env AND HF_LMA_MASK \<noteq> 0 then walk_long env addr else walk_pdpt env addr) of
       (env, Inl f) \<Rightarrow> (env, Inl f)
     | (env, Inr (pdpe, ptep)) \<Rightarrow>
       let pde_addr = ((pdpe AND PHYS_ADDR_MASK) + push_bit 3 (drop_bit 21 addr AND 0x1ff)) AND a20 env;
           pde = ldq_phys env pde_addr
       in case entry_stop env pde of Some f \<Rightarrow> (env, Inl f)
       | None \<Rightarrow>
         let ptep = ptep AND (pde XOR PG_NX_MASK)
         in if pde AND PG_PSE_MASK \<noteq> 0 then
              let ptep = ptep XOR PG_NX_MASK
              in if (ptep AND PG_NX_MASK \<noteq> 0 \<and> is_write1 = 2) \<or> protect_fault env mmu_idx is_write1 ptep
                 then (env, Inl (Stop_fault PG_ERROR_P_MASK))
                 else
                   let (env, pde) = set_accessed_dirty env pde_addr pde (is_write1 AND 1)
                   in (env, Inr \<lparr>w_pte = pde AND ((PHYS_ADDR_MASK AND NOT 0x1fffff) OR 0xfff), w_ptep = ptep,
                        w_size = 0x200000, w_virt = addr AND NOT 0x1fffff\<rparr>)
            else
              let (env, pde) = set_accessed env pde_addr pde;
                  pte_addr = ((pde AND PHYS_ADDR_MASK) + push_bit 3 (drop_bit 12 addr AND 0x1ff)) AND a20 env;
                  pte = ldq_phys env pte_addr
              in case entry_stop env pte of Some f \<Rightarrow> (env, Inl f)
              | None \<Rightarrow>
                let ptep = ptep AND (pte XOR PG_NX_MASK); ptep = ptep XOR PG_NX_MASK
                in if (ptep AND PG_NX_MASK \<noteq> 0 \<and> is_write1 = 2) \<or> protect_fault env mmu_idx is_write1 ptep
                   then (env, Inl (Stop_fault PG_ERROR_P_MASK))
                   else
                     let (env, pte) = set_accessed_dirty env pte_addr pte (is_write1 AND 1)
                     in (env, Inr \<lparr>w_pte = pte AND (PHYS_ADDR_MASK OR 0xfff), w_ptep = ptep,
                          w_size = 0x1000, w_virt = addr AND NOT 0xfff\<rparr>))"

text \<open>Without PAE the entries are 32-bit values, held zero-extended.\<close>

definition walk_legacy :: "cpu_state \<Rightarrow> target_ulong \<Rightarrow> u32 \<Rightarrow> nat \<Rightarrow> cpu_state \<times> (walk_stop + walk_page)" where
  "walk_legacy env addr is_write1 mmu_idx =
    (let pde_addr = ((cr env 3 AND NOT 0xfff) + (drop_bit 20 addr AND 0xffc)) AND a20 env;
         pde = (ucast (ldl_phys env pde_addr) :: u64)
     in if pde AND PG_PRESENT_MASK = 0 then (env, Inl (Stop_fault 0))
        else if pde AND PG_PSE_MASK \<noteq> 0 \<and> cr env 4 AND CR4_PSE_MASK \<noteq> 0 then
          if protect_fault env mmu_idx is_write1 pde then (env, Inl (Stop_fault PG_ERROR_P_MASK))
          else
            let (env, pde) = set_accessed_dirty env pde_addr pde (is_write1 AND 1);
                pte = pde AND NOT 0x3ff000
            in (env, Inr \<lparr>w_pte = pte, w_ptep = pte, w_size = 0x400000, w_virt = addr AND NOT 0x3fffff\<rparr>)
        else
          let (env, pde) = set_accessed env pde_addr pde;
              pte_addr = ((pde AND NOT 0xfff) + (drop_bit 10 addr AND 0xffc)) AND a20 env;
              pte = (ucast (ldl_phys env pte_addr) :: u64)
          in if pte AND PG_PRESENT_MASK = 0 then (env, Inl (Stop_fault 0))
             else
               let ptep = pte AND pde
               in if protect_fault env mmu_idx is_write1 ptep then (env, Inl (Stop_fault PG_ERROR_P_MASK))
                  else
                    let (env, pte) = set_accessed_dirty env pte_addr pte (is_write1 AND 1)
                    in (env, Inr \<lparr>w_pte = pte, w_ptep = ptep, w_size = 0x1000, w_virt = addr AND NOT 0xfff\<rparr>))"

subsection \<open>The handler\<close>

definition page_prot :: "cpu_state \<Rightarrow> nat \<Rightarrow> u64 \<Rightarrow> u64 \<Rightarrow> u32" where
  "page_prot env mmu_idx pte ptep =
    (let prot = PAGE_READ;
         prot = (if ptep AND PG_NX_MASK = 0 then prot OR PAGE_EXEC else prot)
     in if pte AND PG_DIRTY_MASK \<noteq> 0 then
          if mmu_idx = MMU_USER_IDX then (if ptep AND PG_RW_MASK \<noteq> 0 then prot OR PAGE_WRITE else prot)
          else (if cr env 0 AND CR0_WP_MASK = 0 \<or> ptep AND PG_RW_MASK \<noteq> 0 then prot OR PAGE_WRITE else prot)
        else prot)"

text \<open>\<open>do_mapping\<close>: the physical and virtual page entered into the TLB.\<close>

definition map_paddr :: "cpu_state \<Rightarrow> target_ulong \<Rightarrow> walk_page \<Rightarrow> u64" where
  "map_paddr env addr w =
    ((w_pte w AND a20 env) AND TARGET_PAGE_MASK) + ((addr AND TARGET_PAGE_MASK) AND (w_size w - 1))"

definition map_vaddr :: "target_ulong \<Rightarrow> walk_page \<Rightarrow> target_ulong" where
  "map_vaddr addr w = w_virt w + ((addr AND TARGET_PAGE_MASK) AND (w_size w - 1))"

definition page_fault :: "cpu_state \<Rightarrow> target_ulong \<Rightarrow> u32 \<Rightarrow> nat \<Rightarrow> u32 \<Rightarrow> cpu_state" where
  "page_fault env addr is_write1 mmu_idx err =
    (let err = err OR push_bit 1 (is_write1 AND 1);
         err = (if mmu_idx = MMU_USER_IDX then err OR PG_ERROR_U_MASK else err);
         err = (if is_write1 = 2 \<and> ((efer env AND MSR_EFER_NXE \<noteq> 0 \<and> cr env 4 AND CR4_PAE_MASK \<noteq> 0)
                  \<or> cr env 4 AND CR4_SMEP_MASK \<noteq> 0)
                then err OR PG_ERROR_I_D_MASK else err);
         env = (if intercept_exceptions env AND 0x4000 \<noteq> 0
                then stq_phys env (vm_vmcb env + EXIT_INFO_2_OFFSET) addr
                else env\<lparr>cr := (cr env)(2 := addr)\<rparr>)
     in env\<lparr>error_code := err, exception_index := EXCP0E_PAGE\<rparr>)"

definition walk :: "cpu_state \<Rightarrow> target_ulong \<Rightarrow> u32 \<Rightarrow> nat \<Rightarrow> cpu_state \<times> (walk_stop + walk_page)" where
  "walk env addr is_write1 mmu_idx =
    (if cr env 4 AND CR4_PAE_MASK \<noteq> 0 then walk_pae env addr is_write1 mmu_idx
     else walk_legacy env addr is_write1 mmu_idx)"

definition cpu_x86_handle_mmu_fault ::
  "(u64 \<Rightarrow> tlb_section) \<Rightarrow> (u64 \<Rightarrow> bool) \<Rightarrow> cpu_state \<Rightarrow> target_ulong \<Rightarrow> u32 \<Rightarrow> nat \<Rightarrow> (cpu_state \<times> int) outcome" where
  "cpu_x86_handle_mmu_fault sect dirty env addr is_write1 mmu_idx =
    (if cr env 0 AND CR0_PG_MASK_64 = 0 then
       let w = \<lparr>w_pte = addr, w_ptep = 0, w_size = 0x1000, w_virt = addr AND TARGET_PAGE_MASK\<rparr>
       in bind_out (tlb_set_page sect dirty env (map_vaddr addr w) (map_paddr env addr w)
            (PAGE_READ OR PAGE_WRITE OR PAGE_EXEC) mmu_idx (w_size w)) (\<lambda>env. Done (env, 0))
     else case walk env addr is_write1 mmu_idx of
       (env, Inl Stop_gp) \<Rightarrow> Done (env\<lparr>error_code := 0, exception_index := EXCP0D_GPF\<rparr>, 1)
     | (env, Inl (Stop_fault err)) \<Rightarrow> Done (page_fault env addr is_write1 mmu_idx err, 1)
     | (env, Inr w) \<Rightarrow>
         bind_out (tlb_set_page sect dirty env (map_vaddr addr w) (map_paddr env addr w)
            (page_prot env mmu_idx (w_pte w) (w_ptep w)) mmu_idx (w_size w)) (\<lambda>env. Done (env, 0)))"

subsection \<open>The debugger's walk\<close>

definition debug_pdpe :: "cpu_state \<Rightarrow> target_ulong \<Rightarrow> u64 option" where
  "debug_pdpe env addr =
    (if hflags env AND HF_LMA_MASK \<noteq> 0 then
       let sext = sint (signed_drop_bit 47 addr)
       in if sext \<noteq> 0 \<and> sext \<noteq> -1 then None
          else
            let pml4e_addr = ((cr env 3 AND NOT 0xfff) + push_bit 3 (drop_bit 39 addr AND 0x1ff)) AND a20 env;
                pml4e = ldq_phys env pml4e_addr
            in if pml4e AND PG_PRESENT_MASK = 0 then None
               else
                 let pdpe_addr = (((pml4e AND NOT 0xfff) AND NOT (PG_NX_MASK OR PG_HI_USER_MASK))
                        + push_bit 3 (drop_bit 30 addr AND 0x1ff)) AND a20 env;
                     pdpe = ldq_phys env pdpe_addr
                 in if pdpe AND PG_PRESENT_MASK = 0 then None else Some pdpe
     else
       let pdpe_addr = ((cr env 3 AND NOT 0x1f) + (drop_bit 27 addr AND 0x18)) AND a20 env;
           pdpe = ldq_phys env pdpe_addr
       in if pdpe AND PG_PRESENT_MASK = 0 then None else Some pdpe)"

definition debug_pte_pae :: "cpu_state \<Rightarrow> target_ulong \<Rightarrow> (u64 \<times> u64) option" where
  "debug_pte_pae env addr =
    (case debug_pdpe env addr of None \<Rightarrow> None
     | Some pdpe \<Rightarrow>
       let pde_addr = (((pdpe AND NOT 0xfff) AND NOT (PG_NX_MASK OR PG_HI_USER_MASK))
              + push_bit 3 (drop_bit 21 addr AND 0x1ff)) AND a20 env;
           pde = ldq_phys env pde_addr
       in if pde AND PG_PRESENT_MASK = 0 then None
          else
            let (pte, page_size) =
              (if pde AND PG_PSE_MASK \<noteq> 0 then (pde AND NOT 0x1ff000, 0x200000)
               else
                 let pte_addr = (((pde AND NOT 0xfff) AND NOT (PG_NX_MASK OR PG_HI_USER_MASK))
                        + push_bit 3 (drop_bit 12 addr AND 0x1ff)) AND a20 env
                 in (ldq_phys env pte_addr, 0x1000));
                pte = pte AND NOT (PG_NX_MASK OR PG_HI_USER_MASK)
            in if pte AND PG_PRESENT_MASK = 0 then None else Some (pte, page_size))"

definition debug_pte_legacy :: "cpu_state \<Rightarrow> target_ulong \<Rightarrow> (u64 \<times> u64) option" where
  "debug_pte_legacy env addr =
    (if cr env 0 AND CR0_PG_MASK_64 = 0 then Some (addr AND a20 env, 0x1000)
     else
       let pde_addr = ((cr env 3 AND NOT 0xfff) + (drop_bit 20 addr AND 0xffc)) AND a20 env;
           pde = (ucast (ldl_phys env pde_addr) :: u64)
       in if pde AND PG_PRESENT_MASK = 0 then None
          else if pde AND PG_PSE_MASK \<noteq> 0 \<and> cr env 4 AND CR4_PSE_MASK \<noteq> 0
          then Some ((pde AND NOT 0x003ff000) AND a20 env, 0x400000)
          else
            let pte_addr = ((pde AND NOT 0xfff) + (drop_bit 10 addr AND 0xffc)) AND a20 env;
                pte = (ucast (ldl_phys env pte_addr) :: u64)
            in if pte AND PG_PRESENT_MASK = 0 then None else Some (pte AND a20 env, 0x1000))"

definition cpu_get_phys_page_debug :: "cpu_state \<Rightarrow> target_ulong \<Rightarrow> u64" where
  "cpu_get_phys_page_debug env addr =
    (case (if cr env 4 AND CR4_PAE_MASK \<noteq> 0 then debug_pte_pae env addr else debug_pte_legacy env addr) of
       None \<Rightarrow> -1
     | Some (pte, page_size) \<Rightarrow>
         (pte AND TARGET_PAGE_MASK) + ((addr AND TARGET_PAGE_MASK) AND (page_size - 1)))"

end
