(* ===== verification/PointList.thy ===== *)
theory PointList
  imports ExcpHelper
begin

text \<open>
  What the list of breakpoints and the list of watchpoints have in common, as the locale \<open>point_list\<close>: entries
  with an identity and flags, the debugger's kept in front, inserted at one end, removed by reference or by a mask.
  The theory \<open>Breakpoints\<close> interprets it on both lists.
\<close>

abbreviation (input) BP_GDB :: u32 where "BP_GDB \<equiv> 0x10"
abbreviation (input) BP_CPU :: u32 where "BP_CPU \<equiv> 0x20"

subsection \<open>The interface of the two lists\<close>

definition is_gdb :: "u32 \<Rightarrow> bool" where "is_gdb f \<longleftrightarrow> f AND BP_GDB \<noteq> 0"
definition is_cpu :: "u32 \<Rightarrow> bool" where "is_cpu f \<longleftrightarrow> f AND BP_CPU \<noteq> 0"

text \<open>No debugger entry behind another one.\<close>

definition gdb_front :: "('e \<Rightarrow> u32) \<Rightarrow> 'e list \<Rightarrow> bool" where
  "gdb_front fl es \<longleftrightarrow> list_all (\<lambda>e. \<not> is_gdb (fl e)) (dropWhile (\<lambda>e. is_gdb (fl e)) es)"

definition points_wf :: "('e \<Rightarrow> nat) \<Rightarrow> ('e \<Rightarrow> u32) \<Rightarrow> 'e list \<Rightarrow> nat \<Rightarrow> bool" where
  "points_wf idf fl es n \<longleftrightarrow> distinct (map idf es) \<and> list_all (\<lambda>e. idf e < n) es \<and> gdb_front fl es"

text \<open>The entries the debug registers own, as identifier and description.\<close>

definition owned :: "('e \<Rightarrow> nat) \<Rightarrow> ('e \<Rightarrow> u32) \<Rightarrow> ('e \<Rightarrow> 'd) \<Rightarrow> 'e list \<Rightarrow> (nat \<times> 'd) set" where
  "owned idf fl dsc es = (\<lambda>e. (idf e, dsc e)) ` {e \<in> set es. is_cpu (fl e)}"

fun fold_out :: "('i \<Rightarrow> 's \<Rightarrow> 's outcome) \<Rightarrow> 'i list \<Rightarrow> 's \<Rightarrow> 's outcome" where
  "fold_out f [] s = Done s"
| "fold_out f (i # is) s = bind_out (f i s) (fold_out f is)"

lemma gdb_front_Nil [simp]: "gdb_front fl []"
  by (simp add: gdb_front_def)

lemma gdb_front_Cons: "gdb_front fl (e # es) \<longleftrightarrow>
    (if is_gdb (fl e) then gdb_front fl es else list_all (\<lambda>e. \<not> is_gdb (fl e)) es)"
  by (simp add: gdb_front_def)

lemma gdb_front_none: "list_all (\<lambda>e. \<not> is_gdb (fl e)) es \<Longrightarrow> gdb_front fl es"
  by (cases es) (auto simp: gdb_front_Cons)

lemma gdb_front_filter: "gdb_front fl es \<Longrightarrow> gdb_front fl (filter P es)"
proof (induction es)
  case (Cons e es)
  show ?case
  proof (cases "is_gdb (fl e)")
    case True
    with Cons show ?thesis by (simp add: gdb_front_Cons)
  next
    case False
    with Cons.prems have "list_all (\<lambda>e. \<not> is_gdb (fl e)) (filter P (e # es))"
      by (auto simp: gdb_front_Cons list_all_iff)
    then show ?thesis by (rule gdb_front_none)
  qed
qed simp

lemma owned_Nil [simp]: "owned idf fl dsc [] = {}"
  by (simp add: owned_def)

lemma owned_Cons [simp]: "owned idf fl dsc (e # es) =
    (if is_cpu (fl e) then insert (idf e, dsc e) (owned idf fl dsc es) else owned idf fl dsc es)"
  by (auto simp: owned_def)

lemma owned_append [simp]: "owned idf fl dsc (es @ fs) = owned idf fl dsc es \<union> owned idf fl dsc fs"
  by (auto simp: owned_def)

lemma gdb_front_snoc: "gdb_front fl es \<Longrightarrow> \<not> is_gdb (fl e) \<Longrightarrow> gdb_front fl (es @ [e])"
  by (induction es) (auto simp: gdb_front_Cons)

lemma points_wf_filter: "points_wf idf fl es n \<Longrightarrow> points_wf idf fl (filter P es) n"
  by (auto simp: points_wf_def gdb_front_filter distinct_map_filter list_all_iff)

lemma points_wf_mono: "points_wf idf fl es n \<Longrightarrow> n \<le> m \<Longrightarrow> points_wf idf fl es m"
  by (auto simp: points_wf_def list_all_iff)

lemma owned_fresh: "points_wf idf fl es n \<Longrightarrow> n \<notin> fst ` owned idf fl dsc es"
  by (auto simp: points_wf_def owned_def list_all_iff)

lemma mem_owned: "p \<in> owned idf fl dsc es \<longleftrightarrow> (\<exists>e. e \<in> set es \<and> is_cpu (fl e) \<and> p = (idf e, dsc e))"
  unfolding owned_def by blast

lemma owned_filter: "owned idf fl dsc (filter (\<lambda>e. idf e \<noteq> r) es) = {p \<in> owned idf fl dsc es. fst p \<noteq> r}"
proof (rule set_eqI)
  fix p
  show "p \<in> owned idf fl dsc (filter (\<lambda>e. idf e \<noteq> r) es) \<longleftrightarrow> p \<in> {p \<in> owned idf fl dsc es. fst p \<noteq> r}"
    unfolding mem_Collect_eq mem_owned set_filter by force
qed

locale point_list =
  fixes points :: "'s \<Rightarrow> 'e list" and idf :: "'e \<Rightarrow> nat" and fl :: "'e \<Rightarrow> u32" and fresh :: "'s \<Rightarrow> nat"
    and dsc :: "'e \<Rightarrow> 'd"
    and entry_of :: "nat \<Rightarrow> 'k \<Rightarrow> u32 \<Rightarrow> 'e" and valid :: "'k \<Rightarrow> bool"
    and insert_point :: "'s \<Rightarrow> 'k \<Rightarrow> u32 \<Rightarrow> 's \<times> (int + nat)"
    and remove_ref :: "'s \<Rightarrow> nat \<Rightarrow> 's outcome"
    and remove_all :: "'s \<Rightarrow> u32 \<Rightarrow> 's outcome"
  assumes entry [simp]: "idf (entry_of n k f) = n" "fl (entry_of n k f) = f"
    and insert_valid: "valid k \<Longrightarrow> \<exists>s'. insert_point s k f = (s', Inr (fresh s)) \<and> fresh s' = Suc (fresh s) \<and>
      points s' = (if is_gdb f then entry_of (fresh s) k f # points s else points s @ [entry_of (fresh s) k f])"
    and insert_invalid: "\<not> valid k \<Longrightarrow> \<exists>err. insert_point s k f = (s, Inl err)"
    and remove_found: "r \<in> idf ` set (points s) \<Longrightarrow>
      \<exists>s'. remove_ref s r = Done s' \<and> points s' = filter (\<lambda>e. idf e \<noteq> r) (points s) \<and> fresh s' = fresh s"
    and remove_stale: "r \<notin> idf ` set (points s) \<Longrightarrow> remove_ref s r = Abort"
    and remove_all: "remove_all s msk =
      fold_out (\<lambda>r s. remove_ref s r) (map idf (filter (\<lambda>e. fl e AND msk \<noteq> 0) (points s))) s"
begin

abbreviation wf :: "'s \<Rightarrow> bool" where "wf s \<equiv> points_wf idf fl (points s) (fresh s)"

abbreviation owned_of :: "'s \<Rightarrow> (nat \<times> 'd) set" where "owned_of s \<equiv> owned idf fl dsc (points s)"

lemma wf_insert: "wf s \<Longrightarrow> insert_point s k f = (s', r) \<Longrightarrow> wf s'"
proof (cases "valid k")
  case True
  assume "wf s" "insert_point s k f = (s', r)"
  with insert_valid [OF True, of s f] show "wf s'"
    by (auto simp: points_wf_def list_all_iff gdb_front_Cons gdb_front_snoc split: if_splits)
next
  case False
  assume "wf s" "insert_point s k f = (s', r)"
  with insert_invalid [OF False, of s f] show "wf s'" by auto
qed

lemma owned_insert:
  assumes "valid k" "insert_point s k f = (s', r)"
  shows "owned_of s' = (if is_cpu f then insert (fresh s, dsc (entry_of (fresh s) k f)) (owned_of s) else owned_of s)"
  using insert_valid [OF assms(1), of s f] assms(2) by (auto split: if_splits)

lemma remove_cases:
  assumes "remove_ref s r = Done s'"
  shows "points s' = filter (\<lambda>e. idf e \<noteq> r) (points s)" "fresh s' = fresh s" "r \<in> idf ` set (points s)"
proof -
  show r: "r \<in> idf ` set (points s)" using remove_stale [of r s] assms by force
  show "points s' = filter (\<lambda>e. idf e \<noteq> r) (points s)" "fresh s' = fresh s"
    using remove_found [OF r] assms by auto
qed

lemma wf_remove: "wf s \<Longrightarrow> remove_ref s r = Done s' \<Longrightarrow> wf s'"
  using remove_cases [of s r s'] by (simp add: points_wf_filter)

lemma owned_remove: "remove_ref s r = Done s' \<Longrightarrow> owned_of s' = {p \<in> owned_of s. fst p \<noteq> r}"
  by (simp add: remove_cases(1) owned_filter)

lemma remove_owned:
  assumes "r \<in> fst ` owned_of s"
  obtains s' where "remove_ref s r = Done s'"
proof -
  have "r \<in> idf ` set (points s)" using assms by (auto simp: owned_def)
  from remove_found [OF this] show ?thesis using that by blast
qed

lemma remove_refs:
  "distinct rs \<Longrightarrow> set rs \<subseteq> idf ` set (points s) \<Longrightarrow>
    \<exists>s'. fold_out (\<lambda>r s. remove_ref s r) rs s = Done s' \<and>
      points s' = filter (\<lambda>e. idf e \<notin> set rs) (points s) \<and> fresh s' = fresh s"
proof (induction rs arbitrary: s)
  case (Cons r rs)
  obtain s1 where s1: "remove_ref s r = Done s1" "points s1 = filter (\<lambda>e. idf e \<noteq> r) (points s)" "fresh s1 = fresh s"
    using remove_found [of r s] Cons.prems by auto
  have "set rs \<subseteq> idf ` set (points s1)"
    using Cons.prems by (force simp: s1(2))
  from Cons.IH [OF _ this] Cons.prems obtain s' where
    "fold_out (\<lambda>r s. remove_ref s r) rs s1 = Done s'" "points s' = filter (\<lambda>e. idf e \<notin> set rs) (points s1)"
    "fresh s' = fresh s1" by auto
  then show ?case by (auto simp: s1 bind_out_def intro!: filter_cong)
qed simp

lemma remove_all_spec:
  assumes "wf s"
  obtains s' where "remove_all s msk = Done s'" "points s' = filter (\<lambda>e. fl e AND msk = 0) (points s)"
    "fresh s' = fresh s" "wf s'"
proof -
  let ?rs = "map idf (filter (\<lambda>e. fl e AND msk \<noteq> 0) (points s))"
  have d: "distinct (map idf (points s))" using assms by (simp add: points_wf_def)
  obtain s' where s': "remove_all s msk = Done s'" "points s' = filter (\<lambda>e. idf e \<notin> set ?rs) (points s)"
      "fresh s' = fresh s"
    using remove_refs [of ?rs s] d by (auto simp: remove_all distinct_map_filter)
  have "filter (\<lambda>e. idf e \<notin> set ?rs) (points s) = filter (\<lambda>e. fl e AND msk = 0) (points s)"
    using d by (intro filter_cong) (auto simp: distinct_map inj_on_def)
  with s' show ?thesis using that assms by (simp add: points_wf_filter)
qed

end

end
