(* ===== verification/Breakpoints.thy ===== *)
theory Breakpoints
  imports Mmu PointList
begin

text \<open>
  The lists of break- and watchpoints of \<open>exec.c\<close> and the debug registers of
  \<open>target-i386/helper.c\<close> that use them. An entry is referred to by its identifier, as the C code refers to it
  by address; removing an identifier that is in no list is a use after free, the outcome \<open>Abort\<close>.
  \<open>cpu_breakpoint\<close> and \<open>cpu_watchpoint\<close> are members of one union, here the one field
  \<open>cpu_breakpoint\<close>. The two lists share an interface, the locale \<open>point_list\<close>.
\<close>

abbreviation (input) BP_MEM_WRITE :: u32 where "BP_MEM_WRITE \<equiv> 2"
abbreviation (input) BP_MEM_ACCESS :: u32 where "BP_MEM_ACCESS \<equiv> 3"
abbreviation (input) BP_WATCHPOINT_HIT :: u32 where "BP_WATCHPOINT_HIT \<equiv> 0x08"

abbreviation (input) ENOENT :: int where "ENOENT \<equiv> 2"
abbreviation (input) EINVAL :: int where "EINVAL \<equiv> 22"

subsection \<open>Breakpoints\<close>

definition breakpoint_invalidate :: "cpu_state \<Rightarrow> target_ulong \<Rightarrow> cpu_state" where
  "breakpoint_invalidate env pc =
    env\<lparr>tb_log := tb_log env @ [Tb_invalidate_phys_addr
      (cpu_get_phys_page_debug env pc OR (pc AND NOT TARGET_PAGE_MASK))]\<rparr>"

text \<open>Returns the new entry's identifier, what \<open>*breakpoint\<close> is set to.\<close>

definition cpu_breakpoint_insert :: "cpu_state \<Rightarrow> target_ulong \<Rightarrow> u32 \<Rightarrow> cpu_state \<times> nat" where
  "cpu_breakpoint_insert env pc flags =
    (let bp = \<lparr>bp_id = next_ref env, bp_pc = pc, bp_flags = flags\<rparr>;
         env = env\<lparr>next_ref := Suc (next_ref env)\<rparr>;
         env = (if flags AND BP_GDB \<noteq> 0 then env\<lparr>breakpoints := bp # breakpoints env\<rparr>
                else env\<lparr>breakpoints := breakpoints env @ [bp]\<rparr>)
     in (breakpoint_invalidate env pc, bp_id bp))"

definition cpu_breakpoint_remove_by_ref :: "cpu_state \<Rightarrow> nat \<Rightarrow> cpu_state outcome" where
  "cpu_breakpoint_remove_by_ref env ref =
    (case find (\<lambda>bp. bp_id bp = ref) (breakpoints env) of None \<Rightarrow> Abort
     | Some bp \<Rightarrow>
         Done (breakpoint_invalidate (env\<lparr>breakpoints := filter (\<lambda>b. bp_id b \<noteq> ref) (breakpoints env)\<rparr>) (bp_pc bp)))"

definition cpu_breakpoint_remove :: "cpu_state \<Rightarrow> target_ulong \<Rightarrow> u32 \<Rightarrow> (cpu_state \<times> int) outcome" where
  "cpu_breakpoint_remove env pc flags =
    (case find (\<lambda>bp. bp_pc bp = pc \<and> bp_flags bp = flags) (breakpoints env) of
       None \<Rightarrow> Done (env, - ENOENT)
     | Some bp \<Rightarrow> bind_out (cpu_breakpoint_remove_by_ref env (bp_id bp)) (\<lambda>env. Done (env, 0)))"

text \<open>\<open>QTAILQ_FOREACH_SAFE\<close> over the list as it was.\<close>

fun breakpoint_remove_loop :: "breakpoint list \<Rightarrow> u32 \<Rightarrow> cpu_state \<Rightarrow> cpu_state outcome" where
  "breakpoint_remove_loop [] msk env = Done env"
| "breakpoint_remove_loop (bp # bps) msk env =
    (if bp_flags bp AND msk \<noteq> 0
     then bind_out (cpu_breakpoint_remove_by_ref env (bp_id bp)) (breakpoint_remove_loop bps msk)
     else breakpoint_remove_loop bps msk env)"

definition cpu_breakpoint_remove_all :: "cpu_state \<Rightarrow> u32 \<Rightarrow> cpu_state outcome" where
  "cpu_breakpoint_remove_all env msk = breakpoint_remove_loop (breakpoints env) msk env"

subsection \<open>Watchpoints\<close>

definition watchpoint_ok :: "target_ulong \<Rightarrow> target_ulong \<Rightarrow> bool" where
  "watchpoint_ok addr len \<longleftrightarrow>
    \<not> (len AND (len - 1) \<noteq> 0 \<or> addr AND NOT (NOT (len - 1)) \<noteq> 0 \<or> len = 0 \<or> len > TARGET_PAGE_SIZE)"

definition cpu_watchpoint_insert ::
  "cpu_state \<Rightarrow> target_ulong \<Rightarrow> target_ulong \<Rightarrow> u32 \<Rightarrow> cpu_state \<times> (int + nat)" where
  "cpu_watchpoint_insert env addr len flags =
    (let len_mask = NOT (len - 1)
     in if \<not> watchpoint_ok addr len then (env, Inl (- EINVAL))
        else
          let wp = \<lparr>wp_id = next_ref env, wp_vaddr = addr, wp_len_mask = len_mask, wp_flags = flags\<rparr>;
              env = env\<lparr>next_ref := Suc (next_ref env)\<rparr>;
              env = (if flags AND BP_GDB \<noteq> 0 then env\<lparr>watchpoints := wp # watchpoints env\<rparr>
                     else env\<lparr>watchpoints := watchpoints env @ [wp]\<rparr>)
          in (tlb_flush_page env addr, Inr (wp_id wp)))"

definition cpu_watchpoint_remove_by_ref :: "cpu_state \<Rightarrow> nat \<Rightarrow> cpu_state outcome" where
  "cpu_watchpoint_remove_by_ref env ref =
    (case find (\<lambda>wp. wp_id wp = ref) (watchpoints env) of None \<Rightarrow> Abort
     | Some wp \<Rightarrow>
         Done (tlb_flush_page (env\<lparr>watchpoints := filter (\<lambda>w. wp_id w \<noteq> ref) (watchpoints env)\<rparr>) (wp_vaddr wp)))"

definition cpu_watchpoint_remove ::
  "cpu_state \<Rightarrow> target_ulong \<Rightarrow> target_ulong \<Rightarrow> u32 \<Rightarrow> (cpu_state \<times> int) outcome" where
  "cpu_watchpoint_remove env addr len flags =
    (let len_mask = NOT (len - 1)
     in case find (\<lambda>wp. addr = wp_vaddr wp \<and> len_mask = wp_len_mask wp
               \<and> flags = wp_flags wp AND NOT BP_WATCHPOINT_HIT) (watchpoints env) of
       None \<Rightarrow> Done (env, - ENOENT)
     | Some wp \<Rightarrow> bind_out (cpu_watchpoint_remove_by_ref env (wp_id wp)) (\<lambda>env. Done (env, 0)))"

fun watchpoint_remove_loop :: "watchpoint list \<Rightarrow> u32 \<Rightarrow> cpu_state \<Rightarrow> cpu_state outcome" where
  "watchpoint_remove_loop [] msk env = Done env"
| "watchpoint_remove_loop (wp # wps) msk env =
    (if wp_flags wp AND msk \<noteq> 0
     then bind_out (cpu_watchpoint_remove_by_ref env (wp_id wp)) (watchpoint_remove_loop wps msk)
     else watchpoint_remove_loop wps msk env)"

definition cpu_watchpoint_remove_all :: "cpu_state \<Rightarrow> u32 \<Rightarrow> cpu_state outcome" where
  "cpu_watchpoint_remove_all env msk = watchpoint_remove_loop (watchpoints env) msk env"

subsection \<open>Single step, interrupt requests, copying\<close>

text \<open>The part of \<open>tb_flush\<close> on the CPU; the translation buffers are not modelled.\<close>

definition tb_flush :: "cpu_state \<Rightarrow> cpu_state" where
  "tb_flush env = env\<lparr>tb_jmp_cache := (\<lambda>k. if k < 4096 then None else tb_jmp_cache env k),
     tb_log := tb_log env @ [Tb_flush]\<rparr>"

definition cpu_single_step :: "cpu_state \<Rightarrow> int \<Rightarrow> cpu_state" where
  "cpu_single_step env enabled =
    (if singlestep_enabled env \<noteq> enabled then tb_flush (env\<lparr>singlestep_enabled := enabled\<rparr>) else env)"

definition cpu_reset_interrupt :: "cpu_state \<Rightarrow> u32 \<Rightarrow> cpu_state" where
  "cpu_reset_interrupt env msk = env\<lparr>interrupt_request := interrupt_request env AND NOT msk\<rparr>"

text \<open>The two loops of \<open>cpu_copy\<close>, inserting into the new CPU what they find in the list.\<close>

fun clone_breakpoints :: "breakpoint list \<Rightarrow> cpu_state \<Rightarrow> cpu_state" where
  "clone_breakpoints [] new_env = new_env"
| "clone_breakpoints (bp # bps) new_env =
    clone_breakpoints bps (fst (cpu_breakpoint_insert new_env (bp_pc bp) (bp_flags bp)))"

fun clone_watchpoints :: "watchpoint list \<Rightarrow> cpu_state \<Rightarrow> cpu_state" where
  "clone_watchpoints [] new_env = new_env"
| "clone_watchpoints (wp # wps) new_env =
    clone_watchpoints wps (fst (cpu_watchpoint_insert new_env (wp_vaddr wp) (NOT (wp_len_mask wp) + 1) (wp_flags wp)))"

text \<open>\<open>cpu_copy\<close>: the state the caller passed, as it is left, and the new one.\<close>

definition cpu_copy :: "cpu_state \<Rightarrow> cpu_state \<times> cpu_state" where
  "cpu_copy env =
    (let new_env = env;
         env = env\<lparr>breakpoints := []\<rparr>;
         env = env\<lparr>watchpoints := []\<rparr>;
         new_env = clone_breakpoints (breakpoints env) new_env;
         new_env = clone_watchpoints (watchpoints env) new_env
     in (env, new_env))"

subsection \<open>Breakpoints and watchpoints provide it\<close>

lemma find_filter_ids:
  "find (\<lambda>e. idf e = r) es = None \<longleftrightarrow> r \<notin> idf ` set es"
  by (auto simp: find_None_iff)

lemma flush_page_lists [simp]:
  "breakpoints (tlb_flush_page env a) = breakpoints env" "watchpoints (tlb_flush_page env a) = watchpoints env"
  "next_ref (tlb_flush_page env a) = next_ref env" "dr (tlb_flush_page env a) = dr env"
  "cpu_breakpoint (tlb_flush_page env a) = cpu_breakpoint env" "eip (tlb_flush_page env a) = eip env"
  by (simp_all add: tlb_flush_page_def tlb_flush_def tb_flush_jmp_cache_def tlb_modify_def Let_def)

lemma invalidate_lists [simp]:
  "breakpoints (breakpoint_invalidate env a) = breakpoints env"
  "watchpoints (breakpoint_invalidate env a) = watchpoints env"
  "next_ref (breakpoint_invalidate env a) = next_ref env" "dr (breakpoint_invalidate env a) = dr env"
  "cpu_breakpoint (breakpoint_invalidate env a) = cpu_breakpoint env"
  by (simp_all add: breakpoint_invalidate_def)

definition bp_of :: "nat \<Rightarrow> target_ulong \<Rightarrow> u32 \<Rightarrow> breakpoint" where
  "bp_of n pc f = \<lparr>bp_id = n, bp_pc = pc, bp_flags = f\<rparr>"

definition wp_of :: "nat \<Rightarrow> target_ulong \<times> target_ulong \<Rightarrow> u32 \<Rightarrow> watchpoint" where
  "wp_of n k f = \<lparr>wp_id = n, wp_vaddr = fst k, wp_len_mask = NOT (snd k - 1), wp_flags = f\<rparr>"

definition bp_desc :: "breakpoint \<Rightarrow> target_ulong \<times> u32" where
  "bp_desc b = (bp_pc b, bp_flags b)"

text \<open>A watchpoint's description leaves out whether it has been hit.\<close>

definition wp_desc :: "watchpoint \<Rightarrow> target_ulong \<times> target_ulong \<times> u32" where
  "wp_desc w = (wp_vaddr w, wp_len_mask w, wp_flags w AND NOT BP_WATCHPOINT_HIT)"

lemma breakpoint_loop_fold:
  "breakpoint_remove_loop bps msk env =
    fold_out (\<lambda>r s. cpu_breakpoint_remove_by_ref s r) (map bp_id (filter (\<lambda>b. bp_flags b AND msk \<noteq> 0) bps)) env"
  by (induction bps msk env rule: breakpoint_remove_loop.induct) (auto simp: bind_out_def split: outcome.splits)

lemma watchpoint_loop_fold:
  "watchpoint_remove_loop wps msk env =
    fold_out (\<lambda>r s. cpu_watchpoint_remove_by_ref s r) (map wp_id (filter (\<lambda>w. wp_flags w AND msk \<noteq> 0) wps)) env"
  by (induction wps msk env rule: watchpoint_remove_loop.induct) (auto simp: bind_out_def split: outcome.splits)

interpretation bps: point_list breakpoints bp_id bp_flags next_ref bp_desc bp_of "\<lambda>_. True"
  "\<lambda>s k f. (case cpu_breakpoint_insert s k f of (s', r) \<Rightarrow> (s', Inr r))"
  cpu_breakpoint_remove_by_ref cpu_breakpoint_remove_all
proof unfold_locales
  fix s :: cpu_state and k f
  show "\<exists>s'. (case cpu_breakpoint_insert s k f of (s', r) \<Rightarrow> (s', Inr r)) = (s', Inr (next_ref s)) \<and>
      next_ref s' = Suc (next_ref s) \<and>
      breakpoints s' = (if is_gdb f then bp_of (next_ref s) k f # breakpoints s
        else breakpoints s @ [bp_of (next_ref s) k f])"
    by (simp add: cpu_breakpoint_insert_def Let_def bp_of_def is_gdb_def)
next
  fix r and s :: cpu_state
  assume "r \<in> bp_id ` set (breakpoints s)"
  then have "find (\<lambda>b. bp_id b = r) (breakpoints s) \<noteq> None" by (simp only: find_filter_ids not_not)
  then show "\<exists>s'. cpu_breakpoint_remove_by_ref s r = Done s' \<and>
      breakpoints s' = filter (\<lambda>e. bp_id e \<noteq> r) (breakpoints s) \<and> next_ref s' = next_ref s"
    by (auto simp: cpu_breakpoint_remove_by_ref_def)
next
  fix r and s :: cpu_state
  assume "r \<notin> bp_id ` set (breakpoints s)"
  then show "cpu_breakpoint_remove_by_ref s r = Abort"
    by (simp add: cpu_breakpoint_remove_by_ref_def iffD2 [OF find_filter_ids])
qed (simp_all add: bp_of_def cpu_breakpoint_remove_all_def breakpoint_loop_fold)

interpretation wps: point_list watchpoints wp_id wp_flags next_ref wp_desc wp_of "\<lambda>k. watchpoint_ok (fst k) (snd k)"
  "\<lambda>s k f. cpu_watchpoint_insert s (fst k) (snd k) f" cpu_watchpoint_remove_by_ref cpu_watchpoint_remove_all
proof unfold_locales
  fix s :: cpu_state and k :: "target_ulong \<times> target_ulong" and f
  assume "watchpoint_ok (fst k) (snd k)"
  then show "\<exists>s'. cpu_watchpoint_insert s (fst k) (snd k) f = (s', Inr (next_ref s)) \<and>
      next_ref s' = Suc (next_ref s) \<and>
      watchpoints s' = (if is_gdb f then wp_of (next_ref s) k f # watchpoints s
        else watchpoints s @ [wp_of (next_ref s) k f])"
    by (simp add: cpu_watchpoint_insert_def Let_def wp_of_def is_gdb_def)
next
  fix s :: cpu_state and k :: "target_ulong \<times> target_ulong" and f
  assume "\<not> watchpoint_ok (fst k) (snd k)"
  then show "\<exists>err. cpu_watchpoint_insert s (fst k) (snd k) f = (s, Inl err)"
    by (simp add: cpu_watchpoint_insert_def)
next
  fix r and s :: cpu_state
  assume "r \<in> wp_id ` set (watchpoints s)"
  then have "find (\<lambda>w. wp_id w = r) (watchpoints s) \<noteq> None" by (simp only: find_filter_ids not_not)
  then show "\<exists>s'. cpu_watchpoint_remove_by_ref s r = Done s' \<and>
      watchpoints s' = filter (\<lambda>e. wp_id e \<noteq> r) (watchpoints s) \<and> next_ref s' = next_ref s"
    by (auto simp: cpu_watchpoint_remove_by_ref_def)
next
  fix r and s :: cpu_state
  assume "r \<notin> wp_id ` set (watchpoints s)"
  then show "cpu_watchpoint_remove_by_ref s r = Abort"
    by (simp add: cpu_watchpoint_remove_by_ref_def iffD2 [OF find_filter_ids])
qed (simp_all add: wp_of_def cpu_watchpoint_remove_all_def watchpoint_loop_fold)

end
