(* ===== verification/DebugRegs.thy ===== *)
theory DebugRegs
  imports Breakpoints
begin

text \<open>
  The debug registers: their decoding (\<open>target-i386/cpu.h\<close>), the break- and watchpoints they own
  (\<open>target-i386/helper.c\<close>) and the writes that change them (\<open>misc_helper.c\<close>, and the reset of local
  breakpoints in \<open>switch_tss\<close> of \<open>seg_helper.c\<close>).
\<close>

abbreviation (input) DR7_MAX_BP :: nat where "DR7_MAX_BP \<equiv> 4"
abbreviation (input) DR7_TYPE_SHIFT :: nat where "DR7_TYPE_SHIFT \<equiv> 16"
abbreviation (input) DR7_LEN_SHIFT :: nat where "DR7_LEN_SHIFT \<equiv> 18"
abbreviation (input) DR7_LOCAL_BP_MASK :: u64 where "DR7_LOCAL_BP_MASK \<equiv> 0x55"
abbreviation (input) DR7_TYPE_BP_INST :: nat where "DR7_TYPE_BP_INST \<equiv> 0"
abbreviation (input) DR7_TYPE_DATA_WR :: nat where "DR7_TYPE_DATA_WR \<equiv> 1"
abbreviation (input) DR7_TYPE_IO_RW :: nat where "DR7_TYPE_IO_RW \<equiv> 2"
abbreviation (input) DR7_TYPE_DATA_RW :: nat where "DR7_TYPE_DATA_RW \<equiv> 3"

definition hw_local_breakpoint_enabled :: "u64 \<Rightarrow> nat \<Rightarrow> bool" where
  "hw_local_breakpoint_enabled dr7 index \<longleftrightarrow> drop_bit (index * 2) dr7 AND 1 \<noteq> 0"

definition hw_global_breakpoint_enabled :: "u64 \<Rightarrow> nat \<Rightarrow> bool" where
  "hw_global_breakpoint_enabled dr7 index \<longleftrightarrow> drop_bit (index * 2) dr7 AND 2 \<noteq> 0"

definition hw_breakpoint_enabled :: "u64 \<Rightarrow> nat \<Rightarrow> bool" where
  "hw_breakpoint_enabled dr7 index \<longleftrightarrow>
    hw_global_breakpoint_enabled dr7 index \<or> hw_local_breakpoint_enabled dr7 index"

definition hw_breakpoint_type :: "u64 \<Rightarrow> nat \<Rightarrow> nat" where
  "hw_breakpoint_type dr7 index = unat (drop_bit (DR7_TYPE_SHIFT + index * 4) dr7 AND 3)"

definition hw_breakpoint_len :: "u64 \<Rightarrow> nat \<Rightarrow> u64" where
  "hw_breakpoint_len dr7 index =
    (let len = drop_bit (DR7_LEN_SHIFT + index * 4) dr7 AND 3 in if len = 2 then 8 else len + 1)"

text \<open>Assignment to \<open>env->cpu_breakpoint[index]\<close>, or to the union's other member.\<close>

definition set_ref :: "nat \<Rightarrow> nat option \<Rightarrow> cpu_state \<Rightarrow> cpu_state" where
  "set_ref index r env = env\<lparr>cpu_breakpoint := (cpu_breakpoint env)(index := r)\<rparr>"

definition hw_breakpoint_insert :: "cpu_state \<Rightarrow> nat \<Rightarrow> cpu_state" where
  "hw_breakpoint_insert env index =
    (let t = hw_breakpoint_type (dr env 7) index in
     if t = DR7_TYPE_BP_INST then
       if hw_breakpoint_enabled (dr env 7) index then
         let (env, bp) = cpu_breakpoint_insert env (dr env index) BP_CPU in set_ref index (Some bp) env
       else env
     else if t = DR7_TYPE_DATA_WR \<or> t = DR7_TYPE_DATA_RW then
       let type = (if t = DR7_TYPE_DATA_WR then BP_CPU OR BP_MEM_WRITE else BP_CPU OR BP_MEM_ACCESS)
       in case cpu_watchpoint_insert env (dr env index) (hw_breakpoint_len (dr env 7) index) type of
         (env, Inl err) \<Rightarrow> set_ref index None env
       | (env, Inr wp) \<Rightarrow> set_ref index (Some wp) env
     else env)"

definition hw_breakpoint_remove :: "cpu_state \<Rightarrow> nat \<Rightarrow> cpu_state outcome" where
  "hw_breakpoint_remove env index =
    (case cpu_breakpoint env index of None \<Rightarrow> Done env
     | Some ref \<Rightarrow>
       let t = hw_breakpoint_type (dr env 7) index in
       if t = DR7_TYPE_BP_INST then
         if hw_breakpoint_enabled (dr env 7) index then cpu_breakpoint_remove_by_ref env ref else Done env
       else if t = DR7_TYPE_DATA_WR \<or> t = DR7_TYPE_DATA_RW then cpu_watchpoint_remove_by_ref env ref
       else Done env)"

fun hw_remove_from :: "nat list \<Rightarrow> cpu_state \<Rightarrow> cpu_state outcome" where
  "hw_remove_from [] env = Done env"
| "hw_remove_from (i # is) env = bind_out (hw_breakpoint_remove env i) (hw_remove_from is)"

fun hw_insert_from :: "nat list \<Rightarrow> cpu_state \<Rightarrow> cpu_state" where
  "hw_insert_from [] env = env"
| "hw_insert_from (i # is) env = hw_insert_from is (hw_breakpoint_insert env i)"

definition set_dr :: "nat \<Rightarrow> target_ulong \<Rightarrow> cpu_state \<Rightarrow> cpu_state" where
  "set_dr r v env = env\<lparr>dr := (dr env)(r := v)\<rparr>"

definition helper_movl_drN_T0 :: "cpu_state \<Rightarrow> nat \<Rightarrow> target_ulong \<Rightarrow> cpu_state outcome" where
  "helper_movl_drN_T0 env reg t0 =
    (if reg < 4 then
       bind_out (hw_breakpoint_remove env reg) (\<lambda>env.
         Done (hw_breakpoint_insert (set_dr reg t0 env) reg))
     else if reg = 7 then
       bind_out (hw_remove_from [0..<DR7_MAX_BP] env) (\<lambda>env.
         Done (hw_insert_from [0..<DR7_MAX_BP] (set_dr 7 t0 env)))
     else Done (set_dr reg t0 env))"

text \<open>One round of the loop of \<open>check_hw_breakpoints\<close>: \<open>bp_match || wp_match\<close>.\<close>

definition hw_match :: "cpu_state \<Rightarrow> nat \<Rightarrow> bool outcome" where
  "hw_match env r =
    (let t = hw_breakpoint_type (dr env 7) r in
     if t = DR7_TYPE_BP_INST then Done (dr env r = eip env)
     else if t = DR7_TYPE_DATA_WR \<or> t = DR7_TYPE_DATA_RW then
       case cpu_breakpoint env r of None \<Rightarrow> Done False
       | Some ref \<Rightarrow> (case find (\<lambda>wp. wp_id wp = ref) (watchpoints env) of
           None \<Rightarrow> Abort
         | Some wp \<Rightarrow> Done (wp_flags wp AND BP_WATCHPOINT_HIT \<noteq> 0))
     else Done False)"

fun check_hw_loop :: "cpu_state \<Rightarrow> nat list \<Rightarrow> target_ulong \<times> bool \<Rightarrow> (target_ulong \<times> bool) outcome" where
  "check_hw_loop env [] acc = Done acc"
| "check_hw_loop env (r # rs) (dr6, hit_enabled) =
    bind_out (hw_match env r) (\<lambda>hit. check_hw_loop env rs
      (if hit then (dr6 OR push_bit r 1, hit_enabled \<or> hw_breakpoint_enabled (dr env 7) r) else (dr6, hit_enabled)))"

definition check_hw_breakpoints :: "cpu_state \<Rightarrow> bool \<Rightarrow> (cpu_state \<times> bool) outcome" where
  "check_hw_breakpoints env force_dr6_update =
    bind_out (check_hw_loop env [0..<DR7_MAX_BP] (dr env 6 AND NOT 0xf, False))
      (\<lambda>(dr6, hit_enabled).
        Done (if hit_enabled \<or> force_dr6_update then set_dr 6 dr6 env else env, hit_enabled))"

definition cpu_resume_from_signal :: "cpu_state \<Rightarrow> 'a outcome" where
  "cpu_resume_from_signal env = LoopExit (env\<lparr>exception_index := -1\<rparr>)"

definition breakpoint_handler :: "cpu_state \<Rightarrow> cpu_state outcome" where
  "breakpoint_handler env =
    (case watchpoint_hit env of
       Some ref \<Rightarrow>
         (case find (\<lambda>wp. wp_id wp = ref) (watchpoints env) of None \<Rightarrow> Abort
          | Some wp \<Rightarrow>
            if wp_flags wp AND BP_CPU \<noteq> 0 then
              bind_out (check_hw_breakpoints (env\<lparr>watchpoint_hit := None\<rparr>) False)
                (\<lambda>(env, hit). if hit then raise_exception env EXCP01_DB else cpu_resume_from_signal env)
            else Done env)
     | None \<Rightarrow>
         (case find (\<lambda>bp. bp_pc bp = eip env) (breakpoints env) of None \<Rightarrow> Done env
          | Some bp \<Rightarrow>
            if bp_flags bp AND BP_CPU \<noteq> 0 then
              bind_out (check_hw_breakpoints env True) (\<lambda>(env, _). raise_exception env EXCP01_DB)
            else Done env))"

text \<open>The reset of local breakpoints at the end of \<open>switch_tss\<close>.\<close>

definition switch_tss_debug :: "cpu_state \<Rightarrow> cpu_state outcome" where
  "switch_tss_debug env =
    (if dr env 7 AND DR7_LOCAL_BP_MASK \<noteq> 0 then
       bind_out (hw_remove_from (filter (\<lambda>i. hw_local_breakpoint_enabled (dr env 7) i
             \<and> \<not> hw_global_breakpoint_enabled (dr env 7) i) [0..<DR7_MAX_BP]) env)
         (\<lambda>env. Done (set_dr 7 (dr env 7 AND NOT DR7_LOCAL_BP_MASK) env))
     else Done env)"

end
