(* ===== verification/DebugRegsInv.thy ===== *)
theory DebugRegsInv
  imports DebugRegs
begin

text \<open>
  The debug registers own break- and watchpoints: which they refer to (\<open>linked\<close>, \<open>dr_inv\<close>), which of them refer to
  a watchpoint that a task switch has freed (\<open>freed_wp\<close>, \<open>dr_ok\<close>), and what writes, task switches and the debugger do
  to both over all histories (\<open>dr_run\<close>).
\<close>

subsection \<open>References from slots to owned entries\<close>

text \<open>The slots refer to pairwise different entries, and these are all there are.\<close>

definition linked :: "(nat \<times> 'd) set \<Rightarrow> nat set \<Rightarrow> (nat \<Rightarrow> nat option) \<Rightarrow> (nat \<Rightarrow> 'd) \<Rightarrow> bool" where
  "linked P S refs d \<longleftrightarrow> (\<forall>i \<in> S. refs i \<noteq> None) \<and> inj_on refs S \<and> P = (\<lambda>i. (the (refs i), d i)) ` S"

lemma linked_cong:
  "(\<And>i. i \<in> S \<Longrightarrow> refs i = refs' i \<and> d i = d' i) \<Longrightarrow> linked P S refs d = linked P S refs' d'"
  unfolding linked_def by (auto simp: inj_on_def image_iff)

lemma linked_remove:
  assumes "linked P S refs d" "i \<in> S" "refs i = Some r"
  shows "linked {p \<in> P. fst p \<noteq> r} (S - {i}) refs d" "r \<in> fst ` P"
proof -
  have ne: "the (refs j) \<noteq> r" if "j \<in> S" "j \<noteq> i" for j
    using assms that unfolding linked_def inj_on_def by (metis option.collapse)
  have "{p \<in> (\<lambda>i. (the (refs i), d i)) ` S. fst p \<noteq> r} = (\<lambda>i. (the (refs i), d i)) ` (S - {i})"
    using assms(2,3) by (auto dest: ne)
  then show "linked {p \<in> P. fst p \<noteq> r} (S - {i}) refs d"
    using assms(1) unfolding linked_def by (auto intro: inj_on_subset)
  show "r \<in> fst ` P" using assms unfolding linked_def by force
qed

lemma linked_insert:
  assumes "linked P S refs d" "i \<notin> S" "r \<notin> fst ` P"
  shows "linked (insert (r, x) P) (insert i S) (refs(i := Some r)) (d(i := x))"
proof -
  have ne: "refs j \<noteq> Some r" if "j \<in> S" for j
    using assms(1,3) that unfolding linked_def by force
  have "(\<lambda>j. (the ((refs(i := Some r)) j), (d(i := x)) j)) ` S = (\<lambda>j. (the (refs j), d j)) ` S"
    using assms(2) by (intro image_cong) auto
  moreover have "inj_on (refs(i := Some r)) (insert i S)"
    using assms(1,2) ne unfolding linked_def by (auto simp: inj_on_def dest: sym)
  ultimately show ?thesis
    using assms(1,2) unfolding linked_def by auto
qed

lemma linked_empty: "linked P {} refs d \<longleftrightarrow> P = {}"
  by (simp add: linked_def)


subsection \<open>The invariant\<close>

definition owns_bp :: "u64 \<Rightarrow> nat \<Rightarrow> bool" where
  "owns_bp dr7 i \<longleftrightarrow> hw_breakpoint_type dr7 i = DR7_TYPE_BP_INST \<and> hw_breakpoint_enabled dr7 i"

definition data_type :: "u64 \<Rightarrow> nat \<Rightarrow> bool" where
  "data_type dr7 i \<longleftrightarrow> hw_breakpoint_type dr7 i \<in> {DR7_TYPE_DATA_WR, DR7_TYPE_DATA_RW}"

definition owns_wp :: "(nat \<Rightarrow> target_ulong) \<Rightarrow> nat \<Rightarrow> bool" where
  "owns_wp d i \<longleftrightarrow> data_type (d 7) i \<and> watchpoint_ok (d i) (hw_breakpoint_len (d 7) i)"

definition wp_type :: "u64 \<Rightarrow> nat \<Rightarrow> u32" where
  "wp_type dr7 i = (if hw_breakpoint_type dr7 i = DR7_TYPE_DATA_WR then BP_CPU OR BP_MEM_WRITE else BP_CPU OR BP_MEM_ACCESS)"

definition bp_wants :: "(nat \<Rightarrow> target_ulong) \<Rightarrow> nat \<Rightarrow> target_ulong \<times> u32" where
  "bp_wants d i = (d i, BP_CPU)"

definition wp_wants :: "(nat \<Rightarrow> target_ulong) \<Rightarrow> nat \<Rightarrow> target_ulong \<times> target_ulong \<times> u32" where
  "wp_wants d i = (d i, NOT (hw_breakpoint_len (d 7) i - 1), wp_type (d 7) i)"

text \<open>The registers of \<open>S\<close> are installed, the others are not.\<close>

definition dr_inv :: "nat set \<Rightarrow> cpu_state \<Rightarrow> bool" where
  "dr_inv S env \<longleftrightarrow> bps.wf env \<and> wps.wf env \<and>
    linked (bps.owned_of env) {i \<in> S. owns_bp (dr env 7) i} (cpu_breakpoint env) (bp_wants (dr env)) \<and>
    linked (wps.owned_of env) {i \<in> S. owns_wp (dr env) i} (cpu_breakpoint env) (wp_wants (dr env)) \<and>
    (\<forall>i \<in> S. data_type (dr env 7) i \<and> \<not> owns_wp (dr env) i \<longrightarrow> cpu_breakpoint env i = None)"

lemma bp_ref_frame:
  assumes "cpu_breakpoint_remove_by_ref env r = Done env'"
  shows "watchpoints env' = watchpoints env" "next_ref env' = next_ref env" "dr env' = dr env"
    "cpu_breakpoint env' = cpu_breakpoint env"
  using assms by (auto simp: cpu_breakpoint_remove_by_ref_def split: option.splits)

lemma wp_ref_frame:
  assumes "cpu_watchpoint_remove_by_ref env r = Done env'"
  shows "breakpoints env' = breakpoints env" "next_ref env' = next_ref env" "dr env' = dr env"
    "cpu_breakpoint env' = cpu_breakpoint env"
  using assms by (auto simp: cpu_watchpoint_remove_by_ref_def split: option.splits)

lemma types_disjoint: "owns_bp (d 7) i \<Longrightarrow> \<not> data_type (d 7) i" "owns_wp d i \<Longrightarrow> data_type (d 7) i"
  by (auto simp: owns_bp_def data_type_def owns_wp_def)

lemma cpu_bits: "is_cpu BP_CPU" "is_cpu (wp_type dr7 i)" "\<not> is_gdb BP_CPU" "\<not> is_gdb (wp_type dr7 i)"
  by (simp_all add: is_cpu_def is_gdb_def wp_type_def)

lemma dr_inv_wf: "dr_inv S env \<Longrightarrow> bps.wf env" "dr_inv S env \<Longrightarrow> wps.wf env"
  by (simp_all add: dr_inv_def)

text \<open>Entries the debug registers do not own.\<close>

definition user_bps :: "cpu_state \<Rightarrow> breakpoint list" where
  "user_bps env = filter (\<lambda>b. \<not> is_cpu (bp_flags b)) (breakpoints env)"

definition user_wps :: "cpu_state \<Rightarrow> watchpoint list" where
  "user_wps env = filter (\<lambda>w. \<not> is_cpu (wp_flags w)) (watchpoints env)"

lemma filter_owned:
  assumes "distinct (map idf es)" "r \<in> fst ` owned idf fl dsc es"
  shows "filter (\<lambda>e. \<not> is_cpu (fl e)) (filter (\<lambda>e. idf e \<noteq> r) es) = filter (\<lambda>e. \<not> is_cpu (fl e)) es"
proof -
  obtain e where e: "e \<in> set es" "is_cpu (fl e)" "r = idf e" using assms(2) by (auto simp: mem_owned)
  have "idf x = r \<Longrightarrow> x = e" if "x \<in> set es" for x
    using assms(1) e(1,3) that by (auto simp: distinct_map inj_on_def)
  then show ?thesis using e(2) by (auto simp: filter_filter intro!: filter_cong)
qed

lemma remove_bp_slot:
  assumes inv: "dr_inv S env" and i: "i \<in> S" and o: "owns_bp (dr env 7) i"
  obtains env' r where "cpu_breakpoint env i = Some r" "cpu_breakpoint_remove_by_ref env r = Done env'"
    "dr_inv (S - {i}) env'" "dr env' = dr env" "user_bps env' = user_bps env" "user_wps env' = user_wps env"
proof -
  let ?B = "{j \<in> S. owns_bp (dr env 7) j}" and ?W = "{j \<in> S. owns_wp (dr env) j}"
  have lb: "linked (bps.owned_of env) ?B (cpu_breakpoint env) (bp_wants (dr env))"
    and lw: "linked (wps.owned_of env) ?W (cpu_breakpoint env) (wp_wants (dr env))"
    using inv by (simp_all add: dr_inv_def)
  obtain r where r: "cpu_breakpoint env i = Some r" using lb i o by (auto simp: linked_def)
  note lb' = linked_remove [OF lb _ r]
  obtain env' where env': "cpu_breakpoint_remove_by_ref env r = Done env'"
    using bps.remove_owned [OF lb'(2)] i o by auto
  note f = bp_ref_frame [OF env'] and own = bps.owned_remove [OF env']
  have B: "?B - {i} = {j \<in> S - {i}. owns_bp (dr env 7) j}" by auto
  have W: "?W = {j \<in> S - {i}. owns_wp (dr env) j}" using types_disjoint [of "dr env" i] o by auto
  have "dr_inv (S - {i}) env'"
    using inv i o lb'(1) lw bps.wf_remove [OF _ env'] unfolding dr_inv_def f own B [symmetric] W [symmetric] by simp
  moreover have "user_bps env' = user_bps env"
    using filter_owned [of bp_id "breakpoints env" r bp_flags bp_desc] lb'(2) i o dr_inv_wf(1) [OF inv]
    by (simp add: user_bps_def bps.remove_cases(1) [OF env'] points_wf_def)
  ultimately show ?thesis using that [OF r env'] f by (simp add: user_wps_def)
qed

lemma remove_wp_slot:
  assumes inv: "dr_inv S env" and i: "i \<in> S" and o: "owns_wp (dr env) i"
  obtains env' r where "cpu_breakpoint env i = Some r" "cpu_watchpoint_remove_by_ref env r = Done env'"
    "dr_inv (S - {i}) env'" "dr env' = dr env" "user_bps env' = user_bps env" "user_wps env' = user_wps env"
proof -
  let ?B = "{j \<in> S. owns_bp (dr env 7) j}" and ?W = "{j \<in> S. owns_wp (dr env) j}"
  have lb: "linked (bps.owned_of env) ?B (cpu_breakpoint env) (bp_wants (dr env))"
    and lw: "linked (wps.owned_of env) ?W (cpu_breakpoint env) (wp_wants (dr env))"
    using inv by (simp_all add: dr_inv_def)
  obtain r where r: "cpu_breakpoint env i = Some r" using lw i o by (auto simp: linked_def)
  note lw' = linked_remove [OF lw _ r]
  obtain env' where env': "cpu_watchpoint_remove_by_ref env r = Done env'"
    using wps.remove_owned [OF lw'(2)] i o by auto
  note f = wp_ref_frame [OF env'] and own = wps.owned_remove [OF env']
  have W: "?W - {i} = {j \<in> S - {i}. owns_wp (dr env) j}" by auto
  have B: "?B = {j \<in> S - {i}. owns_bp (dr env 7) j}" using types_disjoint [of "dr env" i] o by auto
  have "dr_inv (S - {i}) env'"
    using inv i o lw'(1) lb wps.wf_remove [OF _ env'] unfolding dr_inv_def f own B [symmetric] W [symmetric] by simp
  moreover have "user_wps env' = user_wps env"
    using filter_owned [of wp_id "watchpoints env" r wp_flags wp_desc] lw'(2) i o dr_inv_wf(2) [OF inv]
    by (simp add: user_wps_def wps.remove_cases(1) [OF env'] points_wf_def)
  ultimately show ?thesis using that [OF r env'] f by (simp add: user_bps_def)
qed

lemma dr_inv_drop:
  assumes inv: "dr_inv S env" and n: "\<not> owns_bp (dr env 7) i" "\<not> owns_wp (dr env) i"
  shows "dr_inv (S - {i}) env"
proof -
  have "{j \<in> S - {i}. owns_bp (dr env 7) j} = {j \<in> S. owns_bp (dr env 7) j}"
    "{j \<in> S - {i}. owns_wp (dr env) j} = {j \<in> S. owns_wp (dr env) j}" using n by auto
  then show ?thesis using inv by (simp add: dr_inv_def)
qed

lemma dr_inv_remove:
  assumes inv: "dr_inv S env" and i: "i \<in> S"
  obtains env' where "hw_breakpoint_remove env i = Done env'" "dr_inv (S - {i}) env'" "dr env' = dr env"
    "user_bps env' = user_bps env" "user_wps env' = user_wps env"
proof -
  consider "owns_bp (dr env 7) i" | "owns_wp (dr env) i" | "\<not> owns_bp (dr env 7) i" "\<not> owns_wp (dr env) i" by blast
  then show ?thesis
  proof cases
    case 1
    obtain env' r where e: "cpu_breakpoint env i = Some r" "cpu_breakpoint_remove_by_ref env r = Done env'"
        "dr_inv (S - {i}) env'" "dr env' = dr env" "user_bps env' = user_bps env" "user_wps env' = user_wps env"
      by (rule remove_bp_slot [OF inv i 1])
    have "hw_breakpoint_remove env i = Done env'"
      using 1 e(1,2) by (simp add: hw_breakpoint_remove_def owns_bp_def)
    then show ?thesis using e(3-6) by (rule that)
  next
    case 2
    obtain env' r where e: "cpu_breakpoint env i = Some r" "cpu_watchpoint_remove_by_ref env r = Done env'"
        "dr_inv (S - {i}) env'" "dr env' = dr env" "user_bps env' = user_bps env" "user_wps env' = user_wps env"
      by (rule remove_wp_slot [OF inv i 2])
    have "hw_breakpoint_remove env i = Done env'"
      using 2 e(1,2) by (auto simp: hw_breakpoint_remove_def owns_wp_def data_type_def)
    then show ?thesis using e(3-6) by (rule that)
  next
    case 3
    have "hw_breakpoint_remove env i = Done env"
    proof (cases "data_type (dr env 7) i")
      case True
      then show ?thesis using inv i 3 by (simp add: dr_inv_def hw_breakpoint_remove_def)
    next
      case False
      then show ?thesis
        using 3 by (auto simp: hw_breakpoint_remove_def owns_bp_def data_type_def Let_def split: option.splits)
    qed
    then show ?thesis using that dr_inv_drop [OF inv 3] by blast
  qed
qed


lemma user_insert_bp: "cpu_breakpoint_insert env pc BP_CPU = (env', r) \<Longrightarrow>
    user_bps env' = user_bps env \<and> user_wps env' = user_wps env \<and> dr env' = dr env
    \<and> cpu_breakpoint env' = cpu_breakpoint env \<and> watchpoints env' = watchpoints env
    \<and> next_ref env' = Suc (next_ref env) \<and> r = next_ref env"
  by (auto simp: cpu_breakpoint_insert_def Let_def user_bps_def user_wps_def is_cpu_def)

lemma user_insert_wp: "cpu_watchpoint_insert env a l (wp_type dr7 i) = (env', Inr r) \<Longrightarrow>
    user_bps env' = user_bps env \<and> user_wps env' = user_wps env \<and> dr env' = dr env
    \<and> cpu_breakpoint env' = cpu_breakpoint env \<and> breakpoints env' = breakpoints env
    \<and> next_ref env' = Suc (next_ref env) \<and> r = next_ref env"
  using cpu_bits(2) [of dr7 i]
  by (auto simp: cpu_watchpoint_insert_def Let_def user_bps_def user_wps_def split: if_splits)

lemma hit_bit: "(wp_type dr7 i) AND NOT BP_WATCHPOINT_HIT = wp_type dr7 i"
  by (simp add: wp_type_def)

lemma set_ref_simps [simp]:
  "breakpoints (set_ref i r env) = breakpoints env" "watchpoints (set_ref i r env) = watchpoints env"
  "next_ref (set_ref i r env) = next_ref env" "dr (set_ref i r env) = dr env"
  "cpu_breakpoint (set_ref i r env) = (cpu_breakpoint env)(i := r)"
  "user_bps (set_ref i r env) = user_bps env" "user_wps (set_ref i r env) = user_wps env"
  by (simp_all add: set_ref_def user_bps_def user_wps_def)

lemma dr_inv_insert:
  assumes inv: "dr_inv S env" and i: "i \<notin> S"
  shows "dr_inv (insert i S) (hw_breakpoint_insert env i) \<and> dr (hw_breakpoint_insert env i) = dr env
    \<and> user_bps (hw_breakpoint_insert env i) = user_bps env \<and> user_wps (hw_breakpoint_insert env i) = user_wps env"
proof -
  let ?B = "\<lambda>S. {j \<in> S. owns_bp (dr env 7) j}" and ?W = "\<lambda>S. {j \<in> S. owns_wp (dr env) j}"
  have lb: "linked (bps.owned_of env) (?B S) (cpu_breakpoint env) (bp_wants (dr env))"
    and lw: "linked (wps.owned_of env) (?W S) (cpu_breakpoint env) (wp_wants (dr env))"
    using inv by (simp_all add: dr_inv_def)
  have bad: "\<forall>j \<in> S. data_type (dr env 7) j \<and> \<not> owns_wp (dr env) j \<longrightarrow> cpu_breakpoint env j = None"
    using inv by (simp add: dr_inv_def)
  have keep: "linked P S' ((cpu_breakpoint env)(i := x)) d = linked P S' (cpu_breakpoint env) d"
    if "S' \<subseteq> S" for P S' x and d :: "nat \<Rightarrow> 'd"
    using that i by (intro linked_cong) auto
  consider (b) "owns_bp (dr env 7) i" | (w) "owns_wp (dr env) i"
    | (n) "data_type (dr env 7) i" "\<not> owns_wp (dr env) i"
    | (o) "\<not> owns_bp (dr env 7) i" "\<not> data_type (dr env 7) i" by blast
  then show ?thesis
  proof cases
    case b
    obtain env1 r where e: "cpu_breakpoint_insert env (dr env i) BP_CPU = (env1, r)" by fastforce
    note u = user_insert_bp [OF e]
    have env': "hw_breakpoint_insert env i = set_ref i (Some r) env1"
      using b e by (simp add: hw_breakpoint_insert_def owns_bp_def)
    have own: "bps.owned_of env1 = insert (r, bp_wants (dr env) i) (bps.owned_of env)"
      using bps.owned_insert [of env "dr env i" BP_CPU env1 "Inr r"] e u cpu_bits
      by (simp add: bp_of_def bp_desc_def bp_wants_def)
    have "linked (bps.owned_of env1) (insert i (?B S)) ((cpu_breakpoint env)(i := Some r))
        ((bp_wants (dr env))(i := bp_wants (dr env) i))"
      unfolding own using i u owned_fresh [OF dr_inv_wf(1) [OF inv]] by (intro linked_insert [OF lb]) auto
    moreover have "?B (insert i S) = insert i (?B S)" "?W (insert i S) = ?W S"
      using b types_disjoint [of "dr env" i] by auto
    moreover have "bps.wf env1" using bps.wf_insert [of env "dr env i" BP_CPU env1 "Inr r"] e dr_inv_wf(1) [OF inv] by simp
    moreover have "wps.wf env1" using dr_inv_wf(2) [OF inv] u by (auto intro: points_wf_mono)
    moreover have "wps.owned_of env1 = wps.owned_of env" using u by simp
    ultimately have "dr_inv (insert i S) (set_ref i (Some r) env1)"
      using u lw bad i b types_disjoint [of "dr env" i] by (auto simp: dr_inv_def keep)
    then show ?thesis using u by (simp add: env')
  next
    case w
    obtain env1 q where e: "cpu_watchpoint_insert env (dr env i) (hw_breakpoint_len (dr env 7) i) (wp_type (dr env 7) i) = (env1, q)"
      by fastforce
    have ok: "watchpoint_ok (dr env i) (hw_breakpoint_len (dr env 7) i)" using w by (simp add: owns_wp_def)
    then obtain r where q: "q = Inr r" using e by (auto simp: cpu_watchpoint_insert_def Let_def)
    note u = user_insert_wp [OF e [unfolded q]]
    have env': "hw_breakpoint_insert env i = set_ref i (Some r) env1"
      using w e q by (auto simp: hw_breakpoint_insert_def owns_wp_def data_type_def wp_type_def)
    have own: "wps.owned_of env1 = insert (r, wp_wants (dr env) i) (wps.owned_of env)"
      using wps.owned_insert [of "(dr env i, hw_breakpoint_len (dr env 7) i)" env "wp_type (dr env 7) i" env1 q] e ok u cpu_bits
      by (simp add: wp_of_def wp_desc_def wp_wants_def hit_bit [simplified])
    have "linked (wps.owned_of env1) (insert i (?W S)) ((cpu_breakpoint env)(i := Some r))
        ((wp_wants (dr env))(i := wp_wants (dr env) i))"
      unfolding own using i u owned_fresh [OF dr_inv_wf(2) [OF inv]] by (intro linked_insert [OF lw]) auto
    moreover have "?W (insert i S) = insert i (?W S)" "?B (insert i S) = ?B S"
      using w types_disjoint [of "dr env" i] by auto
    moreover have "wps.wf env1"
      using wps.wf_insert [of env "(dr env i, hw_breakpoint_len (dr env 7) i)" "wp_type (dr env 7) i" env1 q] e dr_inv_wf(2) [OF inv]
      by simp
    moreover have "bps.wf env1" using dr_inv_wf(1) [OF inv] u by (auto intro: points_wf_mono)
    moreover have "bps.owned_of env1 = bps.owned_of env" using u by simp
    ultimately have "dr_inv (insert i S) (set_ref i (Some r) env1)"
      using u lb bad i w by (auto simp: dr_inv_def keep)
    then show ?thesis using u by (simp add: env')
  next
    case n
    then have "hw_breakpoint_insert env i = set_ref i None env"
      by (auto simp: hw_breakpoint_insert_def owns_wp_def data_type_def cpu_watchpoint_insert_def)
    moreover have "?W (insert i S) = ?W S" "?B (insert i S) = ?B S"
      using n types_disjoint [of "dr env" i] by auto
    moreover have "dr_inv (insert i S) (set_ref i None env)"
      using inv i calculation(2,3) by (auto simp: dr_inv_def keep)
    ultimately show ?thesis by simp
  next
    case o
    then have "hw_breakpoint_insert env i = env"
      by (auto simp: hw_breakpoint_insert_def owns_bp_def data_type_def Let_def)
    moreover have "?W (insert i S) = ?W S" "?B (insert i S) = ?B S"
      using o types_disjoint [of "dr env" i] by auto
    ultimately show ?thesis using inv o by (auto simp: dr_inv_def)
  qed
qed


subsection \<open>Writes to the debug registers\<close>

lemma dr_inv_remove_from:
  "dr_inv S env \<Longrightarrow> distinct is \<Longrightarrow> set is \<subseteq> S \<Longrightarrow>
    \<exists>env'. hw_remove_from is env = Done env' \<and> dr_inv (S - set is) env' \<and> dr env' = dr env
      \<and> user_bps env' = user_bps env \<and> user_wps env' = user_wps env"
proof (induction "is" arbitrary: S env)
  case (Cons i "is")
  obtain env1 where e: "hw_breakpoint_remove env i = Done env1" "dr_inv (S - {i}) env1" "dr env1 = dr env"
      "user_bps env1 = user_bps env" "user_wps env1 = user_wps env"
    using dr_inv_remove [OF Cons.prems(1), of i] Cons.prems(3) by auto
  have "set is \<subseteq> S - {i}" using Cons.prems by auto
  from Cons.IH [OF e(2) _ this] Cons.prems(2) obtain env' where
    "hw_remove_from is env1 = Done env'" "dr_inv (S - {i} - set is) env'" "dr env' = dr env1"
    "user_bps env' = user_bps env1" "user_wps env' = user_wps env1" by auto
  moreover have "S - {i} - set is = S - set (i # is)" by auto
  ultimately show ?case using e by (simp add: bind_out_def)
qed simp

lemma dr_inv_insert_from:
  "dr_inv S env \<Longrightarrow> distinct is \<Longrightarrow> set is \<inter> S = {} \<Longrightarrow>
    dr_inv (S \<union> set is) (hw_insert_from is env) \<and> dr (hw_insert_from is env) = dr env
      \<and> user_bps (hw_insert_from is env) = user_bps env \<and> user_wps (hw_insert_from is env) = user_wps env"
proof (induction "is" arbitrary: S env)
  case (Cons i "is")
  have i: "i \<notin> S" using Cons.prems(3) by simp
  note e = dr_inv_insert [OF Cons.prems(1) i]
  have "set is \<inter> insert i S = {}" using Cons.prems(2,3) by auto
  from Cons.IH [OF conjunct1 [OF e] _ this] Cons.prems(2) e show ?case by (simp add: Un_commute)
qed simp

lemma set_dr_simps [simp]:
  "breakpoints (set_dr r v env) = breakpoints env" "watchpoints (set_dr r v env) = watchpoints env"
  "next_ref (set_dr r v env) = next_ref env" "cpu_breakpoint (set_dr r v env) = cpu_breakpoint env"
  "dr (set_dr r v env) = (dr env)(r := v)"
  "user_bps (set_dr r v env) = user_bps env" "user_wps (set_dr r v env) = user_wps env"
  by (simp_all add: set_dr_def user_bps_def user_wps_def)

lemma dr_inv_set:
  assumes "dr_inv S env" "r \<notin> S" "r \<noteq> 7 \<or> S = {}"
  shows "dr_inv S (set_dr r v env)"
proof (cases "S = {}")
  case True
  then show ?thesis using assms(1) by (simp add: dr_inv_def linked_empty)
next
  case False
  then have r: "r \<noteq> 7" using assms(3) by blast
  have o: "owns_wp ((dr env)(r := v)) i = owns_wp (dr env) i" "wp_wants ((dr env)(r := v)) i = wp_wants (dr env) i"
    "bp_wants ((dr env)(r := v)) i = bp_wants (dr env) i" if "i \<in> S" for i
    using that assms(2) r by (auto simp: owns_wp_def wp_wants_def bp_wants_def)
  then have W: "{i \<in> S. owns_wp ((dr env)(r := v)) i} = {i \<in> S. owns_wp (dr env) i}" by auto
  have "linked P {i \<in> S. owns_wp (dr env) i} refs (wp_wants ((dr env)(r := v)))
      = linked P {i \<in> S. owns_wp (dr env) i} refs (wp_wants (dr env))" for P refs
    using o by (intro linked_cong) auto
  moreover have "linked P {i \<in> S. owns_bp (dr env 7) i} refs (bp_wants ((dr env)(r := v)))
      = linked P {i \<in> S. owns_bp (dr env 7) i} refs (bp_wants (dr env))" for P refs
    using o by (intro linked_cong) auto
  ultimately show ?thesis using assms(1) o r unfolding dr_inv_def by (simp add: W)
qed

lemma upt_4: "[0..<4] = [0, 1, 2, 3 :: nat]"
  by (simp add: upt_rec)

subsection \<open>Freed watchpoints\<close>

abbreviation all_drs :: "nat set" where "all_drs \<equiv> {0, 1, 2, 3}"

text \<open>The register refers to a watchpoint that is in the list no more: a task switch has freed it.\<close>

definition freed_wp :: "cpu_state \<Rightarrow> nat \<Rightarrow> bool" where
  "freed_wp env i \<longleftrightarrow> data_type (dr env 7) i \<and>
    (case cpu_breakpoint env i of None \<Rightarrow> False | Some r \<Rightarrow> r \<notin> wp_id ` set (watchpoints env))"

definition live :: "cpu_state \<Rightarrow> nat set" where "live env = {i \<in> all_drs. \<not> freed_wp env i}"

text \<open>The other registers are installed; one that refers to a freed watchpoint is not enabled.\<close>

definition dr_ok :: "cpu_state \<Rightarrow> bool" where
  "dr_ok env \<longleftrightarrow> dr_inv (live env) env \<and> (\<forall>i \<in> all_drs - live env.
    \<not> hw_breakpoint_enabled (dr env 7) i \<and> the (cpu_breakpoint env i) < next_ref env)"

lemma dr_inv_live: "dr_inv S env \<Longrightarrow> i \<in> S \<Longrightarrow> \<not> freed_wp env i"
proof
  assume inv: "dr_inv S env" and i: "i \<in> S" and f: "freed_wp env i"
  then obtain r where r: "cpu_breakpoint env i = Some r" "r \<notin> wp_id ` set (watchpoints env)" "data_type (dr env 7) i"
    by (auto simp: freed_wp_def split: option.splits)
  then have "owns_wp (dr env) i" using inv i by (auto simp: dr_inv_def)
  then have "(the (cpu_breakpoint env i), wp_wants (dr env) i) \<in> wps.owned_of env"
    using inv i by (auto simp: dr_inv_def linked_def)
  then show False using r(1,2) by (auto simp: mem_owned)
qed

lemma dr_okI:
  assumes "S \<subseteq> all_drs" "dr_inv S env"
    "\<And>i. i \<in> all_drs - S \<Longrightarrow> freed_wp env i \<and> \<not> hw_breakpoint_enabled (dr env 7) i \<and> the (cpu_breakpoint env i) < next_ref env"
  shows "dr_ok env" "live env = S"
proof -
  show l: "live env = S" using assms dr_inv_live [OF assms(2)] unfolding live_def by blast
  then show "dr_ok env" unfolding dr_ok_def l using assms(2,3) by blast
qed

lemma dr_ok_inv: "dr_ok env \<Longrightarrow> dr_inv (live env) env" by (simp add: dr_ok_def)

lemma live_sub: "live env \<subseteq> all_drs" by (auto simp: live_def)

lemma not_live: "i \<in> all_drs - live env \<Longrightarrow> freed_wp env i" by (auto simp: live_def)

text \<open>Watchpoints may go and new ones may come.\<close>

definition wp_ids :: "cpu_state \<Rightarrow> nat set" where "wp_ids env = wp_id ` set (watchpoints env)"

definition fresh_only :: "cpu_state \<Rightarrow> cpu_state \<Rightarrow> bool" where
  "fresh_only env env' \<longleftrightarrow> next_ref env \<le> next_ref env' \<and> wp_ids env' \<subseteq> wp_ids env \<union> {n. next_ref env \<le> n}"

lemma freed_step:
  assumes "freed_wp env i" "the (cpu_breakpoint env i) < next_ref env" "fresh_only env env'"
    "cpu_breakpoint env' i = cpu_breakpoint env i" "hw_breakpoint_type (dr env' 7) i = hw_breakpoint_type (dr env 7) i"
  shows "freed_wp env' i" "the (cpu_breakpoint env' i) < next_ref env'"
  using assms by (auto simp: freed_wp_def fresh_only_def wp_ids_def data_type_def subset_eq split: option.splits)

lemma dr_ok_step:
  assumes ok: "dr_ok env" and inv: "dr_inv (live env) env'" and e: "dr env' 7 = dr env 7" "fresh_only env env'"
    "\<And>i. i \<in> all_drs - live env \<Longrightarrow> cpu_breakpoint env' i = cpu_breakpoint env i"
  shows "dr_ok env'" "live env' = live env"
proof -
  have "freed_wp env' i \<and> \<not> hw_breakpoint_enabled (dr env' 7) i \<and> the (cpu_breakpoint env' i) < next_ref env'"
    if i: "i \<in> all_drs - live env" for i
  proof -
    have b: "\<not> hw_breakpoint_enabled (dr env 7) i" "the (cpu_breakpoint env i) < next_ref env"
      using ok i by (simp_all add: dr_ok_def)
    show ?thesis using freed_step [OF not_live [OF i] b(2) e(2) e(3) [OF i]] b(1) e(1) by simp
  qed
  note k = dr_okI [OF live_sub inv this]
  show "dr_ok env'" "live env' = live env" by (rule k, assumption)+
qed

text \<open>What installing and removing a register leave alone.\<close>

lemma hw_remove_frame:
  assumes "hw_breakpoint_remove env i = Done env'"
  shows "cpu_breakpoint env' = cpu_breakpoint env" "dr env' = dr env" "next_ref env' = next_ref env"
    "wp_ids env' \<subseteq> wp_ids env" "data_type (dr env 7) i \<Longrightarrow> cpu_breakpoint env i = Some r \<Longrightarrow> r \<notin> wp_ids env'"
proof -
  consider "env' = env" "\<not> data_type (dr env 7) i \<or> cpu_breakpoint env i = None"
    | q where "cpu_breakpoint_remove_by_ref env q = Done env'" "\<not> data_type (dr env 7) i"
    | q where "cpu_breakpoint env i = Some q" "cpu_watchpoint_remove_by_ref env q = Done env'"
  proof (cases "cpu_breakpoint env i")
    case None
    then show ?thesis using assms that(1) by (simp add: hw_breakpoint_remove_def)
  next
    case (Some q)
    show ?thesis
    proof (cases "data_type (dr env 7) i")
      case True
      then have "cpu_watchpoint_remove_by_ref env q = Done env'"
        using assms Some by (auto simp: hw_breakpoint_remove_def data_type_def)
      with Some show ?thesis by (rule that(3))
    next
      case False
      then have "cpu_breakpoint_remove_by_ref env q = Done env' \<or> env' = env"
        using assms Some by (simp add: hw_breakpoint_remove_def data_type_def Let_def split: if_splits)
      then show ?thesis using False that(1,2) by blast
    qed
  qed
  then have "cpu_breakpoint env' = cpu_breakpoint env \<and> dr env' = dr env \<and> next_ref env' = next_ref env \<and>
    wp_ids env' \<subseteq> wp_ids env \<and> (data_type (dr env 7) i \<longrightarrow> cpu_breakpoint env i = Some r \<longrightarrow> r \<notin> wp_ids env')"
  proof cases
    case 1
    then show ?thesis by auto
  next
    case (2 q)
    then show ?thesis using bp_ref_frame [OF 2(1)] by (auto simp: wp_ids_def)
  next
    case (3 q)
    then show ?thesis using wp_ref_frame [OF 3(2)] wps.remove_cases(1) [OF 3(2)] by (auto simp: wp_ids_def)
  qed
  then show "cpu_breakpoint env' = cpu_breakpoint env" "dr env' = dr env" "next_ref env' = next_ref env"
    "wp_ids env' \<subseteq> wp_ids env" "data_type (dr env 7) i \<Longrightarrow> cpu_breakpoint env i = Some r \<Longrightarrow> r \<notin> wp_ids env'"
    by blast+
qed

lemma hw_remove_from_frame:
  "hw_remove_from is env = Done env' \<Longrightarrow> cpu_breakpoint env' = cpu_breakpoint env \<and> dr env' = dr env \<and>
    next_ref env' = next_ref env \<and> wp_ids env' \<subseteq> wp_ids env \<and>
    (\<forall>i \<in> set is. \<forall>r. data_type (dr env 7) i \<longrightarrow> cpu_breakpoint env i = Some r \<longrightarrow> r \<notin> wp_ids env')"
proof (induction "is" arbitrary: env)
  case (Cons i "is")
  then obtain env1 where e: "hw_breakpoint_remove env i = Done env1" "hw_remove_from is env1 = Done env'"
    by (cases "hw_breakpoint_remove env i") auto
  have "r \<notin> wp_ids env'" if "data_type (dr env 7) i" "cpu_breakpoint env i = Some r" for r
    using hw_remove_frame(5) [OF e(1) that] Cons.IH [OF e(2)] by blast
  then show ?case using hw_remove_frame(1-4) [OF e(1)] Cons.IH [OF e(2)] by auto
qed simp

lemma remove_freed: "freed_wp env i \<Longrightarrow> hw_breakpoint_remove env i = Abort"
  using wps.remove_stale [of _ env]
  by (auto simp: freed_wp_def hw_breakpoint_remove_def data_type_def split: option.splits)

lemma remove_from_freed:
  "dr_inv S env \<Longrightarrow> distinct is \<Longrightarrow> \<forall>i \<in> set is - S. freed_wp env i \<Longrightarrow> \<exists>i \<in> set is. freed_wp env i \<Longrightarrow>
    hw_remove_from is env = Abort"
proof (induction "is" arbitrary: S env)
  case (Cons i "is")
  show ?case
  proof (cases "freed_wp env i")
    case True
    then show ?thesis by (simp add: remove_freed)
  next
    case False
    then have i: "i \<in> S" using Cons.prems(3) by auto
    obtain env1 where e: "hw_breakpoint_remove env i = Done env1" "dr_inv (S - {i}) env1"
      using dr_inv_remove [OF Cons.prems(1) i] by blast
    note f = hw_remove_frame(1-4) [OF e(1)]
    have still: "freed_wp env j \<Longrightarrow> freed_wp env1 j" for j
      using f by (auto simp: freed_wp_def wp_ids_def split: option.splits)
    have "hw_remove_from is env1 = Abort"
    proof (rule Cons.IH [OF e(2)])
      show "\<forall>j \<in> set is - (S - {i}). freed_wp env1 j" using Cons.prems(2,3) still by auto
      show "\<exists>j \<in> set is. freed_wp env1 j" using Cons.prems(4) False still by auto
    qed (use Cons.prems(2) in simp)
    then show ?thesis by (simp add: e(1))
  qed
qed simp

lemma hw_insert_cases:
  obtains "hw_breakpoint_insert env i = env"
  | a env1 r q where "cpu_breakpoint_insert env a BP_CPU = (env1, r)" "hw_breakpoint_insert env i = set_ref i q env1"
  | a l env1 r q where "cpu_watchpoint_insert env a l (wp_type (dr env 7) i) = (env1, r)" "hw_breakpoint_insert env i = set_ref i q env1"
proof -
  consider (b) "owns_bp (dr env 7) i" | (w) "data_type (dr env 7) i" | (n) "\<not> owns_bp (dr env 7) i" "\<not> data_type (dr env 7) i"
    by blast
  then show thesis
  proof cases
    case b
    obtain env1 r where e: "cpu_breakpoint_insert env (dr env i) BP_CPU = (env1, r)" by fastforce
    have "hw_breakpoint_insert env i = set_ref i (Some r) env1" using b e by (simp add: hw_breakpoint_insert_def owns_bp_def)
    with e show thesis by (rule that(2))
  next
    case w
    obtain env1 q where e: "cpu_watchpoint_insert env (dr env i) (hw_breakpoint_len (dr env 7) i) (wp_type (dr env 7) i) = (env1, q)"
      by fastforce
    have "hw_breakpoint_insert env i = set_ref i (case q of Inl _ \<Rightarrow> None | Inr r \<Rightarrow> Some r) env1"
      using w e by (cases q) (auto simp: hw_breakpoint_insert_def data_type_def wp_type_def)
    with e show thesis by (rule that(3))
  next
    case n
    then have "hw_breakpoint_insert env i = env"
      by (auto simp: hw_breakpoint_insert_def owns_bp_def data_type_def Let_def)
    then show thesis by (rule that(1))
  qed
qed

lemma fresh_only_trans: "fresh_only a b \<Longrightarrow> fresh_only b c \<Longrightarrow> fresh_only a c"
  unfolding fresh_only_def by (auto simp: subset_eq)

lemma fresh_only_shrink: "next_ref b = next_ref a \<Longrightarrow> wp_ids b \<subseteq> wp_ids a \<Longrightarrow> fresh_only a b"
  unfolding fresh_only_def by auto

lemma wp_ids_simps [simp]: "wp_ids (set_dr r v env) = wp_ids env" "wp_ids (set_ref i q env) = wp_ids env"
  by (simp_all add: wp_ids_def)

lemma hw_insert_frame:
  "j \<noteq> i \<Longrightarrow> cpu_breakpoint (hw_breakpoint_insert env i) j = cpu_breakpoint env j"
  "fresh_only env (hw_breakpoint_insert env i)"
proof -
  have "(j \<noteq> i \<longrightarrow> cpu_breakpoint (hw_breakpoint_insert env i) j = cpu_breakpoint env j) \<and>
    fresh_only env (hw_breakpoint_insert env i)"
  proof (cases rule: hw_insert_cases [of env i])
    case 1
    then show ?thesis by (simp add: fresh_only_def)
  next
    case (2 a env1 r q)
    then show ?thesis using user_insert_bp [OF 2(1)] by (simp add: fresh_only_def wp_ids_def)
  next
    case (3 a l env1 r q)
    have "cpu_breakpoint env1 = cpu_breakpoint env \<and> next_ref env \<le> next_ref env1 \<and> wp_ids env1 \<subseteq> insert (next_ref env) (wp_ids env)"
      using 3(1) by (auto simp: cpu_watchpoint_insert_def wp_ids_def Let_def split: if_splits)
    then show ?thesis using 3(2) by (auto simp: fresh_only_def wp_ids_def)
  qed
  then show "j \<noteq> i \<Longrightarrow> cpu_breakpoint (hw_breakpoint_insert env i) j = cpu_breakpoint env j"
    "fresh_only env (hw_breakpoint_insert env i)" by blast+
qed

subsection \<open>Writes\<close>

text \<open>The write uses a freed watchpoint.\<close>

definition writes_freed :: "cpu_state \<Rightarrow> nat \<Rightarrow> bool" where
  "writes_freed env r \<longleftrightarrow> (if r = 7 then \<exists>i \<in> all_drs. freed_wp env i else r < 4 \<and> freed_wp env r)"

lemma movl_freed:
  assumes ok: "dr_ok env" and f: "writes_freed env r"
  shows "helper_movl_drN_T0 env r v = Abort"
proof (cases "r = 7")
  case True
  have "hw_remove_from [0, 1, 2, 3] env = Abort"
    by (rule remove_from_freed [OF dr_ok_inv [OF ok]]) (use f True in \<open>auto simp: writes_freed_def live_def\<close>)
  then show ?thesis
    using True by (simp add: helper_movl_drN_T0_def upt_4 del: hw_remove_from.simps hw_insert_from.simps)
next
  case False
  then show ?thesis using f by (simp add: writes_freed_def helper_movl_drN_T0_def remove_freed)
qed

lemma movl_drN:
  assumes ok: "dr_ok env" and r: "r < 8" and nf: "\<not> writes_freed env r"
  obtains env' where "helper_movl_drN_T0 env r v = Done env'" "dr_ok env'" "dr env' = (dr env)(r := v)"
    "user_bps env' = user_bps env" "user_wps env' = user_wps env"
proof -
  note inv = dr_ok_inv [OF ok]
  consider "r < 4" | "r = 7" | "4 \<le> r" "r < 7" using r by linarith
  then show ?thesis
  proof cases
    case 1
    then have r4: "r \<in> live env" using nf by (auto simp: writes_freed_def live_def)
    obtain env1 where e: "hw_breakpoint_remove env r = Done env1" "dr_inv (live env - {r}) env1" "dr env1 = dr env"
      "user_bps env1 = user_bps env" "user_wps env1 = user_wps env" by (rule dr_inv_remove [OF inv r4])
    note f = hw_remove_frame(1,3,4) [OF e(1)]
    let ?e = "hw_breakpoint_insert (set_dr r v env1) r"
    have s: "dr_inv (live env - {r}) (set_dr r v env1)" using 1 by (intro dr_inv_set [OF e(2)]) auto
    have "insert r (live env - {r}) = live env" using r4 by auto
    then have i: "dr_inv (live env) ?e" "dr ?e = (dr env)(r := v)" "user_bps ?e = user_bps env" "user_wps ?e = user_wps env"
      using dr_inv_insert [OF s, of r] e by simp_all
    have fr: "fresh_only env ?e"
      by (rule fresh_only_trans [OF fresh_only_shrink hw_insert_frame(2)]) (use f in simp_all)
    have c: "cpu_breakpoint ?e j = cpu_breakpoint env j" if "j \<in> all_drs - live env" for j
    proof -
      have "j \<noteq> r" using that r4 by blast
      then show ?thesis using hw_insert_frame(1) [of j r "set_dr r v env1"] f(1) by simp
    qed
    have "dr_ok ?e" by (rule dr_ok_step(1) [OF ok i(1) _ fr c]) (use 1 i(2) in simp_all)
    then show ?thesis using that [of ?e] i e(1) 1 by (simp add: helper_movl_drN_T0_def)
  next
    case 2
    have all: "live env = all_drs" using nf 2 by (auto simp: writes_freed_def live_def)
    obtain env1 where e: "hw_remove_from [0, 1, 2, 3] env = Done env1" "dr_inv {} env1" "dr env1 = dr env"
      "user_bps env1 = user_bps env" "user_wps env1 = user_wps env"
      using dr_inv_remove_from [OF inv, of "[0, 1, 2, 3]"] unfolding all by auto
    let ?e = "hw_insert_from [0, 1, 2, 3] (set_dr 7 v env1)"
    have s: "dr_inv {} (set_dr 7 v env1)" by (intro dr_inv_set [OF e(2)]) auto
    have i: "dr_inv all_drs ?e" "dr ?e = (dr env)(7 := v)" "user_bps ?e = user_bps env" "user_wps ?e = user_wps env"
      using dr_inv_insert_from [OF s, of "[0, 1, 2, 3]"] e by (simp_all del: hw_insert_from.simps)
    have "dr_ok ?e" by (rule dr_okI(1) [OF subset_refl i(1)]) simp
    then show ?thesis
      using that [of ?e] i e 2
      by (simp add: helper_movl_drN_T0_def upt_4 del: hw_insert_from.simps hw_remove_from.simps)
  next
    case 3
    have i: "dr_inv (live env) (set_dr r v env)" by (rule dr_inv_set [OF inv]) (use 3 live_sub [of env] in auto)
    have "dr_ok (set_dr r v env)" by (rule dr_ok_step(1) [OF ok i]) (use 3 in \<open>auto simp: fresh_only_def wp_ids_def\<close>)
    then show ?thesis using that [of "set_dr r v env"] 3 by (simp add: helper_movl_drN_T0_def)
  qed
qed

text \<open>A watchpoint with its hit mark taken away.\<close>

definition unhit :: "watchpoint \<Rightarrow> watchpoint" where
  "unhit w = w\<lparr>wp_flags := wp_flags w AND NOT BP_WATCHPOINT_HIT\<rparr>"

text \<open>
  A run of the CPU between resets: guest writes to the debug registers, task switches, a debugger adding and removing
  its own entries, and whatever else happens to the CPU as long as it leaves the lists (but for the hit marks) and
  the debug registers 0 to 3 and 7 alone. (The world switches of SVM and SMM, which load DR7 without installing
  anything, are not part of it.)
\<close>

inductive dr_run :: "cpu_state \<Rightarrow> bool" where
  dr_reset: "breakpoints env = [] \<Longrightarrow> watchpoints env = [] \<Longrightarrow> dr env 7 = 0x400 \<Longrightarrow> dr_run env"
| dr_write: "dr_run env \<Longrightarrow> r < 8 \<Longrightarrow> helper_movl_drN_T0 env r v = Done env' \<Longrightarrow> dr_run env'"
| dr_bp_insert: "dr_run env \<Longrightarrow> \<not> is_cpu f \<Longrightarrow> cpu_breakpoint_insert env pc f = (env', ref) \<Longrightarrow> dr_run env'"
| dr_wp_insert: "dr_run env \<Longrightarrow> \<not> is_cpu f \<Longrightarrow> cpu_watchpoint_insert env a l f = (env', q) \<Longrightarrow> dr_run env'"
| dr_bp_remove: "dr_run env \<Longrightarrow> \<not> is_cpu f \<Longrightarrow> cpu_breakpoint_remove env pc f = Done (env', e) \<Longrightarrow> dr_run env'"
| dr_wp_remove: "dr_run env \<Longrightarrow> \<not> is_cpu f \<Longrightarrow> cpu_watchpoint_remove env a l f = Done (env', e) \<Longrightarrow> dr_run env'"
| dr_bp_clear: "dr_run env \<Longrightarrow> cpu_breakpoint_remove_all env BP_GDB = Done env' \<Longrightarrow> dr_run env'"
| dr_wp_clear: "dr_run env \<Longrightarrow> cpu_watchpoint_remove_all env BP_GDB = Done env' \<Longrightarrow> dr_run env'"
| dr_task: "dr_run env \<Longrightarrow> switch_tss_debug env = Done env' \<Longrightarrow> dr_run env'"
| dr_other: "dr_run env \<Longrightarrow> breakpoints env' = breakpoints env \<Longrightarrow>
    map unhit (watchpoints env') = map unhit (watchpoints env) \<Longrightarrow>
    next_ref env' = next_ref env \<Longrightarrow> cpu_breakpoint env' = cpu_breakpoint env \<Longrightarrow>
    dr env' = (dr env)(6 := v) \<Longrightarrow> dr_run env'"


lemma unhit_simps:
  "wp_id (unhit w) = wp_id w" "wp_desc (unhit w) = wp_desc w"
  "is_cpu (wp_flags (unhit w)) = is_cpu (wp_flags w)" "is_gdb (wp_flags (unhit w)) = is_gdb (wp_flags w)"
  by (simp_all add: unhit_def wp_desc_def is_cpu_def is_gdb_def and.assoc)

lemma gdb_front_unhit: "gdb_front wp_flags (map unhit ws) = gdb_front wp_flags ws"
  by (induction ws) (simp_all add: gdb_front_Cons unhit_simps list.pred_map comp_def)

lemma points_wf_unhit: "points_wf wp_id wp_flags (map unhit ws) n = points_wf wp_id wp_flags ws n"
  by (simp add: points_wf_def gdb_front_unhit list.pred_map comp_def unhit_simps)

lemma owned_unhit: "owned wp_id wp_flags wp_desc (map unhit ws) = owned wp_id wp_flags wp_desc ws"
  by (induction ws) (simp_all add: unhit_simps)

lemma dr_inv_lists:
  assumes "dr_inv S env" "bps.wf env'" "wps.wf env'" "bps.owned_of env' = bps.owned_of env"
    "wps.owned_of env' = wps.owned_of env" "dr env' = dr env" "cpu_breakpoint env' = cpu_breakpoint env"
  shows "dr_inv S env'"
  using assms by (simp add: dr_inv_def)

lemma dr_ok_lists:
  assumes "dr_ok env" "bps.wf env'" "wps.wf env'" "bps.owned_of env' = bps.owned_of env"
    "wps.owned_of env' = wps.owned_of env" "dr env' = dr env" "cpu_breakpoint env' = cpu_breakpoint env" "fresh_only env env'"
  shows "dr_ok env'"
  by (rule dr_ok_step(1) [OF assms(1) dr_inv_lists [OF dr_ok_inv [OF assms(1)] assms(2-7)]]) (use assms in simp_all)

lemma user_remove:
  assumes "distinct (map idf es)" "e \<in> set es" "\<not> is_cpu (fl e)"
  shows "{p \<in> owned idf fl dsc es. fst p \<noteq> idf e} = owned idf fl dsc es"
proof -
  have u: "x = e" if "x \<in> set es" "idf x = idf e" for x
    using assms(1,2) that by (simp add: distinct_map inj_on_def)
  have "fst p \<noteq> idf e" if p: "p \<in> owned idf fl dsc es" for p
  proof
    assume "fst p = idf e"
    with p obtain x where "x \<in> set es" "is_cpu (fl x)" "idf x = idf e" by (auto simp: mem_owned)
    with u [of x] assms(3) show False by simp
  qed
  then show ?thesis by blast
qed

lemma owned_no_gdb:
  assumes "dr_inv S env"
  shows "b \<in> set (breakpoints env) \<Longrightarrow> is_cpu (bp_flags b) \<Longrightarrow> bp_flags b = BP_CPU"
    "w \<in> set (watchpoints env) \<Longrightarrow> is_cpu (wp_flags w) \<Longrightarrow> \<not> is_gdb (wp_flags w)"
proof -
  assume b: "b \<in> set (breakpoints env)" "is_cpu (bp_flags b)"
  then have "(bp_id b, bp_desc b) \<in> bps.owned_of env" by (auto simp: mem_owned)
  then show "bp_flags b = BP_CPU" using assms by (auto simp: dr_inv_def linked_def bp_desc_def bp_wants_def)
next
  assume w: "w \<in> set (watchpoints env)" "is_cpu (wp_flags w)"
  then have "(wp_id w, wp_desc w) \<in> wps.owned_of env" by (auto simp: mem_owned)
  then obtain i where "wp_flags (unhit w) = wp_type (dr env 7) i"
    using assms by (auto simp: dr_inv_def linked_def wp_desc_def wp_wants_def unhit_def)
  then show "\<not> is_gdb (wp_flags w)" using cpu_bits(4) unhit_simps(4) by metis
qed

lemma owned_clear:
  assumes "\<And>e. e \<in> set es \<Longrightarrow> is_cpu (fl e) \<Longrightarrow> \<not> is_gdb (fl e)"
  shows "owned idf fl dsc (filter (\<lambda>e. fl e AND BP_GDB = 0) es) = owned idf fl dsc es"
proof -
  have "{e \<in> set (filter (\<lambda>e. fl e AND BP_GDB = 0) es). is_cpu (fl e)} = {e \<in> set es. is_cpu (fl e)}"
    using assms by (auto simp: is_gdb_def)
  then show ?thesis by (simp only: owned_def)
qed

lemma bp_loop_frame:
  "breakpoint_remove_loop bs msk env = Done env' \<Longrightarrow> watchpoints env' = watchpoints env \<and>
    next_ref env' = next_ref env \<and> dr env' = dr env \<and> cpu_breakpoint env' = cpu_breakpoint env"
proof (induction bs msk env rule: breakpoint_remove_loop.induct)
  case (2 b bs msk env)
  then show ?case
    using bp_ref_frame [of env "bp_id b"]
    by (cases "cpu_breakpoint_remove_by_ref env (bp_id b)") (auto simp: bind_out_def split: if_splits)
qed simp

lemma wp_loop_frame:
  "watchpoint_remove_loop ws msk env = Done env' \<Longrightarrow> breakpoints env' = breakpoints env \<and>
    next_ref env' = next_ref env \<and> dr env' = dr env \<and> cpu_breakpoint env' = cpu_breakpoint env"
proof (induction ws msk env rule: watchpoint_remove_loop.induct)
  case (2 w ws msk env)
  then show ?case
    using wp_ref_frame [of env "wp_id w"]
    by (cases "cpu_watchpoint_remove_by_ref env (wp_id w)") (auto simp: bind_out_def split: if_splits)
qed simp

lemma reset_dr7: "list_all (\<lambda>i. hw_breakpoint_type 0x400 i = 0 \<and> \<not> hw_breakpoint_enabled 0x400 i) [0, 1, 2, 3]"
  by (simp add: hw_breakpoint_type_def hw_breakpoint_enabled_def hw_global_breakpoint_enabled_def
      hw_local_breakpoint_enabled_def drop_bit_eq_div)

lemma dr_inv_nothing:
  assumes "breakpoints env = []" "watchpoints env = []"
    "\<forall>i \<in> S. \<not> owns_bp (dr env 7) i \<and> \<not> data_type (dr env 7) i"
  shows "dr_inv S env"
proof -
  have e: "{i \<in> S. owns_bp (dr env 7) i} = {}" "{i \<in> S. owns_wp (dr env) i} = {}"
    using assms(3) unfolding owns_wp_def by blast+
  show ?thesis using assms(3) by (simp add: dr_inv_def e linked_empty points_wf_def assms(1,2))
qed

lemma inv_dr_reset:
  assumes "breakpoints env = []" "watchpoints env = []" "dr env 7 = 0x400"
  shows "dr_ok env"
proof -
  have n: "\<not> owns_bp 0x400 i \<and> \<not> data_type 0x400 i" if "i \<in> all_drs" for i
    using that reset_dr7 unfolding owns_bp_def data_type_def by (simp only: list.pred_inject insert_iff empty_iff) auto
  then have "dr_inv all_drs env" using dr_inv_nothing [OF assms(1,2), of all_drs] assms(3) by simp
  then show ?thesis by (rule dr_okI(1) [OF subset_refl]) simp
qed

lemma inv_dr_write:
  assumes "dr_ok env" "r < 8" "helper_movl_drN_T0 env r v = Done env'"
  shows "dr_ok env'"
proof -
  have "\<not> writes_freed env r" using movl_freed [OF assms(1), of r v] assms(3) by auto
  from movl_drN [OF assms(1,2) this, of v] show ?thesis using assms(3) by auto
qed

lemma inv_dr_bp_insert:
  assumes "dr_ok env" "\<not> is_cpu f" "cpu_breakpoint_insert env pc f = (env', ref)"
  shows "dr_ok env'"
proof -
  note wf = dr_inv_wf [OF dr_ok_inv [OF assms(1)]]
  have f: "dr env' = dr env" "cpu_breakpoint env' = cpu_breakpoint env" "watchpoints env' = watchpoints env"
    "next_ref env' = Suc (next_ref env)"
    using assms(3) by (auto simp: cpu_breakpoint_insert_def Let_def)
  have "bps.wf env'" using bps.wf_insert [of env pc f env' "Inr ref"] wf assms(3) by simp
  moreover have "bps.owned_of env' = bps.owned_of env"
    using bps.owned_insert [of env pc f env' "Inr ref"] assms(2,3) by simp
  moreover have "wps.wf env'" using wf(2) f by (auto intro: points_wf_mono)
  ultimately show ?thesis using dr_ok_lists [OF assms(1)] f by (simp add: fresh_only_def wp_ids_def)
qed

lemma inv_dr_wp_insert:
  assumes "dr_ok env" "\<not> is_cpu f" "cpu_watchpoint_insert env a l f = (env', q)"
  shows "dr_ok env'"
proof -
  note wf = dr_inv_wf [OF dr_ok_inv [OF assms(1)]]
  have f: "dr env' = dr env" "cpu_breakpoint env' = cpu_breakpoint env" "breakpoints env' = breakpoints env"
    "next_ref env \<le> next_ref env'" "fresh_only env env'"
    using assms(3) by (auto simp: cpu_watchpoint_insert_def fresh_only_def wp_ids_def Let_def split: if_splits)
  have "wps.wf env'" using wps.wf_insert [of env "(a, l)" f env' q] wf assms(3) by simp
  moreover have "wps.owned_of env' = wps.owned_of env"
  proof (cases "watchpoint_ok a l")
    case True
    then show ?thesis using wps.owned_insert [of "(a, l)" env f env' q] assms(2,3) by simp
  next
    case False
    then show ?thesis using assms(3) by (auto simp: cpu_watchpoint_insert_def Let_def)
  qed
  moreover have "bps.wf env'" using wf(1) f by (auto intro: points_wf_mono)
  ultimately show ?thesis using dr_ok_lists [OF assms(1)] f by simp
qed

lemma inv_dr_bp_remove:
  assumes "dr_ok env" "\<not> is_cpu f" "cpu_breakpoint_remove env pc f = Done (env', e)"
  shows "dr_ok env'"
proof -
  show ?thesis
  proof (cases "find (\<lambda>bp. bp_pc bp = pc \<and> bp_flags bp = f) (breakpoints env)")
    case None
    then show ?thesis using assms by (simp add: cpu_breakpoint_remove_def)
  next
    case (Some b)
    then have b: "b \<in> set (breakpoints env)" "\<not> is_cpu (bp_flags b)"
      using assms(2) by (auto simp: find_Some_iff)
    have r: "cpu_breakpoint_remove_by_ref env (bp_id b) = Done env'"
      using assms(3) Some by (auto simp: cpu_breakpoint_remove_def bind_out_def split: outcome.splits)
    have "bps.owned_of env' = bps.owned_of env"
      using bps.owned_remove [OF r] user_remove [of bp_id "breakpoints env" b bp_flags bp_desc] b dr_inv_wf(1) [OF dr_ok_inv [OF assms(1)]] by (simp add: points_wf_def)
    then show ?thesis
      using dr_ok_lists [OF assms(1)] bps.wf_remove [OF _ r] bp_ref_frame [OF r] dr_inv_wf [OF dr_ok_inv [OF assms(1)]]
      by (simp add: fresh_only_def wp_ids_def)
  qed
qed

lemma inv_dr_wp_remove:
  assumes "dr_ok env" "\<not> is_cpu f" "cpu_watchpoint_remove env a l f = Done (env', e)"
  shows "dr_ok env'"
proof -
  show ?thesis
  proof (cases "find (\<lambda>wp. a = wp_vaddr wp \<and> NOT (l - 1) = wp_len_mask wp
      \<and> f = wp_flags wp AND NOT BP_WATCHPOINT_HIT) (watchpoints env)")
    case None
    then show ?thesis using assms by (simp add: cpu_watchpoint_remove_def Let_def)
  next
    case (Some w)
    then have "w \<in> set (watchpoints env)" "f = wp_flags (unhit w)"
      by (auto simp: find_Some_iff unhit_def)
    then have w: "w \<in> set (watchpoints env)" "\<not> is_cpu (wp_flags w)"
      using assms(2) unhit_simps(3) by auto
    have r: "cpu_watchpoint_remove_by_ref env (wp_id w) = Done env'"
      using assms(3) Some by (auto simp: cpu_watchpoint_remove_def bind_out_def Let_def split: outcome.splits)
    have "fresh_only env env'"
      using wps.remove_cases(1) [OF r] wp_ref_frame(2) [OF r] by (auto simp: fresh_only_def wp_ids_def)
    moreover have "wps.owned_of env' = wps.owned_of env"
      using wps.owned_remove [OF r] user_remove [of wp_id "watchpoints env" w wp_flags wp_desc] w dr_inv_wf(2) [OF dr_ok_inv [OF assms(1)]] by (simp add: points_wf_def)
    ultimately show ?thesis
      using dr_ok_lists [OF assms(1)] wps.wf_remove [OF _ r] wp_ref_frame [OF r] dr_inv_wf [OF dr_ok_inv [OF assms(1)]] by simp
  qed
qed

lemma inv_dr_bp_clear:
  assumes "dr_ok env" "cpu_breakpoint_remove_all env BP_GDB = Done env'"
  shows "dr_ok env'"
proof -
  note wf = dr_inv_wf [OF dr_ok_inv [OF assms(1)]]
  have f: "watchpoints env' = watchpoints env" "next_ref env' = next_ref env" "dr env' = dr env"
    "cpu_breakpoint env' = cpu_breakpoint env"
    using bp_loop_frame assms(2) unfolding cpu_breakpoint_remove_all_def by auto
  have b: "breakpoints env' = filter (\<lambda>b. bp_flags b AND BP_GDB = 0) (breakpoints env)" "bps.wf env'"
    by (rule bps.remove_all_spec [OF wf(1), of BP_GDB]; simp add: assms(2))+
  have "\<not> is_gdb (bp_flags b)" if "b \<in> set (breakpoints env)" "is_cpu (bp_flags b)" for b
    using owned_no_gdb(1) [OF dr_ok_inv [OF assms(1)] that] by (simp add: is_gdb_def)
  then have "bps.owned_of env' = bps.owned_of env" unfolding b(1) by (rule owned_clear)
  then show ?thesis using dr_ok_lists [OF assms(1)] b(2) f wf by (simp add: fresh_only_def wp_ids_def)
qed

lemma inv_dr_wp_clear:
  assumes "dr_ok env" "cpu_watchpoint_remove_all env BP_GDB = Done env'"
  shows "dr_ok env'"
proof -
  note wf = dr_inv_wf [OF dr_ok_inv [OF assms(1)]]
  have f: "breakpoints env' = breakpoints env" "next_ref env' = next_ref env" "dr env' = dr env"
    "cpu_breakpoint env' = cpu_breakpoint env"
    using wp_loop_frame assms(2) unfolding cpu_watchpoint_remove_all_def by auto
  have w: "watchpoints env' = filter (\<lambda>w. wp_flags w AND BP_GDB = 0) (watchpoints env)" "wps.wf env'"
    by (rule wps.remove_all_spec [OF wf(2), of BP_GDB]; simp add: assms(2))+
  have "wps.owned_of env' = wps.owned_of env"
    unfolding w(1) by (rule owned_clear) (rule owned_no_gdb(2) [OF dr_ok_inv [OF assms(1)]])
  moreover have "fresh_only env env'" using w(1) f(2) by (auto simp: fresh_only_def wp_ids_def)
  ultimately show ?thesis using dr_ok_lists [OF assms(1)] w(2) f wf by simp
qed

lemma inv_dr_other:
  assumes "dr_ok env" "breakpoints env' = breakpoints env" "map unhit (watchpoints env') = map unhit (watchpoints env)"
    "next_ref env' = next_ref env" "cpu_breakpoint env' = cpu_breakpoint env" "dr env' = (dr env)(6 := v)"
  shows "dr_ok env'"
proof -
  note inv = dr_ok_inv [OF assms(1)]
  have "map wp_id (map unhit ws) = map wp_id ws" for ws by (simp add: unhit_simps)
  then have "map wp_id (watchpoints env') = map wp_id (watchpoints env)" using assms(3) by metis
  then have "wp_ids env' = wp_ids env" unfolding wp_ids_def by (metis set_map)
  then have fr: "fresh_only env env'" using assms(4) by (simp add: fresh_only_def)
  have "wps.owned_of env' = wps.owned_of env" "wps.wf env' = points_wf wp_id wp_flags (watchpoints env) (next_ref env')"
    using owned_unhit points_wf_unhit assms(3) by metis+
  then have "dr_inv (live env) (env'\<lparr>dr := dr env\<rparr>)"
    using dr_inv_wf [OF inv] assms by (intro dr_inv_lists [OF inv]) auto
  moreover have "6 \<notin> live env" using live_sub [of env] by auto
  ultimately have "dr_inv (live env) (set_dr 6 v (env'\<lparr>dr := dr env\<rparr>))" by (rule dr_inv_set) simp
  also have "set_dr 6 v (env'\<lparr>dr := dr env\<rparr>) = env'" using assms(6) by (simp add: set_dr_def)
  finally show ?thesis by (rule dr_ok_step(1) [OF assms(1)]) (use assms fr in simp_all)
qed

subsection \<open>Task switches\<close>

text \<open>Enabled for this task only.\<close>

definition local_only :: "u64 \<Rightarrow> nat \<Rightarrow> bool" where
  "local_only dr7 i \<longleftrightarrow> hw_local_breakpoint_enabled dr7 i \<and> \<not> hw_global_breakpoint_enabled dr7 i"

lemma and_bit: "x AND 1 \<noteq> 0 \<longleftrightarrow> bit x 0" "x AND 2 \<noteq> 0 \<longleftrightarrow> bit x 1" for x :: u64
  using and_exp_eq_0_iff_not_bit [of x 0] and_exp_eq_0_iff_not_bit [of x 1] by simp_all

lemma enabled_bits:
  "hw_local_breakpoint_enabled d i \<longleftrightarrow> bit d (2 * i)" "hw_global_breakpoint_enabled d i \<longleftrightarrow> bit d (2 * i + 1)"
  unfolding hw_local_breakpoint_enabled_def hw_global_breakpoint_enabled_def and_bit
  by (simp_all add: bit_drop_bit_eq mult.commute)

lemma drop_above: "drop_bit 7 m = 0 \<Longrightarrow> 7 \<le> k \<Longrightarrow> drop_bit k (d AND NOT m) = drop_bit k d" for d m :: u64
proof -
  assume m: "drop_bit 7 m = 0" and k: "7 \<le> k"
  have n: "\<not> bit m (k + n)" for n
  proof -
    have "bit m (k + n) = bit (drop_bit 7 m) (k + n - 7)" using k by (simp add: bit_drop_bit_eq)
    then show ?thesis using m by simp
  qed
  show ?thesis by (rule bit_word_eqI) (auto simp: bit_drop_bit_eq bit_and_iff bit_not_iff n dest: bit_imp_le_length)
qed

lemma drop_local:
  assumes "i \<in> all_drs"
  shows "hw_breakpoint_type (d AND NOT DR7_LOCAL_BP_MASK) i = hw_breakpoint_type d i"
    "hw_breakpoint_len (d AND NOT DR7_LOCAL_BP_MASK) i = hw_breakpoint_len d i"
    "hw_breakpoint_enabled (d AND NOT DR7_LOCAL_BP_MASK) i = hw_global_breakpoint_enabled d i"
proof -
  show "hw_breakpoint_type (d AND NOT DR7_LOCAL_BP_MASK) i = hw_breakpoint_type d i"
    unfolding hw_breakpoint_type_def by (subst drop_above) simp_all
  show "hw_breakpoint_len (d AND NOT DR7_LOCAL_BP_MASK) i = hw_breakpoint_len d i"
    unfolding hw_breakpoint_len_def by (subst drop_above) simp_all
  show "hw_breakpoint_enabled (d AND NOT DR7_LOCAL_BP_MASK) i = hw_global_breakpoint_enabled d i"
    using assms unfolding hw_breakpoint_enabled_def enabled_bits
    by (auto simp: bit_and_iff bit_not_iff bit_numeral_word_iff)
qed

lemma and_not_none: "x AND m = 0 \<Longrightarrow> x AND NOT m = x" for x m :: u64
proof -
  assume "x AND m = 0"
  then have "x AND NOT m = (x AND m) OR (x AND NOT m)" by simp
  also have "\<dots> = x" by (simp flip: bit.conj_disj_distrib)
  finally show ?thesis .
qed

lemma task_inv:
  assumes inv: "dr_inv S env" and S: "S \<subseteq> all_drs" and L: "L \<subseteq> S" "\<And>i. i \<in> S \<Longrightarrow> i \<in> L \<longleftrightarrow> local_only (dr env 7) i"
    and e: "dr_inv (S - L) env1" "dr env1 = dr env" "cpu_breakpoint env1 = cpu_breakpoint env"
  shows "dr_inv (S - {i \<in> L. owns_wp (dr env) i}) (set_dr 7 (dr env 7 AND NOT DR7_LOCAL_BP_MASK) env1)"
proof -
  let ?v = "dr env 7 AND NOT DR7_LOCAL_BP_MASK"
  let ?d = "(dr env)(7 := ?v)" and ?S = "S - {i \<in> L. owns_wp (dr env) i}"
  have t: "data_type ?v i = data_type (dr env 7) i" "owns_wp ?d i = owns_wp (dr env) i"
    "wp_wants ?d i = wp_wants (dr env) i" "bp_wants ?d i = bp_wants (dr env) i"
    "owns_bp ?v i \<longleftrightarrow> owns_bp (dr env 7) i \<and> i \<notin> L" if i: "i \<in> S" for i
  proof -
    have a: "i \<in> all_drs" using i S by blast
    then have "i \<noteq> 7" by auto
    then show "data_type ?v i = data_type (dr env 7) i" "owns_wp ?d i = owns_wp (dr env) i"
      "wp_wants ?d i = wp_wants (dr env) i" "bp_wants ?d i = bp_wants (dr env) i"
      using drop_local [OF a] by (simp_all add: data_type_def owns_wp_def wp_wants_def bp_wants_def wp_type_def)
    show "owns_bp ?v i \<longleftrightarrow> owns_bp (dr env 7) i \<and> i \<notin> L"
      using drop_local [OF a] L(2) [OF i] by (auto simp: owns_bp_def local_only_def hw_breakpoint_enabled_def)
  qed
  have B: "{i \<in> ?S. owns_bp ?v i} = {i \<in> S - L. owns_bp (dr env 7) i}" using t by auto
  have W: "{i \<in> ?S. owns_wp ?d i} = {i \<in> S - L. owns_wp (dr env) i}" using t by auto
  have "linked P {i \<in> S - L. owns_bp (dr env 7) i} refs (bp_wants ?d) =
      linked P {i \<in> S - L. owns_bp (dr env 7) i} refs (bp_wants (dr env))" for P refs
    by (intro linked_cong) (use t in auto)
  moreover have "linked P {i \<in> S - L. owns_wp (dr env) i} refs (wp_wants ?d) =
      linked P {i \<in> S - L. owns_wp (dr env) i} refs (wp_wants (dr env))" for P refs
    by (intro linked_cong) (use t in auto)
  moreover have "cpu_breakpoint env1 i = None" if "i \<in> ?S" "data_type ?v i" "\<not> owns_wp ?d i" for i
    using inv that t e(3) by (auto simp: dr_inv_def)
  ultimately show ?thesis using e(1) unfolding dr_inv_def by (simp add: B [simplified] W [simplified] e(2) B W)
qed

lemma inv_dr_task:
  assumes ok: "dr_ok env"
  obtains env' where "switch_tss_debug env = Done env'" "dr_ok env'"
    "dr env' = (dr env)(7 := dr env 7 AND NOT DR7_LOCAL_BP_MASK)"
    "live env' = live env - {i \<in> all_drs. owns_wp (dr env) i \<and> local_only (dr env 7) i}"
    "user_bps env' = user_bps env" "user_wps env' = user_wps env"
proof (cases "dr env 7 AND DR7_LOCAL_BP_MASK = 0")
  case True
  have "\<not> local_only (dr env 7) i" if "i \<in> all_drs" for i
    using drop_local(3) [OF that, of "dr env 7"] and_not_none [OF True]
    by (auto simp: local_only_def hw_breakpoint_enabled_def)
  then show ?thesis
    using that [of env] ok and_not_none [OF True] True by (auto simp: switch_tss_debug_def)
next
  case False
  note inv = dr_ok_inv [OF ok]
  let ?is = "filter (local_only (dr env 7)) [0, 1, 2, 3]" and ?v = "dr env 7 AND NOT DR7_LOCAL_BP_MASK"
  let ?L = "set ?is"
  have L: "?L \<subseteq> live env"
  proof
    fix i assume "i \<in> ?L"
    then have "i \<in> all_drs" "local_only (dr env 7) i" unfolding set_filter by auto
    then show "i \<in> live env" using ok by (auto simp: dr_ok_def local_only_def hw_breakpoint_enabled_def)
  qed
  have d: "distinct ?is" by (rule distinct_filter) simp
  obtain env1 where e: "hw_remove_from ?is env = Done env1" "dr_inv (live env - ?L) env1" "dr env1 = dr env"
    "user_bps env1 = user_bps env" "user_wps env1 = user_wps env"
    using dr_inv_remove_from [OF inv d L] by blast
  note f = hw_remove_from_frame [OF e(1)]
  let ?e = "set_dr 7 ?v env1" and ?S = "live env - {i \<in> ?L. owns_wp (dr env) i}"
  have i: "dr_inv ?S ?e"
    by (rule task_inv [OF inv live_sub L _ e(2,3)]) (use f live_sub [of env] in auto)
  have gone: "freed_wp ?e i \<and> \<not> hw_breakpoint_enabled (dr ?e 7) i \<and> the (cpu_breakpoint ?e i) < next_ref ?e"
    if i: "i \<in> all_drs - ?S" for i
  proof -
    have "i \<in> all_drs" using i by blast
    note D = drop_local [OF this, of "dr env 7"]
    have d7: "dr ?e 7 = ?v" "cpu_breakpoint ?e = cpu_breakpoint env" "next_ref ?e = next_ref env" using f by simp_all
    show ?thesis
    proof (cases "i \<in> live env")
      case True
      then have o: "owns_wp (dr env) i" "i \<in> ?L" using i by blast+
      have lo: "local_only (dr env 7) i" using o(2) unfolding set_filter by blast
      have d: "data_type (dr env 7) i" using o(1) by (rule types_disjoint(2))
      have "(the (cpu_breakpoint env i), wp_wants (dr env) i) \<in> wps.owned_of env" "cpu_breakpoint env i \<noteq> None"
        using inv True o(1) by (auto simp: dr_inv_def linked_def)
      then obtain r where r: "cpu_breakpoint env i = Some r" "r < next_ref env"
        using dr_inv_wf(2) [OF inv] by (auto simp: mem_owned points_wf_def list_all_iff)
      have "r \<notin> wp_ids ?e" using f o(2) d r(1) unfolding wp_ids_simps by blast
      then have "freed_wp ?e i" unfolding freed_wp_def d7 using r(1) d by (simp add: wp_ids_def data_type_def D(1) [simplified])
      moreover have "\<not> hw_breakpoint_enabled ?v i" unfolding D(3) using lo by (simp add: local_only_def)
      ultimately show ?thesis unfolding d7 using r by simp
    next
      case False
      then have b: "freed_wp env i" "\<not> hw_breakpoint_enabled (dr env 7) i" "the (cpu_breakpoint env i) < next_ref env"
        using i ok unfolding dr_ok_def live_def by blast+
      have "fresh_only env ?e" using f by (intro fresh_only_shrink) auto
      from freed_step [OF b(1,3) this] have "freed_wp ?e i" unfolding d7 D(1) by blast
      moreover have "\<not> hw_breakpoint_enabled ?v i" unfolding D(3) using b(2) by (simp add: hw_breakpoint_enabled_def)
      ultimately show ?thesis unfolding d7 using b(3) by blast
    qed
  qed
  have k: "dr_ok ?e" "live ?e = ?S"
    by (rule dr_okI [OF _ i gone]; use live_sub [of env] in blast)+
  have "switch_tss_debug env = Done ?e"
    using False e(1) f by (simp add: switch_tss_debug_def upt_4 local_only_def [abs_def] cong: filter_cong del: hw_remove_from.simps)
  moreover have "?S = live env - {i \<in> all_drs. owns_wp (dr env) i \<and> local_only (dr env 7) i}" by auto
  ultimately show ?thesis using that [of ?e] k e f by simp
qed

lemma dr_run_ok: "dr_run env \<Longrightarrow> dr_ok env"
proof (induction rule: dr_run.induct)
  case (dr_reset env)
  then show ?case by (rule inv_dr_reset)
next
  case (dr_write env r v env')
  then show ?case using inv_dr_write by blast
next
  case (dr_bp_insert env f pc env' ref)
  then show ?case using inv_dr_bp_insert by blast
next
  case (dr_wp_insert env f a l env' q)
  then show ?case using inv_dr_wp_insert by blast
next
  case (dr_bp_remove env f pc env' e)
  then show ?case using inv_dr_bp_remove by blast
next
  case (dr_wp_remove env f a l env' e)
  then show ?case using inv_dr_wp_remove by blast
next
  case (dr_bp_clear env env')
  then show ?case using inv_dr_bp_clear by blast
next
  case (dr_wp_clear env env')
  then show ?case using inv_dr_wp_clear by blast
next
  case (dr_task env env')
  then show ?case using inv_dr_task [of env] by (metis outcome.inject(1))
next
  case (dr_other env env' v)
  then show ?case using inv_dr_other by blast
qed

text \<open>What the debug registers ask for; one that refers to a freed watchpoint has nothing installed.\<close>

definition wanted_bps :: "cpu_state \<Rightarrow> target_ulong set" where
  "wanted_bps env = dr env ` {i \<in> all_drs. owns_bp (dr env 7) i}"

definition wanted_wps :: "cpu_state \<Rightarrow> (target_ulong \<times> target_ulong \<times> u32) set" where
  "wanted_wps env = wp_wants (dr env) ` {i \<in> all_drs. owns_wp (dr env) i \<and> \<not> freed_wp env i}"

definition cpu_bps :: "cpu_state \<Rightarrow> target_ulong set" where
  "cpu_bps env = bp_pc ` {b \<in> set (breakpoints env). is_cpu (bp_flags b)}"

definition cpu_wps :: "cpu_state \<Rightarrow> (target_ulong \<times> target_ulong \<times> u32) set" where
  "cpu_wps env = wp_desc ` {w \<in> set (watchpoints env). is_cpu (wp_flags w)}"

lemma linked_descs: "linked P S refs d \<Longrightarrow> snd ` P = d ` S"
  by (auto simp: linked_def image_image)

lemma cpu_points:
  assumes "dr_ok env"
  shows "cpu_bps env = wanted_bps env" "cpu_wps env = wanted_wps env"
proof -
  have B: "{i \<in> all_drs. owns_bp (dr env 7) i} = {i \<in> live env. owns_bp (dr env 7) i}"
    using types_disjoint(1) [of "dr env"] by (auto simp: live_def freed_wp_def)
  have W: "{i \<in> all_drs. owns_wp (dr env) i \<and> \<not> freed_wp env i} = {i \<in> live env. owns_wp (dr env) i}"
    by (auto simp: live_def)
  have l: "linked (bps.owned_of env) {i \<in> live env. owns_bp (dr env 7) i} (cpu_breakpoint env) (bp_wants (dr env))"
    "linked (wps.owned_of env) {i \<in> live env. owns_wp (dr env) i} (cpu_breakpoint env) (wp_wants (dr env))"
    using dr_ok_inv [OF assms] unfolding dr_inv_def by blast+
  have "fst ` snd ` bps.owned_of env = fst ` bp_wants (dr env) ` {i \<in> live env. owns_bp (dr env 7) i}"
    using linked_descs [OF l(1)] by simp
  then show "cpu_bps env = wanted_bps env"
    unfolding owned_def cpu_bps_def wanted_bps_def image_image fst_conv snd_conv bp_desc_def bp_wants_def B .
  have "snd ` wps.owned_of env = cpu_wps env" unfolding owned_def cpu_wps_def image_image snd_conv ..
  then show "cpu_wps env = wanted_wps env" using linked_descs [OF l(2)] unfolding wanted_wps_def W by simp
qed


text \<open>C30. Where the freed watchpoints come from. After every such history a task switch completes: it clears the local
  enable bits of DR7 and drops what was enabled for the old task only, so that the entries the CPU owns are again
  those that DR7 asks for; the debugger's entries stay. But a register of data type that loses its watchpoint still
  refers to it, and no other register comes to refer to a freed one.\<close>

theorem task_switch_debug:
  assumes "dr_run env"
  shows "\<exists>env'. switch_tss_debug env = Done env' \<and> dr env' = (dr env)(7 := dr env 7 AND NOT DR7_LOCAL_BP_MASK)
    \<and> cpu_bps env' = wanted_bps env' \<and> cpu_wps env' = wanted_wps env'
    \<and> user_bps env' = user_bps env \<and> user_wps env' = user_wps env
    \<and> {i \<in> all_drs. freed_wp env' i}
      = {i \<in> all_drs. freed_wp env i \<or> owns_wp (dr env) i \<and> local_only (dr env 7) i}"
proof -
  obtain env' where e: "switch_tss_debug env = Done env'" "dr_ok env'"
    "dr env' = (dr env)(7 := dr env 7 AND NOT DR7_LOCAL_BP_MASK)"
    "live env' = live env - {i \<in> all_drs. owns_wp (dr env) i \<and> local_only (dr env 7) i}"
    "user_bps env' = user_bps env" "user_wps env' = user_wps env"
    by (rule inv_dr_task [OF dr_run_ok [OF assms]])
  have "{i \<in> all_drs. freed_wp env' i} = all_drs - live env'" unfolding live_def by blast
  also have "\<dots> = {i \<in> all_drs. freed_wp env i \<or> owns_wp (dr env) i \<and> local_only (dr env 7) i}"
    unfolding e(4) unfolding live_def by blast
  finally show ?thesis using e cpu_points [OF e(2)] by blast
qed

text \<open>A reset CPU, a debugger breakpoint, and the guest enabling a breakpoint at 0x1000.\<close>

definition reset_demo :: cpu_state where
  "reset_demo = zero_env\<lparr>dr := (\<lambda>_. 0)(7 := 0x400)\<rparr>"

lemma reset_demo_run: "dr_run reset_demo"
  by (rule dr_reset) (simp_all add: reset_demo_def zero_env_def)


text \<open>A data watchpoint enabled for the task, the task switch, and the write to DR7 that removes it again.\<close>

lemma dr7_data: "data_type 0x10001 0" "hw_breakpoint_len 0x10001 0 = 1" "local_only 0x10001 0"
  by (simp_all add: data_type_def hw_breakpoint_type_def local_only_def hw_global_breakpoint_enabled_def
      hw_local_breakpoint_enabled_def hw_breakpoint_len_def drop_bit_eq_div)

lemma task_switch_debug_witness:
  "\<exists>env env'. helper_movl_drN_T0 reset_demo 7 0x10001 = Done env \<and> switch_tss_debug env = Done env' \<and>
    freed_wp env' 0 \<and> helper_movl_drN_T0 env' 7 0 = Abort"
proof -
  have nf: "\<not> writes_freed reset_demo 7" by (simp add: writes_freed_def freed_wp_def reset_demo_def zero_env_def)
  obtain env where m: "helper_movl_drN_T0 reset_demo 7 0x10001 = Done env" "dr env = (dr reset_demo)(7 := 0x10001)"
    by (rule movl_drN [OF dr_run_ok [OF reset_demo_run] _ nf, of "0x10001"]) simp_all
  have run: "dr_run env" by (rule dr_write [OF reset_demo_run _ m(1)]) simp
  obtain env' where t: "switch_tss_debug env = Done env'"
    "{i \<in> all_drs. freed_wp env' i} = {i \<in> all_drs. freed_wp env i \<or> owns_wp (dr env) i \<and> local_only (dr env 7) i}"
    using task_switch_debug [OF run] by blast
  have "owns_wp (dr env) 0" using dr7_data by (simp add: owns_wp_def m(2) watchpoint_ok_def reset_demo_def)
  then have "0 \<in> {i \<in> all_drs. freed_wp env' i}" unfolding t(2) using dr7_data(3) by (simp add: m(2))
  then have f: "freed_wp env' 0" by blast
  then have "writes_freed env' 7" by (simp add: writes_freed_def)
  with movl_freed [OF dr_run_ok [OF dr_task [OF run t(1)]]] m(1) t(1) f show ?thesis by blast
qed

text \<open>C22. Removing all the debugger's entries, which walks the list while it frees entries, never touches a freed
  entry, removes exactly the entries with the debugger's flag, and keeps the rest in order; among the rest are all
  the entries the debug registers own.\<close>

theorem clear_debugger_points:
  assumes "dr_run env"
  shows "\<exists>env'. cpu_breakpoint_remove_all env BP_GDB = Done env'
    \<and> breakpoints env' = filter (\<lambda>b. bp_flags b AND BP_GDB = 0) (breakpoints env) \<and> cpu_bps env' = wanted_bps env'
    \<and> (\<exists>env''. cpu_watchpoint_remove_all env' BP_GDB = Done env''
      \<and> watchpoints env'' = filter (\<lambda>w. wp_flags w AND BP_GDB = 0) (watchpoints env)
      \<and> cpu_wps env'' = wanted_wps env'')"
proof -
  obtain env' where e: "cpu_breakpoint_remove_all env BP_GDB = Done env'"
      "breakpoints env' = filter (\<lambda>b. bp_flags b AND BP_GDB = 0) (breakpoints env)"
    by (rule bps.remove_all_spec [OF dr_inv_wf(1) [OF dr_ok_inv [OF dr_run_ok [OF assms]]]])
  note inv = inv_dr_bp_clear [OF dr_run_ok [OF assms] e(1)]
  obtain env'' where f: "cpu_watchpoint_remove_all env' BP_GDB = Done env''"
      "watchpoints env'' = filter (\<lambda>w. wp_flags w AND BP_GDB = 0) (watchpoints env')"
    by (rule wps.remove_all_spec [OF dr_inv_wf(2) [OF dr_ok_inv [OF inv]]])
  have "watchpoints env' = watchpoints env"
    using bp_loop_frame e(1) unfolding cpu_breakpoint_remove_all_def by blast
  then show ?thesis using e f cpu_points(1) [OF inv] cpu_points(2) [OF inv_dr_wp_clear [OF inv f(1)]] by auto
qed

lemma clear_debugger_points_witness:
  "\<exists>env'. cpu_breakpoint_remove_all (fst (cpu_breakpoint_insert reset_demo 0x1000 BP_GDB)) BP_GDB = Done env'
    \<and> breakpoints env' = []"
proof -
  let ?e = "fst (cpu_breakpoint_insert reset_demo 0x1000 BP_GDB)"
  have "dr_run ?e" using dr_bp_insert [OF reset_demo_run, of BP_GDB "0x1000"] by (simp add: is_cpu_def prod_eq_iff)
  moreover have "breakpoints ?e = [bp_of 0 0x1000 BP_GDB]"
    by (simp add: cpu_breakpoint_insert_def reset_demo_def zero_env_def bp_of_def Let_def)
  ultimately show ?thesis using clear_debugger_points [of ?e] by (auto simp: bp_of_def)
qed

subsection \<open>Copying a CPU\<close>

text \<open>\<open>cpu_copy\<close> empties the lists of the CPU it copies before it walks them.\<close>

lemma cpu_copy_loses_points:
  "cpu_copy env = (env\<lparr>breakpoints := [], watchpoints := []\<rparr>, env)"
  by (simp add: cpu_copy_def Let_def)

end
