(* ===== verification/ControlRegs.thy ===== *)
theory ControlRegs
  imports DebugRegs
begin

text \<open>
  The control registers (\<open>cpu_x86_update_cr0/3/4\<close> and \<open>x86_cpu_set_a20\<close> of \<open>target-i386/helper.c\<close>) and the
  instructions of \<open>misc_helper.c\<close> on them, on the time stamp counter, and those that stop the CPU. The time stamp
  (\<open>cpu_get_tsc\<close>) comes from outside the repository and is the argument \<open>tsc\<close>. A call through
  \<open>assert(0)\<close> is the outcome \<open>Abort\<close>.
\<close>

abbreviation (input) CPU_INTERRUPT_EXITTB :: u32 where "CPU_INTERRUPT_EXITTB \<equiv> 0x0004"
abbreviation (input) CPUID_SSE :: u32 where "CPUID_SSE \<equiv> 0x2000000"
abbreviation (input) CPUID_7_0_EBX_SMAP :: u32 where "CPUID_7_0_EBX_SMAP \<equiv> 0x100000"
abbreviation (input) DR6_BS :: u64 where "DR6_BS \<equiv> 0x4000"

subsection \<open>Leaving the running block\<close>

text \<open>The links between blocks, which \<open>tb_reset_jump_recursive\<close> cuts, are not modelled.\<close>

definition cpu_unlink_tb :: "cpu_state \<Rightarrow> cpu_state" where
  "cpu_unlink_tb env = env\<lparr>current_tb := None\<rparr>"

definition cpu_interrupt :: "cpu_state \<Rightarrow> u32 \<Rightarrow> cpu_state" where
  "cpu_interrupt env msk = cpu_unlink_tb (env\<lparr>interrupt_request := interrupt_request env OR msk\<rparr>)"

definition cpu_exit :: "cpu_state \<Rightarrow> cpu_state" where
  "cpu_exit env = cpu_unlink_tb (env\<lparr>exit_request := 1\<rparr>)"

subsection \<open>Updates\<close>

definition x86_cpu_set_a20 :: "cpu_state \<Rightarrow> int \<Rightarrow> cpu_state" where
  "x86_cpu_set_a20 env a20_state =
    (let a20_state = (if a20_state \<noteq> 0 then 1 else 0 :: u32)
     in if a20_state \<noteq> drop_bit 20 (a20_mask env) AND 1 then
          let env = cpu_interrupt env CPU_INTERRUPT_EXITTB;
              env = tlb_flush env
          in env\<lparr>a20_mask := NOT (push_bit 20 1) OR push_bit 20 a20_state\<rparr>
        else env)"

text \<open>Whether the \<open>if\<close> of the long mode switch returns, and the state after it.\<close>

definition long_mode_switch :: "cpu_state \<Rightarrow> u32 \<Rightarrow> cpu_state \<times> bool" where
  "long_mode_switch env new_cr0 =
    (if cr env 0 AND CR0_PG_MASK_64 = 0 \<and> new_cr0 AND CR0_PG_MASK \<noteq> 0 \<and> efer env AND MSR_EFER_LME \<noteq> 0 then
       if cr env 4 AND CR4_PAE_MASK = 0 then (env, True)
       else (env\<lparr>efer := efer env OR MSR_EFER_LMA, hflags := hflags env OR HF_LMA_MASK\<rparr>, False)
     else if cr env 0 AND CR0_PG_MASK_64 \<noteq> 0 \<and> new_cr0 AND CR0_PG_MASK = 0 \<and> efer env AND MSR_EFER_LMA \<noteq> 0 then
       (env\<lparr>efer := efer env AND NOT MSR_EFER_LMA,
          hflags := hflags env AND NOT (HF_LMA_MASK OR HF_CS64_MASK), eip := eip env AND 0xffffffff\<rparr>, False)
     else (env, False))"

definition cr0_hflags :: "u32 \<Rightarrow> u32 \<Rightarrow> u32 \<Rightarrow> u32" where
  "cr0_hflags h pe_state new_cr0 =
    (let h = (h AND NOT HF_PE_MASK) OR push_bit 7 pe_state;
         h = h OR push_bit 6 (pe_state XOR 1)
     in (h AND NOT HF_MP_EM_TS_MASK) OR (push_bit (9 - 1) new_cr0 AND HF_MP_EM_TS_MASK))"

definition cpu_x86_update_cr0 :: "cpu_state \<Rightarrow> u32 \<Rightarrow> cpu_state" where
  "cpu_x86_update_cr0 env new_cr0 =
    (let env = (if (ucast (new_cr0 AND (CR0_PG_MASK OR CR0_WP_MASK OR CR0_PE_MASK)) :: u64)
                   \<noteq> cr env 0 AND (CR0_PG_MASK_64 OR CR0_WP_MASK OR CR0_PE_MASK)
                then tlb_flush env else env)
     in case long_mode_switch env new_cr0 of
       (env, True) \<Rightarrow> env
     | (env, False) \<Rightarrow>
         let env = env\<lparr>cr := (cr env)(0 := ucast (new_cr0 OR CR0_ET_MASK))\<rparr>;
             pe_state = ucast (cr env 0 AND CR0_PE_MASK)
         in env\<lparr>hflags := cr0_hflags (hflags env) pe_state new_cr0\<rparr>)"

definition cpu_x86_update_cr3 :: "cpu_state \<Rightarrow> target_ulong \<Rightarrow> cpu_state" where
  "cpu_x86_update_cr3 env new_cr3 =
    (let env = env\<lparr>cr := (cr env)(3 := new_cr3)\<rparr>
     in if cr env 0 AND CR0_PG_MASK_64 \<noteq> 0 then tlb_flush env else env)"

definition cpu_x86_update_cr4 :: "cpu_state \<Rightarrow> u32 \<Rightarrow> cpu_state" where
  "cpu_x86_update_cr4 env new_cr4 =
    (let env = (if (ucast new_cr4 XOR cr env 4)
                    AND (CR4_PGE_MASK OR CR4_PAE_MASK OR CR4_PSE_MASK OR CR4_SMEP_MASK OR CR4_SMAP_MASK) \<noteq> 0
                then tlb_flush env else env);
         new_cr4 = (if cpuid_features env AND CPUID_SSE = 0 then new_cr4 AND NOT CR4_OSFXSR_MASK else new_cr4);
         env = env\<lparr>hflags := hflags env AND NOT HF_OSFXSR_MASK\<rparr>;
         env = (if new_cr4 AND CR4_OSFXSR_MASK \<noteq> 0 then env\<lparr>hflags := hflags env OR HF_OSFXSR_MASK\<rparr> else env);
         new_cr4 = (if cpuid_7_0_ebx_features env AND CPUID_7_0_EBX_SMAP = 0
                    then new_cr4 AND NOT CR4_SMAP_MASK else new_cr4);
         env = env\<lparr>hflags := hflags env AND NOT HF_SMAP_MASK\<rparr>;
         env = (if new_cr4 AND CR4_SMAP_MASK \<noteq> 0 then env\<lparr>hflags := hflags env OR HF_SMAP_MASK\<rparr> else env)
     in env\<lparr>cr := (cr env)(4 := ucast new_cr4)\<rparr>)"

subsection \<open>Instructions\<close>

definition helper_read_crN :: "cpu_state \<Rightarrow> nat \<Rightarrow> (cpu_state \<times> target_ulong) outcome" where
  "helper_read_crN env reg =
    bind_out (cpu_svm_check_intercept_param env (SVM_EXIT_READ_CR0 + of_nat reg) 0)
      (\<lambda>env. if reg = 8 then Abort else Done (env, cr env reg))"

definition helper_write_crN :: "cpu_state \<Rightarrow> nat \<Rightarrow> target_ulong \<Rightarrow> cpu_state outcome" where
  "helper_write_crN env reg t0 =
    bind_out (cpu_svm_check_intercept_param env (SVM_EXIT_WRITE_CR0 + of_nat reg) 0)
      (\<lambda>env. if reg = 0 then Done (cpu_x86_update_cr0 env (ucast t0))
             else if reg = 3 then Done (cpu_x86_update_cr3 env t0)
             else if reg = 4 then Done (cpu_x86_update_cr4 env (ucast t0))
             else if reg = 8 then Abort
             else Done (env\<lparr>cr := (cr env)(reg := t0)\<rparr>))"

definition helper_lmsw :: "cpu_state \<Rightarrow> target_ulong \<Rightarrow> cpu_state outcome" where
  "helper_lmsw env t0 =
    (let t0 = (cr env 0 AND NOT 0xe) OR (t0 AND 0xf) in helper_write_crN env 0 t0)"

definition helper_invlpg :: "cpu_state \<Rightarrow> target_ulong \<Rightarrow> cpu_state outcome" where
  "helper_invlpg env addr =
    bind_out (cpu_svm_check_intercept_param env SVM_EXIT_INVLPG 0) (\<lambda>env. Done (tlb_flush_page env addr))"

definition not_kernel_and :: "cpu_state \<Rightarrow> u64 \<Rightarrow> bool" where
  "not_kernel_and env msk \<longleftrightarrow> cr env 4 AND msk \<noteq> 0 \<and> hflags env AND HF_CPL_MASK \<noteq> 0"

definition helper_rdtsc :: "u64 \<Rightarrow> cpu_state \<Rightarrow> cpu_state outcome" where
  "helper_rdtsc tsc env =
    bind_out (if not_kernel_and env CR4_TSD_MASK then raise_exception env EXCP0D_GPF else Done env)
      (\<lambda>env. bind_out (cpu_svm_check_intercept_param env SVM_EXIT_RDTSC 0)
        (\<lambda>env. let val = tsc + tsc_offset env;
                   env = set_reg R_EAX (ucast (ucast val :: u32)) env
               in Done (set_reg R_EDX (ucast (ucast (drop_bit 32 val) :: u32)) env)))"

definition helper_rdtscp :: "u64 \<Rightarrow> cpu_state \<Rightarrow> cpu_state outcome" where
  "helper_rdtscp tsc env =
    bind_out (helper_rdtsc tsc env) (\<lambda>env. Done (set_reg R_ECX (ucast (ucast (tsc_aux env) :: u32)) env))"

definition helper_rdpmc :: "cpu_state \<Rightarrow> cpu_state outcome" where
  "helper_rdpmc env =
    bind_out (if not_kernel_and env CR4_PCE_MASK then raise_exception env EXCP0D_GPF else Done env)
      (\<lambda>env. bind_out (cpu_svm_check_intercept_param env SVM_EXIT_RDPMC 0)
        (\<lambda>env. raise_exception_err env EXCP06_ILLOP 0))"

definition helper_into :: "cpu_state \<Rightarrow> u32 \<Rightarrow> cpu_state outcome" where
  "helper_into env next_eip_addend =
    (let eflags' = cpu_cc_compute_all env (cc_op env)
     in if eflags' AND CC_O \<noteq> 0 then raise_interrupt env EXCP04_INTO True 0 next_eip_addend else Done env)"

definition helper_single_step :: "cpu_state \<Rightarrow> cpu_state outcome" where
  "helper_single_step env =
    bind_out (check_hw_breakpoints env True)
      (\<lambda>(env, _). raise_exception (set_dr 6 (dr env 6 OR DR6_BS) env) EXCP01_DB)"

definition do_hlt :: "cpu_state \<Rightarrow> cpu_state outcome" where
  "do_hlt env =
    (let env = env\<lparr>hflags := hflags env AND NOT HF_INHIBIT_IRQ_MASK\<rparr>;
         env = env\<lparr>halted := 1\<rparr>
     in cpu_loop_exit (env\<lparr>exception_index := EXCP_HLT\<rparr>))"

definition helper_hlt :: "cpu_state \<Rightarrow> u32 \<Rightarrow> cpu_state outcome" where
  "helper_hlt env next_eip_addend =
    bind_out (cpu_svm_check_intercept_param env SVM_EXIT_HLT 0)
      (\<lambda>env. do_hlt (env\<lparr>eip := eip env + scast next_eip_addend\<rparr>))"

definition helper_monitor :: "cpu_state \<Rightarrow> cpu_state outcome" where
  "helper_monitor env =
    bind_out (if (ucast (regs env R_ECX) :: u32) \<noteq> 0 then raise_exception env EXCP0D_GPF else Done env)
      (\<lambda>env. cpu_svm_check_intercept_param env SVM_EXIT_MONITOR 0)"

text \<open>\<open>other_cpus\<close>: the CPU is not the first or not the only one.\<close>

definition helper_mwait :: "bool \<Rightarrow> cpu_state \<Rightarrow> u32 \<Rightarrow> cpu_state outcome" where
  "helper_mwait other_cpus env next_eip_addend =
    bind_out (if (ucast (regs env R_ECX) :: u32) \<noteq> 0 then raise_exception env EXCP0D_GPF else Done env)
      (\<lambda>env. bind_out (cpu_svm_check_intercept_param env SVM_EXIT_MWAIT 0)
        (\<lambda>env. let env = env\<lparr>eip := eip env + scast next_eip_addend\<rparr>
               in if other_cpus then Done env else do_hlt env))"

definition helper_debug :: "cpu_state \<Rightarrow> cpu_state outcome" where
  "helper_debug env = cpu_loop_exit (env\<lparr>exception_index := EXCP_DEBUG\<rparr>)"

end
