(* ===== verification/MmuWalk.thy ===== *)
theory MmuWalk
  imports Mmu
begin

text \<open>
  The page walk of \<open>Mmu\<close> against the architecture: what the walk may change (\<open>ad_update\<close>), the entries
  it reads (\<open>table_entries\<close>), when it lets an access through (\<open>walk_ok\<close>), and the agreement of the
  debugger's walk with it.
\<close>

subsection \<open>Accessed and dirty bits\<close>

text \<open>Equal up to the accessed and the dirty bit.\<close>

definition same_but_ad :: "'a::len word \<Rightarrow> 'a word \<Rightarrow> bool" where
  "same_but_ad x y \<longleftrightarrow> (\<forall>n. n \<noteq> 5 \<and> n \<noteq> 6 \<longrightarrow> bit x n = bit y n)"

text \<open>
  The walk changes nothing but memory, there only sets accessed and dirty bits, and these only in bytes
  whose address is aligned by \<open>al\<close>.
\<close>

definition mem_ad :: "u64 \<Rightarrow> (u64 \<Rightarrow> u8) \<Rightarrow> (u64 \<Rightarrow> u8) \<Rightarrow> bool" where
  "mem_ad al f g \<longleftrightarrow>
    (\<forall>a. same_but_ad (f a) (g a) \<and> (\<forall>n. bit (f a) n \<longrightarrow> bit (g a) n) \<and> (a AND al \<noteq> 0 \<longrightarrow> g a = f a))"

definition ad_update :: "u64 \<Rightarrow> cpu_state \<Rightarrow> cpu_state \<Rightarrow> bool" where
  "ad_update al env env' \<longleftrightarrow> (\<exists>pm. env' = env\<lparr>phys_mem := pm\<rparr> \<and> mem_ad al (phys_mem env) pm)"

lemma same_but_ad_refl [simp]: "same_but_ad x x"
  by (simp add: same_but_ad_def)

lemma same_but_ad_sym: "same_but_ad x y \<Longrightarrow> same_but_ad y x"
  by (simp add: same_but_ad_def)

lemma same_but_ad_trans [trans]: "same_but_ad x y \<Longrightarrow> same_but_ad y z \<Longrightarrow> same_but_ad x z"
  by (simp add: same_but_ad_def)

lemma mem_ad_refl [simp]: "mem_ad al f f"
  by (simp add: mem_ad_def)

lemma mem_ad_trans: "mem_ad al f g \<Longrightarrow> mem_ad al g h \<Longrightarrow> mem_ad al f h"
  unfolding mem_ad_def by (metis same_but_ad_trans)

lemma ad_update_refl [simp]: "ad_update al env env"
  unfolding ad_update_def by (intro exI [of _ "phys_mem env"]) simp

lemma ad_update_trans [trans]:
  assumes "ad_update al e1 e2" "ad_update al e2 e3"
  shows "ad_update al e1 e3"
proof -
  obtain p q where p: "e2 = e1\<lparr>phys_mem := p\<rparr>" "mem_ad al (phys_mem e1) p"
      and q: "e3 = e2\<lparr>phys_mem := q\<rparr>" "mem_ad al (phys_mem e2) q"
    using assms unfolding ad_update_def by blast
  have "e3 = e1\<lparr>phys_mem := q\<rparr>" by (simp add: p(1) q(1))
  moreover have "mem_ad al (phys_mem e1) q"
    using mem_ad_trans [OF p(2)] q(2) by (simp add: p(1))
  ultimately show ?thesis unfolding ad_update_def by blast
qed

lemma bit_u8_beyond: "8 \<le> n \<Longrightarrow> \<not> bit (b :: u8) n"
  using bit_imp_le_length [of b n] by auto

lemma join_byte_0:
  fixes b0 b1 b2 b3 :: u8
  assumes n: "n < 8" and w: "w = (ucast b0 OR push_bit 8 (ucast b1) OR push_bit 16 (ucast b2) OR push_bit 24 (ucast b3) :: u32)"
  shows "bit w n = bit b0 n"
    using n unfolding w by (simp add: bit_or_iff bit_push_bit_iff bit_unsigned_iff)

lemma join_byte_1:
  fixes b0 b1 b2 b3 :: u8
  assumes n: "n < 8" and w: "w = (ucast b0 OR push_bit 8 (ucast b1) OR push_bit 16 (ucast b2) OR push_bit 24 (ucast b3) :: u32)"
  shows "bit w (8 + n) = bit b1 n"
    using n bit_u8_beyond [of "8+n" b0] unfolding w by (simp add: bit_or_iff bit_push_bit_iff bit_unsigned_iff)
lemma join_byte_2:
  fixes b0 b1 b2 b3 :: u8
  assumes n: "n < 8" and w: "w = (ucast b0 OR push_bit 8 (ucast b1) OR push_bit 16 (ucast b2) OR push_bit 24 (ucast b3) :: u32)"
  shows "bit w (16 + n) = bit b2 n"
    using n bit_u8_beyond [of "16+n" b0] bit_u8_beyond [of "8+n" b1] unfolding w by (simp add: bit_or_iff bit_push_bit_iff bit_unsigned_iff)
lemma join_byte_3:
  fixes b0 b1 b2 b3 :: u8
  assumes n: "n < 8" and w: "w = (ucast b0 OR push_bit 8 (ucast b1) OR push_bit 16 (ucast b2) OR push_bit 24 (ucast b3) :: u32)"
  shows "bit w (24 + n) = bit b3 n"
    using n bit_u8_beyond [of "24+n" b0] bit_u8_beyond [of "16+n" b1] bit_u8_beyond [of "8+n" b2]  unfolding w by (simp add: bit_or_iff bit_push_bit_iff bit_unsigned_iff)

lemmas join_bytes = join_byte_0 join_byte_1 join_byte_2 join_byte_3

lemma ldl_bytes:
  "phys_mem env a = ucast (ldl_phys env a)"
  "phys_mem env (a + 1) = ucast (drop_bit 8 (ldl_phys env a))"
  "phys_mem env (a + 2) = ucast (drop_bit 16 (ldl_phys env a))"
  "phys_mem env (a + 3) = ucast (drop_bit 24 (ldl_phys env a))"
  by (rule bit_word_eqI; simp add: bit_unsigned_iff bit_drop_bit_eq join_bytes [OF _ ldl_phys_def])+

definition byte_or :: "u64 \<Rightarrow> u8 \<Rightarrow> cpu_state \<Rightarrow> cpu_state" where
  "byte_or a m env = env\<lparr>phys_mem := (phys_mem env)(a := phys_mem env a OR m)\<rparr>"

lemma stl_or:
  assumes "\<forall>n. bit m n \<longrightarrow> n < 8"
  shows "stl_phys_notdirty env a (ldl_phys env a OR m) = byte_or a (ucast m) env"
proof -
  have "(ucast (ldl_phys env a OR m) :: u8) = phys_mem env a OR ucast m"
    unfolding ldl_bytes by (rule bit_word_eqI) (simp add: vx_bits)
  moreover have "drop_bit 8 (ldl_phys env a OR m) = drop_bit 8 (ldl_phys env a)"
    "drop_bit 16 (ldl_phys env a OR m) = drop_bit 16 (ldl_phys env a)"
    "drop_bit 24 (ldl_phys env a OR m) = drop_bit 24 (ldl_phys env a)"
    using assms by (auto intro!: bit_word_eqI simp: bit_drop_bit_eq bit_or_iff)
  ultimately show ?thesis
    unfolding stl_phys_notdirty_def byte_or_def
    by (auto simp: fun_eq_iff simp flip: ldl_bytes(2,3,4))
qed

lemma ucast_ldq: "(ucast (ldq_phys env a) :: u32) = ldl_phys env a"
  unfolding ldq_phys_def by (rule bit_word_eqI) (simp add: vx_bits)


lemma bit_ad_numerals:
  "bit (0x20 :: 'a::len word) n \<longleftrightarrow> n = 5 \<and> 5 < LENGTH('a)"
  "bit (0x40 :: 'a::len word) n \<longleftrightarrow> n = 6 \<and> 6 < LENGTH('a)"
proof -
  have "(0x20 :: 'a word) = push_bit 5 1" "(0x40 :: 'a word) = push_bit 6 1"
    by (simp_all add: push_bit_eq_mult)
  then show "bit (0x20 :: 'a word) n \<longleftrightarrow> n = 5 \<and> 5 < LENGTH('a)"
    "bit (0x40 :: 'a word) n \<longleftrightarrow> n = 6 \<and> 6 < LENGTH('a)"
    by (auto simp only: bit_push_bit_iff bit_1_iff possible_bit_word)
qed

lemma small_20: "\<forall>n. bit (0x20 :: u32) n \<longrightarrow> n < 8"
  by (simp only: bit_ad_numerals) simp

lemma byte_or_ad:
  assumes "a AND al = 0" "m \<in> {0x20, 0x40, 0x60}"
  shows "ad_update al env (byte_or a m env)"
proof -
  have "bit m n \<Longrightarrow> n = 5 \<or> n = 6" for n
  proof -
    have "(0x20 :: u8) = push_bit 5 1" "(0x40 :: u8) = push_bit 6 1" "(0x60 :: u8) = push_bit 5 1 OR push_bit 6 1"
      by (simp_all add: push_bit_eq_mult)
    then show "bit m n \<Longrightarrow> n = 5 \<or> n = 6"
      using assms(2) by (auto simp only: bit_or_iff bit_push_bit_iff bit_1_iff insert_iff empty_iff)
  qed
  then have "mem_ad al (phys_mem env) ((phys_mem env)(a := phys_mem env a OR m))"
    using assms(1) by (auto simp: mem_ad_def same_but_ad_def bit_or_iff)
  then show ?thesis unfolding ad_update_def byte_or_def by blast
qed

lemma same_but_ad_or:
  "same_but_ad e (e OR 0x20)" "same_but_ad e (e OR 0x20 OR 0x40)" for e :: u64
  unfolding same_but_ad_def by (simp_all only: bit_or_iff bit_ad_numerals) simp_all


lemma same_but_ad_and:
  "same_but_ad e e' \<Longrightarrow> \<not> bit m 5 \<Longrightarrow> \<not> bit m 6 \<Longrightarrow> e AND m = e' AND (m :: 'a::len word)"
  unfolding same_but_ad_def by (rule bit_word_eqI) (simp add: bit_and_iff, metis)

lemma set_accessed_spec:
  assumes "ucast e = ldl_phys env a" "a AND al = 0" "set_accessed env a e = (env', e')"
  shows "ad_update al env env' \<and> same_but_ad e e'"
proof -
  have "stl_phys_notdirty env a (ucast (e OR 0x20)) = byte_or a 0x20 env"
  proof -
    have "(ucast (e OR 0x20) :: u32) = ldl_phys env a OR 0x20"
      unfolding assms(1) [symmetric] by (rule bit_word_eqI) (simp add: vx_bits)
    then show ?thesis
      using stl_or [OF small_20, of env a] by simp
  qed
  then show ?thesis
    using assms(2,3) byte_or_ad [of a al "0x20" env] same_but_ad_or(1) [of e]
    by (auto simp: set_accessed_def Let_def split: if_splits)
qed

lemma set_accessed_dirty_spec:
  assumes "ucast e = ldl_phys env a" "a AND al = 0" "set_accessed_dirty env a e w = (env', e')"
  shows "ad_update al env env' \<and> same_but_ad e e'"
proof -
  have one: "stl_phys_notdirty env a (ucast (e OR 0x20)) = byte_or a 0x20 env"
  proof -
    have "(ucast (e OR 0x20) :: u32) = ldl_phys env a OR 0x20"
      unfolding assms(1) [symmetric] by (rule bit_word_eqI) (simp add: vx_bits)
    then show ?thesis
      using stl_or [OF small_20, of env a] by simp
  qed
  have two: "stl_phys_notdirty env a (ucast (e OR 0x20 OR 0x40)) = byte_or a 0x60 env"
  proof -
    have m: "(0x60 :: u32) = 0x20 OR 0x40" by simp
    have "(ucast (e OR 0x20 OR 0x40) :: u32) = ldl_phys env a OR 0x60"
      unfolding assms(1) [symmetric] m
      by (rule bit_word_eqI) (simp only: bit_unsigned_iff bit_or_iff bit_ad_numerals, auto)
    moreover have "\<forall>n. bit (0x60 :: u32) n \<longrightarrow> n < 8"
      unfolding m by (simp only: bit_or_iff bit_ad_numerals) auto
    ultimately show ?thesis using stl_or [of "0x60" env a] by simp
  qed
  show ?thesis
    using assms(2,3) one two byte_or_ad [of a al "0x20" env] byte_or_ad [of a al "0x60" env]
      same_but_ad_or [of e]
    by (auto simp: set_accessed_dirty_def Let_def or.assoc split: if_splits)
qed

subsection \<open>Reading the tables after an update\<close>

lemma low_bits_add:
  fixes a b :: "'a::len word"
  assumes "a AND mask k = 0"
  shows "(a + b) AND mask k = b AND mask k"
proof (rule bit_word_eqI)
  fix n
  assume n: "n < LENGTH('a)"
  have low: "\<not> bit a m" if "m < k" "m < LENGTH('a)" for m
    using assms that by (auto simp: bit_eq_iff bit_and_iff bit_mask_iff)
  show "bit ((a + b) AND mask k) n = bit (b AND mask k) n"
  proof (cases "n < k")
    case True
    have "take_bit n (uint a) = 0"
      using low True n by (intro bit_eqI) (auto simp: bit_take_bit_iff bit_uint_iff)
    moreover have "\<not> 2 ^ n \<le> take_bit n (uint b)" by (simp add: not_le)
    moreover have "\<not> bit a n" using low True n by simp
    ultimately have "bit (a + b) n = bit b n"
      using word_add_carry_bit [OF n, of a b False]
      by (simp only: of_bool_eq add_0 add_0_right simp_thms)
    then show ?thesis by (simp add: bit_and_iff)
  qed (simp add: bit_and_iff bit_mask_iff)
qed

lemma seven_mask: "(7 :: 'a::len word) = mask 3" "(3 :: 'a::len word) = mask 2"
  by (simp_all add: mask_eq_exp_minus_1)

lemma ldl_ad:
  assumes "ad_update al env env'" "(a + 1) AND al \<noteq> 0" "(a + 2) AND al \<noteq> 0" "(a + 3) AND al \<noteq> 0"
  shows "same_but_ad (ldl_phys env a) (ldl_phys env' a)"
proof -
  obtain pm where pm: "env' = env\<lparr>phys_mem := pm\<rparr>" "mem_ad al (phys_mem env) pm"
    using assms(1) unfolding ad_update_def by blast
  then have "pm (a + 1) = phys_mem env (a + 1)" "pm (a + 2) = phys_mem env (a + 2)"
    "pm (a + 3) = phys_mem env (a + 3)" "same_but_ad (phys_mem env a) (pm a)"
    using assms(2-4) by (auto simp: mem_ad_def)
  then show ?thesis
    unfolding same_but_ad_def ldl_phys_def pm(1) by (simp add: bit_or_iff bit_unsigned_iff)
qed

lemma ldl_ad_aligned:
  assumes "ad_update 3 env env'" "a AND 3 = 0"
  shows "same_but_ad (ldl_phys env a) (ldl_phys env' a)"
proof -
  have off: "(a + b) AND 3 = b AND 3" for b
    using low_bits_add [of a 2 b] assms(2) unfolding seven_mask(2) [symmetric] by simp
  show ?thesis by (rule ldl_ad [OF assms(1)]) (simp_all add: off)
qed

lemma ldq_ad_aligned:
  assumes "ad_update 7 env env'" "a AND 7 = 0"
  shows "same_but_ad (ldq_phys env a) (ldq_phys env' a)"
proof -
  have off: "(a + b) AND 7 = b AND 7" for b
    using low_bits_add [of a 3 b] assms(2) unfolding seven_mask(1) [symmetric] by simp
  have lo: "same_but_ad (ldl_phys env a) (ldl_phys env' a)"
    by (rule ldl_ad [OF assms(1)]) (simp_all add: off)
  obtain pm where pm: "env' = env\<lparr>phys_mem := pm\<rparr>" "mem_ad 7 (phys_mem env) pm"
    using assms(1) unfolding ad_update_def by blast
  have "pm (a + k) = phys_mem env (a + k)" if "k AND 7 \<noteq> 0" for k
    using pm(2) off [of k] that by (simp add: mem_ad_def)
  from this [of 4] this [of 5] this [of 6] this [of 7]
  have "ldl_phys env' (a + 4) = ldl_phys env (a + 4)"
    by (simp add: ldl_phys_def pm(1) add.assoc)
  with lo show ?thesis
    unfolding same_but_ad_def ldq_phys_def by (simp add: bit_or_iff bit_unsigned_iff)
qed

subsection \<open>The entries of a walk\<close>

definition entry_addr :: "cpu_state \<Rightarrow> u64 \<Rightarrow> nat \<Rightarrow> target_ulong \<Rightarrow> u64" where
  "entry_addr env base k addr = (base + push_bit 3 (drop_bit k addr AND 0x1ff)) AND a20 env"

definition entry_addr4 :: "cpu_state \<Rightarrow> u64 \<Rightarrow> nat \<Rightarrow> target_ulong \<Rightarrow> u64" where
  "entry_addr4 env base k addr = (base + (drop_bit k addr AND 0xffc)) AND a20 env"

lemma and_mask_sub: "x AND m = 0 \<Longrightarrow> (x AND y) AND m = (0 :: 'a::len word)"
  by (simp add: bit_eq_iff bit_and_iff)

lemma entry_addr_aligned:
  assumes "base AND 7 = 0"
  shows "entry_addr env base k addr AND 7 = 0"
proof -
  have "(base + push_bit 3 (drop_bit k addr AND 0x1ff)) AND mask 3 = push_bit 3 (drop_bit k addr AND 0x1ff) AND mask 3"
    using assms unfolding seven_mask by (rule low_bits_add)
  also have "\<dots> = 0" by (auto simp: bit_eq_iff bit_and_iff bit_push_bit_iff bit_mask_iff)
  finally show ?thesis
    unfolding entry_addr_def seven_mask by (rule and_mask_sub)
qed

lemma entry_addr4_aligned:
  assumes "base AND 3 = 0"
  shows "entry_addr4 env base k addr AND 3 = 0"
proof -
  have f: "(0xffc :: u64) = push_bit 2 (mask 10)" by (simp add: mask_eq_exp_minus_1 push_bit_eq_mult)
  have "(base + (drop_bit k addr AND 0xffc)) AND mask 2 = (drop_bit k addr AND 0xffc) AND mask 2"
    using assms unfolding seven_mask by (rule low_bits_add)
  also have "\<dots> = 0" unfolding f by (auto simp: bit_eq_iff bit_and_iff bit_push_bit_iff bit_mask_iff)
  finally show ?thesis
    unfolding entry_addr4_def seven_mask by (rule and_mask_sub)
qed

lemma base_aligned:
  "(x AND PHYS_ADDR_MASK) AND 7 = (0 :: u64)" "(x AND NOT 0xfff) AND 7 = (0 :: u64)" "(x AND NOT 0xfff) AND 3 = (0 :: u64)"
  by (simp_all add: and.assoc)

definition canonical :: "target_ulong \<Rightarrow> bool" where
  "canonical addr \<longleftrightarrow> sint (signed_drop_bit 47 addr) \<in> {0, -1}"

definition pml4_entry :: "cpu_state \<Rightarrow> target_ulong \<Rightarrow> u64" where
  "pml4_entry env addr = ldq_phys env (entry_addr env (cr env 3 AND NOT 0xfff) 39 addr)"

definition next_entry :: "cpu_state \<Rightarrow> u64 \<Rightarrow> nat \<Rightarrow> target_ulong \<Rightarrow> u64" where
  "next_entry env e k addr = ldq_phys env (entry_addr env (e AND PHYS_ADDR_MASK) k addr)"

lemma same_but_ad_bit: "same_but_ad x y \<Longrightarrow> n \<noteq> 5 \<Longrightarrow> n \<noteq> 6 \<Longrightarrow> bit x n = bit y n"
  by (simp add: same_but_ad_def)

lemma and_pow_zero: "n < LENGTH('a) \<Longrightarrow> (x AND push_bit n 1 = 0) \<longleftrightarrow> \<not> bit (x :: 'a::len word) n"
proof -
  assume "n < LENGTH('a)"
  then have "bit (push_bit n 1 :: 'a word) n" by (simp only: bit_push_bit_iff possible_bit_word) simp
  then have "push_bit n 1 \<noteq> (0 :: 'a word)" by (metis bit_0_eq bot_apply bot_bool_def)
  then show ?thesis by (cases "bit x n") (simp_all add: and_bit_mask del: push_bit_of_1)
qed

lemma pg_bits:
  "(e :: u64) AND 0x1 = 0 \<longleftrightarrow> \<not> bit e 0" "e AND 0x2 = 0 \<longleftrightarrow> \<not> bit e 1" "e AND 0x4 = 0 \<longleftrightarrow> \<not> bit e 2"
  "e AND 0x80 = 0 \<longleftrightarrow> \<not> bit e 7" "e AND 0x8000000000000000 = 0 \<longleftrightarrow> \<not> bit e 63"
  using and_pow_zero [of 0 e] and_pow_zero [of 1 e] and_pow_zero [of 2 e] and_pow_zero [of 7 e] and_pow_zero [of 63 e]
  by (simp_all add: push_bit_eq_mult)

lemma phys_mask_ad: "\<not> bit (0xfffffff000 :: u64) 5" "\<not> bit (0xfffffff000 :: u64) 6"
  by (simp_all add: bit_numeral_word_iff)

lemma ad_update_fields:
  assumes "ad_update al env env'"
  shows "cr env' = cr env" "efer env' = efer env" "hflags env' = hflags env" "a20_mask env' = a20_mask env"
  using assms by (auto simp: ad_update_def)

lemma ad_update_mem: "ad_update al env env' \<Longrightarrow> mem_ad al (phys_mem env) (phys_mem env')"
  by (auto simp: ad_update_def)

lemma entry_stop_ad: "ad_update al env env' \<Longrightarrow> same_but_ad x y \<Longrightarrow> entry_stop env' y = entry_stop env x"
  unfolding entry_stop_def pg_bits by (simp add: ad_update_fields same_but_ad_def)

lemma next_entry_ad:
  assumes "ad_update 7 env env'" "same_but_ad x y"
  shows "same_but_ad (next_entry env x k addr) (next_entry env' y k addr)"
proof -
  have "entry_addr env' (y AND PHYS_ADDR_MASK) k addr = entry_addr env (x AND PHYS_ADDR_MASK) k addr"
    using same_but_ad_and [OF assms(2) phys_mask_ad]
    by (simp add: entry_addr_def a20_def ad_update_fields [OF assms(1)])
  then show ?thesis
    unfolding next_entry_def
    using ldq_ad_aligned [OF assms(1) entry_addr_aligned [OF base_aligned(1)]] by simp
qed

text \<open>The bits a permission check reads: write, user, no-execute.\<close>

definition same_rights :: "u64 \<Rightarrow> u64 \<Rightarrow> bool" where
  "same_rights x y \<longleftrightarrow> bit x 1 = bit y 1 \<and> bit x 2 = bit y 2 \<and> bit x 63 = bit y 63"

lemma walk_long_spec:
  fixes env addr
  defines "e1 \<equiv> pml4_entry env addr"
  defines "e2 \<equiv> next_entry env e1 30 addr"
  assumes w: "walk_long env addr = (env', r)"
  shows "ad_update 7 env env' \<and> (case r of
      Inl f \<Rightarrow> \<not> (canonical addr \<and> entry_stop env e1 = None \<and> entry_stop env e2 = None)
    | Inr (pdpe, ptep) \<Rightarrow> canonical addr \<and> entry_stop env e1 = None \<and> entry_stop env e2 = None
        \<and> same_but_ad e2 pdpe \<and> same_rights ptep ((e1 XOR PG_NX_MASK) AND (e2 XOR PG_NX_MASK)))"
proof (cases "canonical addr \<and> entry_stop env e1 = None")
  case False
  show ?thesis
  proof (cases "canonical addr")
    case True
    then obtain f where f: "entry_stop env e1 = Some f" using False by auto
    then have "walk_long env addr = (env, Inl f)"
      using True unfolding walk_long_def entry_addr_def [symmetric] e1_def pml4_entry_def
      by (auto simp: canonical_def Let_def)
    then show ?thesis using w f by auto
  next
    case False
    then have "walk_long env addr = (env, Inl Stop_gp)"
      unfolding walk_long_def by (simp add: canonical_def Let_def)
    then show ?thesis using w False by auto
  qed
next
  case True
  obtain env1 e1' where s1: "set_accessed env (entry_addr env (cr env 3 AND NOT 0xfff) 39 addr) e1 = (env1, e1')"
    by fastforce
  have u1: "ad_update 7 env env1" "same_but_ad e1 e1'"
    using set_accessed_spec [OF _ entry_addr_aligned [OF base_aligned(2)] s1]
    by (simp_all add: e1_def pml4_entry_def ucast_ldq)
  let ?a2 = "entry_addr env1 (e1' AND PHYS_ADDR_MASK) 30 addr"
  define p where "p = ldq_phys env1 ?a2"
  have p: "same_but_ad e2 p"
    using next_entry_ad [OF u1] unfolding e2_def p_def next_entry_def [symmetric] .
  obtain env2 p' where s2: "set_accessed env1 ?a2 p = (env2, p')" by fastforce
  have u2: "ad_update 7 env1 env2" "same_but_ad p p'"
    using set_accessed_spec [OF _ entry_addr_aligned [OF base_aligned(1)] s2] by (simp_all add: p_def ucast_ldq)
  have *: "walk_long env addr = (case entry_stop env1 p of Some f \<Rightarrow> (env1, Inl f)
      | None \<Rightarrow> (env2, Inr (p', (e1' XOR PG_NX_MASK) AND (p XOR PG_NX_MASK))))"
    using True s1 s2 unfolding walk_long_def entry_addr_def [symmetric] pml4_entry_def [symmetric]
    by (auto simp: canonical_def Let_def e1_def pml4_entry_def p_def split: option.splits)
  have st: "entry_stop env1 p = entry_stop env e2" by (rule entry_stop_ad [OF u1(1) p])
  have "same_rights ((e1' XOR PG_NX_MASK) AND (p XOR PG_NX_MASK)) ((e1 XOR PG_NX_MASK) AND (e2 XOR PG_NX_MASK))"
    using u1(2) p by (simp add: same_rights_def same_but_ad_def bit_and_iff bit_xor_iff)
  moreover have "same_but_ad e2 p'" using p u2(2) by (rule same_but_ad_trans)
  moreover have "ad_update 7 env env2" using u1(1) u2(1) by (rule ad_update_trans)
  ultimately show ?thesis
    using w True u1(1) unfolding * st by (auto split: option.splits)
qed

definition pdp_entry :: "cpu_state \<Rightarrow> target_ulong \<Rightarrow> u64" where
  "pdp_entry env addr =
    (if hflags env AND HF_LMA_MASK \<noteq> 0 then next_entry env (pml4_entry env addr) 30 addr
     else ldq_phys env (((cr env 3 AND NOT 0x1f) + (drop_bit 27 addr AND 0x18)) AND a20 env))"

definition upper_ok :: "cpu_state \<Rightarrow> target_ulong \<Rightarrow> bool" where
  "upper_ok env addr =
    (if hflags env AND HF_LMA_MASK \<noteq> 0
     then canonical addr \<and> entry_stop env (pml4_entry env addr) = None \<and> entry_stop env (pdp_entry env addr) = None
     else pdp_entry env addr AND PG_PRESENT_MASK \<noteq> 0)"

definition upper_rights :: "cpu_state \<Rightarrow> target_ulong \<Rightarrow> u64" where
  "upper_rights env addr =
    (if hflags env AND HF_LMA_MASK \<noteq> 0
     then (pml4_entry env addr XOR PG_NX_MASK) AND (pdp_entry env addr XOR PG_NX_MASK)
     else PG_NX_MASK OR PG_USER_MASK OR PG_RW_MASK)"

lemma upper_spec:
  assumes w: "(if hflags env AND HF_LMA_MASK \<noteq> 0 then walk_long env addr else walk_pdpt env addr) = (env', r)"
  shows "ad_update 7 env env' \<and> (case r of Inl f \<Rightarrow> \<not> upper_ok env addr
    | Inr (pdpe, ptep) \<Rightarrow> upper_ok env addr \<and> same_but_ad (pdp_entry env addr) pdpe
        \<and> same_rights ptep (upper_rights env addr))"
proof (cases "hflags env AND HF_LMA_MASK = 0")
  case False
  with w have "walk_long env addr = (env', r)" by simp
  from walk_long_spec [OF this] False show ?thesis
    by (auto simp: upper_ok_def pdp_entry_def upper_rights_def split: sum.splits)
next
  case True
  with w have "walk_pdpt env addr = (env', r)" by simp
  with True show ?thesis
    by (auto simp: walk_pdpt_def upper_ok_def pdp_entry_def upper_rights_def same_rights_def Let_def split: if_splits)
qed

lemma protect_fault_ad:
  "ad_update al env env' \<Longrightarrow> same_rights x y \<Longrightarrow> protect_fault env' m w x = protect_fault env m w y"
  unfolding protect_fault_def pg_bits by (simp add: ad_update_fields same_rights_def)

text \<open>The end of the walk in PAE and long mode: \<open>e\<close> maps the page.\<close>

definition leaf_rights :: "u64 \<Rightarrow> u64 \<Rightarrow> u64" where
  "leaf_rights rights e = (rights AND (e XOR PG_NX_MASK)) XOR PG_NX_MASK"

definition denied :: "cpu_state \<Rightarrow> nat \<Rightarrow> u32 \<Rightarrow> u64 \<Rightarrow> bool" where
  "denied env mmu_idx is_write1 rights \<longleftrightarrow>
    (rights AND PG_NX_MASK \<noteq> 0 \<and> is_write1 = 2) \<or> protect_fault env mmu_idx is_write1 rights"

lemma denied_ad:
  "ad_update al env env' \<Longrightarrow> same_rights x y \<Longrightarrow> denied env' m w x = denied env m w y"
  unfolding denied_def pg_bits by (simp add: protect_fault_ad) (simp add: same_rights_def)

lemma leaf_rights_ad:
  "same_rights r r' \<Longrightarrow> same_but_ad e e' \<Longrightarrow> same_rights (leaf_rights r e) (leaf_rights r' e')"
  by (simp add: leaf_rights_def same_rights_def same_but_ad_def bit_and_iff bit_xor_iff)

lemma same_rights_refl [simp]: "same_rights x x"
  by (simp add: same_rights_def)

lemma same_rights_and:
  "same_rights r r' \<Longrightarrow> same_but_ad e e' \<Longrightarrow> same_rights (r AND (e' XOR PG_NX_MASK)) (r' AND (e XOR PG_NX_MASK))"
  by (simp add: same_rights_def same_but_ad_def bit_and_iff bit_xor_iff)

definition pd_entry :: "cpu_state \<Rightarrow> target_ulong \<Rightarrow> u64" where
  "pd_entry env addr = next_entry env (pdp_entry env addr) 21 addr"

definition pt_entry :: "cpu_state \<Rightarrow> target_ulong \<Rightarrow> u64" where
  "pt_entry env addr = next_entry env (pd_entry env addr) 12 addr"

definition pd_rights :: "cpu_state \<Rightarrow> target_ulong \<Rightarrow> u64" where
  "pd_rights env addr = upper_rights env addr AND (pd_entry env addr XOR PG_NX_MASK)"

definition pae_ok :: "cpu_state \<Rightarrow> target_ulong \<Rightarrow> u32 \<Rightarrow> nat \<Rightarrow> bool" where
  "pae_ok env addr w m \<longleftrightarrow> upper_ok env addr \<and> entry_stop env (pd_entry env addr) = None \<and>
    (if pd_entry env addr AND PG_PSE_MASK \<noteq> 0 then \<not> denied env m w (pd_rights env addr XOR PG_NX_MASK)
     else entry_stop env (pt_entry env addr) = None \<and>
       \<not> denied env m w ((pd_rights env addr AND (pt_entry env addr XOR PG_NX_MASK)) XOR PG_NX_MASK))"

definition pae_page :: "cpu_state \<Rightarrow> target_ulong \<Rightarrow> walk_page \<Rightarrow> bool" where
  "pae_page env addr pg \<longleftrightarrow>
    (if pd_entry env addr AND PG_PSE_MASK \<noteq> 0
     then w_pte pg AND TARGET_PAGE_MASK = pd_entry env addr AND (PHYS_ADDR_MASK AND NOT 0x1fffff)
       \<and> w_size pg = 0x200000 \<and> w_virt pg = addr AND NOT 0x1fffff
     else w_pte pg AND TARGET_PAGE_MASK = pt_entry env addr AND PHYS_ADDR_MASK
       \<and> w_size pg = 0x1000 \<and> w_virt pg = addr AND NOT 0xfff)"

lemma walk_pae_upper:
  assumes "(if hflags env AND HF_LMA_MASK \<noteq> 0 then walk_long env addr else walk_pdpt env addr) = (env1, Inr (pdpe, ptep))"
  defines "pde \<equiv> next_entry env1 pdpe 21 addr"
  defines "ptep1 \<equiv> ptep AND (pde XOR PG_NX_MASK)"
  shows "walk_pae env addr w m =
    (case entry_stop env1 pde of Some f \<Rightarrow> (env1, Inl f)
     | None \<Rightarrow>
       if pde AND PG_PSE_MASK \<noteq> 0 then
         if denied env1 m w (ptep1 XOR PG_NX_MASK) then (env1, Inl (Stop_fault PG_ERROR_P_MASK))
         else (case set_accessed_dirty env1 (entry_addr env1 (pdpe AND PHYS_ADDR_MASK) 21 addr) pde (w AND 1) of
           (env2, e) \<Rightarrow> (env2, Inr \<lparr>w_pte = e AND ((PHYS_ADDR_MASK AND NOT 0x1fffff) OR 0xfff),
             w_ptep = ptep1 XOR PG_NX_MASK, w_size = 0x200000, w_virt = addr AND NOT 0x1fffff\<rparr>))
       else (case set_accessed env1 (entry_addr env1 (pdpe AND PHYS_ADDR_MASK) 21 addr) pde of
         (env2, e) \<Rightarrow>
           (let pte = next_entry env2 e 12 addr; ptep2 = (ptep1 AND (pte XOR PG_NX_MASK)) XOR PG_NX_MASK
            in case entry_stop env2 pte of Some f \<Rightarrow> (env2, Inl f)
            | None \<Rightarrow>
              if denied env2 m w ptep2 then (env2, Inl (Stop_fault PG_ERROR_P_MASK))
              else (case set_accessed_dirty env2 (entry_addr env2 (e AND PHYS_ADDR_MASK) 12 addr) pte (w AND 1) of
                (env3, e3) \<Rightarrow> (env3, Inr \<lparr>w_pte = e3 AND (PHYS_ADDR_MASK OR 0xfff), w_ptep = ptep2,
                  w_size = 0x1000, w_virt = addr AND NOT 0xfff\<rparr>)))))"
  unfolding walk_pae_def assms(1) pde_def ptep1_def next_entry_def entry_addr_def denied_def Let_def
  by (simp only: prod.case sum.case)


lemma pse_ad: "same_but_ad x y \<Longrightarrow> (y AND PG_PSE_MASK = 0) = (x AND PG_PSE_MASK = 0)"
  unfolding pg_bits by (simp add: same_but_ad_def)

lemma same_rights_nx: "same_rights x y \<Longrightarrow> same_rights (x XOR PG_NX_MASK) (y XOR PG_NX_MASK)"
  by (simp add: same_rights_def bit_xor_iff)

lemma leaf_masks:
  "(e AND ((PHYS_ADDR_MASK AND NOT 0x1fffff) OR 0xfff)) AND TARGET_PAGE_MASK = e AND (PHYS_ADDR_MASK AND NOT 0x1fffff)"
  "(e AND (PHYS_ADDR_MASK OR 0xfff)) AND TARGET_PAGE_MASK = e AND (PHYS_ADDR_MASK :: u64)"
  by (simp_all add: and.assoc)

lemma large_mask_ad: "\<not> bit (PHYS_ADDR_MASK AND NOT 0x1fffff :: u64) 5" "\<not> bit (PHYS_ADDR_MASK AND NOT 0x1fffff :: u64) 6"
  by (simp_all add: bit_and_iff bit_numeral_word_iff)

lemma next_ucast: "(ucast (next_entry env e k addr) :: u32) = ldl_phys env (entry_addr env (e AND PHYS_ADDR_MASK) k addr)"
  by (simp only: next_entry_def ucast_ldq)

text \<open>The page directory maps a large page.\<close>

lemma walk_pae_large:
  assumes u1: "ad_update 7 env env1" and ok: "upper_ok env addr"
    and d: "pde = next_entry env1 pdpe 21 addr" and pde: "same_but_ad (pd_entry env addr) pde"
    and p1: "same_rights p1 (pd_rights env addr)"
    and st: "entry_stop env (pd_entry env addr) = None" and ps: "pd_entry env addr AND PG_PSE_MASK \<noteq> 0"
    and w: "(if denied env1 m w (p1 XOR PG_NX_MASK) then (env1, Inl (Stop_fault PG_ERROR_P_MASK))
         else (case set_accessed_dirty env1 (entry_addr env1 (pdpe AND PHYS_ADDR_MASK) 21 addr) pde (w AND 1) of
           (env2, e) \<Rightarrow> (env2, Inr \<lparr>w_pte = e AND ((PHYS_ADDR_MASK AND NOT 0x1fffff) OR 0xfff),
             w_ptep = p1 XOR PG_NX_MASK, w_size = 0x200000, w_virt = addr AND NOT 0x1fffff\<rparr>))) = (env', r)"
  shows "ad_update 7 env env' \<and> (case r of Inl f \<Rightarrow> \<not> pae_ok env addr w m
    | Inr pg \<Rightarrow> pae_ok env addr w m \<and> pae_page env addr pg)"
proof -
  have dn: "denied env1 m w (p1 XOR PG_NX_MASK) = denied env m w (pd_rights env addr XOR PG_NX_MASK)"
    by (rule denied_ad [OF u1 same_rights_nx [OF p1]])
  obtain env2 e where s: "set_accessed_dirty env1 (entry_addr env1 (pdpe AND PHYS_ADDR_MASK) 21 addr) pde (w AND 1) = (env2, e)"
    by fastforce
  have u2: "ad_update 7 env1 env2" "same_but_ad pde e"
    using set_accessed_dirty_spec [OF _ entry_addr_aligned [OF base_aligned(1)] s] by (simp_all add: d next_ucast)
  have "e AND (PHYS_ADDR_MASK AND NOT 0x1fffff) = pd_entry env addr AND (PHYS_ADDR_MASK AND NOT 0x1fffff)"
    by (rule same_but_ad_and [OF same_but_ad_sym [OF same_but_ad_trans [OF pde u2(2)]] large_mask_ad])
  then show ?thesis
    using w dn u1 ad_update_trans [OF u1 u2(1)] ok st ps leaf_masks(1) [of e]
    by (auto simp: s pae_ok_def pae_page_def split: if_splits)
qed

text \<open>The page directory refers to a page table.\<close>

lemma walk_pae_small:
  assumes u1: "ad_update 7 env env1" and ok: "upper_ok env addr"
    and d: "pde = next_entry env1 pdpe 21 addr" and pde: "same_but_ad (pd_entry env addr) pde"
    and p1: "same_rights p1 (pd_rights env addr)"
    and st: "entry_stop env (pd_entry env addr) = None" and ps: "pd_entry env addr AND PG_PSE_MASK = 0"
    and w: "(case set_accessed env1 (entry_addr env1 (pdpe AND PHYS_ADDR_MASK) 21 addr) pde of
         (env2, e) \<Rightarrow>
           (let pte = next_entry env2 e 12 addr; ptep2 = (p1 AND (pte XOR PG_NX_MASK)) XOR PG_NX_MASK
            in case entry_stop env2 pte of Some f \<Rightarrow> (env2, Inl f)
            | None \<Rightarrow>
              if denied env2 m w ptep2 then (env2, Inl (Stop_fault PG_ERROR_P_MASK))
              else (case set_accessed_dirty env2 (entry_addr env2 (e AND PHYS_ADDR_MASK) 12 addr) pte (w AND 1) of
                (env3, e3) \<Rightarrow> (env3, Inr \<lparr>w_pte = e3 AND (PHYS_ADDR_MASK OR 0xfff), w_ptep = ptep2,
                  w_size = 0x1000, w_virt = addr AND NOT 0xfff\<rparr>)))) = (env', r)"
  shows "ad_update 7 env env' \<and> (case r of Inl f \<Rightarrow> \<not> pae_ok env addr w m
    | Inr pg \<Rightarrow> pae_ok env addr w m \<and> pae_page env addr pg)"
proof -
  obtain env2 e where s: "set_accessed env1 (entry_addr env1 (pdpe AND PHYS_ADDR_MASK) 21 addr) pde = (env2, e)"
    by fastforce
  have s2: "ad_update 7 env1 env2" "same_but_ad pde e"
    using set_accessed_spec [OF _ entry_addr_aligned [OF base_aligned(1)] s] by (simp_all add: d next_ucast)
  have u2: "ad_update 7 env env2" using u1 s2(1) by (rule ad_update_trans)
  define pte where "pte = next_entry env2 e 12 addr"
  have pte: "same_but_ad (pt_entry env addr) pte"
    unfolding pt_entry_def pte_def by (rule next_entry_ad [OF u2 same_but_ad_trans [OF pde s2(2)]])
  define p2 where "p2 = (p1 AND (pte XOR PG_NX_MASK)) XOR PG_NX_MASK"
  have dn: "denied env2 m w p2 = denied env m w ((pd_rights env addr AND (pt_entry env addr XOR PG_NX_MASK)) XOR PG_NX_MASK)"
    unfolding p2_def by (rule denied_ad [OF u2 same_rights_nx [OF same_rights_and [OF p1 pte]]])
  have st2: "entry_stop env2 pte = entry_stop env (pt_entry env addr)" by (rule entry_stop_ad [OF u2 pte])
  obtain env3 e3 where t: "set_accessed_dirty env2 (entry_addr env2 (e AND PHYS_ADDR_MASK) 12 addr) pte (w AND 1) = (env3, e3)"
    by fastforce
  have s3: "ad_update 7 env2 env3" "same_but_ad pte e3"
    using set_accessed_dirty_spec [OF _ entry_addr_aligned [OF base_aligned(1)] t] by (simp_all add: pte_def next_ucast)
  have "e3 AND PHYS_ADDR_MASK = pt_entry env addr AND PHYS_ADDR_MASK"
    by (rule same_but_ad_and [OF same_but_ad_sym [OF same_but_ad_trans [OF pte s3(2)]] phys_mask_ad])
  moreover have "(case entry_stop env (pt_entry env addr) of Some f \<Rightarrow> (env2, Inl f)
      | None \<Rightarrow> if denied env2 m w p2 then (env2, Inl (Stop_fault PG_ERROR_P_MASK))
          else (env3, Inr \<lparr>w_pte = e3 AND (PHYS_ADDR_MASK OR 0xfff), w_ptep = p2,
                  w_size = 0x1000, w_virt = addr AND NOT 0xfff\<rparr>)) = (env', r)"
    using w by (simp only: s prod.case Let_def pte_def [symmetric] p2_def [symmetric] st2 t)
  ultimately show ?thesis
    using dn u2 ad_update_trans [OF u2 s3(1)] ok st ps leaf_masks(2) [of e3]
    by (auto simp: pae_ok_def pae_page_def split: if_splits option.splits)
qed

lemma walk_pae_spec:
  assumes w: "walk_pae env addr w m = (env', r)"
  shows "ad_update 7 env env' \<and> (case r of Inl f \<Rightarrow> \<not> pae_ok env addr w m
    | Inr pg \<Rightarrow> pae_ok env addr w m \<and> pae_page env addr pg)"
proof -
  obtain env1 q where up: "(if hflags env AND HF_LMA_MASK \<noteq> 0 then walk_long env addr else walk_pdpt env addr) = (env1, q)"
    by (rule prod.exhaust)
  note us = upper_spec [OF up]
  show ?thesis
  proof (cases q)
    case (Inl f)
    then have "walk_pae env addr w m = (env1, Inl f)" using up by (simp add: walk_pae_def)
    with us w Inl show ?thesis by (auto simp: pae_ok_def)
  next
    case (Inr pq)
    obtain pdpe ptep where pq: "pq = (pdpe, ptep)" by (cases pq)
    have u1: "ad_update 7 env env1" and ok: "upper_ok env addr" and e: "same_but_ad (pdp_entry env addr) pdpe"
      and rt: "same_rights ptep (upper_rights env addr)"
      using us by (simp_all add: Inr pq)
    define pde where "pde = next_entry env1 pdpe 21 addr"
    have pde: "same_but_ad (pd_entry env addr) pde"
      unfolding pd_entry_def pde_def by (rule next_entry_ad [OF u1 e])
    define p1 where "p1 = ptep AND (pde XOR PG_NX_MASK)"
    have p1: "same_rights p1 (pd_rights env addr)"
      unfolding p1_def pd_rights_def by (rule same_rights_and [OF rt pde])
    have st: "entry_stop env1 pde = entry_stop env (pd_entry env addr)" by (rule entry_stop_ad [OF u1 pde])
    note w' = w [unfolded walk_pae_upper [OF up [unfolded Inr pq]], folded pde_def, folded p1_def, unfolded st]
    show ?thesis
    proof (cases "entry_stop env (pd_entry env addr)")
      case (Some f)
      then show ?thesis using w' u1 by (auto simp: pae_ok_def)
    next
      case None
      note w' = w' [unfolded None option.case pse_ad [OF pde]]
      show ?thesis
      proof (cases "pd_entry env addr AND PG_PSE_MASK = 0")
        case True
        then show ?thesis
          using walk_pae_small [OF u1 ok pde_def pde p1 None] w' by (simp only: if_False simp_thms)
      next
        case False
        then show ?thesis
          using walk_pae_large [OF u1 ok pde_def pde p1 None] w' by (simp only: if_True simp_thms)
      qed
    qed
  qed
qed


subsection \<open>Two-level tables\<close>

definition legacy_pd :: "cpu_state \<Rightarrow> target_ulong \<Rightarrow> u64" where
  "legacy_pd env addr = ucast (ldl_phys env (entry_addr4 env (cr env 3 AND NOT 0xfff) 20 addr))"

definition legacy_pt :: "cpu_state \<Rightarrow> target_ulong \<Rightarrow> u64" where
  "legacy_pt env addr = ucast (ldl_phys env (entry_addr4 env (legacy_pd env addr AND NOT 0xfff) 10 addr))"

definition legacy_large :: "cpu_state \<Rightarrow> target_ulong \<Rightarrow> bool" where
  "legacy_large env addr \<longleftrightarrow> legacy_pd env addr AND PG_PSE_MASK \<noteq> 0 \<and> cr env 4 AND CR4_PSE_MASK \<noteq> 0"

definition legacy_ok :: "cpu_state \<Rightarrow> target_ulong \<Rightarrow> u32 \<Rightarrow> nat \<Rightarrow> bool" where
  "legacy_ok env addr w m \<longleftrightarrow> legacy_pd env addr AND PG_PRESENT_MASK \<noteq> 0 \<and>
    (if legacy_large env addr then \<not> protect_fault env m w (legacy_pd env addr)
     else legacy_pt env addr AND PG_PRESENT_MASK \<noteq> 0
       \<and> \<not> protect_fault env m w (legacy_pt env addr AND legacy_pd env addr))"

definition legacy_page :: "cpu_state \<Rightarrow> target_ulong \<Rightarrow> walk_page \<Rightarrow> bool" where
  "legacy_page env addr pg \<longleftrightarrow>
    (if legacy_large env addr
     then w_pte pg AND TARGET_PAGE_MASK = legacy_pd env addr AND NOT 0x3fffff
       \<and> w_size pg = 0x400000 \<and> w_virt pg = addr AND NOT 0x3fffff
     else w_pte pg AND TARGET_PAGE_MASK = legacy_pt env addr AND TARGET_PAGE_MASK
       \<and> w_size pg = 0x1000 \<and> w_virt pg = addr AND NOT 0xfff)"

lemma same_but_ad_ucast: "same_but_ad (x :: u32) y \<Longrightarrow> same_but_ad (ucast x :: u64) (ucast y)"
  by (simp add: same_but_ad_def bit_unsigned_iff)

lemma same_rights_ad: "same_but_ad x y \<Longrightarrow> same_rights y x"
  by (simp add: same_rights_def same_but_ad_def)

lemma legacy_masks:
  "((e :: u64) AND NOT 0x3ff000) AND TARGET_PAGE_MASK = e AND NOT 0x3fffff"
  by (simp add: and.assoc)

lemma neg_masks_ad:
  "\<not> bit (NOT 0x3fffff :: u64) 5" "\<not> bit (NOT 0x3fffff :: u64) 6"
  "\<not> bit (NOT 0xfff :: u64) 5" "\<not> bit (NOT 0xfff :: u64) 6"
  by (simp_all only: bit_not_iff bit_numeral_word_iff) simp_all

lemma ucast_32_64 [simp]: "ucast (ucast (x :: u32) :: u64) = x"
  by (rule bit_word_eqI) (simp add: vx_bits)

lemma walk_legacy_eq:
  "walk_legacy env addr w m =
    (let a = entry_addr4 env (cr env 3 AND NOT 0xfff) 20 addr; pde = legacy_pd env addr
     in if pde AND PG_PRESENT_MASK = 0 then (env, Inl (Stop_fault 0))
        else if legacy_large env addr then
          if protect_fault env m w pde then (env, Inl (Stop_fault PG_ERROR_P_MASK))
          else case set_accessed_dirty env a pde (w AND 1) of (env2, e) \<Rightarrow>
            (env2, Inr \<lparr>w_pte = e AND NOT 0x3ff000, w_ptep = e AND NOT 0x3ff000, w_size = 0x400000,
               w_virt = addr AND NOT 0x3fffff\<rparr>)
        else case set_accessed env a pde of (env2, e) \<Rightarrow>
          let a2 = entry_addr4 env2 (e AND NOT 0xfff) 10 addr; pte = ucast (ldl_phys env2 a2)
          in if pte AND PG_PRESENT_MASK = 0 then (env2, Inl (Stop_fault 0))
             else if protect_fault env2 m w (pte AND e) then (env2, Inl (Stop_fault PG_ERROR_P_MASK))
             else case set_accessed_dirty env2 a2 pte (w AND 1) of (env3, e3) \<Rightarrow>
               (env3, Inr \<lparr>w_pte = e3, w_ptep = pte AND e, w_size = 0x1000, w_virt = addr AND NOT 0xfff\<rparr>))"
  unfolding walk_legacy_def legacy_large_def legacy_pd_def entry_addr4_def Let_def by (rule refl)

lemma walk_legacy_spec:
  assumes w: "walk_legacy env addr w m = (env', r)"
  shows "ad_update 3 env env' \<and> (case r of Inl f \<Rightarrow> \<not> legacy_ok env addr w m
    | Inr pg \<Rightarrow> legacy_ok env addr w m \<and> legacy_page env addr pg)"
proof -
  let ?a = "entry_addr4 env (cr env 3 AND NOT 0xfff) 20 addr"
  define pde where "pde = legacy_pd env addr"
  have pd: "(ucast pde :: u32) = ldl_phys env ?a" by (simp add: pde_def legacy_pd_def)
  note w = w [unfolded walk_legacy_eq Let_def, folded pde_def]
  show ?thesis
  proof (cases "pde AND PG_PRESENT_MASK = 0")
    case True
    then show ?thesis using w by (auto simp: legacy_ok_def pde_def)
  next
    case pr: False
    show ?thesis
    proof (cases "legacy_large env addr")
      case True
      obtain env2 e where s: "set_accessed_dirty env ?a pde (w AND 1) = (env2, e)" by fastforce
      have u: "ad_update 3 env env2" "same_but_ad pde e"
        using set_accessed_dirty_spec [OF pd entry_addr4_aligned [OF base_aligned(3)] s] by simp_all
      have "e AND NOT 0x3fffff = pde AND NOT 0x3fffff"
        by (rule same_but_ad_and [OF same_but_ad_sym [OF u(2)] neg_masks_ad(1,2)])
      moreover have "(if protect_fault env m w pde then (env, Inl (Stop_fault PG_ERROR_P_MASK))
          else (env2, Inr \<lparr>w_pte = e AND NOT 0x3ff000, w_ptep = e AND NOT 0x3ff000, w_size = 0x400000,
            w_virt = addr AND NOT 0x3fffff\<rparr>)) = (env', r)"
        using w pr True by (simp only: s prod.case if_True if_False)
      ultimately show ?thesis
        using u(1) pr True legacy_masks [of e]
        by (auto simp: legacy_ok_def legacy_page_def pde_def split: if_splits)
    next
      case False
      obtain env2 e where s: "set_accessed env ?a pde = (env2, e)" by fastforce
      have u: "ad_update 3 env env2" "same_but_ad pde e"
        using set_accessed_spec [OF pd entry_addr4_aligned [OF base_aligned(3)] s] by simp_all
      have a2: "entry_addr4 env2 (e AND NOT 0xfff) 10 addr = entry_addr4 env (pde AND NOT 0xfff) 10 addr"
        using same_but_ad_and [OF u(2) neg_masks_ad(3,4)]
        by (simp add: entry_addr4_def a20_def ad_update_fields [OF u(1)])
      define pte :: u64 where "pte = ucast (ldl_phys env2 (entry_addr4 env2 (e AND NOT 0xfff) 10 addr))"
      have pte: "same_but_ad (legacy_pt env addr) pte"
        unfolding legacy_pt_def pte_def a2 pde_def
        by (rule same_but_ad_ucast [OF ldl_ad_aligned [OF u(1) entry_addr4_aligned [OF base_aligned(3)]]])
      obtain env3 e3 where t: "set_accessed_dirty env2 (entry_addr4 env2 (e AND NOT 0xfff) 10 addr) pte (w AND 1) = (env3, e3)"
        by fastforce
      have u3: "ad_update 3 env2 env3" "same_but_ad pte e3"
        using set_accessed_dirty_spec [OF _ entry_addr4_aligned [OF base_aligned(3)] t] by (simp_all add: pte_def)
      have "e3 AND NOT 0xfff = legacy_pt env addr AND NOT 0xfff"
        by (rule same_but_ad_and [OF same_but_ad_sym [OF same_but_ad_trans [OF pte u3(2)]] neg_masks_ad(3,4)])
      moreover have "same_rights (pte AND e) (legacy_pt env addr AND pde)"
        using pte u(2) by (simp add: same_rights_def same_but_ad_def bit_and_iff)
      then have "protect_fault env2 m w (pte AND e) = protect_fault env m w (legacy_pt env addr AND pde)"
        by (rule protect_fault_ad [OF u(1)])
      moreover have "(pte AND PG_PRESENT_MASK = 0) = (legacy_pt env addr AND PG_PRESENT_MASK = 0)"
        using pte unfolding pg_bits by (simp add: same_but_ad_def)
      moreover have "(if pte AND PG_PRESENT_MASK = 0 then (env2, Inl (Stop_fault 0))
          else if protect_fault env2 m w (pte AND e) then (env2, Inl (Stop_fault PG_ERROR_P_MASK))
          else (env3, Inr \<lparr>w_pte = e3, w_ptep = pte AND e, w_size = 0x1000, w_virt = addr AND NOT 0xfff\<rparr>)) = (env', r)"
        using w pr False by (simp only: s prod.case if_False pte_def [symmetric] t)
      ultimately show ?thesis
        using u(1) ad_update_trans [OF u(1) u3(1)] pr False
        by (auto simp: legacy_ok_def legacy_page_def pde_def split: if_splits)
    qed
  qed
qed


subsection \<open>The handler\<close>

definition walk_ok :: "cpu_state \<Rightarrow> target_ulong \<Rightarrow> u32 \<Rightarrow> nat \<Rightarrow> bool" where
  "walk_ok env addr w m = (if cr env 4 AND CR4_PAE_MASK \<noteq> 0 then pae_ok env addr w m else legacy_ok env addr w m)"

definition walk_page_ok :: "cpu_state \<Rightarrow> target_ulong \<Rightarrow> walk_page \<Rightarrow> bool" where
  "walk_page_ok env addr pg = (if cr env 4 AND CR4_PAE_MASK \<noteq> 0 then pae_page env addr pg else legacy_page env addr pg)"

lemma ad_update_weaken: "ad_update 7 env env' \<Longrightarrow> ad_update 3 env env'"
proof -
  have "(a AND 3 \<noteq> 0 \<longrightarrow> a AND 7 \<noteq> 0)" for a :: u64
    using and_mask_sub [of a 7 3] by (auto simp: and.assoc)
  then show "ad_update 7 env env' \<Longrightarrow> ad_update 3 env env'"
    unfolding ad_update_def mem_ad_def by blast
qed

lemma walk_spec:
  assumes "walk env addr w m = (env', r)"
  shows "ad_update 3 env env' \<and> (case r of Inl f \<Rightarrow> \<not> walk_ok env addr w m
    | Inr pg \<Rightarrow> walk_ok env addr w m \<and> walk_page_ok env addr pg)"
proof (cases "cr env 4 AND CR4_PAE_MASK = 0")
  case True
  then show ?thesis
    using assms walk_legacy_spec [of env addr w m env' r]
    by (auto simp: walk_def walk_ok_def walk_page_ok_def split: sum.splits)
next
  case False
  then have "walk_pae env addr w m = (env', r)" using assms by (simp add: walk_def)
  from walk_pae_spec [OF this] False show ?thesis
    by (auto simp: walk_ok_def walk_page_ok_def ad_update_weaken split: sum.splits)
qed

text \<open>What \<open>tlb_set_page\<close> touches.\<close>

definition tlb_only :: "cpu_state \<Rightarrow> cpu_state \<Rightarrow> bool" where
  "tlb_only env env' \<longleftrightarrow> env' = env\<lparr>iotlb := iotlb env', tlb_table := tlb_table env',
     tlb_flush_addr := tlb_flush_addr env', tlb_flush_mask := tlb_flush_mask env'\<rparr>"

lemma add_large_page_only: "tlb_only env (tlb_add_large_page env v s)"
  by (simp add: tlb_only_def tlb_add_large_page_def Let_def)

lemma tlb_only_set: "tlb_only env env' \<Longrightarrow> tlb_only env (env'\<lparr>iotlb := x, tlb_table := t\<rparr>)"
  unfolding tlb_only_def by (erule ssubst) simp

lemma set_page_done:
  assumes "TARGET_PAGE_SIZE \<le> size'"
  obtains env' where "tlb_set_page sect dirty env v p prot m size' = Done env'" "tlb_only env env'"
proof -
  have "\<not> size' < 0x1000" using assms by (simp add: not_less)
  moreover have "tlb_only env (if size' \<noteq> 0x1000 then tlb_add_large_page env v size' else env)"
    using add_large_page_only by (simp add: tlb_only_def)
  ultimately show ?thesis
    using that unfolding tlb_set_page_def Let_def case_prod_beta if_False by (metis tlb_only_set)
qed

lemma page_sizes:
  "walk_page_ok env addr pg \<Longrightarrow> w_size pg \<in> {0x1000, 0x200000, 0x400000}"
  by (auto simp: walk_page_ok_def pae_page_def legacy_page_def split: if_splits)

lemma handler_off:
  assumes "cr env 0 AND CR0_PG_MASK_64 = 0"
  obtains env' where "cpu_x86_handle_mmu_fault sect dirty env addr w m = Done (env', 0)" "tlb_only env env'"
    "tlb_set_page sect dirty env (addr AND TARGET_PAGE_MASK) ((addr AND a20 env) AND TARGET_PAGE_MASK)
       (PAGE_READ OR PAGE_WRITE OR PAGE_EXEC) m 0x1000 = Done env'"
proof -
  obtain env' where e: "tlb_set_page sect dirty env (addr AND TARGET_PAGE_MASK) ((addr AND a20 env) AND TARGET_PAGE_MASK)
       (PAGE_READ OR PAGE_WRITE OR PAGE_EXEC) m 0x1000 = Done env'" "tlb_only env env'"
    by (rule set_page_done [of "0x1000"]) simp_all
  moreover have "cpu_x86_handle_mmu_fault sect dirty env addr w m = Done (env', 0)"
    using assms e(1)
    by (simp add: cpu_x86_handle_mmu_fault_def Let_def map_vaddr_def map_paddr_def and.assoc bind_out_def)
  ultimately show ?thesis using that by blast
qed

lemma handler_on:
  assumes "cr env 0 AND CR0_PG_MASK_64 \<noteq> 0"
  obtains (fault) env1 env' where "cpu_x86_handle_mmu_fault sect dirty env addr w m = Done (env', 1)"
    "\<not> walk_ok env addr w m" "ad_update 3 env env1"
    "(\<exists>err. env' = page_fault env1 addr w m err) \<or> env' = env1\<lparr>error_code := 0, exception_index := EXCP0D_GPF\<rparr>"
  | (mapped) env1 pg prot env' where "cpu_x86_handle_mmu_fault sect dirty env addr w m = Done (env', 0)"
    "walk_ok env addr w m" "ad_update 3 env env1" "walk_page_ok env addr pg" "tlb_only env1 env'"
    "tlb_set_page sect dirty env1 (map_vaddr addr pg) (map_paddr env1 addr pg) prot m (w_size pg) = Done env'"
proof -
  obtain env1 r where r: "walk env addr w m = (env1, r)" by fastforce
  note ws = walk_spec [OF r]
  show ?thesis
  proof (cases r)
    case (Inl f)
    then show ?thesis
      using ws r assms fault by (cases f) (auto simp: cpu_x86_handle_mmu_fault_def)
  next
    case (Inr pg)
    then have "0x1000 \<le> w_size pg" using page_sizes [of env addr pg] ws by auto
    then obtain env' where "tlb_set_page sect dirty env1 (map_vaddr addr pg) (map_paddr env1 addr pg)
        (page_prot env1 m (w_pte pg) (w_ptep pg)) m (w_size pg) = Done env'" "tlb_only env1 env'"
      by (rule set_page_done)
    then show ?thesis
      using ws r assms Inr by (intro mapped [of env' env1 pg]) (simp_all add: cpu_x86_handle_mmu_fault_def bind_out_def)
  qed
qed


text \<open>C19. The page walk, whether it maps the page, faults or raises a general protection fault, only ever
  sets accessed and dirty bits in guest memory: no byte loses a bit, no other bit of any byte changes, and
  only bytes that start an aligned 32-bit word change at all; outside memory it touches nothing but the TLB,
  CR2 and the pending exception. (Page faults are not intercepted by a nested hypervisor.)\<close>

theorem page_walk_only_sets_ad:
  assumes "intercept_exceptions env AND 0x4000 = 0"
    and "cpu_x86_handle_mmu_fault sect dirty env addr w m = Done (env', r)"
  shows "(\<forall>a. same_but_ad (phys_mem env a) (phys_mem env' a) \<and> phys_mem env a AND NOT (phys_mem env' a) = 0
      \<and> (if a AND 3 = 0 then True else phys_mem env' a = phys_mem env a))
    \<and> env'\<lparr>phys_mem := phys_mem env, iotlb := iotlb env, tlb_table := tlb_table env,
        tlb_flush_addr := tlb_flush_addr env, tlb_flush_mask := tlb_flush_mask env,
        cr := (cr env')(2 := cr env 2), error_code := error_code env,
        exception_index := exception_index env\<rparr> = env"
proof -
  define frame where "frame = (\<lambda>e. e\<lparr>phys_mem := phys_mem env, iotlb := iotlb env, tlb_table := tlb_table env,
        tlb_flush_addr := tlb_flush_addr env, tlb_flush_mask := tlb_flush_mask env,
        cr := (cr e)(2 := cr env 2), error_code := error_code env,
        exception_index := exception_index env\<rparr> :: cpu_state)"
  have self: "frame env = env" by (simp add: frame_def)
  have ad: "frame e = env" if "ad_update 3 env e" for e
    using that self by (auto simp: ad_update_def frame_def)
  have tlb: "phys_mem e' = phys_mem e \<and> frame e' = frame e" if "tlb_only e e'" for e e'
    by (subst that [unfolded tlb_only_def], subst (2) that [unfolded tlb_only_def]) (simp add: frame_def)
  have "mem_ad 3 (phys_mem env) (phys_mem env') \<and> frame env' = env"
  proof (cases "cr env 0 AND CR0_PG_MASK_64 = 0")
    case True
    then obtain e where "cpu_x86_handle_mmu_fault sect dirty env addr w m = Done (e, 0)" "tlb_only env e"
      by (rule handler_off)
    then show ?thesis using assms(2) tlb [of env e] self by (simp add: mem_ad_refl)
  next
    case False
    then show ?thesis
    proof (cases rule: handler_on [where sect = sect and dirty = dirty and addr = addr and w = w and m = m])
      case (fault env1 env2)
      have "intercept_exceptions env1 AND 0x4000 = 0" using fault(3) assms(1) by (auto simp: ad_update_def)
      then have "phys_mem env2 = phys_mem env1" "frame env2 = frame env1"
        using fault(4) by (auto simp: page_fault_def Let_def frame_def)
      then show ?thesis
        using fault(1) assms(2) ad [OF fault(3)] ad_update_mem [OF fault(3)] by simp
    next
      case (mapped env1 pg prot env2)
      then show ?thesis
        using mapped(1) assms(2) ad [OF mapped(3)] tlb [OF mapped(5)] ad_update_mem [OF mapped(3)] by simp
    qed
  qed
  moreover have "phys_mem env a AND NOT (phys_mem env' a) = 0"
    if "mem_ad 3 (phys_mem env) (phys_mem env')" for a
    using that by (auto simp: mem_ad_def bit_eq_iff bit_and_iff bit_not_iff)
  ultimately show ?thesis by (auto simp: mem_ad_def frame_def)
qed

lemma handler_done:
  obtains env' r where "cpu_x86_handle_mmu_fault sect dirty env addr w m = Done (env', r)"
proof (cases "cr env 0 AND CR0_PG_MASK_64 = 0")
  case True
  then show ?thesis by (rule handler_off [where sect = sect and dirty = dirty and addr = addr and w = w and m = m]) (use that in blast)
next
  case False
  then show ?thesis
    by (cases rule: handler_on [where sect = sect and dirty = dirty and addr = addr and w = w and m = m]) (use that in blast)+
qed

text \<open>A two-level table at 0x1000 mapping the first page to 0x3000, and a long-mode table mapping a 2MB page.\<close>

definition legacy_demo :: cpu_state where
  "legacy_demo = zero_env\<lparr>a20_mask := -1, cr := (\<lambda>_. 0)(0 := 0x80000001, 3 := 0x1000),
     phys_mem := (\<lambda>_. 0)(0x1000 := 0x07, 0x1001 := 0x20, 0x2000 := 0x07, 0x2001 := 0x30)\<rparr>"

definition long_demo :: cpu_state where
  "long_demo = zero_env\<lparr>a20_mask := -1, hflags := HF_LMA_MASK,
     cr := (\<lambda>_. 0)(0 := 0x80000001, 3 := 0x1000, 4 := CR4_PAE_MASK),
     phys_mem := (\<lambda>_. 0)(0x1000 := 0x07, 0x1001 := 0x20, 0x2000 := 0x07, 0x2001 := 0x30,
       0x3000 := 0x87, 0x3002 := 0x40)\<rparr>"

lemma page_walk_only_sets_ad_witness:
  "\<exists>env' r. cpu_x86_handle_mmu_fault ram_section (\<lambda>_. True) legacy_demo 0x123 1 1 = Done (env', r)
    \<and> phys_mem env' 0x1001 = 0x20"
proof -
  obtain env' r where d: "cpu_x86_handle_mmu_fault ram_section (\<lambda>_. True) legacy_demo 0x123 1 1 = Done (env', r)"
    by (rule handler_done)
  have "intercept_exceptions legacy_demo AND 0x4000 = 0" by (simp add: legacy_demo_def zero_env_def)
  from page_walk_only_sets_ad [OF this d] have "if (0x1001 :: u64) AND 3 = 0 then True
      else phys_mem env' 0x1001 = phys_mem legacy_demo 0x1001" by blast
  then have "phys_mem env' 0x1001 = 0x20" by (simp add: legacy_demo_def)
  with d show ?thesis by blast
qed

text \<open>The entries of the tables that grant or deny the access, from the root down.\<close>

definition table_entries :: "cpu_state \<Rightarrow> target_ulong \<Rightarrow> u64 list" where
  "table_entries env addr =
    (if cr env 4 AND CR4_PAE_MASK \<noteq> 0 then
       (if hflags env AND HF_LMA_MASK \<noteq> 0 then [pml4_entry env addr, pdp_entry env addr] else [])
       @ (if pd_entry env addr AND PG_PSE_MASK \<noteq> 0 then [pd_entry env addr] else [pd_entry env addr, pt_entry env addr])
     else if legacy_large env addr then [legacy_pd env addr]
     else [legacy_pd env addr, legacy_pt env addr])"

text \<open>The architecture's rule for one entry and a user-mode access.\<close>

definition user_may :: "cpu_state \<Rightarrow> u32 \<Rightarrow> u64 \<Rightarrow> bool" where
  "user_may env w e \<longleftrightarrow> e AND PG_PRESENT_MASK \<noteq> 0 \<and> e AND PG_USER_MASK \<noteq> 0
    \<and> (w AND 1 \<noteq> 0 \<longrightarrow> e AND PG_RW_MASK \<noteq> 0)
    \<and> (e AND PG_NX_MASK \<noteq> 0 \<longrightarrow> efer env AND MSR_EFER_NXE \<noteq> 0 \<and> w \<noteq> 2)"

lemma entry_stop_None: "entry_stop env e = None \<longleftrightarrow>
  e AND PG_PRESENT_MASK \<noteq> 0 \<and> (e AND PG_NX_MASK \<noteq> 0 \<longrightarrow> efer env AND MSR_EFER_NXE \<noteq> 0)"
  by (auto simp: entry_stop_def)

lemma protect_user: "protect_fault env 1 w p \<longleftrightarrow> \<not> bit p 2 \<or> (w AND 1 \<noteq> 0 \<and> \<not> bit p 1)"
  unfolding protect_fault_def pg_bits by (auto simp: Let_def)

lemma legacy_no_nx: "\<not> bit (legacy_pd env addr) 63" "\<not> bit (legacy_pt env addr) 63"
  by (simp_all add: legacy_pd_def legacy_pt_def bit_unsigned_iff) (auto dest: bit_imp_le_length)

definition root_ok :: "cpu_state \<Rightarrow> target_ulong \<Rightarrow> bool" where
  "root_ok env addr =
    (if cr env 4 AND CR4_PAE_MASK = 0 then True
     else if hflags env AND HF_LMA_MASK \<noteq> 0 then canonical addr
     else pdp_entry env addr AND PG_PRESENT_MASK \<noteq> 0)"

lemma nx_bits:
  "bit (PG_NX_MASK :: u64) 63" "\<not> bit (PG_NX_MASK :: u64) 1" "\<not> bit (PG_NX_MASK :: u64) 2"
  "\<not> bit (PG_USER_MASK :: u64) 63" "\<not> bit (PG_USER_MASK :: u64) 1" "bit (PG_USER_MASK :: u64) 2"
  "\<not> bit (PG_RW_MASK :: u64) 63" "bit (PG_RW_MASK :: u64) 1" "\<not> bit (PG_RW_MASK :: u64) 2"
  by (simp_all add: bit_numeral_word_iff)

lemma upper_rights_bits:
  "hflags env AND HF_LMA_MASK = 0 \<Longrightarrow> n = 1 \<or> n = 2 \<or> n = 63 \<Longrightarrow> bit (upper_rights env addr) n"
  "hflags env AND HF_LMA_MASK \<noteq> 0 \<Longrightarrow> bit (upper_rights env addr) n \<longleftrightarrow>
    bit (pml4_entry env addr XOR PG_NX_MASK) n \<and> bit (pdp_entry env addr XOR PG_NX_MASK) n"
  by (auto simp: upper_rights_def bit_or_iff bit_and_iff nx_bits bit_numeral_word_iff)

lemma walk_ok_user: "walk_ok env addr w 1 \<longleftrightarrow> root_ok env addr \<and> list_all (user_may env w) (table_entries env addr)"
proof (cases "cr env 4 AND CR4_PAE_MASK = 0")
  case True
  then show ?thesis
    using legacy_no_nx [of env addr]
    unfolding walk_ok_def legacy_ok_def protect_user root_ok_def table_entries_def user_may_def pg_bits
    by (auto simp: bit_and_iff)
next
  case False
  note defs = walk_ok_def pae_ok_def upper_ok_def denied_def protect_user root_ok_def table_entries_def
    user_may_def pd_rights_def entry_stop_None pg_bits
  note bits = bit_and_iff bit_xor_iff nx_bits simp_thms if_True if_False append.simps list.pred_inject
  show ?thesis
  proof (cases "hflags env AND HF_LMA_MASK = 0")
    case True
    then have u: "bit (upper_rights env addr) 1" "bit (upper_rights env addr) 2" "bit (upper_rights env addr) 63"
      by (simp_all add: upper_rights_bits)
    show ?thesis
      using False True u unfolding defs
      by (cases "bit (pd_entry env addr) 7"; simp only: bits; blast)
  next
    case 2: False
    note u = upper_rights_bits(2) [OF 2, of addr]
    show ?thesis
      using False 2 unfolding defs bit_and_iff bit_xor_iff u
      by (cases "bit (pd_entry env addr) 7"; simp only: bits; blast)
  qed
qed


text \<open>C18. With paging on, a user-mode access is let through exactly when the address is canonical (in long
  mode), the root entry of a PAE table is present, and every entry of the walk is present, allows user access,
  allows writing if the access writes, and does not forbid execution if it is an instruction fetch (a set NX bit
  without EFER.NXE is a reserved-bit fault): the rule of the architecture, whatever the page size and the depth.\<close>

theorem user_access_iff:
  assumes "cr env 0 AND CR0_PG_MASK_64 \<noteq> 0"
    and "cpu_x86_handle_mmu_fault sect dirty env addr w MMU_USER_IDX = Done (env', r)"
  shows "r = 0 \<longleftrightarrow> root_ok env addr \<and> list_all (user_may env w) (table_entries env addr)"
  using handler_on [OF assms(1), of sect dirty addr w 1] assms(2) walk_ok_user [of env addr w]
  by (metis One_nat_def Pair_inject outcome.inject(1) zero_neq_one)

lemma long_demo_entries:
  "pml4_entry long_demo 0x1234 = 0x2007" "pdp_entry long_demo 0x1234 = 0x3007" "pd_entry long_demo 0x1234 = 0x400087"
proof -
  show 1: "pml4_entry long_demo 0x1234 = 0x2007"
    by (simp add: long_demo_def pml4_entry_def entry_addr_def a20_def ldq_phys_def ldl_phys_def)
  show 2: "pdp_entry long_demo 0x1234 = 0x3007"
    unfolding pdp_entry_def 1 by (simp add: long_demo_def next_entry_def entry_addr_def a20_def ldq_phys_def ldl_phys_def)
  show "pd_entry long_demo 0x1234 = 0x400087"
    unfolding pd_entry_def 2 by (simp add: long_demo_def next_entry_def entry_addr_def a20_def ldq_phys_def ldl_phys_def)
qed

lemma long_demo_flags:
  "cr long_demo 4 = CR4_PAE_MASK" "cr long_demo 0 = 0x80000001" "hflags long_demo = HF_LMA_MASK" "a20_mask long_demo = -1"
  by (simp_all add: long_demo_def)

lemma long_demo_eval: "root_ok long_demo 0x1234 \<and> list_all (user_may long_demo 1) (table_entries long_demo 0x1234)"
  by (simp add: root_ok_def table_entries_def long_demo_entries long_demo_flags canonical_def user_may_def)

lemma user_access_iff_witness:
  "\<exists>env'. cpu_x86_handle_mmu_fault ram_section (\<lambda>_. True) long_demo 0x1234 1 1 = Done (env', 0)"
proof -
  obtain env' r where d: "cpu_x86_handle_mmu_fault ram_section (\<lambda>_. True) long_demo 0x1234 1 1 = Done (env', r)"
    by (rule handler_done)
  have "cr long_demo 0 AND CR0_PG_MASK_64 \<noteq> 0" by (simp add: long_demo_def)
  from user_access_iff [OF this d] have "r = 0" by (simp add: long_demo_eval)
  with d show ?thesis by blast
qed

subsection \<open>The debugger's walk\<close>

text \<open>Bits 40 to 51, which the handler ignores and the debugger's walk reads.\<close>

definition high_clear :: "u64 \<Rightarrow> bool" where
  "high_clear e \<longleftrightarrow> e AND 0xFFF0000000000 = 0"

lemma high_clear_bits: "high_clear e \<Longrightarrow> 40 \<le> n \<Longrightarrow> n < 52 \<Longrightarrow> \<not> bit e n"
proof -
  assume h: "high_clear e" and n: "40 \<le> n" "n < 52"
  have "(0xFFF0000000000 :: u64) = push_bit 40 (mask 12)" by (simp add: mask_eq_exp_minus_1 push_bit_eq_mult)
  then have "bit (0xFFF0000000000 :: u64) n" using n by (simp only: bit_push_bit_iff bit_mask_iff possible_bit_word) auto
  then show "\<not> bit e n" using h by (metis high_clear_def bit_and_iff bit_0_eq bot_apply bot_bool_def)
qed

lemma bit_phys_mask: "bit (PHYS_ADDR_MASK :: u64) n \<longleftrightarrow> 12 \<le> n \<and> n < 40"
proof -
  have m: "(PHYS_ADDR_MASK :: u64) = push_bit 12 (mask 28)" by (simp add: mask_eq_exp_minus_1 push_bit_eq_mult)
  show ?thesis unfolding m by (auto simp: bit_push_bit_iff bit_mask_iff)
qed

lemma bit_debug_mask: "bit (NOT (PG_NX_MASK OR PG_HI_USER_MASK) :: u64) n \<longleftrightarrow> n < 52"
proof -
  have m: "(NOT (PG_NX_MASK OR PG_HI_USER_MASK) :: u64) = mask 52" by (simp add: mask_eq_exp_minus_1)
  show ?thesis unfolding m by (auto simp: bit_mask_iff)
qed

lemma bit_not_fff: "bit (NOT 0xfff :: u64) n \<longleftrightarrow> 12 \<le> n \<and> n < 64"
proof -
  have m: "(0xfff :: u64) = mask 12" by (simp add: mask_eq_exp_minus_1)
  show ?thesis unfolding m by (auto simp: bit_not_iff bit_mask_iff)
qed

lemma debug_mask:
  assumes "high_clear e"
  shows "(e AND NOT 0xfff) AND NOT (PG_NX_MASK OR PG_HI_USER_MASK) = e AND PHYS_ADDR_MASK"
proof (rule bit_word_eqI)
  fix n
  show "bit ((e AND NOT 0xfff) AND NOT (PG_NX_MASK OR PG_HI_USER_MASK)) n = bit (e AND PHYS_ADDR_MASK) n"
    using high_clear_bits [OF assms, of n] bit_imp_le_length [of e n]
    by (cases "n < 40"; simp only: bit_and_iff bit_debug_mask bit_phys_mask bit_not_fff; auto)
qed

lemma debug_mask_large:
  assumes "high_clear e"
  shows "((e AND NOT 0x1ff000) AND NOT (PG_NX_MASK OR PG_HI_USER_MASK)) AND TARGET_PAGE_MASK
    = e AND (PHYS_ADDR_MASK AND NOT 0x1fffff)"
proof -
  have "((e AND NOT 0x1ff000) AND NOT (PG_NX_MASK OR PG_HI_USER_MASK)) AND TARGET_PAGE_MASK
      = ((e AND NOT 0xfff) AND NOT (PG_NX_MASK OR PG_HI_USER_MASK)) AND NOT 0x1fffff"
    by (simp add: and.assoc)
  also have "\<dots> = (e AND PHYS_ADDR_MASK) AND NOT 0x1fffff" using debug_mask [OF assms] by simp
  finally show ?thesis by (simp only: and.assoc)
qed

lemma debug_pdpe_ok:
  assumes "upper_ok env addr" "hflags env AND HF_LMA_MASK \<noteq> 0 \<Longrightarrow> high_clear (pml4_entry env addr)"
  shows "debug_pdpe env addr = Some (pdp_entry env addr)"
proof (cases "hflags env AND HF_LMA_MASK = 0")
  case True
  with assms(1) show ?thesis by (simp add: debug_pdpe_def upper_ok_def pdp_entry_def Let_def)
next
  case False
  note h = debug_mask [OF assms(2) [OF False]]
  have e1: "ldq_phys env (((cr env 3 AND NOT 0xfff) + push_bit 3 (drop_bit 39 addr AND 0x1ff)) AND a20 env)
      = pml4_entry env addr" by (simp add: pml4_entry_def entry_addr_def)
  have e2: "ldq_phys env (((pml4_entry env addr AND PHYS_ADDR_MASK) + push_bit 3 (drop_bit 30 addr AND 0x1ff)) AND a20 env)
      = pdp_entry env addr" using False by (simp add: pdp_entry_def next_entry_def entry_addr_def)
  show ?thesis
    using assms(1) False unfolding debug_pdpe_def Let_def e1 h e2
    by (auto simp: upper_ok_def entry_stop_None canonical_def)
qed

lemma debug_pae_ok:
  assumes ok: "pae_ok env addr w m" and pae: "cr env 4 AND CR4_PAE_MASK \<noteq> 0"
    and h: "list_all high_clear (pdp_entry env addr # table_entries env addr)"
  shows "\<exists>pte size'. debug_pte_pae env addr = Some (pte, size') \<and>
    (if pd_entry env addr AND PG_PSE_MASK \<noteq> 0
     then pte AND TARGET_PAGE_MASK = pd_entry env addr AND (PHYS_ADDR_MASK AND NOT 0x1fffff) \<and> size' = 0x200000
     else pte AND TARGET_PAGE_MASK = pt_entry env addr AND PHYS_ADDR_MASK \<and> size' = 0x1000)"
proof -
  have up: "debug_pdpe env addr = Some (pdp_entry env addr)"
    using ok h pae by (intro debug_pdpe_ok) (auto simp: pae_ok_def table_entries_def)
  have pd: "ldq_phys env (((pdp_entry env addr AND PHYS_ADDR_MASK) + push_bit 3 (drop_bit 21 addr AND 0x1ff)) AND a20 env)
      = pd_entry env addr" by (simp add: pd_entry_def next_entry_def entry_addr_def)
  have pt: "ldq_phys env (((pd_entry env addr AND PHYS_ADDR_MASK) + push_bit 3 (drop_bit 12 addr AND 0x1ff)) AND a20 env)
      = pt_entry env addr" by (simp add: pt_entry_def next_entry_def entry_addr_def)
  have hp: "high_clear (pdp_entry env addr)" "high_clear (pd_entry env addr)"
    "pd_entry env addr AND PG_PSE_MASK = 0 \<Longrightarrow> high_clear (pt_entry env addr)"
    using h pae by (auto simp: table_entries_def split: if_splits)
  have pres: "pd_entry env addr AND PG_PRESENT_MASK \<noteq> 0" using ok by (simp add: pae_ok_def entry_stop_None)
  have low: "(e AND NOT 0x1ff000 AND NOT (PG_NX_MASK OR PG_HI_USER_MASK)) AND PG_PRESENT_MASK = e AND PG_PRESENT_MASK"
    "(e AND NOT (PG_NX_MASK OR PG_HI_USER_MASK)) AND PG_PRESENT_MASK = e AND PG_PRESENT_MASK"
    "(e AND NOT 0x1ff000) AND PG_PRESENT_MASK = e AND PG_PRESENT_MASK" for e :: u64
    by (simp_all add: and.assoc)
  show ?thesis
  proof (cases "pd_entry env addr AND PG_PSE_MASK = 0")
    case True
    have "pt_entry env addr AND PG_PRESENT_MASK \<noteq> 0" using ok True by (simp add: pae_ok_def entry_stop_None)
    moreover have "(pt_entry env addr AND NOT (PG_NX_MASK OR PG_HI_USER_MASK)) AND TARGET_PAGE_MASK
        = pt_entry env addr AND PHYS_ADDR_MASK"
      using debug_mask [OF hp(3) [OF True]] by (simp only: and.assoc and.commute [of "NOT (PG_NX_MASK OR PG_HI_USER_MASK)"])
    ultimately show ?thesis
      unfolding debug_pte_pae_def up option.case Let_def debug_mask [OF hp(1)] pd debug_mask [OF hp(2)] pt
      using True pres by (simp only: prod.case low if_False simp_thms if_True) blast
  next
    case False
    then show ?thesis
      unfolding debug_pte_pae_def up option.case Let_def debug_mask [OF hp(1)] pd
      using pres debug_mask_large [OF hp(2)] by (simp only: prod.case low if_False simp_thms if_True) blast
  qed
qed


lemma and_split: "m AND m' = 0 \<Longrightarrow> (a AND m) + (a AND m') = a AND (m OR m' :: 'a::len word)"
proof -
  assume d: "m AND m' = 0"
  have "\<not> bit (a AND m) n \<or> \<not> bit (a AND m') n" for n
    using d by (metis bit_and_iff bit_0_eq bot_apply bot_bool_def)
  then have "(a AND m) + (a AND m') = (a AND m) OR (a AND m')" by (rule disjunctive_add)
  then show ?thesis by (simp only: bit.conj_disj_distrib)
qed

lemma map_vaddr_page:
  assumes "walk_page_ok env addr pg"
  shows "map_vaddr addr pg = addr AND TARGET_PAGE_MASK"
proof -
  have "(addr AND NOT 0x1fffff) + ((addr AND TARGET_PAGE_MASK) AND 0x1fffff) = addr AND TARGET_PAGE_MASK"
    "(addr AND NOT 0x3fffff) + ((addr AND TARGET_PAGE_MASK) AND 0x3fffff) = addr AND TARGET_PAGE_MASK"
    by (simp_all add: and.assoc and_split)
  then show ?thesis
    using assms by (auto simp: walk_page_ok_def pae_page_def legacy_page_def map_vaddr_def and.assoc split: if_splits)
qed

lemma debug_phys:
  assumes ok: "walk_ok env addr w m" and pg: "walk_page_ok env addr pg"
    and on: "cr env 0 AND CR0_PG_MASK_64 \<noteq> 0" and a: "a20 env = -1"
    and h: "cr env 4 AND CR4_PAE_MASK \<noteq> 0 \<Longrightarrow> list_all high_clear (pdp_entry env addr # table_entries env addr)"
  shows "cpu_get_phys_page_debug env addr
    = (w_pte pg AND TARGET_PAGE_MASK) + ((addr AND TARGET_PAGE_MASK) AND (w_size pg - 1))"
proof (cases "cr env 4 AND CR4_PAE_MASK = 0")
  case True
  have pd: "(ucast (ldl_phys env (((cr env 3 AND NOT 0xfff) + (drop_bit 20 addr AND 0xffc)) AND a20 env)) :: u64) = legacy_pd env addr"
    by (simp add: legacy_pd_def entry_addr4_def)
  have pt: "(ucast (ldl_phys env (((legacy_pd env addr AND NOT 0xfff) + (drop_bit 10 addr AND 0xffc)) AND a20 env)) :: u64) = legacy_pt env addr"
    by (simp add: legacy_pt_def entry_addr4_def)
  have lo: "legacy_ok env addr w m" "legacy_page env addr pg"
    using ok pg True by (simp_all add: walk_ok_def walk_page_ok_def)
  have "debug_pte_legacy env addr = (if legacy_large env addr
      then Some (legacy_pd env addr AND NOT 0x3ff000, 0x400000) else Some (legacy_pt env addr, 0x1000))"
    using on lo(1) unfolding debug_pte_legacy_def Let_def pd pt unfolding a
    by (auto simp: legacy_ok_def legacy_large_def)
  then show ?thesis
    using True lo(2) legacy_masks [of "legacy_pd env addr"]
    by (auto simp: cpu_get_phys_page_debug_def legacy_page_def split: if_splits)
next
  case False
  have lo: "pae_ok env addr w m" "pae_page env addr pg"
    using ok pg False by (simp_all add: walk_ok_def walk_page_ok_def)
  from debug_pae_ok [OF lo(1) False h [OF False]] lo(2) False show ?thesis
    by (auto simp: cpu_get_phys_page_debug_def pae_page_def split: if_splits)
qed

text \<open>C20. The debugger's page walk agrees with the hardware's: when an access is let through, with the A20 gate
  open, paging on or PAE off, and (in PAE and long mode) no entry of the walk using physical address bits 40 to
  51, the frame \<open>cpu_get_phys_page_debug\<close> computes from the tables as they were before the access is the one
  the fault handler enters into the TLB for the page of the address.\<close>

theorem debug_walk_agrees:
  assumes "cpu_x86_handle_mmu_fault sect dirty env addr w m = Done (env', 0)"
    and "a20_mask env = -1"
    and "cr env 0 AND CR0_PG_MASK_64 \<noteq> 0 \<or> cr env 4 AND CR4_PAE_MASK = 0"
    and "cr env 4 AND CR4_PAE_MASK \<noteq> 0 \<Longrightarrow> list_all high_clear (pdp_entry env addr # table_entries env addr)"
  shows "\<exists>env1 prot size'. ad_update 3 env env1 \<and>
    tlb_set_page sect dirty env1 (addr AND TARGET_PAGE_MASK) (cpu_get_phys_page_debug env addr) prot m size' = Done env'"
proof -
  have a: "a20 env = -1" using assms(2) by (simp add: a20_def)
  show ?thesis
  proof (cases "cr env 0 AND CR0_PG_MASK_64 = 0")
    case True
    then have "cr env 4 AND CR4_PAE_MASK = 0" using assms(3) by blast
    then have d: "cpu_get_phys_page_debug env addr = addr AND TARGET_PAGE_MASK"
      using True by (simp add: cpu_get_phys_page_debug_def debug_pte_legacy_def a and.assoc)
    from handler_off [OF True, of sect dirty addr w m] obtain e where
      "cpu_x86_handle_mmu_fault sect dirty env addr w m = Done (e, 0)"
      "tlb_set_page sect dirty env (addr AND TARGET_PAGE_MASK) ((addr AND a20 env) AND TARGET_PAGE_MASK)
        (PAGE_READ OR PAGE_WRITE OR PAGE_EXEC) m 0x1000 = Done e" by blast
    then show ?thesis unfolding d using assms(1) a
      by (intro exI [of _ env] exI [of _ "PAGE_READ OR PAGE_WRITE OR PAGE_EXEC"] exI [of _ "0x1000"]) simp
  next
    case False
    show ?thesis
    proof (cases rule: handler_on [OF False, of sect dirty addr w m])
      case 1
      then show ?thesis using assms(1) by simp
    next
      case (2 env1 pg prot e)
      have "a20 env1 = -1" using a ad_update_fields [OF 2(3)] by (simp add: a20_def)
      then have "map_paddr env1 addr pg = cpu_get_phys_page_debug env addr"
        using debug_phys [OF 2(2,4) False a assms(4)] by (simp add: map_paddr_def)
      then show ?thesis
        using 2(1,3,6) assms(1) map_vaddr_page [OF 2(4)] by auto
    qed
  qed
qed

lemma debug_walk_agrees_witness:
  "\<exists>env' env1 prot size'. cpu_x86_handle_mmu_fault ram_section (\<lambda>_. True) long_demo 0x1234 1 1 = Done (env', 0) \<and>
    tlb_set_page ram_section (\<lambda>_. True) env1 0x1000 (cpu_get_phys_page_debug long_demo 0x1234) prot 1 size' = Done env'"
proof -
  have on: "cr long_demo 0 AND CR0_PG_MASK_64 \<noteq> 0" by (simp add: long_demo_flags)
  have "walk_ok long_demo 0x1234 1 1" using walk_ok_user long_demo_eval by blast
  with handler_on [OF on, of ram_section "\<lambda>_. True" "0x1234" 1 1] obtain env' where
    d: "cpu_x86_handle_mmu_fault ram_section (\<lambda>_. True) long_demo 0x1234 1 1 = Done (env', 0)" by metis
  have "list_all high_clear (pdp_entry long_demo 0x1234 # table_entries long_demo 0x1234)"
    by (simp add: table_entries_def long_demo_entries long_demo_flags high_clear_def)
  from debug_walk_agrees [OF d long_demo_flags(4) disjI1 [OF on] this] d show ?thesis by auto
qed

text \<open>
  With paging off and CR4.PAE set (legal: software enables PAE before paging) the handler maps the address to
  itself, while the debugger's walk reads page tables.
\<close>

lemma debug_walk_pae_paging_off:
  "let env = zero_env\<lparr>a20_mask := -1, cr := (\<lambda>_. 0)(0 := 1, 4 := CR4_PAE_MASK)\<rparr> in
    cpu_get_phys_page_debug env 0x5123 = -1 \<and>
    (\<exists>env'. cpu_x86_handle_mmu_fault ram_section (\<lambda>_. True) env 0x5123 0 0 = Done (env', 0) \<and>
      tlb_set_page ram_section (\<lambda>_. True) env 0x5000 0x5000 7 0 0x1000 = Done env')"
proof -
  let ?env = "zero_env\<lparr>a20_mask := -1, cr := (\<lambda>_. 0)(0 := 1, 4 := CR4_PAE_MASK)\<rparr>"
  have "ldq_phys ?env a = 0" for a by (simp add: ldq_phys_def ldl_phys_def zero_env_def)
  then have "cpu_get_phys_page_debug ?env 0x5123 = -1"
    by (simp add: cpu_get_phys_page_debug_def debug_pte_pae_def debug_pdpe_def Let_def)
  moreover have "cr ?env 0 AND CR0_PG_MASK_64 = 0" by simp
  then obtain env' where "cpu_x86_handle_mmu_fault ram_section (\<lambda>_. True) ?env 0x5123 0 0 = Done (env', 0)"
    "tlb_set_page ram_section (\<lambda>_. True) ?env (0x5123 AND TARGET_PAGE_MASK) ((0x5123 AND a20 ?env) AND TARGET_PAGE_MASK)
       (PAGE_READ OR PAGE_WRITE OR PAGE_EXEC) 0 0x1000 = Done env'"
    by (rule handler_off)
  ultimately show ?thesis by (simp add: a20_def Let_def)
qed

end
