(* ===== verification/ControlRegsInv.thy ===== *)
theory ControlRegsInv
  imports ControlRegs MmuWalk
begin

text \<open>
  Control register writes: the hidden flags stay copies of the registers (\<open>mirror_ok\<close>, \<open>cr_run\<close>), and the TLB
  is flushed whenever the meaning of the page tables changes (\<open>mapping\<close>).
\<close>

subsection \<open>The hidden flags mirror the control registers\<close>

definition mirror_ok :: "cpu_state \<Rightarrow> bool" where
  "mirror_ok env \<longleftrightarrow>
    bit (hflags env) 7 = bit (cr env 0) 0
    \<and> bit (hflags env) 9 = bit (cr env 0) 1 \<and> bit (hflags env) 10 = bit (cr env 0) 2 \<and> bit (hflags env) 11 = bit (cr env 0) 3
    \<and> bit (hflags env) 14 = bit (efer env) 10 \<and> bit (hflags env) 20 = bit (efer env) 12
    \<and> bit (hflags env) 22 = bit (cr env 4) 9 \<and> bit (hflags env) 23 = bit (cr env 4) 21
    \<and> (bit (cr env 4) 21 \<longrightarrow> cpuid_7_0_ebx_features env AND CPUID_7_0_EBX_SMAP \<noteq> 0)"

lemma tlb_flush_regs [simp]:
  "cr (tlb_flush env) = cr env" "hflags (tlb_flush env) = hflags env" "efer (tlb_flush env) = efer env"
  "cpuid_features (tlb_flush env) = cpuid_features env" "cpuid_7_0_ebx_features (tlb_flush env) = cpuid_7_0_ebx_features env"
  "a20_mask (tlb_flush env) = a20_mask env" "phys_mem (tlb_flush env) = phys_mem env"
  by (simp_all add: tlb_flush_def)

text \<open>Single bits of the flag words the updates compute.\<close>

lemma flag_bits:
  "bit (h OR 0x4000 :: u32) n \<longleftrightarrow> bit h n \<or> n = 14"
  "bit (h AND NOT (0x4000 OR 0x8000) :: u32) n \<longleftrightarrow> bit h n \<and> n \<noteq> 14 \<and> n \<noteq> 15"
  "bit (e OR 0x400 :: u64) n \<longleftrightarrow> bit e n \<or> n = 10"
  "bit (e AND NOT 0x400 :: u64) n \<longleftrightarrow> bit e n \<and> n \<noteq> 10"
proof -
  have m: "(0x4000 :: u32) = push_bit 14 1" "(0x8000 :: u32) = push_bit 15 1" "(0x400 :: u64) = push_bit 10 1"
    by (simp_all add: push_bit_eq_mult)
  show "bit (h OR 0x4000 :: u32) n \<longleftrightarrow> bit h n \<or> n = 14"
    "bit (h AND NOT (0x4000 OR 0x8000) :: u32) n \<longleftrightarrow> bit h n \<and> n \<noteq> 14 \<and> n \<noteq> 15"
    "bit (e OR 0x400 :: u64) n \<longleftrightarrow> bit e n \<or> n = 10"
    "bit (e AND NOT 0x400 :: u64) n \<longleftrightarrow> bit e n \<and> n \<noteq> 10"
    unfolding m bit_or_iff bit_and_iff bit_not_iff bit_push_bit_iff bit_1_iff
    by (auto dest: bit_imp_le_length)
qed

lemma long_mode_switch_mirror:
  assumes "long_mode_switch env n = (env', b)" "mirror_ok env"
  shows "mirror_ok env' \<and> cr env' = cr env"
proof -
  consider "env' = env" | "env' = env\<lparr>efer := efer env OR MSR_EFER_LMA, hflags := hflags env OR HF_LMA_MASK\<rparr>"
    | "env' = env\<lparr>efer := efer env AND NOT MSR_EFER_LMA,
          hflags := hflags env AND NOT (HF_LMA_MASK OR HF_CS64_MASK), eip := eip env AND 0xffffffff\<rparr>"
    using assms(1) unfolding long_mode_switch_def by (metis prod.inject)
  then show ?thesis
    by cases (use assms(2) in \<open>simp_all add: mirror_ok_def flag_bits [simplified]\<close>)
qed

lemma update_cr0_mirror:
  assumes "mirror_ok env" shows "mirror_ok (cpu_x86_update_cr0 env n)"
proof -
  let ?e = "if (ucast (n AND (CR0_PG_MASK OR CR0_WP_MASK OR CR0_PE_MASK)) :: u64)
                   \<noteq> cr env 0 AND (CR0_PG_MASK_64 OR CR0_WP_MASK OR CR0_PE_MASK)
                then tlb_flush env else env"
  have e: "mirror_ok ?e" using assms by (simp add: mirror_ok_def)
  obtain e1 b where s: "long_mode_switch ?e n = (e1, b)" by fastforce
  note m = long_mode_switch_mirror [OF s e]
  show ?thesis
  proof (cases b)
    case True
    then show ?thesis using m s by (simp add: cpu_x86_update_cr0_def Let_def)
  next
    case False
    have "cpu_x86_update_cr0 env n = e1\<lparr>cr := (cr e1)(0 := ucast (n OR CR0_ET_MASK)),
        hflags := cr0_hflags (hflags e1) (ucast ((ucast (n OR CR0_ET_MASK) :: u64) AND CR0_PE_MASK)) n\<rparr>"
      using s False by (simp add: cpu_x86_update_cr0_def Let_def)
    then show ?thesis
      using m by (simp add: mirror_ok_def cr0_hflags_def Let_def vx_bits)
  qed
qed

lemma update_cr3_mirror: "mirror_ok env \<Longrightarrow> mirror_ok (cpu_x86_update_cr3 env v)"
  by (simp add: cpu_x86_update_cr3_def mirror_ok_def Let_def)

lemma if_flag_bits:
  "bit (if c then h OR m else h :: u32) n \<longleftrightarrow> bit h n \<or> c \<and> bit m n"
  by (simp add: bit_or_iff)

lemma cr4_bits:
  "bit ((h AND NOT HF_OSFXSR_MASK :: u32)) n \<longleftrightarrow> bit h n \<and> n \<noteq> 22"
  "bit ((h AND NOT HF_SMAP_MASK :: u32)) n \<longleftrightarrow> bit h n \<and> n \<noteq> 23"
  "bit (HF_OSFXSR_MASK :: u32) n \<longleftrightarrow> n = 22" "bit (HF_SMAP_MASK :: u32) n \<longleftrightarrow> n = 23"
  "(c AND CR4_OSFXSR_MASK \<noteq> 0) = bit (c :: u32) 9" "(c AND CR4_SMAP_MASK \<noteq> 0) = bit c 21"
  "bit (c AND NOT CR4_OSFXSR_MASK :: u32) n \<longleftrightarrow> bit c n \<and> n \<noteq> 9"
  "bit (c AND NOT CR4_SMAP_MASK :: u32) n \<longleftrightarrow> bit c n \<and> n \<noteq> 21"
proof -
  have m: "(HF_OSFXSR_MASK :: u32) = push_bit 22 1" "(HF_SMAP_MASK :: u32) = push_bit 23 1"
    "(CR4_OSFXSR_MASK :: u32) = push_bit 9 1" "(CR4_SMAP_MASK :: u32) = push_bit 21 1"
    by (simp_all add: push_bit_eq_mult)
  show "bit ((h AND NOT HF_OSFXSR_MASK :: u32)) n \<longleftrightarrow> bit h n \<and> n \<noteq> 22"
    "bit ((h AND NOT HF_SMAP_MASK :: u32)) n \<longleftrightarrow> bit h n \<and> n \<noteq> 23"
    "bit (HF_OSFXSR_MASK :: u32) n \<longleftrightarrow> n = 22" "bit (HF_SMAP_MASK :: u32) n \<longleftrightarrow> n = 23"
    "bit (c AND NOT CR4_OSFXSR_MASK :: u32) n \<longleftrightarrow> bit c n \<and> n \<noteq> 9"
    "bit (c AND NOT CR4_SMAP_MASK :: u32) n \<longleftrightarrow> bit c n \<and> n \<noteq> 21"
    unfolding m bit_and_iff bit_not_iff bit_push_bit_iff bit_1_iff by (auto dest: bit_imp_le_length)
  show "(c AND CR4_OSFXSR_MASK \<noteq> 0) = bit (c :: u32) 9" "(c AND CR4_SMAP_MASK \<noteq> 0) = bit c 21"
    unfolding m using and_pow_zero [of 9 c] and_pow_zero [of 21 c] by simp_all
qed

lemma if_hflags: "(if c then env\<lparr>hflags := x\<rparr> else env) = env\<lparr>hflags := (if c then x else hflags env)\<rparr>"
  by simp

lemma if_flush [simp]:
  "hflags (if c then tlb_flush env else env) = hflags env" "cr (if c then tlb_flush env else env) = cr env"
  "efer (if c then tlb_flush env else env) = efer env"
  "cpuid_features (if c then tlb_flush env else env) = cpuid_features env"
  "cpuid_7_0_ebx_features (if c then tlb_flush env else env) = cpuid_7_0_ebx_features env"
  by simp_all

lemma if_and_not: "bit (if c then h AND m else h :: u32) n \<longleftrightarrow> bit h n \<and> (c \<longrightarrow> bit m n)"
  by (simp add: bit_and_iff)

text \<open>The value CR4 gets, and the flags, of an update.\<close>

definition cr4_flush :: "cpu_state \<Rightarrow> u32 \<Rightarrow> bool" where
  "cr4_flush env n \<longleftrightarrow> (ucast n XOR cr env 4)
     AND (CR4_PGE_MASK OR CR4_PAE_MASK OR CR4_PSE_MASK OR CR4_SMEP_MASK OR CR4_SMAP_MASK) \<noteq> 0"

lemma update_cr4_form:
  obtains e h c where
    "cpu_x86_update_cr4 env n = e\<lparr>hflags := h, cr := (cr e)(4 := ucast (c :: u32))\<rparr>"
    "e = (if cr4_flush env n then tlb_flush env else env)"
    "\<And>k. bit h k = (if k = 22 then bit c 9 else if k = 23 then bit c 21 else bit (hflags env) k)"
    "\<And>k. k \<noteq> 9 \<Longrightarrow> k \<noteq> 21 \<Longrightarrow> bit c k = bit n k"
    "bit c 21 = (bit n 21 \<and> cpuid_7_0_ebx_features env AND CPUID_7_0_EBX_SMAP \<noteq> 0)"
proof -
  define c1 where "c1 = (if cpuid_features env AND CPUID_SSE = 0 then n AND NOT CR4_OSFXSR_MASK else n)"
  define c2 where "c2 = (if cpuid_7_0_ebx_features env AND CPUID_7_0_EBX_SMAP = 0 then c1 AND NOT CR4_SMAP_MASK else c1)"
  define h1 where "h1 = (if c1 AND CR4_OSFXSR_MASK \<noteq> 0 then (hflags env AND NOT HF_OSFXSR_MASK) OR HF_OSFXSR_MASK
      else hflags env AND NOT HF_OSFXSR_MASK)"
  define h2 where "h2 = (if c2 AND CR4_SMAP_MASK \<noteq> 0 then (h1 AND NOT HF_SMAP_MASK) OR HF_SMAP_MASK
      else h1 AND NOT HF_SMAP_MASK)"
  define e where "e = (if cr4_flush env n then tlb_flush env else env)"
  have "cpuid_features e = cpuid_features env" "hflags e = hflags env"
    "cpuid_7_0_ebx_features e = cpuid_7_0_ebx_features env" by (simp_all add: e_def)
  then have eq: "cpu_x86_update_cr4 env n = e\<lparr>hflags := h2, cr := (cr e)(4 := ucast c2)\<rparr>"
    unfolding cpu_x86_update_cr4_def cr4_flush_def [symmetric] e_def [symmetric] Let_def if_hflags
    by (simp add: c1_def [symmetric]) (simp add: c2_def h1_def h2_def)
  have b1: "bit h1 k = (if k = 22 then bit c1 9 else bit (hflags env) k)" for k
    unfolding h1_def if_flag_bits cr4_bits by auto
  have b3: "bit c2 9 = bit c1 9"
    unfolding c2_def by (simp add: cr4_bits [simplified])
  have b2: "bit h2 k = (if k = 22 then bit c2 9 else if k = 23 then bit c2 21 else bit (hflags env) k)" for k
    unfolding h2_def if_flag_bits cr4_bits b1 b3 by auto
  have b4: "bit c2 k = bit n k" if "k \<noteq> 9" "k \<noteq> 21" for k
    using that unfolding c2_def c1_def by (simp add: cr4_bits [simplified])
  have b5: "bit c2 21 = (bit n 21 \<and> cpuid_7_0_ebx_features env AND CPUID_7_0_EBX_SMAP \<noteq> 0)"
    unfolding c2_def c1_def by (simp add: cr4_bits [simplified])
  show ?thesis using that [OF eq e_def] b2 b4 b5 by blast
qed

lemma update_cr4_mirror:
  assumes m: "mirror_ok env" shows "mirror_ok (cpu_x86_update_cr4 env n)"
proof -
  obtain e h c where e: "cpu_x86_update_cr4 env n = e\<lparr>hflags := h, cr := (cr e)(4 := ucast (c :: u32))\<rparr>"
    and "cr e = cr env" "efer e = efer env" "cpuid_7_0_ebx_features e = cpuid_7_0_ebx_features env"
    and b: "\<And>k. bit h k = (if k = 22 then bit c 9 else if k = 23 then bit c 21 else bit (hflags env) k)"
    and s: "bit c 21 = (bit n 21 \<and> cpuid_7_0_ebx_features env AND CPUID_7_0_EBX_SMAP \<noteq> 0)"
  proof -
    obtain e h c where f: "cpu_x86_update_cr4 env n = e\<lparr>hflags := h, cr := (cr e)(4 := ucast (c :: u32))\<rparr>"
      "e = (if cr4_flush env n then tlb_flush env else env)"
      "\<And>k. bit h k = (if k = 22 then bit c 9 else if k = 23 then bit c 21 else bit (hflags env) k)"
      "\<And>k. k \<noteq> 9 \<Longrightarrow> k \<noteq> 21 \<Longrightarrow> bit c k = bit n k"
      "bit c 21 = (bit n 21 \<and> cpuid_7_0_ebx_features env AND CPUID_7_0_EBX_SMAP \<noteq> 0)"
      by (rule update_cr4_form [of env n]) (rule that; assumption)
    show ?thesis by (rule that [OF f(1) _ _ _ f(3,5)]) (simp_all add: f(2))
  qed
  then show ?thesis
    using m unfolding e mirror_ok_def by (simp add: bit_unsigned_iff)
qed

lemma a20_mirror: "mirror_ok env \<Longrightarrow> mirror_ok (x86_cpu_set_a20 env a)"
  by (simp add: x86_cpu_set_a20_def mirror_ok_def Let_def cpu_interrupt_def cpu_unlink_tb_def)

lemma load_efer_mirror:
  assumes "mirror_ok env" shows "mirror_ok (cpu_load_efer env v)"
proof -
  have b: "(v AND MSR_EFER_LMA \<noteq> 0) = bit v 10" "(v AND MSR_EFER_SVME \<noteq> 0) = bit v 12"
    using and_pow_zero [of 10 v] and_pow_zero [of 12 v] by simp_all
  have m: "(HF_LMA_MASK :: u32) = push_bit 14 1" "(HF_SVME_MASK :: u32) = push_bit 20 1"
    by (simp_all add: push_bit_eq_mult)
  define h where "h = hflags env AND NOT (HF_LMA_MASK OR HF_SVME_MASK)"
  define h1 where "h1 = (if bit v 10 then h OR HF_LMA_MASK else h)"
  define h2 where "h2 = (if bit v 12 then h1 OR HF_SVME_MASK else h1)"
  have "bit h2 k = (if k = 14 then bit v 10 else if k = 20 then bit v 12 else bit (hflags env) k)" for k
    unfolding h2_def h1_def h_def m if_flag_bits bit_and_iff bit_not_iff bit_or_iff bit_push_bit_iff bit_1_iff
    by (auto dest: bit_imp_le_length)
  moreover have "cpu_load_efer env v = env\<lparr>efer := v, hflags := h2\<rparr>"
    using b by (simp add: cpu_load_efer_def Let_def h2_def h1_def h_def)
  ultimately show ?thesis using assms by (simp add: mirror_ok_def)
qed

lemma clts_mirror: "mirror_ok env \<Longrightarrow> mirror_ok (helper_clts env)"
  by (auto simp: helper_clts_def mirror_ok_def Let_def vx_bits)


text \<open>A run of the operations that touch the control registers, from the state a reset leaves.\<close>

inductive cr_run :: "cpu_state \<Rightarrow> bool" where
  cr_reset: "hflags env AND NOT 0x4 = 0 \<Longrightarrow> cr env 0 = 0 \<Longrightarrow> cr env 4 = 0 \<Longrightarrow> efer env = 0 \<Longrightarrow>
    cr_run (cpu_x86_update_cr0 env 0x60000010)"
| cr_write: "cr_run env \<Longrightarrow> helper_write_crN env r v = Done env' \<Longrightarrow> cr_run env'"
| cr_lmsw: "cr_run env \<Longrightarrow> helper_lmsw env v = Done env' \<Longrightarrow> cr_run env'"
| cr_clts: "cr_run env \<Longrightarrow> cr_run (helper_clts env)"
| cr_efer: "cr_run env \<Longrightarrow> cr_run (cpu_load_efer env v)"
| cr_a20: "cr_run env \<Longrightarrow> cr_run (x86_cpu_set_a20 env a)"
| cr_other: "cr_run env \<Longrightarrow> cr env' = cr env \<Longrightarrow> efer env' = efer env \<Longrightarrow>
    cpuid_7_0_ebx_features env' = cpuid_7_0_ebx_features env \<Longrightarrow> hflags env' AND 0xD04E80 = hflags env AND 0xD04E80 \<Longrightarrow> cr_run env'"

lemma svm_check_done: "cpu_svm_check_intercept_param env t p = Done env' \<Longrightarrow> env' = env"
  by (auto simp: cpu_svm_check_intercept_param_def helper_svm_check_intercept_param_def split: if_splits)

lemma write_crN_mirror:
  assumes "helper_write_crN env r v = Done env'" "mirror_ok env"
  shows "mirror_ok env'"
proof -
  obtain e where e: "cpu_svm_check_intercept_param env (SVM_EXIT_WRITE_CR0 + of_nat r) 0 = Done e"
    using assms(1) by (auto simp: helper_write_crN_def bind_out_def split: outcome.splits)
  then have "e = env" by (rule svm_check_done)
  then have w: "(if r = 0 then Done (cpu_x86_update_cr0 env (ucast v))
             else if r = 3 then Done (cpu_x86_update_cr3 env v)
             else if r = 4 then Done (cpu_x86_update_cr4 env (ucast v))
             else if r = 8 then Abort
             else Done (env\<lparr>cr := (cr env)(r := v)\<rparr>)) = Done env'"
    using assms(1) e by (simp only: helper_write_crN_def bind_out_def outcome.case)
  consider "r = 0" | "r = 3" | "r = 4" | "r = 8" | "r \<notin> {0, 3, 4, 8}" by blast
  then show ?thesis
  proof cases
    case 5
    then have "env' = env\<lparr>cr := (cr env)(r := v)\<rparr>" using w by simp
    then show ?thesis using assms(2) 5 by (simp add: mirror_ok_def)
  qed (use w assms(2) update_cr0_mirror update_cr3_mirror update_cr4_mirror in auto)
qed

lemma cr_run_mirror: "cr_run env \<Longrightarrow> mirror_ok env"
proof (induction rule: cr_run.induct)
  case (cr_reset env)
  have m: "(0x4 :: u32) = push_bit 2 1" by (simp add: push_bit_eq_mult)
  have "\<not> bit (hflags env) k" if "k \<noteq> 2" for k
  proof
    assume "bit (hflags env) k"
    then have "bit (hflags env AND NOT 0x4) k"
      unfolding m bit_and_iff bit_not_iff bit_push_bit_iff bit_1_iff using that by (auto dest: bit_imp_le_length)
    then show False by (simp only: cr_reset(1) bit_0_eq bot_apply bot_bool_def)
  qed
  then have "mirror_ok env" using cr_reset by (simp add: mirror_ok_def)
  then show ?case by (rule update_cr0_mirror)
next
  case (cr_write env r v env')
  then show ?case using write_crN_mirror by blast
next
  case (cr_lmsw env v env')
  then show ?case using write_crN_mirror unfolding helper_lmsw_def Let_def by blast
next
  case (cr_clts env) then show ?case using clts_mirror by blast
next
  case (cr_efer env v) then show ?case using load_efer_mirror by blast
next
  case (cr_a20 env a) then show ?case using a20_mirror by blast
next
  case (cr_other env env')
  have b: "bit (0xD04E80 :: u32) 7" "bit (0xD04E80 :: u32) 9" "bit (0xD04E80 :: u32) 10" "bit (0xD04E80 :: u32) 11"
    "bit (0xD04E80 :: u32) 14" "bit (0xD04E80 :: u32) 20" "bit (0xD04E80 :: u32) 22" "bit (0xD04E80 :: u32) 23"
    by (simp_all add: bit_numeral_word_iff)
  have "bit (hflags env') k = bit (hflags env) k" if "bit (0xD04E80 :: u32) k" for k
    using arg_cong [OF cr_other(5), of "\<lambda>w. bit w k"] that by (simp only: bit_and_iff simp_thms)
  then show ?case using cr_other(2,3,4,6) b unfolding mirror_ok_def by metis
qed

text \<open>C23. After any sequence of control register writes, LMSW, CLTS, EFER loads and A20 changes from a reset, the
  hidden flags the translator keys its code on agree with the registers they copy: protected mode and MP/EM/TS
  with CR0, long mode and SVM enable with EFER, OSFXSR and SMAP with CR4.\<close>

theorem hidden_flags_mirror:
  assumes "cr_run env"
  shows "bit (hflags env) 7 = bit (cr env 0) 0
    \<and> bit (hflags env) 9 = bit (cr env 0) 1 \<and> bit (hflags env) 10 = bit (cr env 0) 2 \<and> bit (hflags env) 11 = bit (cr env 0) 3
    \<and> bit (hflags env) 14 = bit (efer env) 10 \<and> bit (hflags env) 20 = bit (efer env) 12
    \<and> bit (hflags env) 22 = bit (cr env 4) 9 \<and> bit (hflags env) 23 = bit (cr env 4) 21"
  using cr_run_mirror [OF assms] unfolding mirror_ok_def by blast

lemma reset_cr_run: "cr_run (cpu_x86_update_cr0 zero_env 0x60000010)"
  by (rule cr_reset) (simp_all add: zero_env_def)

lemma hidden_flags_mirror_witness:
  "bit (hflags (cpu_x86_update_cr0 zero_env 0x60000010)) 7 = bit (cr (cpu_x86_update_cr0 zero_env 0x60000010) 0) 0"
  using hidden_flags_mirror [OF reset_cr_run] by blast

subsection \<open>No stale translation\<close>

text \<open>What the page tables say about an access, and whether they are consulted at all.\<close>

definition mapping :: "cpu_state \<Rightarrow> target_ulong \<Rightarrow> u32 \<Rightarrow> nat \<Rightarrow> (bool \<times> u64 list) option" where
  "mapping env addr w m =
    (if cr env 0 AND CR0_PG_MASK_64 = 0 then None else Some (walk_ok env addr w m, table_entries env addr))"

definition same_paging :: "cpu_state \<Rightarrow> cpu_state \<Rightarrow> bool" where
  "same_paging env env' \<longleftrightarrow> phys_mem env' = phys_mem env \<and> a20_mask env' = a20_mask env \<and> cr env' 3 = cr env 3
    \<and> efer env' = efer env \<and> hflags env' AND HF_LMA_MASK = hflags env AND HF_LMA_MASK
    \<and> cr env' 0 AND CR0_WP_MASK = cr env 0 AND CR0_WP_MASK
    \<and> cr env' 4 AND CR4_PAE_MASK = cr env 4 AND CR4_PAE_MASK \<and> cr env' 4 AND CR4_PSE_MASK = cr env 4 AND CR4_PSE_MASK
    \<and> cr env' 4 AND CR4_SMEP_MASK = cr env 4 AND CR4_SMEP_MASK \<and> cr env' 4 AND CR4_SMAP_MASK = cr env 4 AND CR4_SMAP_MASK"

lemma same_paging_reads:
  assumes "same_paging env env'"
  shows "ldq_phys env' = ldq_phys env" "ldl_phys env' = ldl_phys env" "entry_addr env' = entry_addr env"
    "entry_addr4 env' = entry_addr4 env" "entry_stop env' = entry_stop env" "protect_fault env' = protect_fault env"
  using assms
  by (simp_all add: same_paging_def fun_eq_iff ldq_phys_def ldl_phys_def entry_addr_def entry_addr4_def a20_def
      entry_stop_def protect_fault_def)

lemma same_paging_entries:
  assumes s: "same_paging env env'"
  shows "pml4_entry env' addr = pml4_entry env addr" "pdp_entry env' addr = pdp_entry env addr"
    "pd_entry env' addr = pd_entry env addr" "pt_entry env' addr = pt_entry env addr"
    "legacy_pd env' addr = legacy_pd env addr" "legacy_pt env' addr = legacy_pt env addr"
    "legacy_large env' addr = legacy_large env addr"
proof -
  have f: "cr env' 3 = cr env 3" "a20 env' = a20 env" "hflags env' AND HF_LMA_MASK = hflags env AND HF_LMA_MASK"
    "cr env' 4 AND CR4_PSE_MASK = cr env 4 AND CR4_PSE_MASK"
    using s by (simp_all add: same_paging_def a20_def)
  note r = same_paging_reads [OF s]
  show 1: "pml4_entry env' addr = pml4_entry env addr" by (simp add: pml4_entry_def r f)
  have n: "next_entry env' = next_entry env" by (simp add: next_entry_def r fun_eq_iff)
  show 2: "pdp_entry env' addr = pdp_entry env addr" unfolding pdp_entry_def f r n 1 ..
  show 3: "pd_entry env' addr = pd_entry env addr" unfolding pd_entry_def n 2 ..
  show "pt_entry env' addr = pt_entry env addr" unfolding pt_entry_def n 3 ..
  show 4: "legacy_pd env' addr = legacy_pd env addr" by (simp add: legacy_pd_def r f)
  show "legacy_pt env' addr = legacy_pt env addr" by (simp add: legacy_pt_def r 4)
  show "legacy_large env' addr = legacy_large env addr" unfolding legacy_large_def 4 f ..
qed

lemma same_paging_mapping:
  assumes s: "same_paging env env'"
    and pg: "(cr env' 0 AND CR0_PG_MASK_64 = 0) = (cr env 0 AND CR0_PG_MASK_64 = 0)"
  shows "mapping env' addr w m = mapping env addr w m"
proof -
  note f = same_paging_reads [OF s] same_paging_entries [OF s]
  have h: "hflags env' AND HF_LMA_MASK = hflags env AND HF_LMA_MASK"
    "cr env' 4 AND CR4_PAE_MASK = cr env 4 AND CR4_PAE_MASK" using s by (simp_all add: same_paging_def)
  have "denied env' = denied env" by (simp add: fun_eq_iff denied_def f)
  then have "walk_ok env' addr w m = walk_ok env addr w m" "table_entries env' addr = table_entries env addr"
    unfolding walk_ok_def pae_ok_def legacy_ok_def upper_ok_def pd_rights_def upper_rights_def table_entries_def h f
    by simp_all
  then show ?thesis by (simp add: mapping_def pg)
qed

definition tlb_empty :: "cpu_state \<Rightarrow> bool" where
  "tlb_empty env \<longleftrightarrow> list_all (\<lambda>m. list_all (\<lambda>i. tlb_table env m i = s_cputlb_empty_entry) [0..<CPU_TLB_SIZE]) [0..<NB_MMU_MODES]"

lemma tlb_empty_flush: "tlb_table env' = tlb_table (tlb_flush env) \<Longrightarrow> tlb_empty env'"
  by (simp add: tlb_empty_def tlb_flush_def list_all_iff)


lemma pg64_bits: "(c AND CR0_PG_MASK_64 = 0) = (\<forall>k. 31 \<le> k \<longrightarrow> \<not> bit (c :: u64) k)"
proof -
  have m: "(CR0_PG_MASK_64 :: u64) = NOT (mask 31)" by (simp add: mask_eq_exp_minus_1)
  show ?thesis
  proof
    assume a: "c AND CR0_PG_MASK_64 = 0"
    show "\<forall>k. 31 \<le> k \<longrightarrow> \<not> bit c k"
    proof (intro allI impI notI)
      fix k assume k: "31 \<le> k" "bit c k"
      then have "bit (c AND NOT (mask 31)) k"
        using bit_imp_le_length [OF k(2)] by (simp only: bit_and_iff bit_not_iff bit_mask_iff possible_bit_word) simp
      then show False using a unfolding m by (simp only: bit_0_eq bot_apply bot_bool_def)
    qed
  next
    assume a: "\<forall>k. 31 \<le> k \<longrightarrow> \<not> bit c k"
    show "c AND CR0_PG_MASK_64 = 0" unfolding m
    proof (rule bit_word_eqI)
      fix k
      show "bit (c AND NOT (mask 31)) k = bit 0 k"
        using a [rule_format, of k] by (cases "31 \<le> k"; simp only: bit_and_iff bit_not_iff bit_mask_iff bit_0_eq bot_apply bot_bool_def possible_bit_word; auto)
    qed
  qed
qed

lemma cr0_masks:
  "(0x80000000 OR 0x10000 OR 0x1 :: u32) = push_bit 31 1 OR push_bit 16 1 OR push_bit 0 1"
  "(0xFFFFFFFF80000000 OR 0x10000 OR 0x1 :: u64) = NOT (mask 31) OR push_bit 16 1 OR push_bit 0 1"
  by (simp_all add: mask_eq_exp_minus_1 push_bit_eq_mult)

lemma cr0_same:
  assumes "(ucast (n AND (CR0_PG_MASK OR CR0_WP_MASK OR CR0_PE_MASK) :: u32) :: u64)
      = c AND (CR0_PG_MASK_64 OR CR0_WP_MASK OR CR0_PE_MASK)"
  shows "bit c 31 = bit n 31" "bit c 16 = bit n 16" "32 \<le> k \<Longrightarrow> \<not> bit c k"
proof -
  have e: "bit (ucast (n AND (push_bit 31 1 OR push_bit 16 1 OR push_bit 0 1)) :: u64) k
      = bit (c AND (NOT (mask 31) OR push_bit 16 1 OR push_bit 0 1)) k" for k
    using assms unfolding cr0_masks by (simp only:)
  show "bit c 31 = bit n 31" using e [of 31]
    by (simp add: bit_unsigned_iff bit_and_iff bit_or_iff bit_not_iff bit_mask_iff bit_simps)
  show "bit c 16 = bit n 16" using e [of 16]
    by (simp add: bit_unsigned_iff bit_and_iff bit_or_iff bit_not_iff bit_mask_iff bit_simps)
  show "32 \<le> k \<Longrightarrow> \<not> bit c k" using e [of k] bit_imp_le_length [of c k]
    by (auto simp: bit_unsigned_iff bit_and_iff bit_or_iff bit_not_iff bit_mask_iff)
qed

lemma cr0_hflags_lma:
  assumes "\<not> bit p 7" "\<not> bit p 8"
  shows "bit (cr0_hflags h p n) 14 = bit h 14"
proof -
  have m: "(HF_PE_MASK :: u32) = push_bit 7 1" "(HF_MP_EM_TS_MASK :: u32) = push_bit 9 (mask 3)"
    by (simp_all add: push_bit_eq_mult mask_eq_exp_minus_1)
  show ?thesis
    unfolding cr0_hflags_def Let_def m
    using assms by (simp add: bit_or_iff bit_and_iff bit_not_iff bit_push_bit_iff bit_xor_iff bit_mask_iff bit_1_iff del: push_bit_of_1)
qed

lemma long_mode_switch_tlb: "long_mode_switch env n = (e, b) \<Longrightarrow> tlb_table e = tlb_table env"
  unfolding long_mode_switch_def by (auto split: if_split_asm)

lemma ucast_or_et:
  "32 \<le> k \<Longrightarrow> \<not> bit (ucast (n OR CR0_ET_MASK :: u32) :: u64) k"
  "bit (ucast (n OR CR0_ET_MASK :: u32) :: u64) 31 = bit n 31"
  "bit (ucast (n OR CR0_ET_MASK :: u32) :: u64) 16 = bit n 16"
  using bit_imp_le_length [of "n OR CR0_ET_MASK" k]
  by (auto simp: bit_unsigned_iff bit_or_iff bit_numeral_word_iff)

lemma pg64_u32: "(\<And>k. 32 \<le> k \<Longrightarrow> \<not> bit c k) \<Longrightarrow> bit c 31 = b \<Longrightarrow> (c AND CR0_PG_MASK_64 = 0) = (\<not> b)"
proof -
  assume a: "\<And>k. 32 \<le> k \<Longrightarrow> \<not> bit c k" "bit c 31 = b"
  have "\<not> bit c k" if "\<not> b" "31 \<le> k" for k
    using a(1) [of k] a(2) that by (cases "k = 31") auto
  then show ?thesis unfolding pg64_bits using a(2) by auto
qed

lemma update_cr0_consistent:
  "tlb_empty (cpu_x86_update_cr0 env n) \<or> (\<forall>a w m. mapping (cpu_x86_update_cr0 env n) a w m = mapping env a w m)"
proof (cases "(ucast (n AND (CR0_PG_MASK OR CR0_WP_MASK OR CR0_PE_MASK)) :: u64)
    = cr env 0 AND (CR0_PG_MASK_64 OR CR0_WP_MASK OR CR0_PE_MASK)")
  case False
  obtain e b where s: "long_mode_switch (tlb_flush env) n = (e, b)" by fastforce
  then have "tlb_table e = tlb_table (tlb_flush env)" by (rule long_mode_switch_tlb)
  then have "tlb_table (cpu_x86_update_cr0 env n) = tlb_table (tlb_flush env)"
    using False s by (cases b) (simp_all add: cpu_x86_update_cr0_def Let_def)
  then show ?thesis using tlb_empty_flush by blast
next
  case True
  note c = cr0_same [OF True]
  have np: "(n AND CR0_PG_MASK = 0) = (\<not> bit n 31)" using and_pow_zero [of 31 n] by simp
  have cp: "(cr env 0 AND CR0_PG_MASK_64 = 0) = (\<not> bit n 31)"
    by (rule pg64_u32 [OF c(3,1)])
  have "long_mode_switch env n = (env, False)" unfolding long_mode_switch_def np cp by (cases "bit n 31") simp_all
  then have e: "cpu_x86_update_cr0 env n = env\<lparr>cr := (cr env)(0 := ucast (n OR CR0_ET_MASK)),
      hflags := cr0_hflags (hflags env) (ucast ((ucast (n OR CR0_ET_MASK) :: u64) AND CR0_PE_MASK)) n\<rparr>"
    using True by (simp add: cpu_x86_update_cr0_def Let_def)
  let ?e = "cpu_x86_update_cr0 env n"
  have p: "\<not> bit (ucast ((x :: u64) AND CR0_PE_MASK) :: u32) 7" "\<not> bit (ucast (x AND CR0_PE_MASK) :: u32) 8" for x
    by (simp_all add: bit_unsigned_iff bit_and_iff bit_1_iff)
  have "bit (hflags ?e) 14 = bit (hflags env) 14" unfolding e using cr0_hflags_lma [OF p] by simp
  then have h: "hflags ?e AND HF_LMA_MASK = hflags env AND HF_LMA_MASK"
    using and_bit_mask [of "hflags ?e" 14] and_bit_mask [of "hflags env" 14] by (simp add: push_bit_eq_mult)
  have "bit (cr ?e 0) 16 = bit (cr env 0) 16"
    unfolding c(2) using ucast_or_et(3) [of n] by (simp add: e)
  then have w: "cr ?e 0 AND CR0_WP_MASK = cr env 0 AND CR0_WP_MASK"
    using and_bit_mask [of "cr ?e 0" 16] and_bit_mask [of "cr env 0" 16] by (simp add: push_bit_eq_mult)
  have "same_paging env ?e"
    unfolding same_paging_def using h w by (simp add: e)
  moreover have "(cr ?e 0 AND CR0_PG_MASK_64 = 0) = (cr env 0 AND CR0_PG_MASK_64 = 0)"
  proof -
    have "cr ?e 0 = ucast (n OR CR0_ET_MASK)" by (simp add: e)
    then show ?thesis unfolding cp using pg64_u32 [OF ucast_or_et(1,2), of n] by simp
  qed
  ultimately show ?thesis using same_paging_mapping by blast
qed


lemma update_cr3_consistent:
  "tlb_empty (cpu_x86_update_cr3 env v) \<or> (\<forall>a w m. mapping (cpu_x86_update_cr3 env v) a w m = mapping env a w m)"
proof (cases "cr env 0 AND CR0_PG_MASK_64 = 0")
  case True
  then show ?thesis by (simp add: cpu_x86_update_cr3_def Let_def mapping_def)
next
  case False
  then have "tlb_table (cpu_x86_update_cr3 env v) = tlb_table (tlb_flush env)"
    by (simp add: cpu_x86_update_cr3_def Let_def tlb_flush_def fun_eq_iff)
  then show ?thesis using tlb_empty_flush by blast
qed

lemma update_cr4_consistent:
  assumes m: "mirror_ok env"
  shows "tlb_empty (cpu_x86_update_cr4 env n) \<or> (\<forall>a w m. mapping (cpu_x86_update_cr4 env n) a w m = mapping env a w m)"
proof -
  obtain e0 h c where f: "cpu_x86_update_cr4 env n = e0\<lparr>hflags := h, cr := (cr e0)(4 := ucast (c :: u32))\<rparr>"
      "e0 = (if cr4_flush env n then tlb_flush env else env)"
    and b: "\<And>k. bit h k = (if k = 22 then bit c 9 else if k = 23 then bit c 21 else bit (hflags env) k)"
    and n: "\<And>k. k \<noteq> 9 \<Longrightarrow> k \<noteq> 21 \<Longrightarrow> bit c k = bit n k"
    and s: "bit c 21 = (bit n 21 \<and> cpuid_7_0_ebx_features env AND CPUID_7_0_EBX_SMAP \<noteq> 0)"
    by (rule update_cr4_form [of env n]) (rule that; assumption)
  show ?thesis
proof (cases "cr4_flush env n")
  case True
  then have "tlb_table (cpu_x86_update_cr4 env n) = tlb_table (tlb_flush env)" by (simp add: f)
  then show ?thesis using tlb_empty_flush by blast
next
  case False
  then have e: "cpu_x86_update_cr4 env n = env\<lparr>hflags := h, cr := (cr env)(4 := ucast (c :: u32))\<rparr>" by (simp add: f)
  have k: "bit n k = bit (cr env 4) k" if "k \<in> {4, 5, 20, 21}" for k
  proof -
    have mk: "(CR4_PGE_MASK OR CR4_PAE_MASK OR CR4_PSE_MASK OR CR4_SMEP_MASK OR CR4_SMAP_MASK :: u64)
        = push_bit 7 1 OR push_bit 5 1 OR push_bit 4 1 OR push_bit 20 1 OR push_bit 21 1"
      by (simp add: push_bit_eq_mult)
    have "\<not> bit ((ucast n XOR cr env 4) AND (push_bit 7 1 OR push_bit 5 1 OR push_bit 4 1 OR push_bit 20 1 OR push_bit 21 1)) k"
      using False unfolding cr4_flush_def mk not_not by (simp only: bit_0_eq bot_apply bot_bool_def not_False_eq_True)
    then show ?thesis using that
      by (auto simp: bit_and_iff bit_or_iff bit_xor_iff bit_push_bit_iff bit_unsigned_iff bit_1_iff simp del: push_bit_of_1)
  qed
  let ?e = "cpu_x86_update_cr4 env n"
  have c: "bit (cr ?e 4) k = bit (cr env 4) k" if "k \<in> {4, 5, 20, 21}" for k
  proof -
    have u: "bit (cr ?e 4) k = bit c k" using that by (auto simp: e bit_unsigned_iff)
    show ?thesis
    proof (cases "k = 21")
      case True
      then show ?thesis using k [OF that] s m unfolding u mirror_ok_def by blast
    next
      case False
      then show ?thesis using k [OF that] n [of k] that unfolding u by auto
    qed
  qed
  have cm: "cr ?e 4 AND push_bit k 1 = cr env 4 AND push_bit k 1" if "k \<in> {4, 5, 20, 21}" for k
    unfolding and_bit_mask c [OF that] ..
  have "hflags ?e AND HF_LMA_MASK = hflags env AND HF_LMA_MASK"
  proof -
    have "hflags ?e = h" "bit h 14 = bit (hflags env) 14" by (simp_all add: e b)
    then have "hflags ?e AND push_bit 14 1 = hflags env AND push_bit 14 1" unfolding and_bit_mask by simp
    then show ?thesis by (simp add: push_bit_eq_mult)
  qed
  moreover have "cr ?e 4 AND 0x10 = cr env 4 AND 0x10" "cr ?e 4 AND 0x20 = cr env 4 AND 0x20"
    "cr ?e 4 AND 0x100000 = cr env 4 AND 0x100000" "cr ?e 4 AND 0x200000 = cr env 4 AND 0x200000"
    using cm [of 4] cm [of 5] cm [of 20] cm [of 21] by (simp_all add: push_bit_eq_mult)
  moreover have "phys_mem ?e = phys_mem env" "a20_mask ?e = a20_mask env" "cr ?e 3 = cr env 3" "cr ?e 0 = cr env 0"
    "efer ?e = efer env" by (simp_all add: e)
  ultimately have "same_paging env ?e" unfolding same_paging_def by (simp only: simp_thms)
  then show ?thesis using same_paging_mapping [of env ?e] by (simp add: e)
qed
qed

text \<open>C24. A control register write never leaves stale translations: after MOV to CR0, CR3 or CR4 either the TLB is
  empty, or every address maps as it did before (paging stays off, or the same entries grant or deny every access
  of every mode).\<close>

theorem cr_write_tlb_consistent:
  assumes "cr_run env" "r \<in> {0, 3, 4}" "helper_write_crN env r v = Done env'"
  shows "tlb_empty env' \<or> (\<forall>a w m. mapping env' a w m = mapping env a w m)"
proof -
  have m: "mirror_ok env" by (rule cr_run_mirror [OF assms(1)])
  obtain e where e: "cpu_svm_check_intercept_param env (SVM_EXIT_WRITE_CR0 + of_nat r) 0 = Done e"
    using assms(3) by (auto simp: helper_write_crN_def bind_out_def split: outcome.splits)
  then have "e = env" by (rule svm_check_done)
  then have "env' \<in> {cpu_x86_update_cr0 env (ucast v), cpu_x86_update_cr3 env v, cpu_x86_update_cr4 env (ucast v)}"
    using assms(2,3) e by (auto simp: helper_write_crN_def bind_out_def)
  then show ?thesis
    using update_cr0_consistent update_cr3_consistent update_cr4_consistent [OF m] by blast
qed

lemma cr_write_tlb_consistent_witness:
  "\<exists>env'. helper_write_crN (cpu_x86_update_cr0 zero_env 0x60000010) 0 0x80000011 = Done env' \<and>
    (tlb_empty env' \<or> (\<forall>a w m. mapping env' a w m = mapping (cpu_x86_update_cr0 zero_env 0x60000010) a w m))"
proof -
  let ?e = "cpu_x86_update_cr0 zero_env 0x60000010"
  have "hflags ?e AND HF_SVMI_MASK = 0"
    by (simp add: cpu_x86_update_cr0_def long_mode_switch_def zero_env_def cr0_hflags_def)
  then obtain env' where "helper_write_crN ?e 0 0x80000011 = Done env'"
    by (auto simp: helper_write_crN_def bind_out_def cpu_svm_check_intercept_param_def helper_svm_check_intercept_param_def)
  with cr_write_tlb_consistent [OF reset_cr_run _ this] show ?thesis by auto
qed

end
