(* ===== verification/Msr.thy ===== *)
theory Msr
  imports ControlRegs
begin

text \<open>
  \<open>helper_wrmsr\<close> and \<open>helper_rdmsr\<close> of \<open>target-i386/misc_helper.c\<close>. The array \<open>mtrr_var\<close> of pairs is
  the two functions \<open>mtrr_var_base\<close> and \<open>mtrr_var_mask\<close>.
\<close>

abbreviation (input) MSR_IA32_APICBASE :: u32 where "MSR_IA32_APICBASE \<equiv> 0x1b"
abbreviation (input) MSR_MTRRcap :: u32 where "MSR_MTRRcap \<equiv> 0xfe"
abbreviation (input) MSR_IA32_SYSENTER_CS :: u32 where "MSR_IA32_SYSENTER_CS \<equiv> 0x174"
abbreviation (input) MSR_IA32_SYSENTER_ESP :: u32 where "MSR_IA32_SYSENTER_ESP \<equiv> 0x175"
abbreviation (input) MSR_IA32_SYSENTER_EIP :: u32 where "MSR_IA32_SYSENTER_EIP \<equiv> 0x176"
abbreviation (input) MSR_MCG_CAP :: u32 where "MSR_MCG_CAP \<equiv> 0x179"
abbreviation (input) MSR_MCG_STATUS :: u32 where "MSR_MCG_STATUS \<equiv> 0x17a"
abbreviation (input) MSR_MCG_CTL :: u32 where "MSR_MCG_CTL \<equiv> 0x17b"
abbreviation (input) MSR_IA32_PERF_STATUS :: u32 where "MSR_IA32_PERF_STATUS \<equiv> 0x198"
abbreviation (input) MSR_IA32_MISC_ENABLE :: u32 where "MSR_IA32_MISC_ENABLE \<equiv> 0x1a0"
abbreviation (input) MSR_MTRRphysBase0 :: u32 where "MSR_MTRRphysBase0 \<equiv> 0x200"
abbreviation (input) MSR_MTRRphysMask0 :: u32 where "MSR_MTRRphysMask0 \<equiv> 0x201"
abbreviation (input) MSR_MTRRfix64K_00000 :: u32 where "MSR_MTRRfix64K_00000 \<equiv> 0x250"
abbreviation (input) MSR_MTRRfix16K_80000 :: u32 where "MSR_MTRRfix16K_80000 \<equiv> 0x258"
abbreviation (input) MSR_MTRRfix16K_A0000 :: u32 where "MSR_MTRRfix16K_A0000 \<equiv> 0x259"
abbreviation (input) MSR_MTRRfix4K_C0000 :: u32 where "MSR_MTRRfix4K_C0000 \<equiv> 0x268"
abbreviation (input) MSR_MTRRfix4K_F8000 :: u32 where "MSR_MTRRfix4K_F8000 \<equiv> 0x26f"
abbreviation (input) MSR_PAT :: u32 where "MSR_PAT \<equiv> 0x277"
abbreviation (input) MSR_MTRRdefType :: u32 where "MSR_MTRRdefType \<equiv> 0x2ff"
abbreviation (input) MSR_MC0_CTL :: u32 where "MSR_MC0_CTL \<equiv> 0x400"
abbreviation (input) MSR_EFER :: u32 where "MSR_EFER \<equiv> 0xc0000080"
abbreviation (input) MSR_STAR :: u32 where "MSR_STAR \<equiv> 0xc0000081"
abbreviation (input) MSR_LSTAR :: u32 where "MSR_LSTAR \<equiv> 0xc0000082"
abbreviation (input) MSR_CSTAR :: u32 where "MSR_CSTAR \<equiv> 0xc0000083"
abbreviation (input) MSR_FMASK :: u32 where "MSR_FMASK \<equiv> 0xc0000084"
abbreviation (input) MSR_FSBASE :: u32 where "MSR_FSBASE \<equiv> 0xc0000100"
abbreviation (input) MSR_GSBASE :: u32 where "MSR_GSBASE \<equiv> 0xc0000101"
abbreviation (input) MSR_KERNELGSBASE :: u32 where "MSR_KERNELGSBASE \<equiv> 0xc0000102"
abbreviation (input) MSR_TSC_AUX :: u32 where "MSR_TSC_AUX \<equiv> 0xc0000103"
abbreviation (input) MSR_VM_HSAVE_PA :: u32 where "MSR_VM_HSAVE_PA \<equiv> 0xc0010117"
abbreviation (input) MCG_CTL_P :: u64 where "MCG_CTL_P \<equiv> 0x100"
abbreviation (input) CPUID_MTRR :: u32 where "CPUID_MTRR \<equiv> 0x1000"
abbreviation (input) CPUID_EXT2_SYSCALL :: u32 where "CPUID_EXT2_SYSCALL \<equiv> 0x800"
abbreviation (input) CPUID_EXT2_NX :: u32 where "CPUID_EXT2_NX \<equiv> 0x100000"
abbreviation (input) CPUID_EXT2_FFXSR :: u32 where "CPUID_EXT2_FFXSR \<equiv> 0x2000000"
abbreviation (input) CPUID_EXT2_LM :: u32 where "CPUID_EXT2_LM \<equiv> 0x20000000"
abbreviation (input) CPUID_EXT3_SVM :: u32 where "CPUID_EXT3_SVM \<equiv> 0x4"

text \<open>The \<open>case\<close> ranges \<open>MSR_MTRRphysBase(0)\<close> to \<open>(7)\<close> and \<open>MSR_MTRRphysMask(0)\<close> to \<open>(7)\<close>.\<close>

definition is_mtrr_base :: "u32 \<Rightarrow> bool" where
  "is_mtrr_base n \<longleftrightarrow> n \<in> {0x200, 0x202, 0x204, 0x206, 0x208, 0x20a, 0x20c, 0x20e}"

definition is_mtrr_mask :: "u32 \<Rightarrow> bool" where
  "is_mtrr_mask n \<longleftrightarrow> n \<in> {0x201, 0x203, 0x205, 0x207, 0x209, 0x20b, 0x20d, 0x20f}"

definition efer_update_mask :: "cpu_state \<Rightarrow> u64" where
  "efer_update_mask env =
    (let m = 0;
         m = (if cpuid_ext2_features env AND CPUID_EXT2_SYSCALL \<noteq> 0 then m OR MSR_EFER_SCE else m);
         m = (if cpuid_ext2_features env AND CPUID_EXT2_LM \<noteq> 0 then m OR MSR_EFER_LME else m);
         m = (if cpuid_ext2_features env AND CPUID_EXT2_FFXSR \<noteq> 0 then m OR MSR_EFER_FFXSR else m);
         m = (if cpuid_ext2_features env AND CPUID_EXT2_NX \<noteq> 0 then m OR MSR_EFER_NXE else m);
         m = (if cpuid_ext3_features env AND CPUID_EXT3_SVM \<noteq> 0 then m OR MSR_EFER_SVME else m);
         m = (if cpuid_ext2_features env AND CPUID_EXT2_FFXSR \<noteq> 0 then m OR MSR_EFER_FFXSR else m)
     in m)"

definition set_base :: "nat \<Rightarrow> target_ulong \<Rightarrow> cpu_state \<Rightarrow> cpu_state" where
  "set_base s v env = env\<lparr>segs := (segs env)(s := (segs env s)\<lparr>sc_base := v\<rparr>)\<rparr>"

text \<open>\<open>4 * env->mcg_cap & 0xff\<close>, the number of bank registers.\<close>

definition mce_limit :: "cpu_state \<Rightarrow> u64" where
  "mce_limit env = 4 * mcg_cap env AND 0xff"

definition is_mce_bank :: "cpu_state \<Rightarrow> u32 \<Rightarrow> bool" where
  "is_mce_bank env n \<longleftrightarrow> n \<ge> MSR_MC0_CTL \<and> (ucast n :: u64) < ucast MSR_MC0_CTL + mce_limit env"

definition wrmsr_value :: "cpu_state \<Rightarrow> u32 \<Rightarrow> u64 \<Rightarrow> cpu_state outcome" where
  "wrmsr_value env n val =
    (if n = MSR_IA32_SYSENTER_CS then Done (env\<lparr>sysenter_cs := ucast (val AND 0xffff)\<rparr>)
     else if n = MSR_IA32_SYSENTER_ESP then Done (env\<lparr>sysenter_esp := val\<rparr>)
     else if n = MSR_IA32_SYSENTER_EIP then Done (env\<lparr>sysenter_eip := val\<rparr>)
     else if n = MSR_IA32_APICBASE then Abort
     else if n = MSR_EFER then
       (let m = efer_update_mask env in Done (cpu_load_efer env ((efer env AND NOT m) OR (val AND m))))
     else if n = MSR_STAR then Done (env\<lparr>star := val\<rparr>)
     else if n = MSR_PAT then Done (env\<lparr>pat := val\<rparr>)
     else if n = MSR_VM_HSAVE_PA then Done (env\<lparr>vm_hsave := val\<rparr>)
     else if n = MSR_LSTAR then Done (env\<lparr>lstar := val\<rparr>)
     else if n = MSR_CSTAR then Done (env\<lparr>cstar := val\<rparr>)
     else if n = MSR_FMASK then Done (env\<lparr>fmask := val\<rparr>)
     else if n = MSR_FSBASE then Done (set_base R_FS val env)
     else if n = MSR_GSBASE then Done (set_base R_GS val env)
     else if n = MSR_KERNELGSBASE then Done (env\<lparr>kernelgsbase := val\<rparr>)
     else if is_mtrr_base n then
       Done (env\<lparr>mtrr_var_base := (mtrr_var_base env)(unat ((n - MSR_MTRRphysBase0) div 2) := val)\<rparr>)
     else if is_mtrr_mask n then
       Done (env\<lparr>mtrr_var_mask := (mtrr_var_mask env)(unat ((n - MSR_MTRRphysMask0) div 2) := val)\<rparr>)
     else if n = MSR_MTRRfix64K_00000 then
       Done (env\<lparr>mtrr_fixed := (mtrr_fixed env)(unat (n - MSR_MTRRfix64K_00000) := val)\<rparr>)
     else if n = MSR_MTRRfix16K_80000 \<or> n = MSR_MTRRfix16K_A0000 then
       Done (env\<lparr>mtrr_fixed := (mtrr_fixed env)(unat (n - MSR_MTRRfix16K_80000 + 1) := val)\<rparr>)
     else if MSR_MTRRfix4K_C0000 \<le> n \<and> n \<le> MSR_MTRRfix4K_F8000 then
       Done (env\<lparr>mtrr_fixed := (mtrr_fixed env)(unat (n - MSR_MTRRfix4K_C0000 + 3) := val)\<rparr>)
     else if n = MSR_MTRRdefType then Done (env\<lparr>mtrr_deftype := val\<rparr>)
     else if n = MSR_MCG_STATUS then Done (env\<lparr>mcg_status := val\<rparr>)
     else if n = MSR_MCG_CTL then
       Done (if mcg_cap env AND MCG_CTL_P \<noteq> 0 \<and> (val = 0 \<or> val = NOT 0) then env\<lparr>mcg_ctl := val\<rparr> else env)
     else if n = MSR_TSC_AUX then Done (env\<lparr>tsc_aux := val\<rparr>)
     else if n = MSR_IA32_MISC_ENABLE then Done (env\<lparr>msr_ia32_misc_enable := val\<rparr>)
     else if is_mce_bank env n then
       (let offset = n - MSR_MC0_CTL
        in if offset AND 3 \<noteq> 0 \<or> (val = 0 \<or> val = NOT 0)
           then Done (env\<lparr>mce_banks := (mce_banks env)(unat offset := val)\<rparr>) else Done env)
     else Done env)"

definition helper_wrmsr :: "cpu_state \<Rightarrow> cpu_state outcome" where
  "helper_wrmsr env =
    bind_out (cpu_svm_check_intercept_param env SVM_EXIT_MSR 1)
      (\<lambda>env. let val = (ucast (ucast (regs env R_EAX) :: u32) :: u64)
                       OR push_bit 32 (ucast (ucast (regs env R_EDX) :: u32))
             in wrmsr_value env (ucast (regs env R_ECX)) val)"

definition rdmsr_value :: "cpu_state \<Rightarrow> u32 \<Rightarrow> u64 outcome" where
  "rdmsr_value env n =
    (if n = MSR_IA32_SYSENTER_CS then Done (ucast (sysenter_cs env))
     else if n = MSR_IA32_SYSENTER_ESP then Done (sysenter_esp env)
     else if n = MSR_IA32_SYSENTER_EIP then Done (sysenter_eip env)
     else if n = MSR_IA32_APICBASE then Abort
     else if n = MSR_EFER then Done (efer env)
     else if n = MSR_STAR then Done (star env)
     else if n = MSR_PAT then Done (pat env)
     else if n = MSR_VM_HSAVE_PA then Done (vm_hsave env)
     else if n = MSR_IA32_PERF_STATUS then Done (1000 OR push_bit 40 4)
     else if n = MSR_LSTAR then Done (lstar env)
     else if n = MSR_CSTAR then Done (cstar env)
     else if n = MSR_FMASK then Done (fmask env)
     else if n = MSR_FSBASE then Done (sc_base (segs env R_FS))
     else if n = MSR_GSBASE then Done (sc_base (segs env R_GS))
     else if n = MSR_KERNELGSBASE then Done (kernelgsbase env)
     else if n = MSR_TSC_AUX then Done (tsc_aux env)
     else if is_mtrr_base n then Done (mtrr_var_base env (unat ((n - MSR_MTRRphysBase0) div 2)))
     else if is_mtrr_mask n then Done (mtrr_var_mask env (unat ((n - MSR_MTRRphysMask0) div 2)))
     else if n = MSR_MTRRfix64K_00000 then Done (mtrr_fixed env 0)
     else if n = MSR_MTRRfix16K_80000 \<or> n = MSR_MTRRfix16K_A0000 then
       Done (mtrr_fixed env (unat (n - MSR_MTRRfix16K_80000 + 1)))
     else if MSR_MTRRfix4K_C0000 \<le> n \<and> n \<le> MSR_MTRRfix4K_F8000 then
       Done (mtrr_fixed env (unat (n - MSR_MTRRfix4K_C0000 + 3)))
     else if n = MSR_MTRRdefType then Done (mtrr_deftype env)
     else if n = MSR_MTRRcap then
       Done (if cpuid_features env AND CPUID_MTRR \<noteq> 0 then 8 OR 0x100 OR 0x400 else 0)
     else if n = MSR_MCG_CAP then Done (mcg_cap env)
     else if n = MSR_MCG_CTL then Done (if mcg_cap env AND MCG_CTL_P \<noteq> 0 then mcg_ctl env else 0)
     else if n = MSR_MCG_STATUS then Done (mcg_status env)
     else if n = MSR_IA32_MISC_ENABLE then Done (msr_ia32_misc_enable env)
     else if is_mce_bank env n then Done (mce_banks env (unat (n - MSR_MC0_CTL)))
     else Done 0)"

definition helper_rdmsr :: "cpu_state \<Rightarrow> cpu_state outcome" where
  "helper_rdmsr env =
    bind_out (cpu_svm_check_intercept_param env SVM_EXIT_MSR 0)
      (\<lambda>env. bind_out (rdmsr_value env (ucast (regs env R_ECX)))
        (\<lambda>val. let env = set_reg R_EAX (ucast (ucast val :: u32)) env
               in Done (set_reg R_EDX (ucast (ucast (drop_bit 32 val) :: u32)) env)))"

end
