(* ===== verification/MsrPlaces.thy ===== *)
theory MsrPlaces
  imports Msr
begin

text \<open>
  Each model-specific register is a place of its own: a write to one leaves what is read from every
  other.
\<close>

subsection \<open>Places\<close>

text \<open>What a read of register \<open>n\<close> depends on.\<close>

lemma rdmsr_cong:
  assumes "mcg_cap env' = mcg_cap env" "cpuid_features env' = cpuid_features env"
    and "n = 0x174 \<Longrightarrow> sysenter_cs env' = sysenter_cs env"
    and "n = 0x175 \<Longrightarrow> sysenter_esp env' = sysenter_esp env"
    and "n = 0x176 \<Longrightarrow> sysenter_eip env' = sysenter_eip env"
    and "n = 0xc0000080 \<Longrightarrow> efer env' = efer env"
    and "n = 0xc0000081 \<Longrightarrow> star env' = star env"
    and "n = 0x277 \<Longrightarrow> pat env' = pat env"
    and "n = 0xc0010117 \<Longrightarrow> vm_hsave env' = vm_hsave env"
    and "n = 0xc0000082 \<Longrightarrow> lstar env' = lstar env"
    and "n = 0xc0000083 \<Longrightarrow> cstar env' = cstar env"
    and "n = 0xc0000084 \<Longrightarrow> fmask env' = fmask env"
    and "n = 0xc0000102 \<Longrightarrow> kernelgsbase env' = kernelgsbase env"
    and "n = 0xc0000103 \<Longrightarrow> tsc_aux env' = tsc_aux env"
    and "n = 0x2ff \<Longrightarrow> mtrr_deftype env' = mtrr_deftype env"
    and "n = 0x17a \<Longrightarrow> mcg_status env' = mcg_status env"
    and "n = 0x1a0 \<Longrightarrow> msr_ia32_misc_enable env' = msr_ia32_misc_enable env"
    and "n = MSR_FSBASE \<Longrightarrow> sc_base (segs env' R_FS) = sc_base (segs env R_FS)"
    and "n = MSR_GSBASE \<Longrightarrow> sc_base (segs env' R_GS) = sc_base (segs env R_GS)"
    and "is_mtrr_base n \<Longrightarrow> mtrr_var_base env' (unat ((n - MSR_MTRRphysBase0) div 2)) = mtrr_var_base env (unat ((n - MSR_MTRRphysBase0) div 2))"
    and "is_mtrr_mask n \<Longrightarrow> mtrr_var_mask env' (unat ((n - MSR_MTRRphysMask0) div 2)) = mtrr_var_mask env (unat ((n - MSR_MTRRphysMask0) div 2))"
    and "n = MSR_MTRRfix64K_00000 \<Longrightarrow> mtrr_fixed env' 0 = mtrr_fixed env 0"
    and "n = MSR_MTRRfix16K_80000 \<or> n = MSR_MTRRfix16K_A0000 \<Longrightarrow>
      mtrr_fixed env' (unat (n - MSR_MTRRfix16K_80000 + 1)) = mtrr_fixed env (unat (n - MSR_MTRRfix16K_80000 + 1))"
    and "MSR_MTRRfix4K_C0000 \<le> n \<Longrightarrow> n \<le> MSR_MTRRfix4K_F8000 \<Longrightarrow>
      mtrr_fixed env' (unat (n - MSR_MTRRfix4K_C0000 + 3)) = mtrr_fixed env (unat (n - MSR_MTRRfix4K_C0000 + 3))"
    and "n = MSR_MCG_CTL \<Longrightarrow> mcg_cap env AND MCG_CTL_P \<noteq> 0 \<Longrightarrow> mcg_ctl env' = mcg_ctl env"
    and "is_mce_bank env n \<Longrightarrow> mce_banks env' (unat (n - MSR_MC0_CTL)) = mce_banks env (unat (n - MSR_MC0_CTL))"
  shows "rdmsr_value env' n = rdmsr_value env n"
proof -
  have "is_mce_bank env' n = is_mce_bank env n" by (simp add: is_mce_bank_def mce_limit_def assms(1))
  then show ?thesis
    unfolding rdmsr_value_def using assms by (simp cong: if_cong)
qed

lemma index_inj:
  "is_mtrr_base n \<Longrightarrow> is_mtrr_base k \<Longrightarrow>
    (unat ((n - MSR_MTRRphysBase0) div 2) = unat ((k - MSR_MTRRphysBase0) div 2)) = (n = k)"
  "is_mtrr_mask n \<Longrightarrow> is_mtrr_mask k \<Longrightarrow>
    (unat ((n - MSR_MTRRphysMask0) div 2) = unat ((k - MSR_MTRRphysMask0) div 2)) = (n = k)"
  by (auto simp: is_mtrr_base_def is_mtrr_mask_def)

lemma fix4k: "(MSR_MTRRfix4K_C0000 \<le> n \<and> n \<le> MSR_MTRRfix4K_F8000) =
    (n \<in> {0x268, 0x269, 0x26a, 0x26b, 0x26c, 0x26d, 0x26e, 0x26f})"
  by (simp add: word_unat_eq_iff word_le_nat_alt) arith

lemma fixed_inj:
  assumes "n \<in> {0x250, 0x258, 0x259} \<or> MSR_MTRRfix4K_C0000 \<le> n \<and> n \<le> MSR_MTRRfix4K_F8000" "k \<noteq> n"
    and i: "i = (if n = 0x250 then 0 else if n = 0x258 \<or> n = 0x259 then unat (n - MSR_MTRRfix16K_80000 + 1)
      else unat (n - MSR_MTRRfix4K_C0000 + 3))"
  shows "k = 0x250 \<Longrightarrow> i \<noteq> 0"
    "k = 0x258 \<or> k = 0x259 \<Longrightarrow> unat (k - MSR_MTRRfix16K_80000 + 1) \<noteq> i"
    "MSR_MTRRfix4K_C0000 \<le> k \<and> k \<le> MSR_MTRRfix4K_F8000 \<Longrightarrow> unat (k - MSR_MTRRfix4K_C0000 + 3) \<noteq> i"
  using assms(1,2) unfolding fix4k i by auto

lemma efer_fields:
  "mcg_cap (cpu_load_efer env v) = mcg_cap env" "cpuid_features (cpu_load_efer env v) = cpuid_features env" "sysenter_cs (cpu_load_efer env v) = sysenter_cs env" "sysenter_esp (cpu_load_efer env v) = sysenter_esp env" "sysenter_eip (cpu_load_efer env v) = sysenter_eip env" "star (cpu_load_efer env v) = star env" "pat (cpu_load_efer env v) = pat env" "vm_hsave (cpu_load_efer env v) = vm_hsave env" "lstar (cpu_load_efer env v) = lstar env" "cstar (cpu_load_efer env v) = cstar env" "fmask (cpu_load_efer env v) = fmask env" "kernelgsbase (cpu_load_efer env v) = kernelgsbase env" "tsc_aux (cpu_load_efer env v) = tsc_aux env" "mtrr_deftype (cpu_load_efer env v) = mtrr_deftype env" "mcg_status (cpu_load_efer env v) = mcg_status env" "msr_ia32_misc_enable (cpu_load_efer env v) = msr_ia32_misc_enable env" "segs (cpu_load_efer env v) = segs env" "mtrr_var_base (cpu_load_efer env v) = mtrr_var_base env" "mtrr_var_mask (cpu_load_efer env v) = mtrr_var_mask env" "mtrr_fixed (cpu_load_efer env v) = mtrr_fixed env" "mcg_ctl (cpu_load_efer env v) = mcg_ctl env" "mce_banks (cpu_load_efer env v) = mce_banks env"
  by (simp_all add: cpu_load_efer_def Let_def)

lemma other_fixed:
  assumes "n \<in> {0x250, 0x258, 0x259} \<or> MSR_MTRRfix4K_C0000 \<le> n \<and> n \<le> MSR_MTRRfix4K_F8000" "k \<noteq> n"
    and i: "i = (if n = 0x250 then 0 else if n = 0x258 \<or> n = 0x259 then unat (n - MSR_MTRRfix16K_80000 + 1)
      else unat (n - MSR_MTRRfix4K_C0000 + 3))"
  shows "rdmsr_value (env\<lparr>mtrr_fixed := (mtrr_fixed env)(i := val)\<rparr>) k = rdmsr_value env k"
proof -
  note f = fixed_inj [OF assms]
  show ?thesis
  proof (rule rdmsr_cong)
    assume "k = MSR_MTRRfix64K_00000"
    with f(1) show "mtrr_fixed (env\<lparr>mtrr_fixed := (mtrr_fixed env)(i := val)\<rparr>) 0 = mtrr_fixed env 0" by simp
  next
    assume "k = MSR_MTRRfix16K_80000 \<or> k = MSR_MTRRfix16K_A0000"
    with f(2) show "mtrr_fixed (env\<lparr>mtrr_fixed := (mtrr_fixed env)(i := val)\<rparr>) (unat (k - MSR_MTRRfix16K_80000 + 1))
      = mtrr_fixed env (unat (k - MSR_MTRRfix16K_80000 + 1))" by simp
  next
    assume "MSR_MTRRfix4K_C0000 \<le> k" "k \<le> MSR_MTRRfix4K_F8000"
    with f(3) show "mtrr_fixed (env\<lparr>mtrr_fixed := (mtrr_fixed env)(i := val)\<rparr>) (unat (k - MSR_MTRRfix4K_C0000 + 3))
      = mtrr_fixed env (unat (k - MSR_MTRRfix4K_C0000 + 3))" by simp
  qed simp_all
qed

text \<open>The fixed-range registers and the place of each in \<open>mtrr_fixed\<close>.\<close>

definition is_mtrr_fixed :: "u32 \<Rightarrow> bool" where
  "is_mtrr_fixed n \<longleftrightarrow> n \<in> {0x250, 0x258, 0x259} \<or> MSR_MTRRfix4K_C0000 \<le> n \<and> n \<le> MSR_MTRRfix4K_F8000"

definition fixed_index :: "u32 \<Rightarrow> nat" where
  "fixed_index n = (if n = 0x250 then 0 else if n = 0x258 \<or> n = 0x259 then unat (n - MSR_MTRRfix16K_80000 + 1)
      else unat (n - MSR_MTRRfix4K_C0000 + 3))"

lemma is_mtrr_fixed_cases:
  "is_mtrr_fixed n \<longleftrightarrow> n \<in> {0x250, 0x258, 0x259, 0x268, 0x269, 0x26a, 0x26b, 0x26c, 0x26d, 0x26e, 0x26f}"
  unfolding is_mtrr_fixed_def fix4k by auto

lemma wrmsr_fixed:
  assumes "is_mtrr_fixed n"
  shows "wrmsr_value env n val = Done (env\<lparr>mtrr_fixed := (mtrr_fixed env)(fixed_index n := val)\<rparr>)"
  using assms unfolding is_mtrr_fixed_cases
  by (elim insertE emptyE; hypsubst; simp add: wrmsr_value_def fixed_index_def is_mtrr_base_def is_mtrr_mask_def)

lemma bank_index_inj: "(unat (n - MSR_MC0_CTL) = unat (k - MSR_MC0_CTL)) = (n = (k :: u32))"
  by (metis diff_add_cancel word_unat_eq_iff)

lemma other_msr:
  assumes w: "wrmsr_value env n val = Done env'" and ne: "k \<noteq> n"
  shows "rdmsr_value env' k = rdmsr_value env k"
proof (cases "is_mtrr_fixed n")
  case True
  with w have e: "env' = env\<lparr>mtrr_fixed := (mtrr_fixed env)(fixed_index n := val)\<rparr>"
    by (simp add: wrmsr_fixed)
  show ?thesis
    unfolding e by (rule other_fixed [OF True [unfolded is_mtrr_fixed_def] ne fixed_index_def])
next
  case False
  then have f: "n \<noteq> 0x250" "n \<noteq> 0x258" "n \<noteq> 0x259" "\<not> (MSR_MTRRfix4K_C0000 \<le> n \<and> n \<le> MSR_MTRRfix4K_F8000)"
    unfolding is_mtrr_fixed_def by blast+
  from w show ?thesis
    unfolding wrmsr_value_def Let_def if_not_P [OF f(4)] if_not_P [OF f(1)]
    apply (simp add: f(2,3) split: if_split_asm)
    apply (hypsubst, (rule rdmsr_cong; use ne ne [symmetric] in \<open>simp add: efer_fields set_base_def index_inj bank_index_inj\<close>))+
    done
qed

end
