(* ===== verification/MsrSpec.thy ===== *)
theory MsrSpec
  imports MsrPlaces
begin

text \<open>
  What a guest observes of the model-specific registers: a read gives back what the last write left
  (\<open>msr_readback\<close>), and no access leaves the arrays of the state.
\<close>

subsection \<open>Reading back\<close>

text \<open>\<open>EDX:EAX\<close> as the helpers combine it.\<close>

definition edx_eax :: "cpu_state \<Rightarrow> u64" where
  "edx_eax env = (ucast (ucast (regs env R_EAX) :: u32) :: u64) OR push_bit 32 (ucast (ucast (regs env R_EDX) :: u32))"

text \<open>
  The value a register has after \<open>val\<close> is written to it: the whole value, the bits the processor
  supports, or the old value where the register is read-only or rejects \<open>val\<close>.
\<close>

definition msr_readback :: "cpu_state \<Rightarrow> u32 \<Rightarrow> u64 \<Rightarrow> u64 \<Rightarrow> u64" where
  "msr_readback env n val old =
    (if n = MSR_IA32_SYSENTER_CS then val AND 0xffff
     else if n = MSR_EFER then (old AND NOT (efer_update_mask env)) OR (val AND efer_update_mask env)
     else if n = MSR_MCG_CTL \<or> is_mce_bank env n \<and> n AND 3 = 0 then
       (if val = 0 \<or> val = NOT 0 then (if n = MSR_MCG_CTL \<and> mcg_cap env AND MCG_CTL_P = 0 then 0 else val) else old)
     else if n \<in> {MSR_IA32_SYSENTER_ESP, MSR_IA32_SYSENTER_EIP, MSR_STAR, MSR_PAT, MSR_VM_HSAVE_PA, MSR_LSTAR,
         MSR_CSTAR, MSR_FMASK, MSR_FSBASE, MSR_GSBASE, MSR_KERNELGSBASE, MSR_MTRRdefType, MSR_MCG_STATUS,
         MSR_TSC_AUX, MSR_IA32_MISC_ENABLE} \<or> is_mtrr_base n \<or> is_mtrr_mask n \<or> is_mtrr_fixed n \<or> is_mce_bank env n
       then val
     else old)"

lemma rdmsr_fixed: "is_mtrr_fixed n \<Longrightarrow> rdmsr_value env n = Done (mtrr_fixed env (fixed_index n))"
  unfolding is_mtrr_fixed_cases
  by (elim insertE emptyE; hypsubst; simp add: rdmsr_value_def fixed_index_def is_mtrr_base_def is_mtrr_mask_def)

lemma readback_fixed: "is_mtrr_fixed n \<Longrightarrow> msr_readback env n val old = val"
  unfolding is_mtrr_fixed_cases
  by (elim insertE emptyE; hypsubst; simp add: msr_readback_def is_mce_bank_def is_mtrr_fixed_cases)

lemma bank_offset: "((n :: u32) - MSR_MC0_CTL) AND 3 = n AND 3"
proof -
  have "(uint n - 1024) mod 4294967296 mod 4 = (uint n - 1024) mod 4" by (rule mod_mod_cancel) simp
  also have "\<dots> = uint n mod 4" by presburger
  finally have m: "(uint n - 1024) mod 4294967296 mod 4 = uint n mod 4" .
  have "uint (take_bit 2 (n - 1024)) = uint (take_bit 2 n)"
    unfolding unsigned_take_bit_eq unfolding take_bit_eq_mod uint_word_ariths using m by simp
  then have "take_bit 2 (n - 1024) = take_bit 2 n" by (simp only: word_uint_eq_iff)
  then show ?thesis by (simp add: take_bit_eq_mask mask_eq_exp_minus_1)
qed

lemma efer_value: "efer (cpu_load_efer env v) = v"
  by (simp add: cpu_load_efer_def Let_def)

lemma cs_mask: "ucast (ucast (val AND 0xffff :: u64) :: u32) = val AND 0xffff"
proof -
  have "val AND 0xffff = take_bit 16 val" by (simp add: take_bit_eq_mask mask_eq_exp_minus_1)
  then show ?thesis by (auto simp: bit_eq_iff bit_simps simp del: take_bit_eq_mod)
qed

lemma bank_range:
  assumes "is_mce_bank env n"
  shows "n \<ge> 0x400" "n < 0x500"
proof -
  have "mce_limit env \<le> 0xff" unfolding mce_limit_def by (rule word_and_le1)
  then have "unat (mce_limit env) \<le> 0xff" by (simp add: word_le_nat_alt)
  moreover have "take_bit 64 (unat n) = unat n"
    using unsigned_less [of n, where ?'a = nat] by (intro take_bit_nat_eq_self) simp
  ultimately show "n < 0x500"
    using assms unfolding is_mce_bank_def
    by (simp add: word_less_nat_alt word_le_nat_alt unat_word_ariths unsigned_ucast_eq)
  show "n \<ge> 0x400" using assms by (simp add: is_mce_bank_def)
qed

lemma bank_not:
  assumes "is_mce_bank env n"
  shows "\<not> is_mtrr_base n" "\<not> is_mtrr_mask n" "\<not> is_mtrr_fixed n"
    "n \<noteq> 0x198" "n \<noteq> 0xfe" "n \<noteq> 0x179" "n \<noteq> 0x1b"
  using bank_range [OF assms] by (auto simp: is_mtrr_base_def is_mtrr_mask_def is_mtrr_fixed_cases)

lemma not_bank: "n < 0x400 \<or> n \<ge> 0x500 \<Longrightarrow> \<not> is_mce_bank env n"
  using bank_range [of env n] by (auto simp: not_le)

lemma wrmsr_readback:
  assumes w: "wrmsr_value env n val = Done env'" and r: "rdmsr_value env n = Done old"
  shows "rdmsr_value env' n = Done (msr_readback env n val old)"
proof -
  consider (fixed) "is_mtrr_fixed n" | (base) "is_mtrr_base n" | (mask) "is_mtrr_mask n" | (bank) "is_mce_bank env n"
    | (ctl) "n = MSR_MCG_CTL" | (named) "n \<noteq> MSR_MCG_CTL" "\<not> is_mtrr_fixed n" "\<not> is_mtrr_base n" "\<not> is_mtrr_mask n" "\<not> is_mce_bank env n" by blast
  then show ?thesis
  proof cases
    case fixed
    with w have "env' = env\<lparr>mtrr_fixed := (mtrr_fixed env)(fixed_index n := val)\<rparr>" by (simp add: wrmsr_fixed)
    with fixed show ?thesis by (simp add: rdmsr_fixed readback_fixed)
  next
    case base
    with w show ?thesis unfolding is_mtrr_base_def
      by (elim insertE emptyE; hypsubst;
          simp add: wrmsr_value_def rdmsr_value_def msr_readback_def is_mtrr_base_def is_mce_bank_def, hypsubst, simp)
  next
    case mask
    with w show ?thesis unfolding is_mtrr_mask_def
      by (elim insertE emptyE; hypsubst;
          simp add: wrmsr_value_def rdmsr_value_def msr_readback_def is_mtrr_base_def is_mtrr_mask_def is_mce_bank_def, hypsubst, simp)
  next
    case bank
    note b = bank_not [OF bank] bank_not(3) [OF bank, unfolded is_mtrr_fixed_def]
    have ne: "n \<notin> {0x174, 0x175, 0x176, 0x277, 0x2ff, 0x17a, 0x17b, 0x1a0, 0xc0000080, 0xc0000081, 0xc0010117,
        0xc0000082, 0xc0000083, 0xc0000084, 0xc0000100, 0xc0000101, 0xc0000102, 0xc0000103}"
      using bank_range [OF bank] by auto
    have "env' = (if n AND 3 \<noteq> 0 \<or> val = 0 \<or> val = NOT 0
        then env\<lparr>mce_banks := (mce_banks env)(unat (n - MSR_MC0_CTL) := val)\<rparr> else env)"
      using w b ne bank by (auto simp: wrmsr_value_def bank_offset split: if_split_asm)
    moreover have "rdmsr_value e n = Done (mce_banks e (unat (n - MSR_MC0_CTL)))" if "is_mce_bank e n" for e
      using that b ne by (auto simp: rdmsr_value_def)
    moreover have "is_mce_bank env' n" using bank calculation(1) by (simp add: is_mce_bank_def mce_limit_def)
    ultimately show ?thesis using r b ne bank by (simp add: msr_readback_def)
  next
    case ctl
    have "rdmsr_value e 0x17b = Done (if mcg_cap e AND MCG_CTL_P \<noteq> 0 then mcg_ctl e else 0)" for e
      by (simp add: rdmsr_value_def is_mtrr_base_def is_mtrr_mask_def)
    moreover have "env' = (if mcg_cap env AND MCG_CTL_P \<noteq> 0 \<and> (val = 0 \<or> val = NOT 0) then env\<lparr>mcg_ctl := val\<rparr> else env)"
      using w ctl by (simp add: wrmsr_value_def is_mtrr_base_def is_mtrr_mask_def)
    ultimately show ?thesis using r ctl by (simp add: msr_readback_def split: if_split_asm)
  next
    case named
    then have nf: "n \<noteq> 0x250" "n \<noteq> 0x258" "n \<noteq> 0x259" "\<not> (MSR_MTRRfix4K_C0000 \<le> n \<and> n \<le> MSR_MTRRfix4K_F8000)"
      unfolding is_mtrr_fixed_def by blast+
    show ?thesis
      using w r unfolding wrmsr_value_def Let_def if_not_P [OF nf(4)] if_not_P [OF nf(1)] if_not_P [OF named(5)]
      apply (simp add: nf(2,3) named split: if_split_asm)
      apply (hypsubst, simp add: rdmsr_value_def msr_readback_def
        is_mtrr_base_def is_mtrr_mask_def is_mtrr_fixed_cases efer_fields set_base_def cs_mask efer_value not_bank; fail)+
      apply (cases "n \<in> {0x198, 0xfe, 0x179}")
       apply (insert named, (auto simp: rdmsr_value_def msr_readback_def)[])
      apply (simp add: rdmsr_value_def msr_readback_def)
      done
  qed
qed

subsection \<open>The helpers\<close>

lemma wrmsr_done: "n \<noteq> MSR_IA32_APICBASE \<Longrightarrow> \<exists>env'. wrmsr_value env n val = Done env'"
  unfolding wrmsr_value_def Let_def by simp

lemma rdmsr_done: "n \<noteq> MSR_IA32_APICBASE \<Longrightarrow> \<exists>v. rdmsr_value env n = Done v"
  unfolding rdmsr_value_def by simp

lemma wrmsr_regs: "wrmsr_value env n val = Done env' \<Longrightarrow> regs env' = regs env"
  unfolding wrmsr_value_def Let_def
  by (simp split: if_split_asm; hypsubst; simp add: cpu_load_efer_def set_base_def Let_def)

lemma wrmsr_no_intercept:
  assumes "wrmsr_value env n val = Done env'" "hflags env AND HF_SVMI_MASK = 0"
  shows "hflags env' AND HF_SVMI_MASK = 0"
proof -
  have e: "hflags (cpu_load_efer env v) AND HF_SVMI_MASK = 0" for v
    using assms(2) by (simp add: cpu_load_efer_def Let_def bit.conj_disj_distrib2 and.assoc)
  show ?thesis
    using assms unfolding wrmsr_value_def Let_def
    by (simp split: if_split_asm; hypsubst; simp add: e set_base_def)
qed

lemma edx_eax_split: "edx_eax (set_reg R_EDX (ucast (ucast (drop_bit 32 v) :: u32))
    (set_reg R_EAX (ucast (ucast v :: u32)) env)) = v"
proof (rule bit_word_eqI)
  fix i assume "i < LENGTH(64)"
  then show "bit (edx_eax (set_reg R_EDX (ucast (ucast (drop_bit 32 v) :: u32))
    (set_reg R_EAX (ucast (ucast v :: u32)) env))) i = bit v i"
    by (auto simp: edx_eax_def set_reg_def bit_simps)
qed

lemma rdmsr_helper:
  assumes "hflags env AND HF_SVMI_MASK = 0" "rdmsr_value env (ucast (regs env R_ECX)) = Done v"
  shows "\<exists>env'. helper_rdmsr env = Done env' \<and> edx_eax env' = v"
  using assms by (simp add: helper_rdmsr_def Let_def edx_eax_split)

text \<open>C25. WRMSR and RDMSR of every register except the APIC base complete when nothing intercepts them,
  and a RDMSR of the same register right after the WRMSR loads \<open>EDX:EAX\<close> with what \<open>msr_readback\<close> says:
  the value written, restricted to the bits the register implements, or the old value where the write is
  ignored.\<close>

theorem msr_write_read:
  assumes "hflags env AND HF_SVMI_MASK = 0" "ucast (regs env R_ECX) \<noteq> MSR_IA32_APICBASE"
  shows "\<exists>old env1 env2. rdmsr_value env (ucast (regs env R_ECX)) = Done old \<and>
    helper_wrmsr env = Done env1 \<and> helper_rdmsr env1 = Done env2 \<and>
    edx_eax env2 = msr_readback env (ucast (regs env R_ECX)) (edx_eax env) old"
proof -
  obtain old where o: "rdmsr_value env (ucast (regs env R_ECX)) = Done old" using rdmsr_done [OF assms(2)] ..
  obtain env1 where w: "wrmsr_value env (ucast (regs env R_ECX)) (edx_eax env) = Done env1"
    using wrmsr_done [OF assms(2)] ..
  have "helper_wrmsr env = Done env1"
    using w by (simp add: helper_wrmsr_def assms(1) Let_def edx_eax_def)
  moreover have "rdmsr_value env1 (ucast (regs env1 R_ECX)) = Done (msr_readback env (ucast (regs env R_ECX)) (edx_eax env) old)"
    unfolding wrmsr_regs [OF w] by (rule wrmsr_readback [OF w o])
  ultimately show ?thesis using rdmsr_helper [OF wrmsr_no_intercept [OF w assms(1)]] o by blast
qed

text \<open>C26. Registers are independent: a WRMSR that completes leaves what RDMSR gives for every other register
  number unchanged.\<close>

theorem msr_independent:
  assumes "hflags env AND HF_SVMI_MASK = 0" "helper_wrmsr env = Done env'" "k \<noteq> ucast (regs env R_ECX)"
  shows "rdmsr_value env' k = rdmsr_value env k"
  using assms(2) other_msr [OF _ assms(3)]
  by (simp add: helper_wrmsr_def assms(1) Let_def)

subsection \<open>Bounds\<close>

text \<open>\<open>mtrr_var[8]\<close>, \<open>mtrr_fixed[11]\<close> and \<open>mce_banks[MCE_BANKS_DEF * 4]\<close> with \<open>MCE_BANKS_DEF\<close> 10.\<close>

definition same_in_bounds :: "cpu_state \<Rightarrow> cpu_state \<Rightarrow> bool" where
  "same_in_bounds env env' \<longleftrightarrow> (\<exists>vb vm f b. env' = env\<lparr>mtrr_var_base := vb, mtrr_var_mask := vm, mtrr_fixed := f, mce_banks := b\<rparr> \<and>
    (\<forall>i<8. vb i = mtrr_var_base env i \<and> vm i = mtrr_var_mask env i) \<and>
    (\<forall>i<11. f i = mtrr_fixed env i) \<and> (\<forall>i<40. b i = mce_banks env i))"

lemma place_bounds:
  "is_mtrr_base n \<Longrightarrow> unat ((n - MSR_MTRRphysBase0) div 2) < 8"
  "is_mtrr_mask n \<Longrightarrow> unat ((n - MSR_MTRRphysMask0) div 2) < 8"
  "is_mtrr_fixed n \<Longrightarrow> fixed_index n < 11"
  by (auto simp: is_mtrr_base_def is_mtrr_mask_def is_mtrr_fixed_cases fixed_index_def)

lemma bank_bound:
  assumes "is_mce_bank env n" "mce_limit env \<le> 40"
  shows "unat (n - MSR_MC0_CTL) < 40"
proof -
  have l: "unat (mce_limit env) \<le> 40" using assms(2) by (simp add: word_le_nat_alt)
  have "take_bit 64 (unat n) = unat n"
    using unsigned_less [of n, where ?'a = nat] by (intro take_bit_nat_eq_self) simp
  with l have "1024 \<le> unat n" "unat n < 1024 + unat (mce_limit env)"
    using assms(1) unfolding is_mce_bank_def
    by (simp_all add: word_less_nat_alt word_le_nat_alt unat_word_ariths unsigned_ucast_eq)
  with l bank_range(1) [OF assms(1)] show ?thesis by (simp add: unat_sub)
qed

lemma fixed_places:
  "n = 0x250 \<Longrightarrow> is_mtrr_fixed n \<and> fixed_index n = 0"
  "n = 0x258 \<or> n = 0x259 \<Longrightarrow> is_mtrr_fixed n \<and> fixed_index n = unat (n - MSR_MTRRfix16K_80000 + 1)"
  "MSR_MTRRfix4K_C0000 \<le> n \<Longrightarrow> n \<le> MSR_MTRRfix4K_F8000 \<Longrightarrow>
    is_mtrr_fixed n \<and> fixed_index n = unat (n - MSR_MTRRfix4K_C0000 + 3)"
  by (auto simp: is_mtrr_fixed_def fixed_index_def)

lemma same_in_boundsI:
  assumes "env' = env\<lparr>mtrr_var_base := vb, mtrr_var_mask := vm, mtrr_fixed := f, mce_banks := b\<rparr>"
    "\<And>i. i < 8 \<Longrightarrow> vb i = mtrr_var_base env i" "\<And>i. i < 8 \<Longrightarrow> vm i = mtrr_var_mask env i"
    "\<And>i. i < 11 \<Longrightarrow> f i = mtrr_fixed env i" "\<And>i. i < 40 \<Longrightarrow> b i = mce_banks env i"
  shows "same_in_bounds env env'"
  unfolding same_in_bounds_def using assms by blast

lemma rdmsr_in_bounds:
  assumes s: "same_in_bounds env env'" and l: "mce_limit env \<le> 40"
  shows "rdmsr_value env' n = rdmsr_value env n"
proof -
  obtain vb vm f b where e: "env' = env\<lparr>mtrr_var_base := vb, mtrr_var_mask := vm, mtrr_fixed := f, mce_banks := b\<rparr>"
    and eq: "\<And>i. i < 8 \<Longrightarrow> vb i = mtrr_var_base env i" "\<And>i. i < 8 \<Longrightarrow> vm i = mtrr_var_mask env i"
      "\<And>i. i < 11 \<Longrightarrow> f i = mtrr_fixed env i" "\<And>i. i < 40 \<Longrightarrow> b i = mce_banks env i"
    using s unfolding same_in_bounds_def by blast
  note fx = fixed_places [of n] place_bounds(3) [of n]
  show ?thesis
    by (rule rdmsr_cong; simp add: e; (rule eq)?)
      (use fx place_bounds(1,2) [of n] bank_bound [OF _ l, of n] eq(3) [of 0] in simp_all)
qed

lemma wrmsr_in_bounds:
  assumes w: "wrmsr_value env n val = Done env'" and l: "mce_limit env \<le> 40"
  shows "i \<ge> 8 \<Longrightarrow> mtrr_var_base env' i = mtrr_var_base env i \<and> mtrr_var_mask env' i = mtrr_var_mask env i"
    "i \<ge> 11 \<Longrightarrow> mtrr_fixed env' i = mtrr_fixed env i" "i \<ge> 40 \<Longrightarrow> mce_banks env' i = mce_banks env i"
proof -
  note b = place_bounds(1,2) [of n] bank_bound [OF _ l, of n]
  have fixed: "mtrr_fixed env' = (if is_mtrr_fixed n then (mtrr_fixed env)(fixed_index n := val) else mtrr_fixed env)"
  proof (cases "is_mtrr_fixed n")
    case True
    with w show ?thesis by (auto simp: wrmsr_fixed)
  next
    case False
    with fixed_places [of n] w show ?thesis
      unfolding wrmsr_value_def Let_def by (auto simp: efer_fields set_base_def split: if_split_asm)
  qed
  with place_bounds(3) [of n] show "i \<ge> 11 \<Longrightarrow> mtrr_fixed env' i = mtrr_fixed env i" by auto
  show "i \<ge> 8 \<Longrightarrow> mtrr_var_base env' i = mtrr_var_base env i \<and> mtrr_var_mask env' i = mtrr_var_mask env i"
    "i \<ge> 40 \<Longrightarrow> mce_banks env' i = mce_banks env i"
    using b w unfolding wrmsr_value_def Let_def
    by (simp split: if_split_asm; (hypsubst; simp add: efer_fields set_base_def))+
qed

lemma msr_write_read_witness:
  "\<exists>old env1 env2. rdmsr_value zero_env 0 = Done old \<and> helper_wrmsr zero_env = Done env1 \<and>
    helper_rdmsr env1 = Done env2 \<and> edx_eax env2 = msr_readback zero_env 0 (edx_eax zero_env) old"
  using msr_write_read [of zero_env] by (simp add: zero_env_def)

lemma msr_independent_witness:
  "rdmsr_value (zero_env\<lparr>regs := (\<lambda>_. 0)(R_ECX := 0x176, R_EAX := 7), sysenter_eip := 7\<rparr>) 0x175 =
    rdmsr_value (zero_env\<lparr>regs := (\<lambda>_. 0)(R_ECX := 0x176, R_EAX := 7)\<rparr>) 0x175"
  by (rule msr_independent) (simp_all add: zero_env_def helper_wrmsr_def wrmsr_value_def)

text \<open>C27. No WRMSR or RDMSR leaves the arrays of the state: when the capability register gives at most the
  ten machine-check banks the array holds, a write changes no element past the end of \<open>mtrr_var\<close>,
  \<open>mtrr_fixed\<close> or \<open>mce_banks\<close>, and what a read gives does not depend on them.\<close>

theorem msr_array_bounds:
  assumes "mce_limit env \<le> 40" "wrmsr_value env n val = Done env'"
  shows "(\<forall>i\<ge>8. mtrr_var_base env' i = mtrr_var_base env i \<and> mtrr_var_mask env' i = mtrr_var_mask env i) \<and>
    (\<forall>i\<ge>11. mtrr_fixed env' i = mtrr_fixed env i) \<and> (\<forall>i\<ge>40. mce_banks env' i = mce_banks env i) \<and>
    (\<forall>env2 k. same_in_bounds env env2 \<longrightarrow> rdmsr_value env2 k = rdmsr_value env k)"
  using wrmsr_in_bounds [OF assms(2,1)] rdmsr_in_bounds [OF _ assms(1)] by blast

lemma msr_array_bounds_witness:
  "mce_banks (zero_env\<lparr>mcg_cap := 10, mce_banks := (\<lambda>_. 0)(39 := 5)\<rparr>) 40 = 0"
proof -
  have "mce_limit (zero_env\<lparr>mcg_cap := 10\<rparr>) \<le> 40" by (simp add: mce_limit_def)
  moreover have "wrmsr_value (zero_env\<lparr>mcg_cap := 10\<rparr>) 0x427 5 =
      Done (zero_env\<lparr>mcg_cap := 10, mce_banks := (\<lambda>_. 0)(39 := 5)\<rparr>)"
    by (simp add: mce_limit_def wrmsr_value_def is_mce_bank_def is_mtrr_base_def is_mtrr_mask_def zero_env_def)
  ultimately show ?thesis
    using msr_array_bounds [of "zero_env\<lparr>mcg_cap := 10\<rparr>"] by (simp add: zero_env_def)
qed

end
