(* ===== verification/SoftMmu.thy ===== *)
theory SoftMmu
  imports DebugRegs ControlRegs
begin

text \<open>
  Guest-virtual memory accesses: \<open>include/exec/softmmu_header.h\<close> (the inline fast path),
  \<open>include/exec/softmmu_template.h\<close> (the out-of-line helpers), \<open>tlb_fill\<close> of \<open>target-i386/mem_helper.c\<close> and the
  memory callbacks of \<open>exec.c\<close> that stand behind the TLB: pages not yet dirty, watched pages, ROM, unassigned
  memory. What the accesses reach outside the CPU is a \<open>machine\<close>: the sections of the physical address space,
  the callbacks of devices, the place of RAM in the memory of the host, and the calls into the translator. A helper
  starts over after it has filled the TLB; an entry that still does not match would send it round for ever,
  which is the outcome \<open>Abort\<close> here. The library counts instructions (\<open>use_icount\<close>), so that a device may only be
  accessed by the last instruction of a translated block; any other access leaves for the CPU loop after the block
  has been translated anew (\<open>cpu_io_recompile\<close>).
\<close>

abbreviation (input) CODE_DIRTY_FLAG :: u8 where "CODE_DIRTY_FLAG \<equiv> 0x02"
abbreviation (input) BP_STOP_BEFORE_ACCESS :: u32 where "BP_STOP_BEFORE_ACCESS \<equiv> 0x04"
abbreviation (input) CPU_INTERRUPT_DEBUG :: u32 where "CPU_INTERRUPT_DEBUG \<equiv> 0x0080"
abbreviation (input) phys_section_unassigned :: u64 where "phys_section_unassigned \<equiv> 0"

record machine =
  m_section :: "u64 \<Rightarrow> tlb_section"
  m_guest :: "u64 \<Rightarrow> u64"
  m_ram_ptr :: "u64 \<Rightarrow> u64"
  m_read :: "u64 \<Rightarrow> u64 \<Rightarrow> nat \<Rightarrow> cpu_state \<Rightarrow> (cpu_state \<times> u64) outcome"
  m_write :: "u64 \<Rightarrow> u64 \<Rightarrow> u64 \<Rightarrow> nat \<Rightarrow> cpu_state \<Rightarrow> cpu_state outcome"
  m_invalidate_fast :: "u64 \<Rightarrow> nat \<Rightarrow> cpu_state \<Rightarrow> cpu_state outcome"
  m_invalidate_range :: "u64 \<Rightarrow> u64 \<Rightarrow> cpu_state \<Rightarrow> cpu_state outcome"
  m_check_watchpoint :: "cpu_state \<Rightarrow> cpu_state outcome"
  m_gen_code :: "target_ulong \<Rightarrow> target_ulong \<Rightarrow> u32 \<Rightarrow> cpu_state \<Rightarrow> cpu_state outcome"
  m_restore :: "cpu_state \<Rightarrow> cpu_state"
  m_retaddr :: u64
  m_recompile :: "cpu_state \<Rightarrow> cpu_state option"

subsection \<open>RAM\<close>

fun join_bytes :: "u8 list \<Rightarrow> u64" where
  "join_bytes [] = 0"
| "join_bytes (b # bs) = ucast b OR push_bit 8 (join_bytes bs)"

definition split_bytes :: "nat \<Rightarrow> u64 \<Rightarrow> u8 list" where
  "split_bytes n v = map (\<lambda>i. ucast (drop_bit (8 * i) v)) [0..<n]"

text \<open>\<open>ldub_p\<close> to \<open>ldq_p\<close> and \<open>stb_p\<close> to \<open>stq_p\<close> at a host address.\<close>

definition ld_raw :: "machine \<Rightarrow> nat \<Rightarrow> cpu_state \<Rightarrow> u64 \<Rightarrow> u64" where
  "ld_raw M n env host = join_bytes (map (\<lambda>i. phys_mem env (m_guest M (host + of_nat i))) [0..<n])"

fun put_bytes :: "machine \<Rightarrow> u64 \<Rightarrow> u8 list \<Rightarrow> (u64 \<Rightarrow> u8) \<Rightarrow> (u64 \<Rightarrow> u8)" where
  "put_bytes M host [] m = m"
| "put_bytes M host (b # bs) m = put_bytes M (host + 1) bs (m(m_guest M host := b))"

definition st_raw :: "machine \<Rightarrow> nat \<Rightarrow> cpu_state \<Rightarrow> u64 \<Rightarrow> u64 \<Rightarrow> cpu_state" where
  "st_raw M n env host v = env\<lparr>phys_mem := put_bytes M host (split_bytes n v) (phys_mem env)\<rparr>"

definition cpu_physical_memory_get_dirty_flags :: "cpu_state \<Rightarrow> u64 \<Rightarrow> u8" where
  "cpu_physical_memory_get_dirty_flags env a = phys_dirty env (drop_bit TARGET_PAGE_BITS a)"

definition cpu_physical_memory_is_dirty :: "cpu_state \<Rightarrow> u64 \<Rightarrow> bool" where
  "cpu_physical_memory_is_dirty env a \<longleftrightarrow> cpu_physical_memory_get_dirty_flags env a = 0xff"

definition cpu_physical_memory_set_dirty_flags :: "cpu_state \<Rightarrow> u64 \<Rightarrow> u8 \<Rightarrow> cpu_state" where
  "cpu_physical_memory_set_dirty_flags env a fl =
    (let p = drop_bit TARGET_PAGE_BITS a in env\<lparr>phys_dirty := (phys_dirty env)(p := phys_dirty env p OR fl)\<rparr>)"

definition invalidate_and_set_dirty :: "machine \<Rightarrow> u64 \<Rightarrow> u64 \<Rightarrow> cpu_state \<Rightarrow> cpu_state outcome" where
  "invalidate_and_set_dirty M addr length' env =
    (if \<not> cpu_physical_memory_is_dirty env addr then
       bind_out (m_invalidate_range M addr (addr + length') env)
         (\<lambda>env. Done (cpu_physical_memory_set_dirty_flags env addr (0xff AND NOT CODE_DIRTY_FLAG)))
     else Done env)"

text \<open>\<open>ldub_phys\<close>, \<open>lduw_phys\<close>, \<open>ldl_phys\<close>: from RAM or ROM, or from a device.\<close>

definition ram_addr :: "tlb_section \<Rightarrow> u64 \<Rightarrow> u64" where
  "ram_addr s addr = (ts_ram_addr s AND TARGET_PAGE_MASK) + ts_addr s addr"

definition ld_phys :: "machine \<Rightarrow> nat \<Rightarrow> u64 \<Rightarrow> cpu_state \<Rightarrow> (cpu_state \<times> u64) outcome" where
  "ld_phys M n addr env =
    (let s = m_section M (drop_bit TARGET_PAGE_BITS addr)
     in if \<not> (ts_ram s \<or> ts_romd s) then m_read M (ts_index s) (ts_addr s addr) n env
        else Done (env, ld_raw M n env (m_ram_ptr M (ram_addr s addr))))"

definition st_phys :: "machine \<Rightarrow> nat \<Rightarrow> u64 \<Rightarrow> u64 \<Rightarrow> cpu_state \<Rightarrow> cpu_state outcome" where
  "st_phys M n addr val env =
    (let s = m_section M (drop_bit TARGET_PAGE_BITS addr)
     in if \<not> ts_ram s then m_write M (ts_index s) (ts_addr s addr) val n env
        else if ts_readonly s then Done env
        else let addr1 = ram_addr s addr
             in invalidate_and_set_dirty M addr1 (of_nat n) (st_raw M n env (m_ram_ptr M addr1) val))"

subsection \<open>Callbacks of exec.c\<close>

definition notdirty_mem_write :: "machine \<Rightarrow> u64 \<Rightarrow> u64 \<Rightarrow> nat \<Rightarrow> cpu_state \<Rightarrow> cpu_state outcome" where
  "notdirty_mem_write M addr val size' env =
    bind_out (if cpu_physical_memory_get_dirty_flags env addr AND CODE_DIRTY_FLAG = 0
              then m_invalidate_fast M addr size' env else Done env)
      (\<lambda>env. let dirty_flags = cpu_physical_memory_get_dirty_flags env addr in
         if size' \<in> {1, 2, 4} then
           let env = st_raw M size' env (m_ram_ptr M addr) val;
               dirty_flags = dirty_flags OR (0xff AND NOT CODE_DIRTY_FLAG);
               env = cpu_physical_memory_set_dirty_flags env addr dirty_flags
           in Done (if dirty_flags = 0xff then tlb_set_dirty env (mem_io_vaddr env) else env)
         else Abort)"

definition set_wp_flags :: "nat \<Rightarrow> (u32 \<Rightarrow> u32) \<Rightarrow> cpu_state \<Rightarrow> cpu_state" where
  "set_wp_flags ref f env =
    env\<lparr>watchpoints := map (\<lambda>wp. if wp_id wp = ref then wp\<lparr>wp_flags := f (wp_flags wp)\<rparr> else wp) (watchpoints env)\<rparr>"

fun check_watchpoint_loop ::
    "machine \<Rightarrow> target_ulong \<Rightarrow> target_ulong \<Rightarrow> u32 \<Rightarrow> watchpoint list \<Rightarrow> cpu_state \<Rightarrow> cpu_state outcome" where
  "check_watchpoint_loop M vaddr len_mask flags [] env = Done env"
| "check_watchpoint_loop M vaddr len_mask flags (wp # wps) env =
    (if (vaddr = wp_vaddr wp AND len_mask \<or> vaddr AND wp_len_mask wp = wp_vaddr wp) \<and> wp_flags wp AND flags \<noteq> 0 then
       let env = set_wp_flags (wp_id wp) (\<lambda>f. f OR BP_WATCHPOINT_HIT) env
       in if watchpoint_hit env = None then
            bind_out (m_check_watchpoint M (env\<lparr>watchpoint_hit := Some (wp_id wp)\<rparr>))
              (\<lambda>env. if wp_flags wp AND BP_STOP_BEFORE_ACCESS \<noteq> 0
                 then cpu_loop_exit (env\<lparr>exception_index := EXCP_DEBUG\<rparr>)
                 else let (pc, cs_base, cpu_flags) = cpu_get_tb_cpu_state env
                      in bind_out (m_gen_code M pc cs_base cpu_flags env) cpu_resume_from_signal)
          else check_watchpoint_loop M vaddr len_mask flags wps env
     else check_watchpoint_loop M vaddr len_mask flags wps
            (set_wp_flags (wp_id wp) (\<lambda>f. f AND NOT BP_WATCHPOINT_HIT) env))"

definition check_watchpoint :: "machine \<Rightarrow> target_ulong \<Rightarrow> target_ulong \<Rightarrow> u32 \<Rightarrow> cpu_state \<Rightarrow> cpu_state outcome" where
  "check_watchpoint M offset len_mask flags env =
    (if watchpoint_hit env \<noteq> None then Done (cpu_interrupt env CPU_INTERRUPT_DEBUG)
     else check_watchpoint_loop M ((mem_io_vaddr env AND TARGET_PAGE_MASK) + offset) len_mask flags (watchpoints env) env)"

definition watch_mem_read :: "machine \<Rightarrow> u64 \<Rightarrow> nat \<Rightarrow> cpu_state \<Rightarrow> (cpu_state \<times> u64) outcome" where
  "watch_mem_read M addr size' env =
    bind_out (check_watchpoint M (addr AND NOT TARGET_PAGE_MASK) (NOT (of_nat size' - 1)) BP_MEM_READ env)
      (\<lambda>env. if size' \<in> {1, 2, 4} then ld_phys M size' addr env else Abort)"

definition watch_mem_write :: "machine \<Rightarrow> u64 \<Rightarrow> u64 \<Rightarrow> nat \<Rightarrow> cpu_state \<Rightarrow> cpu_state outcome" where
  "watch_mem_write M addr val size' env =
    bind_out (check_watchpoint M (addr AND NOT TARGET_PAGE_MASK) (NOT (of_nat size' - 1)) BP_MEM_WRITE env)
      (\<lambda>env. if size' \<in> {1, 2, 4} then st_phys M size' addr val env else Abort)"

text \<open>\<open>io_mem_read\<close> and \<open>io_mem_write\<close> on the region of a section number.\<close>

definition io_mem_read :: "machine \<Rightarrow> u64 \<Rightarrow> u64 \<Rightarrow> nat \<Rightarrow> cpu_state \<Rightarrow> (cpu_state \<times> u64) outcome" where
  "io_mem_read M sec addr size' env =
    (if sec = phys_section_watch then watch_mem_read M addr size' env
     else if sec = phys_section_notdirty \<or> sec = phys_section_rom then Abort
     else if sec = phys_section_unassigned then Done (env, 0)
     else m_read M sec addr size' env)"

definition io_mem_write :: "machine \<Rightarrow> u64 \<Rightarrow> u64 \<Rightarrow> u64 \<Rightarrow> nat \<Rightarrow> cpu_state \<Rightarrow> cpu_state outcome" where
  "io_mem_write M sec addr val size' env =
    (if sec = phys_section_watch then watch_mem_write M addr val size' env
     else if sec = phys_section_notdirty then notdirty_mem_write M addr val size' env
     else if sec = phys_section_rom \<or> sec = phys_section_unassigned then Done env
     else m_write M sec addr val size' env)"

subsection \<open>The slow path\<close>

text \<open>Widths of the generated accessors.\<close>

datatype mem_size = Byte | Word2 | Long | Quad

fun nbytes :: "mem_size \<Rightarrow> nat" where
  "nbytes Byte = 1" | "nbytes Word2 = 2" | "nbytes Long = 4" | "nbytes Quad = 8"

abbreviation data_size :: "mem_size \<Rightarrow> u64" where "data_size z \<equiv> of_nat (nbytes z)"

text \<open>The three kinds of access: \<open>addr_read\<close>, \<open>addr_write\<close>, \<open>addr_code\<close>.\<close>

datatype mem_access = Access_read | Access_write | Access_code

definition access_type :: "mem_access \<Rightarrow> u32" where
  "access_type k = (case k of Access_read \<Rightarrow> 0 | Access_write \<Rightarrow> 1 | Access_code \<Rightarrow> 2)"

definition tlb_addr :: "cpu_state \<Rightarrow> mem_access \<Rightarrow> nat \<Rightarrow> target_ulong \<Rightarrow> target_ulong" where
  "tlb_addr env k mmu_idx addr =
    (let te = tlb_table env mmu_idx (tlb_index addr)
     in case k of Access_read \<Rightarrow> addr_read te | Access_write \<Rightarrow> addr_write te | Access_code \<Rightarrow> addr_code te)"

definition tlb_host :: "cpu_state \<Rightarrow> nat \<Rightarrow> target_ulong \<Rightarrow> u64" where
  "tlb_host env mmu_idx addr = addr + addend (tlb_table env mmu_idx (tlb_index addr))"

definition tlb_match :: "cpu_state \<Rightarrow> mem_access \<Rightarrow> nat \<Rightarrow> target_ulong \<Rightarrow> bool" where
  "tlb_match env k mmu_idx addr \<longleftrightarrow>
    addr AND TARGET_PAGE_MASK = tlb_addr env k mmu_idx addr AND (TARGET_PAGE_MASK OR TLB_INVALID_MASK)"

definition tlb_fill :: "machine \<Rightarrow> cpu_state \<Rightarrow> target_ulong \<Rightarrow> u32 \<Rightarrow> nat \<Rightarrow> cpu_state outcome" where
  "tlb_fill M env addr is_write mmu_idx =
    bind_out (cpu_x86_handle_mmu_fault (m_section M) (cpu_physical_memory_is_dirty env) env addr is_write mmu_idx)
      (\<lambda>(env, ret). if ret \<noteq> 0
         then let env = m_restore M env in raise_exception_err env (exception_index env) (error_code env)
         else Done env)"

text \<open>The jump to \<open>redo\<close>.\<close>

definition tlb_ready :: "machine \<Rightarrow> mem_access \<Rightarrow> nat \<Rightarrow> target_ulong \<Rightarrow> cpu_state \<Rightarrow> cpu_state outcome" where
  "tlb_ready M k mmu_idx addr env =
    (if tlb_match env k mmu_idx addr then Done env
     else bind_out (tlb_fill M env addr (access_type k) mmu_idx)
       (\<lambda>env. if tlb_match env k mmu_idx addr then Done env else Abort))"

text \<open>The global variable \<open>use_icount\<close> as \<open>vx64_init\<close> sets it; nothing else does.\<close>

definition use_icount :: int where "use_icount = 1"

definition can_do_io :: "cpu_state \<Rightarrow> bool" where
  "can_do_io env \<longleftrightarrow> use_icount = 0 \<or> current_tb env = None \<or> can_do_io_flag env \<noteq> 0"

text \<open>What the translator does before the function leaves is \<open>m_recompile\<close>, \<open>None\<close> where it calls \<open>cpu_abort\<close>.\<close>

definition cpu_io_recompile :: "machine \<Rightarrow> cpu_state \<Rightarrow> 'a outcome" where
  "cpu_io_recompile M env =
    (case m_recompile M env of None \<Rightarrow> Abort | Some env \<Rightarrow> cpu_resume_from_signal env)"

text \<open>The test at the start of \<open>io_read\<close> and \<open>io_write\<close>.\<close>

definition io_allowed :: "machine \<Rightarrow> u64 \<Rightarrow> cpu_state \<Rightarrow> cpu_state outcome" where
  "io_allowed M sec env =
    (if sec \<noteq> phys_section_rom \<and> sec \<noteq> phys_section_unassigned \<and> sec \<noteq> phys_section_notdirty \<and> \<not> can_do_io env
     then cpu_io_recompile M env else Done env)"

definition io_read :: "machine \<Rightarrow> mem_size \<Rightarrow> u64 \<Rightarrow> target_ulong \<Rightarrow> cpu_state \<Rightarrow> (cpu_state \<times> u64) outcome" where
  "io_read M z physaddr addr env =
    (let sec = physaddr AND NOT TARGET_PAGE_MASK;
         physaddr = (physaddr AND TARGET_PAGE_MASK) + addr
     in bind_out (io_allowed M sec (env\<lparr>mem_io_pc := m_retaddr M\<rparr>)) (\<lambda>env.
        let env = env\<lparr>mem_io_vaddr := addr\<rparr>
        in if z \<noteq> Quad then
             bind_out (io_mem_read M sec physaddr (nbytes z) env) (\<lambda>(env, res). Done (env, take_bit (8 * nbytes z) res))
           else bind_out (io_mem_read M sec physaddr 4 env) (\<lambda>(env, res).
                  bind_out (io_mem_read M sec (physaddr + 4) 4 env) (\<lambda>(env, h). Done (env, res OR push_bit 32 h)))))"

definition io_write :: "machine \<Rightarrow> mem_size \<Rightarrow> u64 \<Rightarrow> u64 \<Rightarrow> target_ulong \<Rightarrow> cpu_state \<Rightarrow> cpu_state outcome" where
  "io_write M z physaddr val addr env =
    (let sec = physaddr AND NOT TARGET_PAGE_MASK;
         physaddr = (physaddr AND TARGET_PAGE_MASK) + addr
     in bind_out (io_allowed M sec env) (\<lambda>env.
        let env = env\<lparr>mem_io_vaddr := addr, mem_io_pc := m_retaddr M\<rparr>
        in if z \<noteq> Quad then io_mem_write M sec physaddr val (nbytes z) env
           else bind_out (io_mem_write M sec physaddr (take_bit 32 val) 4 env) (\<lambda>env.
                  io_mem_write M sec (physaddr + 4) (drop_bit 32 val) 4 env)))"

definition spans_pages :: "mem_size \<Rightarrow> target_ulong \<Rightarrow> bool" where
  "spans_pages z addr \<longleftrightarrow> (addr AND NOT TARGET_PAGE_MASK) + data_size z - 1 \<ge> TARGET_PAGE_SIZE"

definition misaligned :: "mem_size \<Rightarrow> target_ulong \<Rightarrow> bool" where
  "misaligned z addr \<longleftrightarrow> addr AND (data_size z - 1) \<noteq> 0"

text \<open>The body of \<open>helper_ld\<close> and \<open>slow_ld\<close>, which differ in what they do with an access over two pages.\<close>

definition ld_body :: "machine \<Rightarrow> mem_access \<Rightarrow> mem_size \<Rightarrow> nat \<Rightarrow>
    (target_ulong \<Rightarrow> cpu_state \<Rightarrow> (cpu_state \<times> u64) outcome) \<Rightarrow> target_ulong \<Rightarrow> cpu_state \<Rightarrow> (cpu_state \<times> u64) outcome" where
  "ld_body M k z mmu_idx unaligned addr env =
    bind_out (tlb_ready M k mmu_idx addr env) (\<lambda>env.
      if tlb_addr env k mmu_idx addr AND NOT TARGET_PAGE_MASK \<noteq> 0 then
        if misaligned z addr then unaligned addr env
        else io_read M z (iotlb env mmu_idx (tlb_index addr)) addr env
      else if spans_pages z addr then unaligned addr env
      else Done (env, ld_raw M (nbytes z) env (tlb_host env mmu_idx addr)))"

definition ld_unaligned :: "mem_size \<Rightarrow>
    (target_ulong \<Rightarrow> cpu_state \<Rightarrow> (cpu_state \<times> u64) outcome) \<Rightarrow> target_ulong \<Rightarrow> cpu_state \<Rightarrow> (cpu_state \<times> u64) outcome" where
  "ld_unaligned z slow addr env =
    (let addr1 = addr AND NOT (data_size z - 1); addr2 = addr1 + data_size z;
         shift = unat (addr AND (data_size z - 1)) * 8
     in bind_out (slow addr1 env) (\<lambda>(env, res1). bind_out (slow addr2 env) (\<lambda>(env, res2).
          Done (env, take_bit (8 * nbytes z) (drop_bit shift res1 OR push_bit (nbytes z * 8 - shift) res2)))))"

text \<open>The two recursive calls of \<open>slow_ld\<close> have aligned addresses and make no further ones.\<close>

definition slow_ld where
  "slow_ld M k z mmu_idx =
    ld_body M k z mmu_idx (ld_unaligned z (ld_body M k z mmu_idx (\<lambda>addr env. Abort)))"

definition helper_ld where
  "helper_ld M k z mmu_idx = ld_body M k z mmu_idx (slow_ld M k z mmu_idx)"

definition st_body :: "machine \<Rightarrow> mem_size \<Rightarrow> nat \<Rightarrow>
    (target_ulong \<Rightarrow> u64 \<Rightarrow> cpu_state \<Rightarrow> cpu_state outcome) \<Rightarrow> target_ulong \<Rightarrow> u64 \<Rightarrow> cpu_state \<Rightarrow> cpu_state outcome" where
  "st_body M z mmu_idx unaligned addr val env =
    bind_out (tlb_ready M Access_write mmu_idx addr env) (\<lambda>env.
      if tlb_addr env Access_write mmu_idx addr AND NOT TARGET_PAGE_MASK \<noteq> 0 then
        if misaligned z addr then unaligned addr val env
        else io_write M z (iotlb env mmu_idx (tlb_index addr)) val addr env
      else if spans_pages z addr then unaligned addr val env
      else Done (st_raw M (nbytes z) env (tlb_host env mmu_idx addr) val))"

text \<open>A single byte is never unaligned.\<close>

definition slow_stb where "slow_stb M mmu_idx = st_body M Byte mmu_idx (\<lambda>addr val env. Abort)"
definition slow_ldb where "slow_ldb M mmu_idx = slow_ld M Access_read Byte mmu_idx"

text \<open>Both loops run from the last byte down to the first.\<close>

fun probe_bytes :: "machine \<Rightarrow> nat \<Rightarrow> target_ulong \<Rightarrow> nat \<Rightarrow> cpu_state \<Rightarrow> cpu_state outcome" where
  "probe_bytes M mmu_idx addr 0 env = Done env"
| "probe_bytes M mmu_idx addr (Suc i) env =
    bind_out (slow_ldb M mmu_idx (addr + of_nat i) env) (\<lambda>(env, origin_val).
      bind_out (slow_stb M mmu_idx (addr + of_nat i) origin_val env) (probe_bytes M mmu_idx addr i))"

fun store_bytes :: "machine \<Rightarrow> nat \<Rightarrow> target_ulong \<Rightarrow> u64 \<Rightarrow> nat \<Rightarrow> cpu_state \<Rightarrow> cpu_state outcome" where
  "store_bytes M mmu_idx addr val 0 env = Done env"
| "store_bytes M mmu_idx addr val (Suc i) env =
    bind_out (slow_stb M mmu_idx (addr + of_nat i) (take_bit 8 (drop_bit (i * 8) val)) env)
      (store_bytes M mmu_idx addr val i)"

definition slow_st where
  "slow_st M z mmu_idx = st_body M z mmu_idx (\<lambda>addr val env.
    bind_out (probe_bytes M mmu_idx addr (nbytes z) env) (store_bytes M mmu_idx addr val (nbytes z)))"

definition helper_st where
  "helper_st M z mmu_idx = st_body M z mmu_idx (slow_st M z mmu_idx)"

subsection \<open>The fast path\<close>

definition tlb_fast :: "cpu_state \<Rightarrow> mem_access \<Rightarrow> mem_size \<Rightarrow> nat \<Rightarrow> target_ulong \<Rightarrow> bool" where
  "tlb_fast env k z mmu_idx addr \<longleftrightarrow>
    tlb_addr env k mmu_idx addr = addr AND (TARGET_PAGE_MASK OR (data_size z - 1))"

definition cpu_ld :: "machine \<Rightarrow> mem_access \<Rightarrow> mem_size \<Rightarrow> nat \<Rightarrow> target_ulong \<Rightarrow> cpu_state \<Rightarrow> (cpu_state \<times> u64) outcome" where
  "cpu_ld M k z mmu_idx addr env =
    (if \<not> tlb_fast env k z mmu_idx addr then helper_ld M k z mmu_idx addr env
     else Done (env, ld_raw M (nbytes z) env (tlb_host env mmu_idx addr)))"

definition cpu_st :: "machine \<Rightarrow> mem_size \<Rightarrow> nat \<Rightarrow> target_ulong \<Rightarrow> u64 \<Rightarrow> cpu_state \<Rightarrow> cpu_state outcome" where
  "cpu_st M z mmu_idx addr val env =
    (if \<not> tlb_fast env Access_write z mmu_idx addr then helper_st M z mmu_idx addr val env
     else Done (st_raw M (nbytes z) env (tlb_host env mmu_idx addr) val))"

text \<open>The \<open>_kernel\<close> accessors use the mode 0, the \<open>_data\<close> accessors that of the current privilege level.\<close>

definition cpu_ld_kernel :: "machine \<Rightarrow> mem_size \<Rightarrow> cpu_state \<Rightarrow> target_ulong \<Rightarrow> (cpu_state \<times> u64) outcome" where
  "cpu_ld_kernel M z env addr = cpu_ld M Access_read z 0 addr env"

definition cpu_st_kernel :: "machine \<Rightarrow> mem_size \<Rightarrow> cpu_state \<Rightarrow> target_ulong \<Rightarrow> u64 \<Rightarrow> cpu_state outcome" where
  "cpu_st_kernel M z env addr val = cpu_st M z 0 addr val env"

definition cpu_ld_data :: "machine \<Rightarrow> mem_size \<Rightarrow> cpu_state \<Rightarrow> target_ulong \<Rightarrow> (cpu_state \<times> u64) outcome" where
  "cpu_ld_data M z env addr = cpu_ld M Access_read z (cpu_mmu_index env) addr env"

definition cpu_st_data :: "machine \<Rightarrow> mem_size \<Rightarrow> cpu_state \<Rightarrow> target_ulong \<Rightarrow> u64 \<Rightarrow> cpu_state outcome" where
  "cpu_st_data M z env addr val = cpu_st M z (cpu_mmu_index env) addr val env"

end
