(* ===== verification/SoftMmuFrame.thy ===== *)
theory SoftMmuFrame
  imports SoftMmu MmuWalk
begin

text \<open>
  What a memory access leaves alone: when it completes, every register of the CPU is as before, provided the
  callbacks of the machine keep to that (\<open>quiet\<close>). The contract is the locale \<open>kernel_memory\<close>, with the lemmas of
  its clients; the \<open>_kernel\<close> and the \<open>_data\<close> accessors both satisfy it.
\<close>

subsection \<open>Postconditions\<close>

text \<open>\<open>Q\<close> holds of the result if the operation completes.\<close>

definition post :: "('a \<Rightarrow> bool) \<Rightarrow> 'a outcome \<Rightarrow> bool" where
  "post Q r \<longleftrightarrow> (case r of Done x \<Rightarrow> Q x | _ \<Rightarrow> True)"

lemma post_simps [simp]:
  "post Q (Done x) \<longleftrightarrow> Q x" "post Q (LoopExit e)" "post Q (VmExit c p e)" "post Q Abort"
  by (simp_all add: post_def)

lemma post_True [simp]: "post (\<lambda>_. True) r" by (cases r) simp_all

lemma post_bind: "post R r \<Longrightarrow> (\<And>x. R x \<Longrightarrow> post Q (f x)) \<Longrightarrow> post Q (bind_out r f)"
  by (cases r) (auto simp: bind_out_def)

lemma post_mono: "post R r \<Longrightarrow> (\<And>x. R x \<Longrightarrow> Q x) \<Longrightarrow> post Q r"
  by (cases r) auto

lemma post_if: "(b \<Longrightarrow> post Q r) \<Longrightarrow> (\<not> b \<Longrightarrow> post Q s) \<Longrightarrow> post Q (if b then r else s)"
  by simp

lemma post_DoneD: "post Q r \<Longrightarrow> r = Done x \<Longrightarrow> Q x" by simp

lemma bind_assoc: "bind_out (bind_out r f) g = bind_out r (\<lambda>x. bind_out (f x) g)"
  by (cases r) (simp_all add: bind_out_def)

lemma bind_Done [simp]: "bind_out (Done x) f = f x" "bind_out (LoopExit e) f = LoopExit e" "bind_out Abort f = Abort"
  "bind_out (VmExit c p e) f = VmExit c p e"
  by (simp_all add: bind_out_def)

lemma bind_eq_Done: "bind_out r f = Done y \<longleftrightarrow> (\<exists>x. r = Done x \<and> f x = Done y)"
  by (cases r) simp_all

lemma loop_exit_post [simp]: "post Q (cpu_loop_exit env)"
  by (simp add: cpu_loop_exit_def)

lemma raise_post [simp]: "post Q (raise_exception_err env n err)" "post Q (raise_exception env n)"
  by (auto simp: raise_exception_err_def raise_exception_def raise_interrupt2_def Let_def split: prod.splits intro!: post_bind [where R = "\<lambda>_. True"])

subsection \<open>Registers\<close>

definition same_cpu :: "cpu_state \<Rightarrow> cpu_state \<Rightarrow> bool" where
  "same_cpu e e' \<longleftrightarrow>
    regs e' = regs e \<and> eip e' = eip e \<and> eflags e' = eflags e \<and> cc_src e' = cc_src e \<and> cc_dst e' = cc_dst e \<and> cc_op e' = cc_op e
    \<and> df e' = df e \<and> hflags e' = hflags e \<and> hflags2 e' = hflags2 e \<and> segs e' = segs e \<and> ldt e' = ldt e \<and> tr e' = tr e
    \<and> gdt e' = gdt e \<and> idt e' = idt e \<and> cr e' = cr e \<and> a20_mask e' = a20_mask e \<and> efer e' = efer e \<and> star e' = star e
    \<and> lstar e' = lstar e \<and> cstar e' = cstar e \<and> fmask e' = fmask e \<and> sysenter_cs e' = sysenter_cs e
    \<and> sysenter_esp e' = sysenter_esp e \<and> sysenter_eip e' = sysenter_eip e \<and> dr e' = dr e \<and> old_exception e' = old_exception e"

lemma same_cpu_refl [simp]: "same_cpu e e" by (simp add: same_cpu_def)

lemma same_cpu_trans [trans]: "same_cpu e f \<Longrightarrow> same_cpu f g \<Longrightarrow> same_cpu e g" by (simp add: same_cpu_def)

lemma same_cpu_update [simp]:
  "same_cpu e (f\<lparr>phys_mem := m\<rparr>) = same_cpu e f" "same_cpu e (f\<lparr>phys_dirty := d\<rparr>) = same_cpu e f"
  "same_cpu e (f\<lparr>tlb_table := t\<rparr>) = same_cpu e f" "same_cpu e (f\<lparr>iotlb := i\<rparr>) = same_cpu e f"
  "same_cpu e (f\<lparr>tlb_flush_addr := a\<rparr>) = same_cpu e f" "same_cpu e (f\<lparr>tlb_flush_mask := a\<rparr>) = same_cpu e f"
  "same_cpu e (f\<lparr>mem_io_vaddr := a\<rparr>) = same_cpu e f" "same_cpu e (f\<lparr>watchpoints := w\<rparr>) = same_cpu e f"
  "same_cpu e (f\<lparr>watchpoint_hit := h\<rparr>) = same_cpu e f" "same_cpu e (f\<lparr>interrupt_request := q\<rparr>) = same_cpu e f"
  "same_cpu e (f\<lparr>current_tb := c\<rparr>) = same_cpu e f" "same_cpu (f\<lparr>mem_io_vaddr := a\<rparr>) e = same_cpu f e"
  "same_cpu e (f\<lparr>mem_io_pc := p\<rparr>) = same_cpu e f" "same_cpu (f\<lparr>mem_io_pc := p\<rparr>) e = same_cpu f e"
  by (simp_all add: same_cpu_def)

lemma same_cpu_sym: "same_cpu e f \<Longrightarrow> same_cpu f e" by (simp add: same_cpu_def)

text \<open>A machine whose callbacks leave the registers alone.\<close>

definition quiet :: "machine \<Rightarrow> bool" where
  "quiet M \<longleftrightarrow>
    (\<forall>s a n env. post (\<lambda>(env', v). same_cpu env env') (m_read M s a n env)) \<and>
    (\<forall>s a v n env. post (same_cpu env) (m_write M s a v n env)) \<and>
    (\<forall>a n env. post (same_cpu env) (m_invalidate_fast M a n env)) \<and>
    (\<forall>a b env. post (same_cpu env) (m_invalidate_range M a b env))"

lemma quietD:
  assumes "quiet M"
  shows "post (\<lambda>(env', v). same_cpu env env') (m_read M s a n env)" "post (same_cpu env) (m_write M s a v n env)"
    "post (same_cpu env) (m_invalidate_fast M a n env)" "post (same_cpu env) (m_invalidate_range M a b env)"
  using assms by (simp_all add: quiet_def)

subsection \<open>The accesses\<close>

named_theorems keeps \<open>the registers an operation leaves alone\<close>

lemma tlb_only_same: "tlb_only e f \<Longrightarrow> same_cpu e f"
  unfolding tlb_only_def by (erule ssubst) simp

lemma ad_update_same: "ad_update al e f \<Longrightarrow> same_cpu e f"
  by (auto simp: ad_update_def)

lemma handler_same:
  assumes "cpu_x86_handle_mmu_fault sect dirty env addr w m = Done (env', 0)"
  shows "same_cpu env env'"
proof (cases "cr env 0 AND CR0_PG_MASK_64 = 0")
  case True
  then show ?thesis
    by (rule handler_off [where sect = sect and dirty = dirty and addr = addr and w = w and m = m])
      (use assms in \<open>auto dest: tlb_only_same\<close>)
next
  case False
  then show ?thesis
    by (cases rule: handler_on [where sect = sect and dirty = dirty and addr = addr and w = w and m = m])
      (use assms in \<open>auto dest: tlb_only_same ad_update_same intro: same_cpu_trans\<close>)
qed

lemma tlb_fill_keeps [keeps]: "post (same_cpu env) (tlb_fill M env addr w m)"
proof -
  obtain env' r where h: "cpu_x86_handle_mmu_fault (m_section M) (cpu_physical_memory_is_dirty env) env addr w m = Done (env', r)"
    by (rule handler_done)
  then show ?thesis using handler_same by (auto simp: tlb_fill_def Let_def)
qed

lemma tlb_ready_keeps [keeps]: "post (same_cpu env) (tlb_ready M k m addr env)"
  unfolding tlb_ready_def by (auto intro!: post_bind [OF tlb_fill_keeps])

lemma memory_same [simp]:
  "same_cpu e (st_raw M n f host v) = same_cpu e f"
  "same_cpu e (cpu_physical_memory_set_dirty_flags f a fl) = same_cpu e f" "same_cpu e (tlb_set_dirty f w) = same_cpu e f"
  "same_cpu e (set_wp_flags r g f) = same_cpu e f" "same_cpu (st_raw M n f host v) e = same_cpu f e"
  by (simp_all add: st_raw_def cpu_physical_memory_set_dirty_flags_def tlb_set_dirty_def tlb_modify_def set_wp_flags_def Let_def same_cpu_def)

lemma invalidate_keeps [keeps]: "quiet M \<Longrightarrow> post (same_cpu env) (invalidate_and_set_dirty M a n env)"
  unfolding invalidate_and_set_dirty_def
  by (auto intro!: post_bind [OF quietD(4)] intro: same_cpu_trans)

lemma ld_phys_keeps [keeps]: "quiet M \<Longrightarrow> post (\<lambda>(env', v). same_cpu env env') (ld_phys M n a env)"
  by (auto simp: ld_phys_def Let_def quietD)

lemma st_phys_keeps [keeps]: "quiet M \<Longrightarrow> post (same_cpu env) (st_phys M n a v env)"
  by (auto simp: st_phys_def Let_def quietD intro: post_mono [OF invalidate_keeps])

lemma notdirty_keeps [keeps]: "quiet M \<Longrightarrow> post (same_cpu env) (notdirty_mem_write M a v n env)"
  unfolding notdirty_mem_write_def
  by (rule post_bind [where R = "same_cpu env"])
    (auto simp: quietD Let_def)

lemma watch_loop_keeps [keeps]: "same_cpu e env \<Longrightarrow> post (same_cpu e) (check_watchpoint_loop M v lm fl wps env)"
proof (induction wps arbitrary: env)
  case (Cons wp wps)
  have leave: "post (same_cpu e) (bind_out r (\<lambda>env. if b then cpu_loop_exit (f env)
      else case g env of (pc, cs_base, cpu_flags) \<Rightarrow> bind_out (h pc cs_base cpu_flags env) cpu_resume_from_signal))"
    for r b f and g :: "cpu_state \<Rightarrow> target_ulong \<times> target_ulong \<times> u32" and h
    by (rule post_bind [where R = "\<lambda>_. True"])
      (auto simp: cpu_resume_from_signal_def split: prod.splits intro!: post_bind [where R = "\<lambda>_. True"])
  show ?case unfolding check_watchpoint_loop.simps Let_def using Cons by (simp add: leave)
qed simp

lemma watchpoint_keeps [keeps]: "post (same_cpu env) (check_watchpoint M off lm fl env)"
  by (auto simp: check_watchpoint_def cpu_interrupt_def cpu_unlink_tb_def watch_loop_keeps)

lemma io_mem_keeps [keeps]:
  "quiet M \<Longrightarrow> post (\<lambda>(env', v). same_cpu env env') (io_mem_read M sec a n env)"
  "quiet M \<Longrightarrow> post (same_cpu env) (io_mem_write M sec a v n env)"
proof -
  assume q: "quiet M"
  have "post (\<lambda>(env', v). same_cpu env env') (watch_mem_read M a n env)"
    unfolding watch_mem_read_def
    by (rule post_bind [OF watchpoint_keeps]) (auto intro: post_mono [OF ld_phys_keeps [OF q]] same_cpu_trans)
  with q show "post (\<lambda>(env', v). same_cpu env env') (io_mem_read M sec a n env)" by (simp add: io_mem_read_def quietD)
  have "post (same_cpu env) (watch_mem_write M a v n env)"
    unfolding watch_mem_write_def
    by (rule post_bind [OF watchpoint_keeps]) (auto intro: post_mono [OF st_phys_keeps [OF q]] same_cpu_trans)
  with q show "post (same_cpu env) (io_mem_write M sec a v n env)" by (simp add: io_mem_write_def quietD notdirty_keeps)
qed

lemma io_allowed_keeps [keeps]: "post (\<lambda>env'. env' = env) (io_allowed M sec env)"
  by (simp add: io_allowed_def cpu_io_recompile_def cpu_resume_from_signal_def split: option.split)

lemma io_read_keeps [keeps]: "quiet M \<Longrightarrow> post (\<lambda>(env', v). same_cpu env env') (io_read M z p a env)"
proof -
  assume q: "quiet M"
  have io: "post (\<lambda>(env', v). same_cpu env env') (io_mem_read M sec a n f)" if "same_cpu env f" for sec a n f
    by (rule post_mono [OF io_mem_keeps(1) [OF q]]) (use that in \<open>auto intro: same_cpu_trans\<close>)
  show ?thesis
    unfolding io_read_def Let_def
    by (rule post_bind [OF io_allowed_keeps])
      (auto intro!: post_if post_bind [OF io] post_bind [OF io_mem_keeps(1) [OF q]] intro: same_cpu_trans)
qed

lemma io_write_keeps [keeps]: "quiet M \<Longrightarrow> post (same_cpu env) (io_write M z p v a env)"
proof -
  assume q: "quiet M"
  have io: "post (same_cpu env) (io_mem_write M sec a v n f)" if "same_cpu env f" for sec a v n f
    by (rule post_mono [OF io_mem_keeps(2) [OF q]]) (use that in \<open>auto intro: same_cpu_trans\<close>)
  show ?thesis
    unfolding io_write_def Let_def
    by (rule post_bind [OF io_allowed_keeps]) (hypsubst, intro post_if io post_bind [OF io], simp_all)
qed

definition keeps_ld :: "(target_ulong \<Rightarrow> cpu_state \<Rightarrow> (cpu_state \<times> u64) outcome) \<Rightarrow> bool" where
  "keeps_ld f \<longleftrightarrow> (\<forall>addr env. post (\<lambda>(env', v). same_cpu env env') (f addr env))"

definition keeps_st :: "(target_ulong \<Rightarrow> u64 \<Rightarrow> cpu_state \<Rightarrow> cpu_state outcome) \<Rightarrow> bool" where
  "keeps_st f \<longleftrightarrow> (\<forall>addr v env. post (same_cpu env) (f addr v env))"

lemma keeps_ldD: "keeps_ld f \<Longrightarrow> same_cpu e env \<Longrightarrow> post (\<lambda>(env', v). same_cpu e env') (f addr env)"
  unfolding keeps_ld_def by (rule post_mono [of "\<lambda>(env', v). same_cpu env env'"]) (auto intro: same_cpu_trans)

lemma keeps_stD: "keeps_st f \<Longrightarrow> same_cpu e env \<Longrightarrow> post (same_cpu e) (f addr v env)"
  unfolding keeps_st_def by (rule post_mono [of "same_cpu env"]) (auto intro: same_cpu_trans)

lemma ld_body_keeps: "quiet M \<Longrightarrow> keeps_ld u \<Longrightarrow> keeps_ld (ld_body M k z m u)"
  unfolding keeps_ld_def [of "ld_body M k z m u"] ld_body_def
  by (auto intro!: post_bind [OF tlb_ready_keeps] post_if intro: keeps_ldD post_mono [OF io_read_keeps] same_cpu_trans)

lemma ld_unaligned_keeps: "keeps_ld s \<Longrightarrow> keeps_ld (ld_unaligned z s)"
  unfolding keeps_ld_def [of "ld_unaligned z s"] ld_unaligned_def Let_def
  by (auto intro!: post_bind [OF keeps_ldD])

lemma st_body_keeps: "quiet M \<Longrightarrow> keeps_st u \<Longrightarrow> keeps_st (st_body M z m u)"
  unfolding keeps_st_def [of "st_body M z m u"] st_body_def
  by (auto intro!: post_bind [OF tlb_ready_keeps] post_if intro: keeps_stD post_mono [OF io_write_keeps] same_cpu_trans)

lemma slow_ld_keeps: "quiet M \<Longrightarrow> keeps_ld (slow_ld M k z m)"
  unfolding slow_ld_def by (intro ld_body_keeps ld_unaligned_keeps) (simp_all add: keeps_ld_def)

lemma slow_stb_keeps: "quiet M \<Longrightarrow> keeps_st (slow_stb M m)"
  unfolding slow_stb_def by (intro st_body_keeps) (simp_all add: keeps_st_def)

lemma probe_keeps: "quiet M \<Longrightarrow> same_cpu e env \<Longrightarrow> post (same_cpu e) (probe_bytes M m addr n env)"
proof (induction n arbitrary: env)
  case (Suc n)
  then show ?case
    by (auto intro!: post_bind [OF keeps_ldD [OF slow_ld_keeps]] post_bind [OF keeps_stD [OF slow_stb_keeps]] simp: slow_ldb_def)
qed simp

lemma store_keeps: "quiet M \<Longrightarrow> same_cpu e env \<Longrightarrow> post (same_cpu e) (store_bytes M m addr v n env)"
proof (induction n arbitrary: env)
  case (Suc n)
  then show ?case by (auto intro!: post_bind [OF keeps_stD [OF slow_stb_keeps]])
qed simp

lemma slow_st_keeps: "quiet M \<Longrightarrow> keeps_st (slow_st M z m)"
  unfolding slow_st_def
  by (intro st_body_keeps) (auto simp: keeps_st_def intro!: post_bind [OF probe_keeps] store_keeps)

lemma cpu_ld_keeps: "quiet M \<Longrightarrow> keeps_ld (cpu_ld M k z m)"
  using keeps_ldD [OF ld_body_keeps [OF _ slow_ld_keeps]]
  unfolding keeps_ld_def [of "cpu_ld M k z m"] cpu_ld_def helper_ld_def by auto

lemma cpu_st_keeps: "quiet M \<Longrightarrow> keeps_st (cpu_st M z m)"
  using keeps_stD [OF st_body_keeps [OF _ slow_st_keeps]]
  unfolding keeps_st_def [of "cpu_st M z m"] cpu_st_def helper_st_def by auto

subsection \<open>The contract\<close>

locale kernel_memory =
  fixes M :: machine
    and ld :: "mem_size \<Rightarrow> cpu_state \<Rightarrow> target_ulong \<Rightarrow> (cpu_state \<times> u64) outcome"
    and st :: "mem_size \<Rightarrow> cpu_state \<Rightarrow> target_ulong \<Rightarrow> u64 \<Rightarrow> cpu_state outcome"
  assumes ld_same: "quiet M \<Longrightarrow> post (\<lambda>(env', v). same_cpu env env') (ld z env addr)"
    and st_same: "quiet M \<Longrightarrow> post (same_cpu env) (st z env addr v)"
begin

lemma ld_from: "quiet M \<Longrightarrow> same_cpu e env \<Longrightarrow> post (\<lambda>(env', v). same_cpu e env') (ld z env addr)"
  by (rule post_mono [OF ld_same]) (auto intro: same_cpu_trans)

lemma st_from: "quiet M \<Longrightarrow> same_cpu e env \<Longrightarrow> post (same_cpu e) (st z env addr v)"
  by (rule post_mono [OF st_same]) (auto intro: same_cpu_trans)

end

interpretation kernel: kernel_memory M "cpu_ld_kernel M" "cpu_st_kernel M" for M
  by unfold_locales
    (auto simp: cpu_ld_kernel_def cpu_st_kernel_def intro: keeps_ldD [OF cpu_ld_keeps] keeps_stD [OF cpu_st_keeps])

interpretation data: kernel_memory M "cpu_ld_data M" "cpu_st_data M" for M
  by unfold_locales
    (auto simp: cpu_ld_data_def cpu_st_data_def intro: keeps_ldD [OF cpu_ld_keeps] keeps_stD [OF cpu_st_keeps])

end
