(* ===== verification/Seg.thy ===== *)
theory Seg
  imports SoftMmuFrame
begin

text \<open>
  \<open>target-i386/seg_helper.c\<close>: descriptors, loading segment registers, task switches, interrupts and exceptions, far
  jumps, calls and returns, system calls, and the instructions that inspect descriptors. Each function is
  one definition, in the order of its statements; \<open>check\<close> is the statement \<open>if (bad) raise_exception_err(...)\<close>. Where a
  function forks into cases of its own (inner or same privilege, task gates, return to vm86 mode) the case is a definition.
  \<open>int\<close> and \<open>uint32_t\<close> are 32-bit words. Logging is left out.
\<close>

abbreviation (input) DESC_S_MASK :: u32 where "DESC_S_MASK \<equiv> 0x1000"
abbreviation (input) DESC_A_MASK :: u32 where "DESC_A_MASK \<equiv> 0x100"
abbreviation (input) DESC_CS_MASK :: u32 where "DESC_CS_MASK \<equiv> 0x800"
abbreviation (input) DESC_C_MASK :: u32 where "DESC_C_MASK \<equiv> 0x400"
abbreviation (input) DESC_R_MASK :: u32 where "DESC_R_MASK \<equiv> 0x200"
abbreviation (input) DESC_W_MASK :: u32 where "DESC_W_MASK \<equiv> 0x200"
abbreviation (input) DESC_TSS_BUSY_MASK :: u32 where "DESC_TSS_BUSY_MASK \<equiv> 0x200"
abbreviation (input) DESC_DPL3 :: u32 where "DESC_DPL3 \<equiv> 0x6000"
abbreviation (input) IOPL_MASK :: "'a::len word" where "IOPL_MASK \<equiv> 0x3000"
abbreviation (input) NT_MASK :: "'a::len word" where "NT_MASK \<equiv> 0x4000"
abbreviation (input) VIF_MASK :: "'a::len word" where "VIF_MASK \<equiv> 0x80000"
abbreviation (input) VIP_MASK :: "'a::len word" where "VIP_MASK \<equiv> 0x100000"
abbreviation (input) ID_MASK :: "'a::len word" where "ID_MASK \<equiv> 0x200000"
abbreviation (input) HF2_NMI_MASK :: u32 where "HF2_NMI_MASK \<equiv> 0x4"
abbreviation (input) EXCP0A_TSS :: int where "EXCP0A_TSS \<equiv> 10"
abbreviation (input) EXCP0B_NOSEG :: int where "EXCP0B_NOSEG \<equiv> 11"
abbreviation (input) EXCP0C_STACK :: int where "EXCP0C_STACK \<equiv> 12"
abbreviation (input) VMCB_EVENT_INJ :: u64 where "VMCB_EVENT_INJ \<equiv> 0xa8"
abbreviation (input) VMCB_EVENT_INJ_ERR :: u64 where "VMCB_EVENT_INJ_ERR \<equiv> 0xac"
abbreviation (input) SVM_EVTINJ_TYPE_EXEPT :: u32 where "SVM_EVTINJ_TYPE_EXEPT \<equiv> 0x300"
abbreviation (input) SVM_EVTINJ_TYPE_SOFT :: u32 where "SVM_EVTINJ_TYPE_SOFT \<equiv> 0x400"
abbreviation (input) SVM_EVTINJ_VALID :: u32 where "SVM_EVTINJ_VALID \<equiv> 0x80000000"
abbreviation (input) SVM_EVTINJ_VALID_ERR :: u32 where "SVM_EVTINJ_VALID_ERR \<equiv> 0x800"

definition check :: "cpu_state \<Rightarrow> bool \<Rightarrow> int \<Rightarrow> u32 \<Rightarrow> 'a outcome \<Rightarrow> 'a outcome" where
  "check env bad excp err rest = (if bad then raise_exception_err env excp err else rest)"

definition cpl_of :: "cpu_state \<Rightarrow> u32" where
  "cpl_of env = hflags env AND HF_CPL_MASK"

definition cpu_compute_eflags :: "cpu_state \<Rightarrow> u32" where
  "cpu_compute_eflags env = ucast (eflags env) OR helper_cc_compute_all env (cc_op env) OR (df env AND DF_MASK)"

subsection \<open>Accessors\<close>

definition cpu_ldub_kernel :: "machine \<Rightarrow> cpu_state \<Rightarrow> target_ulong \<Rightarrow> (cpu_state \<times> u32) outcome" where
  "cpu_ldub_kernel M env a = bind_out (cpu_ld_kernel M Byte env a) (\<lambda>(env, v). Done (env, ucast (ucast v :: u8)))"
definition cpu_lduw_kernel :: "machine \<Rightarrow> cpu_state \<Rightarrow> target_ulong \<Rightarrow> (cpu_state \<times> u32) outcome" where
  "cpu_lduw_kernel M env a = bind_out (cpu_ld_kernel M Word2 env a) (\<lambda>(env, v). Done (env, ucast (ucast v :: u16)))"
definition cpu_ldl_kernel :: "machine \<Rightarrow> cpu_state \<Rightarrow> target_ulong \<Rightarrow> (cpu_state \<times> u32) outcome" where
  "cpu_ldl_kernel M env a = bind_out (cpu_ld_kernel M Long env a) (\<lambda>(env, v). Done (env, ucast v))"
definition cpu_ldq_kernel :: "machine \<Rightarrow> cpu_state \<Rightarrow> target_ulong \<Rightarrow> (cpu_state \<times> u64) outcome" where
  "cpu_ldq_kernel M env a = cpu_ld_kernel M Quad env a"
definition cpu_stb_kernel :: "machine \<Rightarrow> cpu_state \<Rightarrow> target_ulong \<Rightarrow> u32 \<Rightarrow> cpu_state outcome" where
  "cpu_stb_kernel M env a v = cpu_st_kernel M Byte env a (ucast v)"
definition cpu_stw_kernel :: "machine \<Rightarrow> cpu_state \<Rightarrow> target_ulong \<Rightarrow> u32 \<Rightarrow> cpu_state outcome" where
  "cpu_stw_kernel M env a v = cpu_st_kernel M Word2 env a (ucast v)"
definition cpu_stl_kernel :: "machine \<Rightarrow> cpu_state \<Rightarrow> target_ulong \<Rightarrow> u32 \<Rightarrow> cpu_state outcome" where
  "cpu_stl_kernel M env a v = cpu_st_kernel M Long env a (ucast v)"
definition cpu_stq_kernel :: "machine \<Rightarrow> cpu_state \<Rightarrow> target_ulong \<Rightarrow> u64 \<Rightarrow> cpu_state outcome" where
  "cpu_stq_kernel M env a v = cpu_st_kernel M Quad env a v"

text \<open>Runs of loads and stores.\<close>

fun load_all :: "(cpu_state \<Rightarrow> target_ulong \<Rightarrow> (cpu_state \<times> u32) outcome) \<Rightarrow> target_ulong list \<Rightarrow> cpu_state \<Rightarrow>
    (cpu_state \<times> u32 list) outcome" where
  "load_all ld [] env = Done (env, [])"
| "load_all ld (a # as) env =
    bind_out (ld env a) (\<lambda>(env, v). bind_out (load_all ld as env) (\<lambda>(env, vs). Done (env, v # vs)))"

fun store_all :: "(cpu_state \<Rightarrow> target_ulong \<Rightarrow> u32 \<Rightarrow> cpu_state outcome) \<Rightarrow> (target_ulong \<times> u32) list \<Rightarrow> cpu_state \<Rightarrow>
    cpu_state outcome" where
  "store_all st [] env = Done env"
| "store_all st ((a, v) # avs) env = bind_out (st env a v) (store_all st avs)"

subsection \<open>Descriptors\<close>

definition desc_type :: "u32 \<Rightarrow> u32" where "desc_type e2 = drop_bit 8 e2 AND 0xf"
definition desc_dpl :: "u32 \<Rightarrow> u32" where "desc_dpl e2 = drop_bit 13 e2 AND 3"

definition load_segment :: "machine \<Rightarrow> cpu_state \<Rightarrow> u32 \<Rightarrow> (cpu_state \<times> (u32 \<times> u32) option) outcome" where
  "load_segment M env selector =
    (let dt = (if selector AND 0x4 \<noteq> 0 then ldt env else gdt env);
         index = selector AND NOT 7
     in if index + 7 > sc_limit dt then Done (env, None)
        else let ptr = sc_base dt + scast index
             in bind_out (cpu_ldl_kernel M env ptr) (\<lambda>(env, e1).
                  bind_out (cpu_ldl_kernel M env (ptr + 4)) (\<lambda>(env, e2). Done (env, Some (e1, e2)))))"

text \<open>\<open>if (load_segment(...) != 0) raise_exception_err(...)\<close>\<close>

definition load_desc :: "machine \<Rightarrow> cpu_state \<Rightarrow> u32 \<Rightarrow> int \<Rightarrow> u32 \<Rightarrow> (cpu_state \<Rightarrow> u32 \<Rightarrow> u32 \<Rightarrow> 'a outcome) \<Rightarrow> 'a outcome" where
  "load_desc M env selector excp err rest =
    bind_out (load_segment M env selector) (\<lambda>(env, r).
      case r of None \<Rightarrow> raise_exception_err env excp err | Some (e1, e2) \<Rightarrow> rest env e1 e2)"

definition get_seg_limit :: "u32 \<Rightarrow> u32 \<Rightarrow> u32" where
  "get_seg_limit e1 e2 =
    (let limit = (e1 AND 0xffff) OR (e2 AND 0x000f0000)
     in if e2 AND DESC_G_MASK \<noteq> 0 then push_bit 12 limit OR 0xfff else limit)"

definition get_seg_base :: "u32 \<Rightarrow> u32 \<Rightarrow> u32" where
  "get_seg_base e1 e2 = drop_bit 16 e1 OR push_bit 16 (e2 AND 0xff) OR (e2 AND 0xff000000)"

definition load_seg_cache_raw_dt :: "segment_cache \<Rightarrow> u32 \<Rightarrow> u32 \<Rightarrow> segment_cache" where
  "load_seg_cache_raw_dt sc e1 e2 =
    sc\<lparr>sc_base := ucast (get_seg_base e1 e2), sc_limit := get_seg_limit e1 e2, sc_flags := e2\<rparr>"

definition load_seg_desc :: "cpu_state \<Rightarrow> nat \<Rightarrow> u32 \<Rightarrow> u32 \<Rightarrow> u32 \<Rightarrow> cpu_state" where
  "load_seg_desc env seg_reg selector e1 e2 =
    cpu_x86_load_seg_cache env seg_reg selector (ucast (get_seg_base e1 e2)) (get_seg_limit e1 e2) e2"

definition load_seg_vm :: "cpu_state \<Rightarrow> nat \<Rightarrow> u32 \<Rightarrow> cpu_state" where
  "load_seg_vm env seg selector =
    (let selector = selector AND 0xffff
     in cpu_x86_load_seg_cache env seg selector (ucast (push_bit 4 selector)) 0xffff 0)"

subsection \<open>The task state segment\<close>

definition get_ss_esp_from_tss :: "machine \<Rightarrow> cpu_state \<Rightarrow> u32 \<Rightarrow> (cpu_state \<times> u32 \<times> u32) outcome" where
  "get_ss_esp_from_tss M env dpl =
    (if sc_flags (tr env) AND DESC_P_MASK = 0 then Abort
     else
       let type = desc_type (sc_flags (tr env))
       in if type AND 7 \<noteq> 1 then Abort
          else
            let shift = unat (drop_bit 3 type); index = push_bit shift (dpl * 4 + 2)
            in check env (index + push_bit shift 4 - 1 > sc_limit (tr env)) EXCP0A_TSS (sc_selector (tr env) AND 0xfffc)
              (if shift = 0 then
                 bind_out (cpu_lduw_kernel M env (sc_base (tr env) + scast index)) (\<lambda>(env, esp).
                   bind_out (cpu_lduw_kernel M env (sc_base (tr env) + scast index + 2)) (\<lambda>(env, ss). Done (env, ss, esp)))
               else
                 bind_out (cpu_ldl_kernel M env (sc_base (tr env) + scast index)) (\<lambda>(env, esp).
                   bind_out (cpu_lduw_kernel M env (sc_base (tr env) + scast index + 4)) (\<lambda>(env, ss). Done (env, ss, esp)))))"

definition tss_load_seg :: "machine \<Rightarrow> nat \<Rightarrow> u32 \<Rightarrow> cpu_state \<Rightarrow> cpu_state outcome" where
  "tss_load_seg M seg_reg selector env =
    (let err = selector AND 0xfffc
     in if err \<noteq> 0 then
          load_desc M env selector EXCP0A_TSS err (\<lambda>env e1 e2.
            check env (e2 AND DESC_S_MASK = 0) EXCP0A_TSS err
            (let rpl = selector AND 3; dpl = desc_dpl e2; cpl = cpl_of env
             in check env
                  (if seg_reg = R_CS then
                     e2 AND DESC_CS_MASK = 0 \<or> dpl \<noteq> rpl \<or> (e2 AND DESC_C_MASK \<noteq> 0 \<and> dpl > rpl)
                   else if seg_reg = R_SS then
                     e2 AND DESC_CS_MASK \<noteq> 0 \<or> e2 AND DESC_W_MASK = 0 \<or> dpl \<noteq> cpl \<or> dpl \<noteq> rpl
                   else
                     (e2 AND DESC_CS_MASK \<noteq> 0 \<and> e2 AND DESC_R_MASK = 0)
                     \<or> (desc_type e2 < 12 \<and> (dpl < cpl \<or> dpl < rpl)))
                  EXCP0A_TSS err
                (check env (e2 AND DESC_P_MASK = 0) EXCP0B_NOSEG err
                  (Done (load_seg_desc env seg_reg selector e1 e2)))))
        else check env (seg_reg = R_SS \<or> seg_reg = R_CS) EXCP0A_TSS err (Done env))"

datatype switch_source = SWITCH_TSS_JMP | SWITCH_TSS_IRET | SWITCH_TSS_CALL

text \<open>A task gate leads to the TSS.\<close>

definition task_gate :: "machine \<Rightarrow> cpu_state \<Rightarrow> u32 \<Rightarrow> u32 \<Rightarrow> u32 \<Rightarrow>
    (cpu_state \<Rightarrow> u32 \<Rightarrow> u32 \<Rightarrow> u32 \<Rightarrow> u32 \<Rightarrow> 'a outcome) \<Rightarrow> 'a outcome" where
  "task_gate M env tss_selector e1 e2 rest =
    (let type = desc_type e2
     in if type = 5 then
          check env (e2 AND DESC_P_MASK = 0) EXCP0B_NOSEG (tss_selector AND 0xfffc)
          (let tss_selector = drop_bit 16 e1; err = tss_selector AND 0xfffc
           in check env (tss_selector AND 4 \<noteq> 0) EXCP0A_TSS err
             (load_desc M env tss_selector EXCP0D_GPF err (\<lambda>env e1 e2.
               check env (e2 AND DESC_S_MASK \<noteq> 0) EXCP0D_GPF err
               (let type = desc_type e2
                in check env (type AND 7 \<noteq> 1) EXCP0D_GPF err (rest env tss_selector e1 e2 type)))))
        else rest env tss_selector e1 e2 type)"

text \<open>What is read from the new TSS.\<close>

record tss_image =
  ts_cr3 :: u32
  ts_eip :: u32
  ts_eflags :: u32
  ts_regs :: "u32 list"
  ts_segs :: "u32 list"
  ts_ldt :: u32

definition tss_addrs :: "target_ulong \<Rightarrow> nat \<Rightarrow> nat \<Rightarrow> nat \<Rightarrow> target_ulong list" where
  "tss_addrs base offset step n = map (\<lambda>i. base + of_nat (offset + i * step)) [0..<n]"

definition read_tss :: "machine \<Rightarrow> cpu_state \<Rightarrow> target_ulong \<Rightarrow> u32 \<Rightarrow> (cpu_state \<times> tss_image) outcome" where
  "read_tss M env tss_base type =
    (if type AND 8 \<noteq> 0 then
       bind_out (cpu_ldl_kernel M env (tss_base + 0x1c)) (\<lambda>(env, cr3).
       bind_out (cpu_ldl_kernel M env (tss_base + 0x20)) (\<lambda>(env, ip).
       bind_out (cpu_ldl_kernel M env (tss_base + 0x24)) (\<lambda>(env, fl).
       bind_out (load_all (cpu_ldl_kernel M) (tss_addrs tss_base 0x28 4 8) env) (\<lambda>(env, rs).
       bind_out (load_all (cpu_lduw_kernel M) (tss_addrs tss_base 0x48 4 6) env) (\<lambda>(env, ss).
       bind_out (cpu_lduw_kernel M env (tss_base + 0x60)) (\<lambda>(env, lt).
       bind_out (cpu_ldl_kernel M env (tss_base + 0x64)) (\<lambda>(env, new_trap).
         Done (env, \<lparr>ts_cr3 = cr3, ts_eip = ip, ts_eflags = fl, ts_regs = rs, ts_segs = ss, ts_ldt = lt\<rparr>))))))))
     else
       bind_out (cpu_lduw_kernel M env (tss_base + 0x0e)) (\<lambda>(env, ip).
       bind_out (cpu_lduw_kernel M env (tss_base + 0x10)) (\<lambda>(env, fl).
       bind_out (load_all (cpu_lduw_kernel M) (tss_addrs tss_base 0x12 2 8) env) (\<lambda>(env, rs).
       bind_out (load_all (cpu_lduw_kernel M) (tss_addrs tss_base 0x22 4 4) env) (\<lambda>(env, ss).
       bind_out (cpu_lduw_kernel M env (tss_base + 0x2a)) (\<lambda>(env, lt).
         Done (env, \<lparr>ts_cr3 = 0, ts_eip = ip, ts_eflags = fl, ts_regs = map (\<lambda>r. r OR 0xffff0000) rs,
           ts_segs = ss @ [0, 0], ts_ldt = lt\<rparr>)))))))"

text \<open>The busy bit of the descriptor of \<open>selector\<close>.\<close>

definition update_busy :: "machine \<Rightarrow> cpu_state \<Rightarrow> u32 \<Rightarrow> (u32 \<Rightarrow> u32) \<Rightarrow> cpu_state outcome" where
  "update_busy M env selector f =
    (let ptr = sc_base (gdt env) + scast (selector AND NOT 7)
     in bind_out (cpu_ldl_kernel M env (ptr + 4)) (\<lambda>(env, e2). cpu_stl_kernel M env (ptr + 4) (f e2)))"

definition save_tss :: "machine \<Rightarrow> cpu_state \<Rightarrow> u32 \<Rightarrow> u32 \<Rightarrow> u32 \<Rightarrow> cpu_state outcome" where
  "save_tss M env type next_eip old_eflags =
    (let b = sc_base (tr env)
     in if type AND 8 \<noteq> 0 then
          bind_out (store_all (cpu_stl_kernel M) ((b + 0x20, next_eip) # (b + 0x24, old_eflags) #
              zip (tss_addrs b 0x28 4 8) (map (\<lambda>i. ucast (regs env i)) [0..<8])) env)
            (store_all (cpu_stw_kernel M) (zip (tss_addrs b 0x48 4 6) (map (\<lambda>i. sc_selector (segs env i)) [0..<6])))
        else
          store_all (cpu_stw_kernel M) ((b + 0x0e, next_eip) # (b + 0x10, old_eflags) #
              zip (tss_addrs b 0x12 2 8) (map (\<lambda>i. ucast (regs env i)) [0..<8]) @
              zip (tss_addrs b 0x22 4 4) (map (\<lambda>i. sc_selector (segs env i)) [0..<4])) env)"

definition load_all_regs :: "u32 list \<Rightarrow> cpu_state \<Rightarrow> cpu_state" where
  "load_all_regs rs env = env\<lparr>regs := (\<lambda>i. if i < 8 then ucast (rs ! i) else regs env i)\<rparr>"

definition tss_load_ldt :: "machine \<Rightarrow> u32 \<Rightarrow> cpu_state \<Rightarrow> cpu_state outcome" where
  "tss_load_ldt M lt env =
    (let env = env\<lparr>ldt := \<lparr>sc_selector = lt AND NOT 4, sc_base = 0, sc_limit = 0, sc_flags = 0\<rparr>\<rparr>; err = lt AND 0xfffc
     in check env (lt AND 4 \<noteq> 0) EXCP0A_TSS err
       (if err \<noteq> 0 then
          let index = lt AND NOT 7
          in check env (index + 7 > sc_limit (gdt env)) EXCP0A_TSS err
            (let ptr = sc_base (gdt env) + scast index
             in bind_out (cpu_ldl_kernel M env ptr) (\<lambda>(env, e1).
                bind_out (cpu_ldl_kernel M env (ptr + 4)) (\<lambda>(env, e2).
                  check env (e2 AND DESC_S_MASK \<noteq> 0 \<or> desc_type e2 \<noteq> 2) EXCP0A_TSS err
                  (check env (e2 AND DESC_P_MASK = 0) EXCP0A_TSS err
                    (Done (env\<lparr>ldt := load_seg_cache_raw_dt (ldt env) e1 e2\<rparr>))))))
        else Done env))"

definition tss_load_segs :: "machine \<Rightarrow> tss_image \<Rightarrow> cpu_state \<Rightarrow> cpu_state outcome" where
  "tss_load_segs M t env =
    (if ts_eflags t AND VM_MASK = 0 then
       bind_out (tss_load_seg M R_CS (ts_segs t ! R_CS) env) (\<lambda>env.
       bind_out (tss_load_seg M R_SS (ts_segs t ! R_SS) env) (\<lambda>env.
       bind_out (tss_load_seg M R_ES (ts_segs t ! R_ES) env) (\<lambda>env.
       bind_out (tss_load_seg M R_DS (ts_segs t ! R_DS) env) (\<lambda>env.
       bind_out (tss_load_seg M R_FS (ts_segs t ! R_FS) env)
         (tss_load_seg M R_GS (ts_segs t ! R_GS))))))
     else Done env)"

text \<open>The selectors first, and the privilege level.\<close>

definition tss_load_selectors :: "tss_image \<Rightarrow> cpu_state \<Rightarrow> cpu_state" where
  "tss_load_selectors t env =
    (if ts_eflags t AND VM_MASK \<noteq> 0 then
       cpu_x86_set_cpl (fold (\<lambda>i env. load_seg_vm env i (ts_segs t ! i)) [0..<6] env) 3
     else
       fold (\<lambda>i env. cpu_x86_load_seg_cache env i (ts_segs t ! i) 0 0 0) [0..<6]
         (cpu_x86_set_cpl env (ts_segs t ! R_CS AND 3)))"

text \<open>The new state of the CPU.\<close>

definition enter_tss :: "machine \<Rightarrow> u32 \<Rightarrow> target_ulong \<Rightarrow> u32 \<Rightarrow> u32 \<Rightarrow> u32 \<Rightarrow> tss_image \<Rightarrow> cpu_state \<Rightarrow> cpu_state outcome" where
  "enter_tss M tss_selector tss_base tss_limit e2 type t env =
    (let env = env\<lparr>cr := (cr env)(0 := cr env 0 OR CR0_TS_MASK), hflags := hflags env OR HF_TS_MASK,
           tr := \<lparr>sc_selector = tss_selector, sc_base = tss_base, sc_limit = tss_limit, sc_flags = e2 AND NOT DESC_TSS_BUSY_MASK\<rparr>\<rparr>;
         env = (if type AND 8 \<noteq> 0 \<and> cr env 0 AND CR0_PG_MASK \<noteq> 0 then cpu_x86_update_cr3 env (ucast (ts_cr3 t)) else env);
         env = env\<lparr>eip := ucast (ts_eip t)\<rparr>;
         eflags_mask = TF_MASK OR AC_MASK OR ID_MASK OR IF_MASK OR IOPL_MASK OR VM_MASK OR RF_MASK OR NT_MASK;
         eflags_mask = (if type AND 8 = 0 then eflags_mask AND 0xffff else eflags_mask);
         env = cpu_load_eflags env (ts_eflags t) eflags_mask;
         env = load_all_regs (ts_regs t) env;
         env = tss_load_selectors t env
     in bind_out (tss_load_ldt M (ts_ldt t) env) (\<lambda>env.
        bind_out (tss_load_segs M t env) (\<lambda>env.
          check env (ts_eip t > sc_limit (segs env R_CS)) EXCP0D_GPF 0 (switch_tss_debug env))))"

definition switch_tss :: "machine \<Rightarrow> u32 \<Rightarrow> u32 \<Rightarrow> u32 \<Rightarrow> switch_source \<Rightarrow> u32 \<Rightarrow> cpu_state \<Rightarrow> cpu_state outcome" where
  "switch_tss M tss_selector e1 e2 source next_eip env =
    task_gate M env tss_selector e1 e2 (\<lambda>env tss_selector e1 e2 type.
      check env (e2 AND DESC_P_MASK = 0) EXCP0B_NOSEG (tss_selector AND 0xfffc)
      (let tss_limit_max = (if type AND 8 \<noteq> 0 then 103 else 43);
           tss_limit = get_seg_limit e1 e2; tss_base = ucast (get_seg_base e1 e2)
       in check env (tss_selector AND 4 \<noteq> 0 \<or> tss_limit <s tss_limit_max) EXCP0A_TSS (tss_selector AND 0xfffc)
         (let old_tss_limit_max = (if desc_type (sc_flags (tr env)) AND 8 \<noteq> 0 then 103 else 43)
          in bind_out (read_tss M env tss_base type) (\<lambda>(env, t).
             bind_out (cpu_ldub_kernel M env (sc_base (tr env))) (\<lambda>(env, v1).
             bind_out (cpu_ldub_kernel M env (sc_base (tr env) + old_tss_limit_max)) (\<lambda>(env, v2).
             bind_out (cpu_stb_kernel M env (sc_base (tr env)) v1) (\<lambda>env.
             bind_out (cpu_stb_kernel M env (sc_base (tr env) + old_tss_limit_max) v2) (\<lambda>env.
             bind_out (if source = SWITCH_TSS_JMP \<or> source = SWITCH_TSS_IRET
               then update_busy M env (sc_selector (tr env)) (\<lambda>e2. e2 AND NOT DESC_TSS_BUSY_MASK) else Done env) (\<lambda>env.
             let old_eflags = cpu_compute_eflags env;
                 old_eflags = (if source = SWITCH_TSS_IRET then old_eflags AND NOT NT_MASK else old_eflags)
             in bind_out (save_tss M env type next_eip old_eflags) (\<lambda>env.
                bind_out (if source = SWITCH_TSS_CALL then cpu_stw_kernel M env tss_base (sc_selector (tr env)) else Done env) (\<lambda>env.
                let t = (if source = SWITCH_TSS_CALL then t\<lparr>ts_eflags := ts_eflags t OR NT_MASK\<rparr> else t)
                in bind_out (if source = SWITCH_TSS_JMP \<or> source = SWITCH_TSS_CALL
                     then update_busy M env tss_selector (\<lambda>e2. e2 OR DESC_TSS_BUSY_MASK) else Done env)
                   (enter_tss M tss_selector tss_base tss_limit e2 type t))))))))))))"

end
