(* ===== verification/SegInt.thy ===== *)
theory SegInt
  imports Seg
begin

text \<open>
  \<open>target-i386/seg_helper.c\<close>, continued: pushing and popping, the delivery of interrupts and exceptions in the three
  modes, \<open>syscall\<close>/\<open>sysret\<close>/\<open>sysenter\<close>/\<open>sysexit\<close> and the nested frames of \<open>enter\<close>. What a push stores is
  read from the state at that push.
\<close>

definition get_sp_mask :: "u32 \<Rightarrow> 'a::len word" where
  "get_sp_mask e2 = (if e2 AND DESC_B_MASK \<noteq> 0 then 0xffffffff else 0xffff)"

definition exception_has_error_code :: "int \<Rightarrow> bool" where
  "exception_has_error_code intno \<longleftrightarrow> intno \<in> {8, 10, 11, 12, 13, 14, 17}"

definition SET_ESP :: "u64 \<Rightarrow> u64 \<Rightarrow> cpu_state \<Rightarrow> cpu_state" where
  "SET_ESP val sp_mask env =
    (if sp_mask = 0xffff then set_reg R_ESP ((regs env R_ESP AND NOT 0xffff) OR (val AND 0xffff)) env
     else if sp_mask = 0xffffffff then set_reg R_ESP (take_bit 32 val) env
     else set_reg R_ESP val env)"

text \<open>The stack pointer is a \<open>uint32_t\<close> in some callers and a \<open>target_ulong\<close> in others.\<close>

definition SEG_ADDL :: "target_ulong \<Rightarrow> 'a::len word \<Rightarrow> 'a word \<Rightarrow> target_ulong" where
  "SEG_ADDL ssp sp sp_mask = take_bit 32 (ssp + ucast (sp AND sp_mask))"

definition PUSHW :: "machine \<Rightarrow> target_ulong \<Rightarrow> 'a::len word \<Rightarrow> u32 \<Rightarrow> cpu_state \<times> 'a word \<Rightarrow> (cpu_state \<times> 'a word) outcome" where
  "PUSHW M ssp sp_mask val = (\<lambda>(env, sp). let sp = sp - 2 in
    bind_out (cpu_stw_kernel M env (ssp + ucast (sp AND sp_mask)) val) (\<lambda>env. Done (env, sp)))"

definition PUSHL :: "machine \<Rightarrow> target_ulong \<Rightarrow> 'a::len word \<Rightarrow> u32 \<Rightarrow> cpu_state \<times> 'a word \<Rightarrow> (cpu_state \<times> 'a word) outcome" where
  "PUSHL M ssp sp_mask val = (\<lambda>(env, sp). let sp = sp - 4 in
    bind_out (cpu_stl_kernel M env (SEG_ADDL ssp sp sp_mask) val) (\<lambda>env. Done (env, sp)))"

definition POPW :: "machine \<Rightarrow> target_ulong \<Rightarrow> 'a::len word \<Rightarrow> cpu_state \<Rightarrow> 'a word \<Rightarrow> (cpu_state \<times> 'a word \<times> u32) outcome" where
  "POPW M ssp sp_mask env sp =
    bind_out (cpu_lduw_kernel M env (ssp + ucast (sp AND sp_mask))) (\<lambda>(env, v). Done (env, sp + 2, v))"

definition POPL :: "machine \<Rightarrow> target_ulong \<Rightarrow> 'a::len word \<Rightarrow> cpu_state \<Rightarrow> 'a word \<Rightarrow> (cpu_state \<times> 'a word \<times> u32) outcome" where
  "POPL M ssp sp_mask env sp =
    bind_out (cpu_ldl_kernel M env (SEG_ADDL ssp sp sp_mask)) (\<lambda>(env, v). Done (env, sp + 4, v))"

definition PUSHQ :: "machine \<Rightarrow> u64 \<Rightarrow> cpu_state \<times> u64 \<Rightarrow> (cpu_state \<times> u64) outcome" where
  "PUSHQ M val = (\<lambda>(env, sp). let sp = sp - 8 in
    bind_out (cpu_stq_kernel M env sp val) (\<lambda>env. Done (env, sp)))"

definition POPQ :: "machine \<Rightarrow> cpu_state \<Rightarrow> u64 \<Rightarrow> (cpu_state \<times> u64 \<times> u64) outcome" where
  "POPQ M env sp = bind_out (cpu_ldq_kernel M env sp) (\<lambda>(env, v). Done (env, sp + 8, v))"

text \<open>A run of pushes, and the macro a 16- or 32-bit gate selects.\<close>

fun push_all :: "('v \<Rightarrow> cpu_state \<times> 'a \<Rightarrow> (cpu_state \<times> 'a) outcome) \<Rightarrow> (cpu_state \<Rightarrow> 'v) list \<Rightarrow>
    cpu_state \<times> 'a \<Rightarrow> (cpu_state \<times> 'a) outcome" where
  "push_all push [] s = Done s"
| "push_all push (f # fs) s = bind_out (push (f (fst s)) s) (push_all push fs)"

definition push_wl :: "machine \<Rightarrow> bool \<Rightarrow> target_ulong \<Rightarrow> 'a::len word \<Rightarrow> u32 \<Rightarrow> cpu_state \<times> 'a word \<Rightarrow> (cpu_state \<times> 'a word) outcome" where
  "push_wl M long ssp sp_mask = (if long then PUSHL M ssp sp_mask else PUSHW M ssp sp_mask)"

abbreviation (input) push_sel :: "nat \<Rightarrow> cpu_state \<Rightarrow> u32" where "push_sel r \<equiv> (\<lambda>env. sc_selector (segs env r))"

text \<open>The stack of the inner privilege level \<open>dpl\<close>, from the TSS.\<close>

definition inner_stack :: "machine \<Rightarrow> cpu_state \<Rightarrow> u32 \<Rightarrow>
    (cpu_state \<Rightarrow> u32 \<Rightarrow> u32 \<Rightarrow> u32 \<Rightarrow> u32 \<Rightarrow> 'a outcome) \<Rightarrow> 'a outcome" where
  "inner_stack M env dpl rest =
    bind_out (get_ss_esp_from_tss M env dpl) (\<lambda>(env, ss, esp).
      let err = ss AND 0xfffc
      in check env (err = 0) EXCP0A_TSS err (check env (ss AND 3 \<noteq> dpl) EXCP0A_TSS err
        (load_desc M env ss EXCP0A_TSS err (\<lambda>env ss_e1 ss_e2.
          check env (desc_dpl ss_e2 \<noteq> dpl) EXCP0A_TSS err
          (check env (ss_e2 AND DESC_S_MASK = 0 \<or> ss_e2 AND DESC_CS_MASK \<noteq> 0 \<or> ss_e2 AND DESC_W_MASK = 0) EXCP0A_TSS err
          (check env (ss_e2 AND DESC_P_MASK = 0) EXCP0A_TSS err
            (rest env ss esp ss_e1 ss_e2)))))))"

text \<open>The code segment a gate names.\<close>

definition gate_target :: "machine \<Rightarrow> cpu_state \<Rightarrow> u32 \<Rightarrow> u32 \<Rightarrow> (cpu_state \<Rightarrow> u32 \<Rightarrow> u32 \<Rightarrow> 'a outcome) \<Rightarrow> 'a outcome" where
  "gate_target M env selector cpl rest =
    (let err = selector AND 0xfffc
     in check env (err = 0) EXCP0D_GPF 0 (load_desc M env selector EXCP0D_GPF err (\<lambda>env e1 e2.
          check env (e2 AND DESC_S_MASK = 0 \<or> e2 AND DESC_CS_MASK = 0) EXCP0D_GPF err
          (check env (desc_dpl e2 > cpl) EXCP0D_GPF err
          (check env (e2 AND DESC_P_MASK = 0) EXCP0B_NOSEG err
            (rest env e1 e2))))))"

definition null_segs :: "nat list \<Rightarrow> cpu_state \<Rightarrow> cpu_state" where
  "null_segs = fold (\<lambda>r env. cpu_x86_load_seg_cache env r 0 0 0 0)"

subsection \<open>Interrupts in protected mode\<close>

text \<open>The error code after a task switch.\<close>

definition push_task_error :: "machine \<Rightarrow> u32 \<Rightarrow> cpu_state \<Rightarrow> cpu_state outcome" where
  "push_task_error M ecode env =
    (let shift = unat (drop_bit 3 (desc_type (sc_flags (tr env))));
         mask = (if sc_flags (segs env R_SS) AND DESC_B_MASK \<noteq> 0 then 0xffffffff else 0xffff) :: u32;
         esp = ucast (regs env R_ESP - push_bit shift 2) AND mask;
         ssp = sc_base (segs env R_SS) + ucast esp
     in bind_out (if shift \<noteq> 0 then cpu_stl_kernel M env ssp ecode else cpu_stw_kernel M env ssp ecode)
       (\<lambda>env. Done (SET_ESP (ucast esp) (ucast mask) env)))"

text \<open>The end of the delivery in both protected modes.\<close>

definition enter_handler :: "u32 \<Rightarrow> u32 \<Rightarrow> u32 \<Rightarrow> u32 \<Rightarrow> target_ulong \<Rightarrow> u32 \<Rightarrow> cpu_state \<Rightarrow> cpu_state" where
  "enter_handler selector dpl e1 e2 offset type env =
    (let env = load_seg_desc env R_CS ((selector AND NOT 3) OR dpl) e1 e2;
         env = (cpu_x86_set_cpl env dpl)\<lparr>eip := offset\<rparr>;
         env = (if type AND 1 = 0 then env\<lparr>eflags := eflags env AND NOT IF_MASK\<rparr> else env)
     in env\<lparr>eflags := eflags env AND NOT (TF_MASK OR VM_MASK OR RF_MASK OR NT_MASK)\<rparr>)"

abbreviation (input) in_vm86 :: "cpu_state \<Rightarrow> bool" where "in_vm86 env \<equiv> eflags env AND VM_MASK \<noteq> 0"

text \<open>Pushing the frame; the stack is a new one (\<open>Some\<close> its selector and descriptor) or that of the interrupted code.\<close>

definition int_frame :: "machine \<Rightarrow> bool \<Rightarrow> (u32 \<times> u32 \<times> u32) option \<Rightarrow> target_ulong \<Rightarrow> u32 \<Rightarrow> u32 \<Rightarrow> u32 \<Rightarrow> u32 option \<Rightarrow> cpu_state \<Rightarrow>
    (cpu_state \<times> u32) outcome" where
  "int_frame M long new_stack ssp sp_mask esp old_eip ecode env =
    push_all (push_wl M long ssp sp_mask)
      ((if new_stack \<noteq> None then
          (if in_vm86 env then [push_sel R_GS, push_sel R_FS, push_sel R_DS, push_sel R_ES] else []) @
          [push_sel R_SS, \<lambda>env. ucast (regs env R_ESP)]
        else []) @
       [cpu_compute_eflags, push_sel R_CS, \<lambda>env. old_eip] @
       (case ecode of None \<Rightarrow> [] | Some err \<Rightarrow> [\<lambda>env. err])) (env, esp)"

definition int_enter :: "machine \<Rightarrow> u32 \<Rightarrow> u32 \<Rightarrow> u32 \<Rightarrow> u32 \<Rightarrow> u32 \<Rightarrow> u32 \<Rightarrow> (u32 \<times> u32 \<times> u32) option \<Rightarrow>
    target_ulong \<Rightarrow> u32 \<Rightarrow> u32 \<Rightarrow> u32 \<Rightarrow> u32 option \<Rightarrow> cpu_state \<Rightarrow> cpu_state outcome" where
  "int_enter M type selector offset e1 e2 dpl new_stack ssp sp_mask esp old_eip ecode env =
    bind_out (int_frame M (drop_bit 3 type = 1) new_stack ssp sp_mask esp old_eip ecode env) (\<lambda>(env, esp).
      let env = (case new_stack of None \<Rightarrow> env
            | Some (ss, ss_e1, ss_e2) \<Rightarrow>
                let env = (if in_vm86 env then null_segs [R_ES, R_DS, R_FS, R_GS] env else env)
                in cpu_x86_load_seg_cache env R_SS ((ss AND NOT 3) OR dpl) ssp (get_seg_limit ss_e1 ss_e2) ss_e2);
          env = SET_ESP (ucast esp) (ucast sp_mask) env
      in Done (enter_handler selector dpl e1 e2 (ucast offset) type env))"

definition do_interrupt_protected :: "machine \<Rightarrow> int \<Rightarrow> bool \<Rightarrow> u32 \<Rightarrow> u32 \<Rightarrow> bool \<Rightarrow> cpu_state \<Rightarrow> cpu_state outcome" where
  "do_interrupt_protected M intno is_int ecode next_eip is_hw env =
    (let has_error_code = (\<not> is_int \<and> \<not> is_hw \<and> exception_has_error_code intno);
         old_eip = (if is_int then next_eip else ucast (eip env));
         vec = word_of_int (intno * 8 + 2)
     in check env (word_of_int (intno * 8 + 7) > sc_limit (idt env)) EXCP0D_GPF vec
      (let ptr = sc_base (idt env) + word_of_int (intno * 8)
       in bind_out (cpu_ldl_kernel M env ptr) (\<lambda>(env, e1). bind_out (cpu_ldl_kernel M env (ptr + 4)) (\<lambda>(env, e2).
         let type = drop_bit 8 e2 AND 0x1f
         in if type = 5 then
              check env (e2 AND DESC_P_MASK = 0) EXCP0B_NOSEG vec
                (bind_out (switch_tss M (word_of_int (intno * 8)) e1 e2 SWITCH_TSS_CALL old_eip env) (\<lambda>env.
                  if has_error_code then push_task_error M ecode env else Done env))
            else check env (type \<notin> {6, 7, 14, 15}) EXCP0D_GPF vec
             (let cpl = cpl_of env
              in check env (is_int \<and> desc_dpl e2 < cpl) EXCP0D_GPF vec
                (check env (e2 AND DESC_P_MASK = 0) EXCP0B_NOSEG vec
                  (let selector = drop_bit 16 e1; offset = (e2 AND 0xffff0000) OR (e1 AND 0xffff);
                       err = (if has_error_code then Some ecode else None)
                   in gate_target M env selector cpl (\<lambda>env e1 e2.
                        let dpl = desc_dpl e2
                        in if e2 AND DESC_C_MASK = 0 \<and> dpl < cpl then
                             inner_stack M env dpl (\<lambda>env ss esp ss_e1 ss_e2.
                               int_enter M type selector offset e1 e2 dpl (Some (ss, ss_e1, ss_e2))
                                 (ucast (get_seg_base ss_e1 ss_e2)) (get_sp_mask ss_e2) esp old_eip err env)
                           else if e2 AND DESC_C_MASK \<noteq> 0 \<or> dpl = cpl then
                             check env (in_vm86 env) EXCP0D_GPF (selector AND 0xfffc)
                               (int_enter M type selector offset e1 e2 cpl None
                                 (sc_base (segs env R_SS)) (get_sp_mask (sc_flags (segs env R_SS))) (ucast (regs env R_ESP))
                                 old_eip err env)
                           else raise_exception_err env EXCP0D_GPF (selector AND 0xfffc)))))))))"

subsection \<open>Interrupts in long mode\<close>

definition get_rsp_from_tss :: "machine \<Rightarrow> cpu_state \<Rightarrow> u32 \<Rightarrow> (cpu_state \<times> u64) outcome" where
  "get_rsp_from_tss M env level =
    (if sc_flags (tr env) AND DESC_P_MASK = 0 then Abort
     else let index = 8 * level + 4
       in check env (index + 7 > sc_limit (tr env)) EXCP0A_TSS (sc_selector (tr env) AND 0xfffc)
            (cpu_ldq_kernel M env (sc_base (tr env) + scast index)))"

definition int64_enter :: "machine \<Rightarrow> u32 \<Rightarrow> u32 \<Rightarrow> target_ulong \<Rightarrow> u32 \<Rightarrow> u32 \<Rightarrow> u32 \<Rightarrow> bool \<Rightarrow> target_ulong \<Rightarrow> target_ulong \<Rightarrow>
    u32 option \<Rightarrow> cpu_state \<Rightarrow> cpu_state outcome" where
  "int64_enter M type selector offset e1 e2 dpl new_stack esp old_eip ecode env =
    bind_out (push_all (PUSHQ M)
        ([\<lambda>env. ucast (sc_selector (segs env R_SS)), \<lambda>env. regs env R_ESP, \<lambda>env. ucast (cpu_compute_eflags env),
          \<lambda>env. ucast (sc_selector (segs env R_CS)), \<lambda>env. old_eip] @
         (case ecode of None \<Rightarrow> [] | Some err \<Rightarrow> [\<lambda>env. scast err])) (env, esp AND NOT 0xf)) (\<lambda>(env, esp).
      let env = (if new_stack then cpu_x86_load_seg_cache env R_SS dpl 0 0 0 else env)
      in Done (enter_handler selector dpl e1 e2 offset type (set_reg R_ESP esp env)))"

definition do_interrupt64 :: "machine \<Rightarrow> int \<Rightarrow> bool \<Rightarrow> u32 \<Rightarrow> target_ulong \<Rightarrow> bool \<Rightarrow> cpu_state \<Rightarrow> cpu_state outcome" where
  "do_interrupt64 M intno is_int ecode next_eip is_hw env =
    (let has_error_code = (\<not> is_int \<and> \<not> is_hw \<and> exception_has_error_code intno);
         old_eip = (if is_int then next_eip else eip env);
         vec = word_of_int (intno * 16 + 2)
     in check env (word_of_int (intno * 16 + 15) > sc_limit (idt env)) EXCP0D_GPF vec
      (let ptr = sc_base (idt env) + word_of_int (intno * 16)
       in bind_out (cpu_ldl_kernel M env ptr) (\<lambda>(env, e1). bind_out (cpu_ldl_kernel M env (ptr + 4)) (\<lambda>(env, e2).
          bind_out (cpu_ldl_kernel M env (ptr + 8)) (\<lambda>(env, e3).
         let type = drop_bit 8 e2 AND 0x1f
         in check env (type \<notin> {14, 15}) EXCP0D_GPF vec
             (let cpl = cpl_of env
              in check env (is_int \<and> desc_dpl e2 < cpl) EXCP0D_GPF vec
                (check env (e2 AND DESC_P_MASK = 0) EXCP0B_NOSEG vec
                  (let selector = drop_bit 16 e1;
                       offset = push_bit 32 (ucast e3) OR ucast ((e2 AND 0xffff0000) OR (e1 AND 0xffff));
                       ist = e2 AND 7;
                       err = (if has_error_code then Some ecode else None)
                   in gate_target M env selector cpl (\<lambda>env e1 e2.
                        let dpl = desc_dpl e2
                        in check env (e2 AND DESC_L_MASK = 0 \<or> e2 AND DESC_B_MASK \<noteq> 0) EXCP0D_GPF (selector AND 0xfffc)
                          (if (e2 AND DESC_C_MASK = 0 \<and> dpl < cpl) \<or> ist \<noteq> 0 then
                             bind_out (get_rsp_from_tss M env (if ist \<noteq> 0 then ist + 3 else dpl)) (\<lambda>(env, esp).
                               int64_enter M type selector offset e1 e2 dpl True esp old_eip err env)
                           else if e2 AND DESC_C_MASK \<noteq> 0 \<or> dpl = cpl then
                             check env (in_vm86 env) EXCP0D_GPF (selector AND 0xfffc)
                               (int64_enter M type selector offset e1 e2 cpl False (regs env R_ESP) old_eip err env)
                           else raise_exception_err env EXCP0D_GPF (selector AND 0xfffc)))))))))))"

subsection \<open>System calls\<close>

text \<open>The flat segments the system call instructions load.\<close>

definition flat_code :: "u32 \<Rightarrow> u32" where
  "flat_code extra = extra OR DESC_G_MASK OR DESC_P_MASK OR DESC_S_MASK OR DESC_CS_MASK OR DESC_R_MASK OR DESC_A_MASK"

definition flat_data :: "u32 \<Rightarrow> u32" where
  "flat_data extra = extra OR DESC_G_MASK OR DESC_B_MASK OR DESC_P_MASK OR DESC_S_MASK OR DESC_W_MASK OR DESC_A_MASK"

definition flat_seg :: "nat \<Rightarrow> u32 \<Rightarrow> u32 \<Rightarrow> cpu_state \<Rightarrow> cpu_state" where
  "flat_seg r selector fl env = cpu_x86_load_seg_cache env r selector 0 0xffffffff fl"

definition helper_syscall :: "u32 \<Rightarrow> cpu_state \<Rightarrow> cpu_state outcome" where
  "helper_syscall next_eip_addend env =
    check env (efer env AND MSR_EFER_SCE = 0) EXCP06_ILLOP 0
    (let selector = (ucast (drop_bit 32 (star env)) :: u32) AND 0xffff
     in if hflags env AND HF_LMA_MASK \<noteq> 0 then
          let env = set_reg R_ECX (eip env + scast next_eip_addend) env;
              env = set_reg 11 (ucast (cpu_compute_eflags env)) env;
              code64 = (hflags env AND HF_CS64_MASK \<noteq> 0);
              env = cpu_x86_set_cpl env 0;
              env = flat_seg R_CS (selector AND 0xfffc) (flat_code DESC_L_MASK) env;
              env = flat_seg R_SS ((selector + 8) AND 0xfffc) (flat_data 0) env;
              env = env\<lparr>eflags := eflags env AND NOT (fmask env)\<rparr>;
              env = cpu_load_eflags env (ucast (eflags env)) 0
          in Done (env\<lparr>eip := (if code64 then lstar env else cstar env)\<rparr>)
        else
          let env = set_reg R_ECX (take_bit 32 (eip env + scast next_eip_addend)) env;
              env = cpu_x86_set_cpl env 0;
              env = flat_seg R_CS (selector AND 0xfffc) (flat_code DESC_B_MASK) env;
              env = flat_seg R_SS ((selector + 8) AND 0xfffc) (flat_data 0) env
          in Done (env\<lparr>eflags := eflags env AND NOT (IF_MASK OR RF_MASK OR VM_MASK), eip := take_bit 32 (star env)\<rparr>))"

definition helper_sysret :: "u32 \<Rightarrow> cpu_state \<Rightarrow> cpu_state outcome" where
  "helper_sysret dflag env =
    check env (efer env AND MSR_EFER_SCE = 0) EXCP06_ILLOP 0
    (check env (cr env 0 AND CR0_PE_MASK = 0 \<or> cpl_of env \<noteq> 0) EXCP0D_GPF 0
    (let selector = (ucast (drop_bit 48 (star env)) :: u32) AND 0xffff
     in if hflags env AND HF_LMA_MASK \<noteq> 0 then
          let env = (if dflag = 2 then
                (flat_seg R_CS ((selector + 16) OR 3) (flat_code (DESC_DPL3 OR DESC_L_MASK)) env)\<lparr>eip := regs env R_ECX\<rparr>
              else
                (flat_seg R_CS (selector OR 3) (flat_code (DESC_B_MASK OR DESC_DPL3)) env)\<lparr>eip := take_bit 32 (regs env R_ECX)\<rparr>);
              env = flat_seg R_SS (selector + 8) (flat_data DESC_DPL3) env;
              env = cpu_load_eflags env (ucast (regs env 11))
                (TF_MASK OR AC_MASK OR ID_MASK OR IF_MASK OR IOPL_MASK OR VM_MASK OR RF_MASK OR NT_MASK)
          in Done (cpu_x86_set_cpl env 3)
        else
          let env = (flat_seg R_CS (selector OR 3) (flat_code (DESC_B_MASK OR DESC_DPL3)) env)\<lparr>eip := take_bit 32 (regs env R_ECX)\<rparr>;
              env = flat_seg R_SS (selector + 8) (flat_data DESC_DPL3) env;
              env = env\<lparr>eflags := eflags env OR IF_MASK\<rparr>
          in Done (cpu_x86_set_cpl env 3)))"

definition helper_sysenter :: "cpu_state \<Rightarrow> cpu_state outcome" where
  "helper_sysenter env =
    check env (sysenter_cs env = 0) EXCP0D_GPF 0
    (let env = env\<lparr>eflags := eflags env AND NOT (VM_MASK OR IF_MASK OR RF_MASK)\<rparr>;
         env = cpu_x86_set_cpl env 0;
         env = flat_seg R_CS (sysenter_cs env AND 0xfffc)
           (flat_code (if hflags env AND HF_LMA_MASK \<noteq> 0 then DESC_B_MASK OR DESC_L_MASK else DESC_B_MASK)) env;
         env = flat_seg R_SS ((sysenter_cs env + 8) AND 0xfffc) (flat_data 0) env;
         env = set_reg R_ESP (sysenter_esp env) env
     in Done (env\<lparr>eip := sysenter_eip env\<rparr>))"

definition helper_sysexit :: "u32 \<Rightarrow> cpu_state \<Rightarrow> cpu_state outcome" where
  "helper_sysexit dflag env =
    check env (sysenter_cs env = 0 \<or> cpl_of env \<noteq> 0) EXCP0D_GPF 0
    (let env = cpu_x86_set_cpl env 3;
         env = (if dflag = 2 then
             flat_seg R_SS (((sysenter_cs env + 40) AND 0xfffc) OR 3) (flat_data DESC_DPL3)
               (flat_seg R_CS (((sysenter_cs env + 32) AND 0xfffc) OR 3) (flat_code (DESC_B_MASK OR DESC_DPL3 OR DESC_L_MASK)) env)
           else
             flat_seg R_SS (((sysenter_cs env + 24) AND 0xfffc) OR 3) (flat_data DESC_DPL3)
               (flat_seg R_CS (((sysenter_cs env + 16) AND 0xfffc) OR 3) (flat_code (DESC_B_MASK OR DESC_DPL3)) env));
         env = set_reg R_ESP (regs env R_ECX) env
     in Done (env\<lparr>eip := regs env R_EDX\<rparr>))"

subsection \<open>Interrupts in real mode, and the dispatch\<close>

definition do_interrupt_real :: "machine \<Rightarrow> int \<Rightarrow> bool \<Rightarrow> u32 \<Rightarrow> u32 \<Rightarrow> cpu_state \<Rightarrow> cpu_state outcome" where
  "do_interrupt_real M intno is_int ecode next_eip env =
    check env (word_of_int (intno * 4 + 3) > sc_limit (idt env)) EXCP0D_GPF (word_of_int (intno * 8 + 2))
    (let ptr = sc_base (idt env) + word_of_int (intno * 4)
     in bind_out (cpu_lduw_kernel M env ptr) (\<lambda>(env, offset). bind_out (cpu_lduw_kernel M env (ptr + 2)) (\<lambda>(env, selector).
        let old_eip = (if is_int then next_eip else ucast (eip env)); old_cs = sc_selector (segs env R_CS)
        in bind_out (push_all (PUSHW M (sc_base (segs env R_SS)) 0xffff) [cpu_compute_eflags, \<lambda>env. old_cs, \<lambda>env. old_eip]
             (env, ucast (regs env R_ESP) :: u32)) (\<lambda>(env, esp).
          let env = set_reg R_ESP ((regs env R_ESP AND NOT 0xffff) OR ucast (esp AND 0xffff)) env;
              env = env\<lparr>eip := ucast offset, segs := (segs env)(R_CS := (segs env R_CS)
                \<lparr>sc_selector := selector, sc_base := scast (push_bit 4 selector)\<rparr>)\<rparr>
          in Done (env\<lparr>eflags := eflags env AND NOT (IF_MASK OR TF_MASK OR AC_MASK OR RF_MASK)\<rparr>)))))"

definition handle_even_inj :: "machine \<Rightarrow> int \<Rightarrow> bool \<Rightarrow> u32 \<Rightarrow> bool \<Rightarrow> bool \<Rightarrow> cpu_state \<Rightarrow> cpu_state outcome" where
  "handle_even_inj M intno is_int ecode is_hw rm env =
    bind_out (ld_phys M 4 (vm_vmcb env + VMCB_EVENT_INJ) env) (\<lambda>(env, v).
      let event_inj = (ucast v :: u32)
      in if event_inj AND SVM_EVTINJ_VALID = 0 then
           let type = (if is_int then SVM_EVTINJ_TYPE_SOFT else SVM_EVTINJ_TYPE_EXEPT);
               event_inj = word_of_int intno OR type OR SVM_EVTINJ_VALID
           in if \<not> rm \<and> exception_has_error_code intno then
                bind_out (st_phys M 4 (vm_vmcb env + VMCB_EVENT_INJ_ERR) (ucast ecode) env)
                  (\<lambda>env. st_phys M 4 (vm_vmcb env + VMCB_EVENT_INJ) (ucast (event_inj OR SVM_EVTINJ_VALID_ERR)) env)
              else st_phys M 4 (vm_vmcb env + VMCB_EVENT_INJ) (ucast event_inj) env
         else Done env)"

definition do_interrupt_all :: "machine \<Rightarrow> int \<Rightarrow> bool \<Rightarrow> u32 \<Rightarrow> target_ulong \<Rightarrow> bool \<Rightarrow> cpu_state \<Rightarrow> cpu_state outcome" where
  "do_interrupt_all M intno is_int ecode next_eip is_hw env =
    (let pe = (cr env 0 AND CR0_PE_MASK \<noteq> 0)
     in bind_out (if hflags env AND HF_SVMI_MASK \<noteq> 0 then handle_even_inj M intno is_int ecode is_hw (\<not> pe) env else Done env) (\<lambda>env.
        bind_out (if pe then
            if hflags env AND HF_LMA_MASK \<noteq> 0 then do_interrupt64 M intno is_int ecode next_eip is_hw env
            else do_interrupt_protected M intno is_int ecode (ucast next_eip) is_hw env
          else do_interrupt_real M intno is_int ecode (ucast next_eip) env) (\<lambda>env.
        if hflags env AND HF_SVMI_MASK \<noteq> 0 then
          bind_out (ld_phys M 4 (vm_vmcb env + VMCB_EVENT_INJ) env) (\<lambda>(env, v).
            st_phys M 4 (vm_vmcb env + VMCB_EVENT_INJ) (ucast ((ucast v :: u32) AND NOT SVM_EVTINJ_VALID)) env)
        else Done env)))"

definition do_interrupt :: "machine \<Rightarrow> cpu_state \<Rightarrow> cpu_state outcome" where
  "do_interrupt M env =
    bind_out (do_interrupt_all M (exception_index env) (exception_is_int env \<noteq> 0) (error_code env) (exception_next_eip env) False env)
      (\<lambda>env. Done (env\<lparr>old_exception := -1\<rparr>))"

definition do_interrupt_x86_hardirq :: "machine \<Rightarrow> int \<Rightarrow> bool \<Rightarrow> cpu_state \<Rightarrow> cpu_state outcome" where
  "do_interrupt_x86_hardirq M intno is_hw env = do_interrupt_all M intno False 0 0 is_hw env"

subsection \<open>Nested frames\<close>

text \<open>\<open>while (--level)\<close> copies \<open>level - 1\<close> frame pointers; \<open>ld\<close> and \<open>st\<close> are the accesses at an offset of the stack.\<close>

fun copy_frames :: "(cpu_state \<Rightarrow> 'a \<Rightarrow> (cpu_state \<times> 'v) outcome) \<Rightarrow> (cpu_state \<Rightarrow> 'a \<Rightarrow> 'v \<Rightarrow> cpu_state outcome) \<Rightarrow> 'a::minus \<Rightarrow> nat \<Rightarrow>
    'a \<Rightarrow> 'a \<Rightarrow> cpu_state \<Rightarrow> (cpu_state \<times> 'a) outcome" where
  "copy_frames ld st w 0 esp ebp env = Done (env, esp)"
| "copy_frames ld st w (Suc n) esp ebp env =
    bind_out (ld env (ebp - w)) (\<lambda>(env, v). bind_out (st env (esp - w) v) (copy_frames ld st w n (esp - w) (ebp - w)))"

definition enter_frames where
  "enter_frames ld st w level t1 esp ebp env =
    bind_out (copy_frames ld st w (unat (level - 1 :: u32)) (esp - w) ebp env) (\<lambda>(env, esp). st env (esp - w) t1)"

definition helper_enter_level :: "machine \<Rightarrow> u32 \<Rightarrow> bool \<Rightarrow> target_ulong \<Rightarrow> cpu_state \<Rightarrow> cpu_state outcome" where
  "helper_enter_level M level data32 t1 env =
    (let esp_mask = get_sp_mask (sc_flags (segs env R_SS)); ssp = sc_base (segs env R_SS);
         at = (\<lambda>p :: u32. ssp + ucast (p AND esp_mask)); z = (if data32 then Long else Word2)
     in enter_frames (\<lambda>env p. cpu_ld_data M z env (at p)) (\<lambda>env p. cpu_st_data M z env (at p)) (if data32 then 4 else 2) level
          (if data32 then take_bit 32 t1 else take_bit 16 t1) (ucast (regs env R_ESP)) (ucast (regs env R_EBP)) env)"

definition helper_enter64_level :: "machine \<Rightarrow> u32 \<Rightarrow> bool \<Rightarrow> target_ulong \<Rightarrow> cpu_state \<Rightarrow> cpu_state outcome" where
  "helper_enter64_level M level data64 t1 env =
    (let z = (if data64 then Quad else Word2)
     in enter_frames (cpu_ld_data M z) (cpu_st_data M z) (if data64 then 8 else 2) level
          (if data64 then t1 else take_bit 16 t1) (regs env R_ESP) (regs env R_EBP) env)"

end
