(* ===== verification/SegJump.thy ===== *)
theory SegJump
  imports SegInt
begin

text \<open>
  \<open>target-i386/seg_helper.c\<close>, the rest: \<open>lldt\<close>, \<open>ltr\<close>, loading a segment register, far jumps, calls and returns, and
  the instructions that inspect a descriptor.
\<close>

subsection \<open>System segments\<close>

definition lldt_desc :: "machine \<Rightarrow> u32 \<Rightarrow> cpu_state \<Rightarrow> cpu_state outcome" where
  "lldt_desc M selector env =
    (let err = selector AND 0xfffc; index = selector AND NOT 7; lma = (hflags env AND HF_LMA_MASK \<noteq> 0)
     in check env (selector AND 0x4 \<noteq> 0) EXCP0D_GPF err
       (check env (index + (if lma then 15 else 7) > sc_limit (gdt env)) EXCP0D_GPF err
        (let ptr = sc_base (gdt env) + scast index
         in bind_out (cpu_ldl_kernel M env ptr) (\<lambda>(env, e1). bind_out (cpu_ldl_kernel M env (ptr + 4)) (\<lambda>(env, e2).
            check env (e2 AND DESC_S_MASK \<noteq> 0 \<or> desc_type e2 \<noteq> 2) EXCP0D_GPF err
            (check env (e2 AND DESC_P_MASK = 0) EXCP0B_NOSEG err
              (if hflags env AND HF_LMA_MASK \<noteq> 0 then
                 bind_out (cpu_ldl_kernel M env (ptr + 8)) (\<lambda>(env, e3).
                   let dt = load_seg_cache_raw_dt (ldt env) e1 e2
                   in Done (env\<lparr>ldt := dt\<lparr>sc_base := sc_base dt OR push_bit 32 (ucast e3)\<rparr>\<rparr>))
               else Done (env\<lparr>ldt := load_seg_cache_raw_dt (ldt env) e1 e2\<rparr>))))))))"

definition helper_lldt :: "machine \<Rightarrow> u32 \<Rightarrow> cpu_state \<Rightarrow> cpu_state outcome" where
  "helper_lldt M selector env =
    (let selector = selector AND 0xffff
     in bind_out (if selector AND 0xfffc = 0 then Done (env\<lparr>ldt := (ldt env)\<lparr>sc_base := 0, sc_limit := 0\<rparr>\<rparr>)
          else lldt_desc M selector env)
        (\<lambda>env. Done (env\<lparr>ldt := (ldt env)\<lparr>sc_selector := selector\<rparr>\<rparr>)))"

definition ltr_desc :: "machine \<Rightarrow> u32 \<Rightarrow> cpu_state \<Rightarrow> cpu_state outcome" where
  "ltr_desc M selector env =
    (let err = selector AND 0xfffc; index = selector AND NOT 7; lma = (hflags env AND HF_LMA_MASK \<noteq> 0)
     in check env (selector AND 0x4 \<noteq> 0) EXCP0D_GPF err
       (check env (index + (if lma then 15 else 7) > sc_limit (gdt env)) EXCP0D_GPF err
        (let ptr = sc_base (gdt env) + scast index
         in bind_out (cpu_ldl_kernel M env ptr) (\<lambda>(env, e1). bind_out (cpu_ldl_kernel M env (ptr + 4)) (\<lambda>(env, e2).
            let type = desc_type e2
            in check env (e2 AND DESC_S_MASK \<noteq> 0 \<or> (type \<noteq> 1 \<and> type \<noteq> 9)) EXCP0D_GPF err
            (check env (e2 AND DESC_P_MASK = 0) EXCP0B_NOSEG err
              (bind_out (if hflags env AND HF_LMA_MASK \<noteq> 0 then
                 bind_out (cpu_ldl_kernel M env (ptr + 8)) (\<lambda>(env, e3). bind_out (cpu_ldl_kernel M env (ptr + 12)) (\<lambda>(env, e4).
                   check env (desc_type e4 \<noteq> 0) EXCP0D_GPF err
                   (let dt = load_seg_cache_raw_dt (tr env) e1 e2
                    in Done (env\<lparr>tr := dt\<lparr>sc_base := sc_base dt OR push_bit 32 (ucast e3)\<rparr>\<rparr>))))
               else Done (env\<lparr>tr := load_seg_cache_raw_dt (tr env) e1 e2\<rparr>))
               (\<lambda>env. cpu_stl_kernel M env (ptr + 4) (e2 OR DESC_TSS_BUSY_MASK)))))))))"

definition helper_ltr :: "machine \<Rightarrow> u32 \<Rightarrow> cpu_state \<Rightarrow> cpu_state outcome" where
  "helper_ltr M selector env =
    (let selector = selector AND 0xffff
     in bind_out (if selector AND 0xfffc = 0 then Done (env\<lparr>tr := (tr env)\<lparr>sc_base := 0, sc_limit := 0, sc_flags := 0\<rparr>\<rparr>)
          else ltr_desc M selector env)
        (\<lambda>env. Done (env\<lparr>tr := (tr env)\<lparr>sc_selector := selector\<rparr>\<rparr>)))"

subsection \<open>Segment registers\<close>

text \<open>The rights a descriptor gives to a load of \<open>seg_reg\<close>.\<close>

definition seg_denied :: "nat \<Rightarrow> u32 \<Rightarrow> u32 \<Rightarrow> u32 \<Rightarrow> bool" where
  "seg_denied seg_reg cpl rpl e2 \<longleftrightarrow>
    (if seg_reg = R_SS then
       (e2 AND DESC_CS_MASK \<noteq> 0 \<or> e2 AND DESC_W_MASK = 0) \<or> (rpl \<noteq> cpl \<or> desc_dpl e2 \<noteq> cpl)
     else
       e2 AND (DESC_CS_MASK OR DESC_R_MASK) = DESC_CS_MASK
       \<or> ((e2 AND DESC_CS_MASK = 0 \<or> e2 AND DESC_C_MASK = 0) \<and> (desc_dpl e2 < cpl \<or> desc_dpl e2 < rpl)))"

definition helper_load_seg :: "machine \<Rightarrow> nat \<Rightarrow> u32 \<Rightarrow> cpu_state \<Rightarrow> cpu_state outcome" where
  "helper_load_seg M seg_reg selector env =
    (let selector = selector AND 0xffff; cpl = cpl_of env; err = selector AND 0xfffc
     in if err = 0 then
          check env (seg_reg = R_SS \<and> (hflags env AND HF_CS64_MASK = 0 \<or> cpl = 3)) EXCP0D_GPF 0
            (Done (cpu_x86_load_seg_cache env seg_reg selector 0 0 0))
        else
          let dt = (if selector AND 0x4 \<noteq> 0 then ldt env else gdt env); index = selector AND NOT 7
          in check env (index + 7 > sc_limit dt) EXCP0D_GPF err
            (let ptr = sc_base dt + scast index
             in bind_out (cpu_ldl_kernel M env ptr) (\<lambda>(env, e1). bind_out (cpu_ldl_kernel M env (ptr + 4)) (\<lambda>(env, e2).
                check env (e2 AND DESC_S_MASK = 0) EXCP0D_GPF err
                (check env (seg_denied seg_reg cpl (selector AND 3) e2) EXCP0D_GPF err
                (check env (e2 AND DESC_P_MASK = 0) (if seg_reg = R_SS then EXCP0C_STACK else EXCP0B_NOSEG) err
                (let e2' = e2 OR DESC_A_MASK
                 in bind_out (if e2 AND DESC_A_MASK = 0 then cpu_stl_kernel M env (ptr + 4) e2' else Done env)
                      (\<lambda>env. Done (load_seg_desc env seg_reg selector e1 (if e2 AND DESC_A_MASK = 0 then e2' else e2))))))))))"

subsection \<open>Far jumps\<close>

text \<open>The rights of a direct jump or call to a code segment.\<close>

definition code_denied :: "u32 \<Rightarrow> u32 \<Rightarrow> u32 \<Rightarrow> bool" where
  "code_denied cpl rpl e2 \<longleftrightarrow>
    e2 AND DESC_CS_MASK = 0
    \<or> (if e2 AND DESC_C_MASK \<noteq> 0 then desc_dpl e2 > cpl else rpl > cpl \<or> desc_dpl e2 \<noteq> cpl)"

definition jump_cs :: "u32 \<Rightarrow> u32 \<Rightarrow> u32 \<Rightarrow> target_ulong \<Rightarrow> cpu_state \<Rightarrow> cpu_state" where
  "jump_cs selector e1 e2 new_eip env = (load_seg_desc env R_CS selector e1 e2)\<lparr>eip := new_eip\<rparr>"

definition ljmp_gate :: "machine \<Rightarrow> u32 \<Rightarrow> u32 \<Rightarrow> u32 \<Rightarrow> u32 \<Rightarrow> cpu_state \<Rightarrow> cpu_state outcome" where
  "ljmp_gate M type cpl e1 e2 env =
    (let gate_cs = drop_bit 16 e1; err = gate_cs AND 0xfffc;
         new_eip = (if type = 12 then (e1 AND 0xffff) OR (e2 AND 0xffff0000) else e1 AND 0xffff)
     in load_desc M env gate_cs EXCP0D_GPF err (\<lambda>env e1 e2.
          let dpl = desc_dpl e2
          in check env (e2 AND (DESC_S_MASK OR DESC_CS_MASK) \<noteq> DESC_S_MASK OR DESC_CS_MASK) EXCP0D_GPF err
            (check env ((e2 AND DESC_C_MASK \<noteq> 0 \<and> dpl > cpl) \<or> (e2 AND DESC_C_MASK = 0 \<and> dpl \<noteq> cpl)) EXCP0D_GPF err
            (check env (e2 AND DESC_P_MASK = 0) EXCP0D_GPF err
            (check env (new_eip > get_seg_limit e1 e2) EXCP0D_GPF 0
              (Done (jump_cs ((gate_cs AND 0xfffc) OR cpl) e1 e2 (ucast new_eip) env)))))))"

definition helper_ljmp_protected :: "machine \<Rightarrow> u32 \<Rightarrow> target_ulong \<Rightarrow> u32 \<Rightarrow> cpu_state \<Rightarrow> cpu_state outcome" where
  "helper_ljmp_protected M new_cs new_eip next_eip_addend env =
    (let err = new_cs AND 0xfffc; rpl = new_cs AND 3
     in check env (err = 0) EXCP0D_GPF 0 (load_desc M env new_cs EXCP0D_GPF err (\<lambda>env e1 e2.
          let cpl = cpl_of env; dpl = desc_dpl e2
          in if e2 AND DESC_S_MASK \<noteq> 0 then
               check env (code_denied cpl rpl e2) EXCP0D_GPF err
               (check env (e2 AND DESC_P_MASK = 0) EXCP0B_NOSEG err
               (check env (new_eip > ucast (get_seg_limit e1 e2) \<and> hflags env AND HF_LMA_MASK = 0 \<and> e2 AND DESC_L_MASK = 0)
                  EXCP0D_GPF err
                 (Done (jump_cs (err OR cpl) e1 e2 new_eip env))))
             else
               let type = desc_type e2
               in if type \<in> {1, 9, 5} then
                    check env (dpl < cpl \<or> dpl < rpl) EXCP0D_GPF err
                      (bind_out (switch_tss M new_cs e1 e2 SWITCH_TSS_JMP (ucast (eip env + scast next_eip_addend)) env)
                        (\<lambda>env. Done (env\<lparr>cc_op := CC_OP_EFLAGS\<rparr>)))
                  else if type \<in> {4, 12} then
                    check env (dpl < cpl \<or> dpl < rpl) EXCP0D_GPF err
                      (check env (e2 AND DESC_P_MASK = 0) EXCP0B_NOSEG err (ljmp_gate M type cpl e1 e2 env))
                  else raise_exception_err env EXCP0D_GPF err)))"

subsection \<open>Far calls\<close>

text \<open>The return address on the stack.\<close>

definition push_return :: "machine \<Rightarrow> bool \<Rightarrow> target_ulong \<Rightarrow> u32 \<Rightarrow> u32 \<Rightarrow> u32 \<Rightarrow> cpu_state \<Rightarrow> (cpu_state \<times> u32) outcome" where
  "push_return M long ssp sp_mask next_eip sp env =
    push_all (push_wl M long ssp sp_mask) [push_sel R_CS, \<lambda>env. next_eip] (env, sp)"

definition helper_lcall_real :: "machine \<Rightarrow> u32 \<Rightarrow> target_ulong \<Rightarrow> u32 \<Rightarrow> u32 \<Rightarrow> cpu_state \<Rightarrow> cpu_state outcome" where
  "helper_lcall_real M new_cs new_eip1 shift next_eip env =
    (let sp_mask = get_sp_mask (sc_flags (segs env R_SS))
     in bind_out (push_return M (shift \<noteq> 0) (sc_base (segs env R_SS)) sp_mask next_eip (ucast (regs env R_ESP)) env) (\<lambda>(env, esp).
          let env = (SET_ESP (ucast esp) (ucast sp_mask) env)\<lparr>eip := scast (ucast new_eip1 :: u32)\<rparr>
          in Done (env\<lparr>segs := (segs env)(R_CS := (segs env R_CS)
               \<lparr>sc_selector := new_cs, sc_base := scast (push_bit 4 new_cs)\<rparr>)\<rparr>)))"

text \<open>The parameters of the call, copied from the old stack, the last one first.\<close>

fun copy_params :: "machine \<Rightarrow> bool \<Rightarrow> target_ulong \<Rightarrow> u32 \<Rightarrow> target_ulong \<Rightarrow> u32 \<Rightarrow> nat \<Rightarrow> cpu_state \<times> u32 \<Rightarrow> (cpu_state \<times> u32) outcome" where
  "copy_params M long old_ssp old_sp_mask ssp sp_mask 0 s = Done s"
| "copy_params M long old_ssp old_sp_mask ssp sp_mask (Suc i) (env, sp) =
    bind_out (if long then cpu_ldl_kernel M env (old_ssp + ((regs env R_ESP + of_nat (i * 4)) AND ucast old_sp_mask))
        else cpu_lduw_kernel M env (old_ssp + ((regs env R_ESP + of_nat (i * 2)) AND ucast old_sp_mask))) (\<lambda>(env, val).
      bind_out (push_wl M long ssp sp_mask val (env, sp)) (copy_params M long old_ssp old_sp_mask ssp sp_mask i))"

definition lcall_enter :: "machine \<Rightarrow> bool \<Rightarrow> u32 \<Rightarrow> u32 \<Rightarrow> u32 \<Rightarrow> u32 \<Rightarrow> u32 \<Rightarrow> (u32 \<times> u32 \<times> u32) option \<Rightarrow>
    target_ulong \<Rightarrow> u32 \<Rightarrow> u32 \<Rightarrow> u32 \<Rightarrow> cpu_state \<Rightarrow> cpu_state outcome" where
  "lcall_enter M long selector offset dpl e1 e2 new_stack ssp sp_mask next_eip sp env =
    bind_out (push_return M long ssp sp_mask next_eip sp env) (\<lambda>(env, sp).
      let env = (case new_stack of None \<Rightarrow> env
            | Some (ss, ss_e1, ss_e2) \<Rightarrow>
                cpu_x86_load_seg_cache env R_SS ((ss AND NOT 3) OR dpl) ssp (get_seg_limit ss_e1 ss_e2) ss_e2);
          env = load_seg_desc env R_CS ((selector AND NOT 3) OR dpl) e1 e2;
          env = cpu_x86_set_cpl env dpl;
          env = SET_ESP (ucast sp) (ucast sp_mask) env
      in Done (env\<lparr>eip := ucast offset\<rparr>))"

definition lcall_gate :: "machine \<Rightarrow> bool \<Rightarrow> u32 \<Rightarrow> u32 \<Rightarrow> u32 \<Rightarrow> u32 \<Rightarrow> cpu_state \<Rightarrow> cpu_state outcome" where
  "lcall_gate M long cpl next_eip e1 e2 env =
    (let selector = drop_bit 16 e1; offset = (e2 AND 0xffff0000) OR (e1 AND 0xffff); param_count = unat (e2 AND 0x1f)
     in gate_target M env selector cpl (\<lambda>env e1 e2.
          let dpl = desc_dpl e2
          in if e2 AND DESC_C_MASK = 0 \<and> dpl < cpl then
               inner_stack M env dpl (\<lambda>env ss sp ss_e1 ss_e2.
                 let old_sp_mask = get_sp_mask (sc_flags (segs env R_SS)); old_ssp = sc_base (segs env R_SS);
                     sp_mask = get_sp_mask ss_e2; ssp = ucast (get_seg_base ss_e1 ss_e2)
                 in bind_out (push_all (push_wl M long ssp sp_mask) [push_sel R_SS, \<lambda>env. ucast (regs env R_ESP)] (env, sp)) (\<lambda>s.
                    bind_out (copy_params M long old_ssp old_sp_mask ssp sp_mask param_count s) (\<lambda>(env, sp).
                      lcall_enter M long selector offset dpl e1 e2 (Some (ss, ss_e1, ss_e2)) ssp sp_mask next_eip sp env)))
             else
               lcall_enter M long selector offset dpl e1 e2 None (sc_base (segs env R_SS))
                 (get_sp_mask (sc_flags (segs env R_SS))) next_eip (ucast (regs env R_ESP)) env))"

definition lcall_direct :: "machine \<Rightarrow> u32 \<Rightarrow> u32 \<Rightarrow> target_ulong \<Rightarrow> u32 \<Rightarrow> target_ulong \<Rightarrow> u32 \<Rightarrow> u32 \<Rightarrow> cpu_state \<Rightarrow> cpu_state outcome" where
  "lcall_direct M new_cs cpl new_eip shift next_eip e1 e2 env =
    (let err = new_cs AND 0xfffc
     in if shift = 2 then
          bind_out (push_all (PUSHQ M) [\<lambda>env. ucast (sc_selector (segs env R_CS)), \<lambda>env. next_eip] (env, regs env R_ESP))
            (\<lambda>(env, rsp). Done (jump_cs (err OR cpl) e1 e2 new_eip (set_reg R_ESP rsp env)))
        else
          let sp_mask = get_sp_mask (sc_flags (segs env R_SS))
          in bind_out (push_return M (shift \<noteq> 0) (sc_base (segs env R_SS)) sp_mask (ucast next_eip) (ucast (regs env R_ESP)) env)
              (\<lambda>(env, sp). check env (new_eip > ucast (get_seg_limit e1 e2)) EXCP0D_GPF err
                (Done (jump_cs (err OR cpl) e1 e2 new_eip (SET_ESP (ucast sp) (ucast sp_mask) env)))))"

definition helper_lcall_protected :: "machine \<Rightarrow> u32 \<Rightarrow> target_ulong \<Rightarrow> u32 \<Rightarrow> u32 \<Rightarrow> cpu_state \<Rightarrow> cpu_state outcome" where
  "helper_lcall_protected M new_cs new_eip shift next_eip_addend env =
    (let next_eip = eip env + scast next_eip_addend; err = new_cs AND 0xfffc; rpl = new_cs AND 3
     in check env (err = 0) EXCP0D_GPF 0 (load_desc M env new_cs EXCP0D_GPF err (\<lambda>env e1 e2.
          let cpl = cpl_of env; dpl = desc_dpl e2
          in if e2 AND DESC_S_MASK \<noteq> 0 then
               check env (code_denied cpl rpl e2) EXCP0D_GPF err
               (check env (e2 AND DESC_P_MASK = 0) EXCP0B_NOSEG err
                 (lcall_direct M new_cs cpl new_eip shift next_eip e1 e2 env))
             else
               let type = drop_bit 8 e2 AND 0x1f
               in if type \<in> {1, 9, 5} then
                    check env (dpl < cpl \<or> dpl < rpl) EXCP0D_GPF err
                      (bind_out (switch_tss M new_cs e1 e2 SWITCH_TSS_CALL (ucast next_eip) env)
                        (\<lambda>env. Done (env\<lparr>cc_op := CC_OP_EFLAGS\<rparr>)))
                  else if type \<in> {4, 12} then
                    check env (dpl < cpl \<or> dpl < rpl) EXCP0D_GPF err
                      (check env (e2 AND DESC_P_MASK = 0) EXCP0B_NOSEG err
                        (lcall_gate M (drop_bit 3 type \<noteq> 0) cpl (ucast next_eip) e1 e2 env))
                  else raise_exception_err env EXCP0D_GPF err)))"

subsection \<open>Far returns\<close>

definition helper_iret_real :: "machine \<Rightarrow> u32 \<Rightarrow> cpu_state \<Rightarrow> cpu_state outcome" where
  "helper_iret_real M shift env =
    (let ssp = sc_base (segs env R_SS); pop = (if shift = 1 then POPL M ssp 0xffff else POPW M ssp 0xffff)
     in bind_out (pop env (ucast (regs env R_ESP) :: u32)) (\<lambda>(env, sp, new_eip). bind_out (pop env sp) (\<lambda>(env, sp, new_cs).
        bind_out (pop env sp) (\<lambda>(env, sp, new_eflags).
        let new_cs = (if shift = 1 then new_cs AND 0xffff else new_cs);
            env = set_reg R_ESP ((regs env R_ESP AND NOT 0xffff) OR ucast (sp AND 0xffff)) env;
            env = env\<lparr>segs := (segs env)(R_CS := (segs env R_CS)\<lparr>sc_selector := new_cs, sc_base := ucast (push_bit 4 new_cs)\<rparr>),
              eip := ucast new_eip\<rparr>;
            eflags_mask = (if in_vm86 env then TF_MASK OR AC_MASK OR ID_MASK OR IF_MASK OR RF_MASK OR NT_MASK
              else TF_MASK OR AC_MASK OR ID_MASK OR IF_MASK OR IOPL_MASK OR RF_MASK OR NT_MASK);
            eflags_mask = (if shift = 0 then eflags_mask AND 0xffff else eflags_mask);
            env = cpu_load_eflags env new_eflags eflags_mask
        in Done (env\<lparr>hflags2 := hflags2 env AND NOT HF2_NMI_MASK\<rparr>)))))"

definition validate_seg :: "nat \<Rightarrow> u32 \<Rightarrow> cpu_state \<Rightarrow> cpu_state" where
  "validate_seg seg_reg cpl env =
    (if (seg_reg = R_FS \<or> seg_reg = R_GS) \<and> sc_selector (segs env seg_reg) AND 0xfffc = 0 then env
     else let e2 = sc_flags (segs env seg_reg)
       in if (e2 AND DESC_CS_MASK = 0 \<or> e2 AND DESC_C_MASK = 0) \<and> desc_dpl e2 < cpl
          then cpu_x86_load_seg_cache env seg_reg 0 0 0 0 else env)"

text \<open>The pop of the operand size; the 16- and 32-bit forms zero-extend.\<close>

definition pop_size :: "machine \<Rightarrow> u32 \<Rightarrow> target_ulong \<Rightarrow> u64 \<Rightarrow> cpu_state \<Rightarrow> u64 \<Rightarrow> (cpu_state \<times> u64 \<times> u64) outcome" where
  "pop_size M shift ssp sp_mask env sp =
    (if shift = 2 then POPQ M env sp
     else bind_out (if shift = 1 then POPL M ssp sp_mask env sp else POPW M ssp sp_mask env sp)
       (\<lambda>(env, sp, v). Done (env, sp, ucast v)))"

text \<open>\<open>return_to_vm86\<close>\<close>

definition return_to_vm86 :: "machine \<Rightarrow> target_ulong \<Rightarrow> u64 \<Rightarrow> u64 \<Rightarrow> u64 \<Rightarrow> u32 \<Rightarrow> u32 \<Rightarrow> cpu_state \<Rightarrow> cpu_state outcome" where
  "return_to_vm86 M ssp sp_mask sp new_eip new_cs new_eflags env =
    bind_out (POPL M ssp sp_mask env sp) (\<lambda>(env, sp, new_esp). bind_out (POPL M ssp sp_mask env sp) (\<lambda>(env, sp, new_ss).
    bind_out (POPL M ssp sp_mask env sp) (\<lambda>(env, sp, new_es). bind_out (POPL M ssp sp_mask env sp) (\<lambda>(env, sp, new_ds).
    bind_out (POPL M ssp sp_mask env sp) (\<lambda>(env, sp, new_fs). bind_out (POPL M ssp sp_mask env sp) (\<lambda>(env, sp, new_gs).
      let env = cpu_load_eflags env new_eflags
            (TF_MASK OR AC_MASK OR ID_MASK OR IF_MASK OR IOPL_MASK OR VM_MASK OR NT_MASK OR VIF_MASK OR VIP_MASK);
          env = load_seg_vm env R_CS (new_cs AND 0xffff);
          env = cpu_x86_set_cpl env 3;
          env = load_seg_vm env R_SS (new_ss AND 0xffff);
          env = load_seg_vm env R_ES (new_es AND 0xffff);
          env = load_seg_vm env R_DS (new_ds AND 0xffff);
          env = load_seg_vm env R_FS (new_fs AND 0xffff);
          env = load_seg_vm env R_GS (new_gs AND 0xffff)
      in Done (set_reg R_ESP (ucast new_esp) (env\<lparr>eip := new_eip AND 0xffff\<rparr>))))))))"

text \<open>The stack segment of the outer level: the flags that give the stack mask.\<close>

definition ret_stack :: "machine \<Rightarrow> u32 \<Rightarrow> u32 \<Rightarrow> cpu_state \<Rightarrow> (cpu_state \<times> u32) outcome" where
  "ret_stack M new_ss rpl env =
    (let err = new_ss AND 0xfffc
     in if err = 0 then
          if hflags env AND HF_LMA_MASK \<noteq> 0 \<and> rpl \<noteq> 3
          then Done (flat_seg R_SS new_ss (flat_data (push_bit 13 rpl)) env, DESC_B_MASK)
          else raise_exception_err env EXCP0D_GPF 0
        else check env (new_ss AND 3 \<noteq> rpl) EXCP0D_GPF err (load_desc M env new_ss EXCP0D_GPF err (\<lambda>env ss_e1 ss_e2.
          check env (ss_e2 AND DESC_S_MASK = 0 \<or> ss_e2 AND DESC_CS_MASK \<noteq> 0 \<or> ss_e2 AND DESC_W_MASK = 0) EXCP0D_GPF err
          (check env (desc_dpl ss_e2 \<noteq> rpl) EXCP0D_GPF err
          (check env (ss_e2 AND DESC_P_MASK = 0) EXCP0B_NOSEG err
            (Done (load_seg_desc env R_SS new_ss ss_e1 ss_e2, ss_e2)))))))"

text \<open>The return to an outer level gives the new stack pointer and mask.\<close>

definition ret_outer :: "machine \<Rightarrow> u32 \<Rightarrow> target_ulong \<Rightarrow> u64 \<Rightarrow> u64 \<Rightarrow> u32 \<Rightarrow> u32 \<Rightarrow> u32 \<Rightarrow> u32 \<Rightarrow> cpu_state \<Rightarrow>
    (cpu_state \<times> u64 \<times> u64) outcome" where
  "ret_outer M shift ssp sp_mask sp delta new_cs e1 e2 env =
    (let rpl = new_cs AND 3
     in bind_out (pop_size M shift ssp sp_mask env sp) (\<lambda>(env, sp, new_esp).
        bind_out (pop_size M shift ssp sp_mask env sp) (\<lambda>(env, sp, new_ss).
        bind_out (ret_stack M (if shift = 0 then ucast new_ss else ucast new_ss AND 0xffff) rpl env) (\<lambda>(env, ss_e2).
          let env = load_seg_desc env R_CS new_cs e1 e2;
              env = cpu_x86_set_cpl env rpl;
              sp_mask = (if hflags env AND HF_CS64_MASK \<noteq> 0 then -1 else get_sp_mask ss_e2);
              env = fold (\<lambda>r. validate_seg r rpl) [R_ES, R_DS, R_FS, R_GS] env
          in Done (env, new_esp + scast delta, sp_mask)))))"

text \<open>The flags \<open>iret\<close> restores; \<open>cpl\<close> is the old level.\<close>

definition iret_eflags :: "u32 \<Rightarrow> u32 \<Rightarrow> u32 \<Rightarrow> cpu_state \<Rightarrow> cpu_state" where
  "iret_eflags shift cpl new_eflags env =
    (let m = TF_MASK OR AC_MASK OR ID_MASK OR RF_MASK OR NT_MASK;
         m = (if cpl = 0 then m OR IOPL_MASK else m);
         iopl = ucast (drop_bit 12 (eflags env)) AND 3;
         m = (if cpl \<le> iopl then m OR IF_MASK else m);
         m = (if shift = 0 then m AND 0xffff else m)
     in cpu_load_eflags env new_eflags m)"

definition ret_checked :: "machine \<Rightarrow> u32 \<Rightarrow> bool \<Rightarrow> u32 \<Rightarrow> target_ulong \<Rightarrow> u64 \<Rightarrow> u64 \<Rightarrow> target_ulong \<Rightarrow> u32 \<Rightarrow> u32 \<Rightarrow> cpu_state \<Rightarrow> cpu_state outcome" where
  "ret_checked M shift is_iret delta ssp sp_mask sp new_eip new_cs new_eflags env =
    (let err = new_cs AND 0xfffc; rpl = new_cs AND 3
     in check env (err = 0) EXCP0D_GPF err (load_desc M env new_cs EXCP0D_GPF err (\<lambda>env e1 e2.
          let cpl = cpl_of env; dpl = desc_dpl e2
          in check env (e2 AND DESC_S_MASK = 0 \<or> e2 AND DESC_CS_MASK = 0) EXCP0D_GPF err
            (check env (rpl < cpl) EXCP0D_GPF err
            (check env (if e2 AND DESC_C_MASK \<noteq> 0 then dpl > rpl else dpl \<noteq> rpl) EXCP0D_GPF err
            (check env (e2 AND DESC_P_MASK = 0) EXCP0B_NOSEG err
              (let sp = sp + scast delta
               in bind_out (if rpl = cpl \<and> (hflags env AND HF_CS64_MASK = 0 \<or> \<not> is_iret)
                    then Done (load_seg_desc env R_CS new_cs e1 e2, sp, sp_mask)
                    else ret_outer M shift ssp sp_mask sp delta new_cs e1 e2 env) (\<lambda>(env, sp, sp_mask).
                  let env = (SET_ESP sp sp_mask env)\<lparr>eip := new_eip\<rparr>
                  in Done (if is_iret then iret_eflags shift cpl new_eflags env else env)))))))))"

definition helper_ret_protected :: "machine \<Rightarrow> u32 \<Rightarrow> bool \<Rightarrow> u32 \<Rightarrow> cpu_state \<Rightarrow> cpu_state outcome" where
  "helper_ret_protected M shift is_iret delta env =
    (let sp_mask = (if shift = 2 then -1 else get_sp_mask (sc_flags (segs env R_SS))); ssp = sc_base (segs env R_SS);
         pop = pop_size M shift ssp sp_mask
     in bind_out (pop env (regs env R_ESP)) (\<lambda>(env, sp, new_eip). bind_out (pop env sp) (\<lambda>(env, sp, cs).
          let new_cs = (if shift = 0 then ucast cs else ucast cs AND 0xffff)
          in bind_out (if is_iret then pop env sp else Done (env, sp, 0)) (\<lambda>(env, sp, fl).
               let new_eflags = ucast fl
               in if shift = 1 \<and> is_iret \<and> new_eflags AND VM_MASK \<noteq> 0
                  then return_to_vm86 M ssp sp_mask sp new_eip new_cs new_eflags env
                  else ret_checked M shift is_iret delta ssp sp_mask sp new_eip new_cs new_eflags env))))"

definition helper_iret_protected :: "machine \<Rightarrow> u32 \<Rightarrow> u32 \<Rightarrow> cpu_state \<Rightarrow> cpu_state outcome" where
  "helper_iret_protected M shift next_eip env =
    bind_out (if eflags env AND NT_MASK \<noteq> 0 then
        check env (hflags env AND HF_LMA_MASK \<noteq> 0) EXCP0D_GPF 0
          (bind_out (cpu_lduw_kernel M env (sc_base (tr env))) (\<lambda>(env, tss_selector).
            let err = tss_selector AND 0xfffc
            in check env (tss_selector AND 4 \<noteq> 0) EXCP0A_TSS err
              (load_desc M env tss_selector EXCP0A_TSS err (\<lambda>env e1 e2.
                check env (drop_bit 8 e2 AND 0x17 \<noteq> 3) EXCP0A_TSS err
                  (switch_tss M tss_selector e1 e2 SWITCH_TSS_IRET next_eip env)))))
      else helper_ret_protected M shift True 0 env)
      (\<lambda>env. Done (env\<lparr>hflags2 := hflags2 env AND NOT HF2_NMI_MASK\<rparr>))"

definition helper_lret_protected :: "machine \<Rightarrow> u32 \<Rightarrow> u32 \<Rightarrow> cpu_state \<Rightarrow> cpu_state outcome" where
  "helper_lret_protected M shift delta env = helper_ret_protected M shift False delta env"

subsection \<open>Inspecting descriptors\<close>

text \<open>The four instructions set or clear \<open>CC_Z\<close> and return a value of the descriptor or 0.\<close>

definition inspect_desc :: "machine \<Rightarrow> (u32 \<Rightarrow> u32 \<Rightarrow> u32 \<Rightarrow> bool) \<Rightarrow> (u32 \<Rightarrow> u32 \<Rightarrow> u32) \<Rightarrow> target_ulong \<Rightarrow> cpu_state \<Rightarrow>
    (cpu_state \<times> target_ulong) outcome" where
  "inspect_desc M ok result selector1 env =
    (let selector = (ucast selector1 :: u32) AND 0xffff; fl = helper_cc_compute_all env (cc_op env);
         fail = (\<lambda>env. Done (env\<lparr>cc_src := ucast (fl AND NOT CC_Z)\<rparr>, 0))
     in if selector AND 0xfffc = 0 then fail env
        else bind_out (load_segment M env selector) (\<lambda>(env, r).
          case r of None \<Rightarrow> fail env
          | Some (e1, e2) \<Rightarrow>
              if ok (cpl_of env) (selector AND 3) e2
              then Done (env\<lparr>cc_src := ucast (fl OR CC_Z)\<rparr>, ucast (result e1 e2)) else fail env))"

abbreviation (input) dpl_ok :: "u32 \<Rightarrow> u32 \<Rightarrow> u32 \<Rightarrow> bool" where
  "dpl_ok cpl rpl e2 \<equiv> \<not> (desc_dpl e2 < cpl \<or> desc_dpl e2 < rpl)"

definition lsl_lar_ok :: "u32 set \<Rightarrow> u32 \<Rightarrow> u32 \<Rightarrow> u32 \<Rightarrow> bool" where
  "lsl_lar_ok types cpl rpl e2 \<longleftrightarrow>
    (if e2 AND DESC_S_MASK \<noteq> 0 then (e2 AND DESC_CS_MASK \<noteq> 0 \<and> e2 AND DESC_C_MASK \<noteq> 0) \<or> dpl_ok cpl rpl e2
     else desc_type e2 \<in> types \<and> dpl_ok cpl rpl e2)"

definition helper_lsl :: "machine \<Rightarrow> target_ulong \<Rightarrow> cpu_state \<Rightarrow> (cpu_state \<times> target_ulong) outcome" where
  "helper_lsl M = inspect_desc M (lsl_lar_ok {1, 2, 3, 9, 11}) get_seg_limit"

definition helper_lar :: "machine \<Rightarrow> target_ulong \<Rightarrow> cpu_state \<Rightarrow> (cpu_state \<times> target_ulong) outcome" where
  "helper_lar M = inspect_desc M (lsl_lar_ok {1, 2, 3, 4, 5, 9, 11, 12}) (\<lambda>e1 e2. e2 AND 0x00f0ff00)"

definition verr_ok :: "u32 \<Rightarrow> u32 \<Rightarrow> u32 \<Rightarrow> bool" where
  "verr_ok cpl rpl e2 \<longleftrightarrow> e2 AND DESC_S_MASK \<noteq> 0 \<and>
    (if e2 AND DESC_CS_MASK \<noteq> 0 then
       e2 AND DESC_R_MASK \<noteq> 0 \<and> (e2 AND DESC_C_MASK \<noteq> 0 \<or> dpl_ok cpl rpl e2)
     else dpl_ok cpl rpl e2)"

definition verw_ok :: "u32 \<Rightarrow> u32 \<Rightarrow> u32 \<Rightarrow> bool" where
  "verw_ok cpl rpl e2 \<longleftrightarrow> e2 AND DESC_S_MASK \<noteq> 0 \<and> e2 AND DESC_CS_MASK = 0 \<and> dpl_ok cpl rpl e2 \<and> e2 AND DESC_W_MASK \<noteq> 0"

definition helper_verr :: "machine \<Rightarrow> target_ulong \<Rightarrow> cpu_state \<Rightarrow> cpu_state outcome" where
  "helper_verr M selector1 env = bind_out (inspect_desc M verr_ok (\<lambda>e1 e2. 0) selector1 env) (\<lambda>(env, r). Done env)"

definition helper_verw :: "machine \<Rightarrow> target_ulong \<Rightarrow> cpu_state \<Rightarrow> cpu_state outcome" where
  "helper_verw M selector1 env = bind_out (inspect_desc M verw_ok (\<lambda>e1 e2. 0) selector1 env) (\<lambda>(env, r). Done env)"

end
