(* ===== verification/SegFrame.thy ===== *)
theory SegFrame
  imports SegJump
begin

text \<open>
  Rules for the segmentation helpers: one rule per building block that says what may be assumed of the state where
  the rest of the helper runs. They are collected in \<open>vc\<close>; the register effects of the segment and privilege updates are in
  \<open>seg_simps\<close>.
\<close>

named_theorems vc \<open>rules for the postcondition of a helper\<close>
named_theorems seg_simps \<open>registers after a segment update\<close>

subsection \<open>Words\<close>

lemma low_bits_of_selector [seg_simps]:
  fixes s c :: u32
  shows "((s AND NOT 3) OR c) AND 3 = c AND 3" "((s AND 0xfffc) OR c) AND 3 = c AND 3" "(s AND 0xfffc) AND 3 = 0"
proof -
  show "((s AND NOT 3) OR c) AND 3 = c AND 3"
    by (rule bit_word_eqI) (auto simp: bit_simps)
  have *: "(0xfffc :: u32) AND 3 = 0" by simp
  have "(s AND 0xfffc) AND 3 = s AND (0xfffc AND 3)" by (simp add: and.assoc)
  then show z: "(s AND 0xfffc) AND 3 = 0" using * by simp
  then show "((s AND 0xfffc) OR c) AND 3 = c AND 3" by (simp add: bit.conj_disj_distrib2)
qed

lemmas low_bits_of_selector' [seg_simps] = low_bits_of_selector [simplified]

lemma cpl_and_3 [seg_simps]: "cpl_of env AND 3 = cpl_of env"
  by (simp add: cpl_of_def and.assoc)

lemma dpl_and_3 [seg_simps]: "desc_dpl e2 AND 3 = desc_dpl e2"
  by (simp add: desc_dpl_def and.assoc)

subsection \<open>Registers after an update\<close>

lemma load_seg_cache_fields [seg_simps]:
  "segs (cpu_x86_load_seg_cache env r s b l f) =
    (segs env)(r := \<lparr>sc_selector = s, sc_base = b, sc_limit = l, sc_flags = f\<rparr>)"
  "eflags (cpu_x86_load_seg_cache env r s b l f) = eflags env" "cr (cpu_x86_load_seg_cache env r s b l f) = cr env"
  "regs (cpu_x86_load_seg_cache env r s b l f) = regs env" "eip (cpu_x86_load_seg_cache env r s b l f) = eip env"
  "efer (cpu_x86_load_seg_cache env r s b l f) = efer env" "hflags2 (cpu_x86_load_seg_cache env r s b l f) = hflags2 env"
  by (simp_all add: cpu_x86_load_seg_cache_def update_cs_hflags_def set_seg_def Let_def)

lemma masked_update:
  fixes h :: "'a::len word"
  assumes "A AND m = 0" "B AND m = 0"
  shows "((h AND NOT A) OR B) AND m = h AND m" "(h AND NOT A) AND m = h AND m" "(h OR B) AND m = h AND m"
proof -
  have "NOT A AND m = m"
  proof (rule bit_word_eqI)
    fix n assume "n < LENGTH('a)"
    moreover have "bit (A AND m) n = False" by (simp add: assms)
    ultimately show "bit (NOT A AND m) n = bit m n" by (auto simp: bit_and_iff bit_not_iff)
  qed
  then show n: "(h AND NOT A) AND m = h AND m" by (simp add: and.assoc)
  then show "((h AND NOT A) OR B) AND m = h AND m" by (simp add: bit.conj_disj_distrib2 assms)
  show "(h OR B) AND m = h AND m" by (simp add: bit.conj_disj_distrib2 assms)
qed

text \<open>A segment load changes the bits \<open>CS32\<close>, \<open>SS32\<close>, \<open>ADDSEG\<close> and \<open>CS64\<close> of \<open>hflags\<close> and no other.\<close>

abbreviation (input) seg_bits :: u32 where "seg_bits \<equiv> 0x8070"

lemma sub_mask: "m AND seg_bits = 0 \<Longrightarrow> A AND seg_bits = A \<Longrightarrow> (A :: u32) AND m = 0"
proof -
  assume m: "m AND seg_bits = 0" and A: "A AND seg_bits = A"
  have "A AND m = (A AND seg_bits) AND m" by (simp only: A)
  also have "\<dots> = A AND (m AND seg_bits)" by (simp only: and.assoc and.commute and.left_commute)
  finally show "A AND m = 0" by (simp only: m bit.conj_zero_right)
qed

lemma B_mask: "drop_bit (22 - 5) (x AND DESC_B_MASK :: u32) AND 0x20 = drop_bit (22 - 5) (x AND DESC_B_MASK)"
  "drop_bit (22 - 4) (x AND DESC_B_MASK :: u32) AND 0x10 = drop_bit (22 - 4) (x AND DESC_B_MASK)"
  by (simp_all add: drop_bit_and and.assoc)

lemma seg_hflags_seg_bits: "seg_hflags env AND seg_bits = seg_hflags env"
proof -
  have d: "drop_bit (22 - 5) (x AND DESC_B_MASK :: u32) AND seg_bits = drop_bit (22 - 5) (x AND DESC_B_MASK)" for x
    by (simp add: drop_bit_and and.assoc)
  have p: "push_bit 6 (of_bool c) AND seg_bits = (push_bit 6 (of_bool c) :: u32)" for c by (cases c) simp_all
  have a: "(HF_ADDSEG_MASK :: u32) AND seg_bits = HF_ADDSEG_MASK" by simp
  have i: "(if c then x else y) AND seg_bits = (if c then x AND seg_bits else y AND seg_bits)" for c and x y :: u32 by simp
  show ?thesis
    unfolding seg_hflags_def Let_def by (simp only: i bit.conj_disj_distrib2 d p a)
qed

lemma load_seg_cache_mask:
  assumes m: "m AND seg_bits = 0"
  shows "hflags (cpu_x86_load_seg_cache env r s b l f) AND m = hflags env AND m"
proof -
  have b: "drop_bit (22 - 4) (x AND DESC_B_MASK) AND m = 0" for x
    by (rule sub_mask [OF m]) (simp add: drop_bit_and and.assoc)
  have c: "(HF_CS32_MASK OR HF_SS32_MASK OR HF_CS64_MASK) AND m = 0" "HF_ADDSEG_MASK AND m = 0"
    "(HF_CS32_MASK OR HF_CS64_MASK) AND m = 0" "(HF_SS32_MASK OR HF_ADDSEG_MASK) AND m = 0"
    by (rule sub_mask [OF m]; simp)+
  have u: "hflags (update_cs_hflags r f e) AND m = hflags e AND m" for e
    unfolding update_cs_hflags_def Let_def
    using masked_update(1) [OF c(3) b, of "hflags e"] masked_update(2) [OF c(2) c(2), of "hflags e OR (HF_CS32_MASK OR HF_SS32_MASK OR HF_CS64_MASK)"]
      masked_update(3) [OF c(1) c(1), of "hflags e"]
    by simp
  have "seg_hflags e AND m = 0" for e by (rule sub_mask [OF m seg_hflags_seg_bits])
  from masked_update(1) [OF c(4) this] show ?thesis
    unfolding cpu_x86_load_seg_cache_def Let_def by (simp add: u set_seg_def)
qed

lemma load_seg_cache_cpl [seg_simps]:
  "cpl_of (cpu_x86_load_seg_cache env r s b l f) = cpl_of env"
  "hflags (cpu_x86_load_seg_cache env r s b l f) AND HF_LMA_MASK = hflags env AND HF_LMA_MASK"
  unfolding cpl_of_def by (rule load_seg_cache_mask; simp)+


lemma set_cpl_fields [seg_simps]:
  "cpl_of (cpu_x86_set_cpl env c) = c AND 3" "segs (cpu_x86_set_cpl env c) = segs env"
  "eflags (cpu_x86_set_cpl env c) = eflags env" "cr (cpu_x86_set_cpl env c) = cr env"
  "regs (cpu_x86_set_cpl env c) = regs env" "eip (cpu_x86_set_cpl env c) = eip env"
proof -
  have "(hflags env AND NOT 3) AND 3 = 0" by (simp add: and.assoc)
  then show "cpl_of (cpu_x86_set_cpl env c) = c AND 3"
    by (simp add: cpl_of_def cpu_x86_set_cpl_def bit.conj_disj_distrib2)
qed (simp_all add: cpu_x86_set_cpl_def)

lemma load_seg_desc_cache:
  "load_seg_desc env r s e1 e2 = cpu_x86_load_seg_cache env r s (ucast (get_seg_base e1 e2)) (get_seg_limit e1 e2) e2"
  by (simp add: load_seg_desc_def)

lemma set_reg_fields [seg_simps]:
  "cpl_of (set_reg r v env) = cpl_of env" "segs (set_reg r v env) = segs env" "eflags (set_reg r v env) = eflags env"
  "cr (set_reg r v env) = cr env" "hflags (set_reg r v env) = hflags env" "regs (set_reg r v env) = (regs env)(r := v)"
  by (simp_all add: set_reg_def cpl_of_def)

lemma SET_ESP_fields [seg_simps]:
  "cpl_of (SET_ESP v m env) = cpl_of env" "segs (SET_ESP v m env) = segs env" "eflags (SET_ESP v m env) = eflags env"
  "cr (SET_ESP v m env) = cr env"
  by (simp_all add: SET_ESP_def seg_simps)

lemma cpl_of_update [seg_simps]:
  "cpl_of (env\<lparr>eip := a\<rparr>) = cpl_of env" "cpl_of (env\<lparr>eflags := b\<rparr>) = cpl_of env" "cpl_of (env\<lparr>cc_op := c\<rparr>) = cpl_of env"
  "cpl_of (env\<lparr>cc_src := a\<rparr>) = cpl_of env" "cpl_of (env\<lparr>segs := s\<rparr>) = cpl_of env" "cpl_of (env\<lparr>hflags2 := h\<rparr>) = cpl_of env"
  "cpl_of (env\<lparr>ldt := l\<rparr>) = cpl_of env" "cpl_of (env\<lparr>tr := l\<rparr>) = cpl_of env" "cpl_of (env\<lparr>regs := g\<rparr>) = cpl_of env"
  "cpl_of (env\<lparr>cr := k\<rparr>) = cpl_of env" "cpl_of (env\<lparr>hflags := h\<rparr>) = h AND 3" "cpl_of (env\<lparr>old_exception := x\<rparr>) = cpl_of env"
  by (simp_all add: cpl_of_def)

lemma load_eflags_fields [seg_simps]:
  "cpl_of (cpu_load_eflags env v m) = cpl_of env" "segs (cpu_load_eflags env v m) = segs env" "cr (cpu_load_eflags env v m) = cr env"
  "eip (cpu_load_eflags env v m) = eip env" "regs (cpu_load_eflags env v m) = regs env" "hflags (cpu_load_eflags env v m) = hflags env"
  by (simp_all add: cpu_load_eflags_def Let_def cpl_of_def)

lemma validate_seg_fields [seg_simps]:
  "cpl_of (validate_seg r c env) = cpl_of env" "eflags (validate_seg r c env) = eflags env" "cr (validate_seg r c env) = cr env"
  "q \<noteq> r \<Longrightarrow> segs (validate_seg r c env) q = segs env q"
  by (simp_all add: validate_seg_def Let_def seg_simps)

lemma null_segs_fields [seg_simps]:
  "cpl_of (null_segs rs env) = cpl_of env" "eflags (null_segs rs env) = eflags env" "cr (null_segs rs env) = cr env"
  "R_CS \<notin> set rs \<Longrightarrow> segs (null_segs rs env) R_CS = segs env R_CS"
  unfolding null_segs_def by (induction rs arbitrary: env) (simp_all add: seg_simps)

subsection \<open>Accesses and checks\<close>

lemma post_check [vc]: "(\<not> bad \<Longrightarrow> post Q rest) \<Longrightarrow> post Q (check env bad excp err rest)"
  by (simp add: check_def)

lemma accessors:
  assumes q: "quiet M" and f: "\<And>env' v. same_cpu env env' \<Longrightarrow> post Q (f (env', v))"
  shows "post Q (bind_out (cpu_ldub_kernel M env a) f)" "post Q (bind_out (cpu_lduw_kernel M env a) f)"
    "post Q (bind_out (cpu_ldl_kernel M env a) f)"
  unfolding cpu_ldub_kernel_def cpu_lduw_kernel_def cpu_ldl_kernel_def
  by (auto simp: bind_assoc intro!: post_bind [OF kernel.ld_same [OF q]] f)

lemma accessors_q:
  assumes q: "quiet M" and f: "\<And>env' v. same_cpu env env' \<Longrightarrow> post Q (f (env', v))"
  shows "post Q (bind_out (cpu_ldq_kernel M env a) f)"
  unfolding cpu_ldq_kernel_def by (auto intro!: post_bind [OF kernel.ld_same [OF q]] f)

lemmas accessors_b = accessors(1) and accessors_w = accessors(2) and accessors_l = accessors(3)

lemma stores_same:
  assumes "quiet M"
  shows "post (same_cpu env) (cpu_stb_kernel M env a v)" "post (same_cpu env) (cpu_stw_kernel M env a v)"
    "post (same_cpu env) (cpu_stl_kernel M env a v)" "post (same_cpu env) (cpu_stq_kernel M env a w)"
  using kernel.st_same [OF assms] by (simp_all add: cpu_stb_kernel_def cpu_stw_kernel_def cpu_stl_kernel_def cpu_stq_kernel_def)

text \<open>What an operation that keeps the registers may be followed by.\<close>

lemma post_same: "post (same_cpu env) r \<Longrightarrow> (\<And>env'. same_cpu env env' \<Longrightarrow> post Q (f env')) \<Longrightarrow> post Q (bind_out r f)"
  by (rule post_bind)

lemma post_same2:
  "post (\<lambda>(env', v). same_cpu env env') r \<Longrightarrow> (\<And>env' v. same_cpu env env' \<Longrightarrow> post Q (f (env', v))) \<Longrightarrow> post Q (bind_out r f)"
  by (erule post_bind) (simp split: prod.splits)

lemma load_segment_same: "quiet M \<Longrightarrow> post (\<lambda>(env', v). same_cpu env env') (load_segment M env s)"
  unfolding load_segment_def Let_def
  by (auto intro!: accessors intro: same_cpu_trans)

lemma post_load_desc [vc]:
  assumes "quiet M" "\<And>env' e1 e2. same_cpu env env' \<Longrightarrow> post Q (rest env' e1 e2)"
  shows "post Q (load_desc M env s excp err rest)"
  unfolding load_desc_def
  by (rule post_same2 [OF load_segment_same [OF assms(1)]]) (auto intro: assms(2) split: option.splits)

lemma tss_stack_same: "quiet M \<Longrightarrow> post (\<lambda>(env', v). same_cpu env env') (get_ss_esp_from_tss M env dpl)"
  unfolding get_ss_esp_from_tss_def Let_def
  by (auto intro!: post_check accessors intro: same_cpu_trans)

lemma post_inner_stack [vc]:
  assumes q: "quiet M"
    and f: "\<And>env' ss esp s1 s2. same_cpu env env' \<Longrightarrow> ss AND 3 = dpl \<Longrightarrow> desc_dpl s2 = dpl \<Longrightarrow> post Q (rest env' ss esp s1 s2)"
  shows "post Q (inner_stack M env dpl rest)"
  unfolding inner_stack_def Let_def
  by (auto intro!: post_same2 [OF tss_stack_same [OF q]] post_check post_load_desc [OF q] f intro: same_cpu_trans)

lemma post_gate_target [vc]:
  assumes q: "quiet M"
    and f: "\<And>env' e1 e2. same_cpu env env' \<Longrightarrow> selector AND 0xfffc \<noteq> 0 \<Longrightarrow> desc_dpl e2 \<le> cpl \<Longrightarrow>
      e2 AND DESC_S_MASK \<noteq> 0 \<Longrightarrow> e2 AND DESC_CS_MASK \<noteq> 0 \<Longrightarrow> e2 AND DESC_P_MASK \<noteq> 0 \<Longrightarrow> post Q (rest env' e1 e2)"
  shows "post Q (gate_target M env selector cpl rest)"
  unfolding gate_target_def Let_def
  by (auto intro!: post_check post_load_desc [OF q] f intro: same_cpu_trans simp: not_less)


subsection \<open>Runs of accesses\<close>

lemma load_all_same:
  assumes "\<And>env a. post (\<lambda>(env', v). same_cpu env env') (ld env a)"
  shows "post (\<lambda>(env', v). same_cpu env env') (load_all ld as env)"
proof (induction as arbitrary: env)
  case (Cons a as)
  show ?case by (auto intro!: post_same2 [OF assms] post_same2 [OF Cons.IH] intro: same_cpu_trans)
qed simp

lemma store_all_same:
  assumes "\<And>env a v. post (same_cpu env) (st env a v)"
  shows "post (same_cpu env) (store_all st avs env)"
proof (induction avs arbitrary: env)
  case (Cons av avs)
  obtain a v where av: "av = (a, v)" by (cases av)
  show ?case
    unfolding av by (auto intro!: post_same [OF assms] post_mono [OF Cons.IH] intro: same_cpu_trans)
qed simp

text \<open>A push or a pop, as a function of the state alone.\<close>

lemma push_same:
  assumes "quiet M"
  shows "post (\<lambda>(env', sp'). same_cpu (fst s) env') (PUSHW M ssp m v s)" "post (\<lambda>(env', sp'). same_cpu (fst s) env') (PUSHL M ssp m v s)"
    "post (\<lambda>(env', sp'). same_cpu (fst t) env') (PUSHQ M w t)"
  unfolding PUSHW_def PUSHL_def PUSHQ_def Let_def
  by (auto split: prod.splits intro!: post_same [OF stores_same(2) [OF assms]] post_same [OF stores_same(3) [OF assms]]
      post_same [OF stores_same(4) [OF assms]])

lemma push_wl_same: "quiet M \<Longrightarrow> post (\<lambda>(env', sp'). same_cpu (fst s) env') (push_wl M long ssp m v s)"
  by (simp add: push_wl_def push_same)

lemma push_all_same:
  assumes "\<And>v s. post (\<lambda>(env', sp'). same_cpu (fst s) env') (push v s)"
  shows "post (\<lambda>(env', sp'). same_cpu (fst s) env') (push_all push fs s)"
proof (induction fs arbitrary: s)
  case (Cons f fs)
  show ?case
    by (auto intro!: post_bind [OF assms] post_mono [OF Cons.IH] intro: same_cpu_trans)
qed (simp add: case_prod_beta)

lemma post_push_wl:
  assumes q: "quiet M" and f: "\<And>env' sp'. same_cpu env env' \<Longrightarrow> post Q (f (env', sp'))"
  shows "post Q (bind_out (push_all (push_wl M long ssp m) fs (env, sp)) f)"
  using push_all_same [OF push_wl_same [OF q], where s = "(env, sp)" and fs = fs] f by (intro post_same2) auto

lemma post_push_w:
  assumes q: "quiet M" and f: "\<And>env' sp'. same_cpu env env' \<Longrightarrow> post Q (f (env', sp'))"
  shows "post Q (bind_out (push_all (PUSHW M ssp m) fs (env, sp)) f)"
  using push_all_same [OF push_same(1) [OF q], where s = "(env, sp)" and fs = fs] f by (intro post_same2) auto

lemma post_push_q:
  assumes q: "quiet M" and f: "\<And>env' sp'. same_cpu env env' \<Longrightarrow> post Q (f (env', sp'))"
  shows "post Q (bind_out (push_all (PUSHQ M) fs (env, sp)) f)"
  using push_all_same [OF push_same(3) [OF q], where s = "(env, sp)" and fs = fs] f by (intro post_same2) auto

lemma pop_same:
  assumes "quiet M"
  shows "post (\<lambda>(env', r). same_cpu env env') (POPW M ssp m env sp)" "post (\<lambda>(env', r). same_cpu env env') (POPL M ssp m env sp)"
    "post (\<lambda>(env', r). same_cpu env env') (POPQ M env sq)"
  unfolding POPW_def POPL_def POPQ_def by (auto intro!: accessors accessors_q assms)

lemma pop_size_same: "quiet M \<Longrightarrow> post (\<lambda>(env', r). same_cpu env env') (pop_size M shift ssp m env sp)"
  unfolding pop_size_def by (auto intro!: post_if post_same2 pop_same split: prod.splits)

lemma post_pop_size:
  assumes q: "quiet M" and f: "\<And>env' sp' v. same_cpu env env' \<Longrightarrow> post Q (f (env', sp', v))"
  shows "post Q (bind_out (pop_size M shift ssp m env sp) f)"
  using f by (auto intro!: post_same2 [OF pop_size_same [OF q]])

lemma post_pop:
  assumes q: "quiet M" and f: "\<And>env' sp' v. same_cpu env env' \<Longrightarrow> post Q (f (env', sp', v))"
  shows "post Q (bind_out (POPL M ssp m env sp) f)"
  using f by (auto intro!: post_same2 [OF pop_same(2) [OF q]])

lemma copy_params_same: "quiet M \<Longrightarrow> post (\<lambda>(env', sp'). same_cpu (fst s) env') (copy_params M long o_ssp o_m ssp m n s)"
proof (induction n arbitrary: s)
  case (Suc n)
  obtain env sp where s: "s = (env, sp)" by (cases s)
  have "post (\<lambda>(env', sp'). same_cpu env env')
      (bind_out (push_wl M long ssp m v (e, sp)) (copy_params M long o_ssp o_m ssp m n))" if "same_cpu env e" for e v
    using that push_wl_same [OF Suc.prems, of "(e, sp)"]
    by (auto intro!: post_same2 post_mono [OF Suc.IH [OF Suc.prems]] intro: same_cpu_trans)
  then show ?case unfolding s using Suc.prems by (auto intro!: accessors)
qed (simp add: case_prod_beta)

lemma update_busy_same: "quiet M \<Longrightarrow> post (same_cpu env) (update_busy M env s f)"
  unfolding update_busy_def Let_def
  by (auto intro!: accessors post_mono [OF stores_same(3)] intro: same_cpu_trans)

lemma save_tss_same: "quiet M \<Longrightarrow> post (same_cpu env) (save_tss M env type ip fl)"
  unfolding save_tss_def Let_def
  by (intro post_if post_bind [OF store_all_same [OF stores_same(3)]] store_all_same stores_same)
    (auto intro!: post_mono [OF store_all_same [OF stores_same(2)]] store_all_same stores_same intro: same_cpu_trans)

lemma load_w_same:
  assumes "quiet M"
  shows "post (\<lambda>(env', v). same_cpu env env') (cpu_lduw_kernel M env a)" "post (\<lambda>(env', v). same_cpu env env') (cpu_ldl_kernel M env a)"
  using accessors(2, 3) [OF assms, of env "\<lambda>(env', v). same_cpu env env'" Done a]
  by (simp_all add: bind_out_def split: outcome.splits)

lemma read_tss_same: "quiet M \<Longrightarrow> post (\<lambda>(env', t). same_cpu env env') (read_tss M env b type)"
  unfolding read_tss_def
  by (auto intro!: post_if accessors post_same2 [OF load_all_same [OF load_w_same(1)]] post_same2 [OF load_all_same [OF load_w_same(2)]])
    ((erule same_cpu_trans | rule same_cpu_refl)+)


subsection \<open>The rules\<close>

text \<open>The same with the continuation a function of the components of the result, as it is written.\<close>

lemma vc_access [vc]:
  assumes "quiet M"
  shows
    "(\<And>env' v. same_cpu env env' \<Longrightarrow> post Q (f env' v)) \<Longrightarrow> post Q (bind_out (cpu_ldub_kernel M env a) (\<lambda>(env, v). f env v))"
    "(\<And>env' v. same_cpu env env' \<Longrightarrow> post Q (f env' v)) \<Longrightarrow> post Q (bind_out (cpu_lduw_kernel M env a) (\<lambda>(env, v). f env v))"
    "(\<And>env' v. same_cpu env env' \<Longrightarrow> post Q (f env' v)) \<Longrightarrow> post Q (bind_out (cpu_ldl_kernel M env a) (\<lambda>(env, v). f env v))"
    "(\<And>env' w. same_cpu env env' \<Longrightarrow> post Q (g env' w)) \<Longrightarrow> post Q (bind_out (cpu_ldq_kernel M env a) (\<lambda>(env, w). g env w))"
  by (auto intro: accessors accessors_q assms)

lemma vc_store [vc]:
  assumes "quiet M" and "\<And>env'. same_cpu env env' \<Longrightarrow> post Q (f env')"
  shows "post Q (bind_out (cpu_stb_kernel M env a v) f)" "post Q (bind_out (cpu_stw_kernel M env a v) f)"
    "post Q (bind_out (cpu_stl_kernel M env a v) f)" "post Q (bind_out (cpu_stq_kernel M env a w) f)"
    "post Q (bind_out (update_busy M env s b) f)" "post Q (bind_out (save_tss M env ty ip fl) f)"
  using assms by (auto intro: post_same stores_same update_busy_same save_tss_same)

lemma vc_push [vc]:
  assumes "quiet M"
  shows
    "(\<And>env' sp'. same_cpu env env' \<Longrightarrow> post Q (f env' sp')) \<Longrightarrow>
      post Q (bind_out (push_all (push_wl M long ssp m) fs (env, sp)) (\<lambda>(env, sp). f env sp))"
    "(\<And>env' sp'. same_cpu env env' \<Longrightarrow> post Q (f env' sp')) \<Longrightarrow>
      post Q (bind_out (push_all (PUSHW M ssp m) fs (env, sp)) (\<lambda>(env, sp). f env sp))"
    "(\<And>env' sp'. same_cpu env env' \<Longrightarrow> post Q (g env' sp')) \<Longrightarrow>
      post Q (bind_out (push_all (PUSHQ M) gs (env, rsp)) (\<lambda>(env, sp). g env sp))"
  by (auto intro: post_push_wl post_push_w post_push_q assms)

lemma vc_pop [vc]:
  assumes "quiet M"
  shows
    "(\<And>env' sp' v. same_cpu env env' \<Longrightarrow> post Q (f env' sp' v)) \<Longrightarrow>
      post Q (bind_out (pop_size M shift ssp m env sp) (\<lambda>(env, sp, v). f env sp v))"
    "(\<And>env' sp' v. same_cpu env env' \<Longrightarrow> post Q (g env' sp' v)) \<Longrightarrow>
      post Q (bind_out (POPL M ssp m env sp) (\<lambda>(env, sp, v). g env sp v))"
  by (auto intro: post_pop_size post_pop assms)

end
