(* ===== verification/SegInv.thy ===== *)
theory SegInv
  imports SegFrame
begin

text \<open>
  The privilege level. Its copy in \<open>hflags\<close> is the requested privilege level of \<open>CS\<close> whenever the CPU is in protected
  mode outside virtual-8086 mode; every operation of \<open>seg_helper.c\<close> keeps that, under the conditions \<open>translate.c\<close> generates its call.
\<close>

definition protected_mode :: "cpu_state \<Rightarrow> bool" where
  "protected_mode env \<longleftrightarrow> cr env 0 AND CR0_PE_MASK \<noteq> 0 \<and> eflags env AND VM_MASK = 0"

definition priv_ok :: "cpu_state \<Rightarrow> bool" where
  "priv_ok env \<longleftrightarrow> (protected_mode env \<longrightarrow> cpl_of env = sc_selector (segs env R_CS) AND 3)"

text \<open>What the invariant reads.\<close>

definition same_priv :: "cpu_state \<Rightarrow> cpu_state \<Rightarrow> bool" where
  "same_priv e e' \<longleftrightarrow> cr e' 0 AND CR0_PE_MASK = cr e 0 AND CR0_PE_MASK \<and> eflags e' AND VM_MASK = eflags e AND VM_MASK
    \<and> cpl_of e' = cpl_of e \<and> sc_selector (segs e' R_CS) = sc_selector (segs e R_CS)"

lemma same_priv_refl [simp]: "same_priv e e" by (simp add: same_priv_def)

lemma same_priv_trans: "same_priv e f \<Longrightarrow> same_priv f g \<Longrightarrow> same_priv e g" by (simp add: same_priv_def)

lemma same_cpu_priv: "same_cpu e f \<Longrightarrow> same_priv e f" by (simp add: same_cpu_def same_priv_def cpl_of_def)

lemma priv_ok_same: "same_priv e f \<Longrightarrow> priv_ok e \<Longrightarrow> priv_ok f"
  by (simp add: same_priv_def priv_ok_def protected_mode_def)

lemma priv_ok_mirror: "cpl_of env = sc_selector (segs env R_CS) AND 3 \<Longrightarrow> priv_ok env"
  by (simp add: priv_ok_def)

lemma priv_ok_vm86: "eflags env AND VM_MASK \<noteq> 0 \<Longrightarrow> priv_ok env"
  by (simp add: priv_ok_def protected_mode_def)

text \<open>The fields of an earlier state, for goals after some accesses.\<close>

lemma same_cpuD:
  assumes "same_cpu e f"
  shows "cpl_of f = cpl_of e" "segs f = segs e" "eflags f = eflags e" "cr f = cr e" "hflags f = hflags e" "regs f = regs e" "eip f = eip e"
    "tr f = tr e" "gdt f = gdt e" "ldt f = ldt e" "idt f = idt e"
  using assms by (simp_all add: same_cpu_def cpl_of_def)

subsection \<open>Task switches\<close>

lemma post_raise_load_seg:
  assumes "quiet M" "r = R_CS \<Longrightarrow> s = sc_selector (segs env R_CS)"
  shows "post (same_priv env) (tss_load_seg M r s env)"
  unfolding tss_load_seg_def Let_def
  by (auto intro!: post_if post_check post_load_desc [OF assms(1)] simp: same_priv_def load_seg_desc_cache seg_simps same_cpuD assms(2))

lemma post_load_segs:
  assumes q: "quiet M" and cs: "ts_segs t ! R_CS = sc_selector (segs env R_CS)"
  shows "post (same_priv env) (tss_load_segs M t env)"
proof -
  have step: "post (same_priv env) (bind_out (tss_load_seg M r s e) f)"
    if "same_priv env e" "r \<noteq> R_CS" "\<And>e'. same_priv env e' \<Longrightarrow> post (same_priv env) (f e')" for r s e f
    by (rule post_bind [OF post_raise_load_seg [OF q, of r s e]]) (use that in \<open>auto intro: same_priv_trans\<close>)
  have last: "post (same_priv env) (tss_load_seg M r s e)" if "same_priv env e" "r \<noteq> R_CS" for r s e
    by (rule post_mono [OF post_raise_load_seg [OF q, of r s e]]) (use that in \<open>auto intro: same_priv_trans\<close>)
  show ?thesis
    unfolding tss_load_segs_def
    by (intro post_if post_bind [OF post_raise_load_seg [OF q]] step last cs) simp_all
qed

lemma post_load_ldt: "quiet M \<Longrightarrow> post (same_priv env) (tss_load_ldt M lt env)"
  unfolding tss_load_ldt_def Let_def
  by (auto intro!: post_if post_check accessors simp: same_priv_def seg_simps same_cpuD)

lemma remove_ref_priv:
  "post (same_priv env) (cpu_breakpoint_remove_by_ref env r)" "post (same_priv env) (cpu_watchpoint_remove_by_ref env r)"
  by (auto simp: cpu_breakpoint_remove_by_ref_def cpu_watchpoint_remove_by_ref_def Let_def same_priv_def cpl_of_def
      breakpoint_invalidate_def tlb_flush_page_def tlb_flush_def tlb_modify_def tb_flush_jmp_cache_def
      split: option.splits)

lemma hw_remove_priv: "post (same_priv env) (hw_breakpoint_remove env i)"
  by (simp add: hw_breakpoint_remove_def Let_def remove_ref_priv split: option.splits)

lemma hw_remove_from_priv: "post (same_priv env) (hw_remove_from is env)"
proof (induction "is" arbitrary: env)
  case (Cons i "is")
  show ?case by (auto intro!: post_bind [OF hw_remove_priv] post_mono [OF Cons.IH] intro: same_priv_trans)
qed simp

lemma post_debug: "post (same_priv env) (switch_tss_debug env)"
  unfolding switch_tss_debug_def
  by (auto intro!: post_bind [OF hw_remove_from_priv] simp: same_priv_def set_dr_def cpl_of_def)


text \<open>The selectors of a 16-bit image come from 16-bit loads: it cannot set \<open>VM_MASK\<close>.\<close>

lemma accessor_w_range:
  assumes q: "quiet M" and f: "\<And>env' v. same_cpu env env' \<Longrightarrow> v AND 0xffff = v \<Longrightarrow> post Q (f (env', v))"
  shows "post Q (bind_out (cpu_lduw_kernel M env a) f)"
proof -
  have "(ucast (v :: u16) :: u32) AND 0xffff = ucast v" for v
  proof -
    have "(0xffff :: u32) = ucast (-1 :: u16)" by (simp add: unsigned_minus_1_eq_mask mask_eq_exp_minus_1)
    then have "(ucast v :: u32) AND 0xffff = ucast (v AND -1)" by (simp only: unsigned_and_eq)
    then show ?thesis by simp
  qed
  then show ?thesis
    unfolding cpu_lduw_kernel_def by (auto simp: bind_assoc intro!: post_bind [OF kernel.ld_same [OF q]] f)
qed

lemma no_vm_16: "v AND 0xffff = v \<Longrightarrow> (v :: u32) AND VM_MASK = 0"
proof -
  assume "v AND 0xffff = v"
  then have "v AND VM_MASK = v AND (0xffff AND VM_MASK)" by (metis and.assoc)
  then show ?thesis by simp
qed

lemma read_tss_post:
  "quiet M \<Longrightarrow> post (\<lambda>(env', t). same_cpu env env' \<and> (type AND 8 = 0 \<longrightarrow> ts_eflags t AND VM_MASK = 0)) (read_tss M env b type)"
  unfolding read_tss_def
  by (auto intro!: post_if accessor_w_range accessors(3) post_same2 [OF load_all_same [OF load_w_same(1)]]
      post_same2 [OF load_all_same [OF load_w_same(2)]] simp: no_vm_16)
    ((erule same_cpu_trans | rule same_cpu_refl)+)

lemma cpl_vm_segs: "fold (\<lambda>i env. load_seg_vm env i (s i)) rs env = env' \<Longrightarrow>
    eflags env' = eflags env \<and> cr env' = cr env \<and> cpl_of env' = cpl_of env"
  by (induction rs arbitrary: env) (auto simp: load_seg_vm_def Let_def seg_simps)

lemma cpl_load_segs: "fold (\<lambda>i env. cpu_x86_load_seg_cache env i (s i) 0 0 0) rs env = env' \<Longrightarrow>
    eflags env' = eflags env \<and> cr env' = cr env \<and> cpl_of env' = cpl_of env"
  by (induction rs arbitrary: env) (auto simp: seg_simps)

lemma load_selectors:
  "eflags (tss_load_selectors t env) = eflags env" "cr (tss_load_selectors t env) = cr env"
  "ts_eflags t AND VM_MASK \<noteq> 0 \<Longrightarrow> cpl_of (tss_load_selectors t env) = 3"
  "ts_eflags t AND VM_MASK = 0 \<Longrightarrow> cpl_of (tss_load_selectors t env) = ts_segs t ! R_CS AND 3"
  "ts_eflags t AND VM_MASK = 0 \<Longrightarrow> sc_selector (segs (tss_load_selectors t env) R_CS) = ts_segs t ! R_CS"
proof -
  have u: "[0..<6] = [0, 1, 2, 3, 4, 5]" by (simp add: upt_rec)
  show "eflags (tss_load_selectors t env) = eflags env" "cr (tss_load_selectors t env) = cr env"
    "ts_eflags t AND VM_MASK \<noteq> 0 \<Longrightarrow> cpl_of (tss_load_selectors t env) = 3"
    "ts_eflags t AND VM_MASK = 0 \<Longrightarrow> cpl_of (tss_load_selectors t env) = ts_segs t ! R_CS AND 3"
    using cpl_vm_segs [OF refl] cpl_load_segs [OF refl] by (simp_all add: tss_load_selectors_def seg_simps)
  show "ts_eflags t AND VM_MASK = 0 \<Longrightarrow> sc_selector (segs (tss_load_selectors t env) R_CS) = ts_segs t ! R_CS"
    by (simp add: tss_load_selectors_def u seg_simps)
qed

text \<open>What \<open>VM_MASK\<close> becomes when the flags are loaded with it in the mask.\<close>

lemma vm_bit: "(x :: u64) AND VM_MASK = 0 \<longleftrightarrow> \<not> bit x 17" "(y :: u32) AND VM_MASK = 0 \<longleftrightarrow> \<not> bit y 17"
  using and_exp_eq_0_iff_not_bit [of x 17] and_exp_eq_0_iff_not_bit [of y 17] by simp_all

lemma load_eflags_vm:
  "m AND VM_MASK \<noteq> 0 \<Longrightarrow> eflags (cpu_load_eflags env v m) AND VM_MASK = 0 \<longleftrightarrow> v AND VM_MASK = 0"
  "m AND VM_MASK = 0 \<Longrightarrow> eflags (cpu_load_eflags env v m) AND VM_MASK = 0 \<longleftrightarrow> eflags env AND VM_MASK = 0"
  unfolding vm_bit cpu_load_eflags_def Let_def
  by (simp_all add: bit_or_iff bit_and_iff bit_signed_iff bit_not_iff)

lemma enter_tss_priv:
  assumes q: "quiet M" and vm: "type AND 8 = 0 \<longrightarrow> ts_eflags t AND VM_MASK = 0"
  shows "post priv_ok (enter_tss M sel base lim e2 type t env)"
proof -
  have rest: "post priv_ok (bind_out (tss_load_ldt M (ts_ldt t) e) (\<lambda>env. bind_out (tss_load_segs M t env)
      (\<lambda>env. check env (ts_eip t > sc_limit (segs env R_CS)) EXCP0D_GPF 0 (switch_tss_debug env))))"
    if "priv_ok e" "ts_eflags t AND VM_MASK = 0 \<Longrightarrow> ts_segs t ! R_CS = sc_selector (segs e R_CS)" for e
  proof (rule post_bind [OF post_load_ldt [OF q]])
    fix f assume f: "same_priv e f"
    have pf: "priv_ok f" by (rule priv_ok_same [OF f that(1)])
    have "post (same_priv f) (tss_load_segs M t f)"
    proof (cases "ts_eflags t AND VM_MASK = 0")
      case True
      then show ?thesis by (intro post_load_segs [OF q]) (use that f in \<open>simp add: same_priv_def\<close>)
    qed (simp add: tss_load_segs_def)
    then show "post priv_ok (bind_out (tss_load_segs M t f)
        (\<lambda>env. check env (ts_eip t > sc_limit (segs env R_CS)) EXCP0D_GPF 0 (switch_tss_debug env)))"
      by (rule post_bind) (auto intro!: post_check post_mono [OF post_debug] intro: priv_ok_same [OF _ priv_ok_same [OF _ pf]])
  qed
  have sel: "priv_ok (tss_load_selectors t (load_all_regs (ts_regs t) (cpu_load_eflags e (ts_eflags t) m)))"
    if m: "type AND 8 \<noteq> 0 \<Longrightarrow> m AND VM_MASK \<noteq> 0" for e and m :: u32
  proof (cases "ts_eflags t AND VM_MASK = 0")
    case True
    then show ?thesis by (intro priv_ok_mirror) (simp add: load_selectors del: One_nat_def)
  next
    case False
    then show ?thesis
      using vm m by (intro priv_ok_vm86) (simp add: load_selectors load_all_regs_def load_eflags_vm)
  qed
  show ?thesis
    unfolding enter_tss_def Let_def by (intro rest sel) (simp_all add: load_selectors del: One_nat_def)
qed

lemma post_task_gate:
  assumes q: "quiet M" and f: "\<And>env' s e1 e2 type. same_cpu env env' \<Longrightarrow> post Q (rest env' s e1 e2 type)"
  shows "post Q (task_gate M env sel e1 e2 rest)"
  unfolding task_gate_def Let_def
  by (auto intro!: post_if post_check post_load_desc [OF q] f)

lemma post_read_tss:
  assumes "quiet M"
    and "\<And>env' t. same_cpu env env' \<Longrightarrow> (type AND 8 = 0 \<longrightarrow> ts_eflags t AND VM_MASK = 0) \<Longrightarrow> post Q (f (env', t))"
  shows "post Q (bind_out (read_tss M env b type) f)"
  by (rule post_bind [OF read_tss_post [OF assms(1)]]) (auto intro: assms(2))

lemma nt_no_vm: "((x :: u32) OR NT_MASK) AND VM_MASK = x AND VM_MASK"
  by (simp add: bit.conj_disj_distrib2)

lemma switch_tss_priv:
  assumes q: "quiet M"
  shows "post priv_ok (switch_tss M sel e1 e2 source next_eip env)"
  unfolding switch_tss_def Let_def
  by (intro post_task_gate [OF q] post_check post_read_tss [OF q])
    (auto intro!: accessors_b [OF q] post_same [OF update_busy_same [OF q]] post_same [OF stores_same(1) [OF q]]
      post_same [OF stores_same(2) [OF q]] post_same [OF save_tss_same [OF q]] enter_tss_priv [OF q] simp: nt_no_vm)


subsection \<open>Interrupts and exceptions\<close>

lemma enter_handler_priv:
  "dpl AND 3 = dpl \<Longrightarrow> priv_ok (enter_handler sel dpl e1 e2 ofs type env)"
  by (rule priv_ok_mirror) (simp add: enter_handler_def Let_def load_seg_desc_cache seg_simps del: One_nat_def)

lemma int_enter_priv: "quiet M \<Longrightarrow> dpl AND 3 = dpl \<Longrightarrow>
    post priv_ok (int_enter M type sel ofs e1 e2 dpl ns ssp m esp ip ec env)"
  unfolding int_enter_def int_frame_def Let_def by (intro vc) (simp_all add: enter_handler_priv)

lemma int64_enter_priv: "quiet M \<Longrightarrow> dpl AND 3 = dpl \<Longrightarrow>
    post priv_ok (int64_enter M type sel ofs e1 e2 dpl ns esp ip ec env)"
  unfolding int64_enter_def Let_def by (intro vc) (simp_all add: enter_handler_priv)

lemma SET_ESP_priv: "priv_ok env \<Longrightarrow> priv_ok (SET_ESP v m env)"
  by (erule priv_ok_same [rotated]) (simp add: same_priv_def seg_simps)

lemma push_task_error_priv:
  assumes "quiet M" "priv_ok env"
  shows "post priv_ok (push_task_error M ec env)"
proof -
  have esp: "post priv_ok (bind_out r (\<lambda>env. Done (SET_ESP v m env)))" if "post (same_cpu env) r" for r v m
    by (rule post_same [OF that]) (auto intro!: SET_ESP_priv intro: priv_ok_same [OF same_cpu_priv] assms)
  show ?thesis
    unfolding push_task_error_def Let_def by (rule esp) (simp add: stores_same assms)
qed

lemma interrupt_protected_priv:
  assumes q: "quiet M"
  shows "post priv_ok (do_interrupt_protected M n i ec ip hw env)"
  unfolding do_interrupt_protected_def Let_def
  by (intro vc q post_if post_bind [OF switch_tss_priv [OF q]] int_enter_priv push_task_error_priv)
    (simp_all add: seg_simps)

lemma vc_rsp [vc]:
  assumes "quiet M" "\<And>env' v. same_cpu env env' \<Longrightarrow> post Q (f env' v)"
  shows "post Q (bind_out (get_rsp_from_tss M env l) (\<lambda>(env, v). f env v))"
proof -
  have "post (\<lambda>(env', v). same_cpu env env') (get_rsp_from_tss M env l)"
    unfolding get_rsp_from_tss_def Let_def cpu_ldq_kernel_def
    by (auto intro!: post_check kernel.ld_same assms)
  then show ?thesis by (rule post_same2) (simp add: assms(2))
qed

lemma interrupt64_priv:
  assumes q: "quiet M"
  shows "post priv_ok (do_interrupt64 M n i ec ip hw env)"
  unfolding do_interrupt64_def Let_def
  by (intro vc q post_if int64_enter_priv) (simp_all add: seg_simps)

lemma interrupt_real_mode:
  assumes q: "quiet M"
  shows "post (\<lambda>env'. cr env' = cr env) (do_interrupt_real M n i ec ip env)"
  unfolding do_interrupt_real_def Let_def
  by (intro vc q) (simp_all add: set_reg_def same_cpuD)

lemma post_and: "post P r \<Longrightarrow> post Q r \<Longrightarrow> post (\<lambda>x. P x \<and> Q x) r"
  by (cases r) simp_all

lemma even_inj_same: "quiet M \<Longrightarrow> post (same_cpu env) (handle_even_inj M n i ec hw rm env)"
  unfolding handle_even_inj_def Let_def
  by (auto intro!: post_same2 [OF ld_phys_keeps] post_same [OF st_phys_keeps] post_if
      intro: post_mono [OF st_phys_keeps] same_cpu_trans)

lemma interrupt_all_priv:
  assumes q: "quiet M"
  shows "post priv_ok (do_interrupt_all M n i ec ip hw env)"
proof -
  have after: "post priv_ok (if c then bind_out (ld_phys M k a e) (\<lambda>(env, v). st_phys M k (b env) (h v) env) else Done e)"
    if "priv_ok e" for c k a b e h
    using that by (auto intro!: post_same2 [OF ld_phys_keeps [OF q]] post_mono [OF st_phys_keeps [OF q]]
        intro: priv_ok_same [OF same_cpu_priv])
  have before: "post (same_cpu env) (if c then handle_even_inj M n i ec hw rm env else Done env)" for c rm
    using even_inj_same [OF q] by simp
  have deliver: "post priv_ok (if cr env 0 AND CR0_PE_MASK \<noteq> 0 then
            if hflags e AND HF_LMA_MASK \<noteq> 0 then do_interrupt64 M n i ec ip hw e
            else do_interrupt_protected M n i ec (ucast ip) hw e
          else do_interrupt_real M n i ec (ucast ip) e)" if "same_cpu env e" for e
    using that
    by (auto intro!: interrupt64_priv interrupt_protected_priv q post_mono [OF interrupt_real_mode [OF q]]
        simp: priv_ok_def protected_mode_def same_cpuD)
  show ?thesis
    unfolding do_interrupt_all_def Let_def
    by (intro post_same [OF before] post_bind [OF deliver] after)
qed

lemma interrupt_priv: "quiet M \<Longrightarrow> post priv_ok (do_interrupt M env)"
  unfolding do_interrupt_def
  by (rule post_bind [OF interrupt_all_priv]) (auto intro: priv_ok_same [rotated] simp: same_priv_def cpl_of_def)


subsection \<open>System calls, jumps, calls and returns\<close>

lemma syscall_priv:
  "post priv_ok (helper_syscall n env)" "post priv_ok (helper_sysret d env)" "post priv_ok (helper_sysenter env)"
  "post priv_ok (helper_sysexit d env)"
proof -
  have m: "\<And>env. sc_selector (segs env R_CS) AND 3 = 0 \<Longrightarrow> cpl_of env = 0 \<Longrightarrow> post priv_ok (Done env)"
    "\<And>env. sc_selector (segs env R_CS) AND 3 = 3 \<Longrightarrow> cpl_of env = 3 \<Longrightarrow> post priv_ok (Done env)"
    by (simp_all add: priv_ok_mirror)
  have or3: "(s OR 3) AND 3 = (3 :: u32)" for s by (simp add: bit.conj_disj_distrib2 bit.conj_disj_distrib)
  show "post priv_ok (helper_syscall n env)" "post priv_ok (helper_sysenter env)"
    unfolding helper_syscall_def helper_sysenter_def Let_def flat_seg_def
    by (intro vc post_if m(1); simp add: seg_simps)+
  show "post priv_ok (helper_sysret d env)" "post priv_ok (helper_sysexit d env)"
    unfolding helper_sysret_def helper_sysexit_def Let_def flat_seg_def
    by (intro vc post_if m(2); simp add: seg_simps or3)+
qed


text \<open>A load of \<open>CS\<close> that keeps the level in its selector.\<close>

lemma jump_cs_priv: "s AND 3 = cpl_of env \<Longrightarrow> post priv_ok (Done (jump_cs s e1 e2 ip env))"
  by (simp add: priv_ok_mirror jump_cs_def load_seg_desc_cache seg_simps)

lemma switch_cc_priv:
  "quiet M \<Longrightarrow> post priv_ok (bind_out (switch_tss M s e1 e2 src ip env) (\<lambda>env. Done (env\<lparr>cc_op := CC_OP_EFLAGS\<rparr>)))"
  by (rule post_bind [OF switch_tss_priv]) (auto intro: priv_ok_same [rotated] simp: same_priv_def cpl_of_def)

lemma ljmp_priv:
  assumes q: "quiet M"
  shows "post priv_ok (helper_ljmp_protected M cs ip n env)"
  unfolding helper_ljmp_protected_def ljmp_gate_def Let_def
  by (intro vc q post_if jump_cs_priv switch_cc_priv) (simp_all add: seg_simps same_cpuD)

lemma lcall_enter_priv: "quiet M \<Longrightarrow> dpl AND 3 = dpl \<Longrightarrow>
    post priv_ok (lcall_enter M long sel ofs dpl e1 e2 ns ssp m ip sp env)"
  unfolding lcall_enter_def push_return_def Let_def
  by (intro vc) (auto intro!: priv_ok_mirror simp: load_seg_desc_cache seg_simps)

lemma vc_params [vc]:
  assumes "quiet M" "\<And>env' sp'. same_cpu (fst s) env' \<Longrightarrow> post Q (f env' sp')"
  shows "post Q (bind_out (copy_params M long o_ssp o_m ssp m n s) (\<lambda>(env, sp). f env sp))"
  by (rule post_bind [OF copy_params_same [OF assms(1)]]) (auto intro: assms(2))

lemma vc_push_s [vc]:
  assumes "quiet M" "\<And>s. same_cpu env (fst s) \<Longrightarrow> post Q (f s)"
  shows "post Q (bind_out (push_all (push_wl M long ssp m) fs (env, sp)) (\<lambda>s. f s))"
  by (rule post_push_wl [OF assms(1)]) (simp add: assms(2))

lemma lcall_priv:
  assumes q: "quiet M"
  shows "post priv_ok (helper_lcall_protected M cs ip shift n env)"
  unfolding helper_lcall_protected_def lcall_direct_def lcall_gate_def push_return_def Let_def
  by (intro vc q post_if jump_cs_priv switch_cc_priv lcall_enter_priv) (simp_all add: seg_simps same_cpuD)

lemma real_mode_vm:
  assumes q: "quiet M"
  shows "post (\<lambda>env'. cr env' = cr env \<and> (eflags env' AND VM_MASK = 0 \<longleftrightarrow> eflags env AND VM_MASK = 0)) (helper_lcall_real M cs ip shift n env)"
    and "post (\<lambda>env'. cr env' = cr env \<and> (eflags env' AND VM_MASK = 0 \<longleftrightarrow> eflags env AND VM_MASK = 0)) (helper_iret_real M shift env)"
proof -
  show "post (\<lambda>env'. cr env' = cr env \<and> (eflags env' AND VM_MASK = 0 \<longleftrightarrow> eflags env AND VM_MASK = 0)) (helper_lcall_real M cs ip shift n env)"
    unfolding helper_lcall_real_def push_return_def Let_def
    by (intro vc q) (simp add: seg_simps same_cpuD)
  have pop: "post Q (bind_out ((if shift = 1 then POPL M ssp m else POPW M ssp m) e sp) (\<lambda>(env, sp, v). f env sp v))"
    if "\<And>env' sp' v. same_cpu e env' \<Longrightarrow> post Q (f env' sp' v)" for Q f e ssp and m sp :: u32
  proof -
    have "post (\<lambda>(env', r). same_cpu e env') ((if shift = 1 then POPL M ssp m else POPW M ssp m) e sp)"
      by (cases "shift = 1") (simp_all only: if_True if_False pop_same [OF q] simp_thms)
    then show ?thesis by (rule post_same2) (auto intro: that)
  qed
  show "post (\<lambda>env'. cr env' = cr env \<and> (eflags env' AND VM_MASK = 0 \<longleftrightarrow> eflags env AND VM_MASK = 0)) (helper_iret_real M shift env)"
    unfolding helper_iret_real_def Let_def
    by (intro pop) (simp add: seg_simps same_cpuD load_eflags_vm set_reg_def)
qed

text \<open>The level in \<open>hflags\<close> is that of \<open>CS\<close>.\<close>

abbreviation (input) mirror :: "cpu_state \<Rightarrow> bool" where
  "mirror env \<equiv> cpl_of env = sc_selector (segs env R_CS) AND 3"

lemma ret_stack_cpl:
  assumes q: "quiet M"
  shows "post (\<lambda>(env', fl). cpl_of env' = cpl_of env) (ret_stack M s rpl env)"
  unfolding ret_stack_def Let_def flat_seg_def
  by (intro vc q post_if) (simp_all add: load_seg_desc_cache seg_simps same_cpuD)

lemma ret_outer_mirror:
  assumes q: "quiet M"
  shows "post (\<lambda>(env', sp', m'). mirror env') (ret_outer M shift ssp m sp adj cs e1 e2 env)"
  unfolding ret_outer_def Let_def
  by (intro vc q post_bind [OF ret_stack_cpl [OF q]]) (auto simp: load_seg_desc_cache seg_simps)

lemma ret_checked_priv:
  assumes q: "quiet M"
  shows "post priv_ok (ret_checked M shift is_iret adj ssp m sp ip cs fl env)"
proof -
  have inner: "post (\<lambda>(env', sp', m'). mirror env')
      (if cs AND 3 = cpl_of e \<and> b then Done (load_seg_desc e R_CS cs e1 e2, s, m) else ret_outer M shift ssp m s adj cs e1 e2 e)"
    for e b s e1 e2
    using ret_outer_mirror [OF q] by (simp add: load_seg_desc_cache seg_simps)
  show ?thesis
    unfolding ret_checked_def Let_def
    by (intro vc q post_bind [OF inner]) (auto intro!: priv_ok_mirror simp: iret_eflags_def Let_def seg_simps)
qed

lemma return_vm86_vm:
  assumes q: "quiet M" and vm: "fl AND VM_MASK \<noteq> 0"
  shows "post (\<lambda>env'. eflags env' AND VM_MASK \<noteq> 0) (return_to_vm86 M ssp m sp ip cs fl env)"
  unfolding return_to_vm86_def Let_def load_seg_vm_def
  by (intro vc q) (use vm in \<open>auto simp: seg_simps load_eflags_vm\<close>)

lemma return_vm86_priv:
  "quiet M \<Longrightarrow> fl AND VM_MASK \<noteq> 0 \<Longrightarrow> post priv_ok (return_to_vm86 M ssp m sp ip cs fl env)"
  by (rule post_mono [OF return_vm86_vm]) (auto intro: priv_ok_vm86)

text \<open>The third pop of \<open>iret\<close>.\<close>

lemma vc_pop_if [vc]:
  assumes "quiet M" "\<And>env' sp' v. same_cpu e env' \<Longrightarrow> post Q (f env' sp' v)"
  shows "post Q (bind_out (if b then pop_size M shift ssp m e sp else Done (e, sp, 0)) (\<lambda>(env, sp, v). f env sp v))"
  using assms by (auto intro!: vc_pop(1))

lemma ret_priv:
  assumes q: "quiet M"
  shows "post priv_ok (helper_ret_protected M shift is_iret adj env)"
  unfolding helper_ret_protected_def Let_def
  by (intro vc q post_if return_vm86_priv ret_checked_priv) simp_all

lemma iret_priv:
  assumes q: "quiet M"
  shows "post priv_ok (helper_iret_protected M shift ip env)"
proof -
  have "post priv_ok (if eflags env AND NT_MASK \<noteq> 0 then
        check env (hflags env AND HF_LMA_MASK \<noteq> 0) EXCP0D_GPF 0
          (bind_out (cpu_lduw_kernel M env (sc_base (tr env))) (\<lambda>(env, tss_selector).
            let err = tss_selector AND 0xfffc
            in check env (tss_selector AND 4 \<noteq> 0) EXCP0A_TSS err
              (load_desc M env tss_selector EXCP0A_TSS err (\<lambda>env e1 e2.
                check env (drop_bit 8 e2 AND 0x17 \<noteq> 3) EXCP0A_TSS err
                  (switch_tss M tss_selector e1 e2 SWITCH_TSS_IRET ip env)))))
      else helper_ret_protected M shift True 0 env)"
    unfolding Let_def by (intro vc q post_if switch_tss_priv ret_priv)
  then show ?thesis
    unfolding helper_iret_protected_def
    by (rule post_bind) (auto intro: priv_ok_same [rotated] simp: same_priv_def cpl_of_def)
qed


lemma load_seg_cpl:
  assumes q: "quiet M" and r: "r \<noteq> R_CS"
  shows "post (same_priv env) (helper_load_seg M r sel env)"
proof -
  have st: "post Q (bind_out (if c then cpu_stl_kernel M e a v else Done e) (\<lambda>env. f env))"
    if "\<And>e'. same_cpu e e' \<Longrightarrow> post Q (f e')" for Q f c e a v
    using that by (auto intro!: vc_store q)
  show ?thesis
    unfolding helper_load_seg_def Let_def
    by (intro vc q post_if st) (use r in \<open>simp_all add: same_priv_def load_seg_desc_cache seg_simps same_cpuD\<close>)
qed

lemma lldt_priv: "quiet M \<Longrightarrow> post (same_priv env) (helper_lldt M s env)"
proof -
  assume q: "quiet M"
  have desc: "post (same_priv env) (lldt_desc M s env)" for s
    unfolding lldt_desc_def Let_def by (intro vc q post_if) (simp_all add: same_priv_def seg_simps same_cpuD)
  show ?thesis
    unfolding helper_lldt_def Let_def
    by (intro post_bind [where R = "same_priv env"] post_if desc) (simp_all add: same_priv_def seg_simps)
qed

lemma ltr_priv: "quiet M \<Longrightarrow> post (same_priv env) (helper_ltr M s env)"
proof -
  assume q: "quiet M"
  have desc: "post (same_priv env) (ltr_desc M s env)" for s
  proof -
    have tr: "post (same_priv env) (if c then bind_out (cpu_ldl_kernel M e a) (\<lambda>(env, e3). bind_out (cpu_ldl_kernel M env b) (\<lambda>(env, e4).
          check env (desc_type e4 \<noteq> 0) EXCP0D_GPF err (Done (env\<lparr>tr := f env e3\<rparr>)))) else Done (e\<lparr>tr := g\<rparr>))"
      if "same_priv env e" for c e a b err f g
      using that by (auto intro!: vc q simp: same_priv_def seg_simps same_cpuD)
    show ?thesis
      unfolding ltr_desc_def Let_def
      by (intro vc q post_bind [OF tr] post_mono [OF stores_same(3) [OF q]])
        (auto intro: same_priv_trans same_cpu_priv simp: same_priv_def seg_simps same_cpuD)
  qed
  show ?thesis
    unfolding helper_ltr_def Let_def
    by (intro post_bind [where R = "same_priv env"] post_if desc) (simp_all add: same_priv_def seg_simps)
qed

lemma inspect_priv: "quiet M \<Longrightarrow> post (\<lambda>(env', v). same_priv env env') (inspect_desc M ok res sel env)"
  unfolding inspect_desc_def Let_def
  by (intro post_if post_same2 [OF load_segment_same]) (auto simp: same_priv_def seg_simps same_cpuD split: option.splits)

lemma inspect_priv_ok:
  "quiet M \<Longrightarrow> inspect_desc M ok res sel env = Done (env', v) \<Longrightarrow> priv_ok env \<Longrightarrow> priv_ok env'"
  using post_DoneD [OF inspect_priv] priv_ok_same by blast

text \<open>A step of the CPU through \<open>seg_helper.c\<close>; \<open>Other\<close> is any code that leaves the privilege state alone.\<close>

inductive seg_step :: "machine \<Rightarrow> cpu_state \<Rightarrow> cpu_state \<Rightarrow> bool" for M where
  Interrupt: "do_interrupt M env = Done env' \<Longrightarrow> seg_step M env env'"
| Hardirq: "do_interrupt_x86_hardirq M n hw env = Done env' \<Longrightarrow> seg_step M env env'"
| Syscall: "helper_syscall n env = Done env' \<Longrightarrow> seg_step M env env'"
| Sysret: "cr env 0 AND CR0_PE_MASK \<noteq> 0 \<Longrightarrow> helper_sysret d env = Done env' \<Longrightarrow> seg_step M env env'"
| Sysenter: "cr env 0 AND CR0_PE_MASK \<noteq> 0 \<Longrightarrow> helper_sysenter env = Done env' \<Longrightarrow> seg_step M env env'"
| Sysexit: "cr env 0 AND CR0_PE_MASK \<noteq> 0 \<Longrightarrow> helper_sysexit d env = Done env' \<Longrightarrow> seg_step M env env'"
| Load_seg: "protected_mode env \<Longrightarrow> r \<noteq> R_CS \<Longrightarrow> helper_load_seg M r sel env = Done env' \<Longrightarrow> seg_step M env env'"
| Ljmp: "protected_mode env \<Longrightarrow> helper_ljmp_protected M cs ip n env = Done env' \<Longrightarrow> seg_step M env env'"
| Lcall: "protected_mode env \<Longrightarrow> helper_lcall_protected M cs ip shift n env = Done env' \<Longrightarrow> seg_step M env env'"
| Lcall_real: "\<not> protected_mode env \<Longrightarrow> helper_lcall_real M cs ip shift ret env = Done env' \<Longrightarrow> seg_step M env env'"
| Iret: "protected_mode env \<Longrightarrow> helper_iret_protected M shift ret env = Done env' \<Longrightarrow> seg_step M env env'"
| Iret_real: "\<not> protected_mode env \<Longrightarrow> helper_iret_real M shift env = Done env' \<Longrightarrow> seg_step M env env'"
| Lret: "protected_mode env \<Longrightarrow> helper_lret_protected M shift adj env = Done env' \<Longrightarrow> seg_step M env env'"
| Lldt: "protected_mode env \<Longrightarrow> helper_lldt M sel env = Done env' \<Longrightarrow> seg_step M env env'"
| Ltr: "protected_mode env \<Longrightarrow> helper_ltr M sel env = Done env' \<Longrightarrow> seg_step M env env'"
| Lsl: "protected_mode env \<Longrightarrow> helper_lsl M s env = Done (env', v) \<Longrightarrow> seg_step M env env'"
| Lar: "protected_mode env \<Longrightarrow> helper_lar M s env = Done (env', v) \<Longrightarrow> seg_step M env env'"
| Verr: "protected_mode env \<Longrightarrow> helper_verr M s env = Done env' \<Longrightarrow> seg_step M env env'"
| Verw: "protected_mode env \<Longrightarrow> helper_verw M s env = Done env' \<Longrightarrow> seg_step M env env'"
| Other: "same_priv env env' \<Longrightarrow> seg_step M env env'"

lemma real_step:
  assumes "\<not> protected_mode env" "cr env' = cr env" "eflags env' AND VM_MASK = 0 \<longleftrightarrow> eflags env AND VM_MASK = 0"
  shows "priv_ok env'"
  using assms by (auto simp: priv_ok_def protected_mode_def)

lemma seg_step_priv:
  assumes "quiet M" "seg_step M env env'" "priv_ok env"
  shows "priv_ok env'"
  using assms(2, 3)
proof cases
  case Interrupt
  then show ?thesis using post_DoneD [OF interrupt_priv [OF assms(1)]] by blast
next
  case Hardirq
  then show ?thesis
    using post_DoneD [OF interrupt_all_priv [OF assms(1)]] unfolding do_interrupt_x86_hardirq_def by blast
next
  case Iret_real
  then show ?thesis using post_DoneD [OF real_mode_vm(2) [OF assms(1)]] real_step by blast
next
  case Lcall_real
  then show ?thesis using post_DoneD [OF real_mode_vm(1) [OF assms(1)]] real_step by blast
next
  case Load_seg
  then show ?thesis using post_DoneD [OF load_seg_cpl [OF assms(1)]] priv_ok_same assms(3) by blast
next
  case Lsl
  then show ?thesis using inspect_priv_ok [OF assms(1) _ assms(3)] by (simp add: helper_lsl_def)
next
  case Lar
  then show ?thesis using inspect_priv_ok [OF assms(1) _ assms(3)] by (simp add: helper_lar_def)
next
  case Verr
  then show ?thesis using inspect_priv_ok [OF assms(1) _ assms(3)] by (auto simp: helper_verr_def bind_eq_Done)
next
  case Verw
  then show ?thesis using inspect_priv_ok [OF assms(1) _ assms(3)] by (auto simp: helper_verw_def bind_eq_Done)
next
  case Other
  then show ?thesis using priv_ok_same assms(3) by blast
qed (use post_DoneD [OF syscall_priv(1)] post_DoneD [OF syscall_priv(2)] post_DoneD [OF syscall_priv(3)] post_DoneD [OF syscall_priv(4)]
    post_DoneD [OF ljmp_priv [OF assms(1)]] post_DoneD [OF lcall_priv [OF assms(1)]] post_DoneD [OF iret_priv [OF assms(1)]]
    post_DoneD [OF ret_priv [OF assms(1)]] post_DoneD [OF lldt_priv [OF assms(1)]] post_DoneD [OF ltr_priv [OF assms(1)]]
    priv_ok_same [OF _ assms(3)] in \<open>auto simp: helper_lret_protected_def\<close>)

end
