(* ===== verification/SegDemo.thy ===== *)
theory SegDemo
  imports SegInv
begin

text \<open>
  A small machine to run the helpers on: RAM at host address 0, mapped one to one by the TLB, holding a GDT with flat
  segments for the levels 0 and 3, a TSS and a call gate, an IDT and stacks.
\<close>

definition flat_machine :: machine where
  "flat_machine = \<lparr>
    m_section = (\<lambda>p. \<lparr>ts_ram = True, ts_romd = False, ts_readonly = False, ts_ram_ptr = 0, ts_ram_addr = 0, ts_addr = (\<lambda>a. a), ts_index = 4\<rparr>),
    m_guest = (\<lambda>a. a), m_ram_ptr = (\<lambda>a. a),
    m_read = (\<lambda>s a n env. Done (env, 0)), m_write = (\<lambda>s a v n env. Done env),
    m_invalidate_fast = (\<lambda>a n env. Done env), m_invalidate_range = (\<lambda>a b env. Done env),
    m_check_watchpoint = Done, m_gen_code = (\<lambda>pc b f env. Done env), m_restore = (\<lambda>env. env),
    m_retaddr = 0, m_recompile = (\<lambda>env. None)\<rparr>"

lemma flat_quiet: "quiet flat_machine"
  by (simp add: quiet_def flat_machine_def)

definition demo_word :: "u64 \<Rightarrow> u32" where
  "demo_word a =
    (if a = 0x1008 then 0xffff else if a = 0x100c then 0xcf9b00
     else if a = 0x1010 then 0xffff else if a = 0x1014 then 0xcf9300
     else if a = 0x1018 then 0xffff else if a = 0x101c then 0xcffb00
     else if a = 0x1020 then 0xffff else if a = 0x1024 then 0xcff300
     else if a = 0x1028 then 0x30000067 else if a = 0x102c then 0x8900
     else if a = 0x1030 then 0x85678 else if a = 0x1034 then 0x1234ec00
     else if a = 0x1038 then 0xffff else if a = 0x103c then 0xaf9b00
     else if a = 0x2210 then 0x389abc else if a = 0x2214 then 0x8e00
     else if a = 0x2180 then 0x89abc else if a = 0x2184 then 0x8e00
     else if a = 0x3004 then 0x5000 else if a = 0x3008 then 0x10
     else if a = 0x7000 then 0x1111 else if a = 0x7004 then 0x1b
     else if a = 0x7008 then 0x9000 else if a = 0x700c then 0x23
     else 0)"

definition demo_mem :: "u64 \<Rightarrow> u8" where
  "demo_mem a = ucast (drop_bit (8 * unat (a AND 3)) (demo_word (a AND NOT 3)))"

definition flat_tlb :: "nat \<Rightarrow> nat \<Rightarrow> tlb_entry" where
  "flat_tlb m k = \<lparr>addr_read = of_nat k * 0x1000, addr_write = of_nat k * 0x1000, addr_code = of_nat k * 0x1000, addend = 0\<rparr>"

named_theorems demo \<open>the demonstration machine\<close>

text \<open>The CPU at a privilege level, with flat segments.\<close>

definition demo_env :: "u32 \<Rightarrow> u32 \<Rightarrow> u32 \<Rightarrow> target_ulong \<Rightarrow> cpu_state" where
  "demo_env cpl cs ss sp = zero_env\<lparr>phys_mem := demo_mem, tlb_table := flat_tlb, hflags := cpl OR 0x80,
    cr := (\<lambda>_. 0)(0 := 1), regs := (\<lambda>_. 0)(R_ESP := sp),
    segs := (\<lambda>r. \<lparr>sc_selector = (if r = R_CS then cs else ss), sc_base = 0, sc_limit = 0xffffffff,
       sc_flags = (if r = R_CS then 0xcf9b00 OR push_bit 13 cpl else 0xcf9300 OR push_bit 13 cpl)\<rparr>),
    gdt := \<lparr>sc_selector = 0, sc_base = 0x1000, sc_limit = 0xff, sc_flags = 0\<rparr>,
    idt := \<lparr>sc_selector = 0, sc_base = 0x2000, sc_limit = 0x7ff, sc_flags = 0\<rparr>,
    tr := \<lparr>sc_selector = 0x28, sc_base = 0x3000, sc_limit = 0x67, sc_flags = 0x8900\<rparr>\<rparr>"

definition user_env :: cpu_state where "user_env = demo_env 3 0x1b 0x23 0x6000"
definition system_env :: cpu_state where "system_env = demo_env 0 8 0x10 0x7000"

definition view :: "cpu_state outcome \<Rightarrow> (u32 \<times> u64 \<times> u32 \<times> u64 \<times> u64 \<times> u64) option" where
  "view r = (case r of Done e \<Rightarrow> Some (cpl_of e, eip e, sc_selector (segs e R_CS), regs e R_ESP, eflags e, cr e 0) | _ \<Rightarrow> None)"

lemma view_Some: "view r = Some (l, ip, cs, sp, fl, c0) \<longleftrightarrow>
    (\<exists>e. r = Done e \<and> cpl_of e = l \<and> eip e = ip \<and> sc_selector (segs e R_CS) = cs \<and> regs e R_ESP = sp \<and> eflags e = fl \<and> cr e 0 = c0)"
  by (cases r) (simp_all add: view_def)

lemma flat_bits: "a AND 0xfffff = (a :: u64) \<Longrightarrow> bit a n \<Longrightarrow> n < 20"
proof -
  assume a: "a AND 0xfffff = a"
  have "(0xfffff :: u64) = mask 20" by (simp add: mask_eq_exp_minus_1)
  then have "a AND mask 20 = a" using a by (simp only:)
  moreover assume "bit a n"
  ultimately have "bit (a AND mask 20) n" by (simp only:)
  then show "n < 20" by (simp add: bit_and_iff bit_mask_iff)
qed

lemma flat_page: "a AND 0xfffff = (a :: u64) \<Longrightarrow> push_bit 12 (drop_bit 12 a AND mask 8) = a AND NOT (mask 12)"
proof (rule bit_word_eqI)
  fix n assume "n < LENGTH(64)" and a: "a AND 0xfffff = a"
  then show "bit (push_bit 12 (drop_bit 12 a AND mask 8)) n = bit (a AND NOT (mask 12)) n"
    using flat_bits [OF a, of n] by (cases "n < 12") (auto simp: bit_simps)
qed

lemma flat_index: "a AND 0xfffff = (a :: u64) \<Longrightarrow> of_nat (tlb_index a) * 0x1000 = a AND NOT 0xFFF"
proof -
  assume a: "a AND 0xfffff = a"
  have m: "(0xff :: u64) = mask 8" "(0xFFF :: u64) = mask 12" by (simp_all add: mask_eq_exp_minus_1)
  have "of_nat (tlb_index a) * 0x1000 = push_bit 12 (drop_bit 12 a AND 0xff)"
    by (simp add: tlb_index_def push_bit_eq_mult)
  then show ?thesis by (simp only: m flat_page [OF a])
qed

lemma flat_fast:
  fixes a :: u64
  assumes a: "a AND 0xfffff = a" and al: "a AND of_nat (nbytes z - 1) = 0" and e: "tlb_table e = flat_tlb"
  shows "tlb_fast e k z m a" "tlb_host e m a = a"
proof -
  have "(of_nat (nbytes z - 1) :: u64) = data_size z - 1" by (cases z) simp_all
  then have d: "a AND (NOT 0xFFF OR (data_size z - 1)) = a AND NOT 0xFFF"
    using al by (simp only: bit.conj_disj_distrib or.right_neutral)
  have "tlb_addr e k m a = a AND NOT 0xFFF"
    unfolding tlb_addr_def Let_def e flat_tlb_def flat_index [OF a] by (cases k) simp_all
  then show "tlb_fast e k z m a" unfolding tlb_fast_def by (simp only: d)
  show "tlb_host e m a = a" by (simp add: tlb_host_def e flat_tlb_def)
qed

lemma demo_byte:
  fixes a :: u64
  assumes "a AND 3 = 0"
  shows "demo_mem a = ucast (demo_word a)" "demo_mem (a + 1) = ucast (drop_bit 8 (demo_word a))"
    "demo_mem (a + 2) = ucast (drop_bit 16 (demo_word a))" "demo_mem (a + 3) = ucast (drop_bit 24 (demo_word a))"
proof -
  have split: "(a + i) AND 3 = i \<and> (a + i) AND NOT 3 = a" if "i AND 3 = i" for i
  proof -
    have "a AND i = (a AND 3) AND i" by (simp only: and.assoc and.commute [of 3] that)
    then have "a AND i = 0" by (simp add: assms)
    then have s: "a + i = a OR i" by (rule disjunctive_add_eq_or)
    have "a = a AND (3 OR NOT 3)" by simp
    then have n: "a AND NOT 3 = a" using assms by (simp only: bit.conj_disj_distrib) simp
    have "i AND NOT 3 = (i AND 3) AND NOT 3" by (simp only: that)
    then have "i AND NOT 3 = 0" by (simp only: and.assoc bit.conj_cancel_right bit.conj_zero_right)
    then show ?thesis by (simp only: s bit.conj_disj_distrib2 assms that n or.right_neutral or.left_neutral)
  qed
  show "demo_mem a = ucast (demo_word a)" "demo_mem (a + 1) = ucast (drop_bit 8 (demo_word a))"
    "demo_mem (a + 2) = ucast (drop_bit 16 (demo_word a))" "demo_mem (a + 3) = ucast (drop_bit 24 (demo_word a))"
    using split [of 0] split [of 1] split [of 2] split [of 3] by (simp_all add: demo_mem_def)
qed

lemma demo_ldl:
  assumes "a AND 0xfffff = a" "a AND 3 = 0" "tlb_table e = flat_tlb" "phys_mem e = demo_mem"
  shows "cpu_ldl_kernel flat_machine e a = Done (e, demo_word a)"
proof -
  have "ucast (ucast (ucast w :: u8) OR push_bit 8 (ucast (ucast (drop_bit 8 w) :: u8)) OR push_bit 16 (ucast (ucast (drop_bit 16 w) :: u8)) OR
      push_bit 24 (ucast (ucast (drop_bit 24 w) :: u8)) :: u64) = w" for w :: u32
    proof (rule bit_word_eqI)
    fix n assume "n < LENGTH(32)"
    then show "bit (ucast (ucast (ucast w :: u8) OR push_bit 8 (ucast (ucast (drop_bit 8 w) :: u8)) OR push_bit 16 (ucast (ucast (drop_bit 16 w) :: u8)) OR
      push_bit 24 (ucast (ucast (drop_bit 24 w) :: u8)) :: u64) :: u32) n = bit w n"
      by (cases "n < 8"; cases "n < 16"; cases "n < 24") (auto simp: bit_simps)
  qed
  then show ?thesis
    using flat_fast [of a Long] assms
    by (simp add: cpu_ldl_kernel_def cpu_ld_kernel_def cpu_ld_def ld_raw_def flat_machine_def upt_rec demo_byte)
qed

lemma demo_lduw:
  assumes "a AND 0xfffff = a" "a AND 3 = 0" "tlb_table e = flat_tlb" "phys_mem e = demo_mem"
  shows "cpu_lduw_kernel flat_machine e a = Done (e, demo_word a AND 0xffff)"
proof -
  have b: "ucast (ucast (ucast (ucast w :: u8) OR push_bit 8 (ucast (ucast (drop_bit 8 w) :: u8)) :: u64) :: u16) = w AND 0xffff" for w :: u32
  proof -
    have m: "(0xffff :: u32) = mask 16" by (simp add: mask_eq_exp_minus_1)
    show ?thesis
      unfolding m
    proof (rule bit_word_eqI)
      fix n assume "n < LENGTH(32)"
      then show "bit (ucast (ucast (ucast (ucast w :: u8) OR push_bit 8 (ucast (ucast (drop_bit 8 w) :: u8)) :: u64) :: u16) :: u32) n =
          bit (w AND mask 16) n"
        by (cases "n < 8"; cases "n < 16") (auto simp: bit_simps)
    qed
  qed
  have "a AND 1 = (a AND 3) AND 1" by (simp add: and.assoc)
  then have "a AND 1 = 0" by (simp add: assms)
  then show ?thesis
    using flat_fast [of a Word2] assms b
    by (simp add: cpu_lduw_kernel_def cpu_ld_kernel_def cpu_ld_def ld_raw_def flat_machine_def upt_rec demo_byte)
qed

lemma demo_stl:
  assumes "a AND 0xfffff = a" "a AND 3 = 0" "tlb_table e = flat_tlb"
  shows "cpu_stl_kernel flat_machine e a v = Done (e\<lparr>phys_mem := put_bytes flat_machine a (split_bytes 4 (ucast v)) (phys_mem e)\<rparr>)"
  using flat_fast [of a Long] assms
  by (simp add: cpu_stl_kernel_def cpu_st_kernel_def cpu_st_def st_raw_def)

lemma demo_fields [demo]:
  "tlb_table (demo_env l cs ss sp) = flat_tlb" "phys_mem (demo_env l cs ss sp) = demo_mem"
  "gdt (demo_env l cs ss sp) = \<lparr>sc_selector = 0, sc_base = 0x1000, sc_limit = 0xff, sc_flags = 0\<rparr>"
  "idt (demo_env l cs ss sp) = \<lparr>sc_selector = 0, sc_base = 0x2000, sc_limit = 0x7ff, sc_flags = 0\<rparr>"
  "tr (demo_env l cs ss sp) = \<lparr>sc_selector = 0x28, sc_base = 0x3000, sc_limit = 0x67, sc_flags = 0x8900\<rparr>"
  "eflags (demo_env l cs ss sp) = 0" "hflags (demo_env l cs ss sp) = l OR 0x80" "cr (demo_env l cs ss sp) = (\<lambda>_. 0)(0 := 1)"
  "regs (demo_env l cs ss sp) = (\<lambda>_. 0)(R_ESP := sp)" "eip (demo_env l cs ss sp) = 0"
  "segs (demo_env l cs ss sp) = (\<lambda>r. \<lparr>sc_selector = (if r = R_CS then cs else ss), sc_base = 0, sc_limit = 0xffffffff,
       sc_flags = (if r = R_CS then 0xcf9b00 OR push_bit 13 l else 0xcf9300 OR push_bit 13 l)\<rparr>)"
  "cpl_of (demo_env l cs ss sp) = l AND 3"
  by (simp_all add: demo_env_def zero_env_def cpl_of_def bit.conj_disj_distrib2)

lemma demo_stq:
  assumes "a AND 0xfffff = a" "a AND 7 = 0" "tlb_table e = flat_tlb"
  shows "cpu_stq_kernel flat_machine e a v = Done (e\<lparr>phys_mem := put_bytes flat_machine a (split_bytes 8 v) (phys_mem e)\<rparr>)"
  using flat_fast [of a Quad] assms
  by (simp add: cpu_stq_kernel_def cpu_st_kernel_def cpu_st_def st_raw_def)

text \<open>What it takes to run the helpers by rewriting.\<close>

lemmas seg_eval = Let_def demo demo_ldl demo_lduw demo_stl demo_stq demo_word_def load_desc_def load_segment_def desc_dpl_def desc_type_def
  check_def get_seg_limit_def get_seg_base_def get_sp_mask_def push_wl_def PUSHL_def SEG_ADDL_def load_seg_desc_cache seg_simps

end
