(* ===== verification/SegSafety.thy ===== *)
theory SegSafety
  imports SegDemo
begin

text \<open>
  What a privilege change goes through. A far call reaches an inner level by a present call gate open to the caller and lands
  at the gate's entry point; a return never reaches an inner level, and one to an outer level takes the inner segments away;
  \<open>int n\<close> needs a gate open to the caller; a load of a segment register obeys the rules for the segment's level.
\<close>

subsection \<open>Completed helpers\<close>

lemma raise_not_Done [simp]: "raise_exception_err env n err \<noteq> Done x"
  by (rule notI) (rule post_DoneD [OF raise_post(1) [where Q = "\<lambda>_. False"]])

lemma check_Done [simp]: "check env bad n err rest = Done x \<longleftrightarrow> \<not> bad \<and> rest = Done x"
  by (simp add: check_def)

lemma load_desc_Done:
  "load_desc M env s n err rest = Done x \<longleftrightarrow>
    (\<exists>env1 e1 e2. load_segment M env s = Done (env1, Some (e1, e2)) \<and> rest env1 e1 e2 = Done x)"
  by (auto simp: load_desc_def bind_eq_Done split: option.splits)

lemma load_segment_cpu: "quiet M \<Longrightarrow> load_segment M env s = Done (env1, r) \<Longrightarrow> same_cpu env env1"
  using post_DoneD [OF load_segment_same] by fast

subsection \<open>Far calls\<close>

lemma lcall_direct_cpl:
  assumes q: "quiet M"
  shows "post (\<lambda>env'. cpl_of env' = cpl_of env) (lcall_direct M cs cpl ip shift ret e1 e2 env)"
  unfolding lcall_direct_def push_return_def Let_def jump_cs_def load_seg_desc_cache
  by (intro vc q post_if) (simp_all add: seg_simps same_cpuD)

definition gate_offset :: "u32 \<Rightarrow> u32 \<Rightarrow> u32" where
  "gate_offset e1 e2 = (e2 AND 0xffff0000) OR (e1 AND 0xffff)"

lemma lcall_enter_state:
  "quiet M \<Longrightarrow> post (\<lambda>env'. eip env' = ucast ofs \<and> sc_selector (segs env' R_CS) = (sel AND NOT 3) OR dpl \<and> sc_flags (segs env' R_CS) = e2)
    (lcall_enter M long sel ofs dpl e1 e2 ns ssp m ip sp env)"
  unfolding lcall_enter_def push_return_def Let_def load_seg_desc_cache
  by (intro vc) (simp_all add: seg_simps)

lemma lcall_gate_state:
  assumes q: "quiet M"
  shows "post (\<lambda>env'. eip env' = ucast (gate_offset e1 e2) \<and> sc_selector (segs env' R_CS) AND NOT 3 = drop_bit 16 e1 AND NOT 3 \<and>
      sc_flags (segs env' R_CS) AND DESC_P_MASK \<noteq> 0 \<and> sc_flags (segs env' R_CS) AND DESC_CS_MASK \<noteq> 0)
    (lcall_gate M long cpl ip e1 e2 env)"
proof -
  have sel: "((s AND NOT 3) OR d) AND NOT 3 = s AND NOT 3" if "d AND 3 = d" for s d :: u32
  proof -
    have "d AND NOT 3 = 0" by (metis that and.assoc bit.conj_cancel_right bit.conj_zero_right)
    then show ?thesis by (simp only: bit.conj_disj_distrib2 and.assoc and.idem or.right_neutral)
  qed
  have enter: "post (\<lambda>env'. eip env' = ucast (gate_offset e1 e2) \<and> sc_selector (segs env' R_CS) AND NOT 3 = drop_bit 16 e1 AND NOT 3 \<and>
      sc_flags (segs env' R_CS) AND DESC_P_MASK \<noteq> 0 \<and> sc_flags (segs env' R_CS) AND DESC_CS_MASK \<noteq> 0)
    (lcall_enter M long (drop_bit 16 e1) ((e2 AND 0xffff0000) OR (e1 AND 0xffff)) (desc_dpl f2) f1 f2 ns ssp m ip sp env)"
    if "f2 AND DESC_P_MASK \<noteq> 0" "f2 AND DESC_CS_MASK \<noteq> 0" for f1 f2 ns ssp m ip sp env
    by (rule post_mono [OF lcall_enter_state [OF q]]) (use that sel [OF dpl_and_3] in \<open>simp add: gate_offset_def del: One_nat_def\<close>)
  show ?thesis
    unfolding lcall_gate_def Let_def by (intro vc q post_if enter)
qed

definition enters_gate :: "u32 \<Rightarrow> u32 \<Rightarrow> cpu_state \<Rightarrow> bool" where
  "enters_gate e1 e2 env' \<longleftrightarrow>
    desc_type e2 \<in> {4, 12} \<and> e2 AND DESC_P_MASK \<noteq> 0 \<and> eip env' = ucast (gate_offset e1 e2)
    \<and> sc_selector (segs env' R_CS) AND NOT 3 = drop_bit 16 e1 AND NOT 3
    \<and> sc_flags (segs env' R_CS) AND DESC_P_MASK \<noteq> 0 \<and> sc_flags (segs env' R_CS) AND DESC_CS_MASK \<noteq> 0"

lemma type5: "e2 AND DESC_S_MASK = 0 \<Longrightarrow> drop_bit 8 e2 AND 0x1f = desc_type (e2 :: u32)"
proof -
  assume "e2 AND DESC_S_MASK = 0"
  then have s: "\<not> bit e2 12" using and_exp_eq_0_iff_not_bit [of e2 12] by simp
  have m: "(0x1f :: u32) = mask 5" "(0xf :: u32) = mask 4" by (simp_all add: mask_eq_exp_minus_1)
  show ?thesis
    unfolding desc_type_def m
  proof (rule bit_word_eqI)
    fix n assume "n < LENGTH(32)"
    then show "bit (drop_bit 8 e2 AND mask 5) n = bit (drop_bit 8 e2 AND mask 4) n"
      using s by (cases "n = 4") (auto simp: bit_simps)
  qed
qed

text \<open>C32. A far call that ends at an inner privilege level went through a system descriptor open to the caller (its DPL is at least
  the caller's CPL and the selector's RPL): a task (gate), or a present call gate, whose entry point, in a present code segment, is
  where the CPU then is.\<close>

theorem lcall_inner_through_gate:
  assumes q: "quiet M"
    and call: "helper_lcall_protected M cs ip shift n env = Done env'"
    and inner: "cpl_of env' < cpl_of env"
  shows "\<exists>env1 e1 e2. load_segment M env cs = Done (env1, Some (e1, e2)) \<and> e2 AND DESC_S_MASK = 0
    \<and> cpl_of env \<le> desc_dpl e2 \<and> cs AND 3 \<le> desc_dpl e2 \<and> (desc_type e2 \<in> {1, 5, 9} \<or> enters_gate e1 e2 env')"
proof -
  from call obtain env1 e1 e2 where load: "load_segment M env cs = Done (env1, Some (e1, e2))"
    and rest: "(let cpl = cpl_of env1; dpl = desc_dpl e2; err = cs AND 0xfffc; rpl = cs AND 3; next_eip = eip env + scast n
          in if e2 AND DESC_S_MASK \<noteq> 0 then
               check env1 (code_denied cpl rpl e2) EXCP0D_GPF err
               (check env1 (e2 AND DESC_P_MASK = 0) EXCP0B_NOSEG err
                 (lcall_direct M cs cpl ip shift next_eip e1 e2 env1))
             else
               let type = drop_bit 8 e2 AND 0x1f
               in if type \<in> {1, 9, 5} then
                    check env1 (dpl < cpl \<or> dpl < rpl) EXCP0D_GPF err
                      (bind_out (switch_tss M cs e1 e2 SWITCH_TSS_CALL (ucast next_eip) env1)
                        (\<lambda>env. Done (env\<lparr>cc_op := CC_OP_EFLAGS\<rparr>)))
                  else if type \<in> {4, 12} then
                    check env1 (dpl < cpl \<or> dpl < rpl) EXCP0D_GPF err
                      (check env1 (e2 AND DESC_P_MASK = 0) EXCP0B_NOSEG err
                        (lcall_gate M (drop_bit 3 type \<noteq> 0) cpl (ucast next_eip) e1 e2 env1))
                  else raise_exception_err env1 EXCP0D_GPF err) = Done env'"
    unfolding helper_lcall_protected_def Let_def check_Done load_desc_Done by blast
  have same: "cpl_of env1 = cpl_of env" using same_cpuD(1) [OF load_segment_cpu [OF q load]] .
  have s: "e2 AND DESC_S_MASK = 0"
  proof (rule ccontr)
    assume "e2 AND DESC_S_MASK \<noteq> 0"
    with rest have "lcall_direct M cs (cpl_of env1) ip shift (eip env + scast n) e1 e2 env1 = Done env'" by (simp add: Let_def)
    then show False using post_DoneD [OF lcall_direct_cpl [OF q]] inner same by fastforce
  qed
  then have t: "drop_bit 8 e2 AND 0x1f = desc_type e2" by (rule type5)
  have "enters_gate e1 e2 env'" if "desc_type e2 \<notin> {1, 5, 9}"
    using rest that post_DoneD [OF lcall_gate_state [OF q]] unfolding Let_def t
    by (auto simp: s enters_gate_def split: if_splits)
  moreover have "cpl_of env \<le> desc_dpl e2 \<and> cs AND 3 \<le> desc_dpl e2"
    using rest same unfolding Let_def t by (auto simp: s not_less split: if_splits)
  ultimately show ?thesis using load s by blast
qed

lemma demo_lcall:
  "view (helper_lcall_protected flat_machine 0x33 0 1 5 user_env) = Some (0, 0x12345678, 8, 0x4ff0, 0, 1)"
  by (simp add: user_env_def view_def seg_eval helper_lcall_protected_def lcall_gate_def gate_target_def inner_stack_def
      get_ss_esp_from_tss_def lcall_enter_def push_return_def SET_ESP_def set_reg_def)

lemma lcall_inner_through_gate_witness:
  "\<exists>env' env1 e1 e2. helper_lcall_protected flat_machine 0x33 0 1 5 user_env = Done env' \<and> cpl_of env' = 0 \<and>
    load_segment flat_machine user_env 0x33 = Done (env1, Some (e1, e2)) \<and> cpl_of user_env \<le> desc_dpl e2 \<and> (0x33 :: u32) AND 3 \<le> desc_dpl e2"
proof -
  obtain env' where e: "helper_lcall_protected flat_machine 0x33 0 1 5 user_env = Done env'" "cpl_of env' = 0"
    using demo_lcall unfolding view_Some by blast
  have "cpl_of env' < cpl_of user_env" by (simp add: e user_env_def demo)
  from lcall_inner_through_gate [OF flat_quiet e(1) this] e show ?thesis by blast
qed

subsection \<open>Far returns\<close>

text \<open>The segment may stay loaded at the CPU's level.\<close>

definition seg_visible :: "u32 \<Rightarrow> cpu_state \<Rightarrow> nat \<Rightarrow> bool" where
  "seg_visible cpl env r \<longleftrightarrow> sc_selector (segs env r) AND 0xfffc = 0
    \<or> (sc_flags (segs env r) AND DESC_CS_MASK \<noteq> 0 \<and> sc_flags (segs env r) AND DESC_C_MASK \<noteq> 0)
    \<or> cpl \<le> desc_dpl (sc_flags (segs env r))"

abbreviation (input) data_segs :: "nat list" where "data_segs \<equiv> [R_ES, R_DS, R_FS, R_GS]"

lemma validate_visible: "seg_visible c (validate_seg r c env) r"
  by (auto simp: validate_seg_def seg_visible_def Let_def seg_simps not_less)

lemma validate_fold:
  "\<forall>r \<in> set rs. seg_visible c (fold (\<lambda>r. validate_seg r c) rs env) r"
  "r \<notin> set rs \<Longrightarrow> segs (fold (\<lambda>r. validate_seg r c) rs env) r = segs env r"
  "cpl_of (fold (\<lambda>r. validate_seg r c) rs env) = cpl_of env"
proof -
  show keep: "r \<notin> set rs \<Longrightarrow> segs (fold (\<lambda>r. validate_seg r c) rs env) r = segs env r" for r rs env
    by (induction rs arbitrary: env) (simp_all add: seg_simps)
  show "cpl_of (fold (\<lambda>r. validate_seg r c) rs env) = cpl_of env"
    by (induction rs arbitrary: env) (simp_all add: seg_simps)
  show "\<forall>r \<in> set rs. seg_visible c (fold (\<lambda>r. validate_seg r c) rs env) r"
  proof (induction rs arbitrary: env)
    case (Cons q rs)
    show ?case
    proof
      fix r assume "r \<in> set (q # rs)"
      then consider "r \<in> set rs" | "r = q" "q \<notin> set rs" by auto
      then show "seg_visible c (fold (\<lambda>r. validate_seg r c) (q # rs) env) r"
        using Cons validate_visible [of c q env] by cases (simp_all add: seg_visible_def keep)
    qed
  qed simp
qed

lemma ret_outer_visible:
  assumes q: "quiet M"
  shows "post (\<lambda>(env', sp', m'). cpl_of env' = cs AND 3 \<and> (\<forall>r \<in> set data_segs. seg_visible (cs AND 3) env' r))
    (ret_outer M shift ssp m sp adj cs e1 e2 env)"
  unfolding ret_outer_def Let_def
  by (intro vc q post_bind [OF ret_stack_cpl [OF q]])
    (use validate_fold(1) in \<open>auto simp: validate_fold(3) load_seg_desc_cache seg_simps and.assoc simp del: fold.simps list.set\<close>)

definition levels_ok :: "u32 \<Rightarrow> cpu_state \<Rightarrow> bool" where
  "levels_ok cpl env' \<longleftrightarrow> cpl \<le> cpl_of env' \<and> (cpl < cpl_of env' \<longrightarrow> (\<forall>r \<in> set data_segs. seg_visible (cpl_of env') env' r))"

lemma levels_ok_regs:
  "levels_ok c e \<Longrightarrow> segs e' = segs e \<Longrightarrow> cpl_of e' = cpl_of e \<Longrightarrow> levels_ok c e'"
  by (simp add: levels_ok_def seg_visible_def)

lemma ret_checked_levels:
  assumes q: "quiet M"
  shows "post (levels_ok (cpl_of env)) (ret_checked M shift is_iret adj ssp m sp ip cs fl env)"
proof -
  have inner: "post (\<lambda>(env', sp', m'). levels_ok (cpl_of env) env')
      (if cs AND 3 = cpl_of e \<and> b then Done (load_seg_desc e R_CS cs e1 e2, s, m) else ret_outer M shift ssp m s adj cs e1 e2 e)"
    if "same_cpu env e" "\<not> cs AND 3 < cpl_of e" for e b s e1 e2
  proof (rule post_if)
    show "post (\<lambda>(env', sp', m'). levels_ok (cpl_of env) env') (Done (load_seg_desc e R_CS cs e1 e2, s, m))"
      using that by (simp add: levels_ok_def load_seg_desc_cache seg_simps same_cpuD)
    show "post (\<lambda>(env', sp', m'). levels_ok (cpl_of env) env') (ret_outer M shift ssp m s adj cs e1 e2 e)"
      by (rule post_mono [OF ret_outer_visible [OF q]]) (use that in \<open>auto simp: levels_ok_def same_cpuD not_less\<close>)
  qed
  have tail: "levels_ok l (iret_eflags shift c fl (SET_ESP sp m e\<lparr>eip := ip\<rparr>))" "levels_ok l (SET_ESP sp m e\<lparr>eip := ip\<rparr>)"
    if "levels_ok l e" for l c sp m e
    by (rule levels_ok_regs [OF that]; simp add: iret_eflags_def Let_def seg_simps)+
  show ?thesis
    unfolding ret_checked_def Let_def
    by (intro vc q post_bind [OF inner]) (auto intro!: tail simp del: One_nat_def)
qed

text \<open>C33. A far return that completes, other than into virtual-8086 mode, does not lower the CPL; and one that raises it leaves in
  \<open>DS\<close>, \<open>ES\<close>, \<open>FS\<close> and \<open>GS\<close> no data or non-conforming code segment of an inner level, the null selector excepted.\<close>

theorem ret_never_inward:
  assumes q: "quiet M"
    and ret: "helper_ret_protected M shift is_iret adj env = Done env'"
    and pm: "eflags env' AND VM_MASK = 0"
  shows "cpl_of env \<le> cpl_of env' \<and>
    (cpl_of env < cpl_of env' \<longrightarrow> (\<forall>r \<in> {R_ES, R_DS, R_FS, R_GS}. seg_visible (cpl_of env') env' r))"
proof -
  have checked: "post (\<lambda>e'. eflags e' AND VM_MASK \<noteq> 0 \<or> levels_ok (cpl_of env) e') (ret_checked M shift is_iret adj ssp m sp ip cs v e)"
    if "cpl_of e = cpl_of env" for ssp m sp ip cs v e
    by (rule post_mono [OF ret_checked_levels [OF q]]) (use that in simp)
  have vm: "post (\<lambda>e'. eflags e' AND VM_MASK \<noteq> 0 \<or> levels_ok (cpl_of env) e') (return_to_vm86 M ssp m sp ip cs v e)"
    if "v AND VM_MASK \<noteq> 0" for ssp m sp ip cs v e
    by (rule post_mono [OF return_vm86_vm [OF q that]]) simp
  have "post (\<lambda>e'. eflags e' AND VM_MASK \<noteq> 0 \<or> levels_ok (cpl_of env) e') (helper_ret_protected M shift is_iret adj env)"
    unfolding helper_ret_protected_def Let_def
    by (intro vc q post_if vm checked) (simp_all add: same_cpuD)
  from post_DoneD [OF this ret] pm show ?thesis by (simp add: levels_ok_def)
qed


lemma demo_lret: "view (helper_lret_protected flat_machine 1 0 system_env) = Some (3, 0x1111, 0x1b, 0x9000, 0, 1)"
  by (simp add: system_env_def view_def seg_eval helper_lret_protected_def helper_ret_protected_def pop_size_def POPL_def
      ret_checked_def ret_outer_def ret_stack_def SET_ESP_def set_reg_def)

lemma ret_never_inward_witness:
  "\<exists>env'. helper_ret_protected flat_machine 1 False 0 system_env = Done env' \<and> cpl_of system_env < cpl_of env' \<and>
    seg_visible (cpl_of env') env' R_DS \<and> seg_visible (cpl_of env') env' R_ES"
proof -
  obtain env' where e: "helper_ret_protected flat_machine 1 False 0 system_env = Done env'" "cpl_of env' = 3" "eflags env' = 0"
    using demo_lret unfolding view_Some helper_lret_protected_def by blast
  have "cpl_of system_env < cpl_of env'" by (simp add: e system_env_def demo)
  with ret_never_inward [OF flat_quiet e(1)] e show ?thesis by simp
qed

subsection \<open>Software interrupts\<close>

text \<open>The entry of the IDT for a vector, 16 bytes wide in long mode and 8 in protected mode.\<close>

definition gate_width :: "cpu_state \<Rightarrow> int" where
  "gate_width env = (if hflags env AND HF_LMA_MASK \<noteq> 0 then 16 else 8)"

definition read_gate :: "machine \<Rightarrow> int \<Rightarrow> cpu_state \<Rightarrow> (cpu_state \<times> u32 \<times> u32) outcome" where
  "read_gate M n env =
    (let ptr = sc_base (idt env) + word_of_int (n * gate_width env); long = (hflags env AND HF_LMA_MASK \<noteq> 0)
     in bind_out (cpu_ldl_kernel M env ptr) (\<lambda>(env, e1). bind_out (cpu_ldl_kernel M env (ptr + 4)) (\<lambda>(env, e2).
        if long then bind_out (cpu_ldl_kernel M env (ptr + 8)) (\<lambda>(env, e3). Done (env, e1, e2)) else Done (env, e1, e2))))"

abbreviation (input) gate_type :: "u32 \<Rightarrow> u32" where "gate_type e2 \<equiv> drop_bit 8 e2 AND 0x1f"

lemma read_protected:
  assumes "read_gate M n env = Done (env', e1, e2)" "hflags env AND HF_LMA_MASK = 0"
  obtains env1 where "cpu_ldl_kernel M env (sc_base (idt env) + word_of_int (n * 8)) = Done (env1, e1)"
    "cpu_ldl_kernel M env1 (sc_base (idt env) + word_of_int (n * 8) + 4) = Done (env', e2)"
  using assms by (auto simp: read_gate_def gate_width_def Let_def bind_eq_Done)

lemma read_long:
  assumes "read_gate M n env = Done (env', e1, e2)" "hflags env AND HF_LMA_MASK \<noteq> 0"
  obtains env1 env2 e3 where "cpu_ldl_kernel M env (sc_base (idt env) + word_of_int (n * 16)) = Done (env1, e1)"
    "cpu_ldl_kernel M env1 (sc_base (idt env) + word_of_int (n * 16) + 4) = Done (env2, e2)"
    "cpu_ldl_kernel M env2 (sc_base (idt env) + word_of_int (n * 16) + 8) = Done (env', e3)"
  using assms by (auto simp: read_gate_def gate_width_def Let_def bind_eq_Done)

text \<open>
  Through a task gate the DPL is not compared: a software interrupt switches tasks at any privilege level, where the
  architecture wants a general-protection fault.
\<close>

lemma task_gate_unchecked:
  assumes "word_of_int (n * 8 + 7) \<le> sc_limit (idt env)" "hflags env AND HF_LMA_MASK = 0"
    and "read_gate M n env = Done (env', e1, e2)" "gate_type e2 = 5" "e2 AND DESC_P_MASK \<noteq> 0"
  shows "do_interrupt_protected M n True ecode next_eip hw env =
    switch_tss M (word_of_int (n * 8)) e1 e2 SWITCH_TSS_CALL next_eip env'"
  by (rule read_protected [OF assms(3,2)])
    (use assms in \<open>simp add: do_interrupt_protected_def Let_def check_def not_less [symmetric] bind_out_def split: outcome.split\<close>)

lemma raise_out: "bind_out (raise_exception_err env n err) f = raise_exception_err env n err"
  by (simp add: raise_exception_err_def raise_interrupt2_def bind_assoc cpu_loop_exit_def case_prod_unfold)

text \<open>C35. In protected and in long mode \<open>int n\<close> needs a gate open to the caller: when the DPL of the vector's entry in the
  IDT is less than the CPL, the instruction raises a general-protection fault with the error code of the vector and
  does nothing else, whatever the entry is, with one exception: a task gate in protected mode, which is not checked.\<close>

theorem soft_interrupt_needs_dpl:
  assumes "cr env 0 AND CR0_PE_MASK \<noteq> 0" "hflags env AND HF_SVMI_MASK = 0"
    and "word_of_int (n * gate_width env + gate_width env - 1) \<le> sc_limit (idt env)"
    and "read_gate M n env = Done (env', e1, e2)" "desc_dpl e2 < cpl_of env'"
    and "hflags env AND HF_LMA_MASK = 0 \<longrightarrow> gate_type e2 \<noteq> 5"
  shows "do_interrupt_all M n True ecode next_eip hw env =
    raise_exception_err env' EXCP0D_GPF (word_of_int (n * gate_width env + 2))"
proof (cases "hflags env AND HF_LMA_MASK = 0")
  case True
  then have l: "word_of_int (n * 8 + 7) \<le> sc_limit (idt env)" "gate_type e2 \<noteq> 5" using assms(3,6) by (simp_all add: gate_width_def add.commute)
  obtain env1 where r: "cpu_ldl_kernel M env (sc_base (idt env) + word_of_int (n * 8)) = Done (env1, e1)"
    "cpu_ldl_kernel M env1 (sc_base (idt env) + word_of_int (n * 8) + 4) = Done (env', e2)"
    by (rule read_protected [OF assms(4) True])
  have "do_interrupt_protected M n True ecode (ucast next_eip) hw env = raise_exception_err env' EXCP0D_GPF (word_of_int (n * 8 + 2))"
    using l r assms(5) by (simp add: do_interrupt_protected_def Let_def check_def not_less [symmetric])
  then show ?thesis using assms(1,2) True by (simp add: do_interrupt_all_def gate_width_def raise_out)
next
  case False
  then have l: "word_of_int (n * 16 + 15) \<le> sc_limit (idt env)" using assms(3) by (simp add: gate_width_def add.commute)
  obtain env1 env2 e3 where r: "cpu_ldl_kernel M env (sc_base (idt env) + word_of_int (n * 16)) = Done (env1, e1)"
    "cpu_ldl_kernel M env1 (sc_base (idt env) + word_of_int (n * 16) + 4) = Done (env2, e2)"
    "cpu_ldl_kernel M env2 (sc_base (idt env) + word_of_int (n * 16) + 8) = Done (env', e3)"
    by (rule read_long [OF assms(4) False])
  have "do_interrupt64 M n True ecode next_eip hw env = raise_exception_err env' EXCP0D_GPF (word_of_int (n * 16 + 2))"
    using l r assms(5) by (simp add: do_interrupt64_def Let_def check_def not_less [symmetric])
  then show ?thesis using assms(1,2) False by (simp add: do_interrupt_all_def gate_width_def raise_out)
qed

text \<open>\<open>int 0x30\<close> in protected mode and \<open>int 0x21\<close> in long mode at CPL 3, through gates of DPL 0.\<close>

lemma soft_interrupt_needs_dpl_witness:
  "do_interrupt_all flat_machine 0x30 True 0 0 False user_env = raise_exception_err user_env EXCP0D_GPF 0x182 \<and>
   (let env = user_env\<lparr>hflags := 0x4083\<rparr>
    in do_interrupt_all flat_machine 0x21 True 0 0 False env = raise_exception_err env EXCP0D_GPF 0x212)"
proof -
  let ?e = "user_env\<lparr>hflags := 0x4083\<rparr>"
  have w: "gate_width user_env = 8" "gate_width ?e = 16" by (simp_all add: gate_width_def user_env_def demo)
  have "read_gate flat_machine 0x30 user_env = Done (user_env, 0x89abc, 0x8e00)"
    by (simp add: read_gate_def gate_width_def user_env_def seg_eval)
  then have "do_interrupt_all flat_machine 0x30 True 0 0 False user_env =
      raise_exception_err user_env EXCP0D_GPF (word_of_int (0x30 * gate_width user_env + 2))"
    by (intro soft_interrupt_needs_dpl) (simp_all add: w, simp_all add: user_env_def seg_eval)
  moreover have "read_gate flat_machine 0x21 ?e = Done (?e, 0x389abc, 0x8e00)"
    by (simp add: read_gate_def gate_width_def user_env_def seg_eval)
  then have "do_interrupt_all flat_machine 0x21 True 0 0 False ?e =
      raise_exception_err ?e EXCP0D_GPF (word_of_int (0x21 * gate_width ?e + 2))"
    by (intro soft_interrupt_needs_dpl) (simp_all add: w, simp_all add: user_env_def seg_eval cpl_of_def)
  ultimately show ?thesis by (simp add: w)
qed


subsection \<open>Loads of segment registers\<close>

definition access_granted :: "nat \<Rightarrow> u32 \<Rightarrow> u32 \<Rightarrow> u32 \<Rightarrow> bool" where
  "access_granted r cpl rpl f \<longleftrightarrow>
    f AND DESC_S_MASK \<noteq> 0 \<and> f AND DESC_P_MASK \<noteq> 0 \<and> f AND DESC_A_MASK \<noteq> 0 \<and>
    (if r = R_SS then f AND DESC_CS_MASK = 0 \<and> f AND DESC_W_MASK \<noteq> 0 \<and> rpl = cpl \<and> desc_dpl f = cpl
     else (f AND DESC_CS_MASK = 0 \<or> f AND DESC_R_MASK \<noteq> 0) \<and>
       (f AND DESC_CS_MASK \<noteq> 0 \<and> f AND DESC_C_MASK \<noteq> 0 \<or> max cpl rpl \<le> desc_dpl f))"

lemma accessed_bits: "(f OR DESC_A_MASK) AND m = f AND m" if "DESC_A_MASK AND m = 0" for f m :: u32
  using that by (simp add: bit.conj_disj_distrib2)

lemma and_single: "x AND 2 ^ n = (if bit x n then 2 ^ n else 0)" for x :: u32
  by (rule bit_word_eqI) (auto simp: bit_and_iff bit_exp_iff)

lemma code_unreadable: "f AND (DESC_CS_MASK OR DESC_R_MASK) = DESC_CS_MASK \<longleftrightarrow> f AND DESC_CS_MASK \<noteq> 0 \<and> (f :: u32) AND DESC_R_MASK = 0"
  using and_single [of f 11] and_single [of f 9] by (simp only: bit.conj_disj_distrib) simp

lemma granted_by:
  assumes "f AND DESC_S_MASK \<noteq> 0" "\<not> seg_denied r cpl rpl f" "f AND DESC_P_MASK \<noteq> 0"
    and "g AND DESC_A_MASK \<noteq> 0" "desc_dpl g = desc_dpl f" "g AND DESC_S_MASK = f AND DESC_S_MASK" "g AND DESC_P_MASK = f AND DESC_P_MASK"
      "g AND DESC_CS_MASK = f AND DESC_CS_MASK" "g AND DESC_W_MASK = f AND DESC_W_MASK" "g AND DESC_C_MASK = f AND DESC_C_MASK"
  shows "access_granted r cpl rpl g"
proof (cases "r = R_SS")
  case True
  then show ?thesis using assms by (simp add: access_granted_def seg_denied_def)
next
  case False
  then show ?thesis using assms by (simp only: access_granted_def seg_denied_def code_unreadable not_less de_Morgan_disj if_False max_def) auto
qed

lemma granted_accessed:
  assumes "f AND DESC_S_MASK \<noteq> 0" "\<not> seg_denied r cpl rpl f" "f AND DESC_P_MASK \<noteq> 0"
  shows "f AND DESC_A_MASK \<noteq> 0 \<Longrightarrow> access_granted r cpl rpl f" "access_granted r cpl rpl (f OR DESC_A_MASK)"
proof -
  show "f AND DESC_A_MASK \<noteq> 0 \<Longrightarrow> access_granted r cpl rpl f" by (rule granted_by [OF assms]) simp_all
  have "desc_dpl (f OR DESC_A_MASK) = desc_dpl f" by (simp add: desc_dpl_def)
  moreover have "(f OR DESC_A_MASK) AND DESC_A_MASK \<noteq> 0" by (simp add: bit.conj_disj_distrib2) 
  ultimately show "access_granted r cpl rpl (f OR DESC_A_MASK)" by (intro granted_by [OF assms]) (simp_all add: accessed_bits)
qed

text \<open>C34. When the load of a segment register with a non-null selector completes, the register holds the selector and a present,
  accessed descriptor that the caller may use: for \<open>SS\<close> a writable data segment with DPL and RPL equal to the CPL; for the others a
  readable segment whose DPL is at least the CPL and the RPL, conforming code excepted. No other segment register changes, nor the CPL.\<close>

theorem load_seg_granted:
  assumes q: "quiet M"
    and load: "helper_load_seg M r sel env = Done env'"
    and sel: "sel AND 0xfffc \<noteq> 0"
  shows "sc_selector (segs env' r) = sel AND 0xffff \<and> access_granted r (cpl_of env) (sel AND 3) (sc_flags (segs env' r))
    \<and> (\<forall>s. s \<noteq> r \<longrightarrow> segs env' s = segs env s) \<and> cpl_of env' = cpl_of env"
proof -
  let ?Q = "\<lambda>env'. sc_selector (segs env' r) = sel AND 0xffff \<and> access_granted r (cpl_of env) (sel AND 3) (sc_flags (segs env' r))
    \<and> (\<forall>s. s \<noteq> r \<longrightarrow> segs env' s = segs env s) \<and> cpl_of env' = cpl_of env"
  have st: "post Q (bind_out (if c then cpu_stl_kernel M e a v else Done e) (\<lambda>env. f env))"
    if "\<And>e'. same_cpu e e' \<Longrightarrow> post Q (f e')" for Q f c e a v
    using that by (auto intro!: vc_store q)
  have s: "(sel AND 0xffff) AND 0xfffc \<noteq> 0" and r: "(sel AND 0xffff) AND 3 = sel AND 3"
    using sel by (simp_all add: and.assoc)
  have "post ?Q (helper_load_seg M r sel env)"
    unfolding helper_load_seg_def Let_def if_not_P [OF s] load_seg_desc_cache r
    by (intro vc q st) (auto intro!: granted_accessed simp: seg_simps same_cpuD simp del: if_split split: if_split_asm)
  from post_DoneD [OF this load] show ?thesis .
qed


lemma load_seg_granted_witness:
  "\<exists>env'. helper_load_seg flat_machine R_DS 0x23 user_env = Done env' \<and> access_granted R_DS 3 3 (sc_flags (segs env' R_DS))"
proof -
  have "\<exists>env'. helper_load_seg flat_machine R_DS 0x23 user_env = Done env'"
    by (simp add: user_env_def helper_load_seg_def seg_denied_def seg_eval)
  then obtain env' where e: "helper_load_seg flat_machine R_DS 0x23 user_env = Done env'" by blast
  have "access_granted R_DS (cpl_of user_env) (0x23 AND 3) (sc_flags (segs env' R_DS))"
    using load_seg_granted [OF flat_quiet e] by simp
  then show ?thesis using e by (auto simp: user_env_def demo)
qed

subsection \<open>Interrupts in long mode\<close>

lemma handler_state:
  "cpl_of (enter_handler sel dpl e1 e2 ofs type env) = dpl AND 3" "segs (enter_handler sel dpl e1 e2 ofs type env) R_CS =
    \<lparr>sc_selector = (sel AND NOT 3) OR dpl, sc_base = ucast (get_seg_base e1 e2), sc_limit = get_seg_limit e1 e2, sc_flags = e2\<rparr>"
  "eflags (enter_handler sel dpl e1 e2 ofs type env) AND (TF_MASK OR VM_MASK OR RF_MASK OR NT_MASK) = 0"
  "type AND 1 = 0 \<Longrightarrow> eflags (enter_handler sel dpl e1 e2 ofs type env) AND IF_MASK = 0"
  by (simp_all add: enter_handler_def Let_def load_seg_desc_cache seg_simps and.assoc)

definition handler_entered :: "u32 \<Rightarrow> cpu_state \<Rightarrow> bool" where
  "handler_entered cpl env' \<longleftrightarrow> cpl_of env' \<le> cpl \<and> cpl_of env' = sc_selector (segs env' R_CS) AND 3
    \<and> eflags env' AND (TF_MASK OR VM_MASK OR RF_MASK OR NT_MASK) = 0
    \<and> (let f = sc_flags (segs env' R_CS) in f AND DESC_P_MASK \<noteq> 0 \<and> f AND DESC_CS_MASK \<noteq> 0 \<and> f AND DESC_L_MASK \<noteq> 0 \<and> f AND DESC_B_MASK = 0)"

lemma int64_enter_state:
  assumes q: "quiet M" and d: "dpl AND 3 = dpl" "dpl \<le> cpl"
    and f: "e2 AND DESC_P_MASK \<noteq> 0" "e2 AND DESC_CS_MASK \<noteq> 0" "e2 AND DESC_L_MASK \<noteq> 0" "e2 AND DESC_B_MASK = 0"
  shows "post (handler_entered cpl) (int64_enter M type sel ofs e1 e2 dpl ns esp ip ec env)"
  unfolding int64_enter_def Let_def
  by (intro vc q) (use d f in \<open>simp add: handler_entered_def handler_state handler_state(3) [simplified] seg_simps Let_def del: One_nat_def\<close>)

text \<open>C36. An interrupt or exception delivered in long mode enters a present 64-bit code segment at the interrupted privilege level or an inner
  one, the level that the new \<open>CS\<close> names, with tracing, virtual-8086 mode, resume and nested task off.\<close>

theorem interrupt64_entry:
  assumes q: "quiet M" and d: "do_interrupt64 M n is_int ec ip hw env = Done env'"
  shows "handler_entered (cpl_of env) env'"
proof -
  have "post (handler_entered (cpl_of env)) (do_interrupt64 M n is_int ec ip hw env)"
    unfolding do_interrupt64_def Let_def
    by (intro vc q post_if int64_enter_state) (simp_all add: seg_simps same_cpuD)
  from post_DoneD [OF this d] show ?thesis .
qed


lemma demo_interrupt64:
  "view (do_interrupt64 flat_machine 0x21 False 0 0 True (system_env\<lparr>hflags := 0x4080\<rparr>)) = Some (0, 0x9abc, 0x38, 0x6fd8, 0, 1)"
  by (simp add: system_env_def view_def seg_eval do_interrupt64_def gate_target_def int64_enter_def PUSHQ_def enter_handler_def set_reg_def)

lemma interrupt64_entry_witness:
  "\<exists>env'. do_interrupt64 flat_machine 0x21 False 0 0 True (system_env\<lparr>hflags := 0x4080\<rparr>) = Done env' \<and>
    handler_entered (cpl_of (system_env\<lparr>hflags := 0x4080\<rparr>)) env' \<and> eip env' = 0x9abc"
proof -
  obtain env' where e: "do_interrupt64 flat_machine 0x21 False 0 0 True (system_env\<lparr>hflags := 0x4080\<rparr>) = Done env'" "eip env' = 0x9abc"
    using demo_interrupt64 unfolding view_Some by blast
  with interrupt64_entry [OF flat_quiet e(1)] show ?thesis by blast
qed

subsection \<open>The privilege level over a run\<close>

text \<open>C31. Whatever completed far transfers, task switches, interrupts, system calls, segment loads and other instructions a run
  consists of, outside virtual-8086 mode the privilege level in \<open>hflags\<close> is the requested privilege level of \<open>CS\<close>, if it was so at
  the start.\<close>

theorem cpl_mirrors_cs:
  assumes q: "quiet M" and run: "(seg_step M)\<^sup>*\<^sup>* env env'" and start: "priv_ok env" and pm: "protected_mode env'"
  shows "cpl_of env' = sc_selector (segs env' R_CS) AND 3"
proof -
  have "priv_ok env'"
    using run start by (induction rule: rtranclp_induct) (auto intro: seg_step_priv [OF q])
  then show ?thesis using pm by (simp add: priv_ok_def)
qed

lemma cpl_mirrors_cs_witness:
  "\<exists>env'. (seg_step flat_machine)\<^sup>*\<^sup>* user_env env' \<and> cpl_of user_env = 3 \<and> cpl_of env' = 0 \<and> sc_selector (segs env' R_CS) AND 3 = 0"
proof -
  have start: "priv_ok user_env" by (simp add: priv_ok_def user_env_def demo)
  obtain env' where e: "helper_lcall_protected flat_machine 0x33 0 1 5 user_env = Done env'" "cpl_of env' = 0" "eflags env' = 0" "cr env' 0 = 1"
    using demo_lcall unfolding view_Some by blast
  have p: "protected_mode user_env" by (simp add: protected_mode_def user_env_def demo)
  have run: "(seg_step flat_machine)\<^sup>*\<^sup>* user_env env'" using seg_step.Lcall [OF p e(1)] by blast
  have "protected_mode env'" by (simp add: protected_mode_def e)
  from cpl_mirrors_cs [OF flat_quiet run start this] e run show ?thesis by (auto simp: user_env_def demo)
qed

end
