(* ===== verification/TcgOps.thy ===== *)
theory TcgOps
  imports VxPrelude "HOL-Library.Monad_Syntax"
begin

text \<open>
  The intermediate code of the translator (\<open>tcg/tcg-opc.h\<close>, \<open>tcg/tcg.h\<close>) on a 64-bit host: opcodes, the
  numbers of arguments of each (\<open>TCGOpDef\<close>), comparison conditions. The opcodes that exist for both widths
  and that \<open>CASE_OP_32_64\<close> treats alike carry the width; binary and unary arithmetic and the loads and stores are
  grouped. \<open>ext32s\<close>, \<open>ext32u\<close> and \<open>bswap64\<close> exist with 64-bit operands only.
\<close>

datatype tcg_type = TCG_TYPE_I32 | TCG_TYPE_I64

datatype tcg_bin = Add | Sub | Mul | Div | Divu | Rem | Remu | And | Or | Xor | Shl | Shr | Sar | Rotl | Rotr
  | Andc | Orc | Eqv | Nand | Nor

datatype tcg_un = Ext8s | Ext16s | Ext8u | Ext16u | Ext32s | Ext32u | Bswap16 | Bswap32 | Bswap64 | Not | Neg

datatype tcg_mem = Mem8u | Mem8s | Mem16u | Mem16s | Mem32 | Mem32u | Mem32s | Mem64

datatype tcg_opcode = INDEX_op_end | INDEX_op_nop | INDEX_op_nop1 | INDEX_op_nop2 | INDEX_op_nop3 | INDEX_op_nopn
  | INDEX_op_discard | INDEX_op_set_label | INDEX_op_call | INDEX_op_br
  | INDEX_op_mov tcg_type | INDEX_op_movi tcg_type | INDEX_op_setcond tcg_type | INDEX_op_movcond tcg_type
  | INDEX_op_ld tcg_mem tcg_type | INDEX_op_st tcg_mem tcg_type
  | INDEX_op_bin tcg_bin tcg_type | INDEX_op_div2 tcg_type | INDEX_op_divu2 tcg_type
  | INDEX_op_un tcg_un tcg_type | INDEX_op_deposit tcg_type | INDEX_op_brcond tcg_type
  | INDEX_op_add2_i32 | INDEX_op_sub2_i32 | INDEX_op_brcond2_i32 | INDEX_op_mulu2_i32 | INDEX_op_setcond2_i32
  | INDEX_op_debug_insn_start | INDEX_op_exit_tb | INDEX_op_goto_tb
  | INDEX_op_qemu_ld tcg_mem | INDEX_op_qemu_st tcg_mem

text \<open>The columns \<open>oargs\<close>, \<open>iargs\<close>, \<open>cargs\<close> of \<open>tcg-opc.h\<close>; those of \<open>call\<close> and \<open>nopn\<close> are not their real ones.\<close>

fun op_args :: "tcg_opcode \<Rightarrow> nat \<times> nat \<times> nat" where
  "op_args INDEX_op_end = (0, 0, 0)"
| "op_args INDEX_op_nop = (0, 0, 0)"
| "op_args INDEX_op_nop1 = (0, 0, 1)"
| "op_args INDEX_op_nop2 = (0, 0, 2)"
| "op_args INDEX_op_nop3 = (0, 0, 3)"
| "op_args INDEX_op_nopn = (0, 0, 1)"
| "op_args INDEX_op_discard = (1, 0, 0)"
| "op_args INDEX_op_set_label = (0, 0, 1)"
| "op_args INDEX_op_call = (0, 1, 2)"
| "op_args INDEX_op_br = (0, 0, 1)"
| "op_args (INDEX_op_mov _) = (1, 1, 0)"
| "op_args (INDEX_op_movi _) = (1, 0, 1)"
| "op_args (INDEX_op_setcond _) = (1, 2, 1)"
| "op_args (INDEX_op_movcond _) = (1, 4, 1)"
| "op_args (INDEX_op_ld _ _) = (1, 1, 1)"
| "op_args (INDEX_op_st _ _) = (0, 2, 1)"
| "op_args (INDEX_op_bin _ _) = (1, 2, 0)"
| "op_args (INDEX_op_div2 _) = (2, 3, 0)"
| "op_args (INDEX_op_divu2 _) = (2, 3, 0)"
| "op_args (INDEX_op_un _ _) = (1, 1, 0)"
| "op_args (INDEX_op_deposit _) = (1, 2, 2)"
| "op_args (INDEX_op_brcond _) = (0, 2, 2)"
| "op_args INDEX_op_add2_i32 = (2, 4, 0)"
| "op_args INDEX_op_sub2_i32 = (2, 4, 0)"
| "op_args INDEX_op_brcond2_i32 = (0, 4, 2)"
| "op_args INDEX_op_mulu2_i32 = (2, 2, 0)"
| "op_args INDEX_op_setcond2_i32 = (1, 4, 1)"
| "op_args INDEX_op_debug_insn_start = (0, 0, 1)"
| "op_args INDEX_op_exit_tb = (0, 0, 1)"
| "op_args INDEX_op_goto_tb = (0, 0, 1)"
| "op_args (INDEX_op_qemu_ld _) = (1, 1, 1)"
| "op_args (INDEX_op_qemu_st _) = (0, 2, 1)"

definition nb_oargs :: "tcg_opcode \<Rightarrow> nat" where "nb_oargs op = fst (op_args op)"
definition nb_iargs :: "tcg_opcode \<Rightarrow> nat" where "nb_iargs op = fst (snd (op_args op))"
definition nb_cargs :: "tcg_opcode \<Rightarrow> nat" where "nb_cargs op = snd (snd (op_args op))"
definition nb_args :: "tcg_opcode \<Rightarrow> nat" where "nb_args op = nb_oargs op + nb_iargs op + nb_cargs op"

text \<open>\<open>TCG_OPF_BB_END\<close> and \<open>TCG_OPF_64BIT\<close>.\<close>

fun op_bb_end :: "tcg_opcode \<Rightarrow> bool" where
  "op_bb_end INDEX_op_set_label = True"
| "op_bb_end INDEX_op_br = True"
| "op_bb_end (INDEX_op_brcond _) = True"
| "op_bb_end INDEX_op_brcond2_i32 = True"
| "op_bb_end INDEX_op_exit_tb = True"
| "op_bb_end INDEX_op_goto_tb = True"
| "op_bb_end _ = False"

fun op_64bit :: "tcg_opcode \<Rightarrow> bool" where
  "op_64bit (INDEX_op_mov w) = (w = TCG_TYPE_I64)"
| "op_64bit (INDEX_op_movi w) = (w = TCG_TYPE_I64)"
| "op_64bit (INDEX_op_setcond w) = (w = TCG_TYPE_I64)"
| "op_64bit (INDEX_op_movcond w) = (w = TCG_TYPE_I64)"
| "op_64bit (INDEX_op_ld _ w) = (w = TCG_TYPE_I64)"
| "op_64bit (INDEX_op_st _ w) = (w = TCG_TYPE_I64)"
| "op_64bit (INDEX_op_bin _ w) = (w = TCG_TYPE_I64)"
| "op_64bit (INDEX_op_div2 w) = (w = TCG_TYPE_I64)"
| "op_64bit (INDEX_op_divu2 w) = (w = TCG_TYPE_I64)"
| "op_64bit (INDEX_op_un _ w) = (w = TCG_TYPE_I64)"
| "op_64bit (INDEX_op_deposit w) = (w = TCG_TYPE_I64)"
| "op_64bit (INDEX_op_brcond w) = (w = TCG_TYPE_I64)"
| "op_64bit _ = False"

text \<open>The arguments an operation takes from the buffer; \<open>call\<close> packs its counts into its first argument.\<close>

definition call_oargs :: "u64 \<Rightarrow> nat" where "call_oargs n = unat (drop_bit 16 n)"
definition call_iargs :: "u64 \<Rightarrow> nat" where "call_iargs n = unat (n AND 0xffff)"

definition args_taken :: "tcg_opcode \<Rightarrow> u64 list \<Rightarrow> nat" where
  "args_taken op args = (if op = INDEX_op_call then call_oargs (args ! 0) + call_iargs (args ! 0) + 3 else nb_args op)"

text \<open>The part of \<open>TCGContext\<close> the optimizer and the semantics read.\<close>

record tcg_context =
  nb_globals :: nat
  nb_temps :: nat
  temp_type :: "nat \<Rightarrow> tcg_type"
  temp_local :: "nat \<Rightarrow> bool"

subsection \<open>Conditions\<close>

abbreviation (input) TCG_COND_EQ :: u64 where "TCG_COND_EQ \<equiv> 8"
abbreviation (input) TCG_COND_NE :: u64 where "TCG_COND_NE \<equiv> 9"
abbreviation (input) TCG_COND_LT :: u64 where "TCG_COND_LT \<equiv> 2"
abbreviation (input) TCG_COND_GE :: u64 where "TCG_COND_GE \<equiv> 3"
abbreviation (input) TCG_COND_LE :: u64 where "TCG_COND_LE \<equiv> 10"
abbreviation (input) TCG_COND_GT :: u64 where "TCG_COND_GT \<equiv> 11"
abbreviation (input) TCG_COND_LTU :: u64 where "TCG_COND_LTU \<equiv> 4"
abbreviation (input) TCG_COND_GEU :: u64 where "TCG_COND_GEU \<equiv> 5"
abbreviation (input) TCG_COND_LEU :: u64 where "TCG_COND_LEU \<equiv> 12"
abbreviation (input) TCG_COND_GTU :: u64 where "TCG_COND_GTU \<equiv> 13"

definition tcg_invert_cond :: "u64 \<Rightarrow> u64" where
  "tcg_invert_cond c = c XOR 1"

definition tcg_swap_cond :: "u64 \<Rightarrow> u64" where
  "tcg_swap_cond c = (if c AND 6 \<noteq> 0 then c XOR 9 else c)"

end
