(* ===== verification/TcgOptimize.thy ===== *)
theory TcgOptimize
  imports TcgOps
begin

text \<open>
  \<open>tcg/optimize.c\<close>: constant folding and copy propagation on the intermediate code, one pass from front to back. The
  body of the loop of \<open>tcg_constant_folding\<close> is cut where the source has its comments: each part either finishes
  the operation (\<open>Continue\<close>, the source's \<open>continue\<close> or the end of the body) or leaves it to the next (\<open>Proceed\<close>). A
  part gives the new state of the temporaries, what replaces the opcode (two opcodes where the source also takes
  the nop that follows) and the arguments it writes. \<open>None\<close> stands for \<open>tcg_abort\<close>, a failed \<open>assert\<close> and a walk along
  copies that does not come back. A shift by the width or more, which C leaves undefined, is the host's: x86
  takes the count modulo the width. The source writes the new arguments into the buffer it reads, never past
  the place it reads from; here they are lists of their own.
\<close>

datatype tcg_temp_state = TCG_TEMP_UNDEF | TCG_TEMP_CONST | TCG_TEMP_COPY

record tcg_temp_info =
  tstate :: tcg_temp_state
  prev_copy :: nat
  next_copy :: nat
  tval :: u64
  tmask :: u64

type_synonym temp_infos = "nat \<Rightarrow> tcg_temp_info"

subsection \<open>Temporaries\<close>

definition reset_temp :: "temp_infos \<Rightarrow> nat \<Rightarrow> temp_infos" where
  "reset_temp T t =
    (let T = (if tstate (T t) = TCG_TEMP_COPY then
                if prev_copy (T t) = next_copy (T t)
                then T(next_copy (T t) := (T (next_copy (T t)))\<lparr>tstate := TCG_TEMP_UNDEF\<rparr>)
                else let T = T(next_copy (T t) := (T (next_copy (T t)))\<lparr>prev_copy := prev_copy (T t)\<rparr>)
                     in T(prev_copy (T t) := (T (prev_copy (T t)))\<lparr>next_copy := next_copy (T t)\<rparr>)
              else T)
     in T(t := (T t)\<lparr>tstate := TCG_TEMP_UNDEF, tmask := - 1\<rparr>))"

definition reset_all_temps :: "nat \<Rightarrow> temp_infos \<Rightarrow> temp_infos" where
  "reset_all_temps n T = (\<lambda>i. if i < n then (T i)\<lparr>tstate := TCG_TEMP_UNDEF, tmask := - 1\<rparr> else T i)"

definition op_type :: "tcg_opcode \<Rightarrow> tcg_type" where
  "op_type op = (if op_64bit op then TCG_TYPE_I64 else TCG_TYPE_I32)"

definition op_to_movi :: "tcg_opcode \<Rightarrow> tcg_opcode" where "op_to_movi op = INDEX_op_movi (op_type op)"
definition op_to_mov :: "tcg_opcode \<Rightarrow> tcg_opcode" where "op_to_mov op = INDEX_op_mov (op_type op)"

text \<open>The loop over the copies of \<open>stop\<close> from \<open>i\<close> on, to the first with the property \<open>P\<close>.\<close>

partial_function (option) find_copy :: "(nat \<Rightarrow> bool) \<Rightarrow> temp_infos \<Rightarrow> nat \<Rightarrow> nat \<Rightarrow> nat option option" where
  "find_copy P T stop i =
    (if i = stop then Some None else if P i then Some (Some i) else find_copy P T stop (next_copy (T i)))"

lemmas find_copy_code [code] = find_copy.simps

definition find_better_copy :: "tcg_context \<Rightarrow> temp_infos \<Rightarrow> nat \<Rightarrow> nat option" where
  "find_better_copy s T t =
    (if t < nb_globals s then Some t
     else Option.bind (find_copy (\<lambda>i. i < nb_globals s) T t (next_copy (T t)))
       (\<lambda>r. case r of Some i \<Rightarrow> Some i
          | None \<Rightarrow>
              if \<not> temp_local s t then
                Option.bind (find_copy (temp_local s) T t (next_copy (T t)))
                  (\<lambda>r. Some (case r of Some i \<Rightarrow> i | None \<Rightarrow> t))
              else Some t))"

definition temps_are_copies :: "temp_infos \<Rightarrow> u64 \<Rightarrow> u64 \<Rightarrow> bool option" where
  "temps_are_copies T x y =
    (if x = y then Some True
     else if tstate (T (unat x)) \<noteq> TCG_TEMP_COPY \<or> tstate (T (unat y)) \<noteq> TCG_TEMP_COPY then Some False
     else Option.bind (find_copy (\<lambda>i. i = unat y) T (unat x) (next_copy (T (unat x)))) (\<lambda>r. Some (r \<noteq> None)))"

definition tcg_opt_gen_mov :: "tcg_context \<Rightarrow> temp_infos \<Rightarrow> u64 \<Rightarrow> u64 \<Rightarrow> (temp_infos \<times> u64 list) option" where
  "tcg_opt_gen_mov s T dst src =
    (let d = unat dst; r = unat src;
         T = reset_temp T d;
         T = T(d := (T d)\<lparr>tmask := tmask (T r)\<rparr>)
     in if tstate (T r) = TCG_TEMP_CONST then None
        else let T = (if temp_type s r = temp_type s d then
                        let T = (if tstate (T r) \<noteq> TCG_TEMP_COPY
                                 then T(r := (T r)\<lparr>tstate := TCG_TEMP_COPY, next_copy := r, prev_copy := r\<rparr>) else T);
                            T = T(d := (T d)\<lparr>tstate := TCG_TEMP_COPY, next_copy := next_copy (T r), prev_copy := r\<rparr>);
                            n = next_copy (T d);
                            T = T(n := (T n)\<lparr>prev_copy := d\<rparr>)
                        in T(r := (T r)\<lparr>next_copy := d\<rparr>)
                      else T)
             in Some (T, [dst, src]))"

definition tcg_opt_gen_movi :: "temp_infos \<Rightarrow> u64 \<Rightarrow> u64 \<Rightarrow> temp_infos \<times> u64 list" where
  "tcg_opt_gen_movi T dst val =
    (let d = unat dst; T = reset_temp T d
     in (T(d := (T d)\<lparr>tstate := TCG_TEMP_CONST, tval := val, tmask := val\<rparr>), [dst, val]))"

subsection \<open>Folding\<close>

definition hshl :: "'a::len word \<Rightarrow> 'b::len word \<Rightarrow> 'a word" where
  "hshl x n = push_bit (unat n mod LENGTH('a)) x"

definition hshr :: "'a::len word \<Rightarrow> 'b::len word \<Rightarrow> 'a word" where
  "hshr x n = drop_bit (unat n mod LENGTH('a)) x"

definition hsar :: "'a::len word \<Rightarrow> 'b::len word \<Rightarrow> 'a word" where
  "hsar x n = signed_drop_bit (unat n mod LENGTH('a)) x"

definition do_constant_folding_2 :: "tcg_opcode \<Rightarrow> u64 \<Rightarrow> u64 \<Rightarrow> u64 option" where
  "do_constant_folding_2 op x y =
    (let x32 = ucast x :: u32
     in case op of
       INDEX_op_bin Add _ \<Rightarrow> Some (x + y)
     | INDEX_op_bin Sub _ \<Rightarrow> Some (x - y)
     | INDEX_op_bin Mul _ \<Rightarrow> Some (x * y)
     | INDEX_op_bin And _ \<Rightarrow> Some (x AND y)
     | INDEX_op_bin Or _ \<Rightarrow> Some (x OR y)
     | INDEX_op_bin Xor _ \<Rightarrow> Some (x XOR y)
     | INDEX_op_bin Shl TCG_TYPE_I32 \<Rightarrow> Some (ucast (hshl x32 (ucast y :: u32)))
     | INDEX_op_bin Shl TCG_TYPE_I64 \<Rightarrow> Some (hshl x y)
     | INDEX_op_bin Shr TCG_TYPE_I32 \<Rightarrow> Some (ucast (hshr x32 (ucast y :: u32)))
     | INDEX_op_bin Shr TCG_TYPE_I64 \<Rightarrow> Some (hshr x y)
     | INDEX_op_bin Sar TCG_TYPE_I32 \<Rightarrow> Some (scast (hsar x32 (ucast y :: u32)))
     | INDEX_op_bin Sar TCG_TYPE_I64 \<Rightarrow> Some (hsar x y)
     | INDEX_op_bin Rotr TCG_TYPE_I32 \<Rightarrow> Some (ucast (hshl x32 (32 - y) OR hshr x32 y))
     | INDEX_op_bin Rotr TCG_TYPE_I64 \<Rightarrow> Some (hshl x (64 - y) OR hshr x y)
     | INDEX_op_bin Rotl TCG_TYPE_I32 \<Rightarrow> Some (ucast (hshl x32 y OR hshr x32 (32 - y)))
     | INDEX_op_bin Rotl TCG_TYPE_I64 \<Rightarrow> Some (hshl x y OR hshr x (64 - y))
     | INDEX_op_un Not _ \<Rightarrow> Some (NOT x)
     | INDEX_op_un Neg _ \<Rightarrow> Some (- x)
     | INDEX_op_bin Andc _ \<Rightarrow> Some (x AND NOT y)
     | INDEX_op_bin Orc _ \<Rightarrow> Some (x OR NOT y)
     | INDEX_op_bin Eqv _ \<Rightarrow> Some (NOT (x XOR y))
     | INDEX_op_bin Nand _ \<Rightarrow> Some (NOT (x AND y))
     | INDEX_op_bin Nor _ \<Rightarrow> Some (NOT (x OR y))
     | INDEX_op_un Ext8s _ \<Rightarrow> Some (scast (ucast x :: u8))
     | INDEX_op_un Ext16s _ \<Rightarrow> Some (scast (ucast x :: u16))
     | INDEX_op_un Ext8u _ \<Rightarrow> Some (ucast (ucast x :: u8))
     | INDEX_op_un Ext16u _ \<Rightarrow> Some (ucast (ucast x :: u16))
     | INDEX_op_un Ext32s TCG_TYPE_I64 \<Rightarrow> Some (scast x32)
     | INDEX_op_un Ext32u TCG_TYPE_I64 \<Rightarrow> Some (ucast x32)
     | _ \<Rightarrow> None)"

definition do_constant_folding :: "tcg_opcode \<Rightarrow> u64 \<Rightarrow> u64 \<Rightarrow> u64 option" where
  "do_constant_folding op x y =
    Option.bind (do_constant_folding_2 op x y)
      (\<lambda>res. Some (if op_type op = TCG_TYPE_I32 then res AND 0xffffffff else res))"

definition do_constant_folding_cond_32 :: "u32 \<Rightarrow> u32 \<Rightarrow> u64 \<Rightarrow> bool option" where
  "do_constant_folding_cond_32 x y c =
    (if c = TCG_COND_EQ then Some (x = y)
     else if c = TCG_COND_NE then Some (x \<noteq> y)
     else if c = TCG_COND_LT then Some (x <s y)
     else if c = TCG_COND_GE then Some (y \<le>s x)
     else if c = TCG_COND_LE then Some (x \<le>s y)
     else if c = TCG_COND_GT then Some (y <s x)
     else if c = TCG_COND_LTU then Some (x < y)
     else if c = TCG_COND_GEU then Some (x \<ge> y)
     else if c = TCG_COND_LEU then Some (x \<le> y)
     else if c = TCG_COND_GTU then Some (x > y)
     else None)"

definition do_constant_folding_cond_64 :: "u64 \<Rightarrow> u64 \<Rightarrow> u64 \<Rightarrow> bool option" where
  "do_constant_folding_cond_64 x y c =
    (if c = TCG_COND_EQ then Some (x = y)
     else if c = TCG_COND_NE then Some (x \<noteq> y)
     else if c = TCG_COND_LT then Some (x <s y)
     else if c = TCG_COND_GE then Some (y \<le>s x)
     else if c = TCG_COND_LE then Some (x \<le>s y)
     else if c = TCG_COND_GT then Some (y <s x)
     else if c = TCG_COND_LTU then Some (x < y)
     else if c = TCG_COND_GEU then Some (x \<ge> y)
     else if c = TCG_COND_LEU then Some (x \<le> y)
     else if c = TCG_COND_GTU then Some (x > y)
     else None)"

definition do_constant_folding_cond_eq :: "u64 \<Rightarrow> bool option" where
  "do_constant_folding_cond_eq c =
    (if c \<in> {TCG_COND_GT, TCG_COND_LTU, TCG_COND_LT, TCG_COND_GTU, TCG_COND_NE} then Some False
     else if c \<in> {TCG_COND_GE, TCG_COND_GEU, TCG_COND_LE, TCG_COND_LEU, TCG_COND_EQ} then Some True
     else None)"

definition is_const :: "temp_infos \<Rightarrow> u64 \<Rightarrow> bool" where
  "is_const T x \<longleftrightarrow> tstate (T (unat x)) = TCG_TEMP_CONST"

definition val_of :: "temp_infos \<Rightarrow> u64 \<Rightarrow> u64" where "val_of T x = tval (T (unat x))"
definition mask_of :: "temp_infos \<Rightarrow> u64 \<Rightarrow> u64" where "mask_of T x = tmask (T (unat x))"

text \<open>The result 2 of the source is \<open>Some None\<close>.\<close>

definition do_constant_folding_cond :: "temp_infos \<Rightarrow> tcg_opcode \<Rightarrow> u64 \<Rightarrow> u64 \<Rightarrow> u64 \<Rightarrow> bool option option" where
  "do_constant_folding_cond T op x y c =
    (if is_const T x \<and> is_const T y then
       (case op_type op of
          TCG_TYPE_I32 \<Rightarrow> map_option Some (do_constant_folding_cond_32 (ucast (val_of T x)) (ucast (val_of T y)) c)
        | TCG_TYPE_I64 \<Rightarrow> map_option Some (do_constant_folding_cond_64 (val_of T x) (val_of T y) c))
     else Option.bind (temps_are_copies T x y)
       (\<lambda>same. if same then map_option Some (do_constant_folding_cond_eq c)
          else if is_const T y \<and> val_of T y = 0 then
            Some (if c = TCG_COND_LTU then Some False else if c = TCG_COND_GEU then Some True else None)
          else Some None))"

definition join32 :: "u64 \<Rightarrow> u64 \<Rightarrow> u64" where
  "join32 h l = push_bit 32 h OR ucast (ucast l :: u32)"

definition do_constant_folding_cond2 ::
    "temp_infos \<Rightarrow> u64 \<Rightarrow> u64 \<Rightarrow> u64 \<Rightarrow> u64 \<Rightarrow> u64 \<Rightarrow> bool option option" where
  "do_constant_folding_cond2 T al ah bl bh c =
    (let b = join32 (val_of T bh) (val_of T bl);
         rest = Option.bind (temps_are_copies T al bl) (\<lambda>l.
                  Option.bind (if l then temps_are_copies T ah bh else Some False) (\<lambda>h.
                    if h then map_option Some (do_constant_folding_cond_eq c) else Some None))
     in if is_const T bl \<and> is_const T bh then
          if is_const T al \<and> is_const T ah then
            map_option Some (do_constant_folding_cond_64 (join32 (val_of T ah) (val_of T al)) b c)
          else if b = 0 \<and> c = TCG_COND_LTU then Some (Some False)
          else if b = 0 \<and> c = TCG_COND_GEU then Some (Some True)
          else rest
        else rest)"

subsection \<open>Arguments\<close>

definition swap_commutative :: "temp_infos \<Rightarrow> u64 \<Rightarrow> u64 \<Rightarrow> u64 \<Rightarrow> bool" where
  "swap_commutative T dest a1 a2 =
    (let sum = (of_bool (is_const T a1) - of_bool (is_const T a2) :: int) in sum > 0 \<or> sum = 0 \<and> dest = a2)"

definition swap_commutative2 :: "temp_infos \<Rightarrow> u64 \<Rightarrow> u64 \<Rightarrow> u64 \<Rightarrow> u64 \<Rightarrow> bool" where
  "swap_commutative2 T p10 p11 p20 p21 =
    (let sum = (of_bool (is_const T p10) + of_bool (is_const T p11) - of_bool (is_const T p20)
       - of_bool (is_const T p21) :: int) in sum > 0)"

definition swap_args :: "nat \<Rightarrow> nat \<Rightarrow> u64 list \<Rightarrow> u64 list" where
  "swap_args i j a = a[i := a ! j, j := a ! i]"

text \<open>Copy propagation of the arguments at places \<open>i\<close> to \<open>j - 1\<close>.\<close>

fun copy_args :: "tcg_context \<Rightarrow> temp_infos \<Rightarrow> nat \<Rightarrow> nat \<Rightarrow> u64 list \<Rightarrow> u64 list option" where
  "copy_args s T i 0 a = Some a"
| "copy_args s T i (Suc n) a =
    (if tstate (T (unat (a ! i))) = TCG_TEMP_COPY
     then Option.bind (find_better_copy s T (unat (a ! i))) (\<lambda>b. copy_args s T (Suc i) n (a[i := of_nat b]))
     else copy_args s T (Suc i) n a)"

definition copy_propagate :: "tcg_context \<Rightarrow> temp_infos \<Rightarrow> tcg_opcode \<Rightarrow> u64 list \<Rightarrow> u64 list option" where
  "copy_propagate s T op a =
    (if op = INDEX_op_call then copy_args s T (call_oargs (a ! 0) + 1) (call_iargs (a ! 0)) a
     else copy_args s T (nb_oargs op) (nb_iargs op) a)"

definition swap_if :: "bool \<Rightarrow> nat \<Rightarrow> nat \<Rightarrow> u64 list \<Rightarrow> u64 list" where
  "swap_if b i j a = (if b then swap_args i j a else a)"

definition cond_if :: "bool \<Rightarrow> nat \<Rightarrow> (u64 \<Rightarrow> u64) \<Rightarrow> u64 list \<Rightarrow> u64 list" where
  "cond_if b i f a = (if b then a[i := f (a ! i)] else a)"

text \<open>For commutative operations make the constant the second argument.\<close>

definition commute :: "temp_infos \<Rightarrow> tcg_opcode \<Rightarrow> u64 list \<Rightarrow> u64 list" where
  "commute T op a =
    (case op of
       INDEX_op_bin b _ \<Rightarrow>
         if b \<in> {Add, Mul, And, Or, Xor, Eqv, Nand, Nor} then swap_if (swap_commutative T (a ! 0) (a ! 1) (a ! 2)) 1 2 a
         else a
     | INDEX_op_brcond _ \<Rightarrow>
         (let b = swap_commutative T (- 1) (a ! 0) (a ! 1) in cond_if b 2 tcg_swap_cond (swap_if b 0 1 a))
     | INDEX_op_setcond _ \<Rightarrow>
         (let b = swap_commutative T (a ! 0) (a ! 1) (a ! 2) in cond_if b 3 tcg_swap_cond (swap_if b 1 2 a))
     | INDEX_op_movcond _ \<Rightarrow>
         (let b = swap_commutative T (- 1) (a ! 1) (a ! 2);
              a = cond_if b 5 tcg_swap_cond (swap_if b 1 2 a);
              b = swap_commutative T (a ! 0) (a ! 4) (a ! 3)
          in cond_if b 5 tcg_invert_cond (swap_if b 4 3 a))
     | INDEX_op_add2_i32 \<Rightarrow>
         (let a = swap_if (swap_commutative T (a ! 0) (a ! 2) (a ! 4)) 2 4 a
          in swap_if (swap_commutative T (a ! 1) (a ! 3) (a ! 5)) 3 5 a)
     | INDEX_op_mulu2_i32 \<Rightarrow> swap_if (swap_commutative T (a ! 0) (a ! 2) (a ! 3)) 2 3 a
     | INDEX_op_brcond2_i32 \<Rightarrow>
         (let b = swap_commutative2 T (a ! 0) (a ! 1) (a ! 2) (a ! 3)
          in cond_if b 4 tcg_swap_cond (swap_if b 1 3 (swap_if b 0 2 a)))
     | INDEX_op_setcond2_i32 \<Rightarrow>
         (let b = swap_commutative2 T (a ! 1) (a ! 2) (a ! 3) (a ! 4)
          in cond_if b 5 tcg_swap_cond (swap_if b 2 4 (swap_if b 1 3 a)))
     | _ \<Rightarrow> a)"

subsection \<open>Simplifications\<close>

type_synonym folded = "temp_infos \<times> tcg_opcode list \<times> u64 list"

datatype stage = Continue folded | Proceed

definition emit_movi :: "temp_infos \<Rightarrow> tcg_opcode \<Rightarrow> u64 \<Rightarrow> u64 \<Rightarrow> folded" where
  "emit_movi T op dst v = (let (T, g) = tcg_opt_gen_movi T dst v in (T, [op_to_movi op], g))"

definition emit_mov :: "tcg_context \<Rightarrow> temp_infos \<Rightarrow> tcg_opcode \<Rightarrow> u64 \<Rightarrow> u64 \<Rightarrow> folded option" where
  "emit_mov s T op dst src = map_option (\<lambda>(T, g). (T, [op_to_mov op], g)) (tcg_opt_gen_mov s T dst src)"

text \<open>A move that is dropped when the source is already a copy of the destination.\<close>

definition emit_copy :: "tcg_context \<Rightarrow> temp_infos \<Rightarrow> tcg_opcode \<Rightarrow> u64 \<Rightarrow> u64 \<Rightarrow> folded option" where
  "emit_copy s T op dst src =
    Option.bind (temps_are_copies T dst src)
      (\<lambda>same. if same then Some (T, [INDEX_op_nop], []) else emit_mov s T op dst src)"

definition simplify_shift_zero :: "temp_infos \<Rightarrow> tcg_opcode \<Rightarrow> u64 list \<Rightarrow> stage" where
  "simplify_shift_zero T op a =
    (case op of
       INDEX_op_bin b _ \<Rightarrow>
         if b \<in> {Shl, Shr, Sar, Rotl, Rotr} \<and> is_const T (a ! 1) \<and> val_of T (a ! 1) = 0
         then Continue (emit_movi T op (a ! 0) 0) else Proceed
     | _ \<Rightarrow> Proceed)"

definition simplify_zero_right :: "tcg_context \<Rightarrow> temp_infos \<Rightarrow> tcg_opcode \<Rightarrow> u64 list \<Rightarrow> stage option" where
  "simplify_zero_right s T op a =
    (case op of
       INDEX_op_bin b _ \<Rightarrow>
         if b \<in> {Add, Sub, Shl, Shr, Sar, Rotl, Rotr, Or, Xor} \<and> \<not> is_const T (a ! 1)
            \<and> is_const T (a ! 2) \<and> val_of T (a ! 2) = 0
         then map_option Continue (emit_copy s T op (a ! 0) (a ! 1)) else Some Proceed
     | _ \<Rightarrow> Some Proceed)"

text \<open>The bits of the result that may be set, and the bits of the operand the operation may clear.\<close>

definition and_const :: "u64 \<Rightarrow> u64 \<Rightarrow> u64 \<times> u64" where
  "and_const m msk = (m AND msk, m AND NOT msk)"

definition field_mask :: "u64 \<Rightarrow> u64" where
  "field_mask len = hshl 1 len - 1"

definition known_bits :: "temp_infos \<Rightarrow> tcg_opcode \<Rightarrow> u64 list \<Rightarrow> u64 \<times> u64" where
  "known_bits T op a =
    (let m = (\<lambda>i. mask_of T (a ! i)); c = (\<lambda>i. is_const T (a ! i)); v = (\<lambda>i. val_of T (a ! i))
     in case op of
       INDEX_op_un Ext8s _ \<Rightarrow> if m 1 AND 0x80 \<noteq> 0 then (- 1, - 1) else and_const (m 1) 0xff
     | INDEX_op_un Ext8u _ \<Rightarrow> and_const (m 1) 0xff
     | INDEX_op_un Ext16s _ \<Rightarrow> if m 1 AND 0x8000 \<noteq> 0 then (- 1, - 1) else and_const (m 1) 0xffff
     | INDEX_op_un Ext16u _ \<Rightarrow> and_const (m 1) 0xffff
     | INDEX_op_un Ext32s TCG_TYPE_I64 \<Rightarrow> if m 1 AND 0x80000000 \<noteq> 0 then (- 1, - 1) else and_const (m 1) 0xffffffff
     | INDEX_op_un Ext32u TCG_TYPE_I64 \<Rightarrow> and_const (m 1) 0xffffffff
     | INDEX_op_bin And _ \<Rightarrow> if c 2 then and_const (m 1) (m 2) else (m 1 AND m 2, - 1)
     | INDEX_op_bin Sar _ \<Rightarrow> (if c 2 then hsar (m 1) (v 2) else - 1, - 1)
     | INDEX_op_bin Shr _ \<Rightarrow> (if c 2 then hshr (m 1) (v 2) else - 1, - 1)
     | INDEX_op_bin Shl _ \<Rightarrow> (if c 2 then hshl (m 1) (v 2) else - 1, - 1)
     | INDEX_op_un Neg _ \<Rightarrow> (- (m 1 AND - m 1), - 1)
     | INDEX_op_deposit _ \<Rightarrow>
         (let t = field_mask (a ! 4) in ((m 1 AND NOT (hshl t (a ! 3))) OR hshl (m 2 AND t) (a ! 3), - 1))
     | INDEX_op_bin Or _ \<Rightarrow> (m 1 OR m 2, - 1)
     | INDEX_op_bin Xor _ \<Rightarrow> (m 1 OR m 2, - 1)
     | INDEX_op_setcond _ \<Rightarrow> (1, - 1)
     | INDEX_op_movcond _ \<Rightarrow> (m 3 OR m 4, - 1)
     | _ \<Rightarrow> (- 1, - 1))"

definition simplify_known_bits :: "tcg_context \<Rightarrow> temp_infos \<Rightarrow> tcg_opcode \<Rightarrow> u64 list \<Rightarrow> stage option" where
  "simplify_known_bits s T op a =
    (let (msk, affected) = known_bits T op a
     in if msk = 0 then
          if nb_oargs op = 1 then Some (Continue (emit_movi T op (a ! 0) 0)) else None
        else if affected = 0 then
          if nb_oargs op \<noteq> 1 then None
          else Option.bind (temps_are_copies T (a ! 0) (a ! 1)) (\<lambda>same.
            if same then Some (Continue (T, [INDEX_op_nop], []))
            else if \<not> is_const T (a ! 1) then map_option Continue (emit_mov s T op (a ! 0) (a ! 1))
            else Some (Continue (emit_movi T op (a ! 0) (val_of T (a ! 1)))))
        else Some Proceed)"

definition simplify_zero_product :: "temp_infos \<Rightarrow> tcg_opcode \<Rightarrow> u64 list \<Rightarrow> stage" where
  "simplify_zero_product T op a =
    (case op of
       INDEX_op_bin b _ \<Rightarrow>
         if b \<in> {And, Mul} \<and> is_const T (a ! 2) \<and> val_of T (a ! 2) = 0
         then Continue (emit_movi T op (a ! 0) 0) else Proceed
     | _ \<Rightarrow> Proceed)"

definition simplify_same_idempotent :: "tcg_context \<Rightarrow> temp_infos \<Rightarrow> tcg_opcode \<Rightarrow> u64 list \<Rightarrow> stage option" where
  "simplify_same_idempotent s T op a =
    (case op of
       INDEX_op_bin b _ \<Rightarrow>
         if b \<in> {Or, And} then
           Option.bind (temps_are_copies T (a ! 1) (a ! 2)) (\<lambda>same.
             if same then map_option Continue (emit_copy s T op (a ! 0) (a ! 1)) else Some Proceed)
         else Some Proceed
     | _ \<Rightarrow> Some Proceed)"

definition simplify_same_cancel :: "temp_infos \<Rightarrow> tcg_opcode \<Rightarrow> u64 list \<Rightarrow> stage option" where
  "simplify_same_cancel T op a =
    (case op of
       INDEX_op_bin b _ \<Rightarrow>
         if b \<in> {Sub, Xor} then
           Option.bind (temps_are_copies T (a ! 1) (a ! 2)) (\<lambda>same.
             Some (if same then Continue (emit_movi T op (a ! 0) 0) else Proceed))
         else Some Proceed
     | _ \<Rightarrow> Some Proceed)"

subsection \<open>Folding of one operation\<close>

fun reset_temps :: "u64 list \<Rightarrow> temp_infos \<Rightarrow> temp_infos" where
  "reset_temps [] T = T"
| "reset_temps (x # xs) T = reset_temps xs (reset_temp T (unat x))"

definition do_default :: "tcg_context \<Rightarrow> temp_infos \<Rightarrow> tcg_opcode \<Rightarrow> u64 list \<Rightarrow> folded" where
  "do_default s T op a =
    (let T = (if op_bb_end op then reset_all_temps (nb_temps s) T else reset_temps (take (nb_oargs op) a) T)
     in (T, [op], take (nb_args op) a))"

definition fold_mov :: "tcg_context \<Rightarrow> temp_infos \<Rightarrow> tcg_opcode \<Rightarrow> u64 list \<Rightarrow> folded option" where
  "fold_mov s T op a =
    Option.bind (temps_are_copies T (a ! 0) (a ! 1)) (\<lambda>same.
      if same then Some (T, [INDEX_op_nop], [])
      else if \<not> is_const T (a ! 1) then
        map_option (\<lambda>(T, g). (T, [op], g)) (tcg_opt_gen_mov s T (a ! 0) (a ! 1))
      else let op = op_to_movi op; (T, g) = tcg_opt_gen_movi T (a ! 0) (val_of T (a ! 1)) in Some (T, [op], g))"

definition fold_unary :: "tcg_context \<Rightarrow> temp_infos \<Rightarrow> tcg_opcode \<Rightarrow> u64 list \<Rightarrow> folded option" where
  "fold_unary s T op a =
    (if is_const T (a ! 1)
     then Option.bind (do_constant_folding op (val_of T (a ! 1)) 0) (\<lambda>tmp. Some (emit_movi T op (a ! 0) tmp))
     else Some (do_default s T op a))"

definition fold_binary :: "tcg_context \<Rightarrow> temp_infos \<Rightarrow> tcg_opcode \<Rightarrow> u64 list \<Rightarrow> folded option" where
  "fold_binary s T op a =
    (if is_const T (a ! 1) \<and> is_const T (a ! 2)
     then Option.bind (do_constant_folding op (val_of T (a ! 1)) (val_of T (a ! 2)))
       (\<lambda>tmp. Some (emit_movi T op (a ! 0) tmp))
     else Some (do_default s T op a))"

definition fold_deposit :: "tcg_context \<Rightarrow> temp_infos \<Rightarrow> tcg_opcode \<Rightarrow> u64 list \<Rightarrow> folded option" where
  "fold_deposit s T op a =
    (if is_const T (a ! 1) \<and> is_const T (a ! 2) then
       let tmp = field_mask (a ! 4);
           tmp = (val_of T (a ! 1) AND NOT (hshl tmp (a ! 3))) OR hshl (val_of T (a ! 2) AND tmp) (a ! 3)
       in Some (emit_movi T op (a ! 0) tmp)
     else Some (do_default s T op a))"

definition fold_setcond :: "tcg_context \<Rightarrow> temp_infos \<Rightarrow> tcg_opcode \<Rightarrow> u64 list \<Rightarrow> folded option" where
  "fold_setcond s T op a =
    Option.bind (do_constant_folding_cond T op (a ! 1) (a ! 2) (a ! 3)) (\<lambda>tmp.
      case tmp of Some b \<Rightarrow> Some (emit_movi T op (a ! 0) (of_bool b)) | None \<Rightarrow> Some (do_default s T op a))"

definition fold_brcond :: "tcg_context \<Rightarrow> temp_infos \<Rightarrow> tcg_opcode \<Rightarrow> u64 list \<Rightarrow> folded option" where
  "fold_brcond s T op a =
    Option.bind (do_constant_folding_cond T op (a ! 0) (a ! 1) (a ! 2)) (\<lambda>tmp.
      case tmp of
        Some True \<Rightarrow> Some (reset_all_temps (nb_temps s) T, [INDEX_op_br], [a ! 3])
      | Some False \<Rightarrow> Some (T, [INDEX_op_nop], [])
      | None \<Rightarrow> Some (do_default s T op a))"

definition fold_movcond :: "tcg_context \<Rightarrow> temp_infos \<Rightarrow> tcg_opcode \<Rightarrow> u64 list \<Rightarrow> folded option" where
  "fold_movcond s T op a =
    Option.bind (do_constant_folding_cond T op (a ! 1) (a ! 2) (a ! 5)) (\<lambda>tmp.
      case tmp of
        Some b \<Rightarrow>
          (let v = a ! (4 - (if b then 1 else 0)) in
           Option.bind (temps_are_copies T (a ! 0) v) (\<lambda>same.
             if same then Some (T, [INDEX_op_nop], [])
             else if is_const T v then Some (emit_movi T op (a ! 0) (val_of T v))
             else emit_mov s T op (a ! 0) v))
      | None \<Rightarrow> Some (do_default s T op a))"

text \<open>The two instructions that replace \<open>add2\<close>, \<open>sub2\<close> and \<open>mulu2\<close>; the second takes the place of a \<open>nop\<close>.\<close>

definition emit_pair :: "temp_infos \<Rightarrow> tcg_opcode list \<Rightarrow> u64 \<Rightarrow> u64 \<Rightarrow> u64 \<Rightarrow> folded option" where
  "emit_pair T ops rl rh r =
    (if ops \<noteq> [] \<and> hd ops = INDEX_op_nop then
       let (T, g) = tcg_opt_gen_movi T rl (ucast (ucast r :: u32));
           (T, h) = tcg_opt_gen_movi T rh (ucast (ucast (drop_bit 32 r) :: u32))
       in Some (T, [INDEX_op_movi TCG_TYPE_I32, INDEX_op_movi TCG_TYPE_I32], g @ h)
     else None)"

definition fold_add_sub2 ::
    "tcg_context \<Rightarrow> temp_infos \<Rightarrow> tcg_opcode list \<Rightarrow> tcg_opcode \<Rightarrow> u64 list \<Rightarrow> folded option" where
  "fold_add_sub2 s T ops op a =
    (if is_const T (a ! 2) \<and> is_const T (a ! 3) \<and> is_const T (a ! 4) \<and> is_const T (a ! 5) then
       let x = join32 (ucast (ucast (val_of T (a ! 3)) :: u32)) (val_of T (a ! 2));
           y = join32 (ucast (ucast (val_of T (a ! 5)) :: u32)) (val_of T (a ! 4))
       in emit_pair T ops (a ! 0) (a ! 1) (if op = INDEX_op_add2_i32 then x + y else x - y)
     else Some (do_default s T op a))"

definition fold_mulu2 ::
    "tcg_context \<Rightarrow> temp_infos \<Rightarrow> tcg_opcode list \<Rightarrow> tcg_opcode \<Rightarrow> u64 list \<Rightarrow> folded option" where
  "fold_mulu2 s T ops op a =
    (if is_const T (a ! 2) \<and> is_const T (a ! 3) then
       let x = ucast (ucast (val_of T (a ! 2)) :: u32); y = ucast (ucast (val_of T (a ! 3)) :: u32)
       in emit_pair T ops (a ! 0) (a ! 1) (x * y)
     else Some (do_default s T op a))"

definition zero_pair :: "temp_infos \<Rightarrow> u64 \<Rightarrow> u64 \<Rightarrow> bool" where
  "zero_pair T l h \<longleftrightarrow> is_const T l \<and> is_const T h \<and> val_of T l = 0 \<and> val_of T h = 0"

definition fold_brcond2 :: "tcg_context \<Rightarrow> temp_infos \<Rightarrow> tcg_opcode \<Rightarrow> u64 list \<Rightarrow> folded option" where
  "fold_brcond2 s T op a =
    Option.bind (do_constant_folding_cond2 T (a ! 0) (a ! 1) (a ! 2) (a ! 3) (a ! 4)) (\<lambda>tmp.
      case tmp of
        Some True \<Rightarrow> Some (reset_all_temps (nb_temps s) T, [INDEX_op_br], [a ! 5])
      | Some False \<Rightarrow> Some (T, [INDEX_op_nop], [])
      | None \<Rightarrow>
          if (a ! 4 = TCG_COND_LT \<or> a ! 4 = TCG_COND_GE) \<and> zero_pair T (a ! 2) (a ! 3)
          then Some (reset_all_temps (nb_temps s) T, [INDEX_op_brcond TCG_TYPE_I32], [a ! 1, a ! 3, a ! 4, a ! 5])
          else Some (do_default s T op a))"

definition fold_setcond2 :: "tcg_context \<Rightarrow> temp_infos \<Rightarrow> tcg_opcode \<Rightarrow> u64 list \<Rightarrow> folded option" where
  "fold_setcond2 s T op a =
    Option.bind (do_constant_folding_cond2 T (a ! 1) (a ! 2) (a ! 3) (a ! 4) (a ! 5)) (\<lambda>tmp.
      case tmp of
        Some b \<Rightarrow> let (T, g) = tcg_opt_gen_movi T (a ! 0) (of_bool b) in Some (T, [INDEX_op_movi TCG_TYPE_I32], g)
      | None \<Rightarrow>
          if (a ! 5 = TCG_COND_LT \<or> a ! 5 = TCG_COND_GE) \<and> zero_pair T (a ! 3) (a ! 4)
          then Some (T, [INDEX_op_setcond TCG_TYPE_I32], [a ! 0, a ! 2, a ! 4, a ! 5])
          else Some (do_default s T op a))"

fun reset_globals :: "nat \<Rightarrow> temp_infos \<Rightarrow> temp_infos" where
  "reset_globals 0 T = T"
| "reset_globals (Suc n) T = reset_temp (reset_globals n T) n"

definition fold_call :: "tcg_context \<Rightarrow> temp_infos \<Rightarrow> u64 list \<Rightarrow> folded" where
  "fold_call s T a =
    (let n = call_oargs (a ! 0) + call_iargs (a ! 0);
         T = (if a ! (n + 1) AND 0x30 = 0 then reset_globals (nb_globals s) T else T);
         T = reset_temps (take (call_oargs (a ! 0)) (drop 1 a)) T
     in (T, [INDEX_op_call], take (n + 3) a))"

definition fold_operation ::
    "tcg_context \<Rightarrow> temp_infos \<Rightarrow> tcg_opcode list \<Rightarrow> tcg_opcode \<Rightarrow> u64 list \<Rightarrow> folded option" where
  "fold_operation s T ops op a =
    (case op of
       INDEX_op_mov _ \<Rightarrow> fold_mov s T op a
     | INDEX_op_movi _ \<Rightarrow> let (T, g) = tcg_opt_gen_movi T (a ! 0) (a ! 1) in Some (T, [op], g)
     | INDEX_op_un u w \<Rightarrow>
         if u \<in> {Not, Neg, Ext8s, Ext8u, Ext16s, Ext16u} \<or> u \<in> {Ext32s, Ext32u} \<and> w = TCG_TYPE_I64
         then fold_unary s T op a else Some (do_default s T op a)
     | INDEX_op_bin b _ \<Rightarrow>
         if b \<in> {Div, Divu, Rem, Remu} then Some (do_default s T op a) else fold_binary s T op a
     | INDEX_op_deposit _ \<Rightarrow> fold_deposit s T op a
     | INDEX_op_setcond _ \<Rightarrow> fold_setcond s T op a
     | INDEX_op_brcond _ \<Rightarrow> fold_brcond s T op a
     | INDEX_op_movcond _ \<Rightarrow> fold_movcond s T op a
     | INDEX_op_add2_i32 \<Rightarrow> fold_add_sub2 s T ops op a
     | INDEX_op_sub2_i32 \<Rightarrow> fold_add_sub2 s T ops op a
     | INDEX_op_mulu2_i32 \<Rightarrow> fold_mulu2 s T ops op a
     | INDEX_op_brcond2_i32 \<Rightarrow> fold_brcond2 s T op a
     | INDEX_op_setcond2_i32 \<Rightarrow> fold_setcond2 s T op a
     | INDEX_op_call \<Rightarrow> Some (fold_call s T a)
     | _ \<Rightarrow> Some (do_default s T op a))"

subsection \<open>The pass\<close>

definition finish :: "stage option \<Rightarrow> folded option \<Rightarrow> folded option" where
  "finish r rest = (case r of None \<Rightarrow> None | Some (Continue f) \<Rightarrow> Some f | Some Proceed \<Rightarrow> rest)"

text \<open>One iteration of the loop for the operation \<open>op\<close> with arguments \<open>a\<close>; \<open>ops\<close> are the opcodes that follow.\<close>

definition fold_step ::
    "tcg_context \<Rightarrow> temp_infos \<Rightarrow> tcg_opcode list \<Rightarrow> tcg_opcode \<Rightarrow> u64 list \<Rightarrow> folded option" where
  "fold_step s T ops op a =
    Option.bind (copy_propagate s T op a) (\<lambda>a. let a = commute T op a in
      finish (Some (simplify_shift_zero T op a))
     (finish (simplify_zero_right s T op a)
     (finish (simplify_known_bits s T op a)
     (finish (Some (simplify_zero_product T op a))
     (finish (simplify_same_idempotent s T op a)
     (finish (simplify_same_cancel T op a)
     (fold_operation s T ops op a)))))))"

fun fold_loop ::
    "tcg_context \<Rightarrow> temp_infos \<Rightarrow> tcg_opcode list \<Rightarrow> u64 list \<Rightarrow> (tcg_opcode list \<times> u64 list) option" where
  "fold_loop s T [] args = Some ([], [])"
| "fold_loop s T (op # ops) args =
    (let n = args_taken op args
     in Option.bind (fold_step s T ops op (take n args)) (\<lambda>(T, out, gen).
          Option.bind (fold_loop s T (drop (length out - 1) ops) (drop n args)) (\<lambda>(outs, gens).
            Some (out @ outs, gen @ gens))))"

definition tcg_constant_folding ::
    "tcg_context \<Rightarrow> temp_infos \<Rightarrow> tcg_opcode list \<Rightarrow> u64 list \<Rightarrow> (tcg_opcode list \<times> u64 list) option" where
  "tcg_constant_folding s T ops args = fold_loop s (reset_all_temps (nb_temps s) T) ops args"

definition tcg_optimize ::
    "tcg_context \<Rightarrow> temp_infos \<Rightarrow> tcg_opcode list \<Rightarrow> u64 list \<Rightarrow> (tcg_opcode list \<times> u64 list) option" where
  "tcg_optimize s T ops args = tcg_constant_folding s T ops args"

end
