(* ===== verification/TcgSem.thy ===== *)
theory TcgSem
  imports TcgOps "HOL-Library.Signed_Division"
begin

text \<open>
  What the intermediate code means, after \<open>tcg/README\<close>. A temporary of 32 bits holds its value in the low half of
  a word. Loads, stores, calls, byte swaps and double-word divisions act through the parameter \<open>tcg_env\<close>: they
  are given the constants, the values of the inputs and of the globals and the outside world \<open>'w\<close>; a call also gives the new
  globals, unless its flags say that the helper does not write them. What the README calls undefined behaviour is the
  result \<open>Undefined\<close>.
\<close>

record 'w tcg_env =
  ext_op :: "tcg_opcode \<Rightarrow> u64 list \<Rightarrow> u64 list \<Rightarrow> u64 list \<Rightarrow> 'w \<Rightarrow> u64 list \<times> 'w"
  ext_call :: "u64 list \<Rightarrow> u64 list \<Rightarrow> u64 list \<Rightarrow> 'w \<Rightarrow> u64 list \<times> (nat \<Rightarrow> u64) \<times> 'w"
  ext_chained :: "u64 \<Rightarrow> 'w \<Rightarrow> bool"

type_synonym temp_values = "nat \<Rightarrow> u64"

datatype 'w tcg_result = Next temp_values 'w | Jump u64 temp_values 'w | Exit_tb u64 temp_values 'w
  | Goto_tb u64 temp_values 'w | Undefined

definition trunc :: "tcg_type \<Rightarrow> u64 \<Rightarrow> u64" where
  "trunc w v = (case w of TCG_TYPE_I32 \<Rightarrow> take_bit 32 v | TCG_TYPE_I64 \<Rightarrow> v)"

definition alu :: "tcg_bin \<Rightarrow> 'a::len word \<Rightarrow> 'a word \<Rightarrow> 'a word option" where
  "alu b x y =
    (let n = unat y; ok = (n < LENGTH('a)); fits = (y \<noteq> 0 \<and> \<not> (sint x = - (2 ^ (LENGTH('a) - 1)) \<and> sint y = - 1))
     in case b of
       Add \<Rightarrow> Some (x + y) | Sub \<Rightarrow> Some (x - y) | Mul \<Rightarrow> Some (x * y)
     | Div \<Rightarrow> if fits then Some (word_of_int (sint x sdiv sint y)) else None
     | Divu \<Rightarrow> if y \<noteq> 0 then Some (x div y) else None
     | Rem \<Rightarrow> if fits then Some (word_of_int (sint x smod sint y)) else None
     | Remu \<Rightarrow> if y \<noteq> 0 then Some (x mod y) else None
     | And \<Rightarrow> Some (x AND y) | Or \<Rightarrow> Some (x OR y) | Xor \<Rightarrow> Some (x XOR y)
     | Shl \<Rightarrow> if ok then Some (push_bit n x) else None
     | Shr \<Rightarrow> if ok then Some (drop_bit n x) else None
     | Sar \<Rightarrow> if ok then Some (signed_drop_bit n x) else None
     | Rotl \<Rightarrow> if ok then Some (word_rotl n x) else None
     | Rotr \<Rightarrow> if ok then Some (word_rotr n x) else None
     | Andc \<Rightarrow> Some (x AND NOT y) | Orc \<Rightarrow> Some (x OR NOT y) | Eqv \<Rightarrow> Some (NOT (x XOR y))
     | Nand \<Rightarrow> Some (NOT (x AND y)) | Nor \<Rightarrow> Some (NOT (x OR y)))"

definition alu_at :: "tcg_type \<Rightarrow> tcg_bin \<Rightarrow> u64 \<Rightarrow> u64 \<Rightarrow> u64 option" where
  "alu_at w b x y =
    (case w of TCG_TYPE_I32 \<Rightarrow> map_option ucast (alu b (ucast x :: u32) (ucast y)) | TCG_TYPE_I64 \<Rightarrow> alu b x y)"

definition alu1 :: "tcg_un \<Rightarrow> 'a::len word \<Rightarrow> 'a word option" where
  "alu1 u x = (case u of
       Ext8s \<Rightarrow> Some (signed_take_bit 7 x) | Ext16s \<Rightarrow> Some (signed_take_bit 15 x)
     | Ext8u \<Rightarrow> Some (take_bit 8 x) | Ext16u \<Rightarrow> Some (take_bit 16 x)
     | Ext32s \<Rightarrow> Some (signed_take_bit 31 x) | Ext32u \<Rightarrow> Some (take_bit 32 x)
     | Not \<Rightarrow> Some (NOT x) | Neg \<Rightarrow> Some (- x) | _ \<Rightarrow> None)"

definition alu1_at :: "tcg_type \<Rightarrow> tcg_un \<Rightarrow> u64 \<Rightarrow> u64 option" where
  "alu1_at w u x = (case w of TCG_TYPE_I32 \<Rightarrow> map_option ucast (alu1 u (ucast x :: u32)) | TCG_TYPE_I64 \<Rightarrow> alu1 u x)"

definition compare :: "u64 \<Rightarrow> 'a::len word \<Rightarrow> 'a word \<Rightarrow> bool option" where
  "compare c x y =
    (if c = TCG_COND_EQ then Some (x = y) else if c = TCG_COND_NE then Some (x \<noteq> y)
     else if c = TCG_COND_LT then Some (sint x < sint y) else if c = TCG_COND_GE then Some (sint x \<ge> sint y)
     else if c = TCG_COND_LE then Some (sint x \<le> sint y) else if c = TCG_COND_GT then Some (sint x > sint y)
     else if c = TCG_COND_LTU then Some (uint x < uint y) else if c = TCG_COND_GEU then Some (uint x \<ge> uint y)
     else if c = TCG_COND_LEU then Some (uint x \<le> uint y) else if c = TCG_COND_GTU then Some (uint x > uint y)
     else None)"

definition compare_at :: "tcg_type \<Rightarrow> u64 \<Rightarrow> u64 \<Rightarrow> u64 \<Rightarrow> bool option" where
  "compare_at w c x y =
    (case w of TCG_TYPE_I32 \<Rightarrow> compare c (ucast x :: u32) (ucast y) | TCG_TYPE_I64 \<Rightarrow> compare c x y)"

text \<open>The field of \<open>len\<close> bits at \<open>pos\<close> replaced.\<close>

definition deposit :: "nat \<Rightarrow> nat \<Rightarrow> u64 \<Rightarrow> u64 \<Rightarrow> u64" where
  "deposit pos len x y =
    (x AND NOT (push_bit pos (mask len))) OR (push_bit pos y AND push_bit pos (mask len))"

definition width :: "tcg_type \<Rightarrow> nat" where
  "width w = (case w of TCG_TYPE_I32 \<Rightarrow> 32 | TCG_TYPE_I64 \<Rightarrow> 64)"

definition double :: "u64 \<Rightarrow> u64 \<Rightarrow> u64" where
  "double l h = push_bit 32 (take_bit 32 h) OR take_bit 32 l"

definition put :: "u64 \<Rightarrow> u64 \<Rightarrow> temp_values \<Rightarrow> temp_values" where
  "put t v \<sigma> = \<sigma>(unat t := v)"

definition put_pair :: "u64 \<Rightarrow> u64 \<Rightarrow> u64 \<Rightarrow> temp_values \<Rightarrow> temp_values" where
  "put_pair l h v \<sigma> = put h (drop_bit 32 v) (put l (take_bit 32 v) \<sigma>)"

definition get :: "temp_values \<Rightarrow> u64 \<Rightarrow> u64" where "get \<sigma> t = \<sigma> (unat t)"

fun put_all :: "tcg_context \<Rightarrow> u64 list \<Rightarrow> u64 list \<Rightarrow> temp_values \<Rightarrow> temp_values" where
  "put_all s [] vs \<sigma> = \<sigma>"
| "put_all s (t # ts) vs \<sigma> =
    put_all s ts (tl vs) (put t (trunc (temp_type s (unat t)) (if vs = [] then 0 else hd vs)) \<sigma>)"

definition global_values :: "tcg_context \<Rightarrow> temp_values \<Rightarrow> u64 list" where
  "global_values s \<sigma> = map \<sigma> [0..<nb_globals s]"

definition new_globals :: "tcg_context \<Rightarrow> temp_values \<Rightarrow> temp_values \<Rightarrow> temp_values" where
  "new_globals s g \<sigma> = (\<lambda>t. if t < nb_globals s then trunc (temp_type s t) (g t) else \<sigma> t)"

definition exec_ext :: "'w tcg_env \<Rightarrow> tcg_context \<Rightarrow> tcg_opcode \<Rightarrow> u64 list \<Rightarrow> temp_values \<Rightarrow> 'w \<Rightarrow> 'w tcg_result" where
  "exec_ext E s op a \<sigma> w =
    (let (outs, w) = ext_op E op (drop (nb_oargs op + nb_iargs op) a)
           (map (get \<sigma>) (take (nb_iargs op) (drop (nb_oargs op) a))) (global_values s \<sigma>) w
     in Next (put_all s (take (nb_oargs op) a) outs \<sigma>) w)"

definition exec_call :: "'w tcg_env \<Rightarrow> tcg_context \<Rightarrow> u64 list \<Rightarrow> temp_values \<Rightarrow> 'w \<Rightarrow> 'w tcg_result" where
  "exec_call E s a \<sigma> w =
    (let no = call_oargs (a ! 0); ni = call_iargs (a ! 0);
         (outs, g, w) = ext_call E (drop (no + ni + 1) a) (map (get \<sigma>) (take ni (drop (no + 1) a))) (global_values s \<sigma>) w;
         \<sigma> = (if a ! (no + ni + 1) AND 0x30 = 0 then new_globals s g \<sigma> else \<sigma>)
     in Next (put_all s (take no (drop 1 a)) outs \<sigma>) w)"

definition next_or_undefined :: "u64 \<Rightarrow> u64 option \<Rightarrow> temp_values \<Rightarrow> 'w \<Rightarrow> 'w tcg_result" where
  "next_or_undefined t v \<sigma> w = (case v of None \<Rightarrow> Undefined | Some v \<Rightarrow> Next (put t v \<sigma>) w)"

definition branch :: "bool option \<Rightarrow> u64 \<Rightarrow> temp_values \<Rightarrow> 'w \<Rightarrow> 'w tcg_result" where
  "branch b l \<sigma> w = (case b of None \<Rightarrow> Undefined | Some True \<Rightarrow> Jump l \<sigma> w | Some False \<Rightarrow> Next \<sigma> w)"

definition exec_op :: "'w tcg_env \<Rightarrow> tcg_context \<Rightarrow> tcg_opcode \<Rightarrow> u64 list \<Rightarrow> temp_values \<Rightarrow> 'w \<Rightarrow> 'w tcg_result" where
  "exec_op E s op a \<sigma> w =
    (let v = (\<lambda>i. get \<sigma> (a ! i))
     in case op of
       INDEX_op_nop \<Rightarrow> Next \<sigma> w | INDEX_op_nop1 \<Rightarrow> Next \<sigma> w | INDEX_op_nop2 \<Rightarrow> Next \<sigma> w
     | INDEX_op_nop3 \<Rightarrow> Next \<sigma> w | INDEX_op_set_label \<Rightarrow> Next \<sigma> w | INDEX_op_debug_insn_start \<Rightarrow> Next \<sigma> w
     | INDEX_op_end \<Rightarrow> Undefined | INDEX_op_nopn \<Rightarrow> Undefined
     | INDEX_op_br \<Rightarrow> Jump (a ! 0) \<sigma> w
     | INDEX_op_exit_tb \<Rightarrow> Exit_tb (a ! 0) \<sigma> w
     | INDEX_op_goto_tb \<Rightarrow> if ext_chained E (a ! 0) w then Goto_tb (a ! 0) \<sigma> w else Next \<sigma> w
     | INDEX_op_call \<Rightarrow> exec_call E s a \<sigma> w
     | INDEX_op_mov t \<Rightarrow> Next (put (a ! 0) (trunc t (v 1)) \<sigma>) w
     | INDEX_op_movi t \<Rightarrow> Next (put (a ! 0) (trunc t (a ! 1)) \<sigma>) w
     | INDEX_op_setcond t \<Rightarrow> next_or_undefined (a ! 0) (map_option of_bool (compare_at t (a ! 3) (v 1) (v 2))) \<sigma> w
     | INDEX_op_movcond t \<Rightarrow> next_or_undefined (a ! 0)
         (map_option (\<lambda>b. trunc t (if b then v 3 else v 4)) (compare_at t (a ! 5) (v 1) (v 2))) \<sigma> w
     | INDEX_op_bin b t \<Rightarrow> next_or_undefined (a ! 0) (alu_at t b (v 1) (v 2)) \<sigma> w
     | INDEX_op_un u t \<Rightarrow>
         if u \<in> {Bswap16, Bswap32, Bswap64} then exec_ext E s op a \<sigma> w
         else next_or_undefined (a ! 0) (alu1_at t u (v 1)) \<sigma> w
     | INDEX_op_deposit t \<Rightarrow>
         next_or_undefined (a ! 0)
           (if a ! 4 \<noteq> 0 \<and> unat (a ! 3) + unat (a ! 4) \<le> width t
            then Some (trunc t (deposit (unat (a ! 3)) (unat (a ! 4)) (v 1) (v 2))) else None) \<sigma> w
     | INDEX_op_brcond t \<Rightarrow> branch (compare_at t (a ! 2) (v 0) (v 1)) (a ! 3) \<sigma> w
     | INDEX_op_add2_i32 \<Rightarrow> Next (put_pair (a ! 0) (a ! 1) (double (v 2) (v 3) + double (v 4) (v 5)) \<sigma>) w
     | INDEX_op_sub2_i32 \<Rightarrow> Next (put_pair (a ! 0) (a ! 1) (double (v 2) (v 3) - double (v 4) (v 5)) \<sigma>) w
     | INDEX_op_mulu2_i32 \<Rightarrow> Next (put_pair (a ! 0) (a ! 1) (take_bit 32 (v 2) * take_bit 32 (v 3)) \<sigma>) w
     | INDEX_op_brcond2_i32 \<Rightarrow> branch (compare (a ! 4) (double (v 0) (v 1)) (double (v 2) (v 3))) (a ! 5) \<sigma> w
     | INDEX_op_setcond2_i32 \<Rightarrow>
         next_or_undefined (a ! 0)
           (map_option of_bool (compare (a ! 5) (double (v 1) (v 2)) (double (v 3) (v 4)))) \<sigma> w
     | _ \<Rightarrow> exec_ext E s op a \<sigma> w)"

text \<open>Straight-line execution up to a jump or an exit.\<close>

fun exec :: "'w tcg_env \<Rightarrow> tcg_context \<Rightarrow> tcg_opcode list \<Rightarrow> u64 list \<Rightarrow> temp_values \<Rightarrow> 'w \<Rightarrow> 'w tcg_result" where
  "exec E s [] args \<sigma> w = Next \<sigma> w"
| "exec E s (op # ops) args \<sigma> w =
    (let n = args_taken op args
     in case exec_op E s op (take n args) \<sigma> w of
          Next \<sigma> w \<Rightarrow> exec E s ops (drop n args) \<sigma> w
        | r \<Rightarrow> r)"

text \<open>The code after the label \<open>l\<close>.\<close>

fun after_label :: "u64 \<Rightarrow> tcg_opcode list \<Rightarrow> u64 list \<Rightarrow> (tcg_opcode list \<times> u64 list) option" where
  "after_label l [] args = None"
| "after_label l (op # ops) args =
    (if op = INDEX_op_set_label \<and> args ! 0 = l then Some (ops, drop 1 args)
     else after_label l ops (drop (args_taken op args) args))"

text \<open>A whole block, with at most \<open>k\<close> jumps; \<open>None\<close> when they do not suffice.\<close>

fun run :: "'w tcg_env \<Rightarrow> tcg_context \<Rightarrow> nat \<Rightarrow> tcg_opcode list \<times> u64 list \<Rightarrow> tcg_opcode list \<times> u64 list \<Rightarrow>
    temp_values \<Rightarrow> 'w \<Rightarrow> 'w tcg_result option" where
  "run E s k tb pos \<sigma> w =
    (case exec E s (fst pos) (snd pos) \<sigma> w of
       Jump l \<sigma> w \<Rightarrow>
         (case after_label l (fst tb) (snd tb) of
            None \<Rightarrow> Some Undefined
          | Some pos \<Rightarrow> (case k of 0 \<Rightarrow> None | Suc k \<Rightarrow> run E s k tb pos \<sigma> w))
     | r \<Rightarrow> Some r)"

end
