(* ===== verification/TcgTemps.thy ===== *)
theory TcgTemps
  imports TcgOptimize TcgSem
begin

text \<open>
  The state of the temporaries. \<open>linked\<close> says what the pass keeps of it whatever the program computes: the copies are
  doubly linked circles of temporaries of one type, and only constants have zero bits known. \<open>agrees\<close> says that it tells the
  truth about the values at run time.
\<close>

definition linked :: "tcg_context \<Rightarrow> temp_infos \<Rightarrow> bool" where
  "linked s T \<longleftrightarrow> (\<forall>t < nb_temps s.
    (tstate (T t) = TCG_TEMP_CONST \<longrightarrow> tmask (T t) = tval (T t)) \<and>
    (tstate (T t) \<noteq> TCG_TEMP_CONST \<longrightarrow> tmask (T t) = - 1) \<and>
    (tstate (T t) = TCG_TEMP_COPY \<longrightarrow>
       next_copy (T t) < nb_temps s \<and> prev_copy (T t) < nb_temps s \<and>
       tstate (T (next_copy (T t))) = TCG_TEMP_COPY \<and> tstate (T (prev_copy (T t))) = TCG_TEMP_COPY \<and>
       prev_copy (T (next_copy (T t))) = t \<and> next_copy (T (prev_copy (T t))) = t \<and>
       temp_type s (next_copy (T t)) = temp_type s t))"

definition agrees :: "tcg_context \<Rightarrow> temp_infos \<Rightarrow> temp_values \<Rightarrow> bool" where
  "agrees s T \<sigma> \<longleftrightarrow> (\<forall>t < nb_temps s.
    trunc (temp_type s t) (\<sigma> t) = \<sigma> t \<and>
    (tstate (T t) = TCG_TEMP_CONST \<longrightarrow> \<sigma> t = trunc (temp_type s t) (tval (T t))) \<and>
    (tstate (T t) = TCG_TEMP_COPY \<longrightarrow> \<sigma> (next_copy (T t)) = \<sigma> t))"

lemma linked_const: "linked s T \<Longrightarrow> t < nb_temps s \<Longrightarrow> tstate (T t) = TCG_TEMP_CONST \<Longrightarrow> tmask (T t) = tval (T t)"
  and linked_mask: "linked s T \<Longrightarrow> t < nb_temps s \<Longrightarrow> tstate (T t) \<noteq> TCG_TEMP_CONST \<Longrightarrow> tmask (T t) = - 1"
  by (simp_all add: linked_def)

lemma linked_copy:
  assumes "linked s T" "t < nb_temps s" "tstate (T t) = TCG_TEMP_COPY"
  shows "next_copy (T t) < nb_temps s" "prev_copy (T t) < nb_temps s"
    "tstate (T (next_copy (T t))) = TCG_TEMP_COPY" "tstate (T (prev_copy (T t))) = TCG_TEMP_COPY"
    "prev_copy (T (next_copy (T t))) = t" "next_copy (T (prev_copy (T t))) = t"
    "temp_type s (next_copy (T t)) = temp_type s t"
  using assms by (simp_all add: linked_def)

lemma linked_copy_prev:
  assumes "linked s T" "t < nb_temps s" "tstate (T t) = TCG_TEMP_COPY"
  shows "temp_type s (prev_copy (T t)) = temp_type s t"
  using linked_copy(7) [of s T "prev_copy (T t)"] linked_copy [OF assms] assms(1) by simp

subsection \<open>Resetting\<close>

lemma reset_temp_other:
  assumes "linked s T" "t < nb_temps s" "u < nb_temps s" "u \<noteq> t"
  shows "tstate (reset_temp T t u) = TCG_TEMP_CONST \<longleftrightarrow> tstate (T u) = TCG_TEMP_CONST"
    "tval (reset_temp T t u) = tval (T u)" "tmask (reset_temp T t u) = tmask (T u)"
    "tstate (reset_temp T t u) = TCG_TEMP_COPY \<Longrightarrow> tstate (T u) = TCG_TEMP_COPY"
  using assms linked_copy(3,4) [OF assms(1,2)] by (auto simp: reset_temp_def Let_def split: if_split_asm)

lemma reset_temp_at: "tstate (reset_temp T t t) = TCG_TEMP_UNDEF" "tmask (reset_temp T t t) = - 1"
  by (auto simp: reset_temp_def Let_def)

text \<open>A temporary that stays a copy: its neighbours are those it had, the reset one skipped.\<close>

lemma reset_temp_copy:
  assumes l: "linked s T" and t: "t < nb_temps s" and u: "u < nb_temps s" "u \<noteq> t"
    and c: "tstate (reset_temp T t u) = TCG_TEMP_COPY"
  shows "next_copy (reset_temp T t u) =
      (if tstate (T t) = TCG_TEMP_COPY \<and> next_copy (T u) = t then next_copy (T t) else next_copy (T u))"
    "prev_copy (reset_temp T t u) =
      (if tstate (T t) = TCG_TEMP_COPY \<and> prev_copy (T u) = t then prev_copy (T t) else prev_copy (T u))"
    "next_copy (reset_temp T t u) \<noteq> t" "prev_copy (reset_temp T t u) \<noteq> t"
  using assms linked_copy [OF l t] linked_copy [OF l u(1)]
  by (auto simp: reset_temp_def Let_def split: if_split_asm)

lemma reset_temp_keep:
  assumes "linked s T" "t < nb_temps s" "u < nb_temps s" "u \<noteq> t"
  shows "tstate (reset_temp T t u) = TCG_TEMP_COPY \<longleftrightarrow> tstate (T u) = TCG_TEMP_COPY \<and>
    \<not> (tstate (T t) = TCG_TEMP_COPY \<and> prev_copy (T t) = next_copy (T t) \<and> u = next_copy (T t))"
  using assms linked_copy(3,4) [OF assms(1,2)]
  by (auto simp: reset_temp_def Let_def split: if_split_asm)

text \<open>The neighbours after a reset, by whether the reset temporary stood between.\<close>

lemma reset_neighbours:
  assumes l: "linked s T" and t: "t < nb_temps s" and u: "u < nb_temps s" "u \<noteq> t"
    and c: "tstate (reset_temp T t u) = TCG_TEMP_COPY"
  shows "next_copy (reset_temp T t u) < nb_temps s"
    "tstate (reset_temp T t (next_copy (reset_temp T t u))) = TCG_TEMP_COPY"
    "prev_copy (reset_temp T t (next_copy (reset_temp T t u))) = u"
    "prev_copy (reset_temp T t u) < nb_temps s"
    "tstate (reset_temp T t (prev_copy (reset_temp T t u))) = TCG_TEMP_COPY"
    "next_copy (reset_temp T t (prev_copy (reset_temp T t u))) = u"
    "temp_type s (next_copy (reset_temp T t u)) = temp_type s u"
proof -
  note r = reset_temp_copy [OF l t u c]
  have cu: "tstate (T u) = TCG_TEMP_COPY"
    and nd: "tstate (T t) = TCG_TEMP_COPY \<Longrightarrow> prev_copy (T t) = next_copy (T t) \<Longrightarrow> u \<noteq> next_copy (T t)"
    using c reset_temp_keep [OF l t u] by auto
  note lu = linked_copy [OF l u(1) cu] and lt = linked_copy [OF l t]
  have "next_copy (reset_temp T t u) < nb_temps s \<and> temp_type s (next_copy (reset_temp T t u)) = temp_type s u
    \<and> tstate (reset_temp T t (next_copy (reset_temp T t u))) = TCG_TEMP_COPY
    \<and> prev_copy (reset_temp T t (next_copy (reset_temp T t u))) = u"
  proof (cases "next_copy (T u) = t")
    case True
    then have ct: "tstate (T t) = TCG_TEMP_COPY" and pt: "prev_copy (T t) = u" using lu by auto
    have n: "next_copy (reset_temp T t u) = next_copy (T t)" using r(1) True ct by simp
    then have ne: "next_copy (T t) \<noteq> t" using r(3) by simp
    have k: "tstate (reset_temp T t (next_copy (T t))) = TCG_TEMP_COPY"
      using reset_temp_keep [OF l t lt(1) [OF ct] ne] lt(3) [OF ct] nd [OF ct] pt by auto
    show ?thesis
      using k lt(1,5,7) [OF ct] lu(7) True pt reset_temp_copy(2) [OF l t lt(1) [OF ct] ne k] ct by (simp add: n)
  next
    case False
    have n: "next_copy (reset_temp T t u) = next_copy (T u)" using r(1) False by simp
    have k: "tstate (reset_temp T t (next_copy (T u))) = TCG_TEMP_COPY"
      using reset_temp_keep [OF l t lu(1) False] lu(3,5) lt(5,6) u(2) by metis
    show ?thesis
      using k lu(1,5,7) reset_temp_copy(2) [OF l t lu(1) False k] u(2) by (simp add: n)
  qed
  moreover have "prev_copy (reset_temp T t u) < nb_temps s
    \<and> tstate (reset_temp T t (prev_copy (reset_temp T t u))) = TCG_TEMP_COPY
    \<and> next_copy (reset_temp T t (prev_copy (reset_temp T t u))) = u"
  proof (cases "prev_copy (T u) = t")
    case True
    then have ct: "tstate (T t) = TCG_TEMP_COPY" and pt: "next_copy (T t) = u" using lu by auto
    have n: "prev_copy (reset_temp T t u) = prev_copy (T t)" using r(2) True ct by simp
    then have ne: "prev_copy (T t) \<noteq> t" using r(4) by simp
    have k: "tstate (reset_temp T t (prev_copy (T t))) = TCG_TEMP_COPY"
      using reset_temp_keep [OF l t lt(2) [OF ct] ne] lt(4) [OF ct] nd [OF ct] pt by auto
    show ?thesis
      using k lt(2,6) [OF ct] True pt reset_temp_copy(1) [OF l t lt(2) [OF ct] ne k] ct by (simp add: n)
  next
    case False
    have n: "prev_copy (reset_temp T t u) = prev_copy (T u)" using r(2) False by simp
    have k: "tstate (reset_temp T t (prev_copy (T u))) = TCG_TEMP_COPY"
      using reset_temp_keep [OF l t lu(2) False] lu(4,6) lt(5,6) u(2) by metis
    show ?thesis
      using k lu(2,6) reset_temp_copy(1) [OF l t lu(2) False k] u(2) by (simp add: n)
  qed
  ultimately show "next_copy (reset_temp T t u) < nb_temps s"
    "tstate (reset_temp T t (next_copy (reset_temp T t u))) = TCG_TEMP_COPY"
    "prev_copy (reset_temp T t (next_copy (reset_temp T t u))) = u"
    "prev_copy (reset_temp T t u) < nb_temps s"
    "tstate (reset_temp T t (prev_copy (reset_temp T t u))) = TCG_TEMP_COPY"
    "next_copy (reset_temp T t (prev_copy (reset_temp T t u))) = u"
    "temp_type s (next_copy (reset_temp T t u)) = temp_type s u" by simp_all
qed

lemma linked_reset:
  assumes l: "linked s T" and t: "t < nb_temps s"
  shows "linked s (reset_temp T t)"
  unfolding linked_def
proof (intro allI impI conjI)
  fix u assume u: "u < nb_temps s"
  { assume c: "tstate (reset_temp T t u) = TCG_TEMP_CONST"
    then have "u \<noteq> t" by (auto simp: reset_temp_at)
    with c show "tmask (reset_temp T t u) = tval (reset_temp T t u)"
      using reset_temp_other [OF l t u] linked_const [OF l u] by simp }
  { assume c: "tstate (reset_temp T t u) \<noteq> TCG_TEMP_CONST"
    then show "tmask (reset_temp T t u) = - 1"
      using reset_temp_other [OF l t u] linked_mask [OF l u] by (cases "u = t") (simp_all add: reset_temp_at) }
  { assume c: "tstate (reset_temp T t u) = TCG_TEMP_COPY"
    then have "u \<noteq> t" by (auto simp: reset_temp_at)
    note reset_neighbours [OF l t u this c]
    then show "next_copy (reset_temp T t u) < nb_temps s" "prev_copy (reset_temp T t u) < nb_temps s"
       "tstate (reset_temp T t (next_copy (reset_temp T t u))) = TCG_TEMP_COPY"
       "tstate (reset_temp T t (prev_copy (reset_temp T t u))) = TCG_TEMP_COPY"
       "prev_copy (reset_temp T t (next_copy (reset_temp T t u))) = u"
       "next_copy (reset_temp T t (prev_copy (reset_temp T t u))) = u"
       "temp_type s (next_copy (reset_temp T t u)) = temp_type s u" by - assumption+ }
qed

lemma agrees_reset:
  assumes l: "linked s T" and a: "agrees s T \<sigma>" and t: "t < nb_temps s" and v: "trunc (temp_type s t) v = v"
  shows "agrees s (reset_temp T t) (\<sigma>(t := v))"
  unfolding agrees_def
proof (intro allI impI)
  fix u assume u: "u < nb_temps s"
  show "trunc (temp_type s u) ((\<sigma>(t := v)) u) = (\<sigma>(t := v)) u \<and>
    (tstate (reset_temp T t u) = TCG_TEMP_CONST \<longrightarrow>
       (\<sigma>(t := v)) u = trunc (temp_type s u) (tval (reset_temp T t u))) \<and>
    (tstate (reset_temp T t u) = TCG_TEMP_COPY \<longrightarrow> (\<sigma>(t := v)) (next_copy (reset_temp T t u)) = (\<sigma>(t := v)) u)"
  proof (cases "u = t")
    case True
    with v show ?thesis by (simp add: reset_temp_at)
  next
    case False
    note o = reset_temp_other [OF l t u False]
    have "(\<sigma>(t := v)) (next_copy (reset_temp T t u)) = \<sigma> u" if c: "tstate (reset_temp T t u) = TCG_TEMP_COPY"
    proof -
      note r = reset_temp_copy [OF l t u False c]
      have cu: "tstate (T u) = TCG_TEMP_COPY" using o(4) c .
      have "\<sigma> (next_copy (T u)) = \<sigma> u" using a u cu by (simp add: agrees_def)
      moreover have "tstate (T t) = TCG_TEMP_COPY \<Longrightarrow> \<sigma> (next_copy (T t)) = \<sigma> t" using a t by (simp add: agrees_def)
      ultimately show ?thesis using r(1,3) by (auto split: if_splits)
    qed
    with o False a u show ?thesis by (auto simp: agrees_def)
  qed
qed

lemma linked_reset_all: "linked s (reset_all_temps (nb_temps s) T)"
  by (simp add: linked_def reset_all_temps_def)

lemma agrees_reset_all: "agrees s T \<sigma> \<Longrightarrow> agrees s (reset_all_temps (nb_temps s) T') \<sigma>"
  by (simp add: agrees_def reset_all_temps_def)

lemma agrees_normal: "\<forall>t < nb_temps s. trunc (temp_type s t) (\<sigma> t) = \<sigma> t \<Longrightarrow> agrees s (reset_all_temps (nb_temps s) T) \<sigma>"
  by (simp add: agrees_def reset_all_temps_def)

subsection \<open>Constants and copies\<close>

lemma trunc_trunc [simp]: "trunc w (trunc w v) = trunc w v"
  by (simp add: trunc_def split: tcg_type.split)

lemma gen_movi_state:
  "fst (tcg_opt_gen_movi T dst v) =
    (reset_temp T (unat dst))(unat dst := (reset_temp T (unat dst) (unat dst))\<lparr>tstate := TCG_TEMP_CONST, tval := v, tmask := v\<rparr>)"
  "snd (tcg_opt_gen_movi T dst v) = [dst, v]"
  by (simp_all add: tcg_opt_gen_movi_def Let_def)

text \<open>Nothing links to a temporary that is not a copy, so its entry can be replaced.\<close>

lemma linked_replace:
  assumes l: "linked s T" and t: "t < nb_temps s" "tstate (T t) \<noteq> TCG_TEMP_COPY"
    and i: "tstate i \<noteq> TCG_TEMP_COPY" "tmask i = (if tstate i = TCG_TEMP_CONST then tval i else - 1)"
  shows "linked s (T(t := i))"
proof -
  have "u = t \<or> (tstate (T u) = TCG_TEMP_COPY \<longrightarrow> next_copy (T u) \<noteq> t \<and> prev_copy (T u) \<noteq> t)" if "u < nb_temps s" for u
    using linked_copy [OF l that] t(2) by auto
  with l i show ?thesis unfolding linked_def by auto
qed

lemma agrees_replace:
  assumes l: "linked s T" and a: "agrees s T \<sigma>" and t: "t < nb_temps s" "tstate (T t) \<noteq> TCG_TEMP_COPY"
    and i: "tstate i \<noteq> TCG_TEMP_COPY" "tstate i = TCG_TEMP_CONST \<Longrightarrow> \<sigma> t = trunc (temp_type s t) (tval i)"
  shows "agrees s (T(t := i)) \<sigma>"
proof -
  have "u = t \<or> (tstate (T u) = TCG_TEMP_COPY \<longrightarrow> next_copy (T u) \<noteq> t)" if "u < nb_temps s" for u
    using linked_copy [OF l that] t(2) by auto
  with a i show ?thesis unfolding agrees_def by auto
qed

lemma linked_movi:
  assumes "linked s T" "unat dst < nb_temps s"
  shows "linked s (fst (tcg_opt_gen_movi T dst v))"
  unfolding gen_movi_state
  by (rule linked_replace [OF linked_reset [OF assms] assms(2)]) (simp_all add: reset_temp_at)

lemma agrees_movi:
  assumes "linked s T" "agrees s T \<sigma>" "unat dst < nb_temps s"
  shows "agrees s (fst (tcg_opt_gen_movi T dst v)) (put dst (trunc (temp_type s (unat dst)) v) \<sigma>)"
  unfolding gen_movi_state put_def
  by (rule agrees_replace [OF linked_reset [OF assms(1,3)] agrees_reset [OF assms] assms(3)])
    (simp_all add: reset_temp_at)

lemma reset_unlinked:
  assumes "linked s T" "t < nb_temps s" "u < nb_temps s" "tstate (reset_temp T t u) = TCG_TEMP_COPY"
  shows "next_copy (reset_temp T t u) \<noteq> t" "prev_copy (reset_temp T t u) \<noteq> t" "u \<noteq> t"
proof -
  show "u \<noteq> t" using assms(4) by (auto simp: reset_temp_at)
  then show "next_copy (reset_temp T t u) \<noteq> t" "prev_copy (reset_temp T t u) \<noteq> t"
    using reset_temp_copy [OF assms(1,2,3) _ assms(4)] by auto
qed

text \<open>Entering \<open>d\<close>, which is not a copy, into the circle of \<open>r\<close> behind \<open>r\<close>.\<close>

definition insert_copy :: "temp_infos \<Rightarrow> nat \<Rightarrow> nat \<Rightarrow> temp_infos" where
  "insert_copy T d r =
    (let T = (if tstate (T r) \<noteq> TCG_TEMP_COPY
              then T(r := (T r)\<lparr>tstate := TCG_TEMP_COPY, next_copy := r, prev_copy := r\<rparr>) else T);
         T = T(d := (T d)\<lparr>tstate := TCG_TEMP_COPY, next_copy := next_copy (T r), prev_copy := r\<rparr>);
         n = next_copy (T d);
         T = T(n := (T n)\<lparr>prev_copy := d\<rparr>)
     in T(r := (T r)\<lparr>next_copy := d\<rparr>))"

definition old_next :: "temp_infos \<Rightarrow> nat \<Rightarrow> nat" where
  "old_next T r = (if tstate (T r) = TCG_TEMP_COPY then next_copy (T r) else r)"

lemma insert_fields:
  assumes "d \<noteq> r" "old_next T r \<noteq> d"
  shows "tstate (insert_copy T d r u) = (if u = d \<or> u = r then TCG_TEMP_COPY else tstate (T u))"
    "next_copy (insert_copy T d r u) = (if u = r then d else if u = d then old_next T r else next_copy (T u))"
    "tstate (T r) = TCG_TEMP_COPY \<or> u \<noteq> r \<Longrightarrow>
      prev_copy (insert_copy T d r u) = (if u = old_next T r then d else if u = d then r else prev_copy (T u))"
    "tstate (T r) \<noteq> TCG_TEMP_COPY \<Longrightarrow> prev_copy (insert_copy T d r r) = d"
    "tmask (insert_copy T d r u) = tmask (T u)" "tval (insert_copy T d r u) = tval (T u)"
  using assms by (auto simp: insert_copy_def old_next_def Let_def)

lemma linked_insert_copy:
  assumes l: "linked s T" and d: "d < nb_temps s" "tstate (T d) = TCG_TEMP_UNDEF" and r: "r < nb_temps s" "d \<noteq> r"
    and c: "tstate (T r) \<noteq> TCG_TEMP_CONST" and ty: "temp_type s r = temp_type s d"
  shows "linked s (insert_copy T d r)"
proof -
  have unl: "next_copy (T u) \<noteq> d" "prev_copy (T u) \<noteq> d" if "u < nb_temps s" "tstate (T u) = TCG_TEMP_COPY" for u
    using linked_copy [OF l that] d(2) by auto
  have nd: "old_next T r \<noteq> d" using unl(1) [OF r(1)] r(2) by (auto simp: old_next_def)
  note f = insert_fields [OF r(2) nd]
  have n: "old_next T r < nb_temps s" "temp_type s (old_next T r) = temp_type s r"
      "old_next T r = r \<or> tstate (T (old_next T r)) = TCG_TEMP_COPY"
    using linked_copy [OF l r(1)] r(1) by (auto simp: old_next_def)
  have pn: "prev_copy (insert_copy T d r (old_next T r)) = d"
  proof (cases "tstate (T r) = TCG_TEMP_COPY")
    case True
    then show ?thesis by (simp add: f(3))
  next
    case False
    then show ?thesis using f(4) by (simp add: old_next_def)
  qed
  have pd: "prev_copy (insert_copy T d r d) = r" using f(3) [of d] r(2) nd by simp
  show ?thesis
    unfolding linked_def
  proof (intro allI impI conjI)
    fix u assume u: "u < nb_temps s"
    { assume "tstate (insert_copy T d r u) = TCG_TEMP_CONST"
      then show "tmask (insert_copy T d r u) = tval (insert_copy T d r u)"
        using linked_const [OF l u] by (simp add: f split: if_split_asm) }
    { assume "tstate (insert_copy T d r u) \<noteq> TCG_TEMP_CONST"
      then show "tmask (insert_copy T d r u) = - 1"
        using linked_mask [OF l u] d(2) c by (auto simp: f split: if_split_asm) }
    assume cu: "tstate (insert_copy T d r u) = TCG_TEMP_COPY"
    consider (d) "u = d" | (r) "u = r" | (o) "u \<noteq> d" "u \<noteq> r" "tstate (T u) = TCG_TEMP_COPY"
      using cu by (auto simp: f split: if_split_asm)
    then have nxt: "next_copy (insert_copy T d r u) < nb_temps s \<and>
        temp_type s (next_copy (insert_copy T d r u)) = temp_type s u \<and>
        tstate (insert_copy T d r (next_copy (insert_copy T d r u))) = TCG_TEMP_COPY \<and>
        prev_copy (insert_copy T d r (next_copy (insert_copy T d r u))) = u"
    proof cases
      case d
      then show ?thesis using n pn r(2) ty by (auto simp: f(1,2))
    next
      case r
      then show ?thesis using d(1) pd ty assms(4) by (simp add: f(1,2))
    next
      case o
      note lo = linked_copy [OF l u o(3)]
      have "next_copy (T u) \<noteq> old_next T r"
      proof
        assume e: "next_copy (T u) = old_next T r"
        show False
        proof (cases "tstate (T r) = TCG_TEMP_COPY")
          case True
          then show False using e lo(5) linked_copy(5) [OF l r(1) True] o(2) by (simp add: old_next_def)
        next
          case False
          then show False using e lo(3) by (simp add: old_next_def)
        qed
      qed
      moreover have "next_copy (T u) = r \<Longrightarrow> tstate (T r) = TCG_TEMP_COPY" using lo(3) by auto
      ultimately show ?thesis using lo unl(1) [OF u o(3)] o by (auto simp: f(1,2,3))
    qed
    from nxt show "next_copy (insert_copy T d r u) < nb_temps s"
      "temp_type s (next_copy (insert_copy T d r u)) = temp_type s u"
      "tstate (insert_copy T d r (next_copy (insert_copy T d r u))) = TCG_TEMP_COPY"
      "prev_copy (insert_copy T d r (next_copy (insert_copy T d r u))) = u" by blast+
    consider (n) "u = old_next T r" | (d) "u = d" | (o) "u \<noteq> d" "u \<noteq> old_next T r" "tstate (T u) = TCG_TEMP_COPY"
      using cu by (cases "tstate (T r) = TCG_TEMP_COPY") (auto simp: f old_next_def split: if_split_asm)
    then have "prev_copy (insert_copy T d r u) < nb_temps s \<and>
        tstate (insert_copy T d r (prev_copy (insert_copy T d r u))) = TCG_TEMP_COPY \<and>
        next_copy (insert_copy T d r (prev_copy (insert_copy T d r u))) = u"
    proof cases
      case n
      then show ?thesis using pn d(1) r(2) by (simp add: f(1,2))
    next
      case d
      then show ?thesis using pd r(1) by (simp add: f(1,2))
    next
      case o
      note lo = linked_copy [OF l u o(3)]
      have p: "prev_copy (insert_copy T d r u) = prev_copy (T u)" using o f(3) by (metis (no_types, lifting))
      have "prev_copy (T u) \<noteq> r"
      proof
        assume "prev_copy (T u) = r"
        then have "tstate (T r) = TCG_TEMP_COPY" "next_copy (T r) = u" using lo(4,6) by auto
        with o(2) show False by (simp add: old_next_def)
      qed
      with lo unl(2) [OF u o(3)] show ?thesis by (simp add: f(1,2) p)
    qed
    then show "prev_copy (insert_copy T d r u) < nb_temps s"
      "tstate (insert_copy T d r (prev_copy (insert_copy T d r u))) = TCG_TEMP_COPY"
      "next_copy (insert_copy T d r (prev_copy (insert_copy T d r u))) = u" by blast+
  qed
qed

lemma agrees_insert:
  assumes l: "linked s T" and a: "agrees s T \<sigma>" and d: "d < nb_temps s" "tstate (T d) = TCG_TEMP_UNDEF"
    and r: "r < nb_temps s" "d \<noteq> r" and e: "\<sigma> d = \<sigma> r"
  shows "agrees s (insert_copy T d r) \<sigma>"
proof -
  have "old_next T r \<noteq> d" using linked_copy(3) [OF l r(1)] d(2) r(2) by (auto simp: old_next_def)
  note f = insert_fields [OF r(2) this]
  have "\<sigma> (old_next T r) = \<sigma> r" using a r(1) by (simp add: old_next_def agrees_def)
  with a e show ?thesis unfolding agrees_def by (simp add: f)
qed

lemma gen_mov_some:
  assumes l: "linked s T" and d: "unat dst < nb_temps s" and r: "unat src < nb_temps s" "dst \<noteq> src"
    and c: "\<not> is_const T src"
  shows "\<exists>T'. tcg_opt_gen_mov s T dst src = Some (T', [dst, src]) \<and> linked s T' \<and>
    (\<forall>\<sigma>. agrees s T \<sigma> \<longrightarrow> agrees s T' (put dst (trunc (temp_type s (unat dst)) (get \<sigma> src)) \<sigma>))"
proof -
  let ?d = "unat dst" and ?r = "unat src"
  have ne: "?d \<noteq> ?r" using r(2) by (simp add: word_unat_eq_iff)
  let ?T = "(reset_temp T ?d)(?d := (reset_temp T ?d ?d)\<lparr>tmask := tmask (reset_temp T ?d ?r)\<rparr>)"
  have cr: "tstate (reset_temp T ?d ?r) \<noteq> TCG_TEMP_CONST"
    using reset_temp_other(1) [OF l d r(1)] c ne by (auto simp: is_const_def)
  then have m: "tmask (reset_temp T ?d ?r) = - 1" using linked_mask [OF linked_reset [OF l d] r(1)] by simp
  have l1: "linked s ?T" unfolding m
    by (rule linked_replace [OF linked_reset [OF l d] d]) (simp_all add: reset_temp_at)
  have a1: "agrees s ?T (put dst (trunc (temp_type s ?d) (get \<sigma> src)) \<sigma>)" if "agrees s T \<sigma>" for \<sigma>
    unfolding m put_def
    by (rule agrees_replace [OF linked_reset [OF l d] agrees_reset [OF l that d] d]) (simp_all add: reset_temp_at)
  have st: "tstate (?T ?d) = TCG_TEMP_UNDEF" "tstate (?T ?r) \<noteq> TCG_TEMP_CONST"
    using cr ne by (simp_all add: reset_temp_at)
  show ?thesis
  proof (cases "temp_type s ?r = temp_type s ?d")
    case True
    have "tcg_opt_gen_mov s T dst src = Some (insert_copy ?T ?d ?r, [dst, src])"
      using True cr ne by (simp add: tcg_opt_gen_mov_def insert_copy_def Let_def)
    moreover have "agrees s (insert_copy ?T ?d ?r) (put dst (trunc (temp_type s ?d) (get \<sigma> src)) \<sigma>)"
      if a: "agrees s T \<sigma>" for \<sigma>
    proof (rule agrees_insert [OF l1 a1 [OF a] d st(1) r(1) ne])
      have "trunc (temp_type s ?r) (\<sigma> ?r) = \<sigma> ?r" using a r(1) by (simp add: agrees_def)
      with True ne show "put dst (trunc (temp_type s ?d) (get \<sigma> src)) \<sigma> ?d = put dst (trunc (temp_type s ?d) (get \<sigma> src)) \<sigma> ?r"
        by (simp add: put_def get_def)
    qed
    ultimately show ?thesis using linked_insert_copy [OF l1 d st(1) r(1) ne st(2) True] by blast
  next
    case False
    have "tcg_opt_gen_mov s T dst src = Some (?T, [dst, src])"
      using False cr ne by (simp add: tcg_opt_gen_mov_def Let_def)
    with l1 a1 show ?thesis by blast
  qed
qed

subsection \<open>Walking along the copies\<close>

abbreviation nth_copy :: "temp_infos \<Rightarrow> nat \<Rightarrow> nat \<Rightarrow> nat" where
  "nth_copy T k t \<equiv> ((\<lambda>i. next_copy (T i)) ^^ k) t"

lemma orbit:
  assumes l: "linked s T" and t: "t < nb_temps s" "tstate (T t) = TCG_TEMP_COPY"
  shows "nth_copy T k t < nb_temps s \<and> tstate (T (nth_copy T k t)) = TCG_TEMP_COPY \<and>
    temp_type s (nth_copy T k t) = temp_type s t \<and> (\<forall>\<sigma>. agrees s T \<sigma> \<longrightarrow> \<sigma> (nth_copy T k t) = \<sigma> t)"
proof (induction k)
  case (Suc k)
  then show ?case using linked_copy [OF l, of "nth_copy T k t"] by (auto simp: agrees_def)
qed (use t in simp)

lemma orbit_cancel:
  assumes l: "linked s T" and t: "t < nb_temps s" "tstate (T t) = TCG_TEMP_COPY"
  shows "nth_copy T (i + k) t = nth_copy T i t \<Longrightarrow> nth_copy T k t = t"
proof (induction i)
  case (Suc i)
  have "next_copy (T (nth_copy T (i + k) t)) = next_copy (T (nth_copy T i t))" using Suc.prems by simp
  then have "nth_copy T (i + k) t = nth_copy T i t"
    using linked_copy(5) [OF l, of "nth_copy T (i + k) t"] linked_copy(5) [OF l, of "nth_copy T i t"] orbit [OF assms] by metis
  then show ?case by (rule Suc.IH)
qed simp

lemma orbit_returns:
  assumes l: "linked s T" and t: "t < nb_temps s" "tstate (T t) = TCG_TEMP_COPY"
  shows "\<exists>k>0. nth_copy T k t = t"
proof -
  have "range (\<lambda>k. nth_copy T k t) \<subseteq> {..<nb_temps s}" using orbit [OF assms] by auto
  then have "\<not> inj (\<lambda>k. nth_copy T k t)" using finite_subset [of _ "{..<nb_temps s}"] finite_imageD [of "\<lambda>k. nth_copy T k t" UNIV] infinite_UNIV_nat by blast
  then obtain i j where "i \<noteq> j" "nth_copy T i t = nth_copy T j t" by (auto simp: inj_def)
  then obtain i k where "k > 0" "nth_copy T (i + k) t = nth_copy T i t"
    by (metis less_imp_add_positive linorder_neqE_nat)
  with orbit_cancel [OF assms] show ?thesis by blast
qed

text \<open>The walk comes back to where it started, or stops at a copy with the property before.\<close>

lemma find_copy_some:
  assumes l: "linked s T" and t: "t < nb_temps s" "tstate (T t) = TCG_TEMP_COPY"
  shows "\<exists>r. find_copy P T t (next_copy (T t)) = Some r \<and>
    (case r of None \<Rightarrow> True | Some i \<Rightarrow> P i \<and> (\<exists>k. i = nth_copy T k t))"
proof -
  obtain m where m: "m > 0" "nth_copy T m t = t" using orbit_returns [OF assms] by blast
  have "\<exists>r. find_copy P T t (nth_copy T k t) = Some r \<and>
      (case r of None \<Rightarrow> True | Some i \<Rightarrow> P i \<and> (\<exists>k. i = nth_copy T k t))" if "k \<le> m" for k
    using that
  proof (induction rule: inc_induct)
    case base
    show ?case using m(2) by (simp add: find_copy.simps)
  next
    case (step k)
    then obtain r where "find_copy P T t (nth_copy T (Suc k) t) = Some r"
      "case r of None \<Rightarrow> True | Some i \<Rightarrow> P i \<and> (\<exists>k. i = nth_copy T k t)" by blast
    then show ?case
      by (subst find_copy.simps) auto
  qed
  from this [of 1] m(1) show ?thesis by simp
qed

lemma find_better_copy_some:
  assumes l: "linked s T" and t: "t < nb_temps s" "tstate (T t) = TCG_TEMP_COPY"
  shows "\<exists>b. find_better_copy s T t = Some b \<and> (\<exists>k. b = nth_copy T k t)"
proof -
  have self: "\<exists>k. t = nth_copy T k t" by (rule exI [of _ 0]) simp
  obtain r1 where r1: "find_copy (\<lambda>i. i < nb_globals s) T t (next_copy (T t)) = Some r1"
    "case r1 of None \<Rightarrow> True | Some i \<Rightarrow> i < nb_globals s \<and> (\<exists>k. i = nth_copy T k t)"
    using find_copy_some [OF assms] by blast
  obtain r2 where r2: "find_copy (temp_local s) T t (next_copy (T t)) = Some r2"
    "case r2 of None \<Rightarrow> True | Some i \<Rightarrow> temp_local s i \<and> (\<exists>k. i = nth_copy T k t)"
    using find_copy_some [OF assms] by blast
  show ?thesis
    using r1 r2 self by (auto simp: find_better_copy_def split: option.splits)
qed

text \<open>Temporaries of the program: equal type and, at run time, equal value.\<close>

lemma temps_are_copies_some:
  assumes l: "linked s T" and x: "unat x < nb_temps s"
  shows "\<exists>b. temps_are_copies T x y = Some b \<and> (b \<longrightarrow> temp_type s (unat x) = temp_type s (unat y) \<and>
    (\<forall>\<sigma>. agrees s T \<sigma> \<longrightarrow> get \<sigma> x = get \<sigma> y)) \<and> (x = y \<longrightarrow> b)"
proof (cases "x = y \<or> tstate (T (unat x)) \<noteq> TCG_TEMP_COPY \<or> tstate (T (unat y)) \<noteq> TCG_TEMP_COPY")
  case True
  then show ?thesis by (auto simp: temps_are_copies_def)
next
  case False
  then have c: "tstate (T (unat x)) = TCG_TEMP_COPY" by simp
  obtain r where r: "find_copy (\<lambda>i. i = unat y) T (unat x) (next_copy (T (unat x))) = Some r"
    "case r of None \<Rightarrow> True | Some i \<Rightarrow> i = unat y \<and> (\<exists>k. i = nth_copy T k (unat x))"
    using find_copy_some [OF l x c, of "\<lambda>i. i = unat y"] by blast
  show ?thesis
  proof (cases r)
    case None
    with r(1) False show ?thesis by (intro exI [of _ False]) (simp add: temps_are_copies_def)
  next
    case (Some i)
    with r(2) obtain k where k: "unat y = nth_copy T k (unat x)" by auto
    have "\<sigma> (unat x) = \<sigma> (unat y)" if "agrees s T \<sigma>" for \<sigma>
      unfolding k using orbit [OF l x c, of k] that by metis
    moreover have "temp_type s (unat x) = temp_type s (unat y)" unfolding k using orbit [OF l x c, of k] by metis
    ultimately show ?thesis using r(1) False Some by (intro exI [of _ True]) (simp add: temps_are_copies_def get_def)
  qed
qed

subsection \<open>Copy propagation\<close>

text \<open>Two argument lists that mean the same: they differ only in temporaries of equal type and value.\<close>

definition same_arg :: "tcg_context \<Rightarrow> temp_infos \<Rightarrow> u64 \<Rightarrow> u64 \<Rightarrow> bool" where
  "same_arg s T x y \<longleftrightarrow> unat y < nb_temps s \<and> temp_type s (unat y) = temp_type s (unat x) \<and>
    (if tstate (T (unat x)) = TCG_TEMP_COPY then tstate (T (unat y)) = TCG_TEMP_COPY else y = x) \<and>
    (\<forall>\<sigma>. agrees s T \<sigma> \<longrightarrow> get \<sigma> y = get \<sigma> x)"

lemma better_copy_arg:
  assumes l: "linked s T" and nb: "nb_temps s \<le> 2 ^ 64" and t: "unat x < nb_temps s" "tstate (T (unat x)) = TCG_TEMP_COPY"
  shows "\<exists>b. find_better_copy s T (unat x) = Some b \<and> same_arg s T x (of_nat b)"
proof -
  obtain b k where b: "find_better_copy s T (unat x) = Some b" "b = nth_copy T k (unat x)"
    using find_better_copy_some [OF l t] by blast
  note o = orbit [OF l t, of k, folded b(2)]
  then have "unat (of_nat b :: u64) = b" using nb by (simp add: unsigned_of_nat take_bit_nat_eq_self)
  with o t(2) have "same_arg s T x (of_nat b)" unfolding same_arg_def get_def by simp
  with b(1) show ?thesis by blast
qed

lemma copy_args_some:
  assumes l: "linked s T" and nb: "nb_temps s \<le> 2 ^ 64"
  shows "i + n \<le> length a \<Longrightarrow> (\<And>j. i \<le> j \<Longrightarrow> j < i + n \<Longrightarrow> unat (a ! j) < nb_temps s) \<Longrightarrow>
    \<exists>b. copy_args s T i n a = Some b \<and> length b = length a \<and>
      (\<forall>j. if i \<le> j \<and> j < i + n then same_arg s T (a ! j) (b ! j) else b ! j = a ! j)"
proof (induction n arbitrary: i a)
  case 0
  show ?case by (rule exI [of _ a]) auto
next
  case (Suc n)
  have refl: "same_arg s T (a ! i) (a ! i)" using Suc.prems(2) [of i] by (simp add: same_arg_def)
  obtain x where x: "copy_args s T i (Suc n) a = copy_args s T (Suc i) n (a[i := x])" "same_arg s T (a ! i) x"
  proof (cases "tstate (T (unat (a ! i))) = TCG_TEMP_COPY")
    case True
    then obtain b where "find_better_copy s T (unat (a ! i)) = Some b" "same_arg s T (a ! i) (of_nat b)"
      using better_copy_arg [OF l nb, of "a ! i"] Suc.prems(2) [of i] by auto
    with that [of "of_nat b"] True show ?thesis by simp
  next
    case False
    with that [of "a ! i"] refl show ?thesis by simp
  qed
  obtain b where b: "copy_args s T (Suc i) n (a[i := x]) = Some b" "length b = length a"
    "\<And>j. if Suc i \<le> j \<and> j < Suc i + n then same_arg s T (a[i := x] ! j) (b ! j) else b ! j = a[i := x] ! j"
    using Suc.IH [of "Suc i" "a[i := x]"] Suc.prems by auto
  have "if i \<le> j \<and> j < i + Suc n then same_arg s T (a ! j) (b ! j) else b ! j = a ! j" for j
  proof (cases "j = i")
    case True
    have "i < length a" using Suc.prems(1) by simp
    with True b(3) [of i] x(2) show ?thesis by simp
  next
    case False
    with b(3) [of j] show ?thesis by (auto split: if_splits)
  qed
  with x(1) b(1,2) show ?case by auto
qed

end
