(* ===== verification/TcgFold.thy ===== *)
theory TcgFold
  imports TcgTemps
begin

text \<open>
  Folding on constants computes what the operation means: \<open>do_constant_folding\<close> against \<open>alu_at\<close> and
  \<open>alu1_at\<close>, the folded comparisons against \<open>compare_at\<close>.
\<close>

subsection \<open>Low halves\<close>

lemma trunc32: "trunc TCG_TYPE_I32 v = ucast (ucast v :: u32)"
  by (rule bit_word_eqI) (simp add: trunc_def bit_simps)

lemma trunc64: "trunc TCG_TYPE_I64 v = v"
  by (simp add: trunc_def)

lemma low_trunc [simp]: "(ucast (trunc w v) :: u32) = ucast v"
  by (rule bit_word_eqI) (cases w, auto simp: trunc_def bit_simps)

lemma low_mask: "(ucast (v AND 0xffffffff :: u64) :: u32) = ucast v"
proof -
  have "v AND 0xffffffff = take_bit 32 v" by (simp add: take_bit_eq_mask mask_eq_exp_minus_1)
  then show ?thesis by (auto simp: bit_eq_iff bit_simps simp del: take_bit_eq_mod)
qed

lemma low_all [simp]: "(x :: u32) AND 0xffffffff = x"
proof -
  have "(0xffffffff :: u32) = - 1" by simp
  then show ?thesis by (simp only: and.right_neutral)
qed

lemma low_arith:
  "(ucast (x + y :: u64) :: u32) = ucast x + ucast y"
  "(ucast (x - y :: u64) :: u32) = ucast x - ucast y"
  "(ucast (x * y :: u64) :: u32) = ucast x * ucast y"
  "(ucast (- x :: u64) :: u32) = - ucast x"
  by (simp_all add: word_uint_eq_iff uint_word_ariths unsigned_ucast_eq take_bit_eq_mod mod_mod_cancel mod_simps)

lemma low_logic:
  "(ucast (x AND y :: u64) :: u32) = ucast x AND ucast y"
  "(ucast (x OR y :: u64) :: u32) = ucast x OR ucast y"
  "(ucast (x XOR y :: u64) :: u32) = ucast x XOR ucast y"
  "(ucast (NOT x :: u64) :: u32) = NOT (ucast x)"
  by (auto simp: bit_eq_iff bit_simps)

lemma low_ext:
  "(ucast (scast (ucast x :: u8) :: u64) :: u32) = signed_take_bit 7 (ucast x)"
  "(ucast (scast (ucast x :: u16) :: u64) :: u32) = signed_take_bit 15 (ucast x)"
  "(ucast (ucast (ucast x :: u8) :: u64) :: u32) = take_bit 8 (ucast (x :: u64))"
  "(ucast (ucast (ucast x :: u16) :: u64) :: u32) = take_bit 16 (ucast (x :: u64))"
  by (auto simp: bit_eq_iff bit_simps min_def)

lemma low_cast: "(ucast (ucast (x :: u32) :: u64) :: u32) = x" "(ucast (scast x :: u64) :: u32) = x"
  by (auto simp: bit_eq_iff bit_simps)

lemma full_ext:
  "(scast (ucast (x :: u64) :: u8) :: u64) = signed_take_bit 7 x"
  "(scast (ucast x :: u16) :: u64) = signed_take_bit 15 x"
  "(ucast (ucast x :: u8) :: u64) = take_bit 8 x"
  "(ucast (ucast x :: u16) :: u64) = take_bit 16 x"
  "(scast (ucast x :: u32) :: u64) = signed_take_bit 31 x"
  "(ucast (ucast x :: u32) :: u64) = take_bit 32 x"
  by (auto simp: bit_eq_iff bit_simps min_def)

subsection \<open>Shifts and rotations\<close>

lemma rotl_or:
  fixes x :: "'a::len word"
  assumes n: "n < LENGTH('a)"
  shows "push_bit n x OR drop_bit ((LENGTH('a) - n) mod LENGTH('a)) x = word_rotl n x"
proof (cases "n = 0")
  case True
  show ?thesis unfolding True by (simp add: bit_eq_iff bit_simps)
next
  case False
  show ?thesis
  proof (rule bit_word_eqI)
    fix i assume i: "i < LENGTH('a)"
    have d: "(LENGTH('a) - n) mod LENGTH('a) = LENGTH('a) - n" using n False by simp
    show "bit (push_bit n x OR drop_bit ((LENGTH('a) - n) mod LENGTH('a)) x) i = bit (word_rotl n x) i"
    proof (cases "i < n")
      case True
      then have "(i + (LENGTH('a) - n)) mod LENGTH('a) = LENGTH('a) - n + i" using n by simp
      with True i n show ?thesis by (simp add: d bit_simps)
    next
      case False
      then have "i + (LENGTH('a) - n) = i - n + LENGTH('a)" using n by simp
      then have e: "(i + (LENGTH('a) - n)) mod LENGTH('a) = i - n" using i by (metis less_imp_diff_less mod_add_self2 mod_less)
      have "\<not> bit x (LENGTH('a) - n + i)" using False n by (intro notI) (drule bit_imp_le_length, simp)
      with False i n e show ?thesis by (simp add: d bit_simps)
    qed
  qed
qed

lemma rotr_or:
  fixes x :: "'a::len word"
  assumes n: "n < LENGTH('a)"
  shows "push_bit ((LENGTH('a) - n) mod LENGTH('a)) x OR drop_bit n x = word_rotr n x"
proof -
  let ?k = "(LENGTH('a) - n) mod LENGTH('a)"
  have "(LENGTH('a) - ?k) mod LENGTH('a) = n" using n by (cases "n = 0") simp_all
  then have "push_bit ?k x OR drop_bit n x = word_rotl ?k x" using rotl_or [of ?k x] by simp
  also have "\<dots> = word_rotr n x"
  proof (cases "n = 0")
    case True
    show ?thesis unfolding True by (simp add: bit_eq_iff bit_simps)
  next
    case False
    with n show ?thesis by (simp add: word_rotl_eq_word_rotr)
  qed
  finally show ?thesis .
qed

lemma count_minus: "unat (of_nat n - y :: u64) mod n = (n - unat y mod n) mod n" if "n dvd 2 ^ 64" "n < 2 ^ 64" "n > 0"
proof -
  have "int (unat (of_nat n - y :: u64) mod n) = (int n - uint y) mod 2 ^ 64 mod int n"
    using that(2) by (simp add: zmod_int uint_word_ariths unsigned_of_nat take_bit_nat_eq_self)
  also have "\<dots> = (int n - uint y) mod int n"
    using that(1) by (intro mod_mod_cancel) (metis int_dvd_int_iff of_nat_numeral of_nat_power)
  also have "\<dots> = (int n - uint y mod int n) mod int n" by (rule mod_diff_right_eq [symmetric])
  also have "\<dots> = int ((n - unat y mod n) mod n)"
    using that(3) by (simp add: zmod_int of_nat_diff less_imp_le)
  finally show ?thesis by simp
qed

lemma count_low: "unat (y :: u64) mod 32 = unat (ucast y :: u32) mod 32"
  by (simp add: unsigned_ucast_eq take_bit_eq_mod mod_mod_cancel)

lemma fold_shifts:
  fixes x y :: u64
  assumes "unat y < 64"
  shows "hshl x y = push_bit (unat y) x" "hshr x y = drop_bit (unat y) x" "hsar x y = signed_drop_bit (unat y) x"
    "push_bit (unat y) x OR hshr x (64 - y) = word_rotl (unat y) x"
    "hshl x (64 - y) OR drop_bit (unat y) x = word_rotr (unat y) x"
  using assms rotl_or [of "unat y" x] rotr_or [of "unat y" x] count_minus [of 64 y]
  by (simp_all add: hshl_def hshr_def hsar_def)

lemma fold_shifts32:
  fixes x :: u32 and y :: u64
  assumes "unat (ucast y :: u32) < 32"
  shows "hshl x (ucast y :: u32) = push_bit (unat (ucast y :: u32)) x" "hshr x (ucast y :: u32) = drop_bit (unat (ucast y :: u32)) x"
    "hsar x (ucast y :: u32) = signed_drop_bit (unat (ucast y :: u32)) x"
    "hshl x y OR hshr x (32 - y) = word_rotl (unat (ucast y :: u32)) x"
    "hshl x (32 - y) OR hshr x y = word_rotr (unat (ucast y :: u32)) x"
  using assms rotl_or [of "unat (ucast y :: u32)" x] rotr_or [of "unat (ucast y :: u32)" x] count_minus [of 32 y] count_low [of y]
  by (simp_all add: hshl_def hshr_def hsar_def)

subsection \<open>Operations\<close>

lemma fold_bin:
  assumes "b \<notin> {Div, Divu, Rem, Remu}"
  shows "\<exists>r. do_constant_folding (INDEX_op_bin b w) x y = Some r \<and> (\<forall>v. alu_at w b x y = Some v \<longrightarrow> trunc w r = v)"
  using assms
  by (cases b; cases w; simp add: do_constant_folding_def do_constant_folding_2_def alu_at_def alu_def op_type_def Let_def
      trunc32 trunc64 low_mask low_arith low_logic low_cast fold_shifts fold_shifts32)

lemma fold_un:
  assumes "u \<in> {Not, Neg, Ext8s, Ext8u, Ext16s, Ext16u} \<or> u \<in> {Ext32s, Ext32u} \<and> w = TCG_TYPE_I64"
  shows "\<exists>r. do_constant_folding (INDEX_op_un u w) x 0 = Some r \<and> (\<forall>v. alu1_at w u x = Some v \<longrightarrow> trunc w r = v)"
  using assms
proof (cases w)
  case TCG_TYPE_I32
  with assms show ?thesis
    by (cases u; simp add: do_constant_folding_def do_constant_folding_2_def alu1_at_def alu1_def op_type_def Let_def
      trunc32 low_arith low_logic low_cast low_ext)
next
  case TCG_TYPE_I64
  with assms show ?thesis
    by (cases u; simp add: do_constant_folding_def do_constant_folding_2_def alu1_at_def alu1_def op_type_def Let_def
      trunc64 full_ext)
qed

subsection \<open>Comparisons\<close>

lemma fold_cond:
  "do_constant_folding_cond_32 x y c = compare c x y"
  "do_constant_folding_cond_64 x' y' c = compare c x' y'"
  by (simp_all add: do_constant_folding_cond_32_def do_constant_folding_cond_64_def compare_def
      word_sless_alt word_sle_eq word_less_def word_le_def)

lemma compare_self: "compare c x x = do_constant_folding_cond_eq c"
  by (simp add: compare_def do_constant_folding_cond_eq_def)

lemma compare_zero:
  "compare TCG_COND_LTU x 0 = Some False" "compare TCG_COND_GEU x 0 = Some True"
  by (simp_all add: compare_def)

definition valid_cond :: "u64 \<Rightarrow> bool" where
  "valid_cond c \<longleftrightarrow> c \<in> {TCG_COND_EQ, TCG_COND_NE, TCG_COND_LT, TCG_COND_GE, TCG_COND_LE, TCG_COND_GT,
     TCG_COND_LTU, TCG_COND_GEU, TCG_COND_LEU, TCG_COND_GTU}"

lemma compare_swap: "valid_cond c \<Longrightarrow> compare (tcg_swap_cond c) y x = compare c x y"
  unfolding valid_cond_def by (elim insertE emptyE) (auto simp: compare_def tcg_swap_cond_def)

lemma compare_invert: "valid_cond c \<Longrightarrow> compare (tcg_invert_cond c) x y = map_option (\<lambda>b. \<not> b) (compare c x y)"
  unfolding valid_cond_def by (elim insertE emptyE) (auto simp: compare_def tcg_invert_cond_def)

lemma compare_valid: "valid_cond c \<Longrightarrow> \<exists>b. compare c x y = Some b"
  unfolding valid_cond_def by (elim insertE emptyE) (auto simp: compare_def)

lemma valid_conds: "valid_cond c \<Longrightarrow> valid_cond (tcg_swap_cond c)" "valid_cond c \<Longrightarrow> valid_cond (tcg_invert_cond c)"
  unfolding valid_cond_def by (elim insertE emptyE; simp add: tcg_swap_cond_def tcg_invert_cond_def)+

end
