(* ===== verification/TcgStep.thy ===== *)
theory TcgStep
  imports TcgFold
begin

text \<open>
  One iteration of the pass: for a well-typed operation \<open>fold_step\<close> gives a replacement (\<open>good\<close>) that computes what
  the operation computes, and a state of the temporaries that stays true.
\<close>

subsection \<open>Well-typed operations\<close>

definition temp_ok :: "tcg_context \<Rightarrow> u64 \<Rightarrow> bool" where
  "temp_ok s x \<longleftrightarrow> unat x < nb_temps s"

definition out_ok :: "tcg_context \<Rightarrow> tcg_type \<Rightarrow> u64 \<Rightarrow> bool" where
  "out_ok s w x \<longleftrightarrow> temp_ok s x \<and> temp_type s (unat x) = w"

text \<open>An operation on 32 bits may read the low half of a 64-bit temporary; the converse only to extend it.\<close>

definition in_ok :: "tcg_context \<Rightarrow> tcg_type \<Rightarrow> u64 \<Rightarrow> bool" where
  "in_ok s w x \<longleftrightarrow> temp_ok s x \<and> (w = TCG_TYPE_I64 \<longrightarrow> temp_type s (unat x) = TCG_TYPE_I64)"

definition wf_args :: "tcg_context \<Rightarrow> tcg_opcode \<Rightarrow> u64 list \<Rightarrow> bool" where
  "wf_args s op a = (case op of
       INDEX_op_end \<Rightarrow> False | INDEX_op_nopn \<Rightarrow> False | INDEX_op_setcond2_i32 \<Rightarrow> False
     | INDEX_op_mov w \<Rightarrow> out_ok s w (a ! 0) \<and> in_ok s w (a ! 1)
     | INDEX_op_movi w \<Rightarrow> out_ok s w (a ! 0)
     | INDEX_op_setcond w \<Rightarrow> out_ok s w (a ! 0) \<and> in_ok s w (a ! 1) \<and> in_ok s w (a ! 2) \<and> valid_cond (a ! 3)
     | INDEX_op_movcond w \<Rightarrow> out_ok s w (a ! 0) \<and> in_ok s w (a ! 1) \<and> in_ok s w (a ! 2) \<and> in_ok s w (a ! 3)
         \<and> in_ok s w (a ! 4) \<and> valid_cond (a ! 5)
     | INDEX_op_bin b w \<Rightarrow> out_ok s w (a ! 0) \<and> in_ok s w (a ! 1) \<and> in_ok s w (a ! 2)
     | INDEX_op_un u w \<Rightarrow> out_ok s w (a ! 0) \<and> temp_ok s (a ! 1)
         \<and> (if u \<in> {Ext32s, Ext32u} then w = TCG_TYPE_I64 else in_ok s w (a ! 1))
     | INDEX_op_deposit w \<Rightarrow> out_ok s w (a ! 0) \<and> in_ok s w (a ! 1) \<and> in_ok s w (a ! 2) \<and> unat (a ! 4) < 64
     | INDEX_op_brcond w \<Rightarrow> in_ok s w (a ! 0) \<and> in_ok s w (a ! 1) \<and> valid_cond (a ! 2)
     | INDEX_op_add2_i32 \<Rightarrow> out_ok s TCG_TYPE_I32 (a ! 0) \<and> out_ok s TCG_TYPE_I32 (a ! 1)
         \<and> (\<forall>i \<in> {2, 3, 4, 5}. temp_ok s (a ! i))
     | INDEX_op_sub2_i32 \<Rightarrow> out_ok s TCG_TYPE_I32 (a ! 0) \<and> out_ok s TCG_TYPE_I32 (a ! 1)
         \<and> (\<forall>i \<in> {2, 3, 4, 5}. temp_ok s (a ! i))
     | INDEX_op_mulu2_i32 \<Rightarrow> out_ok s TCG_TYPE_I32 (a ! 0) \<and> out_ok s TCG_TYPE_I32 (a ! 1)
         \<and> temp_ok s (a ! 2) \<and> temp_ok s (a ! 3)
     | INDEX_op_brcond2_i32 \<Rightarrow> (\<forall>i \<in> {0, 1, 2, 3}. temp_ok s (a ! i)) \<and> valid_cond (a ! 4)
     | INDEX_op_call \<Rightarrow> nb_globals s \<le> nb_temps s \<and>
         (\<forall>i < call_oargs (a ! 0) + call_iargs (a ! 0). temp_ok s (a ! (i + 1)))
     | _ \<Rightarrow> (\<forall>i < nb_oargs op + nb_iargs op. temp_ok s (a ! i)))"

definition wf_op :: "tcg_context \<Rightarrow> tcg_opcode \<Rightarrow> u64 list \<Rightarrow> bool" where
  "wf_op s op a \<longleftrightarrow> length a = args_taken op a \<and> nb_temps s \<le> 2 ^ 64 \<and> wf_args s op a"

lemmas op_counts = nb_oargs_def nb_iargs_def nb_cargs_def nb_args_def args_taken_def

lemma all_less:
  "(\<forall>i < (1 :: nat). P i) \<longleftrightarrow> P 0" "(\<forall>i < (2 :: nat). P i) \<longleftrightarrow> P 0 \<and> P 1"
  "(\<forall>i < (3 :: nat). P i) \<longleftrightarrow> P 0 \<and> P 1 \<and> P 2" "(\<forall>i < (4 :: nat). P i) \<longleftrightarrow> P 0 \<and> P 1 \<and> P 2 \<and> P 3"
  "(\<forall>i < (5 :: nat). P i) \<longleftrightarrow> P 0 \<and> P 1 \<and> P 2 \<and> P 3 \<and> P 4"
  "(\<forall>i < (6 :: nat). P i) \<longleftrightarrow> P 0 \<and> P 1 \<and> P 2 \<and> P 3 \<and> P 4 \<and> P 5"
  by (simp_all add: eval_nat_numeral All_less_Suc conj_ac)

lemma wf_inputs:
  assumes "wf_op s op a"
  shows "op \<noteq> INDEX_op_call \<Longrightarrow> nb_oargs op + nb_iargs op \<le> length a \<and>
      (\<forall>i < nb_oargs op + nb_iargs op. unat (a ! i) < nb_temps s)"
  using assms unfolding wf_op_def wf_args_def
  by (cases op; simp add: op_counts out_ok_def in_ok_def temp_ok_def all_less All_less_Suc numeral_2_eq_2 numeral_3_eq_3
      split: if_split_asm)

subsection \<open>Replacements\<close>

fun shaped :: "tcg_opcode list \<Rightarrow> u64 list \<Rightarrow> bool" where
  "shaped [] g = (g = [])"
| "shaped (op # ops) g = (args_taken op g \<le> length g \<and> (op = INDEX_op_call \<longrightarrow> g \<noteq> []) \<and>
     (op = INDEX_op_set_label \<longrightarrow> g \<noteq> []) \<and> shaped ops (drop (args_taken op g) g))"

lemma args_taken_append: "op = INDEX_op_call \<longrightarrow> g \<noteq> [] \<Longrightarrow> args_taken op (g @ h) = args_taken op g"
  by (simp add: args_taken_def nth_append)

lemma exec_append:
  "shaped ops g \<Longrightarrow> exec E s (ops @ ops') (g @ g') \<sigma> w =
    (case exec E s ops g \<sigma> w of Next \<sigma> w \<Rightarrow> exec E s ops' g' \<sigma> w | r \<Rightarrow> r)"
proof (induction ops arbitrary: g \<sigma> w)
  case (Cons op ops)
  then show ?case
    by (auto simp: args_taken_append Let_def split: tcg_result.split)
qed simp

definition good :: "'w tcg_env \<Rightarrow> tcg_context \<Rightarrow> temp_infos \<Rightarrow> tcg_opcode list \<Rightarrow> tcg_opcode \<Rightarrow> u64 list \<Rightarrow> folded option \<Rightarrow> bool" where
  "good E s T ops op a r \<longleftrightarrow> (\<exists>T' out gen. r = Some (T', out, gen) \<and> linked s T' \<and> shaped out gen \<and>
    (length out = 1 \<or> length out = 2 \<and> ops \<noteq> [] \<and> hd ops = INDEX_op_nop) \<and>
    (if op = INDEX_op_set_label then out = [op] \<and> gen = a \<and> T' = reset_all_temps (nb_temps s) T
     else INDEX_op_set_label \<notin> set out) \<and>
    (\<forall>\<sigma> w. agrees s T \<sigma> \<longrightarrow> exec_op E s op a \<sigma> w \<noteq> Undefined \<longrightarrow>
       exec E s out gen \<sigma> w = exec_op E s op a \<sigma> w \<and>
       (\<forall>\<sigma>' w'. exec_op E s op a \<sigma> w = Next \<sigma>' w' \<longrightarrow> agrees s T' \<sigma>')))"

subsection \<open>Values\<close>

lemma get_normal: "agrees s T \<sigma> \<Longrightarrow> temp_ok s x \<Longrightarrow> trunc (temp_type s (unat x)) (get \<sigma> x) = get \<sigma> x"
  by (simp add: agrees_def temp_ok_def get_def)

lemma get_const: "agrees s T \<sigma> \<Longrightarrow> temp_ok s x \<Longrightarrow> is_const T x \<Longrightarrow>
    get \<sigma> x = trunc (temp_type s (unat x)) (val_of T x)"
  by (simp add: agrees_def temp_ok_def get_def is_const_def val_of_def)

lemma mask_of_eq: "linked s T \<Longrightarrow> temp_ok s x \<Longrightarrow> mask_of T x = (if is_const T x then val_of T x else - 1)"
  by (auto simp: mask_of_def is_const_def val_of_def temp_ok_def linked_const linked_mask)

lemma low_const: "agrees s T \<sigma> \<Longrightarrow> temp_ok s x \<Longrightarrow> is_const T x \<Longrightarrow> (ucast (get \<sigma> x) :: u32) = ucast (val_of T x)"
  by (simp add: get_const)

lemma in_const:
  assumes "agrees s T \<sigma>" "in_ok s w x" "is_const T x"
  shows "trunc w (get \<sigma> x) = trunc w (val_of T x)"
proof (cases w)
  case TCG_TYPE_I32
  with assms show ?thesis by (simp add: trunc32 low_const in_ok_def)
next
  case TCG_TYPE_I64
  with assms get_const [of s T \<sigma> x] show ?thesis by (simp add: trunc64 in_ok_def)
qed

lemma trunc_eq32: "trunc TCG_TYPE_I32 x = trunc TCG_TYPE_I32 y \<longleftrightarrow> (ucast x :: u32) = ucast y"
  unfolding trunc32 by (metis low_cast(1))

lemma at_cong:
  assumes "trunc w x = trunc w x'" "trunc w y = trunc w y'"
  shows "alu_at w b x y = alu_at w b x' y'" "alu1_at w u x = alu1_at w u x'" "compare_at w c x y = compare_at w c x' y'"
  using assms by (cases w; simp add: alu_at_def alu1_at_def compare_at_def trunc_eq32 trunc64)+

lemma out_is: "out_ok s w x \<Longrightarrow> unat x < nb_temps s" "out_ok s w x \<Longrightarrow> temp_type s (unat x) = w"
  by (simp_all add: out_ok_def temp_ok_def)

lemma put_same: "agrees s T \<sigma> \<Longrightarrow> out_ok s w x \<Longrightarrow> get \<sigma> x = v \<Longrightarrow> put x (trunc w v) \<sigma> = \<sigma>"
  using get_normal [of s T \<sigma> x] by (auto simp: put_def get_def out_ok_def fun_upd_idem_iff)

subsection \<open>The replacements the pass emits\<close>

lemma exec_basic:
  "exec_op E s INDEX_op_nop g \<sigma> w = Next \<sigma> w"
  "exec_op E s (INDEX_op_mov t) g \<sigma> w = Next (put (g ! 0) (trunc t (get \<sigma> (g ! 1))) \<sigma>) w"
  "exec_op E s (INDEX_op_movi t) g \<sigma> w = Next (put (g ! 0) (trunc t (g ! 1)) \<sigma>) w"
  "exec_op E s INDEX_op_br g \<sigma> w = Jump (g ! 0) \<sigma> w"
  by (simp_all add: exec_op_def Let_def)

lemma exec_one: "exec E s [op] g \<sigma> w = exec_op E s op (take (args_taken op g) g) \<sigma> w"
  by (simp add: Let_def split: tcg_result.split)

lemma goodI:
  assumes "r = Some (T', [o'], gen)" "linked s T'" "args_taken o' gen = length gen" "gen \<noteq> [] \<or> o' = INDEX_op_nop"
    "op \<noteq> INDEX_op_set_label" "o' \<noteq> INDEX_op_set_label"
    "\<And>\<sigma> w. agrees s T \<sigma> \<Longrightarrow> exec_op E s op a \<sigma> w \<noteq> Undefined \<Longrightarrow> exec_op E s o' gen \<sigma> w = exec_op E s op a \<sigma> w"
    "\<And>\<sigma> w \<sigma>' w'. agrees s T \<sigma> \<Longrightarrow> exec_op E s op a \<sigma> w = Next \<sigma>' w' \<Longrightarrow> agrees s T' \<sigma>'"
  shows "good E s T ops op a r"
  unfolding good_def using assms by (auto simp: exec_one simp del: exec.simps)

lemma good_movi:
  assumes l: "linked s T" and o: "out_ok s (op_type op) (a ! 0)" and n: "op \<noteq> INDEX_op_set_label"
    and c: "\<And>\<sigma> w. agrees s T \<sigma> \<Longrightarrow> exec_op E s op a \<sigma> w \<noteq> Undefined \<Longrightarrow>
      exec_op E s op a \<sigma> w = Next (put (a ! 0) (trunc (op_type op) v) \<sigma>) w"
  shows "good E s T ops op a (Some (emit_movi T op (a ! 0) v))"
proof (rule goodI)
  show "Some (emit_movi T op (a ! 0) v) =
      Some (fst (tcg_opt_gen_movi T (a ! 0) v), [op_to_movi op], [a ! 0, v])"
    by (simp add: emit_movi_def gen_movi_state(2) split_beta)
  show "linked s (fst (tcg_opt_gen_movi T (a ! 0) v))" by (rule linked_movi [OF l out_is(1) [OF o]])
next
  fix \<sigma> w \<sigma>' w' assume a: "agrees s T \<sigma>" and e: "exec_op E s op a \<sigma> w = Next \<sigma>' w'"
  from c [OF a, of w] e have "\<sigma>' = put (a ! 0) (trunc (op_type op) v) \<sigma>" by simp
  with agrees_movi [OF l a out_is(1) [OF o]] o show "agrees s (fst (tcg_opt_gen_movi T (a ! 0) v)) \<sigma>'"
    by (simp add: out_ok_def)
qed (use n c in \<open>simp_all add: op_to_movi_def op_counts exec_basic\<close>)

lemma good_nop:
  assumes "linked s T" "op \<noteq> INDEX_op_set_label"
    and c: "\<And>\<sigma> w. agrees s T \<sigma> \<Longrightarrow> exec_op E s op a \<sigma> w \<noteq> Undefined \<Longrightarrow> exec_op E s op a \<sigma> w = Next \<sigma> w"
  shows "good E s T ops op a (Some (T, [INDEX_op_nop], []))"
proof (rule goodI [OF refl])
  fix \<sigma> w \<sigma>' w' assume "agrees s T \<sigma>" "exec_op E s op a \<sigma> w = Next \<sigma>' w'"
  with c [of \<sigma> w] show "agrees s T \<sigma>'" by simp
qed (use assms in \<open>simp_all add: op_counts exec_basic\<close>)

lemma good_gen_mov:
  assumes l: "linked s T" and o: "out_ok s w0 (a ! 0)" and n: "op \<noteq> INDEX_op_set_label"
    and src: "temp_ok s src" "a ! 0 \<noteq> src" "\<not> is_const T src"
    and c: "\<And>\<sigma> w. agrees s T \<sigma> \<Longrightarrow> exec_op E s op a \<sigma> w \<noteq> Undefined \<Longrightarrow>
      exec_op E s op a \<sigma> w = Next (put (a ! 0) (trunc w0 (get \<sigma> src)) \<sigma>) w"
  shows "good E s T ops op a (map_option (\<lambda>(T, g). (T, [INDEX_op_mov w0], g)) (tcg_opt_gen_mov s T (a ! 0) src))"
proof -
  obtain T' where T': "tcg_opt_gen_mov s T (a ! 0) src = Some (T', [a ! 0, src])" "linked s T'"
    "\<And>\<sigma>. agrees s T \<sigma> \<Longrightarrow> agrees s T' (put (a ! 0) (trunc w0 (get \<sigma> src)) \<sigma>)"
    using gen_mov_some [OF l out_is(1) [OF o] _ src(2,3)] src(1) o by (auto simp: temp_ok_def out_ok_def)
  show ?thesis
  proof (rule goodI)
    show "map_option (\<lambda>(T, g). (T, [INDEX_op_mov w0], g)) (tcg_opt_gen_mov s T (a ! 0) src) =
        Some (T', [INDEX_op_mov w0], [a ! 0, src])" by (simp add: T'(1))
  next
    fix \<sigma> w \<sigma>' w' assume a: "agrees s T \<sigma>" and e: "exec_op E s op a \<sigma> w = Next \<sigma>' w'"
    from c [OF a, of w] e T'(3) [OF a] show "agrees s T' \<sigma>'" by simp
  qed (use n c T'(2) in \<open>simp_all add: op_counts exec_basic\<close>)
qed

lemma good_mov:
  assumes "linked s T" "out_ok s (op_type op) (a ! 0)" "op \<noteq> INDEX_op_set_label"
    "temp_ok s src" "a ! 0 \<noteq> src" "\<not> is_const T src"
    "\<And>\<sigma> w. agrees s T \<sigma> \<Longrightarrow> exec_op E s op a \<sigma> w \<noteq> Undefined \<Longrightarrow>
      exec_op E s op a \<sigma> w = Next (put (a ! 0) (trunc (op_type op) (get \<sigma> src)) \<sigma>) w"
  shows "good E s T ops op a (emit_mov s T op (a ! 0) src)"
  unfolding emit_mov_def op_to_mov_def by (rule good_gen_mov [OF assms])

lemma copies_dest:
  assumes l: "linked s T" and o: "out_ok s w0 (a ! 0)" and c: "temps_are_copies T (a ! 0) src = Some True"
    and a: "agrees s T \<sigma>"
  shows "put (a ! 0) (trunc w0 (get \<sigma> src)) \<sigma> = \<sigma>"
  using temps_are_copies_some [OF l out_is(1) [OF o], of src] c put_same [OF a o, of "get \<sigma> src"] a by auto

lemma copies_decided:
  assumes "linked s T" "temp_ok s x"
  obtains "temps_are_copies T x y = Some True" "\<And>\<sigma>. agrees s T \<sigma> \<Longrightarrow> get \<sigma> x = get \<sigma> y"
  | "temps_are_copies T x y = Some False" "x \<noteq> y"
  using temps_are_copies_some [OF assms(1), of x y] assms(2) unfolding temp_ok_def by metis

lemma good_copy:
  assumes l: "linked s T" and o: "out_ok s (op_type op) (a ! 0)" and n: "op \<noteq> INDEX_op_set_label"
    and src: "temp_ok s src" "\<not> is_const T src"
    and c: "\<And>\<sigma> w. agrees s T \<sigma> \<Longrightarrow> exec_op E s op a \<sigma> w \<noteq> Undefined \<Longrightarrow>
      exec_op E s op a \<sigma> w = Next (put (a ! 0) (trunc (op_type op) (get \<sigma> src)) \<sigma>) w"
  shows "good E s T ops op a (emit_copy s T op (a ! 0) src)"
proof -
  have t: "temp_ok s (a ! 0)" using o by (simp add: out_ok_def)
  show ?thesis
  proof (rule copies_decided [OF l t, of src])
    assume "temps_are_copies T (a ! 0) src = Some True"
    with good_nop [OF l n] c copies_dest [OF l o this] show ?thesis by (auto simp: emit_copy_def)
  next
    assume "temps_are_copies T (a ! 0) src = Some False" "a ! 0 \<noteq> src"
    with good_mov [OF l o n src(1) this(2) src(2) c] show ?thesis by (simp add: emit_copy_def)
  qed
qed

end
