(* ===== verification/TcgZero.thy ===== *)
theory TcgZero
  imports TcgStep
begin

text \<open>
  The simplifications of single operations with zero operands and equal operands.
\<close>

definition stage_ok :: "'w tcg_env \<Rightarrow> tcg_context \<Rightarrow> temp_infos \<Rightarrow> tcg_opcode list \<Rightarrow> tcg_opcode \<Rightarrow> u64 list \<Rightarrow> stage option \<Rightarrow> bool" where
  "stage_ok E s T ops op a r \<longleftrightarrow> (case r of None \<Rightarrow> False | Some Proceed \<Rightarrow> True | Some (Continue f) \<Rightarrow> good E s T ops op a (Some f))"

lemma stage_simps [simp]:
  "stage_ok E s T ops op a (Some Proceed)"
  "stage_ok E s T ops op a (Some (Continue f)) = good E s T ops op a (Some f)"
  by (simp_all add: stage_ok_def)

lemma good_some: "good E s T ops op a r \<Longrightarrow> \<exists>f. r = Some f"
  by (auto simp: good_def)

lemma stage_map [simp]: "stage_ok E s T ops op a (map_option Continue r) \<longleftrightarrow> good E s T ops op a r"
  using good_some [of E s T ops op a r] by (cases r) (auto simp: stage_ok_def good_def)

lemma good_finish:
  assumes "stage_ok E s T ops op a r" "good E s T ops op a rest"
  shows "good E s T ops op a (finish r rest)"
  using assms by (auto simp: finish_def stage_ok_def split: option.splits stage.splits)

lemma wf_bin: "wf_op s (INDEX_op_bin b w) a \<Longrightarrow> out_ok s w (a ! 0) \<and> in_ok s w (a ! 1) \<and> in_ok s w (a ! 2)"
  by (simp add: wf_op_def wf_args_def)

lemma wf_un: "wf_op s (INDEX_op_un u w) a \<Longrightarrow> out_ok s w (a ! 0) \<and> temp_ok s (a ! 1) \<and>
    (if u \<in> {Ext32s, Ext32u} then w = TCG_TYPE_I64 else in_ok s w (a ! 1))"
  by (auto simp: wf_op_def wf_args_def split: if_split_asm)

lemma in_temp: "in_ok s w x \<Longrightarrow> temp_ok s x" by (simp add: in_ok_def)

lemma op_type_bin [simp]: "op_type (INDEX_op_bin b w) = w" "op_type (INDEX_op_un u w) = w"
  "op_type (INDEX_op_mov w) = w" "op_type (INDEX_op_movi w) = w" "op_type (INDEX_op_setcond w) = w"
  "op_type (INDEX_op_movcond w) = w" "op_type (INDEX_op_deposit w) = w" "op_type (INDEX_op_brcond w) = w"
  by (cases w; simp add: op_type_def)+

lemma exec_bin: "exec_op E s (INDEX_op_bin b w) a \<sigma> u =
    next_or_undefined (a ! 0) (alu_at w b (get \<sigma> (a ! 1)) (get \<sigma> (a ! 2))) \<sigma> u"
  by (simp add: exec_op_def Let_def)

lemma exec_un: "u \<notin> {Bswap16, Bswap32, Bswap64} \<Longrightarrow> exec_op E s (INDEX_op_un u w) a \<sigma> x =
    next_or_undefined (a ! 0) (alu1_at w u (get \<sigma> (a ! 1))) \<sigma> x"
  by (simp add: exec_op_def Let_def)

text \<open>An operation whose value, when it has one, is that of \<open>v\<close>.\<close>

lemma bin_computes:
  assumes "\<And>r. alu_at w b (get \<sigma> (a ! 1)) (get \<sigma> (a ! 2)) = Some r \<Longrightarrow> r = v"
    and "exec_op E s (INDEX_op_bin b w) a \<sigma> u \<noteq> Undefined"
  shows "exec_op E s (INDEX_op_bin b w) a \<sigma> u = Next (put (a ! 0) v \<sigma>) u"
  using assms by (auto simp: exec_bin next_or_undefined_def split: option.splits)

lemma un_computes:
  assumes "\<And>r. alu1_at w f (get \<sigma> (a ! 1)) = Some r \<Longrightarrow> r = v" "f \<notin> {Bswap16, Bswap32, Bswap64}"
    and "exec_op E s (INDEX_op_un f w) a \<sigma> u \<noteq> Undefined"
  shows "exec_op E s (INDEX_op_un f w) a \<sigma> u = Next (put (a ! 0) v \<sigma>) u"
  using assms by (auto simp: exec_un next_or_undefined_def split: option.splits)

subsection \<open>Zero operands\<close>

lemma rot_zero: "word_rotl n (0 :: 'a::len word) = 0" "word_rotr n (0 :: 'a word) = 0"
  "word_rotl 0 (x :: 'a word) = x" "word_rotr 0 x = x"
  by (auto simp: bit_eq_iff bit_simps)

lemma alu_zero_left:
  assumes "b \<in> {Shl, Shr, Sar, Rotl, Rotr}" "alu_at w b 0 y = Some r"
  shows "r = 0"
  using assms by (cases w; auto simp: alu_at_def alu_def Let_def rot_zero split: if_split_asm)

lemma alu_zero_right:
  assumes "b \<in> {Add, Sub, Shl, Shr, Sar, Rotl, Rotr, Or, Xor}" "alu_at w b x 0 = Some r"
  shows "r = trunc w x"
  using assms by (cases w; auto simp: alu_at_def alu_def Let_def rot_zero trunc32 trunc64)

lemma alu_zero_product: "b \<in> {And, Mul} \<Longrightarrow> alu_at w b x 0 = Some r \<Longrightarrow> r = 0"
  by (cases w; auto simp: alu_at_def alu_def Let_def)

lemma trunc_zero [simp]: "trunc w 0 = 0" by (cases w; simp add: trunc_def)

lemma in_zero: "agrees s T \<sigma> \<Longrightarrow> in_ok s w x \<Longrightarrow> is_const T x \<Longrightarrow> val_of T x = 0 \<Longrightarrow> get \<sigma> x = 0"
  using get_const [of s T \<sigma> x] by (simp add: in_ok_def)

lemma shift_zero_ok:
  assumes "linked s T" "wf_op s op a"
  shows "stage_ok E s T ops op a (Some (simplify_shift_zero T op a))"
proof (cases "\<exists>b w. op = INDEX_op_bin b w \<and> b \<in> {Shl, Shr, Sar, Rotl, Rotr} \<and> is_const T (a ! 1) \<and> val_of T (a ! 1) = 0")
  case True
  then obtain b w where op: "op = INDEX_op_bin b w" "b \<in> {Shl, Shr, Sar, Rotl, Rotr}" "is_const T (a ! 1)" "val_of T (a ! 1) = 0"
    by blast
  note wf = wf_bin [OF assms(2) [unfolded op(1)]]
  have "good E s T ops op a (Some (emit_movi T op (a ! 0) 0))"
  proof (rule good_movi [OF assms(1)])
    fix \<sigma> u assume a: "agrees s T \<sigma>" and d: "exec_op E s op a \<sigma> u \<noteq> Undefined"
    have "get \<sigma> (a ! 1) = 0" using in_zero [OF a _ op(3,4)] wf by blast
    with alu_zero_left [OF op(2)] show "exec_op E s op a \<sigma> u = Next (put (a ! 0) (trunc (op_type op) 0) \<sigma>) u"
      using bin_computes [OF _ d [unfolded op(1)], of 0] by (simp add: op(1))
  qed (use wf op(1) in simp_all)
  with op show ?thesis by (simp add: simplify_shift_zero_def)
next
  case False
  then show ?thesis by (auto simp: simplify_shift_zero_def split: tcg_opcode.split)
qed

lemma zero_right_ok:
  assumes "linked s T" "wf_op s op a"
  shows "stage_ok E s T ops op a (simplify_zero_right s T op a)"
proof (cases "\<exists>b w. op = INDEX_op_bin b w \<and> b \<in> {Add, Sub, Shl, Shr, Sar, Rotl, Rotr, Or, Xor} \<and> \<not> is_const T (a ! 1)
    \<and> is_const T (a ! 2) \<and> val_of T (a ! 2) = 0")
  case True
  then obtain b w where op: "op = INDEX_op_bin b w" "b \<in> {Add, Sub, Shl, Shr, Sar, Rotl, Rotr, Or, Xor}" "\<not> is_const T (a ! 1)"
    "is_const T (a ! 2)" "val_of T (a ! 2) = 0" by blast
  note wf = wf_bin [OF assms(2) [unfolded op(1)]]
  have "good E s T ops op a (emit_copy s T op (a ! 0) (a ! 1))"
  proof (rule good_copy [OF assms(1)])
    fix \<sigma> u assume a: "agrees s T \<sigma>" and d: "exec_op E s op a \<sigma> u \<noteq> Undefined"
    have "get \<sigma> (a ! 2) = 0" using in_zero [OF a _ op(4,5)] wf by blast
    with alu_zero_right [OF op(2)]
    show "exec_op E s op a \<sigma> u = Next (put (a ! 0) (trunc (op_type op) (get \<sigma> (a ! 1))) \<sigma>) u"
      using bin_computes [OF _ d [unfolded op(1)], of "trunc w (get \<sigma> (a ! 1))"] by (simp add: op(1))
  qed (use wf op in_temp in auto)
  with op show ?thesis by (simp add: simplify_zero_right_def)
next
  case False
  then show ?thesis by (auto simp: simplify_zero_right_def split: tcg_opcode.split)
qed

lemma zero_product_ok:
  assumes "linked s T" "wf_op s op a"
  shows "stage_ok E s T ops op a (Some (simplify_zero_product T op a))"
proof (cases "\<exists>b w. op = INDEX_op_bin b w \<and> b \<in> {And, Mul} \<and> is_const T (a ! 2) \<and> val_of T (a ! 2) = 0")
  case True
  then obtain b w where op: "op = INDEX_op_bin b w" "b \<in> {And, Mul}" "is_const T (a ! 2)" "val_of T (a ! 2) = 0"
    by blast
  note wf = wf_bin [OF assms(2) [unfolded op(1)]]
  have "good E s T ops op a (Some (emit_movi T op (a ! 0) 0))"
  proof (rule good_movi [OF assms(1)])
    fix \<sigma> u assume a: "agrees s T \<sigma>" and d: "exec_op E s op a \<sigma> u \<noteq> Undefined"
    have "get \<sigma> (a ! 2) = 0" using in_zero [OF a _ op(3,4)] wf by blast
    with alu_zero_product [OF op(2)] show "exec_op E s op a \<sigma> u = Next (put (a ! 0) (trunc (op_type op) 0) \<sigma>) u"
      using bin_computes [OF _ d [unfolded op(1)], of 0] by (simp add: op(1))
  qed (use wf op(1) in simp_all)
  with op show ?thesis by (simp add: simplify_zero_product_def)
next
  case False
  then show ?thesis by (auto simp: simplify_zero_product_def split: tcg_opcode.split)
qed

subsection \<open>Equal operands\<close>

lemma alu_same: "b \<in> {Or, And} \<Longrightarrow> alu_at w b x x = Some r \<Longrightarrow> r = trunc w x"
  "b \<in> {Sub, Xor} \<Longrightarrow> alu_at w b x x = Some r \<Longrightarrow> r = 0"
  by (cases w; auto simp: alu_at_def alu_def Let_def trunc32 trunc64)+

lemma copies_in:
  assumes "linked s T" "in_ok s w x"
  obtains "temps_are_copies T x y = Some True" "\<And>\<sigma>. agrees s T \<sigma> \<Longrightarrow> get \<sigma> x = get \<sigma> y"
  | "temps_are_copies T x y = Some False"
  using copies_decided [OF assms(1) in_temp [OF assms(2)], of y] by blast

lemma same_idempotent_ok:
  assumes "linked s T" "wf_op s op a" "\<And>b w. op = INDEX_op_bin b w \<Longrightarrow> b \<in> {Or, And} \<Longrightarrow> is_const T (a ! 1) \<Longrightarrow>
      temps_are_copies T (a ! 1) (a ! 2) = Some False"
  shows "stage_ok E s T ops op a (simplify_same_idempotent s T op a)"
proof (cases "\<exists>b w. op = INDEX_op_bin b w \<and> b \<in> {Or, And}")
  case True
  then obtain b w where op: "op = INDEX_op_bin b w" "b \<in> {Or, And}" by blast
  note wf = wf_bin [OF assms(2) [unfolded op(1)]]
  show ?thesis
  proof (rule copies_in [OF assms(1), of w "a ! 1" "a ! 2"])
    assume c: "temps_are_copies T (a ! 1) (a ! 2) = Some True" and e: "\<And>\<sigma>. agrees s T \<sigma> \<Longrightarrow> get \<sigma> (a ! 1) = get \<sigma> (a ! 2)"
    have "good E s T ops op a (emit_copy s T op (a ! 0) (a ! 1))"
    proof (rule good_copy [OF assms(1)])
      show "\<not> is_const T (a ! 1)" using assms(3) [OF op] c by auto
    next
      fix \<sigma> u assume a: "agrees s T \<sigma>" and d: "exec_op E s op a \<sigma> u \<noteq> Undefined"
      show "exec_op E s op a \<sigma> u = Next (put (a ! 0) (trunc (op_type op) (get \<sigma> (a ! 1))) \<sigma>) u"
        using bin_computes [OF _ d [unfolded op(1)], of "trunc w (get \<sigma> (a ! 1))"] alu_same(1) [OF op(2)] e [OF a]
        by (simp add: op(1))
    qed (use wf op in_temp in auto)
    with op c show ?thesis by (simp add: simplify_same_idempotent_def)
  next
    assume "temps_are_copies T (a ! 1) (a ! 2) = Some False"
    with op show ?thesis by (simp add: simplify_same_idempotent_def)
  qed (use wf in simp)
next
  case False
  then show ?thesis by (auto simp: simplify_same_idempotent_def split: tcg_opcode.split)
qed

lemma same_cancel_ok:
  assumes "linked s T" "wf_op s op a"
  shows "stage_ok E s T ops op a (simplify_same_cancel T op a)"
proof (cases "\<exists>b w. op = INDEX_op_bin b w \<and> b \<in> {Sub, Xor}")
  case True
  then obtain b w where op: "op = INDEX_op_bin b w" "b \<in> {Sub, Xor}" by blast
  note wf = wf_bin [OF assms(2) [unfolded op(1)]]
  show ?thesis
  proof (rule copies_in [OF assms(1), of w "a ! 1" "a ! 2"])
    assume c: "temps_are_copies T (a ! 1) (a ! 2) = Some True" and e: "\<And>\<sigma>. agrees s T \<sigma> \<Longrightarrow> get \<sigma> (a ! 1) = get \<sigma> (a ! 2)"
    have "good E s T ops op a (Some (emit_movi T op (a ! 0) 0))"
    proof (rule good_movi [OF assms(1)])
      fix \<sigma> u assume a: "agrees s T \<sigma>" and d: "exec_op E s op a \<sigma> u \<noteq> Undefined"
      show "exec_op E s op a \<sigma> u = Next (put (a ! 0) (trunc (op_type op) 0) \<sigma>) u"
        using bin_computes [OF _ d [unfolded op(1)], of 0] alu_same(2) [OF op(2)] e [OF a] by (simp add: op(1))
    qed (use wf op(1) in simp_all)
    with op c show ?thesis by (simp add: simplify_same_cancel_def)
  next
    assume "temps_are_copies T (a ! 1) (a ! 2) = Some False"
    with op show ?thesis by (simp add: simplify_same_cancel_def)
  qed (use wf in simp)
next
  case False
  then show ?thesis by (auto simp: simplify_same_cancel_def split: tcg_opcode.split)
qed

end
