(* ===== verification/TcgKnownBits.thy ===== *)
theory TcgKnownBits
  imports TcgZero
begin

text \<open>
  Known zero bits: when no bit of the result may be set the operation is a constant zero, and when it can clear
  no bit of its operand it is a move.
\<close>

subsection \<open>Bits\<close>

text \<open>\<open>m\<close> has every bit that is set in \<open>v\<close>.\<close>

definition covers :: "u64 \<Rightarrow> u64 \<Rightarrow> bool" where
  "covers m v \<longleftrightarrow> (\<forall>i. bit v i \<longrightarrow> bit m i)"

lemma mask_covers:
  assumes "linked s T" "agrees s T \<sigma>" "temp_ok s x"
  shows "covers (mask_of T x) (get \<sigma> x)"
proof (cases "is_const T x")
  case True
  then show ?thesis
    using assms by (cases "temp_type s (unat x)") (auto simp: mask_of_eq get_const covers_def trunc_def bit_simps)
next
  case False
  then show ?thesis using assms by (auto simp: mask_of_eq covers_def bit_simps dest: bit_imp_le_length)
qed

lemma bit_num:
  "bit (0xff :: u64) i \<longleftrightarrow> i < 8" "bit (0xffff :: u64) i \<longleftrightarrow> i < 16" "bit (0xffffffff :: u64) i \<longleftrightarrow> i < 32"
  "bit (0x80 :: u64) i \<longleftrightarrow> i = 7" "bit (0x8000 :: u64) i \<longleftrightarrow> i = 15" "bit (0x80000000 :: u64) i \<longleftrightarrow> i = 31"
proof -
  have "(0xff :: u64) = mask 8" "(0xffff :: u64) = mask 16" "(0xffffffff :: u64) = mask 32"
    "(0x80 :: u64) = push_bit 7 1" "(0x8000 :: u64) = push_bit 15 1" "(0x80000000 :: u64) = push_bit 31 1"
    by (simp_all add: mask_eq_exp_minus_1)
  then show "bit (0xff :: u64) i \<longleftrightarrow> i < 8" "bit (0xffff :: u64) i \<longleftrightarrow> i < 16" "bit (0xffffffff :: u64) i \<longleftrightarrow> i < 32"
    "bit (0x80 :: u64) i \<longleftrightarrow> i = 7" "bit (0x8000 :: u64) i \<longleftrightarrow> i = 15" "bit (0x80000000 :: u64) i \<longleftrightarrow> i = 31"
    by (simp_all only: bit_mask_iff bit_push_bit_iff bit_1_iff) auto
qed

lemma and_zero_bits: "(x :: u64) AND y = 0 \<longleftrightarrow> (\<forall>i. bit x i \<longrightarrow> \<not> bit y i)"
  by (auto simp: bit_eq_iff bit_and_iff) (use bit_imp_le_length in fastforce)

lemma and_not_zero_bits: "(x :: u64) AND NOT y = 0 \<longleftrightarrow> (\<forall>i. bit x i \<longrightarrow> bit y i)"
  by (auto simp: bit_eq_iff bit_and_iff bit_not_iff dest: bit_imp_le_length) (use bit_imp_le_length in fastforce)

lemma and_minus_zero: "(m :: u64) AND - m = 0 \<Longrightarrow> m = 0"
proof -
  assume "m AND - m = 0"
  then have "m + - m = m OR - m" by (rule disjunctive_add_eq_or)
  then have "m OR - m = 0" by simp
  then show "m = 0" by (simp add: bit_eq_iff bit_or_iff)
qed

text \<open>Sign extensions of a word whose sign bit is clear.\<close>

lemma sext_clear: "\<not> bit x n \<Longrightarrow> signed_take_bit n x = take_bit (Suc n) (x :: 'a::len word)"
  by (rule bit_word_eqI) (auto simp: bit_simps min_def less_Suc_eq le_less)

definition ext_width :: "tcg_un \<Rightarrow> nat" where
  "ext_width u = (if u \<in> {Ext8s, Ext8u} then 8 else if u \<in> {Ext16s, Ext16u} then 16 else 32)"

definition ext_ok :: "tcg_type \<Rightarrow> tcg_un \<Rightarrow> bool" where
  "ext_ok w u \<longleftrightarrow> u \<in> {Ext8s, Ext8u, Ext16s, Ext16u} \<or> u \<in> {Ext32s, Ext32u} \<and> w = TCG_TYPE_I64"

text \<open>The operation only clears the bits above its width.\<close>

lemma ext_value:
  assumes "ext_ok w u" "u \<in> {Ext8s, Ext16s, Ext32s} \<Longrightarrow> \<not> bit x (ext_width u - 1)"
  shows "alu1_at w u x = Some (take_bit (ext_width u) x)"
proof (cases w)
  case TCG_TYPE_I32
  have l: "(ucast (take_bit n (ucast x :: u32)) :: u64) = take_bit n x" if "n \<le> 32" for n
    using that by (auto simp: bit_eq_iff bit_simps)
  show ?thesis
    using assms TCG_TYPE_I32
    by (auto simp: alu1_at_def alu1_def ext_ok_def ext_width_def l sext_clear bit_simps simp del: take_bit_eq_mod)
next
  case TCG_TYPE_I64
  then show ?thesis
    using assms by (auto simp: alu1_at_def alu1_def ext_ok_def ext_width_def sext_clear)
qed

text \<open>What \<open>known_bits\<close> says, by operation.\<close>

lemma known_ext:
  assumes "ext_ok w u" "known_bits T (INDEX_op_un u w) a = (m, f)" "m = 0 \<or> f = 0"
  shows "m = mask_of T (a ! 1) AND mask (ext_width u)" "f = mask_of T (a ! 1) AND NOT (mask (ext_width u))"
    "u \<in> {Ext8s, Ext16s, Ext32s} \<Longrightarrow> \<not> bit (mask_of T (a ! 1)) (ext_width u - 1)"
proof -
  have k: "(0xff :: u64) = mask 8" "(0xffff :: u64) = mask 16" "(0xffffffff :: u64) = mask 32"
    "(0x80 :: u64) = push_bit 7 1" "(0x8000 :: u64) = push_bit 15 1" "(0x80000000 :: u64) = push_bit 31 1"
    by (simp_all add: mask_eq_exp_minus_1)
  have z: "(x :: u64) AND push_bit n 1 = 0 \<longleftrightarrow> \<not> bit x n" if "n < 64" for x n
    using that unfolding and_zero_bits bit_push_bit_iff bit_1_iff by (auto simp: bit_imp_le_length)
  have "m = mask_of T (a ! 1) AND mask (ext_width u) \<and> f = mask_of T (a ! 1) AND NOT (mask (ext_width u)) \<and>
    (u \<in> {Ext8s, Ext16s, Ext32s} \<longrightarrow> \<not> bit (mask_of T (a ! 1)) (ext_width u - 1))"
    using assms unfolding ext_ok_def
    by (cases u; cases w) (auto simp only: known_bits_def k z Let_def tcg_opcode.case tcg_un.case tcg_type.case and_const_def
      ext_width_def prod.inject simp_thms split: if_split_asm; simp add: z)+
  then show "m = mask_of T (a ! 1) AND mask (ext_width u)" "f = mask_of T (a ! 1) AND NOT (mask (ext_width u))"
    "u \<in> {Ext8s, Ext16s, Ext32s} \<Longrightarrow> \<not> bit (mask_of T (a ! 1)) (ext_width u - 1)" by blast+
qed

subsection \<open>No bit left\<close>

lemma covers_zero: "covers 0 v \<Longrightarrow> v = 0"
  by (simp add: covers_def bit_eq_iff)

lemma covers_and: "covers m v \<Longrightarrow> m AND k = 0 \<Longrightarrow> v AND k = 0"
  by (auto simp: covers_def and_zero_bits)

lemma covers_both: "m AND m' = 0 \<Longrightarrow> covers m v \<Longrightarrow> covers m' v' \<Longrightarrow> v AND v' = 0"
  unfolding covers_def and_zero_bits by blast

lemma covers_or: "m OR m' = (0 :: u64) \<Longrightarrow> covers m v \<Longrightarrow> covers m' v' \<Longrightarrow> v = 0 \<and> v' = 0"
  by (auto simp: covers_def bit_eq_iff bit_or_iff)

lemma zero_ext:
  assumes "ext_ok w u" "known_bits T (INDEX_op_un u w) a = (0, f)" "covers (mask_of T (a ! 1)) x"
  shows "alu1_at w u x = Some 0"
proof -
  note k = known_ext [OF assms(1,2) disjI1 [OF refl]]
  have "alu1_at w u x = Some (take_bit (ext_width u) x)"
    using k(3) assms(3) by (intro ext_value [OF assms(1)]) (auto simp: covers_def)
  then show ?thesis using covers_and [OF assms(3) k(1) [symmetric]] by (simp add: take_bit_eq_mask)
qed

lemma zero_and:
  assumes "x AND y = 0" "alu_at w And x y = Some r"
  shows "r = 0"
  using assms by (cases w) (auto simp: alu_at_def alu_def Let_def low_logic [symmetric])

lemma alu_zero_both: "b \<in> {Or, Xor} \<Longrightarrow> alu_at w b 0 0 = Some r \<Longrightarrow> r = 0"
  by (cases w; auto simp: alu_at_def alu_def Let_def)

lemma alu1_neg_zero: "alu1_at w Neg 0 = Some 0"
  by (cases w) (simp_all add: alu1_at_def alu1_def)

text \<open>The count of a shift: what the folded shift of the 64-bit mask uses is the count of the operation.\<close>

lemma shift_count:
  assumes "trunc w y = trunc w v" "alu_at w b x y = Some r" "b \<in> {Shl, Shr, Sar}"
  shows "unat v mod 64 < width w" "w = TCG_TYPE_I32 \<Longrightarrow> unat (ucast y :: u32) = unat v mod 64"
    "w = TCG_TYPE_I64 \<Longrightarrow> unat y = unat v mod 64"
proof -
  have "unat v mod 64 < width w \<and> (w = TCG_TYPE_I32 \<longrightarrow> unat (ucast y :: u32) = unat v mod 64) \<and>
    (w = TCG_TYPE_I64 \<longrightarrow> unat y = unat v mod 64)"
  proof (cases w)
    case TCG_TYPE_I32
    then have e: "unat (ucast y :: u32) = unat v mod 2 ^ 32" using assms(1)
      by (simp add: trunc_eq32 unsigned_ucast_eq take_bit_eq_mod)
    have n: "unat (ucast y :: u32) < 32"
      using assms(2,3) TCG_TYPE_I32 by (auto simp: alu_at_def alu_def Let_def split: if_split_asm)
    have "unat v mod 64 = unat v mod 2 ^ 32 mod 64" by (simp add: mod_mod_cancel)
    with e n TCG_TYPE_I32 show ?thesis by (simp add: width_def)
  next
    case TCG_TYPE_I64
    then have "y = v" using assms(1) by (simp add: trunc64)
    moreover have "unat y < 64" using assms(2,3) TCG_TYPE_I64 by (auto simp: alu_at_def alu_def Let_def split: if_split_asm)
    ultimately show ?thesis using TCG_TYPE_I64 by (simp add: width_def)
  qed
  then show "unat v mod 64 < width w" "w = TCG_TYPE_I32 \<Longrightarrow> unat (ucast y :: u32) = unat v mod 64"
    "w = TCG_TYPE_I64 \<Longrightarrow> unat y = unat v mod 64" by blast+
qed

lemma zero_shl:
  assumes "hshl m v = 0" "covers m x" "trunc w y = trunc w v" "alu_at w Shl x y = Some r"
  shows "r = 0"
proof -
  note n = shift_count [OF assms(3,4)]
  have z: "push_bit (unat v mod 64) m = 0" using assms(1) by (simp add: hshl_def)
  have b: "\<not> bit x i" if "i + unat v mod 64 < 64" for i
  proof
    assume "bit x i"
    then have "bit (push_bit (unat v mod 64) m) (i + unat v mod 64)"
      using assms(2) that by (simp add: covers_def bit_push_bit_iff bit_simps)
    with z show False by simp
  qed
  have "push_bit (unat v mod 64) (ucast x :: u32) = 0" "push_bit (unat v mod 64) x = 0"
    using b by (auto simp: bit_eq_iff bit_simps)
  then show ?thesis
    using assms(4) n by (cases w) (auto simp: alu_at_def alu_def Let_def width_def split: if_split_asm)
qed

lemma zero_shr:
  assumes "hshr m v = 0" "covers m x" "trunc w y = trunc w v" "alu_at w Shr x y = Some r"
  shows "r = 0"
proof -
  note n = shift_count [OF assms(3,4)]
  have z: "drop_bit (unat v mod 64) m = 0" using assms(1) by (simp add: hshr_def)
  have b: "\<not> bit x (unat v mod 64 + i)" for i
  proof
    assume "bit x (unat v mod 64 + i)"
    then have "bit (drop_bit (unat v mod 64) m) i" using assms(2) by (simp add: covers_def bit_drop_bit_eq)
    with z show False by simp
  qed
  have "drop_bit (unat v mod 64) (ucast x :: u32) = 0" "drop_bit (unat v mod 64) x = 0"
    using b by (auto simp: bit_eq_iff bit_simps)
  then show ?thesis
    using assms(4) n by (cases w) (auto simp: alu_at_def alu_def Let_def split: if_split_asm)
qed

lemma zero_sar:
  assumes "hsar m v = 0" "covers m x" "trunc w y = trunc w v" "alu_at w Sar x y = Some r"
  shows "r = 0"
proof -
  note n = shift_count [OF assms(3,4)]
  let ?n = "unat v mod 64"
  have z: "signed_drop_bit ?n m = 0" using assms(1) by (simp add: hsar_def)
  have b: "\<not> bit x i" if "i \<ge> ?n" for i
  proof
    assume x: "bit x i"
    then have i: "i < 64" by (rule bit_imp_le_length [where ?'a = 64, simplified])
    then have "bit m (?n + (i - ?n))" using x assms(2) that by (simp add: covers_def)
    then have "bit (signed_drop_bit ?n m) (i - ?n)" using i that by (auto simp: bit_signed_drop_bit_iff)
    with z show False by simp
  qed
  show ?thesis
  proof (cases w)
    case TCG_TYPE_I32
    with n(1) have "\<not> bit x 31" by (intro b) (simp add: width_def)
    then have "signed_drop_bit ?n (ucast x :: u32) = 0" using b by (auto simp: bit_eq_iff bit_simps)
    with TCG_TYPE_I32 show ?thesis
      using assms(4) n by (auto simp: alu_at_def alu_def Let_def split: if_split_asm)
  next
    case TCG_TYPE_I64
    with n(1) have "\<not> bit x 63" by (intro b) (simp add: width_def)
    then have "signed_drop_bit ?n x = 0" using b by (auto simp: bit_eq_iff bit_simps)
    with TCG_TYPE_I64 show ?thesis
      using assms(4) n by (auto simp: alu_at_def alu_def Let_def split: if_split_asm)
  qed
qed

lemma field_mask_eq: "unat len < 64 \<Longrightarrow> field_mask len = mask (unat len)"
  by (simp add: field_mask_def hshl_def mask_eq_exp_minus_1)

lemma zero_deposit:
  assumes "(m AND NOT (hshl t p)) OR hshl (m' AND t) p = 0" "t = field_mask len" "unat len < 64" "unat p < 64"
    "covers m x" "covers m' y"
  shows "deposit (unat p) (unat len) x y = 0"
proof -
  have t: "t = mask (unat len)" using field_mask_eq [OF assms(3)] assms(2) by simp
  have h: "hshl z p = push_bit (unat p) z" for z :: u64 using assms(4) by (simp add: hshl_def)
  have z: "\<not> bit ((m AND NOT (hshl t p)) OR hshl (m' AND t) p) i" for i by (simp only: assms(1) bit_0_eq bot_apply bot_bool_def not_False_eq_True)
  show ?thesis
    using z assms(5,6) unfolding h t
    by (auto simp: deposit_def bit_eq_iff bit_simps covers_def)
qed

subsection \<open>The stage\<close>

lemma known_static:
  assumes "wf_op s op a" "known_bits T op a = (m, f)" "m = 0 \<or> f = 0"
  shows "nb_oargs op = 1" "out_ok s (op_type op) (a ! 0)" "op \<noteq> INDEX_op_set_label"
  using assms unfolding wf_op_def wf_args_def
  by (cases op; simp add: known_bits_def op_counts Let_def split: if_split_asm)+

lemma known_ops:
  assumes "known_bits T op a = (m, f)" "m = 0 \<or> f = 0"
  obtains u w where "op = INDEX_op_un u w" "ext_ok w u"
  | w where "op = INDEX_op_un Neg w" "m = - (mask_of T (a ! 1) AND - mask_of T (a ! 1))" "f = - 1"
  | w where "op = INDEX_op_bin And w" "m = mask_of T (a ! 1) AND mask_of T (a ! 2)"
      "f = 0 \<Longrightarrow> is_const T (a ! 2) \<and> mask_of T (a ! 1) AND NOT (mask_of T (a ! 2)) = 0"
  | b w where "op = INDEX_op_bin b w" "b \<in> {Or, Xor}" "m = mask_of T (a ! 1) OR mask_of T (a ! 2)" "f = - 1"
  | w where "op = INDEX_op_bin Sar w" "is_const T (a ! 2)" "m = hsar (mask_of T (a ! 1)) (val_of T (a ! 2))" "f = - 1"
  | w where "op = INDEX_op_bin Shr w" "is_const T (a ! 2)" "m = hshr (mask_of T (a ! 1)) (val_of T (a ! 2))" "f = - 1"
  | w where "op = INDEX_op_bin Shl w" "is_const T (a ! 2)" "m = hshl (mask_of T (a ! 1)) (val_of T (a ! 2))" "f = - 1"
  | w where "op = INDEX_op_deposit w" "f = - 1"
      "m = (mask_of T (a ! 1) AND NOT (hshl (field_mask (a ! 4)) (a ! 3))) OR hshl (mask_of T (a ! 2) AND field_mask (a ! 4)) (a ! 3)"
  | w where "op = INDEX_op_movcond w" "m = mask_of T (a ! 3) OR mask_of T (a ! 4)" "f = - 1"
proof (cases op)
  case (INDEX_op_bin b w)
  with assms that show ?thesis
    by (cases b) (auto simp: known_bits_def Let_def and_const_def split: if_split_asm)
next
  case (INDEX_op_un u w)
  with assms that show ?thesis
    by (cases u; cases w) (auto simp: known_bits_def Let_def ext_ok_def split: if_split_asm)
qed (use assms that in \<open>auto simp: known_bits_def Let_def\<close>)

lemma ext_no_swap: "ext_ok w u \<Longrightarrow> u \<notin> {Bswap16, Bswap32, Bswap64}"
  by (auto simp: ext_ok_def)

end
