(* ===== verification/TcgKnown.thy ===== *)
theory TcgKnown
  imports TcgKnownBits
begin

text \<open>
  The stage that uses the known zero bits: what it replaces computes the same.
\<close>

lemma known_zero:
  assumes l: "linked s T" and wf: "wf_op s op a" and a: "agrees s T \<sigma>" and k: "known_bits T op a = (0, f)"
    and d: "exec_op E s op a \<sigma> e \<noteq> Undefined"
  shows "exec_op E s op a \<sigma> e = Next (put (a ! 0) 0 \<sigma>) e"
  using k disjI1 [OF refl]
proof (cases rule: known_ops)
  case (1 u w)
  have "covers (mask_of T (a ! 1)) (get \<sigma> (a ! 1))"
    by (rule mask_covers [OF l a]) (use wf_un [OF wf [unfolded 1(1)]] in simp)
  with zero_ext [OF 1(2) k [unfolded 1(1)]] show ?thesis
    unfolding 1(1) by (intro un_computes [OF _ ext_no_swap [OF 1(2)] d [unfolded 1(1)]]) simp
next
  case (2 w)
  have "mask_of T (a ! 1) = 0" by (rule and_minus_zero) (use 2(2) in \<open>metis minus_equation_iff minus_zero\<close>)
  moreover have "covers (mask_of T (a ! 1)) (get \<sigma> (a ! 1))"
    by (rule mask_covers [OF l a]) (use wf_un [OF wf [unfolded 2(1)]] in simp)
  ultimately have "get \<sigma> (a ! 1) = 0" using covers_zero by simp
  then show ?thesis unfolding 2(1) by (intro un_computes [OF _ _ d [unfolded 2(1)]]) (simp_all add: alu1_neg_zero)
next
  case (3 w)
  have w: "in_ok s w (a ! 1)" "in_ok s w (a ! 2)" using wf_bin [OF wf [unfolded 3(1)]] by blast+
  have "get \<sigma> (a ! 1) AND get \<sigma> (a ! 2) = 0"
    by (rule covers_both [OF 3(2) [symmetric]]; rule mask_covers [OF l a in_temp]; rule w)
  with zero_and show ?thesis unfolding 3(1) by (intro bin_computes [OF _ d [unfolded 3(1)]]) blast
next
  case (4 b w)
  have w: "in_ok s w (a ! 1)" "in_ok s w (a ! 2)" using wf_bin [OF wf [unfolded 4(1)]] by blast+
  have "get \<sigma> (a ! 1) = 0 \<and> get \<sigma> (a ! 2) = 0"
    by (rule covers_or [OF 4(3) [symmetric]]; rule mask_covers [OF l a in_temp]; rule w)
  with alu_zero_both [OF 4(2)] show ?thesis
    unfolding 4(1) by (intro bin_computes [OF _ d [unfolded 4(1)]]) simp
next
  case (5 w)
  have w: "in_ok s w (a ! 1)" "in_ok s w (a ! 2)" using wf_bin [OF wf [unfolded 5(1)]] by blast+
  have "covers (mask_of T (a ! 1)) (get \<sigma> (a ! 1))" "trunc w (get \<sigma> (a ! 2)) = trunc w (val_of T (a ! 2))"
    by (rule mask_covers [OF l a in_temp [OF w(1)]], rule in_const [OF a w(2) 5(2)])
  with zero_sar [OF 5(3) [symmetric]] show ?thesis unfolding 5(1) by (intro bin_computes [OF _ d [unfolded 5(1)]]) blast
next
  case (6 w)
  have w: "in_ok s w (a ! 1)" "in_ok s w (a ! 2)" using wf_bin [OF wf [unfolded 6(1)]] by blast+
  have "covers (mask_of T (a ! 1)) (get \<sigma> (a ! 1))" "trunc w (get \<sigma> (a ! 2)) = trunc w (val_of T (a ! 2))"
    by (rule mask_covers [OF l a in_temp [OF w(1)]], rule in_const [OF a w(2) 6(2)])
  with zero_shr [OF 6(3) [symmetric]] show ?thesis unfolding 6(1) by (intro bin_computes [OF _ d [unfolded 6(1)]]) blast
next
  case (7 w)
  have w: "in_ok s w (a ! 1)" "in_ok s w (a ! 2)" using wf_bin [OF wf [unfolded 7(1)]] by blast+
  have "covers (mask_of T (a ! 1)) (get \<sigma> (a ! 1))" "trunc w (get \<sigma> (a ! 2)) = trunc w (val_of T (a ! 2))"
    by (rule mask_covers [OF l a in_temp [OF w(1)]], rule in_const [OF a w(2) 7(2)])
  with zero_shl [OF 7(3) [symmetric]] show ?thesis unfolding 7(1) by (intro bin_computes [OF _ d [unfolded 7(1)]]) blast
next
  case (8 w)
  have w: "in_ok s w (a ! 1)" "in_ok s w (a ! 2)" "unat (a ! 4) < 64"
    using wf unfolding 8(1) by (simp_all add: wf_op_def wf_args_def)
  have e: "exec_op E s op a \<sigma> e = next_or_undefined (a ! 0)
      (if a ! 4 \<noteq> 0 \<and> unat (a ! 3) + unat (a ! 4) \<le> width w
       then Some (trunc w (deposit (unat (a ! 3)) (unat (a ! 4)) (get \<sigma> (a ! 1)) (get \<sigma> (a ! 2)))) else None) \<sigma> e"
    by (simp add: 8(1) exec_op_def Let_def)
  with d have p: "a ! 4 \<noteq> 0" "unat (a ! 3) + unat (a ! 4) \<le> width w"
    by (auto simp: next_or_undefined_def split: if_split_asm)
  moreover have "unat (a ! 4) \<noteq> 0" using p(1) by (simp add: unat_eq_0)
  moreover have "width w \<le> 64" by (cases w) (simp_all add: width_def)
  ultimately have "unat (a ! 3) < 64" by linarith
  note p3 = this
  have "deposit (unat (a ! 3)) (unat (a ! 4)) (get \<sigma> (a ! 1)) (get \<sigma> (a ! 2)) = 0"
    by (rule zero_deposit [OF 8(3) [symmetric] refl w(3) p3]; rule mask_covers [OF l a in_temp]; rule w)
  with e p show ?thesis by (simp add: next_or_undefined_def)
next
  case (9 w)
  have w: "in_ok s w (a ! 3)" "in_ok s w (a ! 4)"
    using wf unfolding 9(1) by (simp_all add: wf_op_def wf_args_def)
  have "get \<sigma> (a ! 3) = 0 \<and> get \<sigma> (a ! 4) = 0"
    by (rule covers_or [OF 9(2) [symmetric]]; rule mask_covers [OF l a in_temp]; rule w)
  with d show ?thesis
    unfolding 9(1) by (auto simp: exec_op_def Let_def next_or_undefined_def split: option.splits)
qed

text \<open>An operation that can clear no bit of its operand.\<close>

lemma alu_and_sub: "covers y x \<Longrightarrow> alu_at w And x y = Some r \<Longrightarrow> r = trunc w x"
proof -
  assume c: "covers y x" and r: "alu_at w And x y = Some r"
  have "x AND y = x" using c by (auto simp: covers_def bit_eq_iff bit_and_iff)
  with r show ?thesis by (cases w) (auto simp: alu_at_def alu_def Let_def low_logic [symmetric] trunc32 trunc64)
qed

lemma ext_low:
  assumes "ext_ok w u" "trunc w x = trunc w y \<or> u \<in> {Ext32s, Ext32u} \<and> (ucast x :: u32) = ucast y"
  shows "alu1_at w u x = alu1_at w u y"
proof (cases "trunc w x = trunc w y")
  case True
  then show ?thesis by (rule at_cong(2) [OF _ refl])
next
  case False
  with assms have e: "u \<in> {Ext32s, Ext32u}" "(ucast x :: u32) = ucast y" "w = TCG_TYPE_I64" by (auto simp: ext_ok_def)
  then have "take_bit 32 x = take_bit 32 y" "signed_take_bit 31 x = signed_take_bit 31 y"
    using full_ext(5,6) [of x] full_ext(5,6) [of y] by simp_all
  with e show ?thesis by (auto simp: alu1_at_def alu1_def)
qed

lemma affected_const:
  assumes l: "linked s T" and wf: "wf_op s op a" and a: "agrees s T \<sigma>" and k: "known_bits T op a = (m, 0)"
    and c: "is_const T (a ! 1)" and d: "exec_op E s op a \<sigma> e \<noteq> Undefined"
  shows "exec_op E s op a \<sigma> e = Next (put (a ! 0) (trunc (op_type op) (val_of T (a ! 1))) \<sigma>) e"
  using k disjI2 [OF refl]
proof (cases rule: known_ops)
  case (1 u w)
  note w = wf_un [OF wf [unfolded 1(1)]] and kn = known_ext [OF 1(2) k [unfolded 1(1)] disjI2 [OF refl]]
  let ?v = "val_of T (a ! 1)"
  have mk: "mask_of T (a ! 1) = ?v" using mask_of_eq [OF l, of "a ! 1"] w c by simp
  have "alu1_at w u ?v = Some (take_bit (ext_width u) ?v)"
    using kn(3) mk by (intro ext_value [OF 1(2)]) simp
  moreover have t: "take_bit (ext_width u) ?v = ?v"
  proof -
    have "\<forall>i. bit ?v i \<longrightarrow> bit (mask (ext_width u) :: u64) i"
      unfolding and_not_zero_bits [symmetric] using kn(2) mk by simp
    then show ?thesis by (auto simp: bit_eq_iff bit_take_bit_iff bit_mask_iff)
  qed
  moreover have "trunc w ?v = ?v"
  proof -
    have "w = TCG_TYPE_I32 \<Longrightarrow> ext_width u \<le> 32" by (auto simp: ext_width_def)
    moreover have "take_bit 32 ?v = ?v" if "ext_width u \<le> 32"
      using t that by (metis min.absorb2 take_bit_take_bit)
    ultimately show ?thesis by (cases w) (simp_all only: trunc_def tcg_type.case)
  qed
  moreover have "alu1_at w u (get \<sigma> (a ! 1)) = alu1_at w u ?v"
    using low_const [OF a _ c] in_const [OF a _ c] w by (intro ext_low [OF 1(2)]) (auto split: if_split_asm)
  ultimately show ?thesis
    unfolding 1(1) by (intro un_computes [OF _ ext_no_swap [OF 1(2)] d [unfolded 1(1)]]) simp
next
  case (3 w)
  have w: "in_ok s w (a ! 1)" "in_ok s w (a ! 2)" using wf_bin [OF wf [unfolded 3(1)]] by blast+
  have c2: "is_const T (a ! 2)" "mask_of T (a ! 1) AND NOT (mask_of T (a ! 2)) = 0" using 3(3) by blast+
  have "mask_of T (a ! 1) = val_of T (a ! 1)" "mask_of T (a ! 2) = val_of T (a ! 2)"
    using mask_of_eq [OF l in_temp [OF w(1)]] mask_of_eq [OF l in_temp [OF w(2)]] c c2(1) by simp_all
  then have cv: "covers (val_of T (a ! 2)) (val_of T (a ! 1))" using c2(2) by (simp add: covers_def and_not_zero_bits)
  have "trunc w (get \<sigma> (a ! 1)) = trunc w (val_of T (a ! 1))" "trunc w (get \<sigma> (a ! 2)) = trunc w (val_of T (a ! 2))"
    by (rule in_const [OF a w(1) c], rule in_const [OF a w(2) c2(1)])
  then have "alu_at w And (get \<sigma> (a ! 1)) (get \<sigma> (a ! 2)) = alu_at w And (val_of T (a ! 1)) (val_of T (a ! 2))"
    by (rule at_cong(1))
  with alu_and_sub [OF cv] show ?thesis
    unfolding 3(1) by (intro bin_computes [OF _ d [unfolded 3(1)]]) simp
qed simp_all

lemma affected_nonconst:
  assumes l: "linked s T" and wf: "wf_op s op a" and a: "agrees s T \<sigma>" and k: "known_bits T op a = (m, 0)"
    and c: "\<not> is_const T (a ! 1)" and d: "exec_op E s op a \<sigma> e \<noteq> Undefined"
  shows "exec_op E s op a \<sigma> e = Next (put (a ! 0) (trunc (op_type op) (get \<sigma> (a ! 1))) \<sigma>) e"
  using k disjI2 [OF refl]
proof (cases rule: known_ops)
  case (1 u w)
  note w = wf_un [OF wf [unfolded 1(1)]] and kn = known_ext [OF 1(2) k [unfolded 1(1)] disjI2 [OF refl]]
  have "mask_of T (a ! 1) = - 1" using mask_of_eq [OF l, of "a ! 1"] w c by simp
  with kn(2) have "NOT (mask (ext_width u)) = (0 :: u64)" by simp
  then have "mask (ext_width u) = (- 1 :: u64)" by (metis bit.compl_zero bit.double_compl)
  then have "bit (mask (ext_width u) :: u64) 63" by simp
  then show ?thesis by (auto simp: bit_mask_iff ext_width_def split: if_split_asm)
next
  case (3 w)
  have w: "in_ok s w (a ! 1)" "in_ok s w (a ! 2)" using wf_bin [OF wf [unfolded 3(1)]] by blast+
  have c2: "is_const T (a ! 2)" "mask_of T (a ! 1) AND NOT (mask_of T (a ! 2)) = 0" using 3(3) by blast+
  have "mask_of T (a ! 1) = - 1" "mask_of T (a ! 2) = val_of T (a ! 2)"
    using mask_of_eq [OF l in_temp [OF w(1)]] mask_of_eq [OF l in_temp [OF w(2)]] c c2(1) by simp_all
  with c2(2) have "NOT (val_of T (a ! 2)) = 0" by simp
  then have v: "val_of T (a ! 2) = - 1" by (metis bit.compl_zero bit.double_compl)
  have "alu_at w And (get \<sigma> (a ! 1)) (get \<sigma> (a ! 2)) = alu_at w And (get \<sigma> (a ! 1)) (- 1)"
    using in_const [OF a w(2) c2(1)] v by (intro at_cong(1) [OF refl]) simp
  moreover have "covers (- 1) (get \<sigma> (a ! 1))" by (auto simp: covers_def bit_simps dest: bit_imp_le_length)
  ultimately show ?thesis using alu_and_sub
    unfolding 3(1) by (intro bin_computes [OF _ d [unfolded 3(1)]]) simp
qed simp_all

lemma known_bits_ok:
  assumes l: "linked s T" and wf: "wf_op s op a"
  shows "stage_ok E s T ops op a (simplify_known_bits s T op a)"
proof -
  obtain m f where k: "known_bits T op a = (m, f)" by fastforce
  show ?thesis
  proof (cases "m = 0 \<or> f = 0")
    case False
    then show ?thesis by (simp add: simplify_known_bits_def k)
  next
    case True
    note st = known_static [OF wf k True]
    have o: "temp_ok s (a ! 0)" using st(2) by (simp add: out_ok_def)
    show ?thesis
    proof (cases "m = 0")
      case True
      have "good E s T ops op a (Some (emit_movi T op (a ! 0) 0))"
        using known_zero [OF l wf _ k [unfolded True]] by (intro good_movi [OF l st(2,3)]) simp
      with st(1) True show ?thesis by (simp add: simplify_known_bits_def k)
    next
      case False
      with True have f: "f = 0" by simp
      have src: "temp_ok s (a ! 1)"
        using k f wf False by (cases rule: known_ops [OF k disjI2]) (auto dest: wf_un wf_bin simp: in_ok_def)
      note ac = affected_const [OF l wf _ k [unfolded f]] and an = affected_nonconst [OF l wf _ k [unfolded f]]
      show ?thesis
      proof (rule copies_decided [OF l o, of "a ! 1"])
        assume c: "temps_are_copies T (a ! 0) (a ! 1) = Some True"
        have "good E s T ops op a (Some (T, [INDEX_op_nop], []))"
        proof (rule good_nop [OF l st(3)])
          fix \<sigma> w assume a: "agrees s T \<sigma>" and d: "exec_op E s op a \<sigma> w \<noteq> Undefined"
          have p: "put (a ! 0) (trunc (op_type op) (get \<sigma> (a ! 1))) \<sigma> = \<sigma>" by (rule copies_dest [OF l st(2) c a])
          show "exec_op E s op a \<sigma> w = Next \<sigma> w"
          proof (cases "is_const T (a ! 1)")
            case True
            have "temp_type s (unat (a ! 1)) = op_type op"
              using temps_are_copies_some [OF l out_is(1) [OF st(2)], of "a ! 1"] c st(2) by (auto simp: out_ok_def)
            then have "trunc (op_type op) (val_of T (a ! 1)) = trunc (op_type op) (get \<sigma> (a ! 1))"
              using get_const [OF a src True] by simp
            with ac [OF a True d] p show ?thesis by simp
          next
            case False
            with an [OF a False d] p show ?thesis by simp
          qed
        qed
        with c st(1) False f show ?thesis by (simp add: simplify_known_bits_def k)
      next
        assume c: "temps_are_copies T (a ! 0) (a ! 1) = Some False" "a ! 0 \<noteq> a ! 1"
        show ?thesis
        proof (cases "is_const T (a ! 1)")
          case True
          have "good E s T ops op a (Some (emit_movi T op (a ! 0) (val_of T (a ! 1))))"
            using ac [OF _ True] by (intro good_movi [OF l st(2,3)])
          with c st(1) False f True show ?thesis by (simp add: simplify_known_bits_def k)
        next
          case nc: False
          have "good E s T ops op a (emit_mov s T op (a ! 0) (a ! 1))"
            using an [OF _ nc] by (intro good_mov [OF l st(2,3) src c(2) nc])
          with c st(1) False f nc show ?thesis by (simp add: simplify_known_bits_def k)
        qed
      qed
    qed
  qed
qed

end
