(* ===== verification/TcgKeep.thy ===== *)
theory TcgKeep
  imports TcgKnown
begin

text \<open>
  The default of the loop body, which keeps the operation
  and forgets what it writes, and calls.
\<close>

subsection \<open>Outputs\<close>

lemma linked_reset_temps:
  "linked s T \<Longrightarrow> (\<forall>x \<in> set xs. temp_ok s x) \<Longrightarrow> linked s (reset_temps xs T)"
  by (induction xs arbitrary: T) (auto simp: temp_ok_def linked_reset)

lemma agrees_put:
  assumes "linked s T" "agrees s T \<sigma>" "temp_ok s x" "trunc (temp_type s (unat x)) v = v"
  shows "agrees s (reset_temp T (unat x)) (put x v \<sigma>)"
  using agrees_reset [of s T \<sigma> "unat x" v] assms by (simp add: temp_ok_def put_def)

lemma agrees_put_all:
  "linked s T \<Longrightarrow> agrees s T \<sigma> \<Longrightarrow> (\<forall>x \<in> set xs. temp_ok s x) \<Longrightarrow> agrees s (reset_temps xs T) (put_all s xs vs \<sigma>)"
proof (induction xs arbitrary: T vs \<sigma>)
  case (Cons x xs)
  then show ?case using agrees_put [of s T \<sigma> x] linked_reset [of s T "unat x"] by (auto simp: temp_ok_def)
qed simp

lemma alu_normal: "alu_at w b x y = Some v \<Longrightarrow> trunc w v = v"
  by (cases w) (auto simp: alu_at_def trunc32 low_cast trunc64)

lemma alu1_normal: "alu1_at w u x = Some v \<Longrightarrow> trunc w v = v"
  by (cases w) (auto simp: alu1_at_def trunc32 low_cast trunc64)

lemma bool_normal: "trunc w (of_bool b) = of_bool b"
  by (cases w; cases b; simp add: trunc_def)

lemma pair_normal: "trunc TCG_TYPE_I32 (take_bit 32 v) = take_bit 32 v" "trunc TCG_TYPE_I32 (drop_bit 32 v) = drop_bit 32 v"
  by (auto simp: trunc_def bit_eq_iff bit_simps dest: bit_imp_le_length)

text \<open>What an operation writes: its outputs, with values of their types.\<close>

lemma nop_next: "next_or_undefined t v \<sigma> w = Next \<sigma>' w' \<Longrightarrow> \<exists>x. v = Some x \<and> \<sigma>' = put t x \<sigma>"
  by (auto simp: next_or_undefined_def split: option.splits)

lemma take_one: "length a = Suc n \<Longrightarrow> take (Suc 0) a = [a ! 0]"
  by (cases a) auto

lemma take_two: "length a = Suc (Suc n) \<Longrightarrow> take (Suc (Suc 0)) a = [a ! 0, a ! Suc 0]"
  by (cases a; cases "tl a") auto

lemma exec_ext_frame:
  assumes "linked s T" "agrees s T \<sigma>" "\<forall>x \<in> set (take (nb_oargs op) a). temp_ok s x" "exec_ext E s op a \<sigma> w = Next \<sigma>' w'"
  shows "agrees s (reset_temps (take (nb_oargs op) a) T) \<sigma>'"
  using assms agrees_put_all [OF assms(1-3)] by (auto simp: exec_ext_def split: prod.splits)

lemma wf_outputs:
  assumes "wf_op s op a" "op \<noteq> INDEX_op_call"
  shows "\<forall>x \<in> set (take (nb_oargs op) a). temp_ok s x"
proof
  fix x assume "x \<in> set (take (nb_oargs op) a)"
  then obtain i where "i < nb_oargs op" "i < length a" "x = a ! i" by (auto simp: in_set_conv_nth)
  with wf_inputs [OF assms] show "temp_ok s x" by (simp add: temp_ok_def)
qed

lemma exec_frame:
  assumes l: "linked s T" and a: "agrees s T \<sigma>" and wf: "wf_op s op a" and op: "op \<noteq> INDEX_op_call" "\<not> op_bb_end op"
    and e: "exec_op E s op a \<sigma> w = Next \<sigma>' w'"
  shows "agrees s (reset_temps (take (nb_oargs op) a) T) \<sigma>'"
proof -
  note ext = exec_ext_frame [OF l a wf_outputs [OF wf op(1)]]
  have one: "agrees s (reset_temps (take (nb_oargs op) a) T) \<sigma>'"
    if "\<sigma>' = put (a ! 0) v \<sigma>" "out_ok s wt (a ! 0)" "trunc wt v = v" "nb_oargs op = Suc 0" "length a = Suc n" for v wt n
    using agrees_put [OF l a, of "a ! 0" v] that by (simp add: out_ok_def take_one)
  have two: "agrees s (reset_temps (take (nb_oargs op) a) T) \<sigma>'"
    if "\<sigma>' = put_pair (a ! 0) (a ! 1) v \<sigma>" "out_ok s TCG_TYPE_I32 (a ! 0)" "out_ok s TCG_TYPE_I32 (a ! 1)"
      "nb_oargs op = Suc (Suc 0)" "length a = Suc (Suc n)" for v n
    using agrees_put [OF linked_reset [OF l] agrees_put [OF l a]] that pair_normal
    by (simp add: out_ok_def take_two put_pair_def temp_ok_def)
  have val: "agrees s (reset_temps (take (nb_oargs op) a) T) \<sigma>'"
    if "exec_op E s op a \<sigma> w = next_or_undefined (a ! 0) r \<sigma> w" "\<And>v. r = Some v \<Longrightarrow> trunc wt v = v" "out_ok s wt (a ! 0)"
      "nb_oargs op = Suc 0" "length a = Suc n" for r wt n
    using nop_next [of "a ! 0" r \<sigma> w \<sigma>' w'] that e one by auto
  have len: "length a = args_taken op a" and wa: "wf_args s op a" using wf by (simp_all add: wf_op_def)
  show ?thesis
  proof (cases op)
    case (INDEX_op_mov t)
    then show ?thesis using e wa len by (intro one [of _ t 1]) (auto simp: exec_basic wf_args_def op_counts)
  next
    case (INDEX_op_movi t)
    then show ?thesis using e wa len by (intro one [of _ t 1]) (auto simp: exec_basic wf_args_def op_counts)
  next
    case (INDEX_op_setcond t)
    then show ?thesis using wa len
      by (intro val [of _ t 3]) (auto simp: exec_op_def Let_def wf_args_def op_counts bool_normal)
  next
    case (INDEX_op_movcond t)
    then show ?thesis using wa len
      by (intro val [of _ t 5]) (auto simp: exec_op_def Let_def wf_args_def op_counts)
  next
    case (INDEX_op_bin b t)
    then show ?thesis using wa len alu_normal
      by (intro val [of _ t 2]) (auto simp: exec_op_def Let_def wf_args_def op_counts)
  next
    case (INDEX_op_un u t)
    show ?thesis
    proof (cases "u \<in> {Bswap16, Bswap32, Bswap64}")
      case True
      with INDEX_op_un e ext show ?thesis by (simp add: exec_op_def Let_def)
    next
      case False
      with INDEX_op_un show ?thesis using wa len alu1_normal
        by (intro val [of _ t 1]) (auto simp: exec_un wf_args_def op_counts)
    qed
  next
    case (INDEX_op_deposit t)
    then show ?thesis using wa len
      by (intro val [of _ t 4]) (auto simp: exec_op_def Let_def wf_args_def op_counts split: if_split_asm)
  next
    case INDEX_op_add2_i32
    then show ?thesis using e wa len by (intro two [of _ 4]) (auto simp: exec_op_def Let_def wf_args_def op_counts)
  next
    case INDEX_op_sub2_i32
    then show ?thesis using e wa len by (intro two [of _ 4]) (auto simp: exec_op_def Let_def wf_args_def op_counts)
  next
    case INDEX_op_mulu2_i32
    then show ?thesis using e wa len by (intro two [of _ 2]) (auto simp: exec_op_def Let_def wf_args_def op_counts)
  qed (use e a ext op wa in \<open>auto simp: exec_op_def Let_def op_counts wf_args_def\<close>)
qed

subsection \<open>Keeping the operation\<close>

lemma linked_default:
  assumes "linked s T" "wf_op s op a" "op \<noteq> INDEX_op_call"
  shows "linked s (fst (do_default s T op a))"
  using linked_reset_temps [OF assms(1) wf_outputs [OF assms(2,3)]] linked_reset_all
  by (simp add: do_default_def Let_def)

lemma exec_bb_end:
  assumes "op_bb_end op" "op \<noteq> INDEX_op_call" "exec_op E s op a \<sigma> w = Next \<sigma>' w'"
  shows "\<sigma>' = \<sigma>"
  using assms by (cases op) (auto simp: exec_op_def branch_def split: if_split_asm option.splits bool.splits)

lemma good_default:
  assumes l: "linked s T" and wf: "wf_op s op a" and op: "op \<noteq> INDEX_op_call"
  shows "good E s T ops op a (Some (do_default s T op a))"
proof -
  have len: "take (nb_args op) a = a" "args_taken op a = length a"
    using wf op by (simp_all add: wf_op_def args_taken_def)
  have ne: "a \<noteq> []" if "op = INDEX_op_set_label"
    using wf that by (auto simp: wf_op_def op_counts)
  have sh: "shaped [op] a" using len ne op by simp
  have ag: "agrees s (fst (do_default s T op a)) \<sigma>'"
    if a: "agrees s T \<sigma>" and e: "exec_op E s op a \<sigma> w = Next \<sigma>' w'" for \<sigma> \<sigma>' w w'
  proof (cases "op_bb_end op")
    case True
    with exec_bb_end [OF True op e] agrees_reset_all [OF a] show ?thesis by (simp add: do_default_def)
  next
    case False
    with exec_frame [OF l a wf op False e] show ?thesis by (simp add: do_default_def)
  qed
  obtain T' where T': "do_default s T op a = (T', [op], a)" "T' = fst (do_default s T op a)"
    by (simp add: do_default_def len)
  have lab: "op = INDEX_op_set_label \<Longrightarrow> T' = reset_all_temps (nb_temps s) T"
    using T' by (simp add: do_default_def)
  show ?thesis
    unfolding good_def
  proof (intro exI conjI)
    show "Some (do_default s T op a) = Some (T', [op], a)" using T' by simp
    show "linked s T'" using linked_default [OF l wf op] T'(2) by simp
    show "\<forall>\<sigma> w. agrees s T \<sigma> \<longrightarrow> exec_op E s op a \<sigma> w \<noteq> Undefined \<longrightarrow>
       exec E s [op] a \<sigma> w = exec_op E s op a \<sigma> w \<and> (\<forall>\<sigma>' w'. exec_op E s op a \<sigma> w = Next \<sigma>' w' \<longrightarrow> agrees s T' \<sigma>')"
      using ag T'(2) len by (auto simp: exec_one simp del: exec.simps)
  qed (use sh lab in simp_all)
qed

lemma reset_globals_ok:
  assumes "linked s T" "n \<le> nb_temps s"
  shows "linked s (reset_globals n T)"
  using assms by (induction n) (auto intro: linked_reset)

lemma agrees_reset_globals:
  assumes l: "linked s T" and a: "agrees s T \<sigma>"
  shows "n \<le> nb_temps s \<Longrightarrow>
    agrees s (reset_globals n T) (\<lambda>t. if t < n then trunc (temp_type s t) (g t) else \<sigma> t)"
proof (induction n)
  case 0
  with a show ?case by simp
next
  case (Suc n)
  have "agrees s (reset_temp (reset_globals n T) n)
      ((\<lambda>t. if t < n then trunc (temp_type s t) (g t) else \<sigma> t)(n := trunc (temp_type s n) (g n)))"
    using Suc by (intro agrees_reset reset_globals_ok [OF l]) simp_all
  moreover have "(\<lambda>t. if t < n then trunc (temp_type s t) (g t) else \<sigma> t)(n := trunc (temp_type s n) (g n)) =
      (\<lambda>t. if t < Suc n then trunc (temp_type s t) (g t) else \<sigma> t)" by (auto simp: fun_eq_iff less_Suc_eq)
  ultimately show ?case by simp
qed

lemma call_outputs:
  assumes "wf_op s INDEX_op_call a"
  shows "\<forall>x \<in> set (take (call_oargs (a ! 0)) (drop 1 a)). temp_ok s x" "length a = call_oargs (a ! 0) + call_iargs (a ! 0) + 3"
    "nb_globals s \<le> nb_temps s"
proof -
  show len: "length a = call_oargs (a ! 0) + call_iargs (a ! 0) + 3" and "nb_globals s \<le> nb_temps s"
    using assms by (simp_all add: wf_op_def wf_args_def args_taken_def)
  show "\<forall>x \<in> set (take (call_oargs (a ! 0)) (drop 1 a)). temp_ok s x"
    using assms len by (auto simp: wf_op_def wf_args_def in_set_conv_nth)
qed

lemma good_call:
  assumes l: "linked s T" and wf: "wf_op s INDEX_op_call a"
  shows "good E s T ops INDEX_op_call a (Some (fold_call s T a))"
proof -
  note c = call_outputs [OF wf]
  let ?n = "call_oargs (a ! 0) + call_iargs (a ! 0)"
  let ?T1 = "if a ! (?n + 1) AND 0x30 = 0 then reset_globals (nb_globals s) T else T"
  let ?T2 = "reset_temps (take (call_oargs (a ! 0)) (drop 1 a)) ?T1"
  have l1: "linked s ?T1" using reset_globals_ok [OF l c(3)] l by simp
  show ?thesis
  proof (rule goodI)
    show "Some (fold_call s T a) = Some (?T2, [INDEX_op_call], a)" using c(2) by (simp add: fold_call_def Let_def)
    show "linked s ?T2" by (rule linked_reset_temps [OF l1 c(1)])
    show "args_taken INDEX_op_call a = length a" using wf by (simp add: wf_op_def)
    show "a \<noteq> [] \<or> INDEX_op_call = INDEX_op_nop" using c(2) by auto
  next
    fix \<sigma> w \<sigma>' w' assume a: "agrees s T \<sigma>" and e: "exec_op E s INDEX_op_call a \<sigma> w = Next \<sigma>' w'"
    obtain outs g v where x: "ext_call E (drop (?n + 1) a) (map (get \<sigma>) (take (call_iargs (a ! 0)) (drop (call_oargs (a ! 0) + 1) a)))
        (global_values s \<sigma>) w = (outs, g, v)" by (metis prod_cases3)
    let ?\<sigma> = "if a ! (?n + 1) AND 0x30 = 0 then new_globals s g \<sigma> else \<sigma>"
    have "\<sigma>' = put_all s (take (call_oargs (a ! 0)) (drop 1 a)) outs ?\<sigma>"
      using e x by (simp add: exec_op_def exec_call_def Let_def)
    moreover have "agrees s ?T1 ?\<sigma>" using agrees_reset_globals [OF l a c(3), of g] a by (simp add: new_globals_def)
    ultimately show "agrees s ?T2 \<sigma>'" using agrees_put_all [OF l1 _ c(1)] by simp
  qed simp_all
qed

end
