(* ===== verification/TcgCond.thy ===== *)
theory TcgCond
  imports TcgKeep
begin

text \<open>
  Folding of moves and arithmetic on constants, and what the folded comparisons say.
\<close>

subsection \<open>Moves and arithmetic\<close>

lemma mov_ok:
  assumes l: "linked s T" and wf: "wf_op s (INDEX_op_mov w) a"
  shows "good E s T ops (INDEX_op_mov w) a (fold_mov s T (INDEX_op_mov w) a)"
proof -
  have o: "out_ok s w (a ! 0)" and i: "in_ok s w (a ! 1)" using wf by (simp_all add: wf_op_def wf_args_def)
  have c: "exec_op E s (INDEX_op_mov w) a \<sigma> u = Next (put (a ! 0) (trunc w (get \<sigma> (a ! 1))) \<sigma>) u" for \<sigma> u
    by (simp add: exec_basic)
  have t: "temp_ok s (a ! 0)" using o by (simp add: out_ok_def)
  show ?thesis
  proof (rule copies_decided [OF l t, of "a ! 1"])
    assume e: "temps_are_copies T (a ! 0) (a ! 1) = Some True"
    have "good E s T ops (INDEX_op_mov w) a (Some (T, [INDEX_op_nop], []))"
      by (rule good_nop [OF l]) (simp_all only: c copies_dest [OF l o e], simp)
    with e show ?thesis by (simp add: fold_mov_def)
  next
    assume e: "temps_are_copies T (a ! 0) (a ! 1) = Some False" "a ! 0 \<noteq> a ! 1"
    show ?thesis
    proof (cases "is_const T (a ! 1)")
      case True
      have "good E s T ops (INDEX_op_mov w) a (Some (emit_movi T (INDEX_op_mov w) (a ! 0) (val_of T (a ! 1))))"
        using in_const [OF _ i True] o by (intro good_movi [OF l]) (simp_all add: c)
      with e True show ?thesis by (simp add: fold_mov_def emit_movi_def Let_def split_beta)
    next
      case False
      have "good E s T ops (INDEX_op_mov w) a
          (map_option (\<lambda>(T, g). (T, [INDEX_op_mov w], g)) (tcg_opt_gen_mov s T (a ! 0) (a ! 1)))"
        by (rule good_gen_mov [OF l o _ in_temp [OF i] e(2) False]) (simp_all add: c)
      with e False show ?thesis by (simp add: fold_mov_def)
    qed
  qed
qed

lemma movi_ok:
  assumes l: "linked s T" and wf: "wf_op s (INDEX_op_movi w) a"
  shows "good E s T ops (INDEX_op_movi w) a (let (T, g) = tcg_opt_gen_movi T (a ! 0) (a ! 1) in Some (T, [INDEX_op_movi w], g))"
proof -
  have "good E s T ops (INDEX_op_movi w) a (Some (emit_movi T (INDEX_op_movi w) (a ! 0) (a ! 1)))"
    using wf by (intro good_movi [OF l]) (simp_all add: exec_basic wf_op_def wf_args_def)
  then show ?thesis by (simp add: emit_movi_def op_to_movi_def split_beta)
qed

lemma unary_ok:
  assumes l: "linked s T" and wf: "wf_op s (INDEX_op_un u w) a" and u: "u \<in> {Not, Neg} \<or> ext_ok w u"
  shows "good E s T ops (INDEX_op_un u w) a (fold_unary s T (INDEX_op_un u w) a)"
proof (cases "is_const T (a ! 1)")
  case True
  note w = wf_un [OF wf]
  have u': "u \<in> {Not, Neg, Ext8s, Ext8u, Ext16s, Ext16u} \<or> u \<in> {Ext32s, Ext32u} \<and> w = TCG_TYPE_I64"
    using u by (auto simp: ext_ok_def)
  obtain r where r: "do_constant_folding (INDEX_op_un u w) (val_of T (a ! 1)) 0 = Some r"
    "\<And>v. alu1_at w u (val_of T (a ! 1)) = Some v \<Longrightarrow> trunc w r = v" using fold_un [OF u'] by blast
  have e: "alu1_at w u (get \<sigma> (a ! 1)) = alu1_at w u (val_of T (a ! 1))" if "agrees s T \<sigma>" for \<sigma>
  proof (cases "ext_ok w u")
    case ext: True
    then show ?thesis
      using low_const [OF that _ True] in_const [OF that _ True] w
      by (intro ext_low) (auto simp: ext_ok_def split: if_split_asm)
  next
    case False
    then show ?thesis using u w in_const [OF that _ True] by (intro at_cong(2) [OF _ refl]) auto
  qed
  have "good E s T ops (INDEX_op_un u w) a (Some (emit_movi T (INDEX_op_un u w) (a ! 0) r))"
  proof (rule good_movi [OF l])
    fix \<sigma> x assume a: "agrees s T \<sigma>" and d: "exec_op E s (INDEX_op_un u w) a \<sigma> x \<noteq> Undefined"
    show "exec_op E s (INDEX_op_un u w) a \<sigma> x = Next (put (a ! 0) (trunc (op_type (INDEX_op_un u w)) r) \<sigma>) x"
      using r(2) e [OF a] u by (intro un_computes [OF _ _ d]) (auto simp: ext_ok_def)
  qed (use w in simp_all)
  with True r(1) show ?thesis by (simp add: fold_unary_def)
next
  case False
  then show ?thesis using good_default [OF l wf] by (simp add: fold_unary_def)
qed

lemma binary_ok:
  assumes l: "linked s T" and wf: "wf_op s (INDEX_op_bin b w) a" and b: "b \<notin> {Div, Divu, Rem, Remu}"
  shows "good E s T ops (INDEX_op_bin b w) a (fold_binary s T (INDEX_op_bin b w) a)"
proof (cases "is_const T (a ! 1) \<and> is_const T (a ! 2)")
  case True
  have w: "out_ok s w (a ! 0)" "in_ok s w (a ! 1)" "in_ok s w (a ! 2)" using wf_bin [OF wf] by blast+
  obtain r where r: "do_constant_folding (INDEX_op_bin b w) (val_of T (a ! 1)) (val_of T (a ! 2)) = Some r"
    "\<And>v. alu_at w b (val_of T (a ! 1)) (val_of T (a ! 2)) = Some v \<Longrightarrow> trunc w r = v" using fold_bin [OF b] by blast
  have "good E s T ops (INDEX_op_bin b w) a (Some (emit_movi T (INDEX_op_bin b w) (a ! 0) r))"
  proof (rule good_movi [OF l])
    fix \<sigma> x assume a: "agrees s T \<sigma>" and d: "exec_op E s (INDEX_op_bin b w) a \<sigma> x \<noteq> Undefined"
    have "alu_at w b (get \<sigma> (a ! 1)) (get \<sigma> (a ! 2)) = alu_at w b (val_of T (a ! 1)) (val_of T (a ! 2))"
      using in_const [OF a] w True by (intro at_cong(1)) blast+
    with r(2) show "exec_op E s (INDEX_op_bin b w) a \<sigma> x = Next (put (a ! 0) (trunc (op_type (INDEX_op_bin b w)) r) \<sigma>) x"
      by (intro bin_computes [OF _ d]) simp
  qed (use w in simp_all)
  with True r(1) show ?thesis by (simp add: fold_binary_def)
next
  case False
  show ?thesis unfolding fold_binary_def if_not_P [OF False] by (rule good_default [OF l wf]) simp
qed

lemma deposit_low:
  assumes "trunc w x = trunc w x'" "trunc w y = trunc w y'" "p + l \<le> width w"
  shows "trunc w (deposit p l x y) = trunc w (deposit p l x' y')"
proof (cases w)
  case TCG_TYPE_I32
  then have "take_bit 32 x = take_bit 32 x'" "take_bit 32 y = take_bit 32 y'"
    using assms(1,2) by (simp_all add: trunc_def)
  then have "bit (take_bit 32 x) i = bit (take_bit 32 x') i" "bit (take_bit 32 y) i = bit (take_bit 32 y') i" for i
    by simp_all
  then have e: "bit x i = bit x' i" "bit y i = bit y' i" if "i < 32" for i
    using that by (auto simp: bit_take_bit_iff)
  show ?thesis
    using assms(3) TCG_TYPE_I32 e
    by (auto simp: trunc_def deposit_def bit_eq_iff bit_take_bit_iff bit_or_iff bit_and_iff bit_not_iff bit_push_bit_iff bit_mask_iff)
next
  case TCG_TYPE_I64
  with assms show ?thesis by (simp add: trunc64)
qed

lemma deposit_ok:
  assumes l: "linked s T" and wf: "wf_op s (INDEX_op_deposit w) a"
  shows "good E s T ops (INDEX_op_deposit w) a (fold_deposit s T (INDEX_op_deposit w) a)"
proof (cases "is_const T (a ! 1) \<and> is_const T (a ! 2)")
  case True
  have w: "out_ok s w (a ! 0)" "in_ok s w (a ! 1)" "in_ok s w (a ! 2)" "unat (a ! 4) < 64"
    using wf by (simp_all add: wf_op_def wf_args_def)
  let ?p = "unat (a ! 3)" and ?l = "unat (a ! 4)" and ?t = "field_mask (a ! 4)"
  let ?r = "(val_of T (a ! 1) AND NOT (hshl ?t (a ! 3))) OR hshl (val_of T (a ! 2) AND ?t) (a ! 3)"
  have "good E s T ops (INDEX_op_deposit w) a (Some (emit_movi T (INDEX_op_deposit w) (a ! 0) ?r))"
  proof (rule good_movi [OF l])
    fix \<sigma> x assume a: "agrees s T \<sigma>" and d: "exec_op E s (INDEX_op_deposit w) a \<sigma> x \<noteq> Undefined"
    have e: "exec_op E s (INDEX_op_deposit w) a \<sigma> x = next_or_undefined (a ! 0)
      (if a ! 4 \<noteq> 0 \<and> ?p + ?l \<le> width w then Some (trunc w (deposit ?p ?l (get \<sigma> (a ! 1)) (get \<sigma> (a ! 2)))) else None) \<sigma> x"
      by (simp add: exec_op_def Let_def)
    with d have p: "a ! 4 \<noteq> 0" "?p + ?l \<le> width w" by (auto simp: next_or_undefined_def split: if_split_asm)
    have "?l \<noteq> 0" using p(1) by (simp add: unat_eq_0)
    moreover have "width w \<le> 64" by (cases w) (simp_all add: width_def)
    ultimately have "?p < 64" using p(2) by linarith
    then have h: "hshl z (a ! 3) = push_bit ?p z" for z :: u64 by (simp add: hshl_def)
    have "deposit ?p ?l (val_of T (a ! 1)) (val_of T (a ! 2)) = ?r"
      unfolding h field_mask_eq [OF w(4)] deposit_def by simp
    moreover have "trunc w (deposit ?p ?l (get \<sigma> (a ! 1)) (get \<sigma> (a ! 2))) = trunc w (deposit ?p ?l (val_of T (a ! 1)) (val_of T (a ! 2)))"
      using in_const [OF a] w True by (intro deposit_low [OF _ _ p(2)]) blast+
    ultimately show "exec_op E s (INDEX_op_deposit w) a \<sigma> x = Next (put (a ! 0) (trunc (op_type (INDEX_op_deposit w)) ?r) \<sigma>) x"
      using e p by (simp add: next_or_undefined_def)
  qed (use w in simp_all)
  with True show ?thesis by (simp add: fold_deposit_def Let_def)
next
  case False
  show ?thesis unfolding fold_deposit_def if_not_P [OF False] by (rule good_default [OF l wf]) simp
qed

subsection \<open>Comparisons\<close>

text \<open>What a folded comparison says is what the comparison gives at run time.\<close>

definition decides :: "tcg_context \<Rightarrow> temp_infos \<Rightarrow> bool option option \<Rightarrow> (temp_values \<Rightarrow> bool option) \<Rightarrow> bool" where
  "decides s T r f \<longleftrightarrow> (\<exists>t. r = Some t \<and> (\<forall>b. t = Some b \<longrightarrow> (\<forall>\<sigma>. agrees s T \<sigma> \<longrightarrow> f \<sigma> = Some b)))"

lemma decides_some:
  "decides s T (Some None) f" "(\<And>\<sigma>. agrees s T \<sigma> \<Longrightarrow> f \<sigma> = Some b) \<Longrightarrow> decides s T (Some (Some b)) f"
  by (simp_all add: decides_def)

lemma decides_map: "v = Some b \<Longrightarrow> (\<And>\<sigma>. agrees s T \<sigma> \<Longrightarrow> f \<sigma> = v) \<Longrightarrow> decides s T (map_option Some v) f"
  by (simp add: decides_def)

lemma compare_eq_valid: "valid_cond c \<Longrightarrow> \<exists>b. do_constant_folding_cond_eq c = Some b"
  unfolding valid_cond_def do_constant_folding_cond_eq_def by auto

lemma compare_at_valid: "valid_cond c \<Longrightarrow> \<exists>b. compare_at w c x y = Some b"
  using compare_valid [of c "ucast x :: u32" "ucast y"] compare_valid [of c x y] by (cases w) (auto simp: compare_at_def)

lemma cond_decides:
  assumes l: "linked s T" and i: "in_ok s w x" "in_ok s w y" and c: "valid_cond c" and w: "op_type op = w"
  shows "decides s T (do_constant_folding_cond T op x y c) (\<lambda>\<sigma>. compare_at w c (get \<sigma> x) (get \<sigma> y))"
proof (cases "is_const T x \<and> is_const T y")
  case True
  obtain b where b: "compare_at w c (val_of T x) (val_of T y) = Some b" using compare_at_valid [OF c] by blast
  have "do_constant_folding_cond T op x y c = map_option Some (compare_at w c (val_of T x) (val_of T y))"
    using True w by (cases w) (simp_all add: do_constant_folding_cond_def compare_at_def fold_cond)
  moreover have "decides s T (map_option Some (compare_at w c (val_of T x) (val_of T y)))
      (\<lambda>\<sigma>. compare_at w c (get \<sigma> x) (get \<sigma> y))"
    using in_const i True by (intro decides_map [OF b] at_cong(3)) blast+
  ultimately show ?thesis by simp
next
  case False
  show ?thesis
  proof (rule copies_decided [OF l in_temp [OF i(1)], of y])
    assume e: "temps_are_copies T x y = Some True" "\<And>\<sigma>. agrees s T \<sigma> \<Longrightarrow> get \<sigma> x = get \<sigma> y"
    obtain b where b: "do_constant_folding_cond_eq c = Some b" using compare_eq_valid [OF c] by blast
    have "compare_at w c v v = do_constant_folding_cond_eq c" for v
      by (cases w) (simp_all add: compare_at_def compare_self)
    with e(2) have "decides s T (map_option Some (do_constant_folding_cond_eq c)) (\<lambda>\<sigma>. compare_at w c (get \<sigma> x) (get \<sigma> y))"
      by (intro decides_map [OF b]) simp
    then show ?thesis unfolding do_constant_folding_cond_def if_not_P [OF False] e(1) by simp
  next
    assume e: "temps_are_copies T x y = Some False"
    have z: "get \<sigma> y = 0" if "agrees s T \<sigma>" "is_const T y" "val_of T y = 0" for \<sigma>
      using in_zero [OF that(1) i(2) that(2,3)] .
    have "compare_at w TCG_COND_LTU v 0 = Some False" "compare_at w TCG_COND_GEU v 0 = Some True" for v
      by (cases w; simp add: compare_at_def compare_zero)+
    with z show ?thesis
      unfolding do_constant_folding_cond_def if_not_P [OF False] e by (auto intro!: decides_some)
  qed
qed

lemma join_double:
  assumes "(ucast h :: u32) = ucast h'" "(ucast l :: u32) = ucast l'"
  shows "join32 h l = double l' h'"
proof -
  have b: "bit z i = bit (ucast z :: u32) i" if "i < 32" for z :: u64 and i using that by (simp add: bit_simps)
  have "bit h i = bit h' i" if "i < 32" for i using that assms(1) b by metis
  then show ?thesis
    using assms(2) by (auto simp: join32_def double_def full_ext(6) bit_eq_iff [where ?'a = "64 word"] bit_simps)
qed

lemma pair_const:
  assumes "agrees s T \<sigma>" "temp_ok s l" "temp_ok s h" "is_const T l" "is_const T h"
  shows "join32 (val_of T h) (val_of T l) = double (get \<sigma> l) (get \<sigma> h)"
  using low_const [OF assms(1,2,4)] low_const [OF assms(1,3,5)] by (intro join_double) simp_all

lemma cond2_decides:
  assumes l: "linked s T" and t: "temp_ok s al" "temp_ok s ah" "temp_ok s bl" "temp_ok s bh" and c: "valid_cond c"
  shows "decides s T (do_constant_folding_cond2 T al ah bl bh c)
    (\<lambda>\<sigma>. compare c (double (get \<sigma> al) (get \<sigma> ah)) (double (get \<sigma> bl) (get \<sigma> bh)))"
    (is "decides s T _ ?f")
proof -
  have rest: "decides s T (Option.bind (temps_are_copies T al bl) (\<lambda>l.
      Option.bind (if l then temps_are_copies T ah bh else Some False) (\<lambda>h.
        if h then map_option Some (do_constant_folding_cond_eq c) else Some None))) ?f"
  proof (rule copies_decided [OF l t(1), of bl])
    assume e1: "temps_are_copies T al bl = Some True" "\<And>\<sigma>. agrees s T \<sigma> \<Longrightarrow> get \<sigma> al = get \<sigma> bl"
    show ?thesis
    proof (rule copies_decided [OF l t(2), of bh])
      assume e2: "temps_are_copies T ah bh = Some True" "\<And>\<sigma>. agrees s T \<sigma> \<Longrightarrow> get \<sigma> ah = get \<sigma> bh"
      obtain b where b: "do_constant_folding_cond_eq c = Some b" using compare_eq_valid [OF c] by blast
      show ?thesis
        unfolding e1(1) e2(1) using e1(2) e2(2) by (simp add: decides_map [OF b] compare_self)
    qed (simp add: e1(1) decides_some)
  qed (simp add: decides_some)
  show ?thesis
  proof (cases "is_const T bl \<and> is_const T bh")
    case True
    then have b: "join32 (val_of T bh) (val_of T bl) = double (get \<sigma> bl) (get \<sigma> bh)" if "agrees s T \<sigma>" for \<sigma>
      using pair_const [OF that t(3,4)] by blast
    show ?thesis
    proof (cases "is_const T al \<and> is_const T ah")
      case a: True
      then have e: "join32 (val_of T ah) (val_of T al) = double (get \<sigma> al) (get \<sigma> ah)" if "agrees s T \<sigma>" for \<sigma>
        using pair_const [OF that t(1,2)] by blast
      obtain v where v: "compare c (join32 (val_of T ah) (val_of T al)) (join32 (val_of T bh) (val_of T bl)) = Some v"
        using compare_valid [OF c] by blast
      have "decides s T (map_option Some (compare c (join32 (val_of T ah) (val_of T al)) (join32 (val_of T bh) (val_of T bl)))) ?f"
        using e b by (intro decides_map [OF v]) simp
      with True a show ?thesis by (simp add: do_constant_folding_cond2_def Let_def fold_cond)
    next
      case False
      show ?thesis
        using rest b unfolding do_constant_folding_cond2_def Let_def if_P [OF True] if_not_P [OF False]
        by (auto intro!: decides_some simp: compare_zero)
    qed
  next
    case False
    then show ?thesis using rest unfolding do_constant_folding_cond2_def Let_def if_not_P [OF False] by simp
  qed
qed

end
