(* ===== verification/TcgFoldOps.thy ===== *)
theory TcgFoldOps
  imports TcgCond
begin

text \<open>
  The last part of the loop body: folding of the comparisons, the branches and the double-word operations, and then
  of any operation.
\<close>

subsection \<open>Comparisons and branches\<close>

lemma next_Some: "next_or_undefined t (Some v) \<sigma> w = Next (put t v \<sigma>) w"
  by (simp add: next_or_undefined_def)

lemma decidesE:
  assumes "decides s T r f"
  obtains "r = Some None" | b where "r = Some (Some b)" "\<And>\<sigma>. agrees s T \<sigma> \<Longrightarrow> f \<sigma> = Some b"
  using assms unfolding decides_def by (metis option.exhaust)

lemma setcond_ok:
  assumes l: "linked s T" and wf: "wf_op s (INDEX_op_setcond w) a"
  shows "good E s T ops (INDEX_op_setcond w) a (fold_setcond s T (INDEX_op_setcond w) a)"
proof -
  have w: "out_ok s w (a ! 0)" "in_ok s w (a ! 1)" "in_ok s w (a ! 2)" "valid_cond (a ! 3)"
    using wf by (simp_all add: wf_op_def wf_args_def)
  show ?thesis
    using cond_decides [OF l w(2,3,4) op_type_bin(5)]
  proof (cases rule: decidesE)
    case 1
    then show ?thesis unfolding fold_setcond_def using good_default [OF l wf] by simp
  next
    case (2 b)
    have "good E s T ops (INDEX_op_setcond w) a (Some (emit_movi T (INDEX_op_setcond w) (a ! 0) (of_bool b)))"
    proof (rule good_movi [OF l])
      fix \<sigma> x assume a: "agrees s T \<sigma>"
      show "exec_op E s (INDEX_op_setcond w) a \<sigma> x = Next (put (a ! 0) (trunc (op_type (INDEX_op_setcond w)) (of_bool b)) \<sigma>) x"
        using 2(2) [OF a] by (simp only: exec_op_def Let_def tcg_opcode.case option.map next_Some op_type_bin bool_normal)
    qed (use w in simp_all)
    with 2(1) show ?thesis by (simp add: fold_setcond_def)
  qed
qed

lemma good_br:
  assumes "linked s T" "op \<noteq> INDEX_op_set_label" "\<And>\<sigma> w. agrees s T \<sigma> \<Longrightarrow> exec_op E s op a \<sigma> w = Jump l \<sigma> w"
  shows "good E s T ops op a (Some (reset_all_temps (nb_temps s) T, [INDEX_op_br], [l]))"
  by (rule goodI [OF refl linked_reset_all]) (use assms in \<open>simp_all add: exec_basic op_counts\<close>)

lemma good_branch:
  assumes l: "linked s T" and wf: "wf_op s op a" and n: "op \<noteq> INDEX_op_set_label" "op \<noteq> INDEX_op_call"
    and e: "\<And>\<sigma> w. exec_op E s op a \<sigma> w = branch (f \<sigma>) lab \<sigma> w"
    and d: "decides s T r f" and rest: "good E s T ops op a rest"
  shows "good E s T ops op a (Option.bind r (\<lambda>tmp. case tmp of
        Some True \<Rightarrow> Some (reset_all_temps (nb_temps s) T, [INDEX_op_br], [lab])
      | Some False \<Rightarrow> Some (T, [INDEX_op_nop], [])
      | None \<Rightarrow> rest))"
  using d
proof (cases rule: decidesE)
  case 1
  with rest show ?thesis by simp
next
  case (2 b)
  show ?thesis
  proof (cases b)
    case True
    have "good E s T ops op a (Some (reset_all_temps (nb_temps s) T, [INDEX_op_br], [lab]))"
      by (rule good_br [OF l n(1)]) (use 2(2) True in \<open>simp add: e branch_def\<close>)
    with 2 True show ?thesis by simp
  next
    case False
    have "good E s T ops op a (Some (T, [INDEX_op_nop], []))"
      by (rule good_nop [OF l n(1)]) (use 2(2) False in \<open>simp add: e branch_def\<close>)
    with 2 False show ?thesis by simp
  qed
qed

lemma brcond_ok:
  assumes l: "linked s T" and wf: "wf_op s (INDEX_op_brcond w) a"
  shows "good E s T ops (INDEX_op_brcond w) a (fold_brcond s T (INDEX_op_brcond w) a)"
  unfolding fold_brcond_def
proof (rule good_branch [OF l wf])
  have w: "in_ok s w (a ! 0)" "in_ok s w (a ! 1)" "valid_cond (a ! 2)" using wf by (simp_all add: wf_op_def wf_args_def)
  show "decides s T (do_constant_folding_cond T (INDEX_op_brcond w) (a ! 0) (a ! 1) (a ! 2))
      (\<lambda>\<sigma>. compare_at w (a ! 2) (get \<sigma> (a ! 0)) (get \<sigma> (a ! 1)))"
    by (rule cond_decides [OF l w op_type_bin(8)])
qed (use good_default [OF l wf] in \<open>simp_all add: exec_op_def Let_def\<close>)

lemma movcond_ok:
  assumes l: "linked s T" and wf: "wf_op s (INDEX_op_movcond w) a"
  shows "good E s T ops (INDEX_op_movcond w) a (fold_movcond s T (INDEX_op_movcond w) a)"
proof -
  let ?op = "INDEX_op_movcond w"
  have w: "out_ok s w (a ! 0)" "in_ok s w (a ! 1)" "in_ok s w (a ! 2)" "in_ok s w (a ! 3)" "in_ok s w (a ! 4)" "valid_cond (a ! 5)"
    using wf by (simp_all add: wf_op_def wf_args_def)
  have t: "temp_ok s (a ! 0)" using w(1) by (simp add: out_ok_def)
  show ?thesis
    using cond_decides [OF l w(2,3,6) op_type_bin(6)]
  proof (cases rule: decidesE)
    case 1
    then show ?thesis unfolding fold_movcond_def using good_default [OF l wf] by simp
  next
    case (2 b)
    define v where "v = a ! (4 - (if b then 1 else 0))"
    have i: "in_ok s w v" using w(4,5) by (cases b) (simp_all add: v_def)
    have c: "exec_op E s ?op a \<sigma> x = Next (put (a ! 0) (trunc w (get \<sigma> v)) \<sigma>) x" if "agrees s T \<sigma>" for \<sigma> x
      using 2(2) [OF that]
      by (cases b) (simp_all only: exec_op_def Let_def tcg_opcode.case option.map next_Some v_def if_True if_False, simp_all)
    show ?thesis
    proof (rule copies_decided [OF l t, of v])
      assume e: "temps_are_copies T (a ! 0) v = Some True"
      have "good E s T ops ?op a (Some (T, [INDEX_op_nop], []))"
        by (rule good_nop [OF l]) (simp_all only: c copies_dest [OF l w(1) e], simp)
      with 2(1) e show ?thesis by (simp add: fold_movcond_def Let_def v_def [symmetric])
    next
      assume e: "temps_are_copies T (a ! 0) v = Some False" "a ! 0 \<noteq> v"
      show ?thesis
      proof (cases "is_const T v")
        case True
        have "good E s T ops ?op a (Some (emit_movi T ?op (a ! 0) (val_of T v)))"
          using in_const [OF _ i True] w(1) by (intro good_movi [OF l]) (simp_all add: c)
        with 2(1) e True show ?thesis by (simp add: fold_movcond_def Let_def v_def [symmetric])
      next
        case False
        have "good E s T ops ?op a (emit_mov s T ?op (a ! 0) v)"
          using w(1) by (intro good_mov [OF l _ _ in_temp [OF i] e(2) False]) (simp_all add: c)
        with 2(1) e False show ?thesis by (simp add: fold_movcond_def Let_def v_def [symmetric])
      qed
    qed
  qed
qed

subsection \<open>Double words\<close>

text \<open>The sign of a double word is that of its high half.\<close>

lemma double_sign:
  assumes "c = TCG_COND_LT \<or> c = TCG_COND_GE"
  shows "compare c (double l h) 0 = compare_at TCG_TYPE_I32 c h 0"
proof -
  have "sint (double l h) < 0 \<longleftrightarrow> bit (double l h) 63" using bit_last_iff [of "double l h"] by simp
  moreover have "sint (ucast h :: u32) < 0 \<longleftrightarrow> bit (ucast h :: u32) 31" using bit_last_iff [of "ucast h :: u32"] by simp
  moreover have "bit (double l h) 63 \<longleftrightarrow> bit (ucast h :: u32) 31" by (simp add: double_def bit_simps)
  ultimately have "sint (double l h) < 0 \<longleftrightarrow> sint (ucast h :: u32) < 0" by simp
  with assms show ?thesis by (auto simp: compare_def compare_at_def not_less [symmetric])
qed

lemma zero_pair_double:
  assumes "agrees s T \<sigma>" "temp_ok s l" "temp_ok s h" "zero_pair T l h"
  shows "get \<sigma> l = 0" "get \<sigma> h = 0"
  using assms get_const [of s T \<sigma> l] get_const [of s T \<sigma> h] by (simp_all add: zero_pair_def)

lemma brcond2_ok:
  assumes l: "linked s T" and wf: "wf_op s INDEX_op_brcond2_i32 a"
  shows "good E s T ops INDEX_op_brcond2_i32 a (fold_brcond2 s T INDEX_op_brcond2_i32 a)"
  unfolding fold_brcond2_def
proof (rule good_branch [OF l wf])
  have w: "temp_ok s (a ! 0)" "temp_ok s (a ! 1)" "temp_ok s (a ! 2)" "temp_ok s (a ! 3)" "valid_cond (a ! 4)"
    using wf by (simp_all add: wf_op_def wf_args_def)
  show "decides s T (do_constant_folding_cond2 T (a ! 0) (a ! 1) (a ! 2) (a ! 3) (a ! 4))
      (\<lambda>\<sigma>. compare (a ! 4) (double (get \<sigma> (a ! 0)) (get \<sigma> (a ! 1))) (double (get \<sigma> (a ! 2)) (get \<sigma> (a ! 3))))"
    by (rule cond2_decides [OF l w])
  show "good E s T ops INDEX_op_brcond2_i32 a
     (if (a ! 4 = TCG_COND_LT \<or> a ! 4 = TCG_COND_GE) \<and> zero_pair T (a ! 2) (a ! 3)
      then Some (reset_all_temps (nb_temps s) T, [INDEX_op_brcond TCG_TYPE_I32], [a ! 1, a ! 3, a ! 4, a ! 5])
      else Some (do_default s T INDEX_op_brcond2_i32 a))"
  proof (cases "(a ! 4 = TCG_COND_LT \<or> a ! 4 = TCG_COND_GE) \<and> zero_pair T (a ! 2) (a ! 3)")
    case True
    have e: "exec_op E s (INDEX_op_brcond TCG_TYPE_I32) [a ! 1, a ! 3, a ! 4, a ! 5] \<sigma> w = exec_op E s INDEX_op_brcond2_i32 a \<sigma> w"
      if a: "agrees s T \<sigma>" for \<sigma> w
    proof -
      note z = zero_pair_double [OF a w(3,4) conjunct2 [OF True]]
      have "double (get \<sigma> (a ! 2)) (get \<sigma> (a ! 3)) = 0" by (simp add: z double_def)
      then show ?thesis using double_sign [OF conjunct1 [OF True]] by (simp add: exec_op_def Let_def z)
    qed
    have "good E s T ops INDEX_op_brcond2_i32 a
        (Some (reset_all_temps (nb_temps s) T, [INDEX_op_brcond TCG_TYPE_I32], [a ! 1, a ! 3, a ! 4, a ! 5]))"
    proof (rule goodI [OF refl linked_reset_all])
      fix \<sigma> w \<sigma>' w' assume a: "agrees s T \<sigma>" and x: "exec_op E s INDEX_op_brcond2_i32 a \<sigma> w = Next \<sigma>' w'"
      have "\<sigma>' = \<sigma>" by (rule exec_bb_end [OF _ _ x]) simp_all
      with agrees_reset_all [OF a] show "agrees s (reset_all_temps (nb_temps s) T) \<sigma>'" by simp
    qed (use e in \<open>simp_all add: op_counts\<close>)
    with True show ?thesis by simp
  next
    case False
    show ?thesis unfolding if_not_P [OF False] by (rule good_default [OF l wf]) simp
  qed
qed (simp_all add: exec_op_def Let_def)

text \<open>Two moves of constants in place of an operation with a double-word result.\<close>

lemma pair_ok:
  assumes l: "linked s T" and o: "out_ok s TCG_TYPE_I32 (a ! 0)" "out_ok s TCG_TYPE_I32 (a ! 1)"
    and n: "op \<noteq> INDEX_op_set_label" and ops: "ops \<noteq> []" "hd ops = INDEX_op_nop"
    and e: "\<And>\<sigma> w. agrees s T \<sigma> \<Longrightarrow> exec_op E s op a \<sigma> w = Next (put_pair (a ! 0) (a ! 1) r \<sigma>) w"
  shows "good E s T ops op a (emit_pair T ops (a ! 0) (a ! 1) r)"
proof -
  let ?l = "ucast (ucast r :: u32) :: u64" and ?h = "ucast (ucast (drop_bit 32 r) :: u32) :: u64"
  let ?T1 = "fst (tcg_opt_gen_movi T (a ! 0) ?l)"
  let ?T2 = "fst (tcg_opt_gen_movi ?T1 (a ! 1) ?h)"
  have h: "?l = take_bit 32 r" "?h = drop_bit 32 r" by (auto simp: bit_eq_iff bit_simps dest: bit_imp_le_length)
  have l1: "linked s ?T1" by (rule linked_movi [OF l out_is(1) [OF o(1)]])
  have l2: "linked s ?T2" by (rule linked_movi [OF l1 out_is(1) [OF o(2)]])
  have a2: "agrees s ?T2 (put_pair (a ! 0) (a ! 1) r \<sigma>)" if a: "agrees s T \<sigma>" for \<sigma>
    using agrees_movi [OF l1 agrees_movi [OF l a out_is(1) [OF o(1)], of ?l] out_is(1) [OF o(2)], of ?h]
    by (simp add: out_is(2) [OF o(1)] out_is(2) [OF o(2)] h pair_normal put_pair_def del: One_nat_def)
  have em: "emit_pair T ops (a ! 0) (a ! 1) r =
      Some (?T2, [INDEX_op_movi TCG_TYPE_I32, INDEX_op_movi TCG_TYPE_I32], [a ! 0, ?l, a ! 1, ?h])"
    using ops by (simp add: emit_pair_def Let_def split_beta gen_movi_state(2))
  have ex: "exec E s [INDEX_op_movi TCG_TYPE_I32, INDEX_op_movi TCG_TYPE_I32] [a ! 0, ?l, a ! 1, ?h] \<sigma> w =
      Next (put_pair (a ! 0) (a ! 1) r \<sigma>) w" for \<sigma> w
    by (simp add: op_counts exec_basic h pair_normal put_pair_def)
  show ?thesis
    unfolding good_def
  proof (intro exI conjI)
    show "emit_pair T ops (a ! 0) (a ! 1) r =
      Some (?T2, [INDEX_op_movi TCG_TYPE_I32, INDEX_op_movi TCG_TYPE_I32], [a ! 0, ?l, a ! 1, ?h])" by (rule em)
    show "linked s ?T2" by (rule l2)
    show "shaped [INDEX_op_movi TCG_TYPE_I32, INDEX_op_movi TCG_TYPE_I32] [a ! 0, ?l, a ! 1, ?h]"
      by (simp add: op_counts)
  qed (use ops n ex a2 e in \<open>simp_all del: exec.simps\<close>)
qed

lemma const_double:
  assumes "agrees s T \<sigma>" "temp_ok s l" "temp_ok s h" "is_const T l" "is_const T h"
  shows "join32 (ucast (ucast (val_of T h) :: u32)) (val_of T l) = double (get \<sigma> l) (get \<sigma> h)"
  using low_const [OF assms(1,2,4)] low_const [OF assms(1,3,5)] by (intro join_double) (simp_all add: low_cast)

lemma add_sub2_ok:
  assumes l: "linked s T" and wf: "wf_op s op a" and op: "op = INDEX_op_add2_i32 \<or> op = INDEX_op_sub2_i32"
    and ops: "ops \<noteq> []" "hd ops = INDEX_op_nop"
  shows "good E s T ops op a (fold_add_sub2 s T ops op a)"
proof (cases "is_const T (a ! 2) \<and> is_const T (a ! 3) \<and> is_const T (a ! 4) \<and> is_const T (a ! 5)")
  case True
  have w: "out_ok s TCG_TYPE_I32 (a ! 0)" "out_ok s TCG_TYPE_I32 (a ! 1)" "temp_ok s (a ! 2)" "temp_ok s (a ! 3)"
    "temp_ok s (a ! 4)" "temp_ok s (a ! 5)" using wf op by (auto simp: wf_op_def wf_args_def)
  let ?x = "join32 (ucast (ucast (val_of T (a ! 3)) :: u32)) (val_of T (a ! 2))"
  let ?y = "join32 (ucast (ucast (val_of T (a ! 5)) :: u32)) (val_of T (a ! 4))"
  have "good E s T ops op a (emit_pair T ops (a ! 0) (a ! 1) (if op = INDEX_op_add2_i32 then ?x + ?y else ?x - ?y))"
  proof (rule pair_ok [OF l w(1,2) _ ops])
    fix \<sigma> w' assume a: "agrees s T \<sigma>"
    have "?x = double (get \<sigma> (a ! 2)) (get \<sigma> (a ! 3))" "?y = double (get \<sigma> (a ! 4)) (get \<sigma> (a ! 5))"
      using const_double [OF a] w True by blast+
    with op show "exec_op E s op a \<sigma> w' = Next (put_pair (a ! 0) (a ! 1)
        (if op = INDEX_op_add2_i32 then ?x + ?y else ?x - ?y) \<sigma>) w'"
      by (auto simp: exec_op_def Let_def)
  qed (use op in auto)
  with True show ?thesis unfolding fold_add_sub2_def if_P [OF True] by (simp add: Let_def)
next
  case False
  show ?thesis unfolding fold_add_sub2_def if_not_P [OF False] by (rule good_default [OF l wf]) (use op in auto)
qed

lemma mulu2_ok:
  assumes l: "linked s T" and wf: "wf_op s INDEX_op_mulu2_i32 a" and ops: "ops \<noteq> []" "hd ops = INDEX_op_nop"
  shows "good E s T ops INDEX_op_mulu2_i32 a (fold_mulu2 s T ops INDEX_op_mulu2_i32 a)"
proof (cases "is_const T (a ! 2) \<and> is_const T (a ! 3)")
  case True
  have w: "out_ok s TCG_TYPE_I32 (a ! 0)" "out_ok s TCG_TYPE_I32 (a ! 1)" "temp_ok s (a ! 2)" "temp_ok s (a ! 3)"
    using wf by (auto simp: wf_op_def wf_args_def)
  let ?r = "ucast (ucast (val_of T (a ! 2)) :: u32) * ucast (ucast (val_of T (a ! 3)) :: u32) :: u64"
  have "good E s T ops INDEX_op_mulu2_i32 a (emit_pair T ops (a ! 0) (a ! 1) ?r)"
  proof (rule pair_ok [OF l w(1,2) _ ops])
    fix \<sigma> w' assume a: "agrees s T \<sigma>"
    have "(ucast (get \<sigma> (a ! 2)) :: u32) = ucast (val_of T (a ! 2))" "(ucast (get \<sigma> (a ! 3)) :: u32) = ucast (val_of T (a ! 3))"
      using low_const [OF a] w True by blast+
    then have "take_bit 32 (get \<sigma> (a ! 2)) * take_bit 32 (get \<sigma> (a ! 3)) = ?r"
      by (simp only: full_ext(6) [symmetric])
    then show "exec_op E s INDEX_op_mulu2_i32 a \<sigma> w' = Next (put_pair (a ! 0) (a ! 1) ?r \<sigma>) w'"
      by (simp only: exec_op_def Let_def tcg_opcode.case)
  qed simp
  with True show ?thesis unfolding fold_mulu2_def if_P [OF True] by (simp add: Let_def)
next
  case False
  show ?thesis unfolding fold_mulu2_def if_not_P [OF False] by (rule good_default [OF l wf]) simp
qed

subsection \<open>Any operation\<close>

definition pair_op :: "tcg_opcode \<Rightarrow> bool" where
  "pair_op op \<longleftrightarrow> op \<in> {INDEX_op_add2_i32, INDEX_op_sub2_i32, INDEX_op_mulu2_i32}"

lemma fold_operation_ok:
  assumes l: "linked s T" and wf: "wf_op s op a" and p: "pair_op op \<Longrightarrow> ops \<noteq> [] \<and> hd ops = INDEX_op_nop"
  shows "good E s T ops op a (fold_operation s T ops op a)"
proof (cases op)
  case (INDEX_op_un u w)
  show ?thesis
    unfolding INDEX_op_un fold_operation_def tcg_opcode.case
    using unary_ok [OF l wf [unfolded INDEX_op_un]] good_default [OF l wf [unfolded INDEX_op_un]]
    by (auto simp: ext_ok_def)
next
  case (INDEX_op_bin b w)
  show ?thesis
    unfolding INDEX_op_bin fold_operation_def tcg_opcode.case
    using binary_ok [OF l wf [unfolded INDEX_op_bin]] good_default [OF l wf [unfolded INDEX_op_bin]] by auto
next
  case INDEX_op_add2_i32
  then have "ops \<noteq> []" "hd ops = INDEX_op_nop" using p by (simp_all add: pair_op_def)
  from add_sub2_ok [OF l wf disjI1 [OF INDEX_op_add2_i32] this] show ?thesis
    by (simp add: fold_operation_def INDEX_op_add2_i32)
next
  case INDEX_op_sub2_i32
  then have "ops \<noteq> []" "hd ops = INDEX_op_nop" using p by (simp_all add: pair_op_def)
  from add_sub2_ok [OF l wf disjI2 [OF INDEX_op_sub2_i32] this] show ?thesis
    by (simp add: fold_operation_def INDEX_op_sub2_i32)
next
  case INDEX_op_setcond2_i32
  with wf show ?thesis by (simp add: wf_op_def wf_args_def)
qed (use good_default [OF l wf] wf p mov_ok [OF l] movi_ok [OF l] deposit_ok [OF l] setcond_ok [OF l] brcond_ok [OF l] movcond_ok [OF l]
    mulu2_ok [OF l] brcond2_ok [OF l] good_call [OF l]
    in \<open>auto simp: fold_operation_def pair_op_def\<close>)

end
