(* ===== verification/TcgCommute.thy ===== *)
theory TcgCommute
  imports TcgFoldOps
begin

text \<open>
  Copy propagation and commutation of the arguments: the new arguments are well typed and the operation means the
  same with them.
\<close>

subsection \<open>Copy propagation\<close>

definition is_input :: "tcg_opcode \<Rightarrow> u64 list \<Rightarrow> nat \<Rightarrow> bool" where
  "is_input op a j \<longleftrightarrow>
    (if op = INDEX_op_call then call_oargs (a ! 0) + 1 \<le> j \<and> j < call_oargs (a ! 0) + 1 + call_iargs (a ! 0)
     else nb_oargs op \<le> j \<and> j < nb_oargs op + nb_iargs op)"

lemma wf_call_input: "wf_op s INDEX_op_call a \<Longrightarrow> 1 \<le> j \<Longrightarrow> j < call_oargs (a ! 0) + call_iargs (a ! 0) + 1 \<Longrightarrow> unat (a ! j) < nb_temps s"
  by (cases j) (auto simp: wf_op_def wf_args_def temp_ok_def)

lemma propagate_some:
  assumes l: "linked s T" and wf: "wf_op s op a"
  shows "\<exists>b. copy_propagate s T op a = Some b \<and> length b = length a \<and>
    (\<forall>j. if is_input op a j then same_arg s T (a ! j) (b ! j) else b ! j = a ! j)"
proof (cases "op = INDEX_op_call")
  case True
  have "length a = call_oargs (a ! 0) + call_iargs (a ! 0) + 3" using wf True by (simp add: wf_op_def args_taken_def)
  with copy_args_some [OF l, of "call_oargs (a ! 0) + 1" "call_iargs (a ! 0)" a] wf wf_call_input [of s a] True
  show ?thesis by (simp add: copy_propagate_def is_input_def wf_op_def)
next
  case False
  with copy_args_some [OF l, of "nb_oargs op" "nb_iargs op" a] wf wf_inputs [OF wf False]
  show ?thesis by (simp add: copy_propagate_def is_input_def wf_op_def)
qed

lemma exec_cong:
  assumes len: "length b = length a" and j: "\<And>j. if is_input op a j then get \<sigma> (b ! j) = get \<sigma> (a ! j) else b ! j = a ! j"
    and op: "op \<noteq> INDEX_op_call"
  shows "exec_op E s op b \<sigma> w = exec_op E s op a \<sigma> w"
proof -
  have out: "j < nb_oargs op \<Longrightarrow> b ! j = a ! j" and const: "nb_oargs op + nb_iargs op \<le> j \<Longrightarrow> b ! j = a ! j"
    and inp: "nb_oargs op \<le> j \<Longrightarrow> j < nb_oargs op + nb_iargs op \<Longrightarrow> get \<sigma> (b ! j) = get \<sigma> (a ! j)" for j
    using assms(2) [of j] op by (simp_all add: is_input_def)
  have ext: "exec_ext E s op b \<sigma> w = exec_ext E s op a \<sigma> w"
  proof -
    have "take (nb_oargs op) b = take (nb_oargs op) a" using len out by (intro nth_equalityI) auto
    moreover have "drop (nb_oargs op + nb_iargs op) b = drop (nb_oargs op + nb_iargs op) a"
      using len const by (intro nth_equalityI) auto
    moreover have "map (get \<sigma>) (take (nb_iargs op) (drop (nb_oargs op) b)) = map (get \<sigma>) (take (nb_iargs op) (drop (nb_oargs op) a))"
      using len inp by (intro nth_equalityI) auto
    ultimately show ?thesis by (simp add: exec_ext_def)
  qed
  show ?thesis
    using op ext out const inp by (cases op; simp add: exec_op_def Let_def op_counts cong: if_cong)
qed

lemma exec_call_cong:
  assumes len: "length b = length a" and j: "\<And>j. if is_input INDEX_op_call a j then get \<sigma> (b ! j) = get \<sigma> (a ! j) else b ! j = a ! j"
    and l: "length a = call_oargs (a ! 0) + call_iargs (a ! 0) + 3"
  shows "exec_op E s INDEX_op_call b \<sigma> w = exec_op E s INDEX_op_call a \<sigma> w"
proof -
  let ?no = "call_oargs (a ! 0)" and ?ni = "call_iargs (a ! 0)"
  have out: "j < ?no + 1 \<Longrightarrow> b ! j = a ! j" and const: "?no + ?ni + 1 \<le> j \<Longrightarrow> b ! j = a ! j"
    and inp: "?no + 1 \<le> j \<Longrightarrow> j < ?no + 1 + ?ni \<Longrightarrow> get \<sigma> (b ! j) = get \<sigma> (a ! j)" for j
    using assms(2) [of j] by (simp_all add: is_input_def)
  have "take ?no (drop 1 b) = take ?no (drop 1 a)" using len out by (intro nth_equalityI) auto
  moreover have "drop (?no + ?ni + 1) b = drop (?no + ?ni + 1) a" using len const by (intro nth_equalityI) auto
  moreover have "map (get \<sigma>) (take ?ni (drop (?no + 1) b)) = map (get \<sigma>) (take ?ni (drop (?no + 1) a))"
    using len inp by (intro nth_equalityI) auto
  moreover have "b ! 0 = a ! 0" "b ! (?no + ?ni + 1) = a ! (?no + ?ni + 1)" using out [of 0] const by simp_all
  ultimately show ?thesis by (simp only: exec_op_def tcg_opcode.case exec_call_def Let_def)
qed

lemma same_arg_ok:
  assumes "same_arg s T x y"
  shows "temp_ok s x \<Longrightarrow> temp_ok s y" "in_ok s w x \<Longrightarrow> in_ok s w y"
  using assms by (simp_all add: same_arg_def temp_ok_def in_ok_def)

lemma propagate_wf:
  assumes wf: "wf_op s op a" and len: "length b = length a"
    and j: "\<And>j. if is_input op a j then same_arg s T (a ! j) (b ! j) else b ! j = a ! j"
  shows "wf_op s op b"
proof (cases "op = INDEX_op_call")
  case True
  have z: "b ! 0 = a ! 0" using j [of 0] True by (simp add: is_input_def)
  have "temp_ok s (b ! (i + 1))" if "i < call_oargs (a ! 0) + call_iargs (a ! 0)" for i
  proof -
    have "temp_ok s (a ! (i + 1))" using wf True that by (simp add: wf_op_def wf_args_def)
    then show ?thesis using j [of "i + 1"] same_arg_ok(1) by (metis (full_types))
  qed
  with wf True z len show ?thesis by (simp add: wf_op_def wf_args_def args_taken_def)
next
  case False
  have out: "\<not> is_input op a j \<Longrightarrow> b ! j = a ! j"
    and inp: "is_input op a j \<Longrightarrow> temp_ok s (a ! j) \<Longrightarrow> temp_ok s (b ! j)"
      "is_input op a j \<Longrightarrow> in_ok s w (a ! j) \<Longrightarrow> in_ok s w (b ! j)" for j w
    using j [of j] same_arg_ok by (simp_all split: if_splits)
  have all: "i < nb_oargs op + nb_iargs op \<Longrightarrow> temp_ok s (a ! i) \<Longrightarrow> temp_ok s (b ! i)" for i
    using out [of i] inp(1) [of i] by (cases "is_input op a i") simp_all
  show ?thesis
    using wf False len out inp all unfolding wf_op_def wf_args_def
    by (cases op; simp add: is_input_def op_counts cong: if_cong split: if_split_asm)
qed

lemma swap_nth: "length a = n \<Longrightarrow> i < n \<Longrightarrow> j < n \<Longrightarrow> swap_args i j a ! k = (if k = j then a ! i else if k = i then a ! j else a ! k)"
  by (simp add: swap_args_def nth_list_update)

lemma swap_len [simp]: "length (swap_args i j a) = length a"
  by (simp add: swap_args_def)

lemma alu_commute:
  assumes "b \<in> {Add, Mul, And, Or, Xor, Eqv, Nand, Nor}"
  shows "alu_at w b x y = alu_at w b y x"
  using assms by (cases w; auto simp: alu_at_def alu_def Let_def ac_simps)

lemma compare_at_swap: "valid_cond c \<Longrightarrow> compare_at w (tcg_swap_cond c) y x = compare_at w c x y"
  by (cases w) (simp_all add: compare_at_def compare_swap)

lemma compare_at_invert: "valid_cond c \<Longrightarrow> compare_at w (tcg_invert_cond c) x y = map_option (\<lambda>b. \<not> b) (compare_at w c x y)"
  by (cases w) (simp_all add: compare_at_def compare_invert)

lemma double_sum: "double l h = push_bit 32 (take_bit 32 h) + take_bit 32 l"
  unfolding double_def by (rule disjunctive_add_eq_or [symmetric]) (auto simp: bit_eq_iff bit_simps)

lemma double_halves: "double l h' + double l' h = double l h + double l' h'"
  by (simp add: double_sum ac_simps)

text \<open>The commuted arguments are well typed and mean the same.\<close>

lemma commute_same:
  assumes wf: "wf_op s op a"
  shows "wf_op s op (commute T op a) \<and> exec_op E s op (commute T op a) \<sigma> w = exec_op E s op a \<sigma> w"
proof -
  have len: "length a = args_taken op a" and wa: "wf_args s op a" and nb: "nb_temps s \<le> 2 ^ 64"
    using wf by (simp_all add: wf_op_def)
  show ?thesis
  proof (cases op)
    case (INDEX_op_bin b t)
    have l: "length a = 3" using len INDEX_op_bin by (simp add: op_counts)
    show ?thesis
      using wa nb l INDEX_op_bin alu_commute [of b t]
      by (auto simp: commute_def swap_if_def swap_nth [OF l] wf_op_def wf_args_def op_counts exec_bin)
  next
    case (INDEX_op_brcond t)
    have l: "length a = 4" using len INDEX_op_brcond by (simp add: op_counts)
    show ?thesis
      using wa nb l INDEX_op_brcond compare_at_swap [of "a ! 2"] valid_conds
      by (auto simp: commute_def Let_def swap_if_def cond_if_def swap_nth [OF l] wf_op_def wf_args_def op_counts exec_op_def nth_list_update)
  next
    case (INDEX_op_setcond t)
    have l: "length a = 4" using len INDEX_op_setcond by (simp add: op_counts)
    show ?thesis
      using wa nb l INDEX_op_setcond compare_at_swap [of "a ! 3"] valid_conds
      by (auto simp: commute_def Let_def swap_if_def cond_if_def swap_nth [OF l] wf_op_def wf_args_def op_counts exec_op_def nth_list_update)
  next
    case INDEX_op_mulu2_i32
    have l: "length a = 4" using len INDEX_op_mulu2_i32 by (simp add: op_counts)
    show ?thesis
      using wa nb l INDEX_op_mulu2_i32
      by (auto simp: commute_def Let_def swap_if_def cond_if_def swap_nth [OF l] wf_op_def wf_args_def op_counts exec_op_def mult.commute)
  next
    case INDEX_op_brcond2_i32
    have l: "length a = 6" using len INDEX_op_brcond2_i32 by (simp add: op_counts)
    have v: "valid_cond (a ! 4)" using wa INDEX_op_brcond2_i32 by (simp add: wf_args_def)
    have sw: "compare (tcg_swap_cond (a ! 4)) y x = compare (a ! 4) x y" for x y :: u64 by (rule compare_swap [OF v])
    show ?thesis
      using wa nb l INDEX_op_brcond2_i32 valid_conds(1) [OF v]
      by (simp add: commute_def Let_def swap_if_def cond_if_def swap_nth [OF l] swap_nth [of "swap_args 0 2 a" 6]
        wf_op_def wf_args_def op_counts exec_op_def nth_list_update sw)
  next
    case INDEX_op_add2_i32
    have l: "length a = 6" using len INDEX_op_add2_i32 by (simp add: op_counts)
    show ?thesis
      using wa nb l INDEX_op_add2_i32
      by (auto simp: commute_def Let_def swap_if_def swap_nth [OF l] swap_nth [of "swap_args 2 4 a" 6]
        wf_op_def wf_args_def op_counts exec_op_def add.commute double_halves)
  next
    case (INDEX_op_movcond t)
    have l: "length a = 6" using len INDEX_op_movcond by (simp add: op_counts)
    define b where "b = cond_if (swap_commutative T (- 1) (a ! 1) (a ! 2)) 5 tcg_swap_cond
        (swap_if (swap_commutative T (- 1) (a ! 1) (a ! 2)) 1 2 a)"
    have lb: "length b = 6" using l by (simp add: b_def cond_if_def swap_if_def)
    have b: "b ! 0 = a ! 0" "b ! 3 = a ! 3" "b ! 4 = a ! 4"
      "b ! 1 = a ! 1 \<and> b ! 2 = a ! 2 \<and> b ! 5 = a ! 5 \<or> b ! 1 = a ! 2 \<and> b ! 2 = a ! 1 \<and> b ! 5 = tcg_swap_cond (a ! 5)"
      using l by (auto simp: b_def cond_if_def swap_if_def swap_nth [OF l] nth_list_update)
    have v: "valid_cond (a ! 5)" "valid_cond (b ! 5)" and in_b: "in_ok s t (b ! 1)" "in_ok s t (b ! 2)"
      using wa INDEX_op_movcond b valid_conds by (auto simp: wf_args_def)
    have cb: "compare_at t (b ! 5) (get \<sigma> (b ! 1)) (get \<sigma> (b ! 2)) = compare_at t (a ! 5) (get \<sigma> (a ! 1)) (get \<sigma> (a ! 2))"
      using b(4) compare_at_swap [OF v(1)] by auto
    have c: "commute T op a = cond_if (swap_commutative T (b ! 0) (b ! 4) (b ! 3)) 5 tcg_invert_cond
        (swap_if (swap_commutative T (b ! 0) (b ! 4) (b ! 3)) 4 3 b)"
      by (simp add: INDEX_op_movcond commute_def b_def Let_def)
    obtain r where r: "compare_at t (b ! 5) (get \<sigma> (b ! 1)) (get \<sigma> (b ! 2)) = Some r" using compare_at_valid [OF v(2)] by blast
    have "compare_at t (tcg_invert_cond (b ! 5)) (get \<sigma> (b ! 1)) (get \<sigma> (b ! 2)) = Some (\<not> r)"
      using compare_at_invert [OF v(2)] r by simp
    then have "wf_op s op (commute T op a)"
      "exec_op E s op (commute T op a) \<sigma> w = next_or_undefined (b ! 0) (map_option (\<lambda>x. trunc t (if x then get \<sigma> (b ! 3) else get \<sigma> (b ! 4)))
        (compare_at t (b ! 5) (get \<sigma> (b ! 1)) (get \<sigma> (b ! 2)))) \<sigma> w"
      using lb INDEX_op_movcond wa nb b(1-3) in_b v(2) valid_conds(2) [OF v(2)] r unfolding c
      by (simp_all add: swap_if_def cond_if_def swap_nth [OF lb] wf_op_def wf_args_def op_counts exec_op_def nth_list_update Let_def)
    then show ?thesis using cb b(1-3) by (simp add: INDEX_op_movcond exec_op_def Let_def cong: if_cong)
  next
    case INDEX_op_setcond2_i32
    with wa show ?thesis by (simp add: wf_args_def)
  qed (use wf in \<open>simp_all add: commute_def\<close>)
qed

text \<open>A constant first operand stays different from the second.\<close>

lemma same_arg_distinct:
  assumes "same_arg s T x x'" "same_arg s T y y'" "x \<noteq> y" "is_const T x' \<or> is_const T y'"
  shows "x' \<noteq> y'"
  using assms by (auto simp: same_arg_def is_const_def split: if_split_asm)

lemma commute_distinct:
  assumes "length b = 3" "is_const T (b ! 1) \<or> is_const T (b ! 2) \<Longrightarrow> b ! 1 \<noteq> b ! 2" "is_const T (commute T (INDEX_op_bin f w) b ! 1)"
  shows "temps_are_copies T (commute T (INDEX_op_bin f w) b ! 1) (commute T (INDEX_op_bin f w) b ! 2) = Some False"
  using assms by (auto simp: commute_def swap_if_def swap_nth [OF assms(1)] temps_are_copies_def is_const_def split: if_split_asm)

end
