(* ===== verification/TcgPass.thy ===== *)
theory TcgPass
  imports TcgCommute
begin

text \<open>
  The whole pass: \<open>tcg_optimize\<close> succeeds on well-typed code, and the code it gives computes what the
  original computes.
\<close>

subsection \<open>One iteration\<close>

text \<open>\<open>tcg-op.h\<close> makes a move of \<open>or\<close> and \<open>and\<close> with equal operands.\<close>

definition or_distinct :: "tcg_opcode \<Rightarrow> u64 list \<Rightarrow> bool" where
  "or_distinct op a = (case op of INDEX_op_bin b _ \<Rightarrow> b \<in> {Or, And} \<longrightarrow> a ! 1 \<noteq> a ! 2 | _ \<Rightarrow> True)"

lemma good_cong:
  assumes g: "good E s T ops op b r" and e: "\<And>\<sigma> w. agrees s T \<sigma> \<Longrightarrow> exec_op E s op b \<sigma> w = exec_op E s op a \<sigma> w"
    and lab: "op = INDEX_op_set_label \<Longrightarrow> b = a"
  shows "good E s T ops op a r"
  using g e lab unfolding good_def by (metis (no_types, lifting))

lemma fold_step_ok:
  assumes l: "linked s T" and wf: "wf_op s op a" and d: "or_distinct op a"
    and p: "pair_op op \<Longrightarrow> ops \<noteq> [] \<and> hd ops = INDEX_op_nop"
  shows "good E s T ops op a (fold_step s T ops op a)"
proof -
  obtain b where b: "copy_propagate s T op a = Some b" "length b = length a"
      "\<And>j. if is_input op a j then same_arg s T (a ! j) (b ! j) else b ! j = a ! j"
    using propagate_some [OF l wf] by blast
  let ?c = "commute T op b"
  have wb: "wf_op s op b" by (rule propagate_wf [OF wf b(2,3)])
  have wc: "wf_op s op ?c" by (rule conjunct1 [OF commute_same [OF wb, of T E]])
  have ec: "exec_op E s op ?c \<sigma> w = exec_op E s op b \<sigma> w" for \<sigma> w by (rule conjunct2 [OF commute_same [OF wb]])
  have dis: "temps_are_copies T (?c ! 1) (?c ! 2) = Some False"
    if o: "op = INDEX_op_bin f t" "f \<in> {Or, And}" "is_const T (?c ! 1)" for f t
  proof -
    have i: "is_input op a 1" "is_input op a 2" by (simp_all add: o is_input_def op_counts)
    have s: "same_arg s T (a ! 1) (b ! 1)" "same_arg s T (a ! 2) (b ! 2)" using b(3) [of 1] b(3) [of 2] i by simp_all
    have l3: "length b = 3" using wb o by (simp add: wf_op_def op_counts)
    have ne: "a ! 1 \<noteq> a ! 2" using d o by (auto simp: or_distinct_def)
    show ?thesis
      unfolding o(1) by (rule commute_distinct [OF l3 same_arg_distinct [OF s ne] o(3) [unfolded o(1)]])
  qed
  have "good E s T ops op ?c
     (finish (Some (simplify_shift_zero T op ?c))
     (finish (simplify_zero_right s T op ?c)
     (finish (simplify_known_bits s T op ?c)
     (finish (Some (simplify_zero_product T op ?c))
     (finish (simplify_same_idempotent s T op ?c)
     (finish (simplify_same_cancel T op ?c)
     (fold_operation s T ops op ?c)))))))"
    by (intro good_finish shift_zero_ok [OF l wc] zero_right_ok [OF l wc] known_bits_ok [OF l wc] zero_product_ok [OF l wc]
        same_idempotent_ok [OF l wc dis] same_cancel_ok [OF l wc] fold_operation_ok [OF l wc p])
  moreover have "fold_step s T ops op a =
     (finish (Some (simplify_shift_zero T op ?c))
     (finish (simplify_zero_right s T op ?c)
     (finish (simplify_known_bits s T op ?c)
     (finish (Some (simplify_zero_product T op ?c))
     (finish (simplify_same_idempotent s T op ?c)
     (finish (simplify_same_cancel T op ?c)
     (fold_operation s T ops op ?c)))))))"
    by (simp add: fold_step_def b(1) Let_def)
  ultimately have g: "good E s T ops op ?c (fold_step s T ops op a)" by simp
  show ?thesis
  proof (rule good_cong [OF g])
    fix \<sigma> w assume ag: "agrees s T \<sigma>"
    have j: "if is_input op a j then get \<sigma> (b ! j) = get \<sigma> (a ! j) else b ! j = a ! j" for j
      using b(3) [of j] ag by (simp add: same_arg_def split: if_split_asm)
    have "exec_op E s op b \<sigma> w = exec_op E s op a \<sigma> w"
    proof (cases "op = INDEX_op_call")
      case True
      have "length a = call_oargs (a ! 0) + call_iargs (a ! 0) + 3" using wf True by (simp add: wf_op_def op_counts)
      with exec_call_cong [OF b(2), of \<sigma> E s w] j True show ?thesis by simp
    qed (rule exec_cong [OF b(2) j])
    with ec show "exec_op E s op ?c \<sigma> w = exec_op E s op a \<sigma> w" by simp
  next
    assume o: "op = INDEX_op_set_label"
    have "b = a" using b(2,3) o by (intro nth_equalityI) (simp_all add: is_input_def op_counts split: if_split_asm)
    with o show "?c = a" by (simp add: commute_def)
  qed
qed

subsection \<open>Well-typed code\<close>

text \<open>Well-typed operations; double-word operations are followed by a \<open>nop\<close>, as \<open>tcg-op.h\<close> emits them.\<close>

fun wf_code :: "tcg_context \<Rightarrow> tcg_opcode list \<Rightarrow> u64 list \<Rightarrow> bool" where
  "wf_code s [] args \<longleftrightarrow> True"
| "wf_code s (op # ops) args \<longleftrightarrow>
    (let n = args_taken op args; a = take n args
     in wf_op s op a \<and> or_distinct op a \<and> (pair_op op \<longrightarrow> ops \<noteq> [] \<and> hd ops = INDEX_op_nop)
        \<and> wf_code s ops (drop n args))"

definition normal :: "tcg_context \<Rightarrow> temp_values \<Rightarrow> bool" where
  "normal s \<sigma> \<longleftrightarrow> (\<forall>t < nb_temps s. trunc (temp_type s t) (\<sigma> t) = \<sigma> t)"

lemma agrees_is_normal: "agrees s T \<sigma> \<Longrightarrow> normal s \<sigma>"
  by (simp add: agrees_def normal_def)

text \<open>The opcodes that are left after an iteration with the replacement \<open>out\<close>.\<close>

lemma rest_nop:
  assumes "length out = 1 \<or> length out = 2 \<and> ops \<noteq> [] \<and> hd ops = INDEX_op_nop"
  obtains "drop (length out - 1) ops = ops" | "ops = INDEX_op_nop # drop (length out - 1) ops"
  using assms by (cases ops) auto

lemma nop_taken [simp]: "args_taken INDEX_op_nop args = 0" by (simp add: op_counts)

lemma rest_wf:
  "length out = 1 \<or> length out = 2 \<and> ops \<noteq> [] \<and> hd ops = INDEX_op_nop \<Longrightarrow> wf_code s ops args \<Longrightarrow>
    wf_code s (drop (length out - 1) ops) args"
  by (erule rest_nop [of out ops]) (simp, metis (no_types, lifting) wf_code.simps(2) nop_taken drop0)

lemma rest_exec:
  "length out = 1 \<or> length out = 2 \<and> ops \<noteq> [] \<and> hd ops = INDEX_op_nop \<Longrightarrow>
    exec E s (drop (length out - 1) ops) args \<sigma> w = exec E s ops args \<sigma> w"
  by (erule rest_nop [of out ops]) (simp, metis (no_types, lifting) exec.simps(2) nop_taken drop0 exec_basic(1) tcg_result.case(1))

lemma rest_label:
  "length out = 1 \<or> length out = 2 \<and> ops \<noteq> [] \<and> hd ops = INDEX_op_nop \<Longrightarrow>
    after_label l (drop (length out - 1) ops) args = after_label l ops args"
  by (erule rest_nop [of out ops]) (simp, metis (no_types, lifting) after_label.simps(2) nop_taken drop0 tcg_opcode.distinct)

lemma label_append:
  "shaped out gen \<Longrightarrow> INDEX_op_set_label \<notin> set out \<Longrightarrow> after_label l (out @ ops) (gen @ args) = after_label l ops args"
proof (induction out arbitrary: gen)
  case (Cons op out)
  then show ?case by (auto simp: args_taken_append)
qed simp

subsection \<open>The loop\<close>

lemma fold_loop_step:
  assumes "fold_step s T ops op (take (args_taken op args) args) = Some (T', out, gen)"
    and "fold_loop s T' (drop (length out - 1) ops) (drop (args_taken op args) args) = Some (outs, gens)"
  shows "fold_loop s T (op # ops) args = Some (out @ outs, gen @ gens)"
  using assms by (simp add: Let_def)

text \<open>The labels of the new code are those of the old, and what follows them was folded with nothing known.\<close>

definition label_ok :: "tcg_context \<Rightarrow> u64 \<Rightarrow> tcg_opcode list \<Rightarrow> u64 list \<Rightarrow> tcg_opcode list \<Rightarrow> u64 list \<Rightarrow> bool" where
  "label_ok s l ops args outs gens \<longleftrightarrow>
    (case after_label l ops args of
       None \<Rightarrow> after_label l outs gens = None
     | Some (ops', args') \<Rightarrow> wf_code s ops' args' \<and>
         (\<exists>T' outs' gens'. after_label l outs gens = Some (outs', gens') \<and> linked s T' \<and>
           (\<forall>\<sigma>. normal s \<sigma> \<longrightarrow> agrees s T' \<sigma>) \<and> fold_loop s T' ops' args' = Some (outs', gens')))"

definition loop_ok :: "'w tcg_env \<Rightarrow> tcg_context \<Rightarrow> temp_infos \<Rightarrow> tcg_opcode list \<Rightarrow> u64 list \<Rightarrow> tcg_opcode list \<Rightarrow> u64 list \<Rightarrow> bool" where
  "loop_ok E s T ops args outs gens \<longleftrightarrow>
    (\<forall>\<sigma> w. agrees s T \<sigma> \<longrightarrow> exec E s ops args \<sigma> w \<noteq> Undefined \<longrightarrow>
       exec E s outs gens \<sigma> w = exec E s ops args \<sigma> w \<and>
       (\<forall>l \<sigma>' w'. exec E s ops args \<sigma> w = Jump l \<sigma>' w' \<longrightarrow> normal s \<sigma>')) \<and>
    (\<forall>l. label_ok s l ops args outs gens)"

lemma exec_jump_same: "exec_op E s op a \<sigma> w = Jump l \<sigma>' w' \<Longrightarrow> \<sigma>' = \<sigma>"
  by (cases op) (auto simp: exec_op_def exec_ext_def exec_call_def next_or_undefined_def branch_def Let_def
      split: if_split_asm option.splits bool.splits prod.splits)

lemma loop_ok_exec:
  assumes g: "\<And>\<sigma> w. agrees s T \<sigma> \<Longrightarrow> exec_op E s op a \<sigma> w \<noteq> Undefined \<Longrightarrow>
        exec E s out gen \<sigma> w = exec_op E s op a \<sigma> w \<and>
        (\<forall>\<sigma>' w'. exec_op E s op a \<sigma> w = Next \<sigma>' w' \<longrightarrow> agrees s T' \<sigma>')"
    and a: "a = take (args_taken op args) args" and sh: "shaped out gen"
    and ih: "loop_ok E s T' ops (drop (args_taken op args) args) outs gens"
    and ag: "agrees s T \<sigma>" and e: "exec E s (op # ops) args \<sigma> w \<noteq> Undefined"
  shows "exec E s (out @ outs) (gen @ gens) \<sigma> w = exec E s (op # ops) args \<sigma> w \<and>
    (\<forall>l \<sigma>' w'. exec E s (op # ops) args \<sigma> w = Jump l \<sigma>' w' \<longrightarrow> normal s \<sigma>')"
proof -
  have nu: "exec_op E s op a \<sigma> w \<noteq> Undefined" using e a by (auto simp: Let_def)
  note o = exec_append [OF sh, of E s outs gens \<sigma> w, unfolded conjunct1 [OF g [OF ag nu]]]
  show ?thesis
  proof (cases "exec_op E s op a \<sigma> w")
    case (Next \<sigma>1 w1)
    then have "agrees s T' \<sigma>1" using g [OF ag nu] by blast
    with ih e Next a o show ?thesis by (auto simp: loop_ok_def Let_def)
  next
    case (Jump l \<sigma>1 w1)
    from exec_jump_same [OF this] agrees_is_normal [OF ag] Jump a o show ?thesis by (auto simp: Let_def)
  qed (use nu a o in \<open>auto simp: Let_def\<close>)
qed

lemma label_ok_skip:
  assumes "label_ok s l ops args outs gens" and a: "after_label l outs' gens' = after_label l outs gens"
    and b: "after_label l ops' args' = after_label l ops args"
  shows "label_ok s l ops' args' outs' gens'"
  using assms(1) unfolding label_ok_def a b .

lemma label_ok_step:
  assumes wf: "wf_op s op a" and a: "a = take (args_taken op args) args" and sh: "shaped out gen"
    and out: "if op = INDEX_op_set_label then out = [op] \<and> gen = a \<and> T' = reset_all_temps (nb_temps s) T
      else INDEX_op_set_label \<notin> set out"
    and wfc: "wf_code s ops (drop (args_taken op args) args)" and l: "linked s T'"
    and fl: "op = INDEX_op_set_label \<Longrightarrow> fold_loop s T' ops (drop (args_taken op args) args) = Some (outs, gens)"
    and ih: "label_ok s l ops (drop (args_taken op args) args) outs gens"
  shows "label_ok s l (op # ops) args (out @ outs) (gen @ gens)"
proof (cases "op = INDEX_op_set_label")
  case True
  have n: "args_taken op args = 1" using True by (simp add: op_counts)
  have len: "length a = 1" using wf True by (simp add: wf_op_def op_counts)
  then obtain x where x: "a = [x]" by (cases a) auto
  then have x0: "args ! 0 = x" using a n by (cases args) auto
  have og: "out @ outs = INDEX_op_set_label # outs" "gen @ gens = x # gens" using out True x by simp_all
  show ?thesis
  proof (cases "x = l")
    case eq: True
    have "\<forall>\<sigma>. normal s \<sigma> \<longrightarrow> agrees s T' \<sigma>" using out True by (auto simp: normal_def agrees_normal)
    with True eq x0 og fl n wfc l show ?thesis by (auto simp: label_ok_def)
  next
    case False
    then have "after_label l (out @ outs) (gen @ gens) = after_label l outs gens" unfolding og by (simp add: op_counts)
    moreover have "after_label l (op # ops) args = after_label l ops (drop (args_taken op args) args)" using False x0 by simp
    ultimately show ?thesis by (rule label_ok_skip [OF ih])
  qed
next
  case False
  with label_append [OF sh, of l outs gens] out show ?thesis by (intro label_ok_skip [OF ih]) simp_all
qed

lemma fold_loop_ok:
  "linked s T \<Longrightarrow> wf_code s ops args \<Longrightarrow>
    \<exists>outs gens. fold_loop s T ops args = Some (outs, gens) \<and> loop_ok E s T ops args outs gens"
proof (induction "length ops" arbitrary: T ops args rule: less_induct)
  case less
  show ?case
  proof (cases ops)
    case Nil
    then show ?thesis by (auto simp: loop_ok_def label_ok_def)
  next
    case (Cons op ops1)
    define a where "a = take (args_taken op args) args"
    define args1 where "args1 = drop (args_taken op args) args"
    have wf: "wf_op s op a" "or_distinct op a" "pair_op op \<Longrightarrow> ops1 \<noteq> [] \<and> hd ops1 = INDEX_op_nop" "wf_code s ops1 args1"
      using less.prems(2) Cons by (auto simp: a_def args1_def Let_def)
    obtain T' out gen where g: "fold_step s T ops1 op a = Some (T', out, gen)" "linked s T'" "shaped out gen"
      "length out = 1 \<or> length out = 2 \<and> ops1 \<noteq> [] \<and> hd ops1 = INDEX_op_nop"
      "if op = INDEX_op_set_label then out = [op] \<and> gen = a \<and> T' = reset_all_temps (nb_temps s) T
         else INDEX_op_set_label \<notin> set out"
      "\<forall>\<sigma> w. agrees s T \<sigma> \<longrightarrow> exec_op E s op a \<sigma> w \<noteq> Undefined \<longrightarrow>
         exec E s out gen \<sigma> w = exec_op E s op a \<sigma> w \<and>
         (\<forall>\<sigma>' w'. exec_op E s op a \<sigma> w = Next \<sigma>' w' \<longrightarrow> agrees s T' \<sigma>')"
      using fold_step_ok [OF less.prems(1) wf(1-3), of E] unfolding good_def by blast
    let ?rest = "drop (length out - 1) ops1"
    have "length ?rest < length ops" using Cons by simp
    from less.hyps [OF this g(2) rest_wf [OF g(4) wf(4)]] obtain outs gens where
      fl: "fold_loop s T' ?rest args1 = Some (outs, gens)" and ok: "loop_ok E s T' ?rest args1 outs gens" by blast
    have ok1: "loop_ok E s T' ops1 args1 outs gens"
      using ok unfolding loop_ok_def label_ok_def rest_exec [OF g(4)] rest_label [OF g(4)] .
    have "loop_ok E s T (op # ops1) args (out @ outs) (gen @ gens)"
      unfolding loop_ok_def
    proof (intro conjI allI)
      show "label_ok s l (op # ops1) args (out @ outs) (gen @ gens)" for l
      proof (rule label_ok_step [OF wf(1) a_def g(3,5) wf(4) [unfolded args1_def] g(2)])
        show "label_ok s l ops1 (drop (args_taken op args) args) outs gens" using ok1 by (simp add: loop_ok_def args1_def)
        show "fold_loop s T' ops1 (drop (args_taken op args) args) = Some (outs, gens)" if "op = INDEX_op_set_label"
          using fl g(5) that by (simp add: args1_def)
      qed
    qed (use loop_ok_exec [OF _ a_def g(3) ok1 [unfolded args1_def]] g(6) in blast)
    moreover have "fold_loop s T ops args = Some (out @ outs, gen @ gens)"
      unfolding Cons by (rule fold_loop_step [OF g(1) [unfolded a_def] fl [unfolded args1_def]])
    ultimately show ?thesis unfolding Cons by blast
  qed
qed

subsection \<open>Runs\<close>

lemma run_ok:
  assumes lab: "\<And>l. label_ok s l (fst tb) (snd tb) (fst tb') (snd tb')"
  shows "linked s T \<Longrightarrow> wf_code s (fst pos) (snd pos) \<Longrightarrow> fold_loop s T (fst pos) (snd pos) = Some pos' \<Longrightarrow>
    agrees s T \<sigma> \<Longrightarrow> run E s k tb pos \<sigma> w \<noteq> Some Undefined \<Longrightarrow> run E s k tb' pos' \<sigma> w = run E s k tb pos \<sigma> w"
proof (induction k arbitrary: T pos pos' \<sigma> w rule: less_induct)
  case (less k)
  obtain outs gens where o: "pos' = (outs, gens)" "loop_ok E s T (fst pos) (snd pos) outs gens"
    using fold_loop_ok [OF less.prems(1,2), of E] less.prems(3) by auto
  have nu: "exec E s (fst pos) (snd pos) \<sigma> w \<noteq> Undefined" using less.prems(5) by auto
  have e: "exec E s outs gens \<sigma> w = exec E s (fst pos) (snd pos) \<sigma> w"
    and n: "\<And>l \<sigma>' w'. exec E s (fst pos) (snd pos) \<sigma> w = Jump l \<sigma>' w' \<Longrightarrow> normal s \<sigma>'"
    using o(2) less.prems(4) nu unfolding loop_ok_def by blast+
  show ?case
  proof (cases "exec E s (fst pos) (snd pos) \<sigma> w")
    case (Jump l \<sigma>1 w1)
    show ?thesis
    proof (cases "after_label l (fst tb) (snd tb)")
      case None
      with lab [of l] o e Jump show ?thesis by (simp add: label_ok_def)
    next
      case (Some q)
      then obtain T' q' where q: "wf_code s (fst q) (snd q)" "after_label l (fst tb') (snd tb') = Some q'" "linked s T'"
        "\<And>\<sigma>. normal s \<sigma> \<Longrightarrow> agrees s T' \<sigma>" "fold_loop s T' (fst q) (snd q) = Some q'"
        using lab [of l] by (auto simp: label_ok_def split: prod.splits)
      show ?thesis
      proof (cases k)
        case 0
        with o e Jump Some q(2) show ?thesis by simp
      next
        case (Suc j)
        with less.IH [of j, OF _ q(3,1,5) q(4) [OF n [OF Jump]]] less.prems(5) o e Jump Some q(2) show ?thesis by simp
      qed
    qed
  qed (use o e nu in simp_all)
qed

subsection \<open>Examples\<close>

definition opt_context :: "tcg_type \<Rightarrow> tcg_context" where
  "opt_context w = \<lparr>nb_globals = 1, nb_temps = 6, temp_type = (\<lambda>t. w), temp_local = (\<lambda>t. False)\<rparr>"

definition opt_env :: "u64 tcg_env" where
  "opt_env = \<lparr>ext_op = (\<lambda>op c i g w. ([], w)), ext_call = (\<lambda>c i g w. ([], (\<lambda>t. 0), w)), ext_chained = (\<lambda>l w. False)\<rparr>"

definition opt_temps :: temp_infos where
  "opt_temps = (\<lambda>t. \<lparr>tstate = TCG_TEMP_UNDEF, prev_copy = 0, next_copy = 0, tval = 0, tmask = 0\<rparr>)"

definition jump_ops :: "tcg_opcode list" where
  "jump_ops = [INDEX_op_movi TCG_TYPE_I64, INDEX_op_movi TCG_TYPE_I64, INDEX_op_bin Add TCG_TYPE_I64,
     INDEX_op_mov TCG_TYPE_I64, INDEX_op_brcond TCG_TYPE_I64, INDEX_op_movi TCG_TYPE_I64, INDEX_op_set_label, INDEX_op_exit_tb]"

definition jump_args :: "u64 list" where
  "jump_args = [1, 5, 2, 7, 3, 1, 2, 0, 3, 3, 1, TCG_COND_GTU, 9, 0, 1, 9, 42]"

text \<open>The value a block leaves with, and those of the first six temporaries.\<close>

definition exit_values :: "'w tcg_result option \<Rightarrow> (u64 \<times> u64 list \<times> 'w) option" where
  "exit_values r = (case r of Some (Exit_tb l \<sigma> w) \<Rightarrow> Some (l, map \<sigma> [0..<6], w) | _ \<Rightarrow> None)"

lemma exit_not_undefined: "exit_values r = Some x \<Longrightarrow> r \<noteq> Some Undefined"
  by (auto simp: exit_values_def)

lemma jump_wf: "wf_code (opt_context TCG_TYPE_I64) jump_ops jump_args"
  by (simp add: jump_ops_def jump_args_def opt_context_def Let_def op_counts wf_op_def wf_args_def or_distinct_def
      pair_op_def temp_ok_def in_ok_def out_ok_def valid_cond_def)

lemma jump_run: "exit_values (run opt_env (opt_context TCG_TYPE_I64) 1 (jump_ops, jump_args) (jump_ops, jump_args) (\<lambda>t. 0) 0) =
    Some (42, [12, 5, 7, 12, 0, 0], 0)"
  by code_simp

subsection \<open>The pass is total and correct\<close>

lemma optimize_some:
  assumes "wf_code s ops args"
  shows "\<exists>code. tcg_optimize s T ops args = Some code"
proof -
  have l: "linked s (reset_all_temps (nb_temps s) T)" by (rule linked_reset_all)
  show ?thesis
    using fold_loop_ok [OF l assms, of undefined] by (auto simp: tcg_optimize_def tcg_constant_folding_def)
qed

text \<open>C29. The pass comes to an end without an abort or a failed assertion on all well-typed code, whatever the array
  of temporaries held before.\<close>

theorem tcg_optimize_total:
  assumes "wf_code s ops args"
  shows "\<exists>code. tcg_optimize s T ops args = Some code"
  by (rule optimize_some [OF assms])

text \<open>C28. The optimised block computes what the block computes: from the same values of the temporaries and the same
  state of the world it makes the same calls and memory accesses in the same order, takes the same jumps and leaves in
  the same way with the same values, unless the block runs into what \<open>tcg/README\<close> leaves undefined.\<close>

theorem tcg_optimize_correct:
  assumes "wf_code s ops args" "normal s \<sigma>" "tcg_optimize s T ops args = Some code"
    and "run E s k (ops, args) (ops, args) \<sigma> w \<noteq> Some Undefined"
  shows "run E s k code code \<sigma> w = run E s k (ops, args) (ops, args) \<sigma> w"
proof -
  let ?T = "reset_all_temps (nb_temps s) T"
  have l: "linked s ?T" by (rule linked_reset_all)
  have a: "agrees s ?T \<sigma>" using assms(2) by (simp add: normal_def agrees_normal)
  have f: "fold_loop s ?T ops args = Some code" using assms(3) by (simp add: tcg_optimize_def tcg_constant_folding_def)
  have "loop_ok E s ?T ops args (fst code) (snd code)" using fold_loop_ok [OF l assms(1), of E] f by auto
  then have lab: "label_ok s l (fst (ops, args)) (snd (ops, args)) (fst code) (snd code)" for l by (simp add: loop_ok_def)
  show ?thesis using run_ok [OF lab l, of "(ops, args)" code \<sigma> E k w] assms(1,4) a f by simp
qed

theorem tcg_optimize_total_witness:
  "tcg_optimize (opt_context TCG_TYPE_I64) opt_temps jump_ops jump_args \<noteq> None"
  using tcg_optimize_total [OF jump_wf, of opt_temps] by auto

theorem tcg_optimize_correct_witness:
  "\<exists>code. tcg_optimize (opt_context TCG_TYPE_I64) opt_temps jump_ops jump_args = Some code \<and>
     exit_values (run opt_env (opt_context TCG_TYPE_I64) 1 code code (\<lambda>t. 0) 0) = Some (42, [12, 5, 7, 12, 0, 0], 0)"
proof -
  obtain code where c: "tcg_optimize (opt_context TCG_TYPE_I64) opt_temps jump_ops jump_args = Some code"
    using optimize_some [OF jump_wf] by blast
  have n: "normal (opt_context TCG_TYPE_I64) (\<lambda>t. 0)" by (simp add: normal_def)
  have "exit_values (run opt_env (opt_context TCG_TYPE_I64) 1 code code (\<lambda>t. 0) 0) = Some (42, [12, 5, 7, 12, 0, 0], 0)"
    unfolding tcg_optimize_correct [OF jump_wf n c exit_not_undefined [OF jump_run]] by (rule jump_run)
  with c show ?thesis by blast
qed

end
