(* ===== verification/PageArith.thy ===== *)
theory PageArith
  imports VxPrelude
begin

text \<open>
  Page numbers, offsets and page-aligned parts of addresses as natural numbers.
\<close>

lemma low_12_mask: "(0xFFF :: 'a::len word) = mask 12"
  by (simp add: mask_eq_exp_minus_1)

lemma split_low: "(n AND - 4096) + (n AND 0xFFF) = (n :: 'a::len word)"
proof -
  have "(n AND - 4096) + (n AND 0xFFF) = (n AND - 4096) OR (n AND 0xFFF)"
    unfolding neg_page low_12_mask by (rule disjunctive_add) (simp add: bit_simps)
  also have "\<dots> = n"
    unfolding neg_page low_12_mask by (rule bit_word_eqI) (auto simp: bit_simps)
  finally show ?thesis .
qed

lemma unat_low: "unat (n AND 0xFFF :: u64) = unat n mod 4096"
  unfolding low_12_mask take_bit_eq_mask [symmetric] by (simp add: take_bit_eq_mod unat_mod)

lemma page_le: "(n :: u64) AND - 4096 \<le> n"
  by (simp add: word_and_le2)

lemma unat_page: "unat (n AND - 4096 :: u64) = 4096 * (unat n div 4096)"
proof -
  have "n AND - 4096 = n - (n AND 0xFFF)"
    using split_low [of n] by (simp add: algebra_simps)
  moreover have "n AND 0xFFF \<le> n" by (rule word_and_le2)
  ultimately have "unat (n AND - 4096) = unat n - unat n mod 4096"
    by (simp add: unat_sub unat_low)
  then show ?thesis by (simp add: minus_mod_eq_mult_div)
qed

lemma unat_page_number: "unat (drop_bit 12 n :: u64) = unat n div 4096"
  unfolding unat_drop_bit_eq by (simp add: drop_bit_eq_div del: drop_bit_numeral_minus_bit1)

lemma page_offset_zero: "(n AND 0xFFF = (0 :: u64)) = (unat n mod 4096 = 0)"
  by (metis unat_low unat_0 unat_eq_zero)

lemmas page_arith = unat_low unat_page unat_page_number page_offset_zero

lemma unat_64: "unat (n :: u64) < 18446744073709551616"
  using unsigned_less [of n] by simp

lemma unat_add_64: "unat (a :: u64) + unat b < 18446744073709551616 \<Longrightarrow> unat (a + b) = unat a + unat b"
  by (simp add: unat_word_ariths)

lemma unat_sub_64: "unat (b :: u64) \<le> unat a \<Longrightarrow> unat (a - b) = unat a - unat b"
  by (simp add: unat_sub word_le_nat_alt)

lemma unat_page_start: "unat (p :: u64) < 2 ^ 40 \<Longrightarrow> unat (push_bit 12 p) = 4096 * unat p"
  by (simp add: push_bit_eq_mult unat_word_ariths)

lemma page_of_start: "unat (p :: u64) < 2 ^ 40 \<Longrightarrow> drop_bit 12 (push_bit 12 p) = p"
  using unat_page_start [of p] unat_page_number [of "push_bit 12 p"] by (simp add: word_unat_eq_iff)

lemma page_start: "a AND - 4096 = push_bit 12 (drop_bit 12 (a :: u64))"
  unfolding neg_page by (rule bit_word_eqI) (auto simp: bit_simps)

lemma unat_in_page: "drop_bit 12 a = (p :: u64) \<Longrightarrow> unat a = 4096 * unat p + unat (a AND 0xFFF)"
  using unat_page_number [of a] by (simp add: unat_low)

lemma low_less: "unat (a AND 0xFFF :: u64) < 4096"
  by (simp add: unat_low)

end
