(* ===== verification/PhysMap.thy ===== *)
theory PhysMap
  imports PageArith "HOL-Library.Monad_Syntax"
begin

text \<open>
  The dispatch tables of \<open>exec.c\<close>: sections of the physical address space, the multi-level map from pages to
  sections (\<open>phys_page_set\<close>, \<open>phys_page_find\<close>), pages shared by several sections (\<open>subpage_t\<close>), and the listener
  callbacks that rebuild them (\<open>core_begin\<close>, \<open>mem_begin\<close>, \<open>mem_add\<close>). There is one address space, as in the
  library. Assertions, and what the C code leaves undefined, are \<open>None\<close>.
\<close>

abbreviation (input) L2_BITS :: nat where "L2_BITS \<equiv> 10"
abbreviation (input) L2_SIZE :: nat where "L2_SIZE \<equiv> 1024"
abbreviation (input) P_L2_LEVELS :: nat where "P_L2_LEVELS \<equiv> 4"
abbreviation (input) PHYS_MAP_NODE_NIL :: nat where "PHYS_MAP_NODE_NIL \<equiv> 0x7FFF"
abbreviation (input) PAGE_BITS :: nat where "PAGE_BITS \<equiv> 12"
abbreviation (input) PAGE_SIZE :: u64 where "PAGE_SIZE \<equiv> 0x1000"
abbreviation (input) PAGE_OFFSET :: u64 where "PAGE_OFFSET \<equiv> 0xFFF"

subsection \<open>Data\<close>

text \<open>
  A reference to a memory region: one of the board, one of the regions \<open>io_mem_init\<close> makes, or the \<open>iomem\<close>
  of a subpage. The pages of a subpage structure are kept in a table of their own, by number.
\<close>

datatype mr_ref = Mr nat | Io_unassigned | Io_notdirty | Io_rom | Io_watch | Io_subpage_ram | Subpage nat

record memory_region_section =
  sec_mr :: mr_ref
  offset_within_region :: u64
  sec_size :: u64
  offset_within_address_space :: u64
  sec_readonly :: bool

record phys_page_entry =
  is_leaf :: bool
  ptr :: nat

record subpage =
  sp_base :: u64
  sub_section :: "nat \<Rightarrow> nat"

record phys_dispatch =
  phys_map :: phys_page_entry
  phys_map_nodes :: "nat \<Rightarrow> nat \<Rightarrow> phys_page_entry"
  phys_map_nodes_nb :: nat
  phys_map_nodes_nb_alloc :: nat
  phys_sections :: "nat \<Rightarrow> memory_region_section"
  phys_sections_nb :: nat
  subpages :: "nat \<Rightarrow> subpage option"
  next_subpage :: nat

definition nil_entry :: phys_page_entry where
  "nil_entry = \<lparr>is_leaf = False, ptr = PHYS_MAP_NODE_NIL\<rparr>"

text \<open>The bit field \<open>ptr\<close> has 15 bits.\<close>

definition leaf_entry :: "nat \<Rightarrow> phys_page_entry" where
  "leaf_entry leaf = \<lparr>is_leaf = True, ptr = take_bit 15 leaf\<rparr>"

subsection \<open>The map from pages to sections\<close>

definition phys_map_node_reserve :: "nat \<Rightarrow> phys_dispatch \<Rightarrow> phys_dispatch" where
  "phys_map_node_reserve nodes d =
    (if phys_map_nodes_nb d + nodes > phys_map_nodes_nb_alloc d then
       let n = max (phys_map_nodes_nb_alloc d * 2) 16
       in d\<lparr>phys_map_nodes_nb_alloc := max n (phys_map_nodes_nb d + nodes)\<rparr>
     else d)"

definition phys_map_node_alloc :: "phys_dispatch \<Rightarrow> (phys_dispatch \<times> nat) option" where
  "phys_map_node_alloc d =
    (let ret = phys_map_nodes_nb d
     in if ret = PHYS_MAP_NODE_NIL \<or> ret = phys_map_nodes_nb_alloc d then None
        else Some (d\<lparr>phys_map_nodes_nb := Suc ret, phys_map_nodes := (phys_map_nodes d)(ret := \<lambda>_. nil_entry)\<rparr>, ret))"

definition phys_map_nodes_reset :: "phys_dispatch \<Rightarrow> phys_dispatch" where
  "phys_map_nodes_reset d = d\<lparr>phys_map_nodes_nb := 0\<rparr>"

text \<open>A pointer \<open>lp\<close> to an entry: the root of the map or an entry of a node.\<close>

datatype entry_ref = Root | Slot nat nat

fun read_entry :: "phys_dispatch \<Rightarrow> entry_ref \<Rightarrow> phys_page_entry" where
  "read_entry d Root = phys_map d"
| "read_entry d (Slot n s) = phys_map_nodes d n s"

fun write_entry :: "entry_ref \<Rightarrow> phys_page_entry \<Rightarrow> phys_dispatch \<Rightarrow> phys_dispatch" where
  "write_entry Root e d = d\<lparr>phys_map := e\<rparr>"
| "write_entry (Slot n s) e d =
    d\<lparr>phys_map_nodes := (phys_map_nodes d)(n := (phys_map_nodes d n)(s := e))\<rparr>"

text \<open>The first half of \<open>phys_page_set_level\<close>: the node behind \<open>lp\<close>, made on demand.\<close>

definition level_node :: "phys_dispatch \<Rightarrow> entry_ref \<Rightarrow> nat \<Rightarrow> (phys_dispatch \<times> nat) option" where
  "level_node d lp level =
    (if \<not> is_leaf (read_entry d lp) \<and> ptr (read_entry d lp) = PHYS_MAP_NODE_NIL then do {
       (d, n) \<leftarrow> phys_map_node_alloc d;
       let d = write_entry lp ((read_entry d lp)\<lparr>ptr := n\<rparr>) d;
       Some (if level = 0 then d\<lparr>phys_map_nodes := (phys_map_nodes d)(n := \<lambda>_. leaf_entry 0)\<rparr> else d, n)
     } else Some (d, ptr (read_entry d lp)))"

text \<open>
  Its loop over the entries \<open>s\<close>, \<open>s + 1\<close>, \dots of node \<open>n\<close>, the last \<open>k\<close> of them to go; \<open>sub\<close> is the call for
  the level below. The call for the level below the last never happens: there a step is one page.
\<close>

fun set_slots :: "(entry_ref \<Rightarrow> phys_dispatch \<times> u64 \<times> u64 \<Rightarrow> (phys_dispatch \<times> u64 \<times> u64) option) \<Rightarrow>
    nat \<Rightarrow> nat \<Rightarrow> nat \<Rightarrow> nat \<Rightarrow> phys_dispatch \<times> u64 \<times> u64 \<Rightarrow> (phys_dispatch \<times> u64 \<times> u64) option" where
  "set_slots sub level leaf n 0 (d, index, nb) = Some (d, index, nb)"
| "set_slots sub level leaf n (Suc k) (d, index, nb) =
    (if nb = 0 then Some (d, index, nb)
     else
       let lp = Slot n (L2_SIZE - Suc k); step = push_bit (level * L2_BITS) 1
       in if index AND (step - 1) = 0 \<and> nb \<ge> step
          then set_slots sub level leaf n k (write_entry lp (leaf_entry leaf) d, index + step, nb - step)
          else do { st \<leftarrow> sub lp (d, index, nb); set_slots sub level leaf n k st })"

definition phys_page_slot :: "u64 \<Rightarrow> nat \<Rightarrow> nat" where
  "phys_page_slot index level = unat (drop_bit (level * L2_BITS) index AND 0x3FF)"

fun phys_page_set_level ::
    "nat \<Rightarrow> nat \<Rightarrow> entry_ref \<Rightarrow> phys_dispatch \<times> u64 \<times> u64 \<Rightarrow> (phys_dispatch \<times> u64 \<times> u64) option" where
  "phys_page_set_level 0 leaf lp (d, index, nb) = do {
     (d, n) \<leftarrow> level_node d lp 0;
     set_slots (\<lambda>_ _. None) 0 leaf n (L2_SIZE - phys_page_slot index 0) (d, index, nb)
   }"
| "phys_page_set_level (Suc level) leaf lp (d, index, nb) = do {
     (d, n) \<leftarrow> level_node d lp (Suc level);
     set_slots (phys_page_set_level level leaf) (Suc level) leaf n (L2_SIZE - phys_page_slot index (Suc level)) (d, index, nb)
   }"

definition phys_page_set :: "u64 \<Rightarrow> u64 \<Rightarrow> nat \<Rightarrow> phys_dispatch \<Rightarrow> phys_dispatch option" where
  "phys_page_set index nb leaf d = do {
     (d, _) \<leftarrow> phys_page_set_level (P_L2_LEVELS - 1) leaf Root (phys_map_node_reserve (3 * P_L2_LEVELS) d, index, nb);
     Some d
   }"

text \<open>\<open>walk d i lp index\<close> is the loop of \<open>phys_page_find\<close> with \<open>i\<close> levels to go; \<open>phys_section_unassigned\<close> is 0.\<close>

fun walk_levels :: "phys_dispatch \<Rightarrow> nat \<Rightarrow> phys_page_entry \<Rightarrow> u64 \<Rightarrow> nat" where
  "walk_levels d 0 lp index = ptr lp"
| "walk_levels d (Suc i) lp index =
    (if is_leaf lp then ptr lp
     else if ptr lp = PHYS_MAP_NODE_NIL then 0
     else walk_levels d i (phys_map_nodes d (ptr lp) (phys_page_slot index i)) index)"

text \<open>The number of the section \<open>phys_page_find\<close> returns.\<close>

definition phys_page_find :: "phys_dispatch \<Rightarrow> u64 \<Rightarrow> nat" where
  "phys_page_find d index = walk_levels d P_L2_LEVELS (phys_map d) index"

subsection \<open>Sections\<close>

text \<open>The number is a \<open>uint16_t\<close>.\<close>

definition phys_section_add :: "memory_region_section \<Rightarrow> phys_dispatch \<Rightarrow> phys_dispatch \<times> nat" where
  "phys_section_add s d =
    (d\<lparr>phys_sections := (phys_sections d)(phys_sections_nb d := s), phys_sections_nb := Suc (phys_sections_nb d)\<rparr>,
     take_bit 16 (phys_sections_nb d))"

definition phys_sections_clear :: "phys_dispatch \<Rightarrow> phys_dispatch" where
  "phys_sections_clear d = d\<lparr>phys_sections_nb := 0\<rparr>"

definition memory_region_section_addr :: "memory_region_section \<Rightarrow> u64 \<Rightarrow> u64" where
  "memory_region_section_addr s addr = addr - offset_within_address_space s + offset_within_region s"

definition dummy_section :: "mr_ref \<Rightarrow> memory_region_section" where
  "dummy_section r = \<lparr>sec_mr = r, offset_within_region = 0, sec_size = - 1, offset_within_address_space = 0,
     sec_readonly = False\<rparr>"

text \<open>\<open>core_begin\<close> makes the sections 0 to 3: unassigned, not dirty, ROM, watched.\<close>

definition core_begin :: "phys_dispatch \<Rightarrow> phys_dispatch" where
  "core_begin d =
    fold (\<lambda>r d. fst (phys_section_add (dummy_section r) d)) [Io_unassigned, Io_notdirty, Io_rom, Io_watch]
      (phys_sections_clear d)"

subsection \<open>Shared pages\<close>

text \<open>The loop of \<open>subpage_register\<close> over the bytes from \<open>idx\<close> to \<open>eidx\<close>.\<close>

definition fill_subpage :: "nat \<Rightarrow> nat \<Rightarrow> nat \<Rightarrow> subpage \<Rightarrow> subpage" where
  "fill_subpage idx eidx sec sp =
    sp\<lparr>sub_section := (\<lambda>i. if idx \<le> i \<and> i \<le> eidx then sec else sub_section sp i)\<rparr>"

text \<open>\<open>ram\<close> tells which regions of the board are RAM; the regions of \<open>io_mem_init\<close> and of subpages are not.\<close>

definition is_ram_ref :: "(nat \<Rightarrow> bool) \<Rightarrow> mr_ref \<Rightarrow> bool" where
  "is_ram_ref ram r = (case r of Mr n \<Rightarrow> ram n | _ \<Rightarrow> False)"

definition subpage_register :: "(nat \<Rightarrow> bool) \<Rightarrow> nat \<Rightarrow> u32 \<Rightarrow> u32 \<Rightarrow> nat \<Rightarrow> phys_dispatch \<Rightarrow> phys_dispatch option" where
  "subpage_register ram k start end' section d =
    (if start \<ge> 0x1000 \<or> end' \<ge> 0x1000 then Some d
     else do {
       sp \<leftarrow> subpages d k;
       let (d, section) = (if is_ram_ref ram (sec_mr (phys_sections d section))
              then phys_section_add ((phys_sections d section)\<lparr>sec_mr := Io_subpage_ram\<rparr>) d
              else (d, section));
       Some (d\<lparr>subpages := (subpages d)(k \<mapsto> fill_subpage (unat start) (unat end') section sp)\<rparr>)
     })"

definition subpage_init :: "(nat \<Rightarrow> bool) \<Rightarrow> u64 \<Rightarrow> phys_dispatch \<Rightarrow> (phys_dispatch \<times> nat) option" where
  "subpage_init ram base d =
    (let k = next_subpage d;
         d = d\<lparr>next_subpage := Suc k, subpages := (subpages d)(k \<mapsto> \<lparr>sp_base = base, sub_section = \<lambda>_. 0\<rparr>)\<rparr>
     in do { d \<leftarrow> subpage_register ram k 0 0xFFF 0 d; Some (d, k) })"

text \<open>The first half of \<open>register_subpage\<close>: the subpage of the page at \<open>base\<close>, made on demand.\<close>

definition subpage_at :: "(nat \<Rightarrow> bool) \<Rightarrow> u64 \<Rightarrow> phys_dispatch \<Rightarrow> (phys_dispatch \<times> nat) option" where
  "subpage_at ram base d =
    (let existing = phys_sections d (phys_page_find d (drop_bit PAGE_BITS base))
     in case sec_mr existing of
          Io_unassigned \<Rightarrow> do {
            (d, k) \<leftarrow> subpage_init ram base d;
            let (d, n) = phys_section_add \<lparr>sec_mr = Subpage k, offset_within_region = 0, sec_size = PAGE_SIZE,
                           offset_within_address_space = base, sec_readonly = False\<rparr> d;
            d \<leftarrow> phys_page_set (drop_bit PAGE_BITS base) 1 n d;
            Some (d, k)
          }
        | Subpage k \<Rightarrow> Some (d, k)
        | _ \<Rightarrow> None)"

text \<open>The second half: the bytes of the section.\<close>

definition subpage_fill :: "(nat \<Rightarrow> bool) \<Rightarrow> memory_region_section \<Rightarrow> nat \<Rightarrow> phys_dispatch \<Rightarrow> phys_dispatch option" where
  "subpage_fill ram s k d =
    (let start = offset_within_address_space s AND PAGE_OFFSET;
         end' = start + sec_size s - 1;
         (d, n) = phys_section_add s d
     in subpage_register ram k (ucast start) (ucast end') n d)"

definition register_subpage :: "(nat \<Rightarrow> bool) \<Rightarrow> memory_region_section \<Rightarrow> phys_dispatch \<Rightarrow> phys_dispatch option" where
  "register_subpage ram s d = do {
     (d, k) \<leftarrow> subpage_at ram (offset_within_address_space s AND NOT PAGE_OFFSET) d;
     subpage_fill ram s k d
   }"

definition register_multipage :: "memory_region_section \<Rightarrow> phys_dispatch \<Rightarrow> phys_dispatch option" where
  "register_multipage s d =
    (let (d, n) = phys_section_add s d
     in if sec_size s = 0 then None
        else phys_page_set (drop_bit PAGE_BITS (offset_within_address_space s)) (drop_bit PAGE_BITS (sec_size s)) n d)"

subsection \<open>The listener\<close>

definition page_align :: "u64 \<Rightarrow> u64" where
  "page_align a = (a + PAGE_OFFSET) AND NOT PAGE_OFFSET"

definition section_take :: "u64 \<Rightarrow> memory_region_section \<Rightarrow> memory_region_section" where
  "section_take n s = s\<lparr>sec_size := n\<rparr>"

definition section_drop :: "u64 \<Rightarrow> memory_region_section \<Rightarrow> memory_region_section" where
  "section_drop n s = s\<lparr>sec_size := sec_size s - n, offset_within_address_space := offset_within_address_space s + n,
     offset_within_region := offset_within_region s + n\<rparr>"

text \<open>The loop of \<open>mem_add\<close> over what remains of the section, and its last part of a page.\<close>

function mem_add_pages :: "(nat \<Rightarrow> bool) \<Rightarrow> memory_region_section \<Rightarrow> phys_dispatch \<Rightarrow> phys_dispatch option" where
  "mem_add_pages ram remain d =
    (if sec_size remain \<ge> PAGE_SIZE then
       if offset_within_region remain AND PAGE_OFFSET \<noteq> 0
       then do { d \<leftarrow> register_subpage ram (section_take PAGE_SIZE remain) d;
                 mem_add_pages ram (section_drop PAGE_SIZE remain) d }
       else let n = sec_size remain AND NOT PAGE_OFFSET
            in do { d \<leftarrow> register_multipage (section_take n remain) d; mem_add_pages ram (section_drop n remain) d }
     else if sec_size remain \<noteq> 0 then register_subpage ram remain d
     else Some d)"
  by pat_completeness auto

termination
proof (relation "measure (\<lambda>(ram, s, d). unat (sec_size s))", goal_cases)
  case (3 ram remain d n d')
  then have "unat (sec_size remain AND - 4096) \<le> unat (sec_size remain)" "0 < unat (sec_size remain AND - 4096)"
    using div_le_mono [of 4096 "unat (sec_size remain)" 4096] by (simp_all add: unat_page word_le_nat_alt)
  with 3 show ?case by (simp add: section_drop_def unat_sub_64)
qed (auto simp: section_drop_def word_le_nat_alt unat_sub_64)

definition mem_add :: "(nat \<Rightarrow> bool) \<Rightarrow> memory_region_section \<Rightarrow> phys_dispatch \<Rightarrow> phys_dispatch option" where
  "mem_add ram s d =
    (if offset_within_address_space s AND PAGE_OFFSET \<noteq> 0 \<or> sec_size s < PAGE_SIZE then
       let n = min (page_align (offset_within_address_space s) - offset_within_address_space s) (sec_size s)
       in do { d \<leftarrow> register_subpage ram (section_take n s) d; mem_add_pages ram (section_drop n s) d }
     else mem_add_pages ram s d)"

subsection \<open>Tearing the map down\<close>

definition destroy_page_desc :: "nat \<Rightarrow> phys_dispatch \<Rightarrow> phys_dispatch option" where
  "destroy_page_desc section_index d =
    (case sec_mr (phys_sections d section_index) of
       Subpage k \<Rightarrow> (if subpages d k = None then None else Some (d\<lparr>subpages := (subpages d)(k := None)\<rparr>))
     | _ \<Rightarrow> Some d)"

fun destroy_slots :: "(entry_ref \<Rightarrow> phys_dispatch \<Rightarrow> phys_dispatch option) \<Rightarrow> nat \<Rightarrow> nat \<Rightarrow> phys_dispatch \<Rightarrow> phys_dispatch option" where
  "destroy_slots sub n 0 d = Some d"
| "destroy_slots sub n (Suc k) d =
    (let lp = Slot n (L2_SIZE - Suc k)
     in do {
       d \<leftarrow> (if \<not> is_leaf (read_entry d lp) then sub lp d else destroy_page_desc (ptr (read_entry d lp)) d);
       destroy_slots sub n k d
     })"

text \<open>\<open>destroy_l2_mapping\<close> with \<open>levels\<close> levels of nodes below \<open>lp\<close>; below the last there are none.\<close>

fun destroy_l2_mapping :: "nat \<Rightarrow> entry_ref \<Rightarrow> phys_dispatch \<Rightarrow> phys_dispatch option" where
  "destroy_l2_mapping 0 lp d = (if ptr (read_entry d lp) = PHYS_MAP_NODE_NIL then Some d else None)"
| "destroy_l2_mapping (Suc levels) lp d =
    (if ptr (read_entry d lp) = PHYS_MAP_NODE_NIL then Some d
     else do {
       d \<leftarrow> destroy_slots (destroy_l2_mapping levels) (ptr (read_entry d lp)) L2_SIZE d;
       Some (write_entry lp nil_entry d)
     })"

definition destroy_all_mappings :: "phys_dispatch \<Rightarrow> phys_dispatch option" where
  "destroy_all_mappings d = map_option phys_map_nodes_reset (destroy_l2_mapping P_L2_LEVELS Root d)"

definition mem_begin :: "phys_dispatch \<Rightarrow> phys_dispatch option" where
  "mem_begin d = map_option (\<lambda>d. d\<lparr>phys_map := (phys_map d)\<lparr>ptr := PHYS_MAP_NODE_NIL\<rparr>\<rparr>) (destroy_all_mappings d)"

text \<open>\<open>address_space_init_dispatch\<close>, and the state of the statics before.\<close>

definition init_dispatch :: phys_dispatch where
  "init_dispatch = \<lparr>phys_map = nil_entry, phys_map_nodes = \<lambda>_ _. nil_entry, phys_map_nodes_nb = 0,
     phys_map_nodes_nb_alloc = 0, phys_sections = \<lambda>_. dummy_section Io_unassigned, phys_sections_nb = 0,
     subpages = \<lambda>_. None, next_subpage = 0\<rparr>"

subsection \<open>Where an access goes\<close>

text \<open>What \<open>subpage_read\<close> and \<open>subpage_write\<close> work out: the section and the address they pass on.\<close>

definition subpage_target :: "phys_dispatch \<Rightarrow> subpage \<Rightarrow> u64 \<Rightarrow> memory_region_section \<times> u64" where
  "subpage_target d sp addr =
    (let s = phys_sections d (sub_section sp (unat (addr AND PAGE_OFFSET)))
     in (s, memory_region_section_addr s (addr + sp_base sp)))"

definition phys_target :: "phys_dispatch \<Rightarrow> u64 \<Rightarrow> (memory_region_section \<times> u64) option" where
  "phys_target d addr =
    (let s = phys_sections d (phys_page_find d (drop_bit PAGE_BITS addr)); a = memory_region_section_addr s addr
     in case sec_mr s of Subpage k \<Rightarrow> map_option (\<lambda>sp. subpage_target d sp a) (subpages d k) | _ \<Rightarrow> Some (s, a))"

end
