(* ===== verification/MemRegion.thy ===== *)
theory MemRegion
  imports PhysMap
begin

text \<open>
  The memory regions of \<open>memory.c\<close>: their tree, the flat view rendered from it, and the transactions that bring
  the dispatch tables up to date. \<open>Int128\<close> values are integers: theory \<open>Int128\<close> shows that its operations are
  exact within 127 bits, and addresses here stay within a few multiples of 2 ^ 64. Regions are named by
  numbers; a freed one is absent. Failed assertions and uses of a freed region are \<open>None\<close>. There is one address
  space, with the listeners \<open>exec.c\<close> registers.
\<close>

subsection \<open>Address ranges\<close>

record addr_range =
  ar_start :: int
  ar_size :: int

abbreviation (input) addrrange_make :: "int \<Rightarrow> int \<Rightarrow> addr_range" where
  "addrrange_make s n \<equiv> \<lparr>ar_start = s, ar_size = n\<rparr>"

definition addrrange_end :: "addr_range \<Rightarrow> int" where
  "addrrange_end r = ar_start r + ar_size r"

definition addrrange_contains :: "addr_range \<Rightarrow> int \<Rightarrow> bool" where
  "addrrange_contains r x \<longleftrightarrow> ar_start r \<le> x \<and> x < addrrange_end r"

definition addrrange_intersects :: "addr_range \<Rightarrow> addr_range \<Rightarrow> bool" where
  "addrrange_intersects r1 r2 \<longleftrightarrow> addrrange_contains r1 (ar_start r2) \<or> addrrange_contains r2 (ar_start r1)"

definition addrrange_intersection :: "addr_range \<Rightarrow> addr_range \<Rightarrow> addr_range" where
  "addrrange_intersection r1 r2 =
    (let start = max (ar_start r1) (ar_start r2); end' = min (addrrange_end r1) (addrrange_end r2)
     in addrrange_make start (end' - start))"

text \<open>\<open>int128_get64\<close> with its assertion.\<close>

definition get64 :: "int \<Rightarrow> u64 option" where
  "get64 v = (if 0 \<le> v \<and> v < 2 ^ 64 then Some (word_of_int v) else None)"

subsection \<open>Regions and flat views\<close>

datatype destructor = Destructor_none | Destructor_ram | Destructor_ram_from_ptr | Destructor_rom_device

record memory_region =
  reg_parent :: "nat option"
  reg_size :: int
  reg_addr :: u64
  reg_ram_addr :: u64
  reg_terminates :: bool
  reg_readable :: bool
  reg_ram :: bool
  reg_readonly :: bool
  reg_rom_device :: bool
  reg_enabled :: bool
  reg_alias :: "nat option"
  reg_alias_offset :: u64
  reg_priority :: u32
  reg_may_overlap :: bool
  reg_subregions :: "nat list"
  reg_dirty_log_mask :: "8 word"
  reg_destructor :: destructor

type_synonym region_store = "nat \<Rightarrow> memory_region option"

record flat_range =
  fr_mr :: nat
  fr_offset_in_region :: u64
  fr_addr :: addr_range
  fr_dirty_log_mask :: "8 word"
  fr_readable :: bool
  fr_readonly :: bool

definition flatrange_equal :: "flat_range \<Rightarrow> flat_range \<Rightarrow> bool" where
  "flatrange_equal a b \<longleftrightarrow> fr_mr a = fr_mr b \<and> fr_addr a = fr_addr b \<and> fr_offset_in_region a = fr_offset_in_region b \<and>
     fr_readable a = fr_readable b \<and> fr_readonly a = fr_readonly b"

definition can_merge :: "flat_range \<Rightarrow> flat_range \<Rightarrow> bool" where
  "can_merge r1 r2 \<longleftrightarrow> addrrange_end (fr_addr r1) = ar_start (fr_addr r2) \<and> fr_mr r1 = fr_mr r2 \<and>
     uint (fr_offset_in_region r1) + ar_size (fr_addr r1) = uint (fr_offset_in_region r2) \<and>
     fr_dirty_log_mask r1 = fr_dirty_log_mask r2 \<and> fr_readable r1 = fr_readable r2 \<and> fr_readonly r1 = fr_readonly r2"

text \<open>
  The inner loop of \<open>flatview_simplify\<close>: \<open>acc\<close> is the range \<open>i\<close> that grows and \<open>prev\<close> the range \<open>j - 1\<close>. It
  gives the grown range and the ranges from \<open>j\<close> on.
\<close>

fun merge_run :: "flat_range \<Rightarrow> flat_range \<Rightarrow> flat_range list \<Rightarrow> flat_range \<times> flat_range list" where
  "merge_run acc prev [] = (acc, [])"
| "merge_run acc prev (g # gs) =
    (if can_merge prev g
     then merge_run (acc\<lparr>fr_addr := (fr_addr acc)\<lparr>ar_size := ar_size (fr_addr acc) + ar_size (fr_addr g)\<rparr>\<rparr>) g gs
     else (acc, g # gs))"

lemma merge_run_shorter: "length (snd (merge_run acc prev gs)) \<le> length gs"
  by (induction acc prev gs rule: merge_run.induct) (simp_all add: le_SucI)

function flatview_simplify :: "flat_range list \<Rightarrow> flat_range list" where
  "flatview_simplify [] = []"
| "flatview_simplify (f # fs) = (let (g, rest) = merge_run f f fs in g # flatview_simplify rest)"
  by pat_completeness auto

termination
proof (relation "measure length", simp)
  fix f fs p g rest
  assume "p = merge_run f f fs" "(g, rest) = p"
  then show "(rest, f # fs) \<in> measure length" using merge_run_shorter [of f f fs] by (metis in_measure le_imp_less_Suc list.size(4) add.right_neutral add_Suc_right snd_conv)
qed

subsection \<open>Rendering\<close>

definition flat_piece :: "nat \<Rightarrow> memory_region \<Rightarrow> bool \<Rightarrow> int \<Rightarrow> u64 \<Rightarrow> int \<Rightarrow> flat_range" where
  "flat_piece r mr readonly base off now =
    \<lparr>fr_mr = r, fr_offset_in_region = off, fr_addr = addrrange_make base now,
     fr_dirty_log_mask = reg_dirty_log_mask mr, fr_readable = reg_readable mr, fr_readonly = readonly\<rparr>"

text \<open>The loop that renders a region into the gaps of the view, over the ranges from \<open>i\<close> on.\<close>

fun render_gaps :: "(int \<Rightarrow> u64 \<Rightarrow> int \<Rightarrow> flat_range) \<Rightarrow> int \<Rightarrow> u64 \<Rightarrow> int \<Rightarrow> flat_range list \<Rightarrow> flat_range list option" where
  "render_gaps piece base off remain [] = Some (if remain \<noteq> 0 then [piece base off remain] else [])"
| "render_gaps piece base off remain (f # fs) =
    (if remain = 0 then Some (f # fs)
     else if base \<ge> addrrange_end (fr_addr f) then map_option ((#) f) (render_gaps piece base off remain fs)
     else do {
       let now = (if base < ar_start (fr_addr f) then min remain (ar_start (fr_addr f) - base) else 0);
       let new = (if base < ar_start (fr_addr f) then [piece base off now] else []);
       step \<leftarrow> get64 now;
       let base = base + now;
       let off = off + step;
       let remain = remain - now;
       let now = min (base + remain) (addrrange_end (fr_addr f)) - base;
       step \<leftarrow> get64 now;
       view \<leftarrow> render_gaps piece (base + now) (off + step) (remain - now) fs;
       Some (new @ f # view)
     })"

fun fold_opt :: "('a \<Rightarrow> 'b \<Rightarrow> 'b option) \<Rightarrow> 'a list \<Rightarrow> 'b \<Rightarrow> 'b option" where
  "fold_opt f [] v = Some v"
| "fold_opt f (x # xs) v = Option.bind (f x v) (fold_opt f xs)"

text \<open>The recursion ends for a tree of regions whose aliases do not come back to it: the first argument is fuel.\<close>

fun render_memory_region ::
    "nat \<Rightarrow> region_store \<Rightarrow> nat \<Rightarrow> int \<Rightarrow> addr_range \<Rightarrow> bool \<Rightarrow> flat_range list \<Rightarrow> flat_range list option" where
  "render_memory_region 0 rs r base clip readonly view = None"
| "render_memory_region (Suc n) rs r base clip readonly view = do {
     mr \<leftarrow> rs r;
     let base = base + uint (reg_addr mr);
     let readonly = (readonly \<or> reg_readonly mr);
     let tmp = addrrange_make base (reg_size mr);
     if \<not> reg_enabled mr \<or> \<not> addrrange_intersects tmp clip then Some view
     else do {
       let clip = addrrange_intersection tmp clip;
       case reg_alias mr of
         Some a \<Rightarrow> do {
           am \<leftarrow> rs a;
           render_memory_region n rs a (base - uint (reg_addr am) - uint (reg_alias_offset mr)) clip readonly view
         }
       | None \<Rightarrow> do {
           view \<leftarrow> fold_opt (\<lambda>s. render_memory_region n rs s base clip readonly) (reg_subregions mr) view;
           if \<not> reg_terminates mr then Some view
           else do {
             off \<leftarrow> get64 (ar_start clip - base);
             render_gaps (flat_piece r mr readonly) (ar_start clip) off (ar_size clip) view
           }
         }
     }
   }"

definition generate_memory_topology :: "nat \<Rightarrow> region_store \<Rightarrow> nat option \<Rightarrow> flat_range list option" where
  "generate_memory_topology n rs root =
    map_option flatview_simplify
      (case root of None \<Rightarrow> Some [] | Some r \<Rightarrow> render_memory_region n rs r 0 (addrrange_make 0 (2 ^ 64)) False [])"

subsection \<open>Updating the listeners\<close>

datatype listener_call = Region_del flat_range | Region_nop flat_range | Region_add flat_range
  | Log_stop flat_range | Log_start flat_range

text \<open>The calls \<open>address_space_update_topology_pass\<close> makes.\<close>

fun update_topology_pass :: "flat_range list \<Rightarrow> flat_range list \<Rightarrow> bool \<Rightarrow> listener_call list" where
  "update_topology_pass [] [] adding = []"
| "update_topology_pass (old # olds) [] adding =
    (if adding then [] else [Region_del old]) @ update_topology_pass olds [] adding"
| "update_topology_pass [] (new # news) adding =
    (if adding then [Region_add new] else []) @ update_topology_pass [] news adding"
| "update_topology_pass (old # olds) (new # news) adding =
    (if ar_start (fr_addr old) < ar_start (fr_addr new) \<or>
        ar_start (fr_addr old) = ar_start (fr_addr new) \<and> \<not> flatrange_equal old new then
       (if adding then [] else [Region_del old]) @ update_topology_pass olds (new # news) adding
     else if flatrange_equal old new then
       (if adding then Region_nop new #
          (if fr_dirty_log_mask old \<noteq> 0 \<and> fr_dirty_log_mask new = 0 then [Log_stop new]
           else if fr_dirty_log_mask new \<noteq> 0 \<and> fr_dirty_log_mask old = 0 then [Log_start new] else [])
        else []) @ update_topology_pass olds news adding
     else (if adding then [Region_add new] else []) @ update_topology_pass (old # olds) news adding)"

definition flat_section :: "flat_range \<Rightarrow> memory_region_section option" where
  "flat_section f = do {
     size \<leftarrow> get64 (ar_size (fr_addr f));
     start \<leftarrow> get64 (ar_start (fr_addr f));
     Some \<lparr>sec_mr = Mr (fr_mr f), offset_within_region = fr_offset_in_region f, sec_size = size,
       offset_within_address_space = start, sec_readonly = fr_readonly f\<rparr>
   }"

text \<open>What the one listener of the address space does: \<open>region_add\<close> and \<open>region_nop\<close> are \<open>mem_add\<close>, the others null.\<close>

definition listener_step :: "(nat \<Rightarrow> bool) \<Rightarrow> listener_call \<Rightarrow> phys_dispatch \<Rightarrow> phys_dispatch option" where
  "listener_step ram c d = (case c of
     Region_add f \<Rightarrow> do { s \<leftarrow> flat_section f; mem_add ram s d }
   | Region_nop f \<Rightarrow> do { s \<leftarrow> flat_section f; mem_add ram s d }
   | _ \<Rightarrow> Some d)"

end
