(* ===== verification/RamBlocks.thy ===== *)
theory RamBlocks
  imports PageArith "HOL-Library.Monad_Syntax"
begin

text \<open>
  The RAM blocks of \<open>exec.c\<close> (\<open>ram_list\<close>): each maps a range of RAM addresses to memory of the host. A new block
  goes into the smallest gap behind another one that is large enough. The blocks never overlap (\<open>ram_ok\<close>), so that a
  RAM address belongs to one block and \<open>qemu_get_ram_ptr\<close> finds it whatever the order of the list.
\<close>

record ram_block =
  rb_host :: u64
  rb_offset :: u64
  rb_length :: u64

text \<open>The dirty array has one byte for each page; \<open>mru_block\<close> is one of the blocks.\<close>

record ram_list =
  rl_blocks :: "ram_block list"
  rl_mru :: "ram_block option"
  rl_version :: u32
  rl_dirty :: "u64 \<Rightarrow> u8"

definition empty_ram :: ram_list where
  "empty_ram = \<lparr>rl_blocks = [], rl_mru = None, rl_version = 0, rl_dirty = \<lambda>_. 0\<rparr>"

abbreviation (input) RAM_ADDR_MAX :: u64 where "RAM_ADDR_MAX \<equiv> - 1"

definition rb_end :: "ram_block \<Rightarrow> u64" where "rb_end b = rb_offset b + rb_length b"

subsection \<open>Operations\<close>

text \<open>The inner loop of \<open>find_ram_offset\<close>: where the next block behind \<open>end'\<close> begins.\<close>

definition next_offset :: "u64 \<Rightarrow> ram_block list \<Rightarrow> u64" where
  "next_offset end' bs = fold (\<lambda>nb next. if rb_offset nb \<ge> end' then min next (rb_offset nb) else next) bs RAM_ADDR_MAX"

definition gap_step :: "u64 \<Rightarrow> ram_block list \<Rightarrow> ram_block \<Rightarrow> u64 \<times> u64 \<Rightarrow> u64 \<times> u64" where
  "gap_step size' bs b = (\<lambda>(offset, mingap).
    let end' = rb_end b; next = next_offset end' bs
    in if next - end' \<ge> size' \<and> next - end' < mingap then (end', next - end') else (offset, mingap))"

definition find_ram_offset :: "u64 \<Rightarrow> ram_block list \<Rightarrow> u64 option" where
  "find_ram_offset size' bs =
    (if bs = [] then Some 0
     else let (offset, mingap) = fold (gap_step size' bs) bs (RAM_ADDR_MAX, RAM_ADDR_MAX)
          in if offset = RAM_ADDR_MAX then None else Some offset)"

definition last_ram_offset :: "ram_block list \<Rightarrow> u64" where
  "last_ram_offset bs = fold (\<lambda>b l. max l (rb_end b)) bs 0"

text \<open>The list is sorted from the biggest to the smallest block.\<close>

fun insert_block :: "ram_block \<Rightarrow> ram_block list \<Rightarrow> ram_block list" where
  "insert_block nb [] = [nb]"
| "insert_block nb (b # bs) = (if rb_length b < rb_length nb then nb # b # bs else b # insert_block nb bs)"

definition ram_page_align :: "u64 \<Rightarrow> u64" where
  "ram_page_align a = (a + 0xFFF) AND NOT 0xFFF"

text \<open>\<open>memset\<close> to 0, then \<open>cpu_physical_memory_set_dirty_range\<close> with all flags.\<close>

definition set_dirty_range :: "u64 \<Rightarrow> u64 \<Rightarrow> (u64 \<Rightarrow> u8) \<Rightarrow> (u64 \<Rightarrow> u8)" where
  "set_dirty_range start len d =
    (\<lambda>p. if drop_bit 12 start \<le> p \<and> p < drop_bit 12 (ram_page_align (start + len)) then 0xFF else d p)"

definition qemu_ram_alloc_from_ptr :: "u64 \<Rightarrow> u64 \<Rightarrow> ram_list \<Rightarrow> (ram_list \<times> u64) option" where
  "qemu_ram_alloc_from_ptr size' host r =
    (let size' = ram_page_align size'
     in do {
       offset \<leftarrow> find_ram_offset size' (rl_blocks r);
       let b = \<lparr>rb_host = host, rb_offset = offset, rb_length = size'\<rparr>;
       Some (\<lparr>rl_blocks = insert_block b (rl_blocks r), rl_mru = None, rl_version = rl_version r + 1,
              rl_dirty = set_dirty_range offset size' (rl_dirty r)\<rparr>, offset)
     })"

fun remove_block :: "u64 \<Rightarrow> ram_block list \<Rightarrow> ram_block list" where
  "remove_block addr [] = []"
| "remove_block addr (b # bs) = (if addr = rb_offset b then bs else b # remove_block addr bs)"

definition qemu_ram_free_from_ptr :: "u64 \<Rightarrow> ram_list \<Rightarrow> ram_list" where
  "qemu_ram_free_from_ptr addr r =
    (if addr \<in> rb_offset ` set (rl_blocks r)
     then r\<lparr>rl_blocks := remove_block addr (rl_blocks r), rl_mru := None, rl_version := rl_version r + 1\<rparr>
     else r)"

definition in_block :: "u64 \<Rightarrow> ram_block \<Rightarrow> bool" where
  "in_block addr b \<longleftrightarrow> addr - rb_offset b < rb_length b"

definition qemu_get_ram_ptr :: "u64 \<Rightarrow> ram_list \<Rightarrow> (ram_list \<times> u64) option" where
  "qemu_get_ram_ptr addr r =
    (let block = (case rl_mru r of Some b \<Rightarrow> if in_block addr b then Some b else find (in_block addr) (rl_blocks r)
                  | None \<Rightarrow> find (in_block addr) (rl_blocks r))
     in map_option (\<lambda>b. (r\<lparr>rl_mru := Some b\<rparr>, rb_host b + (addr - rb_offset b))) block)"

definition qemu_safe_ram_ptr :: "u64 \<Rightarrow> ram_list \<Rightarrow> u64 option" where
  "qemu_safe_ram_ptr addr r = map_option (\<lambda>b. rb_host b + (addr - rb_offset b)) (find (in_block addr) (rl_blocks r))"

definition qemu_ram_ptr_length :: "u64 \<Rightarrow> u64 \<Rightarrow> ram_list \<Rightarrow> (u64 \<times> u64) option" where
  "qemu_ram_ptr_length addr size' r =
    (if size' = 0 then Some (0, 0)
     else map_option (\<lambda>b. (rb_host b + (addr - rb_offset b),
         if addr - rb_offset b + size' > rb_length b then rb_length b - addr + rb_offset b else size'))
       (find (in_block addr) (rl_blocks r)))"

definition qemu_ram_addr_from_host :: "u64 \<Rightarrow> ram_list \<Rightarrow> u64 option" where
  "qemu_ram_addr_from_host ptr' r =
    map_option (\<lambda>b. rb_offset b + (ptr' - rb_host b))
      (find (\<lambda>b. rb_host b \<noteq> 0 \<and> ptr' - rb_host b < rb_length b) (rl_blocks r))"

subsection \<open>Blocks do not overlap\<close>

definition block_range :: "ram_block \<Rightarrow> nat set" where
  "block_range b = {unat (rb_offset b) ..< unat (rb_offset b) + unat (rb_length b)}"

definition block_fits :: "ram_block \<Rightarrow> bool" where
  "block_fits b \<longleftrightarrow> unat (rb_offset b) + unat (rb_length b) < 2 ^ 64 \<and> rb_length b \<noteq> 0"

fun apart :: "ram_block list \<Rightarrow> bool" where
  "apart [] \<longleftrightarrow> True"
| "apart (b # bs) \<longleftrightarrow> (\<forall>c \<in> set bs. block_range b \<inter> block_range c = {}) \<and> apart bs"

definition ram_ok :: "ram_list \<Rightarrow> bool" where
  "ram_ok r \<longleftrightarrow> list_all block_fits (rl_blocks r) \<and> apart (rl_blocks r) \<and>
    (\<forall>b. rl_mru r = Some b \<longrightarrow> b \<in> set (rl_blocks r))"

lemma in_block_range: "block_fits b \<Longrightarrow> in_block a b \<longleftrightarrow> unat a \<in> block_range b"
proof -
  assume f: "block_fits b"
  show ?thesis
  proof (cases "rb_offset b \<le> a")
    case True
    then have "unat (a - rb_offset b) = unat a - unat (rb_offset b)" "unat (rb_offset b) \<le> unat a"
      by (simp_all add: unat_sub_64 word_le_nat_alt)
    then show ?thesis by (auto simp: in_block_def block_range_def word_less_nat_alt)
  next
    case False
    then have lt: "unat a < unat (rb_offset b)" by (simp add: word_le_nat_alt)
    have "unat (a - rb_offset b) = 2 ^ 64 + unat a - unat (rb_offset b)"
      using lt by (simp add: unat_sub_if_size word_size word_le_nat_alt)
    then show ?thesis using lt f by (auto simp: in_block_def block_range_def word_less_nat_alt block_fits_def)
  qed
qed

lemma apart_iff: "apart bs \<Longrightarrow> b \<in> set bs \<Longrightarrow> c \<in> set bs \<Longrightarrow> b \<noteq> c \<Longrightarrow> block_range b \<inter> block_range c = {}"
  by (induction bs) auto

lemma apart_same: "apart bs \<Longrightarrow> list_all block_fits bs \<Longrightarrow> b \<in> set bs \<Longrightarrow> c \<in> set bs \<Longrightarrow> in_block a b \<Longrightarrow> in_block a c \<Longrightarrow> b = c"
  using apart_iff [of bs b c] in_block_range [of b a] in_block_range [of c a] by (auto simp: list_all_iff)

lemma set_insert_block [simp]: "set (insert_block b bs) = insert b (set bs)"
  by (induction bs) auto

lemma apart_insert: "apart bs \<Longrightarrow> (\<And>c. c \<in> set bs \<Longrightarrow> block_range b \<inter> block_range c = {}) \<Longrightarrow> apart (insert_block b bs)"
  by (induction bs) (auto simp: Int_commute)

lemma remove_subset: "set (remove_block a bs) \<subseteq> set bs"
  by (induction bs) auto

lemma apart_remove: "apart bs \<Longrightarrow> apart (remove_block a bs)"
  using remove_subset by (induction bs) (auto, fastforce)

subsection \<open>The gap\<close>

lemma next_fold:
  fixes acc e :: u64
  defines "f \<equiv> \<lambda>(nb :: ram_block) next. if rb_offset nb \<ge> e then min next (rb_offset nb) else next"
  shows "fold f bs acc \<le> acc" "b \<in> set bs \<Longrightarrow> e \<le> rb_offset b \<Longrightarrow> fold f bs acc \<le> rb_offset b"
    "e \<le> acc \<Longrightarrow> e \<le> fold f bs acc"
proof -
  have fold_le: "fold f bs acc \<le> acc" for bs acc
    by (induction bs arbitrary: acc) (auto simp: f_def intro: order_trans [OF _ min.cobounded1])
  then show "fold f bs acc \<le> acc" .
  show "b \<in> set bs \<Longrightarrow> e \<le> rb_offset b \<Longrightarrow> fold f bs acc \<le> rb_offset b"
  proof (induction bs arbitrary: acc)
    case (Cons c bs)
    show ?case
    proof (cases "b \<in> set bs")
      case True
      then show ?thesis using Cons by simp
    next
      case False
      then have "c = b" using Cons.prems by simp
      then have "fold f (c # bs) acc \<le> f b acc" using Cons.prems by (simp add: fold_le)
      also have "f b acc \<le> rb_offset b" using Cons.prems(2) by (simp add: f_def)
      finally show ?thesis .
    qed
  qed simp
  show "e \<le> acc \<Longrightarrow> e \<le> fold f bs acc"
    by (induction bs arbitrary: acc) (auto simp: f_def)
qed

lemma next_offset_le: "b \<in> set bs \<Longrightarrow> e \<le> rb_offset b \<Longrightarrow> next_offset e bs \<le> rb_offset b"
  unfolding next_offset_def by (rule next_fold(2))

lemma next_offset_ge: "e \<le> next_offset e bs"
  unfolding next_offset_def by (rule next_fold(3)) simp

definition gap_at :: "u64 \<Rightarrow> ram_block list \<Rightarrow> u64 \<Rightarrow> bool" where
  "gap_at size' bs off \<longleftrightarrow> (\<exists>b \<in> set bs. off = rb_end b \<and> next_offset off bs - off \<ge> size')"

lemma gap_fold:
  "fst st = RAM_ADDR_MAX \<or> gap_at size' bs (fst st) \<Longrightarrow> set cs \<subseteq> set bs \<Longrightarrow>
    fst (fold (gap_step size' bs) cs st) = RAM_ADDR_MAX \<or> gap_at size' bs (fst (fold (gap_step size' bs) cs st))"
proof (induction cs arbitrary: st)
  case (Cons c cs)
  have "fst (gap_step size' bs c st) = RAM_ADDR_MAX \<or> gap_at size' bs (fst (gap_step size' bs c st))"
    using Cons.prems by (cases st) (auto simp: gap_step_def Let_def gap_at_def)
  from Cons.IH [OF this] Cons.prems show ?case by simp
qed simp

lemma find_ram_offset_gap: "find_ram_offset size' bs = Some off \<Longrightarrow> bs = [] \<and> off = 0 \<or> gap_at size' bs off"
  using gap_fold [of "(RAM_ADDR_MAX, RAM_ADDR_MAX)" size' bs bs]
  by (auto simp: find_ram_offset_def split: if_splits prod.splits)

lemma unat_rb_end: "block_fits b \<Longrightarrow> unat (rb_end b) = unat (rb_offset b) + unat (rb_length b)"
  by (simp add: rb_end_def block_fits_def unat_add_64)

lemma find_ram_offset_free:
  assumes off: "find_ram_offset size' bs = Some off" and ok: "list_all block_fits bs" "apart bs"
    and new: "rb_offset b = off" "rb_length b = size'" "size' \<noteq> 0" "size' \<noteq> - 1"
  shows "block_fits b \<and> (\<forall>c \<in> set bs. block_range b \<inter> block_range c = {})"
  using find_ram_offset_gap [OF off]
proof
  assume "bs = [] \<and> off = 0"
  then show ?thesis using new unat_64 [of size'] by (simp add: block_fits_def)
next
  assume "gap_at size' bs off"
  then obtain d where d: "d \<in> set bs" "off = rb_end d" "size' \<le> next_offset off bs - off" by (auto simp: gap_at_def)
  let ?n = "next_offset off bs"
  have fd: "block_fits d" using ok(1) d(1) by (simp add: list_all_iff)
  have n: "unat off \<le> unat ?n" "unat size' \<le> unat ?n - unat off"
    using next_offset_ge [of off bs] d(3) by (simp_all add: word_le_nat_alt unat_sub_64)
  have fb: "block_fits b" using n new unat_64 [of ?n] by (simp add: block_fits_def)
  have "block_range b \<inter> block_range c = {}" if c: "c \<in> set bs" for c
  proof (cases "off \<le> rb_offset c")
    case True
    then have "unat ?n \<le> unat (rb_offset c)" using next_offset_le [OF c True] by (simp add: word_le_nat_alt)
    then show ?thesis using n new by (auto simp: block_range_def)
  next
    case False
    have fc: "block_fits c" using ok(1) c by (simp add: list_all_iff)
    have lt: "unat (rb_offset c) < unat (rb_offset d) + unat (rb_length d)"
      using False unat_rb_end [OF fd] d(2) by (simp add: word_le_nat_alt)
    have "unat (rb_offset c) + unat (rb_length c) \<le> unat off"
    proof (cases "c = d")
      case True
      then show ?thesis using unat_rb_end [OF fd] d(2) by simp
    next
      case False
      then have "block_range c \<inter> block_range d = {}" using apart_iff [OF ok(2) c d(1)] by simp
      moreover have "unat (rb_offset c) \<in> block_range c"
        using fc by (simp add: block_range_def block_fits_def unat_gt_0)
      moreover have "unat (rb_offset d) \<in> block_range d"
        using fd by (simp add: block_range_def block_fits_def unat_gt_0)
      ultimately have "unat (rb_offset c) \<notin> block_range d" "unat (rb_offset d) \<notin> block_range c" by blast+
      then have "unat (rb_offset c) + unat (rb_length c) \<le> unat (rb_offset d)"
        using lt by (simp add: block_range_def)
      then show ?thesis using unat_rb_end [OF fd] d(2) by simp
    qed
    then show ?thesis using new by (auto simp: block_range_def)
  qed
  then show ?thesis using fb by blast
qed

subsection \<open>The operations keep the invariant\<close>

lemma ram_ok_empty [simp]: "ram_ok empty_ram"
  by (simp add: ram_ok_def empty_ram_def)

lemma ram_alloc_ok:
  assumes "ram_ok r" "qemu_ram_alloc_from_ptr size' host r = Some (r', off)" "ram_page_align size' \<noteq> 0"
  shows "ram_ok r'" "rl_blocks r' = insert_block \<lparr>rb_host = host, rb_offset = off, rb_length = ram_page_align size'\<rparr> (rl_blocks r)"
proof -
  let ?b = "\<lparr>rb_host = host, rb_offset = off, rb_length = ram_page_align size'\<rparr>"
  have off: "find_ram_offset (ram_page_align size') (rl_blocks r) = Some off"
    and r': "rl_blocks r' = insert_block ?b (rl_blocks r)" "rl_mru r' = None"
    using assms(2) by (auto simp: qemu_ram_alloc_from_ptr_def Let_def split: bind_splits)
  show "rl_blocks r' = insert_block ?b (rl_blocks r)" by (rule r'(1))
  have "ram_page_align size' AND 0xFFF = 0" by (simp add: ram_page_align_def page_offset_zero unat_page)
  then have "ram_page_align size' \<noteq> - 1" by auto
  then have "block_fits ?b \<and> (\<forall>c \<in> set (rl_blocks r). block_range ?b \<inter> block_range c = {})"
    using assms(1,3) by (intro find_ram_offset_free [OF off]) (simp_all add: ram_ok_def)
  then show "ram_ok r'" using assms(1) r' by (auto simp: ram_ok_def list_all_iff intro: apart_insert)
qed

lemma ram_free_ok: "ram_ok r \<Longrightarrow> ram_ok (qemu_ram_free_from_ptr a r)"
  using remove_subset [of a "rl_blocks r"] by (auto simp: qemu_ram_free_from_ptr_def ram_ok_def list_all_iff apart_remove)

lemma ram_ptr_ok: "ram_ok r \<Longrightarrow> qemu_get_ram_ptr a r = Some (r', p) \<Longrightarrow> ram_ok r' \<and> rl_blocks r' = rl_blocks r"
  by (auto simp: qemu_get_ram_ptr_def ram_ok_def find_Some_iff split: option.splits if_splits)

text \<open>An address of a block is found in it.\<close>

lemma find_in_block:
  assumes "ram_ok r" "b \<in> set (rl_blocks r)" "in_block a b"
  shows "find (in_block a) (rl_blocks r) = Some b"
proof -
  obtain c where c: "find (in_block a) (rl_blocks r) = Some c"
    using assms(2,3) by (cases "find (in_block a) (rl_blocks r)") (auto simp: find_None_iff)
  then have "c \<in> set (rl_blocks r)" "in_block a c" by (auto simp: find_Some_iff)
  with assms have "c = b" using apart_same [of "rl_blocks r" c b a] by (simp add: ram_ok_def)
  with c show ?thesis by simp
qed

lemma ram_ptr_in_block:
  assumes "ram_ok r" "b \<in> set (rl_blocks r)" "in_block a b"
  shows "\<exists>r'. qemu_get_ram_ptr a r = Some (r', rb_host b + (a - rb_offset b))"
proof -
  have "c = b" if "rl_mru r = Some c" "in_block a c" for c
    using assms that apart_same [of "rl_blocks r" c b a] by (simp add: ram_ok_def)
  then show ?thesis using find_in_block [OF assms] by (auto simp: qemu_get_ram_ptr_def split: option.splits)
qed

subsection \<open>Room\<close>

text \<open>All blocks lie below \<open>lim\<close>. A gap before the first block is never used, so that the limit grows with every block.\<close>

definition blocks_below :: "nat \<Rightarrow> ram_block list \<Rightarrow> bool" where
  "blocks_below lim bs \<longleftrightarrow> list_all (\<lambda>b. unat (rb_offset b) + unat (rb_length b) \<le> lim) bs"

lemma next_offset_none: "(\<And>b. b \<in> set bs \<Longrightarrow> rb_offset b < e) \<Longrightarrow> next_offset e bs = RAM_ADDR_MAX"
proof -
  assume n: "\<And>b. b \<in> set bs \<Longrightarrow> rb_offset b < e"
  have "fold (\<lambda>nb next. if rb_offset nb \<ge> e then min next (rb_offset nb) else next) bs acc = acc" for acc
    using n
  proof (induction bs arbitrary: acc)
    case (Cons b bs)
    have "\<not> e \<le> rb_offset b" using Cons.prems [of b] by (simp add: not_le)
    then show ?case using Cons by simp
  qed simp
  then show ?thesis by (simp add: next_offset_def)
qed

lemma gap_found:
  assumes e: "\<And>c. c \<in> set cs \<Longrightarrow> rb_end c \<noteq> RAM_ADDR_MAX"
  shows "fst st \<noteq> RAM_ADDR_MAX \<Longrightarrow> fst (fold (gap_step size' bs) cs st) \<noteq> RAM_ADDR_MAX"
    "b \<in> set cs \<Longrightarrow> st = (RAM_ADDR_MAX, RAM_ADDR_MAX) \<Longrightarrow> size' \<le> next_offset (rb_end b) bs - rb_end b \<Longrightarrow>
      next_offset (rb_end b) bs - rb_end b < RAM_ADDR_MAX \<Longrightarrow> fst (fold (gap_step size' bs) cs st) \<noteq> RAM_ADDR_MAX"
proof -
  have keep: "fst st \<noteq> RAM_ADDR_MAX \<Longrightarrow> (\<And>c. c \<in> set cs \<Longrightarrow> rb_end c \<noteq> RAM_ADDR_MAX) \<Longrightarrow>
      fst (fold (gap_step size' bs) cs st) \<noteq> RAM_ADDR_MAX" for cs st
  proof (induction cs arbitrary: st)
    case (Cons c cs)
    have "fst (gap_step size' bs c st) \<noteq> RAM_ADDR_MAX"
      using Cons.prems by (cases st) (simp add: gap_step_def Let_def)
    then show ?case using Cons by simp
  qed simp
  then show "fst st \<noteq> RAM_ADDR_MAX \<Longrightarrow> fst (fold (gap_step size' bs) cs st) \<noteq> RAM_ADDR_MAX" using e by blast
  assume "b \<in> set cs" "st = (RAM_ADDR_MAX, RAM_ADDR_MAX)" and g: "size' \<le> next_offset (rb_end b) bs - rb_end b"
    "next_offset (rb_end b) bs - rb_end b < RAM_ADDR_MAX"
  then show "fst (fold (gap_step size' bs) cs st) \<noteq> RAM_ADDR_MAX"
    using e
  proof (induction cs arbitrary: st)
    case (Cons c cs)
    let ?st = "gap_step size' bs c st"
    show ?case
    proof (cases "?st = (RAM_ADDR_MAX, RAM_ADDR_MAX)")
      case True
      then have "c \<noteq> b" using g Cons.prems by (auto simp: gap_step_def Let_def)
      then show ?thesis using Cons True by simp
    next
      case False
      then have "fst ?st \<noteq> RAM_ADDR_MAX"
        using Cons.prems(2,5) by (auto simp: gap_step_def Let_def split: if_splits)
      then show ?thesis using keep Cons.prems(5) by simp
    qed
  qed simp
qed

lemma find_ram_offset_total:
  assumes fits: "list_all block_fits bs" and below: "blocks_below lim bs" and room: "lim + unat size' < 2 ^ 63"
  shows "\<exists>off. find_ram_offset size' bs = Some off \<and> unat off \<le> lim"
proof (cases "bs = []")
  case True
  then show ?thesis by (simp add: find_ram_offset_def)
next
  case False
  have e: "unat (rb_end b) = unat (rb_offset b) + unat (rb_length b)" "unat (rb_end b) \<le> lim" "rb_offset b < rb_end b"
    if "b \<in> set bs" for b
  proof -
    have f: "block_fits b" using fits that by (simp add: list_all_iff)
    show eq: "unat (rb_end b) = unat (rb_offset b) + unat (rb_length b)" by (rule unat_rb_end [OF f])
    show "unat (rb_end b) \<le> lim" using eq below that by (simp add: blocks_below_def list_all_iff)
    show "rb_offset b < rb_end b" using eq f by (simp add: word_less_nat_alt block_fits_def unat_gt_0)
  qed
  obtain b where b: "b \<in> set bs" "\<And>c. c \<in> set bs \<Longrightarrow> unat (rb_end c) \<le> unat (rb_end b)"
  proof -
    let ?E = "(\<lambda>b. unat (rb_end b)) ` set bs"
    have "Max ?E \<in> ?E" using False by (intro Max_in) simp_all
    then obtain b where "b \<in> set bs" "unat (rb_end b) = Max ?E" by auto
    then show thesis using that [of b] by simp
  qed
  have "next_offset (rb_end b) bs = RAM_ADDR_MAX"
  proof (rule next_offset_none)
    fix c assume "c \<in> set bs"
    then show "rb_offset c < rb_end b" using e(3) b(2) by (meson order.strict_trans2 word_le_nat_alt)
  qed
  moreover have u: "unat RAM_ADDR_MAX = 2 ^ 64 - 1"
    by (simp add: unsigned_minus_1_eq_mask mask_eq_exp_minus_1)
  moreover have "unat (RAM_ADDR_MAX - rb_end b) = 2 ^ 64 - 1 - unat (rb_end b)"
    using unat_sub_64 [of "rb_end b" RAM_ADDR_MAX] unat_64 [of "rb_end b"] u by simp
  moreover have "0 < unat (rb_end b)" using e(3) [OF b(1)] by (simp add: word_less_nat_alt)
  ultimately have g: "size' \<le> next_offset (rb_end b) bs - rb_end b" "next_offset (rb_end b) bs - rb_end b < RAM_ADDR_MAX"
    using e(2) [OF b(1)] room by (simp_all add: word_le_nat_alt word_less_nat_alt)
  have "rb_end c \<noteq> RAM_ADDR_MAX" if "c \<in> set bs" for c
    using e(2) [OF that] room u by auto
  then have "fst (fold (gap_step size' bs) bs (RAM_ADDR_MAX, RAM_ADDR_MAX)) \<noteq> RAM_ADDR_MAX"
    using gap_found(2) [OF _ b(1) refl g] by blast
  then obtain off where off: "find_ram_offset size' bs = Some off"
    using False by (cases "fold (gap_step size' bs) bs (RAM_ADDR_MAX, RAM_ADDR_MAX)") (auto simp: find_ram_offset_def)
  then have "gap_at size' bs off" using find_ram_offset_gap [OF off] False by blast
  then show ?thesis using off e(2) by (auto simp: gap_at_def)
qed

text \<open>A block of length 0 is its own successor: behind it nothing is found any more.\<close>

lemma empty_block_stops_allocation:
  assumes "rb_length b = 0" "0 < size'"
  shows "find_ram_offset size' [b] = None"
proof -
  have "next_offset (rb_end b) [b] - rb_end b = 0"
    using assms(1) antisym [OF _ word_n1_ge [of "rb_offset b"]] by (auto simp: next_offset_def rb_end_def min_def)
  then have "gap_step size' [b] b (RAM_ADDR_MAX, RAM_ADDR_MAX) = (RAM_ADDR_MAX, RAM_ADDR_MAX)"
    using assms(2) by (auto simp: gap_step_def Let_def)
  then show ?thesis by (simp add: find_ram_offset_def)
qed

end
