(* ===== verification/MemOps.thy ===== *)
theory MemOps
  imports MemRegion RamBlocks
begin

text \<open>
  The operations on memory regions (\<open>memory.c\<close>): initialisation, the changes of the tree, and the transactions at
  whose end \<open>address_space_update_topology\<close> renders the tree again and the listeners rebuild the dispatch tables.
  The first argument of an operation that may end a transaction is the fuel of the rendering.
\<close>

record memory_state =
  ms_regions :: region_store
  ms_transaction_depth :: u32
  ms_update_pending :: bool
  ms_root :: "nat option"
  ms_current_map :: "flat_range list"
  ms_dispatch :: phys_dispatch
  ms_ram :: ram_list
  ms_tlb_flushes :: nat

definition is_ram :: "region_store \<Rightarrow> nat \<Rightarrow> bool" where
  "is_ram rs r = (case rs r of Some mr \<Rightarrow> reg_ram mr | None \<Rightarrow> False)"

subsection \<open>Transactions\<close>

definition memory_region_transaction_begin :: "memory_state \<Rightarrow> memory_state" where
  "memory_region_transaction_begin m = m\<lparr>ms_transaction_depth := ms_transaction_depth m + 1\<rparr>"

definition address_space_update_topology :: "nat \<Rightarrow> memory_state \<Rightarrow> memory_state option" where
  "address_space_update_topology n m = do {
     let old_view = ms_current_map m;
     new_view \<leftarrow> generate_memory_topology n (ms_regions m) (ms_root m);
     let step = listener_step (is_ram (ms_regions m));
     d \<leftarrow> fold_opt step (update_topology_pass old_view new_view False) (ms_dispatch m);
     d \<leftarrow> fold_opt step (update_topology_pass old_view new_view True) d;
     Some (m\<lparr>ms_current_map := new_view, ms_dispatch := d\<rparr>)
   }"

text \<open>
  The listeners are called in the order of their priority: \<open>mem_begin\<close> of the dispatch tables, which still reads the
  old sections, before \<open>core_begin\<close>. \<open>tcg_commit\<close> flushes the TLB of every CPU; the state counts these flushes.
\<close>

definition memory_region_transaction_commit :: "nat \<Rightarrow> memory_state \<Rightarrow> memory_state option" where
  "memory_region_transaction_commit n m =
    (if ms_transaction_depth m = 0 then None
     else
       let m = m\<lparr>ms_transaction_depth := ms_transaction_depth m - 1\<rparr>
       in if ms_transaction_depth m = 0 \<and> ms_update_pending m then do {
            d \<leftarrow> mem_begin (ms_dispatch m);
            m \<leftarrow> address_space_update_topology n (m\<lparr>ms_update_pending := False, ms_dispatch := core_begin d\<rparr>);
            Some (m\<lparr>ms_tlb_flushes := Suc (ms_tlb_flushes m)\<rparr>)
          }
          else Some m)"

definition set_region :: "nat \<Rightarrow> memory_region \<Rightarrow> memory_state \<Rightarrow> memory_state" where
  "set_region r mr m = m\<lparr>ms_regions := (ms_regions m)(r \<mapsto> mr)\<rparr>"

definition request_update :: "bool \<Rightarrow> memory_state \<Rightarrow> memory_state" where
  "request_update b m = m\<lparr>ms_update_pending := (ms_update_pending m \<or> b)\<rparr>"

subsection \<open>Initialisation\<close>

definition memory_region_init :: "u64 \<Rightarrow> memory_region" where
  "memory_region_init size' =
    \<lparr>reg_parent = None, reg_size = (if size' = - 1 then 2 ^ 64 else uint size'), reg_addr = 0, reg_ram_addr = 0,
     reg_terminates = False, reg_readable = True, reg_ram = False, reg_readonly = False, reg_rom_device = False, reg_enabled = True,
     reg_alias = None, reg_alias_offset = 0, reg_priority = 0, reg_may_overlap = False, reg_subregions = [],
     reg_dirty_log_mask = 0, reg_destructor = Destructor_none\<rparr>"

definition memory_region_init_ram_ptr :: "nat \<Rightarrow> u64 \<Rightarrow> u64 \<Rightarrow> memory_state \<Rightarrow> memory_state option" where
  "memory_region_init_ram_ptr r size' host m = do {
     (ram, addr) \<leftarrow> qemu_ram_alloc_from_ptr size' host (ms_ram m);
     Some (set_region r ((memory_region_init size')\<lparr>reg_ram := True, reg_terminates := True,
       reg_destructor := Destructor_ram_from_ptr, reg_ram_addr := addr\<rparr>) (m\<lparr>ms_ram := ram\<rparr>))
   }"

definition memory_region_init_ram :: "nat \<Rightarrow> u64 \<Rightarrow> memory_state \<Rightarrow> memory_state option" where
  "memory_region_init_ram r size' m = do {
     (ram, addr) \<leftarrow> qemu_ram_alloc_from_ptr size' 0 (ms_ram m);
     Some (set_region r ((memory_region_init size')\<lparr>reg_ram := True, reg_terminates := True,
       reg_destructor := Destructor_ram, reg_ram_addr := addr\<rparr>) (m\<lparr>ms_ram := ram\<rparr>))
   }"

definition memory_region_init_rom_device :: "nat \<Rightarrow> u64 \<Rightarrow> memory_state \<Rightarrow> memory_state option" where
  "memory_region_init_rom_device r size' m = do {
     (ram, addr) \<leftarrow> qemu_ram_alloc_from_ptr size' 0 (ms_ram m);
     Some (set_region r ((memory_region_init size')\<lparr>reg_terminates := True, reg_rom_device := True,
       reg_destructor := Destructor_rom_device, reg_ram_addr := addr\<rparr>) (m\<lparr>ms_ram := ram\<rparr>))
   }"

definition memory_region_init_io :: "nat \<Rightarrow> u64 \<Rightarrow> memory_state \<Rightarrow> memory_state" where
  "memory_region_init_io r size' m =
    set_region r ((memory_region_init size')\<lparr>reg_terminates := True, reg_ram_addr := - 1\<rparr>) m"

definition memory_region_init_alias :: "nat \<Rightarrow> nat \<Rightarrow> u64 \<Rightarrow> u64 \<Rightarrow> memory_state \<Rightarrow> memory_state" where
  "memory_region_init_alias r orig offset size' m =
    set_region r ((memory_region_init size')\<lparr>reg_alias := Some orig, reg_alias_offset := offset\<rparr>) m"

definition memory_region_destroy :: "nat \<Rightarrow> memory_state \<Rightarrow> memory_state option" where
  "memory_region_destroy r m = do {
     mr \<leftarrow> ms_regions m r;
     if reg_subregions mr \<noteq> [] \<or> ms_transaction_depth m \<noteq> 0 then None
     else Some (case reg_destructor mr of
         Destructor_none \<Rightarrow> m
       | Destructor_rom_device \<Rightarrow> m\<lparr>ms_ram := qemu_ram_free_from_ptr (reg_ram_addr mr AND NOT PAGE_OFFSET) (ms_ram m)\<rparr>
       | _ \<Rightarrow> m\<lparr>ms_ram := qemu_ram_free_from_ptr (reg_ram_addr mr) (ms_ram m)\<rparr>)
   }"

definition memory_region_size :: "memory_region \<Rightarrow> u64 option" where
  "memory_region_size mr = (if reg_size mr = 2 ^ 64 then Some (- 1) else get64 (reg_size mr))"

definition memory_region_is_romd :: "memory_region \<Rightarrow> bool" where
  "memory_region_is_romd mr \<longleftrightarrow> reg_rom_device mr \<and> reg_readable mr"

definition memory_region_is_rom :: "memory_region \<Rightarrow> bool" where
  "memory_region_is_rom mr \<longleftrightarrow> reg_ram mr \<and> reg_readonly mr"

fun memory_region_get_ram_ptr :: "nat \<Rightarrow> nat \<Rightarrow> memory_state \<Rightarrow> (memory_state \<times> u64) option" where
  "memory_region_get_ram_ptr 0 r m = None"
| "memory_region_get_ram_ptr (Suc n) r m = do {
     mr \<leftarrow> ms_regions m r;
     case reg_alias mr of
       Some a \<Rightarrow> map_option (\<lambda>(m, p). (m, p + reg_alias_offset mr)) (memory_region_get_ram_ptr n a m)
     | None \<Rightarrow>
         if \<not> reg_terminates mr then None
         else map_option (\<lambda>(ram, p). (m\<lparr>ms_ram := ram\<rparr>, p)) (qemu_get_ram_ptr (reg_ram_addr mr AND NOT PAGE_OFFSET) (ms_ram m))
   }"

subsection \<open>Changes of the tree\<close>

text \<open>In front of the first region whose priority is not higher. The test for collisions has no effect.\<close>

fun insert_subregion :: "region_store \<Rightarrow> nat \<Rightarrow> u32 \<Rightarrow> nat list \<Rightarrow> nat list option" where
  "insert_subregion rs s priority [] = Some [s]"
| "insert_subregion rs s priority (other # others) = do {
     om \<leftarrow> rs other;
     if priority \<ge> reg_priority om then Some (s # other # others)
     else map_option ((#) other) (insert_subregion rs s priority others)
   }"

definition memory_region_add_subregion_common :: "nat \<Rightarrow> nat \<Rightarrow> u64 \<Rightarrow> nat \<Rightarrow> memory_state \<Rightarrow> memory_state option" where
  "memory_region_add_subregion_common n r offset s m = do {
     let m = memory_region_transaction_begin m;
     sm \<leftarrow> ms_regions m s;
     if reg_parent sm \<noteq> None then None
     else do {
       let m = set_region s (sm\<lparr>reg_parent := Some r, reg_addr := offset\<rparr>) m;
       mr \<leftarrow> ms_regions m r;
       subs \<leftarrow> insert_subregion (ms_regions m) s (reg_priority sm) (reg_subregions mr);
       let m = set_region r (mr\<lparr>reg_subregions := subs\<rparr>) m;
       memory_region_transaction_commit n (request_update (reg_enabled mr \<and> reg_enabled sm) m)
     }
   }"

definition memory_region_add_subregion :: "nat \<Rightarrow> nat \<Rightarrow> u64 \<Rightarrow> nat \<Rightarrow> memory_state \<Rightarrow> memory_state option" where
  "memory_region_add_subregion n r offset s m = do {
     sm \<leftarrow> ms_regions m s;
     memory_region_add_subregion_common n r offset s (set_region s (sm\<lparr>reg_may_overlap := False, reg_priority := 0\<rparr>) m)
   }"

definition memory_region_add_subregion_overlap ::
    "nat \<Rightarrow> nat \<Rightarrow> u64 \<Rightarrow> nat \<Rightarrow> u32 \<Rightarrow> memory_state \<Rightarrow> memory_state option" where
  "memory_region_add_subregion_overlap n r offset s priority m = do {
     sm \<leftarrow> ms_regions m s;
     memory_region_add_subregion_common n r offset s (set_region s (sm\<lparr>reg_may_overlap := True, reg_priority := priority\<rparr>) m)
   }"

definition memory_region_del_subregion :: "nat \<Rightarrow> nat \<Rightarrow> nat \<Rightarrow> memory_state \<Rightarrow> memory_state option" where
  "memory_region_del_subregion n r s m = do {
     let m = memory_region_transaction_begin m;
     sm \<leftarrow> ms_regions m s;
     if reg_parent sm \<noteq> Some r then None
     else do {
       let m = set_region s (sm\<lparr>reg_parent := None\<rparr>) m;
       mr \<leftarrow> ms_regions m r;
       let m = set_region r (mr\<lparr>reg_subregions := remove1 s (reg_subregions mr)\<rparr>) m;
       memory_region_transaction_commit n (request_update (reg_enabled mr \<and> reg_enabled sm) m)
     }
   }"

text \<open>A change of one region in a transaction of its own.\<close>

definition change_region :: "nat \<Rightarrow> nat \<Rightarrow> (memory_region \<Rightarrow> memory_region) \<Rightarrow> bool \<Rightarrow> memory_state \<Rightarrow> memory_state option" where
  "change_region n r f update m = do {
     let m = memory_region_transaction_begin m;
     mr \<leftarrow> ms_regions m r;
     memory_region_transaction_commit n (request_update update (set_region r (f mr) m))
   }"

definition memory_region_set_enabled :: "nat \<Rightarrow> nat \<Rightarrow> bool \<Rightarrow> memory_state \<Rightarrow> memory_state option" where
  "memory_region_set_enabled n r enabled m = do {
     mr \<leftarrow> ms_regions m r;
     if enabled = reg_enabled mr then Some m else change_region n r (reg_enabled_update (\<lambda>_. enabled)) True m
   }"

definition memory_region_set_readonly :: "nat \<Rightarrow> nat \<Rightarrow> bool \<Rightarrow> memory_state \<Rightarrow> memory_state option" where
  "memory_region_set_readonly n r readonly m = do {
     mr \<leftarrow> ms_regions m r;
     if reg_readonly mr = readonly then Some m else change_region n r (reg_readonly_update (\<lambda>_. readonly)) (reg_enabled mr) m
   }"

definition memory_region_rom_device_set_readable :: "nat \<Rightarrow> nat \<Rightarrow> bool \<Rightarrow> memory_state \<Rightarrow> memory_state option" where
  "memory_region_rom_device_set_readable n r readable m = do {
     mr \<leftarrow> ms_regions m r;
     if reg_readable mr = readable then Some m else change_region n r (reg_readable_update (\<lambda>_. readable)) (reg_enabled mr) m
   }"

definition memory_region_set_log :: "nat \<Rightarrow> nat \<Rightarrow> bool \<Rightarrow> nat \<Rightarrow> memory_state \<Rightarrow> memory_state option" where
  "memory_region_set_log n r log' client m = do {
     mr \<leftarrow> ms_regions m r;
     let mask' = (push_bit client 1 :: 8 word);
     change_region n r (reg_dirty_log_mask_update (\<lambda>d. (d AND NOT mask') OR (if log' then mask' else 0))) (reg_enabled mr) m
   }"

definition memory_region_set_alias_offset :: "nat \<Rightarrow> nat \<Rightarrow> u64 \<Rightarrow> memory_state \<Rightarrow> memory_state option" where
  "memory_region_set_alias_offset n r offset m = do {
     mr \<leftarrow> ms_regions m r;
     if reg_alias mr = None then None
     else if offset = reg_alias_offset mr then Some m
     else change_region n r (reg_alias_offset_update (\<lambda>_. offset)) (reg_enabled mr) m
   }"

definition memory_region_set_address :: "nat \<Rightarrow> nat \<Rightarrow> u64 \<Rightarrow> memory_state \<Rightarrow> memory_state option" where
  "memory_region_set_address n r addr m = do {
     mr \<leftarrow> ms_regions m r;
     case reg_parent mr of
       None \<Rightarrow> Some (set_region r (mr\<lparr>reg_addr := addr\<rparr>) m)
     | Some p \<Rightarrow>
         if addr = reg_addr mr then Some m
         else do {
           m \<leftarrow> memory_region_del_subregion n p r (memory_region_transaction_begin m);
           m \<leftarrow> (if reg_may_overlap mr then memory_region_add_subregion_overlap n p addr r (reg_priority mr) m
                 else memory_region_add_subregion n p addr r m);
           memory_region_transaction_commit n m
         }
   }"

subsection \<open>The address space\<close>

text \<open>\<open>memory_map_init\<close>: the region of the system is number 0; nothing is rendered before the first change of the tree.\<close>

definition memory_map_init :: memory_state where
  "memory_map_init =
    \<lparr>ms_regions = [0 \<mapsto> memory_region_init 0x7FFFFFFFFFFFFFFF], ms_transaction_depth = 0, ms_update_pending = False,
     ms_root = Some 0, ms_current_map = [], ms_dispatch = init_dispatch, ms_ram = empty_ram, ms_tlb_flushes = 0\<rparr>"

end
