(* ===== verification/MemView.thy ===== *)
theory MemView
  imports MemRegion
begin

text \<open>
  What the flat view of \<open>memory.c\<close> is: the function from addresses to regions that the tree of regions describes
  (\<open>resolve\<close>: of the regions that contain an address, the first child in the list comes before the later ones and
  before its parent), as a sorted list of non-empty ranges that do not overlap.
\<close>

subsection \<open>Sorted views\<close>

text \<open>What a range says of its addresses: region, distance to the offset in the region, flags.\<close>

type_synonym mapping = "nat \<times> u64 \<times> 8 word \<times> bool \<times> bool"

definition fr_dest :: "flat_range \<Rightarrow> mapping" where
  "fr_dest f = (fr_mr f, fr_offset_in_region f - word_of_int (ar_start (fr_addr f)), fr_dirty_log_mask f, fr_readable f, fr_readonly f)"

abbreviation (input) fr_start :: "flat_range \<Rightarrow> int" where "fr_start f \<equiv> ar_start (fr_addr f)"
abbreviation (input) fr_end :: "flat_range \<Rightarrow> int" where "fr_end f \<equiv> addrrange_end (fr_addr f)"
abbreviation (input) fr_has :: "flat_range \<Rightarrow> int \<Rightarrow> bool" where "fr_has f x \<equiv> addrrange_contains (fr_addr f) x"

fun view_at :: "flat_range list \<Rightarrow> int \<Rightarrow> mapping option" where
  "view_at [] x = None"
| "view_at (f # fs) x = (if fr_has f x then Some (fr_dest f) else view_at fs x)"

text \<open>The ranges from \<open>lo\<close> on are sorted and not empty.\<close>

fun sorted_view :: "int \<Rightarrow> flat_range list \<Rightarrow> bool" where
  "sorted_view lo [] \<longleftrightarrow> True"
| "sorted_view lo (f # fs) \<longleftrightarrow> lo \<le> fr_start f \<and> fr_start f < fr_end f \<and> sorted_view (fr_end f) fs"

lemma sorted_view_mono: "sorted_view lo v \<Longrightarrow> lo' \<le> lo \<Longrightarrow> sorted_view lo' v"
  by (cases v) auto

lemma view_below: "sorted_view lo v \<Longrightarrow> x < lo \<Longrightarrow> view_at v x = None"
  by (induction lo v rule: sorted_view.induct) (auto simp: addrrange_contains_def)

lemma view_at_None: "(\<And>f. f \<in> set v \<Longrightarrow> \<not> fr_has f x) \<Longrightarrow> view_at v x = None"
  by (induction v) auto

subsection \<open>Filling the gaps\<close>

text \<open>The pieces of a region all say the same of their addresses.\<close>

definition steady :: "(int \<Rightarrow> u64 \<Rightarrow> int \<Rightarrow> flat_range) \<Rightarrow> mapping \<Rightarrow> u64 \<Rightarrow> bool" where
  "steady piece m delta \<longleftrightarrow> (\<forall>base now. let f = piece base (word_of_int base + delta) now
     in fr_addr f = addrrange_make base now \<and> fr_dest f = m)"

lemma flat_piece_steady: "steady (flat_piece r mr ro) (r, delta, reg_dirty_log_mask mr, reg_readable mr, ro) delta"
  by (simp add: steady_def flat_piece_def fr_dest_def)

lemma get64_Some: "get64 v = Some w \<longleftrightarrow> 0 \<le> v \<and> v < 2 ^ 64 \<and> w = word_of_int v"
  by (auto simp: get64_def)

definition painted_over :: "flat_range list \<Rightarrow> (int \<Rightarrow> mapping option) \<Rightarrow> flat_range list \<Rightarrow> bool" where
  "painted_over v g v' \<longleftrightarrow> (\<forall>x. view_at v' x = (case view_at v x of Some n \<Rightarrow> Some n | None \<Rightarrow> g x))"

abbreviation (input) between :: "int \<Rightarrow> int \<Rightarrow> mapping \<Rightarrow> int \<Rightarrow> mapping option" where
  "between a b m x \<equiv> if a \<le> x \<and> x < b then Some m else None"

lemma render_gaps_view:
  assumes st: "steady piece m delta"
  shows "render_gaps piece base off remain v = Some v' \<Longrightarrow> off = word_of_int base + delta \<Longrightarrow> 0 \<le> remain \<Longrightarrow>
    sorted_view lo v \<Longrightarrow> lo \<le> base \<or> remain = 0 \<Longrightarrow>
    sorted_view lo v' \<and> painted_over v (between base (base + remain) m) v'"
proof (induction v arbitrary: base off remain lo v')
  case Nil
  have "fr_addr (piece base off remain) = addrrange_make base remain" "fr_dest (piece base off remain) = m"
    using st Nil by (simp_all add: steady_def Let_def)
  then show ?case using Nil by (auto simp: addrrange_contains_def addrrange_end_def painted_over_def)
next
  case (Cons f fs)
  note prem = Cons.prems
  have f: "lo \<le> fr_start f" "fr_start f < fr_end f" "sorted_view (fr_end f) fs" using prem(4) by simp_all
  consider (empty) "remain = 0" | (later) "remain \<noteq> 0" "fr_end f \<le> base" | (here) "0 < remain" "base < fr_end f"
    using prem(3) by linarith
  then show ?case
  proof cases
    case empty
    then have "v' = f # fs" using prem(1) by simp
    then show ?thesis using prem(4) empty by (auto simp: painted_over_def split: option.splits)
  next
    case later
    then obtain w where w: "render_gaps piece base off remain fs = Some w" "v' = f # w" using prem(1) by auto
    have "sorted_view (fr_end f) w \<and> painted_over fs (between base (base + remain) m) w"
      by (rule Cons.IH [OF w(1) prem(2,3) f(3)]) (use later in simp)
    then show ?thesis using w(2) f by (simp add: painted_over_def)
  next
    case here
    define now1 where "now1 = (if base < fr_start f then min remain (fr_start f - base) else 0)"
    define now2 where "now2 = min (base + remain) (fr_end f) - (base + now1)"
    obtain s1 s2 w where s: "get64 now1 = Some s1" "get64 now2 = Some s2"
      and w: "render_gaps piece (base + now1 + now2) (off + s1 + s2) (remain - now1 - now2) fs = Some w"
      and v': "v' = (if base < fr_start f then [piece base off now1] else []) @ f # w"
      using prem(1) here by (auto simp: Let_def now1_def now2_def split: bind_splits if_splits)
    have "off + s1 + s2 = word_of_int (base + now1 + now2) + delta"
      using s prem(2) by (simp add: get64_Some algebra_simps)
    moreover have "0 \<le> remain - now1 - now2" "fr_end f \<le> base + now1 + now2 \<or> remain - now1 - now2 = 0"
      using here by (auto simp: now1_def now2_def)
    ultimately have IH: "sorted_view (fr_end f) w"
      "painted_over fs (between (base + now1 + now2) (base + now1 + now2 + (remain - now1 - now2)) m) w"
      using Cons.IH [OF w _ _ f(3)] by blast+
    have piece: "fr_addr (piece base off now1) = addrrange_make base now1" "fr_dest (piece base off now1) = m"
      using st prem(2) by (simp_all add: steady_def Let_def)
    have "sorted_view lo v'"
    proof (cases "base < fr_start f")
      case True
      then have "0 < now1" "base + now1 \<le> fr_start f" using here by (auto simp: now1_def)
      then show ?thesis using True f IH(1) here prem(5) by (simp add: v' piece addrrange_end_def)
    qed (use f IH(1) v' in simp)
    moreover have "view_at v' x = (case view_at (f # fs) x of Some n \<Rightarrow> Some n | None \<Rightarrow> between base (base + remain) m x)" for x
    proof -
      have w: "view_at w x = (case view_at fs x of Some n \<Rightarrow> Some n | None \<Rightarrow> between (base + now1 + now2) (base + remain) m x)"
        using IH(2) by (simp add: painted_over_def)
      have below: "view_at fs x = None" if "x < fr_end f" using view_below [OF f(3) that] .
      have n1: "0 \<le> now1" "now1 = 0 \<longleftrightarrow> fr_start f \<le> base" "now1 \<noteq> 0 \<Longrightarrow> base + now1 \<le> fr_start f"
        "now1 \<le> remain" "now1 = remain \<or> now1 = 0 \<or> base + now1 = fr_start f" using here by (auto simp: now1_def)
      have n2: "base + now1 + now2 = min (base + remain) (fr_end f)" by (simp add: now2_def)
      have v: "view_at v' x = (if base \<le> x \<and> x < base + now1 then Some m else if fr_has f x then Some (fr_dest f) else view_at w x)"
        using n1(2) by (cases "base < fr_start f") (auto simp: v' piece addrrange_contains_def addrrange_end_def)
      show ?thesis
      proof (cases "x < fr_end f")
        case True
        then have "view_at w x = None" using w below n2 by (auto simp: min_def)
        then show ?thesis using True n1 here below by (auto simp: v addrrange_contains_def)
      next
        case False
        then have "\<not> fr_has f x" "\<not> x < base + now1" using n1 here f(2) by (auto simp: addrrange_contains_def)
        then show ?thesis using False here n2 w by (auto simp: v split: option.splits)
      qed
    qed
    ultimately show ?thesis by (simp add: painted_over_def)
  qed
qed

subsection \<open>Rendering is resolution\<close>

fun first_some :: "('a \<Rightarrow> 'b option) \<Rightarrow> 'a list \<Rightarrow> 'b option" where
  "first_some f [] = None"
| "first_some f (x # xs) = (case f x of Some y \<Rightarrow> Some y | None \<Rightarrow> first_some f xs)"

text \<open>What the tree of regions says of address \<open>x\<close>, \<open>n\<close> levels deep.\<close>

fun resolve :: "nat \<Rightarrow> region_store \<Rightarrow> nat \<Rightarrow> int \<Rightarrow> bool \<Rightarrow> int \<Rightarrow> mapping option" where
  "resolve 0 rs r base readonly x = None"
| "resolve (Suc n) rs r base readonly x = (case rs r of None \<Rightarrow> None | Some mr \<Rightarrow>
     let base = base + uint (reg_addr mr); readonly = (readonly \<or> reg_readonly mr)
     in if \<not> reg_enabled mr \<or> x < base \<or> base + reg_size mr \<le> x then None
        else case reg_alias mr of
          Some a \<Rightarrow> (case rs a of None \<Rightarrow> None
            | Some am \<Rightarrow> resolve n rs a (base - uint (reg_addr am) - uint (reg_alias_offset mr)) readonly x)
        | None \<Rightarrow> (case first_some (\<lambda>s. resolve n rs s base readonly x) (reg_subregions mr) of
              Some m \<Rightarrow> Some m
            | None \<Rightarrow> if reg_terminates mr
                then Some (r, word_of_int (- base), reg_dirty_log_mask mr, reg_readable mr, readonly) else None))"

lemma painted_refl: "painted_over v (\<lambda>_. None) v"
  by (simp add: painted_over_def split: option.splits)

lemma painted_trans: "painted_over v g v1 \<Longrightarrow> painted_over v1 h v2 \<Longrightarrow>
    painted_over v (\<lambda>x. case g x of Some n \<Rightarrow> Some n | None \<Rightarrow> h x) v2"
  by (simp add: painted_over_def split: option.splits)

lemma fold_opt_view:
  assumes F: "\<And>s v v'. F s v = Some v' \<Longrightarrow> sorted_view lo v \<Longrightarrow> sorted_view lo v' \<and> painted_over v (g s) v'"
  shows "fold_opt F ss v = Some v' \<Longrightarrow> sorted_view lo v \<Longrightarrow>
    sorted_view lo v' \<and> painted_over v (\<lambda>x. first_some (\<lambda>s. g s x) ss) v'"
proof (induction ss arbitrary: v)
  case Nil
  then show ?case by (simp add: painted_refl)
next
  case (Cons s ss)
  then obtain v1 where v1: "F s v = Some v1" "fold_opt F ss v1 = Some v'" by (auto split: bind_splits)
  note F = F [OF v1(1) Cons.prems(2)]
  from Cons.IH [OF v1(2)] F have "sorted_view lo v'" "painted_over v1 (\<lambda>x. first_some (\<lambda>s. g s x) ss) v'" by simp_all
  moreover have "painted_over v (g s) v1" using F by blast
  ultimately show ?case using painted_trans by fastforce
qed

lemma first_some_if: "first_some (\<lambda>s. if c then f s else None) ss = (if c then first_some f ss else None)"
  by (induction ss) (cases c; simp)+

lemma intersect_has:
  "addrrange_contains (addrrange_intersection r1 r2) x \<longleftrightarrow> addrrange_contains r1 x \<and> addrrange_contains r2 x"
  by (auto simp: addrrange_contains_def addrrange_intersection_def addrrange_end_def Let_def)

lemma intersects_iff: "addrrange_contains r1 x \<Longrightarrow> addrrange_contains r2 x \<Longrightarrow> addrrange_intersects r1 r2"
  by (auto simp: addrrange_contains_def addrrange_intersects_def)

lemma intersects_size: "addrrange_intersects r1 r2 \<Longrightarrow> 0 \<le> ar_size r1 \<Longrightarrow> 0 \<le> ar_size r2 \<Longrightarrow> 0 \<le> ar_size (addrrange_intersection r1 r2)"
  by (auto simp: addrrange_contains_def addrrange_intersects_def addrrange_intersection_def addrrange_end_def Let_def)

abbreviation (input) in_clip :: "addr_range \<Rightarrow> (int \<Rightarrow> mapping option) \<Rightarrow> int \<Rightarrow> mapping option" where
  "in_clip clip g x \<equiv> if addrrange_contains clip x then g x else None"

definition sizes_ok :: "region_store \<Rightarrow> bool" where
  "sizes_ok rs \<longleftrightarrow> (\<forall>r mr. rs r = Some mr \<longrightarrow> 0 \<le> reg_size mr \<and> reg_size mr \<le> 2 ^ 64)"

lemma render_view:
  assumes sz: "sizes_ok rs"
  shows "render_memory_region n rs r base clip ro v = Some v' \<Longrightarrow> sorted_view lo v \<Longrightarrow> lo \<le> ar_start clip \<Longrightarrow>
    0 \<le> ar_size clip \<Longrightarrow> sorted_view lo v' \<and> painted_over v (in_clip clip (resolve n rs r base ro)) v'"
proof (induction n arbitrary: r base clip ro v v')
  case 0
  then show ?case by simp
next
  case (Suc n)
  note prem = Suc.prems
  obtain mr where mr: "rs r = Some mr" using prem(1) by (auto split: bind_splits)
  define b where "b = base + uint (reg_addr mr)"
  define o' where "o' = (ro \<or> reg_readonly mr)"
  define tmp where "tmp = addrrange_make b (reg_size mr)"
  define c where "c = addrrange_intersection tmp clip"
  have tmp: "addrrange_contains tmp x \<longleftrightarrow> b \<le> x \<and> x < b + reg_size mr" for x
    by (simp add: tmp_def addrrange_contains_def addrrange_end_def)
  show ?case
  proof (cases "\<not> reg_enabled mr \<or> \<not> addrrange_intersects tmp clip")
    case True
    then have "v' = v" using prem(1) mr by (simp add: Let_def b_def tmp_def split: if_splits)
    moreover have "in_clip clip (resolve (Suc n) rs r base ro) x = None" for x
      using True intersects_iff [of tmp x clip] tmp [of x] by (auto simp: mr Let_def b_def [symmetric])
    ultimately show ?thesis using prem(2) painted_refl by (simp add: fun_eq_iff)
  next
    case go: False
    have cs: "0 \<le> ar_size c" "lo \<le> ar_start c" "b \<le> ar_start c"
      using go prem(3,4) sz mr intersects_size [of tmp clip]
      by (auto simp: c_def tmp_def sizes_ok_def addrrange_intersection_def Let_def)
    have c: "addrrange_contains c x \<longleftrightarrow> b \<le> x \<and> x < b + reg_size mr \<and> addrrange_contains clip x" for x
      using intersect_has [of tmp clip x] tmp by (simp add: c_def)
    show ?thesis
    proof (cases "reg_alias mr")
      case (Some a)
      then obtain am where am: "rs a = Some am" "render_memory_region n rs a (b - uint (reg_addr am) - uint (reg_alias_offset mr)) c o' v = Some v'"
        using prem(1) go by (auto simp: mr Let_def b_def o'_def tmp_def c_def split: bind_splits)
      have "sorted_view lo v' \<and> painted_over v (in_clip c (resolve n rs a (b - uint (reg_addr am) - uint (reg_alias_offset mr)) o')) v'"
        by (rule Suc.IH [OF am(2) prem(2) cs(2,1)])
      moreover have "in_clip c (resolve n rs a (b - uint (reg_addr am) - uint (reg_alias_offset mr)) o') =
          in_clip clip (resolve (Suc n) rs r base ro)"
        using go c by (auto simp: fun_eq_iff mr Some am(1) Let_def b_def [symmetric] o'_def [symmetric])
      ultimately show ?thesis by simp
    next
      case None
      let ?own = "\<lambda>v1. if \<not> reg_terminates mr then Some v1
           else Option.bind (get64 (ar_start c - b)) (\<lambda>off. render_gaps (flat_piece r mr o') (ar_start c) off (ar_size c) v1)"
      have "render_memory_region (Suc n) rs r base clip ro v = Option.bind (fold_opt (\<lambda>s. render_memory_region n rs s b c o') (reg_subregions mr) v) ?own"
        using go None by (simp add: mr Let_def b_def o'_def tmp_def c_def cong: if_cong)
      then have "Option.bind (fold_opt (\<lambda>s. render_memory_region n rs s b c o') (reg_subregions mr) v) ?own = Some v'"
        using prem(1) by (simp only:)
      then obtain v1 where v1: "fold_opt (\<lambda>s. render_memory_region n rs s b c o') (reg_subregions mr) v = Some v1"
        and v': "?own v1 = Some v'" unfolding bind_eq_Some_conv by blast
      let ?g = "\<lambda>s x. in_clip c (resolve n rs s b o') x"
      have subs: "sorted_view lo v1" "painted_over v (\<lambda>x. first_some (\<lambda>s. ?g s x) (reg_subregions mr)) v1"
        using fold_opt_view [of "\<lambda>s. render_memory_region n rs s b c o'" lo ?g, OF _ v1 prem(2)] Suc.IH cs by blast+
      let ?m = "(r, word_of_int (- b), reg_dirty_log_mask mr, reg_readable mr, o')"
      let ?h = "\<lambda>x. if reg_terminates mr \<and> addrrange_contains c x then Some ?m else None"
      have own: "sorted_view lo v' \<and> painted_over v1 ?h v'"
      proof (cases "reg_terminates mr")
        case False
        then show ?thesis using v' subs(1) painted_refl by simp
      next
        case True
        then obtain off where off: "get64 (ar_start c - b) = Some off"
          and g: "render_gaps (flat_piece r mr o') (ar_start c) off (ar_size c) v1 = Some v'"
          using v' by (auto split: bind_splits)
        have "off = word_of_int (ar_start c) + word_of_int (- b)" using off by (simp add: get64_Some)
        then have "sorted_view lo v' \<and> painted_over v1 (between (ar_start c) (ar_start c + ar_size c) ?m) v'"
          by (rule render_gaps_view [OF flat_piece_steady g _ cs(1) subs(1)]) (use cs(2) in simp)
        then show ?thesis using True by (simp add: addrrange_contains_def addrrange_end_def)
      qed
      have "(case first_some (\<lambda>s. ?g s x) (reg_subregions mr) of Some n \<Rightarrow> Some n | None \<Rightarrow> ?h x) =
          in_clip clip (resolve (Suc n) rs r base ro) x" for x
        using go c [of x] by (auto simp: mr None Let_def b_def [symmetric] o'_def [symmetric] first_some_if)
      with painted_trans [OF subs(2) conjunct2 [OF own]] own show ?thesis by simp
    qed
  qed
qed

end
