(* ===== verification/MemFlat.thy ===== *)
theory MemFlat
  imports MemView
begin

text \<open>
  Merging the adjacent ranges of a view (\<open>flatview_simplify\<close>) changes none of its addresses; rendering ends without
  a failed assertion for a tree of regions in which no alias comes back (\<open>ranked\<close>); so \<open>generate_memory_topology\<close>
  gives the sorted view of what the tree resolves to.
\<close>

subsection \<open>Merging\<close>

text \<open>Adjacent ranges of the list are not to be merged.\<close>

fun merged :: "flat_range list \<Rightarrow> bool" where
  "merged (f # g # fs) \<longleftrightarrow> \<not> can_merge f g \<and> merged (g # fs)"
| "merged _ \<longleftrightarrow> True"

lemma can_merge_dest: "can_merge p g \<Longrightarrow> fr_dest g = fr_dest p \<and> fr_start g = fr_end p"
proof -
  assume m: "can_merge p g"
  have "fr_offset_in_region g = fr_offset_in_region p + word_of_int (ar_size (fr_addr p))"
    using m unfolding can_merge_def by (metis of_int_add word_of_int_uint)
  then show ?thesis using m by (simp add: can_merge_def fr_dest_def addrrange_end_def [of "fr_addr p"] eq_commute [of _ "fr_start g"])
qed

definition grow :: "flat_range \<Rightarrow> flat_range \<Rightarrow> flat_range" where
  "grow acc g = acc\<lparr>fr_addr := (fr_addr acc)\<lparr>ar_size := ar_size (fr_addr acc) + ar_size (fr_addr g)\<rparr>\<rparr>"

lemma grow_simps [simp]:
  "fr_dest (grow acc g) = fr_dest acc" "fr_start (grow acc g) = fr_start acc" "fr_end acc = fr_start g \<Longrightarrow> fr_end (grow acc g) = fr_end g"
  by (simp_all add: grow_def fr_dest_def addrrange_end_def)

text \<open>The grown range \<open>acc\<close> ends where the last merged range \<open>prev\<close> ends.\<close>

definition grown :: "flat_range \<Rightarrow> flat_range \<Rightarrow> bool" where
  "grown acc prev \<longleftrightarrow> fr_dest acc = fr_dest prev \<and> fr_end acc = fr_end prev \<and>
     uint (fr_offset_in_region acc) + ar_size (fr_addr acc) = uint (fr_offset_in_region prev) + ar_size (fr_addr prev)"

lemma grown_step: "grown acc prev \<Longrightarrow> can_merge prev g \<Longrightarrow> grown (grow acc g) g"
proof -
  assume a: "grown acc prev" and m: "can_merge prev g"
  have "fr_end acc = fr_start g" "fr_dest g = fr_dest acc" using a m can_merge_dest [OF m] by (simp_all add: grown_def)
  then show ?thesis using a m by (simp add: grown_def) (simp add: grow_def can_merge_def)
qed

lemma grown_merge: "grown acc prev \<Longrightarrow> can_merge acc g = can_merge prev g"
  by (auto simp: grown_def can_merge_def fr_dest_def)

lemma merge_run_spec:
  "merge_run acc prev gs = (acc', rest) \<Longrightarrow> grown acc prev \<Longrightarrow> sorted_view lo (acc # gs) \<Longrightarrow>
    sorted_view lo (acc' # rest) \<and> view_at (acc' # rest) x = view_at (acc # gs) x \<and> (rest \<noteq> [] \<longrightarrow> \<not> can_merge acc' (hd rest))"
proof (induction acc prev gs rule: merge_run.induct)
  case (1 acc prev)
  then show ?case by simp
next
  case (2 acc prev g gs)
  show ?case
  proof (cases "can_merge prev g")
    case False
    then show ?thesis using 2 grown_merge [of acc prev g] by auto
  next
    case True
    have run: "merge_run (grow acc g) g gs = (acc', rest)" using "2.prems"(1) True by (simp add: grow_def)
    have e: "fr_end acc = fr_start g" "fr_dest g = fr_dest acc"
      using "2.prems"(2) can_merge_dest [OF True] by (simp_all add: grown_def)
    have s: "lo \<le> fr_start acc" "fr_start acc < fr_end acc" "fr_start g < fr_end g" "sorted_view (fr_end g) gs"
      using "2.prems"(3) by simp_all
    have "sorted_view lo (grow acc g # gs)" using s e by simp
    note IH = "2.IH" [OF True, folded grow_def, OF run grown_step [OF "2.prems"(2) True] this]
    have "fr_has (grow acc g) x \<longleftrightarrow> fr_has acc x \<or> fr_has g x"
      using s e by (auto simp: addrrange_contains_def)
    then have "view_at (grow acc g # gs) x = view_at (acc # g # gs) x" using e by auto
    with IH show ?thesis by simp
  qed
qed

lemma merge_run_start: "merge_run acc prev gs = (acc', rest) \<Longrightarrow>
    fr_start acc' = fr_start acc \<and> fr_dest acc' = fr_dest acc \<and> fr_offset_in_region acc' = fr_offset_in_region acc"
  by (induction acc prev gs rule: merge_run.induct) (auto simp: fr_dest_def split: if_splits)

lemma sorted_tail: "sorted_view lo (f # fs) \<Longrightarrow> sorted_view (fr_end f) fs" by simp

lemma flatview_simplify_spec:
  "sorted_view lo v \<Longrightarrow> sorted_view lo (flatview_simplify v) \<and> view_at (flatview_simplify v) x = view_at v x \<and> merged (flatview_simplify v)"
proof (induction v arbitrary: lo rule: flatview_simplify.induct)
  case 1
  then show ?case by simp
next
  case (2 f fs)
  obtain g rest where run: "merge_run f f fs = (g, rest)" by (cases "merge_run f f fs") auto
  have r: "sorted_view lo (g # rest)" "view_at (g # rest) x = view_at (f # fs) x" "rest \<noteq> [] \<Longrightarrow> \<not> can_merge g (hd rest)"
    using merge_run_spec [OF run _ "2.prems"] by (auto simp: grown_def)
  note IH = "2.IH" [OF run [symmetric] refl sorted_tail [OF r(1)]]
  have eq: "flatview_simplify (f # fs) = g # flatview_simplify rest" by (simp add: run)
  have hd: "\<not> can_merge g h" if "flatview_simplify rest = h # hs" for h hs
  proof (cases rest)
    case (Cons c cs)
    obtain c' rest' where run': "merge_run c c cs = (c', rest')" by (cases "merge_run c c cs") auto
    then have "h = c'" using that Cons by simp
    moreover have "fr_start c' = fr_start c \<and> fr_dest c' = fr_dest c \<and> fr_offset_in_region c' = fr_offset_in_region c"
      by (rule merge_run_start [OF run'])
    ultimately show ?thesis using r(3) Cons by (auto simp: can_merge_def fr_dest_def)
  qed (use that in simp)
  have "view_at (g # flatview_simplify rest) x = view_at (g # rest) x" using IH by simp
  moreover have "merged (g # flatview_simplify rest)" using IH hd by (cases "flatview_simplify rest") simp_all
  ultimately show ?case using r(1,2) IH unfolding eq by simp
qed

subsection \<open>Rendering ends\<close>

text \<open>
  Children and alias targets exist and have a smaller rank, and no region is larger than the address space.
\<close>

definition ranked :: "region_store \<Rightarrow> (nat \<Rightarrow> nat) \<Rightarrow> bool" where
  "ranked rs rank \<longleftrightarrow> sizes_ok rs \<and> (\<forall>r mr. rs r = Some mr \<longrightarrow>
     (\<forall>s \<in> set (reg_subregions mr). rs s \<noteq> None \<and> rank s < rank r) \<and>
     (\<forall>a. reg_alias mr = Some a \<longrightarrow> rs a \<noteq> None \<and> rank a < rank r))"

lemma rankedD:
  assumes "ranked rs rank" "rs r = Some mr"
  shows "reg_alias mr = Some a \<Longrightarrow> \<exists>am. rs a = Some am \<and> rank a < rank r"
    "s \<in> set (reg_subregions mr) \<Longrightarrow> \<exists>sm. rs s = Some sm \<and> rank s < rank r"
  using assms unfolding ranked_def by blast+

lemma render_gaps_total:
  "sorted_view lo v \<Longrightarrow> 0 \<le> remain \<Longrightarrow> remain < 2 ^ 64 \<Longrightarrow> render_gaps piece base off remain v \<noteq> None"
proof (induction v arbitrary: base off remain lo)
  case Nil
  then show ?case by simp
next
  case (Cons f fs)
  have f: "fr_start f < fr_end f" "sorted_view (fr_end f) fs" using Cons.prems(1) by simp_all
  show ?case
  proof (cases "remain = 0 \<or> fr_end f \<le> base")
    case True
    then show ?thesis using Cons.IH [OF f(2) Cons.prems(2,3)] by auto
  next
    case False
    define now1 where "now1 = (if base < fr_start f then min remain (fr_start f - base) else 0)"
    define now2 where "now2 = min (base + remain) (fr_end f) - (base + now1)"
    have n: "0 \<le> now1" "now1 \<le> remain" "0 \<le> now2" "now2 \<le> remain - now1"
      using False f(1) Cons.prems(2) by (auto simp: now1_def now2_def)
    obtain s1 s2 where s: "get64 now1 = Some s1" "get64 now2 = Some s2"
      using n Cons.prems(3) by (auto simp: get64_def)
    obtain w where "render_gaps piece (base + now1 + now2) (off + s1 + s2) (remain - now1 - now2) fs = Some w"
      using Cons.IH [OF f(2), of "remain - now1 - now2"] n Cons.prems(3) by fastforce
    moreover have "base + now1 + (remain - now1) = base + remain" by simp
    ultimately show ?thesis using False s
      unfolding render_gaps.simps(2) now1_def [symmetric] Let_def
      by (simp add: now2_def)
  qed
qed

lemma fold_opt_total:
  assumes F: "\<And>s v. s \<in> set ss \<Longrightarrow> sorted_view lo v \<Longrightarrow> \<exists>v'. F s v = Some v' \<and> sorted_view lo v'"
  shows "sorted_view lo v \<Longrightarrow> \<exists>v'. fold_opt F ss v = Some v'"
  using F
proof (induction ss arbitrary: v)
  case (Cons s ss)
  obtain v1 where "F s v = Some v1" "sorted_view lo v1" using Cons.prems by (meson list.set_intros(1))
  moreover have "\<exists>v'. fold_opt F ss v1 = Some v'" by (rule Cons.IH) (use Cons.prems calculation in auto)
  ultimately show ?case by auto
qed simp

lemma fold_opt_keeps:
  assumes F: "\<And>s v v'. F s v = Some v' \<Longrightarrow> P v \<Longrightarrow> P v'"
  shows "fold_opt F ss v = Some v' \<Longrightarrow> P v \<Longrightarrow> P v'"
  by (induction ss arbitrary: v) (auto dest: F split: bind_splits)

lemma render_total:
  assumes rk: "ranked rs rank"
  shows "rs r = Some mr \<Longrightarrow> rank r < n \<Longrightarrow> sorted_view lo v \<Longrightarrow> lo \<le> ar_start clip \<Longrightarrow> 0 \<le> ar_size clip \<Longrightarrow>
    ar_size clip < 2 ^ 64 \<or> reg_size mr < 2 ^ 64 \<Longrightarrow> \<exists>v'. render_memory_region n rs r base clip ro v = Some v'"
proof (induction n arbitrary: r mr base clip ro v)
  case 0
  then show ?case by simp
next
  case (Suc n)
  note prem = Suc.prems and mr = Suc.prems(1)
  have sz: "sizes_ok rs" using rk by (simp add: ranked_def)
  then have mrs: "0 \<le> reg_size mr" "reg_size mr \<le> 2 ^ 64" using mr by (auto simp: sizes_ok_def)
  define b where "b = base + uint (reg_addr mr)"
  define o' where "o' = (ro \<or> reg_readonly mr)"
  define tmp where "tmp = addrrange_make b (reg_size mr)"
  define c where "c = addrrange_intersection tmp clip"
  show ?case
  proof (cases "\<not> reg_enabled mr \<or> \<not> addrrange_intersects tmp clip")
    case True
    then show ?thesis by (simp add: mr Let_def b_def tmp_def)
  next
    case go: False
    have cs: "0 \<le> ar_size c" "lo \<le> ar_start c" "b \<le> ar_start c" "ar_size c < 2 ^ 64" "ar_start c - b < 2 ^ 64"
    proof -
      show "0 \<le> ar_size c" using go mrs prem(5) intersects_size [of tmp clip] by (simp add: c_def tmp_def)
      show "lo \<le> ar_start c" "b \<le> ar_start c" using prem(4) by (simp_all add: c_def addrrange_intersection_def Let_def tmp_def)
      show "ar_size c < 2 ^ 64" using prem(6) by (auto simp: c_def addrrange_intersection_def addrrange_end_def Let_def tmp_def)
      show "ar_start c - b < 2 ^ 64" using go mrs
        by (auto simp: c_def addrrange_intersection_def addrrange_intersects_def addrrange_contains_def addrrange_end_def Let_def tmp_def)
    qed
    show ?thesis
    proof (cases "reg_alias mr")
      case (Some a)
      then obtain am where am: "rs a = Some am" "rank a < rank r" using rankedD(1) [OF rk mr Some] by blast
      then have "\<exists>v'. render_memory_region n rs a (b - uint (reg_addr am) - uint (reg_alias_offset mr)) c o' v = Some v'"
        using Suc.IH [OF am(1) _ prem(3) cs(2,1)] cs(4) prem(2) by simp
      then show ?thesis using go by (simp add: mr Some am(1) Let_def b_def o'_def tmp_def c_def)
    next
      case None
      let ?own = "\<lambda>v1. if \<not> reg_terminates mr then Some v1
           else Option.bind (get64 (ar_start c - b)) (\<lambda>off. render_gaps (flat_piece r mr o') (ar_start c) off (ar_size c) v1)"
      have eq: "render_memory_region (Suc n) rs r base clip ro v = Option.bind (fold_opt (\<lambda>s. render_memory_region n rs s b c o') (reg_subregions mr) v) ?own"
        using go None by (simp add: mr Let_def b_def o'_def tmp_def c_def cong: if_cong)
      have sub: "\<exists>v'. render_memory_region n rs s b c o' v = Some v' \<and> sorted_view lo v'"
        if s: "s \<in> set (reg_subregions mr)" and v: "sorted_view lo v" for s v
      proof -
        obtain sm where sm: "rs s = Some sm" "rank s < rank r" using rankedD(2) [OF rk mr s] by blast
        then obtain v' where "render_memory_region n rs s b c o' v = Some v'"
          using Suc.IH [OF sm(1) _ v cs(2,1)] cs(4) prem(2) by fastforce
        then show ?thesis using render_view [OF sz _ v cs(2,1)] by blast
      qed
      obtain v1 where v1: "fold_opt (\<lambda>s. render_memory_region n rs s b c o') (reg_subregions mr) v = Some v1"
        using fold_opt_total [where F = "\<lambda>s. render_memory_region n rs s b c o'", OF sub prem(3)] by blast
      have "sorted_view lo v1"
        by (rule fold_opt_keeps [where P = "sorted_view lo", OF _ v1 prem(3)]) (use render_view [OF sz _ _ cs(2,1)] in blast)
      moreover obtain off where "get64 (ar_start c - b) = Some off" using cs by (auto simp: get64_def)
      ultimately have "?own v1 \<noteq> None" using render_gaps_total [OF _ cs(1,4)] by simp
      then show ?thesis unfolding eq v1 by simp
    qed
  qed
qed

subsection \<open>The flat view\<close>

text \<open>A sorted view of ranges within the 64-bit address space, none to be merged with the next.\<close>

definition flat_view_ok :: "flat_range list \<Rightarrow> bool" where
  "flat_view_ok v \<longleftrightarrow> sorted_view 0 v \<and> list_all (\<lambda>f. fr_end f \<le> 2 ^ 64) v \<and> merged v"

lemma view_in_range: "sorted_view lo v \<Longrightarrow> f \<in> set v \<Longrightarrow> lo \<le> fr_start f \<and> fr_start f < fr_end f"
  by (induction lo v rule: sorted_view.induct) auto

lemma view_at_mem: "f \<in> set v \<Longrightarrow> fr_has f x \<Longrightarrow> view_at v x \<noteq> None"
  by (induction v) (auto simp del: not_None_eq)

lemma generate_view:
  assumes sz: "sizes_ok rs" and v: "generate_memory_topology n rs (Some r) = Some v"
  shows "flat_view_ok v" "view_at v x = (if 0 \<le> x \<and> x < 2 ^ 64 then resolve n rs r 0 False x else None)"
proof -
  obtain w where w: "render_memory_region n rs r 0 (addrrange_make 0 (2 ^ 64)) False [] = Some w" "v = flatview_simplify w"
    using v by (auto simp: generate_memory_topology_def)
  have "sorted_view 0 w \<and> painted_over [] (in_clip (addrrange_make 0 (2 ^ 64)) (resolve n rs r 0 False)) w"
    by (rule render_view [OF sz w(1)]) simp_all
  then have r: "sorted_view 0 w" "view_at w x = (if 0 \<le> x \<and> x < 2 ^ 64 then resolve n rs r 0 False x else None)" for x
    by (simp_all add: painted_over_def addrrange_contains_def addrrange_end_def)
  have s: "sorted_view 0 v" "merged v" "view_at v x = view_at w x" for x
    using flatview_simplify_spec [OF r(1)] unfolding w(2) by blast+
  show "view_at v x = (if 0 \<le> x \<and> x < 2 ^ 64 then resolve n rs r 0 False x else None)" using r(2) s(3) by simp
  have "fr_end f \<le> 2 ^ 64" if f: "f \<in> set v" for f
  proof -
    have "fr_has f (fr_end f - 1)" using view_in_range [OF s(1) f] by (simp add: addrrange_contains_def)
    then have "view_at v (fr_end f - 1) \<noteq> None" using view_at_mem [OF f] by blast
    then show ?thesis using s(3) r(2) by (simp split: if_splits)
  qed
  then show "flat_view_ok v" using s by (simp add: flat_view_ok_def list_all_iff)
qed

lemma generate_total:
  assumes "ranked rs rank" "rs r = Some mr" "rank r < n" "reg_size mr < 2 ^ 64"
  shows "\<exists>v. generate_memory_topology n rs (Some r) = Some v"
proof -
  have "\<exists>v. render_memory_region n rs r 0 (addrrange_make 0 (2 ^ 64)) False [] = Some v"
    by (rule render_total [OF assms(1-3), where lo = 0]) (use assms(4) in simp_all)
  then show ?thesis by (auto simp: generate_memory_topology_def)
qed


subsection \<open>The view of a tree\<close>

text \<open>
  A tree to look at: at address 0 a write-protected region of three pages; in front of it, at 0x800, a window of 0x900
  bytes on the second page of a RAM region that is nowhere else.
\<close>

definition demo_region :: memory_region where
  "demo_region = \<lparr>reg_parent = None, reg_size = 2 ^ 63 - 1, reg_addr = 0, reg_ram_addr = 0,
     reg_terminates = False, reg_readable = True, reg_ram = False, reg_readonly = False, reg_rom_device = False,
     reg_enabled = True, reg_alias = None, reg_alias_offset = 0, reg_priority = 0, reg_may_overlap = False,
     reg_subregions = [1, 2], reg_dirty_log_mask = 0, reg_destructor = Destructor_none\<rparr>"

definition demo_ram :: "int \<Rightarrow> memory_region" where
  "demo_ram n = demo_region\<lparr>reg_size := n, reg_subregions := [], reg_terminates := True, reg_ram := True\<rparr>"

definition demo_tree :: region_store where
  "demo_tree = [0 \<mapsto> demo_region,
     1 \<mapsto> demo_region\<lparr>reg_size := 0x900, reg_addr := 0x800, reg_subregions := [], reg_alias := Some 4, reg_alias_offset := 0x1000\<rparr>,
     2 \<mapsto> (demo_ram 0x3000)\<lparr>reg_readonly := True\<rparr>, 4 \<mapsto> demo_ram 0x4000]"

definition demo_rank :: "nat \<Rightarrow> nat" where
  "demo_rank r = (if r = 0 then 2 else if r = 1 then 1 else 0)"

lemma demo_ranked: "ranked demo_tree demo_rank" "demo_tree 0 = Some demo_region" "demo_rank 0 < 3" "reg_size demo_region < 2 ^ 64"
  by (auto simp: ranked_def sizes_ok_def demo_tree_def demo_rank_def demo_ram_def demo_region_def)

text \<open>C37. Rendering a tree of regions succeeds, and the flat view is the tree. For a tree in which subregions and
  aliases lead down (no alias comes back to where it started) and whose root is smaller than 2 ^ 64, no assertion of
  \<open>render_memory_region\<close> fails; the ranges are sorted, not empty, do not overlap, end at 2 ^ 64 at most, no two neighbours
  could have been merged; and at each address the view gives the region, offset and flags that walking down the tree
  gives, the first child that covers the address before the later ones and before the parent.\<close>

theorem flat_view_is_tree:
  assumes "ranked rs rank" "rs r = Some mr" "rank r < n" "reg_size mr < 2 ^ 64"
  shows "\<exists>v. generate_memory_topology n rs (Some r) = Some v \<and> flat_view_ok v \<and>
    (\<forall>x. view_at v x = (if 0 \<le> x \<and> x < 2 ^ 64 then resolve n rs r 0 False x else None))"
proof -
  obtain v where v: "generate_memory_topology n rs (Some r) = Some v" using generate_total [OF assms] by blast
  have "sizes_ok rs" using assms(1) by (simp add: ranked_def)
  from generate_view [OF this v] v show ?thesis by blast
qed

lemma demo_resolve:
  "resolve 3 demo_tree 0 0 False 0x7FF = Some (2, 0, 0, True, True)"
  "resolve 3 demo_tree 0 0 False 0x800 = Some (4, 0x800, 0, True, False)"
  "resolve 3 demo_tree 0 0 False 0x1100 = Some (2, 0, 0, True, True)"
  "resolve 3 demo_tree 0 0 False 0x3000 = None"
  by (simp_all add: numeral_3_eq_3 demo_tree_def demo_ram_def demo_region_def Let_def)

theorem flat_view_is_tree_witness:
  "\<exists>v. generate_memory_topology 3 demo_tree (Some 0) = Some v \<and> flat_view_ok v \<and>
    view_at v 0x7FF = Some (2, 0, 0, True, True) \<and> view_at v 0x800 = Some (4, 0x800, 0, True, False) \<and>
    view_at v 0x1100 = Some (2, 0, 0, True, True) \<and> view_at v 0x3000 = None"
proof -
  obtain v where v: "generate_memory_topology 3 demo_tree (Some 0) = Some v" "flat_view_ok v"
    "\<And>x. view_at v x = (if 0 \<le> x \<and> x < 2 ^ 64 then resolve 3 demo_tree 0 0 False x else None)"
    using flat_view_is_tree [OF demo_ranked] by blast
  show ?thesis using v(1,2) by (intro exI [of _ v]) (simp add: v(3) demo_resolve)
qed

end
