(* ===== verification/PhysMapInv.thy ===== *)
theory PhysMapInv
  imports PhysMap
begin

text \<open>
  The map from pages to sections: \<open>phys_page_set\<close> on pages that are still unassigned gives exactly these pages the
  new section, needs at most seven new nodes, and never runs into its assertions while there is room for them.
  Each node has a level and the number of the region of pages it covers (\<open>map_ok\<close>), so that what \<open>phys_page_find\<close>
  reads for a page depends only on the entries that cover the page (\<open>walk_refs\<close>).
\<close>

subsection \<open>Arithmetic of the levels\<close>

definition covers :: "nat \<Rightarrow> nat \<Rightarrow> u64 \<Rightarrow> bool" where
  "covers l t i \<longleftrightarrow> unat i div 1024 ^ l = t"

lemma slot_nat: "phys_page_slot i l = unat i div 1024 ^ l mod 1024"
proof -
  have "(0x3FF :: u64) = mask 10" by (simp add: mask_eq_exp_minus_1)
  then have "phys_page_slot i l = unat (take_bit 10 (drop_bit (l * 10) i))"
    unfolding phys_page_slot_def by (simp only: take_bit_eq_mask)
  also have "\<dots> = unat i div 2 ^ (l * 10) mod 1024"
    by (simp only: unsigned_take_bit_eq unat_drop_bit_eq) (simp add: take_bit_eq_mod drop_bit_eq_div)
  also have "(2 :: nat) ^ (l * 10) = 1024 ^ l"
    by (simp add: mult.commute [of l] power_mult)
  finally show ?thesis .
qed

lemma slot_less [simp]: "phys_page_slot i l < 1024"
  by (simp add: slot_nat)

lemma div_level: "(x :: nat) div 1024 ^ Suc l = x div 1024 ^ l div 1024"
  by (simp only: power_Suc2 div_mult2_eq)

lemma covers_slot: "covers (Suc l) t i \<longleftrightarrow> covers l (1024 * t + phys_page_slot i l) i"
proof -
  have "unat i div 1024 ^ l = 1024 * (unat i div 1024 ^ l div 1024) + unat i div 1024 ^ l mod 1024" by simp
  then show ?thesis unfolding covers_def slot_nat div_level by linarith
qed

lemma covers_slot_eq: "covers l (1024 * t + s) i \<Longrightarrow> s < 1024 \<Longrightarrow> covers (Suc l) t i \<and> phys_page_slot i l = s"
  unfolding covers_def slot_nat div_level by auto

lemma covers_range: "covers l t i \<longleftrightarrow> 1024 ^ l * t \<le> unat i \<and> unat i < 1024 ^ l * Suc t"
proof -
  have p: "(0 :: nat) < 1024 ^ l" by simp
  have "unat i div 1024 ^ l = t \<longleftrightarrow> t \<le> unat i div 1024 ^ l \<and> unat i div 1024 ^ l < Suc t" by auto
  also have "\<dots> \<longleftrightarrow> t * 1024 ^ l \<le> unat i \<and> unat i < Suc t * 1024 ^ l"
    by (simp only: less_eq_div_iff_mult_less_eq [OF p] div_less_iff_less_mult [OF p])
  finally show ?thesis by (simp only: covers_def mult.commute)
qed

subsection \<open>Well-formed maps\<close>

definition entry_ok :: "phys_dispatch \<Rightarrow> (nat \<Rightarrow> nat) \<Rightarrow> (nat \<Rightarrow> nat) \<Rightarrow> nat \<Rightarrow> nat \<Rightarrow> phys_page_entry \<Rightarrow> bool" where
  "entry_ok d lev tag l t e \<longleftrightarrow>
    (if is_leaf e then l = 0 \<or> ptr e \<noteq> 0
     else 0 < l \<and> (ptr e = PHYS_MAP_NODE_NIL \<or> ptr e < phys_map_nodes_nb d \<and> lev (ptr e) = l - 1 \<and> tag (ptr e) = t))"

definition map_ok :: "phys_dispatch \<Rightarrow> (nat \<Rightarrow> nat) \<Rightarrow> (nat \<Rightarrow> nat) \<Rightarrow> bool" where
  "map_ok d lev tag \<longleftrightarrow>
    phys_map_nodes_nb d \<le> PHYS_MAP_NODE_NIL \<and> \<not> is_leaf (phys_map d) \<and> entry_ok d lev tag 4 0 (phys_map d) \<and>
    (\<forall>n < phys_map_nodes_nb d. \<forall>s < 1024. entry_ok d lev tag (lev n) (1024 * tag n + s) (phys_map_nodes d n s))"

fun ref_ok :: "phys_dispatch \<Rightarrow> (nat \<Rightarrow> nat) \<Rightarrow> (nat \<Rightarrow> nat) \<Rightarrow> nat \<Rightarrow> nat \<Rightarrow> entry_ref \<Rightarrow> bool" where
  "ref_ok d lev tag l t Root \<longleftrightarrow> l = 4 \<and> t = 0"
| "ref_ok d lev tag l t (Slot n s) \<longleftrightarrow> n < phys_map_nodes_nb d \<and> s < 1024 \<and> l = lev n \<and> t = 1024 * tag n + s"

lemma ref_entry: "map_ok d lev tag \<Longrightarrow> ref_ok d lev tag l t q \<Longrightarrow> entry_ok d lev tag l t (read_entry d q)"
  by (cases q) (auto simp: map_ok_def)

lemma map_ok_refs: "map_ok d lev tag \<longleftrightarrow> phys_map_nodes_nb d \<le> PHYS_MAP_NODE_NIL \<and> \<not> is_leaf (phys_map d) \<and>
    (\<forall>q l t. ref_ok d lev tag l t q \<longrightarrow> entry_ok d lev tag l t (read_entry d q))" (is "?L = ?R")
proof
  assume ?L
  then show ?R using ref_entry [of d lev tag] by (simp add: map_ok_def)
next
  assume r: ?R
  from r have "ref_ok d lev tag 4 0 Root \<longrightarrow> entry_ok d lev tag 4 0 (read_entry d Root)" by blast
  moreover from r have "ref_ok d lev tag (lev n) (1024 * tag n + s) (Slot n s) \<longrightarrow>
      entry_ok d lev tag (lev n) (1024 * tag n + s) (read_entry d (Slot n s))" for n s by blast
  ultimately show ?L using r by (simp add: map_ok_def)
qed

text \<open>
  A change at the reference \<open>lp\<close> alone shows only in the walks through it.
\<close>

lemma walk_refs:
  assumes ok: "map_ok d lev tag"
    and same: "\<And>q l t. ref_ok d lev tag l t q \<Longrightarrow> covers l t i \<Longrightarrow> q \<noteq> lp \<Longrightarrow> read_entry d' q = read_entry d q"
    and lp: "\<And>l t. ref_ok d lev tag l t lp \<Longrightarrow> covers l t i \<Longrightarrow>
      walk_levels d' l (read_entry d' lp) i = walk_levels d l (read_entry d lp) i"
  shows "ref_ok d lev tag l t q \<Longrightarrow> covers l t i \<Longrightarrow>
    walk_levels d' l (read_entry d' q) i = walk_levels d l (read_entry d q) i"
proof (induction l arbitrary: q t)
  case 0
  then show ?case using same [of 0 t q] lp [of 0 t] by (cases "q = lp") auto
next
  case (Suc l)
  show ?case
  proof (cases "q = lp")
    case True
    then show ?thesis using lp Suc.prems by blast
  next
    case False
    define e where "e = read_entry d q"
    have e: "read_entry d' q = e" using same [OF Suc.prems False] by (simp add: e_def)
    have eo: "entry_ok d lev tag (Suc l) t e" using ref_entry [OF ok Suc.prems(1)] by (simp add: e_def)
    show ?thesis
    proof (cases "is_leaf e \<or> ptr e = PHYS_MAP_NODE_NIL")
      case True
      then show ?thesis by (auto simp: e e_def [symmetric])
    next
      case ne: False
      have n: "ref_ok d lev tag l (1024 * t + phys_page_slot i l) (Slot (ptr e) (phys_page_slot i l))"
        using eo ne by (auto simp: entry_ok_def)
      from Suc.IH [OF n] Suc.prems(2) ne show ?thesis by (simp add: e e_def [symmetric] covers_slot)
    qed
  qed
qed

subsection \<open>What a call may change\<close>

text \<open>
  From \<open>d\<close> to \<open>d'\<close>: only the map has changed, in references of level at most \<open>k\<close>; only the pages from \<open>a\<close> to \<open>b\<close>
  have another section; at most \<open>c\<close> nodes are new.
\<close>

definition only_map :: "phys_dispatch \<Rightarrow> phys_dispatch \<Rightarrow> bool" where
  "only_map d d' \<longleftrightarrow>
    phys_map_nodes_nb_alloc d' = phys_map_nodes_nb_alloc d \<and> phys_sections d' = phys_sections d \<and>
    phys_sections_nb d' = phys_sections_nb d \<and> subpages d' = subpages d \<and> next_subpage d' = next_subpage d"

definition painted :: "phys_dispatch \<Rightarrow> (nat \<Rightarrow> nat) \<Rightarrow> (nat \<Rightarrow> nat) \<Rightarrow> nat \<Rightarrow> nat \<Rightarrow> nat \<Rightarrow> nat \<Rightarrow>
    phys_dispatch \<Rightarrow> (nat \<Rightarrow> nat) \<Rightarrow> (nat \<Rightarrow> nat) \<Rightarrow> bool" where
  "painted d lev tag k a b c d' lev' tag' \<longleftrightarrow>
    only_map d d' \<and> map_ok d' lev' tag' \<and>
    phys_map_nodes_nb d \<le> phys_map_nodes_nb d' \<and> phys_map_nodes_nb d' \<le> phys_map_nodes_nb d + c \<and>
    (\<forall>n < phys_map_nodes_nb d. lev' n = lev n \<and> tag' n = tag n) \<and>
    (\<forall>q l t. ref_ok d lev tag l t q \<and> k < l \<longrightarrow> read_entry d' q = read_entry d q) \<and>
    (\<forall>q l t i. ref_ok d lev tag l t q \<and> covers l t i \<and> \<not> (a \<le> unat i \<and> unat i < b) \<longrightarrow>
       walk_levels d' l (read_entry d' q) i = walk_levels d l (read_entry d q) i)"

lemma paintedD:
  assumes "painted d lev tag k a b c d' lev' tag'"
  shows "only_map d d'" "map_ok d' lev' tag'" "phys_map_nodes_nb d \<le> phys_map_nodes_nb d'"
    "phys_map_nodes_nb d' \<le> phys_map_nodes_nb d + c"
    "ref_ok d lev tag l t q \<Longrightarrow> ref_ok d' lev' tag' l t q"
    "ref_ok d lev tag l t q \<Longrightarrow> k < l \<Longrightarrow> read_entry d' q = read_entry d q"
    "ref_ok d lev tag l t q \<Longrightarrow> covers l t i \<Longrightarrow> \<not> (a \<le> unat i \<and> unat i < b) \<Longrightarrow>
      walk_levels d' l (read_entry d' q) i = walk_levels d l (read_entry d q) i"
  using assms unfolding painted_def by (blast, blast, blast, blast, (cases q; auto)[], blast, blast)

lemma page_painted_refl: "map_ok d lev tag \<Longrightarrow> painted d lev tag k a b 0 d lev tag"
  by (simp add: painted_def only_map_def)

lemma page_painted_trans:
  assumes p: "painted d lev tag k a b c d1 lev1 tag1" and q: "painted d1 lev1 tag1 k a' b' c' d2 lev2 tag2"
    and r: "a \<le> a'" "b \<le> b'" "a' \<le> b" 
  shows "painted d lev tag k a b' (c + c') d2 lev2 tag2"
  unfolding painted_def
proof (intro conjI allI impI)
  show "only_map d d2" using paintedD(1) [OF p] paintedD(1) [OF q] by (simp add: only_map_def)
  show "map_ok d2 lev2 tag2" by (rule paintedD(2) [OF q])
  show "phys_map_nodes_nb d \<le> phys_map_nodes_nb d2" "phys_map_nodes_nb d2 \<le> phys_map_nodes_nb d + (c + c')"
    using paintedD(3,4) [OF p] paintedD(3,4) [OF q] by linarith+
  show "lev2 n = lev n" "tag2 n = tag n" if "n < phys_map_nodes_nb d" for n
    using p q that unfolding painted_def by (auto dest: order.strict_trans2)
  show "read_entry d2 q' = read_entry d q'" if "ref_ok d lev tag l t q' \<and> k < l" for q' l t
    using paintedD(5,6) [OF p, of l t q'] paintedD(6) [OF q, of l t q'] that by simp
  show "walk_levels d2 l (read_entry d2 q') i = walk_levels d l (read_entry d q') i"
    if "ref_ok d lev tag l t q' \<and> covers l t i \<and> \<not> (a \<le> unat i \<and> unat i < b')" for q' l t i
    using paintedD(5,7) [OF p, of l t q'] paintedD(7) [OF q, of l t q' i] that r by force
qed

lemma painted_mono: "painted d lev tag k a b c d' lev' tag' \<Longrightarrow> k \<le> k' \<Longrightarrow> c \<le> c' \<Longrightarrow>
    painted d lev tag k' a b c' d' lev' tag'"
  unfolding painted_def by (meson le_trans add_left_mono order.strict_trans1)

text \<open>A leaf over pages that are all in the range.\<close>

lemma write_leaf_painted:
  assumes ok: "map_ok d lev tag" and q: "ref_ok d lev tag l t (Slot n s)" and leaf: "0 < leaf" "leaf < 2 ^ 15"
    and r: "\<And>i. covers l t i \<Longrightarrow> a \<le> unat i \<and> unat i < b"
  shows "painted d lev tag l a b 0 (write_entry (Slot n s) (leaf_entry leaf) d) lev tag"
    (is "painted _ _ _ _ _ _ _ ?d' _ _")
proof -
  have e: "is_leaf (leaf_entry leaf)" "ptr (leaf_entry leaf) = leaf"
    using leaf by (simp_all add: leaf_entry_def take_bit_nat_eq_self)
  have same: "read_entry ?d' q' = read_entry d q'" if "q' \<noteq> Slot n s" for q'
    using that by (cases q') auto
  have ro: "ref_ok ?d' lev tag l' t' q' = ref_ok d lev tag l' t' q'" for q' l' t' by (cases q') auto
  have eo: "entry_ok ?d' lev tag l' t' f = entry_ok d lev tag l' t' f" for f l' t' by (simp add: entry_ok_def)
  have "entry_ok d lev tag l' t' (read_entry ?d' q')" if "ref_ok d lev tag l' t' q'" for q' l' t'
  proof (cases "q' = Slot n s")
    case True
    then show ?thesis using e leaf(1) by (simp add: entry_ok_def)
  next
    case False
    then show ?thesis using same ref_entry [OF ok that] by simp
  qed
  then have "map_ok ?d' lev tag" using ok unfolding map_ok_refs ro eo by simp
  moreover have "walk_levels ?d' l' (read_entry ?d' q') i = walk_levels d l' (read_entry d q') i"
    if "ref_ok d lev tag l' t' q'" "covers l' t' i" "\<not> (a \<le> unat i \<and> unat i < b)" for q' l' t' i
  proof (rule walk_refs [OF ok same _ that(1,2)])
    fix l'' t'' assume "ref_ok d lev tag l'' t'' (Slot n s)" "covers l'' t'' i"
    with q r that(3) have False by auto
    then show "walk_levels ?d' l'' (read_entry ?d' (Slot n s)) i = walk_levels d l'' (read_entry d (Slot n s)) i" ..
  qed
  moreover have "q' \<noteq> Slot n s" if "ref_ok d lev tag l' t' q'" "l < l'" for q' l' t'
    using that q by auto
  ultimately show ?thesis using same by (auto simp: painted_def only_map_def)
qed

text \<open>A new node changes no walk.\<close>

definition level_cost :: "nat \<Rightarrow> nat \<Rightarrow> nat" where
  "level_cost l x = (if x mod 1024 ^ l = 0 then 0 else l)"

definition room :: "phys_dispatch \<Rightarrow> nat" where
  "room d = min (phys_map_nodes_nb_alloc d) PHYS_MAP_NODE_NIL"

lemma painted_room: "painted d lev tag k a b c d' lev' tag' \<Longrightarrow> room d' = room d"
  by (simp add: painted_def only_map_def room_def)

lemma level_node_painted:
  assumes ok: "map_ok d lev tag" and q: "ref_ok d lev tag (Suc l) t lp" and nl: "\<not> is_leaf (read_entry d lp)"
    and rm: "phys_map_nodes_nb d < room d"
  obtains d' n lev' tag' where "level_node d lp l = Some (d', n)" "painted d lev tag (Suc l) a a 1 d' lev' tag'"
    "n < phys_map_nodes_nb d'" "lev' n = l" "tag' n = t" "\<not> is_leaf (read_entry d' lp)" "ptr (read_entry d' lp) = n"
proof (cases "ptr (read_entry d lp) = PHYS_MAP_NODE_NIL")
  case False
  with ref_entry [OF ok q] nl show ?thesis
    by (intro that [of d "ptr (read_entry d lp)" lev tag]) (auto simp: level_node_def entry_ok_def intro: painted_mono [OF page_painted_refl [OF ok]])
next
  case True
  define m where "m = phys_map_nodes_nb d"
  define row where "row = (if l = 0 then (\<lambda>_ :: nat. leaf_entry 0) else (\<lambda>_. nil_entry))"
  define d1 where "d1 = d\<lparr>phys_map_nodes_nb := Suc m, phys_map_nodes := (phys_map_nodes d)(m := row)\<rparr>"
  define d' where "d' = write_entry lp ((read_entry d lp)\<lparr>ptr := m\<rparr>) d1"
  let ?lev = "lev(m := l)" and ?tag = "tag(m := t)"
  have m: "m < PHYS_MAP_NODE_NIL" using rm by (simp add: m_def room_def)
  have lp: "lp \<noteq> Slot m s" for s using q by (cases lp) (auto simp: m_def)
  have node: "level_node d lp l = Some (d', m)"
  proof (cases lp)
    case Root
    then show ?thesis using True nl rm
      by (simp add: level_node_def phys_map_node_alloc_def room_def d'_def d1_def row_def m_def Let_def)
  next
    case (Slot n s)
    then have "n \<noteq> m" using lp by blast
    then show ?thesis using True nl rm Slot
      by (simp add: level_node_def phys_map_node_alloc_def room_def d'_def d1_def row_def m_def Let_def fun_upd_twist [of n "phys_map_nodes_nb d"])
  qed
  have new: "read_entry d' (Slot m s) = row s" for s using lp by (cases lp) (auto simp: d'_def d1_def)
  have at: "read_entry d' lp = (read_entry d lp)\<lparr>ptr := m\<rparr>" by (cases lp) (auto simp: d'_def)
  have same: "read_entry d' q' = read_entry d q'" if "ref_ok d lev tag l' t' q'" "q' \<noteq> lp" for q' l' t'
    using that lp by (cases q'; cases lp) (auto simp: d'_def d1_def m_def)
  have nb: "phys_map_nodes_nb d' = Suc m" "only_map d d'" by (cases lp; simp add: d'_def d1_def only_map_def)+
  have mono: "entry_ok d' ?lev ?tag l' t' e" if "entry_ok d lev tag l' t' e" for l' t' e
    using that m by (auto simp: entry_ok_def nb m_def split: if_splits)
  have rowok: "entry_ok d' ?lev ?tag l t' (row s)" for t' s
    by (simp add: row_def entry_ok_def leaf_entry_def nil_entry_def)
  have "entry_ok d' ?lev ?tag l' t' (read_entry d' q')" if r: "ref_ok d' ?lev ?tag l' t' q'" for q' l' t'
  proof (cases "\<exists>s. q' = Slot m s")
    case True
    then show ?thesis using r new rowok by auto
  next
    case False
    with r have r': "ref_ok d lev tag l' t' q'" by (cases q') (auto simp: nb m_def)
    show ?thesis
    proof (cases "q' = lp")
      case True
      with r' q have "l' = Suc l" "t' = t" by (cases lp; auto)+
      then show ?thesis using nl True by (simp add: at entry_ok_def nb)
    next
      case False
      then show ?thesis using same [OF r' False] mono [OF ref_entry [OF ok r']] by simp
    qed
  qed
  moreover have "\<not> is_leaf (phys_map d')"
    using ok nl by (cases lp) (auto simp: map_ok_def d'_def d1_def)
  ultimately have ok': "map_ok d' ?lev ?tag" using m by (simp add: map_ok_refs nb)
  have empty: "walk_levels d' l (row s) i = 0" for s i
    by (cases l) (auto simp: row_def leaf_entry_def nil_entry_def)
  have walk: "walk_levels d' l' (read_entry d' q') i = walk_levels d l' (read_entry d q') i"
    if r: "ref_ok d lev tag l' t' q'" "covers l' t' i" for q' l' t' i
  proof (rule walk_refs [OF ok same _ r])
    fix l'' t'' assume "ref_ok d lev tag l'' t'' lp"
    with q have "l'' = Suc l" by (cases lp) auto
    then show "walk_levels d' l'' (read_entry d' lp) i = walk_levels d l'' (read_entry d lp) i"
      using True nl m new empty by (simp add: at)
  qed
  have "painted d lev tag (Suc l) a a 1 d' ?lev ?tag"
    unfolding painted_def
  proof (intro conjI allI impI)
    show "read_entry d' q' = read_entry d q'" if "ref_ok d lev tag l' t' q' \<and> Suc l < l'" for q' l' t'
    proof -
      from that q have "q' \<noteq> lp" by (cases lp) auto
      with that same show ?thesis by blast
    qed
  qed (use nb ok' walk in \<open>auto simp: m_def\<close>)
  then show ?thesis by (rule that [OF node]) (simp_all add: nb at nl)
qed

subsection \<open>Setting a range\<close>

abbreviation (input) region_end :: "nat \<Rightarrow> nat \<Rightarrow> u64 \<Rightarrow> u64 \<Rightarrow> nat" where
  "region_end l t index nb \<equiv> min (unat index + unat nb) (1024 ^ Suc l * Suc t)"

text \<open>What a call for the pages below \<open>lp\<close> has to do with those of the range.\<close>

definition sets_level :: "nat \<Rightarrow> nat \<Rightarrow>
    (entry_ref \<Rightarrow> phys_dispatch \<times> u64 \<times> u64 \<Rightarrow> (phys_dispatch \<times> u64 \<times> u64) option) \<Rightarrow> bool" where
  "sets_level l leaf sub \<longleftrightarrow> (\<forall>d lev tag t lp index nb.
    map_ok d lev tag \<and> ref_ok d lev tag (Suc l) t lp \<and> \<not> is_leaf (read_entry d lp) \<and> covers (Suc l) t index \<and>
    unat index + unat nb \<le> 2 ^ 40 \<and>
    (\<forall>i. covers (Suc l) t i \<and> unat index \<le> unat i \<and> unat i < region_end l t index nb \<longrightarrow>
       walk_levels d (Suc l) (read_entry d lp) i = 0) \<and>
    phys_map_nodes_nb d + (1 + level_cost l (unat index) + level_cost l (region_end l t index nb)) \<le> room d \<longrightarrow>
    (\<exists>d' index' nb' lev' tag'. sub lp (d, index, nb) = Some (d', index', nb') \<and>
       unat index' = region_end l t index nb \<and> unat nb' = unat nb - (region_end l t index nb - unat index) \<and>
       painted d lev tag (Suc l) (unat index) (region_end l t index nb)
         (1 + level_cost l (unat index) + level_cost l (region_end l t index nb)) d' lev' tag' \<and>
       (\<forall>i. covers (Suc l) t i \<and> unat index \<le> unat i \<and> unat i < region_end l t index nb \<longrightarrow>
         walk_levels d' (Suc l) (read_entry d' lp) i = leaf)))"

lemma set_slots_0: "set_slots sub l leaf n k (d, index, 0) = Some (d, index, 0)"
  by (cases k) simp_all

lemma step_nat: "l \<le> 3 \<Longrightarrow> unat (push_bit (l * 10) 1 :: u64) = 1024 ^ l"
  by (cases "l = 0 \<or> l = 1 \<or> l = 2 \<or> l = 3") (auto simp: push_bit_eq_mult)

lemma step_aligned: "l \<le> 3 \<Longrightarrow> (index :: u64) AND (push_bit (l * 10) 1 - 1) = 0 \<longleftrightarrow> unat index mod 1024 ^ l = 0"
proof -
  have m: "(push_bit (l * 10) 1 - 1 :: u64) = mask (l * 10)" by (simp add: mask_eq_exp_minus_1 push_bit_eq_mult)
  have "(index AND mask (l * 10) = 0) = (unat (take_bit (l * 10) index) = 0)"
    by (simp only: take_bit_eq_mask unat_eq_0)
  also have "unat (take_bit (l * 10) index) = unat index mod 2 ^ (l * 10)"
    by (simp only: unsigned_take_bit_eq) (simp only: take_bit_eq_mod)
  also have "(2 :: nat) ^ (l * 10) = 1024 ^ l" by (simp add: mult.commute [of l] power_mult)
  finally show ?thesis unfolding m .
qed

lemma level_cost_simps [simp]: "level_cost 0 x = 0" "level_cost l (1024 ^ l * y) = 0"
  by (simp_all add: level_cost_def)

lemma level_cost_le: "level_cost l x \<le> l"
  by (simp add: level_cost_def)

lemma level_cost_inside: "0 < y \<Longrightarrow> y < 1024 ^ l \<Longrightarrow> level_cost l (1024 ^ l * x + y) = l"
  by (simp add: level_cost_def)

lemma level_cost_lower: "x mod 1024 ^ Suc l = 0 \<Longrightarrow> level_cost l x = 0"
  unfolding level_cost_def power_Suc by (metis dvd_mult_right mod_0_imp_dvd dvd_imp_mod_0)

text \<open>One turn of the loop: the entry of slot \<open>s\<close>, up to the page \<open>e\<close>.\<close>

lemma slot_turn:
  assumes l: "l \<le> 3" and leaf: "0 < leaf" "leaf < 2 ^ 15" and sub: "\<And>l'. l = Suc l' \<Longrightarrow> sets_level l' leaf sub"
    and ok: "map_ok d lev tag" and n: "n < phys_map_nodes_nb d" "lev n = l" "tag n = t"
    and s: "s = 1023 - k" "k < 1024" and nb: "nb \<noteq> 0" "unat index + unat nb \<le> 2 ^ 40"
    and at: "1024 ^ l * (1024 * t + s) \<le> unat index" "unat index < 1024 ^ l * (1024 * t + s + 1)"
    and e: "e = min (unat index + unat nb) (1024 ^ l * (1024 * t + s + 1))"
    and free: "\<And>i. covers l (1024 * t + s) i \<Longrightarrow> unat index \<le> unat i \<Longrightarrow> unat i < e \<Longrightarrow>
      walk_levels d l (phys_map_nodes d n s) i = 0"
    and rm: "phys_map_nodes_nb d + (level_cost l (unat index) + level_cost l e) \<le> room d"
  shows "\<exists>d1 index1 nb1 lev1 tag1.
    set_slots sub l leaf n (Suc k) (d, index, nb) = set_slots sub l leaf n k (d1, index1, nb1) \<and>
    unat index1 = e \<and> unat nb1 = unat nb - (e - unat index) \<and>
    painted d lev tag l (unat index) e (level_cost l (unat index) + level_cost l e) d1 lev1 tag1 \<and>
    (\<forall>i. covers l (1024 * t + s) i \<and> unat index \<le> unat i \<and> unat i < e \<longrightarrow>
       walk_levels d1 l (phys_map_nodes d1 n s) i = leaf)"
proof -
  define p where "p = 1024 * t + s"
  let ?lp = "Slot n s" and ?step = "push_bit (l * 10) 1 :: u64"
  have q: "ref_ok d lev tag l p ?lp" using n s by (simp add: p_def)
  have slot: "L2_SIZE - Suc k = s" using s by simp
  have pos: "(0 :: nat) < 1024 ^ l" by simp
  have nbu: "unat nb \<noteq> 0" using nb(1) by (simp add: unat_eq_0)
  have cov: "covers l p index" using at by (simp add: covers_range p_def)
  show ?thesis
  proof (cases "unat index mod 1024 ^ l = 0 \<and> 1024 ^ l \<le> unat nb")
    case True
    then obtain x where x: "unat index = 1024 ^ l * x" by (metis mod_0_imp_dvd dvdE)
    from cov have "x = p" by (simp add: covers_def x)
    then have i: "unat index = 1024 ^ l * p" and en: "e = 1024 ^ l * p + 1024 ^ l"
      using True x e by (simp_all add: p_def [symmetric])
    let ?d1 = "write_entry ?lp (leaf_entry leaf) d"
    have "set_slots sub l leaf n (Suc k) (d, index, nb) = set_slots sub l leaf n k (?d1, index + ?step, nb - ?step)"
      unfolding set_slots.simps slot Let_def step_aligned [OF l] word_le_nat_alt step_nat [OF l]
      using True nb(1) by (simp del: write_entry.simps)
    moreover have "unat (index + ?step) = e" "unat (nb - ?step) = unat nb - (e - unat index)"
      using True nb(2) i en step_nat [OF l] unat_add_64 [of index ?step] unat_sub_64 [of ?step nb] by simp_all
    moreover have "painted d lev tag l (unat index) e (level_cost l (unat index) + level_cost l e) ?d1 lev tag"
      by (rule painted_mono [OF write_leaf_painted [OF ok q leaf]])
        (auto simp: i en covers_range)
    moreover have "walk_levels ?d1 l (phys_map_nodes ?d1 n s) i = leaf" for i
      using leaf by (cases l) (simp_all add: leaf_entry_def take_bit_nat_eq_self)
    ultimately show ?thesis by (intro exI conjI) auto
  next
    case part: False
    then obtain l' where l': "l = Suc l'" using nbu by (cases l) auto
    have en: "e = region_end l' p index nb" using e by (simp add: p_def l')
    have ie: "unat index < e" using e nbu at(2) by (simp add: p_def)
    have nl: "\<not> is_leaf (phys_map_nodes d n s)"
    proof
      assume lf: "is_leaf (phys_map_nodes d n s)"
      with free [of index] cov ie l' have "ptr (phys_map_nodes d n s) = 0" by (simp add: p_def)
      with ref_entry [OF ok q] lf l' show False by (simp add: entry_ok_def)
    qed
    have cost: "1 + level_cost l' (unat index) + level_cost l' e \<le> level_cost l (unat index) + level_cost l e"
    proof (cases "unat index mod 1024 ^ l = 0")
      case True
      then have i0: "level_cost l' (unat index) = 0" by (intro level_cost_lower) (simp add: l')
      from True obtain x where x: "unat index = 1024 ^ l * x" by (metis mod_0_imp_dvd dvdE)
      with cov have "x = p" by (simp add: covers_def)
      with x True part e have "e = 1024 ^ l * p + unat nb" "unat nb < 1024 ^ l"
        by (simp_all add: p_def [symmetric])
      with nbu have "level_cost l e = l" by (simp add: level_cost_inside)
      then show ?thesis using i0 level_cost_le [of l' e] by (simp add: l')
    next
      case False
      then have il: "level_cost l (unat index) = l" by (simp add: level_cost_def)
      show ?thesis
      proof (cases "e = 1024 ^ l * (p + 1)")
        case True
        then have "level_cost l' e = 0" by (intro level_cost_lower) (simp add: l')
        then show ?thesis using il level_cost_le [of l' "unat index"] by (simp add: l')
      next
        case False
        with e at ie have "1024 ^ l * p < e" "e < 1024 ^ l * p + 1024 ^ l"
          by (simp_all add: p_def [symmetric])
        then have "level_cost l e = l"
          using level_cost_inside [of "e - 1024 ^ l * p" l p] by simp
        then show ?thesis using il level_cost_le [of l' "unat index"] level_cost_le [of l' e] by (simp add: l')
      qed
    qed
    have "map_ok d lev tag \<and> ref_ok d lev tag (Suc l') p ?lp \<and> \<not> is_leaf (read_entry d ?lp) \<and> covers (Suc l') p index \<and>
        unat index + unat nb \<le> 2 ^ 40 \<and>
        (\<forall>i. covers (Suc l') p i \<and> unat index \<le> unat i \<and> unat i < e \<longrightarrow> walk_levels d (Suc l') (read_entry d ?lp) i = 0) \<and>
        phys_map_nodes_nb d + (1 + level_cost l' (unat index) + level_cost l' e) \<le> room d"
      using ok q nl cov nb(2) free rm cost by (simp del: walk_levels.simps ref_ok.simps add: l' p_def)
    from sub [OF l', unfolded sets_level_def, rule_format, of d lev tag p ?lp index nb, folded en, OF this]
    obtain d1 index1 nb1 lev1 tag1 where r: "sub ?lp (d, index, nb) = Some (d1, index1, nb1)" "unat index1 = e"
        "unat nb1 = unat nb - (e - unat index)"
        "painted d lev tag (Suc l') (unat index) e (1 + level_cost l' (unat index) + level_cost l' e) d1 lev1 tag1"
        "\<forall>i. covers (Suc l') p i \<and> unat index \<le> unat i \<and> unat i < e \<longrightarrow>
          walk_levels d1 (Suc l') (read_entry d1 ?lp) i = leaf"
      by blast
    have "set_slots sub l leaf n (Suc k) (d, index, nb) = set_slots sub l leaf n k (d1, index1, nb1)"
      unfolding set_slots.simps slot Let_def step_aligned [OF l] word_le_nat_alt step_nat [OF l]
      using part nb(1) r(1) by auto
    moreover have "painted d lev tag l (unat index) e (level_cost l (unat index) + level_cost l e) d1 lev1 tag1"
      by (rule painted_mono [OF r(4)]) (use cost in \<open>simp_all add: l'\<close>)
    ultimately show ?thesis using r(2,3,5) by (intro exI conjI) (auto simp: l' p_def simp del: walk_levels.simps)
  qed
qed

lemma set_slots_spec:
  assumes l: "l \<le> 3" and leaf: "0 < leaf" "leaf < 2 ^ 15" and sub: "\<And>l'. l = Suc l' \<Longrightarrow> sets_level l' leaf sub"
  shows "map_ok d lev tag \<Longrightarrow> n < phys_map_nodes_nb d \<Longrightarrow> lev n = l \<Longrightarrow> tag n = t \<Longrightarrow> k \<le> 1024 \<Longrightarrow>
    unat index + unat nb \<le> 2 ^ 40 \<Longrightarrow> unat index \<le> 1024 ^ l * (1024 * t + 1024) \<Longrightarrow>
    (nb \<noteq> 0 \<Longrightarrow> 1024 ^ l * (1024 * t + (1024 - k)) \<le> unat index \<and>
       (k \<noteq> 0 \<longrightarrow> unat index < 1024 ^ l * (1024 * t + (1024 - k) + 1))) \<Longrightarrow>
    e = min (unat index + unat nb) (1024 ^ l * (1024 * t + 1024)) \<Longrightarrow>
    (\<And>i. covers (Suc l) t i \<Longrightarrow> unat index \<le> unat i \<Longrightarrow> unat i < e \<Longrightarrow>
       walk_levels d l (phys_map_nodes d n (phys_page_slot i l)) i = 0) \<Longrightarrow>
    phys_map_nodes_nb d + (level_cost l (unat index) + level_cost l e) \<le> room d \<Longrightarrow>
    \<exists>d' index' nb' lev' tag'. set_slots sub l leaf n k (d, index, nb) = Some (d', index', nb') \<and>
      unat index' = e \<and> unat nb' = unat nb - (e - unat index) \<and>
      painted d lev tag l (unat index) e (level_cost l (unat index) + level_cost l e) d' lev' tag' \<and>
      (\<forall>i. covers (Suc l) t i \<and> unat index \<le> unat i \<and> unat i < e \<longrightarrow>
        walk_levels d' l (phys_map_nodes d' n (phys_page_slot i l)) i = leaf)"
proof (induction k arbitrary: d lev tag index nb)
  case 0
  then have "e = unat index" by (cases "nb = 0") auto
  then show ?case using painted_mono [OF page_painted_refl [OF 0(1)], of 0 l "level_cost l e + level_cost l e" e e]
    by (intro exI [of _ d] exI [of _ index] exI [of _ nb] exI [of _ lev] exI [of _ tag]) auto
next
  case (Suc k)
  show ?case
  proof (cases "nb = 0")
    case True
    with Suc.prems have "e = unat index" by simp
    then show ?thesis using painted_mono [OF page_painted_refl [OF Suc.prems(1)], of 0 l "level_cost l e + level_cost l e" e e] True
      by (intro exI [of _ d] exI [of _ index] exI [of _ nb] exI [of _ lev] exI [of _ tag]) auto
  next
    case False
    define s where "s = 1023 - k"
    define e1 where "e1 = min (unat index + unat nb) (1024 ^ l * (1024 * t + s + 1))"
    have s: "s = 1023 - k" "k < 1024" "1024 - Suc k = s" "1024 - k = s + 1" using Suc.prems(5) by (auto simp: s_def)
    have s1: "s < 1024" using s by simp
    have at: "1024 ^ l * (1024 * t + s) \<le> unat index" "unat index < 1024 ^ l * (1024 * t + s + 1)"
      using Suc.prems(8) [OF False] s(3) by auto
    have "1024 ^ l * (1024 * t + s + 1) \<le> 1024 ^ l * (1024 * t + 1024)" using s1 by (intro mult_left_mono) auto
    then have e1e: "e1 \<le> e" "unat index < e1" "unat index \<le> e1" using Suc.prems(9) at(2) False by (auto simp: e1_def unat_gt_0)
    have done1: "e1 = e" if "unat nb \<le> e1 - unat index" using that Suc.prems(9) e1e by (auto simp: e1_def)
    have cost1: "level_cost l e1 = 0" if "\<not> unat nb \<le> e1 - unat index"
    proof -
      have "e1 = 1024 ^ l * (1024 * t + s + 1)" using that e1e by (auto simp: e1_def)
      then show ?thesis by (simp only: level_cost_simps)
    qed
    have cost: "level_cost l (unat index) + level_cost l e1 \<le> level_cost l (unat index) + level_cost l e"
      using done1 cost1 by (cases "unat nb \<le> e1 - unat index") auto
    have free1: "walk_levels d l (phys_map_nodes d n s) i = 0"
      if "covers l (1024 * t + s) i" "unat index \<le> unat i" "unat i < e1" for i
      using Suc.prems(10) [of i] covers_slot_eq [OF that(1) s1] that e1e by simp
    have rm1: "phys_map_nodes_nb d + (level_cost l (unat index) + level_cost l e1) \<le> room d"
      using Suc.prems(11) cost by simp
    have "\<exists>d1 index1 nb1 lev1 tag1.
        set_slots sub l leaf n (Suc k) (d, index, nb) = set_slots sub l leaf n k (d1, index1, nb1) \<and>
        unat index1 = e1 \<and> unat nb1 = unat nb - (e1 - unat index) \<and>
        painted d lev tag l (unat index) e1 (level_cost l (unat index) + level_cost l e1) d1 lev1 tag1 \<and>
        (\<forall>i. covers l (1024 * t + s) i \<and> unat index \<le> unat i \<and> unat i < e1 \<longrightarrow>
           walk_levels d1 l (phys_map_nodes d1 n s) i = leaf)"
      by (rule slot_turn [OF l leaf _ Suc.prems(1,2,3,4) s(1,2) False Suc.prems(6) at e1_def _ rm1])
        (erule sub, erule (2) free1)
    then obtain d1 index1 nb1 lev1 tag1 where r:
        "set_slots sub l leaf n (Suc k) (d, index, nb) = set_slots sub l leaf n k (d1, index1, nb1)"
        "unat index1 = e1" "unat nb1 = unat nb - (e1 - unat index)"
        "painted d lev tag l (unat index) e1 (level_cost l (unat index) + level_cost l e1) d1 lev1 tag1"
        "\<forall>i. covers l (1024 * t + s) i \<and> unat index \<le> unat i \<and> unat i < e1 \<longrightarrow>
           walk_levels d1 l (phys_map_nodes d1 n s) i = leaf"
      by blast
    have n1: "n < phys_map_nodes_nb d1" "lev1 n = l" "tag1 n = t"
      using r(4) Suc.prems(2-4) by (auto simp: painted_def)
    have ref: "ref_ok d lev tag l (1024 * t + phys_page_slot i l) (Slot n (phys_page_slot i l))" for i
      using Suc.prems(2-4) by simp
    show ?thesis
    proof (cases "nb1 = 0")
      case True
      then have e: "e1 = e" using r(3) done1 by simp
      show ?thesis
      proof (intro exI conjI allI impI)
        show "set_slots sub l leaf n (Suc k) (d, index, nb) = Some (d1, index1, nb1)"
          unfolding r(1) True by (rule set_slots_0)
        show "walk_levels d1 l (phys_map_nodes d1 n (phys_page_slot i l)) i = leaf"
          if i: "covers (Suc l) t i \<and> unat index \<le> unat i \<and> unat i < e" for i
        proof -
          have "unat i < 1024 ^ l * (1024 * t + s + 1)" "1024 ^ l * (1024 * t + s) \<le> unat i"
            using i at by (auto simp: e [symmetric] e1_def)
          then have "covers l (1024 * t + s) i" by (simp add: covers_range)
          with covers_slot_eq [OF this s1] r(5) i e show ?thesis by auto
        qed
      qed (use r e in auto)
    next
      case more: False
      then have e1: "e1 = 1024 ^ l * (1024 * t + s + 1)" "level_cost l e1 = 0"
        using r(3) cost1 by (auto simp: unat_eq_0 [symmetric] e1_def simp del: unat_eq_0)
      have i1: "unat index1 + unat nb1 = unat index + unat nb" using r(2,3) more e1e by (auto simp: unat_eq_0 [symmetric] e1_def simp del: unat_eq_0)
      have walk1: "walk_levels d1 l (phys_map_nodes d1 n (phys_page_slot i l)) i =
          walk_levels d l (phys_map_nodes d n (phys_page_slot i l)) i"
        if "covers (Suc l) t i" "e1 \<le> unat i" for i
        using paintedD(7) [OF r(4) ref, of i] that covers_slot by simp
      have "\<exists>d' index' nb' lev' tag'. set_slots sub l leaf n k (d1, index1, nb1) = Some (d', index', nb') \<and>
        unat index' = e \<and> unat nb' = unat nb1 - (e - unat index1) \<and>
        painted d1 lev1 tag1 l (unat index1) e (level_cost l (unat index1) + level_cost l e) d' lev' tag' \<and>
        (\<forall>i. covers (Suc l) t i \<and> unat index1 \<le> unat i \<and> unat i < e \<longrightarrow>
          walk_levels d' l (phys_map_nodes d' n (phys_page_slot i l)) i = leaf)"
      proof (rule Suc.IH)
        show "map_ok d1 lev1 tag1" by (rule paintedD(2) [OF r(4)])
        show "unat index1 \<le> 1024 ^ l * (1024 * t + 1024)" using e1e Suc.prems(9) by (simp add: r(2))
        show "1024 ^ l * (1024 * t + (1024 - k)) \<le> unat index1 \<and>
            (k \<noteq> 0 \<longrightarrow> unat index1 < 1024 ^ l * (1024 * t + (1024 - k) + 1))"
          unfolding r(2) e1(1) s(4) by simp
        show "phys_map_nodes_nb d1 + (level_cost l (unat index1) + level_cost l e) \<le> room d1"
          using Suc.prems(11) paintedD(4) [OF r(4)] painted_room [OF r(4)] e1(2) by (simp add: r(2))
        show "walk_levels d1 l (phys_map_nodes d1 n (phys_page_slot i l)) i = 0"
          if "covers (Suc l) t i" "unat index1 \<le> unat i" "unat i < e" for i
          using walk1 [of i] Suc.prems(10) [of i] that e1e r(2) by simp
      qed (use n1 Suc.prems i1 in simp_all)
      then obtain d' index' nb' lev' tag' where f: "set_slots sub l leaf n k (d1, index1, nb1) = Some (d', index', nb')"
        "unat index' = e" "unat nb' = unat nb1 - (e - unat index1)"
        "painted d1 lev1 tag1 l e1 e (level_cost l e1 + level_cost l e) d' lev' tag'"
        "\<forall>i. covers (Suc l) t i \<and> e1 \<le> unat i \<and> unat i < e \<longrightarrow>
          walk_levels d' l (phys_map_nodes d' n (phys_page_slot i l)) i = leaf"
        by (auto simp: r(2))
      show ?thesis
      proof (intro exI conjI allI impI)
        show "set_slots sub l leaf n (Suc k) (d, index, nb) = Some (d', index', nb')" unfolding r(1) by (rule f(1))
        show "unat nb' = unat nb - (e - unat index)" using f(3) r(2,3) e1e by simp
        show "painted d lev tag l (unat index) e (level_cost l (unat index) + level_cost l e) d' lev' tag'"
          using page_painted_trans [OF r(4) f(4)] e1 e1e by simp
        show "walk_levels d' l (phys_map_nodes d' n (phys_page_slot i l)) i = leaf"
          if i: "covers (Suc l) t i \<and> unat index \<le> unat i \<and> unat i < e" for i
        proof (cases "e1 \<le> unat i")
          case True
          then show ?thesis using f(5) i by blast
        next
          case False
          then have "covers l (1024 * t + s) i" using i at e1 by (simp add: covers_range)
          moreover have "ref_ok d1 lev1 tag1 l (1024 * t + s) (Slot n s)" using n1 s1 by simp
          ultimately show ?thesis
            using paintedD(7) [OF f(4), of l "1024 * t + s" "Slot n s" i] covers_slot_eq [of l t s i] s1 False r(5) i by auto
        qed
      qed (use f(2) in auto)
    qed
  qed
qed

text \<open>The code of one level, for any call below.\<close>

lemma level_step:
  assumes l: "l \<le> 3" and leaf: "0 < leaf" "leaf < 2 ^ 15" and sub: "\<And>l'. l = Suc l' \<Longrightarrow> sets_level l' leaf sub"
  shows "sets_level l leaf (\<lambda>lp (d, index, nb). do {
     (d, n) \<leftarrow> level_node d lp l;
     set_slots sub l leaf n (L2_SIZE - phys_page_slot index l) (d, index, nb)
   })"
  unfolding sets_level_def prod.case
proof (intro allI impI, elim conjE)
  fix d lev tag t lp and index nb :: u64
  define a where "a = unat index"
  define e where "e = region_end l t index nb"
  let ?c = "level_cost l a + level_cost l e"
  assume ok: "map_ok d lev tag" and q: "ref_ok d lev tag (Suc l) t lp" and nl: "\<not> is_leaf (read_entry d lp)"
    and cov: "covers (Suc l) t index" and nb: "unat index + unat nb \<le> 2 ^ 40"
    and free: "\<forall>i. covers (Suc l) t i \<and> unat index \<le> unat i \<and> unat i < region_end l t index nb \<longrightarrow>
       walk_levels d (Suc l) (read_entry d lp) i = 0"
    and rm: "phys_map_nodes_nb d + (1 + level_cost l (unat index) + level_cost l (region_end l t index nb)) \<le> room d"
  obtain d1 n lev1 tag1 where n: "level_node d lp l = Some (d1, n)" "painted d lev tag (Suc l) a a 1 d1 lev1 tag1"
    "n < phys_map_nodes_nb d1" "lev1 n = l" "tag1 n = t" "\<not> is_leaf (read_entry d1 lp)" "ptr (read_entry d1 lp) = n"
    by (rule level_node_painted [OF ok q nl]) (use rm in linarith)
  have nil: "n \<noteq> PHYS_MAP_NODE_NIL" using paintedD(2) [OF n(2)] n(3) by (auto simp: map_ok_def)
  have down: "walk_levels d1 (Suc l) (read_entry d1 lp) i = walk_levels d1 l (phys_map_nodes d1 n (phys_page_slot i l)) i" for i
    using n(6,7) nil by simp
  have pe: "1024 ^ Suc l * Suc t = (1024 ^ l * (1024 * t + 1024) :: nat)" by (simp add: algebra_simps)
  have at: "1024 ^ l * (1024 * t + phys_page_slot index l) \<le> unat index"
    "unat index < 1024 ^ l * (1024 * t + phys_page_slot index l + 1)"
    using cov unfolding covers_slot by (auto simp: covers_range)
  have "\<exists>d' index' nb' lev' tag'.
      set_slots sub l leaf n (L2_SIZE - phys_page_slot index l) (d1, index, nb) = Some (d', index', nb') \<and>
      unat index' = e \<and> unat nb' = unat nb - (e - unat index) \<and>
      painted d1 lev1 tag1 l (unat index) e (level_cost l (unat index) + level_cost l e) d' lev' tag' \<and>
      (\<forall>i. covers (Suc l) t i \<and> unat index \<le> unat i \<and> unat i < e \<longrightarrow>
        walk_levels d' l (phys_map_nodes d' n (phys_page_slot i l)) i = leaf)"
  proof (rule set_slots_spec [OF l leaf sub paintedD(2) [OF n(2)] n(3-5) _ nb])
    show "e = min (unat index + unat nb) (1024 ^ l * (1024 * t + 1024))" by (simp only: e_def pe)
    show "unat index \<le> 1024 ^ l * (1024 * t + 1024)" using cov by (simp only: covers_range flip: pe) simp
    show "1024 ^ l * (1024 * t + (1024 - (L2_SIZE - phys_page_slot index l))) \<le> unat index \<and>
        (L2_SIZE - phys_page_slot index l \<noteq> 0 \<longrightarrow>
          unat index < 1024 ^ l * (1024 * t + (1024 - (L2_SIZE - phys_page_slot index l)) + 1))"
      using at slot_less [of index l] by (simp del: slot_less)
    show "walk_levels d1 l (phys_map_nodes d1 n (phys_page_slot i l)) i = 0"
      if i: "covers (Suc l) t i" "unat index \<le> unat i" "unat i < e" for i
      using paintedD(7) [OF n(2) q i(1)] free i by (simp add: down [symmetric] e_def del: walk_levels.simps)
    show "phys_map_nodes_nb d1 + (level_cost l (unat index) + level_cost l e) \<le> room d1"
      using rm paintedD(4) [OF n(2)] painted_room [OF n(2)] by (simp add: e_def)
  qed auto
  then obtain d' index' nb' lev' tag' where f:
    "set_slots sub l leaf n (L2_SIZE - phys_page_slot index l) (d1, index, nb) = Some (d', index', nb')"
    "unat index' = e" "unat nb' = unat nb - (e - a)"
    "painted d1 lev1 tag1 l a e ?c d' lev' tag'"
    "\<forall>i. covers (Suc l) t i \<and> a \<le> unat i \<and> unat i < e \<longrightarrow>
        walk_levels d' l (phys_map_nodes d' n (phys_page_slot i l)) i = leaf"
    by (auto simp: a_def)
  have ae: "a \<le> e" using cov by (simp add: a_def e_def covers_range)
  have "read_entry d' lp = read_entry d1 lp"
    by (rule paintedD(6) [OF f(4) paintedD(5) [OF n(2) q]]) simp
  then have fill: "walk_levels d' (Suc l) (read_entry d' lp) i = walk_levels d' l (phys_map_nodes d' n (phys_page_slot i l)) i" for i
    using n(6,7) nil by simp
  have "painted d lev tag (Suc l) a e (1 + ?c) d' lev' tag'"
    using page_painted_trans [OF n(2) painted_mono [OF f(4), of "Suc l" ?c]] ae by simp
  then show "\<exists>d' index' nb' lev' tag'.
      do { (d, n) \<leftarrow> level_node d lp l; set_slots sub l leaf n (L2_SIZE - phys_page_slot index l) (d, index, nb) }
        = Some (d', index', nb') \<and>
      unat index' = region_end l t index nb \<and> unat nb' = unat nb - (region_end l t index nb - unat index) \<and>
      painted d lev tag (Suc l) (unat index) (region_end l t index nb)
        (1 + level_cost l (unat index) + level_cost l (region_end l t index nb)) d' lev' tag' \<and>
      (\<forall>i. covers (Suc l) t i \<and> unat index \<le> unat i \<and> unat i < region_end l t index nb \<longrightarrow>
        walk_levels d' (Suc l) (read_entry d' lp) i = leaf)"
    using n(1) f unfolding e_def [symmetric] unfolding a_def [symmetric] fill
    by - (rule exI [of _ d'], rule exI [of _ index'], rule exI [of _ nb'], rule exI [of _ lev'],
        rule exI [of _ tag'], simp add: add.assoc fill del: walk_levels.simps)
qed

lemma set_level_spec: "l \<le> 3 \<Longrightarrow> 0 < leaf \<Longrightarrow> leaf < 2 ^ 15 \<Longrightarrow> sets_level l leaf (phys_page_set_level l leaf)"
proof (induction l)
  case 0
  have "phys_page_set_level 0 leaf = (\<lambda>lp (d, index, nb). do {
     (d, n) \<leftarrow> level_node d lp 0;
     set_slots (\<lambda>_ _. None) 0 leaf n (L2_SIZE - phys_page_slot index 0) (d, index, nb)
   })" by (auto simp: fun_eq_iff)
  then show ?case using level_step [of 0 leaf "\<lambda>_ _. None"] 0 by simp
next
  case (Suc l)
  have "phys_page_set_level (Suc l) leaf = (\<lambda>lp (d, index, nb). do {
     (d, n) \<leftarrow> level_node d lp (Suc l);
     set_slots (phys_page_set_level l leaf) (Suc l) leaf n (L2_SIZE - phys_page_slot index (Suc l)) (d, index, nb)
   })" by (auto simp: fun_eq_iff)
  then show ?case using level_step [of "Suc l" leaf "phys_page_set_level l leaf"] Suc by simp
qed

subsection \<open>The map\<close>

definition phys_map_inv :: "phys_dispatch \<Rightarrow> bool" where
  "phys_map_inv d \<longleftrightarrow> (\<exists>lev tag. map_ok d lev tag)"

lemma phys_map_inv_empty: "phys_map d = nil_entry \<Longrightarrow> phys_map_nodes_nb d = 0 \<Longrightarrow> phys_map_inv d"
  by (auto simp: phys_map_inv_def map_ok_def entry_ok_def nil_entry_def)

lemma find_levels: "phys_page_find d i = walk_levels d (Suc 3) (read_entry d Root) i"
  unfolding phys_page_find_def read_entry.simps by (rule arg_cong [where f = "\<lambda>n. walk_levels d n (phys_map d) i"]) simp

lemma find_empty: "phys_map d = nil_entry \<Longrightarrow> phys_page_find d i = 0"
  unfolding find_levels walk_levels.simps(2) by (simp add: nil_entry_def)

text \<open>Both depend only on the three components of the map.\<close>

definition same_map :: "phys_dispatch \<Rightarrow> phys_dispatch \<Rightarrow> bool" where
  "same_map d d' \<longleftrightarrow> phys_map d' = phys_map d \<and> phys_map_nodes d' = phys_map_nodes d \<and>
    phys_map_nodes_nb d' = phys_map_nodes_nb d"

lemma same_map_walk: "same_map d d' \<Longrightarrow> walk_levels d' l e i = walk_levels d l e i"
  by (induction l arbitrary: e) (simp_all add: same_map_def)

lemma same_map_find: "same_map d d' \<Longrightarrow> phys_page_find d' i = phys_page_find d i"
  unfolding phys_page_find_def same_map_walk by (simp add: same_map_def)

lemma same_map_ok: "same_map d d' \<Longrightarrow> map_ok d' lev tag = map_ok d lev tag"
  unfolding same_map_def map_ok_def entry_ok_def by simp

lemma same_map_inv: "same_map d d' \<Longrightarrow> phys_map_inv d' = phys_map_inv d"
  using same_map_ok [of d d'] unfolding phys_map_inv_def by metis

lemma phys_page_set_spec:
  assumes inv: "phys_map_inv d" and leaf: "0 < leaf" "leaf < 2 ^ 15" and nb: "nb \<noteq> 0" "unat index + unat nb \<le> 2 ^ 40"
    and free: "\<And>i. index \<le> i \<Longrightarrow> unat i < unat index + unat nb \<Longrightarrow> phys_page_find d i = 0"
    and rm: "phys_map_nodes_nb d + 7 \<le> PHYS_MAP_NODE_NIL"
  obtains d' where "phys_page_set index nb leaf d = Some d'" "phys_map_inv d'"
    "phys_map_nodes_nb d' \<le> phys_map_nodes_nb d + 7"
    "phys_sections d' = phys_sections d" "phys_sections_nb d' = phys_sections_nb d" "subpages d' = subpages d"
    "next_subpage d' = next_subpage d"
    "\<And>i. unat i < 2 ^ 40 \<Longrightarrow> phys_page_find d' i =
      (if unat index \<le> unat i \<and> unat i < unat index + unat nb then leaf else phys_page_find d i)"
proof -
  obtain lev tag where ok: "map_ok d lev tag" using inv by (auto simp: phys_map_inv_def)
  let ?d = "phys_map_node_reserve 12 d" and ?e = "region_end 3 0 index nb"
  have same: "phys_map ?d = phys_map d" "phys_map_nodes ?d = phys_map_nodes d" "phys_map_nodes_nb ?d = phys_map_nodes_nb d"
    "phys_sections ?d = phys_sections d" "phys_sections_nb ?d = phys_sections_nb d" "subpages ?d = subpages d"
    "next_subpage ?d = next_subpage d" "phys_map_nodes_nb d + 12 \<le> phys_map_nodes_nb_alloc ?d"
    by (simp_all add: phys_map_node_reserve_def Let_def)
  have walk: "walk_levels ?d l e i = walk_levels d l e i" for l e i
    by (induction l arbitrary: e) (auto simp: same)
  have e: "?e = unat index + unat nb" using nb by simp
  have cov: "covers (Suc 3) 0 i \<longleftrightarrow> unat i < 2 ^ 40" for i by (simp add: covers_range)
  have ok': "map_ok ?d lev tag" using ok unfolding map_ok_def entry_ok_def same .
  have nbu: "0 < unat nb" using nb(1) by (simp add: unat_gt_0)
  have pre: "map_ok ?d lev tag \<and> ref_ok ?d lev tag (Suc 3) 0 Root \<and> \<not> is_leaf (read_entry ?d Root) \<and> covers (Suc 3) 0 index \<and>
    unat index + unat nb \<le> 2 ^ 40 \<and>
    (\<forall>i. covers (Suc 3) 0 i \<and> unat index \<le> unat i \<and> unat i < ?e \<longrightarrow>
       walk_levels ?d (Suc 3) (read_entry ?d Root) i = 0) \<and>
    phys_map_nodes_nb ?d + (1 + level_cost 3 (unat index) + level_cost 3 ?e) \<le> room ?d"
  proof (intro conjI allI impI)
    show "walk_levels ?d (Suc 3) (read_entry ?d Root) i = 0"
      if "covers (Suc 3) 0 i \<and> unat index \<le> unat i \<and> unat i < ?e" for i
      using free [of i] that unfolding e find_levels walk by (simp add: same word_le_nat_alt del: walk_levels.simps)
    show "phys_map_nodes_nb ?d + (1 + level_cost 3 (unat index) + level_cost 3 ?e) \<le> room ?d"
      using rm level_cost_le [of 3 "unat index"] level_cost_le [of 3 ?e] same(3,8) by (simp add: room_def)
    show "covers (Suc 3) 0 index" unfolding cov using nb nbu by linarith
  qed (use ok' nb in \<open>auto simp: map_ok_def\<close>)
  from set_level_spec [of 3 leaf, OF _ leaf, unfolded sets_level_def, rule_format, OF _ pre]
  obtain d' index' nb' lev' tag' where r: "phys_page_set_level 3 leaf Root (?d, index, nb) = Some (d', index', nb')"
    "painted ?d lev tag (Suc 3) (unat index) ?e (1 + level_cost 3 (unat index) + level_cost 3 ?e) d' lev' tag'"
    "\<forall>i. covers (Suc 3) 0 i \<and> unat index \<le> unat i \<and> unat i < ?e \<longrightarrow>
       walk_levels d' (Suc 3) (read_entry d' Root) i = leaf"
    by auto
  show ?thesis
  proof (rule that [of d'])
    show "phys_page_set index nb leaf d = Some d'" using r(1) by (simp add: phys_page_set_def)
    show "phys_map_inv d'" using paintedD(2) [OF r(2)] by (auto simp: phys_map_inv_def)
    show "phys_map_nodes_nb d' \<le> phys_map_nodes_nb d + 7"
      using paintedD(4) [OF r(2)] level_cost_le [of 3 "unat index"] level_cost_le [of 3 ?e] by (simp add: same)
    show "phys_sections d' = phys_sections d" "phys_sections_nb d' = phys_sections_nb d" "subpages d' = subpages d"
      "next_subpage d' = next_subpage d"
      using paintedD(1) [OF r(2)] by (simp_all add: only_map_def same)
    show "phys_page_find d' i =
      (if unat index \<le> unat i \<and> unat i < unat index + unat nb then leaf else phys_page_find d i)" if "unat i < 2 ^ 40" for i
    proof (cases "unat index \<le> unat i \<and> unat i < unat index + unat nb")
      case True
      moreover have "covers (Suc 3) 0 i" unfolding cov by (rule that)
      ultimately have "covers (Suc 3) 0 i \<and> unat index \<le> unat i \<and> unat i < ?e" by (simp only: e simp_thms)
      with r(3) have "walk_levels d' (Suc 3) (read_entry d' Root) i = leaf" by blast
      then show ?thesis unfolding if_P [OF True] find_levels .
    next
      case False
      then have "\<not> (unat index \<le> unat i \<and> unat i < ?e)" unfolding e .
      moreover have "covers (Suc 3) 0 i" unfolding cov by (rule that)
      moreover have "ref_ok ?d lev tag (Suc 3) 0 Root" by simp
      ultimately have "walk_levels d' (Suc 3) (read_entry d' Root) i = walk_levels ?d (Suc 3) (read_entry ?d Root) i"
        by (intro paintedD(7) [OF r(2)])
      then have "walk_levels d' (Suc 3) (read_entry d' Root) i = walk_levels d (Suc 3) (read_entry d Root) i"
        unfolding walk read_entry.simps same .
      then show ?thesis unfolding if_not_P [OF False] find_levels .
    qed
  qed
qed

end
