(* ===== verification/PhysMapSec.thy ===== *)
theory PhysMapSec
  imports PhysMapInv
begin

text \<open>
  Entering sections into the dispatch tables. The tables stand for a partial map from addresses to destinations
  (\<open>dispatch_inv\<close>): a region, what is added to the address, and whether writes are ignored. \<open>mem_add\<close> extends
  this map by the section, whatever its alignment; an access then reaches the destination of its address.
\<close>

subsection \<open>Destinations\<close>

type_synonym dest = "mr_ref \<times> u64 \<times> bool"

definition dest_of :: "memory_region_section \<Rightarrow> dest" where
  "dest_of s = (sec_mr s, offset_within_region s - offset_within_address_space s, sec_readonly s)"

lemma dest_take [simp]: "dest_of (section_take n s) = dest_of s"
  by (simp add: dest_of_def section_take_def)

lemma dest_drop [simp]: "dest_of (section_drop n s) = dest_of s"
  by (simp add: dest_of_def section_drop_def)

lemma section_addr_dest: "memory_region_section_addr s a = a + fst (snd (dest_of s))"
  by (simp add: memory_region_section_addr_def dest_of_def algebra_simps)

definition in_section :: "memory_region_section \<Rightarrow> u64 \<Rightarrow> bool" where
  "in_section s a \<longleftrightarrow> unat (offset_within_address_space s) \<le> unat a \<and>
    unat a < unat (offset_within_address_space s) + unat (sec_size s)"

definition add_dest :: "memory_region_section \<Rightarrow> (u64 \<rightharpoonup> dest) \<Rightarrow> (u64 \<rightharpoonup> dest)" where
  "add_dest s \<mu> = (\<lambda>a. if in_section s a then Some (dest_of s) else \<mu> a)"

abbreviation (input) page_of :: "u64 \<Rightarrow> u64" where "page_of a \<equiv> drop_bit 12 a"

subsection \<open>The invariant\<close>

text \<open>Section \<open>i\<close> is right for a byte of a shared page.\<close>

definition byte_ok :: "(nat \<Rightarrow> bool) \<Rightarrow> phys_dispatch \<Rightarrow> dest option \<Rightarrow> nat \<Rightarrow> bool" where
  "byte_ok ram d m i \<longleftrightarrow> i < phys_sections_nb d \<and>
    (case m of None \<Rightarrow> i = 0
     | Some (r, rest) \<Rightarrow> \<exists>r'. dest_of (phys_sections d i) = (r', rest) \<and> (r' = r \<or> is_ram_ref ram r \<and> r' = Io_subpage_ram))"

definition subpage_section :: "nat \<Rightarrow> u64 \<Rightarrow> memory_region_section" where
  "subpage_section k base = \<lparr>sec_mr = Subpage k, offset_within_region = 0, sec_size = PAGE_SIZE,
     offset_within_address_space = base, sec_readonly = False\<rparr>"

text \<open>A page is unassigned, or lies in one section, or is shared.\<close>

definition free_page :: "phys_dispatch \<Rightarrow> (u64 \<rightharpoonup> dest) \<Rightarrow> u64 \<Rightarrow> bool" where
  "free_page d \<mu> p \<longleftrightarrow> phys_page_find d p = 0 \<and> (\<forall>a. page_of a = p \<longrightarrow> \<mu> a = None)"

definition direct_page :: "phys_dispatch \<Rightarrow> (u64 \<rightharpoonup> dest) \<Rightarrow> u64 \<Rightarrow> bool" where
  "direct_page d \<mu> p \<longleftrightarrow> (let s = phys_sections d (phys_page_find d p) in
    (\<exists>n. sec_mr s = Mr n) \<and> (\<forall>a. page_of a = p \<longrightarrow> \<mu> a = Some (dest_of s)))"

definition shared_page :: "(nat \<Rightarrow> bool) \<Rightarrow> phys_dispatch \<Rightarrow> (u64 \<rightharpoonup> dest) \<Rightarrow> u64 \<Rightarrow> nat \<Rightarrow> subpage \<Rightarrow> bool" where
  "shared_page ram d \<mu> p k sp \<longleftrightarrow>
    phys_sections d (phys_page_find d p) = subpage_section k (push_bit 12 p) \<and> subpages d k = Some sp \<and>
    sp_base sp = push_bit 12 p \<and> (\<exists>a. page_of a = p \<and> \<mu> a \<noteq> None) \<and>
    (\<forall>a. page_of a = p \<longrightarrow> byte_ok ram d (\<mu> a) (sub_section sp (unat (a AND PAGE_OFFSET))))"

definition page_ok :: "(nat \<Rightarrow> bool) \<Rightarrow> phys_dispatch \<Rightarrow> (u64 \<rightharpoonup> dest) \<Rightarrow> u64 \<Rightarrow> bool" where
  "page_ok ram d \<mu> p \<longleftrightarrow> phys_page_find d p < phys_sections_nb d \<and>
    (free_page d \<mu> p \<or> direct_page d \<mu> p \<or> (\<exists>k sp. shared_page ram d \<mu> p k sp))"

definition dispatch_inv :: "(nat \<Rightarrow> bool) \<Rightarrow> phys_dispatch \<Rightarrow> (u64 \<rightharpoonup> dest) \<Rightarrow> bool" where
  "dispatch_inv ram d \<mu> \<longleftrightarrow> phys_map_inv d \<and> phys_sections d 0 = dummy_section Io_unassigned \<and>
    0 < phys_sections_nb d \<and> (\<forall>k \<ge> next_subpage d. subpages d k = None) \<and>
    (\<forall>p. unat p < 2 ^ 40 \<longrightarrow> page_ok ram d \<mu> p)"

text \<open>What is left of the tables: \<open>c\<close> more registrations fit.\<close>

definition fits :: "nat \<Rightarrow> phys_dispatch \<Rightarrow> bool" where
  "fits c d \<longleftrightarrow> phys_sections_nb d + 3 * c \<le> 2 ^ 15 \<and> phys_map_nodes_nb d + 7 * c \<le> PHYS_MAP_NODE_NIL"

lemma fits_mono: "fits c d \<Longrightarrow> c' \<le> c \<Longrightarrow> fits c' d"
  by (simp add: fits_def)

text \<open>Pages whose section, shared bytes and destinations are not touched stay right.\<close>

lemma page_ok_frame:
  assumes ok: "page_ok ram d \<mu> p" and find: "phys_page_find d' p = phys_page_find d p"
    and secs: "phys_sections_nb d \<le> phys_sections_nb d'" "\<And>i. i < phys_sections_nb d \<Longrightarrow> phys_sections d' i = phys_sections d i"
    and subs: "\<And>k sp. subpages d k = Some sp \<Longrightarrow> sp_base sp = push_bit 12 p \<Longrightarrow> subpages d' k = Some sp"
    and map: "\<And>a. page_of a = p \<Longrightarrow> \<mu>' a = \<mu> a"
  shows "page_ok ram d' \<mu>' p"
proof -
  have byte: "byte_ok ram d' (\<mu>' a) i" if "page_of a = p" "byte_ok ram d (\<mu> a) i" for a i
    using that secs map by (auto simp: byte_ok_def split: option.splits)
  have i: "phys_page_find d p < phys_sections_nb d" using ok by (simp add: page_ok_def)
  have "free_page d' \<mu>' p" if "free_page d \<mu> p"
    using that map by (simp add: free_page_def find)
  moreover have "direct_page d' \<mu>' p" if "direct_page d \<mu> p"
    using that map secs(2) [OF i] by (simp add: direct_page_def find)
  moreover have "shared_page ram d' \<mu>' p k sp" if "shared_page ram d \<mu> p k sp" for k sp
    using that map byte subs secs(2) [OF i] unfolding shared_page_def find by fastforce
  ultimately show ?thesis using ok i secs(1) unfolding page_ok_def find by fastforce
qed

text \<open>A page with an address that goes nowhere yet is unassigned or shared.\<close>

lemma page_with_gap:
  assumes "page_ok ram d \<mu> p" "page_of a = p" "\<mu> a = None"
  shows "free_page d \<mu> p \<or> (\<exists>k sp. shared_page ram d \<mu> p k sp)"
  using assms by (auto simp: page_ok_def direct_page_def Let_def)

lemma page_free:
  assumes "page_ok ram d \<mu> p" "unat p < 2 ^ 40" "\<And>a. page_of a = p \<Longrightarrow> \<mu> a = None"
  shows "phys_page_find d p = 0"
  using assms(1) assms(3) [of "push_bit 12 p"] assms(3) page_of_start [OF assms(2)]
  by (auto simp: page_ok_def direct_page_def shared_page_def free_page_def Let_def)

subsection \<open>A section of whole pages\<close>

lemma page_in_section:
  assumes "unat (offset_within_address_space s) mod 4096 = 0" "unat (sec_size s) mod 4096 = 0"
  shows "in_section s a \<longleftrightarrow> unat (page_of (offset_within_address_space s)) \<le> unat (page_of a) \<and>
    unat (page_of a) < unat (page_of (offset_within_address_space s)) + unat (page_of (sec_size s))"
proof -
  obtain x y where x: "unat (offset_within_address_space s) = 4096 * x" "unat (sec_size s) = 4096 * y"
    using assms by (metis mod_0_imp_dvd dvdE)
  have "4096 * x \<le> unat a \<longleftrightarrow> x \<le> unat a div 4096" by (simp add: less_eq_div_iff_mult_less_eq mult.commute)
  moreover have "unat a < 4096 * x + 4096 * y \<longleftrightarrow> unat a div 4096 < x + y"
    by (simp add: div_less_iff_less_mult algebra_simps)
  ultimately show ?thesis by (simp add: in_section_def unat_page_number x)
qed

lemma register_multipage_inv:
  assumes inv: "dispatch_inv ram d \<mu>" and fits: "fits (Suc c) d" and mr: "sec_mr s = Mr n"
    and al: "offset_within_address_space s AND PAGE_OFFSET = 0" "sec_size s AND PAGE_OFFSET = 0" "sec_size s \<noteq> 0"
    and top: "unat (offset_within_address_space s) + unat (sec_size s) \<le> 2 ^ 52"
    and new: "\<And>a. in_section s a \<Longrightarrow> \<mu> a = None"
  obtains d' where "register_multipage s d = Some d'" "dispatch_inv ram d' (add_dest s \<mu>)" "fits c d'"
proof -
  define i where "i = phys_sections_nb d"
  define d1 where "d1 = d\<lparr>phys_sections := (phys_sections d)(i := s), phys_sections_nb := Suc i\<rparr>"
  let ?p = "page_of (offset_within_address_space s)" and ?n = "page_of (sec_size s)"
  have i: "0 < i" "i < 2 ^ 15" using inv fits by (auto simp: i_def dispatch_inv_def fits_def)
  have add: "phys_section_add s d = (d1, i)"
    using i by (simp add: phys_section_add_def d1_def i_def take_bit_nat_eq_self)
  have al': "unat (offset_within_address_space s) mod 4096 = 0" "unat (sec_size s) mod 4096 = 0"
    using al by (simp_all add: page_offset_zero)
  note sec = page_in_section [OF al']
  have sm: "same_map d d1" by (simp add: same_map_def d1_def)
  note find1 = same_map_find [OF sm]
  have inv1: "phys_map_inv d1" using inv by (simp add: dispatch_inv_def same_map_inv [OF sm])
  have pn: "?n \<noteq> 0"
  proof
    assume "?n = 0"
    then have "unat (sec_size s) div 4096 = 0" by (metis unat_page_number unat_0)
    with al'(2) have "unat (sec_size s) = 0" by auto
    with al(3) show False by (simp add: unat_eq_0)
  qed
  have pt: "unat ?p + unat ?n \<le> 2 ^ 40"
  proof -
    obtain x y where "unat (offset_within_address_space s) = 4096 * x" "unat (sec_size s) = 4096 * y"
      using al' by (metis mod_0_imp_dvd dvdE)
    then show ?thesis using top by (simp add: unat_page_number)
  qed
  have pfree: "phys_page_find d1 q = 0" if q: "?p \<le> q" "unat q < unat ?p + unat ?n" for q
  proof -
    have q40: "unat q < 2 ^ 40" using q(2) pt by linarith
    have "\<mu> a = None" if "page_of a = q" for a
      using new [of a] that q unfolding sec by (simp add: word_le_nat_alt)
    moreover have "page_ok ram d \<mu> q" using inv q40 by (simp add: dispatch_inv_def)
    ultimately show ?thesis unfolding find1 by (intro page_free [OF _ q40])
  qed
  obtain d' where d': "phys_page_set ?p ?n i d1 = Some d'" "phys_map_inv d'"
    "phys_map_nodes_nb d' \<le> phys_map_nodes_nb d1 + 7"
    "phys_sections d' = phys_sections d1" "phys_sections_nb d' = phys_sections_nb d1" "subpages d' = subpages d1"
    "next_subpage d' = next_subpage d1"
    "\<And>q. unat q < 2 ^ 40 \<Longrightarrow> phys_page_find d' q =
      (if unat ?p \<le> unat q \<and> unat q < unat ?p + unat ?n then i else phys_page_find d1 q)"
    by (rule phys_page_set_spec [OF inv1 i pn pt pfree]) (use fits in \<open>auto simp: fits_def d1_def\<close>)
  show ?thesis
  proof (rule that [of d'])
    show "register_multipage s d = Some d'" using al(3) add d'(1) by (simp add: register_multipage_def)
    show "fits c d'" using fits d'(3,5) by (simp add: fits_def d1_def i_def)
    have "page_ok ram d' (add_dest s \<mu>) q" if q: "unat q < 2 ^ 40" for q
    proof (cases "unat ?p \<le> unat q \<and> unat q < unat ?p + unat ?n")
      case True
      have f: "phys_page_find d' q = i" unfolding d'(8) [OF q] if_P [OF True] ..
      then have s: "phys_sections d' (phys_page_find d' q) = s" by (simp add: d'(4) d1_def)
      have "add_dest s \<mu> a = Some (dest_of s)" if "page_of a = q" for a
        using that True by (simp add: add_dest_def sec)
      then have "direct_page d' (add_dest s \<mu>) q"
        using mr unfolding direct_page_def s Let_def by blast
      with f have "direct_page d' (add_dest s \<mu>) q" "phys_page_find d' q = i" by simp_all
      then show ?thesis using d'(5) by (simp add: page_ok_def d1_def)
    next
      case False
      show ?thesis
      proof (rule page_ok_frame)
        show "page_ok ram d \<mu> q" using inv q by (simp add: dispatch_inv_def)
        show "phys_page_find d' q = phys_page_find d q" unfolding d'(8) [OF q] find1 if_not_P [OF False] ..
        show "add_dest s \<mu> a = \<mu> a" if "page_of a = q" for a
          using that False unfolding add_dest_def sec by auto
      qed (simp_all add: d'(4-6) d1_def i_def)
    qed
    then show "dispatch_inv ram d' (add_dest s \<mu>)"
      using inv d' i by (auto simp: dispatch_inv_def d1_def i_def)
  qed
qed

subsection \<open>A section on a shared page\<close>

text \<open>A shared page that may still be empty, while all other pages are in order.\<close>

definition shared_at :: "(nat \<Rightarrow> bool) \<Rightarrow> phys_dispatch \<Rightarrow> (u64 \<rightharpoonup> dest) \<Rightarrow> u64 \<Rightarrow> nat \<Rightarrow> subpage \<Rightarrow> bool" where
  "shared_at ram d \<mu> p k sp \<longleftrightarrow>
    phys_map_inv d \<and> phys_sections d 0 = dummy_section Io_unassigned \<and> (\<forall>k \<ge> next_subpage d. subpages d k = None) \<and>
    (\<forall>q. unat q < 2 ^ 40 \<and> q \<noteq> p \<longrightarrow> page_ok ram d \<mu> q) \<and>
    phys_page_find d p < phys_sections_nb d \<and>
    phys_sections d (phys_page_find d p) = subpage_section k (push_bit 12 p) \<and> subpages d k = Some sp \<and>
    sp_base sp = push_bit 12 p \<and>
    (\<forall>a. page_of a = p \<longrightarrow> byte_ok ram d (\<mu> a) (sub_section sp (unat (a AND PAGE_OFFSET))))"

lemma subpage_at_inv:
  assumes inv: "dispatch_inv ram d \<mu>" and p: "unat p < 2 ^ 40" and gap: "page_of a = p" "\<mu> a = None"
    and fits: "fits (Suc c) d"
  obtains d' k sp where "subpage_at ram (push_bit 12 p) d = Some (d', k)" "shared_at ram d' \<mu> p k sp"
    "phys_sections_nb d' \<le> Suc (phys_sections_nb d)" "phys_map_nodes_nb d' \<le> phys_map_nodes_nb d + 7"
proof -
  have ok: "page_ok ram d \<mu> p" using inv p by (simp add: dispatch_inv_def)
  then have idx: "phys_page_find d p < phys_sections_nb d" by (simp add: page_ok_def)
  consider (shared) k sp where "shared_page ram d \<mu> p k sp" | (free) "free_page d \<mu> p"
    using page_with_gap [OF ok gap] by blast
  then show ?thesis
  proof cases
    case shared
    then have "subpage_at ram (push_bit 12 p) d = Some (d, k)"
      by (simp add: subpage_at_def shared_page_def page_of_start [OF p] subpage_section_def)
    moreover have "shared_at ram d \<mu> p k sp"
      using shared inv idx by (auto simp: shared_at_def shared_page_def dispatch_inv_def)
    ultimately show ?thesis by (rule that) simp_all
  next
    case free
    define k where "k = next_subpage d"
    define i where "i = phys_sections_nb d"
    define base where "base = (push_bit 12 p :: u64)"
    define sp where "sp = \<lparr>sp_base = base, sub_section = \<lambda>_. 0\<rparr>"
    define d1 where "d1 = d\<lparr>next_subpage := Suc k, subpages := (subpages d)(k \<mapsto> sp)\<rparr>"
    define d2 where "d2 = d1\<lparr>phys_sections := (phys_sections d)(i := subpage_section k base), phys_sections_nb := Suc i\<rparr>"
    have i: "0 < i" "i < 2 ^ 15" using inv fits by (auto simp: i_def dispatch_inv_def fits_def)
    have unas: "sec_mr (phys_sections d 0) = Io_unassigned" using inv by (simp add: dispatch_inv_def dummy_section_def)
    have sp0: "fill_subpage 0 4095 0 sp = sp" by (auto simp: fill_subpage_def sp_def)
    have init: "subpage_init ram base d = Some (d1, k)"
      using unas by (simp add: subpage_init_def subpage_register_def is_ram_ref_def sp0 d1_def k_def Let_def
          flip: sp_def)
    have add: "phys_section_add (subpage_section k base) d1 = (d2, i)"
      using i by (simp add: phys_section_add_def d2_def d1_def i_def take_bit_nat_eq_self)
    have sm: "same_map d d2" by (simp add: same_map_def d2_def d1_def)
    have inv2: "phys_map_inv d2" using inv by (simp add: dispatch_inv_def same_map_inv [OF sm])
    have free2: "phys_page_find d2 q = 0" if "p \<le> q" "unat q < unat p + unat (1 :: u64)" for q
    proof -
      from that have "unat q = unat p" by (simp add: word_le_nat_alt)
      then have "q = p" by (simp add: word_unat_eq_iff)
      then show ?thesis using free by (simp add: same_map_find [OF sm] free_page_def)
    qed
    have one: "(1 :: u64) \<noteq> 0" "unat p + unat (1 :: u64) \<le> 2 ^ 40" using p by simp_all
    have room2: "phys_map_nodes_nb d2 + 7 \<le> PHYS_MAP_NODE_NIL" using fits by (simp add: fits_def d2_def d1_def)
    obtain d' where d': "phys_page_set p 1 i d2 = Some d'" "phys_map_inv d'"
      "phys_map_nodes_nb d' \<le> phys_map_nodes_nb d2 + 7"
      "phys_sections d' = phys_sections d2" "phys_sections_nb d' = phys_sections_nb d2" "subpages d' = subpages d2"
      "next_subpage d' = next_subpage d2"
      "\<And>q. unat q < 2 ^ 40 \<Longrightarrow> phys_page_find d' q =
        (if unat p \<le> unat q \<and> unat q < unat p + unat (1 :: u64) then i else phys_page_find d2 q)"
      by (rule phys_page_set_spec [OF inv2 i one free2 room2]) simp_all
    have fp: "phys_page_find d' p = i" unfolding d'(8) [OF p] by simp
    have fq: "phys_page_find d' q = phys_page_find d q" if "unat q < 2 ^ 40" "q \<noteq> p" for q
    proof -
      have "unat q \<noteq> unat p" using that(2) by (simp add: word_unat_eq_iff)
      then have "\<not> (unat p \<le> unat q \<and> unat q < unat p + unat (1 :: u64))" by auto
      then show ?thesis unfolding d'(8) [OF that(1)] same_map_find [OF sm] by (rule if_not_P)
    qed
    have fresh: "subpages d k = None" using inv by (simp add: dispatch_inv_def k_def)
    have others: "page_ok ram d' \<mu> q" if "unat q < 2 ^ 40" "q \<noteq> p" for q
    proof (rule page_ok_frame [OF _ fq [OF that]])
      show "page_ok ram d \<mu> q" using inv that by (simp add: dispatch_inv_def)
      show "subpages d' k' = Some sp'" if "subpages d k' = Some sp'" for k' sp'
        using that fresh by (auto simp: d'(6) d2_def d1_def)
    qed (simp_all add: d'(4,5) d2_def d1_def i_def)
    have "byte_ok ram d' (\<mu> a) 0" if "page_of a = p" for a
      using free that i by (simp add: free_page_def byte_ok_def d'(5) d2_def)
    then have "shared_at ram d' \<mu> p k sp"
      using others inv i unfolding shared_at_def fp d'(4-7)
      by (auto simp: d'(2) d2_def d1_def sp_def base_def k_def dispatch_inv_def)
    moreover have "subpage_at ram base d = Some (d', k)"
      using free unas init add d'(1)
      by (simp add: subpage_at_def free_page_def base_def page_of_start [OF p] subpage_section_def)
    ultimately show ?thesis using d'(3,5)
      by (intro that [of d' k sp]) (simp_all add: base_def d2_def d1_def i_def)
  qed
qed

lemma subpage_fill_inv:
  assumes shared: "shared_at ram d1 \<mu> p k sp" and room: "phys_sections_nb d1 + 2 \<le> 2 ^ 15" and mr: "sec_mr s = Mr n"
    and pa: "p = page_of (offset_within_address_space s)"
    and size: "sec_size s \<noteq> 0" "unat (offset_within_address_space s AND PAGE_OFFSET) + unat (sec_size s) \<le> 4096"
    and top: "unat (offset_within_address_space s) < 2 ^ 52"
    and new: "\<And>a. in_section s a \<Longrightarrow> \<mu> a = None"
  obtains d' where "subpage_fill ram s k d1 = Some d'" "dispatch_inv ram d' (add_dest s \<mu>)"
    "phys_sections_nb d' \<le> phys_sections_nb d1 + 2" "phys_map_nodes_nb d' = phys_map_nodes_nb d1"
proof -
  define a0 where "a0 = offset_within_address_space s"
  have p_def: "p = page_of a0" by (simp add: pa a0_def)
  define start where "start = a0 AND PAGE_OFFSET"
  define end' where "end' = start + sec_size s - 1"
  have p: "unat p < 2 ^ 40" using top by (simp add: p_def a0_def unat_page_number)
  have base: "a0 AND NOT PAGE_OFFSET = push_bit 12 p" using page_start [of a0] by (simp add: p_def)
  have sz: "0 < unat (sec_size s)" using size(1) by (simp add: unat_gt_0)
  have st: "unat start < 4096" "unat start + unat (sec_size s) \<le> 4096" using size(2) by (simp_all add: start_def a0_def low_less)
  have e: "unat end' = unat start + unat (sec_size s) - 1"
    using st sz unat_add_64 [of start "sec_size s"] unat_sub_64 [of 1 "start + sec_size s"] by (simp add: end'_def)
  have sec: "in_section s a \<longleftrightarrow> page_of a = p \<and> unat start \<le> unat (a AND PAGE_OFFSET) \<and> unat (a AND PAGE_OFFSET) \<le> unat end'" for a
  proof
    assume "in_section s a"
    then have r: "unat a0 \<le> unat a" "unat a < unat a0 + unat (sec_size s)" by (simp_all add: in_section_def a0_def)
    have a0: "unat a0 = 4096 * unat p + unat start" unfolding start_def by (rule unat_in_page) (simp add: p_def)
    have "unat a div 4096 = unat p"
      using r st unfolding a0 by (intro div_nat_eqI) auto
    then have "page_of a = p" using unat_page_number [of a] by (simp add: word_unat_eq_iff)
    then show "page_of a = p \<and> unat start \<le> unat (a AND PAGE_OFFSET) \<and> unat (a AND PAGE_OFFSET) \<le> unat end'"
      using unat_in_page [of a p] r a0 e by simp
  next
    assume r: "page_of a = p \<and> unat start \<le> unat (a AND PAGE_OFFSET) \<and> unat (a AND PAGE_OFFSET) \<le> unat end'"
    have "unat a0 = 4096 * unat p + unat start" unfolding start_def by (rule unat_in_page) (simp add: p_def)
    then show "in_section s a" using r unat_in_page [of a p] e sz by (auto simp: in_section_def a0_def)
  qed
  have "in_section s a0" using sz by (simp add: in_section_def a0_def)
  then have gap: "page_of a0 = p" "\<mu> a0 = None" using new by (simp_all add: p_def)
  define i where "i = phys_sections_nb d1"
  define d2 where "d2 = d1\<lparr>phys_sections := (phys_sections d1)(i := s), phys_sections_nb := Suc i\<rparr>"
  define s2 where "s2 = s\<lparr>sec_mr := Io_subpage_ram\<rparr>"
  define j where "j = (if ram n then Suc i else i)"
  define d3 where "d3 = (if ram n then d2\<lparr>phys_sections := (phys_sections d2)(j := s2), phys_sections_nb := Suc j\<rparr> else d2)"
  define sp' where "sp' = fill_subpage (unat start) (unat end') j sp"
  define d' where "d' = d3\<lparr>subpages := (subpages d3)(k \<mapsto> sp')\<rparr>"
  have i: "Suc i < 2 ^ 15" using room by (simp add: i_def)
  have add: "phys_section_add s d1 = (d2, i)" "ram n \<Longrightarrow> phys_section_add s2 d2 = (d3, j)"
    using i by (simp_all add: phys_section_add_def d2_def d3_def j_def i_def take_bit_nat_eq_self)
  have ram2: "is_ram_ref ram (sec_mr (phys_sections d2 i)) = ram n" using mr by (simp add: d2_def is_ram_ref_def)
  have small: "unat (ucast start :: u32) = unat start" "unat (ucast end' :: u32) = unat end'"
    using st e sz by (simp_all add: unsigned_ucast_eq take_bit_nat_eq_self)
  have "subpage_register ram k (ucast start) (ucast end') i d2 = Some d'"
  proof -
    have "\<not> ((ucast start :: u32) \<ge> 0x1000 \<or> (ucast end' :: u32) \<ge> 0x1000)"
      using st e sz by (simp add: word_le_nat_alt small)
    moreover have "subpages d2 k = Some sp" using shared by (simp add: d2_def shared_at_def)
    moreover have "phys_sections d2 i = s" by (simp add: d2_def)
    ultimately show ?thesis
      using add(2) ram2 by (cases "ram n")
        (simp_all add: subpage_register_def small d'_def sp'_def d3_def j_def s2_def)
  qed
  then have run: "subpage_fill ram s k d1 = Some d'"
    using add(1) unfolding subpage_fill_def Let_def a0_def [symmetric] start_def [symmetric] end'_def [symmetric] by simp
  from shared have sh: "phys_map_inv d1" "phys_sections d1 0 = dummy_section Io_unassigned"
    "\<And>k. next_subpage d1 \<le> k \<Longrightarrow> subpages d1 k = None" "\<And>q. unat q < 2 ^ 40 \<Longrightarrow> q \<noteq> p \<Longrightarrow> page_ok ram d1 \<mu> q"
    "phys_page_find d1 p < i" "phys_sections d1 (phys_page_find d1 p) = subpage_section k (push_bit 12 p)"
    "subpages d1 k = Some sp" "sp_base sp = push_bit 12 p"
    "\<And>a. page_of a = p \<Longrightarrow> byte_ok ram d1 (\<mu> a) (sub_section sp (unat (a AND PAGE_OFFSET)))"
    by (auto simp: shared_at_def i_def)
  have sm: "same_map d1 d'" by (simp add: same_map_def d'_def d3_def d2_def)
  have nb: "phys_sections_nb d' = Suc j" "i \<le> j" by (simp_all add: d'_def d3_def d2_def j_def)
  have old: "phys_sections d' m = phys_sections d1 m" if "m < i" for m
    using that by (simp add: d'_def d3_def d2_def j_def)
  have dj: "dest_of (phys_sections d' j) = (if ram n then Io_subpage_ram else Mr n, snd (dest_of s))"
    using mr by (simp add: d'_def d3_def d2_def j_def s2_def dest_of_def)
  have byte: "byte_ok ram d' (add_dest s \<mu> a) (sub_section sp' (unat (a AND PAGE_OFFSET)))" if "page_of a = p" for a
  proof (cases "in_section s a")
    case True
    then have "sub_section sp' (unat (a AND PAGE_OFFSET)) = j" by (simp add: sec sp'_def fill_subpage_def)
    then show ?thesis using True dj nb mr
      by (auto simp: byte_ok_def add_dest_def dest_of_def is_ram_ref_def split: option.splits)
  next
    case False
    then have "sub_section sp' (unat (a AND PAGE_OFFSET)) = sub_section sp (unat (a AND PAGE_OFFSET))"
      using that by (auto simp: sec sp'_def fill_subpage_def)
    then show ?thesis using False sh(9) [OF that] nb old
      by (auto simp: byte_ok_def add_dest_def i_def [symmetric] split: option.splits)
  qed
  have "shared_page ram d' (add_dest s \<mu>) p k sp'"
  proof -
    have "add_dest s \<mu> a0 \<noteq> None" using \<open>in_section s a0\<close> by (simp add: add_dest_def)
    moreover have "sp_base sp' = push_bit 12 p" using sh(8) by (simp add: sp'_def fill_subpage_def)
    ultimately show ?thesis using sh(5,6) gap(1) byte unfolding shared_page_def same_map_find [OF sm]
      by (auto simp: old) (simp add: d'_def)
  qed
  then have here: "page_ok ram d' (add_dest s \<mu>) p"
    using sh(5) nb by (auto simp: page_ok_def same_map_find [OF sm])
  have "page_ok ram d' (add_dest s \<mu>) q" if "unat q < 2 ^ 40" "q \<noteq> p" for q
  proof (rule page_ok_frame [OF sh(4) [OF that] same_map_find [OF sm]])
    show "phys_sections d' m = phys_sections d1 m" if "m < phys_sections_nb d1" for m
      using old that by (simp add: i_def)
    show "add_dest s \<mu> a = \<mu> a" if "page_of a = q" for a
      using that \<open>q \<noteq> p\<close> by (auto simp: add_dest_def sec)
    show "subpages d' k' = Some sp2" if "subpages d1 k' = Some sp2" "sp_base sp2 = push_bit 12 q" for k' sp2
    proof -
      have "k' \<noteq> k"
      proof
        assume "k' = k"
        with that sh(7,8) have "(push_bit 12 q :: u64) = push_bit 12 p" by simp
        with page_of_start [of q] page_of_start [of p] p \<open>unat q < 2 ^ 40\<close> \<open>q \<noteq> p\<close> show False by metis
      qed
      then show ?thesis using that(1) by (simp add: d'_def d3_def d2_def)
    qed
  qed (use nb in \<open>simp add: i_def\<close>)
  then have pages: "page_ok ram d' (add_dest s \<mu>) q" if "unat q < 2 ^ 40" for q
    using here that by (cases "q = p") auto
  have fresh: "subpages d' k' = None" if "next_subpage d' \<le> k'" for k'
  proof -
    have "subpages d1 k' = None" using that by (intro sh(3)) (simp add: d'_def d3_def d2_def split: if_splits)
    then show ?thesis using sh(7) by (auto simp: d'_def d3_def d2_def)
  qed
  have "dispatch_inv ram d' (add_dest s \<mu>)"
    using sh(1,2,5) pages fresh nb old [of 0] by (simp add: dispatch_inv_def same_map_inv [OF sm])
  moreover have "phys_sections_nb d' \<le> phys_sections_nb d1 + 2" using nb(1) by (simp add: j_def i_def)
  ultimately show ?thesis using run sm by (intro that [of d']) (simp_all add: same_map_def)
qed

lemma register_subpage_inv:
  assumes inv: "dispatch_inv ram d \<mu>" and fits: "fits (Suc c) d" and mr: "sec_mr s = Mr n"
    and size: "sec_size s \<noteq> 0" "unat (offset_within_address_space s AND PAGE_OFFSET) + unat (sec_size s) \<le> 4096"
    and top: "unat (offset_within_address_space s) < 2 ^ 52"
    and new: "\<And>a. in_section s a \<Longrightarrow> \<mu> a = None"
  obtains d' where "register_subpage ram s d = Some d'" "dispatch_inv ram d' (add_dest s \<mu>)" "fits c d'"
proof -
  let ?a = "offset_within_address_space s"
  have p: "unat (page_of ?a) < 2 ^ 40" using top by (simp add: unat_page_number)
  have "in_section s ?a" using size(1) by (simp add: in_section_def unat_gt_0)
  then have gap: "\<mu> ?a = None" by (rule new)
  obtain d1 k sp where d1: "subpage_at ram (push_bit 12 (page_of ?a)) d = Some (d1, k)" "shared_at ram d1 \<mu> (page_of ?a) k sp"
    "phys_sections_nb d1 \<le> Suc (phys_sections_nb d)" "phys_map_nodes_nb d1 \<le> phys_map_nodes_nb d + 7"
    by (rule subpage_at_inv [OF inv p refl gap fits])
  have room: "phys_sections_nb d1 + 2 \<le> 2 ^ 15" using d1(3) fits by (simp add: fits_def)
  obtain d' where d': "subpage_fill ram s k d1 = Some d'" "dispatch_inv ram d' (add_dest s \<mu>)"
    "phys_sections_nb d' \<le> phys_sections_nb d1 + 2" "phys_map_nodes_nb d' = phys_map_nodes_nb d1"
    by (rule subpage_fill_inv [OF d1(2) room mr refl size top new])
  have "register_subpage ram s d = Some d'" using d1(1) d'(1) page_start [of ?a] by (simp add: register_subpage_def)
  moreover have "fits c d'" using fits d1(3,4) d'(3,4) by (simp add: fits_def)
  ultimately show ?thesis using d'(2) by (intro that)
qed

text \<open>
  For a section of less than a page that begins a page, \<open>mem_add\<close> first registers a part without bytes, which makes
  the shared page.
\<close>

lemma register_nothing:
  assumes inv: "dispatch_inv ram d \<mu>" and fits: "fits (Suc c) d" and size: "sec_size s = 0"
    and al: "offset_within_address_space s AND PAGE_OFFSET = 0" and top: "unat (offset_within_address_space s) < 2 ^ 52"
    and gap: "\<mu> (offset_within_address_space s) = None"
  obtains d1 k sp where "register_subpage ram s d = Some d1"
    "shared_at ram d1 \<mu> (page_of (offset_within_address_space s)) k sp"
    "phys_sections_nb d1 \<le> phys_sections_nb d + 2" "phys_map_nodes_nb d1 \<le> phys_map_nodes_nb d + 7"
proof -
  let ?a = "offset_within_address_space s"
  have p: "unat (page_of ?a) < 2 ^ 40" using top by (simp add: unat_page_number)
  obtain d1 k sp where d1: "subpage_at ram (push_bit 12 (page_of ?a)) d = Some (d1, k)" "shared_at ram d1 \<mu> (page_of ?a) k sp"
    "phys_sections_nb d1 \<le> Suc (phys_sections_nb d)" "phys_map_nodes_nb d1 \<le> phys_map_nodes_nb d + 7"
    by (rule subpage_at_inv [OF inv p refl gap fits])
  define d2 where "d2 = fst (phys_section_add s d1)"
  have d2: "phys_sections_nb d2 = Suc (phys_sections_nb d1)" "same_map d1 d2" "subpages d2 = subpages d1"
    "next_subpage d2 = next_subpage d1" "\<And>i. i < phys_sections_nb d1 \<Longrightarrow> phys_sections d2 i = phys_sections d1 i"
    by (simp_all add: d2_def phys_section_add_def same_map_def)
  have "subpage_fill ram s k d1 = Some d2"
  proof -
    have "(ucast (- 1 :: u64) :: u32) = - 1" by (rule bit_word_eqI) (simp add: bit_simps)
    then have "0x1000 \<le> (ucast (- 1 :: u64) :: u32)" by simp
    then show ?thesis
      by (simp add: subpage_fill_def subpage_register_def d2_def size al [simplified] Let_def split_beta)
  qed
  then have "register_subpage ram s d = Some d2" using d1(1) page_start [of ?a] by (simp add: register_subpage_def)
  moreover have "shared_at ram d2 \<mu> (page_of ?a) k sp"
  proof -
    have "page_ok ram d2 \<mu> q" if "page_ok ram d1 \<mu> q" for q
      by (rule page_ok_frame [OF that same_map_find [OF d2(2)]]) (simp_all add: d2)
    moreover have "byte_ok ram d2 m i" if "byte_ok ram d1 m i" for m i
      using that d2(1,5) by (auto simp: byte_ok_def split: option.splits)
    ultimately show ?thesis
      using d1(2) d2 unfolding shared_at_def same_map_find [OF d2(2)] same_map_inv [OF d2(2)] by fastforce
  qed
  ultimately show ?thesis using d1(3,4) d2(1,2) by (intro that [of d2 k sp]) (simp_all add: same_map_def)
qed

lemma subpage_at_shared: "shared_at ram d \<mu> p k sp \<Longrightarrow> unat p < 2 ^ 40 \<Longrightarrow> subpage_at ram (push_bit 12 p) d = Some (d, k)"
  by (simp add: subpage_at_def shared_at_def page_of_start subpage_section_def)

subsection \<open>The listener\<close>

text \<open>How often a section, or the rest of one, is registered at most.\<close>

definition rest_cost :: "memory_region_section \<Rightarrow> nat" where
  "rest_cost s = (if sec_size s = 0 then 0 else if sec_size s < PAGE_SIZE then 1
     else if offset_within_region s AND PAGE_OFFSET = 0 then 2 else unat (sec_size s) div 4096 + 1)"

definition section_cost :: "memory_region_section \<Rightarrow> nat" where
  "section_cost s = (if (offset_within_region s - offset_within_address_space s) AND PAGE_OFFSET = 0 then 3
     else unat (sec_size s) div 4096 + 2)"

lemma in_section_split:
  assumes "n \<le> sec_size s" "unat (offset_within_address_space s) + unat (sec_size s) < 2 ^ 64"
  shows "in_section s a \<longleftrightarrow> in_section (section_take n s) a \<or> in_section (section_drop n s) a"
proof -
  have "unat (offset_within_address_space s + n) = unat (offset_within_address_space s) + unat n"
    "unat (sec_size s - n) = unat (sec_size s) - unat n" "unat n \<le> unat (sec_size s)"
    using assms by (simp_all add: unat_add_64 unat_sub_64 word_le_nat_alt)
  then show ?thesis by (auto simp: in_section_def section_take_def section_drop_def)
qed

lemma add_dest_split:
  assumes "n \<le> sec_size s" "unat (offset_within_address_space s) + unat (sec_size s) < 2 ^ 64"
  shows "add_dest (section_drop n s) (add_dest (section_take n s) \<mu>) = add_dest s \<mu>"
  using in_section_split [OF assms] by (auto simp: add_dest_def fun_eq_iff)

lemma parts_disjoint:
  assumes "n \<le> sec_size s" "unat (offset_within_address_space s) + unat (sec_size s) < 2 ^ 64"
  shows "in_section (section_drop n s) a \<Longrightarrow> \<not> in_section (section_take n s) a"
proof -
  have "unat (offset_within_address_space s + n) = unat (offset_within_address_space s) + unat n"
    using assms by (simp add: unat_add_64 word_le_nat_alt)
  then show "in_section (section_drop n s) a \<Longrightarrow> \<not> in_section (section_take n s) a"
    by (simp add: in_section_def section_take_def section_drop_def)
qed

lemma section_parts [simp]:
  "offset_within_address_space (section_take n s) = offset_within_address_space s" "sec_size (section_take n s) = n"
  "sec_mr (section_take n s) = sec_mr s" "sec_mr (section_drop n s) = sec_mr s" "sec_size (section_drop n s) = sec_size s - n"
  "offset_within_address_space (section_drop n s) = offset_within_address_space s + n"
  "offset_within_region (section_drop n s) = offset_within_region s + n"
  "offset_within_region (section_take n s) = offset_within_region s"
  by (simp_all add: section_take_def section_drop_def)

declare mem_add_pages.simps [simp del]

lemma parts_new:
  assumes n: "n \<le> sec_size s" "unat (offset_within_address_space s) + unat (sec_size s) \<le> 2 ^ 52"
    and new: "\<And>a. in_section s a \<Longrightarrow> \<mu> a = None"
  shows "in_section (section_take n s) a \<Longrightarrow> \<mu> a = None"
    and "in_section (section_drop n s) a \<Longrightarrow> add_dest (section_take n s) \<mu> a = None"
proof -
  have b: "unat (offset_within_address_space s) + unat (sec_size s) < 2 ^ 64" using n(2) by simp
  note split = in_section_split [OF n(1) b] parts_disjoint [OF n(1) b]
  show "in_section (section_take n s) a \<Longrightarrow> \<mu> a = None" using split(1) new by blast
  show "in_section (section_drop n s) a \<Longrightarrow> add_dest (section_take n s) \<mu> a = None"
    using split new [of a] by (simp add: add_dest_def)
qed

lemma add_dest_empty: "sec_size s = 0 \<Longrightarrow> add_dest s \<mu> = \<mu>"
  by (auto simp: add_dest_def in_section_def fun_eq_iff)

lemma unat_add_low: "unat ((a :: u64) + n) mod 4096 = (unat a mod 4096 + unat n mod 4096) mod 4096"
proof -
  have "unat (a + n) mod 4096 = (unat a + unat n) mod 2 ^ 64 mod 4096" by (simp add: unat_word_ariths)
  also have "\<dots> = (unat a + unat n) mod 4096" by (rule mod_mod_cancel) simp
  finally show ?thesis by (simp add: mod_add_eq)
qed

lemma aligned_add: "(a :: u64) AND 0xFFF = 0 \<Longrightarrow> n AND 0xFFF = 0 \<Longrightarrow> (a + n) AND 0xFFF = 0"
  by (simp add: page_offset_zero unat_add_low)

lemma aligned_step: "((a :: u64) + 0x1000) AND 0xFFF = a AND 0xFFF"
  by (simp add: word_unat_eq_iff unat_low unat_add_low)

lemma aligned_diff: "(a :: u64) AND 0xFFF = 0 \<Longrightarrow> (x - a) AND 0xFFF = 0 \<longleftrightarrow> x AND 0xFFF = 0"
  using unat_add_low [of "x - a" a] by (simp add: page_offset_zero)

lemma page_part_aligned: "((n :: u64) AND - 4096) AND 0xFFF = 0"
  by (simp add: page_offset_zero unat_page)

lemma mem_add_pages_inv:
  assumes "dispatch_inv ram d \<mu>" "fits (rest_cost s + c) d" "sec_mr s = Mr n"
    "offset_within_address_space s AND PAGE_OFFSET = 0 \<or> sec_size s = 0"
    "unat (offset_within_address_space s) + unat (sec_size s) \<le> 2 ^ 52" "\<And>a. in_section s a \<Longrightarrow> \<mu> a = None"
  shows "\<exists>d'. mem_add_pages ram s d = Some d' \<and> dispatch_inv ram d' (add_dest s \<mu>) \<and> fits c d'"
  using assms
proof (induction ram s d arbitrary: \<mu> rule: mem_add_pages.induct)
  case (1 ram s d)
  note inv = 1(3) and fit = 1(4) and mr = 1(5) and al = 1(6) and top = 1(7) and new = 1(8)
  have b: "unat (offset_within_address_space s) + unat (sec_size s) < 2 ^ 64" using top by simp
  have unfold: "mem_add_pages ram s d =
    (if sec_size s \<ge> PAGE_SIZE then
       if offset_within_region s AND PAGE_OFFSET \<noteq> 0
       then Option.bind (register_subpage ram (section_take PAGE_SIZE s) d) (mem_add_pages ram (section_drop PAGE_SIZE s))
       else Option.bind (register_multipage (section_take (sec_size s AND NOT PAGE_OFFSET) s) d)
         (mem_add_pages ram (section_drop (sec_size s AND NOT PAGE_OFFSET) s))
     else if sec_size s \<noteq> 0 then register_subpage ram s d else Some d)"
    by (simp add: mem_add_pages.simps [of ram s d] Let_def)
  consider (sub) "sec_size s \<ge> PAGE_SIZE" "offset_within_region s AND PAGE_OFFSET \<noteq> 0"
    | (multi) "sec_size s \<ge> PAGE_SIZE" "offset_within_region s AND PAGE_OFFSET = 0"
    | (last) "\<not> sec_size s \<ge> PAGE_SIZE" "sec_size s \<noteq> 0" | (empty) "sec_size s = 0"
    by fastforce
  then show ?case
  proof cases
    case empty
    then show ?thesis using inv fit unfold by (simp add: add_dest_empty rest_cost_def)
  next
    case last
    have f: "fits (Suc c) d" using fit last by (simp add: rest_cost_def not_le)
    have pg: "unat (offset_within_address_space s AND PAGE_OFFSET) + unat (sec_size s) \<le> 4096"
      using last al by (simp add: word_le_nat_alt)
    have "0 < unat (sec_size s)" using last by (simp add: unat_gt_0)
    then have t: "unat (offset_within_address_space s) < 2 ^ 52" using top by linarith
    obtain d' where "register_subpage ram s d = Some d'" "dispatch_inv ram d' (add_dest s \<mu>)" "fits c d'"
      by (rule register_subpage_inv [OF inv f mr last(2) pg t new])
    then show ?thesis using unfold last by simp
  next
    case sub
    let ?t = "section_take PAGE_SIZE s" and ?r = "section_drop PAGE_SIZE s"
    have sz: "4096 \<le> unat (sec_size s)" using sub(1) by (simp add: word_le_nat_alt)
    have al': "offset_within_address_space s AND PAGE_OFFSET = 0" using al sz by auto
    have cost: "Suc (rest_cost ?r) \<le> rest_cost s"
    proof -
      have "unat (sec_size s - PAGE_SIZE) div 4096 = unat (sec_size s) div 4096 - 1"
        using sz by (simp add: unat_sub_64 div_diff)
      moreover have "1 \<le> unat (sec_size s) div 4096" using div_le_mono [OF sz, of 4096] by simp
      ultimately show ?thesis using sub by (auto simp: rest_cost_def aligned_step)
    qed
    have f1: "fits (Suc (rest_cost ?r + c)) d" using fits_mono [OF fit] cost by simp
    obtain d1 where d1: "register_subpage ram ?t d = Some d1" "dispatch_inv ram d1 (add_dest ?t \<mu>)" "fits (rest_cost ?r + c) d1"
    proof (rule register_subpage_inv [OF inv f1])
      show "\<mu> a = None" if "in_section ?t a" for a by (rule parts_new(1) [OF sub(1) top new that])
    qed (use mr al' top sz in auto)
    have "\<exists>d'. mem_add_pages ram ?r d1 = Some d' \<and> dispatch_inv ram d' (add_dest ?r (add_dest ?t \<mu>)) \<and> fits c d'"
    proof (rule 1(1) [OF sub d1(1,2,3)])
      show "add_dest ?t \<mu> a = None" if "in_section ?r a" for a by (rule parts_new(2) [OF sub(1) top new that])
      show "offset_within_address_space ?r AND PAGE_OFFSET = 0 \<or> sec_size ?r = 0"
        using aligned_add [OF al', of PAGE_SIZE] by simp
      show "unat (offset_within_address_space ?r) + unat (sec_size ?r) \<le> 2 ^ 52"
        using top sz by (simp add: unat_add_64 unat_sub_64)
    qed (use mr in simp)
    then show ?thesis using unfold sub d1(1) add_dest_split [OF sub(1) b, of \<mu>] by simp
  next
    case multi
    define m where "m = (sec_size s AND NOT PAGE_OFFSET)"
    let ?t = "section_take m s" and ?r = "section_drop m s"
    have sz: "4096 \<le> unat (sec_size s)" using multi(1) by (simp add: word_le_nat_alt)
    have al': "offset_within_address_space s AND PAGE_OFFSET = 0" using al sz by auto
    have m: "m AND PAGE_OFFSET = 0" "unat m = 4096 * (unat (sec_size s) div 4096)" "m \<le> sec_size s"
      using page_part_aligned [of "sec_size s"] page_le [of "sec_size s"] by (simp_all add: m_def unat_page)
    have m0: "m \<noteq> 0" using m(2) sz div_le_mono [OF sz, of 4096] by auto
    have mle: "unat m \<le> unat (sec_size s)" using m(3) by (simp add: word_le_nat_alt)
    have rsz: "unat (sec_size ?r) < 4096" using mle m(2) by (simp add: unat_sub_64 minus_mult_div_eq_mod)
    have f1: "fits (Suc (rest_cost ?r + c)) d"
      by (rule fits_mono [OF fit]) (use multi rsz sz in \<open>auto simp: rest_cost_def word_less_nat_alt\<close>)
    obtain d1 where d1: "register_multipage ?t d = Some d1" "dispatch_inv ram d1 (add_dest ?t \<mu>)" "fits (rest_cost ?r + c) d1"
    proof (rule register_multipage_inv [OF inv f1])
      show "\<mu> a = None" if "in_section ?t a" for a by (rule parts_new(1) [OF m(3) top new that])
    qed (use mr al' top m m0 mle in auto)
    have "\<exists>d'. mem_add_pages ram ?r d1 = Some d' \<and> dispatch_inv ram d' (add_dest ?r (add_dest ?t \<mu>)) \<and> fits c d'"
    proof (rule 1(2) [OF multi(1) _ m_def, OF _ d1(1,2,3)])
      show "\<not> offset_within_region s AND PAGE_OFFSET \<noteq> 0" using multi(2) by simp
      show "add_dest ?t \<mu> a = None" if "in_section ?r a" for a by (rule parts_new(2) [OF m(3) top new that])
      show "offset_within_address_space ?r AND PAGE_OFFSET = 0 \<or> sec_size ?r = 0"
        using aligned_add [OF al' m(1)] by simp
      show "unat (offset_within_address_space ?r) + unat (sec_size ?r) \<le> 2 ^ 52"
        using top mle by (simp add: unat_add_64 unat_sub_64)
    qed (use mr in simp)
    then show ?thesis using unfold multi d1(1) add_dest_split [OF m(3) b, of \<mu>] unfolding m_def by simp
  qed
qed

lemma section_drop_0: "section_drop 0 s = s"
  by (simp add: section_drop_def)

lemma unat_page_align: "unat a < 2 ^ 63 \<Longrightarrow> unat (page_align a) = 4096 * ((unat a + 4095) div 4096)"
  by (simp add: page_align_def unat_page unat_add_64)

lemma mem_add_inv:
  assumes inv: "dispatch_inv ram d \<mu>" and fit: "fits (section_cost s + c) d" and mr: "sec_mr s = Mr n" and size: "sec_size s \<noteq> 0"
    and top: "unat (offset_within_address_space s) + unat (sec_size s) \<le> 2 ^ 52"
    and new: "\<And>a. in_section s a \<Longrightarrow> \<mu> a = None"
  shows "\<exists>d'. mem_add ram s d = Some d' \<and> dispatch_inv ram d' (add_dest s \<mu>) \<and> fits c d'"
proof -
  let ?a = "offset_within_address_space s"
  have b: "unat ?a + unat (sec_size s) < 2 ^ 64" using top by simp
  have sz: "0 < unat (sec_size s)" using size by (simp add: unat_gt_0)
  have t: "unat ?a < 2 ^ 52" using top sz by linarith
  consider (pages) "?a AND PAGE_OFFSET = 0" "\<not> sec_size s < PAGE_SIZE"
    | (small) "?a AND PAGE_OFFSET = 0" "sec_size s < PAGE_SIZE"
    | (head) "?a AND PAGE_OFFSET \<noteq> 0" by blast
  then show ?thesis
  proof cases
    case pages
    have "rest_cost s \<le> section_cost s"
    proof -
      have "(offset_within_region s - ?a) AND PAGE_OFFSET = 0 \<longleftrightarrow> offset_within_region s AND PAGE_OFFSET = 0"
        by (rule aligned_diff [OF pages(1)])
      then show ?thesis using pages by (auto simp: rest_cost_def section_cost_def)
    qed
    then have "fits (rest_cost s + c) d" using fits_mono [OF fit] by simp
    from mem_add_pages_inv [OF inv this mr _ top new] pages(1) have "\<exists>d'. mem_add_pages ram s d = Some d' \<and>
        dispatch_inv ram d' (add_dest s \<mu>) \<and> fits c d'" by blast
    then show ?thesis using pages by (simp add: mem_add_def)
  next
    case small
    have f2: "fits (Suc (Suc c)) d"
      by (rule fits_mono [OF fit]) (auto simp: section_cost_def)
    obtain x where "unat ?a = 4096 * x" using small(1) by (metis page_offset_zero mod_0_imp_dvd dvdE)
    then have "unat (page_align ?a) = unat ?a" using t by (simp add: unat_page_align)
    then have pa: "page_align ?a = ?a" by (simp add: word_unat_eq_iff)
    have gap: "\<mu> ?a = None" using sz by (intro new) (simp add: in_section_def)
    obtain d1 k sp where d1: "register_subpage ram (section_take 0 s) d = Some d1" "shared_at ram d1 \<mu> (page_of ?a) k sp"
      "phys_sections_nb d1 \<le> phys_sections_nb d + 2" "phys_map_nodes_nb d1 \<le> phys_map_nodes_nb d + 7"
      using register_nothing [OF inv f2, of "section_take 0 s"] small(1) t gap by auto
    have room: "phys_sections_nb d1 + 2 \<le> 2 ^ 15" using d1(3) f2 by (simp add: fits_def)
    have pg: "unat (?a AND PAGE_OFFSET) + unat (sec_size s) \<le> 4096" using small by (simp add: word_less_nat_alt)
    obtain d' where d': "subpage_fill ram s k d1 = Some d'" "dispatch_inv ram d' (add_dest s \<mu>)"
      "phys_sections_nb d' \<le> phys_sections_nb d1 + 2" "phys_map_nodes_nb d' = phys_map_nodes_nb d1"
      by (rule subpage_fill_inv [OF d1(2) room mr refl size pg t new])
    have "unat (page_of ?a) < 2 ^ 40" using t by (simp add: unat_page_number)
    from subpage_at_shared [OF d1(2) this] d'(1) have "register_subpage ram s d1 = Some d'"
      using page_start [of ?a] by (simp add: register_subpage_def)
    moreover have "mem_add_pages ram s d1 = register_subpage ram s d1"
      unfolding mem_add_pages.simps [of ram s d1] using small(2) size by (auto dest: leD)
    ultimately have "mem_add ram s d = Some d'"
      using small size d1(1) pa by (simp add: mem_add_def section_drop_0)
    moreover have "fits c d'" using f2 d1(3,4) d'(3,4) by (simp add: fits_def)
    ultimately show ?thesis using d'(2) by blast
  next
    case head
    define m where "m = min (page_align ?a - ?a) (sec_size s)"
    let ?t = "section_take m s" and ?r = "section_drop m s"
    have h: "unat (page_align ?a - ?a) = 4096 - unat ?a mod 4096" "0 < unat ?a mod 4096" "unat ?a mod 4096 < 4096"
    proof -
      define q r where "q = unat ?a div 4096" and "r = unat ?a mod 4096"
      have u: "unat ?a = 4096 * q + r" by (simp add: q_def r_def)
      show r: "0 < unat ?a mod 4096" "unat ?a mod 4096 < 4096" using head by (simp_all add: page_offset_zero)
      have rr: "0 < r" "r < 4096" using r by (simp_all add: r_def)
      then have "(unat ?a + 4095) div 4096 = Suc q" unfolding u by (intro div_nat_eqI) simp_all
      then have "unat (page_align ?a) = 4096 * Suc q" using t by (simp add: unat_page_align)
      then show "unat (page_align ?a - ?a) = 4096 - unat ?a mod 4096"
        using rr unfolding r_def [symmetric] by (simp add: unat_sub_64 u)
    qed
    have m: "unat m = min (4096 - unat ?a mod 4096) (unat (sec_size s))" "m \<le> sec_size s"
      using h(1) by (auto simp: m_def min_def word_le_nat_alt)
    have m0: "m \<noteq> 0" using m(1) h sz by (auto simp: word_unat_eq_iff)
    have mle: "unat m \<le> unat (sec_size s)" using m(1) by simp
    have al: "(?a + m) AND PAGE_OFFSET = 0 \<or> sec_size ?r = 0"
    proof (cases "unat m = unat (sec_size s)")
      case False
      then have "unat m = 4096 - unat ?a mod 4096" using m(1) by simp
      then show ?thesis using h by (simp add: page_offset_zero unat_add_low mod_add_left_eq)
    next
      case True
      then have "m = sec_size s" by (simp add: word_unat_eq_iff)
      then show ?thesis by simp
    qed
    have cost: "Suc (rest_cost ?r) \<le> section_cost s"
    proof (cases "sec_size ?r = 0")
      case False
      with al have "(?a + m) AND PAGE_OFFSET = 0" by blast
      from aligned_diff [OF this, of "offset_within_region s + m"]
      have "(offset_within_region s - ?a) AND PAGE_OFFSET = 0 \<longleftrightarrow> (offset_within_region s + m) AND PAGE_OFFSET = 0" by simp
      moreover have "unat (sec_size s - m) div 4096 \<le> unat (sec_size s) div 4096"
        by (rule div_le_mono) (simp add: unat_sub_64 mle)
      ultimately show ?thesis by (auto simp: rest_cost_def section_cost_def)
    qed (auto simp: rest_cost_def section_cost_def)
    have f1: "fits (Suc (rest_cost ?r + c)) d" by (rule fits_mono [OF fit]) (use cost in simp)
    obtain d1 where d1: "register_subpage ram ?t d = Some d1" "dispatch_inv ram d1 (add_dest ?t \<mu>)" "fits (rest_cost ?r + c) d1"
    proof (rule register_subpage_inv [OF inv f1])
      show "\<mu> a = None" if "in_section ?t a" for a by (rule parts_new(1) [OF m(2) top new that])
      show "unat (offset_within_address_space ?t AND PAGE_OFFSET) + unat (sec_size ?t) \<le> 4096"
        using m(1) h(3) by (simp add: unat_low)
    qed (use mr m0 t in simp_all)
    have "\<exists>d'. mem_add_pages ram ?r d1 = Some d' \<and> dispatch_inv ram d' (add_dest ?r (add_dest ?t \<mu>)) \<and> fits c d'"
    proof (rule mem_add_pages_inv [OF d1(2,3)])
      show "add_dest ?t \<mu> a = None" if "in_section ?r a" for a by (rule parts_new(2) [OF m(2) top new that])
      show "unat (offset_within_address_space ?r) + unat (sec_size ?r) \<le> 2 ^ 52"
        using top mle by (simp add: unat_add_64 unat_sub_64)
    qed (use mr al in simp_all)
    then show ?thesis using head d1(1) add_dest_split [OF m(2) b, of \<mu>] by (simp add: mem_add_def Let_def m_def [symmetric])
  qed
qed

subsection \<open>All sections of an address space\<close>

text \<open>The listener sees the sections of the new map one after the other.\<close>

fun mem_add_all :: "(nat \<Rightarrow> bool) \<Rightarrow> memory_region_section list \<Rightarrow> phys_dispatch \<Rightarrow> phys_dispatch option" where
  "mem_add_all ram [] d = Some d"
| "mem_add_all ram (s # ss) d = Option.bind (mem_add ram s d) (mem_add_all ram ss)"

definition good_section :: "memory_region_section \<Rightarrow> bool" where
  "good_section s \<longleftrightarrow> (\<exists>n. sec_mr s = Mr n) \<and> sec_size s \<noteq> 0 \<and>
    unat (offset_within_address_space s) + unat (sec_size s) \<le> 2 ^ 52"

fun disjoint_sections :: "memory_region_section list \<Rightarrow> bool" where
  "disjoint_sections [] \<longleftrightarrow> True"
| "disjoint_sections (s # ss) \<longleftrightarrow> list_all (\<lambda>t. \<forall>a. \<not> (in_section s a \<and> in_section t a)) ss \<and> disjoint_sections ss"

text \<open>Where the list of sections sends an address.\<close>

definition dest_at :: "memory_region_section list \<Rightarrow> u64 \<Rightarrow> dest option" where
  "dest_at ss a = map_option dest_of (find (\<lambda>s. in_section s a) ss)"

lemma dest_at_Cons: "dest_at (s # ss) a = (if in_section s a then Some (dest_of s) else dest_at ss a)"
  by (simp add: dest_at_def)

lemma dest_at_None: "(\<And>s. s \<in> set ss \<Longrightarrow> \<not> in_section s a) \<Longrightarrow> dest_at ss a = None"
  by (auto simp: dest_at_def find_None_iff)

lemma mem_add_all_inv:
  assumes "dispatch_inv ram d \<mu>" "fits (sum_list (map section_cost ss) + c) d" "list_all good_section ss" "disjoint_sections ss"
    "\<And>s a. s \<in> set ss \<Longrightarrow> in_section s a \<Longrightarrow> \<mu> a = None"
  shows "\<exists>d'. mem_add_all ram ss d = Some d' \<and>
    dispatch_inv ram d' (\<lambda>a. case dest_at ss a of None \<Rightarrow> \<mu> a | Some t \<Rightarrow> Some t) \<and> fits c d'"
  using assms
proof (induction ss arbitrary: d \<mu>)
  case Nil
  then show ?case by (simp add: dest_at_def)
next
  case (Cons s ss)
  obtain n where g: "sec_mr s = Mr n" "sec_size s \<noteq> 0" "unat (offset_within_address_space s) + unat (sec_size s) \<le> 2 ^ 52"
    using Cons.prems(3) by (auto simp: good_section_def)
  have f: "fits (section_cost s + (sum_list (map section_cost ss) + c)) d" using Cons.prems(2) by (simp add: add.assoc)
  obtain d1 where d1: "mem_add ram s d = Some d1" "dispatch_inv ram d1 (add_dest s \<mu>)" "fits (sum_list (map section_cost ss) + c) d1"
    using mem_add_inv [OF Cons.prems(1) f g] Cons.prems(5) by auto
  have apart: "\<not> in_section s a" if "t \<in> set ss" "in_section t a" for t a
    using Cons.prems(4) that by (auto simp: list_all_iff)
  have "\<exists>d'. mem_add_all ram ss d1 = Some d' \<and>
    dispatch_inv ram d' (\<lambda>a. case dest_at ss a of None \<Rightarrow> add_dest s \<mu> a | Some t \<Rightarrow> Some t) \<and> fits c d'"
  proof (rule Cons.IH [OF d1(2,3)])
    show "add_dest s \<mu> a = None" if "t \<in> set ss" "in_section t a" for t a
      using apart [OF that] Cons.prems(5) [of t a] that by (simp add: add_dest_def)
  qed (use Cons.prems in simp_all)
  moreover have "(\<lambda>a. case dest_at ss a of None \<Rightarrow> add_dest s \<mu> a | Some t \<Rightarrow> Some t) =
      (\<lambda>a. case dest_at (s # ss) a of None \<Rightarrow> \<mu> a | Some t \<Rightarrow> Some t)"
  proof
    fix a
    show "(case dest_at ss a of None \<Rightarrow> add_dest s \<mu> a | Some t \<Rightarrow> Some t) =
        (case dest_at (s # ss) a of None \<Rightarrow> \<mu> a | Some t \<Rightarrow> Some t)"
    proof (cases "in_section s a")
      case True
      then have "dest_at ss a = None" using apart by (intro dest_at_None) blast
      with True show ?thesis by (simp add: dest_at_Cons add_dest_def)
    qed (simp add: dest_at_Cons add_dest_def split: option.split)
  qed
  ultimately show ?case using d1(1) by simp
qed

text \<open>The state \<open>mem_begin\<close> and \<open>core_begin\<close> leave: an empty map and the four fixed sections.\<close>

definition cleared :: "phys_dispatch \<Rightarrow> bool" where
  "cleared d \<longleftrightarrow> phys_map d = nil_entry \<and> phys_map_nodes_nb d = 0 \<and> (\<forall>k \<ge> next_subpage d. subpages d k = None)"

lemma core_begin_inv:
  assumes "cleared d"
  shows "dispatch_inv ram (core_begin d) (\<lambda>_. None)" "phys_sections_nb (core_begin d) = 4" "phys_map_nodes_nb (core_begin d) = 0"
proof -
  have c: "phys_map (core_begin d) = phys_map d" "phys_map_nodes_nb (core_begin d) = phys_map_nodes_nb d"
    "subpages (core_begin d) = subpages d" "next_subpage (core_begin d) = next_subpage d"
    "phys_sections (core_begin d) 0 = dummy_section Io_unassigned" "phys_sections_nb (core_begin d) = 4"
    by (simp_all add: core_begin_def phys_section_add_def phys_sections_clear_def)
  have f: "phys_page_find (core_begin d) p = 0" for p using assms c by (intro find_empty) (simp add: cleared_def)
  show "dispatch_inv ram (core_begin d) (\<lambda>_. None)"
    using assms c f phys_map_inv_empty [of "core_begin d"] by (simp add: dispatch_inv_def cleared_def page_ok_def free_page_def)
  show "phys_sections_nb (core_begin d) = 4" "phys_map_nodes_nb (core_begin d) = 0"
    using assms c by (simp_all add: cleared_def)
qed

text \<open>What an access reaches.\<close>

lemma phys_target_dest:
  assumes inv: "dispatch_inv ram d \<mu>" and a: "unat a < 2 ^ 52"
  shows "\<exists>s. phys_target d a = Some (s, a + (case \<mu> a of None \<Rightarrow> fst (snd (dest_of s)) | Some (r, off, ro) \<Rightarrow> off)) \<and>
    (case \<mu> a of None \<Rightarrow> sec_mr s = Io_unassigned
     | Some (r, off, ro) \<Rightarrow> sec_readonly s = ro \<and> (sec_mr s = r \<or> is_ram_ref ram r \<and> sec_mr s = Io_subpage_ram))"
proof -
  let ?p = "page_of a" and ?s = "phys_sections d (phys_page_find d (page_of a))"
  have p: "unat ?p < 2 ^ 40" using a by (simp add: unat_page_number)
  have ok: "page_ok ram d \<mu> ?p" using inv p by (simp add: dispatch_inv_def)
  then consider (free) "free_page d \<mu> ?p" | (direct) "direct_page d \<mu> ?p" | (shared) k sp where "shared_page ram d \<mu> ?p k sp"
    by (auto simp: page_ok_def)
  then show ?thesis
  proof cases
    case free
    then have "?s = dummy_section Io_unassigned" "\<mu> a = None" using inv by (auto simp: free_page_def dispatch_inv_def)
    then show ?thesis by (simp add: phys_target_def section_addr_dest dummy_section_def Let_def)
  next
    case direct
    then obtain n where n: "sec_mr ?s = Mr n" "\<mu> a = Some (dest_of ?s)" by (auto simp: direct_page_def Let_def)
    then have "phys_target d a = Some (?s, a + fst (snd (dest_of ?s)))" by (simp add: phys_target_def section_addr_dest Let_def)
    then show ?thesis using n by (simp add: dest_of_def)
  next
    case shared
    define t where "t = phys_sections d (sub_section sp (unat (a AND PAGE_OFFSET)))"
    have s: "?s = subpage_section k (push_bit 12 ?p)" "subpages d k = Some sp" "sp_base sp = push_bit 12 ?p"
      "byte_ok ram d (\<mu> a) (sub_section sp (unat (a AND PAGE_OFFSET)))"
      using shared by (auto simp: shared_page_def)
    have off: "memory_region_section_addr ?s a = a AND PAGE_OFFSET"
      using split_low [of a] unfolding page_start s(1) by (simp add: memory_region_section_addr_def subpage_section_def algebra_simps)
    have again: "(a AND PAGE_OFFSET) + push_bit 12 ?p = a" using split_low [of a] unfolding page_start by (simp add: add.commute)
    have "(a AND PAGE_OFFSET) AND PAGE_OFFSET = a AND PAGE_OFFSET" by (simp add: and.assoc)
    moreover have "sec_mr (subpage_section k b) = Subpage k" for b by (simp add: subpage_section_def)
    ultimately have "phys_target d a = Some (t, memory_region_section_addr t a)"
      using s(2,3) again off by (simp add: phys_target_def Let_def s(1) subpage_target_def t_def)
    then have tgt: "phys_target d a = Some (t, a + fst (snd (dest_of t)))" by (simp add: section_addr_dest)
    show ?thesis
    proof (cases "\<mu> a")
      case None
      then have "t = dummy_section Io_unassigned" using s(4) inv by (simp add: byte_ok_def t_def dispatch_inv_def)
      then show ?thesis using tgt None by (simp add: dummy_section_def)
    next
      case (Some m)
      then show ?thesis using tgt s(4) by (cases m) (auto simp: byte_ok_def t_def [symmetric] dest_of_def)
    qed
  qed
qed

end
