(* ===== verification/PhysMapDestroy.thy ===== *)
theory PhysMapDestroy
  imports PhysMapSec
begin

text \<open>
  Tearing the map down (\<open>mem_begin\<close>): from any state the listener can have left, \<open>destroy_l2_mapping\<close> visits
  each subpage once, so that it frees none twice, and leaves an empty map.
\<close>

definition page_sub :: "phys_dispatch \<Rightarrow> u64 \<Rightarrow> nat option" where
  "page_sub d i = (case sec_mr (phys_sections d (phys_page_find d i)) of Subpage k \<Rightarrow> Some k | _ \<Rightarrow> None)"

text \<open>The subpages of the pages in \<open>P\<close> are allocated, and no two pages have the same.\<close>

definition owned :: "phys_dispatch \<Rightarrow> u64 set \<Rightarrow> bool" where
  "owned d P \<longleftrightarrow> (\<forall>i \<in> P. \<forall>k. page_sub d i = Some k \<longrightarrow> subpages d k \<noteq> None \<and> (\<forall>j \<in> P. page_sub d j = Some k \<longrightarrow> j = i))"

text \<open>Only references up to level \<open>l\<close> that cover nothing but pages of \<open>P\<close> and subpages of these pages have changed.\<close>

definition torn :: "phys_dispatch \<Rightarrow> (nat \<Rightarrow> nat) \<Rightarrow> (nat \<Rightarrow> nat) \<Rightarrow> nat \<Rightarrow> u64 set \<Rightarrow> phys_dispatch \<Rightarrow> bool" where
  "torn d lev tag l P d' \<longleftrightarrow> map_ok d' lev tag \<and> phys_sections d' = phys_sections d \<and>
    phys_map_nodes_nb d' = phys_map_nodes_nb d \<and> next_subpage d' = next_subpage d \<and>
    (\<forall>q l' t' i. ref_ok d lev tag l' t' q \<and> covers l' t' i \<and> (i \<notin> P \<or> l < l') \<longrightarrow> read_entry d' q = read_entry d q) \<and>
    (\<forall>k. subpages d' k \<noteq> subpages d k \<longrightarrow> subpages d' k = None \<and> (\<exists>i \<in> P. page_sub d i = Some k))"

lemma tornD:
  assumes "torn d lev tag l P d'"
  shows "map_ok d' lev tag" "phys_sections d' = phys_sections d" "phys_map_nodes_nb d' = phys_map_nodes_nb d"
    "next_subpage d' = next_subpage d"
    "ref_ok d lev tag l' t' q \<Longrightarrow> covers l' t' i \<Longrightarrow> i \<notin> P \<or> l < l' \<Longrightarrow> read_entry d' q = read_entry d q"
    "subpages d' k \<noteq> subpages d k \<Longrightarrow> subpages d' k = None \<and> (\<exists>i \<in> P. page_sub d i = Some k)"
  using assms unfolding torn_def by blast+

lemma torn_refl: "map_ok d lev tag \<Longrightarrow> torn d lev tag l P d"
  by (simp add: torn_def)

lemma torn_mono: "torn d lev tag l P d' \<Longrightarrow> P \<subseteq> Q \<Longrightarrow> l \<le> m \<Longrightarrow> torn d lev tag m Q d'"
  unfolding torn_def by (meson order.strict_trans1 subsetD)

lemma torn_ref: "torn d lev tag l P d' \<Longrightarrow> ref_ok d' lev tag l' t' q = ref_ok d lev tag l' t' q"
  by (cases q) (simp_all add: tornD(3))

lemma torn_walk:
  assumes ok: "map_ok d lev tag" and t: "torn d lev tag l P d'" and i: "i \<notin> P"
    and q: "ref_ok d lev tag l' t' q" "covers l' t' i"
  shows "walk_levels d' l' (read_entry d' q) i = walk_levels d l' (read_entry d q) i"
proof (rule walk_refs [OF ok _ _ q])
  fix q l t
  assume "ref_ok d lev tag l t q" "covers l t i"
  then show "read_entry d' q = read_entry d q" using tornD(5) [OF t] i by blast
next
  fix l t
  assume "ref_ok d lev tag l t (Slot (phys_map_nodes_nb d) 0)"
  then show "walk_levels d' l (read_entry d' (Slot (phys_map_nodes_nb d) 0)) i =
      walk_levels d l (read_entry d (Slot (phys_map_nodes_nb d) 0)) i" by simp
qed

lemma covers_root: "covers 4 0 i \<longleftrightarrow> unat i < 2 ^ 40"
  by (simp add: covers_range)

lemma torn_find:
  assumes ok: "map_ok d lev tag" and t: "torn d lev tag l P d'" and i: "i \<notin> P" "unat i < 2 ^ 40"
  shows "phys_page_find d' i = phys_page_find d i" "page_sub d' i = page_sub d i"
proof -
  have "walk_levels d' 4 (read_entry d' Root) i = walk_levels d 4 (read_entry d Root) i"
    by (rule torn_walk [OF ok t i(1)]) (use i(2) covers_root in auto)
  then show f: "phys_page_find d' i = phys_page_find d i" by (simp add: phys_page_find_def)
  show "page_sub d' i = page_sub d i" by (simp add: page_sub_def f tornD(2) [OF t])
qed

text \<open>Disjoint parts one after the other.\<close>

lemma torn_trans:
  assumes ok: "map_ok d lev tag" and a: "torn d lev tag l P d1" and b: "torn d1 lev tag l Q d2"
    and apart: "P \<inter> Q = {}" and Q: "\<And>i. i \<in> Q \<Longrightarrow> unat i < 2 ^ 40"
  shows "torn d lev tag l (P \<union> Q) d2"
  unfolding torn_def
proof (intro conjI allI impI)
  show "map_ok d2 lev tag" by (rule tornD(1) [OF b])
  show "read_entry d2 q = read_entry d q"
    if "ref_ok d lev tag l' t' q \<and> covers l' t' i \<and> (i \<notin> P \<union> Q \<or> l < l')" for q l' t' i
  proof -
    have q: "ref_ok d1 lev tag l' t' q" "ref_ok d lev tag l' t' q" "covers l' t' i" using that torn_ref [OF a] by simp_all
    have "read_entry d2 q = read_entry d1 q" using tornD(5) [OF b q(1,3)] that by blast
    also have "\<dots> = read_entry d q" using tornD(5) [OF a q(2,3)] that by blast
    finally show ?thesis .
  qed
  show "subpages d2 k = None" if "subpages d2 k \<noteq> subpages d k" for k
    using that tornD(6) [OF a, of k] tornD(6) [OF b, of k] by metis
  show "\<exists>i \<in> P \<union> Q. page_sub d i = Some k" if c: "subpages d2 k \<noteq> subpages d k" for k
  proof (cases "subpages d2 k = subpages d1 k")
    case True
    then show ?thesis using c tornD(6) [OF a, of k] by auto
  next
    case False
    then obtain i where i: "i \<in> Q" "page_sub d1 i = Some k" using tornD(6) [OF b] by blast
    then have "i \<notin> P" using apart by blast
    then have "page_sub d i = Some k" using torn_find(2) [OF ok a _ Q [OF i(1)]] i(2) by simp
    then show ?thesis using i(1) by blast
  qed
qed (simp_all add: tornD(2-4) [OF a] tornD(2-4) [OF b])

lemma owned_rest:
  assumes ok: "map_ok d lev tag" and t: "torn d lev tag l P d'" and o: "owned d (P \<union> Q)"
    and apart: "P \<inter> Q = {}" and Q: "\<And>i. i \<in> Q \<Longrightarrow> unat i < 2 ^ 40"
  shows "owned d' Q"
  unfolding owned_def
proof (intro ballI allI impI conjI)
  fix i k
  assume i: "i \<in> Q" "page_sub d' i = Some k"
  have s: "page_sub d' j = page_sub d j" if "j \<in> Q" for j using torn_find(2) [OF ok t _ Q [OF that]] that apart by blast
  have ik: "page_sub d i = Some k" using i s by simp
  have "subpages d' k = subpages d k"
  proof (rule ccontr)
    assume "subpages d' k \<noteq> subpages d k"
    then obtain j where "j \<in> P" "page_sub d j = Some k" using tornD(6) [OF t] by blast
    then have "j = i" using o ik i(1) unfolding owned_def by blast
    then show False using \<open>j \<in> P\<close> i(1) apart by blast
  qed
  then show "subpages d' k \<noteq> None" using o ik i(1) unfolding owned_def by auto
  show "j = i" if "j \<in> Q" "page_sub d' j = Some k" for j
    using o ik i(1) that s unfolding owned_def by simp
qed

lemma owned_subset: "owned d P \<Longrightarrow> Q \<subseteq> P \<Longrightarrow> owned d Q"
  unfolding owned_def by blast

subsection \<open>One entry\<close>

text \<open>The walk from \<open>q\<close> is what the map gives for its pages.\<close>

definition reached :: "phys_dispatch \<Rightarrow> nat \<Rightarrow> nat \<Rightarrow> entry_ref \<Rightarrow> bool" where
  "reached d l t q \<longleftrightarrow> (\<forall>i. covers l t i \<longrightarrow> walk_levels d l (read_entry d q) i = phys_page_find d i)"

lemma first_page: "1024 ^ l * Suc t \<le> 2 ^ 40 \<Longrightarrow> \<exists>i :: u64. covers l t i"
proof -
  assume b: "1024 ^ l * Suc t \<le> (2 :: nat) ^ 40"
  have "1024 ^ l * t \<le> (2 :: nat) ^ 40" using b by (simp add: algebra_simps)
  moreover have "unat (word_of_nat m :: u64) = m" if "m \<le> 2 ^ 40" for m
    using that by (simp add: unsigned_of_nat take_bit_eq_mod)
  ultimately have "unat (word_of_nat (1024 ^ l * t) :: u64) = 1024 ^ l * t" by blast
  then have "covers l t (word_of_nat (1024 ^ l * t))" by (simp add: covers_def)
  then show ?thesis by blast
qed

lemma leaf_torn:
  assumes ok: "map_ok d lev tag" and leaf: "is_leaf (read_entry d q)" and r: "reached d l t q"
    and b: "1024 ^ l * Suc t \<le> 2 ^ 40" and o: "owned d {i. covers l t i}"
  shows "\<exists>d'. destroy_page_desc (ptr (read_entry d q)) d = Some d' \<and> torn d lev tag l {i. covers l t i} d'"
proof -
  obtain i :: u64 where i: "covers l t i" using first_page [OF b] by blast
  have "walk_levels d l (read_entry d q) i = ptr (read_entry d q)" using leaf by (cases l) simp_all
  then have p: "phys_page_find d i = ptr (read_entry d q)" using r i by (simp add: reached_def)
  show ?thesis
  proof (cases "page_sub d i")
    case None
    then have "destroy_page_desc (ptr (read_entry d q)) d = Some d"
      by (simp add: destroy_page_desc_def page_sub_def p split: mr_ref.splits)
    then show ?thesis using torn_refl [OF ok] by blast
  next
    case (Some k)
    then have s: "sec_mr (phys_sections d (ptr (read_entry d q))) = Subpage k" by (simp add: page_sub_def p split: mr_ref.splits)
    have "subpages d k \<noteq> None" using o i Some by (simp add: owned_def)
    moreover have "read_entry (d\<lparr>subpages := f\<rparr>) e = read_entry d e" for f e by (cases e) simp_all
    moreover have "map_ok (d\<lparr>subpages := f\<rparr>) lev tag" for f
      using ok same_map_ok [of d "d\<lparr>subpages := f\<rparr>" lev tag] by (simp add: same_map_def)
    ultimately show ?thesis using i Some
      by (intro exI [of _ "d\<lparr>subpages := (subpages d)(k := None)\<rparr>"]) (auto simp: destroy_page_desc_def s torn_def)
  qed
qed

text \<open>A call at the reference \<open>q\<close> tears its part down.\<close>

definition tears :: "nat \<Rightarrow> (entry_ref \<Rightarrow> phys_dispatch \<Rightarrow> phys_dispatch option) \<Rightarrow> bool" where
  "tears l sub \<longleftrightarrow> (\<forall>d lev tag t q. map_ok d lev tag \<and> ref_ok d lev tag l t q \<and> 1024 ^ l * Suc t \<le> 2 ^ 40 \<and>
    \<not> is_leaf (read_entry d q) \<and> reached d l t q \<and> owned d {i. covers l t i} \<longrightarrow>
    (\<exists>d'. sub q d = Some d' \<and> torn d lev tag l {i. covers l t i} d' \<and> read_entry d' q = nil_entry))"

abbreviation (input) slots_from :: "nat \<Rightarrow> nat \<Rightarrow> nat \<Rightarrow> u64 set" where
  "slots_from l t k \<equiv> {i. covers (Suc l) t i \<and> 1024 - k \<le> phys_page_slot i l}"

lemma slots_split: "Suc k \<le> 1024 \<Longrightarrow> slots_from l t (Suc k) = {i. covers l (1024 * t + (1023 - k)) i} \<union> slots_from l t k"
proof -
  assume k: "Suc k \<le> 1024"
  have s: "1023 - k < 1024" by arith
  have c: "covers l (1024 * t + (1023 - k)) i \<longleftrightarrow> covers (Suc l) t i \<and> phys_page_slot i l = 1023 - k" for i
  proof
    show "covers l (1024 * t + (1023 - k)) i \<Longrightarrow> covers (Suc l) t i \<and> phys_page_slot i l = 1023 - k"
      by (rule covers_slot_eq [OF _ s])
  qed (use covers_slot [of l t i] in metis)
  have "1024 - Suc k \<le> x \<longleftrightarrow> x = 1023 - k \<or> 1024 - k \<le> x" for x using k by arith
  then show ?thesis by (intro set_eqI) (simp only: mem_Collect_eq Un_iff c, blast)
qed

lemma slots_apart: "Suc k \<le> 1024 \<Longrightarrow> {i. covers l (1024 * t + (1023 - k)) i} \<inter> slots_from l t k = {}"
  using covers_slot_eq [of l t "1023 - k"] by fastforce

lemma region_bound: "1024 ^ Suc l * Suc t \<le> 2 ^ 40 \<Longrightarrow> s < 1024 \<Longrightarrow> 1024 ^ l * Suc (1024 * t + s) \<le> (2 :: nat) ^ 40"
proof -
  assume b: "1024 ^ Suc l * Suc t \<le> (2 :: nat) ^ 40" and s: "s < 1024"
  have "Suc (1024 * t + s) \<le> 1024 * Suc t" using s by simp
  then have "1024 ^ l * Suc (1024 * t + s) \<le> 1024 ^ l * (1024 * Suc t)" by (rule mult_le_mono2)
  also have "\<dots> = 1024 ^ Suc l * Suc t" by (simp only: power_Suc2 mult.assoc)
  finally show ?thesis using b by (rule order_trans)
qed

lemma covered_bound: "1024 ^ l * Suc t \<le> 2 ^ 40 \<Longrightarrow> covers l t i \<Longrightarrow> unat i < 2 ^ 40"
  unfolding covers_range by (meson order.strict_trans2)

lemma destroy_slots_torn:
  assumes sub: "tears l sub" and b: "1024 ^ Suc l * Suc t \<le> 2 ^ 40"
  shows "map_ok d lev tag \<Longrightarrow> n < phys_map_nodes_nb d \<Longrightarrow> lev n = l \<Longrightarrow> tag n = t \<Longrightarrow> k \<le> 1024 \<Longrightarrow>
    (\<And>i. i \<in> slots_from l t k \<Longrightarrow> walk_levels d l (phys_map_nodes d n (phys_page_slot i l)) i = phys_page_find d i) \<Longrightarrow>
    owned d (slots_from l t k) \<Longrightarrow> \<exists>d'. destroy_slots sub n k d = Some d' \<and> torn d lev tag l (slots_from l t k) d'"
proof (induction k arbitrary: d)
  case 0
  then show ?case using torn_refl by simp
next
  case (Suc k)
  let ?s = "1023 - k" and ?P = "{i. covers l (1024 * t + (1023 - k)) i}" and ?Q = "slots_from l t k"
  let ?lp = "Slot n ?s"
  have PQ: "slots_from l t (Suc k) = ?P \<union> ?Q" "?P \<inter> ?Q = {}"
    using slots_split slots_apart Suc.prems(5) by blast+
  have lp: "ref_ok d lev tag l (1024 * t + ?s) ?lp" using Suc.prems by simp
  have bs: "1024 ^ l * Suc (1024 * t + ?s) \<le> 2 ^ 40" using region_bound [OF b, of ?s] by simp
  have r: "reached d l (1024 * t + ?s) ?lp"
  proof (unfold reached_def, intro allI impI)
    fix i assume "covers l (1024 * t + ?s) i"
    then have "phys_page_slot i l = ?s" "i \<in> slots_from l t (Suc k)"
      using covers_slot_eq [of l t ?s i] unfolding PQ(1) by auto
    then show "walk_levels d l (read_entry d ?lp) i = phys_page_find d i" using Suc.prems(6) [of i] by simp
  qed
  have o: "owned d ?P" by (rule owned_subset [OF Suc.prems(7)]) (use PQ(1) in blast)
  have Q: "unat i < 2 ^ 40" if "i \<in> ?Q" for i using covered_bound [OF b] that by blast
  obtain d1 where d1: "(if \<not> is_leaf (read_entry d ?lp) then sub ?lp d else destroy_page_desc (ptr (read_entry d ?lp)) d) = Some d1"
    "torn d lev tag l ?P d1"
  proof (cases "is_leaf (read_entry d ?lp)")
    case True
    then show ?thesis using leaf_torn [OF Suc.prems(1) True r bs o] that by auto
  next
    case False
    then show ?thesis using sub Suc.prems(1) lp bs r o that unfolding tears_def by (metis (no_types, lifting))
  qed
  have w: "walk_levels d1 l (phys_map_nodes d1 n (phys_page_slot i l)) i = phys_page_find d1 i" if i: "i \<in> ?Q" for i
  proof -
    have ni: "i \<notin> ?P" using PQ(2) i by blast
    have q: "ref_ok d lev tag l (1024 * t + phys_page_slot i l) (Slot n (phys_page_slot i l))" using Suc.prems by simp
    have c: "covers l (1024 * t + phys_page_slot i l) i" using i covers_slot by simp
    have "walk_levels d1 l (phys_map_nodes d1 n (phys_page_slot i l)) i = walk_levels d l (phys_map_nodes d n (phys_page_slot i l)) i"
      using torn_walk [OF Suc.prems(1) d1(2) ni q c] by simp
    also have "\<dots> = phys_page_find d i" using Suc.prems(6) [of i] i PQ(1) by blast
    also have "\<dots> = phys_page_find d1 i" using torn_find(1) [OF Suc.prems(1) d1(2) ni Q [OF i]] by simp
    finally show ?thesis .
  qed
  have o1: "owned d1 ?Q"
    by (rule owned_rest [OF Suc.prems(1) d1(2) _ PQ(2) Q]) (use Suc.prems(7) PQ(1) in simp_all)
  obtain d2 where d2: "destroy_slots sub n k d1 = Some d2" "torn d1 lev tag l ?Q d2"
    using Suc.IH [OF tornD(1) [OF d1(2)] _ Suc.prems(3,4) _ w o1] Suc.prems(2,5) tornD(3) [OF d1(2)] by auto
  have "destroy_slots sub n (Suc k) d = Some d2"
    using d1(1) d2(1) by (simp add: Let_def)
  moreover have "torn d lev tag l (slots_from l t (Suc k)) d2"
    unfolding PQ(1) by (rule torn_trans [OF Suc.prems(1) d1(2) d2(2) PQ(2) Q])
  ultimately show ?case by blast
qed

lemma tearsD:
  assumes "tears l sub" "map_ok d lev tag" "ref_ok d lev tag l t q" "1024 ^ l * Suc t \<le> 2 ^ 40"
    "\<not> is_leaf (read_entry d q)" "reached d l t q" "owned d {i. covers l t i}"
  obtains d' where "sub q d = Some d'" "torn d lev tag l {i. covers l t i} d'" "read_entry d' q = nil_entry"
  using assms unfolding tears_def by metis

lemma destroy_l2_tears: "tears l (destroy_l2_mapping l)"
proof (induction l)
  case 0
  show ?case unfolding tears_def
  proof (intro allI impI, elim conjE)
    fix d lev tag t q
    assume "map_ok d lev tag" "ref_ok d lev tag 0 t q" "\<not> is_leaf (read_entry d q)"
    then have False using ref_entry [of d lev tag 0 t q] by (simp add: entry_ok_def)
    then show "\<exists>d'. destroy_l2_mapping 0 q d = Some d' \<and> torn d lev tag 0 {i. covers 0 t i} d' \<and> read_entry d' q = nil_entry" ..
  qed
next
  case (Suc l)
  show ?case unfolding tears_def
  proof (intro allI impI, elim conjE)
    fix d lev tag t q
    let ?P = "{i. covers (Suc l) t i}" and ?e = "read_entry d q"
    assume ok: "map_ok d lev tag" and q: "ref_ok d lev tag (Suc l) t q" and b: "1024 ^ Suc l * Suc t \<le> 2 ^ 40"
      and nl: "\<not> is_leaf ?e" and r: "reached d (Suc l) t q" and o: "owned d ?P"
    show "\<exists>d'. destroy_l2_mapping (Suc l) q d = Some d' \<and> torn d lev tag (Suc l) ?P d' \<and> read_entry d' q = nil_entry"
    proof (cases "ptr ?e = PHYS_MAP_NODE_NIL")
      case True
      then have "?e = nil_entry" using nl by (simp add: nil_entry_def)
      then show ?thesis using torn_refl [OF ok] True by simp
    next
      case False
      have n: "ptr ?e < phys_map_nodes_nb d" "lev (ptr ?e) = l" "tag (ptr ?e) = t"
        using ref_entry [OF ok q] nl False by (auto simp: entry_ok_def)
      have P: "slots_from l t 1024 = ?P" by simp
      have w: "walk_levels d l (phys_map_nodes d (ptr ?e) (phys_page_slot i l)) i = phys_page_find d i"
        if "i \<in> slots_from l t 1024" for i
        using r that nl False by (simp add: reached_def)
      obtain d1 where d1: "destroy_slots (destroy_l2_mapping l) (ptr ?e) 1024 d = Some d1" "torn d lev tag l ?P d1"
        using destroy_slots_torn [OF Suc b ok n order_refl w] o unfolding P by blast
      let ?d = "write_entry q nil_entry d1"
      have nq: "ref_ok d lev tag l' t' x \<Longrightarrow> covers l' t' i \<Longrightarrow> i \<notin> ?P \<or> Suc l < l' \<Longrightarrow> x \<noteq> q" for l' t' x i
        using q by (cases x; cases q) auto
      have s: "phys_sections ?d = phys_sections d" "phys_map_nodes_nb ?d = phys_map_nodes_nb d"
        "next_subpage ?d = next_subpage d" "subpages ?d = subpages d1"
        using tornD(2-4) [OF d1(2)] by (cases q; simp)+
      have read: "read_entry ?d x = (if x = q then nil_entry else read_entry d1 x)" for x by (cases x; cases q) auto
      have "map_ok ?d lev tag"
        unfolding map_ok_refs
      proof (intro conjI allI impI)
        show "phys_map_nodes_nb ?d \<le> PHYS_MAP_NODE_NIL" "\<not> is_leaf (phys_map ?d)"
          using ok tornD(1) [OF d1(2)] s(2) by (cases q; simp add: map_ok_def nil_entry_def)+
        fix x l' t' assume x: "ref_ok ?d lev tag l' t' x"
        then have x: "ref_ok d1 lev tag l' t' x" using s(2) tornD(3) [OF d1(2)] by (cases x) simp_all
        then have "entry_ok d1 lev tag l' t' (read_entry d1 x)" using ref_entry tornD(1) [OF d1(2)] by blast
        moreover have "0 < l'" if "x = q" using that x q by (cases x; cases q) auto
        moreover have "entry_ok ?d lev tag l' t' e = entry_ok d1 lev tag l' t' e" for e
          using s(2) tornD(3) [OF d1(2)] by (simp add: entry_ok_def)
        ultimately show "entry_ok ?d lev tag l' t' (read_entry ?d x)"
          unfolding read by (cases "x = q") (simp_all add: entry_ok_def nil_entry_def)
      qed
      moreover have "read_entry ?d x = read_entry d x"
        if "ref_ok d lev tag l' t' x \<and> covers l' t' i \<and> (i \<notin> ?P \<or> Suc l < l')" for x l' t' i
        using that nq [of l' t' x i] tornD(5) [OF d1(2), of l' t' x i] unfolding read by auto
      moreover have "subpages ?d k = None \<and> (\<exists>i \<in> ?P. page_sub d i = Some k)" if "subpages ?d k \<noteq> subpages d k" for k
        using that tornD(6) [OF d1(2)] unfolding s(4) by blast
      ultimately have "torn d lev tag (Suc l) ?P ?d" unfolding torn_def using s by blast
      then show ?thesis using d1(1) False read [of q] by simp
    qed
  qed
qed

text \<open>What \<open>mem_begin\<close> does to the tables the listener has filled.\<close>

lemma dispatch_owned: "dispatch_inv ram d \<mu> \<Longrightarrow> owned d {i. covers 4 0 i}"
proof -
  assume inv: "dispatch_inv ram d \<mu>"
  have sub: "\<exists>sp. subpages d k = Some sp \<and> sp_base sp = push_bit 12 i" if i: "unat i < 2 ^ 40" "page_sub d i = Some k" for i k
  proof -
    have m: "sec_mr (phys_sections d (phys_page_find d i)) = Subpage k"
      using i(2) by (simp add: page_sub_def split: mr_ref.splits)
    have "page_ok ram d \<mu> i" using inv i(1) by (simp add: dispatch_inv_def)
    moreover have "\<not> free_page d \<mu> i" using m inv unfolding free_page_def dispatch_inv_def by (auto simp: dummy_section_def)
    moreover have "\<not> direct_page d \<mu> i" using m by (auto simp: direct_page_def Let_def)
    ultimately obtain k' sp where "shared_page ram d \<mu> i k' sp" by (auto simp: page_ok_def)
    then show ?thesis using m by (simp add: shared_page_def subpage_section_def)
  qed
  have one: "j = i" if b: "unat i < 2 ^ 40" "unat j < 2 ^ 40" and k: "page_sub d i = Some k" "page_sub d j = Some k" for i j k
  proof -
    have "push_bit 12 i = push_bit 12 j" using sub [OF b(1) k(1)] sub [OF b(2) k(2)] by auto
    then show ?thesis using page_of_start [OF b(1)] page_of_start [OF b(2)] by metis
  qed
  show ?thesis unfolding owned_def mem_Collect_eq
  proof (intro ballI allI impI conjI)
    fix i k assume i: "i \<in> {i. covers 4 0 i}" "page_sub d i = Some k"
    then show "subpages d k \<noteq> None" using sub [of i k] covers_root [of i] by auto
    show "j = i" if "j \<in> {i. covers 4 0 i}" "page_sub d j = Some k" for j
      using one [of i j k] i that covers_root [of i] covers_root [of j] by simp
  qed
qed

lemma mem_begin_cleared:
  assumes inv: "phys_map_inv d" and o: "owned d {i. covers 4 0 i}" and fresh: "\<forall>k \<ge> next_subpage d. subpages d k = None"
  shows "\<exists>d'. mem_begin d = Some d' \<and> cleared d'"
proof -
  obtain lev tag where ok: "map_ok d lev tag" using inv by (auto simp: phys_map_inv_def)
  have r: "ref_ok d lev tag 4 0 Root" "1024 ^ 4 * Suc 0 \<le> (2 :: nat) ^ 40" by simp_all
  have nl: "\<not> is_leaf (read_entry d Root)" using ok by (simp add: map_ok_def)
  have re: "reached d 4 0 Root" by (simp add: reached_def phys_page_find_def)
  obtain d' where d': "destroy_l2_mapping 4 Root d = Some d'" "torn d lev tag 4 {i. covers 4 0 i} d'" "read_entry d' Root = nil_entry"
    by (rule tearsD [OF destroy_l2_tears ok r nl re o])
  have f: "subpages d' k = None" if "next_subpage d' \<le> k" for k
  proof (cases "subpages d' k = subpages d k")
    case True
    then show ?thesis using fresh that tornD(4) [OF d'(2)] by simp
  next
    case False
    then show ?thesis using tornD(6) [OF d'(2)] by blast
  qed
  have "phys_map d' = nil_entry" using d'(3) by simp
  then have "cleared ((phys_map_nodes_reset d')\<lparr>phys_map := (phys_map (phys_map_nodes_reset d'))\<lparr>ptr := PHYS_MAP_NODE_NIL\<rparr>\<rparr>)"
    using f by (simp add: cleared_def phys_map_nodes_reset_def nil_entry_def)
  then show ?thesis unfolding mem_begin_def destroy_all_mappings_def d'(1) by simp
qed

end
