(* ===== verification/MemTopology.thy ===== *)
theory MemTopology
  imports MemOps MemFlat PhysMapDestroy
begin

text \<open>
  The end of a transaction: whatever the tables held before, afterwards \<open>phys_target\<close> takes each address to the region
  and offset that the tree of regions resolves it to. This joins the rendering (\<open>MemFlat\<close>), the update pass and the
  dispatch tables (\<open>PhysMapSec\<close>, \<open>PhysMapDestroy\<close>).
\<close>

subsection \<open>The update pass\<close>

text \<open>With \<open>adding\<close>, the listener adds exactly the ranges of the new view, in order; without, it does nothing.\<close>

definition added :: "(nat \<Rightarrow> bool) \<Rightarrow> flat_range list \<Rightarrow> phys_dispatch \<Rightarrow> phys_dispatch option" where
  "added ram = fold_opt (\<lambda>f d. Option.bind (flat_section f) (\<lambda>s. mem_add ram s d))"

lemma update_pass_delete: "fold_opt (listener_step ram) (update_topology_pass old new False) d = Some d"
  by (induction old new False arbitrary: d rule: update_topology_pass.induct) (auto simp: listener_step_def)

lemma added_simps: "added ram [] = Some"
    "added ram (f # fs) = (\<lambda>d. Option.bind (Option.bind (flat_section f) (\<lambda>s. mem_add ram s d)) (added ram fs))"
  by (simp_all add: added_def fun_eq_iff)

lemma fold_step: "fold_opt F (x # xs) = (\<lambda>d. Option.bind (F x d) (fold_opt F xs))" "fold_opt F [] = Some"
  by (simp_all add: fun_eq_iff)

lemma update_pass_add: "fold_opt (listener_step ram) (update_topology_pass old new True) = added ram new"
proof (induction old new True rule: update_topology_pass.induct)
  case (4 old olds new news)
  have log: "fold_opt (listener_step ram) (Log_stop new # cs) = fold_opt (listener_step ram) cs"
    "fold_opt (listener_step ram) (Log_start new # cs) = fold_opt (listener_step ram) cs" for cs
    by (simp_all add: listener_step_def fun_eq_iff)
  have nop: "fold_opt (listener_step ram) (Region_nop new # cs) d = fold_opt (listener_step ram) (Region_add new # cs) d" for cs d
    by (simp add: listener_step_def)
  consider (old) "fr_start old < fr_start new \<or> fr_start old = fr_start new \<and> \<not> flatrange_equal old new"
    | (both) "\<not> (fr_start old < fr_start new \<or> fr_start old = fr_start new \<and> \<not> flatrange_equal old new)" "flatrange_equal old new"
    | (new) "\<not> (fr_start old < fr_start new \<or> fr_start old = fr_start new \<and> \<not> flatrange_equal old new)" "\<not> flatrange_equal old new"
    by blast
  then show ?case
  proof cases
    case old
    then show ?thesis using "4.hyps"(1) by simp
  next
    case both
    let ?cs = "update_topology_pass olds news True"
    have "\<exists>ls. update_topology_pass (old # olds) (new # news) True = Region_nop new # ls \<and>
        fold_opt (listener_step ram) ls = fold_opt (listener_step ram) ?cs"
      using both log [of ?cs] by (simp del: fold_opt.simps)
    then obtain ls where ls: "update_topology_pass (old # olds) (new # news) True = Region_nop new # ls"
      "fold_opt (listener_step ram) ls = added ram news"
      using "4.hyps"(2) [OF both] by auto
    show ?thesis unfolding ls(1) fold_step ls(2) by (simp add: listener_step_def added_simps)
  next
    case new
    have "update_topology_pass (old # olds) (new # news) True = Region_add new # update_topology_pass (old # olds) news True"
      using new by simp
    then show ?thesis using "4.hyps"(3) [OF new] by (simp only: fold_step) (simp add: listener_step_def added_simps)
  qed
next
  case (3 new news)
  have "update_topology_pass [] (new # news) True = Region_add new # update_topology_pass [] news True" by simp
  then show ?case using "3.hyps" by (simp only: fold_step) (simp add: listener_step_def added_simps)
qed (simp_all add: added_simps fold_step)

subsection \<open>The sections of a view\<close>

lemma unat_word_of_int: "0 \<le> v \<Longrightarrow> v < 2 ^ 64 \<Longrightarrow> unat (word_of_int v :: u64) = nat v"
  by (simp add: unsigned_of_int take_bit_int_eq_self)

lemma flat_section_ok:
  assumes "0 \<le> fr_start f" "fr_start f < fr_end f" "fr_end f \<le> 2 ^ 52"
  shows "\<exists>s. flat_section f = Some s \<and> good_section s \<and> (\<forall>a. in_section s a \<longleftrightarrow> fr_has f (uint a)) \<and>
    dest_of s = (Mr (fr_mr f), fr_offset_in_region f - word_of_int (fr_start f), fr_readonly f) \<and>
    unat (offset_within_address_space s) = nat (fr_start f) \<and> unat (sec_size s) = nat (ar_size (fr_addr f))"
proof -
  let ?s = "\<lparr>sec_mr = Mr (fr_mr f), offset_within_region = fr_offset_in_region f, sec_size = word_of_int (ar_size (fr_addr f)),
    offset_within_address_space = word_of_int (fr_start f), sec_readonly = fr_readonly f\<rparr>"
  have n: "0 \<le> fr_start f" "fr_start f < 2 ^ 52" "0 < ar_size (fr_addr f)" "fr_start f + ar_size (fr_addr f) \<le> 2 ^ 52"
    using assms by (simp_all add: addrrange_end_def)
  have u: "unat (word_of_int (fr_start f) :: u64) = nat (fr_start f)"
    "unat (word_of_int (ar_size (fr_addr f)) :: u64) = nat (ar_size (fr_addr f))"
    by (rule unat_word_of_int; use n in simp)+
  have sec: "flat_section f = Some ?s" using n by (simp add: flat_section_def get64_def)
  have "word_of_int (ar_size (fr_addr f)) \<noteq> (0 :: u64)" using u(2) n(3) by force
  moreover have "nat (fr_start f) + nat (ar_size (fr_addr f)) \<le> 2 ^ 52" using n by simp
  ultimately have good: "good_section ?s" using u unfolding good_section_def by simp
  have has: "in_section ?s a \<longleftrightarrow> fr_has f (uint a)" for a
  proof -
    have "in_section ?s a \<longleftrightarrow> nat (fr_start f) \<le> nat (uint a) \<and> nat (uint a) < nat (fr_start f) + nat (ar_size (fr_addr f))"
      using u by (simp only: in_section_def memory_region_section.simps unat_eq_nat_uint)
    then show ?thesis using n uint_ge_0 [of a] unfolding addrrange_contains_def addrrange_end_def by linarith
  qed
  show ?thesis
    by (intro exI [of _ ?s] conjI allI sec good has) (simp_all only: dest_of_def memory_region_section.simps u)
qed

definition view_dest :: "flat_range list \<Rightarrow> u64 \<Rightarrow> dest option" where
  "view_dest v a = map_option (\<lambda>(r, delta, mask', readable, ro). (Mr r, delta, ro)) (view_at v (uint a))"

text \<open>The sections of a view that ends below 2 ^ 52.\<close>

definition sections_of :: "flat_range list \<Rightarrow> memory_region_section list" where
  "sections_of v = List.map_filter flat_section v"

definition view_cost :: "flat_range list \<Rightarrow> nat" where
  "view_cost v = sum_list (map section_cost (sections_of v))"

lemma view_sections:
  "sorted_view lo v \<Longrightarrow> 0 \<le> lo \<Longrightarrow> list_all (\<lambda>f. fr_end f \<le> 2 ^ 52) v \<Longrightarrow>
    added ram v d = mem_add_all ram (sections_of v) d \<and> list_all good_section (sections_of v) \<and>
    disjoint_sections (sections_of v) \<and> dest_at (sections_of v) a = view_dest v a \<and>
    (\<forall>s a. s \<in> set (sections_of v) \<and> in_section s a \<longrightarrow> lo \<le> uint a)"
proof (induction v arbitrary: lo d)
  case Nil
  then show ?case by (simp add: sections_of_def map_filter_simps added_def dest_at_def view_dest_def)
next
  case (Cons f v)
  have f: "lo \<le> fr_start f" "fr_start f < fr_end f" "sorted_view (fr_end f) v" "0 \<le> fr_start f" "0 \<le> fr_end f"
    using Cons.prems by simp_all
  obtain s where s: "flat_section f = Some s" "good_section s" "\<And>a. in_section s a \<longleftrightarrow> fr_has f (uint a)"
    "dest_of s = (Mr (fr_mr f), fr_offset_in_region f - word_of_int (fr_start f), fr_readonly f)"
    using flat_section_ok [OF f(4,2)] Cons.prems(3) by auto
  have eq: "sections_of (f # v) = s # sections_of v" using s(1) by (simp add: sections_of_def map_filter_simps)
  note IH = Cons.IH [OF f(3,5)]
  have v: "list_all (\<lambda>f. fr_end f \<le> 2 ^ 52) v" using Cons.prems(3) by simp
  have later: "fr_end f \<le> uint a" if "t \<in> set (sections_of v)" "in_section t a" for t a using IH v that by blast
  have "mem_add_all ram (sections_of v) = added ram v" using IH v by (simp add: fun_eq_iff)
  then have "added ram (f # v) d = mem_add_all ram (sections_of (f # v)) d" by (simp add: added_def s(1) eq)
  moreover have "disjoint_sections (sections_of (f # v))"
    using IH v later s(3) unfolding eq by (auto simp: list_all_iff addrrange_contains_def) force
  moreover have "dest_at (sections_of (f # v)) a = view_dest (f # v) a"
    using IH v s(3,4) unfolding eq dest_at_Cons by (simp add: view_dest_def fr_dest_def)
  moreover have "\<forall>t a. t \<in> set (sections_of (f # v)) \<and> in_section t a \<longrightarrow> lo \<le> uint a"
    using later s(3) f(1,2) unfolding eq by (auto simp: addrrange_contains_def) fastforce
  ultimately show ?case using IH v s(2) unfolding eq by simp
qed

subsection \<open>The end of a transaction\<close>

text \<open>The tables are as the listener or \<open>address_space_init_dispatch\<close> left them.\<close>

definition dispatch_ready :: "phys_dispatch \<Rightarrow> bool" where
  "dispatch_ready d \<longleftrightarrow> phys_map_inv d \<and> owned d {i. covers 4 0 i} \<and> (\<forall>k \<ge> next_subpage d. subpages d k = None)"

lemma dispatch_inv_ready: "dispatch_inv ram d \<mu> \<Longrightarrow> dispatch_ready d"
  using dispatch_owned [of ram d \<mu>] by (simp add: dispatch_ready_def dispatch_inv_def)

lemma init_dispatch_ready: "dispatch_ready init_dispatch"
proof -
  have "phys_page_find init_dispatch i = 0" for i by (rule find_empty) (simp add: init_dispatch_def)
  then have "page_sub init_dispatch i = None" for i by (simp add: page_sub_def init_dispatch_def dummy_section_def)
  then show ?thesis using phys_map_inv_empty [of init_dispatch]
    by (simp add: dispatch_ready_def owned_def init_dispatch_def)
qed

text \<open>The tables have room for 4681 registrations; the view ends below 2 ^ 52, as far as the tables reach.\<close>

definition view_fits :: "flat_range list \<Rightarrow> bool" where
  "view_fits v \<longleftrightarrow> list_all (\<lambda>f. fr_end f \<le> 2 ^ 52) v \<and> view_cost v \<le> 4681"

lemma rebuild_tables:
  assumes d: "dispatch_ready d" and v: "sorted_view 0 v" "view_fits v"
  shows "\<exists>d0 d'. mem_begin d = Some d0 \<and> added ram v (core_begin d0) = Some d' \<and> dispatch_inv ram d' (view_dest v)"
proof -
  obtain d0 where d0: "mem_begin d = Some d0" "cleared d0"
    using d mem_begin_cleared [of d] by (auto simp: dispatch_ready_def)
  note c = core_begin_inv [OF d0(2)]
  have e: "list_all (\<lambda>f. fr_end f \<le> 2 ^ 52) v" using v(2) by (simp add: view_fits_def)
  note s = view_sections [OF v(1) order_refl e]
  have "fits (sum_list (map section_cost (sections_of v)) + 0) (core_begin d0)"
    using c(2,3) v(2) by (simp add: fits_def view_fits_def view_cost_def)
  then obtain d' where d': "mem_add_all ram (sections_of v) (core_begin d0) = Some d'"
    "dispatch_inv ram d' (\<lambda>a. case dest_at (sections_of v) a of None \<Rightarrow> None | Some t \<Rightarrow> Some t)"
    using mem_add_all_inv [OF c(1) [of ram], of "sections_of v" 0] s by auto
  have "(\<lambda>a. case dest_at (sections_of v) a of None \<Rightarrow> None | Some t \<Rightarrow> Some t) = view_dest v"
    using s by (simp add: fun_eq_iff split: option.splits)
  moreover have "added ram v (core_begin d0) = Some d'" using s d'(1) by simp
  ultimately show ?thesis using d0(1) d'(2) by auto
qed

text \<open>A commit that ends the outermost transaction with an update pending.\<close>

lemma commit_update:
  assumes m: "ms_transaction_depth m = 1" "ms_update_pending m" "ms_root m = Some r" "dispatch_ready (ms_dispatch m)"
    and tree: "ranked (ms_regions m) rank" "ms_regions m r = Some mr" "rank r < n" "reg_size mr < 2 ^ 64"
    and fits: "\<And>v. generate_memory_topology n (ms_regions m) (Some r) = Some v \<Longrightarrow> view_fits v"
  obtains v d0 d where "generate_memory_topology n (ms_regions m) (Some r) = Some v"
    "added (is_ram (ms_regions m)) v (core_begin d0) = Some d"
    "memory_region_transaction_commit n m = Some (m\<lparr>ms_transaction_depth := 0, ms_update_pending := False,
       ms_current_map := v, ms_dispatch := d, ms_tlb_flushes := Suc (ms_tlb_flushes m)\<rparr>)"
    "dispatch_inv (is_ram (ms_regions m)) d (view_dest v)"
proof -
  obtain v where v: "generate_memory_topology n (ms_regions m) (Some r) = Some v"
    using generate_total [OF tree] by blast
  have sz: "sizes_ok (ms_regions m)" using tree(1) by (simp add: ranked_def)
  have sv: "sorted_view 0 v" using generate_view(1) [OF sz v] by (simp add: flat_view_ok_def)
  obtain d0 d where d: "mem_begin (ms_dispatch m) = Some d0" "added (is_ram (ms_regions m)) v (core_begin d0) = Some d"
    "dispatch_inv (is_ram (ms_regions m)) d (view_dest v)"
    using rebuild_tables [OF m(4) sv fits [OF v]] by blast
  have "memory_region_transaction_commit n m = Some (m\<lparr>ms_transaction_depth := 0, ms_update_pending := False,
       ms_current_map := v, ms_dispatch := d, ms_tlb_flushes := Suc (ms_tlb_flushes m)\<rparr>)"
    using m v d(1,2)
    by (simp add: memory_region_transaction_commit_def address_space_update_topology_def Let_def update_pass_delete update_pass_add)
  then show thesis using that v d(2,3) by blast
qed


text \<open>C38. Committing a change of the memory map brings the dispatch tables up to date. When the outermost transaction
  ends with an update pending, for any tree as above whose view lies below 2 ^ 52 and needs at most 4681 registrations
  (so that the page table cannot run out of nodes), the old tables are torn down and new ones are built without an
  abort; afterwards the lookup of each address below 2 ^ 52 leads to the region, offset and write protection that the
  tree gives it, through a shared page where regions meet inside one, and to the unassigned region where the tree has
  nothing. The TLBs are flushed once.\<close>

theorem commit_rebuilds_dispatch:
  assumes m: "ms_transaction_depth m = 1" "ms_update_pending m" "ms_root m = Some r" "dispatch_ready (ms_dispatch m)"
    and tree: "ranked (ms_regions m) rank" "ms_regions m r = Some mr" "rank r < n" "reg_size mr < 2 ^ 64"
    and fits: "\<And>v. generate_memory_topology n (ms_regions m) (Some r) = Some v \<Longrightarrow> view_fits v"
    and a: "unat a < 2 ^ 52"
  shows "\<exists>m' s off. memory_region_transaction_commit n m = Some m' \<and> dispatch_ready (ms_dispatch m') \<and>
    ms_tlb_flushes m' = ms_tlb_flushes m + 1 \<and> phys_target (ms_dispatch m') a = Some (s, off) \<and>
    (case resolve n (ms_regions m) r 0 False (uint a) of
       None \<Rightarrow> sec_mr s = Io_unassigned
     | Some (q, delta, mask', readable, ro) \<Rightarrow> off = a + delta \<and> sec_readonly s = ro \<and>
         (sec_mr s = Mr q \<or> is_ram (ms_regions m) q \<and> sec_mr s = Io_subpage_ram))"
proof -
  obtain v d0 d where v: "generate_memory_topology n (ms_regions m) (Some r) = Some v"
    "memory_region_transaction_commit n m = Some (m\<lparr>ms_transaction_depth := 0, ms_update_pending := False,
       ms_current_map := v, ms_dispatch := d, ms_tlb_flushes := Suc (ms_tlb_flushes m)\<rparr>)"
    "dispatch_inv (is_ram (ms_regions m)) d (view_dest v)"
    by (rule commit_update [OF m tree fits]) blast+
  have "sizes_ok (ms_regions m)" using tree(1) by (simp add: ranked_def)
  from generate_view(2) [OF this v(1), of "uint a"] have at: "view_at v (uint a) = resolve n (ms_regions m) r 0 False (uint a)"
    using uint_bounded [of a] by simp
  obtain s where s: "phys_target d a = Some (s, a + (case view_dest v a of None \<Rightarrow> fst (snd (dest_of s)) | Some (r, off, ro) \<Rightarrow> off))"
    "case view_dest v a of None \<Rightarrow> sec_mr s = Io_unassigned
     | Some (q, off, ro) \<Rightarrow> sec_readonly s = ro \<and>
         (sec_mr s = q \<or> is_ram_ref (is_ram (ms_regions m)) q \<and> sec_mr s = Io_subpage_ram)"
    using phys_target_dest [OF v(3) a] by blast
  show ?thesis
  proof (cases "resolve n (ms_regions m) r 0 False (uint a)")
    case None
    then show ?thesis using v(2) s dispatch_inv_ready [OF v(3)] at by (simp add: view_dest_def)
  next
    case (Some t)
    obtain q delta mask' readable ro where t: "t = (q, delta, mask', readable, ro)" by (cases t)
    show ?thesis using v(2) s dispatch_inv_ready [OF v(3)] at Some t by (simp add: view_dest_def is_ram_ref_def)
  qed
qed

definition demo_state :: memory_state where
  "demo_state = memory_map_init\<lparr>ms_regions := demo_tree, ms_transaction_depth := 1, ms_update_pending := True\<rparr>"


lemma demo_view: "case generate_memory_topology 3 demo_tree (Some 0) of None \<Rightarrow> False | Some v \<Rightarrow> view_fits v"
  by code_simp

lemma demo_fits: "generate_memory_topology 3 (ms_regions demo_state) (Some 0) = Some v \<Longrightarrow> view_fits v"
  using demo_view by (simp add: demo_state_def)

lemma demo_state_ready: "ms_transaction_depth demo_state = 1" "ms_update_pending demo_state" "ms_root demo_state = Some 0"
  "dispatch_ready (ms_dispatch demo_state)" "ms_regions demo_state = demo_tree"
  by (simp_all add: demo_state_def memory_map_init_def init_dispatch_ready)

lemma demo_page: "resolve 3 demo_tree 0 0 False 0x900 = Some (4, 0x800, 0, True, False)"
  by (simp add: numeral_3_eq_3 demo_tree_def demo_ram_def demo_region_def Let_def)

theorem commit_rebuilds_dispatch_witness:
  "\<exists>m' s off. memory_region_transaction_commit 3 demo_state = Some m' \<and> phys_target (ms_dispatch m') 0x900 = Some (s, off) \<and>
    off = 0x1100 \<and> \<not> sec_readonly s \<and> (sec_mr s = Mr 4 \<or> sec_mr s = Io_subpage_ram)"
  using commit_rebuilds_dispatch [OF demo_state_ready(1-4) demo_ranked [folded demo_state_ready(5)] demo_fits, of "0x900"]
  unfolding demo_state_ready(5) by (auto simp: demo_page)

end
