(* ===== verification/PhysAccess.thy ===== *)
theory PhysAccess
  imports MemOps
begin

text \<open>
  Accesses to physical memory from outside the guest: \<open>address_space_rw\<close>, \<open>cpu_physical_memory_write_rom\<close> and the
  callbacks of the regions of \<open>exec.c\<close>. A device of the board answers as the argument \<open>dev\<close> says; the library has
  none. \<open>host\<close> is the memory of the host program, in which the RAM blocks lie.
\<close>

record access_state =
  ac_mem :: memory_state
  ac_host :: "u64 \<Rightarrow> u8"
  ac_invalidated :: "(u64 \<times> nat) list"

record devices =
  dev_read :: "nat \<Rightarrow> u64 \<Rightarrow> nat \<Rightarrow> u64"
  dev_write :: "nat \<Rightarrow> u64 \<Rightarrow> u64 \<Rightarrow> nat \<Rightarrow> access_state \<Rightarrow> access_state"

definition le_bytes :: "nat \<Rightarrow> u64 \<Rightarrow> u8 list" where
  "le_bytes n v = map (\<lambda>i. ucast (drop_bit (8 * i) v)) [0..<n]"

fun le_value :: "u8 list \<Rightarrow> u64" where
  "le_value [] = 0"
| "le_value (b # bs) = ucast b OR push_bit 8 (le_value bs)"

definition host_bytes :: "(u64 \<Rightarrow> u8) \<Rightarrow> u64 \<Rightarrow> nat \<Rightarrow> u8 list" where
  "host_bytes h p n = map (\<lambda>i. h (p + word_of_nat i)) [0..<n]"

fun put_host :: "u64 \<Rightarrow> u8 list \<Rightarrow> (u64 \<Rightarrow> u8) \<Rightarrow> (u64 \<Rightarrow> u8)" where
  "put_host p [] h = h"
| "put_host p (b # bs) h = put_host (p + 1) bs (h(p := b))"

subsection \<open>Callbacks\<close>

text \<open>The host pointer of a RAM address; the list of blocks remembers the block.\<close>

definition get_ram_ptr :: "u64 \<Rightarrow> access_state \<Rightarrow> (access_state \<times> u64) option" where
  "get_ram_ptr addr st =
    map_option (\<lambda>(ram, p). (st\<lparr>ac_mem := (ac_mem st)\<lparr>ms_ram := ram\<rparr>\<rparr>, p)) (qemu_get_ram_ptr addr (ms_ram (ac_mem st)))"

text \<open>
  \<open>io_mem_read\<close> with \<open>memory_region_dispatch_read1\<close> for these regions: an unaligned access gives all ones in 32 bits;
  no access is larger than four bytes, so that \<open>access_with_adjusted_size\<close> makes one call.
\<close>

definition io_masked :: "u64 \<Rightarrow> nat \<Rightarrow> (access_state \<times> u64) option \<Rightarrow> access_state \<Rightarrow> (access_state \<times> u64) option" where
  "io_masked addr size' r st =
    (if addr AND (word_of_nat size' - 1) \<noteq> 0 then Some (st, 0xFFFFFFFF)
     else map_option (\<lambda>(st, v). (st, take_bit (8 * size') v)) r)"

definition unassigned_mem_read :: "access_state \<Rightarrow> (access_state \<times> u64) option" where
  "unassigned_mem_read st = Some (st, 0)"

definition unassigned_mem_write :: "access_state \<Rightarrow> access_state option" where
  "unassigned_mem_write st = Some st"

definition subpage_ram_read :: "u64 \<Rightarrow> nat \<Rightarrow> access_state \<Rightarrow> (access_state \<times> u64) option" where
  "subpage_ram_read addr size' st =
    map_option (\<lambda>(st, p). (st, le_value (host_bytes (ac_host st) p size'))) (get_ram_ptr addr st)"

definition subpage_ram_write :: "u64 \<Rightarrow> u64 \<Rightarrow> nat \<Rightarrow> access_state \<Rightarrow> access_state option" where
  "subpage_ram_write addr v size' st =
    map_option (\<lambda>(st, p). st\<lparr>ac_host := put_host p (le_bytes size' v) (ac_host st)\<rparr>) (get_ram_ptr addr st)"

text \<open>
  \<open>io_mem_read\<close> and \<open>io_mem_write\<close> of the regions below a subpage; \<open>io_mem_watch\<close> is reached only through the TLB, and
  reading the region of ROM aborts.
\<close>

definition leaf_read :: "devices \<Rightarrow> mr_ref \<Rightarrow> u64 \<Rightarrow> nat \<Rightarrow> access_state \<Rightarrow> (access_state \<times> u64) option" where
  "leaf_read dev r addr size' st = (case r of
     Mr n \<Rightarrow> if ms_regions (ac_mem st) n = None then None else Some (st, dev_read dev n addr size')
   | Io_unassigned \<Rightarrow> io_masked addr size' (unassigned_mem_read st) st
   | Io_subpage_ram \<Rightarrow> io_masked addr size' (subpage_ram_read addr size' st) st
   | _ \<Rightarrow> None)"

definition phys_io_read :: "devices \<Rightarrow> mr_ref \<Rightarrow> u64 \<Rightarrow> nat \<Rightarrow> access_state \<Rightarrow> (access_state \<times> u64) option" where
  "phys_io_read dev r addr size' st = (case r of
     Subpage k \<Rightarrow> io_masked addr size' (do {
       sp \<leftarrow> subpages (ms_dispatch (ac_mem st)) k;
       let (s, a) = subpage_target (ms_dispatch (ac_mem st)) sp addr;
       leaf_read dev (sec_mr s) a size' st
     }) st
   | _ \<Rightarrow> leaf_read dev r addr size' st)"

definition io_checked :: "u64 \<Rightarrow> nat \<Rightarrow> access_state option \<Rightarrow> access_state \<Rightarrow> access_state option" where
  "io_checked addr size' r st = (if addr AND (word_of_nat size' - 1) \<noteq> 0 then Some st else r)"

definition leaf_write :: "devices \<Rightarrow> mr_ref \<Rightarrow> u64 \<Rightarrow> u64 \<Rightarrow> nat \<Rightarrow> access_state \<Rightarrow> access_state option" where
  "leaf_write dev r addr v size' st = (case r of
     Mr n \<Rightarrow> if ms_regions (ac_mem st) n = None then None else Some (dev_write dev n addr v size' st)
   | Io_unassigned \<Rightarrow> io_checked addr size' (unassigned_mem_write st) st
   | Io_rom \<Rightarrow> io_checked addr size' (unassigned_mem_write st) st
   | Io_subpage_ram \<Rightarrow> io_checked addr size' (subpage_ram_write addr v size' st) st
   | _ \<Rightarrow> None)"

definition phys_io_write :: "devices \<Rightarrow> mr_ref \<Rightarrow> u64 \<Rightarrow> u64 \<Rightarrow> nat \<Rightarrow> access_state \<Rightarrow> access_state option" where
  "phys_io_write dev r addr v size' st = (case r of
     Subpage k \<Rightarrow> io_checked addr size' (do {
       sp \<leftarrow> subpages (ms_dispatch (ac_mem st)) k;
       let (s, a) = subpage_target (ms_dispatch (ac_mem st)) sp addr;
       leaf_write dev (sec_mr s) a v size' st
     }) st
   | _ \<Rightarrow> leaf_write dev r addr v size' st)"

subsection \<open>Reading and writing\<close>

definition phys_section :: "access_state \<Rightarrow> u64 \<Rightarrow> memory_region_section" where
  "phys_section st addr =
    (let d = ms_dispatch (ac_mem st) in phys_sections d (phys_page_find d (drop_bit PAGE_BITS (addr AND NOT PAGE_OFFSET))))"

text \<open>The rest of the page, cut to \<open>len\<close>.\<close>

definition page_rest :: "u64 \<Rightarrow> nat \<Rightarrow> nat" where
  "page_rest addr len = min (unat ((addr AND NOT PAGE_OFFSET) + PAGE_SIZE - addr)) len"

definition io_width :: "u64 \<Rightarrow> nat \<Rightarrow> nat" where
  "io_width addr1 l = (if l \<ge> 4 \<and> addr1 AND 3 = 0 then 4 else if l \<ge> 2 \<and> addr1 AND 1 = 0 then 2 else 1)"

definition section_ram :: "access_state \<Rightarrow> memory_region_section \<Rightarrow> memory_region option" where
  "section_ram st s = (case sec_mr s of
     Mr r \<Rightarrow> (case ms_regions (ac_mem st) r of Some mr \<Rightarrow> if reg_ram mr then Some mr else None | None \<Rightarrow> None) | _ \<Rightarrow> None)"

text \<open>What is read without a callback: RAM and ROM devices that allow it.\<close>

definition section_direct :: "access_state \<Rightarrow> memory_region_section \<Rightarrow> memory_region option" where
  "section_direct st s = (case sec_mr s of
     Mr r \<Rightarrow> (case ms_regions (ac_mem st) r of
         Some mr \<Rightarrow> if reg_ram mr \<or> memory_region_is_romd mr then Some mr else None | None \<Rightarrow> None) | _ \<Rightarrow> None)"

lemma page_rest_eq: "page_rest addr len = min (4096 - unat addr mod 4096) len"
proof -
  have e: "(addr AND NOT PAGE_OFFSET) + PAGE_SIZE - addr = PAGE_SIZE - (addr AND 0xFFF)"
    using split_low [of addr] by (simp add: algebra_simps)
  have "unat (PAGE_SIZE - (addr AND 0xFFF)) = unat PAGE_SIZE - unat (addr AND 0xFFF)"
    by (rule unat_sub_64) (simp add: unat_low less_imp_le)
  then show ?thesis unfolding page_rest_def e by (simp add: unat_low)
qed

lemma page_rest_pos: "0 < len \<Longrightarrow> 0 < page_rest addr len"
  by (simp add: page_rest_eq)

lemma io_width_pos: "0 < io_width a l" by (simp add: io_width_def)

function address_space_read :: "devices \<Rightarrow> u64 \<Rightarrow> nat \<Rightarrow> access_state \<Rightarrow> (access_state \<times> u8 list) option" where
  "address_space_read dev addr len st =
    (if len = 0 then Some (st, [])
     else
       let l = page_rest addr len; s = phys_section st addr; addr1 = memory_region_section_addr s addr
       in case section_direct st s of
          None \<Rightarrow>
            let w = io_width addr1 l
            in do {
              (st, v) \<leftarrow> phys_io_read dev (sec_mr s) addr1 w st;
              (st, bs) \<leftarrow> address_space_read dev (addr + word_of_nat w) (len - w) st;
              Some (st, le_bytes w v @ bs)
            }
        | Some mr \<Rightarrow> do {
            (st, p) \<leftarrow> get_ram_ptr (reg_ram_addr mr + addr1) st;
            (st, bs) \<leftarrow> address_space_read dev (addr + word_of_nat l) (len - l) st;
            Some (st, host_bytes (ac_host st) p l @ bs)
          })"
  by pat_completeness auto

termination
  by (relation "measure (\<lambda>(dev, addr, len, st). len)") (use page_rest_pos io_width_pos in auto)

definition cpu_invalidate_and_set_dirty :: "u64 \<Rightarrow> nat \<Rightarrow> access_state \<Rightarrow> access_state" where
  "cpu_invalidate_and_set_dirty addr len st =
    (let p = drop_bit 12 addr; ram = ms_ram (ac_mem st)
     in if rl_dirty ram p \<noteq> 0xFF
        then st\<lparr>ac_invalidated := (addr, len) # ac_invalidated st,
                ac_mem := (ac_mem st)\<lparr>ms_ram := ram\<lparr>rl_dirty := (rl_dirty ram)(p := rl_dirty ram p OR 0xFD)\<rparr>\<rparr>\<rparr>
        else st)"

function address_space_write :: "devices \<Rightarrow> u64 \<Rightarrow> u8 list \<Rightarrow> access_state \<Rightarrow> access_state option" where
  "address_space_write dev addr buf st =
    (if buf = [] then Some st
     else
       let l = page_rest addr (length buf); s = phys_section st addr; addr1 = memory_region_section_addr s addr
       in case section_ram st s of
          None \<Rightarrow>
            let w = io_width addr1 l
            in do {
              st \<leftarrow> phys_io_write dev (sec_mr s) addr1 (le_value (take w buf)) w st;
              address_space_write dev (addr + word_of_nat w) (drop w buf) st
            }
        | Some mr \<Rightarrow> do {
            st \<leftarrow> (if sec_readonly s then Some st
              else do {
                (st, p) \<leftarrow> get_ram_ptr (reg_ram_addr mr + addr1) st;
                Some (cpu_invalidate_and_set_dirty (reg_ram_addr mr + addr1) l
                  (st\<lparr>ac_host := put_host p (take l buf) (ac_host st)\<rparr>))
              });
            address_space_write dev (addr + word_of_nat l) (drop l buf) st
          })"
  by pat_completeness auto

termination
  by (relation "measure (\<lambda>(dev, addr, buf, st). length buf)") (use page_rest_pos io_width_pos in auto)

text \<open>\<open>cpu_physical_memory_write_rom\<close> skips whatever is not read directly and ignores the write protection.\<close>

function cpu_physical_memory_write_rom :: "u64 \<Rightarrow> u8 list \<Rightarrow> access_state \<Rightarrow> access_state option" where
  "cpu_physical_memory_write_rom addr buf st =
    (if buf = [] then Some st
     else
       let l = page_rest addr (length buf); s = phys_section st addr
       in do {
         st \<leftarrow> (case section_direct st s of
             None \<Rightarrow> Some st
           | Some mr \<Rightarrow>
               let addr1 = reg_ram_addr mr + memory_region_section_addr s addr
               in do {
                 (st, p) \<leftarrow> get_ram_ptr addr1 st;
                 Some (cpu_invalidate_and_set_dirty addr1 l (st\<lparr>ac_host := put_host p (take l buf) (ac_host st)\<rparr>))
               });
         cpu_physical_memory_write_rom (addr + word_of_nat l) (drop l buf) st
       })"
  by pat_completeness auto

termination
  by (relation "measure (\<lambda>(addr, buf, st). length buf)") (use page_rest_pos in auto)

end
