(* ===== verification/VxRam.thy ===== *)
theory VxRam
  imports MemBound PhysAccess
begin

text \<open>
  \<open>vx64_setup_ram\<close> and \<open>vx64_remove_ram\<close> (\<open>vx64.c\<close>): the library's interface to guest memory. A board is the
  region of the system with one RAM region for each call, the newest first. The pointers \<open>malloc\<close> gives for the
  regions are arguments. Rendering needs two levels: the system and its children.
\<close>

definition vx64_setup_ram :: "nat \<Rightarrow> u64 \<Rightarrow> u32 \<Rightarrow> u64 \<Rightarrow> memory_state \<Rightarrow> memory_state option" where
  "vx64_setup_ram r guest_pa size' p m = do {
     m \<leftarrow> memory_region_init_ram_ptr r (ucast size') p m;
     memory_region_add_subregion 2 0 guest_pa r m
   }"

definition vx64_remove_ram :: "nat \<Rightarrow> memory_state \<Rightarrow> memory_state option" where
  "vx64_remove_ram r m = do {
     m \<leftarrow> memory_region_del_subregion 2 0 r m;
     m \<leftarrow> memory_region_destroy r m;
     Some (m\<lparr>ms_regions := (ms_regions m)(r := None)\<rparr>)
   }"

definition vx64_dirty :: "u64 \<Rightarrow> u64 \<Rightarrow> access_state \<Rightarrow> access_state" where
  "vx64_dirty guest_pa len st = cpu_invalidate_and_set_dirty guest_pa (unat len) st"

subsection \<open>What the client has set up\<close>

record ram_slot =
  sl_id :: nat
  sl_pa :: u64
  sl_size :: u32
  sl_host :: u64

text \<open>Whole pages below 2 ^ 52, as far as the dispatch tables reach.\<close>

definition slot_ok :: "ram_slot \<Rightarrow> bool" where
  "slot_ok s \<longleftrightarrow> sl_id s \<noteq> 0 \<and> sl_pa s AND PAGE_OFFSET = 0 \<and> sl_size s AND 0xFFF = 0 \<and> sl_size s \<noteq> 0 \<and>
    uint (sl_pa s) + uint (sl_size s) \<le> 2 ^ 52"

definition in_slot :: "ram_slot \<Rightarrow> int \<Rightarrow> bool" where
  "in_slot s x \<longleftrightarrow> uint (sl_pa s) \<le> x \<and> x < uint (sl_pa s) + uint (sl_size s)"

text \<open>The newest region over an address has it.\<close>

definition slot_at :: "ram_slot list \<Rightarrow> u64 \<Rightarrow> ram_slot option" where
  "slot_at ss a = find (\<lambda>s. in_slot s (uint a)) ss"

datatype ram_call = Setup_ram ram_slot | Remove_ram nat

definition ram_call :: "ram_call \<Rightarrow> memory_state \<Rightarrow> memory_state option" where
  "ram_call c m = (case c of
     Setup_ram s \<Rightarrow> vx64_setup_ram (sl_id s) (sl_pa s) (sl_size s) (sl_host s) m
   | Remove_ram r \<Rightarrow> vx64_remove_ram r m)"

fun ram_calls :: "ram_call list \<Rightarrow> memory_state \<Rightarrow> memory_state option" where
  "ram_calls [] m = Some m"
| "ram_calls (c # cs) m = Option.bind (ram_call c m) (ram_calls cs)"

fun slots_after :: "ram_call \<Rightarrow> ram_slot list \<Rightarrow> ram_slot list" where
  "slots_after (Setup_ram s) ss = s # ss"
| "slots_after (Remove_ram r) ss = filter (\<lambda>s. sl_id s \<noteq> r) ss"

text \<open>At most 780 regions at a time; only what was set up is removed.\<close>

fun call_ok :: "ram_call \<Rightarrow> ram_slot list \<Rightarrow> bool" where
  "call_ok (Setup_ram s) ss \<longleftrightarrow> slot_ok s \<and> sl_id s \<notin> sl_id ` set ss \<and> length ss < 780"
| "call_ok (Remove_ram r) ss \<longleftrightarrow> r \<in> sl_id ` set ss"

fun calls_ok :: "ram_call list \<Rightarrow> ram_slot list \<Rightarrow> bool" where
  "calls_ok [] ss \<longleftrightarrow> True"
| "calls_ok (c # cs) ss \<longleftrightarrow> call_ok c ss \<and> calls_ok cs (slots_after c ss)"

subsection \<open>The board\<close>

definition system_region :: "ram_slot list \<Rightarrow> memory_region" where
  "system_region ss = (memory_region_init 0x7FFFFFFFFFFFFFFF)\<lparr>reg_subregions := map sl_id ss\<rparr>"

definition ram_region :: "ram_slot \<Rightarrow> u64 \<Rightarrow> memory_region" where
  "ram_region s off = (memory_region_init (ucast (sl_size s)))\<lparr>reg_ram := True, reg_terminates := True,
     reg_destructor := Destructor_ram_from_ptr, reg_ram_addr := off\<rparr>"

definition child_region :: "ram_slot \<Rightarrow> u64 \<Rightarrow> memory_region" where
  "child_region s off = (ram_region s off)\<lparr>reg_parent := Some 0, reg_addr := sl_pa s\<rparr>"

definition board_regions :: "ram_slot list \<Rightarrow> (nat \<Rightarrow> u64) \<Rightarrow> region_store" where
  "board_regions ss off = (\<lambda>r. if r = 0 then Some (system_region ss)
     else map_option (\<lambda>s. child_region s (off r)) (find (\<lambda>s. sl_id s = r) ss))"

definition slots_ok :: "ram_slot list \<Rightarrow> bool" where
  "slots_ok ss \<longleftrightarrow> distinct (map sl_id ss) \<and> list_all slot_ok ss"

lemma ucast_size: "uint (ucast (w :: u32) :: u64) = uint w" "(ucast w :: u64) \<noteq> - 1"
proof -
  have "uint w < 2 ^ 32" using uint_bounded [of w] by simp
  then show u: "uint (ucast w :: u64) = uint w" by (simp add: unsigned_ucast_eq take_bit_int_eq_self)
  have "uint w < 2 ^ 32" using uint_bounded [of w] by simp
  then have "uint (ucast w :: u64) < 2 ^ 32" by (simp only: u)
  then show "(ucast w :: u64) \<noteq> - 1" by (auto simp: unsigned_minus_1_eq_mask mask_eq_exp_minus_1)
qed

lemma child_simps [simp]:
  "reg_size (child_region s off) = uint (sl_size s)" "reg_addr (child_region s off) = sl_pa s"
  "reg_alias (child_region s off) = None" "reg_subregions (child_region s off) = []" "reg_terminates (child_region s off)"
  "reg_enabled (child_region s off)" "\<not> reg_readonly (child_region s off)" "reg_dirty_log_mask (child_region s off) = 0"
  "reg_readable (child_region s off)" "reg_ram (child_region s off)" "reg_ram_addr (child_region s off) = off"
  "reg_priority (child_region s off) = 0" "reg_parent (child_region s off) = Some 0"
  "reg_destructor (child_region s off) = Destructor_ram_from_ptr"
  using ucast_size [of "sl_size s"] by (simp_all add: child_region_def ram_region_def memory_region_init_def)

lemma system_simps [simp]:
  "reg_size (system_region ss) = 2 ^ 63 - 1" "reg_addr (system_region ss) = 0" "reg_alias (system_region ss) = None"
  "reg_subregions (system_region ss) = map sl_id ss" "\<not> reg_terminates (system_region ss)" "reg_enabled (system_region ss)"
  "\<not> reg_readonly (system_region ss)" "\<not> reg_ram (system_region ss)"
  by (simp_all add: system_region_def memory_region_init_def)

lemma board_child: "slots_ok ss \<Longrightarrow> s \<in> set ss \<Longrightarrow> board_regions ss off (sl_id s) = Some (child_region s (off (sl_id s)))"
proof -
  assume o: "slots_ok ss" and s: "s \<in> set ss"
  have d: "distinct (map sl_id ss)" and nz: "sl_id s \<noteq> 0" using o s by (auto simp: slots_ok_def list_all_iff slot_ok_def)
  have "find (\<lambda>t. sl_id t = sl_id s) ss = Some s" using d s by (induction ss) auto
  then show ?thesis using nz by (simp add: board_regions_def)
qed

lemma board_region_cases:
  assumes "board_regions ss off r = Some mr"
  obtains "r = 0" "mr = system_region ss" | s where "s \<in> set ss" "r = sl_id s" "mr = child_region s (off r)"
  using assms by (auto simp: board_regions_def find_Some_iff in_set_conv_nth split: if_splits)

lemma board_ranked:
  assumes "slots_ok ss" shows "ranked (board_regions ss off) (\<lambda>r. if r = 0 then 1 else 0)"
proof -
  have size: "0 \<le> uint (sl_size s) \<and> uint (sl_size s) \<le> 2 ^ 64" for s using uint_bounded [of "sl_size s"] by simp
  have "sizes_ok (board_regions ss off)"
    unfolding sizes_ok_def using size by (auto elim!: board_region_cases)
  moreover have "board_regions ss off (sl_id s) \<noteq> None \<and> sl_id s \<noteq> 0" if "s \<in> set ss" for s
    using board_child [OF assms that] assms that by (simp add: slots_ok_def list_all_iff slot_ok_def)
  ultimately show ?thesis unfolding ranked_def by (auto elim!: board_region_cases)
qed

lemma board_is_ram: "slots_ok ss \<Longrightarrow> s \<in> set ss \<Longrightarrow> is_ram (board_regions ss off) (sl_id s)"
  by (simp add: is_ram_def board_child)

text \<open>What the board resolves an address to.\<close>

definition slot_mapping :: "ram_slot \<Rightarrow> mapping" where
  "slot_mapping s = (sl_id s, word_of_int (- uint (sl_pa s)), 0, True, False)"

declare resolve.simps [simp del]

lemma resolve_child:
  assumes "slots_ok ss" "s \<in> set ss"
  shows "resolve (Suc 0) (board_regions ss off) (sl_id s) 0 False x = (if in_slot s x then Some (slot_mapping s) else None)"
  using board_child [OF assms, of off]
  by (auto simp: resolve.simps(2) [of 0] in_slot_def slot_mapping_def Let_def not_le)

lemma resolve_board:
  assumes ok: "slots_ok ss"
  shows "resolve 2 (board_regions ss off) 0 0 False x = map_option slot_mapping (find (\<lambda>s. in_slot s x) ss)"
proof -
  have first: "first_some (\<lambda>r. resolve (Suc 0) (board_regions ss off) r 0 False x) (map sl_id ts) =
      map_option slot_mapping (find (\<lambda>s. in_slot s x) ts)" if "set ts \<subseteq> set ss" for ts
    using that by (induction ts) (simp_all add: resolve_child [OF ok])
  have root: "board_regions ss off 0 = Some (system_region ss)" by (simp add: board_regions_def)
  have out: "find (\<lambda>s. in_slot s x) ss = None" if "x < 0 \<or> 2 ^ 63 - 1 \<le> x"
  proof -
    have "\<not> in_slot s x" if "s \<in> set ss" for s
    proof -
      define a where "a = uint (sl_pa s)"
      have "a + uint (sl_size s) \<le> 4503599627370496" "0 \<le> a"
        using ok that by (auto simp: a_def slots_ok_def list_all_iff slot_ok_def)
      moreover have "x < 0 \<or> 9223372036854775807 \<le> x" using \<open>x < 0 \<or> 2 ^ 63 - 1 \<le> x\<close> by simp
      ultimately show ?thesis unfolding in_slot_def a_def [symmetric] by linarith
    qed
    then show ?thesis by (simp add: find_None_iff)
  qed
  have "resolve 2 (board_regions ss off) 0 0 False x = resolve (Suc (Suc 0)) (board_regions ss off) 0 0 False x"
    by (simp only: numeral_2_eq_2)
  also have "\<dots> = (if x < 0 \<or> 2 ^ 63 - 1 \<le> x then None else map_option slot_mapping (find (\<lambda>s. in_slot s x) ss))"
    using first [of ss] by (auto simp: resolve.simps(2) [of "Suc 0"] root Let_def split: option.splits)
  finally show ?thesis using out by auto
qed


subsection \<open>The view of a board\<close>

lemma low_zero_int: "(w :: 'a::len word) AND 0xFFF = 0 \<longleftrightarrow> uint w mod 4096 = 0"
proof -
  have "w AND 0xFFF = 0 \<longleftrightarrow> take_bit 12 w = 0" unfolding low_12_mask take_bit_eq_mask ..
  also have "\<dots> \<longleftrightarrow> uint (take_bit 12 w) = 0" by (rule uint_0_iff [symmetric])
  also have "uint (take_bit 12 w) = uint w mod 4096" unfolding unsigned_take_bit_eq by (simp add: take_bit_eq_mod)
  finally show ?thesis .
qed

lemma low_zero_add: "(a :: u64) AND 0xFFF = 0 \<Longrightarrow> b AND 0xFFF = 0 \<Longrightarrow> (a + b) AND 0xFFF = 0"
proof -
  assume z: "a AND 0xFFF = 0" "b AND 0xFFF = 0"
  have "4096 dvd uint a" "4096 dvd uint b" using z low_zero_int [of a] low_zero_int [of b] by auto
  then have "(uint a + uint b) mod 4096 = 0" by (intro dvd_imp_mod_0 dvd_add)
  moreover have "uint (a + b) mod 4096 = (uint a + uint b) mod 4096"
    unfolding uint_word_ariths by (rule mod_mod_cancel) simp
  ultimately show ?thesis using low_zero_int by metis
qed

lemma low_zero_minus: "(a :: u64) AND 0xFFF = 0 \<Longrightarrow> (- a) AND 0xFFF = 0"
proof -
  assume z: "a AND 0xFFF = 0"
  have "4096 dvd uint a" using z low_zero_int [of a] by auto
  then have "(- uint a) mod 4096 = 0" by (intro dvd_imp_mod_0) simp
  moreover have "uint (- a) mod 4096 = (- uint a) mod 4096"
    unfolding uint_word_ariths by (rule mod_mod_cancel) simp
  ultimately show ?thesis using low_zero_int by metis
qed

lemma slot_bounds:
  assumes "slots_ok ss" "s \<in> set ss"
  shows "uint (sl_pa s) mod 4096 = 0" "uint (sl_size s) mod 4096 = 0" "0 < uint (sl_size s)"
    "uint (sl_pa s) + uint (sl_size s) \<le> 2 ^ 52" "sl_pa s AND 0xFFF = 0"
proof -
  have s: "slot_ok s" using assms by (simp add: slots_ok_def list_all_iff)
  then show "uint (sl_pa s) mod 4096 = 0" "uint (sl_size s) mod 4096 = 0" "uint (sl_pa s) + uint (sl_size s) \<le> 2 ^ 52"
    "sl_pa s AND 0xFFF = 0"
    using low_zero_int [of "sl_pa s"] low_zero_int [of "sl_size s"] by (simp_all add: slot_ok_def)
  have "sl_size s \<noteq> 0" using s by (simp add: slot_ok_def)
  then have "uint (sl_size s) \<noteq> 0" using uint_0_iff [of "sl_size s"] by blast
  then show "0 < uint (sl_size s)" using uint_ge_0 [of "sl_size s"] by linarith
qed

definition slot_ends :: "ram_slot list \<Rightarrow> int set" where
  "slot_ends ss = (\<lambda>s. uint (sl_pa s)) ` set ss \<union> (\<lambda>s. uint (sl_pa s) + uint (sl_size s)) ` set ss"

lemma slot_ends_card: "finite (slot_ends ss)" "card (slot_ends ss) \<le> 2 * length ss"
proof -
  show "finite (slot_ends ss)" by (simp add: slot_ends_def)
  have "card (slot_ends ss) \<le> card ((\<lambda>s. uint (sl_pa s)) ` set ss) + card ((\<lambda>s. uint (sl_pa s) + uint (sl_size s)) ` set ss)"
    unfolding slot_ends_def by (rule card_Un_le)
  also have "\<dots> \<le> card (set ss) + card (set ss)" by (intro add_mono card_image_le) simp_all
  also have "\<dots> \<le> 2 * length ss" using card_length [of ss] by simp
  finally show "card (slot_ends ss) \<le> 2 * length ss" .
qed

lemma render_child_ends:
  assumes ok: "slots_ok ss" and s: "s \<in> set ss"
    and r: "render_memory_region (Suc 0) (board_regions ss off) (sl_id s) 0 (addrrange_make 0 (2 ^ 63 - 1)) False v = Some v'"
    and v: "ends_in (slot_ends ss) v"
  shows "ends_in (slot_ends ss) v'"
proof -
  define a n where "a = uint (sl_pa s)" and "n = uint (sl_size s)"
  have b: "0 \<le> a" "0 < n" "a + n \<le> 4503599627370496" using slot_bounds [OF ok s] by (simp_all add: a_def n_def)
  have "addrrange_intersects (addrrange_make a n) (addrrange_make 0 (2 ^ 63 - 1))"
    "addrrange_intersection (addrrange_make a n) (addrrange_make 0 (2 ^ 63 - 1)) = addrrange_make a n"
    using b by (simp_all add: addrrange_intersects_def addrrange_intersection_def addrrange_contains_def addrrange_end_def)
  then have g: "render_gaps (flat_piece (sl_id s) (child_region s (off (sl_id s))) False) a 0 n v = Some v'"
    using r board_child [OF ok s, of off] by (simp add: a_def [symmetric] n_def [symmetric] get64_def)
  show ?thesis
    by (rule render_gaps_ends [OF flat_piece_steady [where delta = "- word_of_int a"] g])
      (use s v in \<open>auto simp: slot_ends_def a_def n_def\<close>)
qed

lemma fold_opt_keeps_in:
  assumes F: "\<And>s v v'. s \<in> set ss \<Longrightarrow> F s v = Some v' \<Longrightarrow> P v \<Longrightarrow> P v'"
  shows "fold_opt F ss v = Some v' \<Longrightarrow> P v \<Longrightarrow> P v'"
  using F by (induction ss arbitrary: v) (auto split: bind_splits, blast)

lemma board_view_ends:
  assumes ok: "slots_ok ss" and g: "generate_memory_topology 2 (board_regions ss off) (Some 0) = Some v"
  shows "ends_in (slot_ends ss) v"
proof -
  let ?rs = "board_regions ss off"
  obtain w where w: "render_memory_region (Suc (Suc 0)) ?rs 0 0 (addrrange_make 0 (2 ^ 64)) False [] = Some w" "v = flatview_simplify w"
    using g by (auto simp: generate_memory_topology_def numeral_2_eq_2)
  have root: "?rs 0 = Some (system_region ss)" by (simp add: board_regions_def)
  have "addrrange_intersects (addrrange_make 0 (2 ^ 63 - 1)) (addrrange_make 0 (2 ^ 64))"
    "addrrange_intersection (addrrange_make 0 (2 ^ 63 - 1)) (addrrange_make 0 (2 ^ 64)) = addrrange_make 0 (2 ^ 63 - 1)"
    by (simp_all add: addrrange_intersects_def addrrange_intersection_def addrrange_contains_def addrrange_end_def)
  then have f: "fold_opt (\<lambda>r. render_memory_region (Suc 0) ?rs r 0 (addrrange_make 0 (2 ^ 63 - 1)) False) (map sl_id ss) [] = Some w"
    using w(1) unfolding render_memory_region.simps(2) [of "Suc 0"] by (simp add: root)
  have "ends_in (slot_ends ss) w"
    by (rule fold_opt_keeps_in [where P = "ends_in (slot_ends ss)", OF _ f]) (use render_child_ends [OF ok] in auto)
  then show ?thesis unfolding w(2) by (rule simplify_ends)
qed

lemma sorted_view_at: "sorted_view lo v \<Longrightarrow> f \<in> set v \<Longrightarrow> fr_has f x \<Longrightarrow> view_at v x = Some (fr_dest f)"
proof (induction lo v rule: sorted_view.induct)
  case (2 lo g v)
  show ?case
  proof (cases "f = g")
    case False
    then have "f \<in> set v" using "2.prems" by simp
    then have "fr_end g \<le> fr_start f" using view_in_range [of "fr_end g" v f] "2.prems"(1) by simp
    then have "\<not> fr_has g x" using "2.prems"(3) by (simp add: addrrange_contains_def)
    then show ?thesis using 2 False by simp
  qed (use 2 in simp)
qed simp


text \<open>What the view of a board is.\<close>

lemma board_view:
  assumes ok: "slots_ok ss" and len: "length ss \<le> 780"
    and g: "generate_memory_topology 2 (board_regions ss off) (Some 0) = Some v"
  shows "sorted_view 0 v" "view_fits v" "list_all whole_pages (sections_of v)"
    "view_dest v a = map_option (\<lambda>s. (Mr (sl_id s), - sl_pa s, False)) (slot_at ss a)"
proof -
  have sz: "sizes_ok (board_regions ss off)" using board_ranked [OF ok] by (simp add: ranked_def)
  have sv: "sorted_view 0 v" using generate_view(1) [OF sz g] by (simp add: flat_view_ok_def)
  then show "sorted_view 0 v" .
  have at: "view_at v x = (if 0 \<le> x \<and> x < 2 ^ 64 then map_option slot_mapping (find (\<lambda>s. in_slot s x) ss) else None)" for x
    using generate_view(2) [OF sz g, of x] resolve_board [OF ok, of off x] by (simp only:)
  have ends: "ends_in (slot_ends ss) v" by (rule board_view_ends [OF ok g])
  have range: "\<exists>s \<in> set ss. fr_dest f = slot_mapping s \<and> in_slot s x" if "f \<in> set v" "fr_has f x" for f x
  proof -
    have "Some (fr_dest f) = (if 0 \<le> x \<and> x < 2 ^ 64 then map_option slot_mapping (find (\<lambda>s. in_slot s x) ss) else None)"
      using sorted_view_at [OF sv that] at by simp
    then obtain s where "find (\<lambda>s. in_slot s x) ss = Some s" "fr_dest f = slot_mapping s"
      by (cases "find (\<lambda>s. in_slot s x) ss") (auto split: if_splits)
    then have "s \<in> set ss" "in_slot s x" "fr_dest f = slot_mapping s" by (auto simp: find_Some_iff)
    then show ?thesis by blast
  qed
  have f: "0 \<le> fr_start f" "fr_start f < fr_end f" "fr_end f \<le> 2 ^ 52" "fr_start f mod 4096 = 0" "fr_end f mod 4096 = 0"
    if m: "f \<in> set v" for f
  proof -
    show r: "0 \<le> fr_start f" "fr_start f < fr_end f" using view_in_range [OF sv m] by auto
    have "fr_has f (fr_end f - 1)" using r by (simp add: addrrange_contains_def)
    then obtain s where "s \<in> set ss" "in_slot s (fr_end f - 1)" using range [OF m] by blast
    then show "fr_end f \<le> 2 ^ 52" using slot_bounds(4) [OF ok] by (fastforce simp: in_slot_def)
    have "x mod 4096 = 0" if x: "x \<in> slot_ends ss" for x
    proof -
      obtain s where s: "s \<in> set ss" "x = uint (sl_pa s) \<or> x = uint (sl_pa s) + uint (sl_size s)"
        using x by (auto simp: slot_ends_def)
      have "4096 dvd uint (sl_pa s)" "4096 dvd uint (sl_size s)"
        using slot_bounds(1,2) [OF ok s(1)] by auto
      then show ?thesis using s(2) by (intro dvd_imp_mod_0) auto
    qed
    then show "fr_start f mod 4096 = 0" "fr_end f mod 4096 = 0" using ends m by (auto simp: ends_in_def)
  qed
  have sec: "section_cost s = 3 \<and> whole_pages s" if m: "f \<in> set v" and s: "flat_section f = Some s" for f s
  proof -
    obtain t where t: "flat_section f = Some t" "good_section t"
      "dest_of t = (Mr (fr_mr f), fr_offset_in_region f - word_of_int (fr_start f), fr_readonly f)"
      "unat (offset_within_address_space t) = nat (fr_start f)" "unat (sec_size t) = nat (ar_size (fr_addr f))"
      using flat_section_ok [OF f(1-3) [OF m]] by blast
    have ts: "t = s" using s t(1) by simp
    have "fr_has f (fr_start f)" using f(2) [OF m] by (simp add: addrrange_contains_def)
    then obtain c where c: "c \<in> set ss" "fr_dest f = slot_mapping c" using range [OF m] by blast
    have delta: "offset_within_region t - offset_within_address_space t = - sl_pa c"
      using c(2) t(3) by (simp add: fr_dest_def slot_mapping_def dest_of_def)
    have pa: "(- sl_pa c) AND 0xFFF = 0" by (rule low_zero_minus [OF slot_bounds(5) [OF ok c(1)]])
    have start: "offset_within_address_space t AND 0xFFF = 0"
      using t(4) f(1,4) [OF m] by (simp add: low_zero_int uint_nat)
    have size: "ar_size (fr_addr f) mod 4096 = 0" "4096 \<le> ar_size (fr_addr f)"
    proof -
      have "ar_size (fr_addr f) = fr_end f - fr_start f" by (simp add: addrrange_end_def)
      moreover have "4096 dvd fr_end f - fr_start f" using f(4,5) [OF m] by (intro dvd_diff) auto
      ultimately show "ar_size (fr_addr f) mod 4096 = 0" "4096 \<le> ar_size (fr_addr f)"
        using f(2) [OF m] zdvd_imp_le [of 4096 "ar_size (fr_addr f)"] by auto
    qed
    have "sec_size t AND 0xFFF = 0" "PAGE_SIZE \<le> sec_size t"
      using t(5) size by (simp_all add: low_zero_int uint_nat word_le_nat_alt nat_le_iff)
    moreover have "offset_within_region t AND 0xFFF = 0"
    proof -
      have "offset_within_region t = - sl_pa c + offset_within_address_space t" using delta by (simp only: diff_eq_eq)
      then show ?thesis using low_zero_add [OF pa start] by (simp only:)
    qed
    ultimately have "whole_pages t" using start t(2) by (simp add: whole_pages_def good_section_def)
    moreover have "section_cost t = 3" using pa by (simp add: section_cost_def delta)
    ultimately show ?thesis using ts by simp
  qed
  show "list_all whole_pages (sections_of v)"
    using sec by (auto simp: list_all_iff sections_of_def List.map_filter_def)
  have "view_cost v \<le> 3 * length v"
  proof -
    have "sum_list (map section_cost (List.map_filter flat_section w)) \<le> 3 * length w" if "set w \<subseteq> set v" for w
      using that by (induction w) (auto simp: map_filter_simps sec split: option.splits)
    then show ?thesis by (simp add: view_cost_def sections_of_def)
  qed
  moreover have "length v \<le> 1560"
    using sorted_view_length [OF sv ends slot_ends_card(1)] slot_ends_card(2) [of ss] len by linarith
  ultimately show "view_fits v" using f(3) by (simp add: view_fits_def list_all_iff)
  show "view_dest v a = map_option (\<lambda>s. (Mr (sl_id s), - sl_pa s, False)) (slot_at ss a)"
    using at [of "uint a"] uint_bounded [of a] by (cases "find (\<lambda>s. in_slot s (uint a)) ss") (simp_all add: view_dest_def slot_at_def slot_mapping_def)
qed


subsection \<open>The state between calls\<close>

definition slot_block :: "ram_slot \<Rightarrow> u64 \<Rightarrow> ram_block" where
  "slot_block s off = \<lparr>rb_host = sl_host s, rb_offset = off, rb_length = ucast (sl_size s)\<rparr>"

definition board :: "memory_state \<Rightarrow> ram_slot list \<Rightarrow> nat \<Rightarrow> (nat \<Rightarrow> u64) \<Rightarrow> bool" where
  "board m ss lim off \<longleftrightarrow> slots_ok ss \<and> length ss \<le> 780 \<and> ms_regions m = board_regions ss off \<and>
    ms_transaction_depth m = 0 \<and> \<not> ms_update_pending m \<and> ms_root m = Some 0 \<and> dispatch_ready (ms_dispatch m) \<and>
    ram_ok (ms_ram m) \<and> blocks_below lim (rl_blocks (ms_ram m)) \<and> inj_on off (sl_id ` set ss) \<and>
    (\<forall>s \<in> set ss. slot_block s (off (sl_id s)) \<in> set (rl_blocks (ms_ram m)))"

definition tables :: "memory_state \<Rightarrow> ram_slot list \<Rightarrow> bool" where
  "tables m ss \<longleftrightarrow> plain (ms_dispatch m) \<and>
    (\<exists>ram. dispatch_inv ram (ms_dispatch m) (\<lambda>a. map_option (\<lambda>s. (Mr (sl_id s), - sl_pa s, False)) (slot_at ss a)))"

lemma fold_opt_cong: "(\<And>s v. s \<in> set ss \<Longrightarrow> F s v = G s v) \<Longrightarrow> fold_opt F ss v = fold_opt G ss v"
proof (induction ss arbitrary: v)
  case (Cons s ss)
  have "fold_opt F ss = fold_opt G ss" by (rule ext) (use Cons in simp)
  then show ?case using Cons.prems by simp
qed simp

declare render_memory_region.simps [simp del]

text \<open>A region that is not a child of the system does not show.\<close>

lemma generate_orphan:
  assumes ok: "slots_ok ss" and r: "r \<noteq> 0" "r \<notin> sl_id ` set ss"
  shows "generate_memory_topology 2 ((board_regions ss off)(r := x)) (Some 0) =
    generate_memory_topology 2 (board_regions ss off) (Some 0)"
proof -
  let ?rs = "board_regions ss off"
  have root: "?rs 0 = Some (system_region ss)" by (simp add: board_regions_def)
  have child: "render_memory_region (Suc 0) (?rs(r := x)) (sl_id s) b c ro v = render_memory_region (Suc 0) ?rs (sl_id s) b c ro v"
    if "s \<in> set ss" for s b c ro v
  proof -
    have "sl_id s \<noteq> r" using r(2) that by auto
    then show ?thesis using board_child [OF ok that, of off] by (simp add: render_memory_region.simps(2) [of 0] Let_def)
  qed
  have "fold_opt (\<lambda>s. render_memory_region (Suc 0) (?rs(r := x)) s b c ro) (map sl_id ss) v =
      fold_opt (\<lambda>s. render_memory_region (Suc 0) ?rs s b c ro) (map sl_id ss) v" for b c ro v
    by (rule fold_opt_cong) (use child in force)
  then have "render_memory_region (Suc (Suc 0)) (?rs(r := x)) 0 b c ro v = render_memory_region (Suc (Suc 0)) ?rs 0 b c ro v" for b c ro v
    using r(1) unfolding render_memory_region.simps(2) [of "Suc 0"] by (simp add: root Let_def)
  then show ?thesis by (simp add: generate_memory_topology_def numeral_2_eq_2)
qed

definition orphan :: "memory_region option \<Rightarrow> bool" where
  "orphan x \<longleftrightarrow> (\<forall>mr. x = Some mr \<longrightarrow> reg_subregions mr = [] \<and> reg_alias mr = None \<and> 0 \<le> reg_size mr \<and> reg_size mr \<le> 2 ^ 64)"

lemma ranked_orphan:
  assumes rk: "ranked rs rank" and free: "rs r = None" and x: "orphan x"
  shows "ranked (rs(r := x)) rank"
proof -
  have sz: "sizes_ok (rs(r := x))" using rk x by (auto simp: ranked_def sizes_ok_def orphan_def)
  have other: "(rs(r := x)) s \<noteq> None" if "rs s \<noteq> None" for s using that free by auto
  show ?thesis
    unfolding ranked_def
  proof (intro conjI allI impI sz ballI)
    fix q mr assume q: "(rs(r := x)) q = Some mr"
    show "(rs(r := x)) s \<noteq> None" "rank s < rank q" if "s \<in> set (reg_subregions mr)" for s
      using q x that other rankedD(2) [OF rk, of q mr s] by (cases "q = r"; force simp: orphan_def)+
    show "(rs(r := x)) a \<noteq> None" "rank a < rank q" if "reg_alias mr = Some a" for a
      using q x that other rankedD(1) [OF rk, of q mr a] by (cases "q = r"; force simp: orphan_def)+
  qed
qed

lemma board_commit:
  assumes ok: "slots_ok ss" "length ss \<le> 780" and m: "ms_transaction_depth m = 1" "ms_update_pending m" "ms_root m = Some 0"
      "dispatch_ready (ms_dispatch m)"
    and rs: "ms_regions m = (board_regions ss off)(r := x)" "r \<noteq> 0" "r \<notin> sl_id ` set ss" "orphan x"
  obtains v d where "memory_region_transaction_commit 2 m = Some (m\<lparr>ms_transaction_depth := 0, ms_update_pending := False,
       ms_current_map := v, ms_dispatch := d, ms_tlb_flushes := Suc (ms_tlb_flushes m)\<rparr>)"
    "plain d" "\<exists>ram. dispatch_inv ram d (\<lambda>a. map_option (\<lambda>s. (Mr (sl_id s), - sl_pa s, False)) (slot_at ss a))"
proof -
  have free: "board_regions ss off r = None" using rs(2,3) by (force simp: board_regions_def find_None_iff)
  have rk: "ranked (ms_regions m) (\<lambda>r. if r = 0 then 1 else 0)"
    unfolding rs(1) by (rule ranked_orphan [OF board_ranked [OF ok(1)] free rs(4)])
  have root: "ms_regions m 0 = Some (system_region ss)" using rs(1,2) by (simp add: board_regions_def)
  have gen: "generate_memory_topology 2 (ms_regions m) (Some 0) = generate_memory_topology 2 (board_regions ss off) (Some 0)"
    unfolding rs(1) by (rule generate_orphan [OF ok(1) rs(2,3)])
  have fits: "view_fits v" if "generate_memory_topology 2 (ms_regions m) (Some 0) = Some v" for v
    using board_view(2) [OF ok] that gen by simp
  obtain v d0 d where v: "generate_memory_topology 2 (ms_regions m) (Some 0) = Some v"
    and a: "added (is_ram (ms_regions m)) v (core_begin d0) = Some d"
    and c: "memory_region_transaction_commit 2 m = Some (m\<lparr>ms_transaction_depth := 0, ms_update_pending := False,
       ms_current_map := v, ms_dispatch := d, ms_tlb_flushes := Suc (ms_tlb_flushes m)\<rparr>)"
    and d: "dispatch_inv (is_ram (ms_regions m)) d (view_dest v)"
    by (rule commit_update [OF m rk root _ _ fits]) simp_all
  have g: "generate_memory_topology 2 (board_regions ss off) (Some 0) = Some v" using v gen by simp
  note bv = board_view [OF ok g]
  have "list_all (\<lambda>f. fr_end f \<le> 2 ^ 52) v" using bv(2) by (simp add: view_fits_def)
  then have "mem_add_all (is_ram (ms_regions m)) (sections_of v) (core_begin d0) = Some d"
    using view_sections [OF bv(1) order_refl] a by simp
  then have "plain d" using mem_add_all_plain [OF bv(3)] core_begin_plain by blast
  moreover have "view_dest v = (\<lambda>a. map_option (\<lambda>s. (Mr (sl_id s), - sl_pa s, False)) (slot_at ss a))"
    using bv(4) by (rule ext)
  ultimately show thesis using that c d by metis
qed

end
