(* ===== verification/VxRamCalls.thy ===== *)
theory VxRamCalls
  imports VxRam
begin

text \<open>
  Every call of \<open>vx64_setup_ram\<close> and \<open>vx64_remove_ram\<close> succeeds and leaves a board on which each guest address reaches the
  host memory of the newest region over it.
\<close>

lemma boardD:
  assumes "board m ss lim off"
  shows "slots_ok ss" "length ss \<le> 780" "ms_regions m = board_regions ss off" "ms_transaction_depth m = 0"
    "\<not> ms_update_pending m" "ms_root m = Some 0" "dispatch_ready (ms_dispatch m)" "ram_ok (ms_ram m)"
    "blocks_below lim (rl_blocks (ms_ram m))" "inj_on off (sl_id ` set ss)"
    "s \<in> set ss \<Longrightarrow> slot_block s (off (sl_id s)) \<in> set (rl_blocks (ms_ram m))"
  using assms by (simp_all add: board_def)

lemma unat_size: "unat (ucast (w :: u32) :: u64) = unat w"
  using ucast_size(1) [of w] by (simp only: unat_eq_nat_uint)

lemma unat_size_less: "unat (w :: u32) < 4294967296"
  using unsigned_less [of w] by simp

lemma nat_align: "(n :: nat) mod 4096 = 0 \<Longrightarrow> 4096 * ((n + 4095) div 4096) = n"
proof -
  assume "n mod 4096 = 0"
  then have n: "4096 * (n div 4096) = n" using mult_div_mod_eq [of 4096 n] by linarith
  have "(4096 * (n div 4096) + 4095) div 4096 = n div 4096" by simp
  then show ?thesis using n by simp
qed

lemma slot_size_aligned: "slot_ok s \<Longrightarrow> ram_page_align (ucast (sl_size s)) = ucast (sl_size s)"
proof -
  assume s: "slot_ok s"
  define n where "n = unat (sl_size s)"
  define w where "w = (ucast (sl_size s) :: u64)"
  have u: "unat w = n" unfolding w_def n_def by (rule unat_size)
  have "uint (sl_size s) mod 4096 = 0" using s low_zero_int [of "sl_size s"] unfolding slot_ok_def by blast
  then have "int n mod int 4096 = int 0" unfolding n_def by (simp only: uint_nat of_nat_numeral of_nat_0)
  then have z: "n mod 4096 = 0" by (simp only: zmod_int [symmetric] of_nat_eq_iff)
  have "unat w + unat (0xFFF :: u64) < 18446744073709551616" using unat_size_less [of "sl_size s"] unfolding u n_def by simp
  then have "unat (w + 0xFFF) = unat w + unat (0xFFF :: u64)" by (rule unat_add_64)
  then have "unat (w + 0xFFF) = n + 4095" unfolding u by simp
  then have "unat ((w + 0xFFF) AND - 4096) = 4096 * ((n + 4095) div 4096)" by (simp only: unat_page)
  also have "\<dots> = unat w" unfolding u by (rule nat_align [OF z])
  finally have "(w + 0xFFF) AND - 4096 = w" by (rule unsigned_word_eqI)
  then show ?thesis unfolding w_def ram_page_align_def by simp
qed

lemma same_offset_overlap: "block_fits b \<Longrightarrow> block_fits c \<Longrightarrow> rb_offset b = rb_offset c \<Longrightarrow> block_range b \<inter> block_range c \<noteq> {}"
proof -
  assume b: "block_fits b" "block_fits c" "rb_offset b = rb_offset c"
  then have "unat (rb_offset b) \<in> block_range b \<inter> block_range c" by (simp add: block_range_def block_fits_def unat_gt_0)
  then show ?thesis by blast
qed

text \<open>The RAM block of a new region.\<close>

lemma setup_block:
  assumes b: "board m ss lim off" and s: "slot_ok s" and room: "lim + 2 ^ 32 < 2 ^ 63"
  obtains ram' o' where "qemu_ram_alloc_from_ptr (ucast (sl_size s)) (sl_host s) (ms_ram m) = Some (ram', o')"
    "ram_ok ram'" "rl_blocks ram' = insert_block (slot_block s o') (rl_blocks (ms_ram m))"
    "blocks_below (lim + 2 ^ 32) (rl_blocks ram')" "o' \<notin> off ` sl_id ` set ss"
proof -
  let ?n = "ucast (sl_size s) :: u64" and ?bs = "rl_blocks (ms_ram m)"
  note a = slot_size_aligned [OF s]
  note u = unat_size [of "sl_size s"]
  have n: "unat ?n < 2 ^ 32" using unat_size_less [of "sl_size s"] unfolding u by simp
  have nz: "?n \<noteq> 0"
  proof
    assume "?n = 0"
    then have "unat (sl_size s) = 0" using u by simp
    then show False using s unat_eq_0 [of "sl_size s"] unfolding slot_ok_def by blast
  qed
  have ok: "list_all block_fits ?bs" "apart ?bs" using boardD(8) [OF b] by (simp_all add: ram_ok_def)
  obtain o' where o': "find_ram_offset ?n ?bs = Some o'" "unat o' \<le> lim"
    using find_ram_offset_total [OF ok(1) boardD(9) [OF b], of ?n] room n by auto
  obtain ram' where r: "qemu_ram_alloc_from_ptr ?n (sl_host s) (ms_ram m) = Some (ram', o')"
    using o'(1) a by (auto simp: qemu_ram_alloc_from_ptr_def Let_def)
  have al: "ram_ok ram'" "rl_blocks ram' = insert_block (slot_block s o') ?bs"
    using ram_alloc_ok [OF boardD(8) [OF b] r] a nz by (simp_all add: slot_block_def)
  have bb: "blocks_below (lim + 2 ^ 32) (rl_blocks ram')"
    using boardD(9) [OF b] o'(2) n unfolding al(2) blocks_below_def list_all_iff set_insert_block
    by (auto simp: slot_block_def intro: trans_le_add1)
  have "o' \<notin> off ` sl_id ` set ss"
  proof
    assume "o' \<in> off ` sl_id ` set ss"
    then obtain t where t: "t \<in> set ss" "off (sl_id t) = o'" by auto
    have old: "slot_block t o' \<in> set ?bs" using boardD(11) [OF b t(1)] t(2) by simp
    have "?n \<noteq> - 1" using ucast_size(2) .
    then have "block_fits (slot_block s o') \<and> (\<forall>c \<in> set ?bs. block_range (slot_block s o') \<inter> block_range c = {})"
      by (intro find_ram_offset_free [OF o'(1) ok]) (simp_all add: slot_block_def nz)
    then have "block_range (slot_block s o') \<inter> block_range (slot_block t o') = {}" "block_fits (slot_block s o')"
      using old by auto
    moreover have "block_fits (slot_block t o')" using ok(1) old by (simp add: list_all_iff)
    ultimately show False using same_offset_overlap [of "slot_block s o'" "slot_block t o'"] by (simp add: slot_block_def)
  qed
  then show thesis using that r al bb by blast
qed

lemma board_setup_regions:
  assumes ok: "slots_ok ss" and s: "slot_ok s" "sl_id s \<notin> sl_id ` set ss"
  shows "(board_regions ss off)(sl_id s \<mapsto> child_region s o', 0 \<mapsto> system_region (s # ss)) =
    board_regions (s # ss) (off(sl_id s := o'))"
proof
  fix r
  show "((board_regions ss off)(sl_id s \<mapsto> child_region s o', 0 \<mapsto> system_region (s # ss))) r =
      board_regions (s # ss) (off(sl_id s := o')) r"
  proof (cases "r = 0 \<or> r = sl_id s")
    case True
    then show ?thesis using s(1) by (auto simp: board_regions_def slot_ok_def)
  next
    case False
    then show ?thesis by (auto simp: board_regions_def)
  qed
qed

lemma insert_first: "(\<And>r. r \<in> set rs \<Longrightarrow> \<exists>om. st r = Some om \<and> reg_priority om = 0) \<Longrightarrow> insert_subregion st s 0 rs = Some (s # rs)"
proof (cases rs)
  case (Cons r rs')
  assume "\<And>r. r \<in> set rs \<Longrightarrow> \<exists>om. st r = Some om \<and> reg_priority om = 0"
  then obtain om where "st r = Some om" "reg_priority om = 0" using Cons by force
  then show ?thesis by (simp add: Cons)
qed simp

lemma m_swap: "m\<lparr>ms_ram := a, ms_transaction_depth := t, ms_regions := b, ms_update_pending := c\<rparr> =
    m\<lparr>ms_ram := a, ms_regions := b, ms_transaction_depth := t, ms_update_pending := c\<rparr>"
  by simp

lemma setup_step:
  assumes b: "board m ss lim off" and c: "slot_ok s" "sl_id s \<notin> sl_id ` set ss" "length ss < 780"
    and room: "lim + 2 ^ 32 < 2 ^ 63"
  obtains m' off' where "vx64_setup_ram (sl_id s) (sl_pa s) (sl_size s) (sl_host s) m = Some m'"
    "board m' (s # ss) (lim + 2 ^ 32) off'" "tables m' (s # ss)"
proof -
  let ?r = "sl_id s"
  note B = boardD [OF b]
  obtain ram' o' where al: "qemu_ram_alloc_from_ptr (ucast (sl_size s)) (sl_host s) (ms_ram m) = Some (ram', o')"
    "ram_ok ram'" "rl_blocks ram' = insert_block (slot_block s o') (rl_blocks (ms_ram m))"
    "blocks_below (lim + 2 ^ 32) (rl_blocks ram')" "o' \<notin> off ` sl_id ` set ss"
    by (rule setup_block [OF b c(1) room])
  define off' where "off' = off(?r := o')"
  have r0: "?r \<noteq> 0" using c(1) by (simp add: slot_ok_def)
  have ok': "slots_ok (s # ss)" using B(1) c by (simp add: slots_ok_def)
  define m1 where "m1 = m\<lparr>ms_ram := ram', ms_regions := board_regions (s # ss) off', ms_transaction_depth := 1, ms_update_pending := True\<rparr>"
  have reg: "(ram_region s o')\<lparr>reg_may_overlap := False, reg_priority := 0\<rparr> = ram_region s o'"
    "reg_parent (ram_region s o') = None" "reg_priority (ram_region s o') = 0" "reg_enabled (ram_region s o')"
    by (simp_all add: ram_region_def memory_region_init_def)
  have sys: "board_regions ss off 0 = Some (system_region ss)"
    "(system_region ss)\<lparr>reg_subregions := ?r # map sl_id ss\<rparr> = system_region (s # ss)"
    by (simp_all add: board_regions_def system_region_def)
  have ins: "insert_subregion ((board_regions ss off)(?r \<mapsto> child_region s o')) ?r 0 (map sl_id ss) = Some (?r # map sl_id ss)"
  proof (rule insert_first)
    fix q assume "q \<in> set (map sl_id ss)"
    then obtain t where t: "t \<in> set ss" "q = sl_id t" by auto
    then have "q \<noteq> ?r" using c(2) by (metis image_eqI)
    then show "\<exists>om. ((board_regions ss off)(?r \<mapsto> child_region s o')) q = Some om \<and> reg_priority om = 0"
      using board_child [OF B(1) t(1), of off] t(2) by simp
  qed
  have "memory_region_init_ram_ptr ?r (ucast (sl_size s)) (sl_host s) m =
      Some (m\<lparr>ms_ram := ram', ms_regions := (board_regions ss off)(?r \<mapsto> ram_region s o')\<rparr>)"
    by (simp add: memory_region_init_ram_ptr_def al(1) set_region_def B(3) ram_region_def)
  moreover have "memory_region_add_subregion 2 0 (sl_pa s) ?r
      (m\<lparr>ms_ram := ram', ms_regions := (board_regions ss off)(?r \<mapsto> ram_region s o')\<rparr>) = memory_region_transaction_commit 2 m1"
    using r0 B(4,5) sys ins board_setup_regions [OF B(1) c(1,2), of off o']
    by (simp add: memory_region_add_subregion_def memory_region_add_subregion_common_def memory_region_transaction_begin_def
        set_region_def request_update_def reg child_region_def [symmetric] m1_def off'_def m_swap)
  ultimately have run: "vx64_setup_ram ?r (sl_pa s) (sl_size s) (sl_host s) m = memory_region_transaction_commit 2 m1"
    by (simp add: vx64_setup_ram_def)
  have fresh: "\<exists>q. q \<noteq> 0 \<and> q \<notin> sl_id ` set (s # ss)"
    using ex_new_if_finite [of "insert 0 (sl_id ` set (s # ss))"] by auto
  then obtain q where q: "q \<noteq> 0" "q \<notin> sl_id ` set (s # ss)" by blast
  have "board_regions (s # ss) off' q = None" using q by (force simp: board_regions_def find_None_iff)
  then have rs: "ms_regions m1 = (board_regions (s # ss) off')(q := None)" by (auto simp: m1_def fun_eq_iff)
  obtain v d where d: "memory_region_transaction_commit 2 m1 = Some (m1\<lparr>ms_transaction_depth := 0, ms_update_pending := False,
       ms_current_map := v, ms_dispatch := d, ms_tlb_flushes := Suc (ms_tlb_flushes m1)\<rparr>)" "plain d"
    "\<exists>ram. dispatch_inv ram d (\<lambda>a. map_option (\<lambda>s. (Mr (sl_id s), - sl_pa s, False)) (slot_at (s # ss) a))"
    by (rule board_commit [OF ok' _ _ _ _ _ rs q]) (use c(3) B(6,7) in \<open>simp_all add: m1_def orphan_def\<close>)
  let ?m = "m1\<lparr>ms_transaction_depth := 0, ms_update_pending := False, ms_current_map := v, ms_dispatch := d,
      ms_tlb_flushes := Suc (ms_tlb_flushes m1)\<rparr>"
  have ready: "dispatch_ready d" using d(3) dispatch_inv_ready by blast
  have inj: "inj_on off' (sl_id ` set (s # ss))"
    using B(10) c(2) al(5) by (auto simp: off'_def inj_on_def)
  have blocks: "slot_block t (off' (sl_id t)) \<in> set (rl_blocks ram')" if "t \<in> set (s # ss)" for t
  proof (cases "t \<in> set ss")
    case True
    then have "sl_id t \<noteq> ?r" using c(2) by (metis image_eqI)
    then show ?thesis using B(11) [OF True] by (simp add: al(3) off'_def)
  next
    case False
    then show ?thesis using that by (simp add: al(3) off'_def)
  qed
  have "board ?m (s # ss) (lim + 2 ^ 32) off'"
    using ok' c(3) B(6) al(2,4) inj blocks ready by (simp add: board_def m1_def)
  moreover have "tables ?m (s # ss)" using d(2,3) by (simp add: tables_def)
  ultimately show thesis using that run d(1) by simp
qed


subsection \<open>Removing a region\<close>

lemma remove_ids: "slots_ok ss \<Longrightarrow> map sl_id (filter (\<lambda>s. sl_id s \<noteq> r) ss) = remove1 r (map sl_id ss)"
proof -
  assume "slots_ok ss"
  then have "remove1 r (map sl_id ss) = filter (\<lambda>q. q \<noteq> r) (map sl_id ss)"
    by (simp add: slots_ok_def distinct_remove1_removeAll removeAll_filter_not_eq eq_commute)
  then show ?thesis by (simp add: filter_map o_def)
qed

lemma slots_ok_filter: "slots_ok ss \<Longrightarrow> slots_ok (filter P ss)"
  by (auto simp: slots_ok_def list_all_iff distinct_map_filter)

lemma remove_block_other: "b \<in> set bs \<Longrightarrow> rb_offset b \<noteq> a \<Longrightarrow> b \<in> set (remove_block a bs)"
  by (induction bs) auto

lemma board_remove_regions:
  assumes "slots_ok ss" "r \<noteq> 0" shows "(board_regions ss off)(0 \<mapsto> system_region (filter (\<lambda>s. sl_id s \<noteq> r) ss), r := x) =
    (board_regions (filter (\<lambda>s. sl_id s \<noteq> r) ss) off)(r := x)"
proof
  fix q
  have "find (\<lambda>s. sl_id s = q) (filter (\<lambda>s. sl_id s \<noteq> r) ss) = find (\<lambda>s. sl_id s = q) ss" if "q \<noteq> r"
    using that by (induction ss) auto
  then show "((board_regions ss off)(0 \<mapsto> system_region (filter (\<lambda>s. sl_id s \<noteq> r) ss), r := x)) q =
      ((board_regions (filter (\<lambda>s. sl_id s \<noteq> r) ss) off)(r := x)) q"
    using assms(2) by (simp add: board_regions_def)
qed

lemma remove_step:
  assumes b: "board m ss lim off" and r: "r \<in> sl_id ` set ss"
  obtains m' where "vx64_remove_ram r m = Some m'" "board m' (filter (\<lambda>s. sl_id s \<noteq> r) ss) lim off"
    "tables m' (filter (\<lambda>s. sl_id s \<noteq> r) ss)"
proof -
  note B = boardD [OF b]
  let ?ss = "filter (\<lambda>s. sl_id s \<noteq> r) ss"
  obtain s where s: "s \<in> set ss" "r = sl_id s" using r by auto
  have r0: "r \<noteq> 0" using B(1) s by (auto simp: slots_ok_def list_all_iff slot_ok_def)
  have ok': "slots_ok ?ss" "length ?ss \<le> 780" by (rule slots_ok_filter [OF B(1)], rule order_trans [OF length_filter_le B(2)])
  define x where "x = (child_region s (off r))\<lparr>reg_parent := None\<rparr>"
  have child: "board_regions ss off r = Some (child_region s (off r))" using board_child [OF B(1) s(1)] s(2) by simp
  have sys: "board_regions ss off 0 = Some (system_region ss)" by (simp add: board_regions_def)
  have sys': "(system_region ss)\<lparr>reg_subregions := remove1 r (map sl_id ss)\<rparr> = system_region ?ss"
    using remove_ids [OF B(1), of r] by (simp add: system_region_def)
  have rs': "(board_regions ss off)(r \<mapsto> x, 0 \<mapsto> system_region ?ss) = (board_regions ?ss off)(r \<mapsto> x)"
    using board_remove_regions [OF B(1) r0, of off "Some x"] r0 by (simp add: fun_upd_twist)
  define m1 where "m1 = m\<lparr>ms_transaction_depth := 1, ms_regions := (board_regions ?ss off)(r \<mapsto> x), ms_update_pending := True\<rparr>"
  have del: "memory_region_del_subregion 2 0 r m = memory_region_transaction_commit 2 m1"
    using r0 B(3,4,5) child sys sys' rs'
    by (simp add: memory_region_del_subregion_def memory_region_transaction_begin_def set_region_def request_update_def
        x_def [symmetric] m1_def)
  have rs: "ms_regions m1 = (board_regions ?ss off)(r := Some x)" by (simp add: m1_def)
  have orphan: "orphan (Some x)" using uint_bounded [of "sl_size s"] by (simp add: orphan_def x_def)
  obtain v d where d: "memory_region_transaction_commit 2 m1 = Some (m1\<lparr>ms_transaction_depth := 0, ms_update_pending := False,
       ms_current_map := v, ms_dispatch := d, ms_tlb_flushes := Suc (ms_tlb_flushes m1)\<rparr>)" "plain d"
    "\<exists>ram. dispatch_inv ram d (\<lambda>a. map_option (\<lambda>s. (Mr (sl_id s), - sl_pa s, False)) (slot_at ?ss a))"
    by (rule board_commit [OF ok' _ _ _ _ rs r0 _ orphan]) (use B(6,7) in \<open>auto simp: m1_def\<close>)
  let ?m = "m1\<lparr>ms_transaction_depth := 0, ms_update_pending := False, ms_current_map := v, ms_dispatch := d,
      ms_tlb_flushes := Suc (ms_tlb_flushes m1)\<rparr>"
  let ?ram = "qemu_ram_free_from_ptr (off r) (ms_ram m)"
  have destroy: "memory_region_destroy r ?m = Some (?m\<lparr>ms_ram := ?ram\<rparr>)"
    by (simp add: memory_region_destroy_def m1_def x_def)
  let ?m' = "?m\<lparr>ms_ram := ?ram, ms_regions := (ms_regions ?m)(r := None)\<rparr>"
  have run: "vx64_remove_ram r m = Some ?m'" using del d(1) destroy by (simp add: vx64_remove_ram_def)
  have none: "board_regions ?ss off r = None" using r0 by (auto simp: board_regions_def find_None_iff)
  then have regs: "ms_regions ?m' = board_regions ?ss off" by (auto simp: m1_def fun_eq_iff)
  have "set (rl_blocks ?ram) \<subseteq> set (rl_blocks (ms_ram m))"
    using remove_subset [of "off r" "rl_blocks (ms_ram m)"] by (simp add: qemu_ram_free_from_ptr_def)
  then have below: "blocks_below lim (rl_blocks ?ram)" using B(9) by (auto simp: blocks_below_def list_all_iff)
  have blocks: "slot_block t (off (sl_id t)) \<in> set (rl_blocks ?ram)" if t: "t \<in> set ?ss" for t
  proof -
    have "sl_id t \<in> sl_id ` set ss" "sl_id t \<noteq> r" using t by auto
    then have "off (sl_id t) \<noteq> off r" using B(10) r by (auto dest: inj_onD)
    then show ?thesis using B(11) [of t] t remove_block_other by (simp add: qemu_ram_free_from_ptr_def slot_block_def)
  qed
  have inj: "inj_on off (sl_id ` set ?ss)" using B(10) by (rule inj_on_subset) auto
  have "dispatch_ready d" using d(3) dispatch_inv_ready by blast
  then have "board ?m' ?ss lim off"
    using ok' B(6) ram_free_ok [OF B(8)] below blocks inj regs by (simp add: board_def m1_def)
  moreover have "tables ?m' ?ss" using d(2,3) by (simp add: tables_def)
  ultimately show thesis using that run by blast
qed


subsection \<open>Runs of calls\<close>

fun slots_run :: "ram_call list \<Rightarrow> ram_slot list \<Rightarrow> ram_slot list" where
  "slots_run [] ss = ss"
| "slots_run (c # cs) ss = slots_run cs (slots_after c ss)"

lemma board_init: "board memory_map_init [] 0 (\<lambda>_. 0)"
proof -
  have "board_regions [] (\<lambda>_. 0) = [0 \<mapsto> memory_region_init 0x7FFFFFFFFFFFFFFF]"
    by (auto simp: board_regions_def system_region_def memory_region_init_def fun_eq_iff)
  then show ?thesis
    by (simp add: board_def memory_map_init_def slots_ok_def init_dispatch_ready blocks_below_def empty_ram_def [symmetric])
      (simp add: empty_ram_def)
qed

lemma call_step:
  assumes b: "board m ss lim off" and c: "call_ok c ss" and room: "lim + 2 ^ 32 < 2 ^ 63"
  obtains m' off' where "ram_call c m = Some m'" "board m' (slots_after c ss) (lim + 2 ^ 32) off'" "tables m' (slots_after c ss)"
proof (cases c)
  case (Setup_ram s)
  then show ?thesis using setup_step [OF b _ _ _ room, of s] c that by (auto simp: ram_call_def)
next
  case (Remove_ram r)
  obtain m' where m': "vx64_remove_ram r m = Some m'" "board m' (filter (\<lambda>s. sl_id s \<noteq> r) ss) lim off"
    "tables m' (filter (\<lambda>s. sl_id s \<noteq> r) ss)"
    using remove_step [OF b, of r] c Remove_ram by auto
  then have "board m' (filter (\<lambda>s. sl_id s \<noteq> r) ss) (lim + 2 ^ 32) off"
    by (auto simp: board_def blocks_below_def list_all_iff)
  with m' that show ?thesis by (simp add: Remove_ram ram_call_def)
qed

lemma calls_board:
  "board m ss lim off \<Longrightarrow> calls_ok cs ss \<Longrightarrow> lim + 2 ^ 32 * length cs < 2 ^ 63 \<Longrightarrow> cs \<noteq> [] \<or> tables m ss \<Longrightarrow>
    \<exists>m' lim' off'. ram_calls cs m = Some m' \<and> board m' (slots_run cs ss) lim' off' \<and> tables m' (slots_run cs ss)"
proof (induction cs arbitrary: m ss lim off)
  case Nil
  then show ?case by auto
next
  case (Cons c cs)
  have room: "lim + 2 ^ 32 < 2 ^ 63" "lim + 2 ^ 32 + 2 ^ 32 * length cs < 2 ^ 63" using Cons.prems(3) by simp_all
  obtain m' off' where m': "ram_call c m = Some m'" "board m' (slots_after c ss) (lim + 2 ^ 32) off'" "tables m' (slots_after c ss)"
    using call_step [OF Cons.prems(1) _ room(1), of c] Cons.prems(2) by auto
  then show ?case using Cons.IH [OF m'(2) _ room(2)] Cons.prems(2) by simp
qed

end
