(* ===== verification/VxMemory.thy ===== *)
theory VxMemory
  imports VxRamCalls
begin

text \<open>
  What the client sees of guest memory: after any run of \<open>vx64_setup_ram\<close> and \<open>vx64_remove_ram\<close>, reading and writing
  physical memory reads and writes, byte by byte, the host memory of the newest region over each address.
\<close>

definition host_of :: "ram_slot list \<Rightarrow> u64 \<Rightarrow> u64 option" where
  "host_of ss a = map_option (\<lambda>s. sl_host s + (a - sl_pa s)) (slot_at ss a)"

text \<open>Unassigned addresses read as zero and ignore what is written.\<close>

definition guest_byte :: "ram_slot list \<Rightarrow> (u64 \<Rightarrow> u8) \<Rightarrow> u64 \<Rightarrow> u8" where
  "guest_byte ss h a = (case host_of ss a of Some p \<Rightarrow> h p | None \<Rightarrow> 0)"

fun guest_write :: "ram_slot list \<Rightarrow> u64 \<Rightarrow> u8 list \<Rightarrow> (u64 \<Rightarrow> u8) \<Rightarrow> (u64 \<Rightarrow> u8)" where
  "guest_write ss a [] h = h"
| "guest_write ss a (b # bs) h = guest_write ss (a + 1) bs (case host_of ss a of Some p \<Rightarrow> h(p := b) | None \<Rightarrow> h)"

definition guest_read :: "ram_slot list \<Rightarrow> (u64 \<Rightarrow> u8) \<Rightarrow> u64 \<Rightarrow> nat \<Rightarrow> u8 list" where
  "guest_read ss h a n = map (\<lambda>i. guest_byte ss h (a + word_of_nat i)) [0..<n]"

subsection \<open>One page\<close>

lemma page_slot_at:
  assumes ok: "slots_ok ss" and p: "uint a div 4096 = uint b div 4096"
  shows "slot_at ss a = slot_at ss b"
proof -
  have "in_slot s (uint a) = in_slot s (uint b)" if s: "s \<in> set ss" for s
  proof -
    obtain k n where k: "uint (sl_pa s) = 4096 * k" "uint (sl_size s) = 4096 * n"
      using slot_bounds(1,2) [OF ok s] by (auto elim!: dvdE simp: dvd_eq_mod_eq_0 [symmetric])
    have "4096 * k \<le> x \<longleftrightarrow> k \<le> x div 4096" "x < 4096 * k + 4096 * n \<longleftrightarrow> x div 4096 < k + n" for x :: int by arith+
    then show ?thesis unfolding in_slot_def k by (simp add: p)
  qed
  then show ?thesis unfolding slot_at_def by (intro find_cong) simp_all
qed

text \<open>The section of an address.\<close>

lemma table_section:
  assumes t: "tables m ss" and a: "unat a < 2 ^ 52"
  defines "s \<equiv> phys_sections (ms_dispatch m) (phys_page_find (ms_dispatch m) (drop_bit 12 a))"
  shows "case slot_at ss a of None \<Rightarrow> sec_mr s = Io_unassigned
    | Some c \<Rightarrow> sec_mr s = Mr (sl_id c) \<and> \<not> sec_readonly s \<and> memory_region_section_addr s a = a - sl_pa c"
proof -
  let ?d = "ms_dispatch m" and ?\<mu> = "\<lambda>a. map_option (\<lambda>s. (Mr (sl_id s), - sl_pa s, False)) (slot_at ss a)"
  obtain ram where inv: "dispatch_inv ram ?d ?\<mu>" and pl: "plain ?d" using t by (auto simp: tables_def)
  have "unat (drop_bit 12 a) < 2 ^ 40" using a by (simp add: unat_page_number)
  then have "phys_page_find ?d (drop_bit 12 a) < phys_sections_nb ?d" using inv by (simp add: dispatch_inv_def page_ok_def)
  then have np: "sec_mr s \<noteq> Subpage k" "sec_mr s \<noteq> Io_subpage_ram" for k using pl by (simp_all add: plain_def s_def)
  then have tgt: "phys_target ?d a = Some (s, memory_region_section_addr s a)"
    by (simp add: phys_target_def s_def Let_def split: mr_ref.splits)
  obtain s' where s': "phys_target ?d a = Some (s', a + (case ?\<mu> a of None \<Rightarrow> fst (snd (dest_of s')) | Some (r, off, ro) \<Rightarrow> off))"
    "case ?\<mu> a of None \<Rightarrow> sec_mr s' = Io_unassigned
     | Some (r, off, ro) \<Rightarrow> sec_readonly s' = ro \<and> (sec_mr s' = r \<or> is_ram_ref ram r \<and> sec_mr s' = Io_subpage_ram)"
    using phys_target_dest [OF inv a] by blast
  have "s' = s" using s'(1) tgt by simp
  with s' tgt np show ?thesis by (cases "slot_at ss a") auto
qed

text \<open>The tables show the slots, and RAM addresses stay below \<open>lim\<close>.\<close>

definition good :: "nat \<Rightarrow> access_state \<Rightarrow> ram_slot list \<Rightarrow> bool" where
  "good lim st ss \<longleftrightarrow> tables (ac_mem st) ss \<and> (\<exists>off. board (ac_mem st) ss lim off)"

lemma good_slots: "good lim st ss \<Longrightarrow> slots_ok ss"
  by (auto simp: good_def board_def)

lemma phys_section_table:
  assumes g: "good lim st ss" and a: "unat a < 2 ^ 52"
  shows "case slot_at ss a of None \<Rightarrow> sec_mr (phys_section st a) = Io_unassigned
    | Some c \<Rightarrow> sec_mr (phys_section st a) = Mr (sl_id c) \<and> \<not> sec_readonly (phys_section st a) \<and>
        memory_region_section_addr (phys_section st a) a = a - sl_pa c"
proof -
  have "unat (drop_bit 12 a) < 2 ^ 40" using a by (simp add: unat_page_number)
  then have "drop_bit 12 (a AND NOT PAGE_OFFSET) = drop_bit 12 a" using page_start [of a] page_of_start [of "drop_bit 12 a"] by simp
  then have "phys_section st a = phys_sections (ms_dispatch (ac_mem st)) (phys_page_find (ms_dispatch (ac_mem st)) (drop_bit 12 a))"
    by (simp add: phys_section_def Let_def)
  then show ?thesis using table_section [of "ac_mem st" ss a] g a by (simp only: good_def)
qed

lemma unmapped_section: "good lim st ss \<Longrightarrow> unat a < 2 ^ 52 \<Longrightarrow> slot_at ss a = None \<Longrightarrow>
    sec_mr (phys_section st a) = Io_unassigned \<and> section_ram st (phys_section st a) = None \<and> section_direct st (phys_section st a) = None"
  using phys_section_table [of lim st ss a] by (simp add: section_ram_def section_direct_def)

text \<open>The RAM of a mapped address: where it is in the host, and that asking for it changes nothing the client sees.\<close>

lemma mapped_section:
  assumes g: "good lim st ss" and a: "unat a < 2 ^ 52" and c: "slot_at ss a = Some c"
  obtains mr st' where "section_ram st (phys_section st a) = Some mr" "section_direct st (phys_section st a) = Some mr" "\<not> sec_readonly (phys_section st a)"
    "get_ram_ptr (reg_ram_addr mr + memory_region_section_addr (phys_section st a) a) st = Some (st', sl_host c + (a - sl_pa c))"
    "good lim st' ss" "ac_host st' = ac_host st"
proof -
  obtain off where b: "board (ac_mem st) ss lim off" and t: "tables (ac_mem st) ss" using g by (auto simp: good_def)
  note B = boardD [OF b]
  have s: "sec_mr (phys_section st a) = Mr (sl_id c)" "\<not> sec_readonly (phys_section st a)"
    "memory_region_section_addr (phys_section st a) a = a - sl_pa c"
    using phys_section_table [OF g a] c by simp_all
  have cs: "c \<in> set ss" "in_slot c (uint a)" using c by (auto simp: slot_at_def find_Some_iff)
  let ?mr = "child_region c (off (sl_id c))" and ?b = "slot_block c (off (sl_id c))"
  have mr: "section_ram st (phys_section st a) = Some ?mr" "section_direct st (phys_section st a) = Some ?mr"
    using board_child [OF B(1) cs(1), of off] by (simp_all add: section_ram_def section_direct_def s(1) B(3))
  have "sl_pa c \<le> a" using cs(2) by (simp add: in_slot_def word_le_def)
  then have "uint (a - sl_pa c) = uint a - uint (sl_pa c)" by (simp add: uint_sub_lem [symmetric] word_le_def uint_minus_simple_alt)
  then have "a - sl_pa c < ucast (sl_size c)" using cs(2) ucast_size(1) [of "sl_size c"] by (simp add: word_less_def in_slot_def)
  then have "in_block (off (sl_id c) + (a - sl_pa c)) ?b" by (simp add: in_block_def slot_block_def)
  from ram_ptr_in_block [OF B(8) B(11) [OF cs(1)] this] obtain ram' where p: "qemu_get_ram_ptr (off (sl_id c) + (a - sl_pa c)) (ms_ram (ac_mem st)) = Some (ram', sl_host c + (a - sl_pa c))"
    by (auto simp: slot_block_def)
  have r: "ram_ok ram'" "rl_blocks ram' = rl_blocks (ms_ram (ac_mem st))" using ram_ptr_ok [OF B(8) p] by simp_all
  let ?st = "st\<lparr>ac_mem := (ac_mem st)\<lparr>ms_ram := ram'\<rparr>\<rparr>"
  have "board (ac_mem ?st) ss lim off" using b r by (simp add: board_def)
  then have "good lim ?st ss" using t by (auto simp: good_def tables_def)
  moreover have "get_ram_ptr (reg_ram_addr ?mr + memory_region_section_addr (phys_section st a) a) st = Some (?st, sl_host c + (a - sl_pa c))"
    by (simp add: get_ram_ptr_def s(3) p)
  ultimately show thesis using that [of ?mr ?st] mr s(2) by simp
qed

lemma same_page: "(x :: nat) mod 4096 + i < 4096 \<Longrightarrow> (x + i) div 4096 = x div 4096"
proof -
  assume i: "x mod 4096 + i < 4096"
  have "x + i = (x mod 4096 + i) + 4096 * (x div 4096)" using mod_mult_div_eq [of x 4096] by linarith
  then have "(x + i) div 4096 = x div 4096 + (x mod 4096 + i) div 4096" by (metis div_mult_self2 zero_neq_numeral)
  then show ?thesis using i by simp
qed

text \<open>The bytes of one page.\<close>

lemma page_bytes:
  assumes ok: "slots_ok ss" and a: "unat a + n \<le> 2 ^ 52" and i: "i < page_rest a n"
  shows "slot_at ss (a + word_of_nat i) = slot_at ss a" "unat (a + word_of_nat i) = unat a + i"
proof -
  have i': "unat a mod 4096 + i < 4096" "i < n" using i unfolding page_rest_eq by linarith+
  have "unat (word_of_nat i :: u64) = i" using a i'(2) by (simp add: unsigned_of_nat take_bit_eq_mod)
  then show u: "unat (a + word_of_nat i) = unat a + i" using a i'(2) unat_add_64 [of a "word_of_nat i"] by simp
  have "int ((unat a + i) div 4096) = int (unat a div 4096)" using same_page [OF i'(1)] by (rule arg_cong)
  then have "uint (a + word_of_nat i) div 4096 = uint a div 4096"
    unfolding uint_nat u by (simp only: zdiv_int of_nat_numeral)
  then show "slot_at ss (a + word_of_nat i) = slot_at ss a" by (rule page_slot_at [OF ok])
qed

lemma guest_read_append: "guest_read ss h a (l + k) = guest_read ss h a l @ guest_read ss h (a + word_of_nat l) k"
proof -
  have "[0..<l + k] = [0..<l] @ map (\<lambda>i. l + i) [0..<k]" by (induction k) simp_all
  then show ?thesis by (simp add: guest_read_def add.assoc)
qed

lemma page_rest_le: "page_rest a n \<le> n" by (simp add: page_rest_eq)

lemma io_width_le: "0 < l \<Longrightarrow> io_width a l \<le> l" by (auto simp: io_width_def)


subsection \<open>Reading\<close>

lemma host_guest_bytes:
  assumes ok: "slots_ok ss" and a: "unat a + n \<le> 2 ^ 52" and c: "slot_at ss a = Some c" and l: "l \<le> page_rest a n"
  shows "host_bytes h (sl_host c + (a - sl_pa c)) l = guest_read ss h a l"
  unfolding host_bytes_def guest_read_def
proof (intro map_cong refl)
  fix i assume "i \<in> set [0..<l]"
  then have "slot_at ss (a + word_of_nat i) = Some c" using page_bytes(1) [OF ok a, of i] c l by simp
  then show "h (sl_host c + (a - sl_pa c) + word_of_nat i) = guest_byte ss h (a + word_of_nat i)"
    by (simp add: guest_byte_def host_of_def algebra_simps)
qed

lemma unmapped_bytes:
  assumes ok: "slots_ok ss" and a: "unat a + n \<le> 2 ^ 52" and c: "slot_at ss a = None" and l: "l \<le> page_rest a n"
  shows "guest_read ss h a l = le_bytes l 0"
  unfolding le_bytes_def guest_read_def
proof (intro map_cong refl)
  fix i assume "i \<in> set [0..<l]"
  then have "slot_at ss (a + word_of_nat i) = None" using page_bytes(1) [OF ok a, of i] c l by simp
  then show "guest_byte ss h (a + word_of_nat i) = ucast (drop_bit (8 * i) (0 :: u64))"
    by (simp add: guest_byte_def host_of_def)
qed

lemma io_width_aligned: "a AND (word_of_nat (io_width a l) - 1) = 0"
  by (simp add: io_width_def)

lemma unassigned_read: "phys_io_read dev Io_unassigned a (io_width a l) st = Some (st, 0)"
  by (simp add: phys_io_read_def leaf_read_def io_masked_def unassigned_mem_read_def io_width_aligned)

lemma next_bound: "unat (a :: u64) + n \<le> 2 ^ 52 \<Longrightarrow> l \<le> n \<Longrightarrow> unat (a + word_of_nat l) + (n - l) \<le> 2 ^ 52"
proof -
  assume a: "unat a + n \<le> 2 ^ 52" "l \<le> n"
  have "unat (word_of_nat l :: u64) = l" using a by (simp add: unsigned_of_nat take_bit_eq_mod)
  then have "unat (a + word_of_nat l) = unat a + l" using a unat_add_64 [of a "word_of_nat l"] by simp
  then show ?thesis using a by simp
qed

lemma read_guest:
  "good lim st ss \<Longrightarrow> unat a + n \<le> 2 ^ 52 \<Longrightarrow>
    \<exists>st'. address_space_read dev a n st = Some (st', guest_read ss (ac_host st) a n) \<and> good lim st' ss \<and> ac_host st' = ac_host st"
proof (induction n arbitrary: a st rule: less_induct)
  case (less n)
  note g = less.prems(1) and a = less.prems(2)
  note ok = good_slots [OF g]
  show ?case
  proof (cases "n = 0")
    case True
    then show ?thesis using g by (simp add: guest_read_def)
  next
    case False
    let ?l = "page_rest a n"
    have l: "0 < ?l" "?l \<le> n" using False page_rest_pos page_rest_le by simp_all
    have a1: "unat a < 2 ^ 52" using a False by linarith
    have append: "guest_read ss h a w @ guest_read ss h (a + word_of_nat w) (n - w) = guest_read ss h a n" if "w \<le> n" for h w
      using guest_read_append [of ss h a w "n - w"] that by simp
    show ?thesis
    proof (cases "slot_at ss a")
      case None
      note u = unmapped_section [OF g a1 None]
      define addr1 where "addr1 = memory_region_section_addr (phys_section st a) a"
      let ?w = "io_width addr1 ?l"
      have w: "0 < ?w" "?w \<le> ?l" using io_width_pos io_width_le l(1) by blast+
      then have wn: "?w \<le> n" "n - ?w < n" using l False by simp_all
      obtain st' where st': "address_space_read dev (a + word_of_nat ?w) (n - ?w) st =
          Some (st', guest_read ss (ac_host st) (a + word_of_nat ?w) (n - ?w))" "good lim st' ss" "ac_host st' = ac_host st"
        using less.IH [OF wn(2) g next_bound [OF a wn(1)]] by blast
      have "address_space_read dev a n st = Some (st', le_bytes ?w 0 @ guest_read ss (ac_host st) (a + word_of_nat ?w) (n - ?w))"
        using False u st'(1) unassigned_read [of dev addr1 ?l st]
        by (subst address_space_read.simps) (simp add: Let_def addr1_def [symmetric])
      then show ?thesis using st'(2,3) append [OF wn(1)] unmapped_bytes [OF ok a None w(2)] by simp
    next
      case (Some c)
      obtain mr st1 where m: "section_direct st (phys_section st a) = Some mr"
        "get_ram_ptr (reg_ram_addr mr + memory_region_section_addr (phys_section st a) a) st = Some (st1, sl_host c + (a - sl_pa c))"
        "good lim st1 ss" "ac_host st1 = ac_host st"
        by (rule mapped_section [OF g a1 Some])
      have nl: "n - ?l < n" using l by simp
      obtain st' where st': "address_space_read dev (a + word_of_nat ?l) (n - ?l) st1 =
          Some (st', guest_read ss (ac_host st1) (a + word_of_nat ?l) (n - ?l))" "good lim st' ss" "ac_host st' = ac_host st1"
        using less.IH [OF nl m(3) next_bound [OF a l(2)]] by blast
      have "address_space_read dev a n st = Some (st', host_bytes (ac_host st) (sl_host c + (a - sl_pa c)) ?l @
          guest_read ss (ac_host st) (a + word_of_nat ?l) (n - ?l))"
        using False m(1,2,4) st'(1,3) by (subst address_space_read.simps) (simp add: Let_def)
      then show ?thesis using st'(2,3) m(4) append [OF l(2)] host_guest_bytes [OF ok a Some order_refl] by simp
    qed
  qed
qed


subsection \<open>Writing\<close>

lemma guest_write_append:
  "guest_write ss a (xs @ ys) h = guest_write ss (a + word_of_nat (length xs)) ys (guest_write ss a xs h)"
  by (induction xs arbitrary: a h) (simp_all add: algebra_simps)

lemma put_host_guest:
  "(\<And>i. i < length xs \<Longrightarrow> host_of ss (a + word_of_nat i) = Some (p + word_of_nat i)) \<Longrightarrow>
    put_host p xs h = guest_write ss a xs h"
proof (induction xs arbitrary: a p h)
  case (Cons x xs)
  have "host_of ss (a + 1 + word_of_nat i) = Some (p + 1 + word_of_nat i)" if "i < length xs" for i
    using Cons.prems [of "Suc i"] that by (simp add: algebra_simps)
  then show ?case using Cons.IH [of "a + 1" "p + 1"] Cons.prems [of 0] by simp
qed simp

lemma unmapped_write:
  "(\<And>i. i < length xs \<Longrightarrow> host_of ss (a + word_of_nat i) = None) \<Longrightarrow> guest_write ss a xs h = h"
proof (induction xs arbitrary: a h)
  case (Cons x xs)
  have "host_of ss (a + 1 + word_of_nat i) = None" if "i < length xs" for i
    using Cons.prems [of "Suc i"] that by (simp add: algebra_simps)
  then show ?case using Cons.IH [of "a + 1"] Cons.prems [of 0] by simp
qed simp

lemma page_host:
  assumes ok: "slots_ok ss" and a: "unat a + n \<le> 2 ^ 52" and i: "i < page_rest a n"
  shows "host_of ss (a + word_of_nat i) = map_option (\<lambda>p. p + word_of_nat i) (host_of ss a)"
  using page_bytes(1) [OF ok a i] by (cases "slot_at ss a") (simp_all add: host_of_def algebra_simps)

text \<open>What is recorded of a write leaves the tables and the host memory alone.\<close>

lemma good_host: "good lim st ss \<Longrightarrow> good lim (st\<lparr>ac_host := h\<rparr>) ss"
  by (simp add: good_def)

lemma ram_ok_dirty: "ram_ok (r\<lparr>rl_dirty := d\<rparr>) = ram_ok r"
  by (simp add: ram_ok_def)

lemma set_dirty_good:
  assumes "good lim st ss"
  shows "good lim (cpu_invalidate_and_set_dirty r l st) ss" "ac_host (cpu_invalidate_and_set_dirty r l st) = ac_host st"
  using assms by (simp_all add: cpu_invalidate_and_set_dirty_def Let_def good_def board_def tables_def ram_ok_dirty)

lemma write_guest:
  "good lim st ss \<Longrightarrow> unat a + length buf \<le> 2 ^ 52 \<Longrightarrow>
    \<exists>st'. address_space_write dev a buf st = Some st' \<and> good lim st' ss \<and> ac_host st' = guest_write ss a buf (ac_host st)"
proof (induction "length buf" arbitrary: a buf st rule: less_induct)
  case less
  note g = less.prems(1) and a = less.prems(2)
  note ok = good_slots [OF g]
  show ?case
  proof (cases "buf = []")
    case True
    then show ?thesis using g by simp
  next
    case False
    let ?n = "length buf" and ?l = "page_rest a (length buf)"
    have l: "0 < ?l" "?l \<le> ?n" using False page_rest_pos [of ?n a] page_rest_le by simp_all
    have a1: "unat a < 2 ^ 52" using a l by linarith
    have append: "guest_write ss (a + word_of_nat w) (drop w buf) (guest_write ss a (take w buf) h) = guest_write ss a buf h"
      if "w \<le> ?n" for h w
      using guest_write_append [of ss a "take w buf" "drop w buf" h] that by simp
    have rest: "length (drop w buf) < ?n" "unat (a + word_of_nat w) + length (drop w buf) \<le> 2 ^ 52" if "0 < w" "w \<le> ?n" for w
      using next_bound [OF a that(2)] that by simp_all
    show ?thesis
    proof (cases "slot_at ss a")
      case None
      note u = unmapped_section [OF g a1 None]
      let ?w = "io_width (memory_region_section_addr (phys_section st a) a) ?l"
      have w: "0 < ?w" "?w \<le> ?l" using io_width_pos io_width_le l(1) by blast+
      then have wn: "?w \<le> ?n" using l(2) by simp
      obtain st' where st': "address_space_write dev (a + word_of_nat ?w) (drop ?w buf) st = Some st'" "good lim st' ss"
        "ac_host st' = guest_write ss (a + word_of_nat ?w) (drop ?w buf) (ac_host st)"
        using less.hyps [OF rest(1) [OF w(1) wn] g rest(2) [OF w(1) wn]] by blast
      have "host_of ss (a + word_of_nat i) = None" if "i < length (take ?w buf)" for i
        using page_host [OF ok a, of i] that w(2) None by (simp add: host_of_def)
      then have "guest_write ss a (take ?w buf) (ac_host st) = ac_host st" by (rule unmapped_write)
      then have "ac_host st' = guest_write ss a buf (ac_host st)" using append [OF wn, of "ac_host st"] st'(3) by simp
      moreover have "address_space_write dev a buf st = Some st'"
        using False u st'(1) by (subst address_space_write.simps) (simp add: Let_def phys_io_write_def leaf_write_def io_checked_def unassigned_mem_write_def)
      ultimately show ?thesis using st'(2) by blast
    next
      case (Some c)
      obtain mr st1 where m: "section_ram st (phys_section st a) = Some mr" "\<not> sec_readonly (phys_section st a)"
        "get_ram_ptr (reg_ram_addr mr + memory_region_section_addr (phys_section st a) a) st = Some (st1, sl_host c + (a - sl_pa c))"
        "good lim st1 ss" "ac_host st1 = ac_host st"
        by (rule mapped_section [OF g a1 Some])
      let ?st2 = "cpu_invalidate_and_set_dirty (reg_ram_addr mr + memory_region_section_addr (phys_section st a) a) ?l
        (st1\<lparr>ac_host := put_host (sl_host c + (a - sl_pa c)) (take ?l buf) (ac_host st1)\<rparr>)"
      note d = set_dirty_good [OF good_host [OF m(4)], of _ ?l "put_host (sl_host c + (a - sl_pa c)) (take ?l buf) (ac_host st1)"]
      obtain st' where st': "address_space_write dev (a + word_of_nat ?l) (drop ?l buf) ?st2 = Some st'" "good lim st' ss"
        "ac_host st' = guest_write ss (a + word_of_nat ?l) (drop ?l buf) (ac_host ?st2)"
        using less.hyps [OF rest(1) [OF l] d(1) rest(2) [OF l]] by blast
      have "put_host (sl_host c + (a - sl_pa c)) (take ?l buf) h = guest_write ss a (take ?l buf) h" for h
        using page_host [OF ok a] Some by (intro put_host_guest) (simp add: host_of_def)
      then have "ac_host st' = guest_write ss a buf (ac_host st)"
        using append [OF l(2), of "ac_host st"] st'(3) d(2) m(5) by simp
      moreover have "address_space_write dev a buf st = Some st'"
        using False m(1-3) st'(1) by (subst address_space_write.simps) (simp add: Let_def)
      ultimately show ?thesis using st'(2) by blast
    qed
  qed
qed


subsection \<open>What the client does\<close>

text \<open>Calls of the interface, and accesses to guest memory between them. An access returns the bytes it reads.\<close>

datatype client_op = Ram_call ram_call | Read_mem u64 nat | Write_mem u64 "u8 list" | Dirty_mem u64 u64

definition client_step :: "devices \<Rightarrow> client_op \<Rightarrow> access_state \<Rightarrow> (access_state \<times> u8 list) option" where
  "client_step dev p st = (case p of
     Ram_call c \<Rightarrow> map_option (\<lambda>m. (st\<lparr>ac_mem := m\<rparr>, [])) (ram_call c (ac_mem st))
   | Read_mem a n \<Rightarrow> address_space_read dev a n st
   | Write_mem a buf \<Rightarrow> map_option (\<lambda>st. (st, [])) (address_space_write dev a buf st)
   | Dirty_mem a len \<Rightarrow> Some (vx64_dirty a len st, []))"

fun client_run :: "devices \<Rightarrow> client_op list \<Rightarrow> access_state \<Rightarrow> (access_state \<times> u8 list list) option" where
  "client_run dev [] st = Some (st, [])"
| "client_run dev (p # ps) st = do {
     (st, out) \<leftarrow> client_step dev p st;
     (st, outs) \<leftarrow> client_run dev ps st;
     Some (st, out # outs)
   }"

text \<open>The same on the specification: the slots and the host memory.\<close>

fun spec_step :: "client_op \<Rightarrow> ram_slot list \<times> (u64 \<Rightarrow> u8) \<Rightarrow> (ram_slot list \<times> (u64 \<Rightarrow> u8)) \<times> u8 list" where
  "spec_step (Ram_call c) (ss, h) = ((slots_after c ss, h), [])"
| "spec_step (Read_mem a n) (ss, h) = ((ss, h), guest_read ss h a n)"
| "spec_step (Write_mem a buf) (ss, h) = ((ss, guest_write ss a buf h), [])"
| "spec_step (Dirty_mem a len) (ss, h) = ((ss, h), [])"

fun spec_run :: "client_op list \<Rightarrow> ram_slot list \<times> (u64 \<Rightarrow> u8) \<Rightarrow> (ram_slot list \<times> (u64 \<Rightarrow> u8)) \<times> u8 list list" where
  "spec_run [] g = (g, [])"
| "spec_run (p # ps) g = (let (g, out) = spec_step p g; (g, outs) = spec_run ps g in (g, out # outs))"

fun op_ok :: "client_op \<Rightarrow> ram_slot list \<Rightarrow> bool" where
  "op_ok (Ram_call c) ss \<longleftrightarrow> call_ok c ss"
| "op_ok (Read_mem a n) ss \<longleftrightarrow> unat a + n \<le> 2 ^ 52"
| "op_ok (Write_mem a buf) ss \<longleftrightarrow> unat a + length buf \<le> 2 ^ 52"
| "op_ok (Dirty_mem a len) ss \<longleftrightarrow> True"

fun op_slots :: "client_op \<Rightarrow> ram_slot list \<Rightarrow> ram_slot list" where
  "op_slots (Ram_call c) ss = slots_after c ss"
| "op_slots _ ss = ss"

fun ops_ok :: "client_op list \<Rightarrow> ram_slot list \<Rightarrow> bool" where
  "ops_ok [] ss \<longleftrightarrow> True"
| "ops_ok (p # ps) ss \<longleftrightarrow> op_ok p ss \<and> ops_ok ps (op_slots p ss)"

lemma good_mono: "good lim st ss \<Longrightarrow> lim \<le> lim' \<Longrightarrow> good lim' st ss"
  by (fastforce simp: good_def board_def blocks_below_def list_all_iff)

lemma call_good:
  assumes b: "board (ac_mem st) ss lim off" and c: "call_ok c ss" and room: "lim + 2 ^ 32 < 2 ^ 63"
  obtains st' where "client_step dev (Ram_call c) st = Some (st', [])" "good (lim + 2 ^ 32) st' (slots_after c ss)"
    "ac_host st' = ac_host st"
proof -
  obtain m' off' where m': "ram_call c (ac_mem st) = Some m'" "board m' (slots_after c ss) (lim + 2 ^ 32) off'"
    "tables m' (slots_after c ss)"
    by (rule call_step [OF b c room])
  then have "good (lim + 2 ^ 32) (st\<lparr>ac_mem := m'\<rparr>) (slots_after c ss)" by (auto simp: good_def)
  then show thesis using that [of "st\<lparr>ac_mem := m'\<rparr>"] m'(1) by (simp add: client_step_def)
qed

lemma step_good:
  assumes g: "good lim st ss" and p: "op_ok p ss" and room: "lim + 2 ^ 32 < 2 ^ 63"
  shows "\<exists>st'. client_step dev p st = Some (st', snd (spec_step p (ss, ac_host st))) \<and>
    good (lim + 2 ^ 32) st' (op_slots p ss) \<and> fst (spec_step p (ss, ac_host st)) = (op_slots p ss, ac_host st')"
proof (cases p)
  case (Ram_call c)
  obtain off where b: "board (ac_mem st) ss lim off" using g by (auto simp: good_def)
  have c: "call_ok c ss" using p by (simp add: Ram_call)
  obtain st' where "client_step dev (Ram_call c) st = Some (st', [])" "good (lim + 2 ^ 32) st' (slots_after c ss)"
    "ac_host st' = ac_host st"
    by (rule call_good [OF b c room])
  then show ?thesis by (simp add: Ram_call)
next
  case (Read_mem a n)
  have a: "unat a + n \<le> 2 ^ 52" using p by (simp add: Read_mem)
  obtain st' where st': "address_space_read dev a n st = Some (st', guest_read ss (ac_host st) a n)" "good lim st' ss"
    "ac_host st' = ac_host st"
    using read_guest [OF g a] by blast
  have "good (lim + 2 ^ 32) st' ss" by (rule good_mono [OF st'(2)]) simp
  then show ?thesis using st'(1,3) by (simp add: Read_mem client_step_def)
next
  case (Write_mem a buf)
  have a: "unat a + length buf \<le> 2 ^ 52" using p by (simp add: Write_mem)
  obtain st' where st': "address_space_write dev a buf st = Some st'" "good lim st' ss"
    "ac_host st' = guest_write ss a buf (ac_host st)"
    using write_guest [OF g a] by blast
  have "good (lim + 2 ^ 32) st' ss" by (rule good_mono [OF st'(2)]) simp
  then show ?thesis using st'(1,3) by (simp add: Write_mem client_step_def)
next
  case (Dirty_mem a len)
  have "good (lim + 2 ^ 32) (vx64_dirty a len st) ss"
    unfolding vx64_dirty_def by (rule good_mono [OF set_dirty_good(1) [OF g]]) simp
  then show ?thesis using set_dirty_good(2) [OF g] by (simp add: Dirty_mem client_step_def vx64_dirty_def)
qed

lemma run_good:
  "good lim st ss \<Longrightarrow> ops_ok ps ss \<Longrightarrow> lim + 2 ^ 32 * length ps < 2 ^ 63 \<Longrightarrow>
    \<exists>st'. client_run dev ps st = Some (st', snd (spec_run ps (ss, ac_host st))) \<and>
      snd (fst (spec_run ps (ss, ac_host st))) = ac_host st'"
proof (induction ps arbitrary: st ss lim)
  case Nil
  then show ?case by simp
next
  case (Cons p ps)
  have room: "lim + 2 ^ 32 < 2 ^ 63" "lim + 2 ^ 32 + 2 ^ 32 * length ps < 2 ^ 63" using Cons.prems(3) by simp_all
  obtain st' where st': "client_step dev p st = Some (st', snd (spec_step p (ss, ac_host st)))"
    "good (lim + 2 ^ 32) st' (op_slots p ss)" "fst (spec_step p (ss, ac_host st)) = (op_slots p ss, ac_host st')"
    using step_good [OF Cons.prems(1) _ room(1), of p dev] Cons.prems(2) by (simp only: ops_ok.simps) blast
  then show ?case using Cons.IH [OF st'(2) _ room(2)] Cons.prems(2)
    by (auto simp: Let_def prod_eq_iff split: prod.splits)
qed

definition client_init :: "(u64 \<Rightarrow> u8) \<Rightarrow> access_state" where
  "client_init h = \<lparr>ac_mem = memory_map_init, ac_host = h, ac_invalidated = []\<rparr>"

text \<open>C39. Guest memory is the client's memory. Start the memory system and let the client, after a first call, do
  anything in any order, up to 2 ^ 31 operations: set up RAM of whole pages below 2 ^ 52 (at most 780 regions at a time,
  which may overlap), remove what it set up, declare memory changed, read and write physical memory below 2 ^ 52.
  Nothing aborts, whatever devices there are: every read gives, byte by byte, the host memory of the newest region over
  the address (zero where there is none), every write goes there and nowhere else, and the host memory ends as the
  specification says. Rendering the tree, rebuilding the dispatch tables and allocating RAM blocks do not show.\<close>

theorem guest_memory_refines:
  assumes "ops_ok (Ram_call c # ps) []" "length ps < 2 ^ 31 - 1"
  shows "\<exists>st. client_run dev (Ram_call c # ps) (client_init h) = Some (st, snd (spec_run (Ram_call c # ps) ([], h))) \<and>
    ac_host st = snd (fst (spec_run (Ram_call c # ps) ([], h)))"
proof -
  obtain st where st: "client_step dev (Ram_call c) (client_init h) = Some (st, [])" "good (0 + 2 ^ 32) st (slots_after c [])"
    "ac_host st = h"
    using call_good [of "client_init h" "[]" 0 "\<lambda>_. 0" c dev] board_init assms(1) by (auto simp: client_init_def)
  have "0 + 2 ^ 32 + 2 ^ 32 * length ps < (2 :: nat) ^ 63" using assms(2) by simp
  from run_good [OF st(2) _ this, of dev] assms(1) st show ?thesis by (auto simp: Let_def split: prod.splits)
qed


text \<open>Two overlapping regions; a write across the border; the newer one is removed again.\<close>

definition demo_slot :: "nat \<Rightarrow> u64 \<Rightarrow> u32 \<Rightarrow> u64 \<Rightarrow> ram_slot" where
  "demo_slot r pa n p = \<lparr>sl_id = r, sl_pa = pa, sl_size = n, sl_host = p\<rparr>"

definition demo_ops :: "client_op list" where
  "demo_ops = [Ram_call (Setup_ram (demo_slot 2 0x2000 0x1000 0x900000)), Write_mem 0x1FFE [1, 2, 3, 4], Read_mem 0x1FFE 4,
     Ram_call (Remove_ram 2), Read_mem 0x1FFE 4, Read_mem 0xFFF 2]"

definition demo_devices :: devices where
  "demo_devices = \<lparr>dev_read = \<lambda>_ _ _. 7, dev_write = \<lambda>_ _ _ _ st. st\<rparr>"

lemma demo_ops_ok: "ops_ok (Ram_call (Setup_ram (demo_slot 1 0x1000 0x2000 0x700000)) # demo_ops) []"
  by (simp add: demo_ops_def demo_slot_def slot_ok_def)

lemma demo_spec: "snd (spec_run (Ram_call (Setup_ram (demo_slot 1 0x1000 0x2000 0x700000)) # demo_ops) ([], \<lambda>_. 5)) =
    [[], [], [], [1, 2, 3, 4], [], [1, 2, 5, 5], [0, 5]]"
  by (simp add: demo_ops_def demo_slot_def guest_read_def guest_byte_def host_of_def slot_at_def in_slot_def upt_rec)

theorem guest_memory_refines_witness:
  "\<exists>st. client_run demo_devices (Ram_call (Setup_ram (demo_slot 1 0x1000 0x2000 0x700000)) # demo_ops) (client_init (\<lambda>_. 5)) =
    Some (st, [[], [], [], [1, 2, 3, 4], [], [1, 2, 5, 5], [0, 5]])"
  using guest_memory_refines [OF demo_ops_ok, of demo_devices "\<lambda>_. 5"] unfolding demo_spec by (auto simp: demo_ops_def)

end
