(* ===== verification/VxCpu.thy ===== *)
theory VxCpu
  imports ControlRegs
begin

text \<open>
  The interface of the library to the emulated CPU (\<open>vx64.c\<close>): registers, running, single steps, and the break-
  and watchpoints of a client that debugs the guest. The CPU that the C code keeps in the global variable \<open>env\<close> is the
  argument and the result. \<open>cpu_x86_exec\<close> runs generated code and is an argument of \<open>vx64_go\<close>; a use of a freed
  watchpoint and an index outside \<open>segs\<close> are \<open>Abort\<close>.
\<close>

datatype vx_error = VXERR_INSUF_BUF | VXERR_FAIL | VXERR_OK

datatype trans_reg = VXR_EAX | VXR_ECX | VXR_EDX | VXR_EBX | VXR_ESP | VXR_EBP | VXR_ESI | VXR_EDI | VXR_EFLAGS | VXR_EIP
  | VXR_ES | VXR_CS | VXR_SS | VXR_DS | VXR_FS | VXR_GS | VXR_DR0 | VXR_DR1 | VXR_DR2 | VXR_DR3 | VXR_DR6 | VXR_DR7
  | VXR_CR0 | VXR_CR2 | VXR_CR3 | VXR_CR4 | VXR_GDT | VXR_LDT

subsection \<open>Starting and registers\<close>

definition vx64_reset :: "cpu_state \<Rightarrow> cpu_state \<times> vx_error" where
  "vx64_reset env = (tlb_flush (tb_flush env), VXERR_OK)"

text \<open>\<open>vx64_init\<close> from the CPU that \<open>cpu_init\<close> gives, if it gives one.\<close>

definition vx64_init :: "cpu_state option \<Rightarrow> cpu_state option \<times> vx_error" where
  "vx64_init cpu = (case cpu of
     None \<Rightarrow> (None, VXERR_FAIL)
   | Some env \<Rightarrow>
       let env = cpu_x86_set_cpl env 3;
           env = cpu_x86_update_cr0 env CR0_PE_MASK;
           env = cpu_x86_update_cr4 env CR4_PAE_MASK;
           env = cpu_load_efer env MSR_EFER_LME;
           env = cpu_x86_update_cr0 env (CR0_PG_MASK OR CR0_WP_MASK)
       in (Some (fst (vx64_reset env)), VXERR_OK))"

text \<open>\<open>None\<close>: the value is not written and the call fails.\<close>

fun vx64_get_reg :: "trans_reg \<Rightarrow> cpu_state \<Rightarrow> u64 option" where
  "vx64_get_reg VXR_EAX env = Some (regs env 0)"
| "vx64_get_reg VXR_ECX env = Some (regs env 1)"
| "vx64_get_reg VXR_EDX env = Some (regs env 2)"
| "vx64_get_reg VXR_EBX env = Some (regs env 3)"
| "vx64_get_reg VXR_ESP env = Some (regs env 4)"
| "vx64_get_reg VXR_EBP env = Some (regs env 5)"
| "vx64_get_reg VXR_ESI env = Some (regs env 6)"
| "vx64_get_reg VXR_EDI env = Some (regs env 7)"
| "vx64_get_reg VXR_EFLAGS env = Some (eflags env)"
| "vx64_get_reg VXR_EIP env = Some (eip env)"
| "vx64_get_reg VXR_ES env = Some (ucast (sc_selector (segs env 0)))"
| "vx64_get_reg VXR_CS env = Some (ucast (sc_selector (segs env 1)))"
| "vx64_get_reg VXR_SS env = Some (ucast (sc_selector (segs env 2)))"
| "vx64_get_reg VXR_DS env = Some (ucast (sc_selector (segs env 3)))"
| "vx64_get_reg VXR_FS env = Some (ucast (sc_selector (segs env 4)))"
| "vx64_get_reg VXR_GS env = Some (ucast (sc_selector (segs env 5)))"
| "vx64_get_reg VXR_DR0 env = Some (dr env 0)"
| "vx64_get_reg VXR_DR1 env = Some (dr env 1)"
| "vx64_get_reg VXR_DR2 env = Some (dr env 2)"
| "vx64_get_reg VXR_DR3 env = Some (dr env 3)"
| "vx64_get_reg VXR_DR6 env = Some (dr env 6)"
| "vx64_get_reg VXR_DR7 env = Some (dr env 7)"
| "vx64_get_reg VXR_CR0 env = Some (cr env 0)"
| "vx64_get_reg VXR_CR2 env = Some (cr env 2)"
| "vx64_get_reg VXR_CR3 env = Some (cr env 3)"
| "vx64_get_reg VXR_CR4 env = Some (cr env 4)"
| "vx64_get_reg _ env = None"

definition write_dr :: "nat \<Rightarrow> u64 \<Rightarrow> cpu_state \<Rightarrow> (cpu_state \<times> vx_error) outcome" where
  "write_dr r v env = bind_out (helper_movl_drN_T0 env r v) (\<lambda>env. Done (env, VXERR_OK))"

fun vx64_set_reg :: "trans_reg \<Rightarrow> u64 \<Rightarrow> cpu_state \<Rightarrow> (cpu_state \<times> vx_error) outcome" where
  "vx64_set_reg VXR_EAX v env = Done (set_reg 0 v env, VXERR_OK)"
| "vx64_set_reg VXR_ECX v env = Done (set_reg 1 v env, VXERR_OK)"
| "vx64_set_reg VXR_EDX v env = Done (set_reg 2 v env, VXERR_OK)"
| "vx64_set_reg VXR_EBX v env = Done (set_reg 3 v env, VXERR_OK)"
| "vx64_set_reg VXR_ESP v env = Done (set_reg 4 v env, VXERR_OK)"
| "vx64_set_reg VXR_EBP v env = Done (set_reg 5 v env, VXERR_OK)"
| "vx64_set_reg VXR_ESI v env = Done (set_reg 6 v env, VXERR_OK)"
| "vx64_set_reg VXR_EDI v env = Done (set_reg 7 v env, VXERR_OK)"
| "vx64_set_reg VXR_EFLAGS v env = Done (env\<lparr>eflags := v\<rparr>, VXERR_OK)"
| "vx64_set_reg VXR_EIP v env = Done (env\<lparr>eip := v\<rparr>, VXERR_OK)"
| "vx64_set_reg VXR_CR3 v env = Done (cpu_x86_update_cr3 env v, VXERR_OK)"
| "vx64_set_reg VXR_DR0 v env = write_dr 0 v env"
| "vx64_set_reg VXR_DR1 v env = write_dr 1 v env"
| "vx64_set_reg VXR_DR2 v env = write_dr 2 v env"
| "vx64_set_reg VXR_DR3 v env = write_dr 3 v env"
| "vx64_set_reg VXR_DR6 v env = write_dr 6 v env"
| "vx64_set_reg VXR_DR7 v env = write_dr 7 v env"
| "vx64_set_reg _ v env = Done (env, VXERR_FAIL)"

text \<open>The index \<open>id - VXR_ES\<close> into \<open>segs\<close> is not checked.\<close>

fun seg_of_reg :: "trans_reg \<Rightarrow> nat option" where
  "seg_of_reg VXR_ES = Some 0"
| "seg_of_reg VXR_CS = Some 1"
| "seg_of_reg VXR_SS = Some 2"
| "seg_of_reg VXR_DS = Some 3"
| "seg_of_reg VXR_FS = Some 4"
| "seg_of_reg VXR_GS = Some 5"
| "seg_of_reg _ = None"

definition vx64_load_seg_cache ::
    "trans_reg \<Rightarrow> u16 \<Rightarrow> u64 \<Rightarrow> u32 \<Rightarrow> u32 \<Rightarrow> cpu_state \<Rightarrow> (cpu_state \<times> vx_error) outcome" where
  "vx64_load_seg_cache r sel va_base limit flags env = (case seg_of_reg r of
     None \<Rightarrow> Abort
   | Some k \<Rightarrow> Done (cpu_x86_load_seg_cache env k (ucast sel) va_base limit flags, VXERR_OK))"

fun vx64_load_xdt :: "trans_reg \<Rightarrow> u64 \<Rightarrow> u32 \<Rightarrow> cpu_state \<Rightarrow> cpu_state \<times> vx_error" where
  "vx64_load_xdt VXR_GDT base limit env = (env\<lparr>gdt := (gdt env)\<lparr>sc_base := base, sc_limit := limit\<rparr>\<rparr>, VXERR_OK)"
| "vx64_load_xdt VXR_LDT base limit env = (env\<lparr>ldt := (ldt env)\<lparr>sc_base := base, sc_limit := limit\<rparr>\<rparr>, VXERR_OK)"
| "vx64_load_xdt _ base limit env = (env, VXERR_FAIL)"

definition vx64_flush_tlb :: "u64 \<Rightarrow> cpu_state \<Rightarrow> cpu_state \<times> vx_error" where
  "vx64_flush_tlb guest_pa env = (tlb_flush_page env guest_pa, VXERR_OK)"

subsection \<open>Running\<close>

record vx_watch_point =
  vw_type :: u32
  vw_gvma :: u64
  vw_size :: u64

text \<open>\<open>VXResult\<close>; the number of a trap is what \<open>result\<close> holds.\<close>

datatype vx_result =
    Vx_trap int u32 u32 u64
  | Vx_watch_point vx_watch_point
  | Vx_break_point u64
  | Vx_none

abbreviation (input) EXCP_DEBUG :: int where "EXCP_DEBUG \<equiv> 0x10002"
abbreviation (input) EXCP_INTERRUPT :: int where "EXCP_INTERRUPT \<equiv> 0x10000"
abbreviation (input) VXWP_READ :: u32 where "VXWP_READ \<equiv> 1"
abbreviation (input) VXWP_WRITE :: u32 where "VXWP_WRITE \<equiv> 2"

definition vx_watch_type :: "u32 \<Rightarrow> u32" where
  "vx_watch_type flags = (if flags AND BP_MEM_READ \<noteq> 0 then VXWP_READ else 0) OR (if flags AND BP_MEM_WRITE \<noteq> 0 then VXWP_WRITE else 0)"

definition vx_watch_of :: "watchpoint \<Rightarrow> vx_watch_point" where
  "vx_watch_of w = \<lparr>vw_type = vx_watch_type (wp_flags w), vw_gvma = wp_vaddr w, vw_size = NOT (wp_len_mask w) + 1\<rparr>"

definition go_result :: "int \<Rightarrow> cpu_state \<Rightarrow> (cpu_state \<times> vx_result) option outcome" where
  "go_result trapno env =
    (if trapno < 256 then
       Done (Some (env, Vx_trap trapno (error_code env) (exception_is_int env) (exception_next_eip env)))
     else if trapno = EXCP_DEBUG then
       (case watchpoint_hit env of
          Some ref \<Rightarrow> (case find (\<lambda>w. wp_id w = ref) (watchpoints env) of
              None \<Rightarrow> Abort
            | Some w \<Rightarrow> Done (Some (env\<lparr>watchpoint_hit := None\<rparr>, Vx_watch_point (vx_watch_of w))))
        | None \<Rightarrow> Done (Some (env, Vx_break_point (eip env))))
     else if trapno = EXCP_INTERRUPT then Done (Some (env, Vx_none))
     else Done None)"

text \<open>Where the call fails, the result has been cleared and is a trap with the number 0.\<close>

definition vx64_go ::
    "(cpu_state \<Rightarrow> (cpu_state \<times> int) outcome) \<Rightarrow> cpu_state \<Rightarrow> (cpu_state \<times> vx_result \<times> vx_error) outcome" where
  "vx64_go exec env =
    bind_out (exec (env\<lparr>icount_extra := 1000 * 1000 * 10\<rparr>)) (\<lambda>(env, trapno).
    bind_out (go_result trapno env) (\<lambda>r. case r of
      None \<Rightarrow> Done (env, Vx_trap 0 0 0 0, VXERR_FAIL)
    | Some (env, gr) \<Rightarrow> Done (env\<lparr>old_exception := - 1, exception_index := - 1\<rparr>, gr, VXERR_OK)))"

definition vx64_go_step ::
    "(cpu_state \<Rightarrow> (cpu_state \<times> int) outcome) \<Rightarrow> cpu_state \<Rightarrow> (cpu_state \<times> vx_result \<times> vx_error) outcome" where
  "vx64_go_step exec env =
    bind_out (vx64_go exec (cpu_single_step env 1)) (\<lambda>(env, gr, err).
      Done (cpu_single_step env 0, (case gr of Vx_break_point a \<Rightarrow> Vx_none | _ \<Rightarrow> gr), VXERR_OK))"

subsection \<open>Break- and watchpoints\<close>

definition vx_status :: "int \<Rightarrow> vx_error" where
  "vx_status r = (if r = 0 then VXERR_OK else VXERR_FAIL)"

definition vx64_insert_bp :: "u64 \<Rightarrow> cpu_state \<Rightarrow> (cpu_state \<times> vx_error) outcome" where
  "vx64_insert_bp vma env = Done (fst (cpu_breakpoint_insert env vma BP_GDB), VXERR_OK)"

definition vx_watch_flags :: "u32 \<Rightarrow> u32" where
  "vx_watch_flags type = (if type AND VXWP_READ \<noteq> 0 then BP_MEM_READ else 0) OR (if type AND VXWP_WRITE \<noteq> 0 then BP_MEM_WRITE else 0)"

definition vx64_insert_wp :: "u64 \<Rightarrow> u64 \<Rightarrow> u32 \<Rightarrow> cpu_state \<Rightarrow> (cpu_state \<times> vx_error) outcome" where
  "vx64_insert_wp vma size' type env =
    (let flags = vx_watch_flags type
     in if flags = 0 then Done (env, VXERR_FAIL)
        else case cpu_watchpoint_insert env vma size' (flags OR BP_GDB) of
          (env, Inl e) \<Rightarrow> Done (env, vx_status e)
        | (env, Inr wp) \<Rightarrow> Done (env, VXERR_OK))"

definition vx64_remove_bp :: "u64 \<Rightarrow> cpu_state \<Rightarrow> (cpu_state \<times> vx_error) outcome" where
  "vx64_remove_bp vma env = bind_out (cpu_breakpoint_remove env vma BP_GDB) (\<lambda>(env, r). Done (env, vx_status r))"

definition vx64_remove_wp :: "u64 \<Rightarrow> u64 \<Rightarrow> u32 \<Rightarrow> cpu_state \<Rightarrow> (cpu_state \<times> vx_error) outcome" where
  "vx64_remove_wp vma size' type env =
    (let flags = vx_watch_flags type
     in if flags = 0 then Done (env, VXERR_FAIL)
        else bind_out (cpu_watchpoint_remove env vma size' (flags OR BP_GDB)) (\<lambda>(env, r). Done (env, vx_status r)))"

definition vx64_remove_all_bps :: "cpu_state \<Rightarrow> (cpu_state \<times> vx_error) outcome" where
  "vx64_remove_all_bps env = bind_out (cpu_breakpoint_remove_all env BP_GDB) (\<lambda>env. Done (env, VXERR_OK))"

definition vx64_remove_all_wps :: "cpu_state \<Rightarrow> (cpu_state \<times> vx_error) outcome" where
  "vx64_remove_all_wps env = bind_out (cpu_watchpoint_remove_all env BP_GDB) (\<lambda>env. Done (env, VXERR_OK))"

text \<open>The loops of the queries: what has been copied into the buffer of \<open>len\<close> entries, and how many there are.\<close>

fun query_bps_loop :: "int \<Rightarrow> breakpoint list \<Rightarrow> u64 list \<times> int \<Rightarrow> u64 list \<times> int" where
  "query_bps_loop len [] (out, count) = (out, count)"
| "query_bps_loop len (bp # bps) (out, count) = query_bps_loop len bps
    (if bp_flags bp AND BP_GDB \<noteq> 0
     then (if int (length out) < len then out @ [bp_pc bp] else out, count + 1) else (out, count))"

definition vx64_query_bps :: "int \<Rightarrow> cpu_state \<Rightarrow> u64 list \<times> int \<times> vx_error" where
  "vx64_query_bps len env =
    (let (out, count) = query_bps_loop len (breakpoints env) ([], 0)
     in (out, count, if int (length out) = count then VXERR_OK else VXERR_INSUF_BUF))"

fun query_wps_loop :: "int \<Rightarrow> watchpoint list \<Rightarrow> vx_watch_point list \<times> int \<Rightarrow> vx_watch_point list \<times> int" where
  "query_wps_loop len [] (out, count) = (out, count)"
| "query_wps_loop len (wp # wps) (out, count) = query_wps_loop len wps
    (if wp_flags wp AND BP_GDB \<noteq> 0
     then (if int (length out) < len then out @ [vx_watch_of wp] else out, count + 1) else (out, count))"

definition vx64_query_wps :: "int \<Rightarrow> cpu_state \<Rightarrow> vx_watch_point list \<times> int \<times> vx_error" where
  "vx64_query_wps len env =
    (let (out, count) = query_wps_loop len (watchpoints env) ([], 0)
     in (out, count, if int (length out) = count then VXERR_OK else VXERR_INSUF_BUF))"

end
