(* ===== verification/VxDebug.thy ===== *)
theory VxDebug
  imports VxCpu DebugRegsInv
begin

text \<open>
  What the client sees of its break- and watchpoints: two lists, the newest entry first, whatever the guest does with
  the debug registers that share the CPU's lists. The specification is \<open>dbg_call\<close> on these lists; \<open>session\<close> pairs the CPU
  with them over calls of the client, guest writes of the debug registers, task switches and watchpoint hits.
\<close>

subsection \<open>Calls\<close>

datatype vx_call =
    Insert_bp u64 | Insert_wp u64 u64 u32 | Remove_bp u64 | Remove_wp u64 u64 u32 | Remove_all_bps | Remove_all_wps
  | Query_bps int | Query_wps int | Set_register trans_reg u64 | Flush_page u64 | Reset_cpu

datatype vx_reply = Status vx_error | Break_points "u64 list" int vx_error | Watch_points "vx_watch_point list" int vx_error

definition status_of :: "(cpu_state \<times> vx_error) outcome \<Rightarrow> (cpu_state \<times> vx_reply) outcome" where
  "status_of r = bind_out r (\<lambda>(env, e). Done (env, Status e))"

definition vx_call :: "vx_call \<Rightarrow> cpu_state \<Rightarrow> (cpu_state \<times> vx_reply) outcome" where
  "vx_call c env = (case c of
     Insert_bp a \<Rightarrow> status_of (vx64_insert_bp a env)
   | Insert_wp a n t \<Rightarrow> status_of (vx64_insert_wp a n t env)
   | Remove_bp a \<Rightarrow> status_of (vx64_remove_bp a env)
   | Remove_wp a n t \<Rightarrow> status_of (vx64_remove_wp a n t env)
   | Remove_all_bps \<Rightarrow> status_of (vx64_remove_all_bps env)
   | Remove_all_wps \<Rightarrow> status_of (vx64_remove_all_wps env)
   | Query_bps len \<Rightarrow> (case vx64_query_bps len env of (out, n, e) \<Rightarrow> Done (env, Break_points out n e))
   | Query_wps len \<Rightarrow> (case vx64_query_wps len env of (out, n, e) \<Rightarrow> Done (env, Watch_points out n e))
   | Set_register r v \<Rightarrow> status_of (vx64_set_reg r v env)
   | Flush_page a \<Rightarrow> status_of (Done (vx64_flush_tlb a env))
   | Reset_cpu \<Rightarrow> status_of (Done (vx64_reset env)))"

subsection \<open>Specification\<close>

record debugger =
  dg_bps :: "u64 list"
  dg_wps :: "vx_watch_point list"

abbreviation (input) watch_point :: "u64 \<Rightarrow> u64 \<Rightarrow> u32 \<Rightarrow> vx_watch_point" where
  "watch_point a n t \<equiv> \<lparr>vw_type = t AND 3, vw_gvma = a, vw_size = n\<rparr>"

text \<open>A watchpoint covers 1, 2, 4, ... or 4096 bytes from a multiple of its size.\<close>

definition watchable :: "u64 \<Rightarrow> u64 \<Rightarrow> bool" where
  "watchable a n \<longleftrightarrow> (\<exists>k \<le> 12. uint n = 2 ^ k \<and> uint a mod 2 ^ k = 0)"

lemma and_pred: "(m :: int) AND (m - 1) = 2 * ((m div 2) AND ((m - 1) div 2))"
  by (subst and_int_rec) simp

lemma half_even: "0 < (m :: int) \<Longrightarrow> even m \<Longrightarrow> m \<le> 2 ^ Suc k \<Longrightarrow>
    0 < m div 2 \<and> m div 2 \<le> 2 ^ k \<and> (m - 1) div 2 = m div 2 - 1"
  by (auto elim!: evenE)

lemma half_odd: "0 < (m :: int) \<Longrightarrow> odd m \<Longrightarrow> (m - 1) div 2 = m div 2 \<and> (m div 2 = 0 \<longrightarrow> m = 1)"
  by (auto elim!: oddE)

lemma pred_half: "(m :: int) AND (m - 1) = 0 \<Longrightarrow> (m - 1) div 2 = m div 2 - 1 \<Longrightarrow> m div 2 AND (m div 2 - 1) = 0"
  using and_pred [of m] by simp

lemma one_bit_int: "0 < m \<Longrightarrow> m \<le> 2 ^ k \<Longrightarrow> (m :: int) AND (m - 1) = 0 \<Longrightarrow> \<exists>i \<le> k. m = 2 ^ i"
proof (induction k arbitrary: m)
  case (Suc k)
  show ?case
  proof (cases "even m")
    case True
    note h = half_even [OF Suc.prems(1) True Suc.prems(2)]
    have "m div 2 AND (m div 2 - 1) = 0" by (rule pred_half) (use h Suc.prems(3) in simp_all)
    from Suc.IH [OF _ _ this] h obtain i where i: "i \<le> k" "m div 2 = 2 ^ i" by blast
    have "m = 2 ^ Suc i" using True i(2) by (auto elim!: evenE)
    then show ?thesis using i(1) by (intro exI [of _ "Suc i"]) simp
  next
    case False
    note h = half_odd [OF Suc.prems(1) False]
    have "m div 2 = 0" using Suc.prems(3) h and_pred [of m] by simp
    then show ?thesis using h by (intro exI [of _ 0]) simp
  qed
qed auto

lemma small_pred: "(n :: u64) \<noteq> 0 \<Longrightarrow> n \<le> 0x1000 \<Longrightarrow> 0 < uint n \<and> uint n \<le> 2 ^ 12 \<and> uint (n - 1) = uint n - 1"
proof -
  assume n: "n \<noteq> 0" "n \<le> 0x1000"
  have z: "uint n \<noteq> 0" using n(1) unfolding uint_0_iff .
  then have p: "0 < uint n" using uint_ge_0 [of n] by linarith
  have "uint n \<le> uint (0x1000 :: u64)" using n(2) by (simp only: word_le_def)
  then have u: "uint n \<le> 4096" by simp
  have "uint (n - 1) = (uint n - 1) mod 2 ^ 64" by (simp add: uint_word_ariths)
  also have "\<dots> = uint n - 1" by (rule mod_pos_pos_trivial) (use p u in simp_all)
  finally show ?thesis using p u by simp
qed

lemma and_mask_mod: "(a :: u64) AND mask k = 0 \<longleftrightarrow> uint a mod 2 ^ k = 0"
proof -
  have "uint (take_bit k a) = uint a mod 2 ^ k" unfolding unsigned_take_bit_eq by (simp add: take_bit_eq_mod)
  then show ?thesis unfolding take_bit_eq_mask [symmetric] using uint_0_iff by metis
qed

lemma power_of_two: "(n :: u64) AND (n - 1) = 0 \<and> n \<noteq> 0 \<and> n \<le> 0x1000 \<longleftrightarrow> (\<exists>k \<le> 12. uint n = 2 ^ k)"
proof
  assume n: "n AND (n - 1) = 0 \<and> n \<noteq> 0 \<and> n \<le> 0x1000"
  then have p: "0 < uint n" "uint n \<le> 2 ^ 12" "uint (n - 1) = uint n - 1" using small_pred by blast+
  have "uint (n AND (n - 1)) = 0" using n by (simp only: uint_0_iff)
  then have "uint n AND (uint n - 1) = 0" unfolding uint_and p(3) .
  then show "\<exists>k \<le> 12. uint n = 2 ^ k" by (rule one_bit_int [OF p(1,2)])
next
  assume "\<exists>k \<le> 12. uint n = 2 ^ k"
  then obtain k where k: "k \<le> 12" "uint n = 2 ^ k" by blast
  then have n: "n = 2 ^ k" by (metis word_of_int_2p word_of_int_uint)
  have "n AND mask k = 0" unfolding and_mask_mod k(2) by simp
  moreover have "n - 1 = mask k" by (simp add: n mask_eq_exp_minus_1)
  moreover have "(2 :: int) ^ k \<le> 2 ^ 12" by (rule power_increasing) (use k(1) in simp_all)
  then have "n \<le> 0x1000" by (simp add: word_le_def k(2))
  moreover have "uint n \<noteq> 0" unfolding k(2) by simp
  then have "n \<noteq> 0" unfolding uint_0_iff .
  ultimately show "n AND (n - 1) = 0 \<and> n \<noteq> 0 \<and> n \<le> 0x1000" by simp
qed

lemma and_pred_mod: "uint (n :: u64) = 2 ^ k \<Longrightarrow> (a :: u64) AND (n - 1) = 0 \<longleftrightarrow> uint a mod 2 ^ k = 0"
proof -
  assume "uint n = 2 ^ k"
  then have "n = 2 ^ k" by (metis word_of_int_2p word_of_int_uint)
  then have "n - 1 = mask k" by (simp only: mask_eq_exp_minus_1)
  then show ?thesis using and_mask_mod [of a k] by (simp only:)
qed

lemma watchpoint_ok_iff: "watchpoint_ok a n \<longleftrightarrow> watchable a n"
proof -
  have ok: "watchpoint_ok a n \<longleftrightarrow> (n AND (n - 1) = 0 \<and> n \<noteq> 0 \<and> n \<le> 0x1000) \<and> a AND (n - 1) = 0"
    unfolding watchpoint_ok_def bit.double_compl de_Morgan_disj not_not not_less by (simp only: conj_ac)
  show ?thesis
  proof
    assume "watchpoint_ok a n"
    then obtain k where k: "k \<le> 12" "uint n = 2 ^ k" "a AND (n - 1) = 0" unfolding ok power_of_two by (elim conjE exE)
    then have "uint a mod 2 ^ k = 0" using and_pred_mod by (simp only:)
    with k show "watchable a n" unfolding watchable_def by (intro exI [of _ k] conjI)
  next
    assume "watchable a n"
    then obtain k where k: "k \<le> 12" "uint n = 2 ^ k" "uint a mod 2 ^ k = 0" unfolding watchable_def by (elim conjE exE)
    have "a AND (n - 1) = 0" unfolding and_pred_mod [OF k(2)] by (rule k(3))
    with k(1,2) show "watchpoint_ok a n" unfolding ok power_of_two by (intro exI [of _ k] conjI)
  qed
qed

definition settable :: "trans_reg \<Rightarrow> bool" where
  "settable r \<longleftrightarrow> r \<in> {VXR_EAX, VXR_ECX, VXR_EDX, VXR_EBX, VXR_ESP, VXR_EBP, VXR_ESI, VXR_EDI, VXR_EFLAGS, VXR_EIP,
     VXR_CR3, VXR_DR0, VXR_DR1, VXR_DR2, VXR_DR3, VXR_DR6, VXR_DR7}"

definition shown :: "int \<Rightarrow> 'a list \<Rightarrow> vx_error" where
  "shown len xs = (if length xs \<le> nat len then VXERR_OK else VXERR_INSUF_BUF)"

fun dbg_call :: "vx_call \<Rightarrow> debugger \<Rightarrow> debugger \<times> vx_reply" where
  "dbg_call (Insert_bp a) d = (d\<lparr>dg_bps := a # dg_bps d\<rparr>, Status VXERR_OK)"
| "dbg_call (Insert_wp a n t) d =
    (if t AND 3 = 0 \<or> \<not> watchable a n then (d, Status VXERR_FAIL)
     else (d\<lparr>dg_wps := watch_point a n t # dg_wps d\<rparr>, Status VXERR_OK))"
| "dbg_call (Remove_bp a) d =
    (if a \<in> set (dg_bps d) then (d\<lparr>dg_bps := remove1 a (dg_bps d)\<rparr>, Status VXERR_OK) else (d, Status VXERR_FAIL))"
| "dbg_call (Remove_wp a n t) d =
    (if watch_point a n t \<in> set (dg_wps d) then (d\<lparr>dg_wps := remove1 (watch_point a n t) (dg_wps d)\<rparr>, Status VXERR_OK)
     else (d, Status VXERR_FAIL))"
| "dbg_call Remove_all_bps d = (d\<lparr>dg_bps := []\<rparr>, Status VXERR_OK)"
| "dbg_call Remove_all_wps d = (d\<lparr>dg_wps := []\<rparr>, Status VXERR_OK)"
| "dbg_call (Query_bps len) d = (d, Break_points (take (nat len) (dg_bps d)) (int (length (dg_bps d))) (shown len (dg_bps d)))"
| "dbg_call (Query_wps len) d = (d, Watch_points (take (nat len) (dg_wps d)) (int (length (dg_wps d))) (shown len (dg_wps d)))"
| "dbg_call (Set_register r v) d = (d, Status (if settable r then VXERR_OK else VXERR_FAIL))"
| "dbg_call (Flush_page a) d = (d, Status VXERR_OK)"
| "dbg_call Reset_cpu d = (d, Status VXERR_OK)"

text \<open>
  The only calls that fail otherwise: to set a debug register whose write uses a watchpoint that a task switch has
  freed.
\<close>

fun dr_number :: "trans_reg \<Rightarrow> nat option" where
  "dr_number VXR_DR0 = Some 0"
| "dr_number VXR_DR1 = Some 1"
| "dr_number VXR_DR2 = Some 2"
| "dr_number VXR_DR3 = Some 3"
| "dr_number VXR_DR6 = Some 6"
| "dr_number VXR_DR7 = Some 7"
| "dr_number _ = None"

fun uses_freed :: "vx_call \<Rightarrow> cpu_state \<Rightarrow> bool" where
  "uses_freed (Set_register r v) env = (case dr_number r of None \<Rightarrow> False | Some k \<Rightarrow> writes_freed env k)"
| "uses_freed _ env = False"

text \<open>The CPU and the client's view of it, over calls, guest writes to the debug registers, task switches and hits.\<close>

inductive session :: "cpu_state \<Rightarrow> debugger \<Rightarrow> bool" where
  session_start: "breakpoints env = [] \<Longrightarrow> watchpoints env = [] \<Longrightarrow> dr env 7 = 0x400 \<Longrightarrow>
    session env \<lparr>dg_bps = [], dg_wps = []\<rparr>"
| session_call: "session env d \<Longrightarrow> vx_call c env = Done (env', r) \<Longrightarrow> session env' (fst (dbg_call c d))"
| session_guest: "session env d \<Longrightarrow> r < 8 \<Longrightarrow> helper_movl_drN_T0 env r v = Done env' \<Longrightarrow> session env' d"
| session_task: "session env d \<Longrightarrow> switch_tss_debug env = Done env' \<Longrightarrow> session env' d"
| session_other: "session env d \<Longrightarrow> breakpoints env' = breakpoints env \<Longrightarrow>
    map unhit (watchpoints env') = map unhit (watchpoints env) \<Longrightarrow> next_ref env' = next_ref env \<Longrightarrow>
    cpu_breakpoint env' = cpu_breakpoint env \<Longrightarrow> dr env' = (dr env)(6 := v) \<Longrightarrow> session env' d"

subsection \<open>How the CPU's lists show the client's\<close>

definition bp_shows :: "breakpoint \<Rightarrow> u64 \<Rightarrow> bool" where
  "bp_shows b a \<longleftrightarrow> bp_pc b = a \<and> bp_flags b = BP_GDB"

definition wp_shows :: "watchpoint \<Rightarrow> vx_watch_point \<Rightarrow> bool" where
  "wp_shows w v \<longleftrightarrow> wp_vaddr w = vw_gvma v \<and> wp_len_mask w = NOT (vw_size v - 1) \<and>
    wp_flags w AND NOT BP_WATCHPOINT_HIT = vw_type v OR BP_GDB \<and> vw_type v AND 3 = vw_type v \<and> vw_type v \<noteq> 0"

definition dbg_rel :: "cpu_state \<Rightarrow> debugger \<Rightarrow> bool" where
  "dbg_rel env d \<longleftrightarrow> dr_ok env \<and> list_all2 bp_shows (user_bps env) (dg_bps d) \<and>
    list_all2 wp_shows (user_wps env) (dg_wps d)"

lemma wp_shows_unhit: "wp_shows (unhit w) v = wp_shows w v"
  by (simp add: wp_shows_def unhit_def and.assoc)

lemma shows_user: "bp_shows b a \<Longrightarrow> is_gdb (bp_flags b)" "wp_shows w v \<Longrightarrow> is_gdb (wp_flags w)"
proof -
  show "bp_shows b a \<Longrightarrow> is_gdb (bp_flags b)" by (simp add: bp_shows_def is_gdb_def)
  assume "wp_shows w v"
  then have "is_gdb (wp_flags (unhit w))" by (auto simp: wp_shows_def unhit_def is_gdb_def bit.conj_disj_distrib2)
  then show "is_gdb (wp_flags w)" by (simp only: unhit_simps)
qed

text \<open>Only the client's entries carry the debugger's flag.\<close>

lemma gdb_user:
  assumes rel: "dbg_rel env d"
  shows "b \<in> set (breakpoints env) \<Longrightarrow> is_gdb (bp_flags b) \<longleftrightarrow> \<not> is_cpu (bp_flags b)"
    "w \<in> set (watchpoints env) \<Longrightarrow> is_gdb (wp_flags w) \<longleftrightarrow> \<not> is_cpu (wp_flags w)"
proof -
  have inv: "dr_ok env" using rel by (simp add: dbg_rel_def)
  assume b: "b \<in> set (breakpoints env)"
  have "is_gdb (bp_flags b)" if "\<not> is_cpu (bp_flags b)"
  proof -
    have "b \<in> set (user_bps env)" using b that by (simp add: user_bps_def)
    then show ?thesis using rel shows_user(1) by (auto simp: dbg_rel_def list_all2_conv_all_nth in_set_conv_nth)
  qed
  then show "is_gdb (bp_flags b) \<longleftrightarrow> \<not> is_cpu (bp_flags b)" using owned_no_gdb(1) [OF dr_ok_inv [OF inv] b] cpu_bits(3) by auto
next
  have inv: "dr_ok env" using rel by (simp add: dbg_rel_def)
  assume w: "w \<in> set (watchpoints env)"
  have "is_gdb (wp_flags w)" if "\<not> is_cpu (wp_flags w)"
  proof -
    have "w \<in> set (user_wps env)" using w that by (simp add: user_wps_def)
    then show ?thesis using rel shows_user(2) by (auto simp: dbg_rel_def list_all2_conv_all_nth in_set_conv_nth)
  qed
  then show "is_gdb (wp_flags w) \<longleftrightarrow> \<not> is_cpu (wp_flags w)" using owned_no_gdb(2) [OF dr_ok_inv [OF inv] w] by auto
qed

lemma filter_gdb:
  assumes "dbg_rel env d"
  shows "filter (\<lambda>b. bp_flags b AND BP_GDB \<noteq> 0) (breakpoints env) = user_bps env"
    "filter (\<lambda>w. wp_flags w AND BP_GDB \<noteq> 0) (watchpoints env) = user_wps env"
  unfolding user_bps_def user_wps_def
  using gdb_user [OF assms] by (auto intro!: filter_cong simp: is_gdb_def)


subsection \<open>Queries\<close>

lemma query_bps_spec: "int (length out) \<le> m \<Longrightarrow> (m = int (length out) \<or> len \<le> int (length out)) \<Longrightarrow>
    query_bps_loop len bs (out, m) =
      (let g = map bp_pc (filter (\<lambda>b. bp_flags b AND BP_GDB \<noteq> 0) bs)
       in (out @ take (nat len - length out) g, m + int (length g)))"
proof (induction bs arbitrary: out m)
  case (Cons b bs)
  show ?case
  proof (cases "bp_flags b AND BP_GDB \<noteq> 0 \<and> int (length out) < len")
    case True
    then have "nat len - length out = Suc (nat len - length (out @ [bp_pc b]))" by (simp, arith)
    with True Cons.IH [of "out @ [bp_pc b]" "m + 1"] Cons.prems show ?thesis by (auto simp: Let_def)
  next
    case False
    with Cons.IH [of out m] Cons.IH [of out "m + 1"] Cons.prems show ?thesis by (auto simp: Let_def)
  qed
qed (simp add: Let_def)

lemma query_wps_spec: "int (length out) \<le> m \<Longrightarrow> (m = int (length out) \<or> len \<le> int (length out)) \<Longrightarrow>
    query_wps_loop len ws (out, m) =
      (let g = map vx_watch_of (filter (\<lambda>w. wp_flags w AND BP_GDB \<noteq> 0) ws)
       in (out @ take (nat len - length out) g, m + int (length g)))"
proof (induction ws arbitrary: out m)
  case (Cons w ws)
  show ?case
  proof (cases "wp_flags w AND BP_GDB \<noteq> 0 \<and> int (length out) < len")
    case True
    then have "nat len - length out = Suc (nat len - length (out @ [vx_watch_of w]))" by (simp, arith)
    with True Cons.IH [of "out @ [vx_watch_of w]" "m + 1"] Cons.prems show ?thesis by (auto simp: Let_def)
  next
    case False
    with Cons.IH [of out m] Cons.IH [of out "m + 1"] Cons.prems show ?thesis by (auto simp: Let_def)
  qed
qed (simp add: Let_def)

lemma take_shown: "(if length (take (nat len) xs) = length xs then VXERR_OK else VXERR_INSUF_BUF) = shown len xs"
  by (simp add: shown_def min_def)

text \<open>The type, address and size come back.\<close>

lemma small_type: "(t :: u32) AND 3 = t \<longleftrightarrow> t \<in> {0, 1, 2, 3}"
proof
  assume e: "t AND 3 = t"
  have "t AND 3 < 4" using word_and_le1 [of t 3] by (rule le_less_trans) simp
  then have "uint t < 4" unfolding e by (simp add: word_less_def)
  then have "uint t \<in> {0, 1, 2, 3}" using uint_ge_0 [of t] unfolding insert_iff empty_iff by linarith
  from rev_image_eqI [OF this, of t word_of_int] show "t \<in> {0, 1, 2, 3}" by simp
qed auto

lemma watch_type_back: "t \<in> {0, 1, 2, 3} \<Longrightarrow> w AND NOT BP_WATCHPOINT_HIT = t OR BP_GDB \<Longrightarrow> vx_watch_type w = t"
proof -
  assume t: "t \<in> {0, 1, 2, 3}" "w AND NOT BP_WATCHPOINT_HIT = t OR BP_GDB"
  have m: "w AND b = (t OR BP_GDB) AND b" if "b AND NOT BP_WATCHPOINT_HIT = b" for b
  proof -
    have "w AND b = w AND (b AND NOT BP_WATCHPOINT_HIT)" by (simp only: that)
    also have "\<dots> = (w AND NOT BP_WATCHPOINT_HIT) AND b" by (simp only: and.assoc and.commute and.left_commute)
    finally show ?thesis by (simp only: t(2))
  qed
  have "w AND 1 = (t OR BP_GDB) AND 1" "w AND 2 = (t OR BP_GDB) AND 2" by (rule m, simp)+
  then show ?thesis using t(1) unfolding insert_iff empty_iff vx_watch_type_def by (elim disjE) simp_all
qed

lemma watch_of_shown: "wp_shows w v \<Longrightarrow> vx_watch_of w = v"
proof -
  assume w: "wp_shows w v"
  then have "vx_watch_type (wp_flags w) = vw_type v" using watch_type_back small_type by (auto simp: wp_shows_def)
  moreover have "NOT (wp_len_mask w) + 1 = vw_size v" using w by (simp add: wp_shows_def)
  ultimately show ?thesis using w by (cases v) (simp add: vx_watch_of_def wp_shows_def)
qed

lemma query_reply:
  assumes rel: "dbg_rel env d"
  shows "vx_call (Query_bps len) env = Done (env, snd (dbg_call (Query_bps len) d))"
    "vx_call (Query_wps len) env = Done (env, snd (dbg_call (Query_wps len) d))"
proof -
  have "map bp_pc (user_bps env) = dg_bps d" "map vx_watch_of (user_wps env) = dg_wps d"
    using rel watch_of_shown by (auto simp: dbg_rel_def list_all2_conv_all_nth bp_shows_def intro!: nth_equalityI)
  then show "vx_call (Query_bps len) env = Done (env, snd (dbg_call (Query_bps len) d))"
    "vx_call (Query_wps len) env = Done (env, snd (dbg_call (Query_wps len) d))"
    by (simp_all add: vx_call_def vx64_query_bps_def vx64_query_wps_def query_bps_spec query_wps_spec Let_def
        filter_gdb [OF rel] take_shown del: length_take)
qed


subsection \<open>Inserting and removing\<close>

lemma find_within: "(\<And>e. e \<in> set es \<Longrightarrow> P e \<Longrightarrow> U e) \<Longrightarrow> find P (filter U es) = find P es"
  by (induction es) auto

lemma remove_first:
  assumes d: "distinct (map idf es)" and r: "list_all2 R (filter U es) xs"
    and k: "\<forall>e x. R e x \<longrightarrow> (P e \<longleftrightarrow> x = k)" and u: "\<forall>e \<in> set es. P e \<longrightarrow> U e"
  shows "find P es = None \<longleftrightarrow> k \<notin> set xs"
    "find P es = Some e \<Longrightarrow> list_all2 R (filter U (filter (\<lambda>f. idf f \<noteq> idf e) es)) (remove1 k xs)"
proof -
  have e: "find P es = find P (filter U es)" using find_within [of es P U] u by simp
  have d': "distinct (map idf (filter U es))" using d by (rule distinct_map_filter)
  have "(find P us = None \<longleftrightarrow> k \<notin> set xs) \<and>
      (find P us = Some e \<longrightarrow> list_all2 R (filter (\<lambda>f. idf f \<noteq> idf e) us) (remove1 k xs))"
    if "list_all2 R us xs" "distinct (map idf us)" for us
    using that
  proof (induction us xs rule: list_all2_induct)
    case (Cons y ys x xs)
    have "idf x \<noteq> idf y" if "x \<in> set ys" for x
      using Cons.prems imageI [OF that, of idf] by auto
    then have "filter (\<lambda>f. idf f \<noteq> idf y) ys = ys" by (intro filter_True) simp
    moreover have "idf y \<noteq> idf e" if "find P ys = Some e"
      using Cons.prems that by (auto simp: find_Some_iff)
    ultimately show ?case using Cons k by auto
  qed simp
  from this [OF r d'] show "find P es = None \<longleftrightarrow> k \<notin> set xs"
    "find P es = Some e \<Longrightarrow> list_all2 R (filter U (filter (\<lambda>f. idf f \<noteq> idf e) es)) (remove1 k xs)"
    unfolding e by (simp_all add: conj_commute)
qed

lemma watch_flags: "vx_watch_flags t = t AND 3"
proof -
  have "t AND 2 = (if bit t 1 then 2 else 0)" by (rule bit_word_eqI) (auto simp: vx_bits)
  then have b: "t AND 1 = 0 \<or> t AND 1 = 1" "t AND 2 = 0 \<or> t AND 2 = 2"
    using and_one_bit [of t] by (simp_all only: of_bool_def split: if_splits) auto
  have "(t AND 1) OR (t AND 2) = t AND 3" by (simp flip: bit.conj_disj_distrib)
  then show ?thesis using b unfolding vx_watch_flags_def by (elim disjE) simp_all
qed

lemma type_flags: "\<not> is_cpu ((t AND 3) OR BP_GDB)" "is_gdb ((t AND 3) OR BP_GDB)"
  "((t AND 3) OR BP_GDB) AND NOT BP_WATCHPOINT_HIT = (t AND 3) OR BP_GDB"
  "((t AND 3) OR BP_GDB) AND 3 = t AND 3"
  by (simp_all add: is_cpu_def is_gdb_def bit.conj_disj_distrib2 and.assoc)

lemma call_insert_bp:
  assumes rel: "dbg_rel env d"
  shows "\<exists>env'. vx_call (Insert_bp a) env = Done (env', snd (dbg_call (Insert_bp a) d)) \<and>
    dbg_rel env' (fst (dbg_call (Insert_bp a) d))"
proof -
  define env' where "env' = fst (cpu_breakpoint_insert env a BP_GDB)"
  have i: "cpu_breakpoint_insert env a BP_GDB = (env', snd (cpu_breakpoint_insert env a BP_GDB))" by (simp add: env'_def)
  have l: "breakpoints env' = bp_of (next_ref env) a BP_GDB # breakpoints env" "watchpoints env' = watchpoints env"
    by (simp_all add: env'_def cpu_breakpoint_insert_def Let_def bp_of_def)
  have n: "\<not> is_cpu BP_GDB" by (simp add: is_cpu_def)
  have inv: "dr_ok env'" using inv_dr_bp_insert [OF _ n i] rel by (simp add: dbg_rel_def)
  have "user_bps env' = bp_of (next_ref env) a BP_GDB # user_bps env" "user_wps env' = user_wps env"
    using n by (simp_all add: user_bps_def user_wps_def l bp_of_def)
  then have "dbg_rel env' (d\<lparr>dg_bps := a # dg_bps d\<rparr>)"
    using rel inv by (simp add: dbg_rel_def bp_of_def bp_shows_def)
  then show ?thesis by (simp add: vx_call_def vx64_insert_bp_def status_of_def bind_out_def env'_def)
qed

lemma call_insert_wp:
  assumes rel: "dbg_rel env d"
  shows "\<exists>env'. vx_call (Insert_wp a n t) env = Done (env', snd (dbg_call (Insert_wp a n t) d)) \<and>
    dbg_rel env' (fst (dbg_call (Insert_wp a n t) d))"
proof (cases "t AND 3 = 0 \<or> \<not> watchable a n")
  case True
  then have "vx64_insert_wp a n t env = Done (env, VXERR_FAIL)"
    by (auto simp: watchpoint_ok_iff [symmetric] vx64_insert_wp_def watch_flags Let_def cpu_watchpoint_insert_def vx_status_def)
  then show ?thesis using True rel by (simp add: vx_call_def status_of_def bind_out_def)
next
  case False
  let ?f = "(t AND 3) OR BP_GDB" and ?w = "wp_of (next_ref env) (a, n) ((t AND 3) OR BP_GDB)"
  have "watchpoint_ok (fst (a, n)) (snd (a, n))" using False by (simp add: watchpoint_ok_iff)
  from wps.insert_valid [OF this, of env ?f] obtain env' where i: "cpu_watchpoint_insert env a n ?f = (env', Inr (next_ref env))"
    "watchpoints env' = ?w # watchpoints env"
    using type_flags(2) [of t] by auto
  have b: "breakpoints env' = breakpoints env" using i(1) by (auto simp: cpu_watchpoint_insert_def Let_def split: if_splits)
  have inv: "dr_ok env'" using inv_dr_wp_insert [OF _ type_flags(1) i(1)] rel by (simp add: dbg_rel_def)
  have "user_wps env' = ?w # user_wps env" "user_bps env' = user_bps env"
    using type_flags(1) [of t] by (simp_all add: user_bps_def user_wps_def i(2) b wp_of_def)
  moreover have "wp_shows ?w (watch_point a n t)"
    using False type_flags(3) [of t] by (simp add: wp_of_def wp_shows_def and.assoc)
  ultimately have "dbg_rel env' (d\<lparr>dg_wps := watch_point a n t # dg_wps d\<rparr>)"
    using rel inv by (simp add: dbg_rel_def)
  then show ?thesis using False i(1)
    by (simp add: vx_call_def vx64_insert_wp_def status_of_def bind_out_def watch_flags)
qed

lemma call_remove_bp:
  assumes rel: "dbg_rel env d"
  shows "\<exists>env'. vx_call (Remove_bp a) env = Done (env', snd (dbg_call (Remove_bp a) d)) \<and>
    dbg_rel env' (fst (dbg_call (Remove_bp a) d))"
proof -
  let ?P = "\<lambda>bp. bp_pc bp = a \<and> bp_flags bp = BP_GDB"
  have inv: "dr_ok env" using rel by (simp add: dbg_rel_def)
  have r: "list_all2 bp_shows (filter (\<lambda>b. \<not> is_cpu (bp_flags b)) (breakpoints env)) (dg_bps d)"
    using rel by (simp add: dbg_rel_def user_bps_def)
  have dst: "distinct (map bp_id (breakpoints env))" using dr_inv_wf(1) [OF dr_ok_inv [OF inv]] by (simp add: points_wf_def)
  have k: "\<forall>b x. bp_shows b x \<longrightarrow> (?P b \<longleftrightarrow> x = a)" by (auto simp: bp_shows_def)
  have u: "\<forall>b \<in> set (breakpoints env). ?P b \<longrightarrow> \<not> is_cpu (bp_flags b)" by (simp add: is_cpu_def)
  note f = remove_first [OF dst r k u]
  show ?thesis
  proof (cases "find ?P (breakpoints env)")
    case None
    then have "vx_call (Remove_bp a) env = Done (env, Status VXERR_FAIL)"
      by (simp add: vx_call_def vx64_remove_bp_def status_of_def bind_out_def cpu_breakpoint_remove_def vx_status_def)
    then show ?thesis using f(1) None rel by simp
  next
    case (Some b)
    then have "bp_id b \<in> bp_id ` set (breakpoints env)" by (auto simp: find_Some_iff)
    from bps.remove_found [OF this] obtain env' where e: "cpu_breakpoint_remove_by_ref env (bp_id b) = Done env'"
      "breakpoints env' = filter (\<lambda>e. bp_id e \<noteq> bp_id b) (breakpoints env)"
      by blast
    then have c: "cpu_breakpoint_remove env a BP_GDB = Done (env', 0)"
      using Some by (simp add: cpu_breakpoint_remove_def bind_out_def)
    have n: "\<not> is_cpu BP_GDB" by (simp add: is_cpu_def)
    have "list_all2 bp_shows (user_bps env') (remove1 a (dg_bps d))"
      using f(2) [OF Some] by (simp add: user_bps_def e(2))
    then have "dbg_rel env' (d\<lparr>dg_bps := remove1 a (dg_bps d)\<rparr>)"
      using rel bp_ref_frame(1) [OF e(1)] inv_dr_bp_remove [OF inv n c] by (simp add: dbg_rel_def user_wps_def)
    moreover have "a \<in> set (dg_bps d)" using f(1) Some by simp
    ultimately show ?thesis by (simp add: vx_call_def vx64_remove_bp_def status_of_def bind_out_def c vx_status_def)
  qed
qed

lemma call_remove_wp:
  assumes rel: "dbg_rel env d"
  shows "\<exists>env'. vx_call (Remove_wp a n t) env = Done (env', snd (dbg_call (Remove_wp a n t) d)) \<and>
    dbg_rel env' (fst (dbg_call (Remove_wp a n t) d))"
proof -
  let ?f = "(t AND 3) OR BP_GDB"
  let ?P = "\<lambda>w. a = wp_vaddr w \<and> NOT (n - 1) = wp_len_mask w \<and> ?f = wp_flags w AND NOT BP_WATCHPOINT_HIT"
  have inv: "dr_ok env" using rel by (simp add: dbg_rel_def)
  have r: "list_all2 wp_shows (filter (\<lambda>w. \<not> is_cpu (wp_flags w)) (watchpoints env)) (dg_wps d)"
    using rel by (simp add: dbg_rel_def user_wps_def)
  have dst: "distinct (map wp_id (watchpoints env))" using dr_inv_wf(2) [OF dr_ok_inv [OF inv]] by (simp add: points_wf_def)
  have same: "?f = v OR BP_GDB \<longleftrightarrow> v = t AND 3" if "v AND 3 = v" for v
    using type_flags(4) [of t] type_flags(4) [of v] that by metis
  have k: "\<forall>w v. wp_shows w v \<longrightarrow> (?P w \<longleftrightarrow> v = watch_point a n t)"
  proof (intro allI impI)
    fix w :: watchpoint and v
    assume "wp_shows w v"
    then show "?P w \<longleftrightarrow> v = watch_point a n t" using same [of "vw_type v"] by (cases v) (auto simp: wp_shows_def)
  qed
  have u: "\<forall>w \<in> set (watchpoints env). ?P w \<longrightarrow> \<not> is_cpu (wp_flags w)"
  proof (intro ballI impI)
    fix w :: watchpoint
    assume "?P w"
    then have "wp_flags (unhit w) = ?f" by (simp add: unhit_def)
    then show "\<not> is_cpu (wp_flags w)" using type_flags(1) [of t] unhit_simps(3) [of w] by metis
  qed
  note f = remove_first [OF dst r k u]
  show ?thesis
  proof (cases "t AND 3 = 0 \<or> find ?P (watchpoints env) = None")
    case True
    then have "vx_call (Remove_wp a n t) env = Done (env, Status VXERR_FAIL)"
      by (auto simp: vx_call_def vx64_remove_wp_def status_of_def bind_out_def cpu_watchpoint_remove_def vx_status_def watch_flags Let_def)
    moreover have "watch_point a n t \<notin> set (dg_wps d)"
    proof (cases "t AND 3 = 0")
      case True
      then show ?thesis using rel by (auto simp: dbg_rel_def list_all2_conv_all_nth in_set_conv_nth wp_shows_def)
    next
      case False
      then show ?thesis using f(1) True by simp
    qed
    ultimately show ?thesis using rel by simp
  next
    case False
    then obtain w where w: "find ?P (watchpoints env) = Some w" by auto
    then have "wp_id w \<in> wp_id ` set (watchpoints env)" by (auto simp: find_Some_iff)
    from wps.remove_found [OF this] obtain env' where e: "cpu_watchpoint_remove_by_ref env (wp_id w) = Done env'"
      "watchpoints env' = filter (\<lambda>e. wp_id e \<noteq> wp_id w) (watchpoints env)"
      by blast
    then have c: "cpu_watchpoint_remove env a n ?f = Done (env', 0)"
      using w by (simp add: cpu_watchpoint_remove_def bind_out_def)
    have "list_all2 wp_shows (user_wps env') (remove1 (watch_point a n t) (dg_wps d))"
      using f(2) [OF w] by (simp add: user_wps_def e(2))
    then have "dbg_rel env' (d\<lparr>dg_wps := remove1 (watch_point a n t) (dg_wps d)\<rparr>)"
      using rel wp_ref_frame(1) [OF e(1)] inv_dr_wp_remove [OF inv type_flags(1) c] by (simp add: dbg_rel_def user_bps_def)
    moreover have "watch_point a n t \<in> set (dg_wps d)" using f(1) w by simp
    ultimately show ?thesis using False
      by (simp add: vx_call_def vx64_remove_wp_def status_of_def bind_out_def watch_flags c vx_status_def)
  qed
qed


lemma call_remove_all:
  assumes rel: "dbg_rel env d"
  shows "\<exists>env'. vx_call Remove_all_bps env = Done (env', Status VXERR_OK) \<and> dbg_rel env' (d\<lparr>dg_bps := []\<rparr>)"
    "\<exists>env'. vx_call Remove_all_wps env = Done (env', Status VXERR_OK) \<and> dbg_rel env' (d\<lparr>dg_wps := []\<rparr>)"
proof -
  have inv: "dr_ok env" using rel by (simp add: dbg_rel_def)
  obtain env' where e: "cpu_breakpoint_remove_all env BP_GDB = Done env'"
    "breakpoints env' = filter (\<lambda>b. bp_flags b AND BP_GDB = 0) (breakpoints env)"
    by (rule bps.remove_all_spec [OF dr_inv_wf(1) [OF dr_ok_inv [OF inv]]])
  have "watchpoints env' = watchpoints env" using bp_loop_frame e(1) unfolding cpu_breakpoint_remove_all_def by blast
  moreover have "user_bps env' = []"
    using gdb_user(1) [OF rel] by (auto simp: user_bps_def e(2) is_gdb_def filter_empty_conv)
  ultimately have "dbg_rel env' (d\<lparr>dg_bps := []\<rparr>)" using rel inv_dr_bp_clear [OF inv e(1)] by (simp add: dbg_rel_def user_wps_def)
  then show "\<exists>env'. vx_call Remove_all_bps env = Done (env', Status VXERR_OK) \<and> dbg_rel env' (d\<lparr>dg_bps := []\<rparr>)"
    by (simp add: vx_call_def vx64_remove_all_bps_def status_of_def bind_out_def e(1))
next
  have inv: "dr_ok env" using rel by (simp add: dbg_rel_def)
  obtain env' where e: "cpu_watchpoint_remove_all env BP_GDB = Done env'"
    "watchpoints env' = filter (\<lambda>w. wp_flags w AND BP_GDB = 0) (watchpoints env)"
    by (rule wps.remove_all_spec [OF dr_inv_wf(2) [OF dr_ok_inv [OF inv]]])
  have "breakpoints env' = breakpoints env" using wp_loop_frame e(1) unfolding cpu_watchpoint_remove_all_def by blast
  moreover have "user_wps env' = []"
    using gdb_user(2) [OF rel] by (auto simp: user_wps_def e(2) is_gdb_def filter_empty_conv)
  ultimately have "dbg_rel env' (d\<lparr>dg_wps := []\<rparr>)" using rel inv_dr_wp_clear [OF inv e(1)] by (simp add: dbg_rel_def user_bps_def)
  then show "\<exists>env'. vx_call Remove_all_wps env = Done (env', Status VXERR_OK) \<and> dbg_rel env' (d\<lparr>dg_wps := []\<rparr>)"
    by (simp add: vx_call_def vx64_remove_all_wps_def status_of_def bind_out_def e(1))
qed

subsection \<open>Everything else\<close>

lemma user_unhit: "map unhit (user_wps env) = filter (\<lambda>w. \<not> is_cpu (wp_flags w)) (map unhit (watchpoints env))"
  by (simp add: user_wps_def filter_map comp_def unhit_simps)

lemma shows_unhit: "list_all2 wp_shows (map unhit ws) vs = list_all2 wp_shows ws vs"
  by (simp add: list_all2_map1 wp_shows_unhit)

lemma rel_other:
  assumes rel: "dbg_rel env d" and e: "breakpoints env' = breakpoints env"
    "map unhit (watchpoints env') = map unhit (watchpoints env)" "next_ref env' = next_ref env"
    "cpu_breakpoint env' = cpu_breakpoint env" "dr env' = (dr env)(6 := v)"
  shows "dbg_rel env' d"
proof -
  have "dr_ok env'" using rel inv_dr_other [OF _ e] by (simp add: dbg_rel_def)
  moreover have "map unhit (user_wps env') = map unhit (user_wps env)" by (simp only: user_unhit e(2))
  then have "list_all2 wp_shows (user_wps env') (dg_wps d)" using rel shows_unhit by (metis dbg_rel_def)
  ultimately show ?thesis using rel by (simp add: dbg_rel_def user_bps_def e(1))
qed

definition same_points :: "cpu_state \<Rightarrow> cpu_state \<Rightarrow> bool" where
  "same_points env env' \<longleftrightarrow> breakpoints env' = breakpoints env \<and> watchpoints env' = watchpoints env \<and>
    next_ref env' = next_ref env \<and> cpu_breakpoint env' = cpu_breakpoint env \<and> dr env' = dr env"

lemma rel_same: "dbg_rel env d \<Longrightarrow> same_points env env' \<Longrightarrow> dbg_rel env' d"
  by (rule rel_other [of env d env' "dr env 6"]) (simp_all add: same_points_def)

lemma rel_write_dr:
  assumes "dbg_rel env d" "r < 8" "\<not> writes_freed env r"
  shows "\<exists>env'. helper_movl_drN_T0 env r v = Done env' \<and> dbg_rel env' d"
proof -
  have inv: "dr_ok env" using assms(1) by (simp add: dbg_rel_def)
  obtain env' where "helper_movl_drN_T0 env r v = Done env'" "dr_ok env'" "dr env' = (dr env)(r := v)"
    "user_bps env' = user_bps env" "user_wps env' = user_wps env"
    by (rule movl_drN [OF inv assms(2,3)])
  then show ?thesis using assms(1) by (simp add: dbg_rel_def)
qed

lemma rel_guest_write:
  assumes "dbg_rel env d" "r < 8" "helper_movl_drN_T0 env r v = Done env'"
  shows "dbg_rel env' d"
proof -
  have "\<not> writes_freed env r" using movl_freed [of env r v] assms(1,3) by (auto simp: dbg_rel_def)
  from rel_write_dr [OF assms(1,2) this, of v] show ?thesis using assms(3) by auto
qed

lemma rel_task:
  assumes "dbg_rel env d" "switch_tss_debug env = Done env'"
  shows "dbg_rel env' d"
proof -
  have ok: "dr_ok env" using assms(1) by (simp add: dbg_rel_def)
  obtain env1 where "switch_tss_debug env = Done env1" "dr_ok env1" "user_bps env1 = user_bps env" "user_wps env1 = user_wps env"
    by (rule inv_dr_task [OF ok])
  then show ?thesis using assms by (simp add: dbg_rel_def)
qed

lemma set_reg_rel:
  assumes "dbg_rel env d"
  shows "uses_freed (Set_register r v) env \<Longrightarrow> vx64_set_reg r v env = Abort"
    "\<not> uses_freed (Set_register r v) env \<Longrightarrow>
      \<exists>env'. vx64_set_reg r v env = Done (env', if settable r then VXERR_OK else VXERR_FAIL) \<and> dbg_rel env' d"
proof -
  have ok: "dr_ok env" using assms by (simp add: dbg_rel_def)
  show "uses_freed (Set_register r v) env \<Longrightarrow> vx64_set_reg r v env = Abort"
    by (cases r) (simp_all add: write_dr_def movl_freed [OF ok])
  have other: "dbg_rel (set_reg k v env) d" "dbg_rel (env\<lparr>eflags := v\<rparr>) d" "dbg_rel (env\<lparr>eip := v\<rparr>) d"
    "dbg_rel (cpu_x86_update_cr3 env v) d" for k
    by (rule rel_same [OF assms], simp add: same_points_def set_reg_def cpu_x86_update_cr3_def tlb_flush_def Let_def)+
  have debug: "\<exists>env'. write_dr k v env = Done (env', VXERR_OK) \<and> dbg_rel env' d" if "k < 8" "\<not> writes_freed env k" for k
    using rel_write_dr [OF assms that, of v] by (auto simp: write_dr_def bind_out_def)
  show "\<not> uses_freed (Set_register r v) env \<Longrightarrow>
      \<exists>env'. vx64_set_reg r v env = Done (env', if settable r then VXERR_OK else VXERR_FAIL) \<and> dbg_rel env' d"
    using assms other debug by (cases r) (simp_all add: settable_def)
qed

lemma call_freed: "dbg_rel env d \<Longrightarrow> uses_freed c env \<Longrightarrow> vx_call c env = Abort"
proof (cases c)
  case (Set_register r v)
  assume "dbg_rel env d" "uses_freed c env"
  then have "vx64_set_reg r v env = Abort" using set_reg_rel(1) Set_register by blast
  then show ?thesis by (simp add: Set_register vx_call_def status_of_def)
qed simp_all

lemma call_rel:
  assumes rel: "dbg_rel env d" and nf: "\<not> uses_freed c env"
  shows "\<exists>env'. vx_call c env = Done (env', snd (dbg_call c d)) \<and> dbg_rel env' (fst (dbg_call c d))"
proof (cases c)
  case (Insert_bp a)
  then show ?thesis using call_insert_bp [OF rel] by simp
next
  case (Insert_wp a n t)
  then show ?thesis using call_insert_wp [OF rel] by (simp only:)
next
  case (Remove_bp a)
  then show ?thesis using call_remove_bp [OF rel] by (simp only:)
next
  case (Remove_wp a n t)
  then show ?thesis using call_remove_wp [OF rel] by (simp only:)
next
  case Remove_all_bps
  then show ?thesis using call_remove_all(1) [OF rel] by simp
next
  case Remove_all_wps
  then show ?thesis using call_remove_all(2) [OF rel] by simp
next
  case (Query_bps len)
  then show ?thesis using query_reply(1) [OF rel] rel by simp
next
  case (Query_wps len)
  then show ?thesis using query_reply(2) [OF rel] rel by simp
next
  case (Set_register r v)
  obtain env' where "vx64_set_reg r v env = Done (env', if settable r then VXERR_OK else VXERR_FAIL)" "dbg_rel env' d"
    using set_reg_rel(2) [OF rel] nf Set_register by blast
  then show ?thesis by (simp add: Set_register vx_call_def status_of_def bind_out_def)
next
  case (Flush_page a)
  have "dbg_rel (tlb_flush_page env a) d" by (rule rel_same [OF rel]) (simp add: same_points_def)
  then show ?thesis by (simp add: Flush_page vx_call_def status_of_def bind_out_def vx64_flush_tlb_def)
next
  case Reset_cpu
  have "dbg_rel (tlb_flush (tb_flush env)) d"
    by (rule rel_same [OF rel]) (simp add: same_points_def tlb_flush_def tb_flush_def)
  then show ?thesis by (simp add: Reset_cpu vx_call_def status_of_def bind_out_def vx64_reset_def)
qed

lemma session_rel: "session env d \<Longrightarrow> dbg_rel env d"
proof (induction rule: session.induct)
  case (session_start env)
  then show ?case using inv_dr_reset by (simp add: dbg_rel_def user_bps_def user_wps_def)
next
  case (session_call env d c env' r)
  then have "\<not> uses_freed c env" using call_freed [of env d c] by auto
  then show ?case using call_rel [of env d c] session_call by auto
next
  case (session_guest env d r v env')
  then show ?case using rel_guest_write by blast
next
  case (session_task env d env')
  then show ?case using rel_task by blast
next
  case (session_other env d env' v)
  then show ?case using rel_other by blast
qed

subsection \<open>The client's view\<close>

text \<open>C40. The client's break- and watchpoints are two lists. However the client inserts, removes, clears and queries
  them, sets registers and resets the CPU, and however the guest uses the debug registers, switches tasks and hits
  watchpoints in between, every call does what the specification says: what is inserted is in front of what a query
  returns, with its address, size and type; removing takes away the newest entry that is equal, or fails; a query
  copies what fits, tells how many there are and whether the buffer was too small. The entries of the guest's debug
  registers, which are in the same lists, never show and are never removed. The one exception is to set a debug
  register while it, or for DR7 any of them, refers to a watchpoint that a task switch of the guest has freed: that
  call uses the freed entry.\<close>

theorem debugger_refines:
  assumes "session env d"
  shows "if uses_freed c env then vx_call c env = Abort
    else \<exists>env'. vx_call c env = Done (env', snd (dbg_call c d)) \<and> session env' (fst (dbg_call c d))"
proof (cases "uses_freed c env")
  case True
  then show ?thesis using call_freed [OF session_rel [OF assms]] by simp
next
  case False
  then obtain env' where "vx_call c env = Done (env', snd (dbg_call c d))"
    using call_rel [OF session_rel [OF assms]] by blast
  then show ?thesis using session_call [OF assms] False by auto
qed

text \<open>
  The guest enables a watchpoint of its own, the client sets a breakpoint and a watchpoint, the guest switches tasks,
  and the client asks; then it clears DR7.
\<close>

lemma demo_session: "session reset_demo \<lparr>dg_bps = [], dg_wps = []\<rparr>"
  by (rule session_start) (simp_all add: reset_demo_def zero_env_def)

lemma session_step:
  assumes "session env d" "\<not> uses_freed c env"
  shows "\<exists>env'. vx_call c env = Done (env', snd (dbg_call c d)) \<and> session env' (fst (dbg_call c d))"
proof -
  obtain env' where "vx_call c env = Done (env', snd (dbg_call c d))"
    using call_rel [OF session_rel [OF assms(1)] assms(2)] by blast
  then show ?thesis using session_call [OF assms(1)] by blast
qed

theorem debugger_refines_witness:
  "\<exists>env env'. session env \<lparr>dg_bps = [0x1000], dg_wps = [\<lparr>vw_type = 2, vw_gvma = 0x2000, vw_size = 8\<rparr>]\<rparr> \<and>
    freed_wp env 0 \<and>
    vx_call (Query_wps 4) env = Done (env', Watch_points [\<lparr>vw_type = 2, vw_gvma = 0x2000, vw_size = 8\<rparr>] 1 VXERR_OK) \<and>
    vx_call (Set_register VXR_DR7 0) env = Abort"
proof -
  let ?d = "\<lparr>dg_bps = [0x1000], dg_wps = [\<lparr>vw_type = 2, vw_gvma = 0x2000, vw_size = 8\<rparr>]\<rparr>"
  have nf: "\<not> writes_freed reset_demo 7" by (simp add: writes_freed_def freed_wp_def reset_demo_def zero_env_def)
  obtain env1 where g: "helper_movl_drN_T0 reset_demo 7 0x10001 = Done env1" "dr env1 = (dr reset_demo)(7 := 0x10001)"
    by (rule movl_drN [OF dr_run_ok [OF reset_demo_run] _ nf, of "0x10001"]) simp_all
  have s1: "session env1 \<lparr>dg_bps = [], dg_wps = []\<rparr>" by (rule session_guest [OF demo_session _ g(1)]) simp
  have "\<not> uses_freed (Insert_bp 0x1000) env1" by simp
  with session_step [OF s1] obtain env2 where c2: "vx_call (Insert_bp 0x1000) env1 = Done (env2, Status VXERR_OK)"
    and s2: "session env2 \<lparr>dg_bps = [0x1000], dg_wps = []\<rparr>"
    by fastforce
  have "watchable 0x2000 8" by (simp add: watchpoint_ok_def flip: watchpoint_ok_iff)
  then obtain env3 where c3: "vx_call (Insert_wp 0x2000 8 2) env2 = Done (env3, Status VXERR_OK)" and s3: "session env3 ?d"
    using session_step [OF s2, of "Insert_wp 0x2000 8 2"] by auto
  have d: "dr env3 = (dr reset_demo)(7 := 0x10001)"
    using c2 c3 g(2)
    by (auto simp: vx_call_def status_of_def vx64_insert_bp_def vx64_insert_wp_def cpu_breakpoint_insert_def
        cpu_watchpoint_insert_def Let_def split: if_splits)
  have ok: "dr_ok env3" using session_rel [OF s3] by (simp add: dbg_rel_def)
  obtain env4 where t: "switch_tss_debug env3 = Done env4"
    "live env4 = live env3 - {i \<in> all_drs. owns_wp (dr env3) i \<and> local_only (dr env3 7) i}"
    by (rule inv_dr_task [OF ok])
  have s4: "session env4 ?d" by (rule session_task [OF s3 t(1)])
  have "owns_wp (dr env3) 0" using dr7_data by (simp add: owns_wp_def d watchpoint_ok_def reset_demo_def)
  then have "0 \<notin> live env4" unfolding t(2) using dr7_data(3) by (simp add: d)
  then have f4: "freed_wp env4 0" by (simp add: live_def)
  obtain env5 where "vx_call (Query_wps 4) env4 = Done (env5, Watch_points [\<lparr>vw_type = 2, vw_gvma = 0x2000, vw_size = 8\<rparr>] 1 VXERR_OK)"
    using debugger_refines [OF s4, of "Query_wps 4"] by (auto simp: shown_def)
  moreover have "vx_call (Set_register VXR_DR7 0) env4 = Abort"
    using debugger_refines [OF s4, of "Set_register VXR_DR7 0"] f4 by (simp add: writes_freed_def)
  ultimately show ?thesis using s4 f4 by blast
qed

end
