(* ===== verification/Spec2Isabelle.thy ===== *)
theory Spec2Isabelle
  imports HostUtils Int128 CondCodes IntHelper DebugRegsInv ControlRegsInv MsrSpec SegSafety TcgPass VxMemory VxDebug
begin

text \<open>
  Verification library for \<open>vx64\<close>, the emulator library of this repository (\<open>src/vx64\<close>): a client (a user-mode
  runtime for Windows programs) maps its own memory into an emulated x86-64 machine, sets registers, lets it run, and
  takes back control at traps, break- and watchpoints. The library is a C interface (\<open>vx64.c\<close>) over a cut-down QEMU
  (\<open>vx64/qemu\<close>). Definitions keep the names of the C code; paths below are relative to \<open>src/vx64/qemu\<close>.

  \<^bold>\<open>How the program works.\<close> \<open>vx64_setup_ram\<close> allocates a RAM block, hangs a region into the tree of memory regions
  (\<open>memory.c\<close>) and commits: the tree is rendered to a flat view, and the listener of \<open>exec.c\<close> rebuilds the dispatch
  tables from it. \<open>vx64_go\<close> runs the guest: code is translated to the intermediate code of TCG, optimized
  (\<open>tcg/optimize.c\<close>), compiled and executed; generated code calls the helpers of \<open>target-i386\<close> for what is complicated,
  and reaches memory through the software TLB (\<open>cputlb.c\<close>), which the page walk of \<open>target-i386/helper.c\<close> fills.

  \<^bold>\<open>The models.\<close> Each helper is a function on \<open>cpu_state\<close> (\<open>struct CPUX86State\<close>, theory \<open>CpuState\<close>, with the devices of
  the host that a helper touches). C integers are words of their width; signed values are read with \<open>sint\<close>. A
  helper that may raise a fault gives an \<open>outcome\<close>: it is done, or left by \<open>longjmp\<close> to the CPU loop with the state
  of that moment, or left to a nested hypervisor, or aborted (\<open>assert\<close>, \<open>abort\<close>, use of a freed entry). Where an abort
  is the only failure the result is an option.

  \<^item> \<open>VxPrelude\<close>: word types, rule collections, facts on carries, divisions and lists. \<open>CpuState\<close>, \<open>CpuInline\<close>,
    \<open>GuestMem\<close>: the state, the inline functions of \<open>cpu.h\<close>, memory by physical address.
  \<^item> Arithmetic. \<open>CondCodes\<close>: the lazily computed flags (\<open>cc_helper.c\<close>). \<open>HostUtils\<close>: 64 by 64 bit products
    (\<open>util/host-utils.c\<close>). \<open>IntHelper\<close>: division, decimal adjustment, bit scans, rotations through carry
    (\<open>int_helper.c\<close>, \<open>shift_helper_template.h\<close>). \<open>Int128\<close>: \<open>include/qemu/int128.h\<close>. The theorems compare with
    arithmetic on integers and with the flags as the processor manual defines them.
  \<^item> Faults. \<open>ExcpHelper\<close>: \<open>excp_helper.c\<close>, against the table of benign and contributory exceptions, for one fault and for
    any number of them (\<open>raise_all\<close>).
  \<^item> Address translation. \<open>Tlb\<close>: \<open>cputlb.c\<close> and the part of \<open>translate-all.c\<close> that forgets jumps; invariants
    of every run of TLB operations (\<open>tlb_run\<close>). \<open>Mmu\<close>, \<open>MmuWalk\<close>: the page walk for all paging modes, against a
    walk written after the architecture, and the walk of the debugger (they differ with PAE on and paging off). \<open>SoftMmu\<close>, \<open>SoftMmuFrame\<close>: loads and stores of the guest
    (\<open>softmmu_template.h\<close>, \<open>exec.c\<close>); the contract that the segmentation helpers use is the locale \<open>kernel_memory\<close>,
    interpreted at both privilege levels of access.
  \<^item> System registers. \<open>ControlRegs\<close>, \<open>ControlRegsInv\<close>: CR0, CR3, CR4, A20 and EFER with the hidden flags and the TLB
    flushes. \<open>Msr\<close>, \<open>MsrPlaces\<close>, \<open>MsrSpec\<close>: model-specific registers (\<open>misc_helper.c\<close>).
  \<^item> Break- and watchpoints. \<open>PointList\<close>: what both kinds of lists have in common, as the locale \<open>point_list\<close>, which
    \<open>Breakpoints\<close> interprets on the operations of \<open>exec.c\<close>. \<open>DebugRegs\<close>, \<open>DebugRegsInv\<close>: the debug registers, whose
    entries share the lists, over runs with task switches: these free data watchpoints that a register still refers to
    (\<open>freed_wp\<close>), and the theorems say exactly which later operations use a freed one. \<open>VxCpu\<close>, \<open>VxDebug\<close>: the interface
    of \<open>vx64.c\<close> to the CPU, and the refinement of the lists that a client sees.
  \<^item> Segmentation and control transfer. \<open>Seg\<close>, \<open>SegInt\<close>, \<open>SegJump\<close>: \<open>seg_helper.c\<close> (descriptors, task switches,
    interrupts in real, protected and long mode, system calls, far jumps, calls and returns, checks). \<open>SegFrame\<close> holds
    the rules by which these long helpers are verified piece by piece, \<open>SegInv\<close> the invariant of the privilege level
    over all steps (\<open>seg_step\<close>), \<open>SegSafety\<close> the protection properties, \<open>SegDemo\<close> a small machine for examples.
  \<^item> The optimizer. \<open>TcgOps\<close>: intermediate code. \<open>TcgOptimize\<close>: the pass. \<open>TcgSem\<close>: the meaning of the code after
    \<open>tcg/README\<close>. \<open>TcgTemps\<close>, \<open>TcgFold\<close>, \<open>TcgStep\<close>, \<open>TcgZero\<close>, \<open>TcgKnownBits\<close>, \<open>TcgKnown\<close>, \<open>TcgKeep\<close>, \<open>TcgCond\<close>,
    \<open>TcgFoldOps\<close>, \<open>TcgCommute\<close>: what the pass believes of temporaries, and one theory per group of rewritings;
    \<open>TcgPass\<close> puts them together.
  \<^item> Physical memory. \<open>PageArith\<close>, \<open>PhysMap\<close>, \<open>PhysMapInv\<close>, \<open>PhysMapSec\<close>, \<open>PhysMapDestroy\<close>: the sections and the
    multi-level map of \<open>exec.c\<close>, the partial map that they stand for, building and tearing down. \<open>RamBlocks\<close>:
    allocation of RAM addresses. \<open>MemRegion\<close>, \<open>MemView\<close>, \<open>MemFlat\<close>: region trees, what they mean (\<open>addr_target\<close>), and
    that rendering computes it. \<open>MemOps\<close>, \<open>MemTopology\<close>: operations and transactions of \<open>memory.c\<close>. \<open>MemBound\<close>:
    bounds for boards of RAM. \<open>PhysAccess\<close>: \<open>address_space_rw\<close>. \<open>VxRam\<close>, \<open>VxRamCalls\<close>: \<open>vx64_setup_ram\<close> and
    \<open>vx64_remove_ram\<close> keep a board well formed. \<open>VxMemory\<close>: the whole chain refines byte memory.

  \<^bold>\<open>What spans components.\<close> The optimized code computes what the code computed before (\<open>tcg_optimize_correct\<close>); a control
  register write leaves no stale entry in the TLB, judged by the page walk (\<open>cr_write_tlb_consistent\<close>); committing
  a change of the region tree makes the dispatch tables agree with it (\<open>commit_rebuilds_dispatch\<close>); the client's memory
  (\<open>guest_memory_refines\<close>) and its debugger (\<open>debugger_refines\<close>) are simulations of simple specifications by the
  library's interface, over all sequences of calls.

  \<^bold>\<open>Loops, fuel and bounds.\<close> Loops over lists and fixed counts are structural recursion. The bit scans and the walk along
  the copies of a temporary, which C does not bound, are partial functions with an option as their result, and it is proved when
  they return. Rendering recurses through aliases, and takes fuel: a ranking of the tree by depth is enough fuel
  (\<open>flat_view_is_tree\<close>), and 2 is enough for the boards of \<open>vx64_setup_ram\<close>, whose regions are all children of the root.
  The page map has a fixed array of nodes: \<open>commit_rebuilds_dispatch\<close> asks for at most 4681 registrations, so that no
  node is missing; 780 regions give at most 1560 ranges and thus at most 4680 registrations, hence the bound of
  \<open>guest_memory_refines\<close>. Physical addresses stay below 2 ^ 52, the width of the map. RAM addresses are never used again
  in front of the first block, so that the number of operations is bounded too (2 ^ 31 operations of less than 2 ^ 32
  bytes each stay below 2 ^ 63).

  \<^bold>\<open>Parameters.\<close> Devices behind memory-mapped I/O, the CPU execution loop of \<open>vx64_go\<close>, and the host around guest memory in
  \<open>SoftMmu\<close> (the record \<open>machine\<close>: devices, the place of RAM, calls into the translator) are arguments of the
  definitions that use them. The library counts instructions (\<open>use_icount\<close> is 1), so that an access to a device in the
  middle of a translated block leaves for the CPU loop (\<open>cpu_io_recompile\<close>); what the translator does there is such a
  parameter, and the theorems speak of accesses that complete.

  \<^bold>\<open>Not modelled.\<close> The translator, which would need the semantics of all of x86; the code generator and the execution
  of its output, whose meaning is that of the host; floating point and SSE (vendored arithmetic); SVM and SMM, which the
  library never enters; tables of CPU models; QEMU's object model, serialisation, disassembler and utilities; DMA
  mapping and \<open>cpu_memory_rw_debug\<close>; parts of \<open>memory.c\<close> that the library never calls (I/O events, coalesced MMIO,
  port lists, printing); \<open>setcond2_i32\<close>, an opcode of 32-bit hosts, which the pass treats but \<open>wf_code\<close> leaves out;
  and the tools in C++.
\<close>

end
